(* ===== verification/Prelude.thy ===== *)
theory Prelude
  imports Main "HOL-Library.AList"
begin

text \<open>
  Shared vocabulary of the development: Go's \<^verbatim>\<open>time.Time\<close> and
  \<^verbatim>\<open>time.Duration\<close>, 64-bit wrap-around, Go maps as association lists,
  decimal formatting, and the generic lemmas on them that the component theories use.

  \<^item> A \<open>time\<close> counts nanoseconds since Go's zero time, so \<^verbatim>\<open>IsZero\<close> is the
    test against \<open>0\<close>. A \<open>duration\<close> is a count of nanoseconds.
  \<^item> \<open>time_sub\<close> is \<^verbatim>\<open>Time.Sub\<close>, which saturates at the range of a 64-bit duration.
  \<^item> \<open>wrap64\<close> is the two's complement result of 64-bit signed arithmetic.
  \<^item> A Go map is an association list with distinct keys (\<open>gomap_ok\<close>): \<open>map_of\<close> reads it,
    \<open>AList.update\<close> stores, \<open>AList.delete\<close> deletes, \<open>length\<close> is \<^verbatim>\<open>len\<close>. Go leaves the
    order of iteration open; results that depend on it are only used through their sets.
\<close>

named_theorems go_simps \<open>evaluation rules of the Go vocabulary\<close>

section \<open>Time and machine integers\<close>

type_synonym time = int
type_synonym duration = int
type_synonym ('k, 'v) gomap = "('k \<times> 'v) list"

abbreviation second :: duration where "second \<equiv> 1000000000"
abbreviation minute :: duration where "minute \<equiv> 60000000000"
abbreviation hour :: duration where "hour \<equiv> 3600000000000"

abbreviation max_int64 :: int where "max_int64 \<equiv> 9223372036854775807"
abbreviation min_int64 :: int where "min_int64 \<equiv> - 9223372036854775808"

definition is_zero_time :: "time \<Rightarrow> bool" where
  "is_zero_time t \<longleftrightarrow> t = 0"

definition time_sub :: "time \<Rightarrow> time \<Rightarrow> duration" where
  "time_sub t u = max min_int64 (min max_int64 (t - u))"

definition wrap64 :: "int \<Rightarrow> int" where
  "wrap64 x = (x + 9223372036854775808) mod 18446744073709551616 - 9223372036854775808"

definition truncate_time :: "time \<Rightarrow> duration \<Rightarrow> time" where
  "truncate_time t d = (if d \<le> 0 then t else t - t mod d)"

text \<open>\<^verbatim>\<open>Time.UnixNano\<close> and \<^verbatim>\<open>Time.Unix\<close>; the zero time is 62135596800 s before the epoch.\<close>

definition unix_nano :: "time \<Rightarrow> int" where
  "unix_nano t = wrap64 (t - 62135596800 * second)"

definition unix_sec :: "time \<Rightarrow> int" where
  "unix_sec t = (t - 62135596800 * second) div second"

section \<open>Go maps\<close>

abbreviation gomap_ok :: "('k, 'v) gomap \<Rightarrow> bool" where
  "gomap_ok m \<equiv> distinct (map fst m)"

definition gomap_get :: "'v \<Rightarrow> ('k, 'v) gomap \<Rightarrow> 'k \<Rightarrow> 'v" where
  "gomap_get zero m k = (case map_of m k of None \<Rightarrow> zero | Some v \<Rightarrow> v)"

definition gomap_filter :: "('k \<Rightarrow> 'v \<Rightarrow> bool) \<Rightarrow> ('k, 'v) gomap \<Rightarrow> ('k, 'v) gomap" where
  "gomap_filter P m = filter (\<lambda>(k, v). P k v) m"

section \<open>Strings\<close>

definition has_prefix :: "string \<Rightarrow> string \<Rightarrow> bool" where
  "has_prefix s p \<longleftrightarrow> take (length p) s = p"

text \<open>\<^verbatim>\<open>strings.ToLower\<close> and \<^verbatim>\<open>strings.Contains\<close> on ASCII text.\<close>

definition to_lower :: "string \<Rightarrow> string" where
  "to_lower s = map (\<lambda>c. if 65 \<le> (of_char c :: nat) \<and> (of_char c :: nat) \<le> 90
                       then char_of ((of_char c :: nat) + 32) else c) s"

fun contains_str :: "string \<Rightarrow> string \<Rightarrow> bool" where
  "contains_str [] p = (p = [])"
| "contains_str (c # s) p = (has_prefix (c # s) p \<or> contains_str s p)"

text \<open>A byte as two hexadecimal digits, Go's \<^verbatim>\<open>%q\<close> and the JSON form of a string, on ASCII text.\<close>

definition hex_digit :: "nat \<Rightarrow> char" where
  "hex_digit n = (if n < 10 then char_of (48 + n) else char_of (87 + n))"

definition hex_byte :: "char \<Rightarrow> string" where
  "hex_byte c = [hex_digit ((of_char c :: nat) div 16), hex_digit ((of_char c :: nat) mod 16)]"

definition quote_char :: "char \<Rightarrow> string" where
  "quote_char c = (let n = (of_char c :: nat) in
     if n = 34 \<or> n = 92 then [CHR 0x5C, c]
     else if n = 7 then [CHR 0x5C, CHR ''a''] else if n = 8 then [CHR 0x5C, CHR ''b'']
     else if n = 9 then [CHR 0x5C, CHR ''t''] else if n = 10 then [CHR 0x5C, CHR ''n'']
     else if n = 11 then [CHR 0x5C, CHR ''v''] else if n = 12 then [CHR 0x5C, CHR ''f'']
     else if n = 13 then [CHR 0x5C, CHR ''r'']
     else if n < 32 \<or> n = 127 then [CHR 0x5C, CHR ''x''] @ hex_byte c
     else [c])"

definition go_quote :: "string \<Rightarrow> string" where
  "go_quote s = CHR 0x22 # concat (map quote_char s) @ [CHR 0x22]"

definition json_char :: "char \<Rightarrow> string" where
  "json_char c = (let n = (of_char c :: nat) in
     if n = 34 \<or> n = 92 then [CHR 0x5C, c]
     else if n = 8 then [CHR 0x5C, CHR ''b''] else if n = 9 then [CHR 0x5C, CHR ''t'']
     else if n = 10 then [CHR 0x5C, CHR ''n''] else if n = 12 then [CHR 0x5C, CHR ''f'']
     else if n = 13 then [CHR 0x5C, CHR ''r'']
     else if n < 32 \<or> n = 60 \<or> n = 62 \<or> n = 38 then [CHR 0x5C, CHR ''u'', CHR ''0'', CHR ''0''] @ hex_byte c
     else [c])"

definition json_string :: "string \<Rightarrow> string" where
  "json_string s = CHR 0x22 # concat (map json_char s) @ [CHR 0x22]"

fun join :: "string \<Rightarrow> string list \<Rightarrow> string" where
  "join sep [] = []"
| "join sep [x] = x"
| "join sep (x # xs) = x @ sep @ join sep xs"

definition json_strings :: "string list \<Rightarrow> string" where
  "json_strings xs = ''['' @ join '','' (map json_string xs) @ '']''"

fun show_nat :: "nat \<Rightarrow> string" where
  "show_nat n = (if n < 10 then [char_of (48 + n)]
                 else show_nat (n div 10) @ [char_of (48 + n mod 10)])"

declare show_nat.simps [simp del]

definition show_int :: "int \<Rightarrow> string" where
  "show_int i = (if i < 0 then CHR ''-'' # show_nat (nat (- i)) else show_nat (nat i))"

section \<open>Lemmas\<close>

lemma wrap64_id [simp]: "min_int64 \<le> x \<Longrightarrow> x \<le> max_int64 \<Longrightarrow> wrap64 x = x"
  by (simp add: wrap64_def)

lemma wrap64_range: "min_int64 \<le> wrap64 x \<and> wrap64 x \<le> max_int64"
  unfolding wrap64_def
  using pos_mod_bound [of "18446744073709551616" "x + 9223372036854775808"]
    pos_mod_sign [of "18446744073709551616" "x + 9223372036854775808"]
  by simp

lemma wrap64_minus_one_turn: "max_int64 < x \<Longrightarrow> x \<le> 3 * max_int64 + 2 \<Longrightarrow>
  wrap64 x = x - 18446744073709551616"
  unfolding wrap64_def by (simp add: mod_pos_geq)

lemma time_sub_self [simp]: "time_sub t t = 0"
  by (simp add: time_sub_def)

lemma time_sub_mono: "t \<le> t' \<Longrightarrow> time_sub t u \<le> time_sub t' u"
  by (auto simp: time_sub_def)

lemma time_sub_ge_iff: "min_int64 < d \<Longrightarrow> d \<le> max_int64 \<Longrightarrow> d \<le> time_sub t u \<longleftrightarrow> u + d \<le> t"
  by (auto simp: time_sub_def)

lemma time_sub_less_iff: "min_int64 < d \<Longrightarrow> d \<le> max_int64 \<Longrightarrow> time_sub t u < d \<longleftrightarrow> t < u + d"
  by (auto simp: time_sub_def)

lemma time_sub_gt_iff: "min_int64 \<le> d \<Longrightarrow> d < max_int64 \<Longrightarrow> d < time_sub t u \<longleftrightarrow> u + d < t"
  by (auto simp: time_sub_def)

lemma truncate_time_le: "0 < d \<Longrightarrow> truncate_time t d \<le> t"
  by (simp add: truncate_time_def)

lemma truncate_time_gt: "0 < d \<Longrightarrow> t < truncate_time t d + d"
  using pos_mod_bound [of d t] by (simp add: truncate_time_def)

lemma map_of_update [simp]: "map_of (AList.update k v m) = (map_of m)(k \<mapsto> v)"
  by (simp add: update_conv')

lemma map_of_delete [simp]: "map_of (AList.delete k m) = (map_of m)(k := None)"
  by (simp add: delete_conv')

lemma set_update_subset: "set (AList.update k v m) \<subseteq> insert (k, v) (set m)"
  by (induction m) auto

lemma gomap_ok_update [simp]: "gomap_ok m \<Longrightarrow> gomap_ok (AList.update k v m)"
  by (rule distinct_update)

lemma gomap_ok_delete [simp]: "gomap_ok m \<Longrightarrow> gomap_ok (AList.delete k m)"
  by (rule distinct_delete)

lemma gomap_ok_filter [simp]: "gomap_ok m \<Longrightarrow> gomap_ok (gomap_filter P m)"
  by (induction m) (auto simp: gomap_filter_def)

lemma map_of_gomap_filter:
  "gomap_ok m \<Longrightarrow> map_of (gomap_filter P m) k =
     (case map_of m k of None \<Rightarrow> None | Some v \<Rightarrow> if P k v then Some v else None)"
proof (induction m)
  case Nil
  show ?case by (simp add: gomap_filter_def)
next
  case (Cons x m)
  have "map_of m (fst x) = None"
    using Cons.prems by (simp add: map_of_eq_None_iff)
  with Cons show ?case
    by (cases x) (auto simp: gomap_filter_def split: option.splits)
qed

lemma gomap_get_update [simp]:
  "gomap_get z (AList.update k v m) k' = (if k' = k then v else gomap_get z m k')"
  by (simp add: gomap_get_def)

lemma gomap_get_delete [simp]:
  "gomap_get z (AList.delete k m) k' = (if k' = k then z else gomap_get z m k')"
  by (simp add: gomap_get_def)

lemma gomap_get_Some: "map_of m k = Some v \<Longrightarrow> gomap_get z m k = v"
  by (simp add: gomap_get_def)

lemma gomap_get_neq: "gomap_get z m k \<noteq> z \<Longrightarrow> map_of m k = Some (gomap_get z m k)"
  by (cases "map_of m k") (simp_all add: gomap_get_def)

lemma gomap_get_Nil [simp]: "gomap_get z [] k = z"
  by (simp add: gomap_get_def)

lemma has_prefix_append [simp]: "has_prefix (p @ s) p"
  by (simp add: has_prefix_def)

lemma has_prefix_iff: "has_prefix s p \<longleftrightarrow> (\<exists>r. s = p @ r)"
  unfolding has_prefix_def by (metis append_eq_conv_conj append_take_drop_id)

lemma sorted_append_mono: "sorted xs \<Longrightarrow> (\<forall>x\<in>set xs. x \<le> (y::int)) \<Longrightarrow> sorted (xs @ [y])"
  by (simp add: sorted_append)

lemma append_sep_inject:
  "c \<notin> set xs \<Longrightarrow> c \<notin> set xs' \<Longrightarrow> xs @ c # ys = xs' @ c # ys' \<longleftrightarrow> xs = xs' \<and> ys = ys'"
proof (induction xs arbitrary: xs')
  case Nil
  then show ?case by (cases xs') auto
next
  case (Cons x xs)
  then show ?case by (cases xs') auto
qed

lemma append_sep_inject_last:
  assumes "c \<notin> set ys" "c \<notin> set ys'"
  shows "xs @ c # ys = xs' @ c # ys' \<longleftrightarrow> xs = xs' \<and> ys = ys'"
proof -
  have "xs @ c # ys = xs' @ c # ys' \<longleftrightarrow> rev ys @ c # rev xs = rev ys' @ c # rev xs'"
    by (metis (no_types, opaque_lifting) rev_append rev.simps(2) rev_rev_ident append_assoc append_Cons append_Nil)
  then show ?thesis using assms append_sep_inject [of c "rev ys" "rev ys'"] by auto
qed

text \<open>Decimal digits: no sign character, and different numbers have different texts.\<close>

lemma of_char_digit: "m < 10 \<Longrightarrow> of_char (char_of (48 + m) :: char) = 48 + (m :: nat)"
  by (simp add: of_char_of)

lemma char_of_digit_inject:
  assumes "m < 10" "n < 10" "char_of (48 + m) = (char_of (48 + n) :: char)"
  shows "m = (n :: nat)"
  using arg_cong [OF assms(3), of "of_char :: char \<Rightarrow> nat"] assms(1,2) by (simp add: of_char_digit del: of_char_of)

lemma char_of_digit_not_minus:
  assumes "m < (10 :: nat)"
  shows "char_of (48 + m) \<noteq> CHR ''-''"
proof
  assume "char_of (48 + m) = CHR ''-''"
  then have "of_char (char_of (48 + m) :: char) = (of_char (CHR ''-'') :: nat)" by simp
  with of_char_digit [OF assms] show False by (simp del: of_char_of)
qed

lemma show_nat_no_minus: "CHR ''-'' \<notin> set (show_nat n)"
proof (induction n rule: show_nat.induct)
  case (1 n)
  then show ?case
    using char_of_digit_not_minus [of n] char_of_digit_not_minus [of "n mod 10"]
    by (subst show_nat.simps) auto
qed

lemma show_nat_not_Nil [simp]: "show_nat n \<noteq> []"
  by (subst show_nat.simps) simp

lemma show_nat_inject: "show_nat m = show_nat n \<Longrightarrow> m = n"
proof (induction m arbitrary: n rule: show_nat.induct)
  case (1 m)
  show ?case
  proof (cases "m < 10 \<or> n < 10")
    case True
    then have "m < 10 \<and> n < 10"
      using 1(2) by (subst (asm) (1 2) show_nat.simps) (auto split: if_splits simp: append_eq_Cons_conv Cons_eq_append_conv)
    with 1(2) show ?thesis
      by (subst (asm) (1 2) show_nat.simps) (auto dest: char_of_digit_inject)
  next
    case False
    then have "show_nat (m div 10) = show_nat (n div 10)"
      "char_of (48 + m mod 10) = (char_of (48 + n mod 10) :: char)"
      using 1(2) by (subst (asm) (1 2) show_nat.simps, simp)+
    with 1(1) False have "m div 10 = n div 10" "m mod 10 = n mod 10"
      by (auto dest: char_of_digit_inject [rotated 2])
    then show ?thesis by (metis div_mult_mod_eq)
  qed
qed

section \<open>Maps built in a loop\<close>

lemma map_of_fold_update:
  assumes "distinct (map k xs)"
  shows "map_of (fold (\<lambda>x. AList.update (k x) (v x)) xs m) = map_of m ++ map_of (map (\<lambda>x. (k x, v x)) xs)"
  using assms
proof (induction xs arbitrary: m)
  case (Cons x xs)
  then have fresh: "map_of (map (\<lambda>x. (k x, v x)) xs) (k x) = None"
    by (force simp: map_of_eq_None_iff)
  have "map_of (fold (\<lambda>x. AList.update (k x) (v x)) (x # xs) m) a
      = (map_of m ++ map_of (map (\<lambda>x. (k x, v x)) (x # xs))) a" for a
    using Cons fresh by (cases "a = k x") (simp_all add: update_conv map_add_def split: option.splits)
  then show ?case by blast
qed simp

lemma map_of_map_distinct:
  "distinct (map k xs) \<Longrightarrow> map_of (map (\<lambda>x. (k x, v x)) xs) a = Some b \<longleftrightarrow> (\<exists>x\<in>set xs. k x = a \<and> v x = b)"
  by (subst map_of_eq_Some_iff) (auto simp: comp_def)

section \<open>Suffixes\<close>

definition last_n :: "nat \<Rightarrow> 'a list \<Rightarrow> 'a list" where
  "last_n n xs = drop (length xs - n) xs"

lemma last_n_last_n: "last_n k (last_n n xs) = last_n (min k n) xs"
proof -
  have "length xs - (length xs - n) - k + (length xs - n) = length xs - min k n"
    by linarith
  then show ?thesis by (simp add: last_n_def)
qed

lemma last_n_snoc: "last_n n (last_n n xs @ [x]) = last_n n (xs @ [x])"
proof (cases n)
  case (Suc k)
  have "last_n n (ys @ [x]) = last_n k ys @ [x]" for ys :: "'a list"
    by (simp add: last_n_def Suc)
  then show ?thesis by (simp add: last_n_last_n Suc)
qed (simp add: last_n_def)

lemma map_last_n: "map f (last_n n xs) = last_n n (map f xs)"
  by (simp add: last_n_def drop_map)

section \<open>Errors\<close>

text \<open>
  A step that may fail returns \<open>Inl\<close> of its error or \<open>Inr\<close> of its result; \<open>bindE\<close> runs the next step
  on the result. A check returns \<open>Some\<close> of its error or \<open>None\<close>; \<open>andThen\<close> runs the next check
  when the first one passed.
\<close>

definition bindE :: "'e + 'a \<Rightarrow> ('a \<Rightarrow> 'e + 'b) \<Rightarrow> 'e + 'b" where
  "bindE x f = (case x of Inl e \<Rightarrow> Inl e | Inr y \<Rightarrow> f y)"

lemma bindE_simps [simp]: "bindE (Inl e) f = Inl e" "bindE (Inr y) f = f y"
  by (simp_all add: bindE_def)

lemma bindE_cong [fundef_cong]:
  "x = x' \<Longrightarrow> (\<And>y. x' = Inr y \<Longrightarrow> f y = f' y) \<Longrightarrow> bindE x f = bindE x' f'"
  by (cases x') simp_all

lemma bindE_eq_Inr: "bindE x f = Inr z \<longleftrightarrow> (\<exists>y. x = Inr y \<and> f y = Inr z)"
  by (cases x) simp_all

fun mapE :: "('a \<Rightarrow> 'e + 'b) \<Rightarrow> 'a list \<Rightarrow> 'e + 'b list" where
  "mapE f [] = Inr []"
| "mapE f (x # xs) = bindE (f x) (\<lambda>y. bindE (mapE f xs) (\<lambda>ys. Inr (y # ys)))"

lemma mapE_eq_Inr: "mapE f xs = Inr ys \<longleftrightarrow> list_all2 (\<lambda>x y. f x = Inr y) xs ys"
  by (induction xs arbitrary: ys) (auto simp: bindE_eq_Inr list_all2_Cons1)

lemma mapE_idem:
  assumes "mapE f xs = Inr ys" "\<And>x y. x \<in> set xs \<Longrightarrow> f x = Inr y \<Longrightarrow> f y = Inr y"
  shows "mapE f ys = Inr ys"
  using assms unfolding mapE_eq_Inr list_all2_conv_all_nth by (metis nth_mem)

definition optE :: "('a \<Rightarrow> 'e + 'b) \<Rightarrow> 'a option \<Rightarrow> 'e + 'b option" where
  "optE f x = (case x of None \<Rightarrow> Inr None | Some y \<Rightarrow> bindE (f y) (\<lambda>z. Inr (Some z)))"

lemma optE_eq_Inr:
  "optE f x = Inr z \<longleftrightarrow> (case x of None \<Rightarrow> z = None | Some y \<Rightarrow> (\<exists>w. f y = Inr w \<and> z = Some w))"
  by (auto simp: optE_def bindE_eq_Inr split: option.splits)

definition andThen :: "'e option \<Rightarrow> 'e option \<Rightarrow> 'e option" where
  "andThen a b = (case a of Some e \<Rightarrow> Some e | None \<Rightarrow> b)"

lemma andThen_simps [simp]: "andThen None b = b" "andThen (Some e) b = Some e"
  by (simp_all add: andThen_def)

lemma andThen_None [simp]: "andThen a b = None \<longleftrightarrow> a = None \<and> b = None"
  by (cases a) simp_all

lemma andThen_cong [fundef_cong]:
  "a = a' \<Longrightarrow> (a' = None \<Longrightarrow> b = b') \<Longrightarrow> andThen a b = andThen a' b'"
  by (cases a') simp_all

fun first_failed :: "(bool \<times> 'e) list \<Rightarrow> 'e option" where
  "first_failed [] = None"
| "first_failed ((bad, e) # cs) = (if bad then Some e else first_failed cs)"

lemma first_failed_None: "first_failed cs = None \<longleftrightarrow> (\<forall>(bad, e)\<in>set cs. \<not> bad)"
  by (induction cs rule: first_failed.induct) auto

fun all_passed :: "('a \<Rightarrow> 'e option) \<Rightarrow> 'a list \<Rightarrow> 'e option" where
  "all_passed f [] = None"
| "all_passed f (x # xs) = andThen (f x) (all_passed f xs)"

lemma all_passed_None: "all_passed f xs = None \<longleftrightarrow> (\<forall>x\<in>set xs. f x = None)"
  by (induction xs) auto

end
