(* ===== verification/Types.thy ===== *)
theory Types
  imports Prelude
begin

text \<open>
  The core data of \<^verbatim>\<open>pkg/types/types.go\<close>: events, conditions, statuses and problems,
  their constructors, validators and builders.

  Severities and condition statuses are Go string types, so they are strings here; the
  constants of the source are definitions. Metadata maps may be nil in Go: \<open>None\<close> is the nil
  map, and a nil \<^verbatim>\<open>*Problem\<close> receiver is \<open>None\<close> too. A validation error is a value of
  \<open>validation_error\<close>, one constructor per message of the source.
\<close>

section \<open>Definitions\<close>

definition EventInfo :: string where "EventInfo = ''Info''"
definition EventWarning :: string where "EventWarning = ''Warning''"
definition EventError :: string where "EventError = ''Error''"

definition ConditionTrue :: string where "ConditionTrue = ''True''"
definition ConditionFalse :: string where "ConditionFalse = ''False''"
definition ConditionUnknown :: string where "ConditionUnknown = ''Unknown''"

definition ProblemInfo :: string where "ProblemInfo = ''Info''"
definition ProblemWarning :: string where "ProblemWarning = ''Warning''"
definition ProblemCritical :: string where "ProblemCritical = ''Critical''"

lemmas severity_defs = EventInfo_def EventWarning_def EventError_def
  ConditionTrue_def ConditionFalse_def ConditionUnknown_def
  ProblemInfo_def ProblemWarning_def ProblemCritical_def

record event =
  ev_Severity :: string
  ev_Timestamp :: time
  ev_Reason :: string
  ev_Message :: string

record condition =
  cond_Type :: string
  cond_Status :: string
  cond_Transition :: time
  cond_Reason :: string
  cond_Message :: string

text \<open>
  A value stored in \<^verbatim>\<open>Status.Metadata\<close>: a pointer to a \<^verbatim>\<open>LatencyMetrics\<close> struct, known
  by its address, or a value of another dynamic type.
\<close>

datatype meta_value = MetaLatency nat | MetaOther string

record status =
  st_Source :: string
  st_Events :: "event list"
  st_Conditions :: "condition list"
  st_Timestamp :: time
  st_Metadata :: "(string, meta_value) gomap option"

record problem =
  pr_Type :: string
  pr_Resource :: string
  pr_Severity :: string
  pr_Message :: string
  pr_DetectedAt :: time
  pr_Metadata :: "(string, string) gomap option"

datatype validation_error =
    SeverityRequired | InvalidSeverity string
  | TypeRequired | StatusRequired | InvalidStatus string
  | ReasonRequired | MessageRequired | TimestampRequired
  | SourceRequired | ResourceRequired
  | EventInvalid nat validation_error
  | ConditionInvalid nat validation_error

definition NewEvent :: "time \<Rightarrow> string \<Rightarrow> string \<Rightarrow> string \<Rightarrow> event" where
  "NewEvent now severity reason message =
     \<lparr>ev_Severity = severity, ev_Timestamp = now, ev_Reason = reason, ev_Message = message\<rparr>"

definition NewCondition :: "time \<Rightarrow> string \<Rightarrow> string \<Rightarrow> string \<Rightarrow> string \<Rightarrow> condition" where
  "NewCondition now conditionType status reason message =
     \<lparr>cond_Type = conditionType, cond_Status = status, cond_Transition = now,
      cond_Reason = reason, cond_Message = message\<rparr>"

definition NewStatus :: "time \<Rightarrow> string \<Rightarrow> status" where
  "NewStatus now source =
     \<lparr>st_Source = source, st_Events = [], st_Conditions = [], st_Timestamp = now,
      st_Metadata = None\<rparr>"

definition NewProblem :: "time \<Rightarrow> string \<Rightarrow> string \<Rightarrow> string \<Rightarrow> string \<Rightarrow> problem" where
  "NewProblem now problemType resource severity message =
     \<lparr>pr_Type = problemType, pr_Resource = resource, pr_Severity = severity,
      pr_Message = message, pr_DetectedAt = now, pr_Metadata = Some []\<rparr>"

definition Event_Validate :: "event \<Rightarrow> validation_error option" where
  "Event_Validate e =
     (if ev_Severity e = [] then Some SeverityRequired
      else if ev_Severity e \<noteq> EventInfo \<and> ev_Severity e \<noteq> EventWarning
              \<and> ev_Severity e \<noteq> EventError
        then Some (InvalidSeverity (ev_Severity e))
      else if ev_Reason e = [] then Some ReasonRequired
      else if ev_Message e = [] then Some MessageRequired
      else if is_zero_time (ev_Timestamp e) then Some TimestampRequired
      else None)"

definition Condition_Validate :: "condition \<Rightarrow> validation_error option" where
  "Condition_Validate c =
     (if cond_Type c = [] then Some TypeRequired
      else if cond_Status c = [] then Some StatusRequired
      else if cond_Status c \<noteq> ConditionTrue \<and> cond_Status c \<noteq> ConditionFalse
              \<and> cond_Status c \<noteq> ConditionUnknown
        then Some (InvalidStatus (cond_Status c))
      else if cond_Reason c = [] then Some ReasonRequired
      else if cond_Message c = [] then Some MessageRequired
      else if is_zero_time (cond_Transition c) then Some TimestampRequired
      else None)"

text \<open>The two loops of \<^verbatim>\<open>Status.Validate\<close>: the first failing element stops, with its index.\<close>

fun validate_each ::
  "(nat \<Rightarrow> validation_error \<Rightarrow> validation_error) \<Rightarrow> ('a \<Rightarrow> validation_error option) \<Rightarrow> nat \<Rightarrow>
   'a list \<Rightarrow> validation_error option" where
  "validate_each wrap v i [] = None"
| "validate_each wrap v i (x # xs) =
     (case v x of Some e \<Rightarrow> Some (wrap i e) | None \<Rightarrow> validate_each wrap v (Suc i) xs)"

definition Status_Validate :: "status \<Rightarrow> validation_error option" where
  "Status_Validate s =
     (if st_Source s = [] then Some SourceRequired
      else if is_zero_time (st_Timestamp s) then Some TimestampRequired
      else case validate_each EventInvalid Event_Validate 0 (st_Events s) of
             Some e \<Rightarrow> Some e
           | None \<Rightarrow> validate_each ConditionInvalid Condition_Validate 0 (st_Conditions s))"

definition Problem_Validate :: "problem \<Rightarrow> validation_error option" where
  "Problem_Validate p =
     (if pr_Type p = [] then Some TypeRequired
      else if pr_Resource p = [] then Some ResourceRequired
      else if pr_Severity p = [] then Some SeverityRequired
      else if pr_Severity p \<noteq> ProblemInfo \<and> pr_Severity p \<noteq> ProblemWarning
              \<and> pr_Severity p \<noteq> ProblemCritical
        then Some (InvalidSeverity (pr_Severity p))
      else if pr_Message p = [] then Some MessageRequired
      else if is_zero_time (pr_DetectedAt p) then Some TimestampRequired
      else None)"

definition AddEvent :: "event \<Rightarrow> status \<Rightarrow> status" where
  "AddEvent e s = s\<lparr>st_Events := st_Events s @ [e]\<rparr>"

definition AddCondition :: "condition \<Rightarrow> status \<Rightarrow> status" where
  "AddCondition c s = s\<lparr>st_Conditions := st_Conditions s @ [c]\<rparr>"

definition ClearEvents :: "status \<Rightarrow> status" where
  "ClearEvents s = s\<lparr>st_Events := []\<rparr>"

definition ClearConditions :: "status \<Rightarrow> status" where
  "ClearConditions s = s\<lparr>st_Conditions := []\<rparr>"

definition WithMetadata :: "string \<Rightarrow> string \<Rightarrow> problem option \<Rightarrow> problem option" where
  "WithMetadata key val po =
     (case po of None \<Rightarrow> None
      | Some p \<Rightarrow>
          let m = (case pr_Metadata p of None \<Rightarrow> [] | Some m \<Rightarrow> m)
          in Some (p\<lparr>pr_Metadata := Some (AList.update key val m)\<rparr>))"

definition GetMetadata :: "string \<Rightarrow> problem option \<Rightarrow> string \<times> bool" where
  "GetMetadata key po =
     (case po of None \<Rightarrow> ([], False)
      | Some p \<Rightarrow>
          (case pr_Metadata p of None \<Rightarrow> ([], False)
           | Some m \<Rightarrow>
               (case map_of m key of None \<Rightarrow> ([], False) | Some v \<Rightarrow> (v, True))))"

definition SetLatencyMetrics :: "nat \<Rightarrow> status \<Rightarrow> status" where
  "SetLatencyMetrics metrics s =
     (let m = (case st_Metadata s of None \<Rightarrow> [] | Some m \<Rightarrow> m)
      in s\<lparr>st_Metadata := Some (AList.update ''latency_metrics'' (MetaLatency metrics) m)\<rparr>)"

definition GetLatencyMetrics :: "status \<Rightarrow> nat option" where
  "GetLatencyMetrics s =
     (case st_Metadata s of None \<Rightarrow> None
      | Some m \<Rightarrow>
          (case map_of m ''latency_metrics'' of
             Some (MetaLatency metrics) \<Rightarrow> Some metrics
           | _ \<Rightarrow> None))"

section \<open>Lemmas\<close>

lemma validate_each_None_iff:
  "validate_each wrap v i xs = None \<longleftrightarrow> (\<forall>x\<in>set xs. v x = None)"
  by (induction xs arbitrary: i) (auto split: option.splits)

lemma validate_each_Some:
  "validate_each wrap v i xs = Some err \<Longrightarrow>
   \<exists>k e. k < length xs \<and> err = wrap (i + k) e \<and> v (xs ! k) = Some e
         \<and> (\<forall>j<k. v (xs ! j) = None)"
proof (induction xs arbitrary: i)
  case Nil
  then show ?case by simp
next
  case (Cons x xs)
  show ?case
  proof (cases "v x")
    case (Some e)
    with Cons.prems show ?thesis by (intro exI [of _ 0] exI [of _ e]) simp
  next
    case None
    with Cons.prems have "validate_each wrap v (Suc i) xs = Some err" by simp
    from Cons.IH [OF this] obtain k e where
      ke: "k < length xs" "err = wrap (Suc i + k) e" "v (xs ! k) = Some e"
        "\<forall>j<k. v (xs ! j) = None" by blast
    have "\<forall>j<Suc k. v ((x # xs) ! j) = None"
      using None ke(4) by (auto simp: less_Suc_eq_0_disj)
    with ke show ?thesis by (intro exI [of _ "Suc k"] exI [of _ e]) simp
  qed
qed

text \<open>
  \<^verbatim>\<open>Status.Validate\<close> accepts exactly the statuses with a source, a time stamp and only
  valid events and conditions; and when it blames an event or a condition by index, that
  element is invalid with the very error reported and every element before it (all events,
  when a condition is blamed) is valid.
\<close>

lemma Status_Validate_sound_complete:
  "(Status_Validate s = None \<longleftrightarrow>
      st_Source s \<noteq> [] \<and> st_Timestamp s \<noteq> 0
      \<and> (\<forall>e\<in>set (st_Events s). Event_Validate e = None)
      \<and> (\<forall>c\<in>set (st_Conditions s). Condition_Validate c = None))
   \<and> (Status_Validate s = Some (EventInvalid i err) \<longrightarrow>
        i < length (st_Events s) \<and> Event_Validate (st_Events s ! i) = Some err
        \<and> (\<forall>j<i. Event_Validate (st_Events s ! j) = None))
   \<and> (Status_Validate s = Some (ConditionInvalid i err) \<longrightarrow>
        (\<forall>e\<in>set (st_Events s). Event_Validate e = None)
        \<and> i < length (st_Conditions s) \<and> Condition_Validate (st_Conditions s ! i) = Some err
        \<and> (\<forall>j<i. Condition_Validate (st_Conditions s ! j) = None))"
  by (auto simp: Status_Validate_def is_zero_time_def validate_each_None_iff
      split: option.splits if_splits dest!: validate_each_Some)

text \<open>
  Problem metadata round trip: a value written with \<^verbatim>\<open>WithMetadata\<close> is what
  \<^verbatim>\<open>GetMetadata\<close> reads under that key, a nil metadata map included; every other key reads as
  before, and a nil problem stays nil.
\<close>

lemma metadata_roundtrip:
  "GetMetadata k (WithMetadata k v (Some p)) = (v, True)
   \<and> (k' \<noteq> k \<longrightarrow> GetMetadata k' (WithMetadata k v (Some p)) = GetMetadata k' (Some p))
   \<and> WithMetadata k v None = None
   \<and> GetLatencyMetrics (SetLatencyMetrics n s) = Some n"
  by (auto simp: GetMetadata_def WithMetadata_def GetLatencyMetrics_def SetLatencyMetrics_def
      Let_def split: option.splits)

end
