(* ===== verification/Circuit_Breaker.thy ===== *)
theory Circuit_Breaker
  imports Prelude
begin

text \<open>
  The circuit breaker of the kubelet monitor,
  \<^verbatim>\<open>pkg/monitors/kubernetes/circuitbreaker.go\<close>, and the interface \<open>tripping_breaker\<close> that it
  shares with the breaker inside the remediator registry.

  Every operation takes the clock readings it makes, in the order the code makes them. The
  duration arithmetic of \<^verbatim>\<open>calculateTimeout\<close> is the 64-bit arithmetic of the code, with its
  wrap-around; counters are unbounded integers (they cannot reach 64 bits in practice).
\<close>

section \<open>Interface: a breaker that trips after consecutive failures\<close>

text \<open>
  What a client relies on: from a closed breaker below its threshold one more failure counts
  and keeps it closed, the failure that reaches the threshold opens it, and a success clears
  the count. The type \<open>'t\<close> is what one call reads from its environment.
\<close>

locale tripping_breaker =
  fixes inv :: "'s \<Rightarrow> bool"
    and is_closed :: "'s \<Rightarrow> bool"
    and is_open :: "'s \<Rightarrow> bool"
    and failures :: "'s \<Rightarrow> int"
    and threshold :: "'s \<Rightarrow> int"
    and fail :: "'t \<Rightarrow> 's \<Rightarrow> 's"
    and succeed :: "'t \<Rightarrow> 's \<Rightarrow> 's"
  assumes inv_fail: "inv s \<Longrightarrow> inv (fail t s)"
    and inv_succeed: "inv s \<Longrightarrow> inv (succeed t s)"
    and threshold_fail: "threshold (fail t s) = threshold s"
    and threshold_succeed: "threshold (succeed t s) = threshold s"
    and fail_below: "inv s \<Longrightarrow> is_closed s \<Longrightarrow> failures s + 1 < threshold s \<Longrightarrow>
          is_closed (fail t s) \<and> failures (fail t s) = failures s + 1"
    and fail_reaches: "inv s \<Longrightarrow> is_closed s \<Longrightarrow> threshold s \<le> failures s + 1 \<Longrightarrow>
          is_open (fail t s)"
    and succeed_closed: "inv s \<Longrightarrow> is_closed s \<Longrightarrow>
          is_closed (succeed t s) \<and> failures (succeed t s) = 0"
    and open_not_closed: "is_open s \<Longrightarrow> \<not> is_closed s"
begin

lemma fold_fail_below:
  "inv s \<Longrightarrow> is_closed s \<Longrightarrow> failures s + int (length ts) < threshold s \<Longrightarrow>
   inv (fold fail ts s) \<and> is_closed (fold fail ts s)
   \<and> failures (fold fail ts s) = failures s + int (length ts)
   \<and> threshold (fold fail ts s) = threshold s"
proof (induction ts arbitrary: s)
  case Nil
  then show ?case by simp
next
  case (Cons t ts)
  have step: "is_closed (fail t s) \<and> failures (fail t s) = failures s + 1"
    using Cons.prems by (intro fail_below) auto
  with Cons.prems have "failures (fail t s) + int (length ts) < threshold (fail t s)"
    by (simp add: threshold_fail)
  with Cons.IH [of "fail t s"] Cons.prems step show ?case
    by (simp add: inv_fail threshold_fail)
qed

text \<open>The breaker stays closed through fewer consecutive failures than the threshold, and opens
  with the one that reaches it.\<close>

lemma trips_exactly_at_threshold:
  assumes "inv s" "is_closed s" "failures s = 0" "0 < threshold s"
  shows "int (length ts) < threshold s \<Longrightarrow> is_closed (fold fail ts s)"
    and "int (length ts) = threshold s \<Longrightarrow> is_open (fold fail ts s)"
proof -
  show "int (length ts) < threshold s \<Longrightarrow> is_closed (fold fail ts s)"
    using assms fold_fail_below [of s ts] by simp
next
  assume len: "int (length ts) = threshold s"
  with assms(4) obtain us t where ts: "ts = us @ [t]"
    by (cases ts rule: rev_cases) auto
  have us: "inv (fold fail us s)" "is_closed (fold fail us s)"
    "failures (fold fail us s) = int (length us)" "threshold (fold fail us s) = threshold s"
    using assms len ts fold_fail_below [of s us] by auto
  have "is_open (fail t (fold fail us s))"
    using us len ts by (intro fail_reaches) auto
  with ts show "is_open (fold fail ts s)" by simp
qed

text \<open>A success wipes the failures counted so far.\<close>

lemma success_restarts_count:
  assumes "inv s" "is_closed s" "int (length ts) < threshold s"
  shows "is_closed (fold fail ts (succeed t s))"
proof -
  have "is_closed (succeed t s)" "failures (succeed t s) = 0" "inv (succeed t s)"
    using assms succeed_closed inv_succeed by auto
  with assms(3) fold_fail_below [of "succeed t s" ts] show ?thesis
    by (simp add: threshold_succeed)
qed

end

section \<open>Definitions\<close>

datatype CircuitState = StateClosed | StateOpen | StateHalfOpen | StateOther int

definition CircuitState_String :: "CircuitState \<Rightarrow> string" where
  "CircuitState_String s =
     (case s of StateClosed \<Rightarrow> ''Closed'' | StateOpen \<Rightarrow> ''Open''
      | StateHalfOpen \<Rightarrow> ''HalfOpen'' | StateOther _ \<Rightarrow> ''Unknown'')"

record CircuitBreakerConfig =
  cfg_Enabled :: bool
  cfg_FailureThreshold :: int
  cfg_OpenTimeout :: duration
  cfg_HalfOpenMaxRequests :: int
  cfg_UseExponentialBackoff :: bool
  cfg_MaxBackoffTimeout :: duration

record CircuitBreakerMetrics =
  StateTransitions :: int
  TotalOpenings :: int
  TotalRecoveries :: int
  LastStateChange :: time
  CurrentBackoffMultiplier :: int

record CircuitBreaker =
  cb_config :: CircuitBreakerConfig
  cb_state :: CircuitState
  cb_metrics :: CircuitBreakerMetrics
  cb_consecutiveFailures :: int
  cb_consecutiveSuccesses :: int
  cb_openedAt :: time

datatype cb_error =
    ConfigNil
  | BadFailureThreshold int
  | BadOpenTimeout duration
  | BadHalfOpenMaxRequests int
  | BadMaxBackoff duration duration

definition cb_applyDefaults :: "CircuitBreakerConfig \<Rightarrow> CircuitBreakerConfig" where
  "cb_applyDefaults c =
     (let c1 = (if cfg_FailureThreshold c = 0 then c\<lparr>cfg_FailureThreshold := 5\<rparr> else c);
          c2 = (if cfg_OpenTimeout c1 = 0 then c1\<lparr>cfg_OpenTimeout := 30 * second\<rparr> else c1);
          c3 = (if cfg_HalfOpenMaxRequests c2 = 0 then c2\<lparr>cfg_HalfOpenMaxRequests := 3\<rparr> else c2)
      in if cfg_MaxBackoffTimeout c3 = 0 then c3\<lparr>cfg_MaxBackoffTimeout := 5 * minute\<rparr> else c3)"

definition cb_validate :: "CircuitBreakerConfig \<Rightarrow> cb_error option" where
  "cb_validate c =
     (if cfg_FailureThreshold c < 1 then Some (BadFailureThreshold (cfg_FailureThreshold c))
      else if cfg_OpenTimeout c \<le> 0 then Some (BadOpenTimeout (cfg_OpenTimeout c))
      else if cfg_HalfOpenMaxRequests c < 1
        then Some (BadHalfOpenMaxRequests (cfg_HalfOpenMaxRequests c))
      else if cfg_MaxBackoffTimeout c < cfg_OpenTimeout c
        then Some (BadMaxBackoff (cfg_MaxBackoffTimeout c) (cfg_OpenTimeout c))
      else None)"

definition zero_metrics :: CircuitBreakerMetrics where
  "zero_metrics = \<lparr>StateTransitions = 0, TotalOpenings = 0, TotalRecoveries = 0,
     LastStateChange = 0, CurrentBackoffMultiplier = 0\<rparr>"

definition NewCircuitBreaker :: "CircuitBreakerConfig option \<Rightarrow> cb_error + CircuitBreaker" where
  "NewCircuitBreaker co =
     (case co of None \<Rightarrow> Inl ConfigNil
      | Some c0 \<Rightarrow>
          let c = cb_applyDefaults c0 in
          (case cb_validate c of Some e \<Rightarrow> Inl e
           | None \<Rightarrow> Inr \<lparr>cb_config = c, cb_state = StateClosed, cb_metrics = zero_metrics,
               cb_consecutiveFailures = 0, cb_consecutiveSuccesses = 0, cb_openedAt = 0\<rparr>))"

definition cb_transitionTo :: "time \<Rightarrow> CircuitState \<Rightarrow> CircuitBreaker \<Rightarrow> CircuitBreaker" where
  "cb_transitionTo now newState cb =
     (if cb_state cb \<noteq> newState then
        cb\<lparr>cb_state := newState,
           cb_metrics := (cb_metrics cb)\<lparr>StateTransitions := StateTransitions (cb_metrics cb) + 1,
             LastStateChange := now\<rparr>\<rparr>
      else cb)"

text \<open>\<^verbatim>\<open>1 << k\<close> on a 64-bit int, then the product of two 64-bit durations.\<close>

definition cb_calculateTimeout :: "CircuitBreaker \<Rightarrow> duration" where
  "cb_calculateTimeout cb =
     (let c = cb_config cb; m = CurrentBackoffMultiplier (cb_metrics cb) in
      if \<not> cfg_UseExponentialBackoff c \<or> m = 0 then cfg_OpenTimeout c
      else
        let multiplier = wrap64 (2 ^ nat (m - 1));
            timeout = wrap64 (cfg_OpenTimeout c * multiplier)
        in if timeout > cfg_MaxBackoffTimeout c then cfg_MaxBackoffTimeout c else timeout)"

text \<open>\<open>t1\<close> is the reading compared with the opening time, \<open>t2\<close> the one of \<^verbatim>\<open>transitionTo\<close>.\<close>

definition CanAttempt :: "time \<Rightarrow> time \<Rightarrow> CircuitBreaker \<Rightarrow> bool \<times> CircuitBreaker" where
  "CanAttempt t1 t2 cb =
     (if \<not> cfg_Enabled (cb_config cb) then (True, cb)
      else case cb_state cb of
        StateClosed \<Rightarrow> (True, cb)
      | StateOpen \<Rightarrow>
          if cb_calculateTimeout cb \<le> time_sub t1 (cb_openedAt cb)
          then (True, cb_transitionTo t2 StateHalfOpen cb)
          else (False, cb)
      | StateHalfOpen \<Rightarrow> (True, cb)
      | StateOther _ \<Rightarrow> (True, cb))"

definition RecordSuccess :: "time \<Rightarrow> CircuitBreaker \<Rightarrow> CircuitBreaker" where
  "RecordSuccess t1 cb =
     (if \<not> cfg_Enabled (cb_config cb) then cb
      else case cb_state cb of
        StateClosed \<Rightarrow> cb\<lparr>cb_consecutiveFailures := 0\<rparr>
      | StateHalfOpen \<Rightarrow>
          let cb1 = cb\<lparr>cb_consecutiveSuccesses := cb_consecutiveSuccesses cb + 1,
                       cb_consecutiveFailures := 0\<rparr>
          in if cfg_HalfOpenMaxRequests (cb_config cb1) \<le> cb_consecutiveSuccesses cb1 then
               let cb2 = cb_transitionTo t1 StateClosed cb1;
                   cb3 = cb2\<lparr>cb_consecutiveSuccesses := 0\<rparr>
               in cb3\<lparr>cb_metrics := (cb_metrics cb3)\<lparr>CurrentBackoffMultiplier := 0,
                        TotalRecoveries := TotalRecoveries (cb_metrics cb3) + 1\<rparr>\<rparr>
             else cb1
      | StateOpen \<Rightarrow> cb\<lparr>cb_consecutiveFailures := 0\<rparr>
      | StateOther _ \<Rightarrow> cb)"

text \<open>The part of \<^verbatim>\<open>RecordFailure\<close> after the counters: \<^verbatim>\<open>transitionTo\<close> reads \<open>t1\<close>, the opening
  time is \<open>t2\<close>.\<close>

definition cb_open :: "time \<Rightarrow> time \<Rightarrow> CircuitBreaker \<Rightarrow> CircuitBreaker" where
  "cb_open t1 t2 cb =
     (let cb1 = (cb_transitionTo t1 StateOpen cb)\<lparr>cb_openedAt := t2, cb_consecutiveFailures := 0\<rparr>;
          m = cb_metrics cb1;
          m1 = m\<lparr>TotalOpenings := TotalOpenings m + 1\<rparr>;
          m2 = (if cfg_UseExponentialBackoff (cb_config cb1)
                then m1\<lparr>CurrentBackoffMultiplier := CurrentBackoffMultiplier m1 + 1\<rparr> else m1)
      in cb1\<lparr>cb_metrics := m2\<rparr>)"

definition RecordFailure :: "time \<Rightarrow> time \<Rightarrow> CircuitBreaker \<Rightarrow> CircuitBreaker" where
  "RecordFailure t1 t2 cb =
     (if \<not> cfg_Enabled (cb_config cb) then cb
      else case cb_state cb of
        StateClosed \<Rightarrow>
          let cb1 = cb\<lparr>cb_consecutiveFailures := cb_consecutiveFailures cb + 1,
                       cb_consecutiveSuccesses := 0\<rparr>
          in if cfg_FailureThreshold (cb_config cb1) \<le> cb_consecutiveFailures cb1
             then cb_open t1 t2 cb1 else cb1
      | StateHalfOpen \<Rightarrow> cb_open t1 t2 (cb\<lparr>cb_consecutiveSuccesses := 0\<rparr>)
      | StateOpen \<Rightarrow> cb
      | StateOther _ \<Rightarrow> cb)"

definition cb_Reset :: "CircuitBreaker \<Rightarrow> CircuitBreaker" where
  "cb_Reset cb =
     cb\<lparr>cb_state := StateClosed, cb_consecutiveFailures := 0, cb_consecutiveSuccesses := 0,
        cb_metrics := (cb_metrics cb)\<lparr>CurrentBackoffMultiplier := 0\<rparr>\<rparr>"

definition cb_State :: "CircuitBreaker \<Rightarrow> CircuitState" where
  "cb_State cb = cb_state cb"

definition cb_Metrics :: "CircuitBreaker \<Rightarrow> CircuitBreakerMetrics" where
  "cb_Metrics cb = cb_metrics cb"

definition GetConsecutiveFailures :: "CircuitBreaker \<Rightarrow> int" where
  "GetConsecutiveFailures cb = cb_consecutiveFailures cb"

text \<open>The breaker as a machine: one constructor per exported state-changing operation, with the
  clock readings of the call.\<close>

datatype cb_op = OpCanAttempt time time | OpSuccess time | OpFailure time time | OpReset

fun cb_step :: "cb_op \<Rightarrow> CircuitBreaker \<Rightarrow> CircuitBreaker" where
  "cb_step (OpCanAttempt t1 t2) cb = snd (CanAttempt t1 t2 cb)"
| "cb_step (OpSuccess t1) cb = RecordSuccess t1 cb"
| "cb_step (OpFailure t1 t2) cb = RecordFailure t1 t2 cb"
| "cb_step OpReset cb = cb_Reset cb"

lemmas cb_op_defs = CanAttempt_def RecordSuccess_def RecordFailure_def cb_Reset_def
  cb_open_def cb_transitionTo_def Let_def


section \<open>Specification\<close>

text \<open>
  The contract of the breaker without machine arithmetic: a count of failures while closed, the
  opening time and the number of openings since the last recovery while open, the successes
  while half-open. The wait before recovery doubles with each opening up to the maximum.
\<close>

datatype cb_spec = SClosed int | SOpen time int | SHalf int int

definition ideal_backoff :: "CircuitBreakerConfig \<Rightarrow> int \<Rightarrow> duration" where
  "ideal_backoff c m =
     (if \<not> cfg_UseExponentialBackoff c \<or> m = 0 then cfg_OpenTimeout c
      else min (cfg_MaxBackoffTimeout c) (cfg_OpenTimeout c * 2 ^ nat (m - 1)))"

definition spec_level :: "CircuitBreakerConfig \<Rightarrow> int \<Rightarrow> int" where
  "spec_level c l = (if cfg_UseExponentialBackoff c then l + 1 else l)"

fun spec_step :: "CircuitBreakerConfig \<Rightarrow> cb_op \<Rightarrow> cb_spec \<Rightarrow> cb_spec" where
  "spec_step c (OpCanAttempt t1 t2) (SOpen opened l) =
     (if opened + ideal_backoff c l \<le> t1 then SHalf 0 l else SOpen opened l)"
| "spec_step c (OpCanAttempt t1 t2) s = s"
| "spec_step c (OpSuccess t) (SClosed f) = SClosed 0"
| "spec_step c (OpSuccess t) (SHalf n l) =
     (if cfg_HalfOpenMaxRequests c \<le> n + 1 then SClosed 0 else SHalf (n + 1) l)"
| "spec_step c (OpSuccess t) s = s"
| "spec_step c (OpFailure t1 t2) (SClosed f) =
     (if cfg_FailureThreshold c \<le> f + 1 then SOpen t2 (spec_level c 0) else SClosed (f + 1))"
| "spec_step c (OpFailure t1 t2) (SHalf n l) = SOpen t2 (spec_level c l)"
| "spec_step c (OpFailure t1 t2) s = s"
| "spec_step c OpReset s = SClosed 0"

definition cb_abs :: "CircuitBreaker \<Rightarrow> cb_spec" where
  "cb_abs cb =
     (case cb_state cb of
        StateOpen \<Rightarrow> SOpen (cb_openedAt cb) (CurrentBackoffMultiplier (cb_metrics cb))
      | StateHalfOpen \<Rightarrow>
          SHalf (cb_consecutiveSuccesses cb) (CurrentBackoffMultiplier (cb_metrics cb))
      | _ \<Rightarrow> SClosed (cb_consecutiveFailures cb))"

definition cb_inv :: "CircuitBreaker \<Rightarrow> bool" where
  "cb_inv cb \<longleftrightarrow>
     (let c = cb_config cb; m = cb_metrics cb; cf = cb_consecutiveFailures cb;
          cs = cb_consecutiveSuccesses cb; k = CurrentBackoffMultiplier m in
      cb_validate c = None
      \<and> cb_state cb \<in> {StateClosed, StateOpen, StateHalfOpen}
      \<and> 0 \<le> cf \<and> cf < cfg_FailureThreshold c
      \<and> 0 \<le> cs \<and> cs < cfg_HalfOpenMaxRequests c
      \<and> (cb_state cb \<noteq> StateClosed \<longrightarrow> cf = 0)
      \<and> (cb_state cb \<noteq> StateHalfOpen \<longrightarrow> cs = 0)
      \<and> (cb_state cb = StateClosed \<longrightarrow> k = 0)
      \<and> (cfg_UseExponentialBackoff c \<and> cb_state cb \<noteq> StateClosed \<longrightarrow> 1 \<le> k)
      \<and> (\<not> cfg_UseExponentialBackoff c \<longrightarrow> k = 0)
      \<and> 0 \<le> k \<and> k \<le> TotalOpenings m
      \<and> 0 \<le> TotalRecoveries m
      \<and> TotalRecoveries m + (if cb_state cb = StateClosed then 0 else 1) \<le> TotalOpenings m
      \<and> TotalOpenings m \<le> StateTransitions m)"

text \<open>The product the code computes fits into 64 bits.\<close>

definition backoff_fits :: "CircuitBreaker \<Rightarrow> bool" where
  "backoff_fits cb \<longleftrightarrow>
     cfg_OpenTimeout (cb_config cb) * 2 ^ nat (CurrentBackoffMultiplier (cb_metrics cb) - 1)
       \<le> max_int64"

text \<open>Along the run of the abstract breaker: the product fits whenever the breaker is open, that is
  \<open>OpenTimeout * 2 ^ (l - 1)\<close> for the number \<open>l\<close> of openings since the last recovery. Calls that do not open the breaker
  do not matter, and without exponential backoff the level stays 0.\<close>

fun backoff_ok :: "CircuitBreakerConfig \<Rightarrow> cb_op list \<Rightarrow> cb_spec \<Rightarrow> bool" where
  "backoff_ok c [] s = True"
| "backoff_ok c (op # ops) s =
     ((case s of SOpen _ l \<Rightarrow> cfg_OpenTimeout c * 2 ^ nat (l - 1) \<le> max_int64 | _ \<Rightarrow> True)
      \<and> backoff_ok c ops (spec_step c op s))"

section \<open>Invariant\<close>

lemma cb_validate_None:
  "cb_validate c = None \<longleftrightarrow>
     1 \<le> cfg_FailureThreshold c \<and> 0 < cfg_OpenTimeout c \<and> 1 \<le> cfg_HalfOpenMaxRequests c
     \<and> cfg_OpenTimeout c \<le> cfg_MaxBackoffTimeout c"
  by (auto simp: cb_validate_def)

lemma cb_step_config [simp]: "cb_config (cb_step op cb) = cb_config cb"
  by (cases op; cases "cb_state cb") (auto simp: cb_op_defs)

lemma New_inv:
  assumes "NewCircuitBreaker (Some c0) = Inr cb"
  shows "cb_inv cb" "cb_abs cb = SClosed 0" "cfg_Enabled (cb_config cb) = cfg_Enabled c0"
proof -
  obtain v: "cb_validate (cb_applyDefaults c0) = None"
    and cb: "cb = \<lparr>cb_config = cb_applyDefaults c0, cb_state = StateClosed,
      cb_metrics = zero_metrics, cb_consecutiveFailures = 0, cb_consecutiveSuccesses = 0,
      cb_openedAt = 0\<rparr>"
    using assms by (auto simp: NewCircuitBreaker_def Let_def split: option.splits)
  show "cb_inv cb"
    using v by (auto simp: cb cb_inv_def zero_metrics_def cb_validate_None Let_def)
  show "cb_abs cb = SClosed 0" by (simp add: cb cb_abs_def)
  show "cfg_Enabled (cb_config cb) = cfg_Enabled c0"
    by (simp add: cb cb_applyDefaults_def Let_def)
qed

lemma cb_inv_CanAttempt: "cb_inv cb \<Longrightarrow> cb_inv (snd (CanAttempt t1 t2 cb))"
  by (cases "cb_state cb") (auto simp: CanAttempt_def cb_transitionTo_def cb_inv_def Let_def)

lemma cb_inv_RecordSuccess: "cb_inv cb \<Longrightarrow> cb_inv (RecordSuccess t cb)"
  by (cases "cb_state cb")
    (auto simp: RecordSuccess_def cb_transitionTo_def cb_inv_def Let_def cb_validate_None)

lemma cb_inv_RecordFailure: "cb_inv cb \<Longrightarrow> cb_inv (RecordFailure t1 t2 cb)"
  by (cases "cb_state cb")
    (auto simp: RecordFailure_def cb_open_def cb_transitionTo_def cb_inv_def Let_def cb_validate_None)

lemma cb_inv_Reset: "cb_inv cb \<Longrightarrow> cb_inv (cb_Reset cb)"
  by (auto simp: cb_Reset_def cb_inv_def Let_def cb_validate_None)

lemma cb_inv_step: "cb_inv cb \<Longrightarrow> cb_inv (cb_step op cb)"
  by (cases op) (simp_all add: cb_inv_CanAttempt cb_inv_RecordSuccess cb_inv_RecordFailure
      cb_inv_Reset)

lemma cb_inv_fold: "cb_inv cb \<Longrightarrow> cb_inv (fold cb_step ops cb)"
  by (induction ops arbitrary: cb) (auto simp: cb_inv_step)

lemma cb_fold_config [simp]: "cb_config (fold cb_step ops cb) = cb_config cb"
  by (induction ops arbitrary: cb) auto

interpretation kubelet_breaker: tripping_breaker
  "\<lambda>cb. cb_inv cb \<and> cfg_Enabled (cb_config cb)"
  "\<lambda>cb. cb_state cb = StateClosed" "\<lambda>cb. cb_state cb = StateOpen"
  cb_consecutiveFailures "\<lambda>cb. cfg_FailureThreshold (cb_config cb)"
  "\<lambda>t. RecordFailure (fst t) (snd t)" "\<lambda>t. RecordSuccess (fst t)"
proof (unfold_locales, goal_cases)
  case (1 s t) then show ?case
    using cb_inv_RecordFailure cb_step_config [of "OpFailure (fst t) (snd t)" s] by simp
next
  case (2 s t) then show ?case
    using cb_inv_RecordSuccess cb_step_config [of "OpSuccess (fst t)" s] by simp
next
  case (3 t s) then show ?case
    using cb_step_config [of "OpFailure (fst t) (snd t)" s] by simp
next
  case (4 t s) then show ?case
    using cb_step_config [of "OpSuccess (fst t)" s] by simp
qed (auto simp: RecordFailure_def RecordSuccess_def cb_open_def cb_transitionTo_def Let_def)

section \<open>Backoff arithmetic and refinement\<close>

lemma calculateTimeout_ideal:
  assumes "cb_inv cb" "backoff_fits cb"
  shows "cb_calculateTimeout cb = ideal_backoff (cb_config cb) (CurrentBackoffMultiplier (cb_metrics cb))"
proof -
  let ?k = "CurrentBackoffMultiplier (cb_metrics cb)" and ?c = "cb_config cb"
  have open_pos: "1 \<le> cfg_OpenTimeout ?c"
    using assms(1) by (auto simp: cb_inv_def Let_def cb_validate_None)
  have "(2::int) ^ nat (?k - 1) \<le> cfg_OpenTimeout ?c * 2 ^ nat (?k - 1)"
    using open_pos by simp
  then have upper: "(2::int) ^ nat (?k - 1) \<le> max_int64"
    using assms(2) unfolding backoff_fits_def by (rule order_trans)
  have "0 \<le> (2::int) ^ nat (?k - 1)" "0 \<le> cfg_OpenTimeout ?c * 2 ^ nat (?k - 1)"
    using open_pos by simp_all
  then have lower: "min_int64 \<le> (2::int) ^ nat (?k - 1)"
    "min_int64 \<le> cfg_OpenTimeout ?c * 2 ^ nat (?k - 1)"
    by linarith+
  note shift = wrap64_id [OF lower(1) upper]
  note product = wrap64_id [OF lower(2) assms(2) [unfolded backoff_fits_def]]
  show ?thesis
    by (simp add: cb_calculateTimeout_def ideal_backoff_def Let_def shift product min_def)
qed

lemma ideal_backoff_bounds:
  assumes "cb_validate c = None"
  shows "cfg_OpenTimeout c \<le> ideal_backoff c m" "ideal_backoff c m \<le> cfg_MaxBackoffTimeout c"
proof -
  have "cfg_OpenTimeout c * 1 \<le> cfg_OpenTimeout c * 2 ^ nat (m - 1)"
    using assms by (intro mult_left_mono) (auto simp: cb_validate_None)
  then show "cfg_OpenTimeout c \<le> ideal_backoff c m"
    using assms by (auto simp: ideal_backoff_def cb_validate_None)
  show "ideal_backoff c m \<le> cfg_MaxBackoffTimeout c"
    using assms by (auto simp: ideal_backoff_def cb_validate_None)
qed

lemma ideal_backoff_mono:
  assumes "cb_validate c = None" "1 \<le> m" "m \<le> m'"
  shows "ideal_backoff c m \<le> ideal_backoff c m'"
proof -
  have "cfg_OpenTimeout c * 2 ^ nat (m - 1) \<le> cfg_OpenTimeout c * 2 ^ nat (m' - 1)"
    using assms by (intro mult_left_mono power_increasing) (auto simp: cb_validate_None)
  with assms show ?thesis by (auto simp: ideal_backoff_def)
qed

lemma ideal_backoff_fits:
  assumes "cb_validate c = None" "c = cb_config cb" "backoff_fits cb"
    "m = CurrentBackoffMultiplier (cb_metrics cb)" "0 \<le> m"
  shows "min_int64 < ideal_backoff c m" "ideal_backoff c m \<le> max_int64"
proof -
  show "min_int64 < ideal_backoff c m"
    using assms(1) ideal_backoff_bounds(1) [of c m] by (simp add: cb_validate_None)
  have "cfg_OpenTimeout c * 1 \<le> cfg_OpenTimeout c * 2 ^ nat (m - 1)"
    using assms(1) by (intro mult_left_mono) (auto simp: cb_validate_None)
  then show "ideal_backoff c m \<le> max_int64"
    using assms(2-4) by (auto simp: ideal_backoff_def backoff_fits_def)
qed

lemma CanAttempt_open:
  assumes "cb_inv cb" "backoff_fits cb" "cfg_Enabled (cb_config cb)" "cb_state cb = StateOpen"
  shows "fst (CanAttempt t1 t2 cb) \<longleftrightarrow>
    cb_openedAt cb + ideal_backoff (cb_config cb) (CurrentBackoffMultiplier (cb_metrics cb)) \<le> t1"
proof -
  have v: "cb_validate (cb_config cb) = None" "0 \<le> CurrentBackoffMultiplier (cb_metrics cb)"
    using assms(1) by (auto simp: cb_inv_def Let_def)
  show ?thesis
    using assms time_sub_ge_iff [OF ideal_backoff_fits [OF v(1) refl assms(2) refl v(2)],
        of t1 "cb_openedAt cb"]
    by (simp add: CanAttempt_def calculateTimeout_ideal)
qed

lemma cb_step_refines:
  assumes "cb_inv cb" "cb_state cb = StateOpen \<longrightarrow> backoff_fits cb" "cfg_Enabled (cb_config cb)"
  shows "cb_abs (cb_step op cb) = spec_step (cb_config cb) op (cb_abs cb)"
proof (cases op)
  case (OpCanAttempt t1 t2)
  show ?thesis
  proof (cases "cb_state cb = StateOpen")
    case True
    with assms(2) have "backoff_fits cb" by simp
    with assms True CanAttempt_open [OF assms(1) _ assms(3), of t1 t2] OpCanAttempt show ?thesis
      by (auto simp: CanAttempt_def cb_transitionTo_def cb_abs_def cb_inv_def Let_def
          split: if_splits)
  next
    case False
    with assms OpCanAttempt show ?thesis
      by (cases "cb_state cb") (auto simp: CanAttempt_def cb_abs_def)
  qed
next
  case (OpSuccess t)
  with assms show ?thesis
    by (cases "cb_state cb")
      (auto simp: RecordSuccess_def cb_transitionTo_def cb_abs_def cb_inv_def Let_def)
next
  case (OpFailure t1 t2)
  with assms show ?thesis
    by (cases "cb_state cb")
      (auto simp: RecordFailure_def cb_open_def cb_transitionTo_def cb_abs_def cb_inv_def
        spec_level_def Let_def)
next
  case OpReset
  with assms show ?thesis by (simp add: cb_Reset_def cb_abs_def)
qed

lemma cb_fold_refines:
  assumes "cb_inv cb" "cfg_Enabled (cb_config cb)" "backoff_ok (cb_config cb) ops (cb_abs cb)"
  shows "cb_abs (fold cb_step ops cb) = fold (spec_step (cb_config cb)) ops (cb_abs cb)"
  using assms
proof (induction ops arbitrary: cb)
  case Nil
  then show ?case by simp
next
  case (Cons op ops)
  have "cb_state cb = StateOpen \<longrightarrow> backoff_fits cb"
    using Cons.prems(3) by (auto simp: cb_abs_def backoff_fits_def)
  note step = cb_step_refines [OF Cons.prems(1) this Cons.prems(2), of op]
  have "cb_abs (fold cb_step ops (cb_step op cb))
      = fold (spec_step (cb_config cb)) ops (cb_abs (cb_step op cb))"
    using Cons.IH [of "cb_step op cb"] Cons.prems step by (simp add: cb_inv_step)
  then show ?case using step by simp
qed

text \<open>Without exponential backoff the condition is that the timeout is a 64-bit duration, which its type says.\<close>

fun spec_level_of :: "cb_spec \<Rightarrow> int" where
  "spec_level_of (SClosed f) = 0"
| "spec_level_of (SOpen t l) = l"
| "spec_level_of (SHalf n l) = l"

lemma backoff_ok_constant:
  assumes "\<not> cfg_UseExponentialBackoff c" "cfg_OpenTimeout c \<le> max_int64" "spec_level_of s = 0"
  shows "backoff_ok c ops s"
  using assms(3)
proof (induction ops arbitrary: s)
  case (Cons op ops)
  have "spec_level_of (spec_step c op s) = 0"
    using Cons.prems assms(1) by (cases op; cases s) (auto simp: spec_level_def)
  then show ?case using Cons assms(2) by (cases s) auto
qed simp

section \<open>Properties\<close>

definition default_cb_config :: CircuitBreakerConfig where
  "default_cb_config = \<lparr>cfg_Enabled = True, cfg_FailureThreshold = 0, cfg_OpenTimeout = 0,
     cfg_HalfOpenMaxRequests = 0, cfg_UseExponentialBackoff = True, cfg_MaxBackoffTimeout = 0\<rparr>"

definition default_cb :: CircuitBreaker where
  "default_cb = \<lparr>cb_config = \<lparr>cfg_Enabled = True, cfg_FailureThreshold = 5,
       cfg_OpenTimeout = 30 * second, cfg_HalfOpenMaxRequests = 3,
       cfg_UseExponentialBackoff = True, cfg_MaxBackoffTimeout = 5 * minute\<rparr>,
     cb_state = StateClosed, cb_metrics = zero_metrics, cb_consecutiveFailures = 0,
     cb_consecutiveSuccesses = 0, cb_openedAt = 0\<rparr>"

lemma New_default_cb: "NewCircuitBreaker (Some default_cb_config) = Inr default_cb"
  by (simp add: NewCircuitBreaker_def default_cb_config_def cb_applyDefaults_def cb_validate_def
      default_cb_def Let_def)

text \<open>
  C35. Refinement. Started by \<^verbatim>\<open>NewCircuitBreaker\<close> and driven by any sequence of calls, however long, the
  enabled breaker is the abstract breaker with unbounded arithmetic: same state, same failure and success
  counts, same opening time, same doubling and capped recovery wait. The one condition is that the backoff
  product \<open>OpenTimeout * 2 ^ (l - 1)\<close> fits into 64 bits whenever the abstract breaker is open at level \<open>l\<close>, its number of
  openings since the last recovery.
\<close>

theorem circuit_breaker_refines_spec:
  assumes "NewCircuitBreaker (Some c0) = Inr cb" and "cfg_Enabled c0"
    and "backoff_ok (cb_config cb) ops (SClosed 0)"
  shows "cb_abs (fold cb_step ops cb) = fold (spec_step (cb_config cb)) ops (SClosed 0)"
  using cb_fold_refines [of cb ops] New_inv [OF assms(1)] assms(2,3) by simp

theorem circuit_breaker_refines_spec_witness:
  "cb_abs (fold cb_step (replicate 40 (OpSuccess 1) @ replicate 5 (OpFailure 7 8) @ [OpCanAttempt (8 + 30 * second) 9]) default_cb)
     = SHalf 0 1"
proof -
  let ?ops = "replicate 40 (OpSuccess 1) @ replicate 5 (OpFailure 7 8) @ [OpCanAttempt (8 + 30 * second) 9]"
  have "backoff_ok (cb_config default_cb) ?ops (SClosed 0) \<and>
      fold (spec_step (cb_config default_cb)) ?ops (SClosed 0) = SHalf 0 1"
    by code_simp
  then show ?thesis
    using circuit_breaker_refines_spec [OF New_default_cb, of ?ops] by (simp add: default_cb_config_def)
qed

text \<open>
  Invariant. In every state reached from \<^verbatim>\<open>NewCircuitBreaker\<close> by any calls at any times, the
  configuration is valid, the state is one of the three named ones, the failure count is below
  the threshold and zero unless closed, the success count is below \<^verbatim>\<open>HalfOpenMaxRequests\<close> and
  zero unless half-open, the backoff level is zero when closed, and recoveries never exceed
  openings, which never exceed state transitions.
\<close>

lemma circuit_breaker_invariant:
  assumes "NewCircuitBreaker (Some c0) = Inr cb"
  shows "cb_inv (fold cb_step ops cb) \<and> cb_config (fold cb_step ops cb) = cb_config cb"
  using New_inv(1) [OF assms] by (simp add: cb_inv_fold)

text \<open>
  Fail fast. An enabled breaker that is open turns every request away, unchanged, until
  \<^verbatim>\<open>OpenTimeout\<close> after its opening, and lets one through, moving to half-open, at the latest
  \<^verbatim>\<open>MaxBackoffTimeout\<close> after it, as long as the backoff product fits into 64 bits.
\<close>

lemma circuit_breaker_fails_fast:
  assumes "cb_inv cb" and "cfg_Enabled (cb_config cb)" and "cb_state cb = StateOpen"
    and "backoff_fits cb"
  shows "(t1 < cb_openedAt cb + cfg_OpenTimeout (cb_config cb) \<longrightarrow> CanAttempt t1 t2 cb = (False, cb))
    \<and> (cb_openedAt cb + cfg_MaxBackoffTimeout (cb_config cb) \<le> t1 \<longrightarrow>
      fst (CanAttempt t1 t2 cb) \<and> cb_state (snd (CanAttempt t1 t2 cb)) = StateHalfOpen)"
proof -
  let ?w = "ideal_backoff (cb_config cb) (CurrentBackoffMultiplier (cb_metrics cb))"
  have "cfg_OpenTimeout (cb_config cb) \<le> ?w" "?w \<le> cfg_MaxBackoffTimeout (cb_config cb)"
    using assms(1) ideal_backoff_bounds by (auto simp: cb_inv_def Let_def)
  with CanAttempt_open [OF assms(1,4,2,3), of t1 t2] assms(2,3) show ?thesis
    by (auto simp: CanAttempt_def cb_transitionTo_def split: if_splits)
qed

definition open_default_cb :: CircuitBreaker where
  "open_default_cb = fold cb_step (replicate 5 (OpFailure 7 8)) default_cb"

lemma open_default_cb_simp: "open_default_cb = default_cb\<lparr>cb_state := StateOpen, cb_openedAt := 8,
    cb_metrics := zero_metrics\<lparr>StateTransitions := 1, TotalOpenings := 1, LastStateChange := 7,
      CurrentBackoffMultiplier := 1\<rparr>\<rparr>"
  by (simp add: open_default_cb_def default_cb_def eval_nat_numeral cb_op_defs zero_metrics_def)

text \<open>
  The enabled breaker trips exactly at its threshold: from any reached closed state with no
  failures counted, fewer consecutive failures than \<^verbatim>\<open>FailureThreshold\<close> leave it closed and
  that many open it; and a success in between restarts the count.
\<close>

lemma circuit_breaker_trips_exactly:
  assumes "cb_inv cb" "cfg_Enabled (cb_config cb)" "cb_state cb = StateClosed"
    "cb_consecutiveFailures cb = 0"
  shows "(int (length ts) < cfg_FailureThreshold (cb_config cb) \<longrightarrow>
        cb_state (fold (\<lambda>t. RecordFailure (fst t) (snd t)) ts cb) = StateClosed
        \<and> cb_state (fold (\<lambda>t. RecordFailure (fst t) (snd t)) ts
             (RecordSuccess u (fold (\<lambda>t. RecordFailure (fst t) (snd t)) ts cb))) = StateClosed)
    \<and> (int (length ts) = cfg_FailureThreshold (cb_config cb) \<longrightarrow>
        cb_state (fold (\<lambda>t. RecordFailure (fst t) (snd t)) ts cb) = StateOpen)"
proof (intro conjI impI, goal_cases)
  case 1
  then show ?case using kubelet_breaker.fold_fail_below [of cb ts] assms by simp
next
  case 2
  let ?cb = "fold (\<lambda>t. RecordFailure (fst t) (snd t)) ts cb"
  have "(cb_inv ?cb \<and> cfg_Enabled (cb_config ?cb)) \<and> cb_state ?cb = StateClosed
      \<and> cfg_FailureThreshold (cb_config ?cb) = cfg_FailureThreshold (cb_config cb)"
    using kubelet_breaker.fold_fail_below [of cb ts] assms 2 by simp
  with kubelet_breaker.success_restarts_count [of ?cb ts "(u, u)"] 2 show ?case by simp
next
  case 3
  have "0 < cfg_FailureThreshold (cb_config cb)"
    using assms(1) by (auto simp: cb_inv_def Let_def)
  with kubelet_breaker.trips_exactly_at_threshold(2) [of cb ts] assms 3 show ?case by blast
qed

text \<open>
  Overflow of the exponential backoff. With the default configuration (30 s, doubling, cap of
  5 min), a breaker whose recovery attempts keep failing reaches level 30 after 29 of them; the
  64-bit product is then negative, the cap does not apply, and the breaker that has just opened
  lets a request through at once.
\<close>

lemma circuit_breaker_backoff_overflow:
  "let cb = fold cb_step (replicate 5 (OpFailure 1 1)
         @ concat (map (\<lambda>i. [OpCanAttempt (1 + i * (5 * minute)) (1 + i * (5 * minute)),
                              OpFailure (1 + i * (5 * minute)) (1 + i * (5 * minute))]) [1..29]))
       default_cb
   in cb_state cb = StateOpen \<and> cb_openedAt cb = 1 + 29 * (5 * minute)
      \<and> CurrentBackoffMultiplier (cb_metrics cb) = 30 \<and> cb_calculateTimeout cb < 0
      \<and> fst (CanAttempt (cb_openedAt cb) (cb_openedAt cb) cb)"
  by code_simp

end
