(* ===== verification/Base_Remediator.thy ===== *)
theory Base_Remediator
  imports Types
begin

text \<open>
  \<^verbatim>\<open>pkg/remediators/base.go\<close> and \<^verbatim>\<open>interface.go\<close>: the per-problem cooldown and attempt limit
  every remediator embeds, and the interface \<open>limited_dispatch\<close> of a dispatcher that bounds how
  often and how fast it acts, which the detector's incident policy satisfies too.

  The remediation function is supplied by the embedding remediator and acts on the node; a call
  of it is the parameter \<open>call\<close>, which gives its outcome: success, an error or a panic.
\<close>

section \<open>Interface: attempt-limited, cooled-down dispatch\<close>

text \<open>A client that makes a sequence of requests and acts when allowed; the requests it acted on and
  the final state.\<close>

fun guarded_run ::
  "('a \<Rightarrow> 's \<Rightarrow> bool) \<Rightarrow> ('a \<Rightarrow> 's \<Rightarrow> 's) \<Rightarrow> ('a \<Rightarrow> 's \<Rightarrow> 's) \<Rightarrow> 'a list \<Rightarrow> 's \<Rightarrow>
   'a list \<times> 's" where
  "guarded_run can act skip [] s = ([], s)"
| "guarded_run can act skip (q # qs) s =
     (if can q s then let r = guarded_run can act skip qs (act q s) in (q # fst r, snd r)
      else guarded_run can act skip qs (skip q s))"

text \<open>A request has a time; one that \<open>ends\<close> the incident is never acted on and may reset the count.\<close>

locale limited_dispatch =
  fixes inv :: "'s \<Rightarrow> bool"
    and at :: "'a \<Rightarrow> time"
    and ends :: "'a \<Rightarrow> bool"
    and can :: "'a \<Rightarrow> 's \<Rightarrow> bool"
    and act :: "'a \<Rightarrow> 's \<Rightarrow> 's"
    and skip :: "'a \<Rightarrow> 's \<Rightarrow> 's"
    and count :: "'s \<Rightarrow> int"
    and lastAct :: "'s \<Rightarrow> time option"
    and limit :: "int option"
    and cooldown :: duration
  assumes inv_act: "inv s \<Longrightarrow> can q s \<Longrightarrow> inv (act q s)"
    and inv_skip: "inv s \<Longrightarrow> \<not> can q s \<Longrightarrow> inv (skip q s)"
    and can_count: "inv s \<Longrightarrow> can q s \<Longrightarrow> limit = Some n \<Longrightarrow> count s < n"
    and can_cooldown: "inv s \<Longrightarrow> can q s \<Longrightarrow> 0 < cooldown \<Longrightarrow> lastAct s = Some u \<Longrightarrow>
          u \<le> at q \<Longrightarrow> u + cooldown \<le> at q"
    and count_act: "inv s \<Longrightarrow> can q s \<Longrightarrow> count (act q s) = count s + 1"
    and last_act: "inv s \<Longrightarrow> can q s \<Longrightarrow> at q \<noteq> 0 \<Longrightarrow> lastAct (act q s) = Some (at q)"
    and count_skip: "inv s \<Longrightarrow> \<not> can q s \<Longrightarrow> \<not> ends q \<Longrightarrow> count (skip q s) = count s"
    and last_skip: "inv s \<Longrightarrow> \<not> can q s \<Longrightarrow> lastAct (skip q s) = lastAct s"
begin

lemma run_inv: "inv s \<Longrightarrow> inv (snd (guarded_run can act skip qs s))"
  by (induction qs arbitrary: s) (auto simp: Let_def inv_act inv_skip)

text \<open>Within one incident the limit bounds the number of actions.\<close>

lemma run_bounded:
  "inv s \<Longrightarrow> limit = Some n \<Longrightarrow> \<forall>q\<in>set qs. \<not> ends q \<Longrightarrow>
     int (length (fst (guarded_run can act skip qs s))) \<le> max 0 (n - count s)"
proof (induction qs arbitrary: s)
  case Nil
  then show ?case by simp
next
  case (Cons q qs)
  show ?case
  proof (cases "can q s")
    case True
    then have "count s < n" using Cons.prems can_count by blast
    with True Cons.IH [of "act q s"] Cons.prems show ?thesis
      by (simp add: Let_def inv_act count_act)
  next
    case False
    with Cons.IH [of "skip q s"] Cons.prems show ?thesis by (simp add: inv_skip count_skip)
  qed
qed

lemma run_after_last:
  assumes "inv s" "0 < cooldown" "sorted (map at qs)" "\<forall>q\<in>set qs. at q \<noteq> 0"
    and "\<forall>u. lastAct s = Some u \<longrightarrow> (\<forall>q\<in>set qs. u \<le> at q)"
  shows "(\<forall>u. lastAct s = Some u \<longrightarrow> (\<forall>q\<in>set (fst (guarded_run can act skip qs s)). u + cooldown \<le> at q))
     \<and> sorted_wrt (\<lambda>a b. at a + cooldown \<le> at b) (fst (guarded_run can act skip qs s))"
  using assms
proof (induction qs arbitrary: s)
  case Nil
  then show ?case by simp
next
  case (Cons q qs)
  show ?case
  proof (cases "can q s")
    case False
    with Cons.IH [of "skip q s"] Cons.prems show ?thesis by (simp add: inv_skip last_skip)
  next
    case True
    let ?r = "fst (guarded_run can act skip qs (act q s))"
    have IH: "\<forall>x\<in>set ?r. at q + cooldown \<le> at x" "sorted_wrt (\<lambda>a b. at a + cooldown \<le> at b) ?r"
      using Cons.IH [of "act q s"] Cons.prems True by (auto simp: inv_act last_act)
    have "u + cooldown \<le> at q" if "lastAct s = Some u" for u
      using can_cooldown [of s q u] Cons.prems True that by simp
    with IH True Cons.prems(2) show ?thesis by (fastforce simp: Let_def)
  qed
qed

text \<open>Two actions are at least the cooldown apart, on a clock that does not run backwards.\<close>

lemma run_spaced:
  "inv s \<Longrightarrow> 0 < cooldown \<Longrightarrow> sorted (map at qs) \<Longrightarrow> \<forall>q\<in>set qs. at q \<noteq> 0 \<Longrightarrow>
     \<forall>u. lastAct s = Some u \<longrightarrow> (\<forall>q\<in>set qs. u \<le> at q) \<Longrightarrow>
     sorted_wrt (\<lambda>a b. at a + cooldown \<le> at b) (fst (guarded_run can act skip qs s))"
  using run_after_last by blast

end

section \<open>Definitions\<close>

definition CooldownFast :: duration where "CooldownFast = 3 * minute"
definition CooldownMedium :: duration where "CooldownMedium = 5 * minute"
definition CooldownSlow :: duration where "CooldownSlow = 10 * minute"
definition CooldownDestructive :: duration where "CooldownDestructive = 30 * minute"

definition DefaultMaxAttempts :: int where "DefaultMaxAttempts = 3"

definition GenerateProblemKey :: "problem \<Rightarrow> string" where
  "GenerateProblemKey p = pr_Type p @ '':'' @ pr_Resource p"

record 'f BaseRemediator =
  br_name :: string
  br_cooldown :: duration
  br_lastAttemptTime :: "(string, time) gomap"
  br_attemptCount :: "(string, int) gomap"
  br_remediateFunc :: "'f option"
  br_maxAttempts :: int

datatype call_result = CallOk | CallErr string | CallPanic string

datatype rem_cause = PanicDuring string string | ContextCancelled string | FuncError string

datatype rem_error =
    EmptyName | BadCooldown duration | NilFunc | BadMaxAttempts int
  | FuncNotSet string
  | RemediationFailed string rem_cause

definition NewBaseRemediator :: "string \<Rightarrow> duration \<Rightarrow> rem_error + 'f BaseRemediator" where
  "NewBaseRemediator name cooldown =
     (if name = [] then Inl EmptyName
      else if cooldown \<le> 0 then Inl (BadCooldown cooldown)
      else Inr \<lparr>br_name = name, br_cooldown = cooldown, br_lastAttemptTime = [],
                br_attemptCount = [], br_remediateFunc = None,
                br_maxAttempts = DefaultMaxAttempts\<rparr>)"

definition SetRemediateFunc :: "'f option \<Rightarrow> 'f BaseRemediator \<Rightarrow> rem_error + 'f BaseRemediator" where
  "SetRemediateFunc fn b =
     (case fn of None \<Rightarrow> Inl NilFunc | Some f \<Rightarrow> Inr (b\<lparr>br_remediateFunc := Some f\<rparr>))"

definition SetMaxAttempts :: "int \<Rightarrow> 'f BaseRemediator \<Rightarrow> rem_error + 'f BaseRemediator" where
  "SetMaxAttempts mx b =
     (if mx \<le> 0 then Inl (BadMaxAttempts mx) else Inr (b\<lparr>br_maxAttempts := mx\<rparr>))"

definition GetAttemptCount :: "problem \<Rightarrow> 'f BaseRemediator \<Rightarrow> int" where
  "GetAttemptCount p b = gomap_get 0 (br_attemptCount b) (GenerateProblemKey p)"

definition GetCooldownRemaining :: "time \<Rightarrow> problem \<Rightarrow> 'f BaseRemediator \<Rightarrow> duration" where
  "GetCooldownRemaining now p b =
     (case map_of (br_lastAttemptTime b) (GenerateProblemKey p) of
        None \<Rightarrow> 0
      | Some lastAttempt \<Rightarrow>
          let elapsed = time_sub now lastAttempt
          in if br_cooldown b \<le> elapsed then 0 else wrap64 (br_cooldown b - elapsed))"

definition IsInCooldown :: "time \<Rightarrow> problem \<Rightarrow> 'f BaseRemediator \<Rightarrow> bool" where
  "IsInCooldown now p b \<longleftrightarrow> GetCooldownRemaining now p b > 0"

definition CanRemediate :: "time \<Rightarrow> problem \<Rightarrow> 'f BaseRemediator \<Rightarrow> bool" where
  "CanRemediate now p b =
     (if IsInCooldown now p b then False
      else if br_maxAttempts b \<le> GetAttemptCount p b then False
      else True)"

definition recordAttempt :: "time \<Rightarrow> string \<Rightarrow> 'f BaseRemediator \<Rightarrow> 'f BaseRemediator" where
  "recordAttempt now key b =
     b\<lparr>br_lastAttemptTime := AList.update key now (br_lastAttemptTime b),
       br_attemptCount := AList.update key (gomap_get 0 (br_attemptCount b) key + 1) (br_attemptCount b)\<rparr>"

text \<open>\<open>ctxErr\<close> is the error of a context that is already done.\<close>

definition Base_Remediate ::
  "('f \<Rightarrow> problem \<Rightarrow> call_result) \<Rightarrow> string option \<Rightarrow> time \<Rightarrow> problem \<Rightarrow> 'f BaseRemediator \<Rightarrow>
   rem_error option \<times> 'f BaseRemediator" where
  "Base_Remediate call ctxErr now p b =
     (case br_remediateFunc b of
        None \<Rightarrow> (Some (FuncNotSet (br_name b)), b)
      | Some f \<Rightarrow>
          let key = GenerateProblemKey p;
              b' = recordAttempt now key b;
              err = (case ctxErr of
                       Some e \<Rightarrow> Some (ContextCancelled e)
                     | None \<Rightarrow>
                         (case call f p of
                            CallOk \<Rightarrow> None
                          | CallErr e \<Rightarrow> Some (FuncError e)
                          | CallPanic m \<Rightarrow> Some (PanicDuring key m)))
          in (map_option (RemediationFailed key) err, b'))"

definition ResetAttempts :: "problem \<Rightarrow> 'f BaseRemediator \<Rightarrow> 'f BaseRemediator" where
  "ResetAttempts p b =
     b\<lparr>br_attemptCount := AList.delete (GenerateProblemKey p) (br_attemptCount b)\<rparr>"

definition ClearCooldown :: "problem \<Rightarrow> 'f BaseRemediator \<Rightarrow> 'f BaseRemediator" where
  "ClearCooldown p b =
     b\<lparr>br_lastAttemptTime := AList.delete (GenerateProblemKey p) (br_lastAttemptTime b)\<rparr>"

section \<open>Lemmas\<close>

definition br_ok :: "'f BaseRemediator \<Rightarrow> bool" where
  "br_ok b \<longleftrightarrow> 0 < br_cooldown b \<and> br_cooldown b \<le> max_int64 \<and> 0 < br_maxAttempts b"

lemma recordAttempt_simps [simp]:
  "br_name (recordAttempt now key b) = br_name b"
  "br_cooldown (recordAttempt now key b) = br_cooldown b"
  "br_maxAttempts (recordAttempt now key b) = br_maxAttempts b"
  "br_remediateFunc (recordAttempt now key b) = br_remediateFunc b"
  by (simp_all add: recordAttempt_def)

lemma Base_Remediate_state:
  "snd (Base_Remediate call ctxErr now p b) =
     (if br_remediateFunc b = None then b else recordAttempt now (GenerateProblemKey p) b)"
  by (auto simp: Base_Remediate_def Let_def split: option.splits)

lemma br_ok_Base_Remediate: "br_ok b \<Longrightarrow> br_ok (snd (Base_Remediate call ctxErr now p b))"
  by (simp add: Base_Remediate_state br_ok_def)

text \<open>On a clock that does not run backwards the cooldown test is the plain inequality.\<close>

lemma CanRemediate_cooldown:
  assumes "br_ok b" "CanRemediate t p b" "u \<le> t"
    "map_of (br_lastAttemptTime b) (GenerateProblemKey p) = Some u"
  shows "u + br_cooldown b \<le> t"
proof (rule ccontr)
  assume "\<not> u + br_cooldown b \<le> t"
  with assms(1) have "time_sub t u < br_cooldown b"
    using time_sub_less_iff [of "br_cooldown b" t u] by (simp add: br_ok_def)
  moreover have "0 \<le> time_sub t u"
    using assms(3) by (simp add: time_sub_def)
  ultimately have "IsInCooldown t p b"
    using assms(1,4) by (simp add: IsInCooldown_def GetCooldownRemaining_def Let_def br_ok_def)
  with assms(2) show False by (simp add: CanRemediate_def)
qed

lemma CanRemediate_count: "CanRemediate t p b \<Longrightarrow> GetAttemptCount p b < br_maxAttempts b"
  by (auto simp: CanRemediate_def split: if_splits)

lemma recordAttempt_count [simp]:
  "GetAttemptCount p (recordAttempt t key b) =
     GetAttemptCount p b + (if GenerateProblemKey p = key then 1 else 0)"
  by (simp add: GetAttemptCount_def recordAttempt_def)

lemma recordAttempt_last [simp]:
  "map_of (br_lastAttemptTime (recordAttempt t key b)) = (map_of (br_lastAttemptTime b))(key \<mapsto> t)"
  by (simp add: recordAttempt_def)

text \<open>Guarded use of one remediator for one problem: ask \<^verbatim>\<open>CanRemediate\<close>, and when it allows,
  call \<^verbatim>\<open>Remediate\<close>. The context and the outcome of each call are arbitrary.\<close>

interpretation base_rem: limited_dispatch
  "\<lambda>b. br_ok b \<and> br_remediateFunc b \<noteq> None \<and> br_maxAttempts b = n \<and> br_cooldown b = d"
  "\<lambda>t. t" "\<lambda>_. False"
  "\<lambda>t. CanRemediate t p"
  "\<lambda>t b. snd (Base_Remediate (call t) (ctxErr t) t p b)"
  "\<lambda>t b. b"
  "GetAttemptCount p"
  "\<lambda>b. map_of (br_lastAttemptTime b) (GenerateProblemKey p)"
  "Some n" d
  for n d p call ctxErr
  by unfold_locales
    (auto simp: Base_Remediate_state br_ok_def dest: CanRemediate_count CanRemediate_cooldown [rotated])

section \<open>Properties\<close>

text \<open>
  C36. Per-problem safety limits. However often \<^verbatim>\<open>Remediate\<close> is wanted for a problem, and whatever
  the calls return, a caller that asks \<^verbatim>\<open>CanRemediate\<close> first performs at most
  \<^verbatim>\<open>maxAttempts\<close> attempts beyond those already counted, and on a clock that does not run
  backwards any two of them are at least the cooldown apart.
\<close>

theorem remediator_attempts_limited_and_spaced:
  assumes "br_ok b" "br_remediateFunc b \<noteq> None" "0 \<le> GetAttemptCount p b"
    and "sorted ts" "\<forall>t\<in>set ts. t \<noteq> 0"
    and "\<forall>u. map_of (br_lastAttemptTime b) (GenerateProblemKey p) = Some u \<longrightarrow> (\<forall>t\<in>set ts. u \<le> t)"
  shows "let acts = fst (guarded_run (\<lambda>t. CanRemediate t p)
             (\<lambda>t b. snd (Base_Remediate (call t) (ctxErr t) t p b)) (\<lambda>t b. b) ts b)
         in int (length acts) \<le> br_maxAttempts b
            \<and> sorted_wrt (\<lambda>s t. s + br_cooldown b \<le> t) acts"
  using assms base_rem.run_bounded [of b "br_maxAttempts b" "br_cooldown b" _ ts p call ctxErr]
    base_rem.run_spaced [of b "br_maxAttempts b" "br_cooldown b" ts p call ctxErr]
  by (fastforce simp: Let_def br_ok_def)

definition demo_remediator :: "unit BaseRemediator" where
  "demo_remediator = \<lparr>br_name = ''kubelet-restart'', br_cooldown = CooldownMedium,
     br_lastAttemptTime = [], br_attemptCount = [], br_remediateFunc = Some (),
     br_maxAttempts = DefaultMaxAttempts\<rparr>"

definition demo_problem :: problem where
  "demo_problem = NewProblem 1 ''kubelet-unhealthy'' ''kubelet.service'' ''Critical'' ''down''"

theorem remediator_attempts_limited_and_spaced_witness:
  "fst (guarded_run (\<lambda>t. CanRemediate t demo_problem)
      (\<lambda>t b. snd (Base_Remediate (\<lambda>_ _. CallErr ''e'') None t demo_problem b)) (\<lambda>t b. b)
      [10, 11, 10 + 5 * minute] demo_remediator) = [10, 10 + 5 * minute]
   \<and> sorted_wrt (\<lambda>s t. s + CooldownMedium \<le> t) [10, 10 + 5 * minute]"
proof -
  have run: "fst (guarded_run (\<lambda>t. CanRemediate t demo_problem)
      (\<lambda>t b. snd (Base_Remediate (\<lambda>_ _. CallErr ''e'') None t demo_problem b)) (\<lambda>t b. b)
      [10, 11, 10 + 5 * minute] demo_remediator) = [10, 10 + 5 * minute]"
    by code_simp
  show ?thesis
    using remediator_attempts_limited_and_spaced [of demo_remediator demo_problem
        "[10, 11, 10 + 5 * minute]" "\<lambda>_ _ _. CallErr ''e''" "\<lambda>_. None"] run
    by (simp add: demo_remediator_def br_ok_def CooldownMedium_def DefaultMaxAttempts_def
        GetAttemptCount_def)
qed

text \<open>
  Problem keys separate problems whose types contain no colon; with colons in the type two
  different problems can share a key, and then share cooldown and attempt count.
\<close>

lemma problem_key_unique_without_colon:
  "CHR '':'' \<notin> set (pr_Type p) \<Longrightarrow> CHR '':'' \<notin> set (pr_Type q) \<Longrightarrow>
   (GenerateProblemKey p = GenerateProblemKey q \<longleftrightarrow>
      pr_Type p = pr_Type q \<and> pr_Resource p = pr_Resource q)
   \<and> GenerateProblemKey (NewProblem 1 ''a:b'' ''c'' s m) = GenerateProblemKey (NewProblem 1 ''a'' ''b:c'' s m)"
  by (simp add: GenerateProblemKey_def append_sep_inject NewProblem_def)

end
