(* ===== verification/Controller_Types.thy ===== *)
theory Controller_Types
  imports Prelude Complex_Main
begin

text \<open>
  The data of the controller, \<^verbatim>\<open>pkg/controller/types.go\<close>: node reports, cluster status,
  correlations, remediation leases, the response wrappers and the configuration with its
  defaults. A \<^verbatim>\<open>HealthStatus\<close> is a string type in the code and may hold any string. A
  \<^verbatim>\<open>float64\<close> is a rational; where the code rounds, the rounding is an argument of the model.
\<close>

type_synonym HealthStatus = string
type_synonym float64 = rat

definition HealthStatusHealthy :: HealthStatus where "HealthStatusHealthy = ''healthy''"
definition HealthStatusDegraded :: HealthStatus where "HealthStatusDegraded = ''degraded''"
definition HealthStatusCritical :: HealthStatus where "HealthStatusCritical = ''critical''"
definition HealthStatusUnknown :: HealthStatus where "HealthStatusUnknown = ''unknown''"

record MonitorStatus =
  ms_Name :: string
  ms_Type :: string
  ms_Status :: HealthStatus
  ms_LastRun :: time
  ms_Message :: string
  ms_ErrorCount :: int

record ProblemSummary =
  ps_Type :: string
  ps_Severity :: string
  ps_Message :: string
  ps_Source :: string
  ps_DetectedAt :: time
  ps_LastSeenAt :: time
  ps_Occurrences :: int

record NodeCondition =
  nc_Type :: string
  nc_Status :: string
  nc_Reason :: string
  nc_Message :: string
  nc_LastTransitionTime :: time
  nc_LastHeartbeatTime :: time

record NodeStats =
  ns_StatusesProcessed :: int
  ns_ProblemsDetected :: int
  ns_RemediationsRun :: int
  ns_MemoryUsageBytes :: int
  ns_GoroutineCount :: int
  ns_CPUUsagePercent :: string

record NodeReport =
  nr_NodeName :: string
  nr_NodeUID :: string
  nr_Timestamp :: time
  nr_ReportID :: string
  nr_Version :: string
  nr_Uptime :: string
  nr_ReportType :: string
  nr_OverallHealth :: HealthStatus
  nr_MonitorStatuses :: "MonitorStatus list"
  nr_ActiveProblems :: "ProblemSummary list"
  nr_Conditions :: "NodeCondition list"
  nr_Stats :: "NodeStats option"

record NodeSummary =
  nsum_NodeName :: string
  nsum_Health :: HealthStatus
  nsum_LastReportAt :: time
  nsum_ProblemCount :: int
  nsum_ConditionCount :: int

record ClusterProblem =
  cp_ID :: string
  cp_Type :: string
  cp_Severity :: string
  cp_AffectedNodes :: "string list"
  cp_Message :: string
  cp_DetectedAt :: time
  cp_IsCorrelated :: bool
  cp_CorrelationID :: string

record ClusterStatus =
  cs_Timestamp :: time
  cs_OverallHealth :: HealthStatus
  cs_TotalNodes :: int
  cs_HealthyNodes :: int
  cs_DegradedNodes :: int
  cs_CriticalNodes :: int
  cs_UnknownNodes :: int
  cs_ActiveProblems :: int
  cs_Correlations :: int
  cs_NodeSummaries :: "NodeSummary list"
  cs_RecentProblems :: "ClusterProblem list"

record ReportSummary =
  rs_ReportID :: string
  rs_Timestamp :: time
  rs_OverallHealth :: HealthStatus
  rs_ProblemCount :: int

record NodeDetail =
  nd_NodeName :: string
  nd_NodeUID :: string
  nd_Health :: HealthStatus
  nd_LastReportAt :: time
  nd_FirstSeenAt :: time
  nd_ReportCount :: int
  nd_LatestReport :: "NodeReport option"
  nd_ActiveProblems :: "ProblemSummary list"
  nd_Conditions :: "NodeCondition list"
  nd_RecentHistory :: "ReportSummary list"

text \<open>The message of a correlation and the values of its metadata, before they are printed.\<close>

datatype corr_message =
    InfraMessage string float64 int int
  | CommonCauseMessage string int
  | CascadeMessage string int

datatype corr_meta =
    MetaFloat float64 | MetaInt int | MetaString string | MetaStrings "string list"

record Correlation =
  co_ID :: string
  co_Type :: string
  co_Severity :: string
  co_AffectedNodes :: "string list"
  co_ProblemTypes :: "string list"
  co_Message :: corr_message
  co_DetectedAt :: time
  co_UpdatedAt :: time
  co_Status :: string
  co_Confidence :: float64
  co_Metadata :: "(string, corr_meta) gomap"

record LeaseRequest =
  lq_NodeName :: string
  lq_RemediationType :: string
  lq_RequestedDuration :: string
  lq_Reason :: string
  lq_Priority :: int

text \<open>The texts of a lease answer; the cooldown text carries the remaining time and the type of
  the last remediation, \<open>LeaseText\<close> is a text made up by the client.\<close>

datatype lease_message =
    NoLeaseMessage | MaxConcurrentMessage | NodeHasLeaseMessage
  | CooldownMessage duration string | LeaseGrantedMessage | LeaseText string

record LeaseResponse =
  lr_LeaseID :: string
  lr_Approved :: bool
  lr_ExpiresAt :: time
  lr_Message :: lease_message
  lr_RetryAt :: time
  lr_Position :: int

definition zero_LeaseResponse :: LeaseResponse where
  "zero_LeaseResponse = \<lparr>lr_LeaseID = [], lr_Approved = False, lr_ExpiresAt = 0,
     lr_Message = NoLeaseMessage, lr_RetryAt = 0, lr_Position = 0\<rparr>"

record Lease =
  le_ID :: string
  le_NodeName :: string
  le_RemediationType :: string
  le_GrantedAt :: time
  le_ExpiresAt :: time
  le_CompletedAt :: time
  le_Status :: string
  le_Reason :: string

record ServerConfig =
  sc_BindAddress :: string
  sc_Port :: int
  sc_ReadTimeout :: duration
  sc_WriteTimeout :: duration
  sc_EnableCORS :: bool

record StorageConfig =
  stc_Path :: string
  stc_Retention :: duration

record CorrelationConfig =
  cc_Enabled :: bool
  cc_ClusterWideThreshold :: float64
  cc_EvaluationInterval :: duration
  cc_MinNodesForCorrelation :: int

record CoordinationConfig =
  cd_Enabled :: bool
  cd_MaxConcurrentRemediations :: int
  cd_DefaultLeaseDuration :: duration
  cd_CooldownPeriod :: duration

record PrometheusConfig =
  pm_Enabled :: bool
  pm_Port :: int
  pm_Path :: string

record KubernetesConfig =
  kc_Enabled :: bool
  kc_Kubeconfig :: string
  kc_InCluster :: bool
  kc_Namespace :: string
  kc_CreateEvents :: bool

record ControllerConfig =
  cf_Server :: ServerConfig
  cf_Storage :: StorageConfig
  cf_Correlation :: CorrelationConfig
  cf_Coordination :: CoordinationConfig
  cf_Prometheus :: PrometheusConfig
  cf_Kubernetes :: KubernetesConfig

definition DefaultControllerConfig :: ControllerConfig where
  "DefaultControllerConfig = \<lparr>
     cf_Server = \<lparr>sc_BindAddress = ''0.0.0.0'', sc_Port = 8080, sc_ReadTimeout = 30 * second,
       sc_WriteTimeout = 30 * second, sc_EnableCORS = False\<rparr>,
     cf_Storage = \<lparr>stc_Path = ''/data/node-doctor.db'', stc_Retention = 30 * 24 * hour\<rparr>,
     cf_Correlation = \<lparr>cc_Enabled = True, cc_ClusterWideThreshold = 3 / 10,
       cc_EvaluationInterval = 30 * second, cc_MinNodesForCorrelation = 2\<rparr>,
     cf_Coordination = \<lparr>cd_Enabled = True, cd_MaxConcurrentRemediations = 3,
       cd_DefaultLeaseDuration = 5 * minute, cd_CooldownPeriod = 10 * minute\<rparr>,
     cf_Prometheus = \<lparr>pm_Enabled = True, pm_Port = 9090, pm_Path = ''/metrics''\<rparr>,
     cf_Kubernetes = \<lparr>kc_Enabled = True, kc_Kubeconfig = [], kc_InCluster = True,
       kc_Namespace = ''node-doctor'', kc_CreateEvents = True\<rparr>\<rparr>"

end
