(* ===== verification/Controller_Storage.thy ===== *)
theory Controller_Storage
  imports Controller_Types
begin

text \<open>
  \<^verbatim>\<open>pkg/controller/storage.go\<close>: the \<^verbatim>\<open>Storage\<close> interface of the controller and its SQLite
  implementation.

  The Go interface is the record \<open>storage_ops\<close> of operations on a database state. The contract
  the controller relies on is the locale \<open>lease_storage\<close>, and the SQLite implementation is an
  interpretation of it. The SQL engine is not part of the program: a table is the list of its rows
  and every call takes a \<open>db_env\<close>, the clock readings of the call and the error the driver returns,
  if any; a failed statement leaves the tables as they were. JSON columns hold the value itself; a
  number read back into an \<^verbatim>\<open>interface{}\<close> becomes a \<^verbatim>\<open>float64\<close>.
\<close>

section \<open>The storage interface\<close>

datatype storage_error = StorageError string string | StorageConfigNil

record ('e, 'db) storage_ops =
  so_SaveNodeReport :: "'e \<Rightarrow> NodeReport \<Rightarrow> 'db \<Rightarrow> storage_error option \<times> 'db"
  so_GetNodeReports :: "'e \<Rightarrow> string \<Rightarrow> int \<Rightarrow> 'db \<Rightarrow> storage_error + NodeReport list"
  so_GetAllLatestReports :: "'e \<Rightarrow> 'db \<Rightarrow> storage_error + (string, NodeReport) gomap"
  so_SaveLease :: "'e \<Rightarrow> Lease \<Rightarrow> 'db \<Rightarrow> storage_error option \<times> 'db"
  so_GetActiveLeases :: "'e \<Rightarrow> 'db \<Rightarrow> storage_error + Lease list"
  so_GetLastCompletedLease :: "'e \<Rightarrow> string \<Rightarrow> 'db \<Rightarrow> storage_error + Lease option"
  so_UpdateLeaseStatus :: "'e \<Rightarrow> string \<Rightarrow> string \<Rightarrow> 'db \<Rightarrow> storage_error option \<times> 'db"
  so_SaveCorrelation :: "'e \<Rightarrow> Correlation \<Rightarrow> 'db \<Rightarrow> storage_error option \<times> 'db"
  so_UpdateCorrelation :: "'e \<Rightarrow> Correlation \<Rightarrow> 'db \<Rightarrow> storage_error option \<times> 'db"
  so_GetCorrelation :: "'e \<Rightarrow> string \<Rightarrow> 'db \<Rightarrow> storage_error + Correlation option"
  so_GetActiveCorrelations :: "'e \<Rightarrow> 'db \<Rightarrow> storage_error + Correlation list"
  so_RunCleanup :: "'e \<Rightarrow> 'e \<Rightarrow> 'db \<Rightarrow> storage_error option \<times> 'db"

text \<open>The columns of the leases table.\<close>

record lease_row =
  lw_id :: string
  lw_node :: string
  lw_type :: string
  lw_status :: string
  lw_reason :: string
  lw_granted :: time
  lw_expires :: time
  lw_completed :: "time option"

definition row_of_lease :: "Lease \<Rightarrow> lease_row" where
  "row_of_lease l = \<lparr>lw_id = le_ID l, lw_node = le_NodeName l, lw_type = le_RemediationType l,
     lw_status = le_Status l, lw_reason = le_Reason l, lw_granted = le_GrantedAt l,
     lw_expires = le_ExpiresAt l, lw_completed = None\<rparr>"

definition lease_of_row :: "lease_row \<Rightarrow> Lease" where
  "lease_of_row r = \<lparr>le_ID = lw_id r, le_NodeName = lw_node r, le_RemediationType = lw_type r,
     le_GrantedAt = lw_granted r, le_ExpiresAt = lw_expires r, le_CompletedAt = 0,
     le_Status = lw_status r, le_Reason = lw_reason r\<rparr>"

definition terminal_status :: "string \<Rightarrow> bool" where
  "terminal_status st \<longleftrightarrow> st = ''completed'' \<or> st = ''expired'' \<or> st = ''cancelled''"

definition row_live :: "time \<Rightarrow> lease_row \<Rightarrow> bool" where
  "row_live t r \<longleftrightarrow> lw_status r = ''active'' \<and> t < lw_expires r"

definition row_done :: "string \<Rightarrow> lease_row \<Rightarrow> bool" where
  "row_done node r \<longleftrightarrow> lw_node r = node \<and> (lw_status r = ''completed'' \<or> lw_status r = ''expired'')"

definition set_row_status :: "string \<Rightarrow> time \<Rightarrow> lease_row \<Rightarrow> lease_row" where
  "set_row_status st now r =
     r\<lparr>lw_status := st, lw_completed := (if terminal_status st then Some now else None)\<rparr>"

section \<open>The SQLite implementation\<close>

record report_row =
  rr_id :: int
  rr_node :: string
  rr_uid :: string
  rr_reportId :: string
  rr_timestamp :: time
  rr_health :: string
  rr_report :: NodeReport

record SQLiteStorage =
  sq_reports :: "report_row list"
  sq_nextId :: int
  sq_leases :: "(string, lease_row) gomap"
  sq_correlations :: "(string, Correlation) gomap"
  sq_dbPath :: string
  sq_retention :: duration

record db_env =
  de_now :: "nat \<Rightarrow> time"
  de_err :: "string option"

definition sql_exec :: "db_env \<Rightarrow> string \<Rightarrow> ('s \<Rightarrow> 's) \<Rightarrow> 's \<Rightarrow> storage_error option \<times> 's" where
  "sql_exec e what f d =
     (case de_err e of Some c \<Rightarrow> (Some (StorageError what c), d) | None \<Rightarrow> (None, f d))"

definition sql_query :: "db_env \<Rightarrow> string \<Rightarrow> ('s \<Rightarrow> 'a) \<Rightarrow> 's \<Rightarrow> storage_error + 'a" where
  "sql_query e what q d =
     (case de_err e of Some c \<Rightarrow> Inl (StorageError what c) | None \<Rightarrow> Inr (q d))"

text \<open>A new storage is empty after its migrations.\<close>

definition NewSQLiteStorage :: "StorageConfig option \<Rightarrow> storage_error + SQLiteStorage" where
  "NewSQLiteStorage co =
     (case co of None \<Rightarrow> Inl StorageConfigNil
      | Some c \<Rightarrow> Inr \<lparr>sq_reports = [], sq_nextId = 1, sq_leases = [], sq_correlations = [],
                     sq_dbPath = stc_Path c, sq_retention = stc_Retention c\<rparr>)"

definition SaveNodeReport ::
  "db_env \<Rightarrow> NodeReport \<Rightarrow> SQLiteStorage \<Rightarrow> storage_error option \<times> SQLiteStorage" where
  "SaveNodeReport e r = sql_exec e ''failed to save node report''
     (\<lambda>d. d\<lparr>sq_reports := sq_reports d @
              [\<lparr>rr_id = sq_nextId d, rr_node = nr_NodeName r, rr_uid = nr_NodeUID r,
                rr_reportId = nr_ReportID r, rr_timestamp = nr_Timestamp r,
                rr_health = nr_OverallHealth r, rr_report = r\<rparr>],
            sq_nextId := sq_nextId d + 1\<rparr>)"

text \<open>Rows of a node, newest time stamp first; among equal time stamps the order of insertion.\<close>

definition node_rows_desc :: "string \<Rightarrow> SQLiteStorage \<Rightarrow> report_row list" where
  "node_rows_desc node d =
     sort_key (\<lambda>r. - rr_timestamp r) (filter (\<lambda>r. rr_node r = node) (sq_reports d))"

definition GetLatestNodeReport ::
  "db_env \<Rightarrow> string \<Rightarrow> SQLiteStorage \<Rightarrow> storage_error + NodeReport option" where
  "GetLatestNodeReport e node = sql_query e ''failed to get latest report''
     (\<lambda>d. case node_rows_desc node d of [] \<Rightarrow> None | r # _ \<Rightarrow> Some (rr_report r))"

definition GetNodeReports ::
  "db_env \<Rightarrow> string \<Rightarrow> int \<Rightarrow> SQLiteStorage \<Rightarrow> storage_error + NodeReport list" where
  "GetNodeReports e node limit = sql_query e ''failed to query reports''
     (\<lambda>d. map rr_report (take (nat (if limit \<le> 0 then 100 else limit)) (node_rows_desc node d)))"

definition GetAllLatestReports ::
  "db_env \<Rightarrow> SQLiteStorage \<Rightarrow> storage_error + (string, NodeReport) gomap" where
  "GetAllLatestReports e = sql_query e ''failed to query reports''
     (\<lambda>d. fold (\<lambda>r m. AList.update (rr_node r) (rr_report r) m)
        (filter (\<lambda>r. \<forall>r'\<in>set (sq_reports d). rr_node r' = rr_node r \<longrightarrow> rr_id r' \<le> rr_id r)
          (sq_reports d)) [])"

definition DeleteOldReports ::
  "db_env \<Rightarrow> time \<Rightarrow> SQLiteStorage \<Rightarrow> (storage_error + int) \<times> SQLiteStorage" where
  "DeleteOldReports e before d =
     (case de_err e of Some c \<Rightarrow> (Inl (StorageError ''failed to delete old reports'' c), d)
      | None \<Rightarrow>
          let keep = filter (\<lambda>r. \<not> rr_timestamp r < before) (sq_reports d)
          in (Inr (int (length (sq_reports d)) - int (length keep)), d\<lparr>sq_reports := keep\<rparr>))"

definition SaveLease :: "db_env \<Rightarrow> Lease \<Rightarrow> SQLiteStorage \<Rightarrow> storage_error option \<times> SQLiteStorage" where
  "SaveLease e l = sql_exec e ''failed to save lease''
     (\<lambda>d. d\<lparr>sq_leases := AList.update (le_ID l) (row_of_lease l) (sq_leases d)\<rparr>)"

definition GetLease :: "db_env \<Rightarrow> string \<Rightarrow> SQLiteStorage \<Rightarrow> storage_error + Lease option" where
  "GetLease e leaseID = sql_query e ''failed to get lease''
     (\<lambda>d. map_option lease_of_row (map_of (sq_leases d) leaseID))"

definition GetActiveLeases :: "db_env \<Rightarrow> SQLiteStorage \<Rightarrow> storage_error + Lease list" where
  "GetActiveLeases e = sql_query e ''failed to query leases''
     (\<lambda>d. map lease_of_row
        (sort_key lw_granted (filter (row_live (de_now e 0)) (map snd (sq_leases d)))))"

definition GetNodeLease :: "db_env \<Rightarrow> string \<Rightarrow> SQLiteStorage \<Rightarrow> storage_error + Lease option" where
  "GetNodeLease e node = sql_query e ''failed to get node lease''
     (\<lambda>d. case sort_key (\<lambda>r. - lw_granted r)
             (filter (\<lambda>r. lw_node r = node \<and> row_live (de_now e 0) r) (map snd (sq_leases d))) of
            [] \<Rightarrow> None | r # _ \<Rightarrow> Some (lease_of_row r))"

definition UpdateLeaseStatus ::
  "db_env \<Rightarrow> string \<Rightarrow> string \<Rightarrow> SQLiteStorage \<Rightarrow> storage_error option \<times> SQLiteStorage" where
  "UpdateLeaseStatus e leaseID st = sql_exec e ''failed to update lease status''
     (\<lambda>d. d\<lparr>sq_leases := map (\<lambda>(k, r). if k = leaseID then (k, set_row_status st (de_now e 0) r)
                                      else (k, r)) (sq_leases d)\<rparr>)"

definition ExpireLeases :: "db_env \<Rightarrow> SQLiteStorage \<Rightarrow> (storage_error + int) \<times> SQLiteStorage" where
  "ExpireLeases e d =
     (case de_err e of Some c \<Rightarrow> (Inl (StorageError ''failed to expire leases'' c), d)
      | None \<Rightarrow>
          let due = (\<lambda>r. lw_status r = ''active'' \<and> lw_expires r < de_now e 1)
          in (Inr (int (length (filter (due \<circ> snd) (sq_leases d)))),
              d\<lparr>sq_leases := map (\<lambda>(k, r). if due r
                   then (k, r\<lparr>lw_status := ''expired'', lw_completed := Some (de_now e 0)\<rparr>)
                   else (k, r)) (sq_leases d)\<rparr>))"

text \<open>\<^verbatim>\<open>ORDER BY completed_at DESC LIMIT 1\<close>; a missing completion time sorts last.\<close>

definition completed_before :: "lease_row \<Rightarrow> lease_row \<Rightarrow> bool" where
  "completed_before r r' \<longleftrightarrow>
     (case (lw_completed r, lw_completed r') of
        (_, None) \<Rightarrow> False | (None, Some _) \<Rightarrow> True | (Some a, Some b) \<Rightarrow> a < b)"

fun last_completed :: "lease_row list \<Rightarrow> lease_row option" where
  "last_completed [] = None"
| "last_completed (r # rs) =
     (case last_completed rs of None \<Rightarrow> Some r
      | Some r' \<Rightarrow> if completed_before r r' then Some r' else Some r)"

definition GetLastCompletedLease ::
  "db_env \<Rightarrow> string \<Rightarrow> SQLiteStorage \<Rightarrow> storage_error + Lease option" where
  "GetLastCompletedLease e node = sql_query e ''failed to get last completed lease''
     (\<lambda>d. map_option
        (\<lambda>r. (lease_of_row r)\<lparr>le_CompletedAt := (case lw_completed r of None \<Rightarrow> 0 | Some t \<Rightarrow> t)\<rparr>)
        (last_completed (filter (row_done node) (map snd (sq_leases d)))))"

text \<open>JSON numbers come back as \<^verbatim>\<open>float64\<close> when they are decoded into an \<^verbatim>\<open>interface{}\<close>.\<close>

definition json_meta :: "corr_meta \<Rightarrow> corr_meta" where
  "json_meta v = (case v of MetaInt i \<Rightarrow> MetaFloat (of_int i) | _ \<Rightarrow> v)"

definition SaveCorrelation ::
  "db_env \<Rightarrow> Correlation \<Rightarrow> SQLiteStorage \<Rightarrow> storage_error option \<times> SQLiteStorage" where
  "SaveCorrelation e c = sql_exec e ''failed to save correlation''
     (\<lambda>d. d\<lparr>sq_correlations := AList.update (co_ID c)
              (c\<lparr>co_Metadata := map (\<lambda>(k, v). (k, json_meta v)) (co_Metadata c)\<rparr>)
              (sq_correlations d)\<rparr>)"

definition UpdateCorrelation ::
  "db_env \<Rightarrow> Correlation \<Rightarrow> SQLiteStorage \<Rightarrow> storage_error option \<times> SQLiteStorage" where
  "UpdateCorrelation e c = SaveCorrelation e c"

definition GetCorrelation ::
  "db_env \<Rightarrow> string \<Rightarrow> SQLiteStorage \<Rightarrow> storage_error + Correlation option" where
  "GetCorrelation e cid = sql_query e ''failed to get correlation''
     (\<lambda>d. map_of (sq_correlations d) cid)"

definition GetActiveCorrelations :: "db_env \<Rightarrow> SQLiteStorage \<Rightarrow> storage_error + Correlation list" where
  "GetActiveCorrelations e = sql_query e ''failed to query correlations''
     (\<lambda>d. sort_key (\<lambda>c. - co_DetectedAt c)
        (filter (\<lambda>c. co_Status c = ''active'') (map snd (sq_correlations d))))"

definition GetNodeCount :: "db_env \<Rightarrow> SQLiteStorage \<Rightarrow> storage_error + int" where
  "GetNodeCount e = sql_query e ''failed to get node count''
     (\<lambda>d. int (length (remdups (map rr_node (sq_reports d)))))"

definition GetReportCount :: "db_env \<Rightarrow> SQLiteStorage \<Rightarrow> storage_error + int" where
  "GetReportCount e = sql_query e ''failed to get report count''
     (\<lambda>d. int (length (sq_reports d)))"

definition GetLeaseStats :: "db_env \<Rightarrow> SQLiteStorage \<Rightarrow> storage_error + int \<times> int" where
  "GetLeaseStats e = sql_query e ''failed to get total lease count''
     (\<lambda>d. (int (length (filter (row_live (de_now e 0)) (map snd (sq_leases d)))),
           int (length (sq_leases d))))"

text \<open>\<open>eDel\<close> and \<open>eExp\<close> are the environments of the two statements; the reading for the cutoff
  is the first one of \<open>eDel\<close>.\<close>

definition RunCleanup ::
  "db_env \<Rightarrow> db_env \<Rightarrow> SQLiteStorage \<Rightarrow> storage_error option \<times> SQLiteStorage" where
  "RunCleanup eDel eExp d =
     (case DeleteOldReports eDel (de_now eDel 0 - sq_retention d) d of
        (Inl err, d1) \<Rightarrow> (Some err, d1)
      | (Inr _, d1) \<Rightarrow>
          (case ExpireLeases eExp d1 of
             (Inl err, d2) \<Rightarrow> (Some err, d2)
           | (Inr _, d2) \<Rightarrow> (None, d2)))"

definition sqlite_ops :: "(db_env, SQLiteStorage) storage_ops" where
  "sqlite_ops = \<lparr>so_SaveNodeReport = SaveNodeReport, so_GetNodeReports = GetNodeReports,
     so_GetAllLatestReports = GetAllLatestReports, so_SaveLease = SaveLease,
     so_GetActiveLeases = GetActiveLeases, so_GetLastCompletedLease = GetLastCompletedLease,
     so_UpdateLeaseStatus = UpdateLeaseStatus, so_SaveCorrelation = SaveCorrelation,
     so_UpdateCorrelation = UpdateCorrelation, so_GetCorrelation = GetCorrelation,
     so_GetActiveCorrelations = GetActiveCorrelations, so_RunCleanup = RunCleanup\<rparr>"

section \<open>The contract of the lease operations\<close>

text \<open>
  \<open>row d\<close> is the leases table of a database \<open>d\<close> as a map from lease ids to rows, \<open>ok e\<close> says that
  the call does not fail, \<open>now e\<close> is the clock reading it makes.
\<close>

locale lease_storage =
  fixes ops :: "('e, 'db) storage_ops"
    and inv :: "'db \<Rightarrow> bool"
    and row :: "'db \<Rightarrow> string \<Rightarrow> lease_row option"
    and ok :: "'e \<Rightarrow> bool"
    and now :: "'e \<Rightarrow> time"
  assumes save_report_row: "inv d \<Longrightarrow> inv (snd (so_SaveNodeReport ops e rep d))
          \<and> row (snd (so_SaveNodeReport ops e rep d)) = row d"
    and save_inv: "inv d \<Longrightarrow> inv (snd (so_SaveLease ops e l d))"
    and save_row: "inv d \<Longrightarrow> row (snd (so_SaveLease ops e l d)) =
          (if ok e then (row d)(le_ID l \<mapsto> row_of_lease l) else row d)"
    and update_inv: "inv d \<Longrightarrow> inv (snd (so_UpdateLeaseStatus ops e i st d))"
    and update_row: "inv d \<Longrightarrow> row (snd (so_UpdateLeaseStatus ops e i st d)) =
          (if ok e then (row d)(i := map_option (set_row_status st (now e)) (row d i)) else row d)"
    and cleanup_inv: "inv d \<Longrightarrow> inv (snd (so_RunCleanup ops e e' d))"
    and cleanup_row: "inv d \<Longrightarrow> row (snd (so_RunCleanup ops e e' d)) i = Some r' \<Longrightarrow>
          \<exists>r. row d i = Some r \<and> lw_node r' = lw_node r \<and> lw_expires r' = lw_expires r
            \<and> (r' = r \<or> lw_status r = ''active'' \<and> lw_status r' = ''expired'')"
    and cleanup_keeps: "inv d \<Longrightarrow> row d i = Some r \<Longrightarrow> lw_status r \<noteq> ''active'' \<Longrightarrow>
          row (snd (so_RunCleanup ops e e' d)) i = Some r"
    and active_rows: "inv d \<Longrightarrow> ok e \<Longrightarrow> \<exists>ls. so_GetActiveLeases ops e d = Inr ls
          \<and> distinct (map le_ID ls)
          \<and> set ls = lease_of_row ` {r. \<exists>i. row d i = Some r \<and> row_live (now e) r}"
    and last_completed_none: "inv d \<Longrightarrow> so_GetLastCompletedLease ops e node d = Inr None \<Longrightarrow>
          row d i = Some r \<Longrightarrow> \<not> row_done node r"
    and last_completed_latest: "inv d \<Longrightarrow> so_GetLastCompletedLease ops e node d = Inr (Some l) \<Longrightarrow>
          row d i = Some r \<Longrightarrow> row_done node r \<Longrightarrow> lw_completed r = Some t \<Longrightarrow> t \<le> le_CompletedAt l"
    and last_completed_ok: "inv d \<Longrightarrow> ok e \<Longrightarrow> \<exists>r. so_GetLastCompletedLease ops e node d = Inr r"
    and row_id: "inv d \<Longrightarrow> row d i = Some r \<Longrightarrow> lw_id r = i"

definition sq_inv :: "SQLiteStorage \<Rightarrow> bool" where
  "sq_inv d \<longleftrightarrow> gomap_ok (sq_leases d) \<and> (\<forall>(k, r)\<in>set (sq_leases d). lw_id r = k)"

lemma sql_exec_simps [simp]:
  "de_err e = None \<Longrightarrow> sql_exec e w f d = (None, f d)"
  "de_err e = Some c \<Longrightarrow> sql_exec e w f d = (Some (StorageError w c), d)"
  by (simp_all add: sql_exec_def)

lemma sql_query_simps [simp]:
  "de_err e = None \<Longrightarrow> sql_query e w q d = Inr (q d)"
  "de_err e = Some c \<Longrightarrow> sql_query e w q d = Inl (StorageError w c)"
  by (simp_all add: sql_query_def)

text \<open>An \<^verbatim>\<open>UPDATE\<close> statement changes the rows in place.\<close>

lemma map_of_map_rows:
  "map_of (map (\<lambda>(k, r). if P k r then (k, f r) else (k, r)) m) i =
     map_option (\<lambda>r. if P i r then f r else r) (map_of m i)"
  by (induction m) auto

lemma gomap_ok_map_rows:
  "map fst (map (\<lambda>(k, r). if P k r then (k, f r) else (k, r)) m) = map fst m"
  by (induction m) auto

lemma last_completed_None [simp]: "last_completed rs = None \<longleftrightarrow> rs = []"
  by (cases rs) (auto split: option.splits)

lemma last_completed_max:
  "last_completed rs = Some m \<Longrightarrow> r \<in> set rs \<Longrightarrow> lw_completed r = Some t \<Longrightarrow>
     \<exists>u. lw_completed m = Some u \<and> t \<le> u"
proof (induction rs arbitrary: m)
  case Nil
  then show ?case by simp
next
  case (Cons x rs)
  show ?case
  proof (cases "last_completed rs")
    case None
    with Cons.prems show ?thesis by auto
  next
    case (Some m')
    have IH: "r \<in> set rs \<Longrightarrow> \<exists>u. lw_completed m' = Some u \<and> t \<le> u"
      using Cons.IH [OF Some] Cons.prems by blast
    from Some Cons.prems IH show ?thesis
      by (auto simp: completed_before_def split: if_splits option.splits)
  qed
qed

lemma sq_inv_map_rows:
  assumes "sq_inv d" "\<And>r. lw_id (f r) = lw_id r"
  shows "sq_inv (d\<lparr>sq_leases := map (\<lambda>(k, r). if P k r then (k, f r) else (k, r)) (sq_leases d)\<rparr>)"
  using assms gomap_ok_map_rows [of P f "sq_leases d"]
  unfolding sq_inv_def by (auto simp del: map_map split: if_splits)

lemma sq_inv_SaveLease: "sq_inv d \<Longrightarrow> sq_inv (snd (SaveLease e l d))"
  using set_update_subset [of "le_ID l" "row_of_lease l" "sq_leases d"]
  by (cases "de_err e") (auto simp: SaveLease_def sq_inv_def row_of_lease_def)

lemma sq_inv_UpdateLeaseStatus: "sq_inv d \<Longrightarrow> sq_inv (snd (UpdateLeaseStatus e i st d))"
  using sq_inv_map_rows [of d "set_row_status st (de_now e 0)" "\<lambda>k r. k = i"]
  by (cases "de_err e") (auto simp: UpdateLeaseStatus_def set_row_status_def)

lemma row_UpdateLeaseStatus:
  "map_of (sq_leases (snd (UpdateLeaseStatus e i st d))) =
     (if de_err e = None
      then (map_of (sq_leases d))(i := map_option (set_row_status st (de_now e 0)) (map_of (sq_leases d) i))
      else map_of (sq_leases d))"
  using map_of_map_rows [of "\<lambda>k r. k = i" "set_row_status st (de_now e 0)" "sq_leases d"]
  by (cases "de_err e") (auto simp: UpdateLeaseStatus_def fun_eq_iff option.map_ident)

lemma ExpireLeases_cases:
  obtains "snd (ExpireLeases e d) = d"
  | "snd (ExpireLeases e d) = d\<lparr>sq_leases := map (\<lambda>(k, r).
        if lw_status r = ''active'' \<and> lw_expires r < de_now e 1
        then (k, r\<lparr>lw_status := ''expired'', lw_completed := Some (de_now e 0)\<rparr>) else (k, r))
        (sq_leases d)\<rparr>"
  by (cases "de_err e") (auto simp: ExpireLeases_def Let_def)

lemma RunCleanup_leases:
  obtains "sq_leases (snd (RunCleanup eD eE d)) = sq_leases d"
  | "sq_leases (snd (RunCleanup eD eE d)) = sq_leases (snd (ExpireLeases eE d))"
  by (cases "de_err eD"; cases "de_err eE")
    (auto simp: RunCleanup_def DeleteOldReports_def ExpireLeases_def Let_def)

lemma sq_inv_leases: "sq_leases d' = sq_leases d \<Longrightarrow> sq_inv d' = sq_inv d"
  by (simp add: sq_inv_def)

lemma sq_inv_RunCleanup: "sq_inv d \<Longrightarrow> sq_inv (snd (RunCleanup eD eE d))"
proof (cases rule: RunCleanup_leases [of eD eE d])
  case 1
  then show "sq_inv d \<Longrightarrow> ?thesis" using sq_inv_leases [OF 1] by simp
next
  case 2
  assume "sq_inv d"
  then have "sq_inv (snd (ExpireLeases eE d))"
  proof (cases rule: ExpireLeases_cases [of eE d])
    case 2
    with \<open>sq_inv d\<close> show ?thesis
      using sq_inv_map_rows [of d "\<lambda>r. r\<lparr>lw_status := ''expired'', lw_completed := Some (de_now eE 0)\<rparr>"
          "\<lambda>k r. lw_status r = ''active'' \<and> lw_expires r < de_now eE 1"] by simp
  qed simp
  then show ?thesis using sq_inv_leases [OF 2] by simp
qed

lemma row_RunCleanup:
  "map_of (sq_leases (snd (RunCleanup eD eE d))) i = map_of (sq_leases d) i
   \<or> map_of (sq_leases (snd (RunCleanup eD eE d))) i =
       map_option (\<lambda>r. if lw_status r = ''active'' \<and> lw_expires r < de_now eE 1
         then r\<lparr>lw_status := ''expired'', lw_completed := Some (de_now eE 0)\<rparr> else r)
         (map_of (sq_leases d) i)"
proof (cases rule: RunCleanup_leases [of eD eE d])
  case 2
  then show ?thesis
    by (cases rule: ExpireLeases_cases [of eE d]) (simp_all add: map_of_map_rows)
qed simp

lemma GetActiveLeases_rows:
  assumes "sq_inv d" "de_err e = None"
  shows "\<exists>ls. GetActiveLeases e d = Inr ls \<and> distinct (map le_ID ls)
    \<and> set ls = lease_of_row ` {r. \<exists>i. map_of (sq_leases d) i = Some r \<and> row_live (de_now e 0) r}"
proof -
  let ?rs = "filter (row_live (de_now e 0)) (map snd (sq_leases d))"
  have ids: "map lw_id (map snd (sq_leases d)) = map fst (sq_leases d)"
    using assms(1) by (auto simp: sq_inv_def)
  then have "distinct (map lw_id ?rs)"
    using assms(1) distinct_map_filter by (metis sq_inv_def)
  then have "distinct (map le_ID (map lease_of_row (sort_key lw_granted ?rs)))"
    by (simp add: lease_of_row_def comp_def distinct_map)
  moreover have "set ?rs = {r. \<exists>i. map_of (sq_leases d) i = Some r \<and> row_live (de_now e 0) r}"
    using assms(1) by (force simp: sq_inv_def)
  ultimately show ?thesis
    using assms(2) by (simp add: GetActiveLeases_def)
qed

interpretation sqlite: lease_storage sqlite_ops sq_inv "\<lambda>d. map_of (sq_leases d)"
  "\<lambda>e. de_err e = None" "\<lambda>e. de_now e 0"
proof (unfold_locales, goal_cases)
  case (1 d e rep)
  then show ?case
    by (cases "de_err e") (auto simp: sqlite_ops_def SaveNodeReport_def sq_inv_def)
next
  case (3 d e l)
  then show ?case by (cases "de_err e") (auto simp: sqlite_ops_def SaveLease_def)
next
  case (7 d e e' i r')
  then show ?case
    using row_RunCleanup [of e e' d i]
    by (cases "map_of (sq_leases d) i") (auto simp: sqlite_ops_def split: if_splits)
next
  case (8 d i r e e')
  then show ?case
    using row_RunCleanup [of e e' d i] by (auto simp: sqlite_ops_def)
next
  case (9 d e)
  then show ?case using GetActiveLeases_rows [of d e] by (simp add: sqlite_ops_def)
next
  case (10 d e node i r)
  then have "r \<in> set (map snd (sq_leases d))"
    by (force dest: map_of_SomeD)
  with 10 show ?case
    by (cases "de_err e") (auto simp: sqlite_ops_def GetLastCompletedLease_def filter_empty_conv)
next
  case (11 d e node l i r t)
  then have "r \<in> set (filter (row_done node) (map snd (sq_leases d)))"
    by (force dest: map_of_SomeD)
  with 11 show ?case
    using last_completed_max [of "filter (row_done node) (map snd (sq_leases d))" _ r t]
    by (cases "de_err e") (fastforce simp: sqlite_ops_def GetLastCompletedLease_def)+
next
  case (13 d i r)
  then show ?case by (auto simp: sq_inv_def dest!: map_of_SomeD)
qed (auto simp: sqlite_ops_def sq_inv_SaveLease sq_inv_UpdateLeaseStatus row_UpdateLeaseStatus
    sq_inv_RunCleanup GetLastCompletedLease_def)

end
