(* ===== verification/Correlator.thy ===== *)
theory Correlator
  imports Controller_Storage "HOL-Library.List_Lexorder" "HOL-Library.Char_ord"
begin

text \<open>
  \<^verbatim>\<open>pkg/controller/correlator.go\<close>: detection of problems that span nodes.

  The storage backend is shared with the server, so the operations that write to it take and
  return the database beside the correlator. What goes to the Kubernetes event recorder and to the
  metrics is appended to \<open>cr_log\<close>, in the order of the calls. Arguments of the model: \<open>hash8\<close>, the
  eight hexadecimal digits of a truncated SHA-256; \<open>fl\<close>, the rounding of a quotient to a
  \<^verbatim>\<open>float64\<close>; \<open>ck\<close> and \<open>env\<close>, the clock readings and storage environments of an evaluation,
  numbered in the order of their sites: the start, two per detection, one per resolution.
\<close>

definition CorrelationTypeInfrastructure :: string where
  "CorrelationTypeInfrastructure = ''infrastructure''"
definition CorrelationTypeCommonCause :: string where
  "CorrelationTypeCommonCause = ''common-cause''"
definition CorrelationTypeCascade :: string where
  "CorrelationTypeCascade = ''cascade''"

definition CorrelationStatusActive :: string where "CorrelationStatusActive = ''active''"
definition CorrelationStatusResolved :: string where "CorrelationStatusResolved = ''resolved''"

record injectedPattern =
  ip_problems :: "string list"
  ip_name :: string
  ip_description :: string

datatype corr_event =
    RecordCorrelation Correlation
  | RecordClusterDNSDegraded "string list" int string
  | RecordClusterNetworkPartition "string list" "string list" string
  | RecordCorrelationResolved Correlation
  | RecordCorrelationDetected string
  | UpdateCorrelationMetrics int

record Correlator =
  cr_config :: CorrelationConfig
  cr_hasMetrics :: bool
  cr_hasEvents :: bool
  cr_active :: "(string, Correlation) gomap"
  cr_injectedPatterns :: "injectedPattern list"
  cr_nodeReports :: "(string, NodeReport) gomap"
  cr_totalNodes :: int
  cr_lastEvalTime :: time
  cr_started :: bool
  cr_log :: "corr_event list"

record CorrelatorStats =
  crs_ActiveCorrelations :: int
  crs_TrackedNodes :: int
  crs_LastEvalTime :: time
  crs_Started :: bool

datatype corr_error =
    CorrNotFound string | CorrStorage storage_error | CorrAlreadyStarted
  | PatternNameEmpty | PatternNoProblems string

definition NewCorrelator :: "CorrelationConfig option \<Rightarrow> bool \<Rightarrow> bool \<Rightarrow> Correlator" where
  "NewCorrelator config metrics events =
     \<lparr>cr_config = (case config of Some c \<Rightarrow> c
        | None \<Rightarrow> \<lparr>cc_Enabled = True, cc_ClusterWideThreshold = 3 / 10,
                   cc_EvaluationInterval = 30 * second, cc_MinNodesForCorrelation = 2\<rparr>),
      cr_hasMetrics = metrics, cr_hasEvents = events, cr_active = [], cr_injectedPatterns = [],
      cr_nodeReports = [], cr_totalNodes = 0, cr_lastEvalTime = 0, cr_started = False,
      cr_log = []\<rparr>"

definition Correlator_Start ::
  "('e, 'db) storage_ops \<Rightarrow> 'e \<Rightarrow> 'db option \<Rightarrow> Correlator \<Rightarrow> corr_error option \<times> Correlator" where
  "Correlator_Start ops e db c =
     (if cr_started c then (Some CorrAlreadyStarted, c)
      else if \<not> cc_Enabled (cr_config c) then (None, c)
      else
        let c1 = (case db of None \<Rightarrow> c
                  | Some d \<Rightarrow>
                      (case so_GetActiveCorrelations ops e d of
                         Inl _ \<Rightarrow> c
                       | Inr cs \<Rightarrow>
                           c\<lparr>cr_active := fold (\<lambda>x m. AList.update (co_ID x) x m) cs (cr_active c)\<rparr>))
        in (None, c1\<lparr>cr_started := True\<rparr>))"

definition Correlator_Stop :: "Correlator \<Rightarrow> Correlator" where
  "Correlator_Stop c = (if \<not> cr_started c then c else c\<lparr>cr_started := False\<rparr>)"

definition UpdateNodeReport :: "NodeReport option \<Rightarrow> Correlator \<Rightarrow> Correlator" where
  "UpdateNodeReport ro c =
     (case ro of None \<Rightarrow> c
      | Some report \<Rightarrow>
          let reports = AList.update (nr_NodeName report) report (cr_nodeReports c)
          in c\<lparr>cr_nodeReports := reports, cr_totalNodes := int (length reports)\<rparr>)"

definition RemoveNode :: "string \<Rightarrow> Correlator \<Rightarrow> Correlator" where
  "RemoveNode node c =
     (let reports = AList.delete node (cr_nodeReports c)
      in c\<lparr>cr_nodeReports := reports, cr_totalNodes := int (length reports)\<rparr>)"

definition Correlator_GetActiveCorrelations :: "Correlator \<Rightarrow> Correlation list" where
  "Correlator_GetActiveCorrelations c = sort_key (\<lambda>x. - co_DetectedAt x) (map snd (cr_active c))"

definition Correlator_GetCorrelation ::
  "('e, 'db) storage_ops \<Rightarrow> 'e \<Rightarrow> 'db option \<Rightarrow> string \<Rightarrow> Correlator \<Rightarrow> corr_error + Correlation option" where
  "Correlator_GetCorrelation ops e db cid c =
     (case map_of (cr_active c) cid of Some x \<Rightarrow> Inr (Some x)
      | None \<Rightarrow>
          (case db of None \<Rightarrow> Inl (CorrNotFound cid)
           | Some d \<Rightarrow> (case so_GetCorrelation ops e cid d of
                          Inl err \<Rightarrow> Inl (CorrStorage err) | Inr r \<Rightarrow> Inr r)))"

definition getReportsCopy :: "Correlator \<Rightarrow> NodeReport list" where
  "getReportsCopy c = map snd (cr_nodeReports c)"

definition generateCorrelationID :: "(string \<Rightarrow> string) \<Rightarrow> string \<Rightarrow> string \<Rightarrow> string" where
  "generateCorrelationID hash8 corrType ident =
     ''corr-'' @ take 4 corrType @ ''-'' @ hash8 (corrType @ '':'' @ ident)"

text \<open>Grouping of the nodes by problem type, each node once per type.\<close>

definition group_problem :: "string \<Rightarrow> ProblemSummary \<Rightarrow> (string, string list) gomap \<Rightarrow>
    (string, string list) gomap" where
  "group_problem node p m =
     (let ns = gomap_get [] m (ps_Type p)
      in if node \<in> set ns then m else AList.update (ps_Type p) (ns @ [node]) m)"

definition problemsByType :: "NodeReport list \<Rightarrow> (string, string list) gomap" where
  "problemsByType reports =
     fold (\<lambda>r. fold (group_problem (nr_NodeName r)) (nr_ActiveProblems r)) reports []"

definition infraCorrelation ::
  "(string \<Rightarrow> string) \<Rightarrow> (rat \<Rightarrow> float64) \<Rightarrow> int \<Rightarrow> string \<Rightarrow> string list \<Rightarrow> Correlation" where
  "infraCorrelation hash8 fl totalNodes problemType nodes =
     (let ratio = fl (of_nat (length nodes) / of_int totalNodes)
      in \<lparr>co_ID = generateCorrelationID hash8 CorrelationTypeInfrastructure problemType,
          co_Type = CorrelationTypeInfrastructure,
          co_Severity = (if 1 / 2 \<le> ratio then ''critical'' else ''warning''),
          co_AffectedNodes = sort nodes, co_ProblemTypes = [problemType],
          co_Message = InfraMessage problemType ratio (int (length nodes)) totalNodes,
          co_DetectedAt = 0, co_UpdatedAt = 0, co_Status = [],
          co_Confidence = (if 1 < ratio then 1 else ratio),
          co_Metadata = [(''ratio'', MetaFloat ratio), (''totalNodes'', MetaInt totalNodes)]\<rparr>)"

definition detectInfrastructureCorrelation ::
  "(string \<Rightarrow> string) \<Rightarrow> (rat \<Rightarrow> float64) \<Rightarrow> CorrelationConfig \<Rightarrow> NodeReport list \<Rightarrow> int \<Rightarrow>
   Correlation list" where
  "detectInfrastructureCorrelation hash8 fl config reports totalNodes =
     (if totalNodes < cc_MinNodesForCorrelation config then []
      else map (\<lambda>(pt, ns). infraCorrelation hash8 fl totalNodes pt ns)
        (filter (\<lambda>(pt, ns). cc_ClusterWideThreshold config \<le> fl (of_nat (length ns) / of_int totalNodes)
             \<and> cc_MinNodesForCorrelation config \<le> int (length ns))
          (problemsByType reports)))"

definition builtinPatterns :: "injectedPattern list" where
  "builtinPatterns =
    [\<lparr>ip_problems = [''MemoryPressure'', ''DiskPressure''], ip_name = ''resource-exhaustion'',
      ip_description = ''Memory and disk pressure indicate resource exhaustion''\<rparr>,
     \<lparr>ip_problems = [''KubeletUnhealthy'', ''ContainerRuntimeUnhealthy''],
      ip_name = ''node-runtime-failure'',
      ip_description = ''Kubelet and container runtime both unhealthy indicates node-level failure''\<rparr>,
     \<lparr>ip_problems = [''DNSFailure'', ''NetworkUnreachable''], ip_name = ''network-infrastructure'',
      ip_description = ''DNS and network failures indicate network infrastructure issue''\<rparr>]"

definition nodeHasAllProblems :: "NodeReport \<Rightarrow> string list \<Rightarrow> bool" where
  "nodeHasAllProblems r pts \<longleftrightarrow> (\<forall>pt\<in>set pts. pt \<in> ps_Type ` set (nr_ActiveProblems r))"

definition findNodesWithAllProblems :: "NodeReport list \<Rightarrow> string list \<Rightarrow> string list" where
  "findNodesWithAllProblems reports pts =
     map nr_NodeName (filter (\<lambda>r. nodeHasAllProblems r pts) reports)"

definition commonCauseCorrelation ::
  "(string \<Rightarrow> string) \<Rightarrow> (rat \<Rightarrow> float64) \<Rightarrow> nat \<Rightarrow> injectedPattern \<Rightarrow> string list \<Rightarrow> Correlation" where
  "commonCauseCorrelation hash8 fl nReports p nodes =
     (let confidence = fl (of_nat (length nodes) / of_nat nReports)
      in \<lparr>co_ID = generateCorrelationID hash8 CorrelationTypeCommonCause (ip_name p),
          co_Type = CorrelationTypeCommonCause, co_Severity = ''warning'',
          co_AffectedNodes = sort nodes, co_ProblemTypes = ip_problems p,
          co_Message = CommonCauseMessage (ip_description p) (int (length nodes)),
          co_DetectedAt = 0, co_UpdatedAt = 0, co_Status = [],
          co_Confidence = (if 1 < confidence then 1 else confidence),
          co_Metadata = [(''pattern'', MetaString (ip_name p))]\<rparr>)"

definition detectCommonCauseCorrelation ::
  "(string \<Rightarrow> string) \<Rightarrow> (rat \<Rightarrow> float64) \<Rightarrow> CorrelationConfig \<Rightarrow> injectedPattern list \<Rightarrow>
   NodeReport list \<Rightarrow> Correlation list" where
  "detectCommonCauseCorrelation hash8 fl config injected reports =
     (let patterns = builtinPatterns @
            filter (\<lambda>p. ip_name p \<notin> set (map ip_name builtinPatterns)) injected;
          hits = map (\<lambda>p. (p, findNodesWithAllProblems reports (ip_problems p))) patterns
      in map (\<lambda>(p, ns). commonCauseCorrelation hash8 fl (length reports) p ns)
           (filter (\<lambda>(p, ns). cc_MinNodesForCorrelation config \<le> int (length ns)) hits))"

definition cascadePatterns :: "injectedPattern list" where
  "cascadePatterns =
    [\<lparr>ip_problems = [''KubeletUnhealthy'', ''PodNotRunning'', ''NodeNotReady''],
      ip_name = ''kubelet-cascade'',
      ip_description = ''Kubelet failure causing pod and node issues''\<rparr>,
     \<lparr>ip_problems = [''DiskPressure'', ''PodEviction'', ''CapacityReduced''],
      ip_name = ''disk-cascade'',
      ip_description = ''Disk pressure causing pod evictions and capacity reduction''\<rparr>]"

definition cascadeMatchCount :: "NodeReport \<Rightarrow> string list \<Rightarrow> nat" where
  "cascadeMatchCount r chain =
     length (filter (\<lambda>item. \<exists>p\<in>set (nr_ActiveProblems r). ps_Type p = item) chain)"

definition findNodesWithCascade :: "NodeReport list \<Rightarrow> string list \<Rightarrow> string list" where
  "findNodesWithCascade reports chain =
     (if chain = [] then []
      else map nr_NodeName (filter (\<lambda>r. 2 \<le> cascadeMatchCount r chain) reports))"

definition cascadeCorrelation :: "(string \<Rightarrow> string) \<Rightarrow> injectedPattern \<Rightarrow> string list \<Rightarrow> Correlation" where
  "cascadeCorrelation hash8 p nodes =
     \<lparr>co_ID = generateCorrelationID hash8 CorrelationTypeCascade (ip_name p),
      co_Type = CorrelationTypeCascade, co_Severity = ''critical'',
      co_AffectedNodes = sort nodes, co_ProblemTypes = ip_problems p,
      co_Message = CascadeMessage (ip_description p) (int (length nodes)),
      co_DetectedAt = 0, co_UpdatedAt = 0, co_Status = [], co_Confidence = 8 / 10,
      co_Metadata = [(''pattern'', MetaString (ip_name p)), (''chain'', MetaStrings (ip_problems p))]\<rparr>"

definition detectCascadeCorrelation ::
  "(string \<Rightarrow> string) \<Rightarrow> CorrelationConfig \<Rightarrow> NodeReport list \<Rightarrow> Correlation list" where
  "detectCascadeCorrelation hash8 config reports =
     (let hits = map (\<lambda>p. (p, findNodesWithCascade reports (ip_problems p))) cascadePatterns
      in map (\<lambda>(p, ns). cascadeCorrelation hash8 p ns)
           (filter (\<lambda>(p, ns). cc_MinNodesForCorrelation config \<le> int (length ns)) hits))"

definition isDNSCorrelation :: "Correlation \<Rightarrow> bool" where
  "isDNSCorrelation corr \<longleftrightarrow> (\<exists>p\<in>set (co_ProblemTypes corr). contains_str (to_lower p) ''dns'')"

definition isNetworkPartitionCorrelation :: "Correlation \<Rightarrow> bool" where
  "isNetworkPartitionCorrelation corr =
     (if co_Type corr \<noteq> CorrelationTypeCommonCause then False
      else case map_of (co_Metadata corr) ''pattern'' of
             Some v \<Rightarrow> v = MetaString ''network-infrastructure'' | None \<Rightarrow> False)"

definition clog :: "corr_event list \<Rightarrow> Correlator \<Rightarrow> Correlator" where
  "clog evs c = c\<lparr>cr_log := cr_log c @ evs\<rparr>"

text \<open>The events and metrics of a new correlation.\<close>

definition newCorrelationLog :: "int \<Rightarrow> Correlation \<Rightarrow> Correlator \<Rightarrow> corr_event list" where
  "newCorrelationLog totalNodes x c =
     (if cr_hasEvents c then
        RecordCorrelation x #
        (if isDNSCorrelation x
           then [RecordClusterDNSDegraded (co_AffectedNodes x) totalNodes (co_ID x)]
         else if isNetworkPartitionCorrelation x then
           let mid = (if length (co_AffectedNodes x) div 2 = 0 then 1
                      else length (co_AffectedNodes x) div 2)
           in [RecordClusterNetworkPartition (take mid (co_AffectedNodes x))
                 (drop mid (co_AffectedNodes x)) (co_ID x)]
         else [])
      else []) @
     (if cr_hasMetrics c then [RecordCorrelationDetected (co_Type x)] else [])"

text \<open>The body of the loop over the detected correlations.\<close>

definition processDetected ::
  "('e, 'db) storage_ops \<Rightarrow> (nat \<Rightarrow> 'e) \<Rightarrow> (nat \<Rightarrow> time) \<Rightarrow> int \<Rightarrow> nat \<times> Correlation \<Rightarrow>
   Correlator \<times> 'db option \<Rightarrow> Correlator \<times> 'db option" where
  "processDetected ops env ck totalNodes ic s =
     (let i = fst ic; corr = snd ic; c = fst s; db = snd s in
      case map_of (cr_active c) (co_ID corr) of
        Some existing \<Rightarrow>
          let x = existing\<lparr>co_AffectedNodes := co_AffectedNodes corr, co_UpdatedAt := ck (1 + 2 * i),
                           co_Confidence := co_Confidence corr\<rparr>
          in (c\<lparr>cr_active := AList.update (co_ID corr) x (cr_active c)\<rparr>,
              map_option (\<lambda>d. snd (so_UpdateCorrelation ops (env i) x d)) db)
      | None \<Rightarrow>
          let x = corr\<lparr>co_DetectedAt := ck (1 + 2 * i), co_UpdatedAt := ck (2 + 2 * i),
                       co_Status := CorrelationStatusActive\<rparr>
          in (clog (newCorrelationLog totalNodes x c)
                (c\<lparr>cr_active := AList.update (co_ID corr) x (cr_active c)\<rparr>),
              map_option (\<lambda>d. snd (so_SaveCorrelation ops (env i) x d)) db))"

text \<open>A node still reports one of the problems of the correlation.\<close>

definition reports_problem :: "NodeReport list \<Rightarrow> string \<Rightarrow> string \<Rightarrow> bool" where
  "reports_problem reports node pt \<longleftrightarrow>
     (\<exists>r\<in>set reports. nr_NodeName r = node \<and> pt \<in> ps_Type ` set (nr_ActiveProblems r))"

definition stillActive :: "NodeReport list \<Rightarrow> Correlation \<Rightarrow> bool" where
  "stillActive reports corr \<longleftrightarrow>
     (\<exists>node\<in>set (co_AffectedNodes corr). \<exists>pt\<in>set (co_ProblemTypes corr). reports_problem reports node pt)"

definition resolveStep ::
  "('e, 'db) storage_ops \<Rightarrow> (nat \<Rightarrow> 'e) \<Rightarrow> (nat \<Rightarrow> time) \<Rightarrow> NodeReport list \<Rightarrow>
   nat \<times> string \<times> Correlation \<Rightarrow> Correlator \<times> 'db option \<Rightarrow> Correlator \<times> 'db option" where
  "resolveStep ops env ck reports jc s =
     (let j = fst jc; cid = fst (snd jc); corr = snd (snd jc); c = fst s; db = snd s in
      if stillActive reports corr then s
      else
        let x = corr\<lparr>co_Status := CorrelationStatusResolved, co_UpdatedAt := ck j\<rparr>
        in (clog (if cr_hasEvents c then [RecordCorrelationResolved x] else [])
              (c\<lparr>cr_active := AList.delete cid (cr_active c)\<rparr>),
            map_option (\<lambda>d. snd (so_UpdateCorrelation ops (env j) x d)) db))"

definition resolveStaleCorrelations ::
  "('e, 'db) storage_ops \<Rightarrow> (nat \<Rightarrow> 'e) \<Rightarrow> (nat \<Rightarrow> time) \<Rightarrow> NodeReport list \<Rightarrow>
   Correlator \<times> 'db option \<Rightarrow> Correlator \<times> 'db option" where
  "resolveStaleCorrelations ops env ck reports s =
     fold (resolveStep ops env ck reports) (enumerate 0 (cr_active (fst s))) s"

definition allDetected ::
  "(string \<Rightarrow> string) \<Rightarrow> (rat \<Rightarrow> float64) \<Rightarrow> Correlator \<Rightarrow> Correlation list" where
  "allDetected hash8 fl c =
     detectInfrastructureCorrelation hash8 fl (cr_config c) (getReportsCopy c) (cr_totalNodes c) @
     detectCommonCauseCorrelation hash8 fl (cr_config c) (cr_injectedPatterns c) (getReportsCopy c) @
     detectCascadeCorrelation hash8 (cr_config c) (getReportsCopy c)"

definition Correlator_evaluate ::
  "('e, 'db) storage_ops \<Rightarrow> (nat \<Rightarrow> 'e) \<Rightarrow> (string \<Rightarrow> string) \<Rightarrow> (rat \<Rightarrow> float64) \<Rightarrow> (nat \<Rightarrow> time) \<Rightarrow>
   Correlator \<times> 'db option \<Rightarrow> Correlator \<times> 'db option" where
  "Correlator_evaluate ops env hash8 fl ck s0 =
     (let reports = getReportsCopy (fst s0); totalNodes = cr_totalNodes (fst s0);
          c = (fst s0)\<lparr>cr_lastEvalTime := ck 0\<rparr>; s = (c, snd s0)
      in if int (length reports) < cc_MinNodesForCorrelation (cr_config c) then s
         else
           let det = allDetected hash8 fl c;
               n = length det;
               s1 = fold (processDetected ops env ck totalNodes) (enumerate 0 det) s;
               s2 = resolveStaleCorrelations ops (\<lambda>j. env (n + j)) (\<lambda>j. ck (1 + 2 * n + j)) reports s1
           in (if cr_hasMetrics (fst s2)
               then clog [UpdateCorrelationMetrics (int (length (cr_active (fst s2))))] (fst s2)
               else fst s2, snd s2))"

definition Correlator_GetStats :: "Correlator \<Rightarrow> CorrelatorStats" where
  "Correlator_GetStats c =
     \<lparr>crs_ActiveCorrelations = int (length (cr_active c)),
      crs_TrackedNodes = int (length (cr_nodeReports c)),
      crs_LastEvalTime = cr_lastEvalTime c, crs_Started = cr_started c\<rparr>"

text \<open>\<^verbatim>\<open>strings.TrimSpace(s) == ""\<close> on ASCII text.\<close>

definition blank :: "string \<Rightarrow> bool" where
  "blank s \<longleftrightarrow> (\<forall>ch\<in>set s. (of_char ch :: nat) \<in> {9, 10, 11, 12, 13, 32})"

fun replace_pattern :: "injectedPattern \<Rightarrow> injectedPattern list \<Rightarrow> injectedPattern list" where
  "replace_pattern p [] = [p]"
| "replace_pattern p (q # qs) = (if ip_name q = ip_name p then p # qs else q # replace_pattern p qs)"

definition InjectProblemPattern ::
  "string \<Rightarrow> string list \<Rightarrow> string \<Rightarrow> string \<Rightarrow> Correlator \<Rightarrow> corr_error option \<times> Correlator" where
  "InjectProblemPattern patternType problems name description c =
     (if blank name then (Some PatternNameEmpty, c)
      else if problems = [] then (Some (PatternNoProblems name), c)
      else (None, c\<lparr>cr_injectedPatterns :=
              replace_pattern \<lparr>ip_problems = problems, ip_name = name, ip_description = description\<rparr>
                (cr_injectedPatterns c)\<rparr>))"

text \<open>When the storage fails the correlation stays active, but its status is already changed.\<close>

definition ForceResolve ::
  "('e, 'db) storage_ops \<Rightarrow> 'e \<Rightarrow> time \<Rightarrow> string \<Rightarrow> Correlator \<times> 'db option \<Rightarrow>
   corr_error option \<times> Correlator \<times> 'db option" where
  "ForceResolve ops e now cid s =
     (let c = fst s; db = snd s in
      case map_of (cr_active c) cid of None \<Rightarrow> (Some (CorrNotFound cid), s)
      | Some corr \<Rightarrow>
          let x = corr\<lparr>co_Status := CorrelationStatusResolved, co_UpdatedAt := now\<rparr>;
              r = (case db of None \<Rightarrow> (None, None)
                   | Some d \<Rightarrow> (let (er, d') = so_UpdateCorrelation ops e x d in (er, Some d')))
          in (case fst r of
                Some er \<Rightarrow> (Some (CorrStorage er),
                            c\<lparr>cr_active := AList.update cid x (cr_active c)\<rparr>, snd r)
              | None \<Rightarrow> (None,
                   clog (if cr_hasEvents c then [RecordCorrelationResolved x] else [])
                     (c\<lparr>cr_active := AList.delete cid (cr_active c)\<rparr>), snd r)))"

section \<open>Grouping by problem type\<close>

definition groups :: "(string, string list) gomap \<Rightarrow> (string \<times> string) set \<Rightarrow> bool" where
  "groups m S \<longleftrightarrow> gomap_ok m \<and> (\<forall>pt ns. map_of m pt = Some ns \<longrightarrow> ns \<noteq> [] \<and> distinct ns)
     \<and> (\<forall>pt n. n \<in> set (gomap_get [] m pt) \<longleftrightarrow> (pt, n) \<in> S)"

lemma groups_group_problem:
  "groups m S \<Longrightarrow> groups (group_problem node p m) (insert (ps_Type p, node) S)" (is "_ \<Longrightarrow> ?thesis")
proof -
  assume g: "groups m S"
  let ?ns = "gomap_get [] m (ps_Type p)"
  have d: "distinct ?ns"
    using g gomap_get_neq [of "[]" m "ps_Type p"] by (cases "?ns = []") (auto simp: groups_def)
  show ?thesis
  proof (cases "node \<in> set ?ns")
    case True
    with g have "insert (ps_Type p, node) S = S" by (auto simp: groups_def)
    with True g show ?thesis by (simp add: group_problem_def)
  next
    case False
    with g d show ?thesis by (auto simp: group_problem_def groups_def)
  qed
qed

lemma groups_fold_problems:
  "groups m S \<Longrightarrow> groups (fold (group_problem node) ps m) (S \<union> {(ps_Type p, node) |p. p \<in> set ps})"
proof (induction ps arbitrary: m S)
  case Nil
  then show ?case by simp
next
  case (Cons p ps)
  have eq: "insert (ps_Type p, node) S \<union> {(ps_Type p, node) |p. p \<in> set ps}
      = S \<union> {(ps_Type q, node) |q. q \<in> set (p # ps)}"
    by auto
  from Cons.IH [OF groups_group_problem [OF Cons.prems, of node p]] show ?case
    unfolding eq by simp
qed

lemma groups_fold_reports:
  "groups m S \<Longrightarrow>
   groups (fold (\<lambda>r. fold (group_problem (nr_NodeName r)) (nr_ActiveProblems r)) rs m)
     (S \<union> {(pt, node). reports_problem rs node pt})"
proof (induction rs arbitrary: m S)
  case Nil
  then show ?case by (simp add: reports_problem_def)
next
  case (Cons r rs)
  have eq: "S \<union> {(ps_Type p, nr_NodeName r) |p. p \<in> set (nr_ActiveProblems r)}
      \<union> {(pt, node). reports_problem rs node pt}
    = S \<union> {(pt, node). reports_problem (r # rs) node pt}"
    by (auto simp: reports_problem_def)
  from Cons.IH [OF groups_fold_problems [OF Cons.prems, of "nr_NodeName r" "nr_ActiveProblems r"]]
  show ?case unfolding eq by simp
qed

lemma groups_problemsByType: "groups (problemsByType rs) {(pt, node). reports_problem rs node pt}"
  using groups_fold_reports [of "[]" "{}" rs] by (simp add: problemsByType_def groups_def)

text \<open>The nodes grouped under a problem type are exactly those that report it, each once.\<close>

lemma problemsByType_spec:
  assumes "(pt, ns) \<in> set (problemsByType rs)"
  shows "distinct ns \<and> ns \<noteq> [] \<and> set ns = {node. reports_problem rs node pt}"
proof -
  have g: "groups (problemsByType rs) {(pt, node). reports_problem rs node pt}"
    by (rule groups_problemsByType)
  then have "map_of (problemsByType rs) pt = Some ns"
    using assms by (simp add: groups_def)
  with g show ?thesis
    using gomap_get_Some [of "problemsByType rs" pt ns "[]"] by (auto simp: groups_def)
qed

lemma problemsByType_complete:
  assumes "reports_problem rs node pt"
  shows "\<exists>ns. (pt, ns) \<in> set (problemsByType rs)"
proof -
  have "node \<in> set (gomap_get [] (problemsByType rs) pt)"
    using groups_problemsByType [of rs] assms by (simp add: groups_def)
  then have "gomap_get [] (problemsByType rs) pt \<noteq> []" by auto
  then show ?thesis by (blast dest: gomap_get_neq map_of_SomeD)
qed

section \<open>Evaluation\<close>

lemma clog_simps [simp]:
  "cr_active (clog evs c) = cr_active c" "cr_hasEvents (clog evs c) = cr_hasEvents c"
  "cr_log (clog evs c) = cr_log c @ evs" "cr_hasMetrics (clog evs c) = cr_hasMetrics c"
  by (simp_all add: clog_def)

lemma resolveStep_active:
  "map_of (cr_active (fst (resolveStep ops env ck rs (j, cid, x) s))) k =
     (if k = cid \<and> \<not> stillActive rs x then None else map_of (cr_active (fst s)) k)"
  by (auto simp: resolveStep_def Let_def)

lemma fold_resolveStep_active:
  "map_of (cr_active (fst (fold (resolveStep ops env ck rs) (enumerate n xs) s))) k =
     (if \<exists>x. (k, x) \<in> set xs \<and> \<not> stillActive rs x then None else map_of (cr_active (fst s)) k)"
  by (induction xs arbitrary: n s) (auto simp: resolveStep_active)

lemma resolveStale_active:
  assumes "gomap_ok (cr_active (fst s))"
  shows "map_of (cr_active (fst (resolveStaleCorrelations ops env ck rs s))) k =
     (case map_of (cr_active (fst s)) k of None \<Rightarrow> None
      | Some x \<Rightarrow> if stillActive rs x then Some x else None)"
  using assms
  by (cases "map_of (cr_active (fst s)) k")
    (auto simp: resolveStaleCorrelations_def fold_resolveStep_active
      dest: map_of_SomeD eq_key_imp_eq_value)

lemma processDetected_gomap_ok:
  "gomap_ok (cr_active (fst s)) \<Longrightarrow> gomap_ok (cr_active (fst (processDetected ops env ck t ic s)))"
  by (auto simp: processDetected_def Let_def split: option.splits)

lemma fold_processDetected_gomap_ok:
  "gomap_ok (cr_active (fst s)) \<Longrightarrow>
   gomap_ok (cr_active (fst (fold (processDetected ops env ck t) ics s)))"
  by (induction ics arbitrary: s) (simp_all add: processDetected_gomap_ok)

lemma processDetected_other:
  "k \<noteq> co_ID x \<Longrightarrow>
   map_of (cr_active (fst (processDetected ops env ck t (i, x) s))) k = map_of (cr_active (fst s)) k"
  by (auto simp: processDetected_def Let_def split: option.splits)

lemma processDetected_new:
  "map_of (cr_active (fst s)) (co_ID x) = None \<Longrightarrow>
   map_of (cr_active (fst (processDetected ops env ck t (i, x) s))) (co_ID x) =
     Some (x\<lparr>co_DetectedAt := ck (1 + 2 * i), co_UpdatedAt := ck (2 + 2 * i),
             co_Status := CorrelationStatusActive\<rparr>)"
  by (simp add: processDetected_def Let_def)

lemma fold_processDetected_other:
  "k \<notin> co_ID ` set det \<Longrightarrow>
   map_of (cr_active (fst (fold (processDetected ops env ck t) (enumerate n det) s))) k
     = map_of (cr_active (fst s)) k"
  by (induction det arbitrary: n s) (auto simp: processDetected_other)

lemma fold_processDetected_new:
  "distinct (map co_ID det) \<Longrightarrow> x \<in> set det \<Longrightarrow> map_of (cr_active (fst s)) (co_ID x) = None \<Longrightarrow>
   \<exists>t1 t2. map_of (cr_active (fst (fold (processDetected ops env ck t) (enumerate n det) s))) (co_ID x)
     = Some (x\<lparr>co_DetectedAt := t1, co_UpdatedAt := t2, co_Status := CorrelationStatusActive\<rparr>)"
proof (induction det arbitrary: n s)
  case Nil
  then show ?case by simp
next
  case (Cons y det)
  show ?case
  proof (cases "x = y")
    case True
    with Cons.prems have "co_ID x \<notin> co_ID ` set det" by auto
    with True Cons.prems(3) show ?thesis
      by (auto simp: fold_processDetected_other processDetected_new)
  next
    case False
    with Cons.prems(2) have x: "x \<in> set det" by simp
    then have "co_ID x \<in> set (map co_ID det)" by simp
    with Cons.prems(1) have "co_ID x \<noteq> co_ID y" by auto
    note x this
    with Cons show ?thesis by (simp add: processDetected_other)
  qed
qed

lemma stillActiveI:
  "r \<in> set rs \<Longrightarrow> nr_NodeName r \<in> set (co_AffectedNodes x) \<Longrightarrow> pt \<in> set (co_ProblemTypes x) \<Longrightarrow>
   pt \<in> ps_Type ` set (nr_ActiveProblems r) \<Longrightarrow> stillActive rs x"
  unfolding stillActive_def reports_problem_def by blast

text \<open>Everything a detector reports is backed by a node that shows one of its problems.\<close>

lemma infra_stillActive:
  assumes "x \<in> set (detectInfrastructureCorrelation hash8 fl config rs tn)"
  shows "stillActive rs x"
proof -
  obtain pt ns where pn: "(pt, ns) \<in> set (problemsByType rs)"
    and x: "x = infraCorrelation hash8 fl tn pt ns"
    using assms by (auto simp: detectInfrastructureCorrelation_def split: if_splits)
  obtain n where "n \<in> set ns" "reports_problem rs n pt"
    using problemsByType_spec [OF pn] by (metis list.set_intros(1) mem_Collect_eq neq_Nil_conv)
  then show ?thesis
    by (auto simp: x stillActive_def infraCorrelation_def Let_def)
qed

lemma common_stillActive:
  assumes "x \<in> set (detectCommonCauseCorrelation hash8 fl config injd rs)"
    and "1 \<le> cc_MinNodesForCorrelation config" "\<forall>p\<in>set injd. ip_problems p \<noteq> []"
  shows "stillActive rs x"
proof -
  obtain p where p: "p \<in> set builtinPatterns \<or> p \<in> set injd"
    and len: "cc_MinNodesForCorrelation config \<le> int (length (findNodesWithAllProblems rs (ip_problems p)))"
    and x: "x = commonCauseCorrelation hash8 fl (length rs) p (findNodesWithAllProblems rs (ip_problems p))"
    using assms(1) by (auto simp: detectCommonCauseCorrelation_def Let_def)
  have n: "findNodesWithAllProblems rs (ip_problems p) \<noteq> []"
    using len assms(2) by auto
  have "ip_problems p \<noteq> []"
    using p assms(3) by (auto simp: builtinPatterns_def)
  then obtain pt where pt: "pt \<in> set (ip_problems p)" by (cases "ip_problems p") auto
  from n obtain r where r: "r \<in> set rs" "nodeHasAllProblems r (ip_problems p)"
    by (auto simp: findNodesWithAllProblems_def filter_empty_conv)
  show ?thesis
    by (rule stillActiveI [of r _ _ pt])
      (use r pt in \<open>auto simp: x commonCauseCorrelation_def Let_def findNodesWithAllProblems_def
        nodeHasAllProblems_def\<close>)
qed

lemma cascade_stillActive:
  assumes "x \<in> set (detectCascadeCorrelation hash8 config rs)" "1 \<le> cc_MinNodesForCorrelation config"
  shows "stillActive rs x"
proof -
  obtain p where len: "cc_MinNodesForCorrelation config \<le> int (length (findNodesWithCascade rs (ip_problems p)))"
    and x: "x = cascadeCorrelation hash8 p (findNodesWithCascade rs (ip_problems p))"
    using assms(1) by (auto simp: detectCascadeCorrelation_def Let_def)
  have n: "findNodesWithCascade rs (ip_problems p) \<noteq> []"
    using len assms(2) by auto
  from n obtain r where r: "r \<in> set rs" "2 \<le> cascadeMatchCount r (ip_problems p)" "ip_problems p \<noteq> []"
    by (auto simp: findNodesWithCascade_def filter_empty_conv split: if_splits)
  have "filter (\<lambda>item. \<exists>p\<in>set (nr_ActiveProblems r). ps_Type p = item) (ip_problems p) \<noteq> []"
    using r(2) by (auto simp: cascadeMatchCount_def)
  then obtain pt where pt: "pt \<in> set (ip_problems p)" "pt \<in> ps_Type ` set (nr_ActiveProblems r)"
    by (auto simp: filter_empty_conv)
  show ?thesis
    by (rule stillActiveI [of r _ _ pt])
      (use r pt in \<open>auto simp: x cascadeCorrelation_def findNodesWithCascade_def\<close>)
qed

lemma allDetected_stillActive:
  "x \<in> set (allDetected hash8 fl c) \<Longrightarrow> 1 \<le> cc_MinNodesForCorrelation (cr_config c) \<Longrightarrow>
   \<forall>p\<in>set (cr_injectedPatterns c). ip_problems p \<noteq> [] \<Longrightarrow> stillActive (getReportsCopy c) x"
  unfolding allDetected_def
  using infra_stillActive common_stillActive cascade_stillActive by fastforce

lemma stillActive_cong:
  "stillActive rs (x\<lparr>co_DetectedAt := t1, co_UpdatedAt := t2, co_Status := st\<rparr>) = stillActive rs x"
  by (simp add: stillActive_def)

lemma evaluate_active:
  assumes "cc_MinNodesForCorrelation (cr_config (fst s)) \<le> int (length (getReportsCopy (fst s)))"
  shows "cr_active (fst (Correlator_evaluate ops env hash8 fl ck s)) =
    cr_active (fst (resolveStaleCorrelations ops (\<lambda>j. env (length (allDetected hash8 fl (fst s)) + j))
      (\<lambda>j. ck (1 + 2 * length (allDetected hash8 fl (fst s)) + j)) (getReportsCopy (fst s))
      (fold (processDetected ops env ck (cr_totalNodes (fst s)))
        (enumerate 0 (allDetected hash8 fl (fst s))) ((fst s)\<lparr>cr_lastEvalTime := ck 0\<rparr>, snd s))))"
proof -
  have "allDetected hash8 fl ((fst s)\<lparr>cr_lastEvalTime := t\<rparr>) = allDetected hash8 fl (fst s)" for t
    by (simp add: allDetected_def getReportsCopy_def)
  with assms show ?thesis by (simp add: Correlator_evaluate_def Let_def)
qed

section \<open>Properties\<close>

text \<open>
  Infrastructure detection is exact. An evaluation reports a correlation for a problem type
  if and only if the nodes that report the type are at least \<^verbatim>\<open>MinNodesForCorrelation\<close> and their
  share reaches the threshold; the correlation lists exactly those nodes, sorted and without
  repetition, and is critical from half of the nodes on.
\<close>

lemma infrastructure_detection_exact:
  assumes "cc_MinNodesForCorrelation config \<le> totalNodes"
  shows "let det = detectInfrastructureCorrelation hash8 fl config reports totalNodes;
             nodes = {n. reports_problem reports n pt};
             ratio = fl (of_nat (card nodes) / of_int totalNodes)
         in ((\<exists>x\<in>set det. co_ProblemTypes x = [pt]) \<longleftrightarrow>
               nodes \<noteq> {} \<and> cc_MinNodesForCorrelation config \<le> int (card nodes)
               \<and> cc_ClusterWideThreshold config \<le> ratio)
          \<and> (\<forall>x\<in>set det. co_ProblemTypes x = [pt] \<longrightarrow>
               sorted (co_AffectedNodes x) \<and> distinct (co_AffectedNodes x)
               \<and> set (co_AffectedNodes x) = nodes
               \<and> (co_Severity x = ''critical'' \<longleftrightarrow> 1 / 2 \<le> ratio))"
proof -
  have spec: "length ns = card {n. reports_problem reports n q} \<and> distinct ns \<and> ns \<noteq> []
      \<and> set ns = {n. reports_problem reports n q}"
    if "(q, ns) \<in> set (problemsByType reports)" for q ns
    using problemsByType_spec [OF that] distinct_card [of ns] by simp
  have ex: "\<exists>ns. (pt, ns) \<in> set (problemsByType reports)" if "{n. reports_problem reports n pt} \<noteq> {}"
    using that problemsByType_complete by blast
  show ?thesis
    using assms spec ex
    by (fastforce simp: detectInfrastructureCorrelation_def infraCorrelation_def Let_def
        split: if_splits)
qed

text \<open>
  Active correlations are current. After an evaluation with enough reports, every active
  correlation has an affected node that still reports one of its problem types, and every newly
  detected correlation is active with the nodes it was detected on.
\<close>

lemma evaluate_keeps_exactly_current_correlations:
  assumes "gomap_ok (cr_active c)"
    and "cc_MinNodesForCorrelation (cr_config c) \<le> int (length (getReportsCopy c))"
    and "1 \<le> cc_MinNodesForCorrelation (cr_config c)"
    and "\<forall>p\<in>set (cr_injectedPatterns c). ip_problems p \<noteq> []"
    and "distinct (map co_ID (allDetected hash8 fl c))"
  shows "let act = map_of (cr_active (fst (Correlator_evaluate ops env hash8 fl ck (c, db))))
         in (\<forall>k x. act k = Some x \<longrightarrow> stillActive (getReportsCopy c) x)
          \<and> (\<forall>x\<in>set (allDetected hash8 fl c). map_of (cr_active c) (co_ID x) = None \<longrightarrow>
               (\<exists>y. act (co_ID x) = Some y \<and> co_Status y = CorrelationStatusActive
                  \<and> co_AffectedNodes y = co_AffectedNodes x \<and> co_ProblemTypes y = co_ProblemTypes x))"
proof -
  let ?c = "c\<lparr>cr_lastEvalTime := ck 0\<rparr>"
  let ?s = "fold (processDetected ops env ck (cr_totalNodes c)) (enumerate 0 (allDetected hash8 fl c)) (?c, db)"
  have ok: "gomap_ok (cr_active (fst ?s))"
    using assms(1) by (intro fold_processDetected_gomap_ok) simp
  have act: "map_of (cr_active (fst (Correlator_evaluate ops env hash8 fl ck (c, db)))) k =
      (case map_of (cr_active (fst ?s)) k of None \<Rightarrow> None
       | Some x \<Rightarrow> if stillActive (getReportsCopy c) x then Some x else None)" for k
    using evaluate_active [of "(c, db)" ops env hash8 fl ck] assms(2) resolveStale_active [OF ok]
    by simp
  have new: "\<exists>t1 t2. map_of (cr_active (fst ?s)) (co_ID x) =
      Some (x\<lparr>co_DetectedAt := t1, co_UpdatedAt := t2, co_Status := CorrelationStatusActive\<rparr>)"
    if "x \<in> set (allDetected hash8 fl c)" "map_of (cr_active c) (co_ID x) = None" for x
    using fold_processDetected_new [OF assms(5) that(1), of "(?c, db)"] that(2) by simp
  have "stillActive (getReportsCopy c) x" if "x \<in> set (allDetected hash8 fl c)" for x
    using allDetected_stillActive [OF that assms(3,4)] .
  with act new show ?thesis
    unfolding Let_def by (fastforce simp: stillActive_cong split: option.splits if_splits)
qed

lemma builtin_names: "set (map ip_name builtinPatterns) =
    {''resource-exhaustion'', ''node-runtime-failure'', ''network-infrastructure''}"
  by (auto simp: builtinPatterns_def)

lemma dns_in_DNSFailure: "contains_str (to_lower ''DNSFailure'') ''dns''"
  by code_simp

lemma partition_is_dns:
  assumes "x \<in> set (allDetected hash8 fl c)" "isNetworkPartitionCorrelation x"
  shows "isDNSCorrelation x"
proof -
  have "co_Type x = CorrelationTypeCommonCause"
    using assms(2) by (simp add: isNetworkPartitionCorrelation_def split: if_splits)
  then have "x \<in> set (detectCommonCauseCorrelation hash8 fl (cr_config c) (cr_injectedPatterns c)
      (getReportsCopy c))"
    using assms(1)
    by (auto simp: allDetected_def detectInfrastructureCorrelation_def detectCascadeCorrelation_def
        infraCorrelation_def cascadeCorrelation_def Let_def CorrelationTypeCommonCause_def
        CorrelationTypeInfrastructure_def CorrelationTypeCascade_def split: if_splits)
  then obtain p ns where p: "p \<in> set builtinPatterns \<or> ip_name p \<notin> set (map ip_name builtinPatterns)"
    and x: "x = commonCauseCorrelation hash8 fl (length (getReportsCopy c)) p ns"
    by (auto simp: detectCommonCauseCorrelation_def Let_def)
  from assms(2) have "ip_name p = ''network-infrastructure''"
    by (simp add: x isNetworkPartitionCorrelation_def commonCauseCorrelation_def Let_def
        split: if_splits)
  with p have "ip_problems p = [''DNSFailure'', ''NetworkUnreachable'']"
    unfolding builtin_names by (auto simp: builtinPatterns_def)
  then show ?thesis
    using dns_in_DNSFailure by (simp add: x isDNSCorrelation_def commonCauseCorrelation_def Let_def)
qed

definition is_partition_event :: "corr_event \<Rightarrow> bool" where
  "is_partition_event ev \<longleftrightarrow> (case ev of RecordClusterNetworkPartition _ _ _ \<Rightarrow> True | _ \<Rightarrow> False)"

definition partition_events :: "Correlator \<Rightarrow> corr_event list" where
  "partition_events c = filter is_partition_event (cr_log c)"

lemma partition_events_clog [simp]:
  "partition_events (clog evs c) = partition_events c @ filter is_partition_event evs"
  by (simp add: partition_events_def)

lemma partition_events_update [simp]:
  "partition_events (c\<lparr>cr_active := a\<rparr>) = partition_events c"
  "partition_events (c\<lparr>cr_lastEvalTime := t\<rparr>) = partition_events c"
  by (simp_all add: partition_events_def)

lemma newCorrelationLog_no_partition:
  "(isNetworkPartitionCorrelation x \<Longrightarrow> isDNSCorrelation x) \<Longrightarrow>
   filter is_partition_event (newCorrelationLog n x c) = []"
  by (auto simp: newCorrelationLog_def is_partition_event_def Let_def filter_empty_conv split: if_splits)

lemma partition_tests_cong:
  "isNetworkPartitionCorrelation (x\<lparr>co_DetectedAt := t1, co_UpdatedAt := t2, co_Status := st\<rparr>) =
     isNetworkPartitionCorrelation x"
  "isDNSCorrelation (x\<lparr>co_DetectedAt := t1, co_UpdatedAt := t2, co_Status := st\<rparr>) = isDNSCorrelation x"
  by (simp_all add: isNetworkPartitionCorrelation_def isDNSCorrelation_def)

lemma processDetected_partition_events:
  "(isNetworkPartitionCorrelation x \<Longrightarrow> isDNSCorrelation x) \<Longrightarrow>
   partition_events (fst (processDetected ops env ck n (i, x) s)) = partition_events (fst s)"
  by (auto simp: processDetected_def Let_def partition_tests_cong
      intro!: newCorrelationLog_no_partition split: option.splits)

lemma fold_processDetected_partition_events:
  "(\<And>x. x \<in> set det \<Longrightarrow> isNetworkPartitionCorrelation x \<Longrightarrow> isDNSCorrelation x) \<Longrightarrow>
   partition_events (fst (fold (processDetected ops env ck n) (enumerate k det) s)) = partition_events (fst s)"
  by (induction det arbitrary: k s) (simp_all add: processDetected_partition_events)

lemma resolve_partition_events:
  "partition_events (fst (fold (resolveStep ops env ck rs) jxs s)) = partition_events (fst s)"
  by (induction jxs arbitrary: s) (auto simp: resolveStep_def Let_def is_partition_event_def)

text \<open>
  The network partition event is never sent. Whatever the reports and the injected patterns,
  an evaluation adds no \<^verbatim>\<open>ClusterNetworkPartition\<close> event: the only pattern that could raise it lists
  \<^verbatim>\<open>DNSFailure\<close>, so the DNS test that comes first always takes it.
\<close>


lemma no_network_partition_event:
  "partition_events (fst (Correlator_evaluate ops env hash8 fl ck (c, db))) = partition_events c"
proof -
  have "allDetected hash8 fl (c\<lparr>cr_lastEvalTime := t\<rparr>) = allDetected hash8 fl c" for t
    by (simp add: allDetected_def getReportsCopy_def)
  moreover note partition_is_dns [of _ hash8 fl c]
  ultimately show ?thesis
    by (simp add: Correlator_evaluate_def Let_def resolveStaleCorrelations_def
        resolve_partition_events fold_processDetected_partition_events is_partition_event_def)
qed

definition has_problem :: "NodeReport \<Rightarrow> string \<Rightarrow> bool" where
  "has_problem r pt \<longleftrightarrow> pt \<in> ps_Type ` set (nr_ActiveProblems r)"

text \<open>
  Cascade detection counts a node when any two problems of a three-step chain are present;
  the root cause, the first problem of the chain, need not be among them.
\<close>

lemma cascade_needs_any_two_of_chain:
  assumes "distinct [p1, p2, p3]"
  shows "set (findNodesWithCascade reports [p1, p2, p3]) =
    nr_NodeName ` {r \<in> set reports. has_problem r p1 \<and> has_problem r p2
       \<or> has_problem r p1 \<and> has_problem r p3 \<or> has_problem r p2 \<and> has_problem r p3}"
proof -
  have "2 \<le> cascadeMatchCount r [p1, p2, p3] \<longleftrightarrow> has_problem r p1 \<and> has_problem r p2
      \<or> has_problem r p1 \<and> has_problem r p3 \<or> has_problem r p2 \<and> has_problem r p3" for r
    by (auto simp: cascadeMatchCount_def has_problem_def)
  then show ?thesis by (simp add: findNodesWithCascade_def)
qed

definition demo_summary :: "string \<Rightarrow> ProblemSummary" where
  "demo_summary pt = \<lparr>ps_Type = pt, ps_Severity = ''warning'', ps_Message = [], ps_Source = [],
     ps_DetectedAt = 5, ps_LastSeenAt = 5, ps_Occurrences = 1\<rparr>"

definition demo_report :: "string \<Rightarrow> string list \<Rightarrow> NodeReport" where
  "demo_report node pts = \<lparr>nr_NodeName = node, nr_NodeUID = [], nr_Timestamp = 5, nr_ReportID = [],
     nr_Version = [], nr_Uptime = [], nr_ReportType = [], nr_OverallHealth = HealthStatusDegraded,
     nr_MonitorStatuses = [], nr_ActiveProblems = map demo_summary pts, nr_Conditions = [],
     nr_Stats = None\<rparr>"

lemma demo_report_simps [simp]:
  "nr_NodeName (demo_report n pts) = n" "ps_Type (demo_summary pt) = pt"
  "nr_ActiveProblems (demo_report n pts) = map demo_summary pts"
  by (simp_all add: demo_report_def demo_summary_def)

definition demo_correlator :: Correlator where
  "demo_correlator = fold (\<lambda>r. UpdateNodeReport (Some r))
     [demo_report ''n1'' [''DNSFailure''], demo_report ''n2'' [''DNSFailure'']]
     (NewCorrelator None True True)"

lemma demo_correlator_simps:
  "getReportsCopy demo_correlator =
     [demo_report ''n1'' [''DNSFailure''], demo_report ''n2'' [''DNSFailure'']]"
  "cr_active demo_correlator = []" "cr_injectedPatterns demo_correlator = []"
  "cr_totalNodes demo_correlator = 2"
  "cc_MinNodesForCorrelation (cr_config demo_correlator) = 2"
  "cc_ClusterWideThreshold (cr_config demo_correlator) = 3 / 10"
  by (simp_all add: getReportsCopy_def demo_correlator_def UpdateNodeReport_def NewCorrelator_def Let_def)

lemma demo_detected:
  "allDetected id id demo_correlator = [infraCorrelation id id 2 ''DNSFailure'' [''n1'', ''n2'']]"
  by (simp add: allDetected_def demo_correlator_simps detectInfrastructureCorrelation_def
      problemsByType_def group_problem_def gomap_get_def detectCommonCauseCorrelation_def builtinPatterns_def
      findNodesWithAllProblems_def nodeHasAllProblems_def detectCascadeCorrelation_def
      cascadePatterns_def findNodesWithCascade_def cascadeMatchCount_def)

end
