(* ===== verification/Controller_Server.thy ===== *)
theory Controller_Server
  imports Correlator
begin

text \<open>
  \<^verbatim>\<open>pkg/controller/server.go\<close>: the controller that collects node reports and hands out
  remediation leases.

  A handler is a function of its decoded request (\<open>None\<close> when the body is not valid JSON), the clock
  readings and storage environments of the call, and the server; it returns the response and the
  new server. \<open>ck\<close> gives the reading made at each site of \<^verbatim>\<open>requestLease\<close>. Handlers hold the
  server's mutex while they change the server's state, so a run is a sequence of handler calls; two of them, \<open>releaseLease\<close> and
  \<open>handleReports\<close>, give the mutex up before they write the new state to the storage, and the model takes that write together with the change as
  one step: another handler that runs between the two is not represented. Prometheus counters and
  Kubernetes events are appended to \<open>sv_metrics\<close> and \<open>sv_coordinated\<close>. \<open>parseDur\<close> is
  \<^verbatim>\<open>time.ParseDuration\<close>.
\<close>

section \<open>Definitions\<close>

datatype server_metric =
    LeaseGranted string | LeaseDenied string | ReportReceived | ReportError string
  | ClusterMetrics ClusterStatus | ActiveLeases int | ProblemMetrics "(string \<times> string) list"

record 'db Server =
  sv_config :: ControllerConfig
  sv_storage :: "'db option"
  sv_correlator :: "Correlator option"
  sv_hasRecorder :: bool
  sv_started :: bool
  sv_stopping :: bool
  sv_ready :: bool
  sv_startTime :: time
  sv_nodeReports :: "(string, NodeReport) gomap"
  sv_leases :: "(string, Lease) gomap"
  sv_metrics :: "server_metric list"
  sv_coordinated :: "(string \<times> string list \<times> string) list"

record 'a APIResponse =
  ar_status :: int
  ar_success :: bool
  ar_data :: "'a option"
  ar_error :: "(string \<times> string) option"
  ar_timestamp :: time

definition writeSuccess :: "time \<Rightarrow> int \<Rightarrow> 'a \<Rightarrow> 'a APIResponse" where
  "writeSuccess now status data = \<lparr>ar_status = status, ar_success = True, ar_data = Some data,
     ar_error = None, ar_timestamp = now\<rparr>"

definition writeError :: "time \<Rightarrow> int \<Rightarrow> string \<Rightarrow> string \<Rightarrow> 'a APIResponse" where
  "writeError now status code message = \<lparr>ar_status = status, ar_success = False, ar_data = None,
     ar_error = Some (code, message), ar_timestamp = now\<rparr>"

definition record_metric :: "server_metric \<Rightarrow> 'db Server \<Rightarrow> 'db Server" where
  "record_metric m s = s\<lparr>sv_metrics := sv_metrics s @ [m]\<rparr>"

text \<open>\<open>recorder\<close> says whether the event recorder could be created.\<close>

definition NewServer :: "time \<Rightarrow> bool \<Rightarrow> ControllerConfig option \<Rightarrow> 'db Server" where
  "NewServer now recorder co =
     (let config = (case co of None \<Rightarrow> DefaultControllerConfig | Some c \<Rightarrow> c);
          rec_on = (kc_Enabled (cf_Kubernetes config) \<and> kc_CreateEvents (cf_Kubernetes config) \<and> recorder)
      in \<lparr>sv_config = config, sv_storage = None,
          sv_correlator = (if cc_Enabled (cf_Correlation config)
             then Some (NewCorrelator (Some (cf_Correlation config)) True rec_on) else None),
          sv_hasRecorder = rec_on, sv_started = False, sv_stopping = False, sv_ready = False,
          sv_startTime = now, sv_nodeReports = [], sv_leases = [], sv_metrics = [],
          sv_coordinated = []\<rparr>)"

definition SetStorage :: "'db option \<Rightarrow> 'db Server \<Rightarrow> 'db Server" where
  "SetStorage db s = s\<lparr>sv_storage := db\<rparr>"

definition rehydrateFromStorage ::
  "('e, 'db) storage_ops \<Rightarrow> 'e \<Rightarrow> 'e \<Rightarrow> 'db \<Rightarrow> 'db Server \<Rightarrow> 'db Server" where
  "rehydrateFromStorage ops eReports eLeases d s =
     (let s1 = (case so_GetAllLatestReports ops eReports d of
                  Inl _ \<Rightarrow> s
                | Inr reports \<Rightarrow>
                    s\<lparr>sv_nodeReports := fold (\<lambda>(k, r). AList.update k r) reports (sv_nodeReports s)\<rparr>)
      in case so_GetActiveLeases ops eLeases d of
           Inl _ \<Rightarrow> s1
         | Inr leases \<Rightarrow> s1\<lparr>sv_leases := fold (\<lambda>l. AList.update (le_ID l) l) leases (sv_leases s1)\<rparr>)"

datatype server_error = AlreadyStarted | StillStopping | BindFailed

text \<open>\<open>bind\<close> says whether the listener could be bound; \<open>env\<close> numbers the storage calls.\<close>

definition Server_Start ::
  "('e, 'db) storage_ops \<Rightarrow> (nat \<Rightarrow> 'e) \<Rightarrow> bool \<Rightarrow> time \<Rightarrow> 'db Server \<Rightarrow> server_error option \<times> 'db Server" where
  "Server_Start ops env bind now s =
     (if sv_started s then (Some AlreadyStarted, s)
      else if sv_stopping s then (Some StillStopping, s)
      else if \<not> bind then (Some BindFailed, s)
      else
        let s1 = (case sv_storage s of None \<Rightarrow> s
                  | Some d \<Rightarrow> rehydrateFromStorage ops (env 0) (env 1) d s);
            s2 = (case sv_correlator s1 of None \<Rightarrow> s1
                  | Some c \<Rightarrow> s1\<lparr>sv_correlator := Some
                      (fold (\<lambda>(k, r). UpdateNodeReport (Some r)) (sv_nodeReports s1)
                        (snd (Correlator_Start ops (env 2) (sv_storage s1) c)))\<rparr>)
        in (None, s2\<lparr>sv_started := True, sv_ready := True, sv_startTime := now\<rparr>))"

datatype lease_site =
    AtCount nat | AtDenied | AtNode nat | AtCooldown | AtUntil | AtID | AtGranted | AtExpires
  | AtCorrelation | AtResponse

definition lease_active :: "time \<Rightarrow> Lease \<Rightarrow> bool" where
  "lease_active t l \<longleftrightarrow> le_Status l = ''active'' \<and> t < le_ExpiresAt l"

definition lease_id :: "string \<Rightarrow> string \<Rightarrow> time \<Rightarrow> string" where
  "lease_id node ty t = node @ ''-'' @ ty @ ''-'' @ show_int (unix_nano t)"

text \<open>\<^verbatim>\<open>Duration.Round\<close>, half away from zero.\<close>

definition round_duration :: "duration \<Rightarrow> duration \<Rightarrow> duration" where
  "round_duration d m =
     (if m \<le> 0 then d
      else if d < 0 then
        let r = (- d) mod m
        in if r + r < m then d + r else if d - m + r < min_int64 then min_int64 else d - m + r
      else
        let r = d mod m
        in if r + r < m then d - r else if max_int64 < d + m - r then max_int64 else d + m - r)"

definition active_count :: "(lease_site \<Rightarrow> time) \<Rightarrow> (string, Lease) gomap \<Rightarrow> int" where
  "active_count ck leases =
     int (length (filter (\<lambda>(i, k, l). lease_active (ck (AtCount i)) l) (enumerate 0 leases)))"

definition node_holder :: "(lease_site \<Rightarrow> time) \<Rightarrow> string \<Rightarrow> (string, Lease) gomap \<Rightarrow> Lease option" where
  "node_holder ck node leases =
     map_option (\<lambda>(i, k, l). l)
       (List.find (\<lambda>(i, k, l). le_NodeName l = node \<and> lease_active (ck (AtNode i)) l) (enumerate 0 leases))"

text \<open>The cooldown answer, when the last finished lease of the node is too recent.\<close>

definition cooldown_denial ::
  "('e, 'db) storage_ops \<Rightarrow> 'e \<Rightarrow> (lease_site \<Rightarrow> time) \<Rightarrow> string \<Rightarrow> 'db Server \<Rightarrow> LeaseResponse option" where
  "cooldown_denial ops e ck node s =
     (let cooldown = cd_CooldownPeriod (cf_Coordination (sv_config s)) in
      if 0 < cooldown then
        (case sv_storage s of None \<Rightarrow> None
         | Some d \<Rightarrow>
             (case so_GetLastCompletedLease ops e node d of
                Inr (Some l) \<Rightarrow>
                  let ends = le_CompletedAt l + cooldown
                  in if ck AtCooldown < ends then
                       Some (zero_LeaseResponse\<lparr>
                         lr_Message := CooldownMessage
                           (round_duration (time_sub ends (ck AtUntil)) second) (le_RemediationType l),
                         lr_RetryAt := ends\<rparr>)
                     else None
              | _ \<Rightarrow> None))
      else None)"

definition new_lease ::
  "(string \<Rightarrow> duration option) \<Rightarrow> (lease_site \<Rightarrow> time) \<Rightarrow> LeaseRequest \<Rightarrow> 'db Server \<Rightarrow> Lease" where
  "new_lease parseDur ck req s =
     (let duration = (if lq_RequestedDuration req \<noteq> [] then
            (case parseDur (lq_RequestedDuration req) of Some d \<Rightarrow> d
             | None \<Rightarrow> cd_DefaultLeaseDuration (cf_Coordination (sv_config s)))
          else cd_DefaultLeaseDuration (cf_Coordination (sv_config s)))
      in \<lparr>le_ID = lease_id (lq_NodeName req) (lq_RemediationType req) (ck AtID),
          le_NodeName = lq_NodeName req, le_RemediationType = lq_RemediationType req,
          le_GrantedAt = ck AtGranted, le_ExpiresAt = ck AtExpires + duration, le_CompletedAt = 0,
          le_Status = ''active'', le_Reason = lq_Reason req\<rparr>)"

text \<open>Granting a lease: the map, the storage, the metric and the coordination event.\<close>

definition grant_lease ::
  "('e, 'db) storage_ops \<Rightarrow> 'e \<Rightarrow> (lease_site \<Rightarrow> time) \<Rightarrow> Lease \<Rightarrow> 'db Server \<Rightarrow> 'db Server" where
  "grant_lease ops e ck l s =
     (let s1 = s\<lparr>sv_leases := AList.update (le_ID l) l (sv_leases s),
                sv_storage := map_option (\<lambda>d. snd (so_SaveLease ops e l d)) (sv_storage s)\<rparr>;
          s2 = record_metric (LeaseGranted (le_RemediationType l)) s1;
          nodes = (if sv_hasRecorder s2 then
              map (\<lambda>(k, x). le_NodeName x)
                (filter (\<lambda>(k, x). le_RemediationType x = le_RemediationType l \<and> le_Status x = ''active'')
                  (sv_leases s2)) else [])
      in if 1 < length nodes
         then s2\<lparr>sv_coordinated := sv_coordinated s2 @ [(le_RemediationType l, nodes,
                   ''remediation-'' @ le_RemediationType l @ ''-'' @ show_int (unix_sec (ck AtCorrelation)))]\<rparr>
         else s2)"

definition requestLease ::
  "('e, 'db) storage_ops \<Rightarrow> (nat \<Rightarrow> 'e) \<Rightarrow> (string \<Rightarrow> duration option) \<Rightarrow> (lease_site \<Rightarrow> time) \<Rightarrow>
   LeaseRequest option \<Rightarrow> 'db Server \<Rightarrow> LeaseResponse APIResponse \<times> 'db Server" where
  "requestLease ops env parseDur ck ro s =
     (case ro of
        None \<Rightarrow> (writeError (ck AtResponse) 400 ''INVALID_JSON'' ''Failed to parse request body'', s)
      | Some req \<Rightarrow>
          if lq_NodeName req = [] \<or> lq_RemediationType req = [] then
            (writeError (ck AtResponse) 400 ''MISSING_FIELDS'' ''node and remediation are required'', s)
          else
            let mx = cd_MaxConcurrentRemediations (cf_Coordination (sv_config s));
                activeCount = active_count ck (sv_leases s)
            in if mx \<le> activeCount then
                 (writeSuccess (ck AtResponse) 429 (zero_LeaseResponse\<lparr>
                    lr_Message := MaxConcurrentMessage, lr_RetryAt := ck AtDenied + 30 * second,
                    lr_Position := activeCount - mx + 1\<rparr>),
                  record_metric (LeaseDenied ''max_concurrent'') s)
               else case node_holder ck (lq_NodeName req) (sv_leases s) of
                 Some l \<Rightarrow>
                   (writeSuccess (ck AtResponse) 409 (zero_LeaseResponse\<lparr>
                      lr_Message := NodeHasLeaseMessage, lr_LeaseID := le_ID l\<rparr>),
                    record_metric (LeaseDenied ''node_has_lease'') s)
               | None \<Rightarrow>
                   (case cooldown_denial ops (env 0) ck (lq_NodeName req) s of
                      Some resp \<Rightarrow> (writeSuccess (ck AtResponse) 429 resp,
                                     record_metric (LeaseDenied ''cooldown'') s)
                    | None \<Rightarrow>
                        let l = new_lease parseDur ck req s
                        in (writeSuccess (ck AtResponse) 200 (zero_LeaseResponse\<lparr>
                              lr_LeaseID := le_ID l, lr_Approved := True,
                              lr_ExpiresAt := le_ExpiresAt l, lr_Message := LeaseGrantedMessage\<rparr>),
                            grant_lease ops (env 1) ck l s)))"

definition listLeases :: "time \<Rightarrow> 'db Server \<Rightarrow> Lease list APIResponse" where
  "listLeases now s =
     writeSuccess now 200 (filter (\<lambda>l. le_Status l = ''active'') (map snd (sv_leases s)))"

definition getLease :: "time \<Rightarrow> string \<Rightarrow> 'db Server \<Rightarrow> Lease APIResponse" where
  "getLease now leaseID s =
     (case map_of (sv_leases s) leaseID of
        None \<Rightarrow> writeError now 404 ''LEASE_NOT_FOUND'' ''Lease not found''
      | Some l \<Rightarrow> writeSuccess now 200 l)"

text \<open>The write to the storage follows after the mutex is given up; it is part of the same step here.\<close>

definition releaseLease ::
  "('e, 'db) storage_ops \<Rightarrow> 'e \<Rightarrow> time \<Rightarrow> string \<Rightarrow> 'db Server \<Rightarrow> (bool \<times> string) APIResponse \<times> 'db Server" where
  "releaseLease ops e now leaseID s =
     (case map_of (sv_leases s) leaseID of
        None \<Rightarrow> (writeError now 404 ''LEASE_NOT_FOUND'' ''Lease not found'', s)
      | Some l \<Rightarrow>
          (writeSuccess now 200 (True, leaseID),
           s\<lparr>sv_leases := AList.update leaseID (l\<lparr>le_Status := ''completed''\<rparr>) (sv_leases s),
             sv_storage := map_option (\<lambda>d. snd (so_UpdateLeaseStatus ops e leaseID ''completed'' d))
                             (sv_storage s)\<rparr>))"

text \<open>One iteration of the cleanup loop; \<open>env\<close> gives the storage environment for each lease id.\<close>

definition expire_lease ::
  "('e, 'db) storage_ops \<Rightarrow> (string \<Rightarrow> 'e) \<Rightarrow> time \<Rightarrow> string \<times> Lease \<Rightarrow> 'db Server \<Rightarrow> 'db Server" where
  "expire_lease ops env now kl s =
     (let k = fst kl; l = snd kl in
      if le_Status l = ''active'' \<and> le_ExpiresAt l < now then
        s\<lparr>sv_leases := AList.update k (l\<lparr>le_Status := ''expired'', le_CompletedAt := now\<rparr>) (sv_leases s),
          sv_storage := map_option (\<lambda>d. snd (so_UpdateLeaseStatus ops (env k) k ''expired'' d))
                          (sv_storage s)\<rparr>
      else s)"

definition cleanupExpiredLeases ::
  "('e, 'db) storage_ops \<Rightarrow> (string \<Rightarrow> 'e) \<Rightarrow> time \<Rightarrow> 'db Server \<Rightarrow> 'db Server" where
  "cleanupExpiredLeases ops env now s = fold (expire_lease ops env now) (sv_leases s) s"

datatype http_method = GET | POST | DELETE | OtherMethod

datatype lease_body =
    LeaseListBody "Lease list" | LeaseResponseBody LeaseResponse | LeaseDetailBody Lease
  | ReleasedBody bool string

definition wrap_body :: "('a \<Rightarrow> 'b) \<Rightarrow> 'a APIResponse \<Rightarrow> 'b APIResponse" where
  "wrap_body f r = \<lparr>ar_status = ar_status r, ar_success = ar_success r,
     ar_data = map_option f (ar_data r), ar_error = ar_error r, ar_timestamp = ar_timestamp r\<rparr>"

definition handleLeases ::
  "('e, 'db) storage_ops \<Rightarrow> (nat \<Rightarrow> 'e) \<Rightarrow> (string \<Rightarrow> duration option) \<Rightarrow> (lease_site \<Rightarrow> time) \<Rightarrow>
   http_method \<Rightarrow> LeaseRequest option \<Rightarrow> 'db Server \<Rightarrow> lease_body APIResponse \<times> 'db Server" where
  "handleLeases ops env parseDur ck meth ro s =
     (case meth of
        GET \<Rightarrow> (wrap_body LeaseListBody (listLeases (ck AtResponse) s), s)
      | POST \<Rightarrow> (let (r, s') = requestLease ops env parseDur ck ro s in (wrap_body LeaseResponseBody r, s'))
      | _ \<Rightarrow> (writeError (ck AtResponse) 405 ''METHOD_NOT_ALLOWED'' ''Only GET and POST are allowed'', s))"

text \<open>\<open>leaseID\<close> is the path after \<^verbatim>\<open>/api/v1/leases/\<close>.\<close>

definition handleLeaseDetail ::
  "('e, 'db) storage_ops \<Rightarrow> 'e \<Rightarrow> time \<Rightarrow> http_method \<Rightarrow> string \<Rightarrow> 'db Server \<Rightarrow>
   lease_body APIResponse \<times> 'db Server" where
  "handleLeaseDetail ops e now meth leaseID s =
     (if leaseID = [] then (writeError now 400 ''MISSING_LEASE_ID'' ''Lease ID is required'', s)
      else case meth of
        GET \<Rightarrow> (wrap_body LeaseDetailBody (getLease now leaseID s), s)
      | DELETE \<Rightarrow> (let (r, s') = releaseLease ops e now leaseID s
                    in (wrap_body (\<lambda>(b, i). ReleasedBody b i) r, s'))
      | _ \<Rightarrow> (writeError now 405 ''METHOD_NOT_ALLOWED'' ''Only GET and DELETE are allowed'', s))"

text \<open>\<open>shutdown\<close> says whether the HTTP server shut down without an error.\<close>

definition Server_Stop :: "bool \<Rightarrow> 'db Server \<Rightarrow> bool \<times> 'db Server" where
  "Server_Stop shutdown s =
     (if \<not> sv_started s then (True, s)
      else
        let s1 = s\<lparr>sv_started := False,
                   sv_correlator := map_option Correlator_Stop (sv_correlator s)\<rparr>
        in if shutdown then (True, s1\<lparr>sv_ready := False, sv_stopping := False\<rparr>)
           else (False, s1\<lparr>sv_stopping := False\<rparr>))"

definition IsReady :: "'db Server \<Rightarrow> bool" where
  "IsReady s = sv_ready s"

definition SetReady :: "bool \<Rightarrow> 'db Server \<Rightarrow> 'db Server" where
  "SetReady ready s = s\<lparr>sv_ready := ready\<rparr>"

text \<open>Report ingestion: \<open>now\<close> stamps a report without a time, \<open>resp\<close> is the reading of the response; the write of the
  report to the storage, made without the mutex, is part of the same step here.\<close>

definition handleReports ::
  "('e, 'db) storage_ops \<Rightarrow> 'e \<Rightarrow> time \<Rightarrow> time \<Rightarrow> http_method \<Rightarrow> NodeReport option \<Rightarrow> 'db Server \<Rightarrow>
   (bool \<times> string \<times> time) APIResponse \<times> 'db Server" where
  "handleReports ops e now resp meth ro s =
     (if meth \<noteq> POST then (writeError resp 405 ''METHOD_NOT_ALLOWED'' ''Only POST is allowed'', s)
      else case ro of
        None \<Rightarrow> (writeError resp 400 ''INVALID_JSON'' ''Failed to parse request body'',
                 record_metric (ReportError ''invalid_json'') s)
      | Some report0 \<Rightarrow>
          if nr_NodeName report0 = [] then
            (writeError resp 400 ''MISSING_NODE_NAME'' ''nodeName is required'',
             record_metric (ReportError ''missing_node_name'') s)
          else
            let report = (if is_zero_time (nr_Timestamp report0) then report0\<lparr>nr_Timestamp := now\<rparr> else report0);
                s1 = record_metric ReportReceived s;
                s2 = s1\<lparr>sv_nodeReports := AList.update (nr_NodeName report) report (sv_nodeReports s1)\<rparr>;
                s3 = s2\<lparr>sv_storage := map_option (\<lambda>d. snd (so_SaveNodeReport ops e report d)) (sv_storage s2)\<rparr>;
                s4 = s3\<lparr>sv_correlator := map_option (UpdateNodeReport (Some report)) (sv_correlator s3)\<rparr>
            in (writeSuccess resp 202 (True, nr_NodeName report, nr_Timestamp report), s4))"

definition node_summary :: "string \<Rightarrow> NodeReport \<Rightarrow> NodeSummary" where
  "node_summary node r =
     \<lparr>nsum_NodeName = node, nsum_Health = nr_OverallHealth r, nsum_LastReportAt = nr_Timestamp r,
      nsum_ProblemCount = int (length (nr_ActiveProblems r)),
      nsum_ConditionCount = int (length (nr_Conditions r))\<rparr>"

definition count_report :: "string \<times> NodeReport \<Rightarrow> ClusterStatus \<Rightarrow> ClusterStatus" where
  "count_report nr st =
     (let r = snd nr;
          st1 = st\<lparr>cs_NodeSummaries := cs_NodeSummaries st @ [node_summary (fst nr) r]\<rparr>;
          st2 = (if nr_OverallHealth r = HealthStatusHealthy then st1\<lparr>cs_HealthyNodes := cs_HealthyNodes st1 + 1\<rparr>
                 else if nr_OverallHealth r = HealthStatusDegraded then st1\<lparr>cs_DegradedNodes := cs_DegradedNodes st1 + 1\<rparr>
                 else if nr_OverallHealth r = HealthStatusCritical then st1\<lparr>cs_CriticalNodes := cs_CriticalNodes st1 + 1\<rparr>
                 else st1\<lparr>cs_UnknownNodes := cs_UnknownNodes st1 + 1\<rparr>)
      in st2\<lparr>cs_ActiveProblems := cs_ActiveProblems st2 + int (length (nr_ActiveProblems r))\<rparr>)"

definition buildClusterStatus :: "time \<Rightarrow> 'db Server \<Rightarrow> ClusterStatus" where
  "buildClusterStatus now s =
     (let st0 = \<lparr>cs_Timestamp = now, cs_OverallHealth = HealthStatusHealthy,
                 cs_TotalNodes = int (length (sv_nodeReports s)), cs_HealthyNodes = 0,
                 cs_DegradedNodes = 0, cs_CriticalNodes = 0, cs_UnknownNodes = 0,
                 cs_ActiveProblems = 0, cs_Correlations = 0, cs_NodeSummaries = [],
                 cs_RecentProblems = []\<rparr>;
          st = fold count_report (sv_nodeReports s) st0
      in if 0 < cs_CriticalNodes st then st\<lparr>cs_OverallHealth := HealthStatusCritical\<rparr>
         else if 0 < cs_DegradedNodes st then st\<lparr>cs_OverallHealth := HealthStatusDegraded\<rparr>
         else if cs_TotalNodes st = 0 then st\<lparr>cs_OverallHealth := HealthStatusUnknown\<rparr>
         else st)"

definition handleClusterStatus :: "time \<Rightarrow> time \<Rightarrow> http_method \<Rightarrow> 'db Server \<Rightarrow> ClusterStatus APIResponse" where
  "handleClusterStatus now resp meth s =
     (if meth \<noteq> GET then writeError resp 405 ''METHOD_NOT_ALLOWED'' ''Only GET is allowed''
      else writeSuccess resp 200 (buildClusterStatus now s))"

definition handleClusterProblems :: "time \<Rightarrow> http_method \<Rightarrow> 'db Server \<Rightarrow> ClusterProblem list APIResponse" where
  "handleClusterProblems resp meth s =
     (if meth \<noteq> GET then writeError resp 405 ''METHOD_NOT_ALLOWED'' ''Only GET is allowed''
      else writeSuccess resp 200
        (concat (map (\<lambda>(node, r). map (\<lambda>p.
             \<lparr>cp_ID = node @ ''-'' @ ps_Type p @ ''-'' @ show_int (unix_sec (ps_DetectedAt p)),
              cp_Type = ps_Type p, cp_Severity = ps_Severity p, cp_AffectedNodes = [node],
              cp_Message = ps_Message p, cp_DetectedAt = ps_DetectedAt p,
              cp_IsCorrelated = False, cp_CorrelationID = []\<rparr>) (nr_ActiveProblems r))
           (sv_nodeReports s))))"

definition handleNodes :: "time \<Rightarrow> http_method \<Rightarrow> 'db Server \<Rightarrow> NodeSummary list APIResponse" where
  "handleNodes resp meth s =
     (if meth \<noteq> GET then writeError resp 405 ''METHOD_NOT_ALLOWED'' ''Only GET is allowed''
      else writeSuccess resp 200 (map (\<lambda>(node, r). node_summary node r) (sv_nodeReports s)))"

definition report_summary :: "NodeReport \<Rightarrow> ReportSummary" where
  "report_summary r = \<lparr>rs_ReportID = nr_ReportID r, rs_Timestamp = nr_Timestamp r,
     rs_OverallHealth = nr_OverallHealth r, rs_ProblemCount = int (length (nr_ActiveProblems r))\<rparr>"

definition handleNodeHistory ::
  "('e, 'db) storage_ops \<Rightarrow> 'e \<Rightarrow> time \<Rightarrow> http_method \<Rightarrow> string \<Rightarrow> 'db Server \<Rightarrow> ReportSummary list APIResponse" where
  "handleNodeHistory ops e resp meth node s =
     (if meth \<noteq> GET then writeError resp 405 ''METHOD_NOT_ALLOWED'' ''Only GET is allowed''
      else
        let fallback = (case map_of (sv_nodeReports s) node of
                          None \<Rightarrow> writeError resp 404 ''NODE_NOT_FOUND'' ''Node not found''
                        | Some r \<Rightarrow> writeSuccess resp 200 [report_summary r])
        in case sv_storage s of None \<Rightarrow> fallback
           | Some d \<Rightarrow>
               (case so_GetNodeReports ops e node 100 d of
                  Inl _ \<Rightarrow> fallback
                | Inr reports \<Rightarrow> if reports \<noteq> [] then writeSuccess resp 200 (map report_summary reports)
                                 else fallback))"

datatype node_body = NodeDetailBody NodeDetail | NodeHistoryBody "ReportSummary list"

text \<open>\<open>path\<close> is the path after \<^verbatim>\<open>/api/v1/nodes/\<close>.\<close>

definition handleNodeDetail ::
  "('e, 'db) storage_ops \<Rightarrow> 'e \<Rightarrow> time \<Rightarrow> http_method \<Rightarrow> string \<Rightarrow> 'db Server \<Rightarrow> node_body APIResponse" where
  "handleNodeDetail ops e resp meth path s =
     (if path = [] then writeError resp 400 ''MISSING_NODE_NAME'' ''Node name is required''
      else if 8 < length path \<and> drop (length path - 8) path = ''/history'' then
        wrap_body NodeHistoryBody (handleNodeHistory ops e resp meth (take (length path - 8) path) s)
      else if meth \<noteq> GET then writeError resp 405 ''METHOD_NOT_ALLOWED'' ''Only GET is allowed''
      else case map_of (sv_nodeReports s) path of
        None \<Rightarrow> writeError resp 404 ''NODE_NOT_FOUND'' ''Node not found''
      | Some r \<Rightarrow> writeSuccess resp 200 (NodeDetailBody
          \<lparr>nd_NodeName = path, nd_NodeUID = nr_NodeUID r, nd_Health = nr_OverallHealth r,
           nd_LastReportAt = nr_Timestamp r, nd_FirstSeenAt = nr_Timestamp r, nd_ReportCount = 1,
           nd_LatestReport = Some r, nd_ActiveProblems = nr_ActiveProblems r,
           nd_Conditions = nr_Conditions r, nd_RecentHistory = []\<rparr>))"

definition handleCorrelations :: "time \<Rightarrow> http_method \<Rightarrow> 'db Server \<Rightarrow> Correlation list APIResponse" where
  "handleCorrelations resp meth s =
     (if meth \<noteq> GET then writeError resp 405 ''METHOD_NOT_ALLOWED'' ''Only GET is allowed''
      else case sv_correlator s of None \<Rightarrow> writeSuccess resp 200 []
           | Some c \<Rightarrow> writeSuccess resp 200 (Correlator_GetActiveCorrelations c))"

text \<open>\<open>cid\<close> is the path after \<^verbatim>\<open>/api/v1/correlations/\<close>.\<close>

definition handleCorrelationDetail ::
  "('e, 'db) storage_ops \<Rightarrow> 'e \<Rightarrow> time \<Rightarrow> http_method \<Rightarrow> string \<Rightarrow> 'db Server \<Rightarrow> Correlation option APIResponse" where
  "handleCorrelationDetail ops e resp meth cid s =
     (if meth \<noteq> GET then writeError resp 405 ''METHOD_NOT_ALLOWED'' ''Only GET is allowed''
      else if cid = [] then writeError resp 400 ''MISSING_ID'' ''Correlation ID is required''
      else case sv_correlator s of
        None \<Rightarrow> writeError resp 404 ''NOT_FOUND'' ''Correlator not enabled''
      | Some c \<Rightarrow>
          (case Correlator_GetCorrelation ops e (sv_storage s) cid c of
             Inl _ \<Rightarrow> writeError resp 404 ''NOT_FOUND'' ''Correlation not found''
           | Inr x \<Rightarrow> writeSuccess resp 200 x))"

text \<open>The gauges of \<^verbatim>\<open>updateMetrics\<close>; the problem gauges count the listed type and severity pairs.\<close>

definition updateMetrics :: "time \<Rightarrow> (lease_site \<Rightarrow> time) \<Rightarrow> 'db Server \<Rightarrow> 'db Server" where
  "updateMetrics now ck s =
     record_metric (ProblemMetrics (concat (map (\<lambda>(node, r).
         map (\<lambda>p. (ps_Type p, ps_Severity p)) (nr_ActiveProblems r)) (sv_nodeReports s))))
       (record_metric (ActiveLeases (active_count ck (sv_leases s)))
         (record_metric (ClusterMetrics (buildClusterStatus now s)) s))"

section \<open>The lease state\<close>

definition live_ids :: "time \<Rightarrow> 'db Server \<Rightarrow> string set" where
  "live_ids t s = {k. \<exists>l. map_of (sv_leases s) k = Some l \<and> lease_active t l}"

definition lease_node :: "'db Server \<Rightarrow> string \<Rightarrow> string" where
  "lease_node s k = (case map_of (sv_leases s) k of Some l \<Rightarrow> le_NodeName l | None \<Rightarrow> [])"

definition max_leases :: "'db Server \<Rightarrow> nat" where
  "max_leases s = nat (cd_MaxConcurrentRemediations (cf_Coordination (sv_config s)))"

text \<open>At time \<open>t\<close> and later: no more live leases than configured, and no two for one node.\<close>

definition leases_bounded :: "time \<Rightarrow> 'db Server \<Rightarrow> bool" where
  "leases_bounded t s \<longleftrightarrow> card (live_ids t s) \<le> max_leases s \<and> inj_on (lease_node s) (live_ids t s)"

lemma finite_live_ids [simp]: "finite (live_ids t s)"
proof (rule finite_subset)
  show "live_ids t s \<subseteq> dom (map_of (sv_leases s))" by (auto simp: live_ids_def)
qed (simp add: finite_dom_map_of)

lemma lease_active_antimono: "lease_active t l \<Longrightarrow> u \<le> t \<Longrightarrow> lease_active u l"
  by (auto simp: lease_active_def)

lemma mem_enumerate: "x \<in> set xs \<Longrightarrow> \<exists>i. (i, x) \<in> set (enumerate n xs)"
  by (metis in_set_conv_nth in_set_enumerate_eq length_enumerate nth_enumerate_eq fst_conv snd_conv
      le_add1 add_diff_cancel_left' nat_add_left_cancel_less)

text \<open>The count the handler makes covers every lease that is live at or after its readings.\<close>

lemma live_ids_counted:
  assumes "\<And>i. ck (AtCount i) \<le> t"
  shows "int (card (live_ids t s)) \<le> active_count ck (sv_leases s)"
proof -
  let ?F = "filter (\<lambda>(i, k, l). lease_active (ck (AtCount i)) l) (enumerate 0 (sv_leases s))"
  have "live_ids t s \<subseteq> (\<lambda>(i, k, l). k) ` set ?F"
  proof
    fix k assume "k \<in> live_ids t s"
    then obtain l where l: "map_of (sv_leases s) k = Some l" "lease_active t l"
      by (auto simp: live_ids_def)
    then obtain i where "(i, k, l) \<in> set (enumerate 0 (sv_leases s))"
      using mem_enumerate [OF map_of_SomeD [OF l(1)]] by blast
    moreover have "lease_active (ck (AtCount i)) l"
      using l(2) assms by (rule lease_active_antimono)
    ultimately show "k \<in> (\<lambda>(i, k, l). k) ` set ?F" by force
  qed
  then have "card (live_ids t s) \<le> card (set ?F)"
    by (meson List.finite_set card_image_le card_mono finite_imageI le_trans)
  also have "\<dots> \<le> length ?F" by (rule card_length)
  finally show ?thesis by (simp add: active_count_def)
qed

lemma node_holder_None:
  assumes "node_holder ck node (sv_leases s) = None" "\<And>i. ck (AtNode i) \<le> t"
    "k \<in> live_ids t s"
  shows "lease_node s k \<noteq> node"
proof -
  obtain l where l: "map_of (sv_leases s) k = Some l" "lease_active t l"
    using assms(3) by (auto simp: live_ids_def)
  then obtain i where i: "(i, k, l) \<in> set (enumerate 0 (sv_leases s))"
    using mem_enumerate [OF map_of_SomeD [OF l(1)]] by blast
  have "lease_active (ck (AtNode i)) l"
    using l(2) assms(2) by (rule lease_active_antimono)
  with assms(1) i have "le_NodeName l \<noteq> node"
    by (auto simp: node_holder_def find_None_iff)
  with l show ?thesis by (simp add: lease_node_def)
qed

lemma record_metric_simps [simp]:
  "sv_leases (record_metric m s) = sv_leases s" "sv_config (record_metric m s) = sv_config s"
  "sv_storage (record_metric m s) = sv_storage s"
  by (simp_all add: record_metric_def)

lemma grant_lease_simps [simp]:
  "sv_leases (grant_lease ops e ck l s) = AList.update (le_ID l) l (sv_leases s)"
  "sv_config (grant_lease ops e ck l s) = sv_config s"
  "sv_storage (grant_lease ops e ck l s) = map_option (\<lambda>d. snd (so_SaveLease ops e l d)) (sv_storage s)"
  by (simp_all add: grant_lease_def Let_def)

text \<open>The outcomes of a request: denied with an unchanged lease state, or granted.\<close>

definition approved :: "LeaseResponse APIResponse \<Rightarrow> bool" where
  "approved r \<longleftrightarrow> (\<exists>x. ar_data r = Some x \<and> lr_Approved x)"

lemma requestLease_cases [consumes 1, case_names denied granted]:
  assumes "requestLease ops env parseDur ck ro s = (r, s')"
  obtains "\<not> approved r" "sv_leases s' = sv_leases s" "sv_storage s' = sv_storage s"
      "sv_config s' = sv_config s"
  | req l where "ro = Some req" "l = new_lease parseDur ck req s" "approved r"
      "ar_data r = Some (zero_LeaseResponse\<lparr>lr_LeaseID := le_ID l, lr_Approved := True,
         lr_ExpiresAt := le_ExpiresAt l, lr_Message := LeaseGrantedMessage\<rparr>)"
      "active_count ck (sv_leases s) < cd_MaxConcurrentRemediations (cf_Coordination (sv_config s))"
      "node_holder ck (lq_NodeName req) (sv_leases s) = None"
      "cooldown_denial ops (env 0) ck (lq_NodeName req) s = None"
      "s' = grant_lease ops (env 1) ck l s"
proof -
  have zero: "\<not> lr_Approved zero_LeaseResponse" by (simp add: zero_LeaseResponse_def)
  have cool: "\<not> lr_Approved x" if "cooldown_denial ops (env 0) ck n s = Some x" for n x
    using that zero
    by (auto simp: cooldown_denial_def Let_def split: if_splits option.splits sum.splits)
  show ?thesis
  proof (cases "\<exists>req x. ro = Some req \<and> cooldown_denial ops (env 0) ck (lq_NodeName req) s = Some x")
    case True
    then obtain req x where rx: "ro = Some req" "cooldown_denial ops (env 0) ck (lq_NodeName req) s = Some x"
      by blast
    have "\<not> approved r \<and> sv_leases s' = sv_leases s \<and> sv_storage s' = sv_storage s \<and> sv_config s' = sv_config s"
      using assms zero cool [OF rx(2)] rx
      by (auto simp: requestLease_def Let_def writeError_def writeSuccess_def approved_def
          split: option.splits if_splits)
    then show ?thesis using that(1) by blast
  next
    case False
    then show ?thesis
      using assms zero
      by (auto simp: requestLease_def Let_def writeError_def writeSuccess_def approved_def not_le
          split: option.splits if_splits intro: that)
  qed
qed

section \<open>Runs of the lease server\<close>

text \<open>
  One constructor per entry point that changes the lease state, with the storage environments and
  clock readings of the call. \<open>RestartOp\<close> is a new controller process with the same configuration
  on the same storage.
\<close>

datatype 'e lease_op =
    RequestOp "nat \<Rightarrow> 'e" "lease_site \<Rightarrow> time" "LeaseRequest option"
  | ReleaseOp 'e time string
  | CleanupOp "string \<Rightarrow> 'e" time
  | ReportOp 'e time time "NodeReport option"
  | StorageCleanupOp 'e 'e
  | RestartOp "nat \<Rightarrow> 'e" time bool

fun lease_step ::
  "('e, 'db) storage_ops \<Rightarrow> (string \<Rightarrow> duration option) \<Rightarrow> 'e lease_op \<Rightarrow> 'db Server \<Rightarrow> 'db Server" where
  "lease_step ops parseDur (RequestOp env ck ro) s = snd (requestLease ops env parseDur ck ro s)"
| "lease_step ops parseDur (ReleaseOp e now leaseID) s = snd (releaseLease ops e now leaseID s)"
| "lease_step ops parseDur (CleanupOp env now) s = cleanupExpiredLeases ops env now s"
| "lease_step ops parseDur (ReportOp e now resp ro) s = snd (handleReports ops e now resp POST ro s)"
| "lease_step ops parseDur (StorageCleanupOp e e') s =
     s\<lparr>sv_storage := map_option (\<lambda>d. snd (so_RunCleanup ops e e' d)) (sv_storage s)\<rparr>"
| "lease_step ops parseDur (RestartOp env now recorder) s =
     snd (Server_Start ops env True now
       (SetStorage (sv_storage s) (NewServer now recorder (Some (sv_config s)))))"

text \<open>The readings that decide about leases are not later than \<open>t\<close>.\<close>

fun reads_before :: "time \<Rightarrow> 'e lease_op \<Rightarrow> bool" where
  "reads_before t (RequestOp env ck ro) \<longleftrightarrow> (\<forall>i. ck (AtCount i) \<le> t \<and> ck (AtNode i) \<le> t)"
| "reads_before t (CleanupOp env now) \<longleftrightarrow> now \<le> t"
| "reads_before t _ \<longleftrightarrow> True"

fun is_restart :: "'e lease_op \<Rightarrow> bool" where
  "is_restart (RestartOp env now recorder) = True"
| "is_restart _ = False"

lemma bounded_shrink:
  assumes "leases_bounded t s" "sv_config s' = sv_config s"
    and "\<And>k. k \<in> live_ids t s' \<Longrightarrow> map_of (sv_leases s') k = map_of (sv_leases s) k"
  shows "leases_bounded t s'"
proof -
  have sub: "live_ids t s' \<subseteq> live_ids t s"
    using assms(3) by (fastforce simp: live_ids_def)
  have "lease_node s' k = lease_node s k" if "k \<in> live_ids t s'" for k
    using assms(3) [OF that] by (simp add: lease_node_def)
  then have "inj_on (lease_node s') (live_ids t s')"
    using assms(1) sub by (auto simp: leases_bounded_def inj_on_def subset_iff)
  moreover have "card (live_ids t s') \<le> card (live_ids t s)"
    using sub by (simp add: card_mono)
  ultimately show ?thesis
    using assms(1,2) by (simp add: leases_bounded_def max_leases_def)
qed

lemma bounded_grant:
  assumes "leases_bounded t s"
    and "active_count ck (sv_leases s) < cd_MaxConcurrentRemediations (cf_Coordination (sv_config s))"
    and "node_holder ck (le_NodeName l) (sv_leases s) = None"
    and "\<And>i. ck (AtCount i) \<le> t" "\<And>i. ck (AtNode i) \<le> t"
  shows "leases_bounded t (grant_lease ops e ck l s)"
proof -
  let ?s = "grant_lease ops e ck l s"
  have sub: "live_ids t ?s \<subseteq> insert (le_ID l) (live_ids t s)"
    by (auto simp: live_ids_def split: if_splits)
  have "card (live_ids t ?s) \<le> Suc (card (live_ids t s))"
    using card_mono [OF _ sub] card_insert_le_m1 [of "Suc (card (live_ids t s))" "live_ids t s" "le_ID l"]
    by simp
  moreover have "int (card (live_ids t s)) < cd_MaxConcurrentRemediations (cf_Coordination (sv_config s))"
    using live_ids_counted [of ck t s, OF assms(4)] assms(2) by linarith
  ultimately have "card (live_ids t ?s) \<le> max_leases ?s"
    by (simp add: max_leases_def)
  moreover have "inj_on (lease_node ?s) (live_ids t ?s)"
  proof (rule inj_onI)
    fix k k' assume k: "k \<in> live_ids t ?s" "k' \<in> live_ids t ?s" "lease_node ?s k = lease_node ?s k'"
    have other: "lease_node s j \<noteq> le_NodeName l" if "j \<in> live_ids t ?s" "j \<noteq> le_ID l" for j
      using node_holder_None [OF assms(3) assms(5)] that sub by blast
    have same: "lease_node ?s j = (if j = le_ID l then le_NodeName l else lease_node s j)" for j
      by (simp add: lease_node_def)
    show "k = k'"
      using k other sub assms(1) unfolding leases_bounded_def inj_on_def same
      by (metis (full_types) insertE subsetD)
  qed
  ultimately show ?thesis by (simp add: leases_bounded_def)
qed

lemma bounded_requestLease:
  assumes "leases_bounded t s" "\<And>i. ck (AtCount i) \<le> t" "\<And>i. ck (AtNode i) \<le> t"
  shows "leases_bounded t (snd (requestLease ops env parseDur ck ro s))"
proof (cases "requestLease ops env parseDur ck ro s" rule: prod.exhaust)
  case (Pair r s')
  then show ?thesis
  proof (cases rule: requestLease_cases)
    case denied
    with Pair assms(1) show ?thesis by (simp add: leases_bounded_def live_ids_def lease_node_def
          max_leases_def inj_on_def)
  next
    case (granted req l)
    have "le_NodeName l = lq_NodeName req" by (simp add: granted(2) new_lease_def Let_def)
    with Pair granted assms bounded_grant [of t s ck l ops "env 1"] show ?thesis by simp
  qed
qed

lemma bounded_releaseLease:
  "leases_bounded t s \<Longrightarrow> leases_bounded t (snd (releaseLease ops e now i s))"
  by (rule bounded_shrink [of t s])
    (auto simp: releaseLease_def live_ids_def lease_active_def split: option.splits if_splits)

lemma bounded_expire_lease:
  "leases_bounded t s \<Longrightarrow> leases_bounded t (expire_lease ops env now kl s)"
  by (rule bounded_shrink [of t s])
    (auto simp: expire_lease_def Let_def live_ids_def lease_active_def split: if_splits)

lemma bounded_cleanup:
  "leases_bounded t s \<Longrightarrow> leases_bounded t (cleanupExpiredLeases ops env now s)"
proof -
  have "leases_bounded t s' \<Longrightarrow> leases_bounded t (fold (expire_lease ops env now) kls s')" for kls s'
    by (induction kls arbitrary: s') (auto simp: bounded_expire_lease)
  then show "leases_bounded t s \<Longrightarrow> ?thesis" by (simp add: cleanupExpiredLeases_def)
qed

lemma bounded_handleReports:
  "leases_bounded t s \<Longrightarrow> leases_bounded t (snd (handleReports ops e now resp meth ro s))"
  by (rule bounded_shrink [of t s])
    (auto simp: handleReports_def Let_def live_ids_def record_metric_def split: option.splits)

lemma bounded_step:
  assumes "leases_bounded t s" "reads_before t op" "\<not> is_restart op"
  shows "leases_bounded t (lease_step ops parseDur op s)"
proof (cases op)
  case (StorageCleanupOp e e')
  then show ?thesis
    using assms(1) by (simp add: leases_bounded_def live_ids_def lease_node_def max_leases_def inj_on_def)
qed (use assms in \<open>auto simp: bounded_requestLease bounded_releaseLease bounded_cleanup bounded_handleReports\<close>)

lemma bounded_run:
  "leases_bounded t s \<Longrightarrow> \<forall>op\<in>set opl. reads_before t op \<and> \<not> is_restart op \<Longrightarrow>
   leases_bounded t (fold (lease_step ops parseDur) opl s)"
  by (induction opl arbitrary: s) (auto simp: bounded_step)

section \<open>Memory and storage\<close>

text \<open>Every lease that is live in the storage is live in memory, for the same node.\<close>

definition shadowed ::
  "time \<Rightarrow> (string \<Rightarrow> lease_row option) \<Rightarrow> (string \<Rightarrow> Lease option) \<Rightarrow> bool" where
  "shadowed t R M \<longleftrightarrow> (\<forall>i r. R i = Some r \<and> row_live t r \<longrightarrow>
     (\<exists>l. M i = Some l \<and> lease_active t l \<and> le_NodeName l = lw_node r))"

definition synced ::
  "('db \<Rightarrow> bool) \<Rightarrow> ('db \<Rightarrow> string \<Rightarrow> lease_row option) \<Rightarrow> time \<Rightarrow> 'db Server \<Rightarrow> bool" where
  "synced dbinv row t s \<longleftrightarrow> gomap_ok (sv_leases s) \<and>
     (\<exists>d. sv_storage s = Some d \<and> dbinv d \<and> shadowed t (row d) (map_of (sv_leases s)))"

lemma row_of_lease_live: "row_live t (row_of_lease l) = lease_active t l"
  by (simp add: row_live_def row_of_lease_def lease_active_def)

lemma shadowed_grant: "shadowed t R M \<Longrightarrow> shadowed t (R(i \<mapsto> row_of_lease l)) (M(i \<mapsto> l))"
proof -
  have "lw_node (row_of_lease l) = le_NodeName l" by (simp add: row_of_lease_def)
  then show "shadowed t R M \<Longrightarrow> ?thesis" by (simp add: shadowed_def row_of_lease_live)
qed

lemma shadowed_change:
  assumes "shadowed t R M" "\<And>r. R' i = Some r \<Longrightarrow> \<not> row_live t r"
    and "\<And>j. j \<noteq> i \<Longrightarrow> R' j = R j" "\<And>j. j \<noteq> i \<Longrightarrow> M' j = M j"
  shows "shadowed t R' M'"
  using assms unfolding shadowed_def by metis

text \<open>The storage calls that a restart relies on do not fail.\<close>

fun storage_ok :: "('e \<Rightarrow> bool) \<Rightarrow> ('e \<Rightarrow> time) \<Rightarrow> time \<Rightarrow> 'e lease_op \<Rightarrow> bool" where
  "storage_ok ok now t (RequestOp env ck ro) \<longleftrightarrow> ok (env 1)"
| "storage_ok ok now t (ReleaseOp e n i) \<longleftrightarrow> ok e"
| "storage_ok ok now t (RestartOp env n recorder) \<longleftrightarrow> ok (env 1) \<and> now (env 1) \<le> t"
| "storage_ok ok now t _ \<longleftrightarrow> True"

lemma map_of_fold_leases:
  "distinct (map le_ID ls) \<Longrightarrow>
   map_of (fold (\<lambda>l. AList.update (le_ID l) l) ls m) i =
     (case map_of (map (\<lambda>l. (le_ID l, l)) ls) i of Some l \<Rightarrow> Some l | None \<Rightarrow> map_of m i)"
proof (induction ls arbitrary: m)
  case Nil
  then show ?case by simp
next
  case (Cons x ls)
  have "map_of (map (\<lambda>l. (le_ID l, l)) ls) (le_ID x) = None"
    using Cons.prems by (auto simp: map_of_eq_None_iff)
  with Cons show ?case by (auto split: option.splits)
qed

lemma gomap_ok_fold_leases: "gomap_ok m \<Longrightarrow> gomap_ok (fold (\<lambda>l. AList.update (le_ID l) l) ls m)"
  by (induction ls arbitrary: m) auto

lemma restart_state:
  assumes "sv_storage s = Some d" "so_GetActiveLeases ops (env 1) d = Inr ls"
  shows "sv_leases (lease_step ops parseDur (RestartOp env now recorder) s) = fold (\<lambda>l. AList.update (le_ID l) l) ls []"
    and "sv_config (lease_step ops parseDur (RestartOp env now recorder) s) = sv_config s"
    and "sv_storage (lease_step ops parseDur (RestartOp env now recorder) s) = Some d"
  using assms
  by (auto simp: Server_Start_def SetStorage_def NewServer_def rehydrateFromStorage_def Let_def
      split: option.splits sum.splits)

text \<open>A finished lease row of a node, completed at or after \<open>u\<close>; and the operations that keep the
  row with id \<open>i\<close> so: no new lease takes its id, and storage writes happen at or after \<open>u\<close>.\<close>

definition finished_row :: "time \<Rightarrow> string \<Rightarrow> lease_row option \<Rightarrow> bool" where
  "finished_row u node ro \<longleftrightarrow>
     (case ro of None \<Rightarrow> False
      | Some r \<Rightarrow> row_done node r \<and> (\<exists>c. lw_completed r = Some c \<and> u \<le> c))"

fun keeps_finished :: "('e \<Rightarrow> time) \<Rightarrow> time \<Rightarrow> string \<Rightarrow> 'e lease_op \<Rightarrow> bool" where
  "keeps_finished now u i (RequestOp env ck ro) \<longleftrightarrow>
     (\<forall>req. ro = Some req \<longrightarrow> lease_id (lq_NodeName req) (lq_RemediationType req) (ck AtID) \<noteq> i)"
| "keeps_finished now u i (ReleaseOp e n j) \<longleftrightarrow> u \<le> now e"
| "keeps_finished now u i (CleanupOp env n) \<longleftrightarrow> (\<forall>k. u \<le> now (env k))"
| "keeps_finished now u i _ \<longleftrightarrow> True"

lemma finished_update:
  "finished_row u node ro \<Longrightarrow> u \<le> t \<Longrightarrow> st = ''completed'' \<or> st = ''expired'' \<Longrightarrow>
   finished_row u node (map_option (set_row_status st t) ro)"
  by (auto simp: finished_row_def set_row_status_def row_done_def terminal_status_def split: option.splits)

lemma lease_step_config [simp]: "sv_config (lease_step ops parseDur op s) = sv_config s"
proof (cases op)
  case (RequestOp env ck ro)
  then show ?thesis
    by (cases "requestLease ops env parseDur ck ro s" rule: prod.exhaust)
      (auto elim: requestLease_cases)
next
  case (CleanupOp env n)
  have "sv_config (fold (expire_lease ops env n) kls s') = sv_config s'" for kls s'
    by (induction kls arbitrary: s') (simp_all add: expire_lease_def Let_def)
  with CleanupOp show ?thesis by (simp add: cleanupExpiredLeases_def)
next
  case (RestartOp env n recorder)
  then show ?thesis
    by (auto simp: Server_Start_def SetStorage_def NewServer_def rehydrateFromStorage_def Let_def
        split: option.splits sum.splits)
qed (auto simp: releaseLease_def handleReports_def record_metric_def Let_def split: option.splits)

lemma fold_lease_step_config [simp]: "sv_config (fold (lease_step ops parseDur) opl s) = sv_config s"
  by (induction opl arbitrary: s) (simp_all del: lease_step.simps)

lemma restart_storage [simp]:
  "sv_storage (lease_step ops parseDur (RestartOp env n recorder) s) = sv_storage s"
  by (auto simp: Server_Start_def SetStorage_def NewServer_def rehydrateFromStorage_def Let_def
      split: option.splits sum.splits)

context lease_storage
begin

lemma synced_requestLease:
  assumes "synced inv row t s" "ok (env 1)"
  shows "synced inv row t (snd (requestLease ops env parseDur ck ro s))"
proof (cases "requestLease ops env parseDur ck ro s" rule: prod.exhaust)
  case (Pair r s')
  then show ?thesis
  proof (cases rule: requestLease_cases)
    case denied
    with Pair assms(1) show ?thesis unfolding synced_def by simp
  next
    case (granted req l)
    obtain d where d: "sv_storage s = Some d" "inv d" "shadowed t (row d) (map_of (sv_leases s))"
      "gomap_ok (sv_leases s)"
      using assms(1) by (auto simp: synced_def)
    show ?thesis
      using d Pair granted(8) save_inv [OF d(2)] save_row [OF d(2)] assms(2)
      by (simp add: synced_def shadowed_grant)
  qed
qed

lemma synced_releaseLease:
  assumes "synced inv row t s" "ok e"
  shows "synced inv row t (snd (releaseLease ops e now' i s))"
proof (cases "map_of (sv_leases s) i")
  case None
  with assms(1) show ?thesis by (simp add: releaseLease_def)
next
  case (Some l)
  obtain d where d: "sv_storage s = Some d" "inv d" "shadowed t (row d) (map_of (sv_leases s))"
    "gomap_ok (sv_leases s)"
    using assms(1) by (auto simp: synced_def)
  have "shadowed t ((row d)(i := map_option (set_row_status ''completed'' (now e)) (row d i)))
      ((map_of (sv_leases s))(i \<mapsto> l\<lparr>le_Status := ''completed''\<rparr>))"
    by (rule shadowed_change [OF d(3), of _ i]) (auto simp: row_live_def set_row_status_def)
  then show ?thesis
    using d Some assms(2) update_inv [OF d(2)] update_row [OF d(2), of e i "''completed''"]
    by (simp add: synced_def releaseLease_def)
qed

lemma synced_expire_lease:
  assumes "synced inv row t s" "map_of (sv_leases s) k = Some l" "now' \<le> t"
  shows "synced inv row t (expire_lease ops env now' (k, l) s)"
proof (cases "le_Status l = ''active'' \<and> le_ExpiresAt l < now'")
  case False
  with assms(1) show ?thesis by (auto simp: expire_lease_def)
next
  case True
  obtain d where d: "sv_storage s = Some d" "inv d" "shadowed t (row d) (map_of (sv_leases s))"
    "gomap_ok (sv_leases s)"
    using assms(1) by (auto simp: synced_def)
  have "\<not> lease_active t l"
    using True assms(3) by (simp add: lease_active_def)
  then have "\<not> row_live t r" if "row d k = Some r" for r
    using d(3) assms(2) that unfolding shadowed_def by (metis option.inject)
  then have dead: "\<not> row_live t r" if "row (snd (so_UpdateLeaseStatus ops (env k) k ''expired'' d)) k = Some r" for r
    using that unfolding update_row [OF d(2)]
    by (auto simp: row_live_def set_row_status_def split: if_splits)
  have "shadowed t (row (snd (so_UpdateLeaseStatus ops (env k) k ''expired'' d)))
      ((map_of (sv_leases s))(k \<mapsto> l\<lparr>le_Status := ''expired'', le_CompletedAt := now'\<rparr>))"
    by (rule shadowed_change [OF d(3) dead]) (auto simp: update_row [OF d(2)])
  then show ?thesis
    using d True update_inv [OF d(2)] by (simp add: synced_def expire_lease_def)
qed

lemma synced_cleanup:
  assumes "synced inv row t s" "now' \<le> t"
  shows "synced inv row t (cleanupExpiredLeases ops env now' s)"
proof -
  have "synced inv row t (fold (expire_lease ops env now') kls s')"
    if "synced inv row t s'" "distinct (map fst kls)" "\<forall>x\<in>set kls. map_of (sv_leases s') (fst x) = Some (snd x)"
    for kls s'
    using that
  proof (induction kls arbitrary: s')
    case Nil
    then show ?case by simp
  next
    case (Cons kl kls)
    obtain k l where kl: "kl = (k, l)" by (cases kl)
    have "map_of (sv_leases (expire_lease ops env now' kl s')) k' = map_of (sv_leases s') k'"
      if "k' \<noteq> k" for k'
      using that by (simp add: expire_lease_def Let_def kl)
    moreover have "fst x \<noteq> k" if "x \<in> set kls" for x
      using Cons.prems(2) kl that by auto
    ultimately have "\<forall>x\<in>set kls. map_of (sv_leases (expire_lease ops env now' kl s')) (fst x) = Some (snd x)"
      using Cons.prems(3) by simp
    moreover have "synced inv row t (expire_lease ops env now' kl s')"
      using synced_expire_lease [of t s' k l now' env] Cons.prems(1,3) assms(2) kl by simp
    ultimately show ?case using Cons.IH Cons.prems(2) by simp
  qed
  moreover have "gomap_ok (sv_leases s)" using assms(1) by (simp add: synced_def)
  ultimately show ?thesis
    using assms(1) by (auto simp: cleanupExpiredLeases_def)
qed

lemma synced_storage_cleanup:
  assumes "synced inv row t s"
  shows "synced inv row t (lease_step ops parseDur (StorageCleanupOp e e') s)"
proof -
  obtain d where d: "sv_storage s = Some d" "inv d" "shadowed t (row d) (map_of (sv_leases s))"
    "gomap_ok (sv_leases s)"
    using assms by (auto simp: synced_def)
  have "\<exists>q. row d i = Some q \<and> row_live t q \<and> lw_node r = lw_node q"
    if "row (snd (so_RunCleanup ops e e' d)) i = Some r" "row_live t r" for i r
    using cleanup_row [OF d(2) that(1)] that(2) by (auto simp: row_live_def)
  then have "shadowed t (row (snd (so_RunCleanup ops e e' d))) (map_of (sv_leases s))"
    using d(3) unfolding shadowed_def by metis
  then show ?thesis
    using d cleanup_inv [OF d(2)] by (simp add: synced_def)
qed

lemma restart_live:
  assumes "synced inv row t s" "ok (env 1)" "now (env 1) \<le> t"
  shows "\<exists>d. sv_storage s = Some d \<and> inv d
    \<and> (\<forall>i l. map_of (sv_leases (lease_step ops parseDur (RestartOp env n recorder) s)) i = Some l \<longleftrightarrow>
          (\<exists>r. row d i = Some r \<and> row_live (now (env 1)) r \<and> l = lease_of_row r))
    \<and> gomap_ok (sv_leases (lease_step ops parseDur (RestartOp env n recorder) s))
    \<and> sv_config (lease_step ops parseDur (RestartOp env n recorder) s) = sv_config s
    \<and> sv_storage (lease_step ops parseDur (RestartOp env n recorder) s) = Some d"
proof -
  obtain d where d: "sv_storage s = Some d" "inv d" using assms(1) by (auto simp: synced_def)
  obtain ls where ls: "so_GetActiveLeases ops (env 1) d = Inr ls" "distinct (map le_ID ls)"
    "set ls = lease_of_row ` {r. \<exists>i. row d i = Some r \<and> row_live (now (env 1)) r}"
    using active_rows [OF d(2) assms(2)] by blast
  note st = restart_state [of s d ops env ls parseDur n recorder, OF d(1) ls(1)]
  have "gomap_ok (map (\<lambda>l. (le_ID l, l)) ls)" using ls(2) by (simp add: comp_def)
  then have "map_of (map (\<lambda>l. (le_ID l, l)) ls) i = Some l \<longleftrightarrow> l \<in> set ls \<and> le_ID l = i" for i l
    by auto
  moreover have "map_of (fold (\<lambda>l. AList.update (le_ID l) l) ls []) i = map_of (map (\<lambda>l. (le_ID l, l)) ls) i" for i
    unfolding map_of_fold_leases [OF ls(2)] by (simp split: option.split)
  ultimately have "map_of (sv_leases (lease_step ops parseDur (RestartOp env n recorder) s)) i = Some l \<longleftrightarrow>
      l \<in> set ls \<and> le_ID l = i" for i l
    unfolding st(1) by simp
  moreover have "l \<in> set ls \<and> le_ID l = i \<longleftrightarrow>
      (\<exists>r. row d i = Some r \<and> row_live (now (env 1)) r \<and> l = lease_of_row r)" for i l
    using row_id [OF d(2)] ls(3) by (auto simp: lease_of_row_def image_iff)
  ultimately show ?thesis
    using d st gomap_ok_fold_leases [of "[]" ls] by (intro exI [of _ d]) simp
qed

lemma synced_restart:
  assumes "synced inv row t s" "ok (env 1)" "now (env 1) \<le> t"
  shows "synced inv row t (lease_step ops parseDur (RestartOp env n recorder) s)"
proof -
  obtain d where d: "sv_storage s = Some d \<and> inv d
    \<and> (\<forall>i l. map_of (sv_leases (lease_step ops parseDur (RestartOp env n recorder) s)) i = Some l \<longleftrightarrow>
          (\<exists>r. row d i = Some r \<and> row_live (now (env 1)) r \<and> l = lease_of_row r))
    \<and> gomap_ok (sv_leases (lease_step ops parseDur (RestartOp env n recorder) s))
    \<and> sv_config (lease_step ops parseDur (RestartOp env n recorder) s) = sv_config s
    \<and> sv_storage (lease_step ops parseDur (RestartOp env n recorder) s) = Some d"
    using restart_live [of t s env parseDur n recorder, OF assms] by (rule exE)
  have "row_live (now (env 1)) r" if "row_live t r" for r
    using that assms(3) by (simp add: row_live_def)
  moreover have "lease_active t (lease_of_row r) = row_live t r" "le_NodeName (lease_of_row r) = lw_node r" for r
    by (simp_all add: lease_active_def row_live_def lease_of_row_def)
  ultimately have "shadowed t (row d) (map_of (sv_leases (lease_step ops parseDur (RestartOp env n recorder) s)))"
    unfolding shadowed_def d [THEN conjunct2, THEN conjunct2, THEN conjunct1, rule_format] by blast
  with d show ?thesis unfolding synced_def by (intro conjI exI [of _ d]) auto
qed

lemma bounded_restart:
  assumes "synced inv row t s" "leases_bounded t s" "ok (env 1)" "now (env 1) \<le> t"
  shows "leases_bounded t (lease_step ops parseDur (RestartOp env n recorder) s)" (is "leases_bounded t ?s")
proof -
  obtain d where d: "sv_storage s = Some d \<and> inv d
    \<and> (\<forall>i l. map_of (sv_leases ?s) i = Some l \<longleftrightarrow>
          (\<exists>r. row d i = Some r \<and> row_live (now (env 1)) r \<and> l = lease_of_row r))
    \<and> gomap_ok (sv_leases ?s) \<and> sv_config ?s = sv_config s \<and> sv_storage ?s = Some d"
    using restart_live [of t s env parseDur n recorder, OF assms(1,3,4)] by (rule exE)
  note rows = d [THEN conjunct2, THEN conjunct2, THEN conjunct1, rule_format]
  have cfg: "sv_config ?s = sv_config s" "sv_storage s = Some d" using d by blast+
  have mem: "k \<in> live_ids t s \<and> lease_node ?s k = lease_node s k" if k: "k \<in> live_ids t ?s" for k
  proof -
    obtain l r where l: "map_of (sv_leases ?s) k = Some l" "lease_active t l" "row d k = Some r" "l = lease_of_row r"
      using k unfolding live_ids_def rows by blast
    have "row_live t r" using l by (simp add: lease_active_def row_live_def lease_of_row_def)
    then obtain l' where "map_of (sv_leases s) k = Some l'" "lease_active t l'" "le_NodeName l' = lw_node r"
      using assms(1) cfg(2) l(3) unfolding synced_def shadowed_def by (metis option.inject)
    then show ?thesis
      using l by (simp add: live_ids_def lease_node_def lease_of_row_def)
  qed
  then have sub: "live_ids t ?s \<subseteq> live_ids t s" by blast
  have "inj_on (lease_node ?s) (live_ids t ?s)"
    using mem assms(2) unfolding leases_bounded_def inj_on_def by metis
  moreover have "card (live_ids t ?s) \<le> card (live_ids t s)"
    using card_mono [OF finite_live_ids sub] .
  ultimately show ?thesis
    using assms(2) unfolding leases_bounded_def max_leases_def cfg(1) by linarith
qed

lemma synced_handleReports:
  assumes "synced inv row t s"
  shows "synced inv row t (snd (handleReports ops e now' resp meth ro s))"
proof -
  obtain d where d: "sv_storage s = Some d" "inv d" "shadowed t (row d) (map_of (sv_leases s))"
    "gomap_ok (sv_leases s)"
    using assms by (auto simp: synced_def)
  have rep: "inv (snd (so_SaveNodeReport ops e rep d)) \<and> row (snd (so_SaveNodeReport ops e rep d)) = row d" for rep
    by (rule save_report_row [OF d(2)])
  show ?thesis
    using d rep by (simp add: handleReports_def Let_def synced_def record_metric_def split: option.split)
qed

lemma synced_bounded_step:
  assumes "synced inv row t s" "leases_bounded t s" "reads_before t op" "storage_ok ok now t op"
  shows "synced inv row t (lease_step ops parseDur op s) \<and> leases_bounded t (lease_step ops parseDur op s)"
proof (cases op)
  case (RestartOp env n recorder)
  with assms show ?thesis using synced_restart bounded_restart by simp
next
  case (StorageCleanupOp e e')
  with assms show ?thesis using synced_storage_cleanup bounded_step [of t s op ops parseDur] by simp
qed (use assms bounded_step [of t s op ops parseDur] in
    \<open>simp_all add: synced_requestLease synced_releaseLease synced_cleanup synced_handleReports
      del: lease_step.simps(5,6)\<close>)

text \<open>The bound holds over restarts, as long as the storage does not fail.\<close>

lemma synced_bounded_run:
  "synced inv row t s \<Longrightarrow> leases_bounded t s \<Longrightarrow>
   \<forall>op\<in>set opl. reads_before t op \<and> storage_ok ok now t op \<Longrightarrow>
   leases_bounded t (fold (lease_step ops parseDur) opl s)"
proof (induction opl arbitrary: s)
  case Nil
  then show ?case by simp
next
  case (Cons op opl)
  then show ?case using synced_bounded_step [of t s op parseDur] by simp
qed

text \<open>A finished lease of the node, completed at or after \<open>u\<close>, is in the storage and stays there.\<close>

lemma cooldown_denies:
  assumes "sv_storage s = Some d" "inv d" "finished_row u node (row d i)" "ok (env 0)"
    and "0 < cd_CooldownPeriod (cf_Coordination (sv_config s))"
    and "ck AtCooldown < u + cd_CooldownPeriod (cf_Coordination (sv_config s))" "lq_NodeName req = node"
  shows "\<not> approved (fst (requestLease ops env parseDur ck (Some req) s))"
proof -
  obtain r c where r: "row d i = Some r" "row_done node r" "lw_completed r = Some c" "u \<le> c"
    using assms(3) by (auto simp: finished_row_def split: option.splits)
  obtain lo where lo: "so_GetLastCompletedLease ops (env 0) node d = Inr lo"
    using last_completed_ok [OF assms(2,4)] by blast
  then obtain l where l: "lo = Some l"
    using last_completed_none [OF assms(2) _ r(1)] r(2) by (cases lo) auto
  then have "c \<le> le_CompletedAt l"
    using last_completed_latest [OF assms(2) _ r(1,2,3)] lo by simp
  then have deny: "cooldown_denial ops (env 0) ck node s \<noteq> None"
    using assms(1,5,6) lo l r(4) by (simp add: cooldown_denial_def Let_def)
  obtain resp s' where rs: "requestLease ops env parseDur ck (Some req) s = (resp, s')" by fastforce
  then show ?thesis
  proof (cases rule: requestLease_cases)
    case (granted req' l')
    with deny assms(7) show ?thesis by auto
  qed (simp add: rs)
qed

lemma finished_step:
  assumes "sv_storage s = Some d" "inv d" "finished_row u node (row d i)" "keeps_finished now u i op"
  shows "\<exists>d'. sv_storage (lease_step ops parseDur op s) = Some d' \<and> inv d' \<and> finished_row u node (row d' i)"
proof (cases op)
  case (RequestOp env ck ro)
  obtain resp s' where rs: "requestLease ops env parseDur ck ro s = (resp, s')" by fastforce
  then show ?thesis
  proof (cases rule: requestLease_cases)
    case denied
    with RequestOp rs assms(1-3) show ?thesis by auto
  next
    case (granted req l)
    then have "le_ID l \<noteq> i"
      using assms(4) RequestOp by (simp add: new_lease_def Let_def)
    with RequestOp rs granted assms(1-3) show ?thesis
      using save_inv [OF assms(2)] save_row [OF assms(2)] by simp
  qed
next
  case (ReleaseOp e n j)
  with assms show ?thesis
    using update_inv [OF assms(2)] update_row [OF assms(2), of e j "''completed''"]
    by (auto simp: releaseLease_def finished_update split: option.splits)
next
  case (CleanupOp env n)
  have "\<exists>d'. sv_storage (fold (expire_lease ops env n) kls s') = Some d' \<and> inv d' \<and> finished_row u node (row d' i)"
    if "sv_storage s' = Some d0" "inv d0" "finished_row u node (row d0 i)" for kls s' d0
    using that
  proof (induction kls arbitrary: s' d0)
    case Nil
    then show ?case by simp
  next
    case (Cons kl kls)
    have "\<exists>d'. sv_storage (expire_lease ops env n kl s') = Some d' \<and> inv d' \<and> finished_row u node (row d' i)"
      using Cons.prems update_inv [OF Cons.prems(2)] update_row [OF Cons.prems(2), of "env (fst kl)" "fst kl" "''expired''"]
        assms(4) CleanupOp
      by (auto simp: expire_lease_def Let_def finished_update)
    then show ?case using Cons.IH by auto
  qed
  with CleanupOp assms(1-3) show ?thesis by (simp add: cleanupExpiredLeases_def)
next
  case (ReportOp e n resp ro)
  with assms(1-3) show ?thesis
    using save_report_row [OF assms(2)]
    by (simp add: handleReports_def Let_def record_metric_def split: option.split)
next
  case (StorageCleanupOp e e')
  obtain r where r: "row d i = Some r" "lw_status r \<noteq> ''active''"
    using assms(3) by (auto simp: finished_row_def row_done_def split: option.splits)
  with StorageCleanupOp assms(1-3) show ?thesis
    using cleanup_inv [OF assms(2)] cleanup_keeps [OF assms(2) r] by auto
next
  case (RestartOp env n recorder)
  with assms(1-3) show ?thesis using restart_storage [of ops parseDur env n recorder s] by simp
qed

lemma finished_run:
  "sv_storage s = Some d \<Longrightarrow> inv d \<Longrightarrow> finished_row u node (row d i) \<Longrightarrow>
   \<forall>op\<in>set opl. keeps_finished now u i op \<Longrightarrow>
   \<exists>d'. sv_storage (fold (lease_step ops parseDur) opl s) = Some d' \<and> inv d' \<and> finished_row u node (row d' i)"
proof (induction opl arbitrary: s d)
  case Nil
  then show ?case by simp
next
  case (Cons op opl)
  then obtain d' where "sv_storage (lease_step ops parseDur op s) = Some d'" "inv d'" "finished_row u node (row d' i)"
    using finished_step [of s d u node i op parseDur] by auto
  with Cons show ?case by simp
qed

end

section \<open>Properties\<close>

lemma NewServer_config [simp]: "sv_config (SetStorage db (NewServer now recorder (Some c))) = c"
  by (simp add: SetStorage_def NewServer_def Let_def)

lemma leases_boundedD:
  "leases_bounded t s \<Longrightarrow> int (card (live_ids t s)) \<le> max 0 (cd_MaxConcurrentRemediations (cf_Coordination (sv_config s)))
     \<and> inj_on (lease_node s) (live_ids t s)"
  by (auto simp: leases_bounded_def max_leases_def)

lemma NewServer_bounded: "leases_bounded t (SetStorage db (NewServer now recorder co))"
  by (simp add: leases_bounded_def live_ids_def SetStorage_def NewServer_def Let_def)

definition demo_request :: "string \<Rightarrow> LeaseRequest" where
  "demo_request node = \<lparr>lq_NodeName = node, lq_RemediationType = ''kubelet-restart'',
     lq_RequestedDuration = [], lq_Reason = [], lq_Priority = 0\<rparr>"

definition demo_env :: db_env where
  "demo_env = \<lparr>de_now = (\<lambda>_. 100), de_err = None\<rparr>"

definition demo_lease :: Lease where
  "demo_lease = \<lparr>le_ID = ''L'', le_NodeName = ''n1'', le_RemediationType = ''kubelet-restart'',
     le_GrantedAt = 10, le_ExpiresAt = 90, le_CompletedAt = 0, le_Status = ''active'', le_Reason = []\<rparr>"

definition demo_db :: SQLiteStorage where
  "demo_db = \<lparr>sq_reports = [], sq_nextId = 1, sq_leases = [(''L'', row_of_lease demo_lease)],
     sq_correlations = [], sq_dbPath = [], sq_retention = hour\<rparr>"

definition demo_server :: "SQLiteStorage Server" where
  "demo_server = (SetStorage (Some demo_db) (NewServer 5 False (Some DefaultControllerConfig)))
     \<lparr>sv_leases := [(''L'', demo_lease)]\<rparr>"

text \<open>
  C1. Coordination. Whatever requests, releases, cleanups and reports reach a new server, in any
  order, with any requested durations and whatever its storage answers or fails to do: at every time
  not before the readings made so far there are at most \<^verbatim>\<open>MaxConcurrentRemediations\<close> leases that
  are active and not expired, and no node holds two of them.
\<close>

theorem lease_concurrency_bounded:
  assumes "\<forall>op\<in>set opl. reads_before t op \<and> \<not> is_restart op"
  shows "let s = fold (lease_step ops parseDur) opl (SetStorage db (NewServer now recorder (Some c)))
         in int (card (live_ids t s)) \<le> max 0 (cd_MaxConcurrentRemediations (cf_Coordination c))
            \<and> inj_on (lease_node s) (live_ids t s)"
  using leases_boundedD [OF bounded_run [OF NewServer_bounded assms, of ops parseDur db now recorder "Some c"]]
  unfolding Let_def by simp


theorem lease_concurrency_bounded_witness:
  "let s = fold (lease_step sqlite_ops (\<lambda>_. None))
         [RequestOp (\<lambda>_. demo_env) (\<lambda>_. 100) (Some (demo_request ''n1'')),
          RequestOp (\<lambda>_. demo_env) (\<lambda>_. 100) (Some (demo_request ''n1'')), CleanupOp (\<lambda>_. demo_env) 100]
         (SetStorage None (NewServer 5 False (Some DefaultControllerConfig)))
   in int (card (live_ids 100 s)) \<le> 3 \<and> inj_on (lease_node s) (live_ids 100 s)"
  using lease_concurrency_bounded [of "[RequestOp (\<lambda>_. demo_env) (\<lambda>_. 100) (Some (demo_request ''n1'')),
      RequestOp (\<lambda>_. demo_env) (\<lambda>_. 100) (Some (demo_request ''n1'')), CleanupOp (\<lambda>_. demo_env) 100]"
      100 sqlite_ops "\<lambda>_. None" None 5 False DefaultControllerConfig]
  by (simp add: DefaultControllerConfig_def Let_def del: fold.simps lease_step.simps)

text \<open>
  C2. The bound survives restarts. On a fresh SQLite storage whose lease statements do not fail,
  the same holds when the controller is restarted any number of times in between and the storage's
  own cleanup runs.
\<close>

theorem lease_bound_survives_restarts:
  assumes "NewSQLiteStorage (Some sc) = Inr d"
    and "\<forall>op\<in>set opl. reads_before t op
           \<and> storage_ok (\<lambda>e. de_err e = None) (\<lambda>e. de_now e 0) t op"
  shows "let s = fold (lease_step sqlite_ops parseDur) opl (SetStorage (Some d) (NewServer now recorder (Some c)))
         in int (card (live_ids t s)) \<le> max 0 (cd_MaxConcurrentRemediations (cf_Coordination c))
            \<and> inj_on (lease_node s) (live_ids t s)"
proof -
  have "synced sq_inv (\<lambda>d. map_of (sq_leases d)) t (SetStorage (Some d) (NewServer now recorder (Some c)))"
    using assms(1) by (auto simp: synced_def shadowed_def SetStorage_def NewServer_def
        NewSQLiteStorage_def sq_inv_def Let_def)
  from leases_boundedD [OF sqlite.synced_bounded_run [OF this NewServer_bounded assms(2), of parseDur]]
  show ?thesis unfolding Let_def by simp
qed


theorem lease_bound_survives_restarts_witness:
  "let s = fold (lease_step sqlite_ops (\<lambda>_. None))
         [RequestOp (\<lambda>_. demo_env) (\<lambda>_. 100) (Some (demo_request ''n1'')),
          RestartOp (\<lambda>_. demo_env) 100 False]
         (SetStorage (Some (demo_db\<lparr>sq_leases := []\<rparr>)) (NewServer 5 False (Some DefaultControllerConfig)))
   in int (card (live_ids 100 s)) \<le> 3 \<and> inj_on (lease_node s) (live_ids 100 s)"
  using lease_bound_survives_restarts [of "\<lparr>stc_Path = [], stc_Retention = hour\<rparr>" "demo_db\<lparr>sq_leases := []\<rparr>"
      "[RequestOp (\<lambda>_. demo_env) (\<lambda>_. 100) (Some (demo_request ''n1'')), RestartOp (\<lambda>_. demo_env) 100 False]"
      100 "\<lambda>_. None" 5 False DefaultControllerConfig]
  by (simp add: DefaultControllerConfig_def Let_def demo_env_def demo_db_def NewSQLiteStorage_def
      del: fold.simps lease_step.simps)

text \<open>
  C3. Cooldown. Once a lease of a node is released and the storage has recorded it, no request for
  that node is approved before the cooldown period is over, whatever happens in between, restarts
  included (as long as no other lease is given the same id and the lookup does not fail).
\<close>

theorem released_node_is_cooled_down:
  assumes "sv_storage s = Some d" "sq_inv d" "map_of (sq_leases d) i = Some r"
    and "map_of (sv_leases s) i = Some l" "de_err e = None"
    and "\<forall>op\<in>set opl. keeps_finished (\<lambda>e. de_now e 0) (de_now e 0) i op"
    and "de_err (env 0) = None" "lq_NodeName req = lw_node r"
    and "0 < cd_CooldownPeriod (cf_Coordination (sv_config s))"
    and "ck AtCooldown < de_now e 0 + cd_CooldownPeriod (cf_Coordination (sv_config s))"
  shows "\<not> approved (fst (requestLease sqlite_ops env parseDur ck (Some req)
           (fold (lease_step sqlite_ops parseDur) opl (snd (releaseLease sqlite_ops e now i s)))))"
proof -
  let ?s = "snd (releaseLease sqlite_ops e now i s)"
  let ?d = "snd (UpdateLeaseStatus e i ''completed'' d)"
  have s: "sv_storage ?s = Some ?d" "sv_config ?s = sv_config s"
    using assms(1,4) by (simp_all add: releaseLease_def sqlite_ops_def)
  have "finished_row (de_now e 0) (lw_node r) (map_of (sq_leases ?d) i)"
    using assms(3,5) by (simp add: row_UpdateLeaseStatus finished_row_def row_done_def set_row_status_def
        terminal_status_def)
  from sqlite.finished_run [OF s(1) sq_inv_UpdateLeaseStatus [OF assms(2)] this assms(6)]
  obtain d' where d': "sv_storage (fold (lease_step sqlite_ops parseDur) opl ?s) = Some d'" "sq_inv d'"
    "finished_row (de_now e 0) (lw_node r) (map_of (sq_leases d') i)" by blast
  show ?thesis
    using sqlite.cooldown_denies [of "fold (lease_step sqlite_ops parseDur) opl ?s" d' "de_now e 0"
        "lw_node r" i env ck req parseDur] d' assms(7-10) s(2) by simp
qed


theorem released_node_is_cooled_down_witness:
  "\<not> approved (fst (requestLease sqlite_ops (\<lambda>_. demo_env) (\<lambda>_. None) (\<lambda>_. 200) (Some (demo_request ''n1''))
       (fold (lease_step sqlite_ops (\<lambda>_. None)) [CleanupOp (\<lambda>_. demo_env) 150]
         (snd (releaseLease sqlite_ops demo_env 100 ''L'' demo_server)))))"
  by (rule released_node_is_cooled_down [of demo_server demo_db "''L''" "row_of_lease demo_lease" demo_lease])
    (simp_all add: demo_server_def SetStorage_def NewServer_def demo_db_def sq_inv_def row_of_lease_def
      demo_lease_def demo_env_def demo_request_def DefaultControllerConfig_def Let_def)

text \<open>
  Lease ids are unique: two leases whose ids were stamped at different nanoseconds after 1970
  have different ids, whatever their nodes and remediation types are called.
\<close>

lemma lease_ids_distinct:
  assumes "unix_nano t \<noteq> unix_nano u" "0 \<le> unix_nano t" "0 \<le> unix_nano u"
  shows "lease_id node ty t \<noteq> lease_id node' ty' u"
proof
  assume "lease_id node ty t = lease_id node' ty' u"
  then have "(node @ ''-'' @ ty) @ CHR ''-'' # show_nat (nat (unix_nano t)) =
      (node' @ ''-'' @ ty') @ CHR ''-'' # show_nat (nat (unix_nano u))"
    using assms by (simp add: lease_id_def show_int_def)
  then have "show_nat (nat (unix_nano t)) = show_nat (nat (unix_nano u))"
    using append_sep_inject_last [OF show_nat_no_minus show_nat_no_minus] by blast
  then have "nat (unix_nano t) = nat (unix_nano u)" by (rule show_nat_inject)
  with assms show False by simp
qed


text \<open>
  A lease that runs out starts its cooldown only when a cleanup marks it: a request that comes
  after the expiry and before the cleanup is approved at once, without any cooldown.
\<close>

lemma expired_lease_skips_cooldown_before_cleanup:
  assumes "sv_leases s = [(i, l)]" "sv_storage s = Some d" "sq_leases d = [(i, row_of_lease l)]"
    and "le_Status l = ''active''" "\<And>x. le_ExpiresAt l \<le> ck x"
    and "0 < cd_MaxConcurrentRemediations (cf_Coordination (sv_config s))"
    and "lq_NodeName req \<noteq> []" "lq_RemediationType req \<noteq> []"
  shows "approved (fst (requestLease sqlite_ops env parseDur ck (Some req) s))"
proof -
  have "\<not> lease_active (ck x) l" for x
    using assms(5) [of x] by (simp add: lease_active_def)
  then have none: "active_count ck (sv_leases s) = 0" "node_holder ck node (sv_leases s) = None" for node
    by (simp_all add: active_count_def node_holder_def assms(1))
  have "\<not> row_done node (row_of_lease l)" for node
    by (simp add: row_done_def row_of_lease_def assms(4))
  then have "cooldown_denial sqlite_ops (env 0) ck node s = None" for node
    using assms(2,3)
    by (cases "de_err (env 0)") (auto simp: cooldown_denial_def Let_def sqlite_ops_def GetLastCompletedLease_def)
  with none assms(6-8) show ?thesis
    by (simp add: requestLease_def approved_def writeSuccess_def Let_def)
qed


lemma count_reports:
  "let st' = fold count_report rs st in
   cs_HealthyNodes st' = cs_HealthyNodes st + int (length (filter (\<lambda>(n, r). nr_OverallHealth r = HealthStatusHealthy) rs))
   \<and> cs_DegradedNodes st' = cs_DegradedNodes st + int (length (filter (\<lambda>(n, r). nr_OverallHealth r = HealthStatusDegraded) rs))
   \<and> cs_CriticalNodes st' = cs_CriticalNodes st + int (length (filter (\<lambda>(n, r). nr_OverallHealth r = HealthStatusCritical) rs))
   \<and> cs_HealthyNodes st' + cs_DegradedNodes st' + cs_CriticalNodes st' + cs_UnknownNodes st' =
     cs_HealthyNodes st + cs_DegradedNodes st + cs_CriticalNodes st + cs_UnknownNodes st + int (length rs)
   \<and> cs_TotalNodes st' = cs_TotalNodes st \<and> cs_OverallHealth st' = cs_OverallHealth st
   \<and> cs_NodeSummaries st' = cs_NodeSummaries st @ map (\<lambda>(n, r). node_summary n r) rs"
proof (induction rs arbitrary: st)
  case Nil
  then show ?case by simp
next
  case (Cons x rs)
  from Cons.IH [of "count_report x st"] show ?case
    by (cases x) (auto simp: Let_def count_report_def HealthStatusHealthy_def HealthStatusDegraded_def
        HealthStatusCritical_def)
qed

text \<open>
  The cluster status adds up: every reported node is counted in exactly one health class, there
  is one summary per node, and the overall health is critical if any node is critical, else degraded
  if any is degraded, else unknown for an empty cluster, else healthy.
\<close>

lemma cluster_status_adds_up:
  "let st = buildClusterStatus now s; rs = map snd (sv_nodeReports s) in
   cs_TotalNodes st = int (length rs)
   \<and> cs_HealthyNodes st + cs_DegradedNodes st + cs_CriticalNodes st + cs_UnknownNodes st = cs_TotalNodes st
   \<and> cs_NodeSummaries st = map (\<lambda>(n, r). node_summary n r) (sv_nodeReports s)
   \<and> cs_OverallHealth st =
       (if \<exists>r\<in>set rs. nr_OverallHealth r = HealthStatusCritical then HealthStatusCritical
        else if \<exists>r\<in>set rs. nr_OverallHealth r = HealthStatusDegraded then HealthStatusDegraded
        else if rs = [] then HealthStatusUnknown else HealthStatusHealthy)"
proof -
  let ?st0 = "\<lparr>cs_Timestamp = now, cs_OverallHealth = HealthStatusHealthy,
    cs_TotalNodes = int (length (sv_nodeReports s)), cs_HealthyNodes = 0, cs_DegradedNodes = 0,
    cs_CriticalNodes = 0, cs_UnknownNodes = 0, cs_ActiveProblems = 0, cs_Correlations = 0,
    cs_NodeSummaries = [], cs_RecentProblems = []\<rparr>"
  have pos: "0 < length (filter (\<lambda>(n, r). nr_OverallHealth r = h) rs) \<longleftrightarrow>
      (\<exists>r\<in>set (map snd rs). nr_OverallHealth r = h)" for h and rs :: "(string, NodeReport) gomap"
    by (force simp: filter_empty_conv)
  show ?thesis
    using count_reports [of "sv_nodeReports s" ?st0] pos [of _ "sv_nodeReports s"]
    by (simp add: buildClusterStatus_def Let_def)
qed

text \<open>
  Asking for a correlation that exists neither in memory nor in the database is answered with
  status 200 and a null body instead of 404, because the storage reports neither a row nor an error.
\<close>

lemma unknown_correlation_is_answered_200:
  assumes "sv_storage s = Some d" "sv_correlator s = Some c" "cid \<noteq> []" "de_err e = None"
    and "map_of (cr_active c) cid = None" "map_of (sq_correlations d) cid = None"
  shows "handleCorrelationDetail sqlite_ops e resp GET cid s = writeSuccess resp 200 None"
  using assms
  by (simp add: handleCorrelationDetail_def Correlator_GetCorrelation_def sqlite_ops_def GetCorrelation_def)


end
