(* ===== verification/Config_Types.thy ===== *)
theory Config_Types
  imports Prelude Complex_Main
begin

text \<open>
  The configuration of a node agent, \<^verbatim>\<open>pkg/types/config.go\<close>: monitors with their remediation
  policy, exporters, the remediation limits and the coordination with the controller. A pointer to a
  block is an \<open>option\<close>, a nil map is the empty one. A duration has two fields, as in the code: the
  string of the file and the value parsed from it. \<open>CVMap\<close> is a map with string keys, \<open>CVAnyMap\<close> a
  YAML map with keys of any type.
\<close>

datatype cfg_value =
    CVNil | CVBool bool | CVInt int | CVFloat rat | CVString string
  | CVList "cfg_value list" | CVMap "(string \<times> cfg_value) list"
  | CVAnyMap "(cfg_value \<times> cfg_value) list"

record ConfigMetadata =
  cm_Name :: string
  cm_Namespace :: string
  cm_Labels :: "(string, string) gomap"

record GlobalSettings =
  gs_NodeName :: string
  gs_LogLevel :: string
  gs_LogFormat :: string
  gs_LogOutput :: string
  gs_LogFile :: string
  gs_UpdateIntervalString :: string
  gs_ResyncIntervalString :: string
  gs_HeartbeatIntervalString :: string
  gs_UpdateInterval :: duration
  gs_ResyncInterval :: duration
  gs_HeartbeatInterval :: duration
  gs_DryRunMode :: bool
  gs_Kubeconfig :: string
  gs_QPS :: rat
  gs_Burst :: int

record RemediationPrecondition =
  rp_Type :: string
  rp_Status :: string
  rp_Monitor :: string
  rp_MaxAgeString :: string
  rp_MaxAge :: duration

text \<open>The struct refers to itself through \<^verbatim>\<open>Strategies\<close>, so it is a datatype.\<close>

datatype MonitorRemediationConfig = MonitorRemediationConfig
  (mr_Enabled: bool)
  (mr_Strategy: string)
  (mr_Action: string)
  (mr_Service: string)
  (mr_ScriptPath: string)
  (mr_Interface: string)
  (mr_Args: "string list")
  (mr_Strategies: "MonitorRemediationConfig list")
  (mr_RequireServiceEnabled: bool)
  (mr_TriggerConditions: "string list")
  (mr_MaxAttemptsPerIncident: int)
  (mr_CooldownString: string)
  (mr_Cooldown: duration)
  (mr_Preconditions: "RemediationPrecondition list")

record MonitorConfig =
  mc_Name :: string
  mc_Type :: string
  mc_Enabled :: bool
  mc_IntervalString :: string
  mc_TimeoutString :: string
  mc_Interval :: duration
  mc_Timeout :: duration
  mc_Config :: "(string, cfg_value) gomap"
  mc_Remediation :: "MonitorRemediationConfig option"
  mc_DependsOn :: "string list"

record ConditionConfig =
  ccf_Type :: string
  ccf_DefaultStatus :: string
  ccf_DefaultReason :: string
  ccf_DefaultMessage :: string

record AnnotationConfig =
  an_Key :: string
  an_Value :: string

record EventConfig =
  ec_MaxEventsPerMinute :: int
  ec_EventTTLString :: string
  ec_EventTTL :: duration
  ec_DeduplicationWindowString :: string
  ec_DeduplicationWindow :: duration

record KubernetesExporterConfig =
  ke_Enabled :: bool
  ke_UpdateIntervalString :: string
  ke_ResyncIntervalString :: string
  ke_HeartbeatIntervalString :: string
  ke_ConditionStaleTTLString :: string
  ke_UpdateInterval :: duration
  ke_ResyncInterval :: duration
  ke_HeartbeatInterval :: duration
  ke_ConditionStaleTTL :: duration
  ke_Namespace :: string
  ke_Conditions :: "ConditionConfig list"
  ke_Annotations :: "AnnotationConfig list"
  ke_Events :: EventConfig

record AuthConfig =
  au_Type :: string
  au_Token :: string
  au_Username :: string
  au_Password :: string

record RetryConfig =
  rc_MaxAttempts :: int
  rc_BaseDelayString :: string
  rc_BaseDelay :: duration
  rc_MaxDelayString :: string
  rc_MaxDelay :: duration

record WebhookEndpoint =
  wh_Name :: string
  wh_URL :: string
  wh_Auth :: AuthConfig
  wh_TimeoutString :: string
  wh_Timeout :: duration
  wh_Retry :: "RetryConfig option"
  wh_Headers :: "(string, string) gomap"
  wh_SendStatus :: bool
  wh_SendProblems :: bool

record ControllerWebhookConfig =
  cw_Enabled :: bool
  cw_URL :: string
  cw_IntervalString :: string
  cw_Interval :: duration
  cw_TimeoutString :: string
  cw_Timeout :: duration
  cw_Auth :: AuthConfig
  cw_Headers :: "(string, string) gomap"
  cw_Retry :: "RetryConfig option"

record HTTPExporterConfig =
  he_Enabled :: bool
  he_Webhooks :: "WebhookEndpoint list"
  he_Workers :: int
  he_QueueSize :: int
  he_TimeoutString :: string
  he_Timeout :: duration
  he_Retry :: RetryConfig
  he_Headers :: "(string, string) gomap"
  he_Controller :: "ControllerWebhookConfig option"

record PrometheusExporterConfig =
  pe_Enabled :: bool
  pe_Port :: int
  pe_BindAddress :: string
  pe_Path :: string
  pe_Namespace :: string
  pe_Subsystem :: string
  pe_Labels :: "(string, string) gomap"

record ExporterConfigs =
  ex_Kubernetes :: "KubernetesExporterConfig option"
  ex_HTTP :: "HTTPExporterConfig option"
  ex_Prometheus :: "PrometheusExporterConfig option"

record cfg_CircuitBreaker =
  cbc_Enabled :: "bool option"
  cbc_Threshold :: int
  cbc_TimeoutString :: string
  cbc_Timeout :: duration
  cbc_SuccessThreshold :: int

definition IsDisabled :: "cfg_CircuitBreaker \<Rightarrow> bool" where
  "IsDisabled c \<longleftrightarrow> cbc_Enabled c = Some False"

definition isSet :: "cfg_CircuitBreaker \<Rightarrow> bool" where
  "isSet c =
     (if IsDisabled c then False
      else cbc_Enabled c \<noteq> None \<or> cbc_Threshold c \<noteq> 0 \<or> cbc_TimeoutString c \<noteq> []
        \<or> cbc_SuccessThreshold c \<noteq> 0)"

record RemediationCoordinationConfig =
  rcc_Enabled :: bool
  rcc_ControllerURL :: string
  rcc_LeaseTimeoutString :: string
  rcc_LeaseTimeout :: duration
  rcc_RequestTimeoutString :: string
  rcc_RequestTimeout :: duration
  rcc_FallbackOnUnreachable :: bool
  rcc_MaxRetries :: int
  rcc_RetryIntervalString :: string
  rcc_RetryInterval :: duration

record RemediationConfig =
  rmc_Enabled :: bool
  rmc_DryRun :: bool
  rmc_MaxRemediationsPerHour :: int
  rmc_MaxRemediationsPerMinute :: int
  rmc_CircuitBreaker :: cfg_CircuitBreaker
  rmc_HistorySize :: int
  rmc_Coordination :: "RemediationCoordinationConfig option"

record FeatureFlags =
  ff_EnableProfiling :: bool
  ff_ProfilingPort :: int

record ReloadConfig =
  rl_Enabled :: "bool option"
  rl_DebounceIntervalString :: string
  rl_DebounceInterval :: duration

definition ReloadConfig_IsEnabled :: "ReloadConfig \<Rightarrow> bool" where
  "ReloadConfig_IsEnabled r = (case rl_Enabled r of None \<Rightarrow> True | Some b \<Rightarrow> b)"

record NodeDoctorConfig =
  ndc_APIVersion :: string
  ndc_Kind :: string
  ndc_Metadata :: ConfigMetadata
  ndc_Settings :: GlobalSettings
  ndc_Monitors :: "MonitorConfig list"
  ndc_Exporters :: ExporterConfigs
  ndc_Remediation :: RemediationConfig
  ndc_Features :: FeatureFlags
  ndc_Reload :: ReloadConfig

end
