(* ===== verification/Lease_Client.thy ===== *)
theory Lease_Client
  imports Config_Types Controller_Types
begin

text \<open>
  \<^verbatim>\<open>pkg/remediators/lease_client.go\<close>: the client that asks the controller for a lease before a
  node remediates.

  The HTTP transport is an argument: \<open>send n req\<close> is the outcome of the \<open>n\<close>-th attempt, a failure of the
  round trip or a status with the decoded envelope (\<open>None\<close> when the body is not valid JSON) and its
  text. \<open>ctxErr n\<close> is the context's error after attempt \<open>n\<close>, \<open>waited n\<close> the error of a context that ends
  during the pause after it. \<open>durStr\<close> is \<^verbatim>\<open>Duration.String\<close>. \<open>now\<close> gives the clock readings: site 0
  the request, sites \<open>2 n\<close> and \<open>2 n + 1\<close> those of attempt \<open>n\<close>.
\<close>

section \<open>Definitions\<close>

record LeaseClientStats =
  ls_LeaseRequests :: int
  ls_LeasesGranted :: int
  ls_LeasesDenied :: int
  ls_LeaseReleases :: int
  ls_ControllerErrors :: int
  ls_LastRequestTime :: time
  ls_LastSuccessTime :: time
  ls_LastError :: string
  ls_LastErrorTime :: time
  ls_FallbacksUsed :: int

record LeaseClient =
  lc_config :: RemediationCoordinationConfig
  lc_nodeName :: string
  lc_activeLease :: "Lease option"
  lc_stats :: LeaseClientStats

datatype lease_client_error =
    LCConfigNil | LCDisabled | LCNoURL | LCNoNode
  | LCContext string
  | LCUnreachable int "string option"

definition zero_lease_stats :: LeaseClientStats where
  "zero_lease_stats = \<lparr>ls_LeaseRequests = 0, ls_LeasesGranted = 0, ls_LeasesDenied = 0,
     ls_LeaseReleases = 0, ls_ControllerErrors = 0, ls_LastRequestTime = 0, ls_LastSuccessTime = 0,
     ls_LastError = [], ls_LastErrorTime = 0, ls_FallbacksUsed = 0\<rparr>"

definition NewLeaseClient ::
  "RemediationCoordinationConfig option \<Rightarrow> string \<Rightarrow> lease_client_error + LeaseClient" where
  "NewLeaseClient co node =
     (case co of None \<Rightarrow> Inl LCConfigNil
      | Some c \<Rightarrow>
          if \<not> rcc_Enabled c then Inl LCDisabled
          else if rcc_ControllerURL c = [] then Inl LCNoURL
          else if node = [] then Inl LCNoNode
          else Inr \<lparr>lc_config = c, lc_nodeName = node, lc_activeLease = None, lc_stats = zero_lease_stats\<rparr>)"

definition upd_stats :: "(LeaseClientStats \<Rightarrow> LeaseClientStats) \<Rightarrow> LeaseClient \<Rightarrow> LeaseClient" where
  "upd_stats f lc = lc\<lparr>lc_stats := f (lc_stats lc)\<rparr>"

definition recordRequestAttempt :: "time \<Rightarrow> LeaseClient \<Rightarrow> LeaseClient" where
  "recordRequestAttempt now =
     upd_stats (\<lambda>s. s\<lparr>ls_LeaseRequests := ls_LeaseRequests s + 1, ls_LastRequestTime := now\<rparr>)"

definition recordSuccess :: "time \<Rightarrow> LeaseClient \<Rightarrow> LeaseClient" where
  "recordSuccess now = upd_stats (\<lambda>s. s\<lparr>ls_LastSuccessTime := now\<rparr>)"

definition recordError :: "time \<Rightarrow> string \<Rightarrow> LeaseClient \<Rightarrow> LeaseClient" where
  "recordError now err = upd_stats (\<lambda>s. s\<lparr>ls_LastError := err, ls_LastErrorTime := now\<rparr>)"

definition recordControllerError :: "LeaseClient \<Rightarrow> LeaseClient" where
  "recordControllerError = upd_stats (\<lambda>s. s\<lparr>ls_ControllerErrors := ls_ControllerErrors s + 1\<rparr>)"

definition recordLeaseGranted :: "LeaseClient \<Rightarrow> LeaseClient" where
  "recordLeaseGranted = upd_stats (\<lambda>s. s\<lparr>ls_LeasesGranted := ls_LeasesGranted s + 1\<rparr>)"

definition recordLeaseDenied :: "LeaseClient \<Rightarrow> LeaseClient" where
  "recordLeaseDenied = upd_stats (\<lambda>s. s\<lparr>ls_LeasesDenied := ls_LeasesDenied s + 1\<rparr>)"

definition recordLeaseRelease :: "LeaseClient \<Rightarrow> LeaseClient" where
  "recordLeaseRelease = upd_stats (\<lambda>s. s\<lparr>ls_LeaseReleases := ls_LeaseReleases s + 1\<rparr>)"

definition recordFallbackUsed :: "LeaseClient \<Rightarrow> LeaseClient" where
  "recordFallbackUsed = upd_stats (\<lambda>s. s\<lparr>ls_FallbacksUsed := ls_FallbacksUsed s + 1\<rparr>)"

definition setActiveLease :: "Lease \<Rightarrow> LeaseClient \<Rightarrow> LeaseClient" where
  "setActiveLease l lc = lc\<lparr>lc_activeLease := Some l\<rparr>"

definition clearActiveLease :: "LeaseClient \<Rightarrow> LeaseClient" where
  "clearActiveLease lc = lc\<lparr>lc_activeLease := None\<rparr>"

datatype transport = RoundTripFailed string | HttpReply int "LeaseResponse option" string

text \<open>The answer by status code: an approved or denied lease, or an error to retry on.\<close>

definition sendLeaseRequest :: "transport \<Rightarrow> string + LeaseResponse" where
  "sendLeaseRequest tr =
     (case tr of
        RoundTripFailed e \<Rightarrow> Inl (''request failed: '' @ e)
      | HttpReply status decoded body \<Rightarrow>
          if status = 200 \<or> status = 201 then
            (case decoded of Some r \<Rightarrow> Inr r | None \<Rightarrow> Inl ''failed to unmarshal response'')
          else if status = 429 then
            Inr (case decoded of Some r \<Rightarrow> r
                 | None \<Rightarrow> zero_LeaseResponse\<lparr>lr_Message := LeaseText ''Too many concurrent remediations''\<rparr>)
          else if status = 409 then
            Inr (case decoded of Some r \<Rightarrow> r
                 | None \<Rightarrow> zero_LeaseResponse\<lparr>lr_Message := LeaseText ''Node already has an active lease''\<rparr>)
          else if status = 400 then Inl (''bad request: '' @ body)
          else if status = 500 then Inl (''controller error: '' @ body)
          else Inl (''unexpected status '' @ show_int status @ '': '' @ body))"

record lease_env =
  lv_send :: "nat \<Rightarrow> LeaseRequest \<Rightarrow> transport"
  lv_ctxErr :: "nat \<Rightarrow> string option"
  lv_waited :: "nat \<Rightarrow> string option"
  lv_now :: "nat \<Rightarrow> time"
  lv_durStr :: "duration \<Rightarrow> string"

datatype attempts_result = GotResponse LeaseResponse | WaitCancelled string | NoResponse "string option"

text \<open>The retry loop with \<open>k\<close> attempts left, the next one being number \<open>n\<close>.\<close>

fun lease_attempts ::
  "lease_env \<Rightarrow> LeaseRequest \<Rightarrow> nat \<Rightarrow> nat \<Rightarrow> string option \<Rightarrow> LeaseClient \<Rightarrow> attempts_result \<times> LeaseClient" where
  "lease_attempts v req 0 n lastErr lc = (NoResponse lastErr, lc)"
| "lease_attempts v req (Suc k) n lastErr lc =
     (case sendLeaseRequest (lv_send v n req) of
        Inr resp \<Rightarrow>
          let lc1 = recordSuccess (lv_now v (2 * n)) lc
          in (GotResponse resp,
              if lr_Approved resp then
                setActiveLease \<lparr>le_ID = lr_LeaseID resp, le_NodeName = lc_nodeName lc,
                    le_RemediationType = lq_RemediationType req, le_GrantedAt = lv_now v (2 * n + 1),
                    le_ExpiresAt = lr_ExpiresAt resp, le_CompletedAt = 0, le_Status = ''active'',
                    le_Reason = lq_Reason req\<rparr> (recordLeaseGranted lc1)
              else recordLeaseDenied lc1)
      | Inl err \<Rightarrow>
          let lc1 = recordError (lv_now v (2 * n)) err lc
          in if lv_ctxErr v n \<noteq> None then (NoResponse (Some err), lc1)
             else if k = 0 then (NoResponse (Some err), lc1)
             else case lv_waited v n of
                    Some e \<Rightarrow> (WaitCancelled e, lc1)
                  | None \<Rightarrow> lease_attempts v req k (n + 1) (Some err) lc1)"

definition RequestLease ::
  "lease_env \<Rightarrow> string \<Rightarrow> string \<Rightarrow> LeaseClient \<Rightarrow> (lease_client_error + LeaseResponse) \<times> LeaseClient" where
  "RequestLease v remediationType reason lc =
     (let lc0 = recordRequestAttempt (lv_now v 0) lc;
          c = lc_config lc;
          req = \<lparr>lq_NodeName = lc_nodeName lc, lq_RemediationType = remediationType,
                 lq_RequestedDuration = lv_durStr v (rcc_LeaseTimeout c), lq_Reason = reason,
                 lq_Priority = 0\<rparr>
      in case lease_attempts v req (nat (rcc_MaxRetries c)) 1 None lc0 of
           (GotResponse resp, lc1) \<Rightarrow> (Inr resp, lc1)
         | (WaitCancelled e, lc1) \<Rightarrow> (Inl (LCContext e), lc1)
         | (NoResponse lastErr, lc1) \<Rightarrow>
             let lc2 = recordControllerError lc1
             in if rcc_FallbackOnUnreachable c then
                  (Inr (zero_LeaseResponse\<lparr>lr_Approved := True, lr_Message :=
                     LeaseText ''Fallback: controller unreachable, proceeding with remediation''\<rparr>),
                   recordFallbackUsed lc2)
                else (Inl (LCUnreachable (rcc_MaxRetries c) lastErr), lc2))"

text \<open>Releasing never fails towards the caller; \<open>reply\<close> is the status of the answer, \<open>None\<close> when the
  round trip failed.\<close>

definition ReleaseLease :: "int option \<Rightarrow> string \<Rightarrow> LeaseClient \<Rightarrow> LeaseClient" where
  "ReleaseLease reply leaseID lc =
     (if leaseID = [] then lc
      else case reply of None \<Rightarrow> lc
           | Some status \<Rightarrow> if 200 \<le> status \<and> status < 300 then clearActiveLease (recordLeaseRelease lc) else lc)"

definition ReleaseActiveLease :: "int option \<Rightarrow> LeaseClient \<Rightarrow> LeaseClient" where
  "ReleaseActiveLease reply lc =
     (case lc_activeLease lc of None \<Rightarrow> lc | Some l \<Rightarrow> ReleaseLease reply (le_ID l) lc)"

definition HasActiveLease :: "time \<Rightarrow> LeaseClient \<Rightarrow> bool" where
  "HasActiveLease now lc =
     (case lc_activeLease lc of None \<Rightarrow> False | Some l \<Rightarrow> \<not> le_ExpiresAt l < now)"

definition GetActiveLease :: "LeaseClient \<Rightarrow> Lease option" where
  "GetActiveLease lc = lc_activeLease lc"

definition LeaseClient_GetStats :: "LeaseClient \<Rightarrow> LeaseClientStats" where
  "LeaseClient_GetStats lc = lc_stats lc"

text \<open>\<open>fl\<close> rounds the quotient to a \<^verbatim>\<open>float64\<close>.\<close>

definition LeaseClient_IsHealthy :: "(rat \<Rightarrow> float64) \<Rightarrow> LeaseClient \<Rightarrow> bool" where
  "LeaseClient_IsHealthy fl lc =
     (let s = lc_stats lc in
      if ls_LeaseRequests s = 0 then True
      else if 5 < ls_LeaseRequests s
        \<and> 1 / 2 < fl (of_int (ls_ControllerErrors s) / of_int (ls_LeaseRequests s)) then False
      else True)"

section \<open>Lemmas\<close>

lemmas record_defs = recordRequestAttempt_def recordSuccess_def recordError_def
  recordControllerError_def recordLeaseGranted_def recordLeaseDenied_def recordLeaseRelease_def
  recordFallbackUsed_def setActiveLease_def clearActiveLease_def upd_stats_def

text \<open>The request the client sends.\<close>

definition lease_request :: "lease_env \<Rightarrow> string \<Rightarrow> string \<Rightarrow> LeaseClient \<Rightarrow> LeaseRequest" where
  "lease_request v rt reason lc =
     \<lparr>lq_NodeName = lc_nodeName lc, lq_RemediationType = rt,
      lq_RequestedDuration = lv_durStr v (rcc_LeaseTimeout (lc_config lc)), lq_Reason = reason,
      lq_Priority = 0\<rparr>"

lemma RequestLease_alt:
  "RequestLease v rt reason lc =
     (case lease_attempts v (lease_request v rt reason lc) (nat (rcc_MaxRetries (lc_config lc))) 1 None
             (recordRequestAttempt (lv_now v 0) lc) of
        (GotResponse resp, lc1) \<Rightarrow> (Inr resp, lc1)
      | (WaitCancelled e, lc1) \<Rightarrow> (Inl (LCContext e), lc1)
      | (NoResponse lastErr, lc1) \<Rightarrow>
          if rcc_FallbackOnUnreachable (lc_config lc) then
            (Inr (zero_LeaseResponse\<lparr>lr_Approved := True, lr_Message :=
               LeaseText ''Fallback: controller unreachable, proceeding with remediation''\<rparr>),
             recordFallbackUsed (recordControllerError lc1))
          else (Inl (LCUnreachable (rcc_MaxRetries (lc_config lc)) lastErr), recordControllerError lc1))"
  unfolding RequestLease_def lease_request_def Let_def by (rule refl)

lemma lease_attempts_response:
  assumes "lease_attempts v req k n le lc = (GotResponse resp, lc')"
  shows "\<exists>m. n \<le> m \<and> m < n + k \<and> sendLeaseRequest (lv_send v m req) = Inr resp
    \<and> (\<forall>j. n \<le> j \<and> j < m \<longrightarrow> (\<exists>e. sendLeaseRequest (lv_send v j req) = Inl e))
    \<and> (lr_Approved resp \<longrightarrow> (\<exists>l. lc_activeLease lc' = Some l \<and> le_ID l = lr_LeaseID resp
         \<and> le_NodeName l = lc_nodeName lc \<and> le_ExpiresAt l = lr_ExpiresAt resp \<and> le_Status l = ''active''))
    \<and> (\<not> lr_Approved resp \<longrightarrow> lc_activeLease lc' = lc_activeLease lc)"
  using assms
proof (induction v req k n le lc rule: lease_attempts.induct)
  case (1 v req n le lc)
  then show ?case by simp
next
  case (2 v req k n le lc)
  show ?case
  proof (cases "sendLeaseRequest (lv_send v n req)")
    case (Inr r)
    with 2(2) show ?thesis
      by (intro exI [of _ n]) (auto simp: Let_def record_defs split: if_splits)
  next
    case (Inl err)
    let ?lc = "recordError (lv_now v (2 * n)) err lc"
    have same: "lc_activeLease ?lc = lc_activeLease lc" "lc_nodeName ?lc = lc_nodeName lc"
      by (simp_all add: record_defs)
    from Inl 2(2) have c: "lv_ctxErr v n = None" "k \<noteq> 0" "lv_waited v n = None"
      "lease_attempts v req k (n + 1) (Some err) ?lc = (GotResponse resp, lc')"
      by (auto simp: Let_def split: if_splits option.splits)
    from 2(1) [OF Inl refl] c obtain m where
      m: "n + 1 \<le> m" "m < n + 1 + k" "sendLeaseRequest (lv_send v m req) = Inr resp"
      "\<forall>j. n + 1 \<le> j \<and> j < m \<longrightarrow> (\<exists>e. sendLeaseRequest (lv_send v j req) = Inl e)"
      "lr_Approved resp \<longrightarrow> (\<exists>l. lc_activeLease lc' = Some l \<and> le_ID l = lr_LeaseID resp
         \<and> le_NodeName l = lc_nodeName lc \<and> le_ExpiresAt l = lr_ExpiresAt resp \<and> le_Status l = ''active'')"
      "\<not> lr_Approved resp \<longrightarrow> lc_activeLease lc' = lc_activeLease lc"
      unfolding same by blast
    moreover have "\<exists>e. sendLeaseRequest (lv_send v j req) = Inl e" if "n \<le> j" "j < m" for j
      using that m(4) Inl by (cases "j = n") auto
    ultimately show ?thesis by (intro exI [of _ m]) auto
  qed
qed

lemma lease_attempts_stats:
  assumes "lease_attempts v req k n le lc = (r, lc')"
  shows "ls_LeaseRequests (lc_stats lc') = ls_LeaseRequests (lc_stats lc)
    \<and> ls_ControllerErrors (lc_stats lc') = ls_ControllerErrors (lc_stats lc)
    \<and> ls_FallbacksUsed (lc_stats lc') = ls_FallbacksUsed (lc_stats lc)
    \<and> ls_LeasesGranted (lc_stats lc') + ls_LeasesDenied (lc_stats lc') =
        ls_LeasesGranted (lc_stats lc) + ls_LeasesDenied (lc_stats lc)
          + (case r of GotResponse _ \<Rightarrow> 1 | _ \<Rightarrow> 0)
    \<and> lc_config lc' = lc_config lc \<and> lc_nodeName lc' = lc_nodeName lc"
  using assms
proof (induction v req k n le lc rule: lease_attempts.induct)
  case (1 v req n le lc)
  then show ?case by auto
next
  case (2 v req k n le lc)
  show ?case
  proof (cases "sendLeaseRequest (lv_send v n req)")
    case (Inr resp)
    with 2(2) show ?thesis by (auto simp: Let_def record_defs)
  next
    case (Inl err)
    from 2(1) [OF Inl refl] 2(2) Inl show ?thesis
      by (auto simp: Let_def record_defs split: if_splits option.splits)
  qed
qed

lemma sendLeaseRequest_fallback_id: "lr_LeaseID zero_LeaseResponse = []"
  by (simp add: zero_LeaseResponse_def)

text \<open>Requests, their answers and the errors are counted consistently.\<close>

definition lease_stats_ok :: "LeaseClient \<Rightarrow> bool" where
  "lease_stats_ok lc \<longleftrightarrow> (let s = lc_stats lc in
     0 \<le> ls_FallbacksUsed s \<and> ls_FallbacksUsed s \<le> ls_ControllerErrors s
     \<and> ls_LeasesGranted s + ls_LeasesDenied s + ls_ControllerErrors s \<le> ls_LeaseRequests s)"

lemma RequestLease_stats_ok:
  assumes "lease_stats_ok lc"
  shows "lease_stats_ok (snd (RequestLease v rt reason lc))"
proof -
  obtain r lc1 where r: "lease_attempts v (lease_request v rt reason lc)
      (nat (rcc_MaxRetries (lc_config lc))) 1 None (recordRequestAttempt (lv_now v 0) lc) = (r, lc1)"
    by fastforce
  from lease_attempts_stats [OF r] assms show ?thesis
    unfolding RequestLease_alt r by (cases r) (auto simp: lease_stats_ok_def Let_def record_defs)
qed

lemma ReleaseLease_stats_ok: "lease_stats_ok lc \<Longrightarrow> lease_stats_ok (ReleaseLease reply i lc)"
  by (auto simp: ReleaseLease_def lease_stats_ok_def record_defs Let_def split: option.splits)

datatype client_op = ClientRequest lease_env string string | ClientRelease "int option" string

fun client_step :: "client_op \<Rightarrow> LeaseClient \<Rightarrow> LeaseClient" where
  "client_step (ClientRequest v rt reason) lc = snd (RequestLease v rt reason lc)"
| "client_step (ClientRelease reply leaseID) lc = ReleaseLease reply leaseID lc"

section \<open>Properties\<close>

text \<open>
  Without the fallback a lease is only held when the controller granted it: an approved answer
  is the controller's answer to one of at most \<^verbatim>\<open>MaxRetries\<close> attempts, all earlier attempts
  failed, and the client records exactly that lease as its active one.
\<close>

lemma lease_approval_comes_from_controller:
  assumes "RequestLease v rt reason lc = (Inr resp, lc')" "lr_Approved resp"
    and "\<not> rcc_FallbackOnUnreachable (lc_config lc)"
  shows "\<exists>n. 1 \<le> n \<and> int n \<le> rcc_MaxRetries (lc_config lc)
    \<and> sendLeaseRequest (lv_send v n (lease_request v rt reason lc)) = Inr resp
    \<and> (\<forall>m. 1 \<le> m \<and> m < n \<longrightarrow> (\<exists>e. sendLeaseRequest (lv_send v m (lease_request v rt reason lc)) = Inl e))
    \<and> (\<exists>l. lc_activeLease lc' = Some l \<and> le_ID l = lr_LeaseID resp \<and> le_NodeName l = lc_nodeName lc
         \<and> le_ExpiresAt l = lr_ExpiresAt resp \<and> le_Status l = ''active'')"
proof -
  obtain r lc1 where r: "lease_attempts v (lease_request v rt reason lc)
      (nat (rcc_MaxRetries (lc_config lc))) 1 None (recordRequestAttempt (lv_now v 0) lc) = (r, lc1)"
    by fastforce
  have "r = GotResponse resp" "lc1 = lc'"
    using assms(1,3) unfolding RequestLease_alt r by (auto split: attempts_result.splits)
  from lease_attempts_response [OF r [unfolded this]] assms(2) show ?thesis
    by (auto simp: record_defs)
qed

text \<open>
  The statistics of the client add up after any sequence of requests and releases: every
  request is counted once as granted, denied or as a controller error, or was cancelled, and a
  fallback only happens on a controller error.
\<close>

lemma lease_client_stats_consistent:
  assumes "NewLeaseClient co node = Inr lc"
  shows "lease_stats_ok (fold client_step ops lc)"
proof -
  have "lease_stats_ok lc"
    using assms by (auto simp: NewLeaseClient_def lease_stats_ok_def zero_lease_stats_def
        split: option.splits if_splits)
  then show ?thesis
  proof (induction ops arbitrary: lc)
    case (Cons op ops)
    then show ?case by (cases op) (auto simp: RequestLease_stats_ok ReleaseLease_stats_ok)
  qed simp
qed

definition demo_coordination :: RemediationCoordinationConfig where
  "demo_coordination = \<lparr>rcc_Enabled = True, rcc_ControllerURL = ''http://controller'',
     rcc_LeaseTimeoutString = ''5m'', rcc_LeaseTimeout = 5 * minute,
     rcc_RequestTimeoutString = ''10s'', rcc_RequestTimeout = 10 * second,
     rcc_FallbackOnUnreachable = False, rcc_MaxRetries = 3,
     rcc_RetryIntervalString = ''1s'', rcc_RetryInterval = second\<rparr>"

definition demo_client :: LeaseClient where
  "demo_client = \<lparr>lc_config = demo_coordination, lc_nodeName = ''n1'', lc_activeLease = None,
     lc_stats = zero_lease_stats\<rparr>"

definition demo_lease_env :: lease_env where
  "demo_lease_env = \<lparr>lv_send = (\<lambda>n req. if n = 1 then RoundTripFailed ''timeout''
       else HttpReply 200 (Some (zero_LeaseResponse\<lparr>lr_LeaseID := ''L'', lr_Approved := True,
         lr_ExpiresAt := 99\<rparr>)) []),
     lv_ctxErr = (\<lambda>_. None), lv_waited = (\<lambda>_. None), lv_now = int, lv_durStr = (\<lambda>_. ''5m0s'')\<rparr>"

end
