(* ===== verification/Remediator_Registry.thy ===== *)
theory Remediator_Registry
  imports Types Base_Remediator Circuit_Breaker Lease_Client "HOL-Library.List_Lexorder" "HOL-Library.Char_ord"
begin

text \<open>
  \<^verbatim>\<open>pkg/remediators/registry.go\<close>: the registry every remediation passes through, with its circuit
  breaker, rate limits, controller lease, history and dry-run mode.

  What the registry calls but does not define is an argument: the remediator instances through
  \<open>remediator_ops\<close> (their \<^verbatim>\<open>CanRemediate\<close> and \<^verbatim>\<open>Remediate\<close>), the token bucket of
  \<^verbatim>\<open>golang.org/x/time/rate\<close> through \<open>allow\<close> and \<open>newLimiter\<close>, the controller through the lease
  client's environment. \<open>ck\<close> gives the clock reading at each site of a call. The states pushed to the
  circuit observer and the Kubernetes events are appended to \<open>rg_observed\<close> and \<open>rg_events\<close>.
\<close>

section \<open>Definitions\<close>

datatype CircuitBreakerState = CircuitClosed | CircuitOpen | CircuitHalfOpen | CircuitInvalid int

definition CircuitBreakerState_String :: "CircuitBreakerState \<Rightarrow> string" where
  "CircuitBreakerState_String s =
     (case s of CircuitClosed \<Rightarrow> ''Closed'' | CircuitOpen \<Rightarrow> ''Open''
      | CircuitHalfOpen \<Rightarrow> ''HalfOpen'' | CircuitInvalid _ \<Rightarrow> ''Unknown'')"

definition circuit_code :: "CircuitBreakerState \<Rightarrow> int" where
  "circuit_code s =
     (case s of CircuitClosed \<Rightarrow> 0 | CircuitOpen \<Rightarrow> 1 | CircuitHalfOpen \<Rightarrow> 2 | CircuitInvalid i \<Rightarrow> i)"

datatype 'i factory_result = Created 'i | FactoryError string | FactoryPanic string

record 'i remediator_ops =
  ro_CanRemediate :: "time \<Rightarrow> problem \<Rightarrow> 'i \<Rightarrow> bool"
  ro_Remediate :: "time \<Rightarrow> problem \<Rightarrow> 'i \<Rightarrow> call_result \<times> 'i"

record 'i RemediatorInfo =
  ri_Type :: string
  ri_Factory :: "(time \<Rightarrow> 'i factory_result) option"
  ri_Validator :: "('i \<Rightarrow> string option) option"
  ri_Description :: string

datatype reg_error =
    CircuitIsOpen duration duration
  | CircuitStateUnknown CircuitBreakerState
  | HourLimitExceeded int int
  | MinuteLimitExceeded int
  | LeaseRequestFailed lease_client_error
  | LeaseDeniedBy lease_message
  | UnknownRemediator string "string list"
  | CreateFailed string string
  | FactoryPanicked string string
  | ValidationFailed string string
  | CannotRemediate string string
  | RemediationPanic string
  | RemediatorError string
  | RemediationFailedWith reg_error
  | NoStrategies
  | AllStrategiesFailed int reg_error
  | BadThreshold int | BadTimeout duration | BadSuccessThreshold int
  | RegConfigNil | ApplyCircuitBreaker reg_error

record RemediationRecord =
  rr_RemediatorType :: string
  rr_Problem :: problem
  rr_StartTime :: time
  rr_EndTime :: time
  rr_Duration :: duration
  rr_Success :: bool
  rr_Error :: "reg_error option"

record RegCircuitConfig =
  rgc_Threshold :: int
  rgc_Timeout :: duration
  rgc_SuccessThreshold :: int
  rgc_Disabled :: bool

record rem_k8s_event =
  rke_Name :: string
  rke_Namespace :: string
  rke_Node :: string
  rke_Reason :: string
  rke_Type :: string
  rke_Record :: RemediationRecord

record ('i, 'b) RemediatorRegistry =
  rg_remediators :: "(string, 'i RemediatorInfo) gomap"
  rg_instances :: "(string, 'i) gomap"
  rg_circuitState :: CircuitBreakerState
  rg_circuitConfig :: RegCircuitConfig
  rg_consecutiveFailures :: int
  rg_consecutiveSuccesses :: int
  rg_circuitOpenedAt :: time
  rg_circuitLastStateChange :: time
  rg_remediationTimes :: "time list"
  rg_maxPerHour :: int
  rg_rateLimitWindow :: duration
  rg_perMinuteBucket :: "'b option"
  rg_maxPerMinute :: int
  rg_history :: "RemediationRecord list"
  rg_maxHistory :: int
  rg_dryRun :: bool
  rg_hasEventCreator :: bool
  rg_nodeName :: string
  rg_leaseClient :: "LeaseClient option"
  rg_hasObserver :: bool
  rg_observed :: "int list"
  rg_events :: "rem_k8s_event list"

definition DefaultCircuitBreakerConfig :: RegCircuitConfig where
  "DefaultCircuitBreakerConfig = \<lparr>rgc_Threshold = 5, rgc_Timeout = 5 * minute,
     rgc_SuccessThreshold = 2, rgc_Disabled = False\<rparr>"

definition NewRegistry :: "int \<Rightarrow> int \<Rightarrow> ('i, 'b) RemediatorRegistry" where
  "NewRegistry maxPerHour maxHistory =
     (let h1 = (if maxHistory < 0 then 0 else maxHistory);
          h2 = (if h1 > 10000 then 10000 else h1);
          m = (if maxPerHour < 0 then 0 else maxPerHour)
      in \<lparr>rg_remediators = [], rg_instances = [], rg_circuitState = CircuitClosed,
          rg_circuitConfig = DefaultCircuitBreakerConfig, rg_consecutiveFailures = 0,
          rg_consecutiveSuccesses = 0, rg_circuitOpenedAt = 0, rg_circuitLastStateChange = 0,
          rg_remediationTimes = [], rg_maxPerHour = m, rg_rateLimitWindow = hour,
          rg_perMinuteBucket = None, rg_maxPerMinute = 0, rg_history = [], rg_maxHistory = h2,
          rg_dryRun = False, rg_hasEventCreator = False, rg_nodeName = [], rg_leaseClient = None,
          rg_hasObserver = False, rg_observed = [], rg_events = []\<rparr>)"

text \<open>\<^verbatim>\<open>Register\<close> panics on a programming error: \<open>Inl\<close> is the panic's message.\<close>

definition Register :: "'i RemediatorInfo \<Rightarrow> ('i, 'b) RemediatorRegistry \<Rightarrow> string + ('i, 'b) RemediatorRegistry" where
  "Register info r =
     (if ri_Type info = [] then Inl ''remediator type cannot be empty''
      else case ri_Factory info of None \<Rightarrow> Inl (''remediator factory cannot be nil for type '' @ ri_Type info)
      | Some _ \<Rightarrow>
          if map_of (rg_remediators r) (ri_Type info) \<noteq> None
          then Inl (''remediator type is already registered: '' @ ri_Type info)
          else Inr (r\<lparr>rg_remediators := AList.update (ri_Type info) info (rg_remediators r)\<rparr>))"

definition SetEventCreator :: "bool \<Rightarrow> string \<Rightarrow> ('i, 'b) RemediatorRegistry \<Rightarrow> ('i, 'b) RemediatorRegistry" where
  "SetEventCreator present node r = r\<lparr>rg_hasEventCreator := present, rg_nodeName := node\<rparr>"

definition SetLeaseClient :: "LeaseClient option \<Rightarrow> ('i, 'b) RemediatorRegistry \<Rightarrow> ('i, 'b) RemediatorRegistry" where
  "SetLeaseClient lc r = r\<lparr>rg_leaseClient := lc\<rparr>"

text \<open>\<open>newLimiter d n\<close> is a full bucket of \<open>n\<close> tokens that gains one every \<open>d\<close>.\<close>

definition SetMaxRemediationsPerMinute ::
  "(duration \<Rightarrow> int \<Rightarrow> 'b) \<Rightarrow> int \<Rightarrow> ('i, 'b) RemediatorRegistry \<Rightarrow> ('i, 'b) RemediatorRegistry" where
  "SetMaxRemediationsPerMinute newLimiter n r =
     (if 0 < n then r\<lparr>rg_maxPerMinute := n, rg_perMinuteBucket := Some (newLimiter (minute div n) n)\<rparr>
      else r\<lparr>rg_maxPerMinute := 0, rg_perMinuteBucket := None\<rparr>)"

definition SetMaxRemediationsPerHour :: "int \<Rightarrow> ('i, 'b) RemediatorRegistry \<Rightarrow> ('i, 'b) RemediatorRegistry" where
  "SetMaxRemediationsPerHour n r = r\<lparr>rg_maxPerHour := (if n < 0 then 0 else n)\<rparr>"

definition SetDryRun :: "bool \<Rightarrow> ('i, 'b) RemediatorRegistry \<Rightarrow> ('i, 'b) RemediatorRegistry" where
  "SetDryRun dryRun r = r\<lparr>rg_dryRun := dryRun\<rparr>"

definition IsDryRun :: "('i, 'b) RemediatorRegistry \<Rightarrow> bool" where
  "IsDryRun r = rg_dryRun r"

definition notifyCircuitStateObserver ::
  "CircuitBreakerState \<Rightarrow> ('i, 'b) RemediatorRegistry \<Rightarrow> ('i, 'b) RemediatorRegistry" where
  "notifyCircuitStateObserver st r =
     (if rg_hasObserver r then r\<lparr>rg_observed := rg_observed r @ [circuit_code st]\<rparr> else r)"

definition SetCircuitStateObserver :: "bool \<Rightarrow> ('i, 'b) RemediatorRegistry \<Rightarrow> ('i, 'b) RemediatorRegistry" where
  "SetCircuitStateObserver present r =
     (let r1 = r\<lparr>rg_hasObserver := present\<rparr> in notifyCircuitStateObserver (rg_circuitState r1) r1)"

definition SetCircuitBreakerConfig ::
  "time \<Rightarrow> RegCircuitConfig \<Rightarrow> ('i, 'b) RemediatorRegistry \<Rightarrow> reg_error option \<times> ('i, 'b) RemediatorRegistry" where
  "SetCircuitBreakerConfig now c r =
     (if rgc_Threshold c \<le> 0 then (Some (BadThreshold (rgc_Threshold c)), r)
      else if rgc_Timeout c \<le> 0 then (Some (BadTimeout (rgc_Timeout c)), r)
      else if rgc_SuccessThreshold c \<le> 0 then (Some (BadSuccessThreshold (rgc_SuccessThreshold c)), r)
      else
        let r1 = r\<lparr>rg_circuitConfig := c\<rparr>
        in (None,
            if rgc_Disabled c \<and> rg_circuitState r1 \<noteq> CircuitClosed then
              notifyCircuitStateObserver CircuitClosed
                (r1\<lparr>rg_circuitState := CircuitClosed, rg_circuitLastStateChange := now,
                    rg_consecutiveFailures := 0, rg_consecutiveSuccesses := 0\<rparr>)
            else r1))"

definition circuitBreakerFromConfig :: "cfg_CircuitBreaker \<Rightarrow> RegCircuitConfig" where
  "circuitBreakerFromConfig c =
     (if IsDisabled c then DefaultCircuitBreakerConfig\<lparr>rgc_Disabled := True\<rparr>
      else if 0 < cbc_Threshold c \<and> 0 < cbc_Timeout c \<and> 0 < cbc_SuccessThreshold c then
        \<lparr>rgc_Threshold = cbc_Threshold c, rgc_Timeout = cbc_Timeout c,
         rgc_SuccessThreshold = cbc_SuccessThreshold c, rgc_Disabled = False\<rparr>
      else DefaultCircuitBreakerConfig)"

definition ApplyConfig ::
  "(duration \<Rightarrow> int \<Rightarrow> 'b) \<Rightarrow> time \<Rightarrow> RemediationConfig option \<Rightarrow> bool \<Rightarrow> ('i, 'b) RemediatorRegistry \<Rightarrow>
   reg_error option \<times> ('i, 'b) RemediatorRegistry" where
  "ApplyConfig newLimiter now co dryRunMode r =
     (case co of None \<Rightarrow> (Some RegConfigNil, r)
      | Some cfg \<Rightarrow>
          let r1 = SetDryRun (rmc_DryRun cfg \<or> dryRunMode) r;
              r2 = SetMaxRemediationsPerHour (rmc_MaxRemediationsPerHour cfg) r1;
              r3 = SetMaxRemediationsPerMinute newLimiter (rmc_MaxRemediationsPerMinute cfg) r2
          in (case SetCircuitBreakerConfig now (circuitBreakerFromConfig (rmc_CircuitBreaker cfg)) r3 of
                (Some e, r4) \<Rightarrow> (Some (ApplyCircuitBreaker e), r4)
              | (None, r4) \<Rightarrow> (None, r4)))"

definition GetRegisteredTypes :: "('i, 'b) RemediatorRegistry \<Rightarrow> string list" where
  "GetRegisteredTypes r = sort (map fst (rg_remediators r))"

definition IsRegistered :: "string \<Rightarrow> ('i, 'b) RemediatorRegistry \<Rightarrow> bool" where
  "IsRegistered ty r \<longleftrightarrow> map_of (rg_remediators r) ty \<noteq> None"

definition GetRemediatorInfo :: "string \<Rightarrow> ('i, 'b) RemediatorRegistry \<Rightarrow> 'i RemediatorInfo option" where
  "GetRemediatorInfo ty r = map_of (rg_remediators r) ty"

definition GetLeaseClient :: "('i, 'b) RemediatorRegistry \<Rightarrow> LeaseClient option" where
  "GetLeaseClient r = rg_leaseClient r"

definition getOrCreateRemediator ::
  "time \<Rightarrow> string \<Rightarrow> ('i, 'b) RemediatorRegistry \<Rightarrow> (reg_error + 'i) \<times> ('i, 'b) RemediatorRegistry" where
  "getOrCreateRemediator now ty r =
     (case map_of (rg_instances r) ty of Some inst \<Rightarrow> (Inr inst, r)
      | None \<Rightarrow>
          (case map_of (rg_remediators r) ty of
             None \<Rightarrow> (Inl (UnknownRemediator ty (GetRegisteredTypes r)), r)
           | Some info \<Rightarrow>
               (case (case ri_Factory info of Some f \<Rightarrow> f now | None \<Rightarrow> FactoryPanic ''nil factory'') of
                  FactoryError e \<Rightarrow> (Inl (CreateFailed ty e), r)
                | FactoryPanic m \<Rightarrow> (Inl (FactoryPanicked ty m), r)
                | Created inst \<Rightarrow>
                    (case (case ri_Validator info of None \<Rightarrow> None | Some val \<Rightarrow> val inst) of
                       Some e \<Rightarrow> (Inl (ValidationFailed ty e), r)
                     | None \<Rightarrow> (Inr inst, r\<lparr>rg_instances := AList.update ty inst (rg_instances r)\<rparr>)))))"

datatype reg_site =
    RStart | RSince | RHalfOpen | RSinceErr | RHour | RMinute | RFactory | RCan | RRun
  | RCb1 | RCb2 | REntry | REnd | RDuration

definition checkCircuitBreaker ::
  "(reg_site \<Rightarrow> time) \<Rightarrow> ('i, 'b) RemediatorRegistry \<Rightarrow> reg_error option \<times> ('i, 'b) RemediatorRegistry" where
  "checkCircuitBreaker ck r =
     (case rg_circuitState r of
        CircuitClosed \<Rightarrow> (None, r)
      | CircuitOpen \<Rightarrow>
          if rgc_Timeout (rg_circuitConfig r) \<le> time_sub (ck RSince) (rg_circuitOpenedAt r) then
            (None, notifyCircuitStateObserver CircuitHalfOpen
               (r\<lparr>rg_circuitState := CircuitHalfOpen, rg_circuitLastStateChange := ck RHalfOpen,
                  rg_consecutiveSuccesses := 0\<rparr>))
          else (Some (CircuitIsOpen (time_sub (ck RSinceErr) (rg_circuitOpenedAt r))
                        (rgc_Timeout (rg_circuitConfig r))), r)
      | CircuitHalfOpen \<Rightarrow> (None, r)
      | CircuitInvalid i \<Rightarrow> (Some (CircuitStateUnknown (CircuitInvalid i)), r))"

text \<open>The entries inside the window, counted from the newest until the first one outside.\<close>

definition valid_entries :: "time \<Rightarrow> time list \<Rightarrow> nat" where
  "valid_entries cutoff ts = length (takeWhile (\<lambda>t. cutoff < t) (rev ts))"

definition checkRateLimit ::
  "time \<Rightarrow> ('i, 'b) RemediatorRegistry \<Rightarrow> reg_error option \<times> ('i, 'b) RemediatorRegistry" where
  "checkRateLimit now r =
     (if rg_maxPerHour r = 0 then (None, r)
      else
        let ts = rg_remediationTimes r;
            valid = valid_entries (now - rg_rateLimitWindow r) ts;
            ts' = (if valid < length ts then drop (length ts - valid) ts else ts);
            r' = r\<lparr>rg_remediationTimes := ts'\<rparr>
        in if rg_maxPerHour r \<le> int (length ts')
           then (Some (HourLimitExceeded (int (length ts')) (rg_maxPerHour r)), r') else (None, r'))"

definition checkPerMinuteRate ::
  "(time \<Rightarrow> 'b \<Rightarrow> bool \<times> 'b) \<Rightarrow> time \<Rightarrow> ('i, 'b) RemediatorRegistry \<Rightarrow>
   reg_error option \<times> ('i, 'b) RemediatorRegistry" where
  "checkPerMinuteRate allow now r =
     (case rg_perMinuteBucket r of None \<Rightarrow> (None, r)
      | Some b \<Rightarrow>
          (case allow now b of
             (ok, b') \<Rightarrow> (if ok then None else Some (MinuteLimitExceeded (rg_maxPerMinute r)),
                         r\<lparr>rg_perMinuteBucket := Some b'\<rparr>)))"

definition recordRateLimitEntry :: "time \<Rightarrow> ('i, 'b) RemediatorRegistry \<Rightarrow> ('i, 'b) RemediatorRegistry" where
  "recordRateLimitEntry now r =
     (if rg_maxPerHour r = 0 then r else r\<lparr>rg_remediationTimes := rg_remediationTimes r @ [now]\<rparr>)"

definition recordCircuitBreakerSuccess :: "time \<Rightarrow> ('i, 'b) RemediatorRegistry \<Rightarrow> ('i, 'b) RemediatorRegistry" where
  "recordCircuitBreakerSuccess now r =
     (let r1 = r\<lparr>rg_consecutiveFailures := 0, rg_consecutiveSuccesses := rg_consecutiveSuccesses r + 1\<rparr>
      in if rg_circuitState r1 = CircuitHalfOpen
            \<and> rgc_SuccessThreshold (rg_circuitConfig r1) \<le> rg_consecutiveSuccesses r1
         then notifyCircuitStateObserver CircuitClosed
                (r1\<lparr>rg_circuitState := CircuitClosed, rg_circuitLastStateChange := now,
                    rg_consecutiveSuccesses := 0\<rparr>)
         else r1)"

definition recordCircuitBreakerFailure ::
  "time \<Rightarrow> time \<Rightarrow> ('i, 'b) RemediatorRegistry \<Rightarrow> ('i, 'b) RemediatorRegistry" where
  "recordCircuitBreakerFailure t1 t2 r =
     (let r1 = r\<lparr>rg_consecutiveSuccesses := 0, rg_consecutiveFailures := rg_consecutiveFailures r + 1\<rparr>
      in if rgc_Disabled (rg_circuitConfig r1) then r1
         else if rg_circuitState r1 = CircuitHalfOpen then
           notifyCircuitStateObserver CircuitOpen
             (r1\<lparr>rg_circuitState := CircuitOpen, rg_circuitOpenedAt := t1,
                 rg_circuitLastStateChange := t2, rg_consecutiveFailures := 1\<rparr>)
         else if rg_circuitState r1 = CircuitClosed
                 \<and> rgc_Threshold (rg_circuitConfig r1) \<le> rg_consecutiveFailures r1 then
           notifyCircuitStateObserver CircuitOpen
             (r1\<lparr>rg_circuitState := CircuitOpen, rg_circuitOpenedAt := t1,
                 rg_circuitLastStateChange := t2\<rparr>)
         else r1)"

definition event_name_char :: "char \<Rightarrow> bool" where
  "event_name_char ch \<longleftrightarrow> (let n = (of_char ch :: nat) in
     97 \<le> n \<and> n \<le> 122 \<or> 65 \<le> n \<and> n \<le> 90 \<or> 48 \<le> n \<and> n \<le> 57 \<or> ch = CHR ''-'')"

definition sanitizeEventName :: "string \<Rightarrow> string" where
  "sanitizeEventName name =
     (let s = map (\<lambda>ch. if event_name_char ch then ch else CHR ''-'') name
      in if s = [] then ''unknown'' else s)"

text \<open>The message is a function of the record and is left in that form.\<close>

definition createRemediationEvent :: "RemediationRecord \<Rightarrow> string \<Rightarrow> rem_k8s_event" where
  "createRemediationEvent rec node =
     \<lparr>rke_Name = ''node-doctor-'' @ node @ ''-remediation-'' @ sanitizeEventName (rr_RemediatorType rec)
         @ ''-'' @ show_int (unix_sec (rr_StartTime rec)),
      rke_Namespace = ''default'', rke_Node = node,
      rke_Reason = (if rr_Success rec then ''RemediationSuccess'' else ''RemediationFailure''),
      rke_Type = (if rr_Success rec then ''Normal'' else ''Warning''), rke_Record = rec\<rparr>"

definition recordRemediation :: "RemediationRecord \<Rightarrow> ('i, 'b) RemediatorRegistry \<Rightarrow> ('i, 'b) RemediatorRegistry" where
  "recordRemediation rec r =
     (let r1 = (if 0 < rg_maxHistory r then
                  let h = rg_history r @ [rec]
                  in r\<lparr>rg_history := (if rg_maxHistory r < int (length h)
                         then drop (length h - nat (rg_maxHistory r)) h else h)\<rparr>
                else r)
      in if rg_hasEventCreator r1 \<and> rg_nodeName r1 \<noteq> []
         then r1\<lparr>rg_events := rg_events r1 @ [createRemediationEvent rec (rg_nodeName r1)]\<rparr> else r1)"

record ('i, 'b) reg_env =
  rv_ck :: "reg_site \<Rightarrow> time"
  rv_allow :: "time \<Rightarrow> 'b \<Rightarrow> bool \<times> 'b"
  rv_ops :: "'i remediator_ops"
  rv_lease :: lease_env
  rv_release :: "int option"

text \<open>
  Phases 3 to 8. The result is the error returned, the error recorded in the history, whether the
  remediator ran, and the registry.
\<close>

type_synonym ('i, 'b) reg_outcome =
  "reg_error option \<times> reg_error option \<times> bool \<times> ('i, 'b) RemediatorRegistry"

definition reg_execute ::
  "('i, 'b) reg_env \<Rightarrow> string \<Rightarrow> problem \<Rightarrow> ('i, 'b) RemediatorRegistry \<Rightarrow> ('i, 'b) reg_outcome" where
  "reg_execute v ty p r =
     (let ck = rv_ck v; fail = recordCircuitBreakerFailure (ck RCb1) (ck RCb2);
          succeed = (\<lambda>r. recordRateLimitEntry (ck REntry) (recordCircuitBreakerSuccess (ck RCb1) r)) in
      case getOrCreateRemediator (ck RFactory) ty r of
        (Inl e, r1) \<Rightarrow> (Some e, Some e, False, fail r1)
      | (Inr inst, r1) \<Rightarrow>
          if \<not> ro_CanRemediate (rv_ops v) (ck RCan) p inst then
            (Some (CannotRemediate ty (GenerateProblemKey p)),
             Some (CannotRemediate ty (GenerateProblemKey p)), False, fail r1)
          else if rg_dryRun r1 then (None, None, False, succeed r1)
          else
            (case ro_Remediate (rv_ops v) (ck RRun) p inst of
               (res, inst') \<Rightarrow>
                 let r2 = r1\<lparr>rg_instances := AList.update ty inst' (rg_instances r1)\<rparr>
                 in (case res of
                       CallOk \<Rightarrow> (None, None, True, succeed r2)
                     | CallErr e \<Rightarrow> (Some (RemediationFailedWith (RemediatorError e)),
                                      Some (RemediatorError e), True, fail r2)
                     | CallPanic m \<Rightarrow> (Some (RemediationFailedWith (RemediationPanic m)),
                                        Some (RemediationPanic m), True, fail r2))))"

text \<open>Phase 2.5, with the deferred release of the lease.\<close>

definition reg_with_lease ::
  "('i, 'b) reg_env \<Rightarrow> string \<Rightarrow> problem \<Rightarrow> ('i, 'b) RemediatorRegistry \<Rightarrow> ('i, 'b) reg_outcome" where
  "reg_with_lease v ty p r =
     (case rg_leaseClient r of None \<Rightarrow> reg_execute v ty p r
      | Some lc \<Rightarrow>
          (case RequestLease (rv_lease v) ty (pr_Message p) lc of
             (Inl e, lc') \<Rightarrow>
               (Some (LeaseRequestFailed e), Some (LeaseRequestFailed e), False,
                recordCircuitBreakerFailure (rv_ck v RCb1) (rv_ck v RCb2) (r\<lparr>rg_leaseClient := Some lc'\<rparr>))
           | (Inr resp, lc') \<Rightarrow>
               if \<not> lr_Approved resp then
                 (Some (LeaseDeniedBy (lr_Message resp)), Some (LeaseDeniedBy (lr_Message resp)), False,
                  r\<lparr>rg_leaseClient := Some lc'\<rparr>)
               else
                 (case reg_execute v ty p (r\<lparr>rg_leaseClient := Some lc'\<rparr>) of
                    (ret, recorded, did, r2) \<Rightarrow>
                      (ret, recorded, did,
                       r2\<lparr>rg_leaseClient :=
                         map_option (ReleaseLease (rv_release v) (lr_LeaseID resp)) (rg_leaseClient r2)\<rparr>))))"

definition reg_phases ::
  "('i, 'b) reg_env \<Rightarrow> string \<Rightarrow> problem \<Rightarrow> ('i, 'b) RemediatorRegistry \<Rightarrow> ('i, 'b) reg_outcome" where
  "reg_phases v ty p r =
     (case checkCircuitBreaker (rv_ck v) r of
        (Some e, r1) \<Rightarrow> (Some e, Some e, False, r1)
      | (None, r1) \<Rightarrow>
          (case checkRateLimit (rv_ck v RHour) r1 of
             (Some e, r2) \<Rightarrow> (Some e, Some e, False, r2)
           | (None, r2) \<Rightarrow>
               (case checkPerMinuteRate (rv_allow v) (rv_ck v RMinute) r2 of
                  (Some e, r3) \<Rightarrow> (Some e, Some e, False, r3)
                | (None, r3) \<Rightarrow> reg_with_lease v ty p r3)))"

text \<open>
  The whole call: the error returned, whether the remediator ran, the registry. The code takes the registry's mutex for each
  phase and gives it up between them, so that the remediator runs without it; the model takes the whole call as one step. The detector
  dispatches its remediations one after the other, so that in the agent no two calls overlap; calls from several goroutines at once
  are not represented.
\<close>

definition Remediate ::
  "('i, 'b) reg_env \<Rightarrow> string \<Rightarrow> problem \<Rightarrow> ('i, 'b) RemediatorRegistry \<Rightarrow>
   reg_error option \<times> bool \<times> ('i, 'b) RemediatorRegistry" where
  "Remediate v ty p r =
     (case reg_phases v ty p r of
        (ret, recorded, did, r1) \<Rightarrow>
          (ret, did, recordRemediation \<lparr>rr_RemediatorType = ty, rr_Problem = p,
             rr_StartTime = rv_ck v RStart, rr_EndTime = rv_ck v REnd,
             rr_Duration = time_sub (rv_ck v RDuration) (rv_ck v RStart),
             rr_Success = (recorded = None), rr_Error = recorded\<rparr> r1))"

text \<open>\<open>v i\<close> is the environment of the \<open>i\<close>-th attempt. The booleans say which strategies ran.\<close>

fun try_strategies ::
  "(nat \<Rightarrow> ('i, 'b) reg_env) \<Rightarrow> problem \<Rightarrow> nat \<Rightarrow> string list \<Rightarrow> reg_error option \<Rightarrow>
   ('i, 'b) RemediatorRegistry \<Rightarrow> reg_error option \<times> bool list \<times> ('i, 'b) RemediatorRegistry" where
  "try_strategies v p i [] lastErr r = (lastErr, [], r)"
| "try_strategies v p i (ty # tys) lastErr r =
     (case Remediate (v i) ty (p\<lparr>pr_Type := ty\<rparr>) r of
        (None, did, r1) \<Rightarrow> (None, [did], r1)
      | (Some e, did, r1) \<Rightarrow>
          (case try_strategies v p (i + 1) tys (Some e) r1 of (err, dids, r2) \<Rightarrow> (err, did # dids, r2)))"

definition RemediateWithStrategies ::
  "(nat \<Rightarrow> ('i, 'b) reg_env) \<Rightarrow> string list \<Rightarrow> problem \<Rightarrow> ('i, 'b) RemediatorRegistry \<Rightarrow>
   reg_error option \<times> bool list \<times> ('i, 'b) RemediatorRegistry" where
  "RemediateWithStrategies v tys p r =
     (if tys = [] then (Some NoStrategies, [], r)
      else case try_strategies v p 0 tys None r of
             (None, dids, r1) \<Rightarrow> (None, dids, r1)
           | (Some e, dids, r1) \<Rightarrow> (Some (AllStrategiesFailed (int (length tys)) e), dids, r1))"

definition GetHistory :: "int \<Rightarrow> ('i, 'b) RemediatorRegistry \<Rightarrow> RemediationRecord list" where
  "GetHistory limit r =
     (let n = int (length (rg_history r));
          l = (if limit \<le> 0 \<or> n < limit then n else limit);
          start = (if n - l < 0 then 0 else n - l)
      in drop (nat start) (rg_history r))"

definition GetCircuitState :: "('i, 'b) RemediatorRegistry \<Rightarrow> CircuitBreakerState" where
  "GetCircuitState r = rg_circuitState r"

record RegistryStats =
  rgs_RegisteredTypes :: int
  rgs_CircuitState :: CircuitBreakerState
  rgs_ConsecutiveFailures :: int
  rgs_ConsecutiveSuccesses :: int
  rgs_CircuitOpenedAt :: time
  rgs_RecentRemediations :: int
  rgs_MaxPerHour :: int
  rgs_HistorySize :: int
  rgs_MaxHistory :: int
  rgs_DryRun :: bool

definition Registry_GetStats :: "('i, 'b) RemediatorRegistry \<Rightarrow> RegistryStats" where
  "Registry_GetStats r =
     \<lparr>rgs_RegisteredTypes = int (length (rg_remediators r)), rgs_CircuitState = rg_circuitState r,
      rgs_ConsecutiveFailures = rg_consecutiveFailures r,
      rgs_ConsecutiveSuccesses = rg_consecutiveSuccesses r, rgs_CircuitOpenedAt = rg_circuitOpenedAt r,
      rgs_RecentRemediations = int (length (rg_remediationTimes r)), rgs_MaxPerHour = rg_maxPerHour r,
      rgs_HistorySize = int (length (rg_history r)), rgs_MaxHistory = rg_maxHistory r,
      rgs_DryRun = rg_dryRun r\<rparr>"

definition ResetCircuitBreaker :: "time \<Rightarrow> ('i, 'b) RemediatorRegistry \<Rightarrow> ('i, 'b) RemediatorRegistry" where
  "ResetCircuitBreaker now r =
     notifyCircuitStateObserver CircuitClosed
       (r\<lparr>rg_circuitState := CircuitClosed, rg_consecutiveFailures := 0, rg_consecutiveSuccesses := 0,
          rg_circuitOpenedAt := 0, rg_circuitLastStateChange := now\<rparr>)"

section \<open>What each step leaves alone\<close>

text \<open>The settings, and the history, which only \<^verbatim>\<open>recordRemediation\<close> changes.\<close>

definition settings :: "('i, 'b) RemediatorRegistry \<Rightarrow>
    int \<times> duration \<times> int \<times> bool \<times> RegCircuitConfig \<times> RemediationRecord list \<times> bool \<times> string" where
  "settings r = (rg_maxPerHour r, rg_rateLimitWindow r, rg_maxHistory r, rg_dryRun r, rg_circuitConfig r,
     rg_history r, rg_hasEventCreator r, rg_nodeName r)"

lemma settings_notify [simp]: "settings (notifyCircuitStateObserver st r) = settings r"
  by (simp add: notifyCircuitStateObserver_def settings_def)

lemma notify_simps [simp]:
  "rg_circuitState (notifyCircuitStateObserver st r) = rg_circuitState r"
  "rg_remediationTimes (notifyCircuitStateObserver st r) = rg_remediationTimes r"
  "rg_maxPerHour (notifyCircuitStateObserver st r) = rg_maxPerHour r"
  "rg_instances (notifyCircuitStateObserver st r) = rg_instances r"
  "rg_leaseClient (notifyCircuitStateObserver st r) = rg_leaseClient r"
  "rg_circuitConfig (notifyCircuitStateObserver st r) = rg_circuitConfig r"
  "rg_consecutiveFailures (notifyCircuitStateObserver st r) = rg_consecutiveFailures r"
  "rg_consecutiveSuccesses (notifyCircuitStateObserver st r) = rg_consecutiveSuccesses r"
  "rg_circuitOpenedAt (notifyCircuitStateObserver st r) = rg_circuitOpenedAt r"
  "rg_dryRun (notifyCircuitStateObserver st r) = rg_dryRun r"
  by (simp_all add: notifyCircuitStateObserver_def)

lemma settings_fields:
  assumes "settings r' = settings r"
  shows "rg_maxPerHour r' = rg_maxPerHour r" "rg_rateLimitWindow r' = rg_rateLimitWindow r"
    "rg_maxHistory r' = rg_maxHistory r" "rg_dryRun r' = rg_dryRun r"
    "rg_circuitConfig r' = rg_circuitConfig r" "rg_history r' = rg_history r"
  using assms by (simp_all add: settings_def)

lemma settings_update [simp]:
  "settings (r\<lparr>rg_instances := a\<rparr>) = settings r" "settings (r\<lparr>rg_leaseClient := b\<rparr>) = settings r"
  "settings (r\<lparr>rg_remediationTimes := ts\<rparr>) = settings r" "settings (r\<lparr>rg_perMinuteBucket := m\<rparr>) = settings r"
  by (simp_all add: settings_def)

lemma settings_checkCircuitBreaker [simp]: "settings (snd (checkCircuitBreaker ck r)) = settings r"
  by (auto simp: checkCircuitBreaker_def split: CircuitBreakerState.splits) (simp_all add: settings_def)

lemma settings_checkRateLimit [simp]: "settings (snd (checkRateLimit now r)) = settings r"
  by (simp add: checkRateLimit_def Let_def)

lemma settings_checkPerMinuteRate [simp]: "settings (snd (checkPerMinuteRate allow now r)) = settings r"
  by (auto simp: checkPerMinuteRate_def split: option.splits prod.splits)

lemma settings_entry [simp]: "settings (recordRateLimitEntry now r) = settings r"
  by (simp add: recordRateLimitEntry_def)

lemma settings_success [simp]: "settings (recordCircuitBreakerSuccess now r) = settings r"
  by (simp add: recordCircuitBreakerSuccess_def Let_def) (simp add: settings_def)

lemma settings_failure [simp]: "settings (recordCircuitBreakerFailure t1 t2 r) = settings r"
  by (simp add: recordCircuitBreakerFailure_def Let_def) (simp add: settings_def)

lemma settings_getOrCreate [simp]: "settings (snd (getOrCreateRemediator now ty r)) = settings r"
  by (auto simp: getOrCreateRemediator_def split: option.splits factory_result.splits)

lemma times_frame [simp]:
  "rg_remediationTimes (snd (checkCircuitBreaker ck r)) = rg_remediationTimes r"
  "rg_remediationTimes (snd (checkPerMinuteRate allow now r)) = rg_remediationTimes r"
  "rg_remediationTimes (recordCircuitBreakerSuccess now r) = rg_remediationTimes r"
  "rg_remediationTimes (recordCircuitBreakerFailure t1 t2 r) = rg_remediationTimes r"
  "rg_remediationTimes (snd (getOrCreateRemediator now ty r)) = rg_remediationTimes r"
  "rg_remediationTimes (recordRemediation rec r) = rg_remediationTimes r"
  by (auto simp: checkCircuitBreaker_def checkPerMinuteRate_def recordCircuitBreakerSuccess_def
      recordCircuitBreakerFailure_def getOrCreateRemediator_def recordRemediation_def Let_def
      split: CircuitBreakerState.splits option.splits prod.splits factory_result.splits)

text \<open>The executing phases: settings stay, and a success adds exactly one rate-limit entry.\<close>

lemma reg_execute_frame:
  assumes "reg_execute v ty p r = (ret, recorded, did, r')"
  shows "settings r' = settings r \<and> (recorded = None \<longleftrightarrow> ret = None)
    \<and> rg_remediationTimes r' = rg_remediationTimes r @
        (if ret = None \<and> rg_maxPerHour r \<noteq> 0 then [rv_ck v REntry] else [])"
proof -
  obtain g r1 where g: "getOrCreateRemediator (rv_ck v RFactory) ty r = (g, r1)" by fastforce
  have r1: "settings r1 = settings r" "rg_remediationTimes r1 = rg_remediationTimes r"
    using settings_getOrCreate [of "rv_ck v RFactory" ty r] times_frame(5) [of "rv_ck v RFactory" ty r]
    by (simp_all add: g)
  have entry: "rg_remediationTimes (recordRateLimitEntry t (recordCircuitBreakerSuccess u x)) =
      rg_remediationTimes x @ (if rg_maxPerHour x \<noteq> 0 then [t] else [])" for t u and x :: "('a, 'b) RemediatorRegistry"
    using settings_fields(1) [OF settings_success, of u x] by (simp add: recordRateLimitEntry_def)
  show ?thesis
    using assms g r1 settings_fields(1) [OF r1(1)]
    by (auto simp: reg_execute_def Let_def entry split: sum.splits if_splits prod.splits call_result.splits)
qed

lemma reg_with_lease_frame:
  assumes "reg_with_lease v ty p r = (ret, recorded, did, r')"
  shows "settings r' = settings r \<and> (recorded = None \<longleftrightarrow> ret = None)
    \<and> rg_remediationTimes r' = rg_remediationTimes r @
        (if ret = None \<and> rg_maxPerHour r \<noteq> 0 then [rv_ck v REntry] else [])"
  using assms reg_execute_frame [of v ty p r] reg_execute_frame [of v ty p "r\<lparr>rg_leaseClient := _\<rparr>"]
  by (auto simp: reg_with_lease_def split: option.splits prod.splits sum.splits if_splits)

section \<open>Rate limit\<close>

lemma sorted_split: "sorted xs \<Longrightarrow> xs = filter (\<lambda>x. \<not> c < x) xs @ filter (\<lambda>x. c < (x :: int)) xs"
proof (induction xs)
  case (Cons x xs)
  show ?case
  proof (cases "c < x")
    case True
    with Cons.prems have "filter (\<lambda>y. \<not> c < y) (x # xs) = []" by (auto simp: filter_empty_conv)
    with True Cons show ?thesis by (simp add: filter_True)
  qed (use Cons in simp)
qed simp

lemma valid_entries_le: "valid_entries c ts \<le> length ts"
  by (metis length_rev length_takeWhile_le valid_entries_def)

text \<open>On sorted entries the trimmed list is the list of entries inside the window.\<close>

lemma trim_sorted:
  assumes "sorted ts"
  shows "(if valid_entries c ts < length ts then drop (length ts - valid_entries c ts) ts else ts)
       = filter (\<lambda>t. c < t) ts"
proof -
  have "filter (\<lambda>t. c < t) ts = drop (length ts - valid_entries c ts) ts"
    using assms
  proof (induction ts rule: rev_induct)
    case Nil
    then show ?case by simp
  next
    case (snoc x xs)
    show ?case
    proof (cases "c < x")
      case True
      have "valid_entries c (xs @ [x]) = Suc (valid_entries c xs)"
        using True by (simp add: valid_entries_def)
      moreover note valid_entries_le [of c xs]
      ultimately show ?thesis using snoc True by (simp add: sorted_append)
    next
      case False
      with snoc.prems have "\<forall>y\<in>set xs. \<not> c < y" by (auto simp: sorted_append)
      with False show ?thesis by (simp add: valid_entries_def)
    qed
  qed
  with valid_entries_le [of c ts] show ?thesis by (cases "valid_entries c ts = length ts") auto
qed

lemma checkRateLimit_sorted:
  assumes "sorted (rg_remediationTimes r)" "rg_maxPerHour r \<noteq> 0"
  shows "let ts = filter (\<lambda>t. now - rg_rateLimitWindow r < t) (rg_remediationTimes r) in
    checkRateLimit now r = (if rg_maxPerHour r \<le> int (length ts)
      then Some (HourLimitExceeded (int (length ts)) (rg_maxPerHour r)) else None, r\<lparr>rg_remediationTimes := ts\<rparr>)"
  using assms(2) by (simp add: checkRateLimit_def Let_def trim_sorted [OF assms(1)])

text \<open>
  One call: the entries that survive are those kept by the trimming, and a success adds the entry
  of the call only while fewer than the limit are inside the window.
\<close>

lemma reg_phases_times:
  assumes "reg_phases v ty p r = (ret, recorded, did, r')" "sorted (rg_remediationTimes r)"
    "rg_maxPerHour r \<noteq> 0"
  shows "settings r' = settings r \<and> (recorded = None \<longleftrightarrow> ret = None)
    \<and> (let kept = filter (\<lambda>t. rv_ck v RHour - rg_rateLimitWindow r < t) (rg_remediationTimes r) in
        (ret = None \<longrightarrow> int (length kept) < rg_maxPerHour r \<and> rg_remediationTimes r' = kept @ [rv_ck v REntry])
        \<and> (ret \<noteq> None \<longrightarrow> rg_remediationTimes r' = rg_remediationTimes r \<or> rg_remediationTimes r' = kept))"
proof -
  let ?kept = "filter (\<lambda>t. rv_ck v RHour - rg_rateLimitWindow r < t) (rg_remediationTimes r)"
  obtain e1 r1 where c: "checkCircuitBreaker (rv_ck v) r = (e1, r1)" by fastforce
  have r1: "settings r1 = settings r" "rg_remediationTimes r1 = rg_remediationTimes r"
    using settings_checkCircuitBreaker [of "rv_ck v" r] times_frame(1) [of "rv_ck v" r] by (simp_all add: c)
  have rate: "checkRateLimit (rv_ck v RHour) r1 = (if rg_maxPerHour r \<le> int (length ?kept)
      then Some (HourLimitExceeded (int (length ?kept)) (rg_maxPerHour r)) else None,
      r1\<lparr>rg_remediationTimes := ?kept\<rparr>)"
    using checkRateLimit_sorted [of r1 "rv_ck v RHour"] assms(2,3) r1 settings_fields [OF r1(1)]
    by (simp add: Let_def)
  obtain e3 r3 where m: "checkPerMinuteRate (rv_allow v) (rv_ck v RMinute) (r1\<lparr>rg_remediationTimes := ?kept\<rparr>) = (e3, r3)"
    by fastforce
  have r3: "settings r3 = settings r" "rg_remediationTimes r3 = ?kept"
    using settings_checkPerMinuteRate [of "rv_allow v" "rv_ck v RMinute" "r1\<lparr>rg_remediationTimes := ?kept\<rparr>"]
      times_frame(2) [of "rv_allow v" "rv_ck v RMinute" "r1\<lparr>rg_remediationTimes := ?kept\<rparr>"] r1(1)
    by (simp_all add: m)
  show ?thesis
  proof (cases "e1 = None \<and> \<not> rg_maxPerHour r \<le> int (length ?kept) \<and> e3 = None")
    case True
    then have "reg_with_lease v ty p r3 = (ret, recorded, did, r')"
      using assms(1) c rate m by (simp add: reg_phases_def)
    from reg_with_lease_frame [OF this] r3 True assms(3) settings_fields(1) [OF r3(1)] show ?thesis
      by (auto simp: Let_def)
  next
    case False
    then have "ret \<noteq> None \<and> recorded \<noteq> None \<and> (r' = r1 \<or> r' = r1\<lparr>rg_remediationTimes := ?kept\<rparr> \<or> r' = r3)"
      using assms(1) c rate m by (auto simp: reg_phases_def split: option.splits if_splits)
    with r1 r3 show ?thesis by (auto simp: Let_def)
  qed
qed

lemma Remediate_times:
  assumes "Remediate v ty p r = (ret, did, r')" "sorted (rg_remediationTimes r)" "rg_maxPerHour r \<noteq> 0"
  shows "rg_maxPerHour r' = rg_maxPerHour r \<and> rg_rateLimitWindow r' = rg_rateLimitWindow r
    \<and> (let kept = filter (\<lambda>t. rv_ck v RHour - rg_rateLimitWindow r < t) (rg_remediationTimes r) in
        (ret = None \<longrightarrow> int (length kept) < rg_maxPerHour r \<and> rg_remediationTimes r' = kept @ [rv_ck v REntry])
        \<and> (ret \<noteq> None \<longrightarrow> rg_remediationTimes r' = rg_remediationTimes r \<or> rg_remediationTimes r' = kept))"
proof -
  obtain recorded r1 where ph: "reg_phases v ty p r = (ret, recorded, did, r1)"
    and r': "\<exists>rec. r' = recordRemediation rec r1"
    using assms(1) by (auto simp: Remediate_def split: prod.splits)
  have keep: "rg_maxPerHour (recordRemediation rec r1) = rg_maxPerHour r1"
    "rg_rateLimitWindow (recordRemediation rec r1) = rg_rateLimitWindow r1" for rec
    by (simp_all add: recordRemediation_def Let_def)
  from reg_phases_times [OF ph assms(2,3)] r' keep show ?thesis
    by (auto simp: Let_def settings_def)
qed

text \<open>A sequence of calls on one registry: the times of the successes, newest first.\<close>

fun reg_run ::
  "(('i, 'b) reg_env \<times> string \<times> problem) list \<Rightarrow> time list \<times> ('i, 'b) RemediatorRegistry \<Rightarrow>
   time list \<times> ('i, 'b) RemediatorRegistry" where
  "reg_run [] s = s"
| "reg_run ((v, ty, p) # calls) (S, r) =
     (case Remediate v ty p r of
        (ret, did, r') \<Rightarrow> reg_run calls (if ret = None then rv_ck v REntry # S else S, r'))"

text \<open>No window of length \<open>w\<close> that ends at one of the times holds more than \<open>n\<close> of them (the list is newest
  first).\<close>

fun window_ok :: "int \<Rightarrow> duration \<Rightarrow> time list \<Rightarrow> bool" where
  "window_ok n w [] = True"
| "window_ok n w (t # ts) = (int (length (filter (\<lambda>s. t - w < s) (t # ts))) \<le> n \<and> window_ok n w ts)"

text \<open>The clock does not run backwards within and between the calls.\<close>

fun calls_ordered :: "time \<Rightarrow> (('i, 'b) reg_env \<times> string \<times> problem) list \<Rightarrow> bool" where
  "calls_ordered t [] = True"
| "calls_ordered t ((v, ty, p) # calls) =
     (t \<le> rv_ck v RHour \<and> rv_ck v RHour \<le> rv_ck v REntry \<and> calls_ordered (rv_ck v REntry) calls)"

text \<open>What is kept of the successes so far: all that are younger than the window at the last check.\<close>

definition entries_inv :: "time \<Rightarrow> time list \<Rightarrow> ('i, 'b) RemediatorRegistry \<Rightarrow> bool" where
  "entries_inv t S r \<longleftrightarrow> sorted (rev S) \<and> (\<forall>s\<in>set S. s \<le> t) \<and> 0 \<le> rg_rateLimitWindow r
     \<and> 0 < rg_maxPerHour r \<and> window_ok (rg_maxPerHour r) (rg_rateLimitWindow r) S
     \<and> (\<exists>D. rev S = D @ rg_remediationTimes r \<and> (\<forall>d\<in>set D. d \<le> t - rg_rateLimitWindow r))"

lemma entries_inv_step:
  assumes inv: "entries_inv t S r" and clock: "t \<le> rv_ck v RHour" "rv_ck v RHour \<le> rv_ck v REntry"
    and run: "Remediate v ty p r = (ret, did, r')"
  shows "entries_inv (rv_ck v REntry) (if ret = None then rv_ck v REntry # S else S) r'"
proof -
  let ?w = "rg_rateLimitWindow r" and ?now = "rv_ck v RHour" and ?e = "rv_ck v REntry"
  let ?kept = "filter (\<lambda>x. ?now - ?w < x) (rg_remediationTimes r)"
  from inv obtain D where D: "rev S = D @ rg_remediationTimes r" "\<forall>d\<in>set D. d \<le> t - ?w"
    and srt: "sorted (rev S)" and le: "\<forall>s\<in>set S. s \<le> t" and pos: "0 < rg_maxPerHour r" "0 \<le> ?w"
    and win: "window_ok (rg_maxPerHour r) ?w S"
    by (auto simp: entries_inv_def)
  have ts: "sorted (rg_remediationTimes r)" using srt D(1) by (simp add: sorted_append)
  note step = Remediate_times [OF run ts] pos(1)
  have set': "rg_maxPerHour r' = rg_maxPerHour r" "rg_rateLimitWindow r' = ?w"
    using step by auto
  have D': "\<forall>d\<in>set D. d \<le> ?e - ?w" using D(2) clock by force
  have split: "\<exists>D2. rev S = D2 @ ?kept \<and> (\<forall>d\<in>set D2. d \<le> ?now - ?w)"
  proof -
    let ?old = "filter (\<lambda>x. \<not> ?now - ?w < x) (rg_remediationTimes r)"
    have "rg_remediationTimes r = ?old @ ?kept" by (rule sorted_split [OF ts])
    then have "rev S = (D @ ?old) @ ?kept" using D(1) by simp
    moreover have "\<forall>d\<in>set (D @ ?old). d \<le> ?now - ?w" using D(2) clock by force
    ultimately show ?thesis by blast
  qed
  show ?thesis
  proof (cases "ret = None")
    case False
    with step have "rg_remediationTimes r' = rg_remediationTimes r \<or> rg_remediationTimes r' = ?kept"
      by (simp add: Let_def)
    moreover from split obtain D2 where D2: "rev S = D2 @ ?kept" "\<forall>d\<in>set D2. d \<le> ?now - ?w" by blast
    then have "\<forall>d\<in>set D2. d \<le> ?e - ?w" using clock by force
    ultimately have "\<exists>D. rev S = D @ rg_remediationTimes r' \<and> (\<forall>d\<in>set D. d \<le> ?e - ?w)"
      using D(1) D2(1) D' by metis
    moreover have "\<forall>s\<in>set S. s \<le> ?e" using le clock by force
    ultimately have "entries_inv ?e S r'"
      using srt pos win unfolding entries_inv_def set' by blast
    then show ?thesis by (simp only: False if_False)
  next
    case True
    with step have kept: "int (length ?kept) < rg_maxPerHour r" "rg_remediationTimes r' = ?kept @ [?e]"
      by (simp_all add: Let_def)
    from split obtain D2 where D2: "rev S = D2 @ ?kept" "\<forall>d\<in>set D2. d \<le> ?now - ?w" by blast
    have "filter (\<lambda>s. ?e - ?w < s) (rev S) = filter (\<lambda>s. ?e - ?w < s) ?kept"
      using D2 clock by (auto simp: filter_empty_conv)
    then have "length (filter (\<lambda>s. ?e - ?w < s) (rev S)) \<le> length ?kept"
      by (simp only: length_filter_le)
    then have "length (filter (\<lambda>s. ?e - ?w < s) S) \<le> length ?kept"
      by (metis length_rev rev_filter rev_rev_ident)
    then have "window_ok (rg_maxPerHour r) ?w (?e # S)"
      using kept(1) win pos(2) by auto
    moreover have "rev (?e # S) = D2 @ rg_remediationTimes r'" using D2(1) kept(2) by simp
    moreover have "\<forall>d\<in>set D2. d \<le> ?e - ?w" using D2(2) clock by force
    moreover have "sorted (rev (?e # S))" using srt le clock by (force simp: sorted_append)
    ultimately show ?thesis
      using True le clock pos set' unfolding entries_inv_def by (auto intro!: exI [of _ D2])
  qed
qed

lemma entries_inv_run:
  "entries_inv t S r \<Longrightarrow> calls_ordered t calls \<Longrightarrow> \<exists>t'. entries_inv t' (fst (reg_run calls (S, r))) (snd (reg_run calls (S, r)))"
proof (induction calls arbitrary: t S r)
  case Nil
  then show ?case by auto
next
  case (Cons call calls)
  obtain v ty p where call: "call = (v, ty, p)" by (cases call)
  obtain ret did r' where run: "Remediate v ty p r = (ret, did, r')" by (cases "Remediate v ty p r")
  from entries_inv_step [OF Cons.prems(1) _ _ run] Cons.prems(2)
  have "entries_inv (rv_ck v REntry) (if ret = None then rv_ck v REntry # S else S) r'"
    by (simp add: call)
  from Cons.IH [OF this] Cons.prems(2) show ?case by (simp add: call run)
qed


section \<open>Gates\<close>

lemma getOrCreate_cong:
  "rg_instances a = rg_instances b \<Longrightarrow> rg_remediators a = rg_remediators b \<Longrightarrow>
   fst (getOrCreateRemediator now ty a) = fst (getOrCreateRemediator now ty b)"
  by (auto simp: getOrCreateRemediator_def GetRegisteredTypes_def
      split: option.splits factory_result.splits)

lemma reg_execute_did:
  assumes "reg_execute v ty p r = (ret, recorded, True, r')"
  shows "\<not> rg_dryRun r \<and> (\<exists>inst. fst (getOrCreateRemediator (rv_ck v RFactory) ty r) = Inr inst
    \<and> ro_CanRemediate (rv_ops v) (rv_ck v RCan) p inst)"
proof -
  obtain g r1 where g: "getOrCreateRemediator (rv_ck v RFactory) ty r = (g, r1)" by fastforce
  have "rg_dryRun r1 = rg_dryRun r"
    using settings_fields(4) [OF settings_getOrCreate, of "rv_ck v RFactory" ty r] by (simp add: g)
  with assms show ?thesis
    by (auto simp: reg_execute_def Let_def g split: sum.splits if_splits)
qed

text \<open>What the checks look at is not changed by the checks before them.\<close>

definition gate_view ::
  "('i, 'b) RemediatorRegistry \<Rightarrow> (string, 'i) gomap \<times> (string, 'i RemediatorInfo) gomap \<times> LeaseClient option \<times> bool" where
  "gate_view r = (rg_instances r, rg_remediators r, rg_leaseClient r, rg_dryRun r)"

lemma gate_view_frame [simp]:
  "gate_view (snd (checkCircuitBreaker ck r)) = gate_view r"
  "gate_view (snd (checkRateLimit now r)) = gate_view r"
  "gate_view (snd (checkPerMinuteRate allow now r)) = gate_view r"
  by (auto simp: gate_view_def checkCircuitBreaker_def checkRateLimit_def checkPerMinuteRate_def
      notifyCircuitStateObserver_def Let_def split: CircuitBreakerState.splits option.splits prod.splits)

lemma bucket_frame [simp]:
  "rg_perMinuteBucket (snd (checkCircuitBreaker ck r)) = rg_perMinuteBucket r"
  "rg_perMinuteBucket (snd (checkRateLimit now r)) = rg_perMinuteBucket r"
  by (auto simp: checkCircuitBreaker_def checkRateLimit_def notifyCircuitStateObserver_def Let_def
      split: CircuitBreakerState.splits)

lemma reg_with_lease_did:
  assumes "reg_with_lease v ty p r = (ret, recorded, True, r')"
  shows "\<not> rg_dryRun r \<and> (\<exists>inst. fst (getOrCreateRemediator (rv_ck v RFactory) ty r) = Inr inst
      \<and> ro_CanRemediate (rv_ops v) (rv_ck v RCan) p inst)
    \<and> (\<forall>lc. rg_leaseClient r = Some lc \<longrightarrow>
         (\<exists>resp lc'. RequestLease (rv_lease v) ty (pr_Message p) lc = (Inr resp, lc') \<and> lr_Approved resp))"
proof (cases "rg_leaseClient r")
  case None
  then show ?thesis using assms reg_execute_did [of v ty p r] by (simp add: reg_with_lease_def)
next
  case (Some lc)
  then obtain resp lc' r2 where req: "RequestLease (rv_lease v) ty (pr_Message p) lc = (Inr resp, lc')"
    and ok: "lr_Approved resp"
    and ex: "reg_execute v ty p (r\<lparr>rg_leaseClient := Some lc'\<rparr>) = (ret, recorded, True, r2)"
    using assms by (auto simp: reg_with_lease_def split: prod.splits sum.splits if_splits)
  have "fst (getOrCreateRemediator (rv_ck v RFactory) ty (r\<lparr>rg_leaseClient := Some lc'\<rparr>))
      = fst (getOrCreateRemediator (rv_ck v RFactory) ty r)"
    by (rule getOrCreate_cong) simp_all
  with reg_execute_did [OF ex] req ok Some show ?thesis by simp
qed

lemma reg_phases_passed:
  assumes "reg_phases v ty p r = (ret, recorded, True, r')"
  shows "\<exists>r3. gate_view r3 = gate_view r \<and> reg_with_lease v ty p r3 = (ret, recorded, True, r')
    \<and> fst (checkCircuitBreaker (rv_ck v) r) = None
    \<and> fst (checkRateLimit (rv_ck v RHour) r) = None
    \<and> (\<forall>b. rg_perMinuteBucket r = Some b \<longrightarrow> fst (rv_allow v (rv_ck v RMinute) b))"
proof -
  obtain e1 r1 where c: "checkCircuitBreaker (rv_ck v) r = (e1, r1)" by fastforce
  obtain e2 r2 where h: "checkRateLimit (rv_ck v RHour) r1 = (e2, r2)" by fastforce
  obtain e3 r3 where m: "checkPerMinuteRate (rv_allow v) (rv_ck v RMinute) r2 = (e3, r3)" by fastforce
  have e: "e1 = None" "e2 = None" "e3 = None" and w: "reg_with_lease v ty p r3 = (ret, recorded, True, r')"
    using assms by (auto simp: reg_phases_def c h m split: option.splits)
  have view: "gate_view r3 = gate_view r"
    using gate_view_frame(1) [of "rv_ck v" r] gate_view_frame(2) [of "rv_ck v RHour" r1]
      gate_view_frame(3) [of "rv_allow v" "rv_ck v RMinute" r2] by (simp add: c h m)
  have bucket: "rg_perMinuteBucket r2 = rg_perMinuteBucket r"
    using bucket_frame(1) [of "rv_ck v" r] bucket_frame(2) [of "rv_ck v RHour" r1] by (simp add: c h)
  have same: "rg_maxPerHour r1 = rg_maxPerHour r" "rg_rateLimitWindow r1 = rg_rateLimitWindow r"
    "rg_remediationTimes r1 = rg_remediationTimes r"
    using settings_fields [OF settings_checkCircuitBreaker, of "rv_ck v" r] times_frame(1) [of "rv_ck v" r]
    by (simp_all add: c)
  have "fst (checkRateLimit (rv_ck v RHour) r) = fst (checkRateLimit (rv_ck v RHour) r1)"
    by (simp add: checkRateLimit_def Let_def same)
  moreover have "fst (rv_allow v (rv_ck v RMinute) b)" if "rg_perMinuteBucket r = Some b" for b
    using m e(3) bucket that by (auto simp: checkPerMinuteRate_def split: prod.splits if_splits)
  ultimately show ?thesis using view w c h e by auto
qed

text \<open>
  C4. A remediator is run only when every gate is open: the registry is not in dry-run mode, the
  circuit is not open or has been open for at least its timeout, fewer successes than the hourly
  limit lie inside the sliding window, the per-minute bucket (when there is one) has a token, the
  lease client (when there is one) answered with an approval, and the instance itself says it can
  remediate the problem.\<close>

theorem remediation_runs_only_when_cleared:
  assumes "Remediate v ty p r = (ret, True, r')"
  shows "\<not> rg_dryRun r
    \<and> (rg_circuitState r = CircuitClosed \<or> rg_circuitState r = CircuitHalfOpen
       \<or> rg_circuitState r = CircuitOpen
         \<and> rgc_Timeout (rg_circuitConfig r) \<le> time_sub (rv_ck v RSince) (rg_circuitOpenedAt r))
    \<and> (rg_maxPerHour r = 0
       \<or> int (valid_entries (rv_ck v RHour - rg_rateLimitWindow r) (rg_remediationTimes r)) < rg_maxPerHour r)
    \<and> (\<forall>b. rg_perMinuteBucket r = Some b \<longrightarrow> fst (rv_allow v (rv_ck v RMinute) b))
    \<and> (\<forall>lc. rg_leaseClient r = Some lc \<longrightarrow>
         (\<exists>resp lc'. RequestLease (rv_lease v) ty (pr_Message p) lc = (Inr resp, lc') \<and> lr_Approved resp))
    \<and> (\<exists>inst. fst (getOrCreateRemediator (rv_ck v RFactory) ty r) = Inr inst
         \<and> ro_CanRemediate (rv_ops v) (rv_ck v RCan) p inst)"
proof -
  obtain recorded r1 where "reg_phases v ty p r = (ret, recorded, True, r1)"
    using assms by (auto simp: Remediate_def split: prod.splits)
  from reg_phases_passed [OF this] obtain r3 where
    r3: "gate_view r3 = gate_view r" "reg_with_lease v ty p r3 = (ret, recorded, True, r1)"
    and circuit: "fst (checkCircuitBreaker (rv_ck v) r) = None"
    and hourly: "fst (checkRateLimit (rv_ck v RHour) r) = None"
    and bucket: "\<forall>b. rg_perMinuteBucket r = Some b \<longrightarrow> fst (rv_allow v (rv_ck v RMinute) b)" by blast
  have view: "rg_dryRun r3 = rg_dryRun r" "rg_leaseClient r3 = rg_leaseClient r"
    "fst (getOrCreateRemediator (rv_ck v RFactory) ty r3) = fst (getOrCreateRemediator (rv_ck v RFactory) ty r)"
    using r3(1) by (auto simp: gate_view_def intro: getOrCreate_cong)
  have "rg_circuitState r = CircuitClosed \<or> rg_circuitState r = CircuitHalfOpen
       \<or> rg_circuitState r = CircuitOpen
         \<and> rgc_Timeout (rg_circuitConfig r) \<le> time_sub (rv_ck v RSince) (rg_circuitOpenedAt r)"
    using circuit by (auto simp: checkCircuitBreaker_def split: CircuitBreakerState.splits if_splits)
  moreover have "rg_maxPerHour r = 0
       \<or> int (valid_entries (rv_ck v RHour - rg_rateLimitWindow r) (rg_remediationTimes r)) < rg_maxPerHour r"
    using hourly valid_entries_le [of "rv_ck v RHour - rg_rateLimitWindow r" "rg_remediationTimes r"]
    by (auto simp: checkRateLimit_def Let_def split: if_splits)
  ultimately show ?thesis
    using reg_with_lease_did [OF r3(2)] bucket unfolding view by blast
qed


section \<open>Circuit\<close>

definition circuit ::
  "('i, 'b) RemediatorRegistry \<Rightarrow> CircuitBreakerState \<times> RegCircuitConfig \<times> int \<times> int \<times> time" where
  "circuit r = (rg_circuitState r, rg_circuitConfig r, rg_consecutiveFailures r,
     rg_consecutiveSuccesses r, rg_circuitOpenedAt r)"

lemma circuit_cong:
  assumes "circuit a = circuit b"
  shows "circuit (recordCircuitBreakerFailure t1 t2 a) = circuit (recordCircuitBreakerFailure t1 t2 b)"
    and "circuit (recordCircuitBreakerSuccess t a) = circuit (recordCircuitBreakerSuccess t b)"
  using assms by (simp_all add: circuit_def recordCircuitBreakerFailure_def recordCircuitBreakerSuccess_def Let_def)

lemma circuit_frame [simp]:
  "circuit (snd (checkRateLimit now r)) = circuit r"
  "circuit (snd (checkPerMinuteRate allow now r)) = circuit r"
  "circuit (snd (getOrCreateRemediator now ty r)) = circuit r"
  "circuit (recordRemediation h r) = circuit r"
  "circuit (r\<lparr>rg_leaseClient := lc\<rparr>) = circuit r"
  "circuit (r\<lparr>rg_instances := xs\<rparr>) = circuit r"
  by (auto simp: circuit_def checkRateLimit_def checkPerMinuteRate_def getOrCreateRemediator_def
      recordRemediation_def Let_def split: option.splits prod.splits factory_result.splits)

interpretation registry_breaker: tripping_breaker
  "\<lambda>r. \<not> rgc_Disabled (rg_circuitConfig r)"
  "\<lambda>r. rg_circuitState r = CircuitClosed" "\<lambda>r. rg_circuitState r = CircuitOpen"
  rg_consecutiveFailures "\<lambda>r. rgc_Threshold (rg_circuitConfig r)"
  "\<lambda>t. recordCircuitBreakerFailure (fst t) (snd t)" "\<lambda>t. recordCircuitBreakerSuccess (fst t)"
  by unfold_locales
    (auto simp: recordCircuitBreakerFailure_def recordCircuitBreakerSuccess_def Let_def)

lemma reg_execute_failed:
  assumes "reg_execute v ty p r = (Some e, recorded, did, r')"
  shows "circuit r' = circuit (recordCircuitBreakerFailure (rv_ck v RCb1) (rv_ck v RCb2) r)"
proof -
  obtain g r1 where g: "getOrCreateRemediator (rv_ck v RFactory) ty r = (g, r1)" by fastforce
  have "circuit r1 = circuit r" using circuit_frame(3) [of "rv_ck v RFactory" ty r] by (simp add: g)
  then have "circuit (recordCircuitBreakerFailure t1 t2 (r1\<lparr>rg_instances := xs\<rparr>))
      = circuit (recordCircuitBreakerFailure t1 t2 r)"
    "circuit (recordCircuitBreakerFailure t1 t2 r1) = circuit (recordCircuitBreakerFailure t1 t2 r)" for t1 t2 xs
    by (auto intro: circuit_cong(1))
  with assms show ?thesis
    by (auto simp: reg_execute_def Let_def g split: sum.splits if_splits prod.splits call_result.splits)
qed

lemma reg_with_lease_failed:
  assumes "reg_with_lease v ty p r = (Some e, recorded, True, r')"
  shows "circuit r' = circuit (recordCircuitBreakerFailure (rv_ck v RCb1) (rv_ck v RCb2) r)"
proof -
  obtain x r2 where "circuit x = circuit r" "reg_execute v ty p x = (Some e, recorded, True, r2)" "circuit r' = circuit r2"
    using assms
    by (cases "rg_leaseClient r")
      (auto simp: reg_with_lease_def split: prod.splits sum.splits if_splits,
       metis circuit_frame(5))
  then show ?thesis using reg_execute_failed circuit_cong(1) by metis
qed

text \<open>A run that fails on a closed circuit counts as one failure of the breaker.\<close>

lemma Remediate_failed:
  assumes "Remediate v ty p r = (Some e, True, r')" "rg_circuitState r = CircuitClosed"
  shows "circuit r' = circuit (recordCircuitBreakerFailure (rv_ck v RCb1) (rv_ck v RCb2) r)"
proof -
  obtain recorded r1 where ph: "reg_phases v ty p r = (Some e, recorded, True, r1)"
    and r': "circuit r' = circuit r1"
    using assms(1) by (auto simp: Remediate_def split: prod.splits)
  have closed: "checkCircuitBreaker (rv_ck v) r = (None, r)"
    using assms(2) by (simp add: checkCircuitBreaker_def)
  obtain e2 r2 where h: "checkRateLimit (rv_ck v RHour) r = (e2, r2)" by fastforce
  obtain e3 r3 where m: "checkPerMinuteRate (rv_allow v) (rv_ck v RMinute) r2 = (e3, r3)" by fastforce
  have "reg_with_lease v ty p r3 = (Some e, recorded, True, r1)"
    using ph by (auto simp: reg_phases_def closed h m split: option.splits)
  moreover have "circuit r3 = circuit r"
    using circuit_frame(1) [of "rv_ck v RHour" r] circuit_frame(2) [of "rv_allow v" "rv_ck v RMinute" r2]
    by (simp add: h m)
  ultimately show ?thesis using r' reg_with_lease_failed circuit_cong(1) by metis
qed

text \<open>A sequence of calls each of which ran its remediator and failed: the registry after it.\<close>

fun reg_failing ::
  "(('i, 'b) reg_env \<times> string \<times> problem) list \<Rightarrow> ('i, 'b) RemediatorRegistry \<Rightarrow> ('i, 'b) RemediatorRegistry option" where
  "reg_failing [] r = Some r"
| "reg_failing ((v, ty, p) # calls) r =
     (case Remediate v ty p r of (Some e, True, r') \<Rightarrow> reg_failing calls r' | _ \<Rightarrow> None)"

definition failure_times :: "('i, 'b) reg_env \<times> string \<times> problem \<Rightarrow> time \<times> time" where
  "failure_times call = (rv_ck (fst call) RCb1, rv_ck (fst call) RCb2)"

lemma circuit_fold_cong:
  "circuit a = circuit b \<Longrightarrow>
   circuit (fold (\<lambda>t. recordCircuitBreakerFailure (fst t) (snd t)) ts a)
     = circuit (fold (\<lambda>t. recordCircuitBreakerFailure (fst t) (snd t)) ts b)"
proof (induction ts arbitrary: a b)
  case (Cons t ts)
  show ?case using Cons.IH [OF circuit_cong(1) [OF Cons.prems]] by simp
qed simp

lemma reg_failing_circuit:
  assumes "reg_failing calls r = Some r'" "\<not> rgc_Disabled (rg_circuitConfig r)"
    "rg_circuitState r = CircuitClosed"
    "rg_consecutiveFailures r + int (length calls) \<le> rgc_Threshold (rg_circuitConfig r)"
  shows "circuit r' = circuit (fold (\<lambda>t. recordCircuitBreakerFailure (fst t) (snd t)) (map failure_times calls) r)"
  using assms
proof (induction calls arbitrary: r)
  case Nil
  then show ?case by simp
next
  case (Cons call calls)
  let ?fail = "\<lambda>t. recordCircuitBreakerFailure (fst t) (snd t)"
  obtain v ty p where call: "call = (v, ty, p)" by (cases call)
  obtain e r1 where run: "Remediate v ty p r = (Some e, True, r1)" and rest: "reg_failing calls r1 = Some r'"
    using Cons.prems(1) by (auto simp: call split: prod.splits option.splits bool.splits)
  have step: "circuit r1 = circuit (?fail (failure_times call) r)"
    using Remediate_failed [OF run Cons.prems(3)] by (simp add: call failure_times_def)
  show ?case
  proof (cases "calls = []")
    case True
    with rest step show ?thesis by simp
  next
    case False
    then have below: "rg_consecutiveFailures r + 1 < rgc_Threshold (rg_circuitConfig r)"
      using Cons.prems(4) by (cases calls) auto
    have "rg_circuitState r1 = CircuitClosed \<and> rg_consecutiveFailures r1 = rg_consecutiveFailures r + 1
        \<and> rg_circuitConfig r1 = rg_circuitConfig r"
      using step registry_breaker.fail_below [OF Cons.prems(2,3) below, of "failure_times call"]
        settings_fields(5) [OF settings_failure, of "fst (failure_times call)" "snd (failure_times call)" r]
      by (simp add: circuit_def)
    with Cons.IH [OF rest] Cons.prems(2,4) have "circuit r' = circuit (fold ?fail (map failure_times calls) r1)"
      by simp
    with circuit_fold_cong [OF step] show ?thesis by simp
  qed
qed

lemma open_circuit_rejects:
  assumes "rg_circuitState r = CircuitOpen"
    "time_sub (rv_ck v RSince) (rg_circuitOpenedAt r) < rgc_Timeout (rg_circuitConfig r)"
  shows "\<exists>h. Remediate v ty p r = (Some (CircuitIsOpen (time_sub (rv_ck v RSinceErr) (rg_circuitOpenedAt r))
      (rgc_Timeout (rg_circuitConfig r))), False, recordRemediation h r) \<and> \<not> rr_Success h"
  using assms by (auto simp: Remediate_def reg_phases_def checkCircuitBreaker_def)


text \<open>
  C7. On a closed, enabled circuit with no failure counted, any sequence of calls that run their
  remediator and fail leaves the circuit closed while it is shorter than the threshold, and opens
  it when its length reaches the threshold; from then on, until the timeout has passed since the
  opening, every call is rejected without running a remediator and leaves the circuit as it is.\<close>

theorem registry_circuit_trips_and_rejects:
  assumes "reg_failing calls r = Some r'" "\<not> rgc_Disabled (rg_circuitConfig r)"
    "rg_circuitState r = CircuitClosed" "rg_consecutiveFailures r = 0" "0 < rgc_Threshold (rg_circuitConfig r)"
  shows "(int (length calls) < rgc_Threshold (rg_circuitConfig r) \<longrightarrow> rg_circuitState r' = CircuitClosed)
    \<and> (int (length calls) = rgc_Threshold (rg_circuitConfig r) \<longrightarrow> rg_circuitState r' = CircuitOpen
        \<and> (\<forall>v ty p. time_sub (rv_ck v RSince) (rg_circuitOpenedAt r') < rgc_Timeout (rg_circuitConfig r') \<longrightarrow>
             (\<exists>e r''. Remediate v ty p r' = (Some e, False, r'') \<and> circuit r'' = circuit r')))"
proof -
  have len: "length (map failure_times calls) = length calls" by simp
  note trip = registry_breaker.trips_exactly_at_threshold [OF assms(2-5), of "map failure_times calls"]
  have same: "circuit r' = circuit (fold (\<lambda>t. recordCircuitBreakerFailure (fst t) (snd t)) (map failure_times calls) r)"
    if "int (length calls) \<le> rgc_Threshold (rg_circuitConfig r)"
    using reg_failing_circuit [OF assms(1-3)] that assms(4) by simp
  have closed: "rg_circuitState r' = CircuitClosed" if "int (length calls) < rgc_Threshold (rg_circuitConfig r)"
    using same trip(1) that len by (auto simp: circuit_def)
  have opened: "rg_circuitState r' = CircuitOpen" if "int (length calls) = rgc_Threshold (rg_circuitConfig r)"
    using same trip(2) that len by (auto simp: circuit_def)
  have rejects: "\<exists>e r''. Remediate v ty p r' = (Some e, False, r'') \<and> circuit r'' = circuit r'"
    if "rg_circuitState r' = CircuitOpen"
      "time_sub (rv_ck v RSince) (rg_circuitOpenedAt r') < rgc_Timeout (rg_circuitConfig r')" for v ty p
    using open_circuit_rejects [OF that, of ty p] circuit_frame(4) by metis
  from closed opened rejects show ?thesis by blast
qed

lemma half_open_success:
  assumes "rg_circuitState r = CircuitHalfOpen"
    "rg_consecutiveSuccesses r + 1 < rgc_SuccessThreshold (rg_circuitConfig r)"
  shows "rg_circuitState (recordCircuitBreakerSuccess t r) = CircuitHalfOpen"
    "rg_consecutiveSuccesses (recordCircuitBreakerSuccess t r) = rg_consecutiveSuccesses r + 1"
    "rg_circuitConfig (recordCircuitBreakerSuccess t r) = rg_circuitConfig r"
  using assms by (simp_all add: recordCircuitBreakerSuccess_def Let_def)

text \<open>
  Recovery: once the timeout has passed the next check moves the open circuit to half-open
  with no success counted; there it stays through fewer consecutive successes than the success
  threshold, closes with the one that reaches it, and any failure before that opens it again.\<close>

lemma registry_circuit_recovers:
  assumes "rg_circuitState r = CircuitOpen" "\<not> rgc_Disabled (rg_circuitConfig r)"
    "rgc_Timeout (rg_circuitConfig r) \<le> time_sub (ck RSince) (rg_circuitOpenedAt r)"
    "0 < rgc_SuccessThreshold (rg_circuitConfig r)"
    "checkCircuitBreaker ck r = (e, r0)"
    "int (length ts) < rgc_SuccessThreshold (rg_circuitConfig r)"
  shows "e = None \<and> rg_circuitState (fold recordCircuitBreakerSuccess ts r0) = CircuitHalfOpen
    \<and> (int (length ts) + 1 = rgc_SuccessThreshold (rg_circuitConfig r) \<longrightarrow>
         rg_circuitState (recordCircuitBreakerSuccess t (fold recordCircuitBreakerSuccess ts r0)) = CircuitClosed)
    \<and> rg_circuitState (recordCircuitBreakerFailure t t' (fold recordCircuitBreakerSuccess ts r0)) = CircuitOpen
    \<and> rg_circuitOpenedAt (recordCircuitBreakerFailure t t' (fold recordCircuitBreakerSuccess ts r0)) = t"
proof -
  have start: "e = None" "rg_circuitState r0 = CircuitHalfOpen" "rg_consecutiveSuccesses r0 = 0"
    "rg_circuitConfig r0 = rg_circuitConfig r"
    using assms(1,3,5) by (auto simp: checkCircuitBreaker_def)
  have run: "rg_circuitState (fold recordCircuitBreakerSuccess us x) = CircuitHalfOpen
      \<and> rg_consecutiveSuccesses (fold recordCircuitBreakerSuccess us x) = rg_consecutiveSuccesses x + int (length us)
      \<and> rg_circuitConfig (fold recordCircuitBreakerSuccess us x) = rg_circuitConfig x"
    if "rg_circuitState x = CircuitHalfOpen"
      "rg_consecutiveSuccesses x + int (length us) < rgc_SuccessThreshold (rg_circuitConfig x)"
    for us and x :: "('a, 'b) RemediatorRegistry"
    using that by (induction us arbitrary: x) (simp_all add: half_open_success)
  from run [of r0 ts] start assms(2,6) show ?thesis
    by (auto simp: recordCircuitBreakerSuccess_def recordCircuitBreakerFailure_def Let_def)
qed

section \<open>Sequences of calls\<close>

text \<open>
  C6. The hourly limit: for a registry created with a positive limit and any sequence of calls
  whose clock readings do not run backwards, no window of one hour that ends at a successful
  remediation contains more successes than the limit.\<close>

theorem registry_hourly_limit:
  assumes "0 < maxPerHour" "calls_ordered t calls" "rg_remediationTimes r = []"
    "rg_maxPerHour r = rg_maxPerHour (NewRegistry maxPerHour h)" "rg_rateLimitWindow r = hour"
  shows "window_ok maxPerHour hour (fst (reg_run calls ([], r)))"
proof -
  have "rg_maxPerHour r = maxPerHour" using assms(1,4) by (simp add: NewRegistry_def Let_def)
  then have start: "entries_inv t [] r" using assms by (simp add: entries_inv_def)
  have keep: "rg_maxPerHour (snd (reg_run cs (S, x))) = rg_maxPerHour x
      \<and> rg_rateLimitWindow (snd (reg_run cs (S, x))) = rg_rateLimitWindow x"
    if "entries_inv u S x" "calls_ordered u cs" for cs u S and x :: "('a, 'b) RemediatorRegistry"
    using that
  proof (induction cs arbitrary: u S x)
    case (Cons call cs)
    obtain v ty p where call: "call = (v, ty, p)" by (cases call)
    obtain ret did x' where run: "Remediate v ty p x = (ret, did, x')" by (cases "Remediate v ty p x")
    have "sorted (rg_remediationTimes x)" "rg_maxPerHour x \<noteq> 0"
      using Cons.prems(1) by (auto simp: entries_inv_def sorted_append)
    note step = Remediate_times [OF run this]
    have "entries_inv (rv_ck v REntry) (if ret = None then rv_ck v REntry # S else S) x'"
      using entries_inv_step [OF Cons.prems(1) _ _ run] Cons.prems(2) by (simp add: call)
    from Cons.IH [OF this] Cons.prems(2) step show ?case by (simp add: call run)
  qed simp
  from entries_inv_run [OF start assms(2)] keep [OF start assms(2)] assms(5) \<open>rg_maxPerHour r = maxPerHour\<close>
  show ?thesis by (auto simp: entries_inv_def)
qed


lemma reg_phases_settings:
  assumes "reg_phases v ty p r = (ret, recorded, did, r')"
  shows "settings r' = settings r \<and> (recorded = None \<longleftrightarrow> ret = None)"
proof -
  obtain e1 r1 where c: "checkCircuitBreaker (rv_ck v) r = (e1, r1)" by fastforce
  obtain e2 r2 where h: "checkRateLimit (rv_ck v RHour) r1 = (e2, r2)" by fastforce
  obtain e3 r3 where m: "checkPerMinuteRate (rv_allow v) (rv_ck v RMinute) r2 = (e3, r3)" by fastforce
  have same: "settings r1 = settings r" "settings r2 = settings r" "settings r3 = settings r"
    using settings_checkCircuitBreaker [of "rv_ck v" r] settings_checkRateLimit [of "rv_ck v RHour" r1]
      settings_checkPerMinuteRate [of "rv_allow v" "rv_ck v RMinute" r2] by (simp_all add: c h m)
  show ?thesis
    using assms same reg_with_lease_frame [of v ty p r3]
    by (auto simp: reg_phases_def c h m split: option.splits)
qed

text \<open>What a call leaves in the history: its type, its problem and whether it returned no error.\<close>

definition history_view :: "RemediationRecord \<Rightarrow> string \<times> problem \<times> bool" where
  "history_view h = (rr_RemediatorType h, rr_Problem h, rr_Success h)"

lemma recordRemediation_history:
  "0 \<le> rg_maxHistory r \<Longrightarrow> length (rg_history r) \<le> nat (rg_maxHistory r) \<Longrightarrow>
   rg_history (recordRemediation h r) = last_n (nat (rg_maxHistory r)) (rg_history r @ [h])"
  by (auto simp: recordRemediation_def last_n_def Let_def)

lemma Remediate_history:
  assumes "Remediate v ty p r = (ret, did, r')" "0 \<le> rg_maxHistory r"
    "length (rg_history r) \<le> nat (rg_maxHistory r)"
  shows "map history_view (rg_history r')
      = last_n (nat (rg_maxHistory r)) (map history_view (rg_history r) @ [(ty, p, ret = None)])
    \<and> rg_maxHistory r' = rg_maxHistory r"
proof -
  obtain recorded r1 h where ph: "reg_phases v ty p r = (ret, recorded, did, r1)"
    and r': "r' = recordRemediation h r1" and h: "history_view h = (ty, p, recorded = None)"
    using assms(1) by (auto simp: Remediate_def history_view_def split: prod.splits)
  note set = reg_phases_settings [OF ph]
  note same = settings_fields(3,6) [OF conjunct1 [OF set]]
  have "rg_history r' = last_n (nat (rg_maxHistory r)) (rg_history r @ [h])"
    using recordRemediation_history [of r1 h] assms(2,3) same r' by simp
  moreover have "rg_maxHistory r' = rg_maxHistory r"
    using same r' by (simp add: recordRemediation_def Let_def)
  ultimately show ?thesis using h set by (simp add: map_last_n)
qed

fun reg_trace ::
  "(('i, 'b) reg_env \<times> string \<times> problem) list \<Rightarrow> ('i, 'b) RemediatorRegistry \<Rightarrow>
   (string \<times> problem \<times> bool) list \<times> ('i, 'b) RemediatorRegistry" where
  "reg_trace [] r = ([], r)"
| "reg_trace ((v, ty, p) # calls) r =
     (case Remediate v ty p r of (ret, did, r') \<Rightarrow>
        (case reg_trace calls r' of (entries, r'') \<Rightarrow> ((ty, p, ret = None) # entries, r'')))"

lemma reg_trace_history:
  assumes "0 \<le> rg_maxHistory r" "map history_view (rg_history r) = last_n (nat (rg_maxHistory r)) entries"
  shows "map history_view (rg_history (snd (reg_trace calls r)))
      = last_n (nat (rg_maxHistory r)) (entries @ fst (reg_trace calls r))"
  using assms
proof (induction calls arbitrary: r entries)
  case Nil
  then show ?case by simp
next
  case (Cons call calls)
  obtain v ty p where call: "call = (v, ty, p)" by (cases call)
  obtain ret did r' where run: "Remediate v ty p r = (ret, did, r')" by (cases "Remediate v ty p r")
  have "length (rg_history r) \<le> nat (rg_maxHistory r)"
    using arg_cong [OF Cons.prems(2), of length] by (simp add: last_n_def)
  from Remediate_history [OF run Cons.prems(1) this] Cons.prems
  have "map history_view (rg_history r') = last_n (nat (rg_maxHistory r')) (entries @ [(ty, p, ret = None)])"
    "rg_maxHistory r' = rg_maxHistory r" by (auto simp: last_n_snoc)
  with Cons.IH [of r' "entries @ [(ty, p, ret = None)]"] Cons.prems(1) show ?case
    by (simp add: call run case_prod_unfold)
qed

lemma GetHistory_last_n:
  "GetHistory limit r = last_n (if limit \<le> 0 then length (rg_history r) else nat limit) (rg_history r)"
  by (auto simp: GetHistory_def last_n_def Let_def nat_diff_distrib split: if_splits)

text \<open>
  The history of a fresh registry is exactly the most recent calls: after any sequence of
  calls it holds the last \<open>maxHistory\<close> of them, oldest first, each with its type, its problem and a
  success flag that is set exactly when the call returned no error (rejected calls included), and
  \<^verbatim>\<open>GetHistory\<close> with a positive limit returns the last \<open>limit\<close> of those.\<close>

lemma registry_history_is_most_recent:
  assumes "rg_history r = []" "0 \<le> rg_maxHistory r" "reg_trace calls r = (entries, r')"
  shows "map history_view (GetHistory limit r')
    = last_n (if limit \<le> 0 then nat (rg_maxHistory r) else min (nat limit) (nat (rg_maxHistory r))) entries"
proof -
  have h: "map history_view (rg_history r') = last_n (nat (rg_maxHistory r)) entries"
    using reg_trace_history [of r "[]" calls] assms by (simp add: last_n_def)
  have "map history_view (GetHistory limit r') =
      last_n (if limit \<le> 0 then length (map history_view (rg_history r')) else nat limit) (map history_view (rg_history r'))"
    by (simp add: GetHistory_last_n map_last_n)
  then show ?thesis unfolding h by (auto simp: last_n_last_n) (simp add: last_n_def)
qed

section \<open>Strategies\<close>

lemma try_strategies_steps:
  assumes "try_strategies v p i tys lastErr r = (err, dids, r')" "tys \<noteq> []"
  shows "\<exists>rs errs. length rs = length dids + 1 \<and> length errs = length dids \<and> dids \<noteq> []
    \<and> length dids \<le> length tys \<and> rs ! 0 = r \<and> last rs = r'
    \<and> (\<forall>j<length dids. Remediate (v (i + j)) (tys ! j) (p\<lparr>pr_Type := tys ! j\<rparr>) (rs ! j)
         = (errs ! j, dids ! j, rs ! (j + 1)))
    \<and> (\<forall>j. j + 1 < length dids \<longrightarrow> errs ! j \<noteq> None) \<and> err = last errs
    \<and> (err \<noteq> None \<longrightarrow> length dids = length tys)"
  using assms
proof (induction tys arbitrary: i lastErr r err dids)
  case Nil
  then show ?case by simp
next
  case (Cons ty tys)
  obtain e did r1 where run: "Remediate (v i) ty (p\<lparr>pr_Type := ty\<rparr>) r = (e, did, r1)"
    by (cases "Remediate (v i) ty (p\<lparr>pr_Type := ty\<rparr>) r")
  show ?case
  proof (cases "e = None \<or> tys = []")
    case True
    then have "err = e \<and> dids = [did] \<and> r' = r1"
      using Cons.prems(1) run by (auto split: option.splits)
    moreover have "e \<noteq> None \<longrightarrow> length tys = 0" using True by auto
    ultimately show ?thesis using run by (intro exI [of _ "[r, r1]"] exI [of _ "[e]"]) simp
  next
    case False
    then obtain x ds where e: "e = Some x" and rest: "try_strategies v p (i + 1) tys (Some x) r1 = (err, ds, r')"
      and dids: "dids = did # ds"
      using Cons.prems(1) run by (auto split: prod.splits)
    from Cons.IH [OF rest] False obtain rs errs where
      ih: "length rs = length ds + 1" "length errs = length ds" "ds \<noteq> []" "length ds \<le> length tys"
        "rs ! 0 = r1" "last rs = r'"
      and steps: "\<forall>j<length ds. Remediate (v (i + 1 + j)) (tys ! j) (p\<lparr>pr_Type := tys ! j\<rparr>) (rs ! j)
         = (errs ! j, ds ! j, rs ! (j + 1))"
      and tl: "\<forall>j. j + 1 < length ds \<longrightarrow> errs ! j \<noteq> None" "err = last errs"
        "err \<noteq> None \<longrightarrow> length ds = length tys" by blast
    have "Remediate (v (i + j)) ((ty # tys) ! j) (p\<lparr>pr_Type := (ty # tys) ! j\<rparr>) ((r # rs) ! j)
         = ((e # errs) ! j, dids ! j, (r # rs) ! (j + 1))" if "j < length dids" for j
      using that run ih(5) steps dids by (cases j) auto
    moreover have "(e # errs) ! j \<noteq> None" if "j + 1 < length dids" for j
      using that e tl(1) dids by (cases j) auto
    moreover have "rs \<noteq> []" "errs \<noteq> []" using ih(1-3) by auto
    ultimately show ?thesis
      using ih tl dids by (intro exI [of _ "r # rs"] exI [of _ "e # errs"]) auto
  qed
qed

text \<open>
  C8. Multi-strategy remediation tries the strategies in order, each as one full \<^verbatim>\<open>Remediate\<close> call
  on the registry the previous one left and with the problem's type set to its own, and stops at the
  first success: every attempt before the last one failed, it returns no error exactly when the last
  attempt succeeded, and it returns an error only after all strategies were tried, wrapping the last
  error.\<close>

theorem strategies_first_success_wins:
  assumes "tys \<noteq> []" "RemediateWithStrategies v tys p r = (err, dids, r')"
  shows "\<exists>rs errs. length rs = length dids + 1 \<and> length errs = length dids \<and> dids \<noteq> []
    \<and> length dids \<le> length tys \<and> rs ! 0 = r \<and> last rs = r'
    \<and> (\<forall>j<length dids. Remediate (v j) (tys ! j) (p\<lparr>pr_Type := tys ! j\<rparr>) (rs ! j)
         = (errs ! j, dids ! j, rs ! (j + 1)))
    \<and> (\<forall>j. j + 1 < length dids \<longrightarrow> errs ! j \<noteq> None) \<and> (err = None \<longleftrightarrow> last errs = None)
    \<and> (\<forall>e. err = Some e \<longrightarrow> length dids = length tys
         \<and> e = AllStrategiesFailed (int (length tys)) (the (last errs)))"
proof -
  obtain x where tr: "try_strategies v p 0 tys None r = (x, dids, r')"
    and err: "err = map_option (AllStrategiesFailed (int (length tys))) x"
    using assms by (auto simp: RemediateWithStrategies_def split: prod.splits option.splits)
  from try_strategies_steps [OF tr assms(1)] show ?thesis
    unfolding err by (elim exE conjE) (intro exI conjI, simp_all, force?)
qed


section \<open>Witnesses\<close>

definition demo_info :: "unit RemediatorInfo" where
  "demo_info = \<lparr>ri_Type = ''svc'', ri_Factory = Some (\<lambda>_. Created ()), ri_Validator = None, ri_Description = []\<rparr>"

definition demo_registry :: "(unit, unit) RemediatorRegistry" where
  "demo_registry = (NewRegistry 1 2)\<lparr>rg_remediators := [(''svc'', demo_info)],
     rg_circuitConfig := \<lparr>rgc_Threshold = 2, rgc_Timeout = minute, rgc_SuccessThreshold = 2, rgc_Disabled = False\<rparr>\<rparr>"

definition demo_call :: "time \<Rightarrow> call_result \<Rightarrow> (unit, unit) reg_env \<times> string \<times> problem" where
  "demo_call t res = (\<lparr>rv_ck = (\<lambda>_. t), rv_allow = (\<lambda>_ b. (True, b)),
     rv_ops = \<lparr>ro_CanRemediate = (\<lambda>_ _ _. True), ro_Remediate = (\<lambda>_ _ i. (res, i))\<rparr>,
     rv_lease = demo_lease_env, rv_release = None\<rparr>, ''svc'', demo_problem)"

lemmas demo_registry_defs = demo_registry_def demo_call_def demo_info_def NewRegistry_def Remediate_def
  reg_phases_def reg_with_lease_def reg_execute_def checkCircuitBreaker_def checkRateLimit_def
  checkPerMinuteRate_def getOrCreateRemediator_def recordCircuitBreakerSuccess_def
  recordCircuitBreakerFailure_def recordRateLimitEntry_def recordRemediation_def
  notifyCircuitStateObserver_def valid_entries_def Let_def

theorem remediation_runs_only_when_cleared_witness:
  "int (valid_entries (7 - hour) (rg_remediationTimes demo_registry)) < rg_maxPerHour demo_registry"
proof -
  obtain v ty p where call: "demo_call 7 CallOk = (v, ty, p)" by (cases "demo_call 7 CallOk")
  have "\<exists>r'. Remediate v ty p demo_registry = (None, True, r')"
    using call by (auto simp: demo_registry_defs)
  then obtain r' where "Remediate v ty p demo_registry = (None, True, r')" by blast
  from remediation_runs_only_when_cleared [OF this] call show ?thesis
    by (auto simp: demo_registry_def demo_call_def NewRegistry_def Let_def)
qed

theorem registry_circuit_trips_and_rejects_witness:
  "\<exists>r'. reg_failing [demo_call 5 (CallErr ''e''), demo_call 6 (CallPanic ''m'')] demo_registry = Some r'
     \<and> rg_circuitState r' = CircuitOpen"
proof -
  have "\<exists>r'. reg_failing [demo_call 5 (CallErr ''e''), demo_call 6 (CallPanic ''m'')] demo_registry = Some r'"
    by (simp add: demo_registry_defs)
  then obtain r' where
    run: "reg_failing [demo_call 5 (CallErr ''e''), demo_call 6 (CallPanic ''m'')] demo_registry = Some r'" by blast
  from registry_circuit_trips_and_rejects [OF run] run show ?thesis
    by (auto simp: demo_registry_def NewRegistry_def Let_def)
qed

theorem registry_hourly_limit_witness:
  "fst (reg_run [demo_call 5 CallOk, demo_call 6 CallOk] ([], demo_registry)) = [5]
   \<and> window_ok 1 hour (fst (reg_run [demo_call 5 CallOk, demo_call 6 CallOk] ([], demo_registry)))"
proof
  show "fst (reg_run [demo_call 5 CallOk, demo_call 6 CallOk] ([], demo_registry)) = [5]"
    by (simp add: demo_registry_defs)
next
  show "window_ok 1 hour (fst (reg_run [demo_call 5 CallOk, demo_call 6 CallOk] ([], demo_registry)))"
    by (rule registry_hourly_limit [of _ 0 _ _ 2])
      (simp_all add: demo_registry_def demo_call_def NewRegistry_def Let_def)
qed

theorem strategies_first_success_wins_witness:
  "\<exists>r1 r'. Remediate (fst (demo_call 5 CallOk)) ''none'' (demo_problem\<lparr>pr_Type := ''none''\<rparr>) demo_registry
      = (Some (UnknownRemediator ''none'' [''svc'']), False, r1)
    \<and> RemediateWithStrategies (\<lambda>_. fst (demo_call 5 CallOk)) [''none'', ''svc'', ''none''] demo_problem demo_registry
      = (None, [False, True], r')"
proof -
  let ?v = "\<lambda>_. fst (demo_call 5 CallOk)"
  have "\<exists>r'. RemediateWithStrategies ?v [''none'', ''svc'', ''none''] demo_problem demo_registry = (None, [False, True], r')"
    by (simp add: demo_registry_defs RemediateWithStrategies_def)
  then obtain r' where run: "RemediateWithStrategies ?v [''none'', ''svc'', ''none''] demo_problem demo_registry
      = (None, [False, True], r')" by blast
  from strategies_first_success_wins [OF _ run] obtain rs errs where
    "rs ! 0 = demo_registry" "\<forall>j<length [False, True]. Remediate (?v j) ([''none'', ''svc'', ''none''] ! j)
      (demo_problem\<lparr>pr_Type := [''none'', ''svc'', ''none''] ! j\<rparr>) (rs ! j) = (errs ! j, [False, True] ! j, rs ! (j + 1))"
    by auto
  then have step: "Remediate (?v 0) ''none'' (demo_problem\<lparr>pr_Type := ''none''\<rparr>) demo_registry = (errs ! 0, False, rs ! 1)"
    by (auto dest: spec [of _ 0])
  have "fst (Remediate (?v 0) ''none'' (demo_problem\<lparr>pr_Type := ''none''\<rparr>) demo_registry)
      = Some (UnknownRemediator ''none'' [''svc''])"
    by (simp add: demo_registry_defs GetRegisteredTypes_def)
  with step run show ?thesis by auto
qed

end
