(* ===== verification/Paths.thy ===== *)
theory Paths
  imports Prelude
begin

text \<open>
  Slash-separated paths as Go's \<^verbatim>\<open>path/filepath\<close> treats them on Unix: \<^verbatim>\<open>IsAbs\<close>, \<^verbatim>\<open>Clean\<close>, \<^verbatim>\<open>Base\<close> and \<^verbatim>\<open>Dir\<close>.
  \<open>elements\<close> cuts a path at its slashes, \<open>walk\<close> drops empty and \<^verbatim>\<open>.\<close> elements and lets \<^verbatim>\<open>..\<close> remove the
  element before it; the stack is kept in reverse.
\<close>

fun elements :: "string \<Rightarrow> string list" where
  "elements [] = [[]]"
| "elements (c # s) = (if c = CHR ''/'' then [] # elements s
     else case elements s of e # es \<Rightarrow> (c # e) # es | [] \<Rightarrow> [[c]])"

fun walk :: "bool \<Rightarrow> string list \<Rightarrow> string list \<Rightarrow> string list" where
  "walk rooted stack [] = stack"
| "walk rooted stack (e # es) =
     (if e = [] \<or> e = ''.'' then walk rooted stack es
      else if e = ''..'' then
        (case stack of
           t # rest \<Rightarrow> if t = ''..'' then walk rooted (e # stack) es else walk rooted rest es
         | [] \<Rightarrow> if rooted then walk rooted [] es else walk rooted [e] es)
      else walk rooted (e # stack) es)"

definition IsAbs :: "string \<Rightarrow> bool" where
  "IsAbs p = has_prefix p ''/''"

definition Clean :: "string \<Rightarrow> string" where
  "Clean p =
     (let out = join ''/'' (rev (walk (IsAbs p) [] (elements p)))
      in if IsAbs p then CHR ''/'' # out else if out = [] then ''.'' else out)"

definition Base :: "string \<Rightarrow> string" where
  "Base p = (if p = [] then ''.''
     else let q = rev (dropWhile (\<lambda>c. c = CHR ''/'') (rev p));
              b = rev (takeWhile (\<lambda>c. c \<noteq> CHR ''/'') (rev q))
          in if b = [] then ''/'' else b)"

definition Dir :: "string \<Rightarrow> string" where
  "Dir p = Clean (rev (dropWhile (\<lambda>c. c \<noteq> CHR ''/'') (rev p)))"

section \<open>Cleaned paths\<close>

lemma elements_no_slash: "e \<in> set (elements p) \<Longrightarrow> CHR ''/'' \<notin> set e"
  by (induction p arbitrary: e) (auto split: if_splits list.splits)

lemma elements_nonempty [simp]: "elements p \<noteq> []"
  by (induction p) (auto split: list.splits)

text \<open>What is left of a rooted path has no empty, \<^verbatim>\<open>.\<close> or \<^verbatim>\<open>..\<close> element.\<close>

lemma walk_rooted:
  assumes "list_all (\<lambda>e. e \<notin> {[], ''.'', ''..''}) stack"
  shows "list_all (\<lambda>e. e \<notin> {[], ''.'', ''..''}) (walk True stack es)"
  using assms
proof (induction es arbitrary: stack)
  case (Cons e es)
  consider "e = []" | "e = ''.''" | "e = ''..''" | "e \<notin> {[], ''.'', ''..''}" by blast
  then show ?case
  proof cases
    case 3
    then show ?thesis using Cons.IH [of "tl stack"] Cons.IH [of "[]"] Cons.prems by (cases stack) simp_all
  next
    case 4
    then have "walk True stack (e # es) = walk True (e # stack) es" by simp
    with 4 Cons.IH [of "e # stack"] Cons.prems show ?thesis by simp
  qed (use Cons in simp_all)
qed simp

lemma walk_elements: "set (walk rooted stack es) \<subseteq> set stack \<union> set es"
proof (induction es arbitrary: stack)
  case (Cons e es)
  show ?case
  proof (cases stack)
    case Nil
    then show ?thesis using Cons.IH [of "[]"] Cons.IH [of "[e]"] by auto
  next
    case (Cons t rest)
    then show ?thesis using Cons.IH [of stack] Cons.IH [of rest] Cons.IH [of "e # stack"] by auto
  qed
qed simp

lemma elements_append:
  "CHR ''/'' \<notin> set a \<Longrightarrow> elements (a @ CHR ''/'' # b) = a # elements b"
  "CHR ''/'' \<notin> set a \<Longrightarrow> elements a = [a]"
  by (induction a) auto

lemma elements_join:
  "\<forall>e\<in>set es. CHR ''/'' \<notin> set e \<Longrightarrow> es \<noteq> [] \<Longrightarrow> elements (join ''/'' es) = es"
proof (induction "''/''" es rule: join.induct)
  case (3 x y ys)
  then show ?case by (simp add: elements_append)
qed (simp_all add: elements_append)

text \<open>The elements of a cleaned absolute path.\<close>

lemma elements_Clean:
  assumes "IsAbs p"
  shows "\<forall>e\<in>set (elements (Clean p)). e \<noteq> ''..''"
proof -
  let ?w = "rev (walk True [] (elements p))"
  have ok: "\<forall>e\<in>set ?w. e \<noteq> ''..''" using walk_rooted [of "[]" "elements p"] by (simp add: list_all_iff)
  have slash: "\<forall>e\<in>set ?w. CHR ''/'' \<notin> set e"
    using walk_elements [of True "[]" "elements p"] elements_no_slash [of _ p] by auto
  have "set (elements (CHR ''/'' # join ''/'' ?w)) \<subseteq> insert [] (set ?w)"
    using elements_join [OF slash] by (cases "?w = []") auto
  with ok assms show ?thesis by (auto simp: Clean_def)
qed

end
