(* ===== verification/Reload_Watcher.thy ===== *)
theory Reload_Watcher
  imports Paths
begin

text \<open>
  \<^verbatim>\<open>pkg/reload/watcher.go\<close>: the watcher that turns file system events into change notifications. Its event loop
  is a step relation: every action is one case of the \<^verbatim>\<open>select\<close>, with the time at which it happens. The
  loop's two variables for the debounce timer are the deadline, if the timer runs; the channel for the
  notifications has room for one. Of an event's operation the two bits that the code looks at are kept.
  Closing the channels at the end is left out.
\<close>

section \<open>Definitions\<close>

record fs_event =
  fe_Name :: string
  fe_Write :: bool
  fe_Create :: bool

record ConfigWatcher =
  cw_configPath :: string
  cw_debounceInterval :: duration
  cw_running :: bool

record watch_state =
  ws_timer :: "time option"
  ws_pending :: bool

datatype watcher_error = EmptyWatchPath | NoFsWatcher string | WatcherRunning | CannotWatch string string

definition NewConfigWatcher :: "string option \<Rightarrow> string \<Rightarrow> duration \<Rightarrow> watcher_error + ConfigWatcher" where
  "NewConfigWatcher fsnotify path debounce =
     (if path = [] then Inl EmptyWatchPath
      else case fsnotify of Some e \<Rightarrow> Inl (NoFsWatcher e)
      | None \<Rightarrow> Inr \<lparr>cw_configPath = path, cw_debounceInterval = (if debounce \<le> 0 then 500 * 1000000 else debounce),
          cw_running = False\<rparr>)"

definition Watcher_Start :: "(string \<Rightarrow> string option) \<Rightarrow> ConfigWatcher \<Rightarrow> watcher_error option \<times> ConfigWatcher" where
  "Watcher_Start add cw =
     (if cw_running cw then (Some WatcherRunning, cw)
      else case add (Dir (cw_configPath cw)) of Some e \<Rightarrow> (Some (CannotWatch (Dir (cw_configPath cw)) e), cw)
      | None \<Rightarrow> (None, cw\<lparr>cw_running := True\<rparr>))"

definition Watcher_Stop :: "ConfigWatcher \<Rightarrow> ConfigWatcher" where
  "Watcher_Stop cw = cw\<lparr>cw_running := False\<rparr>"

definition isConfigFileEvent :: "ConfigWatcher \<Rightarrow> fs_event \<Rightarrow> bool" where
  "isConfigFileEvent cw e =
     (let eventPath = Clean (fe_Name e); configPath = Clean (cw_configPath cw)
      in if eventPath = configPath then True
         else Base eventPath = ''..data'' \<and> Dir eventPath = Dir configPath)"

definition concerns :: "ConfigWatcher \<Rightarrow> fs_event \<Rightarrow> bool" where
  "concerns cw e = (isConfigFileEvent cw e \<and> (fe_Write e \<or> fe_Create e))"

datatype watch_action = FsEvent time fs_event | FsError time | TimerFires time | ChangeTaken time

inductive processEvents :: "ConfigWatcher \<Rightarrow> watch_action list \<Rightarrow> watch_state \<Rightarrow> bool" for cw where
  start: "processEvents cw [] \<lparr>ws_timer = None, ws_pending = False\<rparr>"
| edit: "processEvents cw acts s \<Longrightarrow> concerns cw e \<Longrightarrow>
    processEvents cw (acts @ [FsEvent t e]) (s\<lparr>ws_timer := Some (t + cw_debounceInterval cw)\<rparr>)"
| other: "processEvents cw acts s \<Longrightarrow> \<not> concerns cw e \<Longrightarrow> processEvents cw (acts @ [FsEvent t e]) s"
| fault: "processEvents cw acts s \<Longrightarrow> processEvents cw (acts @ [FsError t]) s"
| fires: "processEvents cw acts s \<Longrightarrow> ws_timer s = Some d \<Longrightarrow> d \<le> t \<Longrightarrow>
    processEvents cw (acts @ [TimerFires t]) (s\<lparr>ws_timer := None, ws_pending := True\<rparr>)"
| taken: "processEvents cw acts s \<Longrightarrow> ws_pending s \<Longrightarrow>
    processEvents cw (acts @ [ChangeTaken t]) (s\<lparr>ws_pending := False\<rparr>)"

inductive_cases fires_last: "processEvents cw (acts @ [TimerFires t]) s"

section \<open>The timer and the notifications\<close>

fun is_edit :: "ConfigWatcher \<Rightarrow> watch_action \<Rightarrow> bool" where
  "is_edit cw (FsEvent t e) = concerns cw e"
| "is_edit cw _ = False"

fun is_fire :: "watch_action \<Rightarrow> bool" where
  "is_fire (TimerFires t) = True"
| "is_fire _ = False"

fun is_taken :: "watch_action \<Rightarrow> bool" where
  "is_taken (ChangeTaken t) = True"
| "is_taken _ = False"

text \<open>A running timer was set by the last edit, and has not fired since.\<close>

lemma timer_set_by_last_edit:
  "processEvents cw acts s \<Longrightarrow> ws_timer s = Some d \<Longrightarrow>
     \<exists>u t e w. acts = u @ FsEvent t e # w \<and> concerns cw e \<and> d = t + cw_debounceInterval cw
       \<and> list_all (\<lambda>a. \<not> is_edit cw a \<and> \<not> is_fire a) w"
proof (induction rule: processEvents.induct)
  case (edit acts s e t)
  then show ?case by (intro exI [of _ acts] exI [of _ t] exI [of _ e] exI [of _ "[]"]) simp
next
  case (other acts s e t)
  then obtain u t' e' w where "acts = u @ FsEvent t' e' # w" "concerns cw e'" "d = t' + cw_debounceInterval cw"
    "list_all (\<lambda>a. \<not> is_edit cw a \<and> \<not> is_fire a) w" by blast
  with other(2) show ?case by (intro exI [of _ u] exI [of _ t'] exI [of _ e'] exI [of _ "w @ [FsEvent t e]"]) simp
next
  case (fault acts s t)
  then obtain u t' e' w where "acts = u @ FsEvent t' e' # w" "concerns cw e'" "d = t' + cw_debounceInterval cw"
    "list_all (\<lambda>a. \<not> is_edit cw a \<and> \<not> is_fire a) w" by blast
  then show ?case by (intro exI [of _ u] exI [of _ t'] exI [of _ e'] exI [of _ "w @ [FsError t]"]) simp
next
  case (taken acts s t)
  then obtain u t' e' w where "acts = u @ FsEvent t' e' # w" "concerns cw e'" "d = t' + cw_debounceInterval cw"
    "list_all (\<lambda>a. \<not> is_edit cw a \<and> \<not> is_fire a) w" by auto
  then show ?case by (intro exI [of _ u] exI [of _ t'] exI [of _ e'] exI [of _ "w @ [ChangeTaken t]"]) simp
qed simp_all

text \<open>After an edit: the timer runs, or it has fired and the notification waits, or was taken after that.\<close>

definition outstanding :: "watch_action list \<Rightarrow> watch_state \<Rightarrow> bool" where
  "outstanding w s \<longleftrightarrow> ws_timer s \<noteq> None \<or> ws_pending s \<and> list_ex is_fire w
     \<or> (\<exists>x y z. w = x @ y # z \<and> is_fire y \<and> list_ex is_taken z)"

lemma fired_then_taken: "list_ex is_fire w \<Longrightarrow> \<exists>x y z. w @ [ChangeTaken t] = x @ y # z \<and> is_fire y \<and> list_ex is_taken z"
proof -
  assume "list_ex is_fire w"
  then obtain x y z where "w = x @ y # z" "is_fire y" by (auto simp: list_ex_iff in_set_conv_decomp)
  then show ?thesis by (intro exI [of _ x] exI [of _ y] exI [of _ "z @ [ChangeTaken t]"]) simp
qed

lemma taken_extend:
  "\<exists>x y z. w = x @ y # z \<and> is_fire y \<and> list_ex is_taken z \<Longrightarrow> \<exists>x y z. w @ [a] = x @ y # z \<and> is_fire y \<and> list_ex is_taken z"
  by (metis append.assoc append_Cons list_ex_append)

lemma outstanding_step:
  assumes "outstanding w s"
  shows "outstanding (w @ [FsEvent t e]) s" "outstanding (w @ [FsError t]) s"
    "outstanding (w @ [FsEvent t e]) (s\<lparr>ws_timer := Some d\<rparr>)"
    "outstanding (w @ [TimerFires t]) (s\<lparr>ws_timer := None, ws_pending := True\<rparr>)"
    "outstanding (w @ [ChangeTaken t]) (s\<lparr>ws_pending := False\<rparr>)"
  using assms fired_then_taken [of w t] taken_extend [of w] by (auto simp: outstanding_def)

lemma edit_is_outstanding:
  "processEvents cw acts s \<Longrightarrow> acts = u @ FsEvent t0 e0 # w \<Longrightarrow> concerns cw e0 \<Longrightarrow> outstanding w s"
proof (induction arbitrary: w rule: processEvents.induct)
  case (edit acts s e t)
  then show ?case by (simp add: outstanding_def)
next
  case (other acts s e t)
  then show ?case by (cases w rule: rev_cases) (auto intro: outstanding_step)
next
  case (fault acts s t)
  then show ?case by (cases w rule: rev_cases) (auto intro: outstanding_step)
next
  case (fires acts s d t)
  then show ?case by (cases w rule: rev_cases) (auto intro: outstanding_step)
next
  case (taken acts s t)
  then show ?case by (cases w rule: rev_cases) (auto intro: outstanding_step)
qed simp

section \<open>Property\<close>

text \<open>
  C20. The watcher neither loses an edit nor announces it early. In every run of the event loop: when the timer fires,
  an edit of the configuration file (or of the link through which a mounted ConfigMap is swapped) came before, at
  least the debounce interval ago, and none since; and an edit of any earlier point is still on its way: the timer
  runs, or it has fired since and a notification waits, or one was taken after it fired.\<close>

theorem watcher_delivers_every_edit:
  "(processEvents cw (acts @ [TimerFires t]) s \<longrightarrow>
      (\<exists>u t0 e w. acts = u @ FsEvent t0 e # w \<and> concerns cw e \<and> t0 + cw_debounceInterval cw \<le> t
         \<and> list_all (\<lambda>a. \<not> is_edit cw a) w))
   \<and> (processEvents cw (u @ FsEvent t0 e # w) s \<longrightarrow> concerns cw e \<longrightarrow>
      ws_timer s \<noteq> None \<or> ws_pending s \<and> list_ex is_fire w
      \<or> (\<exists>x y z. w = x @ y # z \<and> is_fire y \<and> list_ex is_taken z))"
proof (intro conjI impI)
  assume "processEvents cw (acts @ [TimerFires t]) s"
  then obtain s0 d where s0: "processEvents cw acts s0" "ws_timer s0 = Some d" "d \<le> t" by (rule fires_last) auto
  from timer_set_by_last_edit [OF s0(1,2)] s0(3)
  show "\<exists>u t0 e w. acts = u @ FsEvent t0 e # w \<and> concerns cw e \<and> t0 + cw_debounceInterval cw \<le> t
      \<and> list_all (\<lambda>a. \<not> is_edit cw a) w" by (fastforce simp: list_all_iff)
next
  assume "processEvents cw (u @ FsEvent t0 e # w) s" "concerns cw e"
  from edit_is_outstanding [OF this(1) refl this(2)]
  show "ws_timer s \<noteq> None \<or> ws_pending s \<and> list_ex is_fire w
      \<or> (\<exists>x y z. w = x @ y # z \<and> is_fire y \<and> list_ex is_taken z)" by (simp add: outstanding_def)
qed

definition demo_watcher :: ConfigWatcher where
  "demo_watcher = \<lparr>cw_configPath = ''/etc/nd/c.yaml'', cw_debounceInterval = 5, cw_running = True\<rparr>"

definition demo_edit :: fs_event where
  "demo_edit = \<lparr>fe_Name = ''/etc/nd/..data'', fe_Write = False, fe_Create = True\<rparr>"

theorem watcher_delivers_every_edit_witness:
  "\<exists>s. processEvents demo_watcher ([FsEvent 1 demo_edit, FsEvent 3 demo_edit] @ [TimerFires 8]) s
     \<and> (ws_timer s \<noteq> None \<or> ws_pending s)"
proof -
  let ?s = "\<lparr>ws_timer = None, ws_pending = False\<rparr>"
  have edit: "concerns demo_watcher demo_edit"
    by (simp add: concerns_def isConfigFileEvent_def demo_watcher_def demo_edit_def Clean_def Base_def Dir_def IsAbs_def
        has_prefix_def Let_def)
  have "processEvents demo_watcher ([] @ [FsEvent 1 demo_edit]) (?s\<lparr>ws_timer := Some (1 + cw_debounceInterval demo_watcher)\<rparr>)"
    by (rule processEvents.edit [OF processEvents.start edit])
  from processEvents.edit [OF this edit, of 3]
  have "processEvents demo_watcher [FsEvent 1 demo_edit, FsEvent 3 demo_edit] \<lparr>ws_timer = Some 8, ws_pending = False\<rparr>"
    by (simp add: demo_watcher_def)
  from processEvents.fires [OF this, of 8 8]
  have run: "processEvents demo_watcher ([FsEvent 1 demo_edit, FsEvent 3 demo_edit] @ [TimerFires 8]) \<lparr>ws_timer = None, ws_pending = True\<rparr>"
    by simp
  then have "processEvents demo_watcher ([FsEvent 1 demo_edit] @ FsEvent 3 demo_edit # [TimerFires 8]) \<lparr>ws_timer = None, ws_pending = True\<rparr>"
    by simp
  with watcher_delivers_every_edit [of demo_watcher "[FsEvent 1 demo_edit, FsEvent 3 demo_edit]" 8 "\<lparr>ws_timer = None, ws_pending = True\<rparr>"
      "[FsEvent 1 demo_edit]" 3 demo_edit "[TimerFires 8]"] edit run
  show ?thesis by (intro exI [of _ "\<lparr>ws_timer = None, ws_pending = True\<rparr>"]) simp
qed

end
