(* ===== verification/Config_Defaults.thy ===== *)
theory Config_Defaults
  imports Config_Types
begin

text \<open>
  \<^verbatim>\<open>pkg/types/config.go\<close>, the \<^verbatim>\<open>ApplyDefaults\<close> methods. \<open>parse\<close> is \<^verbatim>\<open>time.ParseDuration\<close>, with \<open>None\<close>
  for a text it rejects. A method returns the struct with its defaults or the error; what a failing
  method wrote before it failed is not kept, since the callers drop the configuration then.
\<close>

section \<open>Definitions\<close>

datatype config_error =
    InvalidDuration string string
  | FieldRequired string
  | InvalidField string string
  | MustBePositive string
  | MustBeNonNegative string
  | BelowMinimum string
  | AboveMaximum string
  | TimeoutNotBelowInterval
  | DuplicateName string string
  | DepthExceeded
  | NonExistentDependency string string
  | CircularDependency "string list"
  | UnknownMonitorType string string "string list"
  | ThresholdRange string string
  | Within string config_error
  | WithinIndex string nat config_error

definition DefaultLogLevel :: string where "DefaultLogLevel = ''info''"
definition DefaultLogFormat :: string where "DefaultLogFormat = ''json''"
definition DefaultLogOutput :: string where "DefaultLogOutput = ''stdout''"
definition DefaultUpdateInterval :: string where "DefaultUpdateInterval = ''10s''"
definition DefaultResyncInterval :: string where "DefaultResyncInterval = ''60s''"
definition DefaultHeartbeatInterval :: string where "DefaultHeartbeatInterval = ''5m''"
definition DefaultConditionStaleTTL :: string where "DefaultConditionStaleTTL = ''6m''"
definition DefaultMonitorInterval :: string where "DefaultMonitorInterval = ''30s''"
definition DefaultMonitorTimeout :: string where "DefaultMonitorTimeout = ''10s''"
definition DefaultCircuitBreakerTimeout :: string where "DefaultCircuitBreakerTimeout = ''30m''"
definition MaxRecursionDepth :: nat where "MaxRecursionDepth = 10"

definition orDefault :: "'a \<Rightarrow> 'a \<Rightarrow> 'a \<Rightarrow> 'a" where
  "orDefault zero d x = (if x = zero then d else x)"

definition parseField :: "(string \<Rightarrow> duration option) \<Rightarrow> string \<Rightarrow> string \<Rightarrow> config_error + duration" where
  "parseField parse field text =
     (case parse text of None \<Rightarrow> Inl (InvalidDuration field text) | Some d \<Rightarrow> Inr d)"

definition wrapE :: "(config_error \<Rightarrow> config_error) \<Rightarrow> config_error + 'a \<Rightarrow> config_error + 'a" where
  "wrapE w x = (case x of Inl e \<Rightarrow> Inl (w e) | Inr y \<Rightarrow> Inr y)"

definition ReloadConfig_ApplyDefaults ::
  "(string \<Rightarrow> duration option) \<Rightarrow> ReloadConfig \<Rightarrow> config_error + ReloadConfig" where
  "ReloadConfig_ApplyDefaults parse r =
     (let en = (case rl_Enabled r of None \<Rightarrow> Some True | Some b \<Rightarrow> Some b);
          s = orDefault [] ''500ms'' (rl_DebounceIntervalString r)
      in bindE (parseField parse ''debounceInterval'' s) (\<lambda>d.
           Inr (r\<lparr>rl_Enabled := en, rl_DebounceIntervalString := s, rl_DebounceInterval := d\<rparr>)))"

definition GlobalSettings_ApplyDefaults ::
  "(string \<Rightarrow> duration option) \<Rightarrow> GlobalSettings \<Rightarrow> config_error + GlobalSettings" where
  "GlobalSettings_ApplyDefaults parse s =
     (let us = orDefault [] DefaultUpdateInterval (gs_UpdateIntervalString s);
          rs = orDefault [] DefaultResyncInterval (gs_ResyncIntervalString s);
          hs = orDefault [] DefaultHeartbeatInterval (gs_HeartbeatIntervalString s)
      in bindE (parseField parse ''updateInterval'' us) (\<lambda>u.
         bindE (parseField parse ''resyncInterval'' rs) (\<lambda>r.
         bindE (parseField parse ''heartbeatInterval'' hs) (\<lambda>h.
           Inr (s\<lparr>gs_LogLevel := orDefault [] DefaultLogLevel (gs_LogLevel s),
                  gs_LogFormat := orDefault [] DefaultLogFormat (gs_LogFormat s),
                  gs_LogOutput := orDefault [] DefaultLogOutput (gs_LogOutput s),
                  gs_UpdateIntervalString := us, gs_ResyncIntervalString := rs,
                  gs_HeartbeatIntervalString := hs,
                  gs_UpdateInterval := u, gs_ResyncInterval := r, gs_HeartbeatInterval := h,
                  gs_QPS := orDefault 0 50 (gs_QPS s), gs_Burst := orDefault 0 100 (gs_Burst s)\<rparr>)))))"

definition precondition_defaults ::
  "(string \<Rightarrow> duration option) \<Rightarrow> RemediationPrecondition \<Rightarrow> config_error + RemediationPrecondition" where
  "precondition_defaults parse p =
     (if rp_MaxAgeString p = [] then Inr p
      else bindE (parseField parse ''maxAge'' (rp_MaxAgeString p)) (\<lambda>d. Inr (p\<lparr>rp_MaxAge := d\<rparr>)))"

text \<open>The nesting of strategies, which bounds the recursion of the methods below.\<close>

fun nesting :: "MonitorRemediationConfig \<Rightarrow> nat" and nesting_all :: "MonitorRemediationConfig list \<Rightarrow> nat" where
  "nesting (MonitorRemediationConfig en st ac sv sp itf args strats rse tc ma cs cd pre) = Suc (nesting_all strats)"
| "nesting_all [] = 0"
| "nesting_all (s # ss) = Suc (nesting s + nesting_all ss)"

text \<open>\<^verbatim>\<open>applyDefaultsWithDepth\<close> and its loop over the nested strategies, each of which is first given its
  defaults from depth 0 and then once more at the next depth.\<close>

function applyDefaultsWithDepth ::
    "(string \<Rightarrow> duration option) \<Rightarrow> nat \<Rightarrow> MonitorRemediationConfig \<Rightarrow> config_error + MonitorRemediationConfig"
  and strategies_defaults ::
    "(string \<Rightarrow> duration option) \<Rightarrow> nat \<Rightarrow> MonitorRemediationConfig list \<Rightarrow> config_error + MonitorRemediationConfig list" where
  "applyDefaultsWithDepth parse depth (MonitorRemediationConfig en st ac sv sp itf args strats rse tc ma cs cd pre) =
     (if depth > MaxRecursionDepth then Inl DepthExceeded
      else bindE (if cs = [] then Inr cd else parseField parse ''cooldown'' cs) (\<lambda>cd'.
           bindE (mapE (precondition_defaults parse) pre) (\<lambda>pre'.
           bindE (strategies_defaults parse depth strats) (\<lambda>strats'.
             Inr (MonitorRemediationConfig en st ac sv sp itf args strats' rse tc ma cs cd' pre')))))"
| "strategies_defaults parse depth [] = Inr []"
| "strategies_defaults parse depth (s # ss) =
     bindE (applyDefaultsWithDepth parse 0 s) (\<lambda>s1.
     bindE (applyDefaultsWithDepth parse (depth + 1) s1) (\<lambda>s2.
     bindE (strategies_defaults parse depth ss) (\<lambda>ss'. Inr (s2 # ss'))))"
  by pat_completeness auto

termination
proof -
  have nesting_kept:
    "applyDefaultsWithDepth_strategies_defaults_dom (Inl (parse, depth, r)) \<Longrightarrow>
       (\<forall>r'. applyDefaultsWithDepth parse depth r = Inr r' \<longrightarrow> nesting r' = nesting r)"
    "applyDefaultsWithDepth_strategies_defaults_dom (Inr (parse, depth, rs)) \<Longrightarrow>
       (\<forall>rs'. strategies_defaults parse depth rs = Inr rs' \<longrightarrow> nesting_all rs' = nesting_all rs)"
    for parse depth r rs
    by (induction parse depth r and parse depth rs rule: applyDefaultsWithDepth_strategies_defaults.pinduct)
      (auto simp: applyDefaultsWithDepth.psimps strategies_defaults.psimps bindE_eq_Inr split: if_splits)
  show ?thesis
    by (relation "measure (\<lambda>x. case x of Inl (parse, depth, r) \<Rightarrow> nesting r | Inr (parse, depth, rs) \<Rightarrow> nesting_all rs)")
      (auto simp: nesting_kept)
qed

definition MonitorRemediationConfig_ApplyDefaults ::
  "(string \<Rightarrow> duration option) \<Rightarrow> MonitorRemediationConfig \<Rightarrow> config_error + MonitorRemediationConfig" where
  "MonitorRemediationConfig_ApplyDefaults parse r = applyDefaultsWithDepth parse 0 r"

definition MonitorConfig_ApplyDefaults ::
  "(string \<Rightarrow> duration option) \<Rightarrow> MonitorConfig \<Rightarrow> config_error + MonitorConfig" where
  "MonitorConfig_ApplyDefaults parse m =
     (let is = orDefault [] DefaultMonitorInterval (mc_IntervalString m);
          ts = orDefault [] DefaultMonitorTimeout (mc_TimeoutString m)
      in bindE (parseField parse ''interval'' is) (\<lambda>i.
         bindE (parseField parse ''timeout'' ts) (\<lambda>t.
         bindE (wrapE (Within ''remediation'')
             (optE (MonitorRemediationConfig_ApplyDefaults parse) (mc_Remediation m))) (\<lambda>r.
           Inr (m\<lparr>mc_IntervalString := is, mc_TimeoutString := ts, mc_Interval := i, mc_Timeout := t,
                  mc_Remediation := r\<rparr>)))))"

definition optional_duration ::
  "(string \<Rightarrow> duration option) \<Rightarrow> string \<Rightarrow> string \<Rightarrow> duration \<Rightarrow> config_error + duration" where
  "optional_duration parse field text current =
     (if text \<noteq> [] then parseField parse field text else Inr current)"

definition KubernetesExporterConfig_ApplyDefaults ::
  "(string \<Rightarrow> duration option) \<Rightarrow> KubernetesExporterConfig \<Rightarrow> config_error + KubernetesExporterConfig" where
  "KubernetesExporterConfig_ApplyDefaults parse k =
     (let us = orDefault [] DefaultUpdateInterval (ke_UpdateIntervalString k);
          rs = orDefault [] DefaultResyncInterval (ke_ResyncIntervalString k);
          hs = orDefault [] DefaultHeartbeatInterval (ke_HeartbeatIntervalString k);
          cs = orDefault [] DefaultConditionStaleTTL (ke_ConditionStaleTTLString k);
          ev = ke_Events k
      in bindE (parseField parse ''updateInterval'' us) (\<lambda>u.
         bindE (parseField parse ''resyncInterval'' rs) (\<lambda>r.
         bindE (parseField parse ''heartbeatInterval'' hs) (\<lambda>h.
         bindE (parseField parse ''conditionStaleTTL'' cs) (\<lambda>c.
         bindE (optional_duration parse ''eventTTL'' (ec_EventTTLString ev) (ec_EventTTL ev)) (\<lambda>t.
         bindE (optional_duration parse ''deduplicationWindow'' (ec_DeduplicationWindowString ev)
                  (ec_DeduplicationWindow ev)) (\<lambda>w.
           Inr (k\<lparr>ke_UpdateIntervalString := us, ke_ResyncIntervalString := rs,
                  ke_HeartbeatIntervalString := hs, ke_ConditionStaleTTLString := cs,
                  ke_UpdateInterval := u, ke_ResyncInterval := r, ke_HeartbeatInterval := h,
                  ke_ConditionStaleTTL := c,
                  ke_Events := ev\<lparr>ec_EventTTL := t, ec_DeduplicationWindow := w\<rparr>\<rparr>))))))))"

definition AuthConfig_default :: "AuthConfig \<Rightarrow> AuthConfig" where
  "AuthConfig_default a = a\<lparr>au_Type := orDefault [] ''none'' (au_Type a)\<rparr>"

text \<open>A delay that is taken from its text or, when the text is empty, copied with the text from elsewhere.\<close>

definition inherit_delay ::
  "(string \<Rightarrow> duration option) \<Rightarrow> string \<Rightarrow> string \<times> duration \<Rightarrow> string \<Rightarrow> config_error + string \<times> duration" where
  "inherit_delay parse field fallback text =
     (if text = [] then Inr fallback else bindE (parseField parse field text) (\<lambda>d. Inr (text, d)))"

text \<open>The retry settings of a webhook: those of the fallback, field by field where its own are missing.\<close>

definition retry_defaults ::
  "(string \<Rightarrow> duration option) \<Rightarrow> RetryConfig \<Rightarrow> RetryConfig option \<Rightarrow> config_error + RetryConfig" where
  "retry_defaults parse fb ro =
     (case ro of None \<Rightarrow> Inr fb
      | Some r \<Rightarrow>
          bindE (inherit_delay parse ''baseDelay'' (rc_BaseDelayString fb, rc_BaseDelay fb) (rc_BaseDelayString r)) (\<lambda>b.
          bindE (inherit_delay parse ''maxDelay'' (rc_MaxDelayString fb, rc_MaxDelay fb) (rc_MaxDelayString r)) (\<lambda>m.
            Inr \<lparr>rc_MaxAttempts = orDefault 0 (rc_MaxAttempts fb) (rc_MaxAttempts r),
                 rc_BaseDelayString = fst b, rc_BaseDelay = snd b,
                 rc_MaxDelayString = fst m, rc_MaxDelay = snd m\<rparr>)))"

definition controller_retry :: RetryConfig where
  "controller_retry = \<lparr>rc_MaxAttempts = 3, rc_BaseDelayString = ''1s'', rc_BaseDelay = second,
     rc_MaxDelayString = ''10s'', rc_MaxDelay = 10 * second\<rparr>"

definition ControllerWebhookConfig_ApplyDefaults ::
  "(string \<Rightarrow> duration option) \<Rightarrow> ControllerWebhookConfig \<Rightarrow> config_error + ControllerWebhookConfig" where
  "ControllerWebhookConfig_ApplyDefaults parse c =
     (let is = orDefault [] ''30s'' (cw_IntervalString c);
          ts = orDefault [] ''10s'' (cw_TimeoutString c)
      in bindE (parseField parse ''interval'' is) (\<lambda>i.
         bindE (parseField parse ''timeout'' ts) (\<lambda>t.
         bindE (retry_defaults parse controller_retry (cw_Retry c)) (\<lambda>r.
           Inr (c\<lparr>cw_IntervalString := is, cw_Interval := i, cw_TimeoutString := ts, cw_Timeout := t,
                  cw_Auth := AuthConfig_default (cw_Auth c), cw_Retry := Some r\<rparr>)))))"

definition WebhookEndpoint_ApplyDefaults ::
  "(string \<Rightarrow> duration option) \<Rightarrow> HTTPExporterConfig \<Rightarrow> WebhookEndpoint \<Rightarrow> config_error + WebhookEndpoint" where
  "WebhookEndpoint_ApplyDefaults parse parent w =
     (let both = \<not> wh_SendStatus w \<and> \<not> wh_SendProblems w
      in bindE (inherit_delay parse ''timeout'' (he_TimeoutString parent, he_Timeout parent) (wh_TimeoutString w)) (\<lambda>t.
         bindE (retry_defaults parse (he_Retry parent) (wh_Retry w)) (\<lambda>r.
           Inr (w\<lparr>wh_TimeoutString := fst t, wh_Timeout := snd t, wh_Retry := Some r,
                  wh_SendStatus := (both \<or> wh_SendStatus w), wh_SendProblems := (both \<or> wh_SendProblems w),
                  wh_Auth := AuthConfig_default (wh_Auth w)\<rparr>))))"

definition HTTPExporterConfig_ApplyDefaults ::
  "(string \<Rightarrow> duration option) \<Rightarrow> HTTPExporterConfig \<Rightarrow> config_error + HTTPExporterConfig" where
  "HTTPExporterConfig_ApplyDefaults parse h =
     (let ts = orDefault [] ''30s'' (he_TimeoutString h); r = he_Retry h;
          bs = orDefault [] ''1s'' (rc_BaseDelayString r);
          ms = orDefault [] ''30s'' (rc_MaxDelayString r)
      in bindE (parseField parse ''timeout'' ts) (\<lambda>t.
         bindE (parseField parse ''baseDelay'' bs) (\<lambda>b.
         bindE (parseField parse ''maxDelay'' ms) (\<lambda>m.
           let h1 = h\<lparr>he_Workers := orDefault 0 5 (he_Workers h), he_QueueSize := orDefault 0 100 (he_QueueSize h),
                  he_TimeoutString := ts, he_Timeout := t,
                  he_Retry := \<lparr>rc_MaxAttempts = orDefault 0 3 (rc_MaxAttempts r), rc_BaseDelayString = bs,
                               rc_BaseDelay = b, rc_MaxDelayString = ms, rc_MaxDelay = m\<rparr>\<rparr>
           in bindE (mapE (\<lambda>w. wrapE (Within (wh_Name w)) (WebhookEndpoint_ApplyDefaults parse h1 w)) (he_Webhooks h1)) (\<lambda>ws.
              bindE (wrapE (Within ''controller'') (optE (ControllerWebhookConfig_ApplyDefaults parse) (he_Controller h1))) (\<lambda>c.
                Inr (h1\<lparr>he_Webhooks := ws, he_Controller := c\<rparr>)))))))"

definition PrometheusExporterConfig_ApplyDefaults :: "PrometheusExporterConfig \<Rightarrow> PrometheusExporterConfig" where
  "PrometheusExporterConfig_ApplyDefaults p =
     p\<lparr>pe_Port := orDefault 0 9100 (pe_Port p), pe_BindAddress := orDefault [] ''::'' (pe_BindAddress p),
       pe_Path := orDefault [] ''/metrics'' (pe_Path p), pe_Namespace := orDefault [] ''node_doctor'' (pe_Namespace p)\<rparr>"

definition RemediationCoordinationConfig_ApplyDefaults ::
  "(string \<Rightarrow> duration option) \<Rightarrow> RemediationCoordinationConfig \<Rightarrow> config_error + RemediationCoordinationConfig" where
  "RemediationCoordinationConfig_ApplyDefaults parse c =
     (let ls = orDefault [] ''5m'' (rcc_LeaseTimeoutString c);
          qs = orDefault [] ''10s'' (rcc_RequestTimeoutString c);
          is = orDefault [] ''5s'' (rcc_RetryIntervalString c)
      in bindE (parseField parse ''leaseTimeout'' ls) (\<lambda>l.
         bindE (parseField parse ''requestTimeout'' qs) (\<lambda>q.
         bindE (parseField parse ''retryInterval'' is) (\<lambda>i.
           Inr (c\<lparr>rcc_LeaseTimeoutString := ls, rcc_LeaseTimeout := l, rcc_RequestTimeoutString := qs,
                  rcc_RequestTimeout := q, rcc_MaxRetries := orDefault 0 3 (rcc_MaxRetries c),
                  rcc_RetryIntervalString := is, rcc_RetryInterval := i\<rparr>)))))"

definition CircuitBreaker_defaults ::
  "(string \<Rightarrow> duration option) \<Rightarrow> cfg_CircuitBreaker \<Rightarrow> config_error + cfg_CircuitBreaker" where
  "CircuitBreaker_defaults parse b =
     (if isSet b then
        let ts = orDefault [] DefaultCircuitBreakerTimeout (cbc_TimeoutString b)
        in bindE (parseField parse ''timeout'' ts) (\<lambda>t.
             Inr (b\<lparr>cbc_Threshold := orDefault 0 5 (cbc_Threshold b), cbc_TimeoutString := ts,
                    cbc_Timeout := t, cbc_SuccessThreshold := orDefault 0 2 (cbc_SuccessThreshold b)\<rparr>))
      else Inr b)"

definition RemediationConfig_ApplyDefaults ::
  "(string \<Rightarrow> duration option) \<Rightarrow> RemediationConfig \<Rightarrow> config_error + RemediationConfig" where
  "RemediationConfig_ApplyDefaults parse r =
     bindE (CircuitBreaker_defaults parse (rmc_CircuitBreaker r)) (\<lambda>b.
     bindE (wrapE (Within ''coordination'')
         (optE (RemediationCoordinationConfig_ApplyDefaults parse) (rmc_Coordination r))) (\<lambda>c.
       Inr (r\<lparr>rmc_MaxRemediationsPerHour := orDefault 0 10 (rmc_MaxRemediationsPerHour r),
              rmc_MaxRemediationsPerMinute := orDefault 0 2 (rmc_MaxRemediationsPerMinute r),
              rmc_HistorySize := orDefault 0 100 (rmc_HistorySize r),
              rmc_CircuitBreaker := b, rmc_Coordination := c\<rparr>)))"

definition NodeDoctorConfig_ApplyDefaults ::
  "(string \<Rightarrow> duration option) \<Rightarrow> NodeDoctorConfig \<Rightarrow> config_error + NodeDoctorConfig" where
  "NodeDoctorConfig_ApplyDefaults parse c =
     (let x = ndc_Exporters c in
      bindE (wrapE (Within ''settings'') (GlobalSettings_ApplyDefaults parse (ndc_Settings c))) (\<lambda>s.
      bindE (mapE (\<lambda>m. wrapE (Within (mc_Name m)) (MonitorConfig_ApplyDefaults parse m)) (ndc_Monitors c)) (\<lambda>ms.
      bindE (wrapE (Within ''kubernetes'') (optE (KubernetesExporterConfig_ApplyDefaults parse) (ex_Kubernetes x))) (\<lambda>k.
      bindE (wrapE (Within ''http'') (optE (HTTPExporterConfig_ApplyDefaults parse) (ex_HTTP x))) (\<lambda>h.
      bindE (wrapE (Within ''remediation'') (RemediationConfig_ApplyDefaults parse (ndc_Remediation c))) (\<lambda>r.
      bindE (wrapE (Within ''reload'') (ReloadConfig_ApplyDefaults parse (ndc_Reload c))) (\<lambda>rl.
        Inr (c\<lparr>ndc_Settings := s, ndc_Monitors := ms,
               ndc_Exporters := x\<lparr>ex_Kubernetes := k, ex_HTTP := h,
                 ex_Prometheus := map_option PrometheusExporterConfig_ApplyDefaults (ex_Prometheus x)\<rparr>,
               ndc_Remediation := r, ndc_Reload := rl\<rparr>))))))))"

section \<open>Idempotence\<close>

lemma orDefault_idem [simp]: "orDefault z d (orDefault z d x) = orDefault z d x"
  by (simp add: orDefault_def)

lemma wrapE_eq_Inr [simp]: "wrapE w x = Inr y \<longleftrightarrow> x = Inr y"
  by (cases x) (simp_all add: wrapE_def)

lemma wrapE_Inr [simp]: "wrapE w (Inr y) = Inr y"
  by (simp add: wrapE_def)

lemma optE_idem:
  "optE f x = Inr y \<Longrightarrow> (\<And>a b. x = Some a \<Longrightarrow> f a = Inr b \<Longrightarrow> f b = Inr b) \<Longrightarrow> optE f y = Inr y"
  by (cases x) (auto simp: optE_def bindE_eq_Inr)

lemma precondition_defaults_idem:
  "precondition_defaults parse p = Inr p' \<Longrightarrow> precondition_defaults parse p' = Inr p'"
  by (auto simp: precondition_defaults_def bindE_eq_Inr split: if_splits)

text \<open>The strategies are given their defaults at several depths; the depth only decides whether the
  method fails, never its result.\<close>

lemma applyDefaults_depth:
  "applyDefaultsWithDepth parse depth r = Inr r' \<Longrightarrow> d \<le> depth \<Longrightarrow>
     applyDefaultsWithDepth parse d r = Inr r'"
  "strategies_defaults parse depth rs = Inr rs' \<Longrightarrow> d \<le> depth \<Longrightarrow> strategies_defaults parse d rs = Inr rs'"
proof (induction parse depth r and parse depth rs arbitrary: d r' and d rs'
    rule: applyDefaultsWithDepth_strategies_defaults.induct)
  case (1 parse depth en st ac sv sp itf args strats rse tc ma cs cd pre)
  then show ?case by (auto simp: bindE_eq_Inr split: if_splits)
next
  case (2 parse depth)
  then show ?case by simp
next
  case (3 parse depth s ss)
  from "3.prems"(1) obtain s1 s2 ss' where s1: "applyDefaultsWithDepth parse 0 s = Inr s1"
    and s2: "applyDefaultsWithDepth parse (depth + 1) s1 = Inr s2"
    and ss': "strategies_defaults parse depth ss = Inr ss'" and rs': "rs' = s2 # ss'"
    by (auto simp: bindE_eq_Inr)
  have "applyDefaultsWithDepth parse (d + 1) s1 = Inr s2"
    using "3.IH"(2) [OF s1 s2] "3.prems"(2) by simp
  moreover have "strategies_defaults parse d ss = Inr ss'"
    using "3.IH"(3) [OF s1 s2 ss'] "3.prems"(2) by simp
  ultimately show ?case using s1 rs' by simp
qed

lemma applyDefaults_idem:
  "applyDefaultsWithDepth parse depth r = Inr r' \<Longrightarrow> applyDefaultsWithDepth parse depth r' = Inr r'"
  "strategies_defaults parse depth rs = Inr rs' \<Longrightarrow> strategies_defaults parse depth rs' = Inr rs'"
proof (induction parse depth r and parse depth rs arbitrary: r' and rs'
    rule: applyDefaultsWithDepth_strategies_defaults.induct)
  case (1 parse depth en st ac sv sp itf args strats rse tc ma cs cd pre)
  from "1.prems" obtain cd' pre' strats' where ok: "\<not> depth > MaxRecursionDepth"
    and cd: "(if cs = [] then Inr cd else parseField parse ''cooldown'' cs) = Inr cd'"
    and pre: "mapE (precondition_defaults parse) pre = Inr pre'"
    and st: "strategies_defaults parse depth strats = Inr strats'"
    and r': "r' = MonitorRemediationConfig en st ac sv sp itf args strats' rse tc ma cs cd' pre'"
    by (auto simp: bindE_eq_Inr split: if_splits)
  have "strategies_defaults parse depth strats' = Inr strats'" using "1.IH" [OF ok cd pre st] .
  moreover have "mapE (precondition_defaults parse) pre' = Inr pre'"
    using pre precondition_defaults_idem by (rule mapE_idem)
  moreover have "(if cs = [] then Inr cd' else parseField parse ''cooldown'' cs) = Inr cd'"
    using cd by (auto split: if_splits)
  ultimately show ?case using ok r' by simp
next
  case (2 parse depth)
  then show ?case by simp
next
  case (3 parse depth s ss)
  from "3.prems" obtain s1 s2 ss' where s1: "applyDefaultsWithDepth parse 0 s = Inr s1"
    and s2: "applyDefaultsWithDepth parse (depth + 1) s1 = Inr s2"
    and ss': "strategies_defaults parse depth ss = Inr ss'" and rs': "rs' = s2 # ss'"
    by (auto simp: bindE_eq_Inr)
  note fix1 = "3.IH"(1) [OF s1] and fix2 = "3.IH"(2) [OF s1 s2]
  have "s2 = s1" using applyDefaults_depth(1) [OF s2, of 0] fix1 by simp
  with fix1 fix2 "3.IH"(3) [OF s1 s2 ss'] rs' show ?case by simp
qed

lemma parseField_iff: "parseField parse f s = Inr d \<longleftrightarrow> parse s = Some d"
  by (auto simp: parseField_def split: option.splits)

lemmas defaults_idem_simps = bindE_eq_Inr parseField_iff Let_def orDefault_idem

lemma settings_defaults_idem:
  "GlobalSettings_ApplyDefaults parse s = Inr s' \<Longrightarrow> GlobalSettings_ApplyDefaults parse s' = Inr s'"
  by (auto simp: GlobalSettings_ApplyDefaults_def defaults_idem_simps)

lemma reload_defaults_idem:
  "ReloadConfig_ApplyDefaults parse r = Inr r' \<Longrightarrow> ReloadConfig_ApplyDefaults parse r' = Inr r'"
  by (auto simp: ReloadConfig_ApplyDefaults_def defaults_idem_simps split: option.splits)

lemma monitor_defaults_idem:
  assumes "MonitorConfig_ApplyDefaults parse m = Inr m'"
  shows "MonitorConfig_ApplyDefaults parse m' = Inr m'"
proof -
  from assms obtain i t r where p: "parse (orDefault [] DefaultMonitorInterval (mc_IntervalString m)) = Some i"
      "parse (orDefault [] DefaultMonitorTimeout (mc_TimeoutString m)) = Some t"
    and r: "optE (MonitorRemediationConfig_ApplyDefaults parse) (mc_Remediation m) = Inr r"
    and m': "m' = m\<lparr>mc_IntervalString := orDefault [] DefaultMonitorInterval (mc_IntervalString m),
      mc_TimeoutString := orDefault [] DefaultMonitorTimeout (mc_TimeoutString m), mc_Interval := i,
      mc_Timeout := t, mc_Remediation := r\<rparr>"
    by (auto simp: MonitorConfig_ApplyDefaults_def defaults_idem_simps)
  have "optE (MonitorRemediationConfig_ApplyDefaults parse) r = Inr r"
    using r by (rule optE_idem) (auto simp: MonitorRemediationConfig_ApplyDefaults_def applyDefaults_idem)
  with p m' show ?thesis by (simp add: MonitorConfig_ApplyDefaults_def defaults_idem_simps)
qed

lemma optional_duration_idem:
  "optional_duration parse f text c = Inr d \<Longrightarrow> optional_duration parse f text d = Inr d"
  by (auto simp: optional_duration_def split: if_splits)

lemma kubernetes_defaults_idem:
  assumes "KubernetesExporterConfig_ApplyDefaults parse k = Inr k'"
  shows "KubernetesExporterConfig_ApplyDefaults parse k' = Inr k'"
proof -
  let ?ev = "ke_Events k"
  from assms obtain u r h c t w where
    p: "parse (orDefault [] DefaultUpdateInterval (ke_UpdateIntervalString k)) = Some u"
      "parse (orDefault [] DefaultResyncInterval (ke_ResyncIntervalString k)) = Some r"
      "parse (orDefault [] DefaultHeartbeatInterval (ke_HeartbeatIntervalString k)) = Some h"
      "parse (orDefault [] DefaultConditionStaleTTL (ke_ConditionStaleTTLString k)) = Some c"
    and o: "optional_duration parse ''eventTTL'' (ec_EventTTLString ?ev) (ec_EventTTL ?ev) = Inr t"
      "optional_duration parse ''deduplicationWindow'' (ec_DeduplicationWindowString ?ev) (ec_DeduplicationWindow ?ev) = Inr w"
    and k': "k' = k\<lparr>ke_UpdateIntervalString := orDefault [] DefaultUpdateInterval (ke_UpdateIntervalString k),
      ke_ResyncIntervalString := orDefault [] DefaultResyncInterval (ke_ResyncIntervalString k),
      ke_HeartbeatIntervalString := orDefault [] DefaultHeartbeatInterval (ke_HeartbeatIntervalString k),
      ke_ConditionStaleTTLString := orDefault [] DefaultConditionStaleTTL (ke_ConditionStaleTTLString k),
      ke_UpdateInterval := u, ke_ResyncInterval := r, ke_HeartbeatInterval := h, ke_ConditionStaleTTL := c,
      ke_Events := ?ev\<lparr>ec_EventTTL := t, ec_DeduplicationWindow := w\<rparr>\<rparr>"
    by (auto simp: KubernetesExporterConfig_ApplyDefaults_def defaults_idem_simps)
  show ?thesis
    using p o [THEN optional_duration_idem] unfolding k'
    by (simp add: KubernetesExporterConfig_ApplyDefaults_def defaults_idem_simps)
qed

text \<open>A delay inherited from a fallback that parses to itself stays what it is.\<close>

lemma inherit_delay_idem:
  assumes "inherit_delay parse f fb text = Inr b" "fst fb \<noteq> []" "parse (fst fb) = Some (snd fb)"
  shows "inherit_delay parse f fb (fst b) = Inr b"
  using assms by (auto simp: inherit_delay_def defaults_idem_simps split: if_splits)

lemma AuthConfig_default_idem [simp]: "AuthConfig_default (AuthConfig_default a) = AuthConfig_default a"
  by (simp add: AuthConfig_default_def)

text \<open>The defaults that are written as a text next to a duration have to agree with the parser.\<close>

definition parses_defaults :: "(string \<Rightarrow> duration option) \<Rightarrow> bool" where
  "parses_defaults parse \<longleftrightarrow> parse ''1s'' = Some second \<and> parse ''10s'' = Some (10 * second)"

definition retry_ok :: "(string \<Rightarrow> duration option) \<Rightarrow> RetryConfig \<Rightarrow> bool" where
  "retry_ok parse r \<longleftrightarrow> rc_BaseDelayString r \<noteq> [] \<and> parse (rc_BaseDelayString r) = Some (rc_BaseDelay r)
     \<and> rc_MaxDelayString r \<noteq> [] \<and> parse (rc_MaxDelayString r) = Some (rc_MaxDelay r)"

lemma inherit_delay_ok:
  assumes "inherit_delay parse f fb text = Inr b" "fst fb \<noteq> []" "parse (fst fb) = Some (snd fb)"
  shows "fst b \<noteq> [] \<and> parse (fst b) = Some (snd b)"
  using assms by (auto simp: inherit_delay_def defaults_idem_simps split: if_splits)

lemma retry_defaults_ok:
  assumes "retry_defaults parse fb ro = Inr r" "retry_ok parse fb"
  shows "retry_ok parse r"
proof (cases ro)
  case None
  with assms show ?thesis by (simp add: retry_defaults_def)
next
  case (Some x)
  with assms(1) obtain b m where
    "inherit_delay parse ''baseDelay'' (rc_BaseDelayString fb, rc_BaseDelay fb) (rc_BaseDelayString x) = Inr b"
    "inherit_delay parse ''maxDelay'' (rc_MaxDelayString fb, rc_MaxDelay fb) (rc_MaxDelayString x) = Inr m"
    "r = \<lparr>rc_MaxAttempts = orDefault 0 (rc_MaxAttempts fb) (rc_MaxAttempts x), rc_BaseDelayString = fst b,
      rc_BaseDelay = snd b, rc_MaxDelayString = fst m, rc_MaxDelay = snd m\<rparr>"
    by (auto simp: retry_defaults_def bindE_eq_Inr)
  with inherit_delay_ok [of parse] assms(2) show ?thesis by (auto simp: retry_ok_def)
qed

lemma retry_defaults_idem:
  assumes "retry_defaults parse fb ro = Inr r" "retry_ok parse fb"
  shows "retry_defaults parse fb (Some r) = Inr r"
proof -
  have "orDefault 0 (rc_MaxAttempts fb) (rc_MaxAttempts r) = rc_MaxAttempts r"
    using assms(1) by (auto simp: retry_defaults_def bindE_eq_Inr orDefault_def split: option.splits if_splits)
  with retry_defaults_ok [OF assms] show ?thesis
    by (simp add: retry_defaults_def inherit_delay_def parseField_def retry_ok_def)
qed

lemma controller_defaults_idem:
  assumes "ControllerWebhookConfig_ApplyDefaults parse c = Inr c'" "parses_defaults parse"
  shows "ControllerWebhookConfig_ApplyDefaults parse c' = Inr c'"
proof -
  have "retry_ok parse controller_retry"
    using assms(2) by (simp add: retry_ok_def controller_retry_def parses_defaults_def)
  with assms(1) show ?thesis
    by (auto simp: ControllerWebhookConfig_ApplyDefaults_def defaults_idem_simps dest: retry_defaults_idem)
qed

lemma webhook_defaults_idem:
  assumes "WebhookEndpoint_ApplyDefaults parse h w = Inr w'" "retry_ok parse (he_Retry h)"
    "he_TimeoutString h \<noteq> []" "parse (he_TimeoutString h) = Some (he_Timeout h)"
  shows "WebhookEndpoint_ApplyDefaults parse h w' = Inr w'"
proof -
  from assms(1) obtain t r where
    t: "inherit_delay parse ''timeout'' (he_TimeoutString h, he_Timeout h) (wh_TimeoutString w) = Inr t"
    and r: "retry_defaults parse (he_Retry h) (wh_Retry w) = Inr r"
    and w': "w' = w\<lparr>wh_TimeoutString := fst t, wh_Timeout := snd t, wh_Retry := Some r,
      wh_SendStatus := (\<not> wh_SendStatus w \<and> \<not> wh_SendProblems w \<or> wh_SendStatus w),
      wh_SendProblems := (\<not> wh_SendStatus w \<and> \<not> wh_SendProblems w \<or> wh_SendProblems w),
      wh_Auth := AuthConfig_default (wh_Auth w)\<rparr>"
    by (auto simp: WebhookEndpoint_ApplyDefaults_def bindE_eq_Inr Let_def)
  have "inherit_delay parse ''timeout'' (he_TimeoutString h, he_Timeout h) (fst t) = Inr t"
    using inherit_delay_idem [OF t] assms(3,4) by simp
  with retry_defaults_idem [OF r assms(2)] show ?thesis
    unfolding w' by (cases "wh_SendStatus w"; cases "wh_SendProblems w")
      (simp_all add: WebhookEndpoint_ApplyDefaults_def)
qed

lemma webhook_name [simp]: "WebhookEndpoint_ApplyDefaults parse h w = Inr w' \<Longrightarrow> wh_Name w' = wh_Name w"
  by (auto simp: WebhookEndpoint_ApplyDefaults_def bindE_eq_Inr Let_def)

lemma http_defaults_idem:
  assumes "HTTPExporterConfig_ApplyDefaults parse h = Inr h'" "parses_defaults parse"
  shows "HTTPExporterConfig_ApplyDefaults parse h' = Inr h'"
proof -
  let ?ts = "orDefault [] ''30s'' (he_TimeoutString h)" and ?r = "he_Retry h"
  let ?bs = "orDefault [] ''1s'' (rc_BaseDelayString ?r)" and ?ms = "orDefault [] ''30s'' (rc_MaxDelayString ?r)"
  from assms(1) obtain t b m h1 ws c where p: "parse ?ts = Some t" "parse ?bs = Some b" "parse ?ms = Some m"
    and h1: "h1 = h\<lparr>he_Workers := orDefault 0 5 (he_Workers h), he_QueueSize := orDefault 0 100 (he_QueueSize h),
      he_TimeoutString := ?ts, he_Timeout := t,
      he_Retry := \<lparr>rc_MaxAttempts = orDefault 0 3 (rc_MaxAttempts ?r), rc_BaseDelayString = ?bs,
        rc_BaseDelay = b, rc_MaxDelayString = ?ms, rc_MaxDelay = m\<rparr>\<rparr>"
    and ws: "mapE (\<lambda>w. wrapE (Within (wh_Name w)) (WebhookEndpoint_ApplyDefaults parse h1 w)) (he_Webhooks h) = Inr ws"
    and c: "optE (ControllerWebhookConfig_ApplyDefaults parse) (he_Controller h) = Inr c"
    and h': "h' = h1\<lparr>he_Webhooks := ws, he_Controller := c\<rparr>"
    by (auto simp: HTTPExporterConfig_ApplyDefaults_def defaults_idem_simps)
  have ok: "retry_ok parse (he_Retry h1)" "he_TimeoutString h1 \<noteq> []" "parse (he_TimeoutString h1) = Some (he_Timeout h1)"
    using p by (auto simp: retry_ok_def h1 orDefault_def)
  have parent: "WebhookEndpoint_ApplyDefaults parse x w = WebhookEndpoint_ApplyDefaults parse h1 w"
    if "he_Retry x = he_Retry h1" "he_TimeoutString x = he_TimeoutString h1" "he_Timeout x = he_Timeout h1" for x w
    using that by (simp add: WebhookEndpoint_ApplyDefaults_def)
  have "mapE (\<lambda>w. wrapE (Within (wh_Name w)) (WebhookEndpoint_ApplyDefaults parse h1 w)) ws = Inr ws"
    using ws by (rule mapE_idem) (simp add: webhook_defaults_idem [OF _ ok])
  moreover have "optE (ControllerWebhookConfig_ApplyDefaults parse) c = Inr c"
    using c by (rule optE_idem) (rule controller_defaults_idem [OF _ assms(2)])
  moreover have "WebhookEndpoint_ApplyDefaults parse h' = WebhookEndpoint_ApplyDefaults parse h1"
    by (rule ext, rule parent) (simp_all add: h')
  moreover have "h'\<lparr>he_Workers := orDefault 0 5 (he_Workers h'), he_QueueSize := orDefault 0 100 (he_QueueSize h'),
      he_TimeoutString := he_TimeoutString h', he_Timeout := t,
      he_Retry := \<lparr>rc_MaxAttempts = orDefault 0 3 (rc_MaxAttempts (he_Retry h')),
        rc_BaseDelayString = rc_BaseDelayString (he_Retry h'), rc_BaseDelay = b,
        rc_MaxDelayString = rc_MaxDelayString (he_Retry h'), rc_MaxDelay = m\<rparr>\<rparr> = h'"
    "orDefault [] ''30s'' (he_TimeoutString h') = he_TimeoutString h'"
    "orDefault [] ''1s'' (rc_BaseDelayString (he_Retry h')) = rc_BaseDelayString (he_Retry h')"
    "orDefault [] ''30s'' (rc_MaxDelayString (he_Retry h')) = rc_MaxDelayString (he_Retry h')"
    "parse (he_TimeoutString h') = Some t" "parse (rc_BaseDelayString (he_Retry h')) = Some b"
    "parse (rc_MaxDelayString (he_Retry h')) = Some m"
    "he_Webhooks h' = ws" "he_Controller h' = c" "h'\<lparr>he_Webhooks := ws, he_Controller := c\<rparr> = h'"
    using p by (simp_all add: h' h1)
  ultimately show ?thesis
    unfolding HTTPExporterConfig_ApplyDefaults_def Let_def by (simp add: parseField_def)
qed

lemma prometheus_defaults_idem [simp]:
  "PrometheusExporterConfig_ApplyDefaults (PrometheusExporterConfig_ApplyDefaults p) = PrometheusExporterConfig_ApplyDefaults p"
  by (simp add: PrometheusExporterConfig_ApplyDefaults_def)

lemma coordination_defaults_idem:
  "RemediationCoordinationConfig_ApplyDefaults parse c = Inr c' \<Longrightarrow>
   RemediationCoordinationConfig_ApplyDefaults parse c' = Inr c'"
  by (auto simp: RemediationCoordinationConfig_ApplyDefaults_def defaults_idem_simps)

lemma breaker_defaults_idem:
  assumes "CircuitBreaker_defaults parse b = Inr b'"
  shows "CircuitBreaker_defaults parse b' = Inr b'"
proof (cases "isSet b")
  case True
  with assms obtain t where t: "parse (orDefault [] DefaultCircuitBreakerTimeout (cbc_TimeoutString b)) = Some t"
    and b': "b' = b\<lparr>cbc_Threshold := orDefault 0 5 (cbc_Threshold b),
      cbc_TimeoutString := orDefault [] DefaultCircuitBreakerTimeout (cbc_TimeoutString b),
      cbc_Timeout := t, cbc_SuccessThreshold := orDefault 0 2 (cbc_SuccessThreshold b)\<rparr>"
    by (auto simp: CircuitBreaker_defaults_def defaults_idem_simps)
  have "isSet b'" using True unfolding b' by (auto simp: isSet_def IsDisabled_def orDefault_def)
  with t show ?thesis unfolding b' by (simp add: CircuitBreaker_defaults_def defaults_idem_simps)
qed (use assms in \<open>simp add: CircuitBreaker_defaults_def\<close>)

lemma remediation_defaults_idem:
  assumes "RemediationConfig_ApplyDefaults parse r = Inr r'"
  shows "RemediationConfig_ApplyDefaults parse r' = Inr r'"
proof -
  from assms obtain b c where b: "CircuitBreaker_defaults parse (rmc_CircuitBreaker r) = Inr b"
    and c: "optE (RemediationCoordinationConfig_ApplyDefaults parse) (rmc_Coordination r) = Inr c"
    and r': "r' = r\<lparr>rmc_MaxRemediationsPerHour := orDefault 0 10 (rmc_MaxRemediationsPerHour r),
      rmc_MaxRemediationsPerMinute := orDefault 0 2 (rmc_MaxRemediationsPerMinute r),
      rmc_HistorySize := orDefault 0 100 (rmc_HistorySize r), rmc_CircuitBreaker := b, rmc_Coordination := c\<rparr>"
    by (auto simp: RemediationConfig_ApplyDefaults_def bindE_eq_Inr)
  have "optE (RemediationCoordinationConfig_ApplyDefaults parse) c = Inr c"
    using c by (rule optE_idem) (rule coordination_defaults_idem)
  with breaker_defaults_idem [OF b] show ?thesis
    unfolding r' by (simp add: RemediationConfig_ApplyDefaults_def)
qed

text \<open>
  Applying the defaults is idempotent: a configuration that has its defaults is left exactly as
  it is by a second application, whatever strategies are nested in it. The reload path relies on
  this when it normalises a freshly loaded configuration and compares it with the running one. The
  only thing assumed of the duration parser is that it reads the two literals \<^verbatim>\<open>1s\<close> and
  \<^verbatim>\<open>10s\<close> as the constants written next to them.\<close>

lemma apply_defaults_idempotent:
  assumes "NodeDoctorConfig_ApplyDefaults parse c = Inr c'" "parses_defaults parse"
  shows "NodeDoctorConfig_ApplyDefaults parse c' = Inr c'"
proof -
  let ?x = "ndc_Exporters c"
  from assms(1) obtain s ms k h r rl where
    s: "GlobalSettings_ApplyDefaults parse (ndc_Settings c) = Inr s"
    and ms: "mapE (\<lambda>m. wrapE (Within (mc_Name m)) (MonitorConfig_ApplyDefaults parse m)) (ndc_Monitors c) = Inr ms"
    and k: "optE (KubernetesExporterConfig_ApplyDefaults parse) (ex_Kubernetes ?x) = Inr k"
    and h: "optE (HTTPExporterConfig_ApplyDefaults parse) (ex_HTTP ?x) = Inr h"
    and r: "RemediationConfig_ApplyDefaults parse (ndc_Remediation c) = Inr r"
    and rl: "ReloadConfig_ApplyDefaults parse (ndc_Reload c) = Inr rl"
    and c': "c' = c\<lparr>ndc_Settings := s, ndc_Monitors := ms, ndc_Exporters := ?x\<lparr>ex_Kubernetes := k, ex_HTTP := h,
      ex_Prometheus := map_option PrometheusExporterConfig_ApplyDefaults (ex_Prometheus ?x)\<rparr>,
      ndc_Remediation := r, ndc_Reload := rl\<rparr>"
    by (auto simp: NodeDoctorConfig_ApplyDefaults_def bindE_eq_Inr Let_def)
  have "mapE (\<lambda>m. wrapE (Within (mc_Name m)) (MonitorConfig_ApplyDefaults parse m)) ms = Inr ms"
    using ms by (rule mapE_idem) (simp add: monitor_defaults_idem)
  moreover have "optE (KubernetesExporterConfig_ApplyDefaults parse) k = Inr k"
    using k by (rule optE_idem) (rule kubernetes_defaults_idem)
  moreover have "optE (HTTPExporterConfig_ApplyDefaults parse) h = Inr h"
    using h by (rule optE_idem) (rule http_defaults_idem [OF _ assms(2)])
  moreover have "map_option PrometheusExporterConfig_ApplyDefaults (map_option PrometheusExporterConfig_ApplyDefaults (ex_Prometheus ?x))
      = map_option PrometheusExporterConfig_ApplyDefaults (ex_Prometheus ?x)"
    by (cases "ex_Prometheus ?x") simp_all
  ultimately show ?thesis
    using settings_defaults_idem [OF s] remediation_defaults_idem [OF r] reload_defaults_idem [OF rl]
    unfolding c' by (simp add: NodeDoctorConfig_ApplyDefaults_def)
qed

end
