(* ===== verification/Config_Validate.thy ===== *)
theory Config_Validate
  imports Config_Defaults Types
begin

text \<open>
  \<^verbatim>\<open>pkg/types/config.go\<close>, the \<^verbatim>\<open>Validate\<close> methods and the search for dependency cycles. A check returns the first error, as the code does. Names and paths are
  taken as ASCII text.
\<close>

section \<open>Validation\<close>

definition validLogLevels :: "string list" where
  "validLogLevels = [''debug'', ''info'', ''warn'', ''error'', ''fatal'']"

definition validLogFormats :: "string list" where "validLogFormats = [''json'', ''text'']"

definition validLogOutputs :: "string list" where "validLogOutputs = [''stdout'', ''stderr'', ''file'']"

definition validRemediationStrategies :: "string list" where
  "validRemediationStrategies = [''systemd-restart'', ''custom-script'', ''node-reboot'', ''pod-delete'',
     ''flush-dns'', ''restart-interface'', ''reset-routing'', ''flush-ipv6-route'']"

definition MinMonitorInterval :: duration where "MinMonitorInterval = second"
definition MinHeartbeatInterval :: duration where "MinHeartbeatInterval = 5 * second"

definition wrapO :: "(config_error \<Rightarrow> config_error) \<Rightarrow> config_error option \<Rightarrow> config_error option" where
  "wrapO w x = map_option w x"

lemma wrapO_simps [simp]: "wrapO w x = None \<longleftrightarrow> x = None" "wrapO w None = None"
  by (simp_all add: wrapO_def)

definition GlobalSettings_Validate :: "GlobalSettings \<Rightarrow> config_error option" where
  "GlobalSettings_Validate s = first_failed
     [(gs_NodeName s = [], FieldRequired ''nodeName''),
      (gs_LogLevel s \<notin> set validLogLevels, InvalidField ''logLevel'' (gs_LogLevel s)),
      (gs_LogFormat s \<notin> set validLogFormats, InvalidField ''logFormat'' (gs_LogFormat s)),
      (gs_LogOutput s \<notin> set validLogOutputs, InvalidField ''logOutput'' (gs_LogOutput s)),
      (gs_LogOutput s = ''file'' \<and> gs_LogFile s = [], FieldRequired ''logFile''),
      (gs_UpdateInterval s \<le> 0, MustBePositive ''updateInterval''),
      (gs_ResyncInterval s \<le> 0, MustBePositive ''resyncInterval''),
      (gs_HeartbeatInterval s \<le> 0, MustBePositive ''heartbeatInterval''),
      (gs_HeartbeatInterval s < MinHeartbeatInterval, BelowMinimum ''heartbeatInterval''),
      (gs_QPS s \<le> 0, MustBePositive ''qps''),
      (gs_QPS s > 10000, AboveMaximum ''qps''),
      (gs_Burst s \<le> 0, MustBePositive ''burst''),
      (gs_Burst s > 100000, AboveMaximum ''burst'')]"

definition thresholdFields :: "string list" where
  "thresholdFields = [''warningLoadFactor'', ''criticalLoadFactor'', ''warningThreshold'', ''criticalThreshold'',
     ''swapWarningThreshold'', ''swapCriticalThreshold'', ''inodeWarning'', ''inodeCritical'']"

definition out_of_percent_range :: "cfg_value \<Rightarrow> bool" where
  "out_of_percent_range v \<longleftrightarrow>
     (case v of CVInt i \<Rightarrow> i < 0 \<or> 100 < i | CVFloat q \<Rightarrow> q < 0 \<or> 100 < q | _ \<Rightarrow> False)"

definition validateMonitorThresholds :: "string \<Rightarrow> (string, cfg_value) gomap \<Rightarrow> config_error option" where
  "validateMonitorThresholds name config =
     all_passed (\<lambda>field. case map_of config field of None \<Rightarrow> None
       | Some v \<Rightarrow> if out_of_percent_range v then Some (ThresholdRange name field) else None) thresholdFields"

fun contains_dotdot :: "string \<Rightarrow> bool" where
  "contains_dotdot (a # b # s) = (a = CHR ''.'' \<and> b = CHR ''.'' \<or> contains_dotdot (b # s))"
| "contains_dotdot s = False"

definition is_space :: "char \<Rightarrow> bool" where
  "is_space ch \<longleftrightarrow> (let n = (of_char ch :: nat) in 9 \<le> n \<and> n \<le> 13 \<or> n = 32)"

definition blank :: "string \<Rightarrow> bool" where
  "blank s \<longleftrightarrow> list_all is_space s"

definition precondition_check :: "RemediationPrecondition \<Rightarrow> config_error option" where
  "precondition_check p = first_failed
     [(rp_Type p = [], FieldRequired ''type''),
      (rp_Status p \<noteq> ''True'' \<and> rp_Status p \<noteq> ''False'', InvalidField ''status'' (rp_Status p)),
      (rp_MaxAge p \<le> 0, MustBePositive ''maxAge'')]"

definition validatePolicy :: "MonitorRemediationConfig \<Rightarrow> config_error option" where
  "validatePolicy r =
     andThen (all_passed (\<lambda>t. if blank t then Some (FieldRequired ''triggerConditions'') else None) (mr_TriggerConditions r))
    (andThen (first_failed
       [(mr_MaxAttemptsPerIncident r < 0, MustBeNonNegative ''maxAttemptsPerIncident''),
        (mr_Cooldown r < 0, MustBeNonNegative ''cooldown'')])
    (all_passed (\<lambda>(i, p). wrapO (WithinIndex ''preconditions'' i) (precondition_check p))
       (enumerate 0 (mr_Preconditions r))))"

definition strategy_check :: "MonitorRemediationConfig \<Rightarrow> config_error option" where
  "strategy_check r = andThen
     (first_failed
       [(mr_Strategy r = [], FieldRequired ''strategy''),
        (mr_Strategy r \<notin> set validRemediationStrategies, InvalidField ''strategy'' (mr_Strategy r))])
     (first_failed
       (if mr_Strategy r = ''systemd-restart'' then [(mr_Service r = [], FieldRequired ''service'')]
        else if mr_Strategy r = ''custom-script'' then
          [(mr_ScriptPath r = [], FieldRequired ''scriptPath''),
           (contains_dotdot (mr_ScriptPath r), InvalidField ''scriptPath'' (mr_ScriptPath r)),
           (\<not> has_prefix (mr_ScriptPath r) ''/'', InvalidField ''scriptPath'' (mr_ScriptPath r))]
        else if mr_Strategy r = ''restart-interface'' then [(mr_Interface r = [], FieldRequired ''interface'')]
        else []))"

lemma nesting_strategies: "nesting r = Suc (nesting_all (mr_Strategies r))"
  by (cases r) simp

text \<open>\<^verbatim>\<open>Validate\<close>, \<^verbatim>\<open>validateWithDepth\<close> and its loop, which counts the strategies.\<close>

function MonitorRemediationConfig_Validate :: "MonitorRemediationConfig \<Rightarrow> config_error option"
  and validateWithDepth :: "nat \<Rightarrow> MonitorRemediationConfig \<Rightarrow> config_error option"
  and validate_strategies :: "nat \<Rightarrow> nat \<Rightarrow> MonitorRemediationConfig list \<Rightarrow> config_error option" where
  "MonitorRemediationConfig_Validate r =
     (if \<not> mr_Enabled r then None
      else andThen (strategy_check r) (andThen (validatePolicy r) (validateWithDepth 0 r)))"
| "validateWithDepth depth r =
     (if depth > MaxRecursionDepth then Some DepthExceeded
      else validate_strategies depth 0 (mr_Strategies r))"
| "validate_strategies depth i [] = None"
| "validate_strategies depth i (s # ss) =
     andThen (wrapO (WithinIndex ''strategy'' i) (MonitorRemediationConfig_Validate s))
    (andThen (validateWithDepth (depth + 1) s) (validate_strategies depth (i + 1) ss))"
  by pat_completeness auto

termination
  by (relation "measure (\<lambda>x. case x of Inl r \<Rightarrow> 2 * nesting r + 1
      | Inr (Inl (d, r)) \<Rightarrow> 2 * nesting r | Inr (Inr (d, i, rs)) \<Rightarrow> 2 * nesting_all rs)")
    (auto simp: nesting_strategies)

definition MonitorConfig_Validate :: "MonitorConfig \<Rightarrow> config_error option" where
  "MonitorConfig_Validate m =
     andThen (first_failed
       [(mc_Name m = [], FieldRequired ''name''),
        (mc_Type m = [], FieldRequired ''type''),
        (mc_Interval m \<le> 0, MustBePositive ''interval''),
        (mc_Timeout m \<le> 0, MustBePositive ''timeout''),
        (mc_Interval m < MinMonitorInterval, BelowMinimum ''interval''),
        (mc_Interval m \<le> mc_Timeout m, TimeoutNotBelowInterval)])
    (andThen (validateMonitorThresholds (mc_Name m) (mc_Config m))
       (case mc_Remediation m of None \<Rightarrow> None
        | Some r \<Rightarrow> wrapO (Within ''remediation'') (MonitorRemediationConfig_Validate r)))"

definition KubernetesExporterConfig_Validate :: "KubernetesExporterConfig \<Rightarrow> config_error option" where
  "KubernetesExporterConfig_Validate k =
     (if \<not> ke_Enabled k then None
      else andThen (first_failed
         [(ke_UpdateInterval k \<le> 0, MustBePositive ''updateInterval''),
          (ke_ResyncInterval k \<le> 0, MustBePositive ''resyncInterval''),
          (ke_HeartbeatInterval k \<le> 0, MustBePositive ''heartbeatInterval''),
          (ke_ConditionStaleTTL k \<le> 0, MustBePositive ''conditionStaleTTL'')])
       (andThen (all_passed (\<lambda>c. if ccf_Type c = [] then Some (FieldRequired ''type'') else None) (ke_Conditions k))
       (andThen (all_passed (\<lambda>a. if an_Key a = [] then Some (FieldRequired ''key'') else None) (ke_Annotations k))
       (first_failed
         [(ec_MaxEventsPerMinute (ke_Events k) < 0, MustBeNonNegative ''maxEventsPerMinute''),
          (ec_EventTTLString (ke_Events k) \<noteq> [] \<and> ec_EventTTL (ke_Events k) \<le> 0, MustBePositive ''eventTTL''),
          (ec_DeduplicationWindowString (ke_Events k) \<noteq> [] \<and> ec_DeduplicationWindow (ke_Events k) \<le> 0,
             MustBePositive ''deduplicationWindow'')]))))"

definition AuthConfig_Validate :: "AuthConfig \<Rightarrow> config_error option" where
  "AuthConfig_Validate a =
     (if au_Type a = ''none'' then None
      else if au_Type a = ''bearer'' then first_failed [(au_Token a = [], FieldRequired ''token'')]
      else if au_Type a = ''basic'' then
        first_failed [(au_Username a = [], FieldRequired ''username''), (au_Password a = [], FieldRequired ''password'')]
      else Some (InvalidField ''auth type'' (au_Type a)))"

definition RetryConfig_Validate :: "RetryConfig \<Rightarrow> config_error option" where
  "RetryConfig_Validate r = first_failed
     [(rc_MaxAttempts r < 0, MustBeNonNegative ''maxAttempts''),
      (rc_BaseDelay r \<le> 0, MustBePositive ''baseDelay''),
      (rc_MaxDelay r \<le> 0, MustBePositive ''maxDelay''),
      (rc_MaxDelay r < rc_BaseDelay r, AboveMaximum ''baseDelay'')]"

definition http_url :: "string \<Rightarrow> bool" where
  "http_url u \<longleftrightarrow> has_prefix u ''http://'' \<or> has_prefix u ''https://''"

definition ControllerWebhookConfig_Validate :: "ControllerWebhookConfig \<Rightarrow> config_error option" where
  "ControllerWebhookConfig_Validate c =
     (if \<not> cw_Enabled c then None
      else andThen (first_failed
         [(cw_URL c = [], FieldRequired ''url''),
          (\<not> http_url (cw_URL c), InvalidField ''url'' (cw_URL c)),
          (cw_Interval c \<le> 0, MustBePositive ''interval''),
          (cw_Timeout c \<le> 0, MustBePositive ''timeout'')])
       (andThen (wrapO (Within ''auth'') (AuthConfig_Validate (cw_Auth c)))
         (case cw_Retry c of None \<Rightarrow> None | Some r \<Rightarrow> wrapO (Within ''retry'') (RetryConfig_Validate r))))"

definition WebhookEndpoint_Validate :: "WebhookEndpoint \<Rightarrow> config_error option" where
  "WebhookEndpoint_Validate w =
     andThen (first_failed
       [(wh_URL w = [], FieldRequired ''url''),
        (\<not> http_url (wh_URL w), InvalidField ''url'' (wh_URL w)),
        (wh_Timeout w \<le> 0, MustBePositive ''timeout'')])
    (andThen (case wh_Retry w of None \<Rightarrow> None | Some r \<Rightarrow> wrapO (Within ''retry'') (RetryConfig_Validate r))
    (andThen (wrapO (Within ''auth'') (AuthConfig_Validate (wh_Auth w)))
       (first_failed [(\<not> wh_SendStatus w \<and> \<not> wh_SendProblems w, FieldRequired ''sendStatus or sendProblems'')])))"

fun validate_webhooks :: "nat \<Rightarrow> string list \<Rightarrow> WebhookEndpoint list \<Rightarrow> config_error option" where
  "validate_webhooks i seen [] = None"
| "validate_webhooks i seen (w # ws) =
     andThen (wrapO (WithinIndex ''webhook'' i) (WebhookEndpoint_Validate w))
       (if wh_Name w \<noteq> [] then
          if wh_Name w \<in> set seen then Some (DuplicateName ''webhook'' (wh_Name w))
          else validate_webhooks (i + 1) (wh_Name w # seen) ws
        else validate_webhooks (i + 1) seen ws)"

definition HTTPExporterConfig_Validate :: "HTTPExporterConfig \<Rightarrow> config_error option" where
  "HTTPExporterConfig_Validate h =
     (if \<not> he_Enabled h then None
      else andThen (first_failed
         [(he_Workers h \<le> 0, MustBePositive ''workers''),
          (he_QueueSize h \<le> 0, MustBePositive ''queueSize''),
          (he_Timeout h \<le> 0, MustBePositive ''timeout'')])
       (andThen (wrapO (Within ''retry'') (RetryConfig_Validate (he_Retry h)))
       (andThen (first_failed
         [(he_Webhooks h = [] \<and> \<not> (case he_Controller h of None \<Rightarrow> False | Some c \<Rightarrow> cw_Enabled c),
            FieldRequired ''webhook or controller'')])
       (andThen (validate_webhooks 0 [] (he_Webhooks h))
         (case he_Controller h of None \<Rightarrow> None
          | Some c \<Rightarrow> wrapO (Within ''controller'') (ControllerWebhookConfig_Validate c))))))"

definition name_start :: "char \<Rightarrow> bool" where
  "name_start ch \<longleftrightarrow> (let n = (of_char ch :: nat) in
     97 \<le> n \<and> n \<le> 122 \<or> 65 \<le> n \<and> n \<le> 90 \<or> ch = CHR ''_'' \<or> ch = CHR '':'')"

definition prometheusNamespaceRegex :: "string \<Rightarrow> bool" where
  "prometheusNamespaceRegex s \<longleftrightarrow>
     (case s of [] \<Rightarrow> False
      | ch # rest \<Rightarrow> name_start ch
          \<and> list_all (\<lambda>x. name_start x \<or> 48 \<le> (of_char x :: nat) \<and> (of_char x :: nat) \<le> 57) rest)"

definition PrometheusExporterConfig_Validate :: "PrometheusExporterConfig \<Rightarrow> config_error option" where
  "PrometheusExporterConfig_Validate p =
     (if \<not> pe_Enabled p then None
      else first_failed
        [(pe_Port p \<le> 0 \<or> 65535 < pe_Port p, InvalidField ''port'' []),
         (\<not> has_prefix (pe_Path p) ''/'', InvalidField ''path'' (pe_Path p)),
         (pe_Namespace p \<noteq> [] \<and> \<not> prometheusNamespaceRegex (pe_Namespace p), InvalidField ''namespace'' (pe_Namespace p)),
         (pe_Subsystem p \<noteq> [] \<and> \<not> prometheusNamespaceRegex (pe_Subsystem p), InvalidField ''subsystem'' (pe_Subsystem p))])"

definition RemediationCoordinationConfig_Validate :: "RemediationCoordinationConfig \<Rightarrow> config_error option" where
  "RemediationCoordinationConfig_Validate c =
     (if \<not> rcc_Enabled c then None
      else first_failed
        [(rcc_ControllerURL c = [], FieldRequired ''controllerURL''),
         (\<not> http_url (rcc_ControllerURL c), InvalidField ''controllerURL'' (rcc_ControllerURL c)),
         (rcc_LeaseTimeout c \<le> 0, MustBePositive ''leaseTimeout''),
         (rcc_RequestTimeout c \<le> 0, MustBePositive ''requestTimeout''),
         (rcc_MaxRetries c < 0, MustBeNonNegative ''maxRetries''),
         (rcc_RetryInterval c \<le> 0, MustBePositive ''retryInterval'')])"

definition RemediationConfig_Validate :: "RemediationConfig \<Rightarrow> config_error option" where
  "RemediationConfig_Validate r =
     andThen (first_failed
       [(rmc_MaxRemediationsPerHour r < 0, MustBeNonNegative ''maxRemediationsPerHour''),
        (rmc_MaxRemediationsPerMinute r < 0, MustBeNonNegative ''maxRemediationsPerMinute''),
        (rmc_HistorySize r \<le> 0, MustBePositive ''historySize'')])
    (andThen (if isSet (rmc_CircuitBreaker r) then first_failed
         [(cbc_Threshold (rmc_CircuitBreaker r) \<le> 0, MustBePositive ''threshold''),
          (cbc_Timeout (rmc_CircuitBreaker r) \<le> 0, MustBePositive ''timeout''),
          (cbc_SuccessThreshold (rmc_CircuitBreaker r) \<le> 0, MustBePositive ''successThreshold'')]
       else None)
       (case rmc_Coordination r of None \<Rightarrow> None
        | Some c \<Rightarrow> wrapO (Within ''coordination'') (RemediationCoordinationConfig_Validate c)))"

fun validate_monitors :: "nat \<Rightarrow> string list \<Rightarrow> MonitorConfig list \<Rightarrow> config_error option" where
  "validate_monitors i seen [] = None"
| "validate_monitors i seen (m # ms) =
     (if mc_Name m = [] then Some (WithinIndex ''monitor'' i (FieldRequired ''name''))
      else if mc_Name m \<in> set seen then Some (DuplicateName ''monitor'' (mc_Name m))
      else andThen (wrapO (Within (mc_Name m)) (MonitorConfig_Validate m))
             (validate_monitors (i + 1) (mc_Name m # seen) ms))"

definition NodeDoctorConfig_Validate :: "NodeDoctorConfig \<Rightarrow> config_error option" where
  "NodeDoctorConfig_Validate c =
     andThen (first_failed
       [(ndc_APIVersion c = [], FieldRequired ''apiVersion''),
        (ndc_Kind c = [], FieldRequired ''kind''),
        (ndc_Kind c \<noteq> ''NodeDoctorConfig'', InvalidField ''kind'' (ndc_Kind c)),
        (cm_Name (ndc_Metadata c) = [], FieldRequired ''metadata.name'')])
    (andThen (wrapO (Within ''settings'') (GlobalSettings_Validate (ndc_Settings c)))
    (andThen (validate_monitors 0 [] (ndc_Monitors c))
    (andThen (case ex_Kubernetes (ndc_Exporters c) of None \<Rightarrow> None
       | Some k \<Rightarrow> wrapO (Within ''kubernetes'') (KubernetesExporterConfig_Validate k))
    (andThen (case ex_HTTP (ndc_Exporters c) of None \<Rightarrow> None
       | Some h \<Rightarrow> wrapO (Within ''http'') (HTTPExporterConfig_Validate h))
    (andThen (case ex_Prometheus (ndc_Exporters c) of None \<Rightarrow> None
       | Some p \<Rightarrow> wrapO (Within ''prometheus'') (PrometheusExporterConfig_Validate p))
       (wrapO (Within ''remediation'') (RemediationConfig_Validate (ndc_Remediation c))))))))"


section \<open>Dependency cycles\<close>

text \<open>
  The depth-first search with its colours (0 unvisited, 1 being visited, 2 done) and the path of the
  monitors being visited. The first argument bounds the depth of the recursion; \<open>None\<close> means that
  it was too small, which \<open>detectCircularDependencies\<close> excludes by its choice.
\<close>

type_synonym dfs_state = "(string, int) gomap \<times> string list"

fun dfs :: "nat \<Rightarrow> (string, string list) gomap \<Rightarrow> string \<Rightarrow> dfs_state \<Rightarrow> (config_error + dfs_state) option"
  and dfs_deps :: "nat \<Rightarrow> (string, string list) gomap \<Rightarrow> string list \<Rightarrow> dfs_state \<Rightarrow> (config_error + dfs_state) option" where
  "dfs 0 g name sp = None"
| "dfs (Suc n) g name (st, path) =
     (if gomap_get 0 st name = 2 then Some (Inr (st, path))
      else if gomap_get 0 st name = 1 then Some (Inl (CircularDependency (path @ [name])))
      else case dfs_deps n g (gomap_get [] g name) (AList.update name 1 st, path @ [name]) of
             Some (Inr (st', path')) \<Rightarrow> Some (Inr (AList.update name 2 st', butlast path'))
           | Some (Inl e) \<Rightarrow> Some (Inl e)
           | None \<Rightarrow> None)"
| "dfs_deps n g [] sp = Some (Inr sp)"
| "dfs_deps n g (d # ds) sp =
     (case dfs n g d sp of Some (Inr sp') \<Rightarrow> dfs_deps n g ds sp' | Some (Inl e) \<Rightarrow> Some (Inl e) | None \<Rightarrow> None)"

fun dfs_monitors :: "nat \<Rightarrow> (string, string list) gomap \<Rightarrow> string list \<Rightarrow> (string, int) gomap \<Rightarrow>
    (config_error + (string, int) gomap) option" where
  "dfs_monitors n g [] st = Some (Inr st)"
| "dfs_monitors n g (m # ms) st =
     (if gomap_get 0 st m = 0 then
        (case dfs n g m (st, []) of Some (Inr sp) \<Rightarrow> dfs_monitors n g ms (fst sp)
         | Some (Inl e) \<Rightarrow> Some (Inl e) | None \<Rightarrow> None)
      else dfs_monitors n g ms st)"

definition dependency_graph :: "MonitorConfig list \<Rightarrow> (string, string list) gomap" where
  "dependency_graph ms = fold (\<lambda>m. AList.update (mc_Name m) (mc_DependsOn m)) ms []"

definition missing_dependency :: "MonitorConfig list \<Rightarrow> config_error option" where
  "missing_dependency ms =
     all_passed (\<lambda>m. all_passed (\<lambda>dep.
         if dep \<notin> set (map mc_Name ms) then Some (NonExistentDependency (mc_Name m) dep) else None) (mc_DependsOn m)) ms"

definition detectCircularDependencies :: "MonitorConfig list \<Rightarrow> config_error option" where
  "detectCircularDependencies ms =
     andThen (missing_dependency ms)
       (case dfs_monitors (length ms + 1) (dependency_graph ms) (map mc_Name ms) [] of
          Some (Inl e) \<Rightarrow> Some e | _ \<Rightarrow> None)"

definition ValidateWithRegistry ::
  "((string \<Rightarrow> bool) \<times> string list) option \<Rightarrow> NodeDoctorConfig \<Rightarrow> config_error option" where
  "ValidateWithRegistry registry c =
     andThen (NodeDoctorConfig_Validate c)
    (andThen (case registry of None \<Rightarrow> None
       | Some (isRegistered, registered) \<Rightarrow>
           all_passed (\<lambda>m. if isRegistered (mc_Type m) then None
             else Some (UnknownMonitorType (mc_Type m) (mc_Name m) registered)) (ndc_Monitors c))
       (detectCircularDependencies (ndc_Monitors c)))"

section \<open>Correctness of the search\<close>

definition edges :: "(string, string list) gomap \<Rightarrow> (string \<times> string) set" where
  "edges g = {(a, b). b \<in> set (gomap_get [] g a)}"

definition dfs_inv :: "(string, string list) gomap \<Rightarrow> (string, int) gomap \<Rightarrow> string list \<Rightarrow> bool" where
  "dfs_inv g st path \<longleftrightarrow>
     (\<forall>a. gomap_get 0 st a \<in> {0, 1, 2}) \<and> (\<forall>a. gomap_get 0 st a = 1 \<longleftrightarrow> a \<in> set path)
   \<and> (\<forall>a b. gomap_get 0 st a = 2 \<longrightarrow> (a, b) \<in> edges g \<longrightarrow> gomap_get 0 st b = 2)
   \<and> (\<forall>a. gomap_get 0 st a = 2 \<longrightarrow> (a, a) \<notin> (edges g)\<^sup>+)
   \<and> successively (\<lambda>a b. (a, b) \<in> edges g) path \<and> distinct path"

text \<open>Done nodes reach only done nodes.\<close>

lemma done_reaches_done:
  assumes "dfs_inv g st path" "gomap_get 0 st a = 2" "(a, b) \<in> (edges g)\<^sup>+"
  shows "gomap_get 0 st b = 2"
  using assms(3,2)
proof (induction rule: trancl_induct)
  case (base y)
  then show ?case using assms(1) by (auto simp: dfs_inv_def)
next
  case (step y z)
  then show ?case using assms(1) by (auto simp: dfs_inv_def)
qed

lemma dfs_inv_push:
  assumes inv: "dfs_inv g st path" and white: "gomap_get 0 st name \<noteq> 2" "gomap_get 0 st name \<noteq> 1"
    and edge: "path \<noteq> [] \<Longrightarrow> (last path, name) \<in> edges g"
  shows "dfs_inv g (AList.update name 1 st) (path @ [name])"
proof -
  have "name \<notin> set path" using inv white(2) by (auto simp: dfs_inv_def)
  moreover have "successively (\<lambda>a b. (a, b) \<in> edges g) (path @ [name])"
    using inv edge by (auto simp: successively_append_iff dfs_inv_def)
  ultimately show ?thesis using inv white by (auto simp: dfs_inv_def)
qed

lemma dfs_inv_pop:
  assumes inv: "dfs_inv g st (path @ [name])" and deps: "\<forall>d\<in>set (gomap_get [] g name). gomap_get 0 st d = 2"
  shows "dfs_inv g (AList.update name 2 st) path"
proof -
  have gray: "gomap_get 0 st name = 1" using inv by (auto simp: dfs_inv_def)
  have "(name, name) \<notin> (edges g)\<^sup>+"
  proof
    assume "(name, name) \<in> (edges g)\<^sup>+"
    then obtain d where d: "(name, d) \<in> edges g" "d = name \<or> (d, name) \<in> (edges g)\<^sup>+"
      by (auto dest!: tranclD dest: rtranclD)
    then have "gomap_get 0 st d = 2" using deps by (auto simp: edges_def)
    with d(2) have "gomap_get 0 st name = 2" using done_reaches_done [OF inv] by blast
    with gray show False by simp
  qed
  moreover have "name \<notin> set path" "distinct path" "successively (\<lambda>a b. (a, b) \<in> edges g) path"
    using inv by (auto simp: dfs_inv_def successively_append_iff)
  ultimately show ?thesis using inv deps by (auto simp: dfs_inv_def edges_def)
qed

text \<open>A chain that leads back to one of its nodes is a cycle.\<close>

lemma chain_trancl:
  "successively (\<lambda>a b. (a, b) \<in> r) (x # ys @ [z]) \<Longrightarrow> (x, z) \<in> r\<^sup>+"
  by (induction ys arbitrary: x) (auto simp: successively_Cons intro: trancl_into_trancl2)

lemma chain_closes:
  assumes "successively (\<lambda>a b. (a, b) \<in> r) path" "x \<in> set path" "(last path, x) \<in> r"
  shows "(x, x) \<in> r\<^sup>+"
proof -
  obtain as bs where path: "path = as @ x # bs" using assms(2) by (auto simp: in_set_conv_decomp)
  have "successively (\<lambda>a b. (a, b) \<in> r) (x # bs)" using assms(1) by (simp add: path successively_append_iff)
  moreover have "(last (x # bs), x) \<in> r" using assms(3) by (simp add: path)
  ultimately have "successively (\<lambda>a b. (a, b) \<in> r) ((x # bs) @ [x])"
    unfolding successively_append_iff by simp
  then show ?thesis by (simp add: chain_trancl)
qed

lemma dfs_correct:
  "dfs n g name (st, path) = Some res \<Longrightarrow> dfs_inv g st path \<Longrightarrow> (path \<noteq> [] \<longrightarrow> (last path, name) \<in> edges g) \<Longrightarrow>
     (case res of Inr (st', path') \<Rightarrow> path' = path \<and> dfs_inv g st' path \<and> gomap_get 0 st' name = 2
          \<and> (\<forall>a. gomap_get 0 st a = 2 \<longrightarrow> gomap_get 0 st' a = 2)
      | Inl e \<Rightarrow> \<exists>p. e = CircularDependency p \<and> (last p, last p) \<in> (edges g)\<^sup>+)"
  "dfs_deps n g ds (st, path) = Some res \<Longrightarrow> dfs_inv g st path \<Longrightarrow> path \<noteq> [] \<Longrightarrow>
     (\<forall>d\<in>set ds. (last path, d) \<in> edges g) \<Longrightarrow>
     (case res of Inr (st', path') \<Rightarrow> path' = path \<and> dfs_inv g st' path \<and> (\<forall>d\<in>set ds. gomap_get 0 st' d = 2)
          \<and> (\<forall>a. gomap_get 0 st a = 2 \<longrightarrow> gomap_get 0 st' a = 2)
      | Inl e \<Rightarrow> \<exists>p. e = CircularDependency p \<and> (last p, last p) \<in> (edges g)\<^sup>+)"
proof (induction n g name "(st, path)" and n g ds "(st, path)" arbitrary: st path res and st path res
    rule: dfs_dfs_deps.induct)
  case (1 g name)
  then show ?case by simp
next
  case (2 n g name st path)
  show ?case
  proof (cases "gomap_get 0 st name = 2 \<or> gomap_get 0 st name = 1")
    case True
    have "(name, name) \<in> (edges g)\<^sup>+" if gray: "gomap_get 0 st name = 1"
    proof -
      have "name \<in> set path" using gray 2(3) by (auto simp: dfs_inv_def)
      moreover from this have "(last path, name) \<in> edges g" using 2(4) by auto
      ultimately show ?thesis using 2(3) chain_closes by (auto simp: dfs_inv_def)
    qed
    with True 2(2,3) show ?thesis by auto
  next
    case False
    let ?st1 = "AList.update name 1 st" and ?p1 = "path @ [name]"
    have inv1: "dfs_inv g ?st1 ?p1" using dfs_inv_push 2(3,4) False by blast
    obtain r1 where r1: "dfs_deps n g (gomap_get [] g name) (?st1, ?p1) = Some r1"
      using 2(2) False by (auto split: option.splits)
    have step: "case r1 of Inr (st', path') \<Rightarrow> path' = ?p1 \<and> dfs_inv g st' ?p1
          \<and> (\<forall>d\<in>set (gomap_get [] g name). gomap_get 0 st' d = 2)
          \<and> (\<forall>a. gomap_get 0 ?st1 a = 2 \<longrightarrow> gomap_get 0 st' a = 2)
      | Inl e \<Rightarrow> \<exists>p. e = CircularDependency p \<and> (last p, last p) \<in> (edges g)\<^sup>+"
      using 2(1) [OF _ _ r1 inv1] False by (auto simp: edges_def)
    show ?thesis
    proof (cases r1)
      case (Inl e)
      then show ?thesis using step r1 2(2) False by auto
    next
      case (Inr sp)
      then obtain st' where sp: "sp = (st', ?p1)" and inv': "dfs_inv g st' ?p1"
        and deps: "\<forall>d\<in>set (gomap_get [] g name). gomap_get 0 st' d = 2"
        and mono: "\<forall>a. gomap_get 0 ?st1 a = 2 \<longrightarrow> gomap_get 0 st' a = 2"
        using step by (cases sp) auto
      have "res = Inr (AList.update name 2 st', path)" using 2(2) False r1 Inr sp by simp
      with dfs_inv_pop [OF inv' deps] mono False show ?thesis by auto
    qed
  qed
next
  case (3 n g)
  then show ?case by auto
next
  case (4 n g d ds)
  then obtain r1 where r1: "dfs n g d (st, path) = Some r1" by (auto split: option.splits)
  have "(path \<noteq> [] \<longrightarrow> (last path, d) \<in> edges g)" using 4 by simp
  note first = 4(1) [OF r1 4(4) this]
  show ?case
  proof (cases r1)
    case (Inl e)
    with first r1 4(3) show ?thesis by auto
  next
    case (Inr sp)
    then obtain st1 where sp: "sp = (st1, path)" and one: "dfs_inv g st1 path" "gomap_get 0 st1 d = 2"
      "\<forall>a. gomap_get 0 st a = 2 \<longrightarrow> gomap_get 0 st1 a = 2"
      using first by (cases sp) auto
    have rest: "dfs_deps n g ds (st1, path) = Some res" using 4(3) r1 Inr sp by simp
    have "r1 = Inr (st1, path)" using Inr sp by simp
    note second = 4(2) [OF r1 this rest one(1) 4(5)]
    with 4(6) one show ?thesis by (cases res) auto
  qed
qed

text \<open>The recursion is never deeper than the number of unvisited monitors plus one.\<close>

definition unvisited :: "string set \<Rightarrow> (string, int) gomap \<Rightarrow> nat" where
  "unvisited N st = card {a \<in> N. gomap_get 0 st a = 0}"

lemma unvisited_visit:
  assumes "finite N" "name \<in> N" "gomap_get 0 st name = 0" "c \<noteq> 0"
  shows "unvisited N (AList.update name c st) < unvisited N st"
proof -
  have "{a \<in> N. gomap_get 0 (AList.update name c st) a = 0} = {a \<in> N. gomap_get 0 st a = 0} - {name}"
    using assms(4) by auto
  then have "{a \<in> N. gomap_get 0 (AList.update name c st) a = 0} \<subset> {a \<in> N. gomap_get 0 st a = 0}"
    using assms(2,3) by auto
  then show ?thesis unfolding unvisited_def using assms(1) by (intro psubset_card_mono) auto
qed

lemma dfs_total:
  "finite N \<Longrightarrow> (\<forall>a\<in>N. set (gomap_get [] g a) \<subseteq> N) \<Longrightarrow> (\<forall>a. gomap_get 0 st a \<in> {0, 1, 2}) \<Longrightarrow>
     name \<in> N \<Longrightarrow> unvisited N st < n \<Longrightarrow>
     \<exists>res. dfs n g name (st, path) = Some res
       \<and> (\<forall>st' path'. res = Inr (st', path') \<longrightarrow> (\<forall>a. gomap_get 0 st' a \<in> {0, 1, 2}) \<and> unvisited N st' \<le> unvisited N st)"
  "finite N \<Longrightarrow> (\<forall>a\<in>N. set (gomap_get [] g a) \<subseteq> N) \<Longrightarrow> (\<forall>a. gomap_get 0 st a \<in> {0, 1, 2}) \<Longrightarrow>
     set ds \<subseteq> N \<Longrightarrow> unvisited N st < n \<Longrightarrow>
     \<exists>res. dfs_deps n g ds (st, path) = Some res
       \<and> (\<forall>st' path'. res = Inr (st', path') \<longrightarrow> (\<forall>a. gomap_get 0 st' a \<in> {0, 1, 2}) \<and> unvisited N st' \<le> unvisited N st)"
proof (induction n g name "(st, path)" and n g ds "(st, path)" arbitrary: st path and st path
    rule: dfs_dfs_deps.induct)
  case (1 g name)
  then show ?case by simp
next
  case (2 n g name st path)
  show ?case
  proof (cases "gomap_get 0 st name = 2 \<or> gomap_get 0 st name = 1")
    case True
    then show ?thesis using 2 by auto
  next
    case False
    let ?st1 = "AList.update name 1 st"
    have "gomap_get 0 st name = 0" using False 2(4) by blast
    then have less: "unvisited N ?st1 < unvisited N st" using unvisited_visit 2(2,5) by simp
    have col: "\<forall>a. gomap_get 0 ?st1 a \<in> {0, 1, 2}" using 2(4) by simp
    obtain res where res: "dfs_deps n g (gomap_get [] g name) (?st1, path @ [name]) = Some res"
      and keep: "\<forall>st' path'. res = Inr (st', path') \<longrightarrow>
        (\<forall>a. gomap_get 0 st' a \<in> {0, 1, 2}) \<and> unvisited N st' \<le> unvisited N ?st1"
      using 2(1) [OF _ _ 2(2,3) col] False 2(3,5,6) less by auto
    have "unvisited N (AList.update name 2 st') \<le> unvisited N st'" for st'
      unfolding unvisited_def using 2(2) by (intro card_mono) auto
    then have "unvisited N (AList.update name 2 st') \<le> unvisited N st" if "unvisited N st' \<le> unvisited N ?st1" for st'
      using that less by (meson le_trans less_imp_le)
    with res keep False show ?thesis by (cases res) auto
  qed
next
  case (3 n g)
  then show ?case by auto
next
  case (4 n g d ds)
  obtain r1 where r1: "dfs n g d (st, path) = Some r1"
    and keep: "\<forall>st' path'. r1 = Inr (st', path') \<longrightarrow>
      (\<forall>a. gomap_get 0 st' a \<in> {0, 1, 2}) \<and> unvisited N st' \<le> unvisited N st"
    using 4(1) [OF 4(3-5)] 4(6,7) by auto
  show ?case
  proof (cases r1)
    case (Inl e)
    with r1 show ?thesis by auto
  next
    case (Inr sp)
    then obtain st1 p1 where sp: "r1 = Inr (st1, p1)" by (cases sp) auto
    from keep sp have one: "\<forall>a. gomap_get 0 st1 a \<in> {0, 1, 2}" "unvisited N st1 \<le> unvisited N st" by auto
    with 4(2) [OF r1 sp 4(3,4) one(1)] 4(6,7) r1 sp show ?thesis by (auto intro: order_trans)
  qed
qed

definition search_spec ::
  "(string, string list) gomap \<Rightarrow> (string, int) gomap \<Rightarrow> string list \<Rightarrow> config_error + (string, int) gomap \<Rightarrow> bool" where
  "search_spec g st ms res \<longleftrightarrow>
     (case res of Inr st' \<Rightarrow> dfs_inv g st' [] \<and> (\<forall>a\<in>set ms. gomap_get 0 st' a = 2)
          \<and> (\<forall>a. gomap_get 0 st a = 2 \<longrightarrow> gomap_get 0 st' a = 2)
      | Inl e \<Rightarrow> \<exists>p. e = CircularDependency p \<and> (last p, last p) \<in> (edges g)\<^sup>+)"

lemma search_spec_Cons:
  "search_spec g st1 ms res \<Longrightarrow> gomap_get 0 st1 m = 2 \<Longrightarrow>
   (\<forall>a. gomap_get 0 st a = 2 \<longrightarrow> gomap_get 0 st1 a = 2) \<Longrightarrow> search_spec g st (m # ms) res"
  by (cases res) (simp_all add: search_spec_def)

lemma dfs_monitors_correct:
  assumes "finite N" "\<forall>a\<in>N. set (gomap_get [] g a) \<subseteq> N" "dfs_inv g st []" "set ms \<subseteq> N" "card N < n"
  shows "\<exists>res. dfs_monitors n g ms st = Some res \<and> search_spec g st ms res"
  using assms(3,4)
proof (induction ms arbitrary: st)
  case Nil
  then show ?case by (simp add: search_spec_def)
next
  case (Cons m ms)
  have ms: "set ms \<subseteq> N" using Cons.prems(2) by simp
  show ?case
  proof (cases "gomap_get 0 st m = 0")
    case False
    then have "gomap_get 0 st m = 2" using Cons.prems(1) by (auto simp: dfs_inv_def)
    with False Cons.IH [OF Cons.prems(1) ms] show ?thesis by (auto intro: search_spec_Cons)
  next
    case True
    have "unvisited N st \<le> card N"
      unfolding unvisited_def using assms(1) by (intro card_mono) auto
    then have "unvisited N st < n" using assms(5) by simp
    moreover have "\<forall>a. gomap_get 0 st a \<in> {0, 1, 2}" using Cons.prems(1) unfolding dfs_inv_def by blast
    ultimately have "\<exists>r. dfs n g m (st, []) = Some r"
      using dfs_total(1) [OF assms(1,2), of st m n "[]"] Cons.prems(2) by auto
    then obtain r where r: "dfs n g m (st, []) = Some r" by blast
    note step = dfs_correct(1) [OF r Cons.prems(1)]
    show ?thesis
    proof (cases r)
      case (Inl e)
      with step r True show ?thesis by (simp add: search_spec_def)
    next
      case (Inr sp)
      with step obtain st1 where sp: "sp = (st1, [])" and one: "dfs_inv g st1 []" "gomap_get 0 st1 m = 2"
        "\<forall>a. gomap_get 0 st a = 2 \<longrightarrow> gomap_get 0 st1 a = 2"
        by (cases sp) auto
      have "dfs_monitors n g (m # ms) st = dfs_monitors n g ms st1" using r Inr sp True by simp
      with Cons.IH [OF one(1) ms] search_spec_Cons [OF _ one(2,3)] show ?thesis by auto
    qed
  qed
qed

text \<open>The dependencies of the configuration: an edge from a monitor to each one it names.\<close>

definition depends_on :: "MonitorConfig list \<Rightarrow> (string \<times> string) set" where
  "depends_on ms = {(mc_Name m, d) |m d. m \<in> set ms \<and> d \<in> set (mc_DependsOn m)}"

lemma map_of_dependency_graph:
  assumes "distinct (map mc_Name ms)"
  shows "map_of (dependency_graph ms) a = Some ds \<longleftrightarrow> (\<exists>m\<in>set ms. mc_Name m = a \<and> mc_DependsOn m = ds)"
  by (simp add: dependency_graph_def map_of_fold_update [OF assms] map_of_map_distinct [OF assms])

lemma edges_dependency_graph:
  assumes "distinct (map mc_Name ms)"
  shows "edges (dependency_graph ms) = depends_on ms"
proof -
  have "b \<in> set (gomap_get [] (dependency_graph ms) a) \<longleftrightarrow>
      (\<exists>ds. map_of (dependency_graph ms) a = Some ds \<and> b \<in> set ds)" for a b
    by (cases "map_of (dependency_graph ms) a") (simp_all add: gomap_get_def)
  then show ?thesis
    unfolding edges_def depends_on_def map_of_dependency_graph [OF assms] by auto
qed

lemma missing_dependency_None:
  "missing_dependency ms = None \<longleftrightarrow> (\<forall>m\<in>set ms. set (mc_DependsOn m) \<subseteq> mc_Name ` set ms)"
  by (auto simp: missing_dependency_def all_passed_None split: if_splits)

lemma search_exact:
  assumes "distinct (map mc_Name ms)" and missing: "missing_dependency ms = None"
  shows "\<exists>res. dfs_monitors (length ms + 1) (dependency_graph ms) (map mc_Name ms) [] = Some res
    \<and> ((\<exists>st'. res = Inr st') \<longleftrightarrow> acyclic (depends_on ms))"
proof -
  let ?g = "dependency_graph ms" and ?N = "mc_Name ` set ms"
  have E: "edges ?g = depends_on ms" by (rule edges_dependency_graph [OF assms(1)])
  have closed: "\<forall>a\<in>?N. set (gomap_get [] ?g a) \<subseteq> ?N"
    using missing E unfolding missing_dependency_None edges_def depends_on_def by blast
  have "card ?N < length ms + 1"
    using card_image_le [of "set ms" mc_Name] card_length [of ms] by simp
  moreover have "dfs_inv ?g [] []" by (simp add: dfs_inv_def)
  ultimately obtain res where run: "dfs_monitors (length ms + 1) ?g (map mc_Name ms) [] = Some res"
    and res: "search_spec ?g [] (map mc_Name ms) res"
    using dfs_monitors_correct [OF _ closed, of "[]" "map mc_Name ms" "length ms + 1"] by auto
  have "(\<exists>st'. res = Inr st') \<longleftrightarrow> acyclic (depends_on ms)"
  proof (cases res)
    case (Inl e)
    with res E show ?thesis by (auto simp: acyclic_def search_spec_def)
  next
    case (Inr st')
    have "(a, a) \<notin> (depends_on ms)\<^sup>+" for a
    proof
      assume cyc: "(a, a) \<in> (depends_on ms)\<^sup>+"
      then obtain b where "(a, b) \<in> depends_on ms" by (auto dest: tranclD)
      then have "a \<in> ?N" by (auto simp: depends_on_def)
      with Inr res cyc show False by (auto simp: dfs_inv_def search_spec_def E)
    qed
    with Inr show ?thesis by (simp add: acyclic_def)
  qed
  with run show ?thesis by blast
qed

lemma detect_accepts:
  assumes "distinct (map mc_Name ms)" "detectCircularDependencies ms = None"
  shows "\<forall>m\<in>set ms. set (mc_DependsOn m) \<subseteq> mc_Name ` set ms" "acyclic (depends_on ms)"
proof -
  have missing: "missing_dependency ms = None" using assms(2) by (simp add: detectCircularDependencies_def)
  then show "\<forall>m\<in>set ms. set (mc_DependsOn m) \<subseteq> mc_Name ` set ms" by (simp add: missing_dependency_None)
  from search_exact [OF assms(1) missing] obtain res where
    "dfs_monitors (length ms + 1) (dependency_graph ms) (map mc_Name ms) [] = Some res"
    "(\<exists>st'. res = Inr st') \<longleftrightarrow> acyclic (depends_on ms)" by blast
  with assms(2) missing show "acyclic (depends_on ms)"
    by (cases res) (simp_all add: detectCircularDependencies_def)
qed

text \<open>
  C38. The search for circular dependencies is exact: for monitors with distinct names it accepts
  exactly the configurations in which every dependency names an existing monitor and no monitor
  depends on itself through any chain. The search always ends: the recursion bound, one more than the
  number of monitors, is never reached.\<close>

theorem circular_dependency_check_exact:
  assumes "distinct (map mc_Name ms)"
  shows "(detectCircularDependencies ms = None \<longleftrightarrow>
      (\<forall>m\<in>set ms. set (mc_DependsOn m) \<subseteq> mc_Name ` set ms) \<and> acyclic (depends_on ms))
    \<and> (missing_dependency ms = None \<longrightarrow>
        dfs_monitors (length ms + 1) (dependency_graph ms) (map mc_Name ms) [] \<noteq> None)"
proof (cases "missing_dependency ms = None")
  case False
  then show ?thesis by (auto simp: detectCircularDependencies_def missing_dependency_None)
next
  case True
  from search_exact [OF assms True] obtain res where
    run: "dfs_monitors (length ms + 1) (dependency_graph ms) (map mc_Name ms) [] = Some res"
    and res: "(\<exists>st'. res = Inr st') \<longleftrightarrow> acyclic (depends_on ms)" by blast
  have "detectCircularDependencies ms = None \<longleftrightarrow> (\<exists>st'. res = Inr st')"
    using True run by (cases res) (simp_all add: detectCircularDependencies_def)
  with True run res show ?thesis by (simp add: missing_dependency_None)
qed

end
