(* ===== verification/Config_Env.thy ===== *)
theory Config_Env
  imports Config_Types
begin

text \<open>
  \<^verbatim>\<open>pkg/types/config.go\<close>, the environment substitution. \<open>expandEnv\<close> is \<^verbatim>\<open>os.ExpandEnv\<close> over an
  environment \<open>getenv\<close>, which is empty for a variable that is not set.
\<close>

section \<open>Definitions\<close>

definition isShellSpecialVar :: "char \<Rightarrow> bool" where
  "isShellSpecialVar ch \<longleftrightarrow> ch \<in> set ''*#$@!?-0123456789''"

definition isAlphaNum :: "char \<Rightarrow> bool" where
  "isAlphaNum ch \<longleftrightarrow> (let n = (of_char ch :: nat) in
     ch = CHR ''_'' \<or> 48 \<le> n \<and> n \<le> 57 \<or> 97 \<le> n \<and> n \<le> 122 \<or> 65 \<le> n \<and> n \<le> 90)"

text \<open>The variable name that starts the text, and how many characters it takes.\<close>

definition getShellName :: "string \<Rightarrow> string \<times> nat" where
  "getShellName s =
     (case s of [] \<Rightarrow> ([], 0)
      | ch # rest \<Rightarrow>
          if ch = CHR ''{'' then
            if 1 < length rest \<and> isShellSpecialVar (rest ! 0) \<and> rest ! 1 = CHR ''}'' then ([rest ! 0], 3)
            else let name = takeWhile (\<lambda>x. x \<noteq> CHR ''}'') rest
                 in if length name < length rest then
                      if name = [] then ([], 2) else (name, length name + 2)
                    else ([], 1)
          else if isShellSpecialVar ch then ([ch], 1)
          else let name = takeWhile isAlphaNum s in (name, length name))"

function expandEnv :: "(string \<Rightarrow> string) \<Rightarrow> string \<Rightarrow> string" where
  "expandEnv getenv [] = []"
| "expandEnv getenv (ch # s) =
     (if ch = CHR ''$'' \<and> s \<noteq> [] then
        let (name, w) = getShellName s
        in (if name \<noteq> [] then getenv name else if 0 < w then [] else [ch]) @ expandEnv getenv (drop w s)
      else ch # expandEnv getenv s)"
  by pat_completeness auto

termination
  by (relation "measure (length \<circ> snd)") auto

fun substituteEnvValue :: "(string \<Rightarrow> string) \<Rightarrow> cfg_value \<Rightarrow> cfg_value"
  and substituteEnvInSlice :: "(string \<Rightarrow> string) \<Rightarrow> cfg_value list \<Rightarrow> cfg_value list"
  and substituteEnvInMap :: "(string \<Rightarrow> string) \<Rightarrow> (string \<times> cfg_value) list \<Rightarrow> (string \<times> cfg_value) list"
  and substituteEnvInAnyMap :: "(string \<Rightarrow> string) \<Rightarrow> (cfg_value \<times> cfg_value) list \<Rightarrow> (string \<times> cfg_value) list" where
  "substituteEnvValue getenv (CVString s) = CVString (expandEnv getenv s)"
| "substituteEnvValue getenv (CVMap kvs) = CVMap (substituteEnvInMap getenv kvs)"
| "substituteEnvValue getenv (CVList vs) = CVList (substituteEnvInSlice getenv vs)"
| "substituteEnvValue getenv (CVAnyMap kvs) = CVMap (substituteEnvInAnyMap getenv kvs)"
| "substituteEnvValue getenv CVNil = CVNil"
| "substituteEnvValue getenv (CVBool b) = CVBool b"
| "substituteEnvValue getenv (CVInt i) = CVInt i"
| "substituteEnvValue getenv (CVFloat q) = CVFloat q"
| "substituteEnvInSlice getenv [] = []"
| "substituteEnvInSlice getenv (v # vs) = substituteEnvValue getenv v # substituteEnvInSlice getenv vs"
| "substituteEnvInMap getenv [] = []"
| "substituteEnvInMap getenv ((k, v) # kvs) = (k, substituteEnvValue getenv v) # substituteEnvInMap getenv kvs"
| "substituteEnvInAnyMap getenv [] = []"
| "substituteEnvInAnyMap getenv ((k, v) # kvs) =
     (case k of CVString s \<Rightarrow> (s, substituteEnvValue getenv v) # substituteEnvInAnyMap getenv kvs
      | _ \<Rightarrow> substituteEnvInAnyMap getenv kvs)"

definition expandValues :: "(string \<Rightarrow> string) \<Rightarrow> (string, string) gomap \<Rightarrow> (string, string) gomap" where
  "expandValues getenv m = map (\<lambda>(k, v). (k, expandEnv getenv v)) m"

definition GlobalSettings_SubstituteEnvVars :: "(string \<Rightarrow> string) \<Rightarrow> GlobalSettings \<Rightarrow> GlobalSettings" where
  "GlobalSettings_SubstituteEnvVars getenv s =
     s\<lparr>gs_NodeName := expandEnv getenv (gs_NodeName s), gs_Kubeconfig := expandEnv getenv (gs_Kubeconfig s),
       gs_LogFile := expandEnv getenv (gs_LogFile s)\<rparr>"

fun MonitorRemediationConfig_SubstituteEnvVars ::
    "(string \<Rightarrow> string) \<Rightarrow> MonitorRemediationConfig \<Rightarrow> MonitorRemediationConfig"
  and strategies_SubstituteEnvVars ::
    "(string \<Rightarrow> string) \<Rightarrow> MonitorRemediationConfig list \<Rightarrow> MonitorRemediationConfig list" where
  "MonitorRemediationConfig_SubstituteEnvVars getenv
       (MonitorRemediationConfig en st ac sv sp itf args strats rse tc ma cs cd pre) =
     MonitorRemediationConfig en st ac sv (expandEnv getenv sp) itf (map (expandEnv getenv) args)
       (strategies_SubstituteEnvVars getenv strats) rse tc ma cs cd pre"
| "strategies_SubstituteEnvVars getenv [] = []"
| "strategies_SubstituteEnvVars getenv (s # ss) =
     MonitorRemediationConfig_SubstituteEnvVars getenv s # strategies_SubstituteEnvVars getenv ss"

definition MonitorConfig_SubstituteEnvVars :: "(string \<Rightarrow> string) \<Rightarrow> MonitorConfig \<Rightarrow> MonitorConfig" where
  "MonitorConfig_SubstituteEnvVars getenv m =
     m\<lparr>mc_Config := substituteEnvInMap getenv (mc_Config m),
       mc_Remediation := map_option (MonitorRemediationConfig_SubstituteEnvVars getenv) (mc_Remediation m)\<rparr>"

definition KubernetesExporterConfig_SubstituteEnvVars ::
  "(string \<Rightarrow> string) \<Rightarrow> KubernetesExporterConfig \<Rightarrow> KubernetesExporterConfig" where
  "KubernetesExporterConfig_SubstituteEnvVars getenv k =
     k\<lparr>ke_Namespace := expandEnv getenv (ke_Namespace k),
       ke_Annotations := map (\<lambda>a. a\<lparr>an_Key := expandEnv getenv (an_Key a),
         an_Value := expandEnv getenv (an_Value a)\<rparr>) (ke_Annotations k)\<rparr>"

definition WebhookEndpoint_SubstituteEnvVars :: "(string \<Rightarrow> string) \<Rightarrow> WebhookEndpoint \<Rightarrow> WebhookEndpoint" where
  "WebhookEndpoint_SubstituteEnvVars getenv w =
     w\<lparr>wh_URL := expandEnv getenv (wh_URL w),
       wh_Auth := (wh_Auth w)\<lparr>au_Token := expandEnv getenv (au_Token (wh_Auth w)),
         au_Username := expandEnv getenv (au_Username (wh_Auth w)),
         au_Password := expandEnv getenv (au_Password (wh_Auth w))\<rparr>,
       wh_Headers := expandValues getenv (wh_Headers w)\<rparr>"

definition HTTPExporterConfig_SubstituteEnvVars :: "(string \<Rightarrow> string) \<Rightarrow> HTTPExporterConfig \<Rightarrow> HTTPExporterConfig" where
  "HTTPExporterConfig_SubstituteEnvVars getenv h =
     h\<lparr>he_Headers := expandValues getenv (he_Headers h),
       he_Webhooks := map (WebhookEndpoint_SubstituteEnvVars getenv) (he_Webhooks h)\<rparr>"

definition PrometheusExporterConfig_SubstituteEnvVars ::
  "(string \<Rightarrow> string) \<Rightarrow> PrometheusExporterConfig \<Rightarrow> PrometheusExporterConfig" where
  "PrometheusExporterConfig_SubstituteEnvVars getenv p =
     p\<lparr>pe_BindAddress := expandEnv getenv (pe_BindAddress p), pe_Namespace := expandEnv getenv (pe_Namespace p),
       pe_Subsystem := expandEnv getenv (pe_Subsystem p), pe_Labels := expandValues getenv (pe_Labels p)\<rparr>"

definition RemediationConfig_SubstituteEnvVars :: "RemediationConfig \<Rightarrow> RemediationConfig" where
  "RemediationConfig_SubstituteEnvVars r = r"

definition NodeDoctorConfig_SubstituteEnvVars :: "(string \<Rightarrow> string) \<Rightarrow> NodeDoctorConfig \<Rightarrow> NodeDoctorConfig" where
  "NodeDoctorConfig_SubstituteEnvVars getenv c =
     c\<lparr>ndc_Settings := GlobalSettings_SubstituteEnvVars getenv (ndc_Settings c),
       ndc_Monitors := map (MonitorConfig_SubstituteEnvVars getenv) (ndc_Monitors c),
       ndc_Exporters := (ndc_Exporters c)\<lparr>
         ex_Kubernetes := map_option (KubernetesExporterConfig_SubstituteEnvVars getenv) (ex_Kubernetes (ndc_Exporters c)),
         ex_HTTP := map_option (HTTPExporterConfig_SubstituteEnvVars getenv) (ex_HTTP (ndc_Exporters c)),
         ex_Prometheus := map_option (PrometheusExporterConfig_SubstituteEnvVars getenv) (ex_Prometheus (ndc_Exporters c))\<rparr>,
       ndc_Remediation := RemediationConfig_SubstituteEnvVars (ndc_Remediation c)\<rparr>"

section \<open>Expansion\<close>

lemma expandEnv_no_dollar: "CHR ''$'' \<notin> set s \<Longrightarrow> expandEnv getenv s = s"
  by (induction getenv s rule: expandEnv.induct) auto

lemma getShellName_braced:
  assumes "name \<noteq> []" "CHR ''}'' \<notin> set name"
  shows "getShellName (CHR ''{'' # name @ CHR ''}'' # rest) = (name, length name + 2)"
proof -
  have "takeWhile (\<lambda>x. x \<noteq> CHR ''}'') (name @ CHR ''}'' # rest) = name"
    using assms(2) by (subst takeWhile_append2) auto
  then show ?thesis
    using assms by (cases name; cases "tl name") (auto simp: getShellName_def Let_def nth_Cons' nth_append split: if_splits)
qed

text \<open>
  A variable written in braces is replaced by its value wherever it stands: expanding a text
  without a dollar sign followed by a braced variable and any further text gives the first text
  unchanged, the value, and the expansion of the rest.\<close>

lemma braced_variable_is_expanded:
  assumes "CHR ''$'' \<notin> set pre" "name \<noteq> []" "CHR ''}'' \<notin> set name"
  shows "expandEnv getenv (pre @ ''${'' @ name @ ''}'' @ rest) = pre @ getenv name @ expandEnv getenv rest"
proof -
  have "expandEnv getenv (''${'' @ name @ ''}'' @ rest) = getenv name @ expandEnv getenv rest"
    using getShellName_braced [OF assms(2,3), of rest] assms(2) by simp
  with assms(1) show ?thesis by (induction pre) auto
qed

text \<open>The text of the file is expanded before it is parsed and its string fields once more afterwards, so
  a value that holds a dollar sign is read as a variable itself.\<close>

lemma expanded_value_is_expanded_again:
  assumes "name \<noteq> []" "CHR ''}'' \<notin> set name"
  shows "expandEnv getenv (expandEnv getenv (''${'' @ name @ ''}'')) = expandEnv getenv (getenv name)"
  using braced_variable_is_expanded [of "[]" name getenv "[]"] assms by simp

lemma dollar_in_a_value_is_lost:
  assumes "getenv ''PW'' = ''a$b''" "getenv ''b'' = []"
  shows "expandEnv getenv (expandEnv getenv ''${PW}'') = ''a''"
  using expanded_value_is_expanded_again [of "''PW''" getenv] assms
  by (simp add: getShellName_def isShellSpecialVar_def isAlphaNum_def)

end
