(* ===== verification/Config_Load.thy ===== *)
theory Config_Load
  imports Config_Validate Config_Env
begin

text \<open>
  \<^verbatim>\<open>pkg/util/config.go\<close>: loading a configuration and the built-in default. Reading the file gives its
  text or an error; \<open>unmarshal\<close> is the YAML or JSON decoder chosen by the file extension.
\<close>

section \<open>Definitions\<close>

datatype load_error = ReadFailed string | ParseFailed string | DefaultsFailed config_error | InvalidConfig config_error

definition finish_config ::
  "(string \<Rightarrow> duration option) \<Rightarrow> NodeDoctorConfig \<Rightarrow> load_error + NodeDoctorConfig" where
  "finish_config parse c =
     (case NodeDoctorConfig_ApplyDefaults parse c of Inl e \<Rightarrow> Inl (DefaultsFailed e)
      | Inr c' \<Rightarrow> (case NodeDoctorConfig_Validate c' of Some e \<Rightarrow> Inl (InvalidConfig e) | None \<Rightarrow> Inr c'))"

definition LoadConfig ::
  "(string \<Rightarrow> string) \<Rightarrow> (string \<Rightarrow> string + NodeDoctorConfig) \<Rightarrow> (string \<Rightarrow> duration option) \<Rightarrow>
   string + string \<Rightarrow> load_error + NodeDoctorConfig" where
  "LoadConfig getenv unmarshal parse file =
     (case file of Inl e \<Rightarrow> Inl (ReadFailed e)
      | Inr text \<Rightarrow>
          (case unmarshal (expandEnv getenv text) of Inl e \<Rightarrow> Inl (ParseFailed e)
           | Inr c \<Rightarrow> finish_config parse (NodeDoctorConfig_SubstituteEnvVars getenv c)))"

definition zero_GlobalSettings :: GlobalSettings where
  "zero_GlobalSettings = \<lparr>gs_NodeName = [], gs_LogLevel = [], gs_LogFormat = [], gs_LogOutput = [], gs_LogFile = [],
     gs_UpdateIntervalString = [], gs_ResyncIntervalString = [], gs_HeartbeatIntervalString = [],
     gs_UpdateInterval = 0, gs_ResyncInterval = 0, gs_HeartbeatInterval = 0, gs_DryRunMode = False,
     gs_Kubeconfig = [], gs_QPS = 0, gs_Burst = 0\<rparr>"

definition zero_MonitorConfig :: MonitorConfig where
  "zero_MonitorConfig = \<lparr>mc_Name = [], mc_Type = [], mc_Enabled = False, mc_IntervalString = [], mc_TimeoutString = [],
     mc_Interval = 0, mc_Timeout = 0, mc_Config = [], mc_Remediation = None, mc_DependsOn = []\<rparr>"

definition zero_KubernetesExporterConfig :: KubernetesExporterConfig where
  "zero_KubernetesExporterConfig = \<lparr>ke_Enabled = False, ke_UpdateIntervalString = [], ke_ResyncIntervalString = [],
     ke_HeartbeatIntervalString = [], ke_ConditionStaleTTLString = [], ke_UpdateInterval = 0, ke_ResyncInterval = 0,
     ke_HeartbeatInterval = 0, ke_ConditionStaleTTL = 0, ke_Namespace = [], ke_Conditions = [], ke_Annotations = [],
     ke_Events = \<lparr>ec_MaxEventsPerMinute = 0, ec_EventTTLString = [], ec_EventTTL = 0,
       ec_DeduplicationWindowString = [], ec_DeduplicationWindow = 0\<rparr>\<rparr>"

definition zero_HTTPExporterConfig :: HTTPExporterConfig where
  "zero_HTTPExporterConfig = \<lparr>he_Enabled = False, he_Webhooks = [], he_Workers = 0, he_QueueSize = 0,
     he_TimeoutString = [], he_Timeout = 0,
     he_Retry = \<lparr>rc_MaxAttempts = 0, rc_BaseDelayString = [], rc_BaseDelay = 0, rc_MaxDelayString = [], rc_MaxDelay = 0\<rparr>,
     he_Headers = [], he_Controller = None\<rparr>"

definition zero_PrometheusExporterConfig :: PrometheusExporterConfig where
  "zero_PrometheusExporterConfig = \<lparr>pe_Enabled = False, pe_Port = 0, pe_BindAddress = [], pe_Path = [],
     pe_Namespace = [], pe_Subsystem = [], pe_Labels = []\<rparr>"

definition zero_RemediationConfig :: RemediationConfig where
  "zero_RemediationConfig = \<lparr>rmc_Enabled = False, rmc_DryRun = False, rmc_MaxRemediationsPerHour = 0,
     rmc_MaxRemediationsPerMinute = 0,
     rmc_CircuitBreaker = \<lparr>cbc_Enabled = None, cbc_Threshold = 0, cbc_TimeoutString = [], cbc_Timeout = 0,
       cbc_SuccessThreshold = 0\<rparr>,
     rmc_HistorySize = 0, rmc_Coordination = None\<rparr>"

definition default_config_literal :: "string \<Rightarrow> NodeDoctorConfig" where
  "default_config_literal nodeName =
     \<lparr>ndc_APIVersion = ''node-doctor.io/v1alpha1'', ndc_Kind = ''NodeDoctorConfig'',
      ndc_Metadata = \<lparr>cm_Name = ''default'', cm_Namespace = [], cm_Labels = []\<rparr>,
      ndc_Settings = zero_GlobalSettings\<lparr>gs_NodeName := nodeName\<rparr>,
      ndc_Monitors = [zero_MonitorConfig\<lparr>mc_Name := ''kubelet-health'', mc_Type := ''kubernetes-kubelet-check'',
        mc_Enabled := True, mc_Config := [(''healthzURL'', CVString ''http://127.0.0.1:10248/healthz'')]\<rparr>],
      ndc_Exporters = \<lparr>ex_Kubernetes = Some (zero_KubernetesExporterConfig\<lparr>ke_Enabled := True\<rparr>),
        ex_HTTP = Some zero_HTTPExporterConfig,
        ex_Prometheus = Some (zero_PrometheusExporterConfig\<lparr>pe_Enabled := True\<rparr>)\<rparr>,
      ndc_Remediation = zero_RemediationConfig,
      ndc_Features = \<lparr>ff_EnableProfiling = False, ff_ProfilingPort = 0\<rparr>,
      ndc_Reload = \<lparr>rl_Enabled = None, rl_DebounceIntervalString = [], rl_DebounceInterval = 0\<rparr>\<rparr>"

text \<open>\<open>hostname\<close> is \<^verbatim>\<open>os.Hostname\<close>, which may fail.\<close>

definition DefaultConfig ::
  "(string \<Rightarrow> string) \<Rightarrow> string option \<Rightarrow> (string \<Rightarrow> duration option) \<Rightarrow> load_error + NodeDoctorConfig" where
  "DefaultConfig getenv hostname parse =
     (let env = getenv ''NODE_NAME'';
          nodeName = (if env = [] then (case hostname of None \<Rightarrow> ''node-doctor-node'' | Some h \<Rightarrow> h) else env)
      in finish_config parse (default_config_literal nodeName))"

definition LoadConfigOrDefault ::
  "(string \<Rightarrow> string) \<Rightarrow> string option \<Rightarrow> (string \<Rightarrow> string + NodeDoctorConfig) \<Rightarrow> (string \<Rightarrow> duration option) \<Rightarrow>
   bool \<Rightarrow> string + string \<Rightarrow> load_error + NodeDoctorConfig" where
  "LoadConfigOrDefault getenv hostname unmarshal parse present file =
     (if \<not> present then DefaultConfig getenv hostname parse else LoadConfig getenv unmarshal parse file)"

section \<open>What a loaded configuration satisfies\<close>

lemma validate_monitors_None:
  "validate_monitors i seen ms = None \<Longrightarrow>
     distinct (map mc_Name ms) \<and> set (map mc_Name ms) \<inter> set seen = {}
   \<and> (\<forall>m\<in>set ms. mc_Name m \<noteq> [] \<and> MonitorConfig_Validate m = None)"
  by (induction i seen ms rule: validate_monitors.induct) (auto split: if_splits)

lemma MonitorConfig_Validate_None:
  "MonitorConfig_Validate m = None \<Longrightarrow>
     mc_Type m \<noteq> [] \<and> second \<le> mc_Interval m \<and> 0 < mc_Timeout m \<and> mc_Timeout m < mc_Interval m"
  by (auto simp: MonitorConfig_Validate_def first_failed_None MinMonitorInterval_def simp del: first_failed.simps)

lemma finish_config_valid: "finish_config parse c = Inr c' \<Longrightarrow> NodeDoctorConfig_Validate c' = None"
  by (auto simp: finish_config_def split: sum.splits option.splits)

text \<open>
  C40. Whatever the file says, a configuration that loads can be scheduled: its monitors have distinct
  non-empty names and a type, each runs at most once a second and times out before its next run is
  due; the heartbeat is at least five seconds; the remediation history is not empty, the remediation limits are not
  negative, and an enabled Kubernetes exporter has positive intervals.\<close>

theorem loaded_config_is_schedulable:
  assumes "LoadConfig getenv unmarshal parse file = Inr c"
  shows "distinct (map mc_Name (ndc_Monitors c))
    \<and> (\<forall>m\<in>set (ndc_Monitors c). mc_Name m \<noteq> [] \<and> mc_Type m \<noteq> [] \<and> second \<le> mc_Interval m
         \<and> 0 < mc_Timeout m \<and> mc_Timeout m < mc_Interval m)
    \<and> gs_NodeName (ndc_Settings c) \<noteq> [] \<and> 5 * second \<le> gs_HeartbeatInterval (ndc_Settings c)
    \<and> 0 < rmc_HistorySize (ndc_Remediation c) \<and> 0 \<le> rmc_MaxRemediationsPerHour (ndc_Remediation c)
    \<and> 0 \<le> rmc_MaxRemediationsPerMinute (ndc_Remediation c)
    \<and> (\<forall>k. ex_Kubernetes (ndc_Exporters c) = Some k \<and> ke_Enabled k \<longrightarrow>
         0 < ke_UpdateInterval k \<and> 0 < ke_ResyncInterval k \<and> 0 < ke_HeartbeatInterval k \<and> 0 < ke_ConditionStaleTTL k)"
proof -
  have ok: "NodeDoctorConfig_Validate c = None"
    using assms finish_config_valid by (auto simp: LoadConfig_def split: sum.splits)
  then have ms: "validate_monitors 0 [] (ndc_Monitors c) = None"
    and st: "GlobalSettings_Validate (ndc_Settings c) = None"
    and rm: "RemediationConfig_Validate (ndc_Remediation c) = None"
    by (simp_all add: NodeDoctorConfig_Validate_def)
  have k: "KubernetesExporterConfig_Validate k = None" if "ex_Kubernetes (ndc_Exporters c) = Some k" for k
    using ok that by (simp add: NodeDoctorConfig_Validate_def)
  have "0 < ke_UpdateInterval k \<and> 0 < ke_ResyncInterval k \<and> 0 < ke_HeartbeatInterval k \<and> 0 < ke_ConditionStaleTTL k"
    if "ex_Kubernetes (ndc_Exporters c) = Some k" "ke_Enabled k" for k
    using k [OF that(1)] that(2) by (simp add: KubernetesExporterConfig_Validate_def first_failed_None del: first_failed.simps)
  moreover have "gs_NodeName (ndc_Settings c) \<noteq> [] \<and> 5 * second \<le> gs_HeartbeatInterval (ndc_Settings c)"
    using st by (simp add: GlobalSettings_Validate_def first_failed_None MinHeartbeatInterval_def del: first_failed.simps)
  moreover have "0 < rmc_HistorySize (ndc_Remediation c) \<and> 0 \<le> rmc_MaxRemediationsPerHour (ndc_Remediation c)
      \<and> 0 \<le> rmc_MaxRemediationsPerMinute (ndc_Remediation c)"
    using rm by (simp add: RemediationConfig_Validate_def first_failed_None del: first_failed.simps)
  ultimately show ?thesis
    using validate_monitors_None [OF ms] MonitorConfig_Validate_None by blast
qed

text \<open>The literals the defaults contain, read by the parser as the documentation of the format says.\<close>

definition parses_default_literals :: "(string \<Rightarrow> duration option) \<Rightarrow> bool" where
  "parses_default_literals parse \<longleftrightarrow> parse ''10s'' = Some (10 * second) \<and> parse ''60s'' = Some minute
     \<and> parse ''5m'' = Some (5 * minute) \<and> parse ''6m'' = Some (6 * minute) \<and> parse ''30s'' = Some (30 * second)
     \<and> parse ''1s'' = Some second \<and> parse ''500ms'' = Some (second div 2)"

lemma default_literal_finishes:
  assumes "parses_default_literals parse" "n \<noteq> []"
  shows "\<exists>c. finish_config parse (default_config_literal n) = Inr c"
  using assms
  by (simp add: Let_def finish_config_def default_config_literal_def parses_default_literals_def
      zero_GlobalSettings_def zero_MonitorConfig_def zero_KubernetesExporterConfig_def zero_HTTPExporterConfig_def
      zero_PrometheusExporterConfig_def zero_RemediationConfig_def
      NodeDoctorConfig_ApplyDefaults_def GlobalSettings_ApplyDefaults_def MonitorConfig_ApplyDefaults_def
      KubernetesExporterConfig_ApplyDefaults_def HTTPExporterConfig_ApplyDefaults_def
      PrometheusExporterConfig_ApplyDefaults_def RemediationConfig_ApplyDefaults_def CircuitBreaker_defaults_def
      ReloadConfig_ApplyDefaults_def optional_duration_def optE_def parseField_def orDefault_def isSet_def IsDisabled_def
      DefaultLogLevel_def DefaultLogFormat_def DefaultLogOutput_def DefaultUpdateInterval_def DefaultResyncInterval_def
      DefaultHeartbeatInterval_def DefaultConditionStaleTTL_def DefaultMonitorInterval_def DefaultMonitorTimeout_def
      NodeDoctorConfig_Validate_def GlobalSettings_Validate_def MonitorConfig_Validate_def
      validLogLevels_def validLogFormats_def validLogOutputs_def MinHeartbeatInterval_def MinMonitorInterval_def
      validateMonitorThresholds_def thresholdFields_def KubernetesExporterConfig_Validate_def
      HTTPExporterConfig_Validate_def PrometheusExporterConfig_Validate_def prometheusNamespaceRegex_def
      name_start_def has_prefix_def RemediationConfig_Validate_def)

text \<open>
  The built-in default configuration is always usable: whatever the node is called, with a
  duration parser that reads the literals of the defaults it gets its defaults and passes its own
  validation, so \<^verbatim>\<open>DefaultConfig\<close> never fails on a named node.\<close>

lemma default_config_is_valid:
  assumes "parses_default_literals parse" "getenv ''NODE_NAME'' \<noteq> [] \<or> hostname \<noteq> Some []"
  shows "\<exists>c. DefaultConfig getenv hostname parse = Inr c"
proof -
  have "\<exists>c. finish_config parse (default_config_literal n) = Inr c" if "n \<noteq> []" for n
    by (rule default_literal_finishes [OF assms(1) that])
  then show ?thesis using assms(2) by (auto simp: DefaultConfig_def Let_def split: option.splits)
qed

section \<open>Witnesses\<close>

definition demo_parse :: "string \<Rightarrow> duration option" where
  "demo_parse = map_of [(''10s'', 10 * second), (''60s'', minute), (''5m'', 5 * minute), (''6m'', 6 * minute),
     (''30s'', 30 * second), (''1s'', second), (''500ms'', second div 2)]"

lemma demo_parse_literals: "parses_default_literals demo_parse" "parses_defaults demo_parse"
  by (simp_all add: parses_default_literals_def parses_defaults_def demo_parse_def)

theorem loaded_config_is_schedulable_witness:
  "\<exists>c. LoadConfig (\<lambda>_. []) (\<lambda>_. Inr (default_config_literal ''n1'')) demo_parse (Inr []) = Inr c
     \<and> 0 < rmc_HistorySize (ndc_Remediation c)"
proof -
  have "NodeDoctorConfig_SubstituteEnvVars (\<lambda>_. []) (default_config_literal ''n1'') = default_config_literal ''n1''"
    by (simp add: NodeDoctorConfig_SubstituteEnvVars_def default_config_literal_def zero_GlobalSettings_def
        GlobalSettings_SubstituteEnvVars_def MonitorConfig_SubstituteEnvVars_def zero_MonitorConfig_def
        KubernetesExporterConfig_SubstituteEnvVars_def zero_KubernetesExporterConfig_def
        HTTPExporterConfig_SubstituteEnvVars_def zero_HTTPExporterConfig_def expandValues_def
        PrometheusExporterConfig_SubstituteEnvVars_def zero_PrometheusExporterConfig_def
        RemediationConfig_SubstituteEnvVars_def)
  then have "\<exists>c. LoadConfig (\<lambda>_. []) (\<lambda>_. Inr (default_config_literal ''n1'')) demo_parse (Inr []) = Inr c"
    using default_literal_finishes [OF demo_parse_literals(1), of "''n1''"] by (simp add: LoadConfig_def)
  then obtain c where c: "LoadConfig (\<lambda>_. []) (\<lambda>_. Inr (default_config_literal ''n1'')) demo_parse (Inr []) = Inr c"
    by blast
  with loaded_config_is_schedulable [OF c] show ?thesis by blast
qed

definition demo_monitor :: "string \<Rightarrow> string list \<Rightarrow> MonitorConfig" where
  "demo_monitor name deps = zero_MonitorConfig\<lparr>mc_Name := name, mc_Type := ''t'', mc_Enabled := True, mc_DependsOn := deps\<rparr>"

theorem circular_dependency_check_exact_witness:
  "\<not> acyclic (depends_on [demo_monitor ''a'' [''b''], demo_monitor ''b'' [''a'']])"
proof -
  let ?ms = "[demo_monitor ''a'' [''b''], demo_monitor ''b'' [''a'']]"
  have "detectCircularDependencies ?ms \<noteq> None"
    by (simp add: detectCircularDependencies_def missing_dependency_def dependency_graph_def demo_monitor_def
        zero_MonitorConfig_def gomap_get_def eval_nat_numeral)
  with circular_dependency_check_exact [of ?ms] show ?thesis
    by (simp add: demo_monitor_def zero_MonitorConfig_def)
qed

end
