(* ===== verification/Monitor_Order.thy ===== *)
theory Monitor_Order
  imports Config_Load "HOL-Library.Multiset"
begin

text \<open>
  \<^verbatim>\<open>pkg/detector/detector.go\<close>, \<^verbatim>\<open>topologicalSortMonitors\<close>: the order in which monitors are started. The
  definitions follow the code: in-degrees and successors in two maps, the queue of monitors with no
  open dependency, and the loop that releases the successors of each one taken from it.
\<close>

section \<open>Definitions\<close>

type_synonym degrees = "(string, int) gomap"
type_synonym successors = "(string, string list) gomap"

definition initial_degrees :: "MonitorConfig list \<Rightarrow> degrees" where
  "initial_degrees ms = fold (\<lambda>m d. if map_of d (mc_Name m) = None then AList.update (mc_Name m) 0 d else d) ms []"

definition add_edge :: "string set \<Rightarrow> string \<Rightarrow> string \<Rightarrow> degrees \<times> successors \<Rightarrow> degrees \<times> successors" where
  "add_edge names m dep ds =
     (if dep \<notin> names then ds
      else (AList.update m (gomap_get 0 (fst ds) m + 1) (fst ds),
            AList.update dep (gomap_get [] (snd ds) dep @ [m]) (snd ds)))"

definition build_graph :: "MonitorConfig list \<Rightarrow> degrees \<times> successors" where
  "build_graph ms =
     fold (\<lambda>m. fold (add_edge (mc_Name ` set ms) (mc_Name m)) (mc_DependsOn m)) ms (initial_degrees ms, [])"

definition byName :: "MonitorConfig list \<Rightarrow> (string, MonitorConfig) gomap" where
  "byName ms = fold (\<lambda>m. AList.update (mc_Name m) m) ms []"

fun release :: "string list \<Rightarrow> degrees \<times> string list \<Rightarrow> degrees \<times> string list" where
  "release [] dq = dq"
| "release (s # ss) (deg, queue) =
     (let d = gomap_get 0 deg s - 1
      in release ss (AList.update s d deg, if d = 0 then queue @ [s] else queue))"

definition positives :: "degrees \<Rightarrow> nat" where
  "positives deg = length (filter (\<lambda>(k, v). 0 < v) deg)"

lemma positives_decrement:
  "positives (AList.update s (gomap_get 0 deg s - 1) deg) + (if gomap_get 0 deg s = 1 then 1 else 0) \<le> positives deg"
proof (induction deg)
  case Nil
  then show ?case by (simp add: positives_def gomap_get_def)
next
  case (Cons kv deg)
  obtain k v where kv: "kv = (k, v)" by (cases kv)
  show ?case using Cons by (cases "k = s") (auto simp: kv positives_def gomap_get_def)
qed

lemma release_measure:
  "release ss (deg, queue) = (deg', queue') \<Longrightarrow> positives deg' + length queue' \<le> positives deg + length queue"
proof (induction ss "(deg, queue)" arbitrary: deg queue rule: release.induct)
  case 1
  then show ?case by simp
next
  case (2 s ss deg queue)
  let ?d = "gomap_get 0 deg s - 1"
  have "positives deg' + length queue' \<le>
      positives (AList.update s ?d deg) + length (if ?d = 0 then queue @ [s] else queue)"
    using 2(1) [OF refl] 2(2) by (simp add: Let_def)
  with positives_decrement [of s deg] show ?case by (auto split: if_splits)
qed

function kahn ::
  "successors \<Rightarrow> (string, MonitorConfig) gomap \<Rightarrow> degrees \<Rightarrow> string list \<Rightarrow> MonitorConfig list \<Rightarrow> MonitorConfig list" where
  "kahn succ idx deg [] sorted_ms = sorted_ms"
| "kahn succ idx deg (cur # queue) sorted_ms =
     (let dq = release (gomap_get [] succ cur) (deg, queue)
      in kahn succ idx (fst dq) (snd dq) (sorted_ms @ [gomap_get zero_MonitorConfig idx cur]))"
  by pat_completeness auto

termination
proof (relation "measure (\<lambda>(succ, idx, deg, queue, sorted_ms). positives deg + length queue)", goal_cases)
  case (2 succ idx deg cur queue sorted_ms dq)
  then show ?case
    using release_measure [of "gomap_get [] succ cur" deg queue "fst dq" "snd dq"] by simp
qed simp

text \<open>\<open>Inl\<close> carries the number of monitors sorted and the number of all.\<close>

definition topologicalSortMonitors :: "MonitorConfig list \<Rightarrow> (nat \<times> nat) + MonitorConfig list" where
  "topologicalSortMonitors ms =
     (let (deg, succ) = build_graph ms;
          queue = filter (\<lambda>n. gomap_get 0 deg n = 0) (map mc_Name ms);
          s = kahn succ (byName ms) deg queue []
      in if length s \<noteq> length ms then Inl (length s, length ms) else Inr s)"

section \<open>The graph\<close>

definition known :: "MonitorConfig list \<Rightarrow> MonitorConfig \<Rightarrow> string list" where
  "known ms m = filter (\<lambda>d. d \<in> mc_Name ` set ms) (mc_DependsOn m)"

definition deps_of :: "MonitorConfig list \<Rightarrow> string \<Rightarrow> string list" where
  "deps_of ms n = gomap_get [] (map (\<lambda>m. (mc_Name m, known ms m)) ms) n"

lemma deps_of_monitor: "distinct (map mc_Name ms) \<Longrightarrow> m \<in> set ms \<Longrightarrow> deps_of ms (mc_Name m) = known ms m"
  unfolding deps_of_def by (rule gomap_get_Some) (auto simp: map_of_map_distinct)

lemma initial_degrees_zero [simp]: "gomap_get 0 (initial_degrees ms) n = (0 :: int)"
proof -
  have "(\<forall>n. gomap_get 0 d n = (0 :: int)) \<Longrightarrow>
      gomap_get 0 (fold (\<lambda>m d. if map_of d (mc_Name m) = None then AList.update (mc_Name m) 0 d else d) ms d) n = 0" for d
    by (induction ms arbitrary: d) auto
  then show ?thesis by (simp add: initial_degrees_def)
qed

lemma add_edges:
  "gomap_get 0 (fst (fold (add_edge N m) ds g)) n
     = gomap_get 0 (fst g) n + (if n = m then int (length (filter (\<lambda>d. d \<in> N) ds)) else 0)"
  "count_list (gomap_get [] (snd (fold (add_edge N m) ds g)) d) n
     = count_list (gomap_get [] (snd g) d) n + (if n = m then count_list (filter (\<lambda>d. d \<in> N) ds) d else 0)"
  by (induction ds arbitrary: g) (auto simp: add_edge_def)

lemma build_graph_folds:
  "gomap_get 0 (fst (fold (\<lambda>m. fold (add_edge N (mc_Name m)) (mc_DependsOn m)) ms g)) n
     = gomap_get 0 (fst g) n
       + int (sum_list (map (\<lambda>m. if n = mc_Name m then length (filter (\<lambda>d. d \<in> N) (mc_DependsOn m)) else 0) ms))"
  "count_list (gomap_get [] (snd (fold (\<lambda>m. fold (add_edge N (mc_Name m)) (mc_DependsOn m)) ms g)) d) n
     = count_list (gomap_get [] (snd g) d) n
       + sum_list (map (\<lambda>m. if n = mc_Name m then count_list (filter (\<lambda>d. d \<in> N) (mc_DependsOn m)) d else 0) ms)"
  by (induction ms arbitrary: g) (simp_all add: add_edges)

lemma sum_list_unique:
  "distinct (map k xs) \<Longrightarrow> sum_list (map (\<lambda>x. if n = k x then f x else 0) xs)
     = (case map_of (map (\<lambda>x. (k x, f x)) xs) n of None \<Rightarrow> 0 | Some v \<Rightarrow> v)" for f :: "'a \<Rightarrow> nat"
proof (induction xs)
  case (Cons x xs)
  have "map_of (map (\<lambda>x. (k x, f x)) xs) (k x) = None"
    using Cons.prems by (force simp: map_of_eq_None_iff)
  with Cons show ?case by auto
qed simp

lemma map_of_apply: "map_of (map (\<lambda>x. (k x, h (f x))) xs) n = map_option h (map_of (map (\<lambda>x. (k x, f x)) xs) n)"
  by (induction xs) auto

lemma build_graph_spec:
  assumes "distinct (map mc_Name ms)" "build_graph ms = (deg, succ)"
  shows "gomap_get 0 deg n = int (length (deps_of ms n))"
    and "count_list (gomap_get [] succ d) n = count_list (deps_of ms n) d"
proof -
  let ?N = "mc_Name ` set ms"
  have eq: "deg = fst (fold (\<lambda>m. fold (add_edge ?N (mc_Name m)) (mc_DependsOn m)) ms (initial_degrees ms, []))"
    "succ = snd (fold (\<lambda>m. fold (add_edge ?N (mc_Name m)) (mc_DependsOn m)) ms (initial_degrees ms, []))"
    using assms(2) by (simp_all add: build_graph_def)
  have total_h: "sum_list (map (\<lambda>m. if n = mc_Name m then h (known ms m) else 0) ms) = h (deps_of ms n)"
    if "h [] = 0" for h :: "string list \<Rightarrow> nat"
    unfolding sum_list_unique [OF assms(1), of n "\<lambda>m. h (known ms m)"] map_of_apply [of mc_Name h]
    by (cases "map_of (map (\<lambda>m. (mc_Name m, known ms m)) ms) n") (simp_all add: deps_of_def gomap_get_def that)
  show "gomap_get 0 deg n = int (length (deps_of ms n))"
    unfolding eq build_graph_folds known_def [symmetric] using total_h [of length] by simp
  show "count_list (gomap_get [] succ d) n = count_list (deps_of ms n) d"
    unfolding eq build_graph_folds known_def [symmetric] using total_h [of "\<lambda>xs. count_list xs d"] by simp
qed

section \<open>The loop\<close>

text \<open>Releasing the successors of a monitor lowers their degrees and queues those that reach zero.\<close>

lemma release_spec:
  assumes "\<forall>n. int (count_list ss n) \<le> gomap_get 0 deg n"
  shows "\<exists>new. snd (release ss (deg, queue)) = queue @ new \<and> distinct new
    \<and> set new = {n \<in> set ss. gomap_get 0 deg n = int (count_list ss n)}
    \<and> (\<forall>n. gomap_get 0 (fst (release ss (deg, queue))) n = gomap_get 0 deg n - int (count_list ss n))"
  using assms
proof (induction ss "(deg, queue)" arbitrary: deg queue rule: release.induct)
  case 1
  then show ?case by auto
next
  case (2 s ss deg queue)
  let ?d = "gomap_get 0 deg s - 1" and ?deg = "AList.update s (gomap_get 0 deg s - 1) deg"
  let ?q = "if ?d = 0 then queue @ [s] else queue"
  have le: "\<forall>n. int (count_list ss n) \<le> gomap_get 0 ?deg n"
  proof
    fix n
    show "int (count_list ss n) \<le> gomap_get 0 ?deg n" using 2(2) [rule_format, of n] by auto
  qed
  obtain new where new: "snd (release ss (?deg, ?q)) = ?q @ new" "distinct new"
    "set new = {n \<in> set ss. gomap_get 0 ?deg n = int (count_list ss n)}"
    "\<forall>n. gomap_get 0 (fst (release ss (?deg, ?q))) n = gomap_get 0 ?deg n - int (count_list ss n)"
    using 2(1) [OF refl le] by blast
  have step: "release (s # ss) (deg, queue) = release ss (?deg, ?q)" by (simp add: Let_def)
  have deg: "\<forall>n. gomap_get 0 (fst (release (s # ss) (deg, queue))) n = gomap_get 0 deg n - int (count_list (s # ss) n)"
    unfolding step using new(4) by simp
  show ?case
  proof (cases "?d = 0")
    case True
    then have "s \<notin> set ss" using le [rule_format, of s] count_list_0_iff [of ss s] by simp
    then have "distinct (s # new)" "set (s # new) = {n \<in> set (s # ss). gomap_get 0 deg n = int (count_list (s # ss) n)}"
      using True new(2,3) by auto
    moreover have "snd (release (s # ss) (deg, queue)) = queue @ (s # new)" unfolding step using True new(1) by simp
    ultimately show ?thesis using deg by blast
  next
    case False
    then have "s \<in> set ss" if "gomap_get 0 deg s = 1 + int (count_list ss s)"
      using that count_list_0_iff [of ss s] by fastforce
    then have "set new = {n \<in> set (s # ss). gomap_get 0 deg n = int (count_list (s # ss) n)}"
      unfolding new(3) by auto
    moreover have "snd (release (s # ss) (deg, queue)) = queue @ new" unfolding step using False new(1) by simp
    ultimately show ?thesis using deg new(2) by blast
  qed
qed

text \<open>
  The state of the loop: the monitors done and queued are distinct and known; the degree of a monitor
  counts its dependencies that are not done yet, and those with degree zero are exactly the ones done
  or queued; the monitors done are in order.
\<close>

definition in_order :: "(string \<Rightarrow> string list) \<Rightarrow> string list \<Rightarrow> bool" where
  "in_order deps S \<longleftrightarrow> (\<forall>i<length S. set (deps (S ! i)) \<subseteq> set (take i S))"

lemma in_order_snoc: "in_order deps S \<Longrightarrow> set (deps c) \<subseteq> set S \<Longrightarrow> in_order deps (S @ [c])"
  by (auto simp: in_order_def nth_append less_Suc_eq)

definition kahn_inv :: "string set \<Rightarrow> (string \<Rightarrow> string list) \<Rightarrow> degrees \<Rightarrow> string list \<Rightarrow> string list \<Rightarrow> bool" where
  "kahn_inv N deps deg queue S \<longleftrightarrow> distinct (S @ queue) \<and> set (S @ queue) \<subseteq> N \<and> in_order deps S
     \<and> (\<forall>n. gomap_get 0 deg n = int (length (filter (\<lambda>d. d \<notin> set S) (deps n))))
     \<and> (\<forall>n\<in>N. n \<in> set (S @ queue) \<longleftrightarrow> gomap_get 0 deg n = 0)"

lemma filter_remove_count:
  "c \<notin> A \<Longrightarrow> length (filter (\<lambda>d. d \<notin> A) xs) = length (filter (\<lambda>d. d \<notin> insert c A) xs) + count_list xs c"
  by (induction xs) auto

lemma kahn_inv_step:
  assumes inv: "kahn_inv N deps deg (cur # queue) S" and succ: "\<And>n. count_list ss n = count_list (deps n) cur"
    and closed: "\<And>n. deps n \<noteq> [] \<Longrightarrow> n \<in> N"
  shows "kahn_inv N deps (fst (release ss (deg, queue))) (snd (release ss (deg, queue))) (S @ [cur])"
proof -
  have cur: "cur \<notin> set S" using inv by (auto simp: kahn_inv_def)
  have deg: "gomap_get 0 deg n = int (length (filter (\<lambda>d. d \<notin> set (S @ [cur])) (deps n)) + count_list ss n)" for n
    using inv filter_remove_count [OF cur, of "deps n"] by (simp add: kahn_inv_def succ)
  then have "\<forall>n. int (count_list ss n) \<le> gomap_get 0 deg n" by simp
  from release_spec [OF this, of queue] obtain new where
    q: "snd (release ss (deg, queue)) = queue @ new" "distinct new"
    and new: "set new = {n \<in> set ss. gomap_get 0 deg n = int (count_list ss n)}"
    and deg': "\<forall>n. gomap_get 0 (fst (release ss (deg, queue))) n = gomap_get 0 deg n - int (count_list ss n)"
    by blast
  have mem: "n \<in> set ss \<longleftrightarrow> 0 < count_list ss n" for n
    using count_list_0_iff [of ss n] by auto
  have fresh: "n \<notin> set (S @ cur # queue) \<and> n \<in> N" if "n \<in> set new" for n
  proof -
    have pos: "0 < gomap_get 0 deg n" "0 < count_list (deps n) cur" using that new mem succ by auto
    then have "n \<in> N" using closed [of n] by (cases "deps n") auto
    with pos(1) inv show ?thesis by (auto simp: kahn_inv_def)
  qed
  have cur0: "set (deps cur) \<subseteq> set S"
    using inv by (auto simp: kahn_inv_def filter_empty_conv)
  have "n \<in> set (S @ [cur] @ queue @ new) \<longleftrightarrow> gomap_get 0 deg n - int (count_list ss n) = 0" if "n \<in> N" for n
  proof (cases "n \<in> set (S @ cur # queue)")
    case True
    then have "gomap_get 0 deg n = 0" using inv that by (auto simp: kahn_inv_def)
    with True deg [of n] show ?thesis by auto
  next
    case False
    then have "gomap_get 0 deg n \<noteq> 0" using inv that by (auto simp: kahn_inv_def)
    with False new mem show ?thesis by auto
  qed
  moreover have "distinct (S @ [cur] @ queue @ new)" using inv fresh q(2) by (auto simp: kahn_inv_def)
  moreover have "set (S @ [cur] @ queue @ new) \<subseteq> N" using inv fresh by (auto simp: kahn_inv_def)
  moreover have "in_order deps (S @ [cur])" using inv cur0 in_order_snoc by (auto simp: kahn_inv_def)
  ultimately show ?thesis
    unfolding kahn_inv_def q(1) using deg' deg by simp
qed

lemma kahn_spec:
  assumes "\<And>d n. count_list (gomap_get [] succ d) n = count_list (deps n) d"
    and "\<And>n. deps n \<noteq> [] \<Longrightarrow> n \<in> N"
    and "\<And>n. n \<in> N \<Longrightarrow> mc_Name (gomap_get zero_MonitorConfig idx n) = n"
    and "kahn_inv N deps deg queue (map mc_Name acc)"
    and "set acc \<subseteq> gomap_get zero_MonitorConfig idx ` N"
  shows "(\<exists>deg'. kahn_inv N deps deg' [] (map mc_Name (kahn succ idx deg queue acc)))
    \<and> set (kahn succ idx deg queue acc) \<subseteq> gomap_get zero_MonitorConfig idx ` N"
  using assms
proof (induction succ idx deg queue acc rule: kahn.induct)
  case (1 succ idx deg acc)
  then show ?case by auto
next
  case (2 succ idx deg cur queue acc)
  let ?dq = "release (gomap_get [] succ cur) (deg, queue)"
  have cur: "cur \<in> N" using 2(5) by (auto simp: kahn_inv_def)
  have "kahn_inv N deps (fst ?dq) (snd ?dq) (map mc_Name acc @ [cur])"
    using 2(5,2,3) by (rule kahn_inv_step)
  then have "kahn_inv N deps (fst ?dq) (snd ?dq) (map mc_Name (acc @ [gomap_get zero_MonitorConfig idx cur]))"
    using 2(4) [OF cur] by simp
  from 2(1) [OF refl 2(2-4) this] 2(6) cur show ?case by (simp add: Let_def)
qed

text \<open>The dependencies on monitors of the list.\<close>

definition known_depends :: "MonitorConfig list \<Rightarrow> (string \<times> string) set" where
  "known_depends ms = {(a, b) \<in> depends_on ms. b \<in> mc_Name ` set ms}"

lemma known_depends_iff:
  assumes "distinct (map mc_Name ms)"
  shows "(a, b) \<in> known_depends ms \<longleftrightarrow> a \<in> mc_Name ` set ms \<and> b \<in> set (deps_of ms a)"
  using deps_of_monitor [OF assms] by (force simp: known_depends_def depends_on_def known_def)

lemma deps_of_known: "set (deps_of ms n) \<subseteq> mc_Name ` set ms"
  by (cases "map_of (map (\<lambda>m. (mc_Name m, known ms m)) ms) n")
    (auto simp: deps_of_def gomap_get_def known_def dest!: map_of_SomeD)

lemma deps_of_closed: "deps_of ms n \<noteq> [] \<Longrightarrow> n \<in> mc_Name ` set ms"
  by (cases "map_of (map (\<lambda>m. (mc_Name m, known ms m)) ms) n")
    (auto simp: deps_of_def gomap_get_def dest!: map_of_SomeD)

lemma finite_known_depends: "finite (known_depends ms)"
proof (rule finite_subset)
  show "known_depends ms \<subseteq> mc_Name ` set ms \<times> mc_Name ` set ms"
    by (auto simp: known_depends_def depends_on_def)
qed simp

lemma sort_run:
  assumes "distinct (map mc_Name ms)" "build_graph ms = (deg, succ)"
    "s = kahn succ (byName ms) deg (filter (\<lambda>n. gomap_get 0 deg n = 0) (map mc_Name ms)) []"
  shows "\<exists>deg'. kahn_inv (mc_Name ` set ms) (deps_of ms) deg' [] (map mc_Name s)" "set s \<subseteq> set ms"
proof -
  have idx: "gomap_get zero_MonitorConfig (byName ms) (mc_Name m) = m" if "m \<in> set ms" for m
    using map_of_map_distinct [OF assms(1), of "\<lambda>m. m" "mc_Name m" m] that
    by (intro gomap_get_Some) (auto simp: byName_def map_of_fold_update [OF assms(1)])
  have start: "kahn_inv (mc_Name ` set ms) (deps_of ms) deg
      (filter (\<lambda>n. gomap_get 0 deg n = 0) (map mc_Name ms)) (map mc_Name [])"
    using assms(1) by (auto simp: kahn_inv_def in_order_def build_graph_spec(1) [OF assms(1,2)])
  have closed: "\<And>n. deps_of ms n \<noteq> [] \<Longrightarrow> n \<in> mc_Name ` set ms" by (rule deps_of_closed)
  have name: "\<And>n. n \<in> mc_Name ` set ms \<Longrightarrow> mc_Name (gomap_get zero_MonitorConfig (byName ms) n) = n"
    using idx by auto
  note run = kahn_spec [OF build_graph_spec(2) [OF assms(1,2)] closed name start]
  from run show "\<exists>deg'. kahn_inv (mc_Name ` set ms) (deps_of ms) deg' [] (map mc_Name s)"
    unfolding assms(3) by simp
  from run have "set s \<subseteq> gomap_get zero_MonitorConfig (byName ms) ` mc_Name ` set ms"
    unfolding assms(3) by simp
  then show "set s \<subseteq> set ms" using idx by auto
qed

text \<open>An order with all dependencies first excludes cycles, and a loop that stops early found one.\<close>

lemma in_order_acyclic:
  assumes "in_order deps S" "distinct S" "\<And>a b. (a, b) \<in> r \<Longrightarrow> a \<in> set S \<and> b \<in> set (deps a)"
  shows "acyclic r"
proof -
  have edge: "\<exists>i j. j < i \<and> i < length S \<and> a = S ! i \<and> b = S ! j" if e: "(a, b) \<in> r" for a b
  proof -
    obtain i where i: "i < length S" "a = S ! i" using assms(3) [OF e] by (auto simp: in_set_conv_nth)
    then have "b \<in> set (take i S)" using assms(1,3) e by (auto simp: in_order_def)
    then obtain j where "j < i" "b = S ! j" by (auto simp: in_set_conv_nth)
    with i show ?thesis by blast
  qed
  have path: "\<exists>i j. j < i \<and> i < length S \<and> a = S ! i \<and> b = S ! j" if "(a, b) \<in> r\<^sup>+" for a b
    using that
  proof (induction rule: trancl_induct)
    case (base b)
    then show ?case by (rule edge)
  next
    case (step b c)
    obtain i j where ij: "j < i" "i < length S" "a = S ! i" "b = S ! j" using step.IH by blast
    obtain k l where kl: "l < k" "k < length S" "b = S ! k" "c = S ! l" using edge [OF step.hyps(2)] by blast
    have "j = k" using ij kl assms(2) by (simp add: nth_eq_iff_index_eq)
    with ij kl have "l < i" by simp
    with ij kl show ?case by blast
  qed
  show ?thesis
  proof (rule acyclicI, rule allI, rule notI)
    fix a assume "(a, a) \<in> r\<^sup>+"
    then obtain i j where "j < i" "i < length S" "S ! i = S ! j" using path by metis
    then show False using assms(2) by (simp add: nth_eq_iff_index_eq)
  qed
qed

lemma stuck_is_cyclic:
  assumes "kahn_inv N deps deg [] S" "set S \<noteq> N" "\<And>n. set (deps n) \<subseteq> N" "finite r"
    "\<And>a b. a \<in> N \<Longrightarrow> b \<in> set (deps a) \<Longrightarrow> (a, b) \<in> r"
  shows "\<not> acyclic r"
proof
  assume "acyclic r"
  with assms(4) have wf: "wf (r\<inverse>)" by (rule finite_acyclic_wf_converse)
  have "set S \<subseteq> N" using assms(1) by (simp add: kahn_inv_def)
  then obtain z where "z \<in> N - set S" using assms(2) by blast
  from wfE_min [OF wf this] obtain a where a: "a \<in> N - set S" "\<And>b. (a, b) \<in> r \<Longrightarrow> b \<notin> N - set S" by auto
  have "gomap_get 0 deg a \<noteq> 0" using assms(1) a(1) by (auto simp: kahn_inv_def)
  then have "filter (\<lambda>d. d \<notin> set S) (deps a) \<noteq> []" using assms(1) by (auto simp: kahn_inv_def)
  then obtain b where "b \<in> set (deps a)" "b \<notin> set S" by (auto simp: filter_empty_conv)
  with a assms(3) [of a] assms(5) [of a b] show False by blast
qed

lemma sort_result:
  assumes "distinct (map mc_Name ms)"
  obtains s deg' where "kahn_inv (mc_Name ` set ms) (deps_of ms) deg' [] (map mc_Name s)" "set s \<subseteq> set ms"
    "topologicalSortMonitors ms = (if length s \<noteq> length ms then Inl (length s, length ms) else Inr s)"
proof -
  obtain deg succ where g: "build_graph ms = (deg, succ)" by fastforce
  define s where "s = kahn succ (byName ms) deg (filter (\<lambda>n. gomap_get 0 deg n = 0) (map mc_Name ms)) []"
  have "topologicalSortMonitors ms = (if length s \<noteq> length ms then Inl (length s, length ms) else Inr s)"
    by (simp add: topologicalSortMonitors_def g s_def)
  with sort_run [OF assms g s_def] that show ?thesis by blast
qed

lemma distinct_names_card: "distinct (map mc_Name ms) \<Longrightarrow> card (set ms) = length ms"
  by (simp add: distinct_card distinct_map)

lemma sort_Inr:
  assumes dist: "distinct (map mc_Name ms)" and sorted: "topologicalSortMonitors ms = Inr s"
  shows "mset s = mset ms" "acyclic (known_depends ms)"
    "i < length s \<Longrightarrow> d \<in> set (mc_DependsOn (s ! i)) \<Longrightarrow> d \<in> mc_Name ` set ms \<Longrightarrow> d \<in> mc_Name ` set (take i s)"
proof -
  from dist obtain x deg' where inv: "kahn_inv (mc_Name ` set ms) (deps_of ms) deg' [] (map mc_Name x)" "set x \<subseteq> set ms"
    "topologicalSortMonitors ms = (if length x \<noteq> length ms then Inl (length x, length ms) else Inr x)"
    by (rule sort_result)
  with sorted have x: "x = s" "length s = length ms" by (auto split: if_splits)
  have dist': "distinct (map mc_Name s)" and order: "in_order (deps_of ms) (map mc_Name s)"
    using inv(1) x(1) by (simp_all add: kahn_inv_def)
  have same: "set s = set ms"
    using inv(2) x distinct_names_card [OF dist] distinct_names_card [OF dist'] by (intro card_subset_eq) auto
  show "mset s = mset ms"
    using same dist dist' by (simp add: set_eq_iff_mset_eq_distinct [symmetric] distinct_map)
  show "acyclic (known_depends ms)"
    using order dist' same by (intro in_order_acyclic [of "deps_of ms" "map mc_Name s"])
      (auto simp: known_depends_iff [OF dist])
  assume i: "i < length s" "d \<in> set (mc_DependsOn (s ! i))" "d \<in> mc_Name ` set ms"
  have "s ! i \<in> set ms" using nth_mem [OF i(1)] unfolding same .
  then have "d \<in> set (deps_of ms (mc_Name (s ! i)))"
    using i(2,3) deps_of_monitor [OF dist] by (simp add: known_def)
  with order i(1) show "d \<in> mc_Name ` set (take i s)" by (force simp: in_order_def take_map)
qed

lemma sort_Inl:
  assumes dist: "distinct (map mc_Name ms)" and failed: "topologicalSortMonitors ms = Inl e"
  shows "\<not> acyclic (known_depends ms)"
proof -
  from dist obtain s deg' where inv: "kahn_inv (mc_Name ` set ms) (deps_of ms) deg' [] (map mc_Name s)" "set s \<subseteq> set ms"
    "topologicalSortMonitors ms = (if length s \<noteq> length ms then Inl (length s, length ms) else Inr s)"
    by (rule sort_result)
  have "distinct (map mc_Name s)" using inv(1) by (simp add: kahn_inv_def)
  then have "set (map mc_Name s) \<noteq> mc_Name ` set ms"
    using inv(3) failed dist by (metis distinct_card length_map list.set_map sum.distinct(1))
  then show ?thesis
    using inv(1) deps_of_known by (intro stuck_is_cyclic [of "mc_Name ` set ms" "deps_of ms" deg' "map mc_Name s"])
      (auto simp: finite_known_depends known_depends_iff [OF dist])
qed

lemma validated_sort:
  assumes "ValidateWithRegistry registry c = None"
  shows "distinct (map mc_Name (ndc_Monitors c))"
    "\<forall>m\<in>set (ndc_Monitors c). set (mc_DependsOn m) \<subseteq> mc_Name ` set (ndc_Monitors c)"
    "acyclic (depends_on (ndc_Monitors c))"
    "\<exists>s. topologicalSortMonitors (ndc_Monitors c) = Inr s"
proof -
  let ?ms = "ndc_Monitors c"
  have dist: "distinct (map mc_Name ?ms)"
    using assms validate_monitors_None [of 0 "[]" ?ms]
    by (simp add: ValidateWithRegistry_def NodeDoctorConfig_Validate_def)
  have acc: "detectCircularDependencies ?ms = None" using assms by (simp add: ValidateWithRegistry_def)
  note ok = detect_accepts [OF dist acc]
  have "known_depends ?ms \<subseteq> depends_on ?ms" by (auto simp: known_depends_def)
  then have "acyclic (known_depends ?ms)" using ok(2) by (rule acyclic_subset [rotated])
  then obtain s where s: "topologicalSortMonitors ?ms = Inr s"
    using sort_Inl [OF dist] by (cases "topologicalSortMonitors ?ms") auto
  with dist ok show "distinct (map mc_Name ?ms)" "\<forall>m\<in>set ?ms. set (mc_DependsOn m) \<subseteq> mc_Name ` set ?ms"
    "acyclic (depends_on ?ms)" "\<exists>s. topologicalSortMonitors ?ms = Inr s" by blast+
qed

text \<open>
  The start order is exact: for monitors with distinct names the sort succeeds exactly when no
  chain of dependencies among them is circular; its result is a rearrangement of the monitors in
  which every monitor stands after all monitors it depends on. The loop always ends.\<close>

lemma topological_sort_exact:
  assumes "distinct (map mc_Name ms)"
  shows "(case topologicalSortMonitors ms of
      Inr s \<Rightarrow> mset s = mset ms \<and> acyclic (known_depends ms)
        \<and> (\<forall>i<length s. \<forall>d\<in>set (mc_DependsOn (s ! i)). d \<in> mc_Name ` set ms \<longrightarrow> d \<in> mc_Name ` set (take i s))
    | Inl _ \<Rightarrow> \<not> acyclic (known_depends ms))"
  using sort_Inr [OF assms] sort_Inl [OF assms] by (cases "topologicalSortMonitors ms") auto

text \<open>
  C37. A validated configuration can always be started: whenever \<^verbatim>\<open>ValidateWithRegistry\<close> accepts a
  configuration, the sort that \<^verbatim>\<open>Start\<close> runs on its monitors succeeds, loses none of them, and puts every
  dependency of a monitor before it. The two searches for cycles, depth-first at validation and by
  in-degrees at start, agree.\<close>

theorem validated_config_starts_in_order:
  assumes "ValidateWithRegistry registry c = None"
  shows "\<exists>s. topologicalSortMonitors (ndc_Monitors c) = Inr s \<and> mset s = mset (ndc_Monitors c)
    \<and> (\<forall>i<length s. set (mc_DependsOn (s ! i)) \<subseteq> mc_Name ` set (take i s))"
proof -
  let ?ms = "ndc_Monitors c"
  note ok = validated_sort(2,3) [OF assms]
  obtain s where s: "topologicalSortMonitors ?ms = Inr s" using validated_sort(4) [OF assms] by blast
  note run = sort_Inr [OF validated_sort(1) [OF assms] s]
  have "set (mc_DependsOn (s ! i)) \<subseteq> mc_Name ` set (take i s)" if "i < length s" for i
  proof
    fix d assume d: "d \<in> set (mc_DependsOn (s ! i))"
    have "s ! i \<in> set ?ms" using nth_mem [OF that] mset_eq_setD [OF run(1)] by simp
    with ok(1) d have "d \<in> mc_Name ` set ?ms" by blast
    with run(3) [OF that d] show "d \<in> mc_Name ` set (take i s)" by blast
  qed
  with s run(1) show ?thesis by blast
qed

theorem validated_config_starts_in_order_witness:
  "\<exists>c s. ValidateWithRegistry None c = None \<and> topologicalSortMonitors (ndc_Monitors c) = Inr s \<and> s \<noteq> []"
proof -
  obtain c where fin: "finish_config demo_parse (default_config_literal ''n1'') = Inr c"
    using default_literal_finishes [OF demo_parse_literals(1), of "''n1''"] by auto
  then have ms: "\<exists>m. ndc_Monitors c = [m] \<and> mc_DependsOn m = []"
    by (auto simp: finish_config_def default_config_literal_def NodeDoctorConfig_ApplyDefaults_def zero_MonitorConfig_def
        bindE_eq_Inr MonitorConfig_ApplyDefaults_def Let_def split: sum.splits option.splits)
  then have "detectCircularDependencies (ndc_Monitors c) = None"
    by (auto simp: detectCircularDependencies_def missing_dependency_def dependency_graph_def gomap_get_def eval_nat_numeral)
  with finish_config_valid [OF fin] have ok: "ValidateWithRegistry None c = None"
    by (simp add: ValidateWithRegistry_def)
  from validated_config_starts_in_order [OF ok] ok ms show ?thesis by fastforce
qed

end
