(* ===== verification/Detector.thy ===== *)
theory Detector
  imports Monitor_Order Base_Remediator "HOL-Library.Sublist"
begin

text \<open>
  \<^verbatim>\<open>pkg/detector/detector.go\<close> and \<^verbatim>\<open>statistics.go\<close>: the state of the problem detector and the
  processing of one status, from the dependency check through the exporters to the dispatch of
  remediations. Starting, stopping and reloading are in \<^verbatim>\<open>Detector_Lifecycle\<close>.

  \<^item> A monitor, an exporter and the remediation executor are values of type variables; what the
    detector calls on them is in \<open>detect_env\<close>, with an index that tells successive calls apart.
  \<^item> \<open>dv_ck\<close> is the clock: reading 0 and 1 stamp a blocked status, reading \<open>i + 2\<close> is that of the
    admission of the \<open>i\<close>-th condition. \<open>dv_iter\<close> is the order in which Go walks a map.
  \<^item> The functions return, beside the new state, what they did: \<open>dispatch\<close> is one admitted
    remediation with the calls of the executor, a report is what the dependency reporter was told.
  \<^item> Texts are ASCII. Counters are unbounded, log lines are left out.
\<close>

section \<open>Definitions\<close>

subsection \<open>Statistics\<close>

record Statistics =
  sn_monitorsStarted :: int
  sn_monitorsFailed :: int
  sn_statusesReceived :: int
  sn_problemsDetected :: int
  sn_problemsDeduplicated :: int
  sn_exportsSucceeded :: int
  sn_exportsFailed :: int
  sn_remediationsTriggered :: int
  sn_remediationsFailed :: int
  sn_startTime :: time

definition NewStatistics :: "time \<Rightarrow> Statistics" where
  "NewStatistics now = \<lparr>sn_monitorsStarted = 0, sn_monitorsFailed = 0, sn_statusesReceived = 0,
     sn_problemsDetected = 0, sn_problemsDeduplicated = 0, sn_exportsSucceeded = 0, sn_exportsFailed = 0,
     sn_remediationsTriggered = 0, sn_remediationsFailed = 0, sn_startTime = now\<rparr>"

definition IncrementMonitorsStarted :: "Statistics \<Rightarrow> Statistics" where
  "IncrementMonitorsStarted s = s\<lparr>sn_monitorsStarted := sn_monitorsStarted s + 1\<rparr>"

definition IncrementMonitorsFailed :: "Statistics \<Rightarrow> Statistics" where
  "IncrementMonitorsFailed s = s\<lparr>sn_monitorsFailed := sn_monitorsFailed s + 1\<rparr>"

definition IncrementStatusesReceived :: "Statistics \<Rightarrow> Statistics" where
  "IncrementStatusesReceived s = s\<lparr>sn_statusesReceived := sn_statusesReceived s + 1\<rparr>"

definition AddProblemsDetected :: "int \<Rightarrow> Statistics \<Rightarrow> Statistics" where
  "AddProblemsDetected n s = s\<lparr>sn_problemsDetected := sn_problemsDetected s + n\<rparr>"

definition AddProblemsDeduplicated :: "int \<Rightarrow> Statistics \<Rightarrow> Statistics" where
  "AddProblemsDeduplicated n s = s\<lparr>sn_problemsDeduplicated := sn_problemsDeduplicated s + n\<rparr>"

definition IncrementExportsSucceeded :: "Statistics \<Rightarrow> Statistics" where
  "IncrementExportsSucceeded s = s\<lparr>sn_exportsSucceeded := sn_exportsSucceeded s + 1\<rparr>"

definition IncrementExportsFailed :: "Statistics \<Rightarrow> Statistics" where
  "IncrementExportsFailed s = s\<lparr>sn_exportsFailed := sn_exportsFailed s + 1\<rparr>"

definition IncrementRemediationsTriggered :: "Statistics \<Rightarrow> Statistics" where
  "IncrementRemediationsTriggered s = s\<lparr>sn_remediationsTriggered := sn_remediationsTriggered s + 1\<rparr>"

definition IncrementRemediationsFailed :: "Statistics \<Rightarrow> Statistics" where
  "IncrementRemediationsFailed s = s\<lparr>sn_remediationsFailed := sn_remediationsFailed s + 1\<rparr>"

definition GetUptime :: "time \<Rightarrow> Statistics \<Rightarrow> duration" where
  "GetUptime now s = time_sub now (sn_startTime s)"

definition GetTotalExports :: "Statistics \<Rightarrow> int" where
  "GetTotalExports s = sn_exportsSucceeded s + sn_exportsFailed s"

text \<open>The rates, as exact fractions.\<close>

definition GetExportSuccessRate :: "Statistics \<Rightarrow> rat" where
  "GetExportSuccessRate s =
     (let total = sn_exportsSucceeded s + sn_exportsFailed s
      in if total = 0 then 0 else of_int (sn_exportsSucceeded s) / of_int total * 100)"

definition GetDeduplicationRate :: "Statistics \<Rightarrow> rat" where
  "GetDeduplicationRate s =
     (if sn_problemsDetected s = 0 then 0
      else of_int (sn_problemsDeduplicated s) / of_int (sn_problemsDetected s) * 100)"

definition Statistics_Reset :: "time \<Rightarrow> Statistics \<Rightarrow> Statistics" where
  "Statistics_Reset now s = s\<lparr>sn_monitorsStarted := 0, sn_monitorsFailed := 0, sn_statusesReceived := 0,
     sn_problemsDetected := 0, sn_problemsDeduplicated := 0, sn_exportsSucceeded := 0, sn_exportsFailed := 0,
     sn_remediationsTriggered := 0, sn_remediationsFailed := 0, sn_startTime := now\<rparr>"

subsection \<open>State\<close>

record 'm MonitorHandle =
  mh_monitor :: 'm
  mh_config :: MonitorConfig
  mh_stopped :: bool

record remediationIncident =
  in_attempts :: int
  in_lastAttempt :: time
  in_skipLogged :: bool

record ('m, 'x, 'r) ProblemDetector =
  pd_config :: NodeDoctorConfig
  pd_monitorHandles :: "'m MonitorHandle list"
  pd_exporters :: "'x list"
  pd_statusChan :: "status list"
  pd_stats :: Statistics
  pd_configFilePath :: string
  pd_started :: bool
  pd_passedMonitors :: "'m list"
  pd_remediatorRegistry :: "'r option"
  pd_monitorConfigIndex :: "(string, MonitorConfig) gomap"
  pd_incidents :: "(string, remediationIncident) gomap"
  pd_lastStatus :: "(string, status) gomap"
  pd_dependents :: "(string, string list) gomap"
  pd_loggingReinit :: bool
  pd_logging :: "NodeDoctorConfig list"
  pd_dependencyReporter :: bool

record ('x, 'r) detect_env =
  dv_ck :: "nat \<Rightarrow> time"
  dv_iter :: "(string, status) gomap \<Rightarrow> (string, status) gomap"
  dv_export :: "nat \<Rightarrow> status \<Rightarrow> 'x \<Rightarrow> string option \<times> 'x"
  dv_typeName :: "'x \<Rightarrow> string"
  dv_exec :: "nat \<Rightarrow> nat \<Rightarrow> string \<Rightarrow> problem \<Rightarrow> 'r \<Rightarrow> string option \<times> 'r"

record dispatch =
  dp_key :: string
  dp_time :: time
  dp_calls :: "(string \<times> problem) list"
  dp_ok :: bool

subsection \<open>Dispatch policy\<close>

definition isRemediationTrigger :: "MonitorRemediationConfig \<Rightarrow> condition \<Rightarrow> bool \<times> bool" where
  "isRemediationTrigger remCfg c =
     (if mr_TriggerConditions remCfg = [] then (cond_Status c = ConditionFalse, True)
      else if cond_Type c \<in> set (mr_TriggerConditions remCfg) then (cond_Status c = ConditionTrue, True)
      else (False, False))"

definition endIncident :: "string \<Rightarrow> (string, remediationIncident) gomap \<Rightarrow> (string, remediationIncident) gomap" where
  "endIncident key incs =
     (case map_of incs key of None \<Rightarrow> incs
      | Some inc \<Rightarrow> AList.update key (inc\<lparr>in_attempts := 0, in_skipLogged := False\<rparr>) incs)"

datatype precondition_failure =
    NeverObserved string string
  | LastObserved string string duration duration
  | ObservedStatus string string string

text \<open>The newest observation of the condition a precondition names: its time and status.\<close>

definition observe_condition ::
  "RemediationPrecondition \<Rightarrow> status \<Rightarrow> condition \<Rightarrow> (time \<times> string) option \<Rightarrow> (time \<times> string) option" where
  "observe_condition p st c acc =
     (if cond_Type c \<noteq> rp_Type p then acc
      else case acc of None \<Rightarrow> Some (st_Timestamp st, cond_Status c)
           | Some (latest, _) \<Rightarrow> if latest < st_Timestamp st then Some (st_Timestamp st, cond_Status c) else acc)"

definition observe_status ::
  "RemediationPrecondition \<Rightarrow> string \<times> status \<Rightarrow> (time \<times> string) option \<Rightarrow> (time \<times> string) option" where
  "observe_status p e acc =
     (if rp_Monitor p \<noteq> [] \<and> fst e \<noteq> rp_Monitor p then acc
      else fold (observe_condition p (snd e)) (st_Conditions (snd e)) acc)"

definition precondition_failed ::
  "(string, status) gomap \<Rightarrow> time \<Rightarrow> RemediationPrecondition \<Rightarrow> precondition_failure option" where
  "precondition_failed entries now p =
     (case fold (observe_status p) entries None of
        None \<Rightarrow> Some (NeverObserved (rp_Type p) (rp_Status p))
      | Some (latest, latestStatus) \<Rightarrow>
          if rp_MaxAge p < time_sub now latest
            then Some (LastObserved (rp_Type p) (rp_Status p) (time_sub now latest) (rp_MaxAge p))
          else if latestStatus \<noteq> rp_Status p then Some (ObservedStatus (rp_Type p) (rp_Status p) latestStatus)
          else None)"

definition failedPrecondition ::
  "((string, status) gomap \<Rightarrow> (string, status) gomap) \<Rightarrow> (string, status) gomap \<Rightarrow>
   RemediationPrecondition list \<Rightarrow> time \<Rightarrow> precondition_failure option" where
  "failedPrecondition iter lastStatus preconds now = all_passed (precondition_failed (iter lastStatus) now) preconds"

datatype admission =
    Admitted
  | AttemptsExhausted int int
  | InCooldown duration
  | PreconditionNotMet precondition_failure

definition zero_incident :: remediationIncident where
  "zero_incident = \<lparr>in_attempts = 0, in_lastAttempt = 0, in_skipLogged = False\<rparr>"

definition admitRemediation ::
  "((string, status) gomap \<Rightarrow> (string, status) gomap) \<Rightarrow> (string, status) gomap \<Rightarrow> time \<Rightarrow> string \<Rightarrow>
   MonitorRemediationConfig \<Rightarrow> (string, remediationIncident) gomap \<Rightarrow>
   admission \<times> (string, remediationIncident) gomap" where
  "admitRemediation iter lastStatus now key remCfg incs =
     (let inc = gomap_get zero_incident incs key;
          incs1 = (if map_of incs key = None then AList.update key zero_incident incs else incs);
          elapsed = time_sub now (in_lastAttempt inc)
      in if 0 < mr_MaxAttemptsPerIncident remCfg \<and> mr_MaxAttemptsPerIncident remCfg \<le> in_attempts inc then
           (AttemptsExhausted (in_attempts inc) (mr_MaxAttemptsPerIncident remCfg), incs1)
         else if 0 < mr_Cooldown remCfg \<and> \<not> is_zero_time (in_lastAttempt inc) \<and> elapsed < mr_Cooldown remCfg then
           (InCooldown (wrap64 (mr_Cooldown remCfg - elapsed)), incs1)
         else case failedPrecondition iter lastStatus (mr_Preconditions remCfg) now of
             Some why \<Rightarrow>
               (PreconditionNotMet why, AList.update key (inc\<lparr>in_skipLogged := True\<rparr>) incs1)
           | None \<Rightarrow>
               (Admitted, AList.update key (inc\<lparr>in_attempts := in_attempts inc + 1, in_lastAttempt := now\<rparr>) incs1))"

subsection \<open>Strategies\<close>

definition buildProblemMetadata :: "string \<Rightarrow> condition \<Rightarrow> MonitorRemediationConfig \<Rightarrow> (string, string) gomap" where
  "buildProblemMetadata source c strat =
     (let put = (\<lambda>b k v m. if b then AList.update k v m else m)
      in put (mr_Args strat \<noteq> []) ''args'' (json_strings (mr_Args strat))
        (put (mr_RequireServiceEnabled strat) ''requireEnabled'' ''true''
        (put (mr_Interface strat \<noteq> []) ''interface'' (mr_Interface strat)
        (put (mr_ScriptPath strat \<noteq> []) ''scriptPath'' (mr_ScriptPath strat)
        (put (mr_Service strat \<noteq> []) ''service'' (mr_Service strat)
           [(''source'', source), (''condition'', cond_Type c), (''reason'', cond_Reason c)])))))"

definition buildStrategyList :: "MonitorRemediationConfig option \<Rightarrow> MonitorRemediationConfig list" where
  "buildStrategyList ro =
     (case ro of None \<Rightarrow> []
      | Some r \<Rightarrow>
          let nested = filter (\<lambda>s. mr_Strategy s \<noteq> []) (mr_Strategies r)
          in if nested \<noteq> [] then nested
             else if mr_Strategy r \<noteq> [] then
               [MonitorRemediationConfig False (mr_Strategy r) [] (mr_Service r) (mr_ScriptPath r) (mr_Interface r)
                  (mr_Args r) [] (mr_RequireServiceEnabled r) [] 0 [] 0 []]
             else [])"

definition strategy_problem :: "string \<Rightarrow> condition \<Rightarrow> MonitorRemediationConfig \<Rightarrow> problem" where
  "strategy_problem source c strat =
     \<lparr>pr_Type = mr_Strategy strat, pr_Resource = cond_Type c, pr_Severity = ProblemWarning,
      pr_Message = cond_Message c, pr_DetectedAt = cond_Transition c,
      pr_Metadata = Some (buildProblemMetadata source c strat)\<rparr>"

text \<open>The loop over the strategies: whether one succeeded, and the calls made.\<close>

fun run_strategies ::
  "(nat \<Rightarrow> string \<Rightarrow> problem \<Rightarrow> 'r \<Rightarrow> string option \<times> 'r) \<Rightarrow> string \<Rightarrow> condition \<Rightarrow> nat \<Rightarrow>
   MonitorRemediationConfig list \<Rightarrow> 'r \<Rightarrow> bool \<times> (string \<times> problem) list \<times> 'r" where
  "run_strategies exec source c j [] r = (False, [], r)"
| "run_strategies exec source c j (s # ss) r =
     (let p = strategy_problem source c s
      in case exec j (mr_Strategy s) p r of
           (None, r1) \<Rightarrow> (True, [(mr_Strategy s, p)], r1)
         | (Some e, r1) \<Rightarrow>
             (case run_strategies exec source c (j + 1) ss r1 of
                (ok, calls, r2) \<Rightarrow> (ok, (mr_Strategy s, p) # calls, r2)))"

definition incident_key :: "string \<Rightarrow> condition \<Rightarrow> string" where
  "incident_key source c = source @ ''/'' @ cond_Type c"

text \<open>One round of the loop over the conditions of a status.\<close>

definition evaluate_condition ::
  "('x, 'r) detect_env \<Rightarrow> string \<Rightarrow> MonitorRemediationConfig \<Rightarrow> MonitorRemediationConfig list \<Rightarrow> nat \<times> condition \<Rightarrow>
   dispatch list \<times> ('m, 'x, 'r) ProblemDetector \<Rightarrow> dispatch list \<times> ('m, 'x, 'r) ProblemDetector" where
  "evaluate_condition v source remCfg strategies ic dpd =
     (let i = fst ic; c = snd ic; pd = snd dpd; key = incident_key source c;
          (triggered, relevant) = isRemediationTrigger remCfg c
      in if \<not> relevant then dpd
         else if \<not> triggered then (fst dpd, pd\<lparr>pd_incidents := endIncident key (pd_incidents pd)\<rparr>)
         else case admitRemediation (dv_iter v) (pd_lastStatus pd) (dv_ck v (i + 2)) key remCfg (pd_incidents pd) of
             (Admitted, incs) \<Rightarrow>
               (case pd_remediatorRegistry pd of None \<Rightarrow> dpd
                | Some r \<Rightarrow>
                    (case run_strategies (dv_exec v i) source c 0 strategies r of
                       (ok, calls, r') \<Rightarrow>
                         (fst dpd @ [\<lparr>dp_key = key, dp_time = dv_ck v (i + 2), dp_calls = calls, dp_ok = ok\<rparr>],
                          pd\<lparr>pd_incidents := incs, pd_remediatorRegistry := Some r',
                             pd_stats := (if ok then IncrementRemediationsTriggered (pd_stats pd)
                                          else IncrementRemediationsFailed (pd_stats pd))\<rparr>)))
           | (_, incs) \<Rightarrow> (fst dpd, pd\<lparr>pd_incidents := incs\<rparr>))"

definition evaluateRemediation ::
  "('x, 'r) detect_env \<Rightarrow> status \<Rightarrow> ('m, 'x, 'r) ProblemDetector \<Rightarrow>
   dispatch list \<times> ('m, 'x, 'r) ProblemDetector" where
  "evaluateRemediation v st pd =
     (if pd_remediatorRegistry pd = None then ([], pd)
      else if \<not> rmc_Enabled (ndc_Remediation (pd_config pd)) then ([], pd)
      else case map_of (pd_monitorConfigIndex pd) (st_Source st) of None \<Rightarrow> ([], pd)
      | Some m \<Rightarrow>
          (case mc_Remediation m of None \<Rightarrow> ([], pd)
           | Some remCfg \<Rightarrow>
               if \<not> mr_Enabled remCfg then ([], pd)
               else let strategies = buildStrategyList (Some remCfg)
                    in if strategies = [] then ([], pd)
                       else fold (evaluate_condition v (st_Source st) remCfg strategies)
                              (enumerate 0 (st_Conditions st)) ([], pd)))"

subsection \<open>Processing a status\<close>

definition blocks_dependents :: "status \<Rightarrow> bool" where
  "blocks_dependents st \<longleftrightarrow>
     (\<exists>c\<in>set (st_Conditions st). cond_Status c = ConditionFalse \<or> cond_Type c = ''MonitorBlocked'')"

text \<open>The dependency that blocks the monitor, if there is one.\<close>

definition isMonitorBlocked :: "string \<Rightarrow> ('m, 'x, 'r) ProblemDetector \<Rightarrow> string option" where
  "isMonitorBlocked name pd =
     (case map_of (pd_monitorConfigIndex pd) name of None \<Rightarrow> None
      | Some cfg \<Rightarrow>
          List.find (\<lambda>dep. case map_of (pd_lastStatus pd) dep of None \<Rightarrow> False | Some st \<Rightarrow> blocks_dependents st)
            (mc_DependsOn cfg))"

definition synthBlockedStatus :: "time \<Rightarrow> time \<Rightarrow> string \<Rightarrow> string \<Rightarrow> status" where
  "synthBlockedStatus t0 t1 monitorName blockedBy =
     AddCondition (NewCondition t1 ''MonitorBlocked'' ConditionUnknown ''DependencyUnhealthy''
         (''Monitor '' @ monitorName @ '' is blocked: dependency '' @ go_quote blockedBy @ '' is unhealthy''))
       (NewStatus t0 monitorName)"

definition getExporterType :: "string \<Rightarrow> string" where
  "getExporterType typeName =
     (if contains_str (to_lower typeName) ''kubernetes'' then ''kubernetes''
      else if contains_str (to_lower typeName) ''http'' then ''http''
      else if contains_str (to_lower typeName) ''prometheus'' then ''prometheus''
      else to_lower typeName)"

text \<open>The loop over the exporters: what each one returned, and the exporters afterwards.\<close>

fun export_all ::
  "(nat \<Rightarrow> status \<Rightarrow> 'x \<Rightarrow> string option \<times> 'x) \<Rightarrow> ('x \<Rightarrow> string) \<Rightarrow> status \<Rightarrow> nat \<Rightarrow> 'x list \<Rightarrow>
   (string \<times> string option) list \<times> 'x list" where
  "export_all exporter typeName st i [] = ([], [])"
| "export_all exporter typeName st i (x # xs) =
     (case exporter i st x of (err, x') \<Rightarrow>
        (case export_all exporter typeName st (i + 1) xs of (reports, xs') \<Rightarrow>
           ((''exporter/'' @ getExporterType (typeName x), err) # reports, x' # xs')))"

definition count_export :: "string \<times> string option \<Rightarrow> Statistics \<Rightarrow> Statistics" where
  "count_export rep s = (if snd rep = None then IncrementExportsSucceeded s else IncrementExportsFailed s)"

definition effective_status :: "('x, 'r) detect_env \<Rightarrow> status \<Rightarrow> ('m, 'x, 'r) ProblemDetector \<Rightarrow> status" where
  "effective_status v st pd =
     (case isMonitorBlocked (st_Source st) pd of None \<Rightarrow> st
      | Some blockedBy \<Rightarrow> synthBlockedStatus (dv_ck v 0) (dv_ck v 1) (st_Source st) blockedBy)"

definition processStatus ::
  "('x, 'r) detect_env \<Rightarrow> status \<Rightarrow> ('m, 'x, 'r) ProblemDetector \<Rightarrow>
   dispatch list \<times> (string \<times> string option) list \<times> ('m, 'x, 'r) ProblemDetector" where
  "processStatus v st0 pd0 =
     (let st = effective_status v st0 pd0;
          (reports, xs) = export_all (dv_export v) (dv_typeName v) st 0 (pd_exporters pd0);
          pd1 = pd0\<lparr>pd_lastStatus := AList.update (st_Source st) st (pd_lastStatus pd0),
                    pd_exporters := xs,
                    pd_stats := fold count_export reports (IncrementStatusesReceived (pd_stats pd0))\<rparr>;
          (ds, pd2) = evaluateRemediation v st pd1
      in (ds, if pd_dependencyReporter pd0 then reports else [], pd2))"

text \<open>The statuses taken from the channel one after the other, each in its own environment.\<close>

fun processStatuses ::
  "(('x, 'r) detect_env \<times> status) list \<Rightarrow> ('m, 'x, 'r) ProblemDetector \<Rightarrow>
   dispatch list \<times> ('m, 'x, 'r) ProblemDetector" where
  "processStatuses [] pd = ([], pd)"
| "processStatuses ((v, st) # run) pd =
     (case processStatus v st pd of (ds, _, pd1) \<Rightarrow>
        (case processStatuses run pd1 of (ds', pd2) \<Rightarrow> (ds @ ds', pd2)))"

section \<open>The dispatch policy\<close>

text \<open>The policy for one incident key, as a request on the state of that incident alone: the request
  says whether the condition has left its problem state, the time, and the statuses observed.\<close>

type_synonym policy_request = "bool \<times> time \<times> (string, status) gomap"

definition slot :: "string \<Rightarrow> remediationIncident option \<Rightarrow> (string, remediationIncident) gomap" where
  "slot key s = (case s of None \<Rightarrow> [] | Some inc \<Rightarrow> [(key, inc)])"

lemma slot_simps [simp]: "map_of (slot key s) key = s" "gomap_get z (slot key s) key = (case s of None \<Rightarrow> z | Some i \<Rightarrow> i)"
  by (simp_all add: slot_def gomap_get_def split: option.split)

definition policy_can :: "string \<Rightarrow> MonitorRemediationConfig \<Rightarrow> policy_request \<Rightarrow> remediationIncident option \<Rightarrow> bool" where
  "policy_can key remCfg q s \<longleftrightarrow>
     \<not> fst q \<and> fst (admitRemediation (\<lambda>e. e) (snd (snd q)) (fst (snd q)) key remCfg (slot key s)) = Admitted"

definition policy_step ::
  "string \<Rightarrow> MonitorRemediationConfig \<Rightarrow> policy_request \<Rightarrow> remediationIncident option \<Rightarrow> remediationIncident option" where
  "policy_step key remCfg q s =
     map_of (if fst q then endIncident key (slot key s)
             else snd (admitRemediation (\<lambda>e. e) (snd (snd q)) (fst (snd q)) key remCfg (slot key s))) key"

definition attempts_of :: "remediationIncident option \<Rightarrow> int" where
  "attempts_of s = (case s of None \<Rightarrow> 0 | Some i \<Rightarrow> in_attempts i)"

definition last_attempt_of :: "remediationIncident option \<Rightarrow> time option" where
  "last_attempt_of s = (case s of None \<Rightarrow> None | Some i \<Rightarrow> if in_lastAttempt i = 0 then None else Some (in_lastAttempt i))"

lemma policy_cases:
  assumes "policy_can key remCfg q s"
  shows "attempts_of (policy_step key remCfg q s) = attempts_of s + 1"
    "fst (snd q) \<noteq> 0 \<Longrightarrow> last_attempt_of (policy_step key remCfg q s) = Some (fst (snd q))"
    "0 < mr_MaxAttemptsPerIncident remCfg \<Longrightarrow> attempts_of s < mr_MaxAttemptsPerIncident remCfg"
    "0 < mr_Cooldown remCfg \<Longrightarrow> last_attempt_of s = Some u \<Longrightarrow> mr_Cooldown remCfg \<le> time_sub (fst (snd q)) u"
  using assms
  by (auto simp: policy_can_def policy_step_def admitRemediation_def Let_def attempts_of_def last_attempt_of_def
      zero_incident_def is_zero_time_def split: option.splits if_splits)

lemma policy_skips:
  assumes "\<not> policy_can key remCfg q s"
  shows "last_attempt_of (policy_step key remCfg q s) = last_attempt_of s"
    "\<not> fst q \<Longrightarrow> attempts_of (policy_step key remCfg q s) = attempts_of s"
  using assms
  by (auto simp: policy_can_def policy_step_def admitRemediation_def endIncident_def Let_def attempts_of_def
      last_attempt_of_def zero_incident_def split: option.splits if_splits)

interpretation incident_policy: limited_dispatch
  "\<lambda>_. mr_Cooldown remCfg \<le> max_int64"
  "\<lambda>q. fst (snd q)" fst
  "policy_can key remCfg" "policy_step key remCfg" "policy_step key remCfg"
  attempts_of last_attempt_of
  "if 0 < mr_MaxAttemptsPerIncident remCfg then Some (mr_MaxAttemptsPerIncident remCfg) else None"
  "mr_Cooldown remCfg"
  for key remCfg
proof (unfold_locales, goal_cases)
  case (4 s q u)
  then show ?case using policy_cases(4) [of key remCfg q s u] time_sub_ge_iff [of "mr_Cooldown remCfg"] by auto
qed (auto simp: policy_cases(1,2) policy_skips split: if_splits dest: policy_cases(3))

lemma admit_slot:
  "fst (admitRemediation iter ls now key remCfg incs)
     = fst (admitRemediation (\<lambda>e. e) (iter ls) now key remCfg (slot key (map_of incs key)))"
  "map_of (snd (admitRemediation iter ls now key remCfg incs))
     = (map_of incs)(key := map_of (snd (admitRemediation (\<lambda>e. e) (iter ls) now key remCfg (slot key (map_of incs key)))) key)"
  by (cases "map_of incs key"; auto simp: admitRemediation_def failedPrecondition_def Let_def gomap_get_def
      split: option.splits)+

lemma end_slot:
  "map_of (endIncident key incs) = (map_of incs)(key := map_of (endIncident key (slot key (map_of incs key))) key)"
  by (cases "map_of incs key") (auto simp: endIncident_def)

text \<open>A run of the policy for one key: the times of its dispatches and the state of the incident afterwards.\<close>

definition follows ::
  "string \<Rightarrow> MonitorRemediationConfig \<Rightarrow> policy_request list \<Rightarrow> remediationIncident option \<Rightarrow> time list \<Rightarrow>
   remediationIncident option \<Rightarrow> bool" where
  "follows key remCfg qs s ts s' \<longleftrightarrow>
     (let r = guarded_run (policy_can key remCfg) (policy_step key remCfg) (policy_step key remCfg) qs s
      in ts = map (\<lambda>q. fst (snd q)) (fst r) \<and> s' = snd r)"

lemma guarded_run_append:
  "guarded_run can act skip (xs @ ys) s =
     (let r = guarded_run can act skip xs s; r' = guarded_run can act skip ys (snd r) in (fst r @ fst r', snd r'))"
  by (induction xs arbitrary: s) (simp_all add: Let_def)

lemma follows_Nil: "follows key remCfg [] s [] s"
  by (simp add: follows_def)

lemma follows_append:
  "follows key remCfg xs s ts s1 \<Longrightarrow> follows key remCfg ys s1 ts' s2 \<Longrightarrow> follows key remCfg (xs @ ys) s (ts @ ts') s2"
  by (simp add: follows_def guarded_run_append Let_def)

definition times_of :: "string \<Rightarrow> dispatch list \<Rightarrow> time list" where
  "times_of key ds = map dp_time (filter (\<lambda>d. dp_key d = key) ds)"

lemma times_of_simps [simp]: "times_of key [] = []" "times_of key (ds @ ds') = times_of key ds @ times_of key ds'"
  by (simp_all add: times_of_def)

text \<open>What the evaluation of conditions leaves alone.\<close>

definition policy_frame :: "('m, 'x, 'r) ProblemDetector \<Rightarrow>
    NodeDoctorConfig \<times> (string, MonitorConfig) gomap \<times> (string, status) gomap \<times> bool" where
  "policy_frame pd = (pd_config pd, pd_monitorConfigIndex pd, pd_lastStatus pd, pd_remediatorRegistry pd = None)"

lemma evaluate_condition_frame:
  "pd_remediatorRegistry pd \<noteq> None \<Longrightarrow>
   policy_frame (snd (evaluate_condition v source remCfg strats ic (ds, pd))) = policy_frame pd"
  by (auto simp: evaluate_condition_def policy_frame_def Let_def split: prod.splits admission.splits option.splits)

lemma incident_other:
  assumes "k \<noteq> key"
  shows "map_of (endIncident key incs) k = map_of incs k"
    "map_of (snd (admitRemediation iter ls now key remCfg incs)) k = map_of incs k"
  using fun_cong [OF end_slot, of key incs k] fun_cong [OF admit_slot(2), of iter ls now key remCfg incs k] assms
  by simp_all

text \<open>A round of the loop on one condition, by its three outcomes.\<close>

lemma evaluate_condition_cases:
  assumes "pd_remediatorRegistry pd \<noteq> None"
    and res_def: "res = evaluate_condition v source remCfg strats ic (ds, pd)"
    and key_def: "key = incident_key source (snd ic)" and t_def: "t = dv_ck v (fst ic + 2)"
  obtains "\<not> snd (isRemediationTrigger remCfg (snd ic))" "res = (ds, pd)"
  | "snd (isRemediationTrigger remCfg (snd ic))" "\<not> fst (isRemediationTrigger remCfg (snd ic))"
      "fst res = ds" "pd_incidents (snd res) = endIncident key (pd_incidents pd)"
  | a where "snd (isRemediationTrigger remCfg (snd ic))" "fst (isRemediationTrigger remCfg (snd ic))"
      "a = admitRemediation (dv_iter v) (pd_lastStatus pd) t key remCfg (pd_incidents pd)"
      "pd_incidents (snd res) = snd a"
      "fst a \<noteq> Admitted \<and> fst res = ds \<or> fst a = Admitted \<and> (\<exists>calls ok r r'. run_strategies (dv_exec v (fst ic)) source (snd ic) 0 strats r = (ok, calls, r')
            \<and> fst res = ds @ [\<lparr>dp_key = key, dp_time = t, dp_calls = calls, dp_ok = ok\<rparr>])"
proof -
  obtain r where r: "pd_remediatorRegistry pd = Some r" using assms(1) by blast
  obtain tr rel where tr: "isRemediationTrigger remCfg (snd ic) = (tr, rel)" by fastforce
  obtain adm incs where a: "admitRemediation (dv_iter v) (pd_lastStatus pd) t key remCfg (pd_incidents pd) = (adm, incs)"
    by fastforce
  obtain ok calls r' where run: "run_strategies (dv_exec v (fst ic)) source (snd ic) 0 strats r = (ok, calls, r')"
    by (metis prod_cases3)
  show thesis
  proof (cases "\<not> rel \<or> \<not> tr")
    case True
    then show thesis using that(1,2) by (auto simp: res_def evaluate_condition_def Let_def tr key_def)
  next
    case False
    have "pd_incidents (snd res) = incs \<and> (adm \<noteq> Admitted \<and> fst res = ds
        \<or> adm = Admitted \<and> fst res = ds @ [\<lparr>dp_key = key, dp_time = t, dp_calls = calls, dp_ok = ok\<rparr>])"
      using False a [unfolded t_def key_def]
      by (cases adm) (simp_all add: res_def evaluate_condition_def Let_def tr r run key_def t_def)
    then show thesis using that(3) [of "(adm, incs)"] False a tr run by auto
  qed
qed

lemma evaluate_condition_other:
  assumes "incident_key source (snd ic) \<noteq> key" "pd_remediatorRegistry pd \<noteq> None"
  shows "times_of key (fst (evaluate_condition v source remCfg strats ic (ds, pd))) = times_of key ds
    \<and> map_of (pd_incidents (snd (evaluate_condition v source remCfg strats ic (ds, pd)))) key = map_of (pd_incidents pd) key"
proof (cases rule: evaluate_condition_cases [OF assms(2) refl refl refl, where v = v and source = source
      and remCfg = remCfg and strats = strats and ic = ic and ds = ds])
  case (3 a)
  then show ?thesis using assms(1) by (auto simp: incident_other times_of_def)
qed (use assms(1) in \<open>auto simp: incident_other\<close>)

text \<open>
  The state \<open>pd'\<close> is reached from \<open>pd\<close> by following the policy for the key, with dispatches at the
  times \<open>ts\<close>; the clock readings it used are among \<open>rs\<close>, and an incident ends only at one of the conditions \<open>cs\<close>.
\<close>

definition dispatches_as ::
  "string \<Rightarrow> MonitorRemediationConfig \<Rightarrow> time list \<Rightarrow> condition list \<Rightarrow> ('m, 'x, 'r) ProblemDetector \<Rightarrow> time list \<Rightarrow>
   ('m, 'x, 'r) ProblemDetector \<Rightarrow> bool" where
  "dispatches_as key remCfg rs cs pd ts pd' \<longleftrightarrow>
     (\<exists>qs. follows key remCfg qs (map_of (pd_incidents pd) key) ts (map_of (pd_incidents pd') key)
        \<and> subseq (map (\<lambda>q. fst (snd q)) qs) rs
        \<and> (\<forall>q\<in>set qs. fst q \<longrightarrow> (\<exists>c\<in>set cs. \<not> fst (isRemediationTrigger remCfg c))))"

lemma dispatches_as_none:
  "map_of (pd_incidents pd') key = map_of (pd_incidents pd) key \<Longrightarrow> dispatches_as key remCfg rs cs pd [] pd'"
  unfolding dispatches_as_def by (rule exI [of _ "[]"]) (simp add: follows_Nil)

lemma dispatches_as_append:
  assumes "dispatches_as key remCfg rs cs pd ts pd1" "dispatches_as key remCfg rs' cs' pd1 ts' pd2"
  shows "dispatches_as key remCfg (rs @ rs') (cs @ cs') pd (ts @ ts') pd2"
proof -
  from assms obtain qs qs' where
    qs: "follows key remCfg qs (map_of (pd_incidents pd) key) ts (map_of (pd_incidents pd1) key)"
      "subseq (map (\<lambda>q. fst (snd q)) qs) rs" "\<forall>q\<in>set qs. fst q \<longrightarrow> (\<exists>c\<in>set cs. \<not> fst (isRemediationTrigger remCfg c))"
    and qs': "follows key remCfg qs' (map_of (pd_incidents pd1) key) ts' (map_of (pd_incidents pd2) key)"
      "subseq (map (\<lambda>q. fst (snd q)) qs') rs'" "\<forall>q\<in>set qs'. fst q \<longrightarrow> (\<exists>c\<in>set cs'. \<not> fst (isRemediationTrigger remCfg c))"
    unfolding dispatches_as_def by blast
  show ?thesis
    unfolding dispatches_as_def
    using follows_append [OF qs(1) qs'(1)] list_emb_append_mono [OF qs(2) qs'(2)] qs(3) qs'(3)
    by (intro exI [of _ "qs @ qs'"]) auto
qed

lemma evaluate_condition_follows:
  assumes "pd_remediatorRegistry pd \<noteq> None" "key = source @ ''/'' @ ty"
  shows "\<exists>ts. times_of key (fst (evaluate_condition v source remCfg strats ic (ds, pd))) = times_of key ds @ ts
    \<and> dispatches_as key remCfg [dv_ck v (fst ic + 2)] (filter (\<lambda>c. cond_Type c = ty) [snd ic]) pd ts
        (snd (evaluate_condition v source remCfg strats ic (ds, pd)))"
proof (cases "cond_Type (snd ic) = ty")
  case False
  then have "incident_key source (snd ic) \<noteq> key" by (simp add: incident_key_def assms(2))
  from evaluate_condition_other [OF this assms(1), of v remCfg strats ds] show ?thesis
    by (intro exI [of _ "[]"]) (simp add: dispatches_as_none)
next
  case True
  then have key: "incident_key source (snd ic) = key" by (simp add: incident_key_def assms(2))
  let ?t = "dv_ck v (fst ic + 2)" and ?ls = "dv_iter v (pd_lastStatus pd)" and ?s = "map_of (pd_incidents pd) key"
  show ?thesis
  proof (cases rule: evaluate_condition_cases [OF assms(1) refl refl refl, where v = v and source = source
        and remCfg = remCfg and strats = strats and ic = ic and ds = ds])
    case 1
    then show ?thesis by (intro exI [of _ "[]"]) (simp add: dispatches_as_none)
  next
    case 2
    have "follows key remCfg [(True, ?t, ?ls)] ?s [] (map_of (endIncident key (pd_incidents pd)) key)"
      using fun_cong [OF end_slot, of key "pd_incidents pd" key] by (simp add: follows_def policy_can_def policy_step_def)
    with 2 True show ?thesis
      unfolding dispatches_as_def by (intro exI [of _ "[]"] conjI exI [of _ "[(True, ?t, ?ls)]"]) (simp_all add: key)
  next
    case (3 a)
    have "follows key remCfg [(False, ?t, ?ls)] ?s (if fst a = Admitted then [?t] else []) (map_of (snd a) key)"
      using admit_slot(1) [of "dv_iter v" "pd_lastStatus pd" ?t key remCfg "pd_incidents pd"]
        fun_cong [OF admit_slot(2), of "dv_iter v" "pd_lastStatus pd" ?t key remCfg "pd_incidents pd" key] 3(3)
      by (simp add: follows_def policy_can_def policy_step_def key)
    with 3 show ?thesis
      unfolding dispatches_as_def
      by (intro exI [of _ "if fst a = Admitted then [?t] else []"] conjI exI [of _ "[(False, ?t, ?ls)]"])
        (auto simp: key times_of_def)
  qed
qed

lemma evaluate_fold_frame:
  "pd_remediatorRegistry pd \<noteq> None \<Longrightarrow>
   policy_frame (snd (fold (evaluate_condition v source remCfg strats) ics (ds, pd))) = policy_frame pd"
proof (induction ics arbitrary: ds pd)
  case (Cons ic ics)
  obtain ds1 pd1 where e: "evaluate_condition v source remCfg strats ic (ds, pd) = (ds1, pd1)" by fastforce
  have frame: "policy_frame pd1 = policy_frame pd"
    using evaluate_condition_frame [OF Cons.prems, of v source remCfg strats ic ds] e by simp
  then have "pd_remediatorRegistry pd1 \<noteq> None" using Cons.prems by (simp add: policy_frame_def)
  from Cons.IH [OF this, of ds1] frame e show ?case by simp
qed simp

lemma evaluate_fold_other:
  "pd_remediatorRegistry pd \<noteq> None \<Longrightarrow> \<forall>ic\<in>set ics. incident_key source (snd ic) \<noteq> key \<Longrightarrow>
   times_of key (fst (fold (evaluate_condition v source remCfg strats) ics (ds, pd))) = times_of key ds
   \<and> map_of (pd_incidents (snd (fold (evaluate_condition v source remCfg strats) ics (ds, pd)))) key
       = map_of (pd_incidents pd) key"
proof (induction ics arbitrary: ds pd)
  case (Cons ic ics)
  obtain ds1 pd1 where e: "evaluate_condition v source remCfg strats ic (ds, pd) = (ds1, pd1)" by fastforce
  then have "pd_remediatorRegistry pd1 \<noteq> None"
    using evaluate_condition_frame [OF Cons.prems(1), of v source remCfg strats ic ds] Cons.prems(1)
    by (simp add: policy_frame_def)
  with Cons.IH [of pd1 ds1] Cons.prems evaluate_condition_other [of source ic key pd v remCfg strats ds] e
  show ?case by simp
qed simp

lemma evaluate_fold_follows:
  assumes "key = source @ ''/'' @ ty"
  shows "pd_remediatorRegistry pd \<noteq> None \<Longrightarrow>
    \<exists>ts. times_of key (fst (fold (evaluate_condition v source remCfg strats) ics (ds, pd))) = times_of key ds @ ts
      \<and> dispatches_as key remCfg (map (\<lambda>ic. dv_ck v (fst ic + 2)) ics)
          (filter (\<lambda>c. cond_Type c = ty) (map snd ics)) pd ts
          (snd (fold (evaluate_condition v source remCfg strats) ics (ds, pd)))"
proof (induction ics arbitrary: ds pd)
  case Nil
  then show ?case by (simp add: dispatches_as_none)
next
  case (Cons ic ics)
  obtain ds1 pd1 where e: "evaluate_condition v source remCfg strats ic (ds, pd) = (ds1, pd1)" by fastforce
  then have reg: "pd_remediatorRegistry pd1 \<noteq> None"
    using evaluate_condition_frame [OF Cons.prems(1), of v source remCfg strats ic ds] Cons.prems(1)
    by (simp add: policy_frame_def)
  from evaluate_condition_follows [OF Cons.prems assms, of v remCfg strats ic ds] e obtain ts where
    ts: "times_of key ds1 = times_of key ds @ ts"
      "dispatches_as key remCfg [dv_ck v (fst ic + 2)] (filter (\<lambda>c. cond_Type c = ty) [snd ic]) pd ts pd1" by auto
  from Cons.IH [OF reg, of ds1] obtain ts' where
    ts': "times_of key (fst (fold (evaluate_condition v source remCfg strats) ics (ds1, pd1))) = times_of key ds1 @ ts'"
      "dispatches_as key remCfg (map (\<lambda>ic. dv_ck v (fst ic + 2)) ics)
        (filter (\<lambda>c. cond_Type c = ty) (map snd ics)) pd1 ts'
        (snd (fold (evaluate_condition v source remCfg strats) ics (ds1, pd1)))" by blast
  show ?case
    using ts(1) ts'(1) dispatches_as_append [OF ts(2) ts'(2)] e by (intro exI [of _ "ts @ ts'"]) (simp split: if_splits)
qed

text \<open>One status, for a source without a slash, so that the incident keys of two sources differ.\<close>

lemma evaluateRemediation_cases:
  obtains "evaluateRemediation v st pd = ([], pd)"
  | m r where "map_of (pd_monitorConfigIndex pd) (st_Source st) = Some m" "mc_Remediation m = Some r"
      "pd_remediatorRegistry pd \<noteq> None" "rmc_Enabled (ndc_Remediation (pd_config pd))" "mr_Enabled r"
      "evaluateRemediation v st pd
        = fold (evaluate_condition v (st_Source st) r (buildStrategyList (Some r))) (enumerate 0 (st_Conditions st)) ([], pd)"
proof -
  have "evaluateRemediation v st pd = ([], pd) \<or> (\<exists>m r. map_of (pd_monitorConfigIndex pd) (st_Source st) = Some m
      \<and> mc_Remediation m = Some r \<and> pd_remediatorRegistry pd \<noteq> None \<and> rmc_Enabled (ndc_Remediation (pd_config pd))
      \<and> mr_Enabled r \<and> evaluateRemediation v st pd
        = fold (evaluate_condition v (st_Source st) r (buildStrategyList (Some r))) (enumerate 0 (st_Conditions st)) ([], pd))"
    by (simp add: evaluateRemediation_def Let_def split: option.split)
  with that show thesis by blast
qed

lemma evaluateRemediation_frame: "policy_frame (snd (evaluateRemediation v st pd)) = policy_frame pd"
  by (cases rule: evaluateRemediation_cases [of v st pd]) (simp_all add: evaluate_fold_frame)

lemma evaluateRemediation_follows:
  assumes "map_of (pd_monitorConfigIndex pd) src = Some m" "mc_Remediation m = Some remCfg"
    "CHR ''/'' \<notin> set src" "CHR ''/'' \<notin> set (st_Source st)" "key = src @ ''/'' @ ty"
  shows "dispatches_as key remCfg (map (\<lambda>i. dv_ck v (i + 2)) [0..<length (st_Conditions st)])
       (if st_Source st = src then filter (\<lambda>c. cond_Type c = ty) (st_Conditions st) else [])
       pd (times_of key (fst (evaluateRemediation v st pd))) (snd (evaluateRemediation v st pd))"
proof (cases rule: evaluateRemediation_cases [of v st pd])
  case 1
  then show ?thesis by (simp add: dispatches_as_none)
next
  case (2 m' r)
  let ?ics = "enumerate 0 (st_Conditions st)"
  have clocks: "map (\<lambda>ic. dv_ck v (fst ic + 2)) ?ics = map (\<lambda>i. dv_ck v (i + 2)) [0..<length (st_Conditions st)]"
    by (rule nth_equalityI) (simp_all add: nth_enumerate_eq)
  show ?thesis
  proof (cases "st_Source st = src")
    case True
    with 2 assms(1,2) have "r = remCfg" by simp
    with True evaluate_fold_follows [OF assms(5) 2(3), of v remCfg "buildStrategyList (Some r)" ?ics "[]"] clocks 2(6)
    show ?thesis by auto
  next
    case False
    then have "\<forall>ic\<in>set ?ics. incident_key (st_Source st) (snd ic) \<noteq> key"
      using append_sep_inject [OF assms(4,3)] by (simp add: incident_key_def assms(5))
    from evaluate_fold_other [OF 2(3) this, of v r "buildStrategyList (Some r)" "[]"] 2(6) False show ?thesis
      by (simp add: dispatches_as_none)
  qed
qed

text \<open>The clock readings of one status; a blocked status has one condition.\<close>

definition readings :: "('x, 'r) detect_env \<Rightarrow> status \<Rightarrow> time list" where
  "readings v st = map (dv_ck v) [0..<length (st_Conditions st) + 3]"

lemma effective_status_conditions:
  "st_Source (effective_status v st pd) = st_Source st"
  "effective_status v st pd = st \<or> (\<exists>msg. st_Conditions (effective_status v st pd)
     = [NewCondition (dv_ck v 1) ''MonitorBlocked'' ConditionUnknown ''DependencyUnhealthy'' msg])"
  by (auto simp: effective_status_def synthBlockedStatus_def NewStatus_def AddCondition_def split: option.splits)

lemma processStatus_eq:
  "processStatus v st pd =
     (let st' = effective_status v st pd;
          rep = export_all (dv_export v) (dv_typeName v) st' 0 (pd_exporters pd);
          ev = evaluateRemediation v st' (pd\<lparr>pd_lastStatus := AList.update (st_Source st') st' (pd_lastStatus pd),
                 pd_exporters := snd rep,
                 pd_stats := fold count_export (fst rep) (IncrementStatusesReceived (pd_stats pd))\<rparr>)
      in (fst ev, if pd_dependencyReporter pd then fst rep else [], snd ev))"
  by (simp add: processStatus_def Let_def split_def)

text \<open>The state in which the conditions of a status are evaluated.\<close>

lemma processStatus_evaluates:
  assumes "processStatus v st pd = (ds, reports, pd')"
  obtains pd1 where "evaluateRemediation v (effective_status v st pd) pd1 = (ds, pd')"
    "pd_lastStatus pd1 = AList.update (st_Source st) (effective_status v st pd) (pd_lastStatus pd)"
    "pd_config pd1 = pd_config pd" "pd_monitorConfigIndex pd1 = pd_monitorConfigIndex pd"
    "pd_incidents pd1 = pd_incidents pd" "pd_remediatorRegistry pd1 = pd_remediatorRegistry pd"
proof -
  let ?st = "effective_status v st pd"
  let ?rep = "export_all (dv_export v) (dv_typeName v) ?st 0 (pd_exporters pd)"
  let ?pd = "pd\<lparr>pd_lastStatus := AList.update (st_Source ?st) ?st (pd_lastStatus pd), pd_exporters := snd ?rep,
      pd_stats := fold count_export (fst ?rep) (IncrementStatusesReceived (pd_stats pd))\<rparr>"
  have "evaluateRemediation v ?st ?pd = (ds, pd')"
    using assms by (simp add: processStatus_eq Let_def prod_eq_iff)
  with that [of ?pd] effective_status_conditions(1) [of v st pd] show thesis by simp
qed

lemma processStatus_follows:
  assumes "map_of (pd_monitorConfigIndex pd) src = Some m" "mc_Remediation m = Some remCfg"
    "CHR ''/'' \<notin> set src" "CHR ''/'' \<notin> set (st_Source st)" "key = src @ ''/'' @ ty" "ty \<noteq> ''MonitorBlocked''"
    and p: "processStatus v st pd = (ds, reports, pd')"
  shows "dispatches_as key remCfg (readings v st)
       (if st_Source st = src then filter (\<lambda>c. cond_Type c = ty) (st_Conditions st) else []) pd (times_of key ds) pd'"
    "pd_monitorConfigIndex pd' = pd_monitorConfigIndex pd"
proof -
  let ?st = "effective_status v st pd"
  obtain pd1 where ev: "evaluateRemediation v ?st pd1 = (ds, pd')" "pd_monitorConfigIndex pd1 = pd_monitorConfigIndex pd"
    "pd_incidents pd1 = pd_incidents pd" by (rule processStatus_evaluates [OF p]) blast
  let ?rs = "map (\<lambda>i. dv_ck v (i + 2)) [0..<length (st_Conditions ?st)]"
  let ?cs = "if st_Source st = src then filter (\<lambda>c. cond_Type c = ty) (st_Conditions ?st) else []"
  have d: "dispatches_as key remCfg ?rs ?cs pd (times_of key ds) pd'"
    using evaluateRemediation_follows [of pd1 src m remCfg ?st key ty v] assms(1-5) ev effective_status_conditions(1) [of v st pd]
    by (simp add: dispatches_as_def)
  have sub: "subseq ?rs (readings v st)"
  proof -
    have len: "length (st_Conditions ?st) \<le> length (st_Conditions st) + 1"
      using effective_status_conditions(2) [of v st pd] by auto
    let ?b = "length (st_Conditions ?st) + 2" and ?N = "length (st_Conditions st) + 3"
    have split_upt: "[i..<k] = [i..<j] @ [j..<k]" if "i \<le> j" "j \<le> k" for i j k :: nat
      using upt_add_eq_append [OF that(1), of "k - j"] that by simp
    have "[0..<?N] = [0..<2] @ [2..<?b] @ [?b..<?N]"
      using split_upt [of 0 2 ?N] split_upt [of 2 ?b ?N] len by simp
    then have "readings v st = map (dv_ck v) [0..<2] @ map (dv_ck v) [2..<?b] @ map (dv_ck v) [?b..<?N]"
      unfolding readings_def by (metis map_append)
    moreover have "?rs = map (dv_ck v) [2..<length (st_Conditions ?st) + 2]"
      unfolding map_add_upt [of 2, symmetric] by (simp add: comp_def)
    ultimately show ?thesis by (simp only: subseq_drop_many subseq_rev_drop_many subseq_order.order_refl)
  qed
  have "set ?cs \<subseteq> set (if st_Source st = src then filter (\<lambda>c. cond_Type c = ty) (st_Conditions st) else [])"
    using effective_status_conditions(2) [of v st pd] assms(6) by (auto simp: NewCondition_def)
  with d sub show "dispatches_as key remCfg (readings v st)
       (if st_Source st = src then filter (\<lambda>c. cond_Type c = ty) (st_Conditions st) else []) pd (times_of key ds) pd'"
    unfolding dispatches_as_def by (meson subseq_order.trans subsetD)
  show "pd_monitorConfigIndex pd' = pd_monitorConfigIndex pd"
    using evaluateRemediation_frame [of v ?st pd1] ev by (simp add: policy_frame_def)
qed

text \<open>A sequence of statuses.\<close>

lemma processStatuses_Cons:
  assumes "processStatus v st pd = (ds, reports, pd1)"
  shows "fst (processStatuses ((v, st) # run) pd) = ds @ fst (processStatuses run pd1)"
    "snd (processStatuses ((v, st) # run) pd) = snd (processStatuses run pd1)"
  by (simp_all add: assms split: prod.split)

lemma processStatuses_follows:
  assumes "mc_Remediation m = Some remCfg" "CHR ''/'' \<notin> set src" "key = src @ ''/'' @ ty" "ty \<noteq> ''MonitorBlocked''"
  shows "map_of (pd_monitorConfigIndex pd) src = Some m \<Longrightarrow> \<forall>(v, st)\<in>set run. CHR ''/'' \<notin> set (st_Source st) \<Longrightarrow>
    dispatches_as key remCfg (concat (map (\<lambda>(v, st). readings v st) run))
      (concat (map (\<lambda>(v, st). if st_Source st = src then filter (\<lambda>c. cond_Type c = ty) (st_Conditions st) else []) run))
      pd (times_of key (fst (processStatuses run pd))) (snd (processStatuses run pd))"
proof (induction run arbitrary: pd)
  case Nil
  then show ?case by (simp add: dispatches_as_none)
next
  case (Cons vs run)
  obtain v st where vs: "vs = (v, st)" by (cases vs)
  obtain ds reports pd1 where p: "processStatus v st pd = (ds, reports, pd1)" by (metis prod_cases3)
  note one = processStatus_follows [OF Cons.prems(1) assms(1,2) _ assms(3,4) p]
  have "CHR ''/'' \<notin> set (st_Source st)" using Cons.prems(2) vs by simp
  note one = one [OF this]
  have "dispatches_as key remCfg (concat (map (\<lambda>(v, st). readings v st) run))
      (concat (map (\<lambda>(v, st). if st_Source st = src then filter (\<lambda>c. cond_Type c = ty) (st_Conditions st) else []) run))
      pd1 (times_of key (fst (processStatuses run pd1))) (snd (processStatuses run pd1))"
    using Cons.IH [of pd1] Cons.prems one(2) by simp
  from dispatches_as_append [OF one(1) this] show ?case
    by (simp only: vs list.map concat.simps prod.case processStatuses_Cons [OF p] times_of_simps)
qed

lemma subseq_subset: "subseq xs ys \<Longrightarrow> set xs \<subseteq> set ys"
  by (induction rule: list_emb.induct) auto

lemma sorted_subseq: "subseq xs ys \<Longrightarrow> sorted ys \<Longrightarrow> sorted xs"
  by (induction rule: list_emb.induct) (auto dest!: subseq_subset)

section \<open>What a dispatch rests on\<close>

text \<open>The observations a precondition speaks of: time and status of each matching condition.\<close>

definition observations :: "RemediationPrecondition \<Rightarrow> (string, status) gomap \<Rightarrow> (time \<times> string) list" where
  "observations p entries =
     concat (map (\<lambda>(source, st). if rp_Monitor p \<noteq> [] \<and> source \<noteq> rp_Monitor p then []
       else map (\<lambda>c. (st_Timestamp st, cond_Status c)) (filter (\<lambda>c. cond_Type c = rp_Type p) (st_Conditions st))) entries)"

definition newer :: "time \<times> string \<Rightarrow> (time \<times> string) option \<Rightarrow> (time \<times> string) option" where
  "newer ob acc = (case acc of None \<Rightarrow> Some ob | Some (latest, s) \<Rightarrow> if latest < fst ob then Some ob else acc)"

lemma observe_conditions:
  "fold (observe_condition p st) cs acc =
     fold newer (map (\<lambda>c. (st_Timestamp st, cond_Status c)) (filter (\<lambda>c. cond_Type c = rp_Type p) cs)) acc"
  by (induction cs arbitrary: acc) (auto simp: observe_condition_def newer_def split: option.split)

lemma observe_fold: "fold (observe_status p) entries acc = fold newer (observations p entries) acc"
  by (induction entries arbitrary: acc) (auto simp: observe_status_def observations_def observe_conditions)

lemma newest: "fold newer obs acc = Some ob \<Longrightarrow>
   (ob \<in> set obs \<or> acc = Some ob) \<and> (\<forall>o'\<in>set obs. fst o' \<le> fst ob) \<and> (\<forall>o'. acc = Some o' \<longrightarrow> fst o' \<le> fst ob)"
proof (induction obs arbitrary: acc)
  case (Cons o' obs)
  obtain t s where o': "o' = (t, s)" by (cases o')
  from Cons.IH [of "newer o' acc"] Cons.prems have
    "(ob \<in> set obs \<or> newer o' acc = Some ob) \<and> (\<forall>o'\<in>set obs. fst o' \<le> fst ob)
      \<and> (\<forall>o''. newer o' acc = Some o'' \<longrightarrow> fst o'' \<le> fst ob)" by simp
  then show ?case unfolding newer_def o' by (auto split: option.splits if_splits)
qed simp

lemma precondition_met:
  assumes "precondition_failed entries now p = None"
  shows "\<exists>t. (t, rp_Status p) \<in> set (observations p entries) \<and> (\<forall>ob\<in>set (observations p entries). fst ob \<le> t)
    \<and> time_sub now t \<le> rp_MaxAge p"
proof -
  from assms obtain t where t: "fold newer (observations p entries) None = Some (t, rp_Status p)"
    "time_sub now t \<le> rp_MaxAge p"
    by (auto simp: precondition_failed_def observe_fold split: option.splits if_splits)
  from newest [OF t(1)] t(2) show ?thesis by auto
qed

lemma set_observations: "set m = set m' \<Longrightarrow> set (observations p m) = set (observations p m')"
  by (simp add: observations_def)

lemma run_strategies_calls:
  "run_strategies exec source c j strats r = (ok, calls, r') \<Longrightarrow>
     calls = map (\<lambda>s. (mr_Strategy s, strategy_problem source c s)) (take (length calls) strats)
     \<and> (strats \<noteq> [] \<longrightarrow> calls \<noteq> [])"
proof (induction strats arbitrary: j r ok calls r')
  case (Cons s ss)
  obtain e r1 where e: "exec j (mr_Strategy s) (strategy_problem source c s) r = (e, r1)" by fastforce
  obtain ok' calls' r2 where rest: "run_strategies exec source c (j + 1) ss r1 = (ok', calls', r2)" by (metis prod_cases3)
  show ?case using Cons.prems Cons.IH [OF rest] e rest by (cases e) (auto simp: Let_def)
qed simp

text \<open>
  The strategies of a dispatch are tried in order until the first success: there are the answers \<open>es\<close> of the executor, each given
  in the registry that the call before it left, such that every call but the last failed, the dispatch succeeded exactly when the last call
  did, and a dispatch that failed has tried every strategy.\<close>

definition tried_until_success ::
  "(nat \<Rightarrow> string \<Rightarrow> problem \<Rightarrow> 'r \<Rightarrow> string option \<times> 'r) \<Rightarrow> MonitorRemediationConfig list \<Rightarrow> (string \<times> problem) list \<Rightarrow> bool \<Rightarrow> bool" where
  "tried_until_success exec strats calls ok \<longleftrightarrow>
     (\<exists>rs es. length rs = Suc (length calls) \<and> length es = length calls
        \<and> (\<forall>k<length calls. exec k (fst (calls ! k)) (snd (calls ! k)) (rs ! k) = (es ! k, rs ! Suc k))
        \<and> None \<notin> set (butlast es) \<and> (ok \<longleftrightarrow> es \<noteq> [] \<and> last es = None) \<and> (\<not> ok \<longrightarrow> length calls = length strats))"

lemma run_strategies_tries:
  "run_strategies exec source c j strats r = (ok, calls, r') \<Longrightarrow>
     \<exists>rs es. length rs = Suc (length calls) \<and> length es = length calls \<and> rs ! 0 = r
       \<and> (\<forall>k<length calls. exec (j + k) (fst (calls ! k)) (snd (calls ! k)) (rs ! k) = (es ! k, rs ! Suc k))
       \<and> None \<notin> set (butlast es) \<and> (ok \<longleftrightarrow> es \<noteq> [] \<and> last es = None) \<and> (\<not> ok \<longrightarrow> length calls = length strats)"
proof (induction strats arbitrary: j r ok calls r')
  case Nil
  then show ?case by (intro exI [of _ "[r]"] exI [of _ "[]"]) auto
next
  case (Cons s ss)
  let ?p = "strategy_problem source c s"
  obtain e r1 where e: "exec j (mr_Strategy s) ?p r = (e, r1)" by fastforce
  obtain ok' calls' r2 where rest: "run_strategies exec source c (j + 1) ss r1 = (ok', calls', r2)" by (metis prod_cases3)
  show ?case
  proof (cases e)
    case None
    with Cons.prems e have "ok \<and> calls = [(mr_Strategy s, ?p)] \<and> r' = r1" by (simp add: Let_def)
    with e None show ?thesis by (intro exI [of _ "[r, r1]"] exI [of _ "[None]"]) simp
  next
    case (Some m)
    with Cons.prems e rest have eqs: "ok = ok'" "calls = (mr_Strategy s, ?p) # calls'" by (auto simp: Let_def)
    from Cons.IH [OF rest] obtain rs es where
      tail: "length rs = Suc (length calls')" "length es = length calls'" "rs ! 0 = r1"
        "\<forall>k<length calls'. exec (j + 1 + k) (fst (calls' ! k)) (snd (calls' ! k)) (rs ! k) = (es ! k, rs ! Suc k)"
        "None \<notin> set (butlast es)" "ok' \<longleftrightarrow> es \<noteq> [] \<and> last es = None" "\<not> ok' \<longrightarrow> length calls' = length ss" by blast
    have "\<forall>k<length calls. exec (j + k) (fst (calls ! k)) (snd (calls ! k)) ((r # rs) ! k) = ((e # es) ! k, (r # rs) ! Suc k)"
      using e tail(3,4) by (simp add: eqs(2) All_less_Suc2)
    with tail Some eqs show ?thesis by (intro exI [of _ "r # rs"] exI [of _ "e # es"]) simp
  qed
qed

lemma run_strategies_until_success:
  "run_strategies exec source c 0 strats r = (ok, calls, r') \<Longrightarrow> tried_until_success exec strats calls ok"
  unfolding tried_until_success_def by (drule run_strategies_tries) auto

lemma admitted_preconditions:
  "fst (admitRemediation iter ls now key remCfg incs) = Admitted \<Longrightarrow>
     \<forall>p\<in>set (mr_Preconditions remCfg). precondition_failed (iter ls) now p = None"
  by (auto simp: admitRemediation_def failedPrecondition_def Let_def all_passed_None split: if_splits option.splits)

definition authorised ::
  "('x, 'r) detect_env \<Rightarrow> (string, status) gomap \<Rightarrow> string \<Rightarrow> MonitorRemediationConfig \<Rightarrow> MonitorRemediationConfig list \<Rightarrow>
   nat \<times> condition \<Rightarrow> dispatch \<Rightarrow> bool" where
  "authorised v ls source remCfg strats ic d \<longleftrightarrow> (let c = snd ic in
     fst (isRemediationTrigger remCfg c) \<and> dp_key d = incident_key source c
     \<and> dp_calls d = map (\<lambda>s. (mr_Strategy s, strategy_problem source c s)) (take (length (dp_calls d)) strats)
     \<and> (strats \<noteq> [] \<longrightarrow> dp_calls d \<noteq> [])
     \<and> tried_until_success (dv_exec v (fst ic)) strats (dp_calls d) (dp_ok d)
     \<and> (\<forall>p\<in>set (mr_Preconditions remCfg). precondition_failed (dv_iter v ls) (dp_time d) p = None))"

lemma evaluate_condition_authorised:
  assumes "pd_remediatorRegistry pd \<noteq> None"
    "d \<in> set (fst (evaluate_condition v source remCfg strats ic (ds, pd)))"
  shows "d \<in> set ds \<or> authorised v (pd_lastStatus pd) source remCfg strats ic d"
proof (cases rule: evaluate_condition_cases [OF assms(1) refl refl refl, where v = v and source = source
      and remCfg = remCfg and strats = strats and ic = ic and ds = ds])
  case (3 a)
  with assms(2) show ?thesis
    using admitted_preconditions [of "dv_iter v" "pd_lastStatus pd"] run_strategies_calls run_strategies_until_success
    by (fastforce simp: authorised_def Let_def)
qed (use assms(2) in auto)

lemma evaluate_fold_authorised:
  "pd_remediatorRegistry pd \<noteq> None \<Longrightarrow>
   d \<in> set (fst (fold (evaluate_condition v source remCfg strats) ics (ds, pd))) \<Longrightarrow>
   d \<in> set ds \<or> (\<exists>ic\<in>set ics. authorised v (pd_lastStatus pd) source remCfg strats ic d)"
proof (induction ics arbitrary: ds pd)
  case (Cons ic ics)
  obtain ds1 pd1 where e: "evaluate_condition v source remCfg strats ic (ds, pd) = (ds1, pd1)" by fastforce
  then have frame: "pd_remediatorRegistry pd1 \<noteq> None" "pd_lastStatus pd1 = pd_lastStatus pd"
    using evaluate_condition_frame [OF Cons.prems(1), of v source remCfg strats ic ds] Cons.prems(1)
    by (simp_all add: policy_frame_def)
  with Cons.IH [of pd1 ds1] Cons.prems evaluate_condition_authorised [OF Cons.prems(1), of d v source remCfg strats ic ds] e
  show ?case by auto
qed simp

lemma evaluateRemediation_authorised:
  assumes "d \<in> set (fst (evaluateRemediation v st pd))"
  shows "rmc_Enabled (ndc_Remediation (pd_config pd)) \<and> (\<exists>m r ic. map_of (pd_monitorConfigIndex pd) (st_Source st) = Some m
    \<and> mc_Remediation m = Some r \<and> mr_Enabled r \<and> ic \<in> set (enumerate 0 (st_Conditions st)) \<and> buildStrategyList (Some r) \<noteq> []
    \<and> authorised v (pd_lastStatus pd) (st_Source st) r (buildStrategyList (Some r)) ic d)"
proof (cases rule: evaluateRemediation_cases [of v st pd])
  case 1
  with assms show ?thesis by simp
next
  case (2 m r)
  then have "buildStrategyList (Some r) \<noteq> []"
    using assms by (auto simp: evaluateRemediation_def)
  moreover obtain ic where ic: "ic \<in> set (enumerate 0 (st_Conditions st))"
    "authorised v (pd_lastStatus pd) (st_Source st) r (buildStrategyList (Some r)) ic d"
    using evaluate_fold_authorised [OF 2(3), of d v "st_Source st" r "buildStrategyList (Some r)"
        "enumerate 0 (st_Conditions st)" "[]"] 2(6) assms by auto
  ultimately show ?thesis using 2 by blast
qed

text \<open>A blocked status: its only condition is in no policy's problem state.\<close>

lemma isMonitorBlocked_iff:
  "isMonitorBlocked name pd \<noteq> None \<longleftrightarrow> (\<exists>m dep dst. map_of (pd_monitorConfigIndex pd) name = Some m
     \<and> dep \<in> set (mc_DependsOn m) \<and> map_of (pd_lastStatus pd) dep = Some dst \<and> blocks_dependents dst)"
  by (cases "map_of (pd_monitorConfigIndex pd) name")
    (auto simp: isMonitorBlocked_def find_None_iff split: option.splits)

lemma isMonitorBlocked_dependency:
  "isMonitorBlocked name pd = Some dep \<Longrightarrow> map_of (pd_monitorConfigIndex pd) name = Some m \<Longrightarrow> dep \<in> set (mc_DependsOn m)"
  by (auto simp: isMonitorBlocked_def find_Some_iff)

lemma synth_blocks: "blocks_dependents (synthBlockedStatus t0 t1 name dep)"
  by (simp add: blocks_dependents_def synthBlockedStatus_def AddCondition_def NewStatus_def NewCondition_def)

lemma evaluate_blocked:
  "fst (evaluateRemediation v (synthBlockedStatus t0 t1 name dep) pd) = []
   \<and> pd_remediatorRegistry (snd (evaluateRemediation v (synthBlockedStatus t0 t1 name dep) pd)) = pd_remediatorRegistry pd
   \<and> pd_exporters (snd (evaluateRemediation v (synthBlockedStatus t0 t1 name dep) pd)) = pd_exporters pd"
  by (cases rule: evaluateRemediation_cases [of v "synthBlockedStatus t0 t1 name dep" pd])
    (simp_all add: evaluate_condition_def isRemediationTrigger_def Let_def synthBlockedStatus_def AddCondition_def
      NewStatus_def NewCondition_def severity_defs)

section \<open>Properties\<close>

text \<open>
  C15. The dispatch policy of the detector. For a condition of a monitor, whatever statuses of
  whatever monitors are processed, on a clock that does not run backwards: two dispatches for the
  condition are at least the configured cooldown apart, also across incidents, and as long as the
  condition does not leave its problem state no more remediations are dispatched than
  \<^verbatim>\<open>maxAttemptsPerIncident\<close> allows beyond those already counted. Failed and panicking remediations
  count; names with a slash are excluded, since they could share an incident.\<close>

theorem dispatch_policy_is_kept:
  assumes "map_of (pd_monitorConfigIndex pd) src = Some m" "mc_Remediation m = Some remCfg"
    "mr_Cooldown remCfg \<le> max_int64" "ty \<noteq> ''MonitorBlocked''"
    "CHR ''/'' \<notin> set src" "\<forall>(v, st)\<in>set run. CHR ''/'' \<notin> set (st_Source st)"
    "sorted (concat (map (\<lambda>(v, st). readings v st) run))"
    "\<forall>t\<in>set (concat (map (\<lambda>(v, st). readings v st) run)). t \<noteq> 0
       \<and> (\<forall>inc. map_of (pd_incidents pd) (src @ ''/'' @ ty) = Some inc \<longrightarrow> in_lastAttempt inc \<le> t)"
  shows "let ts = times_of (src @ ''/'' @ ty) (fst (processStatuses run pd)) in
    (0 < mr_Cooldown remCfg \<longrightarrow> sorted_wrt (\<lambda>a b. a + mr_Cooldown remCfg \<le> b) ts)
    \<and> (0 < mr_MaxAttemptsPerIncident remCfg
        \<and> (\<forall>(v, st)\<in>set run. st_Source st = src \<longrightarrow>
             (\<forall>c\<in>set (st_Conditions st). cond_Type c = ty \<longrightarrow> fst (isRemediationTrigger remCfg c)))
       \<longrightarrow> int (length ts) \<le> max 0 (mr_MaxAttemptsPerIncident remCfg
             - in_attempts (gomap_get zero_incident (pd_incidents pd) (src @ ''/'' @ ty))))"
proof -
  let ?key = "src @ ''/'' @ ty" and ?rs = "concat (map (\<lambda>(v, st). readings v st) run)"
  let ?s = "map_of (pd_incidents pd) ?key"
  let ?run = "\<lambda>qs. guarded_run (policy_can ?key remCfg) (policy_step ?key remCfg) (policy_step ?key remCfg) qs ?s"
  let ?cs = "concat (map (\<lambda>(v, st). if st_Source st = src then filter (\<lambda>c. cond_Type c = ty) (st_Conditions st) else []) run)"
  obtain qs where ts: "times_of ?key (fst (processStatuses run pd)) = map (\<lambda>q. fst (snd q)) (fst (?run qs))"
    and sub: "subseq (map (\<lambda>q. fst (snd q)) qs) ?rs"
    and ends: "\<forall>q\<in>set qs. fst q \<longrightarrow> (\<exists>c\<in>set ?cs. \<not> fst (isRemediationTrigger remCfg c))"
    using processStatuses_follows [OF assms(2,5) refl assms(4) assms(1,6)]
    unfolding dispatches_as_def follows_def Let_def by blast
  have no_end: "\<forall>q\<in>set qs. \<not> fst q" if "\<forall>(v, st)\<in>set run. st_Source st = src \<longrightarrow>
      (\<forall>c\<in>set (st_Conditions st). cond_Type c = ty \<longrightarrow> fst (isRemediationTrigger remCfg c))"
  proof -
    have "\<forall>c\<in>set ?cs. fst (isRemediationTrigger remCfg c)" using that by auto
    with ends show ?thesis by blast
  qed
  have rs: "\<forall>q\<in>set qs. fst (snd q) \<in> set ?rs" 
    using subseq_subset [OF sub] unfolding set_map [of _ qs] image_subset_iff .
  have "sorted_wrt (\<lambda>a b. fst (snd a) + mr_Cooldown remCfg \<le> fst (snd b)) (fst (?run qs))" if "0 < mr_Cooldown remCfg"
  proof (rule incident_policy.run_spaced [OF assms(3) that sorted_subseq [OF sub assms(7)]])
    show "\<forall>q\<in>set qs. fst (snd q) \<noteq> 0" using rs assms(8) by blast
    show "\<forall>u. last_attempt_of ?s = Some u \<longrightarrow> (\<forall>q\<in>set qs. u \<le> fst (snd q))"
      using rs assms(8) by (cases ?s) (simp_all add: last_attempt_of_def del: set_concat)
  qed
  moreover have "int (length (fst (?run qs))) \<le> max 0 (mr_MaxAttemptsPerIncident remCfg - attempts_of ?s)"
    if "0 < mr_MaxAttemptsPerIncident remCfg" "\<forall>q\<in>set qs. \<not> fst q"
    using incident_policy.run_bounded [OF assms(3)] that by simp
  moreover have "attempts_of ?s = in_attempts (gomap_get zero_incident (pd_incidents pd) ?key)"
    by (simp add: attempts_of_def gomap_get_def zero_incident_def split: option.split)
  ultimately show ?thesis
    unfolding ts Let_def sorted_wrt_map length_map using no_end by (intro conjI impI) simp_all
qed

text \<open>
  C16. A remediation is dispatched only with every authorisation the configuration asks for, and tries its strategies in order until the first
  success: global remediation is enabled, the monitor is indexed with an enabled remediation policy and is not blocked
  by a dependency, the status holds a condition in its problem state, the calls are the configured
  strategies in order, each call but the last failed, the dispatch counts as a success exactly when the last call succeeded, and when
  none did every strategy has been tried; and every precondition is met by the newest observation of its condition, no
  older than allowed at the time of the dispatch.\<close>

theorem dispatch_is_authorised:
  assumes "processStatus v st pd = (ds, reports, pd')" "d \<in> set ds" "\<forall>m. set (dv_iter v m) = set m"
  shows "rmc_Enabled (ndc_Remediation (pd_config pd)) \<and> isMonitorBlocked (st_Source st) pd = None
    \<and> (\<exists>m remCfg i c. map_of (pd_monitorConfigIndex pd) (st_Source st) = Some m \<and> mc_Remediation m = Some remCfg
      \<and> mr_Enabled remCfg \<and> i < length (st_Conditions st) \<and> c = st_Conditions st ! i \<and> fst (isRemediationTrigger remCfg c)
      \<and> dp_key d = incident_key (st_Source st) c \<and> dp_calls d \<noteq> []
      \<and> dp_calls d = map (\<lambda>s. (mr_Strategy s, strategy_problem (st_Source st) c s))
          (take (length (dp_calls d)) (buildStrategyList (Some remCfg)))
      \<and> tried_until_success (dv_exec v i) (buildStrategyList (Some remCfg)) (dp_calls d) (dp_ok d)
      \<and> (\<forall>p\<in>set (mr_Preconditions remCfg). \<exists>t. (t, rp_Status p) \<in> set (observations p (pd_lastStatus pd'))
          \<and> (\<forall>ob\<in>set (observations p (pd_lastStatus pd')). fst ob \<le> t) \<and> time_sub (dp_time d) t \<le> rp_MaxAge p))"
proof -
  let ?st = "effective_status v st pd"
  obtain pd1 where ev: "evaluateRemediation v ?st pd1 = (ds, pd')" "pd_config pd1 = pd_config pd"
    "pd_monitorConfigIndex pd1 = pd_monitorConfigIndex pd" by (rule processStatus_evaluates [OF assms(1)]) blast
  have ls: "pd_lastStatus pd1 = pd_lastStatus pd'"
    using evaluateRemediation_frame [of v ?st pd1] ev by (simp add: policy_frame_def)
  obtain m r i c where d: "rmc_Enabled (ndc_Remediation (pd_config pd))"
    "map_of (pd_monitorConfigIndex pd) (st_Source st) = Some m" "mc_Remediation m = Some r" "mr_Enabled r"
    "i < length (st_Conditions ?st)" "c = st_Conditions ?st ! i" "buildStrategyList (Some r) \<noteq> []"
    "authorised v (pd_lastStatus pd') (st_Source st) r (buildStrategyList (Some r)) (i, c) d"
    using evaluateRemediation_authorised [of d v ?st pd1] ev assms(2) ls effective_status_conditions(1) [of v st pd]
    by (auto simp: in_set_enumerate_eq)
  then have "c \<in> set (st_Conditions ?st)" by simp
  then have clear: "?st = st" "isMonitorBlocked (st_Source st) pd = None"
    using d(8) effective_status_conditions(2) [of v st pd]
    by (auto simp: authorised_def isRemediationTrigger_def NewCondition_def severity_defs effective_status_def
        synthBlockedStatus_def AddCondition_def NewStatus_def split: if_splits option.splits)
  have "\<exists>t. (t, rp_Status p) \<in> set (observations p (pd_lastStatus pd'))
      \<and> (\<forall>ob\<in>set (observations p (pd_lastStatus pd')). fst ob \<le> t) \<and> time_sub (dp_time d) t \<le> rp_MaxAge p"
    if "p \<in> set (mr_Preconditions r)" for p
  proof -
    have "precondition_failed (dv_iter v (pd_lastStatus pd')) (dp_time d) p = None"
      using d(8) that by (simp add: authorised_def Let_def)
    from precondition_met [OF this] show ?thesis unfolding set_observations [OF assms(3) [rule_format]] .
  qed
  moreover have "fst (isRemediationTrigger r c) \<and> dp_key d = incident_key (st_Source st) c \<and> dp_calls d \<noteq> []
      \<and> dp_calls d = map (\<lambda>s. (mr_Strategy s, strategy_problem (st_Source st) c s)) (take (length (dp_calls d)) (buildStrategyList (Some r)))
      \<and> tried_until_success (dv_exec v i) (buildStrategyList (Some r)) (dp_calls d) (dp_ok d)"
    using d(7,8) by (simp add: authorised_def Let_def)
  ultimately show ?thesis using d(1-6) unfolding clear by blast
qed

text \<open>
  C17. A monitor with an unhealthy or blocked dependency is blocked: its status is replaced by a
  blocked one that names a dependency, which is what every exporter receives, nothing is remediated,
  and every monitor that depends on it is blocked from then on, so that blocking passes on along a
  chain of dependencies.\<close>

theorem blocking_is_transitive:
  assumes "map_of (pd_monitorConfigIndex pd) (st_Source st) = Some m" "dep \<in> set (mc_DependsOn m)"
    "map_of (pd_lastStatus pd) dep = Some dst" "blocks_dependents dst" "processStatus v st pd = (ds, reports, pd')"
  shows "ds = [] \<and> pd_remediatorRegistry pd' = pd_remediatorRegistry pd
    \<and> (\<exists>by\<in>set (mc_DependsOn m). let st' = synthBlockedStatus (dv_ck v 0) (dv_ck v 1) (st_Source st) by in
         map_of (pd_lastStatus pd') (st_Source st) = Some st'
         \<and> pd_exporters pd' = snd (export_all (dv_export v) (dv_typeName v) st' 0 (pd_exporters pd)))
    \<and> (\<forall>n m'. map_of (pd_monitorConfigIndex pd) n = Some m' \<and> st_Source st \<in> set (mc_DependsOn m')
         \<longrightarrow> isMonitorBlocked n pd' \<noteq> None)"
proof -
  have "isMonitorBlocked (st_Source st) pd \<noteq> None" using assms(1-4) isMonitorBlocked_iff by blast
  then obtain b where b: "isMonitorBlocked (st_Source st) pd = Some b" by blast
  let ?st = "synthBlockedStatus (dv_ck v 0) (dv_ck v 1) (st_Source st) b"
  let ?rep = "export_all (dv_export v) (dv_typeName v) ?st 0 (pd_exporters pd)"
  let ?pd = "pd\<lparr>pd_lastStatus := AList.update (st_Source ?st) ?st (pd_lastStatus pd), pd_exporters := snd ?rep,
      pd_stats := fold count_export (fst ?rep) (IncrementStatusesReceived (pd_stats pd))\<rparr>"
  have src: "st_Source ?st = st_Source st" by (simp add: synthBlockedStatus_def AddCondition_def NewStatus_def)
  have p: "ds = fst (evaluateRemediation v ?st ?pd)" "pd' = snd (evaluateRemediation v ?st ?pd)"
    using assms(5) b by (auto simp: processStatus_eq effective_status_def Let_def)
  then have frame: "pd_lastStatus pd' = pd_lastStatus ?pd" "pd_monitorConfigIndex pd' = pd_monitorConfigIndex pd"
    using evaluateRemediation_frame [of v ?st ?pd] by (simp_all add: policy_frame_def)
  have st': "map_of (pd_lastStatus pd') (st_Source st) = Some ?st" using frame src by simp
  then have "isMonitorBlocked n pd' \<noteq> None"
    if "map_of (pd_monitorConfigIndex pd) n = Some m'" "st_Source st \<in> set (mc_DependsOn m')" for n m'
    using that frame(2) synth_blocks isMonitorBlocked_iff by metis
  moreover have "b \<in> set (mc_DependsOn m)" by (rule isMonitorBlocked_dependency [OF b assms(1)])
  moreover have "pd_exporters pd' = snd ?rep" "ds = []" "pd_remediatorRegistry pd' = pd_remediatorRegistry pd"
    using evaluate_blocked [of v "dv_ck v 0" "dv_ck v 1" "st_Source st" b ?pd] p by simp_all
  ultimately show ?thesis using st' by (auto simp: Let_def)
qed

section \<open>Witnesses\<close>

definition demo_config :: NodeDoctorConfig where
  "demo_config = (default_config_literal ''n1'')\<lparr>ndc_Remediation := zero_RemediationConfig\<lparr>rmc_Enabled := True\<rparr>\<rparr>"

definition demo_policy :: MonitorRemediationConfig where
  "demo_policy = MonitorRemediationConfig True ''systemd-restart'' [] ''kubelet'' [] [] [] [] False [] 1 [] (5 * minute) []"

definition demo_a :: MonitorConfig where
  "demo_a = (demo_monitor ''a'' [])\<lparr>mc_Remediation := Some demo_policy\<rparr>"

definition demo_detector :: "(unit, unit, unit) ProblemDetector" where
  "demo_detector = \<lparr>pd_config = demo_config, pd_monitorHandles = [], pd_exporters = [()], pd_statusChan = [],
     pd_stats = NewStatistics 1, pd_configFilePath = ''/c'', pd_started = True, pd_passedMonitors = [],
     pd_remediatorRegistry = Some (),
     pd_monitorConfigIndex = [(''a'', demo_a), (''b'', demo_monitor ''b'' [''a''])],
     pd_incidents = [], pd_lastStatus = [], pd_dependents = [], pd_loggingReinit = False, pd_logging = [],
     pd_dependencyReporter = True\<rparr>"

definition demo_detect_env :: "time \<Rightarrow> (unit, unit) detect_env" where
  "demo_detect_env t = \<lparr>dv_ck = \<lambda>_. t, dv_iter = \<lambda>m. m, dv_export = \<lambda>_ _ x. (None, x),
     dv_typeName = \<lambda>_. ''HTTPExporter'', dv_exec = \<lambda>_ _ _ _ r. (Some ''failed'', r)\<rparr>"

definition demo_status :: "string \<Rightarrow> string \<Rightarrow> status" where
  "demo_status name s = AddCondition (NewCondition 5 ''Ready'' s ''r'' ''m'') (NewStatus 5 name)"

definition demo_run :: "((unit, unit) detect_env \<times> status) list" where
  "demo_run = [(demo_detect_env 10, demo_status ''a'' ''False''), (demo_detect_env (10 + hour), demo_status ''a'' ''False'')]"

lemma demo_run_results:
  "times_of ''a/Ready'' (fst (processStatuses demo_run demo_detector)) = [10]"
  "map dp_key (fst (processStatus (demo_detect_env 10) (demo_status ''a'' ''False'') demo_detector)) = [''a/Ready'']"
  "sorted (concat (map (\<lambda>(v, st). readings v st) demo_run))"
  "list_all (\<lambda>t. t \<noteq> 0) (concat (map (\<lambda>(v, st). readings v st) demo_run))"
  by code_simp+

lemma demo_detector_simps:
  "map_of (pd_monitorConfigIndex demo_detector) ''a'' = Some demo_a"
  "map_of (pd_monitorConfigIndex demo_detector) ''b'' = Some (demo_monitor ''b'' [''a''])"
  "mc_Remediation demo_a = Some demo_policy" "pd_incidents demo_detector = []"
  "mr_Cooldown demo_policy = 5 * minute" "mr_MaxAttemptsPerIncident demo_policy = 1" "mr_Preconditions demo_policy = []"
  "mc_DependsOn (demo_monitor n ds) = ds"
  by (simp_all add: demo_detector_def demo_a_def demo_policy_def demo_monitor_def)

theorem dispatch_policy_is_kept_witness:
  "times_of ''a/Ready'' (fst (processStatuses demo_run demo_detector)) = [10]
   \<and> int (length (times_of ''a/Ready'' (fst (processStatuses demo_run demo_detector)))) \<le> 1"
proof -
  have "\<forall>(v, st)\<in>set demo_run. CHR ''/'' \<notin> set (st_Source st)"
    "\<forall>(v, st)\<in>set demo_run. st_Source st = ''a'' \<longrightarrow>
       (\<forall>c\<in>set (st_Conditions st). cond_Type c = ''Ready'' \<longrightarrow> fst (isRemediationTrigger demo_policy c))"
    by (simp_all add: demo_run_def demo_status_def AddCondition_def NewStatus_def NewCondition_def
        isRemediationTrigger_def demo_policy_def ConditionFalse_def)
  with dispatch_policy_is_kept [of demo_detector "''a''" demo_a demo_policy "''Ready''" demo_run] demo_run_results
  show ?thesis by (simp add: demo_detector_simps Let_def list_all_iff zero_incident_def)
qed

text \<open>A policy of three strategies, with an executor for which the second succeeds.\<close>

definition demo_ladder :: MonitorRemediationConfig where
  "demo_ladder = MonitorRemediationConfig True [] [] [] [] [] []
     (map (\<lambda>n. MonitorRemediationConfig False n [] ''kubelet'' [] [] [] [] False [] 0 [] 0 []) [''flush-dns'', ''systemd-restart'', ''node-reboot''])
     False [] 1 [] (5 * minute) []"

definition demo_ladder_detector :: "(unit, unit, unit) ProblemDetector" where
  "demo_ladder_detector = demo_detector\<lparr>pd_monitorConfigIndex := [(''a'', demo_a\<lparr>mc_Remediation := Some demo_ladder\<rparr>)]\<rparr>"

definition demo_ladder_env :: "(unit, unit) detect_env" where
  "demo_ladder_env = (demo_detect_env 10)\<lparr>dv_exec := \<lambda>_ j _ _ r. (if j = 1 then None else Some ''failed'', r)\<rparr>"

lemma demo_ladder_results:
  "map (\<lambda>d. (map fst (dp_calls d), dp_ok d)) (fst (processStatus demo_ladder_env (demo_status ''a'' ''False'') demo_ladder_detector))
     = [([''flush-dns'', ''systemd-restart''], True)]"
  by code_simp

theorem dispatch_is_authorised_witness:
  "\<exists>ds reports pd' d remCfg. processStatus demo_ladder_env (demo_status ''a'' ''False'') demo_ladder_detector = (ds, reports, pd')
     \<and> d \<in> set ds \<and> map fst (dp_calls d) = [''flush-dns'', ''systemd-restart''] \<and> dp_ok d
     \<and> tried_until_success (dv_exec demo_ladder_env 0) (buildStrategyList (Some remCfg)) (dp_calls d) True"
proof -
  obtain ds reports pd' where p: "processStatus demo_ladder_env (demo_status ''a'' ''False'') demo_ladder_detector = (ds, reports, pd')"
    by (metis prod_cases3)
  then have "map (\<lambda>d. (map fst (dp_calls d), dp_ok d)) ds = [([''flush-dns'', ''systemd-restart''], True)]"
    using demo_ladder_results by simp
  then obtain d where d: "d \<in> set ds" "map fst (dp_calls d) = [''flush-dns'', ''systemd-restart'']" "dp_ok d" by (cases ds) auto
  moreover have "length (st_Conditions (demo_status ''a'' ''False'')) = 1" by (simp add: demo_status_def AddCondition_def NewStatus_def)
  moreover obtain remCfg i where "i < length (st_Conditions (demo_status ''a'' ''False''))"
    "tried_until_success (dv_exec demo_ladder_env i) (buildStrategyList (Some remCfg)) (dp_calls d) (dp_ok d)"
    using dispatch_is_authorised [OF p d(1)] by (simp add: demo_ladder_env_def demo_detect_env_def) blast
  ultimately show ?thesis using p by auto
qed

theorem blocking_is_transitive_witness:
  "fst (processStatus (demo_detect_env 20) (demo_status ''b'' ''False'')
     (demo_detector\<lparr>pd_lastStatus := [(''a'', demo_status ''a'' ''False'')]\<rparr>)) = []"
proof -
  let ?pd = "demo_detector\<lparr>pd_lastStatus := [(''a'', demo_status ''a'' ''False'')]\<rparr>"
  obtain ds reports pd' where p: "processStatus (demo_detect_env 20) (demo_status ''b'' ''False'') ?pd = (ds, reports, pd')"
    by (metis prod_cases3)
  have "st_Source (demo_status ''b'' ''False'') = ''b''" "blocks_dependents (demo_status ''a'' ''False'')"
    by (simp_all add: demo_status_def AddCondition_def NewStatus_def NewCondition_def blocks_dependents_def ConditionFalse_def)
  with blocking_is_transitive [OF _ _ _ _ p, of "demo_monitor ''b'' [''a'']" "''a''" "demo_status ''a'' ''False''"] p
  show ?thesis by (simp add: demo_detector_simps)
qed

end
