(* ===== verification/Reload_Diff.thy ===== *)
theory Reload_Diff
  imports Config_Load "HOL-Library.List_Lexorder" "HOL-Library.Char_ord"
begin

text \<open>
  \<^verbatim>\<open>pkg/reload/diff.go\<close> and \<^verbatim>\<open>reloadability.go\<close>: what changed between two configurations, and which
  of the changes a running agent can adopt. \<open>iter\<close> is the order in which Go walks a map of monitors.
  \<open>sprint\<close> is \<^verbatim>\<open>fmt.Sprint\<close> on a configuration value; the text of a floating-point number and of a map
  with keys of mixed types is the parameter \<open>fmt\<close>. A reason for a restart is a value, not a text; the
  one-line summary made of them is left out.
\<close>

section \<open>Definitions\<close>

record MonitorChange =
  mch_Old :: MonitorConfig
  mch_New :: MonitorConfig

record ConfigDiff =
  df_MonitorsAdded :: "MonitorConfig list"
  df_MonitorsRemoved :: "MonitorConfig list"
  df_MonitorsModified :: "MonitorChange list"
  df_ExportersChanged :: bool
  df_RemediationChanged :: bool

definition makeMonitorMap :: "MonitorConfig list \<Rightarrow> (string, MonitorConfig) gomap" where
  "makeMonitorMap ms = fold (\<lambda>m. AList.update (mc_Name m) m) ms []"

fun sprint :: "(cfg_value \<Rightarrow> string) \<Rightarrow> cfg_value \<Rightarrow> string"
  and sprint_list :: "(cfg_value \<Rightarrow> string) \<Rightarrow> cfg_value list \<Rightarrow> string list"
  and sprint_map :: "(cfg_value \<Rightarrow> string) \<Rightarrow> (string \<times> cfg_value) list \<Rightarrow> (string \<times> string) list" where
  "sprint fmt CVNil = ''<nil>''"
| "sprint fmt (CVBool b) = (if b then ''true'' else ''false'')"
| "sprint fmt (CVInt i) = show_int i"
| "sprint fmt (CVFloat q) = fmt (CVFloat q)"
| "sprint fmt (CVString s) = s"
| "sprint fmt (CVList vs) = ''['' @ join '' '' (sprint_list fmt vs) @ '']''"
| "sprint fmt (CVMap kvs) =
     ''map['' @ join '' '' (map (\<lambda>(k, v). k @ '':'' @ v) (sort_key fst (sprint_map fmt kvs))) @ '']''"
| "sprint fmt (CVAnyMap kvs) = fmt (CVAnyMap kvs)"
| "sprint_list fmt [] = []"
| "sprint_list fmt (v # vs) = sprint fmt v # sprint_list fmt vs"
| "sprint_map fmt [] = []"
| "sprint_map fmt ((k, v) # kvs) = (k, sprint fmt v) # sprint_map fmt kvs"

definition configMapsEqual ::
  "(cfg_value \<Rightarrow> string) \<Rightarrow> (string, cfg_value) gomap \<Rightarrow> (string, cfg_value) gomap \<Rightarrow> bool" where
  "configMapsEqual fmt a b \<longleftrightarrow>
     length a = length b
     \<and> list_all (\<lambda>(k, av). case map_of b k of None \<Rightarrow> False | Some bv \<Rightarrow> sprint fmt av = sprint fmt bv) a"

definition monitorsEqual :: "(cfg_value \<Rightarrow> string) \<Rightarrow> MonitorConfig \<Rightarrow> MonitorConfig \<Rightarrow> bool" where
  "monitorsEqual fmt a b =
     (if mc_Name a \<noteq> mc_Name b \<or> mc_Type a \<noteq> mc_Type b \<or> mc_Enabled a \<noteq> mc_Enabled b
         \<or> mc_Interval a \<noteq> mc_Interval b \<or> mc_Timeout a \<noteq> mc_Timeout b then False
      else configMapsEqual fmt (mc_Config a) (mc_Config b))"

definition webhookEqual :: "WebhookEndpoint \<Rightarrow> WebhookEndpoint \<Rightarrow> bool" where
  "webhookEqual a b \<longleftrightarrow> wh_Name a = wh_Name b \<and> wh_URL a = wh_URL b
     \<and> wh_SendStatus a = wh_SendStatus b \<and> wh_SendProblems a = wh_SendProblems b"

definition exportersEqual :: "ExporterConfigs \<Rightarrow> ExporterConfigs \<Rightarrow> bool" where
  "exportersEqual a b \<longleftrightarrow>
     (case (ex_Kubernetes a, ex_Kubernetes b) of
        (None, None) \<Rightarrow> True
      | (Some x, Some y) \<Rightarrow> ke_Enabled x = ke_Enabled y \<and> ke_UpdateInterval x = ke_UpdateInterval y
      | _ \<Rightarrow> False)
     \<and> (case (ex_Prometheus a, ex_Prometheus b) of
        (None, None) \<Rightarrow> True
      | (Some x, Some y) \<Rightarrow> pe_Enabled x = pe_Enabled y \<and> pe_Port x = pe_Port y \<and> pe_Path x = pe_Path y
      | _ \<Rightarrow> False)
     \<and> (case (ex_HTTP a, ex_HTTP b) of
        (None, None) \<Rightarrow> True
      | (Some x, Some y) \<Rightarrow> he_Enabled x = he_Enabled y \<and> he_Workers x = he_Workers y \<and> he_QueueSize x = he_QueueSize y
          \<and> he_Timeout x = he_Timeout y \<and> length (he_Webhooks x) = length (he_Webhooks y)
          \<and> list_all2 webhookEqual (he_Webhooks x) (he_Webhooks y)
      | _ \<Rightarrow> False)"

definition circuitBreakerEqual :: "cfg_CircuitBreaker \<Rightarrow> cfg_CircuitBreaker \<Rightarrow> bool" where
  "circuitBreakerEqual a b \<longleftrightarrow> IsDisabled a = IsDisabled b \<and> cbc_Threshold a = cbc_Threshold b
     \<and> cbc_Timeout a = cbc_Timeout b \<and> cbc_SuccessThreshold a = cbc_SuccessThreshold b"

definition remediationEqual :: "RemediationConfig \<Rightarrow> RemediationConfig \<Rightarrow> bool" where
  "remediationEqual a b \<longleftrightarrow> rmc_Enabled a = rmc_Enabled b \<and> rmc_DryRun a = rmc_DryRun b
     \<and> rmc_MaxRemediationsPerHour a = rmc_MaxRemediationsPerHour b
     \<and> circuitBreakerEqual (rmc_CircuitBreaker a) (rmc_CircuitBreaker b)"

definition ComputeConfigDiff ::
  "(cfg_value \<Rightarrow> string) \<Rightarrow> ((string, MonitorConfig) gomap \<Rightarrow> (string, MonitorConfig) gomap) \<Rightarrow>
   NodeDoctorConfig \<Rightarrow> NodeDoctorConfig \<Rightarrow> ConfigDiff" where
  "ComputeConfigDiff fmt iter oldConfig newConfig =
     (let oldMonitors = makeMonitorMap (ndc_Monitors oldConfig);
          newMonitors = makeMonitorMap (ndc_Monitors newConfig)
      in \<lparr>df_MonitorsAdded = map snd (filter (\<lambda>(n, m). map_of oldMonitors n = None) (iter newMonitors)),
          df_MonitorsRemoved = map snd (filter (\<lambda>(n, m). map_of newMonitors n = None) (iter oldMonitors)),
          df_MonitorsModified = List.map_filter (\<lambda>(n, m). case map_of oldMonitors n of None \<Rightarrow> None
            | Some old \<Rightarrow> if monitorsEqual fmt old m then None else Some \<lparr>mch_Old = old, mch_New = m\<rparr>) (iter newMonitors),
          df_ExportersChanged = (\<not> exportersEqual (ndc_Exporters oldConfig) (ndc_Exporters newConfig)),
          df_RemediationChanged = (\<not> remediationEqual (ndc_Remediation oldConfig) (ndc_Remediation newConfig))\<rparr>)"

definition HasChanges :: "ConfigDiff \<Rightarrow> bool" where
  "HasChanges d \<longleftrightarrow> df_MonitorsAdded d \<noteq> [] \<or> df_MonitorsRemoved d \<noteq> [] \<or> df_MonitorsModified d \<noteq> []
     \<or> df_ExportersChanged d \<or> df_RemediationChanged d"

subsection \<open>Reloadability\<close>

datatype restart_reason =
    NodeNameChanged string string
  | LogOutputChanged string string
  | LogFileChanged string string
  | EnableProfilingChanged bool bool
  | ProfilingPortChanged int int
  | ExporterNewlyEnabled string
  | RemediationNewlyEnabled
  | CoordinationEnabledChanged bool bool
  | ControllerURLChanged string string

record Reloadability =
  ra_MonitorsAdded :: "string list"
  ra_MonitorsRemoved :: "string list"
  ra_MonitorsModified :: "string list"
  ra_ExportersReconfigured :: bool
  ra_RemediationReconfigured :: bool
  ra_RestartRequired :: "restart_reason list"

definition exporterEnabled :: "('a \<Rightarrow> bool) \<Rightarrow> 'a option \<Rightarrow> bool" where
  "exporterEnabled enabled x = (case x of None \<Rightarrow> False | Some e \<Rightarrow> enabled e)"

definition classifyExporterEnable :: "NodeDoctorConfig \<Rightarrow> NodeDoctorConfig \<Rightarrow> restart_reason list" where
  "classifyExporterEnable old new =
     (let o' = ndc_Exporters old; n = ndc_Exporters new;
          exps = [(''exporters.kubernetes'', exporterEnabled ke_Enabled (ex_Kubernetes o'), exporterEnabled ke_Enabled (ex_Kubernetes n)),
                  (''exporters.http'', exporterEnabled he_Enabled (ex_HTTP o'), exporterEnabled he_Enabled (ex_HTTP n)),
                  (''exporters.prometheus'', exporterEnabled pe_Enabled (ex_Prometheus o'), exporterEnabled pe_Enabled (ex_Prometheus n))]
      in map (\<lambda>(name, _, _). ExporterNewlyEnabled name) (filter (\<lambda>(name, was, will). \<not> was \<and> will) exps))"

definition classifyCoordination :: "NodeDoctorConfig \<Rightarrow> NodeDoctorConfig \<Rightarrow> restart_reason list" where
  "classifyCoordination old new =
     (let o' = rmc_Coordination (ndc_Remediation old); n = rmc_Coordination (ndc_Remediation new);
          was = exporterEnabled rcc_Enabled o'; will = exporterEnabled rcc_Enabled n
      in if was \<noteq> will then [CoordinationEnabledChanged was will]
         else case (o', n) of
             (Some a, Some b) \<Rightarrow>
               if was \<and> will \<and> rcc_ControllerURL a \<noteq> rcc_ControllerURL b
                 then [ControllerURLChanged (rcc_ControllerURL a) (rcc_ControllerURL b)] else []
           | _ \<Rightarrow> [])"

definition ClassifyReload :: "NodeDoctorConfig \<Rightarrow> NodeDoctorConfig \<Rightarrow> ConfigDiff \<Rightarrow> Reloadability" where
  "ClassifyReload old new d =
     (let os = ndc_Settings old; ns = ndc_Settings new; off = ndc_Features old; nf = ndc_Features new
      in \<lparr>ra_MonitorsAdded = sort (map mc_Name (df_MonitorsAdded d)),
          ra_MonitorsRemoved = sort (map mc_Name (df_MonitorsRemoved d)),
          ra_MonitorsModified = sort (map (\<lambda>c. mc_Name (mch_New c)) (df_MonitorsModified d)),
          ra_ExportersReconfigured = df_ExportersChanged d,
          ra_RemediationReconfigured = df_RemediationChanged d,
          ra_RestartRequired =
            (if gs_NodeName os \<noteq> gs_NodeName ns then [NodeNameChanged (gs_NodeName os) (gs_NodeName ns)] else [])
            @ (if gs_LogOutput os \<noteq> gs_LogOutput ns then [LogOutputChanged (gs_LogOutput os) (gs_LogOutput ns)] else [])
            @ (if gs_LogFile os \<noteq> gs_LogFile ns then [LogFileChanged (gs_LogFile os) (gs_LogFile ns)] else [])
            @ (if ff_EnableProfiling off \<noteq> ff_EnableProfiling nf
                then [EnableProfilingChanged (ff_EnableProfiling off) (ff_EnableProfiling nf)] else [])
            @ (if ff_EnableProfiling nf \<and> ff_ProfilingPort off \<noteq> ff_ProfilingPort nf
                then [ProfilingPortChanged (ff_ProfilingPort off) (ff_ProfilingPort nf)] else [])
            @ classifyExporterEnable old new
            @ (if \<not> rmc_Enabled (ndc_Remediation old) \<and> rmc_Enabled (ndc_Remediation new) then [RemediationNewlyEnabled] else [])
            @ classifyCoordination old new\<rparr>)"

definition HasRestartRequired :: "Reloadability \<Rightarrow> bool" where
  "HasRestartRequired r \<longleftrightarrow> ra_RestartRequired r \<noteq> []"

definition HasHotChanges :: "Reloadability \<Rightarrow> bool" where
  "HasHotChanges r \<longleftrightarrow> ra_MonitorsAdded r \<noteq> [] \<or> ra_MonitorsRemoved r \<noteq> [] \<or> ra_MonitorsModified r \<noteq> []
     \<or> ra_ExportersReconfigured r \<or> ra_RemediationReconfigured r"

section \<open>The difference is exact\<close>

lemma map_of_makeMonitorMap:
  "distinct (map mc_Name ms) \<Longrightarrow> map_of (makeMonitorMap ms) n = Some m \<longleftrightarrow> m \<in> set ms \<and> mc_Name m = n"
  by (auto simp: makeMonitorMap_def map_of_fold_update map_of_map_distinct)

lemma gomap_ok_makeMonitorMap: "gomap_ok (makeMonitorMap ms)"
proof -
  have "gomap_ok m \<Longrightarrow> gomap_ok (fold (\<lambda>x. AList.update (mc_Name x) x) ms m)" for m
    by (induction ms arbitrary: m) simp_all
  then show ?thesis by (simp add: makeMonitorMap_def)
qed

lemma set_makeMonitorMap:
  "distinct (map mc_Name ms) \<Longrightarrow> set (makeMonitorMap ms) = (\<lambda>m. (mc_Name m, m)) ` set ms"
  using map_of_makeMonitorMap [of ms] map_of_eq_Some_iff [OF gomap_ok_makeMonitorMap, of ms] by (auto simp: image_iff)

lemma makeMonitorMap_None:
  "distinct (map mc_Name ms) \<Longrightarrow> map_of (makeMonitorMap ms) n = None \<longleftrightarrow> n \<notin> mc_Name ` set ms"
  by (simp add: map_of_eq_None_iff set_makeMonitorMap image_image)

lemma in_set_map_filter: "c \<in> set (List.map_filter f xs) \<longleftrightarrow> (\<exists>x\<in>set xs. f x = Some c)"
  by (force simp: List.map_filter_def)

lemma case_changed_iff:
  "(case z of None \<Rightarrow> None | Some a \<Rightarrow> if P a then None else Some (F a)) = Some c \<longleftrightarrow> (\<exists>a. z = Some a \<and> \<not> P a \<and> c = F a)"
  by (cases z) auto

lemma diff_sets:
  assumes "distinct (map mc_Name (ndc_Monitors old))" "distinct (map mc_Name (ndc_Monitors new))" "\<forall>m. set (iter m) = set m"
  shows "set (df_MonitorsAdded (ComputeConfigDiff fmt iter old new))
      = {m \<in> set (ndc_Monitors new). mc_Name m \<notin> mc_Name ` set (ndc_Monitors old)}"
    "set (df_MonitorsRemoved (ComputeConfigDiff fmt iter old new))
      = {m \<in> set (ndc_Monitors old). mc_Name m \<notin> mc_Name ` set (ndc_Monitors new)}"
    "set (df_MonitorsModified (ComputeConfigDiff fmt iter old new))
      = {\<lparr>mch_Old = a, mch_New = b\<rparr> |a b. a \<in> set (ndc_Monitors old) \<and> b \<in> set (ndc_Monitors new)
          \<and> mc_Name a = mc_Name b \<and> \<not> monitorsEqual fmt a b}"
proof -
  note sets = set_makeMonitorMap [OF assms(1)] set_makeMonitorMap [OF assms(2)]
    makeMonitorMap_None [OF assms(1)] makeMonitorMap_None [OF assms(2)] assms(3)
  show "set (df_MonitorsAdded (ComputeConfigDiff fmt iter old new))
      = {m \<in> set (ndc_Monitors new). mc_Name m \<notin> mc_Name ` set (ndc_Monitors old)}"
    "set (df_MonitorsRemoved (ComputeConfigDiff fmt iter old new))
      = {m \<in> set (ndc_Monitors old). mc_Name m \<notin> mc_Name ` set (ndc_Monitors new)}"
    by (force simp: ComputeConfigDiff_def Let_def sets)+
  show "set (df_MonitorsModified (ComputeConfigDiff fmt iter old new))
      = {\<lparr>mch_Old = a, mch_New = b\<rparr> |a b. a \<in> set (ndc_Monitors old) \<and> b \<in> set (ndc_Monitors new)
          \<and> mc_Name a = mc_Name b \<and> \<not> monitorsEqual fmt a b}"
    (is "?L = ?R")
  proof (rule set_eqI)
    fix c
    have "c \<in> ?L \<longleftrightarrow> (\<exists>b\<in>set (ndc_Monitors new). \<exists>a. map_of (makeMonitorMap (ndc_Monitors old)) (mc_Name b) = Some a
        \<and> \<not> monitorsEqual fmt a b \<and> c = \<lparr>mch_Old = a, mch_New = b\<rparr>)"
      by (simp add: ComputeConfigDiff_def Let_def in_set_map_filter assms(3) sets(2) case_changed_iff)
    then show "c \<in> ?L \<longleftrightarrow> c \<in> ?R" unfolding map_of_makeMonitorMap [OF assms(1)] by blast
  qed
qed

section \<open>Properties\<close>

text \<open>
  The difference of two configurations is exact. For configurations with distinct monitor names
  the three lists are exactly the monitors only in the new one, those only in the old one, and the
  pairs of the same name that the code's comparison tells apart, in whatever order the maps are
  walked; and no change is reported exactly when the two have the same names and everything that is
  compared agrees.\<close>

lemma config_diff_exact:
  assumes "distinct (map mc_Name (ndc_Monitors old))" "distinct (map mc_Name (ndc_Monitors new))" "\<forall>m. set (iter m) = set m"
  shows "let d = ComputeConfigDiff fmt iter old new in
    set (df_MonitorsAdded d) = {m \<in> set (ndc_Monitors new). mc_Name m \<notin> mc_Name ` set (ndc_Monitors old)}
    \<and> set (df_MonitorsRemoved d) = {m \<in> set (ndc_Monitors old). mc_Name m \<notin> mc_Name ` set (ndc_Monitors new)}
    \<and> set (df_MonitorsModified d) = {\<lparr>mch_Old = a, mch_New = b\<rparr> |a b. a \<in> set (ndc_Monitors old)
        \<and> b \<in> set (ndc_Monitors new) \<and> mc_Name a = mc_Name b \<and> \<not> monitorsEqual fmt a b}
    \<and> (\<not> HasChanges d \<longleftrightarrow> mc_Name ` set (ndc_Monitors old) = mc_Name ` set (ndc_Monitors new)
        \<and> (\<forall>a\<in>set (ndc_Monitors old). \<forall>b\<in>set (ndc_Monitors new). mc_Name a = mc_Name b \<longrightarrow> monitorsEqual fmt a b)
        \<and> exportersEqual (ndc_Exporters old) (ndc_Exporters new)
        \<and> remediationEqual (ndc_Remediation old) (ndc_Remediation new))"
proof -
  let ?d = "ComputeConfigDiff fmt iter old new"
  note sets = diff_sets [OF assms, of fmt]
  have "\<not> HasChanges ?d \<longleftrightarrow> set (df_MonitorsAdded ?d) = {} \<and> set (df_MonitorsRemoved ?d) = {}
      \<and> set (df_MonitorsModified ?d) = {} \<and> exportersEqual (ndc_Exporters old) (ndc_Exporters new)
      \<and> remediationEqual (ndc_Remediation old) (ndc_Remediation new)"
    by (simp add: HasChanges_def) (auto simp: ComputeConfigDiff_def Let_def)
  moreover have "set (df_MonitorsAdded ?d) = {} \<and> set (df_MonitorsRemoved ?d) = {} \<longleftrightarrow>
      mc_Name ` set (ndc_Monitors old) = mc_Name ` set (ndc_Monitors new)"
    unfolding sets by auto
  moreover have "set (df_MonitorsModified ?d) = {} \<longleftrightarrow>
      (\<forall>a\<in>set (ndc_Monitors old). \<forall>b\<in>set (ndc_Monitors new). mc_Name a = mc_Name b \<longrightarrow> monitorsEqual fmt a b)"
    unfolding sets by auto
  ultimately show ?thesis unfolding Let_def using sets by blast
qed

text \<open>
  Edits that a reload does not see, as the documentation of the reload warns. Changing any monitor's remediation policy or
  dependencies, the limit of remediations per minute, the history size or the reload settings is no
  change to the difference and no reason for a restart, so the reload takes the path \<^verbatim>\<open>no changes\<close>.\<close>

lemma policy_edits_are_not_detected:
  assumes "distinct (map mc_Name (ndc_Monitors old))" "\<forall>m. set (iter m) = set m"
    "\<forall>m\<in>set (ndc_Monitors old). gomap_ok (mc_Config m)"
    "new = old\<lparr>ndc_Monitors := map (\<lambda>m. m\<lparr>mc_Remediation := f m, mc_DependsOn := g m\<rparr>) (ndc_Monitors old),
       ndc_Remediation := (ndc_Remediation old)\<lparr>rmc_MaxRemediationsPerMinute := k, rmc_HistorySize := h\<rparr>, ndc_Reload := rl\<rparr>"
  shows "\<not> HasChanges (ComputeConfigDiff fmt iter old new)
    \<and> \<not> HasRestartRequired (ClassifyReload old new (ComputeConfigDiff fmt iter old new))"
proof -
  let ?h = "\<lambda>m. m\<lparr>mc_Remediation := f m, mc_DependsOn := g m\<rparr>" and ?d = "ComputeConfigDiff fmt iter old new"
  have ms: "ndc_Monitors new = map ?h (ndc_Monitors old)" using assms(4) by simp
  then have dist: "distinct (map mc_Name (ndc_Monitors new))" using assms(1) by (simp add: comp_def)
  have "configMapsEqual fmt c c" if "gomap_ok c" for c :: "(string, cfg_value) gomap"
    using that by (auto simp: configMapsEqual_def list_all_iff dest: map_of_is_SomeI [rotated])
  then have "monitorsEqual fmt a (?h a)" if "a \<in> set (ndc_Monitors old)" for a
    using that assms(3) by (simp add: monitorsEqual_def)
  moreover have "a = b" if "a \<in> set (ndc_Monitors old)" "b \<in> set (ndc_Monitors old)" "mc_Name a = mc_Name b" for a b
    using assms(1) that by (auto simp: distinct_map inj_on_def)
  ultimately have "monitorsEqual fmt a (?h b)"
    if "a \<in> set (ndc_Monitors old)" "b \<in> set (ndc_Monitors old)" "mc_Name a = mc_Name b" for a b
    using that by metis
  then have "set (df_MonitorsAdded ?d) = {}" "set (df_MonitorsRemoved ?d) = {}" "set (df_MonitorsModified ?d) = {}"
    unfolding diff_sets [OF assms(1) dist assms(2)] ms by (auto simp: image_image)
  moreover have "exportersEqual e e" for e
    by (simp add: exportersEqual_def list_all2_refl webhookEqual_def split: option.split)
  ultimately have "\<not> HasChanges ?d"
    by (simp add: HasChanges_def) (simp add: ComputeConfigDiff_def Let_def assms(4) remediationEqual_def circuitBreakerEqual_def)
  moreover have "ra_RestartRequired (ClassifyReload old new d) = []" for d
    by (simp add: ClassifyReload_def classifyExporterEnable_def classifyCoordination_def Let_def assms(4) split: option.split)
  ultimately show ?thesis by (simp add: HasRestartRequired_def)
qed

section \<open>Witnesses\<close>

definition config_with :: "MonitorConfig list \<Rightarrow> NodeDoctorConfig" where
  "config_with ms = (default_config_literal ''n1'')\<lparr>ndc_Monitors := ms\<rparr>"

end
