(* ===== verification/Detector_Lifecycle.thy ===== *)
theory Detector_Lifecycle
  imports Detector Reload_Diff
begin

text \<open>
  \<^verbatim>\<open>pkg/detector/detector.go\<close>: construction, start and stop of the detector, adding and stopping
  monitors, and the application of a configuration reload. Each function runs as one step; the
  goroutines, contexts, locks and the closing of the status channel are left out. \<open>life_env\<close> is what
  the monitors, the factory, the exporters and the remediation executor do; an error is its text.
\<close>

section \<open>Definitions\<close>

datatype exporter_config =
  KubernetesCfg KubernetesExporterConfig | HTTPCfg HTTPExporterConfig | PrometheusCfg PrometheusExporterConfig

text \<open>
  \<open>lf_stops\<close>: the goroutines of the monitor end within five seconds. \<open>lf_reloadable\<close> is \<open>None\<close> for an
  exporter that is no \<^verbatim>\<open>ReloadableExporter\<close>, and \<open>lf_applyConfig\<close> for an executor that is not reconfigurable.
\<close>

record ('m, 'x, 'r) life_env =
  lf_ck :: "nat \<Rightarrow> time"
  lf_factory :: "(MonitorConfig \<Rightarrow> string + 'm) option"
  lf_start :: "'m \<Rightarrow> string option"
  lf_stops :: "'m \<Rightarrow> bool"
  lf_watch :: "string option"
  lf_typeName :: "'x \<Rightarrow> string"
  lf_reloadable :: "'x \<Rightarrow> bool option"
  lf_reload :: "exporter_config \<Rightarrow> 'x \<Rightarrow> string option \<times> 'x"
  lf_kubernetes :: "'x \<Rightarrow> bool"
  lf_removeCondition :: "string \<Rightarrow> 'x \<Rightarrow> 'x"
  lf_applyConfig :: "(RemediationConfig \<Rightarrow> bool \<Rightarrow> 'r \<Rightarrow> string option \<times> 'r) option"

definition MonitorHandle_Stop ::
  "('m, 'x, 'r) life_env \<Rightarrow> 'm MonitorHandle \<Rightarrow> string option \<times> 'm MonitorHandle" where
  "MonitorHandle_Stop v h =
     (if mh_stopped h then (None, h)
      else (if lf_stops v (mh_monitor h) then None else Some ''monitor stop timeout'', h\<lparr>mh_stopped := True\<rparr>))"

definition GetName :: "'m MonitorHandle \<Rightarrow> string" where
  "GetName h = mc_Name (mh_config h)"

definition Handle_IsRunning :: "'m MonitorHandle \<Rightarrow> bool" where
  "Handle_IsRunning h = (\<not> mh_stopped h)"

subsection \<open>Construction, monitors, start and stop\<close>

definition AddExporter :: "'x \<Rightarrow> ('m, 'x, 'r) ProblemDetector \<Rightarrow> ('m, 'x, 'r) ProblemDetector" where
  "AddExporter x pd = pd\<lparr>pd_exporters := pd_exporters pd @ [x]\<rparr>"

definition SetRemediatorRegistry :: "'r option \<Rightarrow> ('m, 'x, 'r) ProblemDetector \<Rightarrow> ('m, 'x, 'r) ProblemDetector" where
  "SetRemediatorRegistry r pd = pd\<lparr>pd_remediatorRegistry := r\<rparr>"

datatype new_error = ConfigNil | EmptyConfigPath | InvalidNewConfig config_error | WatcherFailed string

definition NewProblemDetector ::
  "time \<Rightarrow> string option \<Rightarrow> NodeDoctorConfig option \<Rightarrow> 'm list \<Rightarrow> 'x list \<Rightarrow> string \<Rightarrow>
   ((string \<Rightarrow> bool) \<times> string list) option \<Rightarrow> new_error + ('m, 'x, 'r) ProblemDetector" where
  "NewProblemDetector now newWatcher config monitors exporters path registry =
     (case config of None \<Rightarrow> Inl ConfigNil
      | Some c \<Rightarrow>
          if path = [] then Inl EmptyConfigPath
          else case ValidateWithRegistry registry c of Some e \<Rightarrow> Inl (InvalidNewConfig e)
          | None \<Rightarrow>
              (case newWatcher of Some e \<Rightarrow> Inl (WatcherFailed e)
               | None \<Rightarrow>
                   Inr (fold AddExporter exporters
                     \<lparr>pd_config = c, pd_monitorHandles = [], pd_exporters = [], pd_statusChan = [],
                      pd_stats = NewStatistics now, pd_configFilePath = path, pd_started = False,
                      pd_passedMonitors = monitors, pd_remediatorRegistry = None, pd_monitorConfigIndex = [],
                      pd_incidents = [], pd_lastStatus = [], pd_dependents = [], pd_loggingReinit = False, pd_logging = [],
                      pd_dependencyReporter = False\<rparr>)))"

definition createMonitor :: "('m, 'x, 'r) life_env \<Rightarrow> MonitorConfig \<Rightarrow> string + 'm" where
  "createMonitor v config =
     (case lf_factory v of None \<Rightarrow> Inl ''monitor factory not initialized''
      | Some create \<Rightarrow>
          (case create config of Inl e \<Rightarrow> Inl (''failed to create monitor '' @ mc_Name config @ '': '' @ e)
           | Inr m \<Rightarrow> Inr m))"

definition addMonitor ::
  "('m, 'x, 'r) life_env \<Rightarrow> 'm \<Rightarrow> MonitorConfig \<Rightarrow> ('m, 'x, 'r) ProblemDetector \<Rightarrow>
   string option \<times> ('m, 'x, 'r) ProblemDetector" where
  "addMonitor v monitor config pd =
     (case lf_start v monitor of Some e \<Rightarrow> (Some (''failed to start monitor: '' @ e), pd)
      | None \<Rightarrow>
          (None, pd\<lparr>pd_monitorHandles := pd_monitorHandles pd @ [\<lparr>mh_monitor = monitor, mh_config = config, mh_stopped = False\<rparr>],
                    pd_monitorConfigIndex := AList.update (mc_Name config) config (pd_monitorConfigIndex pd),
                    pd_stats := IncrementMonitorsStarted (pd_stats pd)\<rparr>))"

definition monitor_failed :: "('m, 'x, 'r) ProblemDetector \<Rightarrow> ('m, 'x, 'r) ProblemDetector" where
  "monitor_failed pd = pd\<lparr>pd_stats := IncrementMonitorsFailed (pd_stats pd)\<rparr>"

definition start_passed ::
  "('m, 'x, 'r) life_env \<Rightarrow> nat \<times> 'm \<Rightarrow> string set \<times> ('m, 'x, 'r) ProblemDetector \<Rightarrow>
   string set \<times> ('m, 'x, 'r) ProblemDetector" where
  "start_passed v im s =
     (let config = zero_MonitorConfig\<lparr>mc_Name := ''passed-monitor-'' @ show_nat (fst im), mc_Enabled := True\<rparr>
      in case addMonitor v (snd im) config (snd s) of
           (Some e, pd) \<Rightarrow> (fst s, monitor_failed pd)
         | (None, pd) \<Rightarrow> (insert (mc_Name config) (fst s), pd))"

definition start_configured ::
  "('m, 'x, 'r) life_env \<Rightarrow> MonitorConfig \<Rightarrow> string set \<times> ('m, 'x, 'r) ProblemDetector \<Rightarrow>
   string set \<times> ('m, 'x, 'r) ProblemDetector" where
  "start_configured v config s =
     (if mc_Name config \<in> fst s then s
      else case createMonitor v config of Inl e \<Rightarrow> (fst s, monitor_failed (snd s))
      | Inr m \<Rightarrow>
          (case addMonitor v m config (snd s) of
             (Some e, pd) \<Rightarrow> (fst s, monitor_failed pd)
           | (None, pd) \<Rightarrow> (insert (mc_Name config) (fst s), pd)))"

definition add_dependents :: "MonitorConfig \<Rightarrow> (string, string list) gomap \<Rightarrow> (string, string list) gomap" where
  "add_dependents m deps = fold (\<lambda>dep ds. AList.update dep (gomap_get [] ds dep @ [mc_Name m]) ds) (mc_DependsOn m) deps"

definition remove_dependents :: "string \<Rightarrow> string list \<Rightarrow> (string, string list) gomap \<Rightarrow> (string, string list) gomap" where
  "remove_dependents name dependsOn deps =
     fold (\<lambda>dep ds. AList.update dep (filter (\<lambda>m. m \<noteq> name) (gomap_get [] ds dep)) ds) dependsOn deps"

definition Detector_Start ::
  "('m, 'x, 'r) life_env \<Rightarrow> ('m, 'x, 'r) ProblemDetector \<Rightarrow> string option \<times> ('m, 'x, 'r) ProblemDetector" where
  "Detector_Start v pd =
     (if pd_started pd then (Some ''detector already started'', pd)
      else if ReloadConfig_IsEnabled (ndc_Reload (pd_config pd)) \<and> lf_watch v \<noteq> None then
        (Some (''failed to start config watcher: '' @ the (lf_watch v)), pd)
      else let s1 = fold (start_passed v) (enumerate 0 (pd_passedMonitors pd)) ({}, pd)
           in case topologicalSortMonitors (ndc_Monitors (pd_config pd)) of
                Inl (k, n) \<Rightarrow>
                  (Some (''monitor dependency cycle detected, cannot start: dependsOn cycle detected among monitors: ''
                     @ ''topological sort incomplete ('' @ show_nat k @ '' of '' @ show_nat n @ '' sorted)''), snd s1)
              | Inr sorted_ms \<Rightarrow>
                  let pd2 = (snd s1)\<lparr>pd_dependents := fold add_dependents sorted_ms (pd_dependents (snd s1))\<rparr>;
                      s3 = fold (start_configured v) sorted_ms (fst s1, pd2)
                  in (None, (snd s3)\<lparr>pd_started := True\<rparr>))"

definition Detector_Stop ::
  "('m, 'x, 'r) life_env \<Rightarrow> ('m, 'x, 'r) ProblemDetector \<Rightarrow> ('m, 'x, 'r) ProblemDetector" where
  "Detector_Stop v pd =
     (if \<not> pd_started pd then pd
      else pd\<lparr>pd_monitorHandles := map (\<lambda>h. snd (MonitorHandle_Stop v h)) (pd_monitorHandles pd), pd_started := False\<rparr>)"

text \<open>The first handle of the name is taken out of the list.\<close>

fun splice_handle :: "string \<Rightarrow> 'm MonitorHandle list \<Rightarrow> 'm MonitorHandle option \<times> 'm MonitorHandle list" where
  "splice_handle name [] = (None, [])"
| "splice_handle name (h # hs) =
     (if GetName h = name then (Some h, hs)
      else case splice_handle name hs of (found, rest) \<Rightarrow> (found, h # rest))"

definition stopMonitorByName ::
  "('m, 'x, 'r) life_env \<Rightarrow> string \<Rightarrow> ('m, 'x, 'r) ProblemDetector \<Rightarrow> string option \<times> ('m, 'x, 'r) ProblemDetector" where
  "stopMonitorByName v name pd =
     (case splice_handle name (pd_monitorHandles pd) of
        (None, _) \<Rightarrow> (Some (''monitor '' @ name @ '' not found''), pd)
      | (Some h, rest) \<Rightarrow>
          (fst (MonitorHandle_Stop v h),
           pd\<lparr>pd_monitorHandles := rest, pd_monitorConfigIndex := AList.delete name (pd_monitorConfigIndex pd)\<rparr>))"

subsection \<open>Reload\<close>

text \<open>The status channel holds 1000 statuses; an event that finds it full is dropped.\<close>

definition emitReloadEvent ::
  "time \<Rightarrow> time \<Rightarrow> string \<Rightarrow> string \<Rightarrow> string \<Rightarrow> ('m, 'x, 'r) ProblemDetector \<Rightarrow> ('m, 'x, 'r) ProblemDetector" where
  "emitReloadEvent t0 t1 severity reason message pd =
     (let st = \<lparr>st_Source = ''config-reload'',
                st_Events = [\<lparr>ev_Severity = severity, ev_Timestamp = t1, ev_Reason = reason, ev_Message = message\<rparr>],
                st_Conditions = [], st_Timestamp = t0, st_Metadata = None\<rparr>
      in if length (pd_statusChan pd) < 1000 then pd\<lparr>pd_statusChan := pd_statusChan pd @ [st]\<rparr> else pd)"

definition conditionMap :: "(string, string list) gomap" where
  "conditionMap =
     [(''system-cpu'', [''CPUHealthy'', ''CPUPressure'', ''CPUThermalHealthy'']),
      (''system-memory'', [''MemoryHealthy'', ''MemoryPressure'']),
      (''system-disk'', [''DiskHealthy'', ''DiskPressure'', ''InodePressure'', ''ReadonlyFilesystem'']),
      (''network-dns-check'',
        [''ClusterDNSDegraded'', ''ClusterDNSDown'', ''ClusterDNSIntermittent'', ''CustomDNSDown'',
         ''DNSResolutionDegraded'', ''DNSResolutionDown'', ''DNSResolutionInconsistent'', ''DNSResolutionIntermittent'',
         ''ExternalDNSDegraded'', ''ExternalDNSDown'', ''ExternalDNSIntermittent'']),
      (''network-gateway-check'', [''NetworkUnreachable'']),
      (''network-cni-check'',
        [''CNIConfigValid'', ''CNIHealthy'', ''CNIInterfacesHealthy'', ''NetworkDegraded'', ''NetworkPartitioned''])]"

text \<open>The first Kubernetes exporter gets the removals.\<close>

fun cleanup_first :: "('x \<Rightarrow> bool) \<Rightarrow> ('x \<Rightarrow> 'x) \<Rightarrow> 'x list \<Rightarrow> 'x list" where
  "cleanup_first isK f [] = []"
| "cleanup_first isK f (x # xs) = (if isK x then f x # xs else x # cleanup_first isK f xs)"

definition cleanupMonitorConditions ::
  "('m, 'x, 'r) life_env \<Rightarrow> string \<Rightarrow> ('m, 'x, 'r) ProblemDetector \<Rightarrow> ('m, 'x, 'r) ProblemDetector" where
  "cleanupMonitorConditions v monitorType pd =
     pd\<lparr>pd_exporters := cleanup_first (lf_kubernetes v)
       (\<lambda>x. fold (\<lambda>c. lf_removeCondition v (''NodeDoctor'' @ c)) (gomap_get [] conditionMap monitorType) x) (pd_exporters pd)\<rparr>"

definition reloadExporter ::
  "('m, 'x, 'r) life_env \<Rightarrow> NodeDoctorConfig \<Rightarrow> 'x \<Rightarrow> string option \<times> 'x" where
  "reloadExporter v newConfig x =
     (if lf_reloadable v x \<noteq> Some True then (None, x)
      else let ty = getExporterType (lf_typeName v x); e = ndc_Exporters newConfig;
               run = (\<lambda>co. case co of None \<Rightarrow> (Some (ty @ '' exporter config not found in new configuration''), x)
                 | Some c \<Rightarrow>
                     (case lf_reload v c x of
                        (None, x') \<Rightarrow> (None, x')
                      | (Some err, x') \<Rightarrow> (Some (''failed to reload '' @ ty @ '' exporter: '' @ err), x')))
           in if ty = ''kubernetes'' then run (map_option KubernetesCfg (ex_Kubernetes e))
              else if ty = ''http'' then run (map_option HTTPCfg (ex_HTTP e))
              else if ty = ''prometheus'' then run (map_option PrometheusCfg (ex_Prometheus e))
              else (Some (''unknown exporter type: '' @ ty), x))"

text \<open>The state of a reload: the warnings, the critical errors and the detector.\<close>

type_synonym ('m, 'x, 'r) reload_state = "string list \<times> string list \<times> ('m, 'x, 'r) ProblemDetector"

definition critical :: "string \<Rightarrow> ('m, 'x, 'r) ProblemDetector \<Rightarrow> ('m, 'x, 'r) reload_state \<Rightarrow> ('m, 'x, 'r) reload_state" where
  "critical e pd s = (fst s, fst (snd s) @ [e], pd)"

definition reload_removed ::
  "('m, 'x, 'r) life_env \<Rightarrow> MonitorConfig \<Rightarrow> ('m, 'x, 'r) reload_state \<Rightarrow> ('m, 'x, 'r) reload_state" where
  "reload_removed v m s =
     (case stopMonitorByName v (mc_Name m) (snd (snd s)) of (err, pd) \<Rightarrow>
        let warnings = (case err of None \<Rightarrow> fst s | Some e \<Rightarrow> fst s @ [''failed to stop monitor '' @ mc_Name m @ '': '' @ e]);
            pd1 = cleanupMonitorConditions v (mc_Type m) pd
        in (warnings, fst (snd s), pd1\<lparr>pd_dependents := remove_dependents (mc_Name m) (mc_DependsOn m) (pd_dependents pd1)\<rparr>))"

definition reload_modified ::
  "('m, 'x, 'r) life_env \<Rightarrow> MonitorChange \<Rightarrow> ('m, 'x, 'r) reload_state \<Rightarrow> ('m, 'x, 'r) reload_state" where
  "reload_modified v ch s =
     (let m = mch_New ch; name = mc_Name m
      in case stopMonitorByName v name (snd (snd s)) of
           (Some e, pd) \<Rightarrow> critical (''failed to stop modified monitor '' @ name @ '': '' @ e) pd s
         | (None, pd) \<Rightarrow>
             (case createMonitor v m of
                Inl e \<Rightarrow> critical (''failed to create modified monitor '' @ name @ '': '' @ e) pd s
              | Inr mon \<Rightarrow>
                  (case addMonitor v mon m pd of
                     (Some e, pd1) \<Rightarrow> critical (''failed to start modified monitor '' @ name @ '': '' @ e) pd1 s
                   | (None, pd1) \<Rightarrow>
                       (fst s, fst (snd s), pd1\<lparr>pd_dependents :=
                          add_dependents m (remove_dependents name (mc_DependsOn (mch_Old ch)) (pd_dependents pd1))\<rparr>))))"

definition reload_added ::
  "('m, 'x, 'r) life_env \<Rightarrow> MonitorConfig \<Rightarrow> ('m, 'x, 'r) reload_state \<Rightarrow> ('m, 'x, 'r) reload_state" where
  "reload_added v m s =
     (case createMonitor v m of
        Inl e \<Rightarrow> critical (''failed to create new monitor '' @ mc_Name m @ '': '' @ e) (snd (snd s)) s
      | Inr mon \<Rightarrow>
          (case addMonitor v mon m (snd (snd s)) of
             (Some e, pd) \<Rightarrow> critical (''failed to start new monitor '' @ mc_Name m @ '': '' @ e) pd s
           | (None, pd) \<Rightarrow> (fst s, fst (snd s), pd\<lparr>pd_dependents := add_dependents m (pd_dependents pd)\<rparr>)))"

definition reload_all_added ::
  "('m, 'x, 'r) life_env \<Rightarrow> MonitorConfig list \<Rightarrow> ('m, 'x, 'r) reload_state \<Rightarrow> ('m, 'x, 'r) reload_state" where
  "reload_all_added v added s =
     (case topologicalSortMonitors added of
        Inl (k, n) \<Rightarrow>
          critical (''dependency cycle in newly-added monitors: dependsOn cycle detected among monitors: ''
            @ ''topological sort incomplete ('' @ show_nat k @ '' of '' @ show_nat n @ '' sorted)'') (snd (snd s)) s
      | Inr sorted_ms \<Rightarrow> fold (reload_added v) sorted_ms s)"

fun reload_exporters ::
  "('m, 'x, 'r) life_env \<Rightarrow> NodeDoctorConfig \<Rightarrow> 'x list \<Rightarrow> string list \<times> 'x list" where
  "reload_exporters v newConfig [] = ([], [])"
| "reload_exporters v newConfig (x # xs) =
     (case reloadExporter v newConfig x of (err, x') \<Rightarrow>
        (case reload_exporters v newConfig xs of (errs, xs') \<Rightarrow>
           ((case err of None \<Rightarrow> errs
             | Some e \<Rightarrow> (''critical: failed to reload '' @ getExporterType (lf_typeName v x) @ '' exporter: '' @ e) # errs),
            x' # xs')))"

definition reload_all_exporters ::
  "('m, 'x, 'r) life_env \<Rightarrow> NodeDoctorConfig \<Rightarrow> ('m, 'x, 'r) reload_state \<Rightarrow> ('m, 'x, 'r) reload_state" where
  "reload_all_exporters v newConfig s =
     (case reload_exporters v newConfig (pd_exporters (snd (snd s))) of
        (errs, xs) \<Rightarrow> (fst s, fst (snd s) @ errs, (snd (snd s))\<lparr>pd_exporters := xs\<rparr>))"

definition reload_remediation ::
  "('m, 'x, 'r) life_env \<Rightarrow> NodeDoctorConfig \<Rightarrow> ('m, 'x, 'r) reload_state \<Rightarrow> ('m, 'x, 'r) reload_state" where
  "reload_remediation v newConfig s =
     (let pd = snd (snd s)
      in case pd_remediatorRegistry pd of None \<Rightarrow> s
      | Some r \<Rightarrow>
          (case lf_applyConfig v of None \<Rightarrow> s
           | Some applyConfig \<Rightarrow>
               (case applyConfig (ndc_Remediation newConfig) (gs_DryRunMode (ndc_Settings newConfig)) r of
                  (Some e, r') \<Rightarrow>
                    critical (''critical: failed to apply remediation configuration: '' @ e)
                      (pd\<lparr>pd_remediatorRegistry := Some r'\<rparr>) s
                | (None, r') \<Rightarrow> (fst s, fst (snd s), pd\<lparr>pd_remediatorRegistry := Some r'\<rparr>))))"

text \<open>The configuration is handed to the logging hook, if there is one; whether it fails is only logged.\<close>

definition reapplyLoggingConfig ::
  "NodeDoctorConfig \<Rightarrow> NodeDoctorConfig \<Rightarrow> ('m, 'x, 'r) ProblemDetector \<Rightarrow> ('m, 'x, 'r) ProblemDetector" where
  "reapplyLoggingConfig old new pd =
     (let a = ndc_Settings old; b = ndc_Settings new
      in if gs_LogLevel a = gs_LogLevel b \<and> gs_LogFormat a = gs_LogFormat b then pd
         else if gs_LogOutput a \<noteq> gs_LogOutput b \<or> gs_LogFile a \<noteq> gs_LogFile b then pd
         else if \<not> pd_loggingReinit pd then pd
         else pd\<lparr>pd_logging := pd_logging pd @ [new]\<rparr>)"

definition reload_steps ::
  "('m, 'x, 'r) life_env \<Rightarrow> NodeDoctorConfig \<Rightarrow> ConfigDiff \<Rightarrow> ('m, 'x, 'r) ProblemDetector \<Rightarrow> ('m, 'x, 'r) reload_state" where
  "reload_steps v newConfig d pd =
     (let s1 = fold (reload_removed v) (df_MonitorsRemoved d) ([], [], pd);
          s2 = fold (reload_modified v) (df_MonitorsModified d) s1;
          s3 = reload_all_added v (df_MonitorsAdded d) s2;
          s4 = (if df_ExportersChanged d then reload_all_exporters v newConfig s3 else s3)
      in if df_RemediationChanged d then reload_remediation v newConfig s4 else s4)"

definition error_lines :: "string list \<Rightarrow> string" where
  "error_lines errs = concat (map (\<lambda>(i, e). ''  '' @ show_nat (i + 1) @ ''. '' @ e @ [CHR 0x0A]) (enumerate 0 errs))"

definition applyConfigReload ::
  "('m, 'x, 'r) life_env \<Rightarrow> NodeDoctorConfig \<Rightarrow> ConfigDiff \<Rightarrow> ('m, 'x, 'r) ProblemDetector \<Rightarrow>
   string option \<times> ('m, 'x, 'r) ProblemDetector" where
  "applyConfigReload v newConfig d pd =
     (case reload_steps v newConfig d pd of (warnings, crit, pd1) \<Rightarrow>
        if crit \<noteq> [] then
          (Some (''configuration reload partially failed: '' @ hd crit),
           emitReloadEvent (lf_ck v 0) (lf_ck v 1) EventError ''ReloadPartialFailure''
             (''reload failed with '' @ show_nat (length crit) @ '' critical error(s):'' @ [CHR 0x0A] @ error_lines crit) pd1)
        else (None, reapplyLoggingConfig (pd_config pd1) newConfig (pd1\<lparr>pd_config := newConfig\<rparr>)))"

definition handleConfigReload ::
  "('m, 'x, 'r) life_env \<Rightarrow> NodeDoctorConfig \<Rightarrow> ConfigDiff \<Rightarrow> ('m, 'x, 'r) ProblemDetector \<Rightarrow>
   string option \<times> ('m, 'x, 'r) ProblemDetector" where
  "handleConfigReload v newConfig d pd =
     (if \<not> pd_started pd then (None, pd)
      else if \<not> HasChanges d then
        (None, emitReloadEvent (lf_ck v 2) (lf_ck v 3) EventInfo ''NoChanges'' ''Configuration reload completed with no changes'' pd)
      else case applyConfigReload v newConfig d pd of
          (Some e, pd1) \<Rightarrow>
            (Some (''configuration reload failed: '' @ e),
             emitReloadEvent (lf_ck v 2) (lf_ck v 3) EventError ''ReloadFailed'' (''Configuration reload failed: '' @ e) pd1)
        | (None, pd1) \<Rightarrow>
            (None, emitReloadEvent (lf_ck v 2) (lf_ck v 3) EventInfo ''ReloadSuccess''
               ''Configuration reload completed successfully'' pd1))"

section \<open>The monitors that run\<close>

text \<open>
  The monitors that run, by name; and the state in which every monitor runs once and the index that
  the policies are read from agrees with them.
\<close>

definition running :: "('m, 'x, 'r) ProblemDetector \<Rightarrow> string \<rightharpoonup> MonitorConfig" where
  "running pd = map_of (map (\<lambda>h. (GetName h, mh_config h)) (pd_monitorHandles pd))"

definition in_sync :: "('m, 'x, 'r) ProblemDetector \<Rightarrow> bool" where
  "in_sync pd \<longleftrightarrow> distinct (map GetName (pd_monitorHandles pd)) \<and> map_of (pd_monitorConfigIndex pd) = running pd"

lemma running_None: "running pd n = None \<longleftrightarrow> n \<notin> GetName ` set (pd_monitorHandles pd)"
  by (simp add: running_def map_of_eq_None_iff image_image)

lemma splice_handle:
  assumes "splice_handle name hs = (found, rest)" "distinct (map GetName hs)"
  shows "distinct (map GetName rest)" "set rest \<subseteq> set hs"
    "map_of (map (\<lambda>h. (GetName h, mh_config h)) rest) = (map_of (map (\<lambda>h. (GetName h, mh_config h)) hs))(name := None)"
    "found = None \<longleftrightarrow> name \<notin> GetName ` set hs"
  using assms
proof (induction hs arbitrary: rest)
  case (Cons h hs)
  {
    case 1
    then show ?case using Cons.IH(1,2) by (auto split: if_splits prod.splits) blast
  next
    case 2
    then show ?case using Cons.IH(2) by (auto split: if_splits prod.splits)
  next
    case 3
    then show ?case
      using Cons.IH(3) by (auto simp: map_of_eq_None_iff image_image fun_eq_iff split: if_splits prod.splits)
  next
    case 4
    then show ?case using Cons.IH(4) by (auto split: if_splits prod.splits)
  }
qed auto

lemma stop_sync:
  assumes "in_sync pd" "stopMonitorByName v name pd = (err, pd')"
  shows "in_sync pd'" "running pd' = (running pd)(name := None)"
    "err = None \<Longrightarrow> running pd name \<noteq> None"
proof -
  obtain found rest where sp: "splice_handle name (pd_monitorHandles pd) = (found, rest)" by fastforce
  note s = splice_handle [OF sp] assms(1) [unfolded in_sync_def]
  show "in_sync pd'" "running pd' = (running pd)(name := None)" "err = None \<Longrightarrow> running pd name \<noteq> None"
    using assms(2) sp s running_None [of pd name] by (cases found; auto simp: stopMonitorByName_def in_sync_def running_def)+
qed

lemma add_sync:
  assumes "in_sync pd" "addMonitor v mon m pd = (None, pd')" "running pd (mc_Name m) = None"
  shows "in_sync pd'" "running pd' = (running pd)(mc_Name m \<mapsto> m)"
proof -
  have "mc_Name m \<notin> GetName ` set (pd_monitorHandles pd)"
    using assms(3) running_None by blast
  then have fresh: "mc_Name m \<notin> GetName ` set (pd_monitorHandles pd)" .
  have "running pd' = [mc_Name m \<mapsto> m] ++ running pd"
    using assms(2) by (auto simp: addMonitor_def running_def GetName_def split: option.splits)
  then show "running pd' = (running pd)(mc_Name m \<mapsto> m)"
    using assms(3) by (auto simp: map_add_def fun_eq_iff split: option.split)
  with assms(1,2) fresh show "in_sync pd'"
    by (auto simp: addMonitor_def in_sync_def GetName_def image_iff split: option.splits)
qed

lemma sync_fields:
  "in_sync (pd\<lparr>pd_dependents := ds\<rparr>) = in_sync pd" "running (pd\<lparr>pd_dependents := ds\<rparr>) = running pd"
  "in_sync (pd\<lparr>pd_exporters := xs\<rparr>) = in_sync pd" "running (pd\<lparr>pd_exporters := xs\<rparr>) = running pd"
  "in_sync (pd\<lparr>pd_remediatorRegistry := r\<rparr>) = in_sync pd" "running (pd\<lparr>pd_remediatorRegistry := r\<rparr>) = running pd"
  "in_sync (pd\<lparr>pd_config := c\<rparr>) = in_sync pd" "running (pd\<lparr>pd_config := c\<rparr>) = running pd"
  "in_sync (pd\<lparr>pd_statusChan := ch\<rparr>) = in_sync pd" "running (pd\<lparr>pd_statusChan := ch\<rparr>) = running pd"
  "in_sync (pd\<lparr>pd_stats := st\<rparr>) = in_sync pd" "running (pd\<lparr>pd_stats := st\<rparr>) = running pd"
  "in_sync (pd\<lparr>pd_started := b\<rparr>) = in_sync pd" "running (pd\<lparr>pd_started := b\<rparr>) = running pd"
  "in_sync (pd\<lparr>pd_logging := cs\<rparr>) = in_sync pd" "running (pd\<lparr>pd_logging := cs\<rparr>) = running pd"
  by (simp_all add: in_sync_def running_def)

lemma logging_sync:
  "in_sync (reapplyLoggingConfig old new pd) = in_sync pd" "running (reapplyLoggingConfig old new pd) = running pd"
  "pd_config (reapplyLoggingConfig old new pd) = pd_config pd"
  by (simp_all add: reapplyLoggingConfig_def sync_fields Let_def)

lemma emit_sync: "in_sync (emitReloadEvent t0 t1 sev r msg pd) = in_sync pd"
  "running (emitReloadEvent t0 t1 sev r msg pd) = running pd"
  by (simp_all add: emitReloadEvent_def sync_fields Let_def)

subsection \<open>Maps with many entries stored\<close>

fun store_all :: "('a \<Rightarrow> 'k) \<Rightarrow> ('a \<Rightarrow> 'v) \<Rightarrow> 'a list \<Rightarrow> ('k \<rightharpoonup> 'v) \<Rightarrow> ('k \<rightharpoonup> 'v)" where
  "store_all k v [] m = m"
| "store_all k v (x # xs) m = store_all k v xs (m(k x \<mapsto> v x))"

lemma store_all_other: "n \<notin> k ` set xs \<Longrightarrow> store_all k v xs m n = m n"
  by (induction xs arbitrary: m) auto

lemma store_all_stored:
  "x \<in> set xs \<Longrightarrow> \<forall>x\<in>set xs. \<forall>y\<in>set xs. k x = k y \<longrightarrow> v x = v y \<Longrightarrow> store_all k v xs m (k x) = Some (v x)"
proof (induction xs arbitrary: m x)
  case (Cons y ys)
  show ?case
  proof (cases "k x \<in> k ` set ys")
    case True
    then obtain z where z: "z \<in> set ys" "k x = k z" by auto
    have "v z = v x" using Cons.prems z by (metis list.set_intros(2))
    moreover have "store_all k v ys (m(k y \<mapsto> v y)) (k z) = Some (v z)"
      by (rule Cons.IH [OF z(1)]) (meson Cons.prems(2) list.set_intros(2))
    ultimately show ?thesis unfolding z(2) store_all.simps by (simp only:)
  next
    case False
    then have "x = y" using Cons.prems(1) by auto
    with False store_all_other [of "k x" k ys v] show ?thesis by simp
  qed
qed simp

subsection \<open>The steps of a reload\<close>

abbreviation detector :: "('m, 'x, 'r) reload_state \<Rightarrow> ('m, 'x, 'r) ProblemDetector" where
  "detector s \<equiv> snd (snd s)"

abbreviation failures :: "('m, 'x, 'r) reload_state \<Rightarrow> string list" where
  "failures s \<equiv> fst (snd s)"

lemma removed_sync:
  assumes "in_sync (detector s)"
  shows "failures (reload_removed v m s) = failures s" "in_sync (detector (reload_removed v m s))"
    "running (detector (reload_removed v m s)) = (running (detector s))(mc_Name m := None)"
proof -
  obtain err pd where st: "stopMonitorByName v (mc_Name m) (detector s) = (err, pd)" by fastforce
  note sync = stop_sync(1,2) [OF assms st]
  show "failures (reload_removed v m s) = failures s" "in_sync (detector (reload_removed v m s))"
    "running (detector (reload_removed v m s)) = (running (detector s))(mc_Name m := None)"
    using sync by (simp_all add: reload_removed_def st Let_def cleanupMonitorConditions_def sync_fields)
qed

lemma removed_all_sync:
  "in_sync (detector s) \<Longrightarrow> failures (fold (reload_removed v) ms s) = failures s
   \<and> in_sync (detector (fold (reload_removed v) ms s))
   \<and> running (detector (fold (reload_removed v) ms s)) = (\<lambda>n. if n \<in> mc_Name ` set ms then None else running (detector s) n)"
proof (induction ms arbitrary: s)
  case (Cons m ms)
  from Cons.IH [OF removed_sync(2) [OF Cons.prems, of v m]] removed_sync [OF Cons.prems, of v m]
  show ?case by (auto simp: fun_eq_iff)
qed simp

lemma modified_sync:
  assumes "failures (reload_modified v ch s) = []"
  shows "failures s = []"
    "in_sync (detector s) \<Longrightarrow> in_sync (detector (reload_modified v ch s))"
    "in_sync (detector s) \<Longrightarrow> running (detector (reload_modified v ch s)) = (running (detector s))(mc_Name (mch_New ch) \<mapsto> mch_New ch)"
proof -
  let ?m = "mch_New ch"
  obtain err pd where st: "stopMonitorByName v (mc_Name ?m) (detector s) = (err, pd)" by fastforce
  obtain mon pd1 where ok: "err = None" "createMonitor v ?m = Inr mon" "addMonitor v mon ?m pd = (None, pd1)"
    using assms st by (auto simp: reload_modified_def critical_def Let_def split: option.splits sum.splits prod.splits)
  show "failures s = []" using assms st ok by (simp add: reload_modified_def Let_def)
  assume "in_sync (detector s)"
  note stopped = stop_sync(1,2) [OF this st]
  have "running pd (mc_Name ?m) = None" using stopped(2) by simp
  note added = add_sync [OF stopped(1) ok(3) this]
  show "in_sync (detector (reload_modified v ch s))"
    "running (detector (reload_modified v ch s)) = (running (detector s))(mc_Name (mch_New ch) \<mapsto> mch_New ch)"
    using added stopped st ok by (simp_all add: reload_modified_def Let_def sync_fields)
qed

lemma modified_all_sync:
  "failures (fold (reload_modified v) chs s) = [] \<Longrightarrow> failures s = [] \<and> (in_sync (detector s) \<longrightarrow>
     in_sync (detector (fold (reload_modified v) chs s))
     \<and> running (detector (fold (reload_modified v) chs s))
         = store_all (\<lambda>ch. mc_Name (mch_New ch)) mch_New chs (running (detector s)))"
proof (induction chs arbitrary: s)
  case (Cons ch chs)
  from Cons.IH [of "reload_modified v ch s"] Cons.prems
  have "failures (reload_modified v ch s) = []" by simp
  from modified_sync [OF this] Cons.IH [of "reload_modified v ch s"] Cons.prems show ?case by simp
qed simp

lemma added_sync:
  assumes "failures (reload_added v m s) = []"
  shows "failures s = []"
    "in_sync (detector s) \<Longrightarrow> running (detector s) (mc_Name m) = None \<Longrightarrow> in_sync (detector (reload_added v m s))
       \<and> running (detector (reload_added v m s)) = (running (detector s))(mc_Name m \<mapsto> m)"
proof -
  obtain mon pd where ok: "createMonitor v m = Inr mon" "addMonitor v mon m (detector s) = (None, pd)"
    using assms by (auto simp: reload_added_def critical_def split: option.splits sum.splits prod.splits)
  show "failures s = []" using assms ok by (simp add: reload_added_def)
  assume "in_sync (detector s)" "running (detector s) (mc_Name m) = None"
  note added = add_sync [OF this(1) ok(2) this(2)]
  then show "in_sync (detector (reload_added v m s))
      \<and> running (detector (reload_added v m s)) = (running (detector s))(mc_Name m \<mapsto> m)"
    using ok by (simp add: reload_added_def sync_fields)
qed

lemma added_all_sync:
  "failures (fold (reload_added v) ms s) = [] \<Longrightarrow> failures s = []
   \<and> (in_sync (detector s) \<and> distinct (map mc_Name ms) \<and> (\<forall>m\<in>set ms. running (detector s) (mc_Name m) = None) \<longrightarrow>
        in_sync (detector (fold (reload_added v) ms s))
        \<and> running (detector (fold (reload_added v) ms s)) = store_all mc_Name (\<lambda>m. m) ms (running (detector s)))"
proof (induction ms arbitrary: s)
  case (Cons m ms)
  from Cons.IH [of "reload_added v m s"] Cons.prems
  have ok: "failures (reload_added v m s) = []" by simp
  have "in_sync (detector (fold (reload_added v) (m # ms) s))
      \<and> running (detector (fold (reload_added v) (m # ms) s)) = store_all mc_Name (\<lambda>m. m) (m # ms) (running (detector s))"
    if "in_sync (detector s)" "distinct (map mc_Name (m # ms))" "\<forall>m\<in>set (m # ms). running (detector s) (mc_Name m) = None"
  proof -
    from added_sync(2) [OF ok that(1)] that(3) have one: "in_sync (detector (reload_added v m s))"
      "running (detector (reload_added v m s)) = (running (detector s))(mc_Name m \<mapsto> m)" by simp_all
    moreover have "\<forall>m'\<in>set ms. running (detector (reload_added v m s)) (mc_Name m') = None"
      using that(2,3) unfolding one(2) by (auto simp: image_iff)
    ultimately show ?thesis using Cons.IH [of "reload_added v m s"] Cons.prems that(2) by (simp del: fun_upd_apply)
  qed
  with added_sync(1) [OF ok] show ?case by blast
qed simp

lemma remediation_sync:
  "failures (if b then reload_remediation v c s else s) = [] \<Longrightarrow> failures s = []"
  "in_sync (detector (if b then reload_remediation v c s else s)) = in_sync (detector s)"
  "running (detector (if b then reload_remediation v c s else s)) = running (detector s)"
  by (auto simp: reload_remediation_def critical_def sync_fields Let_def split: option.splits prod.splits if_splits)

lemma exporters_sync:
  "failures (if b then reload_all_exporters v c s else s) = [] \<Longrightarrow> failures s = []"
  "in_sync (detector (if b then reload_all_exporters v c s else s)) = in_sync (detector s)"
  "running (detector (if b then reload_all_exporters v c s else s)) = running (detector s)"
  by (auto simp: reload_all_exporters_def sync_fields split: prod.splits if_splits)

lemma reload_steps_running:
  assumes "failures (reload_steps v c d pd) = []" "in_sync pd"
    "distinct (map mc_Name (df_MonitorsAdded d))"
    "\<forall>m\<in>set (df_MonitorsAdded d). running pd (mc_Name m) = None
       \<and> mc_Name m \<notin> (\<lambda>ch. mc_Name (mch_New ch)) ` set (df_MonitorsModified d)"
  obtains added where "set added = set (df_MonitorsAdded d)" "in_sync (detector (reload_steps v c d pd))"
    "running (detector (reload_steps v c d pd)) = store_all mc_Name (\<lambda>m. m) added
       (store_all (\<lambda>ch. mc_Name (mch_New ch)) mch_New (df_MonitorsModified d)
         (\<lambda>n. if n \<in> mc_Name ` set (df_MonitorsRemoved d) then None else running pd n))"
proof -
  let ?s1 = "fold (reload_removed v) (df_MonitorsRemoved d) ([], [], pd)"
  let ?s2 = "fold (reload_modified v) (df_MonitorsModified d) ?s1"
  let ?s3 = "reload_all_added v (df_MonitorsAdded d) ?s2"
  let ?s = "reload_steps v c d pd"
  have s: "?s = (if df_RemediationChanged d then reload_remediation v c
      (if df_ExportersChanged d then reload_all_exporters v c ?s3 else ?s3)
    else (if df_ExportersChanged d then reload_all_exporters v c ?s3 else ?s3))"
    by (simp only: reload_steps_def Let_def)
  have tail: "failures ?s3 = []" "in_sync (detector ?s) = in_sync (detector ?s3)" "running (detector ?s) = running (detector ?s3)"
    unfolding s remediation_sync(2,3) exporters_sync(2,3)
    using exporters_sync(1) [OF remediation_sync(1) [OF assms(1) [unfolded s]]] by simp_all
  obtain added where added: "topologicalSortMonitors (df_MonitorsAdded d) = Inr added" "?s3 = fold (reload_added v) added ?s2"
    using tail(1) by (auto simp: reload_all_added_def critical_def split: sum.splits)
  note sorted_added = sort_Inr [OF assms(3) added(1)]
  have set: "set added = set (df_MonitorsAdded d)" by (rule mset_eq_setD [OF sorted_added(1)])
  have "mset (map mc_Name added) = mset (map mc_Name (df_MonitorsAdded d))" using sorted_added(1) by simp
  then have dist: "distinct (map mc_Name added)" using assms(3) mset_eq_imp_distinct_iff by blast
  have s1: "in_sync (detector ?s1)" "running (detector ?s1) = (\<lambda>n. if n \<in> mc_Name ` set (df_MonitorsRemoved d) then None else running pd n)"
    using removed_all_sync [of "([], [], pd)" v "df_MonitorsRemoved d", unfolded snd_conv fst_conv] assms(2) by blast+
  have ok2: "failures ?s2 = []" using added_all_sync [of v added ?s2] tail(1) added(2) by simp
  from modified_all_sync [OF this] s1 have s2: "in_sync (detector ?s2)"
    "running (detector ?s2) = store_all (\<lambda>ch. mc_Name (mch_New ch)) mch_New (df_MonitorsModified d)
       (\<lambda>n. if n \<in> mc_Name ` set (df_MonitorsRemoved d) then None else running pd n)" by simp_all
  have "\<forall>m\<in>set added. running (detector ?s2) (mc_Name m) = None"
    unfolding s2(2) set using assms(4) by (auto simp: store_all_other)
  with added_all_sync [of v added ?s2] tail(1) added(2) s2 dist
  have "in_sync (detector ?s3)" "running (detector ?s3) = store_all mc_Name (\<lambda>m. m) added (running (detector ?s2))" by simp_all
  with that [OF set] tail(2,3) s2(2) show thesis by simp
qed

text \<open>The running monitors agree with a configuration, up to what the reload compares.\<close>

definition agrees :: "(cfg_value \<Rightarrow> string) \<Rightarrow> ('m, 'x, 'r) ProblemDetector \<Rightarrow> NodeDoctorConfig \<Rightarrow> bool" where
  "agrees fmt pd c \<longleftrightarrow> in_sync pd \<and> dom (running pd) = mc_Name ` set (ndc_Monitors c)
     \<and> (\<forall>m\<in>set (ndc_Monitors c). \<forall>a. running pd (mc_Name m) = Some a \<longrightarrow> monitorsEqual fmt a m)"

lemma monitorsEqual_refl: "gomap_ok (mc_Config m) \<Longrightarrow> monitorsEqual fmt m m"
  by (auto simp: monitorsEqual_def configMapsEqual_def list_all_iff dest: map_of_is_SomeI [rotated])

lemma monitorsEqual_trans: "monitorsEqual fmt a b \<Longrightarrow> monitorsEqual fmt b c \<Longrightarrow> monitorsEqual fmt a c"
proof -
  have "configMapsEqual fmt x z" if "configMapsEqual fmt x y" "configMapsEqual fmt y z" for x y z
    using that by (fastforce simp: configMapsEqual_def list_all_iff split: option.splits dest: map_of_SomeD)
  then show "monitorsEqual fmt a b \<Longrightarrow> monitorsEqual fmt b c \<Longrightarrow> monitorsEqual fmt a c"
    by (auto simp: monitorsEqual_def split: if_splits)
qed

lemma added_distinct:
  assumes "distinct (map mc_Name (ndc_Monitors new))" "\<forall>m. mset (iter m) = mset m"
  shows "distinct (map mc_Name (df_MonitorsAdded (ComputeConfigDiff fmt iter old new)))"
proof -
  let ?nm = "makeMonitorMap (ndc_Monitors new)"
  have "mset (map fst (iter ?nm)) = mset (map fst ?nm)" using assms(2) by simp
  then have "distinct (map fst (iter ?nm))"
    using gomap_ok_makeMonitorMap [of "ndc_Monitors new"] mset_eq_imp_distinct_iff by blast
  moreover have "\<forall>(n, m)\<in>set (iter ?nm). n = mc_Name m"
    using mset_eq_setD [OF assms(2) [rule_format, of ?nm]] set_makeMonitorMap [OF assms(1)] by auto
  then have "map mc_Name (map snd (filter P (iter ?nm))) = map fst (filter P (iter ?nm))" for P
    by (auto simp: list.map_comp)
  ultimately show ?thesis by (simp add: ComputeConfigDiff_def Let_def distinct_map_filter del: map_map)
qed

lemma reload_running:
  assumes "agrees fmt pd old" "distinct (map mc_Name (ndc_Monitors old))" "distinct (map mc_Name (ndc_Monitors new))"
    "\<forall>m. mset (iter m) = mset m" "failures (reload_steps v c (ComputeConfigDiff fmt iter old new) pd) = []"
  defines "pd' \<equiv> detector (reload_steps v c (ComputeConfigDiff fmt iter old new) pd)"
  shows "in_sync pd'"
    "n \<notin> mc_Name ` set (ndc_Monitors new) \<Longrightarrow> running pd' n = None"
    "m \<in> set (ndc_Monitors new) \<Longrightarrow> running pd' (mc_Name m) = Some m
       \<or> running pd' (mc_Name m) = running pd (mc_Name m)
         \<and> (\<exists>a\<in>set (ndc_Monitors old). mc_Name a = mc_Name m \<and> monitorsEqual fmt a m)"
proof -
  let ?d = "ComputeConfigDiff fmt iter old new"
  have it: "\<forall>m. set (iter m) = set m" using assms(4) mset_eq_setD by blast
  note sets = diff_sets [OF assms(2,3) it, of fmt]
  have dom: "dom (running pd) = mc_Name ` set (ndc_Monitors old)" and sync: "in_sync pd"
    using assms(1) by (simp_all add: agrees_def)
  have fresh: "\<forall>m\<in>set (df_MonitorsAdded ?d). running pd (mc_Name m) = None
      \<and> mc_Name m \<notin> (\<lambda>ch. mc_Name (mch_New ch)) ` set (df_MonitorsModified ?d)"
  proof
    fix m assume "m \<in> set (df_MonitorsAdded ?d)"
    then have new: "mc_Name m \<notin> mc_Name ` set (ndc_Monitors old)" unfolding sets by simp
    moreover have "mc_Name (mch_New ch) \<in> mc_Name ` set (ndc_Monitors old)" if "ch \<in> set (df_MonitorsModified ?d)" for ch
      using that unfolding sets by (auto simp: image_iff) metis
    ultimately show "running pd (mc_Name m) = None
        \<and> mc_Name m \<notin> (\<lambda>ch. mc_Name (mch_New ch)) ` set (df_MonitorsModified ?d)"
      using dom by (metis (no_types, lifting) domIff imageE)
  qed
  from assms(5) sync added_distinct [OF assms(3,4)] fresh
  obtain added where added: "set added = set (df_MonitorsAdded ?d)" "in_sync pd'"
    and run: "running pd' = store_all mc_Name (\<lambda>m. m) added
       (store_all (\<lambda>ch. mc_Name (mch_New ch)) mch_New (df_MonitorsModified ?d)
         (\<lambda>n. if n \<in> mc_Name ` set (df_MonitorsRemoved ?d) then None else running pd n))"
    unfolding pd'_def by (rule reload_steps_running)
  show "in_sync pd'" by (rule added(2))
  have uniq: "x = y" if "x \<in> set (ndc_Monitors new)" "y \<in> set (ndc_Monitors new)" "mc_Name x = mc_Name y" for x y
    using assms(3) that by (auto simp: distinct_map inj_on_def)
  have mods: "\<forall>x\<in>set (df_MonitorsModified ?d). \<forall>y\<in>set (df_MonitorsModified ?d).
      mc_Name (mch_New x) = mc_Name (mch_New y) \<longrightarrow> mch_New x = mch_New y"
    unfolding sets using uniq by auto
  have adds: "\<forall>x\<in>set added. \<forall>y\<in>set added. mc_Name x = mc_Name y \<longrightarrow> x = y"
    unfolding added(1) sets using uniq by auto
  show "running pd' n = None" if n: "n \<notin> mc_Name ` set (ndc_Monitors new)"
  proof -
    have "n \<notin> mc_Name ` set added" "n \<notin> (\<lambda>ch. mc_Name (mch_New ch)) ` set (df_MonitorsModified ?d)"
      "n \<notin> mc_Name ` set (df_MonitorsRemoved ?d) \<Longrightarrow> running pd n = None"
      using n dom unfolding added(1) sets by (auto simp: image_iff) (metis domIff imageE)
    then show ?thesis unfolding run by (simp add: store_all_other)
  qed
  show "running pd' (mc_Name m) = Some m \<or> running pd' (mc_Name m) = running pd (mc_Name m)
      \<and> (\<exists>a\<in>set (ndc_Monitors old). mc_Name a = mc_Name m \<and> monitorsEqual fmt a m)"
    if m: "m \<in> set (ndc_Monitors new)"
  proof (cases "mc_Name m \<in> mc_Name ` set (ndc_Monitors old)")
    case False
    then have "m \<in> set added" unfolding added(1) sets using m by simp
    then show ?thesis unfolding run using store_all_stored [OF _ adds] by blast
  next
    case True
    then obtain a where a: "a \<in> set (ndc_Monitors old)" "mc_Name a = mc_Name m" by auto
    have other: "mc_Name m \<notin> mc_Name ` set added" unfolding added(1) sets using True by auto
    show ?thesis
    proof (cases "monitorsEqual fmt a m")
      case True
      have "b = a" if "b \<in> set (ndc_Monitors old)" "mc_Name b = mc_Name m" for b
        using assms(2) a that by (auto simp: distinct_map inj_on_def)
      then have "mc_Name m \<notin> (\<lambda>ch. mc_Name (mch_New ch)) ` set (df_MonitorsModified ?d)"
        "mc_Name m \<notin> mc_Name ` set (df_MonitorsRemoved ?d)"
        unfolding sets using True m uniq by (auto, metis, metis imageI)
      then show ?thesis unfolding run using other a True by (auto simp: store_all_other)
    next
      case False
      then have "\<lparr>mch_Old = a, mch_New = m\<rparr> \<in> set (df_MonitorsModified ?d)" unfolding sets using a m by auto
      from store_all_stored [OF this mods] other show ?thesis unfolding run by (simp add: store_all_other)
    qed
  qed
qed

subsection \<open>The start\<close>

definition startable :: "('m, 'x, 'r) life_env \<Rightarrow> MonitorConfig \<Rightarrow> bool" where
  "startable v m = (case createMonitor v m of Inl _ \<Rightarrow> False | Inr x \<Rightarrow> lf_start v x = None)"

text \<open>The detector, its names and counters after the monitors of a list have been tried.\<close>

definition started_with ::
  "('m, 'x, 'r) life_env \<Rightarrow> MonitorConfig list \<Rightarrow> ('m, 'x, 'r) ProblemDetector \<Rightarrow> ('m, 'x, 'r) ProblemDetector \<Rightarrow> bool" where
  "started_with v ms pd pd' \<longleftrightarrow> in_sync pd'
     \<and> map mh_config (pd_monitorHandles pd') = map mh_config (pd_monitorHandles pd) @ filter (startable v) ms
     \<and> running pd' = store_all mc_Name (\<lambda>m. m) (filter (startable v) ms) (running pd)
     \<and> sn_monitorsStarted (pd_stats pd') = sn_monitorsStarted (pd_stats pd) + int (length (filter (startable v) ms))
     \<and> sn_monitorsFailed (pd_stats pd') = sn_monitorsFailed (pd_stats pd) + int (length (filter (\<lambda>m. \<not> startable v m) ms))"

lemma started_with_Nil: "in_sync pd \<Longrightarrow> started_with v [] pd pd"
  by (simp add: started_with_def)

lemma started_with_trans:
  "started_with v [m] pd pd1 \<Longrightarrow> started_with v ms pd1 pd2 \<Longrightarrow> started_with v (m # ms) pd pd2"
  by (simp add: started_with_def split: if_splits)

lemma start_one:
  assumes "in_sync (snd s)" "mc_Name m \<notin> fst s" "running (snd s) (mc_Name m) = None"
  shows "started_with v [m] (snd s) (snd (start_configured v m s))"
    "fst (start_configured v m s) \<subseteq> insert (mc_Name m) (fst s)"
    "n \<noteq> mc_Name m \<Longrightarrow> running (snd (start_configured v m s)) n = running (snd s) n"
proof -
  obtain names pd where s: "s = (names, pd)" by (cases s)
  have "started_with v [m] pd (snd (start_configured v m (names, pd)))
    \<and> fst (start_configured v m (names, pd)) \<subseteq> insert (mc_Name m) names
    \<and> (n \<noteq> mc_Name m \<longrightarrow> running (snd (start_configured v m (names, pd))) n = running pd n)"
  proof (cases "startable v m")
    case True
    then obtain x pd' where x: "createMonitor v m = Inr x" "addMonitor v x m pd = (None, pd')"
      by (auto simp: startable_def addMonitor_def split: sum.splits)
    note add = add_sync [OF assms(1) [unfolded s snd_conv] x(2) assms(3) [unfolded s snd_conv]]
    with x True assms(2) s show ?thesis
      by (auto simp: start_configured_def started_with_def addMonitor_def IncrementMonitorsStarted_def split: option.splits)
  next
    case False
    then have "start_configured v m (names, pd) = (names, monitor_failed pd)"
      using assms(2) s by (auto simp: start_configured_def startable_def addMonitor_def split: sum.splits option.splits)
    with False assms(1) s show ?thesis
      by (auto simp: started_with_def monitor_failed_def sync_fields IncrementMonitorsFailed_def)
  qed
  with s show "started_with v [m] (snd s) (snd (start_configured v m s))"
    "fst (start_configured v m s) \<subseteq> insert (mc_Name m) (fst s)"
    "n \<noteq> mc_Name m \<Longrightarrow> running (snd (start_configured v m s)) n = running (snd s) n" by simp_all
qed

lemma start_all:
  assumes "in_sync (snd s)" "distinct (map mc_Name ms)"
    "\<forall>m\<in>set ms. mc_Name m \<notin> fst s \<and> running (snd s) (mc_Name m) = None"
  shows "started_with v ms (snd s) (snd (fold (start_configured v) ms s))"
  using assms
proof (induction ms arbitrary: s)
  case Nil
  then show ?case by (simp add: started_with_Nil)
next
  case (Cons m ms)
  let ?s = "start_configured v m s"
  have one: "in_sync (snd s)" "mc_Name m \<notin> fst s" "running (snd s) (mc_Name m) = None" using Cons.prems by simp_all
  note st = start_one(1) [OF one, of v]
  have "\<forall>m'\<in>set ms. mc_Name m' \<notin> fst ?s \<and> running (snd ?s) (mc_Name m') = None"
  proof
    fix m' assume m': "m' \<in> set ms"
    then have "mc_Name m' \<noteq> mc_Name m" using Cons.prems(2) by (auto simp: image_iff)
    with m' start_one(2) [OF one, of v] start_one(3) [OF one this, of v] Cons.prems(3)
    show "mc_Name m' \<notin> fst ?s \<and> running (snd ?s) (mc_Name m') = None" by auto
  qed
  with Cons.IH [of ?s] Cons.prems(2) st have "started_with v ms (snd ?s) (snd (fold (start_configured v) ms ?s))"
    by (simp add: started_with_def)
  with started_with_trans [OF st] show ?case by simp
qed

lemma fold_AddExporter: "fold AddExporter xs pd = pd\<lparr>pd_exporters := pd_exporters pd @ xs\<rparr>"
  by (induction xs arbitrary: pd) (simp_all add: AddExporter_def)

lemma new_detector_fields:
  assumes "NewProblemDetector now w (Some c) [] xs path reg = Inr pd"
  shows "ValidateWithRegistry reg c = None" "pd_config pd = c" "pd_monitorHandles pd = []" "pd_started pd = False"
    "pd_passedMonitors pd = []" "pd_monitorConfigIndex pd = []" "pd_stats pd = NewStatistics now" "pd_exporters pd = xs"
  using assms by (auto simp: NewProblemDetector_def fold_AddExporter split: if_splits option.splits)

section \<open>Properties\<close>

text \<open>
  A successful reload brings the running monitors in line with the new configuration. When the
  monitors that run are those of the old configuration, and the change from the old configuration to
  the new one is applied without a critical error, then afterwards exactly the monitors of the new
  configuration run, each of them once and with a configuration that the comparison of the reload
  does not tell from the new one, the index of configurations agrees with them, and the new
  configuration is installed; whatever the order in which the maps are walked.\<close>

lemma reload_keeps_agreement:
  assumes "agrees fmt pd old" "distinct (map mc_Name (ndc_Monitors old))" "distinct (map mc_Name (ndc_Monitors new))"
    "\<forall>m. mset (iter m) = mset m" "\<forall>m\<in>set (ndc_Monitors new). gomap_ok (mc_Config m)"
    "applyConfigReload v new (ComputeConfigDiff fmt iter old new) pd = (None, pd')"
  shows "agrees fmt pd' new \<and> pd_config pd' = new"
proof -
  let ?s = "reload_steps v new (ComputeConfigDiff fmt iter old new) pd"
  have ok: "failures ?s = []" and pd': "pd' = reapplyLoggingConfig (pd_config (detector ?s)) new ((detector ?s)\<lparr>pd_config := new\<rparr>)"
    using assms(6) by (auto simp: applyConfigReload_def split: prod.splits if_splits)
  note r = reload_running [OF assms(1-4) ok]
  have each: "\<exists>a. running (detector ?s) (mc_Name m) = Some a \<and> monitorsEqual fmt a m" if m: "m \<in> set (ndc_Monitors new)" for m
    using r(3) [OF m]
  proof (elim disjE conjE bexE)
    fix a assume a: "running (detector ?s) (mc_Name m) = running pd (mc_Name m)" "a \<in> set (ndc_Monitors old)"
      "mc_Name a = mc_Name m" "monitorsEqual fmt a m"
    then obtain b where "running pd (mc_Name a) = Some b" "monitorsEqual fmt b a"
      using assms(1) unfolding agrees_def by (metis domD imageI)
    with a monitorsEqual_trans show ?thesis by metis
  qed (use assms(5) m monitorsEqual_refl in blast)
  have "n \<in> dom (running (detector ?s)) \<longleftrightarrow> n \<in> mc_Name ` set (ndc_Monitors new)" for n
    using r(2) [of n] each by (cases "n \<in> mc_Name ` set (ndc_Monitors new)") (auto simp: domIff)
  then have "dom (running (detector ?s)) = mc_Name ` set (ndc_Monitors new)" by blast
  moreover have "monitorsEqual fmt a m" if "m \<in> set (ndc_Monitors new)" "running (detector ?s) (mc_Name m) = Some a" for m a
    using each [OF that(1)] that(2) by auto
  ultimately show ?thesis using r(1) by (simp add: agrees_def pd' sync_fields logging_sync)
qed

text \<open>
  What a freshly constructed detector runs after its start. The configuration was validated, so the
  start succeeds unless the file watcher cannot be set up; the handles are, in dependency order, exactly
  the monitors that the factory can create and that start, each of them once; the two counters split
  the configured monitors into these and the others; and a monitor that cannot run keeps none of the others from
  running. Whether a monitor is marked as enabled plays no role: a disabled monitor runs like any other.\<close>

lemma start_runs_every_startable_monitor:
  assumes "NewProblemDetector now w (Some c) [] xs path reg = Inr pd"
    "lf_watch v = None \<or> \<not> ReloadConfig_IsEnabled (ndc_Reload c)"
  shows "\<exists>s pd'. topologicalSortMonitors (ndc_Monitors c) = Inr s \<and> Detector_Start v pd = (None, pd')
    \<and> map mh_config (pd_monitorHandles pd') = filter (startable v) s
    \<and> in_sync pd' \<and> pd_started pd' \<and> mset s = mset (ndc_Monitors c)
    \<and> (\<forall>m\<in>set (ndc_Monitors c). running pd' (mc_Name m) = (if startable v m then Some m else None))
    \<and> sn_monitorsStarted (pd_stats pd') = int (length (filter (startable v) s))
    \<and> sn_monitorsFailed (pd_stats pd') = int (length (filter (\<lambda>m. \<not> startable v m) s))"
proof -
  note new = new_detector_fields [OF assms(1)]
  note ok = validated_sort [OF new(1)]
  obtain s where s: "topologicalSortMonitors (ndc_Monitors c) = Inr s" using ok(4) by blast
  note perm = sort_Inr(1) [OF ok(1) s]
  have "mset (map mc_Name s) = mset (map mc_Name (ndc_Monitors c))" using perm by simp
  then have dist: "distinct (map mc_Name s)" using ok(1) mset_eq_imp_distinct_iff by blast
  let ?pd = "pd\<lparr>pd_dependents := fold add_dependents s (pd_dependents pd)\<rparr>"
  have empty: "in_sync ?pd" "running ?pd = Map.empty" using new(3,6) by (simp_all add: in_sync_def running_def)
  have st: "started_with v s ?pd (snd (fold (start_configured v) s ({}, ?pd)))" (is "started_with v s ?pd ?pd'")
    using start_all [of "({}, ?pd)" s v] empty dist by simp
  have start: "Detector_Start v pd = (None, ?pd'\<lparr>pd_started := True\<rparr>)"
    using assms(2) new s by (auto simp: Detector_Start_def)
  have run: "running ?pd' (mc_Name m) = (if startable v m then Some m else None)" if m: "m \<in> set s" for m
  proof (cases "startable v m")
    case True
    have "\<forall>x\<in>set (filter (startable v) s). \<forall>y\<in>set (filter (startable v) s). mc_Name x = mc_Name y \<longrightarrow> x = y"
      using dist by (auto simp: distinct_map inj_on_def)
    with store_all_stored [of m "filter (startable v) s" mc_Name "\<lambda>m. m"] True m st show ?thesis
      by (simp add: started_with_def)
  next
    case False
    then have "mc_Name m \<notin> mc_Name ` set (filter (startable v) s)"
      using dist m by (auto simp: distinct_map inj_on_def)
    from store_all_other [OF this, of "\<lambda>m. m" Map.empty] False st empty show ?thesis by (simp add: started_with_def)
  qed
  show ?thesis
    using s start st run perm new(3,7) mset_eq_setD [OF perm]
    by (intro exI [of _ s] exI [of _ "?pd'\<lparr>pd_started := True\<rparr>"])
      (simp add: started_with_def sync_fields NewStatistics_def)
qed

section \<open>Witnesses\<close>

definition demo_life :: "(unit, unit, unit) life_env" where
  "demo_life = \<lparr>lf_ck = int, lf_factory = Some (\<lambda>_. Inr ()), lf_start = \<lambda>_. None, lf_stops = \<lambda>_. True, lf_watch = None,
     lf_typeName = \<lambda>_. [], lf_reloadable = \<lambda>_. None, lf_reload = \<lambda>_ x. (None, x), lf_kubernetes = \<lambda>_. False,
     lf_removeCondition = \<lambda>_ x. x, lf_applyConfig = None\<rparr>"

definition demo_running :: "MonitorConfig list \<Rightarrow> (unit, unit, unit) ProblemDetector" where
  "demo_running ms = demo_detector\<lparr>pd_config := config_with ms, pd_started := True,
     pd_monitorHandles := map (\<lambda>m. \<lparr>mh_monitor = (), mh_config = m, mh_stopped = False\<rparr>) ms,
     pd_monitorConfigIndex := map (\<lambda>m. (mc_Name m, m)) ms\<rparr>"

lemma demo_running_agrees:
  assumes "distinct (map mc_Name ms)" "\<forall>m\<in>set ms. gomap_ok (mc_Config m)"
  shows "agrees fmt (demo_running ms) (config_with ms)"
proof -
  have run: "running (demo_running ms) = map_of (map (\<lambda>m. (mc_Name m, m)) ms)"
    by (simp add: running_def demo_running_def GetName_def comp_def)
  have "monitorsEqual fmt a m" if "running (demo_running ms) (mc_Name m) = Some a" "m \<in> set ms" for m a
  proof -
    have "m = a" using that assms(1) unfolding run by (auto dest!: map_of_SomeD simp: distinct_map inj_on_def)
    with assms(2) that(2) show ?thesis by (simp add: monitorsEqual_refl)
  qed
  moreover have "in_sync (demo_running ms)"
    using assms(1) unfolding in_sync_def run by (simp add: demo_running_def GetName_def comp_def)
  moreover have "dom (running (demo_running ms)) = mc_Name ` set ms"
    unfolding run by (simp add: dom_map_of_conv_image_fst image_image)
  ultimately show ?thesis
    by (simp add: agrees_def config_with_def)
qed

end
