(* ===== verification/Reload_Validator.thy ===== *)
theory Reload_Validator
  imports Config_Load Paths
begin

text \<open>
  \<^verbatim>\<open>pkg/reload/validator.go\<close>: the second validation that a configuration has to pass when it is reloaded.
  A function of the code adds its errors to the result, which makes it invalid; here it is the list of
  the errors it adds. \<open>registered\<close> are the types of the monitor registry, \<open>iter\<close> is the order in which
  Go walks a map. \<^verbatim>\<open>time.ParseDuration\<close> and \<^verbatim>\<open>strconv.ParseFloat\<close> are parameters: \<open>parseFloat\<close> yields
  \<open>Some None\<close> for NaN. A nil map is the empty one, so that the errors for a missing \<^verbatim>\<open>config\<close> block also
  stand for an empty one. The depth-first search has fuel; \<open>detect_cycles_total\<close> shows that it is enough.
\<close>

section \<open>Definitions\<close>

record ValidationError =
  ve_Field :: string
  ve_Message :: string

record ValidationResult =
  vr_Valid :: bool
  vr_Errors :: "ValidationError list"

record ConfigValidator =
  cv_maxMonitors :: int
  cv_maxRemediatorsPerMonitor :: int
  cv_maxWebhooksPerExporter :: int
  cv_maxDependenciesPerMonitor :: int

definition NewConfigValidator :: ConfigValidator where
  "NewConfigValidator = \<lparr>cv_maxMonitors = 100, cv_maxRemediatorsPerMonitor = 10, cv_maxWebhooksPerExporter = 50,
     cv_maxDependenciesPerMonitor = 20\<rparr>"

record number_parsers =
  np_duration :: "string \<Rightarrow> duration option"
  np_float :: "string \<Rightarrow> rat option option"

definition addError :: "bool \<Rightarrow> string \<Rightarrow> string \<Rightarrow> ValidationError list" where
  "addError failed field message = (if failed then [\<lparr>ve_Field = field, ve_Message = message\<rparr>] else [])"

definition single_quoted :: "string \<Rightarrow> string" where
  "single_quoted s = CHR 0x27 # s @ [CHR 0x27]"

definition name_char :: "char \<Rightarrow> bool" where
  "name_char c = (let n = (of_char c :: nat) in 97 \<le> n \<and> n \<le> 122 \<or> 48 \<le> n \<and> n \<le> 57 \<or> c = CHR ''-'' \<or> c = CHR ''.'')"

definition isValidKubernetesName :: "string \<Rightarrow> bool" where
  "isValidKubernetesName name =
     (if name = [] \<or> length name > 63 then False
      else if \<not> list_all name_char name then False
      else \<not> (hd name = CHR ''-'' \<or> hd name = CHR ''.'' \<or> last name = CHR ''-'' \<or> last name = CHR ''.''))"

definition validStrategies :: "string list" where
  "validStrategies = [''restart'', ''recreate'', ''script'', ''webhook'']"

definition isValidRemediationStrategy :: "string \<Rightarrow> bool" where
  "isValidRemediationStrategy s = (s \<in> set validStrategies)"

text \<open>\<^verbatim>\<open>strconv.Atoi\<close>: an optional sign and decimal digits, within 64 bits.\<close>

definition is_digit :: "char \<Rightarrow> bool" where
  "is_digit c = (48 \<le> (of_char c :: nat) \<and> (of_char c :: nat) \<le> 57)"

definition digits_value :: "string \<Rightarrow> int" where
  "digits_value s = fold (\<lambda>c a. 10 * a + int ((of_char c :: nat) - 48)) s 0"

definition Atoi :: "string \<Rightarrow> int option" where
  "Atoi s =
     (let neg = has_prefix s ''-''; ds = (if neg \<or> has_prefix s ''+'' then tl s else s);
          n = (if neg then - digits_value ds else digits_value ds)
      in if ds = [] \<or> \<not> list_all is_digit ds then None
         else if - 9223372036854775808 \<le> n \<and> n \<le> 9223372036854775807 then Some n else None)"

definition validatePort :: "cfg_value \<Rightarrow> string option" where
  "validatePort port =
     (case (case port of CVInt p \<Rightarrow> Some p | CVString s \<Rightarrow> Atoi s | _ \<Rightarrow> None) of
        None \<Rightarrow> Some ''port must be a number''
      | Some p \<Rightarrow> if p < 1 \<or> p > 65535 then Some ''port must be between 1 and 65535'' else None)"

definition validateThresholdValue :: "number_parsers \<Rightarrow> cfg_value \<Rightarrow> string option" where
  "validateThresholdValue np threshold =
     (case (case threshold of CVInt i \<Rightarrow> Some (Some (of_int i)) | CVFloat q \<Rightarrow> Some (Some q) | CVString s \<Rightarrow> np_float np s | _ \<Rightarrow> None) of
        None \<Rightarrow> Some ''threshold must be a number''
      | Some None \<Rightarrow> None
      | Some (Some q) \<Rightarrow> if q < 0 \<or> q > 100 then Some ''threshold must be between 0 and 100'' else None)"

definition validateFilePath :: "string \<Rightarrow> string option" where
  "validateFilePath path =
     (if path = [] then Some ''file path cannot be empty''
      else if \<not> IsAbs path then Some ''file path must be absolute''
      else if contains_str (Clean path) ''..'' then Some ''file path cannot contain '..' components''
      else None)"

definition validateScriptPath :: "string \<Rightarrow> string option" where
  "validateScriptPath path =
     (case validateFilePath path of Some e \<Rightarrow> Some e
      | None \<Rightarrow> if list_ex (\<lambda>c. c \<in> set path) [CHR '';'', CHR ''&'', CHR ''|'', CHR 0x60, CHR ''$'', CHR ''('', CHR '')'', CHR ''<'', CHR ''>'']
          then Some ''script path cannot contain shell metacharacters'' else None)"

subsection \<open>The parts of a monitor\<close>

definition check_key :: "(string, cfg_value) gomap \<Rightarrow> string \<Rightarrow> (cfg_value \<Rightarrow> string option) \<Rightarrow> string \<Rightarrow> ValidationError list" where
  "check_key config key check prefix =
     (case map_of config key of None \<Rightarrow> []
      | Some v \<Rightarrow> (case check v of None \<Rightarrow> [] | Some e \<Rightarrow> addError True (prefix @ ''.config.'' @ key) e))"

definition timeout_check :: "number_parsers \<Rightarrow> cfg_value \<Rightarrow> string option" where
  "timeout_check np v =
     (case v of CVString s \<Rightarrow> if s \<noteq> [] \<and> np_duration np s = None then Some ''invalid timeout duration format'' else None
      | _ \<Rightarrow> Some ''timeout must be a string'')"

definition text_check :: "string \<Rightarrow> cfg_value \<Rightarrow> string option" where
  "text_check key v =
     (case v of CVString s \<Rightarrow> if s = [] then Some (key @ '' cannot be empty'') else None
      | _ \<Rightarrow> Some (key @ '' must be a string''))"

definition prefixed :: "string \<Rightarrow> string option \<Rightarrow> string option" where
  "prefixed what e = map_option (\<lambda>e. what @ '': '' @ e) e"

definition validateKubeletConfig :: "number_parsers \<Rightarrow> MonitorConfig \<Rightarrow> string \<Rightarrow> ValidationError list" where
  "validateKubeletConfig np m prefix =
     check_key (mc_Config m) ''port'' (\<lambda>v. prefixed ''invalid kubelet port'' (validatePort v)) prefix
     @ check_key (mc_Config m) ''endpoint'' (text_check ''endpoint'') prefix
     @ check_key (mc_Config m) ''timeout'' (timeout_check np) prefix"

definition threshold_keys :: "number_parsers \<Rightarrow> MonitorConfig \<Rightarrow> string list \<Rightarrow> string \<Rightarrow> ValidationError list" where
  "threshold_keys np m keys prefix =
     concat (map (\<lambda>k. check_key (mc_Config m) k
       (\<lambda>v. prefixed (''invalid '' @ k @ '' threshold'') (validateThresholdValue np v)) prefix) keys)"

definition validateCapacityConfig :: "number_parsers \<Rightarrow> MonitorConfig \<Rightarrow> string \<Rightarrow> ValidationError list" where
  "validateCapacityConfig np m prefix = threshold_keys np m [''cpu'', ''memory'', ''disk'', ''warning'', ''critical''] prefix"

definition validateDiskCheckConfig :: "number_parsers \<Rightarrow> MonitorConfig \<Rightarrow> string \<Rightarrow> ValidationError list" where
  "validateDiskCheckConfig np m prefix =
     threshold_keys np m [''warning'', ''critical''] prefix @ check_key (mc_Config m) ''path'' (text_check ''path'') prefix"

definition validateLogPatternConfig :: "MonitorConfig \<Rightarrow> string \<Rightarrow> ValidationError list" where
  "validateLogPatternConfig m prefix =
     (if mc_Config m = [] then addError True (prefix @ ''.config'') ''log pattern monitor requires configuration''
      else check_key (mc_Config m) ''logFile'' (\<lambda>v. case v of
               CVString s \<Rightarrow> prefixed ''invalid log file path'' (validateFilePath s) | _ \<Rightarrow> Some ''logFile must be a string'') prefix
        @ addError (map_of (mc_Config m) ''logFile'' = None) (prefix @ ''.config.logFile'') ''logFile is required''
        @ check_key (mc_Config m) ''pattern'' (\<lambda>v. case v of CVString s \<Rightarrow> None | _ \<Rightarrow> Some ''pattern must be a string'') prefix
        @ addError (map_of (mc_Config m) ''pattern'' = None) (prefix @ ''.config.pattern'') ''pattern is required'')"

definition validateScriptConfig :: "number_parsers \<Rightarrow> MonitorConfig \<Rightarrow> string \<Rightarrow> ValidationError list" where
  "validateScriptConfig np m prefix =
     (if mc_Config m = [] then addError True (prefix @ ''.config'') ''script monitor requires configuration''
      else check_key (mc_Config m) ''script'' (\<lambda>v. case v of
               CVString s \<Rightarrow> prefixed ''invalid script path'' (validateScriptPath s) | _ \<Rightarrow> Some ''script must be a string'') prefix
        @ addError (map_of (mc_Config m) ''script'' = None) (prefix @ ''.config.script'') ''script path is required''
        @ check_key (mc_Config m) ''timeout'' (timeout_check np) prefix)"

definition validateMonitorRemediation :: "MonitorRemediationConfig \<Rightarrow> string \<Rightarrow> ValidationError list" where
  "validateMonitorRemediation r prefix =
     (if mr_Strategy r = [] then addError True (prefix @ ''.strategy'') ''remediation strategy is required''
      else addError (\<not> isValidRemediationStrategy (mr_Strategy r)) (prefix @ ''.strategy'')
        (''unsupported remediation strategy '' @ single_quoted (mr_Strategy r)))"

definition validate_type_config :: "number_parsers \<Rightarrow> MonitorConfig \<Rightarrow> string \<Rightarrow> ValidationError list" where
  "validate_type_config np m prefix =
     (if mc_Type m = ''kubernetes-kubelet-check'' then validateKubeletConfig np m prefix
      else if mc_Type m = ''kubernetes-capacity-check'' then validateCapacityConfig np m prefix
      else if mc_Type m = ''system-disk'' then validateDiskCheckConfig np m prefix
      else if mc_Type m = ''custom-logpattern'' then validateLogPatternConfig m prefix
      else if mc_Type m = ''custom-plugin'' then validateScriptConfig np m prefix
      else [])"

definition validateMonitor ::
  "ConfigValidator \<Rightarrow> number_parsers \<Rightarrow> string list \<Rightarrow> MonitorConfig \<Rightarrow> string \<Rightarrow> ValidationError list" where
  "validateMonitor v np registered m prefix =
     (if mc_Name m = [] then addError True (prefix @ ''.name'') ''monitor name is required''
      else addError (\<not> isValidKubernetesName (mc_Name m)) (prefix @ ''.name'')
        ''monitor name must be a valid Kubernetes resource name'')
     @ (if mc_Type m = [] then addError True (prefix @ ''.type'') ''monitor type is required''
        else addError (mc_Type m \<notin> set registered) (prefix @ ''.type'') (''unsupported monitor type '' @ single_quoted (mc_Type m)))
     @ (if mc_Interval m \<le> 0 then addError True (prefix @ ''.interval'') ''monitor interval must be positive''
        else addError (mc_Interval m < 5 * second) (prefix @ ''.interval'') ''monitor interval must be at least 5 seconds'')
     @ validate_type_config np m prefix
     @ (case mc_Remediation m of None \<Rightarrow> [] | Some r \<Rightarrow> validateMonitorRemediation r (prefix @ ''.remediation''))
     @ addError (int (length (mc_DependsOn m)) > cv_maxDependenciesPerMonitor v) (prefix @ ''.dependsOn'')
         (''too many dependencies: '' @ show_nat (length (mc_DependsOn m)) @ '' (max: '' @ show_int (cv_maxDependenciesPerMonitor v) @ '')'')"

subsection \<open>Monitors, exporters and the whole configuration\<close>

fun validate_monitor_list ::
  "ConfigValidator \<Rightarrow> number_parsers \<Rightarrow> string list \<Rightarrow> nat \<Rightarrow> (string, nat) gomap \<Rightarrow> MonitorConfig list \<Rightarrow> ValidationError list" where
  "validate_monitor_list v np registered i names [] = []"
| "validate_monitor_list v np registered i names (m # ms) =
     (let prefix = ''monitors['' @ show_nat i @ '']''
      in validateMonitor v np registered m prefix
         @ (case map_of names (mc_Name m) of
              Some prev \<Rightarrow> addError True (prefix @ ''.name'')
                (''duplicate monitor name '' @ single_quoted (mc_Name m) @ '' (first defined at monitors['' @ show_nat prev @ ''])'')
                @ validate_monitor_list v np registered (Suc i) names ms
            | None \<Rightarrow> validate_monitor_list v np registered (Suc i) (AList.update (mc_Name m) i names) ms))"

definition too_many_monitors :: "ConfigValidator \<Rightarrow> MonitorConfig list \<Rightarrow> ValidationError list" where
  "too_many_monitors v ms = addError (int (length ms) > cv_maxMonitors v) ''monitors''
     (''too many monitors: '' @ show_nat (length ms) @ '' (max: '' @ show_int (cv_maxMonitors v) @ '')'')"

definition validateMonitors ::
  "ConfigValidator \<Rightarrow> number_parsers \<Rightarrow> string list \<Rightarrow> MonitorConfig list \<Rightarrow> ValidationError list" where
  "validateMonitors v np registered ms =
     (if ms = [] then addError True ''monitors'' ''at least one monitor must be configured''
      else too_many_monitors v ms @ validate_monitor_list v np registered 0 [] ms)"

definition validateStructure :: "NodeDoctorConfig \<Rightarrow> ValidationError list" where
  "validateStructure c =
     addError (ndc_APIVersion c = []) ''apiVersion'' ''apiVersion is required''
     @ (if ndc_Kind c = [] then addError True ''kind'' ''kind is required''
        else addError (ndc_Kind c \<noteq> ''NodeDoctorConfig'') ''kind'' (''kind must be '' @ single_quoted ''NodeDoctorConfig''))
     @ (if cm_Name (ndc_Metadata c) = [] then addError True ''metadata.name'' ''name is required''
        else addError (\<not> isValidKubernetesName (cm_Name (ndc_Metadata c))) ''metadata.name''
          ''name must be a valid Kubernetes resource name'')"

definition validateKubernetesExporter :: "KubernetesExporterConfig \<Rightarrow> string \<Rightarrow> ValidationError list" where
  "validateKubernetesExporter e prefix =
     (if ke_Namespace e = [] then addError True (prefix @ ''.namespace'') ''namespace is required''
      else addError (\<not> isValidKubernetesName (ke_Namespace e)) (prefix @ ''.namespace'')
        ''namespace must be a valid Kubernetes resource name'')"

definition validateHTTPExporter :: "ConfigValidator \<Rightarrow> HTTPExporterConfig \<Rightarrow> string \<Rightarrow> ValidationError list" where
  "validateHTTPExporter v e prefix =
     (if he_Webhooks e = [] then addError True (prefix @ ''.webhooks'') ''at least one webhook must be configured''
      else addError (int (length (he_Webhooks e)) > cv_maxWebhooksPerExporter v) (prefix @ ''.webhooks'')
          (''too many webhooks: '' @ show_nat (length (he_Webhooks e)) @ '' (max: '' @ show_int (cv_maxWebhooksPerExporter v) @ '')'')
        @ concat (map (\<lambda>(i, w).
            let p = prefix @ ''.webhooks['' @ show_nat i @ '']''
            in addError (wh_URL w = []) (p @ ''.url'') ''webhook URL is required''
               @ addError (wh_Timeout w \<le> 0) (p @ ''.timeout'') ''webhook timeout must be positive'')
          (enumerate 0 (he_Webhooks e))))"

definition validatePrometheusExporter :: "PrometheusExporterConfig \<Rightarrow> string \<Rightarrow> ValidationError list" where
  "validatePrometheusExporter e prefix =
     (if pe_Port e \<le> 0 then addError True (prefix @ ''.port'') ''port must be positive''
      else addError (pe_Port e < 1024 \<or> pe_Port e > 65535) (prefix @ ''.port'') ''port must be between 1024 and 65535'')
     @ (if pe_Path e = [] then addError True (prefix @ ''.path'') ''metrics path is required''
        else addError (\<not> has_prefix (pe_Path e) ''/'') (prefix @ ''.path'')
          (''metrics path must start with '' @ single_quoted ''/''))"

definition enabled_errors :: "('a \<Rightarrow> bool) \<Rightarrow> ('a \<Rightarrow> ValidationError list) \<Rightarrow> 'a option \<Rightarrow> ValidationError list option" where
  "enabled_errors enabled validate e = (case e of None \<Rightarrow> None | Some x \<Rightarrow> if enabled x then Some (validate x) else None)"

definition validateExporters :: "ConfigValidator \<Rightarrow> ExporterConfigs \<Rightarrow> ValidationError list" where
  "validateExporters v e =
     (let k = enabled_errors ke_Enabled (\<lambda>x. validateKubernetesExporter x ''exporters.kubernetes'') (ex_Kubernetes e);
          h = enabled_errors he_Enabled (\<lambda>x. validateHTTPExporter v x ''exporters.http'') (ex_HTTP e);
          p = enabled_errors pe_Enabled (\<lambda>x. validatePrometheusExporter x ''exporters.prometheus'') (ex_Prometheus e);
          errs = (\<lambda>x. case x of None \<Rightarrow> [] | Some es \<Rightarrow> es)
      in errs k @ errs h @ errs p
         @ addError (k = None \<and> h = None \<and> p = None) ''exporters'' ''at least one exporter must be enabled'')"

definition validateLimits :: "ConfigValidator \<Rightarrow> NodeDoctorConfig \<Rightarrow> ValidationError list" where
  "validateLimits v c = too_many_monitors v (ndc_Monitors c)"

definition validateConsistency :: "NodeDoctorConfig \<Rightarrow> ValidationError list" where
  "validateConsistency c =
     (if rmc_Enabled (ndc_Remediation c) then []
      else concat (map (\<lambda>(i, m). addError (case mc_Remediation m of None \<Rightarrow> False | Some r \<Rightarrow> mr_Enabled r)
          (''monitors['' @ show_nat i @ ''].remediation.enabled'')
          ''monitor-level remediation is enabled but global remediation is disabled'') (enumerate 0 (ndc_Monitors c))))"

text \<open>The dependency graph: only monitors that depend on something have an entry.\<close>

definition reload_graph :: "MonitorConfig list \<Rightarrow> (string, string list) gomap" where
  "reload_graph ms = fold (\<lambda>m g. if mc_DependsOn m = [] then g else AList.update (mc_Name m) (mc_DependsOn m) g) ms []"

definition missing_errors :: "MonitorConfig list \<Rightarrow> ValidationError list" where
  "missing_errors ms = concat (map (\<lambda>(i, m). concat (map (\<lambda>(j, dep).
       addError (dep \<notin> set (map mc_Name ms)) (''monitors['' @ show_nat i @ ''].dependsOn['' @ show_nat j @ '']'')
         (''dependency '' @ single_quoted dep @ '' references non-existent monitor'')) (enumerate 0 (mc_DependsOn m))))
     (enumerate 0 ms))"

text \<open>
  \<^verbatim>\<open>detectCycle\<close> returns the cycle, empty if there is none, and the colours: 0 unvisited, 1 on the path, 2 done.
\<close>

fun detectCycle ::
  "nat \<Rightarrow> (string, string list) gomap \<Rightarrow> string \<Rightarrow> (string, int) gomap \<Rightarrow> string list \<Rightarrow> (string list \<times> (string, int) gomap) option"
  and detect_neighbors ::
  "nat \<Rightarrow> (string, string list) gomap \<Rightarrow> string list \<Rightarrow> (string, int) gomap \<Rightarrow> string list \<Rightarrow> (string list \<times> (string, int) gomap) option" where
  "detectCycle 0 g node visited path = None"
| "detectCycle (Suc n) g node visited path =
     (if gomap_get 0 visited node = 1 \<and> node \<in> set path then Some (dropWhile (\<lambda>x. x \<noteq> node) path @ [node], visited)
      else if gomap_get 0 visited node = 2 then Some ([], visited)
      else case detect_neighbors n g (gomap_get [] g node) (AList.update node 1 visited) (path @ [node]) of
          None \<Rightarrow> None
        | Some (cycle, visited') \<Rightarrow>
            if cycle \<noteq> [] then Some (cycle, visited') else Some ([], AList.update node 2 visited'))"
| "detect_neighbors n g [] visited path = Some ([], visited)"
| "detect_neighbors n g (d # ds) visited path =
     (case detectCycle n g d visited path of
        None \<Rightarrow> None
      | Some (cycle, visited') \<Rightarrow> if cycle \<noteq> [] then Some (cycle, visited') else detect_neighbors n g ds visited' path)"

fun detect_cycles ::
  "nat \<Rightarrow> (string, string list) gomap \<Rightarrow> string list \<Rightarrow> (string, int) gomap \<Rightarrow> string list option" where
  "detect_cycles n g [] visited = Some []"
| "detect_cycles n g (a # as) visited =
     (if gomap_get 0 visited a = 0 then
        (case detectCycle n g a visited [] of None \<Rightarrow> None
         | Some (cycle, visited') \<Rightarrow> if cycle \<noteq> [] then Some cycle else detect_cycles n g as visited')
      else detect_cycles n g as visited)"

definition validateMonitorDependencies ::
  "((string, string list) gomap \<Rightarrow> (string, string list) gomap) \<Rightarrow> MonitorConfig list \<Rightarrow> ValidationError list" where
  "validateMonitorDependencies iter ms =
     (let g = reload_graph ms; fuel = length ms + length (concat (map mc_DependsOn ms)) + 1
      in missing_errors ms
         @ (case detect_cycles fuel g (map fst (iter g)) [] of
              Some (c # cs) \<Rightarrow> addError True ''monitors'' (''circular dependency detected: '' @ join '' -> '' (c # cs))
            | _ \<Rightarrow> []))"

definition Validate ::
  "ConfigValidator \<Rightarrow> number_parsers \<Rightarrow> string list \<Rightarrow> ((string, string list) gomap \<Rightarrow> (string, string list) gomap) \<Rightarrow>
   NodeDoctorConfig option \<Rightarrow> ValidationResult" where
  "Validate v np registered iter config =
     (let errs = (case config of None \<Rightarrow> addError True ''config'' ''configuration cannot be nil''
        | Some c \<Rightarrow> validateStructure c @ validateMonitors v np registered (ndc_Monitors c)
            @ validateExporters v (ndc_Exporters c) @ validateLimits v c @ validateConsistency c
            @ validateMonitorDependencies iter (ndc_Monitors c))
      in \<lparr>vr_Valid = (errs = []), vr_Errors = errs\<rparr>)"

definition FormatValidationErrors :: "ValidationError list \<Rightarrow> string" where
  "FormatValidationErrors errs =
     (case errs of [] \<Rightarrow> []
      | [e] \<Rightarrow> ve_Field e @ '': '' @ ve_Message e
      | _ \<Rightarrow> ''Configuration validation failed with '' @ show_nat (length errs) @ '' error(s):''
          @ concat (map (\<lambda>e. CHR 0x0A # ''  - '' @ ve_Field e @ '': '' @ ve_Message e) errs))"

section \<open>The two searches for cycles agree\<close>

text \<open>
  The search at reload follows the one at start step by step; where that one reports the whole path, this one
  reports its last part, which starts and ends with the repeated monitor.
\<close>

definition same_search :: "(config_error + dfs_state) option \<Rightarrow> (string list \<times> (string, int) gomap) option \<Rightarrow> bool" where
  "same_search a b \<longleftrightarrow> (case a of None \<Rightarrow> b = None
     | Some (Inr sp) \<Rightarrow> b = Some ([], fst sp)
     | Some (Inl e) \<Rightarrow> \<exists>p st. e = CircularDependency p \<and> p \<noteq> [] \<and> b = Some (dropWhile (\<lambda>x. x \<noteq> last p) p, st))"

lemma cycle_nonempty: "p \<noteq> [] \<Longrightarrow> dropWhile (\<lambda>x. x \<noteq> last p) p \<noteq> []"
  by (auto simp: dropWhile_eq_Nil_conv)

lemma last_of_dropWhile: "dropWhile P xs \<noteq> [] \<Longrightarrow> last (dropWhile P xs) = last xs"
  by (induction xs) auto

lemma same_search_cases:
  assumes "same_search a b"
  obtains "a = None" "b = None"
  | st p where "a = Some (Inr (st, p))" "b = Some ([], st)"
  | p st where "a = Some (Inl (CircularDependency p))" "p \<noteq> []" "b = Some (dropWhile (\<lambda>x. x \<noteq> last p) p, st)"
  using assms by (auto simp: same_search_def split: option.splits sum.splits)

lemma detect_simulates_dfs:
  "dfs_inv g st path \<Longrightarrow> (path \<noteq> [] \<longrightarrow> (last path, name) \<in> edges g) \<Longrightarrow>
     same_search (dfs n g name (st, path)) (detectCycle n g name st path)"
  "dfs_inv g st path \<Longrightarrow> path \<noteq> [] \<Longrightarrow> (\<forall>d\<in>set ds. (last path, d) \<in> edges g) \<Longrightarrow>
     same_search (dfs_deps n g ds (st, path)) (detect_neighbors n g ds st path)"
proof (induction n g name "(st, path)" and n g ds "(st, path)" arbitrary: st path and st path
    rule: dfs_dfs_deps.induct)
  case (1 g name)
  then show ?case by (simp add: same_search_def)
next
  case (2 n g name st path)
  show ?case
  proof (cases "gomap_get 0 st name = 2 \<or> gomap_get 0 st name = 1")
    case True
    have "name \<in> set path" if "gomap_get 0 st name = 1" using that 2(2) by (auto simp: dfs_inv_def)
    then show ?thesis using True by (auto simp: same_search_def dropWhile_append1)
  next
    case False
    have inv1: "dfs_inv g (AList.update name 1 st) (path @ [name])" using dfs_inv_push 2(2,3) False by blast
    have "same_search (dfs_deps n g (gomap_get [] g name) (AList.update name 1 st, path @ [name]))
        (detect_neighbors n g (gomap_get [] g name) (AList.update name 1 st) (path @ [name]))"
      using 2(1) [OF _ _ inv1] False by (simp add: edges_def)
    then show ?thesis
      by (cases rule: same_search_cases) (use False cycle_nonempty in \<open>auto simp: same_search_def\<close>)
  qed
next
  case (3 n g)
  then show ?case by (simp add: same_search_def)
next
  case (4 n g d ds)
  have edge: "path \<noteq> [] \<longrightarrow> (last path, d) \<in> edges g" using 4(5) by simp
  from 4(1) [OF 4(3) edge] show ?case
  proof (cases rule: same_search_cases)
    case 1
    then show ?thesis by (simp add: same_search_def)
  next
    case (2 st' p)
    from dfs_correct(1) [OF 2(1) 4(3) edge] have "p = path" "dfs_inv g st' path" by simp_all
    with 4(2) [OF 2(1) refl] 4(4,5) 2 show ?thesis by simp
  next
    case (3 p st')
    with cycle_nonempty [OF 3(2)] show ?thesis by (auto simp: same_search_def)
  qed
qed

lemma detect_cycles_dfs:
  assumes "dfs_inv g st []"
  shows "case dfs_monitors n g as st of None \<Rightarrow> detect_cycles n g as st = None
    | Some (Inr st') \<Rightarrow> detect_cycles n g as st = Some []
    | Some (Inl e) \<Rightarrow> \<exists>p. e = CircularDependency p \<and> p \<noteq> [] \<and> detect_cycles n g as st = Some (dropWhile (\<lambda>x. x \<noteq> last p) p)"
  using assms
proof (induction as arbitrary: st)
  case (Cons a as)
  show ?case
  proof (cases "gomap_get 0 st a = 0")
    case True
    have "same_search (dfs n g a (st, [])) (detectCycle n g a st [])"
      by (rule detect_simulates_dfs(1) [OF Cons.prems]) simp
    then show ?thesis
    proof (cases rule: same_search_cases)
      case (2 st' p)
      from dfs_correct(1) [OF 2(1) Cons.prems] have "p = []" "dfs_inv g st' []" by simp_all
      moreover have "detect_cycles n g (a # as) st = detect_cycles n g as st'"
        "dfs_monitors n g (a # as) st = dfs_monitors n g as st'" using 2 True by simp_all
      ultimately show ?thesis using Cons.IH [of st'] by (simp only:)
    next
      case (3 p st')
      with cycle_nonempty [OF 3(2)] True show ?thesis by simp
    qed (use True in simp_all)
  next
    case False
    then have "detect_cycles n g (a # as) st = detect_cycles n g as st"
      "dfs_monitors n g (a # as) st = dfs_monitors n g as st" by simp_all
    with Cons.IH [OF Cons.prems] show ?thesis by (simp only:)
  qed
qed simp

lemma reload_graph_filter: "reload_graph ms = dependency_graph (filter (\<lambda>m. mc_DependsOn m \<noteq> []) ms)"
proof -
  have "fold (\<lambda>m g. if mc_DependsOn m = [] then g else AList.update (mc_Name m) (mc_DependsOn m) g) ms g
    = fold (\<lambda>m. AList.update (mc_Name m) (mc_DependsOn m)) (filter (\<lambda>m. mc_DependsOn m \<noteq> []) ms) g" for g
    by (induction ms arbitrary: g) simp_all
  then show ?thesis by (simp add: reload_graph_def dependency_graph_def)
qed

lemma edges_reload_graph:
  assumes "distinct (map mc_Name ms)"
  shows "edges (reload_graph ms) = depends_on ms"
proof -
  have "distinct (map mc_Name (filter (\<lambda>m. mc_DependsOn m \<noteq> []) ms))" using assms by (rule distinct_map_filter)
  moreover have "depends_on (filter (\<lambda>m. mc_DependsOn m \<noteq> []) ms) = depends_on ms" by (force simp: depends_on_def)
  ultimately show ?thesis unfolding reload_graph_filter by (simp add: edges_dependency_graph)
qed

lemma detect_cycles_total:
  assumes "distinct (map mc_Name ms)" "\<forall>g. set (iter g) = set g"
    "fuel = length ms + length (concat (map mc_DependsOn ms)) + 1"
  shows "\<exists>cycle. detect_cycles fuel (reload_graph ms) (map fst (iter (reload_graph ms))) [] = Some cycle
    \<and> (cycle = [] \<longleftrightarrow> acyclic (depends_on ms))
    \<and> (cycle \<noteq> [] \<longrightarrow> hd cycle = last cycle \<and> (hd cycle, hd cycle) \<in> (depends_on ms)\<^sup>+)"
proof -
  let ?g = "reload_graph ms" and ?N = "mc_Name ` set ms \<union> set (concat (map mc_DependsOn ms))"
  let ?as = "map fst (iter ?g)"
  have E: "edges ?g = depends_on ms" by (rule edges_reload_graph [OF assms(1)])
  have nodes: "set (gomap_get [] ?g a) \<subseteq> ?N" for a
  proof
    fix b assume "b \<in> set (gomap_get [] ?g a)"
    then have "(a, b) \<in> edges ?g" by (simp add: edges_def)
    then show "b \<in> ?N" unfolding E by (auto simp: depends_on_def)
  qed
  have keys: "a \<in> set ?as" if "(a, b) \<in> depends_on ms" for a b
  proof -
    from that have "(a, b) \<in> edges ?g" unfolding E .
    then have "b \<in> set (gomap_get [] ?g a)" by (simp add: edges_def)
    then have "a \<in> fst ` set ?g" by (cases "map_of ?g a") (auto simp: gomap_get_def dest: map_of_SomeD intro: rev_image_eqI)
    then show ?thesis using assms(2) by simp
  qed
  have "fst ` set ?g \<subseteq> mc_Name ` set ms"
  proof -
    have "fst ` set (fold (\<lambda>m. AList.update (mc_Name m) (mc_DependsOn m)) xs g) \<subseteq> fst ` set g \<union> mc_Name ` set xs" for xs g
    proof (induction xs arbitrary: g)
      case (Cons x xs)
      from Cons.IH [of "AList.update (mc_Name x) (mc_DependsOn x) g"] show ?case unfolding dom_update by auto
    qed simp
    from this [of "filter (\<lambda>m. mc_DependsOn m \<noteq> []) ms" "[]"] show ?thesis
      by (auto simp: reload_graph_filter dependency_graph_def)
  qed
  then have as: "set ?as \<subseteq> ?N" using assms(2) by auto
  have "card ?N \<le> card (mc_Name ` set ms) + card (set (concat (map mc_DependsOn ms)))" by (rule card_Un_le)
  also have "\<dots> \<le> length ms + length (concat (map mc_DependsOn ms))"
    using card_image_le [of "set ms" mc_Name] card_length [of ms] card_length [of "concat (map mc_DependsOn ms)"]
    by (meson List.finite_set add_mono le_trans)
  finally have "card ?N < fuel" using assms(3) by simp
  moreover have inv: "dfs_inv ?g [] []" by (simp add: dfs_inv_def)
  ultimately obtain res where run: "dfs_monitors fuel ?g ?as [] = Some res" and res: "search_spec ?g [] ?as res"
    using dfs_monitors_correct [of ?N ?g "[]" ?as fuel] nodes as by auto
  note sim = detect_cycles_dfs [OF inv, of fuel ?as]
  show ?thesis
  proof (cases res)
    case (Inl e)
    then obtain p where p: "e = CircularDependency p" "p \<noteq> []" "detect_cycles fuel ?g ?as [] = Some (dropWhile (\<lambda>x. x \<noteq> last p) p)"
      "(last p, last p) \<in> (depends_on ms)\<^sup>+"
      using sim run res by (auto simp: search_spec_def E)
    have "hd (dropWhile (\<lambda>x. x \<noteq> last p) p) = last p" "last (dropWhile (\<lambda>x. x \<noteq> last p) p) = last p"
      using hd_dropWhile [OF cycle_nonempty [OF p(2)]] last_of_dropWhile [OF cycle_nonempty [OF p(2)]] by simp_all
    with p cycle_nonempty [OF p(2)] show ?thesis by (auto simp: acyclic_def)
  next
    case (Inr st')
    have "(a, a) \<notin> (depends_on ms)\<^sup>+" for a
    proof
      assume cyc: "(a, a) \<in> (depends_on ms)\<^sup>+"
      then obtain b where "(a, b) \<in> depends_on ms" by (auto dest: tranclD)
      from keys [OF this] Inr res cyc show False by (auto simp: dfs_inv_def search_spec_def E)
    qed
    with Inr sim run show ?thesis by (auto simp: acyclic_def)
  qed
qed

lemma detect_exact:
  assumes "distinct (map mc_Name ms)"
  shows "detectCircularDependencies ms = None \<longleftrightarrow>
    (\<forall>m\<in>set ms. set (mc_DependsOn m) \<subseteq> mc_Name ` set ms) \<and> acyclic (depends_on ms)"
proof (cases "missing_dependency ms")
  case None
  from search_exact [OF assms None] obtain res where
    run: "dfs_monitors (length ms + 1) (dependency_graph ms) (map mc_Name ms) [] = Some res"
    "(\<exists>st'. res = Inr st') \<longleftrightarrow> acyclic (depends_on ms)" by blast
  then have "detectCircularDependencies ms = None \<longleftrightarrow> acyclic (depends_on ms)"
    using None by (cases res) (auto simp: detectCircularDependencies_def)
  with None show ?thesis by (simp add: missing_dependency_None)
next
  case (Some e)
  then have "missing_dependency ms \<noteq> None" by simp
  then show ?thesis unfolding missing_dependency_None using Some by (auto simp: detectCircularDependencies_def)
qed

lemma addError_Nil [simp]: "addError b f m = [] \<longleftrightarrow> \<not> b"
  by (simp add: addError_def)

lemma ball_enumerate: "(\<forall>x\<in>set (enumerate k xs). P (snd x)) \<longleftrightarrow> (\<forall>x\<in>set xs. P x)"
proof -
  have "snd ` set (enumerate k xs) = set xs" by (metis map_snd_enumerate set_map)
  then show ?thesis by (metis image_iff)
qed

lemma missing_errors_Nil:
  "missing_errors ms = [] \<longleftrightarrow> (\<forall>m\<in>set ms. set (mc_DependsOn m) \<subseteq> mc_Name ` set ms)"
  unfolding missing_errors_def concat_eq_Nil_conv list.set_map ball_simps case_prod_unfold addError_Nil
  using ball_enumerate [where P = "\<lambda>m. \<forall>x\<in>set (enumerate 0 (mc_DependsOn m)). snd x \<in> mc_Name ` set ms"]
    ball_enumerate [where P = "\<lambda>d. d \<in> mc_Name ` set ms"] by (simp add: subset_eq)

section \<open>The check of paths\<close>

lemma contains_dots_slash:
  "contains_str (x @ CHR ''/'' # y) ''..'' \<Longrightarrow> contains_str x ''..'' \<or> contains_str y ''..''"
proof (induction x)
  case (Cons c x)
  then show ?case by (cases x) (auto simp: has_prefix_def)
qed (simp add: has_prefix_def)

lemma contains_dots_join:
  "contains_str (join ''/'' es) ''..'' \<Longrightarrow> \<exists>e\<in>set es. contains_str e ''..''"
proof (induction "''/''" es rule: join.induct)
  case (3 x y ys)
  then have "contains_str x ''..'' \<or> contains_str (join ''/'' (y # ys)) ''..''" using contains_dots_slash [of x] by simp
  with 3(1) show ?case by auto
qed simp_all

lemma Clean_contains_dots:
  assumes "IsAbs p" "contains_str (Clean p) ''..''"
  shows "\<exists>e\<in>set (elements p). e \<noteq> ''..'' \<and> contains_str e ''..''"
proof -
  let ?w = "rev (walk True [] (elements p))"
  have "contains_str (join ''/'' ?w) ''..''"
    using assms contains_dots_slash [of "[]" "join ''/'' ?w"] by (simp add: Clean_def)
  then obtain e where e: "e \<in> set ?w" "contains_str e ''..''" using contains_dots_join by blast
  moreover have "e \<noteq> ''..''" using walk_rooted [of "[]" "elements p"] e(1) by (auto simp: list_all_iff)
  moreover have "e \<in> set (elements p)" using walk_elements [of True "[]" "elements p"] e(1) by auto
  ultimately show ?thesis by blast
qed

section \<open>Properties\<close>

text \<open>
  C39. The dependency check of a reload agrees with the one at start. For monitors with distinct names the
  depth-first search over the map of dependencies ends, in whatever order the map is walked, and the check
  reports no error exactly when \<^verbatim>\<open>detectCircularDependencies\<close> accepts the monitors; a cycle it reports starts
  and ends with the same monitor, which does depend on itself.\<close>

theorem reload_dependency_check_exact:
  assumes "distinct (map mc_Name ms)" "\<forall>g. set (iter g) = set g"
  shows "(\<exists>cycle. detect_cycles (length ms + length (concat (map mc_DependsOn ms)) + 1) (reload_graph ms)
        (map fst (iter (reload_graph ms))) [] = Some cycle
      \<and> (cycle \<noteq> [] \<longrightarrow> hd cycle = last cycle \<and> (hd cycle, hd cycle) \<in> (depends_on ms)\<^sup>+))
    \<and> (validateMonitorDependencies iter ms = [] \<longleftrightarrow> detectCircularDependencies ms = None)"
proof -
  obtain cycle where c: "detect_cycles (length ms + length (concat (map mc_DependsOn ms)) + 1) (reload_graph ms)
        (map fst (iter (reload_graph ms))) [] = Some cycle" "cycle = [] \<longleftrightarrow> acyclic (depends_on ms)"
    "cycle \<noteq> [] \<longrightarrow> hd cycle = last cycle \<and> (hd cycle, hd cycle) \<in> (depends_on ms)\<^sup>+"
    using detect_cycles_total [OF assms refl] by blast
  then have "validateMonitorDependencies iter ms = [] \<longleftrightarrow> missing_errors ms = [] \<and> acyclic (depends_on ms)"
    by (cases cycle) (auto simp: validateMonitorDependencies_def Let_def)
  then have "validateMonitorDependencies iter ms = [] \<longleftrightarrow> detectCircularDependencies ms = None"
    by (simp add: missing_errors_Nil detect_exact [OF assms(1)])
  with c show ?thesis by blast
qed

text \<open>
  Configurations that start but can never be reloaded. A configuration that start-up validation accepts
  is rejected at every reload, whatever the limits and the registered types, if one of its monitors has its
  remediation enabled, or has a remediation block without a strategy, or is a log-pattern monitor without the key
  \<^verbatim>\<open>logFile\<close>, or a plugin monitor without the key \<^verbatim>\<open>script\<close>: the strategies that start-up accepts and
  those that a reload accepts have none in common, and the monitors do not know the two keys.\<close>

lemma reload_rejects_configs_that_start:
  assumes "ValidateWithRegistry reg c = None" "m \<in> set (ndc_Monitors c)"
    "(\<exists>r. mc_Remediation m = Some r \<and> (mr_Enabled r \<or> mr_Strategy r = []))
     \<or> mc_Type m = ''custom-logpattern'' \<and> map_of (mc_Config m) ''logFile'' = None
     \<or> mc_Type m = ''custom-plugin'' \<and> map_of (mc_Config m) ''script'' = None"
  shows "\<not> vr_Valid (Validate v np registered iter (Some c))"
proof -
  have "validateMonitor v np registered m prefix \<noteq> []" for prefix
    using assms(3)
  proof (elim disjE exE conjE)
    fix r assume r: "mc_Remediation m = Some r" "mr_Enabled r"
    have "MonitorConfig_Validate m = None"
      using assms(1,2) validate_monitors_None [of 0 "[]" "ndc_Monitors c"]
      by (auto simp: ValidateWithRegistry_def NodeDoctorConfig_Validate_def)
    then have "MonitorRemediationConfig_Validate r = None"
      using r(1) by (auto simp: MonitorConfig_Validate_def)
    then have "strategy_check r = None" using r(2) by (simp add: MonitorRemediationConfig_Validate.simps)
    then have "mr_Strategy r \<in> set validRemediationStrategies"
      by (auto simp: strategy_check_def first_failed_None simp del: first_failed.simps)
    then have "\<not> isValidRemediationStrategy (mr_Strategy r)"
      by (auto simp: isValidRemediationStrategy_def validStrategies_def validRemediationStrategies_def)
    then show ?thesis using r(1) by (simp add: validateMonitor_def validateMonitorRemediation_def)
  qed (auto simp: validateMonitor_def validateMonitorRemediation_def validate_type_config_def
      validateLogPatternConfig_def validateScriptConfig_def)
  then have "validate_monitor_list v np registered i names ms \<noteq> []" if "m \<in> set ms" for i names ms
    using that by (induction v np registered i names ms rule: validate_monitor_list.induct) (auto simp: Let_def split: option.splits)
  then have "validateMonitors v np registered (ndc_Monitors c) \<noteq> []"
    using assms(2) by (auto simp: validateMonitors_def)
  then show ?thesis by (simp add: Validate_def Let_def)
qed

text \<open>
  The check against path traversal does not see it. The test for \<^verbatim>\<open>..\<close> comes after the path was cleaned, and
  cleaning an absolute path removes every \<^verbatim>\<open>..\<close> element: each absolute path is accepted whose elements,
  apart from those that are \<^verbatim>\<open>..\<close> itself, have no two dots in a row.\<close>

lemma path_traversal_is_accepted:
  assumes "IsAbs p" "\<forall>e\<in>set (elements p). e = ''..'' \<or> \<not> contains_str e ''..''"
  shows "validateFilePath p = None"
  using assms Clean_contains_dots [OF assms(1)] by (auto simp: validateFilePath_def IsAbs_def has_prefix_def)

section \<open>Witnesses\<close>

theorem reload_dependency_check_exact_witness:
  "validateMonitorDependencies (\<lambda>g. g) [demo_monitor ''a'' [''b''], demo_monitor ''b'' [''a'']] \<noteq> []"
proof -
  let ?ms = "[demo_monitor ''a'' [''b''], demo_monitor ''b'' [''a'']]"
  have "detectCircularDependencies ?ms \<noteq> None"
    by (simp add: detectCircularDependencies_def missing_dependency_def dependency_graph_def demo_monitor_def
        zero_MonitorConfig_def gomap_get_def eval_nat_numeral)
  with reload_dependency_check_exact [of ?ms "\<lambda>g. g"] show ?thesis
    by (simp add: demo_monitor_def zero_MonitorConfig_def)
qed

definition demo_restart :: MonitorConfig where
  "demo_restart = (demo_monitor ''kubelet'' [])\<lparr>mc_Interval := 30 * second, mc_Timeout := 10 * second,
     mc_Remediation := Some (MonitorRemediationConfig True ''systemd-restart'' [] ''kubelet'' [] [] [] [] False [] 1 [] 0 [])\<rparr>"

definition demo_parsers :: number_parsers where
  "demo_parsers = \<lparr>np_duration = \<lambda>_. None, np_float = \<lambda>_. None\<rparr>"

end
