(* ===== verification/Monitor_Registry.thy ===== *)
theory Monitor_Registry
  imports Config_Load "HOL-Library.List_Lexorder" "HOL-Library.Char_ord" "HOL-Library.Multiset"
begin

text \<open>
  \<^verbatim>\<open>pkg/monitors/registry.go\<close>: the registry of monitor types, and the normalisation of a configuration in
  \<^verbatim>\<open>cmd/node-doctor/main.go\<close> that start and reload share. A factory may panic; the registry recovers. \<open>iter\<close> is
  the order in which Go walks the map of types. The lock and the package-level wrappers are left out.
\<close>

section \<open>Definitions\<close>

datatype 'm factory_outcome = MonitorCreated 'm | MonitorFactoryError string | MonitorFactoryPanic string

record 'm MonitorInfo =
  mi_Type :: string
  mi_Factory :: "(MonitorConfig \<Rightarrow> 'm factory_outcome) option"
  mi_Validator :: "(MonitorConfig \<Rightarrow> string option) option"
  mi_Description :: string
  mi_DefaultConfig :: "MonitorConfig option"

type_synonym 'm Registry = "(string, 'm MonitorInfo) gomap"

datatype register_error = ErrEmptyMonitorType | ErrNilFactory string | ErrDuplicateMonitorType string

datatype monitor_error =
    MonitorTypeRequired
  | MonitorTypeUnknown string "string list"
  | MonitorInvalid string string
  | MonitorCreateFailed string string
  | MonitorFactoryPanicked string string

definition Monitors_NewRegistry :: "'m Registry" where
  "Monitors_NewRegistry = []"

definition Monitors_Register :: "'m MonitorInfo \<Rightarrow> 'm Registry \<Rightarrow> register_error option \<times> 'm Registry" where
  "Monitors_Register info r =
     (if mi_Type info = [] then (Some ErrEmptyMonitorType, r)
      else if mi_Factory info = None then (Some (ErrNilFactory (mi_Type info)), r)
      else if map_of r (mi_Type info) \<noteq> None then (Some (ErrDuplicateMonitorType (mi_Type info)), r)
      else (None, AList.update (mi_Type info) info r))"

text \<open>The registrations of the package initialisers, which panic on an error: \<open>None\<close>.\<close>

fun MustRegister :: "'m MonitorInfo list \<Rightarrow> 'm Registry \<Rightarrow> 'm Registry option" where
  "MustRegister [] r = Some r"
| "MustRegister (info # infos) r =
     (case Monitors_Register info r of (None, r') \<Rightarrow> MustRegister infos r' | (Some e, _) \<Rightarrow> None)"

definition Monitors_GetRegisteredTypes :: "'m Registry \<Rightarrow> string list" where
  "Monitors_GetRegisteredTypes r = sort (map fst r)"

definition Monitors_IsRegistered :: "'m Registry \<Rightarrow> string \<Rightarrow> bool" where
  "Monitors_IsRegistered r ty = (map_of r ty \<noteq> None)"

definition GetMonitorInfo :: "'m Registry \<Rightarrow> string \<Rightarrow> 'm MonitorInfo option" where
  "GetMonitorInfo r ty = map_of r ty"

definition Registry_ValidateConfig :: "'m Registry \<Rightarrow> MonitorConfig \<Rightarrow> monitor_error option" where
  "Registry_ValidateConfig r config =
     (if mc_Type config = [] then Some MonitorTypeRequired
      else case map_of r (mc_Type config) of None \<Rightarrow> Some (MonitorTypeUnknown (mc_Type config) (Monitors_GetRegisteredTypes r))
      | Some info \<Rightarrow>
          (case mi_Validator info of None \<Rightarrow> None
           | Some validate \<Rightarrow>
               (case validate config of None \<Rightarrow> None | Some e \<Rightarrow> Some (MonitorInvalid (mc_Type config) e))))"

definition Registry_CreateMonitor :: "'m Registry \<Rightarrow> MonitorConfig \<Rightarrow> monitor_error + 'm" where
  "Registry_CreateMonitor r config =
     (case Registry_ValidateConfig r config of Some e \<Rightarrow> Inl e
      | None \<Rightarrow>
          (case map_of r (mc_Type config) of None \<Rightarrow> Inl MonitorTypeRequired
           | Some info \<Rightarrow>
               (case mi_Factory info of None \<Rightarrow> Inl (MonitorFactoryPanicked (mc_Type config) ''nil factory'')
                | Some factory \<Rightarrow>
                    (case factory config of
                       MonitorCreated m \<Rightarrow> Inr m
                     | MonitorFactoryError e \<Rightarrow> Inl (MonitorCreateFailed (mc_Type config) e)
                     | MonitorFactoryPanic e \<Rightarrow> Inl (MonitorFactoryPanicked (mc_Type config) e)))))"

fun create_configs :: "'m Registry \<Rightarrow> nat \<Rightarrow> MonitorConfig list \<Rightarrow> (nat \<times> string \<times> monitor_error) + 'm list" where
  "create_configs r i [] = Inr []"
| "create_configs r i (c # cs) =
     (if \<not> mc_Enabled c then create_configs r (Suc i) cs
      else case Registry_CreateMonitor r c of Inl e \<Rightarrow> Inl (i, mc_Name c, e)
      | Inr m \<Rightarrow> bindE (create_configs r (Suc i) cs) (\<lambda>ms. Inr (m # ms)))"

definition CreateMonitorsFromConfigs :: "'m Registry \<Rightarrow> MonitorConfig list \<Rightarrow> (nat \<times> string \<times> monitor_error) + 'm list" where
  "CreateMonitorsFromConfigs r configs = create_configs r 0 configs"

definition needs_default :: "string set \<Rightarrow> string \<times> 'm MonitorInfo \<Rightarrow> MonitorConfig option" where
  "needs_default existing = (\<lambda>(ty, info). if ty \<in> existing then None else mi_DefaultConfig info)"

definition ApplyDefaultMonitors ::
  "('m Registry \<Rightarrow> 'm Registry) \<Rightarrow> 'm Registry \<Rightarrow> NodeDoctorConfig \<Rightarrow> string list \<times> NodeDoctorConfig" where
  "ApplyDefaultMonitors iter r config =
     (let existing = mc_Type ` set (ndc_Monitors config);
          missing = filter (\<lambda>e. needs_default existing e \<noteq> None) (iter r)
      in (sort (map fst missing),
          config\<lparr>ndc_Monitors := ndc_Monitors config @ List.map_filter (needs_default existing) (iter r)\<rparr>))"

record MonitorRegistryStats =
  rs_RegisteredTypes :: nat
  rs_TypesList :: "string list"

definition GetMonitorRegistryStats :: "'m Registry \<Rightarrow> MonitorRegistryStats" where
  "GetMonitorRegistryStats r = \<lparr>rs_RegisteredTypes = length r, rs_TypesList = sort (map fst r)\<rparr>"

subsection \<open>The normalisation that start and reload share\<close>

record cli_flags =
  cli_debug :: bool
  cli_logLevel :: string
  cli_logFormat :: string
  cli_dryRun :: bool
  cli_enableProfiling :: bool
  cli_profilingPort :: int

definition cli_overrides :: "cli_flags \<Rightarrow> NodeDoctorConfig \<Rightarrow> NodeDoctorConfig" where
  "cli_overrides f c =
     (let s0 = ndc_Settings c;
          s1 = (if cli_debug f then s0\<lparr>gs_LogLevel := ''debug''\<rparr> else s0);
          s2 = (if cli_logLevel f \<noteq> [] then s1\<lparr>gs_LogLevel := cli_logLevel f\<rparr> else s1);
          s3 = (if cli_logFormat f \<noteq> [] then s2\<lparr>gs_LogFormat := cli_logFormat f\<rparr> else s2);
          s4 = (if cli_dryRun f then s3\<lparr>gs_DryRunMode := True\<rparr> else s3);
          r = (if cli_dryRun f then (ndc_Remediation c)\<lparr>rmc_DryRun := True\<rparr> else ndc_Remediation c);
          ft = (if cli_enableProfiling f
                then (ndc_Features c)\<lparr>ff_EnableProfiling := True, ff_ProfilingPort := cli_profilingPort f\<rparr>
                else ndc_Features c)
      in c\<lparr>ndc_Settings := s4, ndc_Remediation := r, ndc_Features := ft\<rparr>)"

definition normalizeConfig ::
  "(string \<Rightarrow> duration option) \<Rightarrow> ('m Registry \<Rightarrow> 'm Registry) \<Rightarrow> 'm Registry \<Rightarrow> cli_flags \<Rightarrow> NodeDoctorConfig \<Rightarrow>
   config_error + NodeDoctorConfig" where
  "normalizeConfig parse iter r f c = NodeDoctorConfig_ApplyDefaults parse (cli_overrides f (snd (ApplyDefaultMonitors iter r c)))"

section \<open>Invariant of the registry\<close>

text \<open>Every entry stands under its own type, which is not empty, and has a factory.\<close>

definition registry_ok :: "'m Registry \<Rightarrow> bool" where
  "registry_ok r \<longleftrightarrow> gomap_ok r \<and> (\<forall>(ty, info)\<in>set r. ty \<noteq> [] \<and> mi_Type info = ty \<and> mi_Factory info \<noteq> None)"

lemma registry_ok_New: "registry_ok Monitors_NewRegistry"
  by (simp add: registry_ok_def Monitors_NewRegistry_def)

lemma Monitors_Register_cases:
  obtains e where "Monitors_Register info r = (Some e, r)"
  | "Monitors_Register info r = (None, AList.update (mi_Type info) info r)" "mi_Type info \<noteq> []" "mi_Factory info \<noteq> None"
      "map_of r (mi_Type info) = None"
  by (cases "mi_Type info = []"; cases "mi_Factory info = None"; cases "map_of r (mi_Type info) = None")
    (auto simp: Monitors_Register_def)

lemma registry_ok_Register: "registry_ok r \<Longrightarrow> registry_ok (snd (Monitors_Register info r))"
proof (cases info r rule: Monitors_Register_cases)
  case 2
  assume ok: "registry_ok r"
  have "set (AList.update (mi_Type info) info r) \<subseteq> insert (mi_Type info, info) (set r)"
    by (induction r) auto
  with 2 ok show ?thesis by (auto simp: registry_ok_def)
qed simp

lemma registry_ok_MustRegister: "MustRegister infos r = Some r' \<Longrightarrow> registry_ok r \<Longrightarrow> registry_ok r'"
proof (induction infos r rule: MustRegister.induct)
  case (2 info infos r)
  then show ?case using registry_ok_Register [of r info] by (auto split: prod.splits option.splits)
qed simp

text \<open>A registered type stays registered as it is.\<close>

lemma Monitors_Register_keeps: "map_of r ty = Some i \<Longrightarrow> map_of (snd (Monitors_Register info r)) ty = Some i"
  by (cases info r rule: Monitors_Register_cases) (auto simp: update_conv')

section \<open>Default monitors\<close>

definition defaults_match :: "'m Registry \<Rightarrow> bool" where
  "defaults_match r \<longleftrightarrow> (\<forall>(ty, info)\<in>set r. \<forall>d. mi_DefaultConfig info = Some d \<longrightarrow> mc_Type d = ty)"

lemma in_map_filter: "y \<in> set (List.map_filter f xs) \<longleftrightarrow> (\<exists>x\<in>set xs. f x = Some y)"
  by (force simp: List.map_filter_def)

lemma default_monitors_kept:
  "ndc_Monitors (snd (ApplyDefaultMonitors iter r c))
     = ndc_Monitors c @ List.map_filter (needs_default (mc_Type ` set (ndc_Monitors c))) (iter r)"
  by (simp add: ApplyDefaultMonitors_def Let_def)

lemma default_monitors_covered:
  assumes "defaults_match r" "set (iter r) = set r" "(ty, info) \<in> set r" "mi_DefaultConfig info \<noteq> None"
  shows "ty \<in> mc_Type ` set (ndc_Monitors (snd (ApplyDefaultMonitors iter r c)))"
proof (cases "ty \<in> mc_Type ` set (ndc_Monitors c)")
  case False
  obtain d where d: "mi_DefaultConfig info = Some d" using assms(4) by blast
  then have "d \<in> set (List.map_filter (needs_default (mc_Type ` set (ndc_Monitors c))) (iter r))"
    unfolding in_map_filter using assms(2,3) False by (intro bexI [of _ "(ty, info)"]) (auto simp: needs_default_def)
  moreover have "mc_Type d = ty" using assms(1,3) d by (auto simp: defaults_match_def)
  ultimately show ?thesis by (auto simp: default_monitors_kept)
qed (simp add: default_monitors_kept image_Un)

lemma default_monitors_idem:
  assumes "defaults_match r" "set (iter r) = set r" "set (iter' r) = set r" "c' = snd (ApplyDefaultMonitors iter r c)"
  shows "ApplyDefaultMonitors iter' r c' = ([], c')"
proof -
  have "needs_default (mc_Type ` set (ndc_Monitors c')) e = None" if "e \<in> set (iter' r)" for e
    using that default_monitors_covered [where iter = iter, OF assms(1,2), of "fst e" "snd e" c] assms(3) unfolding assms(4)
    by (cases "mi_DefaultConfig (snd e)") (auto simp: needs_default_def split: prod.splits)
  then have "filter (\<lambda>e. needs_default (mc_Type ` set (ndc_Monitors c')) e \<noteq> None) (iter' r) = []"
    by (simp add: filter_empty_conv)
  then show ?thesis by (simp add: ApplyDefaultMonitors_def List.map_filter_def Let_def)
qed

subsection \<open>The order of the map does not matter\<close>

lemma mapE_perm:
  assumes "mapE f xs = Inr xs'" "mset ys = mset xs"
  shows "\<exists>ys'. mapE f ys = Inr ys' \<and> mset ys' = mset xs'"
  using list_all2_reorder_left_invariance [OF assms(1) [unfolded mapE_eq_Inr] assms(2)] by (auto simp: mapE_eq_Inr)

lemma apply_defaults_perm:
  assumes "NodeDoctorConfig_ApplyDefaults parse c = Inr c1" "mset ms = mset (ndc_Monitors c)"
  shows "\<exists>ms1. NodeDoctorConfig_ApplyDefaults parse (c\<lparr>ndc_Monitors := ms\<rparr>) = Inr (c1\<lparr>ndc_Monitors := ms1\<rparr>)
    \<and> mset ms1 = mset (ndc_Monitors c1)"
proof -
  let ?f = "\<lambda>m. wrapE (Within (mc_Name m)) (MonitorConfig_ApplyDefaults parse m)" and ?x = "ndc_Exporters c"
  obtain s msd k h r rl where
    parts: "GlobalSettings_ApplyDefaults parse (ndc_Settings c) = Inr s"
      "optE (KubernetesExporterConfig_ApplyDefaults parse) (ex_Kubernetes ?x) = Inr k"
      "optE (HTTPExporterConfig_ApplyDefaults parse) (ex_HTTP ?x) = Inr h"
      "RemediationConfig_ApplyDefaults parse (ndc_Remediation c) = Inr r"
      "ReloadConfig_ApplyDefaults parse (ndc_Reload c) = Inr rl"
    and msd: "mapE ?f (ndc_Monitors c) = Inr msd"
    and c1: "c1 = c\<lparr>ndc_Settings := s, ndc_Monitors := msd, ndc_Exporters := ?x\<lparr>ex_Kubernetes := k, ex_HTTP := h,
      ex_Prometheus := map_option PrometheusExporterConfig_ApplyDefaults (ex_Prometheus ?x)\<rparr>,
      ndc_Remediation := r, ndc_Reload := rl\<rparr>"
    using assms(1) by (auto simp: NodeDoctorConfig_ApplyDefaults_def bindE_eq_Inr Let_def)
  from mapE_perm [OF msd assms(2)] obtain ms1 where ms1: "mapE ?f ms = Inr ms1" "mset ms1 = mset msd" by blast
  then show ?thesis
    by (intro exI [of _ ms1]) (simp add: NodeDoctorConfig_ApplyDefaults_def parts c1 Let_def)
qed

lemma mset_map_filter: "mset (List.map_filter f xs) = image_mset (\<lambda>x. the (f x)) (filter_mset (\<lambda>x. f x \<noteq> None) (mset xs))"
  by (induction xs) (auto simp: List.map_filter_simps split: option.split)

lemma cli_overrides_monitors:
  "cli_overrides f (c\<lparr>ndc_Monitors := ms\<rparr>) = (cli_overrides f c)\<lparr>ndc_Monitors := ms\<rparr>"
  "ndc_Monitors (cli_overrides f c) = ndc_Monitors c"
  by (simp_all add: cli_overrides_def Let_def)

lemma normalize_perm:
  assumes "normalizeConfig parse iter r f c = Inr c1" "mset (iter r) = mset (iter' r)"
  shows "\<exists>ms1. normalizeConfig parse iter' r f c = Inr (c1\<lparr>ndc_Monitors := ms1\<rparr>) \<and> mset ms1 = mset (ndc_Monitors c1)"
proof -
  let ?ms = "\<lambda>it. ndc_Monitors c @ List.map_filter (needs_default (mc_Type ` set (ndc_Monitors c))) (it r)"
  have def: "snd (ApplyDefaultMonitors it r c) = c\<lparr>ndc_Monitors := ?ms it\<rparr>" for it
    by (simp add: ApplyDefaultMonitors_def Let_def)
  have "mset (?ms iter') = mset (?ms iter)" using assms(2) by (simp add: mset_map_filter)
  with assms(1) apply_defaults_perm [of parse "(cli_overrides f c)\<lparr>ndc_Monitors := ?ms iter\<rparr>" c1 "?ms iter'"]
  show ?thesis by (simp add: normalizeConfig_def def cli_overrides_monitors)
qed

end
