(* ===== verification/Reload_Coordinator.thy ===== *)
theory Reload_Coordinator
  imports Detector_Lifecycle Reload_Validator Monitor_Registry
begin

text \<open>
  \<^verbatim>\<open>pkg/reload/coordinator.go\<close>, composed with the detector as \<^verbatim>\<open>NewProblemDetector\<close> wires it: events go to the
  detector's status channel, and changes are applied by \<^verbatim>\<open>handleConfigReload\<close>. An attempt returns its error, the
  calls of the metrics recorder, the coordinator and the detector. \<open>rv_load\<close> is what loading the file yields,
  \<open>rv_normalize\<close> and \<open>rv_validate\<close> are the two hooks, \<open>rv_showDuration\<close> is the text of a duration. A
  panic in a hook is left out.
\<close>

section \<open>Definitions\<close>

record ReloadCoordinator =
  rc_configPath :: string
  rc_currentConfig :: NodeDoctorConfig
  rc_reloadInProgress :: bool
  rc_lastReloadability :: "Reloadability option"

record ('m, 'x, 'r) reload_env =
  rv_life :: "('m, 'x, 'r) life_env"
  rv_load :: "string \<Rightarrow> string + NodeDoctorConfig"
  rv_normalize :: "(NodeDoctorConfig \<Rightarrow> string + NodeDoctorConfig) option"
  rv_validate :: "(NodeDoctorConfig \<Rightarrow> ValidationResult) option"
  rv_fmt :: "cfg_value \<Rightarrow> string"
  rv_iter :: "(string, MonitorConfig) gomap \<Rightarrow> (string, MonitorConfig) gomap"
  rv_ck :: "nat \<Rightarrow> time"
  rv_showDuration :: "duration \<Rightarrow> string"

definition NewReloadCoordinator :: "string \<Rightarrow> NodeDoctorConfig \<Rightarrow> ReloadCoordinator" where
  "NewReloadCoordinator path initial =
     \<lparr>rc_configPath = path, rc_currentConfig = initial, rc_reloadInProgress = False, rc_lastReloadability = None\<rparr>"

subsection \<open>The messages\<close>

definition show_bool :: "bool \<Rightarrow> string" where
  "show_bool b = (if b then ''true'' else ''false'')"

fun restart_text :: "restart_reason \<Rightarrow> string" where
  "restart_text (NodeNameChanged a b) =
     ''settings.nodeName ('' @ go_quote a @ '' -> '' @ go_quote b @ ''): node identity is bound at startup''"
| "restart_text (LogOutputChanged a b) =
     ''settings.logOutput ('' @ go_quote a @ '' -> '' @ go_quote b @ ''): log destination is opened at startup''"
| "restart_text (LogFileChanged a b) =
     ''settings.logFile ('' @ go_quote a @ '' -> '' @ go_quote b @ ''): log file handle is opened at startup''"
| "restart_text (EnableProfilingChanged a b) =
     ''features.enableProfiling ('' @ show_bool a @ '' -> '' @ show_bool b @ ''): the pprof listener is started at startup''"
| "restart_text (ProfilingPortChanged a b) =
     ''features.profilingPort ('' @ show_int a @ '' -> '' @ show_int b @ ''): the pprof listener is bound at startup''"
| "restart_text (ExporterNewlyEnabled n) =
     n @ ''.enabled (false -> true): the exporter is constructed at startup, so there is no instance to reload''"
| "restart_text RemediationNewlyEnabled =
     ''remediation.enabled (false -> true): the remediator registry and cluster client are wired at startup''"
| "restart_text (CoordinationEnabledChanged a b) =
     ''remediation.coordination.enabled ('' @ show_bool a @ '' -> '' @ show_bool b @ ''): the controller lease client is wired at startup''"
| "restart_text (ControllerURLChanged a b) =
     ''remediation.coordination.controllerURL ('' @ go_quote a @ '' -> '' @ go_quote b @ ''): the controller lease client is wired at startup''"

definition Reload_Summary :: "Reloadability \<Rightarrow> string" where
  "Reload_Summary r =
     (let named = (\<lambda>what names. if names = [] then [] else [what @ ''=['' @ join '' '' names @ '']'']);
          parts = named ''monitors reconfigured'' (ra_MonitorsModified r) @ named ''monitors started'' (ra_MonitorsAdded r)
            @ named ''monitors stopped'' (ra_MonitorsRemoved r)
            @ (if ra_ExportersReconfigured r then [''exporters reconfigured''] else [])
            @ (if ra_RemediationReconfigured r then [''remediation reconfigured''] else [])
      in ''config reload applied: '' @ (if parts = [] then ''no hot-reloadable changes'' else join ''; '' parts)
         @ (if ra_RestartRequired r = [] then []
            else '' | RESTART REQUIRED for '' @ show_nat (length (ra_RestartRequired r))
              @ '' change(s) that cannot be applied to the running process: '' @ join ''; '' (map restart_text (ra_RestartRequired r))))"

definition buildReloadStats :: "(duration \<Rightarrow> string) \<Rightarrow> ConfigDiff \<Rightarrow> duration \<Rightarrow> string" where
  "buildReloadStats showDuration d duration =
     (let count = (\<lambda>n what. if n = 0 then [] else [show_nat n @ what]);
          changes = count (length (df_MonitorsAdded d)) '' monitor(s) added''
            @ count (length (df_MonitorsRemoved d)) '' monitor(s) removed''
            @ count (length (df_MonitorsModified d)) '' monitor(s) modified''
            @ (if df_ExportersChanged d then [''exporters updated''] else [])
            @ (if df_RemediationChanged d then [''remediation config updated''] else [])
      in ''Configuration reload completed in '' @ showDuration duration @ ''. ''
         @ (if changes = [] then ''No changes detected.'' else ''Changes: '' @ join '', '' changes))"

subsection \<open>A reload\<close>

text \<open>The \<open>k\<close>-th event of an attempt; the clock is read twice for it.\<close>

definition emitEvent ::
  "('m, 'x, 'r) reload_env \<Rightarrow> nat \<Rightarrow> string \<Rightarrow> string \<Rightarrow> string \<Rightarrow> ('m, 'x, 'r) ProblemDetector \<Rightarrow> ('m, 'x, 'r) ProblemDetector" where
  "emitEvent v k severity reason message pd =
     emitReloadEvent (rv_ck v (2 * k + 1)) (rv_ck v (2 * k + 2)) severity reason message pd"

text \<open>Load, normalise and validate: the new configuration and the detector, or the error.\<close>

definition load_new ::
  "('m, 'x, 'r) reload_env \<Rightarrow> string \<Rightarrow> ('m, 'x, 'r) ProblemDetector \<Rightarrow> (string + NodeDoctorConfig) \<times> ('m, 'x, 'r) ProblemDetector" where
  "load_new v path pd0 =
     (let pd = emitEvent v 0 EventInfo ''ConfigReloadStarted'' ''Configuration reload initiated'' pd0
      in case rv_load v path of
           Inl e \<Rightarrow> (Inl (''failed to load config: '' @ e),
             emitEvent v 1 EventWarning ''ConfigReloadFailed'' (''Failed to load configuration: '' @ e) pd)
         | Inr c \<Rightarrow>
             (case (case rv_normalize v of None \<Rightarrow> Inr c | Some n \<Rightarrow> n c) of
                Inl e \<Rightarrow> (Inl (''failed to normalize config: '' @ e),
                  emitEvent v 1 EventWarning ''ConfigReloadFailed'' (''Failed to normalize configuration: '' @ e) pd)
              | Inr new \<Rightarrow>
                  (case rv_validate v of None \<Rightarrow> (Inr new, pd)
                   | Some validate \<Rightarrow>
                       if \<not> vr_Valid (validate new) then
                         let msg = FormatValidationErrors (vr_Errors (validate new))
                         in (Inl (''configuration validation failed: '' @ msg),
                             emitEvent v 1 EventWarning ''ConfigValidationFailed'' (''Configuration validation failed: '' @ msg) pd)
                       else (Inr new, emitEvent v 1 EventInfo ''ConfigValidationSucceeded''
                               ''Configuration validation completed successfully'' pd))))"

definition warn_restart ::
  "('m, 'x, 'r) reload_env \<Rightarrow> Reloadability \<Rightarrow> ('m, 'x, 'r) ProblemDetector \<Rightarrow> ('m, 'x, 'r) ProblemDetector" where
  "warn_restart v r pd =
     (if HasRestartRequired r then
        emitEvent v 2 EventWarning ''ConfigReloadRestartRequired''
          (''Configuration changed in '' @ show_nat (length (ra_RestartRequired r))
           @ '' way(s) that CANNOT be applied to the running process; ''
           @ ''a pod restart/rollout is required for these to take effect: ''
           @ join ''; '' (map restart_text (ra_RestartRequired r))) pd
      else pd)"

definition apply_new ::
  "('m, 'x, 'r) reload_env \<Rightarrow> NodeDoctorConfig \<Rightarrow> ReloadCoordinator \<Rightarrow> ('m, 'x, 'r) ProblemDetector \<Rightarrow>
   string option \<times> ReloadCoordinator \<times> ('m, 'x, 'r) ProblemDetector" where
  "apply_new v new rc pd =
     (let old = rc_currentConfig rc; d = ComputeConfigDiff (rv_fmt v) (rv_iter v) old new; r = ClassifyReload old new d;
          rc1 = rc\<lparr>rc_lastReloadability := Some r\<rparr>; pd1 = warn_restart v r pd
      in if \<not> HasChanges d then
           (None, rc1\<lparr>rc_currentConfig := new\<rparr>,
            if HasRestartRequired r then pd1
            else emitEvent v 3 EventInfo ''ConfigReloadNoChanges'' ''Configuration reload completed with no changes'' pd1)
         else case handleConfigReload (rv_life v) new d pd1 of
             (Some e, pd2) \<Rightarrow>
               (Some (''failed to apply changes: '' @ e), rc1,
                emitEvent v 3 EventWarning ''ConfigReloadFailed'' (''Failed to apply configuration changes: '' @ e) pd2)
           | (None, pd2) \<Rightarrow>
               (None, rc1\<lparr>rc_currentConfig := new\<rparr>,
                emitEvent v 3 EventInfo ''ConfigReloadSucceeded''
                  (buildReloadStats (rv_showDuration v) d (rv_ck v 9 - rv_ck v 0) @ '' '' @ Reload_Summary r) pd2))"

definition performReload ::
  "('m, 'x, 'r) reload_env \<Rightarrow> ReloadCoordinator \<Rightarrow> ('m, 'x, 'r) ProblemDetector \<Rightarrow>
   string option \<times> (bool \<times> duration) list \<times> ReloadCoordinator \<times> ('m, 'x, 'r) ProblemDetector" where
  "performReload v rc pd =
     (let (err, rc', pd') = (case load_new v (rc_configPath rc) pd of
            (Inl e, pd1) \<Rightarrow> (Some e, rc, pd1)
          | (Inr new, pd1) \<Rightarrow> apply_new v new rc pd1)
      in (err, [(err = None, rv_ck v 10 - rv_ck v 0)], rc', pd'))"

definition TriggerReload ::
  "('m, 'x, 'r) reload_env \<Rightarrow> ReloadCoordinator \<Rightarrow> ('m, 'x, 'r) ProblemDetector \<Rightarrow>
   string option \<times> (bool \<times> duration) list \<times> ReloadCoordinator \<times> ('m, 'x, 'r) ProblemDetector" where
  "TriggerReload v rc pd =
     (if rc_reloadInProgress rc then (Some ''reload already in progress'', [], rc, pd)
      else case performReload v (rc\<lparr>rc_reloadInProgress := True\<rparr>) pd of
          (err, ms, rc', pd') \<Rightarrow> (err, ms, rc'\<lparr>rc_reloadInProgress := False\<rparr>, pd'))"

text \<open>The notifications of the file watcher, one after the other (\<^verbatim>\<open>watchConfigChanges\<close>).\<close>

fun watchConfigChanges ::
  "('m, 'x, 'r) reload_env list \<Rightarrow> ReloadCoordinator \<times> ('m, 'x, 'r) ProblemDetector \<Rightarrow>
   (string option list \<times> (bool \<times> duration) list) \<times> ReloadCoordinator \<times> ('m, 'x, 'r) ProblemDetector" where
  "watchConfigChanges [] s = (([], []), s)"
| "watchConfigChanges (v # vs) s =
     (case TriggerReload v (fst s) (snd s) of
        (err, ms, rc, pd) \<Rightarrow>
          let pd1 = (case err of None \<Rightarrow> pd
                | Some e \<Rightarrow> emitReloadEvent (rv_ck v 11) (rv_ck v 12) EventError ''ReloadFailed'' (''Failed to trigger reload: '' @ e) pd)
          in case watchConfigChanges vs (rc, pd1) of
               ((errs, ms'), s') \<Rightarrow> ((err # errs, ms @ ms'), s'))"

section \<open>What an attempt leaves alone\<close>

lemma emit_frame:
  "pd_monitorHandles (emitReloadEvent t0 t1 sev r msg pd) = pd_monitorHandles pd"
  "pd_config (emitReloadEvent t0 t1 sev r msg pd) = pd_config pd"
  "pd_started (emitReloadEvent t0 t1 sev r msg pd) = pd_started pd"
  "pd_monitorConfigIndex (emitReloadEvent t0 t1 sev r msg pd) = pd_monitorConfigIndex pd"
  by (simp_all add: emitReloadEvent_def Let_def)

lemma emitEvent_frame [simp]:
  "pd_monitorHandles (emitEvent v k sev r msg pd) = pd_monitorHandles pd"
  "pd_config (emitEvent v k sev r msg pd) = pd_config pd"
  "pd_started (emitEvent v k sev r msg pd) = pd_started pd"
  "in_sync (emitEvent v k sev r msg pd) = in_sync pd"
  "running (emitEvent v k sev r msg pd) = running pd"
  by (simp_all add: emitEvent_def emit_frame emit_sync)

lemma agrees_emit [simp]:
  "agrees fmt (emitReloadEvent t0 t1 sev r msg pd) c = agrees fmt pd c"
  "agrees fmt (emitEvent v k sev r msg pd) c = agrees fmt pd c"
  by (simp_all add: agrees_def emit_sync)

lemma warn_restart_frame [simp]:
  "pd_monitorHandles (warn_restart v r pd) = pd_monitorHandles pd" "pd_config (warn_restart v r pd) = pd_config pd"
  "pd_started (warn_restart v r pd) = pd_started pd" "agrees fmt (warn_restart v r pd) c = agrees fmt pd c"
  by (simp_all add: warn_restart_def)

lemma load_new_frame:
  assumes "load_new v path pd = (res, pd1)"
  shows "pd_monitorHandles pd1 = pd_monitorHandles pd" "pd_config pd1 = pd_config pd" "pd_started pd1 = pd_started pd"
    "agrees fmt pd1 c = agrees fmt pd c"
  using assms
  by (auto simp: load_new_def Let_def split: sum.splits option.splits if_splits)

lemma load_new_fst: "fst (load_new v path pd) = fst (load_new v path pd')"
  by (auto simp: load_new_def Let_def split: sum.splits option.splits if_splits)

text \<open>The three outcomes of an attempt.\<close>

lemma performReload_cases:
  assumes "performReload v rc pd = (err, ms, rc', pd')"
  obtains (rejected) e where "load_new v (rc_configPath rc) pd = (Inl e, pd')" "err = Some e" "rc' = rc"
  | (unchanged) new pd1 where "load_new v (rc_configPath rc) pd = (Inr new, pd1)"
      "\<not> HasChanges (ComputeConfigDiff (rv_fmt v) (rv_iter v) (rc_currentConfig rc) new)"
      "err = None" "rc_currentConfig rc' = new" "rc_configPath rc' = rc_configPath rc" "pd_monitorHandles pd' = pd_monitorHandles pd"
      "pd_config pd' = pd_config pd" "pd_started pd' = pd_started pd" "\<And>fmt c. agrees fmt pd' c = agrees fmt pd c"
  | (failed) new pd1 pd2 pd3 e where "load_new v (rc_configPath rc) pd = (Inr new, pd1)"
      "pd2 = warn_restart v (ClassifyReload (rc_currentConfig rc) new (ComputeConfigDiff (rv_fmt v) (rv_iter v) (rc_currentConfig rc) new)) pd1"
      "handleConfigReload (rv_life v) new (ComputeConfigDiff (rv_fmt v) (rv_iter v) (rc_currentConfig rc) new) pd2 = (Some e, pd3)"
      "err = Some (''failed to apply changes: '' @ e)" "rc_currentConfig rc' = rc_currentConfig rc" "rc_configPath rc' = rc_configPath rc"
      "pd_monitorHandles pd' = pd_monitorHandles pd3" "pd_started pd' = pd_started pd3"
  | (applied) new pd1 pd2 pd3 where "load_new v (rc_configPath rc) pd = (Inr new, pd1)"
      "pd2 = warn_restart v (ClassifyReload (rc_currentConfig rc) new (ComputeConfigDiff (rv_fmt v) (rv_iter v) (rc_currentConfig rc) new)) pd1"
      "HasChanges (ComputeConfigDiff (rv_fmt v) (rv_iter v) (rc_currentConfig rc) new)"
      "handleConfigReload (rv_life v) new (ComputeConfigDiff (rv_fmt v) (rv_iter v) (rc_currentConfig rc) new) pd2 = (None, pd3)"
      "err = None" "rc_currentConfig rc' = new" "rc_configPath rc' = rc_configPath rc" "pd_monitorHandles pd' = pd_monitorHandles pd3"
      "pd_config pd' = pd_config pd3" "pd_started pd' = pd_started pd3" "\<And>fmt c. agrees fmt pd' c = agrees fmt pd3 c"
proof -
  obtain res pd1 where l: "load_new v (rc_configPath rc) pd = (res, pd1)" by fastforce
  show thesis
  proof (cases res)
    case (Inl e)
    have "err = Some e \<and> rc' = rc \<and> pd' = pd1" using assms l Inl by (simp add: performReload_def)
    then show ?thesis using l Inl by (intro rejected [of e]) simp_all
  next
    case (Inr new)
    let ?d = "ComputeConfigDiff (rv_fmt v) (rv_iter v) (rc_currentConfig rc) new"
    let ?pd2 = "warn_restart v (ClassifyReload (rc_currentConfig rc) new ?d) pd1"
    have ap: "apply_new v new rc pd1 = (err, rc', pd')"
      using assms l Inr by (auto simp: performReload_def split: prod.splits)
    show ?thesis
    proof (cases "HasChanges ?d")
      case False
      with ap have "err = None" "rc_currentConfig rc' = new" "rc_configPath rc' = rc_configPath rc"
        "pd_monitorHandles pd' = pd_monitorHandles pd1"
        "pd_config pd' = pd_config pd1" "pd_started pd' = pd_started pd1" "\<And>fmt c. agrees fmt pd' c = agrees fmt pd1 c"
        by (auto simp: apply_new_def Let_def split: if_splits)
      then show ?thesis
        by (intro unchanged [OF l [unfolded Inr] False]) (simp_all only: load_new_frame [OF l])
    next
      case True
      obtain r pd3 where h: "handleConfigReload (rv_life v) new ?d ?pd2 = (r, pd3)" by fastforce
      show ?thesis
      proof (cases r)
        case None
        with ap h True show ?thesis
          by (intro applied [OF l [unfolded Inr] refl True, of pd3]) (auto simp: apply_new_def Let_def)
      next
        case (Some e)
        with ap h True show ?thesis
          by (intro failed [OF l [unfolded Inr] refl, of e pd3]) (auto simp: apply_new_def Let_def)
      qed
    qed
  qed
qed

section \<open>Agreement over many reloads\<close>

lemma fold_keeps: "(\<And>x s. P (f x s) = P s) \<Longrightarrow> P (fold f xs s) = P s"
  by (induction xs arbitrary: s) simp_all

lemma addMonitor_started: "addMonitor w mon m pd = (err, pd') \<Longrightarrow> pd_started pd' = pd_started pd"
  by (auto simp: addMonitor_def split: option.splits)

lemma stopMonitor_started: "stopMonitorByName w n pd = (err, pd') \<Longrightarrow> pd_started pd' = pd_started pd"
  by (auto simp: stopMonitorByName_def split: option.splits prod.splits)

lemma steps_started:
  "pd_started (detector (reload_removed w m s)) = pd_started (detector s)"
  "pd_started (detector (reload_modified w ch s)) = pd_started (detector s)"
  "pd_started (detector (reload_added w m s)) = pd_started (detector s)"
  "pd_started (detector (reload_all_exporters w c s)) = pd_started (detector s)"
  "pd_started (detector (reload_remediation w c s)) = pd_started (detector s)"
  by (auto simp: reload_removed_def reload_modified_def reload_added_def reload_all_exporters_def reload_remediation_def
      cleanupMonitorConditions_def critical_def Let_def
      dest!: stopMonitor_started addMonitor_started split: prod.splits option.splits sum.splits)

lemma reload_steps_started: "pd_started (detector (reload_steps w c d pd)) = pd_started pd"
proof -
  have "pd_started (detector (reload_all_added w ms s)) = pd_started (detector s)" for ms s
    using fold_keeps [of "\<lambda>s. pd_started (detector s)" "reload_added w"] steps_started(3) [of w]
    by (auto simp: reload_all_added_def critical_def split: sum.splits)
  then show ?thesis
    using fold_keeps [of "\<lambda>s. pd_started (detector s)" "reload_removed w"] steps_started(1) [of w]
      fold_keeps [of "\<lambda>s. pd_started (detector s)" "reload_modified w"] steps_started(2) [of w]
    by (simp add: reload_steps_def Let_def steps_started)
qed

lemma handle_started:
  assumes "handleConfigReload w c d pd = (err, pd')"
  shows "pd_started pd' = pd_started pd"
  using assms reload_steps_started [of w c d pd]
  by (auto simp: handleConfigReload_def applyConfigReload_def reapplyLoggingConfig_def emit_frame Let_def
      split: if_splits prod.splits option.splits)

lemma no_changes_agrees:
  assumes "agrees fmt pd old" "distinct (map mc_Name (ndc_Monitors old))" "distinct (map mc_Name (ndc_Monitors new))"
    "\<forall>m. set (iter m) = set m" "\<not> HasChanges (ComputeConfigDiff fmt iter old new)"
  shows "agrees fmt pd new"
proof -
  note sets = diff_sets [OF assms(2-4), of fmt]
  have "set (df_MonitorsAdded (ComputeConfigDiff fmt iter old new)) = {}"
    "set (df_MonitorsRemoved (ComputeConfigDiff fmt iter old new)) = {}"
    "set (df_MonitorsModified (ComputeConfigDiff fmt iter old new)) = {}"
    using assms(5) by (simp_all add: HasChanges_def)
  then have names: "mc_Name ` set (ndc_Monitors new) = mc_Name ` set (ndc_Monitors old)"
    and eq: "\<And>a b. a \<in> set (ndc_Monitors old) \<Longrightarrow> b \<in> set (ndc_Monitors new) \<Longrightarrow> mc_Name a = mc_Name b \<Longrightarrow> monitorsEqual fmt a b"
    unfolding sets by auto
  have "monitorsEqual fmt x m" if "m \<in> set (ndc_Monitors new)" "running pd (mc_Name m) = Some x" for m x
  proof -
    have "mc_Name m \<in> mc_Name ` set (ndc_Monitors old)" using that(1) unfolding names [symmetric] by (rule imageI)
    then obtain a where a: "a \<in> set (ndc_Monitors old)" "mc_Name a = mc_Name m" by (auto simp: image_iff)
    then have "monitorsEqual fmt x a" using assms(1) that(2) by (simp add: agrees_def)
    from monitorsEqual_trans [OF this eq [OF a(1) that(1) a(2)]] show ?thesis .
  qed
  with assms(1) names show ?thesis by (simp add: agrees_def)
qed

lemma valid_names:
  assumes "vr_Valid (Validate cv np registered it (Some c))"
  shows "distinct (map mc_Name (ndc_Monitors c))"
proof -
  have "distinct (map mc_Name ms) \<and> (\<forall>m\<in>set ms. map_of names (mc_Name m) = None)"
    if "validate_monitor_list cv np registered i names ms = []" for i names ms
    using that
  proof (induction cv np registered i names ms rule: validate_monitor_list.induct)
    case (2 v np registered i names m ms)
    show ?case
    proof (cases "map_of names (mc_Name m)")
      case None
      then have "validate_monitor_list v np registered (Suc i) (AList.update (mc_Name m) i names) ms = []"
        using 2(3) by (simp add: Let_def)
      from 2(1) [OF refl None this] None show ?thesis
        by (auto simp: update_conv' image_iff split: if_splits)
    next
      case (Some prev)
      then show ?thesis using 2(3) by (simp add: Let_def)
    qed
  qed simp
  then show ?thesis using assms by (auto simp: Validate_def Let_def validateMonitors_def split: if_splits)
qed

lemma loaded_valid:
  assumes "load_new v path pd = (Inr c, pd1)" "rv_validate v = Some validate"
  shows "vr_Valid (validate c)"
  using assms by (auto simp: load_new_def Let_def split: sum.splits option.splits if_splits)

text \<open>What is assumed of one attempt: it compares as the others do and validates, and maps have distinct keys.\<close>

definition reload_env_ok :: "(cfg_value \<Rightarrow> string) \<Rightarrow> string \<Rightarrow> ('m, 'x, 'r) reload_env \<Rightarrow> bool" where
  "reload_env_ok fmt path v \<longleftrightarrow> rv_fmt v = fmt \<and> (\<forall>m. mset (rv_iter v m) = mset m)
     \<and> (\<exists>cv np registered it. rv_validate v = Some (\<lambda>c. Validate cv np registered it (Some c)))
     \<and> (\<forall>pd c. fst (load_new v path pd) = Inr c \<longrightarrow> (\<forall>m\<in>set (ndc_Monitors c). gomap_ok (mc_Config m)))"

definition in_agreement :: "(cfg_value \<Rightarrow> string) \<Rightarrow> ReloadCoordinator \<Rightarrow> ('m, 'x, 'r) ProblemDetector \<Rightarrow> bool" where
  "in_agreement fmt rc pd \<longleftrightarrow> agrees fmt pd (rc_currentConfig rc)
     \<and> distinct (map mc_Name (ndc_Monitors (rc_currentConfig rc))) \<and> pd_started pd \<and> \<not> rc_reloadInProgress rc"

lemma performReload_progress:
  "performReload v rc pd = (err, ms, rc', pd') \<Longrightarrow>
     rc_reloadInProgress rc' = rc_reloadInProgress rc \<and> map fst ms = [err = None] \<and> rc_configPath rc' = rc_configPath rc"
  by (auto simp: performReload_def apply_new_def Let_def split: prod.splits sum.splits option.splits if_splits)

lemma handle_agrees:
  assumes "handleConfigReload w new (ComputeConfigDiff fmt iter old new) pd = (None, pd')" "pd_started pd"
    "HasChanges (ComputeConfigDiff fmt iter old new)" "agrees fmt pd old" "distinct (map mc_Name (ndc_Monitors old))"
    "distinct (map mc_Name (ndc_Monitors new))" "\<forall>m. mset (iter m) = mset m" "\<forall>m\<in>set (ndc_Monitors new). gomap_ok (mc_Config m)"
  shows "agrees fmt pd' new"
proof -
  obtain e pd1 where ap: "applyConfigReload w new (ComputeConfigDiff fmt iter old new) pd = (e, pd1)" by fastforce
  with assms(1-3) have "e = None" "agrees fmt pd' new = agrees fmt pd1 new"
    by (auto simp: handleConfigReload_def split: option.splits)
  with reload_keeps_agreement [OF assms(4-8), of w pd1] ap show ?thesis by simp
qed

lemma attempt_agrees:
  assumes "TriggerReload v rc pd = (err, ms, rc', pd')" "in_agreement fmt rc pd" "reload_env_ok fmt (rc_configPath rc) v"
    "\<forall>x. err \<noteq> Some (''failed to apply changes: '' @ x)"
  shows "in_agreement fmt rc' pd'" "map fst ms = [err = None]" "rc_configPath rc' = rc_configPath rc"
proof -
  let ?rc = "rc\<lparr>rc_reloadInProgress := True\<rparr>" and ?old = "rc_currentConfig rc"
  obtain rc1 where run: "performReload v ?rc pd = (err, ms, rc1, pd')" and rc': "rc' = rc1\<lparr>rc_reloadInProgress := False\<rparr>"
    using assms(1,2) by (auto simp: TriggerReload_def in_agreement_def split: prod.splits)
  note ag = assms(2) [unfolded in_agreement_def] and ok = assms(3) [unfolded reload_env_ok_def]
  have fmt: "rv_fmt v = fmt" and it: "\<forall>m. mset (rv_iter v m) = mset m" "\<forall>m. set (rv_iter v m) = set m"
    using ok mset_eq_setD by blast+
  have names: "distinct (map mc_Name (ndc_Monitors c))" and maps: "\<forall>m\<in>set (ndc_Monitors c). gomap_ok (mc_Config m)"
    if "load_new v (rc_configPath rc) pd = (Inr c, pd1)" for c pd1
    using ok loaded_valid [OF that] valid_names that by (fastforce, metis fst_conv)
  show "map fst ms = [err = None]" "rc_configPath rc' = rc_configPath rc"
    using performReload_progress [OF run] rc' by simp_all
  from run show "in_agreement fmt rc' pd'"
  proof (cases rule: performReload_cases)
    case (rejected e)
    with ag load_new_frame [OF rejected(1)] rc' show ?thesis by (simp add: in_agreement_def)
  next
    case (unchanged new pd1)
    then have l: "load_new v (rc_configPath rc) pd = (Inr new, pd1)" by simp
    have "agrees fmt pd new"
      using no_changes_agrees [of fmt pd ?old new "rv_iter v"] ag names [OF l] it(2) unchanged(2) fmt by simp
    with unchanged ag names [OF l] rc' show ?thesis by (simp add: in_agreement_def)
  next
    case (failed new pd1 pd2 pd3 e)
    with assms(4) show ?thesis by blast
  next
    case (applied new pd1 pd2 pd3)
    then have l: "load_new v (rc_configPath rc) pd = (Inr new, pd1)" by simp
    have pd2: "pd_started pd2" "agrees fmt pd2 ?old" using ag load_new_frame [OF l] applied(2) by simp_all
    have "agrees fmt pd3 new"
      using handle_agrees [of "rv_life v" new fmt "rv_iter v" ?old pd2 pd3] applied(3,4) pd2 ag names [OF l] maps [OF l] it(1) fmt
      by simp
    with applied pd2 handle_started [OF applied(4)] names [OF l] rc' show ?thesis by (simp add: in_agreement_def)
  qed
qed

lemma rearranged_no_changes:
  assumes "distinct (map mc_Name (ndc_Monitors old))" "distinct (map mc_Name (ndc_Monitors new))"
    "set (ndc_Monitors old) = set (ndc_Monitors new)" "\<forall>m\<in>set (ndc_Monitors new). gomap_ok (mc_Config m)"
    "\<forall>m. set (iter m) = set m" "ndc_Exporters old = ndc_Exporters new" "ndc_Remediation old = ndc_Remediation new"
  shows "\<not> HasChanges (ComputeConfigDiff fmt iter old new)"
proof -
  let ?d = "ComputeConfigDiff fmt iter old new"
  have "monitorsEqual fmt a b" if "a \<in> set (ndc_Monitors new)" "b \<in> set (ndc_Monitors new)" "mc_Name a = mc_Name b" for a b
  proof -
    have "a = b" using assms(2) that by (auto simp: distinct_map inj_on_def)
    with that assms(4) monitorsEqual_refl show ?thesis by simp
  qed
  then have "set (df_MonitorsAdded ?d) = {}" "set (df_MonitorsRemoved ?d) = {}" "set (df_MonitorsModified ?d) = {}"
    unfolding diff_sets [OF assms(1,2,5)] assms(3) by auto
  moreover have "exportersEqual x x" for x
    by (simp add: exportersEqual_def list_all2_refl webhookEqual_def split: option.split)
  ultimately show ?thesis
    using assms(6,7) by (simp add: HasChanges_def) (simp add: ComputeConfigDiff_def Let_def remediationEqual_def circuitBreakerEqual_def)
qed

subsection \<open>Counting the handles of a name\<close>

definition named :: "string \<Rightarrow> ('m, 'x, 'r) ProblemDetector \<Rightarrow> nat" where
  "named n pd = length (filter (\<lambda>h. GetName h = n) (pd_monitorHandles pd))"

lemma named_splice:
  "n \<noteq> name \<Longrightarrow> splice_handle name hs = (found, rest) \<Longrightarrow>
     length (filter (\<lambda>h. GetName h = n) rest) = length (filter (\<lambda>h. GetName h = n) hs)"
  by (induction hs arbitrary: found rest) (auto split: prod.splits if_splits)

lemma named_stop: "n \<noteq> name \<Longrightarrow> stopMonitorByName w name pd = (err, pd') \<Longrightarrow> named n pd' = named n pd"
  by (auto simp: stopMonitorByName_def named_def named_splice split: prod.splits option.splits)

lemma named_add:
  "addMonitor w mon m pd = (None, pd') \<Longrightarrow> named n pd' = named n pd + (if mc_Name m = n then 1 else 0)"
  by (auto simp: addMonitor_def named_def GetName_def split: option.splits)

lemma named_removed: "n \<noteq> mc_Name m \<Longrightarrow> named n (detector (reload_removed w m s)) = named n (detector s)"
proof -
  assume n: "n \<noteq> mc_Name m"
  obtain err pd where st: "stopMonitorByName w (mc_Name m) (detector s) = (err, pd)" by fastforce
  from named_stop [OF n st] show ?thesis
    by (simp add: reload_removed_def st Let_def cleanupMonitorConditions_def named_def)
qed

lemma named_modified:
  assumes "n \<noteq> mc_Name (mch_New ch)" "failures (reload_modified w ch s) = []"
  shows "named n (detector (reload_modified w ch s)) = named n (detector s)"
proof -
  let ?m = "mch_New ch"
  obtain err pd where st: "stopMonitorByName w (mc_Name ?m) (detector s) = (err, pd)" by fastforce
  obtain mon pd1 where ok: "err = None" "createMonitor w ?m = Inr mon" "addMonitor w mon ?m pd = (None, pd1)"
    using assms(2) st by (auto simp: reload_modified_def critical_def Let_def split: option.splits sum.splits prod.splits)
  from named_stop [OF assms(1) st] named_add [OF ok(3), of n] assms(1) st ok show ?thesis
    by (simp add: reload_modified_def Let_def named_def)
qed

lemma named_added:
  assumes "failures (reload_added w m s) = []"
  shows "named n (detector (reload_added w m s)) = named n (detector s) + (if mc_Name m = n then 1 else 0)"
proof -
  obtain mon pd where ok: "createMonitor w m = Inr mon" "addMonitor w mon m (detector s) = (None, pd)"
    using assms by (auto simp: reload_added_def critical_def split: option.splits sum.splits prod.splits)
  from named_add [OF ok(2), of n] ok show ?thesis by (simp add: reload_added_def named_def)
qed

lemma named_all:
  "n \<notin> mc_Name ` set ms \<Longrightarrow> named n (detector (fold (reload_removed w) ms s)) = named n (detector s)"
  "failures (fold (reload_modified w) chs s) = [] \<Longrightarrow> n \<notin> (\<lambda>ch. mc_Name (mch_New ch)) ` set chs \<Longrightarrow>
     named n (detector (fold (reload_modified w) chs s)) = named n (detector s)"
  "failures (fold (reload_added w) ms s) = [] \<Longrightarrow>
     named n (detector (fold (reload_added w) ms s)) = named n (detector s) + length (filter (\<lambda>m. mc_Name m = n) ms)"
proof -
  show "n \<notin> mc_Name ` set ms \<Longrightarrow> named n (detector (fold (reload_removed w) ms s)) = named n (detector s)"
    by (induction ms arbitrary: s) (simp_all add: named_removed)
  show "failures (fold (reload_modified w) chs s) = [] \<Longrightarrow> n \<notin> (\<lambda>ch. mc_Name (mch_New ch)) ` set chs \<Longrightarrow>
     named n (detector (fold (reload_modified w) chs s)) = named n (detector s)"
  proof (induction chs arbitrary: s)
    case (Cons ch chs)
    from modified_all_sync [of w chs "reload_modified w ch s"] Cons.prems(1) have "failures (reload_modified w ch s) = []" by simp
    with Cons named_modified [of n ch w s] show ?case by simp
  qed simp
  show "failures (fold (reload_added w) ms s) = [] \<Longrightarrow>
     named n (detector (fold (reload_added w) ms s)) = named n (detector s) + length (filter (\<lambda>m. mc_Name m = n) ms)"
  proof (induction ms arbitrary: s)
    case (Cons m ms)
    from added_all_sync [of w ms "reload_added w m s"] Cons.prems have "failures (reload_added w m s) = []" by simp
    with Cons named_added [of w m s n] show ?case by simp
  qed simp
qed

lemma named_steps:
  assumes "failures (reload_steps w c d pd) = []" "n \<notin> mc_Name ` set (df_MonitorsRemoved d)"
    "n \<notin> (\<lambda>ch. mc_Name (mch_New ch)) ` set (df_MonitorsModified d)" "distinct (map mc_Name (df_MonitorsAdded d))"
  shows "named n (detector (reload_steps w c d pd)) = named n pd + length (filter (\<lambda>m. mc_Name m = n) (df_MonitorsAdded d))"
proof -
  let ?s1 = "fold (reload_removed w) (df_MonitorsRemoved d) ([], [], pd)"
  let ?s2 = "fold (reload_modified w) (df_MonitorsModified d) ?s1"
  let ?s3 = "reload_all_added w (df_MonitorsAdded d) ?s2"
  have s: "reload_steps w c d pd = (if df_RemediationChanged d then reload_remediation w c
      (if df_ExportersChanged d then reload_all_exporters w c ?s3 else ?s3)
    else (if df_ExportersChanged d then reload_all_exporters w c ?s3 else ?s3))"
    by (simp only: reload_steps_def Let_def)
  have "named n (detector (reload_remediation w c s)) = named n (detector s)"
    "named n (detector (reload_all_exporters w c s)) = named n (detector s)" for s
    by (auto simp: reload_remediation_def reload_all_exporters_def critical_def named_def Let_def split: option.splits prod.splits)
  then have tail: "named n (detector (reload_steps w c d pd)) = named n (detector ?s3)" unfolding s by (simp only: split: if_split) simp
  have ok3: "failures ?s3 = []" by (rule exporters_sync(1) [OF remediation_sync(1) [OF assms(1) [unfolded s]]])
  then obtain added where added: "topologicalSortMonitors (df_MonitorsAdded d) = Inr added" "?s3 = fold (reload_added w) added ?s2"
    by (auto simp: reload_all_added_def critical_def split: sum.splits)
  have ok2: "failures ?s2 = []" using added_all_sync [of w added ?s2] ok3 added(2) by simp
  have "mset (filter (\<lambda>m. mc_Name m = n) added) = mset (filter (\<lambda>m. mc_Name m = n) (df_MonitorsAdded d))"
    using sort_Inr(1) [OF assms(4) added(1)] by simp
  then have "length (filter (\<lambda>m. mc_Name m = n) added) = length (filter (\<lambda>m. mc_Name m = n) (df_MonitorsAdded d))"
    by (rule mset_eq_length)
  with tail named_all(1) [OF assms(2), of w "([], [], pd)"] named_all(2) [OF ok2 assms(3)] named_all(3) [of w added ?s2 n] ok3 added(2)
  show ?thesis by simp
qed

section \<open>Properties\<close>

text \<open>
  C18. The agent stays in line with its configuration over any sequence of reloads. When the monitors that run are those of
  the coordinator's configuration, and every attempt either is rejected before anything is applied or is applied without a
  critical error, then after the whole sequence exactly the monitors of the then current configuration run, each of
  them once and with its settings as far as the reload compares them; and every attempt is recorded in the metrics once,
  as a success exactly when it returned no error.\<close>

theorem reloads_keep_monitors_in_agreement:
  assumes "watchConfigChanges vs (rc, pd) = ((errs, ms), rc', pd')" "in_agreement fmt rc pd"
    "\<forall>v\<in>set vs. reload_env_ok fmt (rc_configPath rc) v" "\<forall>x. Some (''failed to apply changes: '' @ x) \<notin> set errs"
  shows "in_agreement fmt rc' pd' \<and> map fst ms = map (\<lambda>e. e = None) errs \<and> length ms = length vs"
  using assms
proof (induction vs arbitrary: rc pd errs ms)
  case (Cons v vs)
  obtain err ms1 rc1 pd1 where one: "TriggerReload v rc pd = (err, ms1, rc1, pd1)" by (metis prod_cases4)
  let ?pd1 = "case err of None \<Rightarrow> pd1
    | Some e \<Rightarrow> emitReloadEvent (rv_ck v 11) (rv_ck v 12) EventError ''ReloadFailed'' (''Failed to trigger reload: '' @ e) pd1"
  obtain errs2 ms2 where rest: "watchConfigChanges vs (rc1, ?pd1) = ((errs2, ms2), rc', pd')"
    and eqs: "errs = err # errs2" "ms = ms1 @ ms2"
    using Cons.prems(1) one by (auto simp: Let_def split: prod.splits)
  have "\<forall>x. err \<noteq> Some (''failed to apply changes: '' @ x)" using Cons.prems(4) eqs by auto
  note step = attempt_agrees [OF one Cons.prems(2) _ this]
  have "in_agreement fmt rc1 ?pd1"
    using step(1) Cons.prems(3) by (auto simp: in_agreement_def emit_frame split: option.split)
  moreover have "length ms1 = 1" using arg_cong [OF step(2), of length] Cons.prems(3) by simp
  ultimately show ?case using Cons.IH [OF rest] Cons.prems(3,4) step(2,3) eqs by simp
qed simp

text \<open>What an attempt may make current: a configuration that the file gives, normalised, and that the validator accepts.\<close>

definition acceptable :: "('m, 'x, 'r) reload_env \<Rightarrow> string \<Rightarrow> NodeDoctorConfig \<Rightarrow> bool" where
  "acceptable v path new \<longleftrightarrow>
     (\<exists>c. rv_load v path = Inr c
        \<and> (case rv_normalize v of None \<Rightarrow> new = c | Some n \<Rightarrow> n c = Inr new)
        \<and> (case rv_validate v of None \<Rightarrow> True | Some validate \<Rightarrow> vr_Valid (validate new)))"

lemma load_new_acceptable: "load_new v path pd = (Inr new, pd1) \<Longrightarrow> acceptable v path new"
  by (auto simp: acceptable_def load_new_def Let_def split: sum.splits option.splits if_splits)

definition channel_only :: "('m, 'x, 'r) ProblemDetector \<Rightarrow> ('m, 'x, 'r) ProblemDetector \<Rightarrow> bool" where
  "channel_only pd pd' \<longleftrightarrow> (\<exists>xs. pd' = pd\<lparr>pd_statusChan := xs\<rparr>)"

lemma channel_only_refl: "channel_only pd pd"
  unfolding channel_only_def by (rule exI [of _ "pd_statusChan pd"]) simp

lemma channel_only_trans: "channel_only a b \<Longrightarrow> channel_only b c \<Longrightarrow> channel_only a c"
  by (auto simp: channel_only_def)

lemma emit_channel_only: "channel_only pd (emitReloadEvent t0 t1 sev r msg pd)"
  using channel_only_refl [of pd] by (auto simp: channel_only_def emitReloadEvent_def Let_def)

lemma load_new_channel_only: "load_new v path pd = (res, pd1) \<Longrightarrow> channel_only pd pd1"
  using emit_channel_only channel_only_trans
  by (auto simp: load_new_def Let_def emitEvent_def split: sum.splits option.splits if_splits; blast)

text \<open>One notification, on a coordinator that is not in the middle of an attempt.\<close>

lemma attempt_provenance:
  assumes "TriggerReload v rc pd = (err, ms, rc', pd')" "\<not> rc_reloadInProgress rc"
  shows "\<not> rc_reloadInProgress rc'" "rc_configPath rc' = rc_configPath rc"
    "rc_currentConfig rc' = rc_currentConfig rc \<or> acceptable v (rc_configPath rc) (rc_currentConfig rc')"
    "\<forall>new. \<not> acceptable v (rc_configPath rc) new \<Longrightarrow> err \<noteq> None \<and> map fst ms = [False] \<and> rc' = rc \<and> channel_only pd pd'"
proof -
  let ?rc = "rc\<lparr>rc_reloadInProgress := True\<rparr>"
  obtain rc1 where run: "performReload v ?rc pd = (err, ms, rc1, pd')" and rc': "rc' = rc1\<lparr>rc_reloadInProgress := False\<rparr>"
    using assms by (auto simp: TriggerReload_def split: prod.splits)
  have prog: "map fst ms = [err = None]" "rc_configPath rc1 = rc_configPath rc" using performReload_progress [OF run] by simp_all
  show "\<not> rc_reloadInProgress rc'" "rc_configPath rc' = rc_configPath rc" by (simp_all add: rc' prog(2))
  from run have "(rc_currentConfig rc1 = rc_currentConfig rc \<or> acceptable v (rc_configPath rc) (rc_currentConfig rc1))
      \<and> ((\<forall>new. \<not> acceptable v (rc_configPath rc) new) \<longrightarrow> err \<noteq> None \<and> rc1 = ?rc \<and> channel_only pd pd')"
  proof (cases rule: performReload_cases)
    case (rejected e)
    with load_new_channel_only [OF rejected(1)] show ?thesis by simp
  next
    case (unchanged new pd1)
    from load_new_acceptable [OF unchanged(1)] unchanged(4) show ?thesis by auto
  next
    case (failed new pd1 pd2 pd3 e)
    from load_new_acceptable [OF failed(1)] failed(5) show ?thesis by auto
  next
    case (applied new pd1 pd2 pd3)
    from load_new_acceptable [OF applied(1)] applied(6) show ?thesis by auto
  qed
  note one = this
  from one show "rc_currentConfig rc' = rc_currentConfig rc \<or> acceptable v (rc_configPath rc) (rc_currentConfig rc')" by (simp add: rc')
  show "err \<noteq> None \<and> map fst ms = [False] \<and> rc' = rc \<and> channel_only pd pd'" if "\<forall>new. \<not> acceptable v (rc_configPath rc) new"
    using one that prog(1) assms(2) by (simp add: rc')
qed

text \<open>
  C19. Only an accepted configuration takes effect. Over any sequence of notifications of the file watcher, the coordinator's
  configuration is the one it had or one that an attempt read from the file, normalised, and found valid; and when at every
  notification the file cannot be read, cannot be normalised or fails the validation, every attempt reports an error and is
  counted as a failure, and nothing changes: the coordinator is what it was, and of the detector, its configuration, monitors, exporters and
  remediators, only the channel that carries the events of the attempts.\<close>

theorem rejected_reload_changes_nothing:
  assumes "watchConfigChanges vs (rc, pd) = ((errs, ms), rc', pd')" "\<not> rc_reloadInProgress rc"
  shows "(rc_currentConfig rc' = rc_currentConfig rc \<or> (\<exists>v\<in>set vs. acceptable v (rc_configPath rc) (rc_currentConfig rc')))
    \<and> ((\<forall>v\<in>set vs. \<forall>new. \<not> acceptable v (rc_configPath rc) new) \<longrightarrow>
         None \<notin> set errs \<and> length errs = length vs \<and> map fst ms = map (\<lambda>_. False) vs \<and> rc' = rc \<and> (\<exists>xs. pd' = pd\<lparr>pd_statusChan := xs\<rparr>))"
  using assms unfolding channel_only_def [symmetric]
proof (induction vs arbitrary: rc pd errs ms)
  case Nil
  then show ?case by (simp add: channel_only_refl)
next
  case (Cons v vs)
  obtain err ms1 rc1 pd1 where one: "TriggerReload v rc pd = (err, ms1, rc1, pd1)" by (metis prod_cases4)
  let ?pd1 = "case err of None \<Rightarrow> pd1
    | Some e \<Rightarrow> emitReloadEvent (rv_ck v 11) (rv_ck v 12) EventError ''ReloadFailed'' (''Failed to trigger reload: '' @ e) pd1"
  obtain errs2 ms2 where rest: "watchConfigChanges vs (rc1, ?pd1) = ((errs2, ms2), rc', pd')"
    and eqs: "errs = err # errs2" "ms = ms1 @ ms2"
    using Cons.prems(1) one by (auto simp: Let_def split: prod.splits)
  have "channel_only pd1 ?pd1" using emit_channel_only channel_only_refl by (auto split: option.split)
  with Cons.IH [OF rest] attempt_provenance [OF one Cons.prems(2)] show ?case
    by (auto simp: eqs intro: channel_only_trans)
qed

text \<open>
  A change that arrives while the detector is still starting is lost. The file watcher runs before the start has finished;
  an attempt in that window reports success and makes the new configuration the base of later comparisons, but the detector
  ignores it: its monitors and its configuration stay the old ones, and another attempt with the same file, made
  after the start has finished, finds no change.\<close>

lemma reload_during_startup_is_lost:
  assumes "performReload v rc pd = (err, ms, rc', pd')" "fst (load_new v (rc_configPath rc) pd) = Inr new" "\<not> pd_started pd"
    "distinct (map mc_Name (ndc_Monitors new))" "\<forall>m\<in>set (ndc_Monitors new). gomap_ok (mc_Config m)" "\<forall>m. set (iter m) = set m"
  shows "err = None \<and> map fst ms = [True] \<and> rc_currentConfig rc' = new
    \<and> pd_monitorHandles pd' = pd_monitorHandles pd \<and> pd_config pd' = pd_config pd
    \<and> \<not> HasChanges (ComputeConfigDiff fmt iter (rc_currentConfig rc') new)"
proof -
  have same: "\<not> HasChanges (ComputeConfigDiff fmt iter new new)"
    by (rule rearranged_no_changes [OF assms(4) assms(4) refl assms(5,6)]) simp_all
  from assms(1) show ?thesis
  proof (cases rule: performReload_cases)
    case (rejected e)
    with assms(2) show ?thesis by simp
  next
    case (unchanged new' pd1)
    with assms(2) same performReload_progress [OF assms(1)] show ?thesis by simp
  next
    case (failed new' pd1 pd2 pd3 e)
    then show ?thesis using assms(3) load_new_frame [OF failed(1)] by (simp add: handleConfigReload_def)
  next
    case (applied new' pd1 pd2 pd3)
    have pd2: "pd_monitorHandles pd2 = pd_monitorHandles pd" "pd_config pd2 = pd_config pd" "\<not> pd_started pd2"
      unfolding applied(2) using assms(3) load_new_frame [OF applied(1)] by simp_all
    then have "pd3 = pd2" using applied(4) by (simp add: handleConfigReload_def)
    with pd2 applied assms(2) same performReload_progress [OF assms(1)] show ?thesis by simp
  qed
qed

text \<open>
  A reload that failed half-way duplicates monitors when it is tried again. When an attempt fails in the apply step after a
  new monitor has been started, and a later attempt with the same configuration succeeds, two instances of that
  monitor run: the failed attempt keeps the old configuration as the base, so the monitor counts as added once more, and adding
  does not look for a running instance.\<close>

lemma failed_reload_retry_duplicates_monitor:
  assumes "performReload v rc pd = (Some (''failed to apply changes: '' @ e), ms, rc1, pd1)"
    "performReload v' rc1 pd1 = (None, ms', rc2, pd2)" "fst (load_new v' (rc_configPath rc1) pd1) = Inr new" "pd_started pd"
    "m \<in> set (ndc_Monitors new)" "mc_Name m \<notin> mc_Name ` set (ndc_Monitors (rc_currentConfig rc))"
    "\<exists>h\<in>set (pd_monitorHandles pd1). GetName h = mc_Name m"
    "distinct (map mc_Name (ndc_Monitors new))" "distinct (map mc_Name (ndc_Monitors (rc_currentConfig rc)))"
    "\<forall>x. mset (rv_iter v' x) = mset x"
  shows "2 \<le> length (filter (\<lambda>h. GetName h = mc_Name m) (pd_monitorHandles pd2))"
proof -
  let ?old = "rc_currentConfig rc" and ?n = "mc_Name m"
  let ?d = "ComputeConfigDiff (rv_fmt v') (rv_iter v') ?old new"
  have first: "rc_currentConfig rc1 = ?old \<and> pd_started pd1"
    using assms(1)
  proof (cases rule: performReload_cases)
    case (rejected e')
    with assms(4) load_new_frame(3) [OF rejected(1)] show ?thesis by simp
  next
    case (failed new' pda pdb pdc e')
    with assms(4) load_new_frame(3) [OF failed(1)] handle_started [OF failed(3)] show ?thesis by simp
  qed simp_all
  have it: "\<forall>x. set (rv_iter v' x) = set x" using assms(10) mset_eq_setD by blast
  note sets = diff_sets [OF assms(9,8) it, of "rv_fmt v'"]
  have m: "m \<in> set (df_MonitorsAdded ?d)" unfolding sets using assms(5,6) by simp
  then have changes: "HasChanges ?d" by (auto simp: HasChanges_def)
  from assms(2) show ?thesis
  proof (cases rule: performReload_cases)
    case (unchanged new' pda)
    with assms(3) first changes show ?thesis by simp
  next
    case (applied new' pda pdb pdc)
    then have new': "new' = new" using assms(3) by simp
    have frame: "pd_monitorHandles pdb = pd_monitorHandles pd1" "pd_started pdb"
      unfolding applied(2) using first load_new_frame [OF applied(1)] by simp_all
    let ?s = "reload_steps (rv_life v') new ?d pdb"
    have "handleConfigReload (rv_life v') new ?d pdb = (None, pdc)" using applied(4) new' first by simp
    then have ok: "failures ?s = []" and pdc: "pd_monitorHandles pdc = pd_monitorHandles (detector ?s)"
      using frame(2) changes
      by (auto simp: handleConfigReload_def applyConfigReload_def emit_frame reapplyLoggingConfig_def Let_def
          split: option.splits prod.splits if_splits)
    have gone: "?n \<notin> mc_Name ` set (df_MonitorsRemoved ?d)" "?n \<notin> (\<lambda>ch. mc_Name (mch_New ch)) ` set (df_MonitorsModified ?d)"
      unfolding sets using assms(6) by (auto simp: image_iff)
    have "0 < length (filter (\<lambda>x. mc_Name x = ?n) (df_MonitorsAdded ?d))"
      using m by (auto simp: filter_empty_conv)
    moreover have "0 < named ?n pdb" using assms(7) frame(1) by (auto simp: named_def filter_empty_conv)
    moreover have "named ?n pd2 = named ?n (detector ?s)" using applied(8) pdc by (simp add: named_def)
    ultimately have "2 \<le> named ?n pd2"
      using named_steps [OF ok gone added_distinct [OF assms(8,10)]] by linarith
    then show ?thesis by (simp add: named_def)
  qed simp_all
qed

text \<open>
  Reloading an unchanged file changes nothing. When the running configuration came from the file by the
  normalisation that start and reload share, and the file still has the same contents, then an attempt
  finds no difference, whatever the order in which the registry's map of types was walked the two times; it succeeds and
  leaves the monitors and the detector's configuration alone.\<close>

lemma unchanged_file_reload_is_noop:
  assumes "normalizeConfig parse iter1 r f c = Inr (rc_currentConfig rc)" "rv_load v (rc_configPath rc) = Inr c"
    "rv_normalize v = Some (\<lambda>c. case normalizeConfig parse iter2 r f c of Inl e \<Rightarrow> Inl (msg e) | Inr c' \<Rightarrow> Inr c')"
    "mset (iter1 r) = mset (iter2 r)" "\<forall>m. set (rv_iter v m) = set m"
    "distinct (map mc_Name (ndc_Monitors (rc_currentConfig rc)))" "\<forall>m\<in>set (ndc_Monitors (rc_currentConfig rc)). gomap_ok (mc_Config m)"
    "rv_validate v = Some validate" "\<forall>ms. mset ms = mset (ndc_Monitors (rc_currentConfig rc)) \<longrightarrow>
       vr_Valid (validate ((rc_currentConfig rc)\<lparr>ndc_Monitors := ms\<rparr>))"
    "performReload v rc pd = (err, ms, rc', pd')"
  shows "err = None \<and> map fst ms = [True] \<and> pd_monitorHandles pd' = pd_monitorHandles pd \<and> pd_config pd' = pd_config pd
    \<and> set (ndc_Monitors (rc_currentConfig rc')) = set (ndc_Monitors (rc_currentConfig rc))"
proof -
  let ?old = "rc_currentConfig rc"
  from normalize_perm [where iter = iter1 and iter' = iter2, OF assms(1) assms(4)] obtain ms1 where
    n: "normalizeConfig parse iter2 r f c = Inr (?old\<lparr>ndc_Monitors := ms1\<rparr>)" "mset ms1 = mset (ndc_Monitors ?old)" by blast
  let ?new = "?old\<lparr>ndc_Monitors := ms1\<rparr>"
  have "vr_Valid (validate ?new)" using assms(9) n(2) by blast
  then have l: "fst (load_new v (rc_configPath rc) pd) = Inr ?new"
    using assms(2,3,8) n(1) by (simp add: load_new_def Let_def)
  have "mset (map mc_Name ms1) = mset (map mc_Name (ndc_Monitors ?old))" using n(2) by simp
  then have "distinct (map mc_Name ms1)" using assms(6) mset_eq_imp_distinct_iff by blast
  then have same: "\<not> HasChanges (ComputeConfigDiff (rv_fmt v) (rv_iter v) ?old ?new)"
    using assms(5,6,7) mset_eq_setD [OF n(2)] by (intro rearranged_no_changes) simp_all
  from assms(10) show ?thesis
  proof (cases rule: performReload_cases)
    case (rejected e)
    with l show ?thesis by simp
  next
    case (unchanged new pd1)
    with l performReload_progress [OF assms(10)] mset_eq_setD [OF n(2)] show ?thesis by auto
  next
    case (failed new pd1 pd2 pd3 e)
    then show ?thesis using l same by (auto simp: handleConfigReload_def split: if_splits)
  next
    case (applied new pd1 pd2 pd3)
    with l same show ?thesis by simp
  qed
qed

section \<open>Witnesses\<close>

definition demo_slow :: "string \<Rightarrow> MonitorConfig" where
  "demo_slow n = (demo_monitor n [])\<lparr>mc_Interval := 30 * second\<rparr>"

definition demo_file :: "MonitorConfig list \<Rightarrow> NodeDoctorConfig" where
  "demo_file ms = (config_with ms)\<lparr>ndc_Exporters := \<lparr>ex_Kubernetes = None, ex_HTTP = None, ex_Prometheus = Some
     \<lparr>pe_Enabled = True, pe_Port = 9100, pe_BindAddress = [], pe_Path = ''/metrics'', pe_Namespace = [], pe_Subsystem = [], pe_Labels = []\<rparr>\<rparr>\<rparr>"

definition demo_flaky :: "bool \<Rightarrow> (string, unit, unit) life_env" where
  "demo_flaky flaky = \<lparr>lf_ck = int, lf_factory = Some (\<lambda>m. Inr (mc_Name m)),
     lf_start = \<lambda>n. if flaky \<and> n = ''b'' then Some ''no permission'' else None, lf_stops = \<lambda>_. True, lf_watch = None,
     lf_typeName = \<lambda>_. [], lf_reloadable = \<lambda>_. None, lf_reload = \<lambda>_ x. (None, x), lf_kubernetes = \<lambda>_. False,
     lf_removeCondition = \<lambda>_ x. x, lf_applyConfig = None\<rparr>"

definition demo_new :: NodeDoctorConfig where
  "demo_new = demo_file [demo_slow ''a'', demo_slow ''b'']"

definition demo_reload :: "bool \<Rightarrow> (string, unit, unit) reload_env" where
  "demo_reload flaky = \<lparr>rv_life = demo_flaky flaky, rv_load = \<lambda>_. Inr demo_new, rv_normalize = None,
     rv_validate = Some (\<lambda>c. Validate NewConfigValidator demo_parsers [''t''] (\<lambda>g. g) (Some c)),
     rv_fmt = \<lambda>_. [], rv_iter = \<lambda>m. m, rv_ck = int, rv_showDuration = \<lambda>_. []\<rparr>"

definition demo_idle :: "bool \<Rightarrow> (string, unit, unit) ProblemDetector" where
  "demo_idle started = \<lparr>pd_config = demo_file [], pd_monitorHandles = [], pd_exporters = [], pd_statusChan = [],
     pd_stats = NewStatistics 0, pd_configFilePath = ''/c'', pd_started = started, pd_passedMonitors = [],
     pd_remediatorRegistry = None, pd_monitorConfigIndex = [], pd_incidents = [], pd_lastStatus = [], pd_dependents = [],
     pd_loggingReinit = False, pd_logging = [], pd_dependencyReporter = False\<rparr>"

abbreviation demo_rc :: ReloadCoordinator where
  "demo_rc \<equiv> NewReloadCoordinator ''/c'' (demo_file [])"

lemma demo_file_valid: "vr_Valid (Validate NewConfigValidator demo_parsers [''t''] (\<lambda>g. g) (Some demo_new))"
  by (simp add: Validate_def demo_new_def demo_file_def config_with_def default_config_literal_def validateStructure_def
      isValidKubernetesName_def name_char_def validateMonitors_def too_many_monitors_def NewConfigValidator_def
      validateMonitor_def demo_slow_def demo_monitor_def zero_MonitorConfig_def validate_type_config_def
      validateExporters_def enabled_errors_def validatePrometheusExporter_def has_prefix_def validateLimits_def
      validateConsistency_def validateMonitorDependencies_def reload_graph_def missing_errors_def Let_def)

lemma demo_monitors: "ndc_Monitors demo_new = [demo_slow ''a'', demo_slow ''b'']" "ndc_Monitors (demo_file []) = []"
  "mc_Name (demo_slow n) = n" "mc_Config (demo_slow n) = []" "rc_currentConfig demo_rc = demo_file []" "rc_configPath demo_rc = ''/c''"
  by (simp_all add: demo_new_def demo_file_def config_with_def demo_slow_def demo_monitor_def zero_MonitorConfig_def NewReloadCoordinator_def)

lemma demo_loads: "fst (load_new (demo_reload flaky) path pd) = Inr demo_new"
  using demo_file_valid by (simp add: load_new_def demo_reload_def Let_def)

lemma demo_diff:
  "ComputeConfigDiff (\<lambda>_. []) (\<lambda>m. m) (demo_file []) demo_new = \<lparr>df_MonitorsAdded = [demo_slow ''a'', demo_slow ''b''],
     df_MonitorsRemoved = [], df_MonitorsModified = [], df_ExportersChanged = False, df_RemediationChanged = False\<rparr>"
  by (simp add: ComputeConfigDiff_def makeMonitorMap_def demo_monitors map_filter_def Let_def)
    (simp add: demo_new_def demo_file_def config_with_def exportersEqual_def remediationEqual_def circuitBreakerEqual_def)

lemma demo_sorted: "topologicalSortMonitors [demo_slow ''a'', demo_slow ''b''] = Inr [demo_slow ''a'', demo_slow ''b'']"
  by (simp add: topologicalSortMonitors_def build_graph_def initial_degrees_def add_edge_def byName_def
      demo_slow_def demo_monitor_def zero_MonitorConfig_def gomap_get_def)

lemma demo_handle:
  assumes "pd_started pd"
  shows "\<exists>pd'. handleConfigReload (demo_flaky False) demo_new (ComputeConfigDiff (\<lambda>_. []) (\<lambda>m. m) (demo_file []) demo_new) pd = (None, pd')"
    "\<exists>e pd'. handleConfigReload (demo_flaky True) demo_new (ComputeConfigDiff (\<lambda>_. []) (\<lambda>m. m) (demo_file []) demo_new) pd = (Some e, pd')
       \<and> (\<exists>h\<in>set (pd_monitorHandles pd'). GetName h = ''a'')"
  using assms unfolding demo_diff
  by (simp_all add: handleConfigReload_def HasChanges_def applyConfigReload_def reload_steps_def reload_all_added_def
      demo_sorted reload_added_def createMonitor_def addMonitor_def demo_flaky_def demo_monitors critical_def emit_frame
      GetName_def)

lemma demo_perform:
  assumes "pd_started pd" "rc_currentConfig rc = demo_file []"
  shows "\<exists>ms rc' pd'. performReload (demo_reload False) rc pd = (None, ms, rc', pd')"
    "\<exists>e ms rc' pd'. performReload (demo_reload True) rc pd = (Some (''failed to apply changes: '' @ e), ms, rc', pd')
       \<and> (\<exists>h\<in>set (pd_monitorHandles pd'). GetName h = ''a'') \<and> rc_currentConfig rc' = demo_file []"
proof -
  let ?d = "ComputeConfigDiff (\<lambda>_. []) (\<lambda>m. m) (demo_file []) demo_new"
  let ?pd2 = "\<lambda>flaky pd1. warn_restart (demo_reload flaky) (ClassifyReload (demo_file []) demo_new ?d) pd1"
  have ch: "HasChanges ?d" by (simp add: demo_diff HasChanges_def)
  have env: "rv_fmt (demo_reload b) = (\<lambda>_. [])" "rv_iter (demo_reload b) = (\<lambda>m. m)" "rv_life (demo_reload b) = demo_flaky b" for b
    by (simp_all add: demo_reload_def)
  have l: "\<exists>pd1. load_new (demo_reload flaky) (rc_configPath rc) pd = (Inr demo_new, pd1) \<and> pd_started (?pd2 flaky pd1)" for flaky
    using demo_loads [of flaky "rc_configPath rc" pd] load_new_frame(3) [of "demo_reload flaky" "rc_configPath rc" pd] assms(1)
    by (cases "load_new (demo_reload flaky) (rc_configPath rc) pd") simp
  show "\<exists>ms rc' pd'. performReload (demo_reload False) rc pd = (None, ms, rc', pd')"
  proof -
    obtain pd1 where pd1: "load_new (demo_reload False) (rc_configPath rc) pd = (Inr demo_new, pd1)" "pd_started (?pd2 False pd1)"
      using l by blast
    obtain pd' where "handleConfigReload (demo_flaky False) demo_new ?d (?pd2 False pd1) = (None, pd')"
      using demo_handle(1) [OF pd1(2)] by blast
    then show ?thesis using ch by (simp add: performReload_def apply_new_def pd1(1) env assms(2) Let_def)
  qed
  show "\<exists>e ms rc' pd'. performReload (demo_reload True) rc pd = (Some (''failed to apply changes: '' @ e), ms, rc', pd')
       \<and> (\<exists>h\<in>set (pd_monitorHandles pd'). GetName h = ''a'') \<and> rc_currentConfig rc' = demo_file []"
  proof -
    obtain pd1 where pd1: "load_new (demo_reload True) (rc_configPath rc) pd = (Inr demo_new, pd1)" "pd_started (?pd2 True pd1)"
      using l by blast
    obtain e pd' where "handleConfigReload (demo_flaky True) demo_new ?d (?pd2 True pd1) = (Some e, pd')"
      "\<exists>h\<in>set (pd_monitorHandles pd'). GetName h = ''a''"
      using demo_handle(2) [OF pd1(2)] by blast
    then show ?thesis using ch by (auto simp: performReload_def apply_new_def pd1(1) env assms(2) Let_def)
  qed
qed

theorem reloads_keep_monitors_in_agreement_witness:
  "\<exists>errs ms rc' pd'. watchConfigChanges [demo_reload False] (demo_rc, demo_idle True) = ((errs, ms), rc', pd')
     \<and> in_agreement (\<lambda>_. []) rc' pd' \<and> length ms = 1"
proof -
  have rc: "demo_rc\<lparr>rc_reloadInProgress := True\<rparr> = demo_rc\<lparr>rc_reloadInProgress := True\<rparr>" "\<not> rc_reloadInProgress demo_rc"
    by (simp_all add: NewReloadCoordinator_def)
  obtain ms rc1 pd1 where p: "performReload (demo_reload False) (demo_rc\<lparr>rc_reloadInProgress := True\<rparr>) (demo_idle True) = (None, ms, rc1, pd1)"
    using demo_perform(1) [of "demo_idle True" "demo_rc\<lparr>rc_reloadInProgress := True\<rparr>"] by (auto simp: demo_idle_def demo_monitors)
  then have run: "watchConfigChanges [demo_reload False] (demo_rc, demo_idle True)
      = (([None], ms), rc1\<lparr>rc_reloadInProgress := False\<rparr>, pd1)"
    using rc(2) by (simp add: TriggerReload_def)
  have "in_agreement (\<lambda>_. []) demo_rc (demo_idle True)"
    by (simp add: in_agreement_def agrees_def in_sync_def running_def demo_idle_def demo_monitors)
      (simp add: NewReloadCoordinator_def)
  moreover have "reload_env_ok (\<lambda>_. []) (rc_configPath demo_rc) (demo_reload False)"
    unfolding reload_env_ok_def by (auto simp: demo_loads demo_monitors) (auto simp: demo_reload_def)
  ultimately show ?thesis
    using reloads_keep_monitors_in_agreement [OF run, of "\<lambda>_. []"] run by auto
qed

text \<open>A file of another kind, which the validator rejects.\<close>

definition demo_wrong_kind :: NodeDoctorConfig where
  "demo_wrong_kind = demo_new\<lparr>ndc_Kind := ''Pod''\<rparr>"

definition demo_rejected :: "(string, unit, unit) reload_env list" where
  "demo_rejected = [(demo_reload False)\<lparr>rv_load := \<lambda>_. Inl ''no such file''\<rparr>, (demo_reload False)\<lparr>rv_load := \<lambda>_. Inr demo_wrong_kind\<rparr>]"

lemma demo_wrong_kind_invalid: "\<not> vr_Valid (Validate NewConfigValidator np reg iter (Some demo_wrong_kind))"
  by (simp add: Validate_def validateStructure_def demo_wrong_kind_def addError_def)

theorem rejected_reload_changes_nothing_witness:
  "\<exists>errs ms rc' pd'. watchConfigChanges demo_rejected (demo_rc, demo_idle True) = ((errs, ms), rc', pd')
     \<and> length errs = 2 \<and> map fst ms = [False, False] \<and> rc' = demo_rc \<and> pd_config pd' = pd_config (demo_idle True)"
proof -
  obtain errs ms rc' pd' where run: "watchConfigChanges demo_rejected (demo_rc, demo_idle True) = ((errs, ms), rc', pd')"
    by (metis prod.exhaust)
  have idle: "\<not> rc_reloadInProgress demo_rc" by (simp add: NewReloadCoordinator_def)
  have "\<forall>v\<in>set demo_rejected. \<forall>new. \<not> acceptable v (rc_configPath demo_rc) new"
    by (simp add: demo_rejected_def acceptable_def demo_reload_def demo_wrong_kind_invalid)
  with rejected_reload_changes_nothing [OF run idle] run show ?thesis by (auto simp: demo_rejected_def)
qed

definition no_flags :: cli_flags where
  "no_flags = \<lparr>cli_debug = False, cli_logLevel = [], cli_logFormat = [], cli_dryRun = False, cli_enableProfiling = False, cli_profilingPort = 0\<rparr>"

end
