(* ===== verification/K8s_Client.thy ===== *)
theory K8s_Client
  imports Types Config_Load
begin

text \<open>
  \<^verbatim>\<open>pkg/exporters/kubernetes/types.go\<close> and \<^verbatim>\<open>client.go\<close>: the conversion of statuses, conditions and problems to
  Kubernetes objects, and the client that reads and writes the node.

  The API server is the environment: \<open>k8s_env\<close> gives the outcome of the n-th attempt of each kind of call, and \<open>kv_retries\<close> is
  client-go's \<^verbatim>\<open>retry.OnError\<close> with the default backoff: for the test that decides which errors are retried, and the outcomes
  of the attempts, the number of the last attempt that is made. An operation returns its error text and the
  requests it sent, in order. Loops over the characters of a string
  keep ASCII letters and digits only, so treating its bytes one by one is the same as treating its runes.
\<close>

section \<open>Kubernetes objects\<close>

record NodeCondition =
  nc_Type :: string
  nc_Status :: string
  nc_LastHeartbeatTime :: time
  nc_LastTransitionTime :: time
  nc_Reason :: string
  nc_Message :: string

record k8s_event =
  kev_Name :: string
  kev_Namespace :: string
  kev_ObjectName :: string
  kev_ObjectUID :: string
  kev_ObjectNamespace :: string
  kev_Reason :: string
  kev_Message :: string
  kev_Component :: string
  kev_Host :: string
  kev_FirstTimestamp :: time
  kev_LastTimestamp :: time
  kev_Count :: int
  kev_Type :: string

record EventSignature =
  es_Reason :: string
  es_Message :: string
  es_Type :: string
  es_Source :: string
  es_Timestamp :: time

definition EventTypeNormal :: string where "EventTypeNormal = ''Normal''"
definition EventTypeWarning :: string where "EventTypeWarning = ''Warning''"

definition nodeDoctorConditionPrefix :: string where
  "nodeDoctorConditionPrefix = ''NodeDoctor''"

abbreviation owned :: "string \<Rightarrow> bool" where
  "owned t \<equiv> has_prefix t nodeDoctorConditionPrefix"

section \<open>Conversions\<close>

definition is_lower :: "char \<Rightarrow> bool" where
  "is_lower c \<longleftrightarrow> 97 \<le> (of_char c :: nat) \<and> (of_char c :: nat) \<le> 122"

definition is_upper_or_digit :: "char \<Rightarrow> bool" where
  "is_upper_or_digit c \<longleftrightarrow> 65 \<le> (of_char c :: nat) \<and> (of_char c :: nat) \<le> 90
     \<or> 48 \<le> (of_char c :: nat) \<and> (of_char c :: nat) \<le> 57"

fun sanitize_type_from :: "bool \<Rightarrow> string \<Rightarrow> string" where
  "sanitize_type_from makeUpper [] = []"
| "sanitize_type_from makeUpper (c # cs) =
     (if is_lower c then (if makeUpper then char_of ((of_char c :: nat) - 32) else c) # sanitize_type_from False cs
      else if is_upper_or_digit c then c # sanitize_type_from False cs
      else sanitize_type_from True cs)"

definition sanitizeConditionType :: "string \<Rightarrow> string" where
  "sanitizeConditionType t = sanitize_type_from True t"

definition sanitizeEventReason :: "string \<Rightarrow> string" where
  "sanitizeEventReason reason =
     (let s = filter (\<lambda>c. is_lower c \<or> is_upper_or_digit c) reason in if s = [] then ''Unknown'' else s)"

definition sanitizeConditionReason :: "string \<Rightarrow> string" where
  "sanitizeConditionReason reason = sanitizeEventReason reason"

definition nodeDoctorConditionType :: "string \<Rightarrow> string" where
  "nodeDoctorConditionType t = (if owned t then t else nodeDoctorConditionPrefix @ sanitizeConditionType t)"

definition generateEventName :: "problem \<Rightarrow> string \<Rightarrow> string" where
  "generateEventName p nodeName = ''node-doctor-'' @ nodeName @ ''-'' @ sanitizeEventReason (pr_Type p) @ ''-''
     @ show_int (unix_sec (pr_DetectedAt p))"

definition generateEventNameFromEvent :: "event \<Rightarrow> string \<Rightarrow> string \<Rightarrow> string" where
  "generateEventNameFromEvent e source nodeName = ''node-doctor-'' @ nodeName @ ''-'' @ source @ ''-''
     @ sanitizeEventReason (ev_Reason e) @ ''-'' @ show_int (unix_sec (ev_Timestamp e))"

definition convertEventToK8sEvent :: "status \<Rightarrow> event \<Rightarrow> string \<Rightarrow> k8s_event" where
  "convertEventToK8sEvent s e nodeName =
     \<lparr>kev_Name = generateEventNameFromEvent e (st_Source s) nodeName, kev_Namespace = ''default'',
      kev_ObjectName = nodeName, kev_ObjectUID = [], kev_ObjectNamespace = [],
      kev_Reason = sanitizeEventReason (ev_Reason e), kev_Message = ev_Message e,
      kev_Component = ''node-doctor'', kev_Host = nodeName,
      kev_FirstTimestamp = ev_Timestamp e, kev_LastTimestamp = ev_Timestamp e, kev_Count = 1,
      kev_Type = (if ev_Severity e = EventError then EventTypeWarning else EventTypeNormal)\<rparr>"

definition ConvertStatusToEvents :: "status \<Rightarrow> string \<Rightarrow> k8s_event list" where
  "ConvertStatusToEvents s nodeName = map (\<lambda>e. convertEventToK8sEvent s e nodeName) (st_Events s)"

definition convertConditionToNodeCondition :: "time \<Rightarrow> condition \<Rightarrow> NodeCondition" where
  "convertConditionToNodeCondition now c =
     \<lparr>nc_Type = nodeDoctorConditionType (cond_Type c),
      nc_Status = (if cond_Status c = ConditionTrue then ''True''
        else if cond_Status c = ConditionFalse then ''False'' else ''Unknown''),
      nc_LastHeartbeatTime = now, nc_LastTransitionTime = cond_Transition c,
      nc_Reason = sanitizeConditionReason (cond_Reason c), nc_Message = cond_Message c\<rparr>"

definition ConvertConditionsToNodeConditions :: "time \<Rightarrow> condition list \<Rightarrow> NodeCondition list" where
  "ConvertConditionsToNodeConditions now cs = map (convertConditionToNodeCondition now) cs"

definition ConvertProblemToCondition :: "problem \<Rightarrow> NodeCondition" where
  "ConvertProblemToCondition p =
     \<lparr>nc_Type = ''NodeDoctor'' @ sanitizeConditionType (pr_Type p), nc_Status = ''False'',
      nc_LastHeartbeatTime = 0, nc_LastTransitionTime = pr_DetectedAt p,
      nc_Reason = (if pr_Severity p = ProblemCritical then ''CriticalProblem''
        else if pr_Severity p = ProblemWarning then ''WarningProblem''
        else if pr_Severity p = ProblemInfo then ''InfoProblem'' else ''ProblemDetected''),
      nc_Message = pr_Type p @ '' on '' @ pr_Resource p @ '': '' @ pr_Message p\<rparr>"

definition ConvertProblemToEvent :: "time \<Rightarrow> problem \<Rightarrow> string \<Rightarrow> k8s_event" where
  "ConvertProblemToEvent now p nodeName =
     \<lparr>kev_Name = generateEventName p nodeName, kev_Namespace = ''default'',
      kev_ObjectName = nodeName, kev_ObjectUID = [], kev_ObjectNamespace = [],
      kev_Reason = ''Problem'' @ sanitizeEventReason (pr_Severity p),
      kev_Message = pr_Type p @ '' detected on '' @ pr_Resource p @ '': '' @ pr_Message p,
      kev_Component = ''node-doctor'', kev_Host = nodeName,
      kev_FirstTimestamp = now, kev_LastTimestamp = now, kev_Count = 1,
      kev_Type = (if pr_Severity p = ProblemCritical then EventTypeWarning else EventTypeNormal)\<rparr>"

definition CreateEventSignature :: "k8s_event \<Rightarrow> EventSignature" where
  "CreateEventSignature e =
     \<lparr>es_Reason = kev_Reason e, es_Message = kev_Message e, es_Type = kev_Type e, es_Source = kev_Component e,
      es_Timestamp = truncate_time (kev_FirstTimestamp e) minute\<rparr>"

definition Signature_String :: "EventSignature \<Rightarrow> string" where
  "Signature_String s = es_Reason s @ '':'' @ es_Message s @ '':'' @ es_Type s @ '':'' @ es_Source s @ '':''
     @ show_int (unix_sec (es_Timestamp s))"

text \<open>\<open>sha\<close> is the hexadecimal SHA-256 digest of the standard library.\<close>

definition Signature_Hash :: "(string \<Rightarrow> string) \<Rightarrow> EventSignature \<Rightarrow> string" where
  "Signature_Hash sha s = take 16 (sha (Signature_String s))"

section \<open>The client\<close>

datatype k8s_reason = Conflict | AlreadyExists | ServiceUnavailable | RequestTimeout | ServerTimeout | OtherReason

record k8s_error =
  kr_reason :: k8s_reason
  kr_text :: string

datatype k8s_request =
    PatchStatus "NodeCondition list"
  | UpdateStatus "NodeCondition list" "NodeCondition list"
  | CreateRequest string k8s_event
  | PatchAnnotations "(string, string) gomap"

record k8s_env =
  kv_retries :: "(k8s_error \<Rightarrow> bool) \<Rightarrow> (nat \<Rightarrow> k8s_error option) \<Rightarrow> nat"
  kv_uid :: "nat \<Rightarrow> k8s_error + string"
  kv_node :: "nat \<Rightarrow> k8s_error + NodeCondition list"
  kv_patch :: "nat \<Rightarrow> k8s_error option"
  kv_update :: "nat \<Rightarrow> k8s_error option"
  kv_create :: "k8s_event \<Rightarrow> nat \<Rightarrow> k8s_error option"
  kv_annotate :: "nat \<Rightarrow> k8s_error option"

record K8sClient =
  kc_nodeName :: string
  kc_nodeUID :: string

definition retry_read :: "k8s_error \<Rightarrow> bool" where
  "retry_read e \<longleftrightarrow> kr_reason e \<in> {ServiceUnavailable, RequestTimeout, ServerTimeout}"

definition retry_write :: "k8s_error \<Rightarrow> bool" where
  "retry_write e \<longleftrightarrow> kr_reason e = Conflict \<or> retry_read e"

definition retry_create :: "k8s_error \<Rightarrow> bool" where
  "retry_create e \<longleftrightarrow> kr_reason e \<noteq> AlreadyExists \<and> retry_read e"

text \<open>The outcome of the last attempt and how many were made; \<open>failed\<close> is the error of an attempt that also yields a value.\<close>

definition OnError :: "k8s_env \<Rightarrow> (k8s_error \<Rightarrow> bool) \<Rightarrow> (nat \<Rightarrow> k8s_error option) \<Rightarrow> k8s_error option \<times> nat" where
  "OnError v retriable out = (let n = kv_retries v retriable out in (out n, Suc n))"

definition failed :: "k8s_error + 'a \<Rightarrow> k8s_error option" where
  "failed r = (case r of Inl e \<Rightarrow> Some e | Inr _ \<Rightarrow> None)"

definition initializeNodeUID :: "k8s_env \<Rightarrow> K8sClient \<Rightarrow> string option \<times> K8sClient" where
  "initializeNodeUID v c = (let n = kv_retries v retry_read (\<lambda>i. failed (kv_uid v i)) in
     case kv_uid v n of Inl e \<Rightarrow> (Some (''failed to get node '' @ kc_nodeName c @ '': '' @ kr_text e), c)
     | Inr uid \<Rightarrow> (None, c\<lparr>kc_nodeUID := uid\<rparr>))"

text \<open>\<open>connect\<close> builds client-go's clientset from the kubeconfig path (empty for the in-cluster configuration).\<close>

definition NewClient :: "k8s_env \<Rightarrow> (string \<Rightarrow> string option) \<Rightarrow> GlobalSettings \<Rightarrow> string + K8sClient" where
  "NewClient v connect s =
     (case connect (gs_Kubeconfig s) of Some e \<Rightarrow> Inl e
      | None \<Rightarrow> (case initializeNodeUID v \<lparr>kc_nodeName = gs_NodeName s, kc_nodeUID = []\<rparr> of
          (Some e, _) \<Rightarrow> Inl (''failed to initialize node UID: '' @ e)
        | (None, c) \<Rightarrow> Inr c))"

definition PatchNodeConditions :: "k8s_env \<Rightarrow> NodeCondition list \<Rightarrow> string option \<times> k8s_request list" where
  "PatchNodeConditions v cs =
     (if cs = [] then (None, [])
      else case OnError v retry_write (kv_patch v) of (err, n) \<Rightarrow>
        (map_option (\<lambda>e. ''failed to patch node conditions after retries: '' @ kr_text e) err, replicate n (PatchStatus cs)))"

definition Client_CreateEvent :: "k8s_env \<Rightarrow> K8sClient \<Rightarrow> k8s_event \<Rightarrow> string \<Rightarrow> string option \<times> k8s_request list" where
  "Client_CreateEvent v c e namespace =
     (let e' = e\<lparr>kev_ObjectUID := kc_nodeUID c, kev_ObjectNamespace := namespace, kev_Namespace := namespace\<rparr> in
      case OnError v retry_create (kv_create v e') of (err, n) \<Rightarrow>
        ((case err of None \<Rightarrow> None
          | Some x \<Rightarrow> if kr_reason x = AlreadyExists then None
              else Some (''failed to create event '' @ kev_Name e @ '' after retries: '' @ kr_text x)),
         replicate n (CreateRequest namespace e')))"

definition GetNode :: "k8s_env \<Rightarrow> K8sClient \<Rightarrow> string + NodeCondition list" where
  "GetNode v c = (let n = kv_retries v retry_read (\<lambda>i. failed (kv_node v i)) in
     case kv_node v n of Inl e \<Rightarrow> Inl (''failed to get node '' @ kc_nodeName c @ '' after retries: '' @ kr_text e)
     | Inr cs \<Rightarrow> Inr cs)"

definition UpdateNodeAnnotations :: "k8s_env \<Rightarrow> (string, string) gomap \<Rightarrow> string option \<times> k8s_request list" where
  "UpdateNodeAnnotations v annotations =
     (if annotations = [] then (None, [])
      else case OnError v retry_write (kv_annotate v) of (err, n) \<Rightarrow>
        (map_option (\<lambda>e. ''failed to patch node annotations after retries: '' @ kr_text e) err,
         replicate n (PatchAnnotations annotations)))"

definition Client_IsHealthy :: "k8s_env \<Rightarrow> K8sClient \<Rightarrow> bool" where
  "Client_IsHealthy v c = (\<not> isl (GetNode v c))"

text \<open>One attempt of the read-modify-write cycle that removes conditions.\<close>

definition remove_attempt :: "k8s_env \<Rightarrow> string set \<Rightarrow> nat \<Rightarrow> k8s_error option \<times> k8s_request list" where
  "remove_attempt v removeSet i =
     (case kv_node v i of Inl e \<Rightarrow> (Some e, [])
      | Inr cs \<Rightarrow> (let filtered = filter (\<lambda>c. nc_Type c \<notin> removeSet) cs in
          if length filtered = length cs then (None, []) else (kv_update v i, [UpdateStatus cs filtered])))"

definition is_conflict :: "k8s_error \<Rightarrow> bool" where
  "is_conflict e \<longleftrightarrow> kr_reason e = Conflict"

definition RemoveNodeConditions :: "k8s_env \<Rightarrow> K8sClient \<Rightarrow> string list \<Rightarrow> string option \<times> k8s_request list" where
  "RemoveNodeConditions v c ts =
     (let removeSet = set (filter owned ts) in
      if filter owned ts = [] then (None, [])
      else case OnError v is_conflict (\<lambda>i. fst (remove_attempt v removeSet i)) of (err, n) \<Rightarrow>
        (map_option (\<lambda>e. ''failed to remove conditions from node '' @ kc_nodeName c @ '' after retries: '' @ kr_text e) err,
         concat (map (\<lambda>i. snd (remove_attempt v removeSet i)) [0..<n])))"

section \<open>Lemmas\<close>

lemma nodeDoctorConditionType_owned [simp]: "owned (nodeDoctorConditionType t)"
  by (simp add: nodeDoctorConditionType_def)

lemma nodeDoctorConditionType_idem [simp]: "nodeDoctorConditionType (nodeDoctorConditionType t) = nodeDoctorConditionType t"
  using nodeDoctorConditionType_owned [of t] unfolding nodeDoctorConditionType_def [of "nodeDoctorConditionType t"] by simp

lemma converted_condition_owned [simp]: "owned (nc_Type (convertConditionToNodeCondition now c))"
  by (simp add: convertConditionToNodeCondition_def)

lemma converted_problem_owned [simp]: "owned (nc_Type (ConvertProblemToCondition p))"
  by (simp add: ConvertProblemToCondition_def nodeDoctorConditionPrefix_def has_prefix_def)

text \<open>A write of the client that leaves every condition alone that is not node-doctor's.\<close>

fun keeps_foreign :: "k8s_request \<Rightarrow> bool" where
  "keeps_foreign (PatchStatus cs) = list_all (\<lambda>c. owned (nc_Type c)) cs"
| "keeps_foreign (UpdateStatus fetched sent) =
     (filter (\<lambda>c. \<not> owned (nc_Type c)) sent = filter (\<lambda>c. \<not> owned (nc_Type c)) fetched
      \<and> (\<exists>P. sent = filter P fetched))"
| "keeps_foreign (CreateRequest n e) = True"
| "keeps_foreign (PatchAnnotations m) = True"

lemma RemoveNodeConditions_requests:
  assumes "r \<in> set (snd (RemoveNodeConditions v c ts))"
  obtains fetched where "r = UpdateStatus fetched (filter (\<lambda>n. nc_Type n \<notin> set (filter owned ts)) fetched)"
proof -
  from assms obtain i where "r \<in> set (snd (remove_attempt v (set (filter owned ts)) i))"
    by (auto simp: RemoveNodeConditions_def Let_def split: prod.splits if_splits)
  then show thesis
    by (cases "kv_node v i") (auto simp: remove_attempt_def Let_def split: if_splits intro: that)
qed

lemma RemoveNodeConditions_keeps:
  "list_all keeps_foreign (snd (RemoveNodeConditions v c ts))"
  unfolding list_all_iff
proof
  fix r assume "r \<in> set (snd (RemoveNodeConditions v c ts))"
  then obtain fetched where "r = UpdateStatus fetched (filter (\<lambda>n. nc_Type n \<notin> set (filter owned ts)) fetched)"
    by (rule RemoveNodeConditions_requests)
  then show "keeps_foreign r" by (auto intro: filter_cong)
qed

lemma PatchNodeConditions_keeps:
  "list_all (\<lambda>c. owned (nc_Type c)) cs \<Longrightarrow> list_all keeps_foreign (snd (PatchNodeConditions v cs))"
  by (auto simp: PatchNodeConditions_def list_all_iff split: prod.splits)

section \<open>Example data\<close>

definition demo_k8s :: k8s_env where
  "demo_k8s = \<lparr>kv_retries = \<lambda>p out. if out 0 = None then 0 else 1, kv_uid = \<lambda>_. Inr ''uid'', kv_node = \<lambda>_. Inr [],
     kv_patch = \<lambda>_. None, kv_update = \<lambda>_. None, kv_create = \<lambda>_ _. None, kv_annotate = \<lambda>_. None\<rparr>"

definition demo_k8s_client :: K8sClient where
  "demo_k8s_client = \<lparr>kc_nodeName = ''n1'', kc_nodeUID = ''uid''\<rparr>"

definition demo_k8s_config :: "int \<Rightarrow> KubernetesExporterConfig" where
  "demo_k8s_config n = \<lparr>ke_Enabled = True, ke_UpdateIntervalString = [], ke_ResyncIntervalString = [], ke_HeartbeatIntervalString = [],
     ke_ConditionStaleTTLString = [], ke_UpdateInterval = 0, ke_ResyncInterval = 0, ke_HeartbeatInterval = 0,
     ke_ConditionStaleTTL = 0, ke_Namespace = [], ke_Conditions = [], ke_Annotations = [],
     ke_Events = \<lparr>ec_MaxEventsPerMinute = n, ec_EventTTLString = [], ec_EventTTL = 0, ec_DeduplicationWindowString = [], ec_DeduplicationWindow = 0\<rparr>\<rparr>"

definition demo_k8s_valid :: "duration \<Rightarrow> KubernetesExporterConfig" where
  "demo_k8s_valid d = (demo_k8s_config 5)\<lparr>ke_UpdateInterval := d, ke_ResyncInterval := minute,
     ke_HeartbeatInterval := 5 * minute, ke_ConditionStaleTTL := 6 * minute\<rparr>"

lemma demo_k8s_valid_ok: "KubernetesExporterConfig_Validate (demo_k8s_valid (10 * second)) = None"
  "KubernetesExporterConfig_Validate (demo_k8s_valid (20 * second)) = None"
  by (simp_all add: KubernetesExporterConfig_Validate_def demo_k8s_valid_def demo_k8s_config_def)

end
