(* ===== verification/K8s_Conditions.thy ===== *)
theory K8s_Conditions
  imports K8s_Client
begin

text \<open>
  \<^verbatim>\<open>pkg/exporters/kubernetes/condition_manager.go\<close>: node conditions are collected, written in batches, refreshed, expired and
  removed. The bodies of the three background loops are the operations \<open>flushPendingUpdates\<close>, \<open>performResync\<close> and
  \<open>sendHeartbeat\<close>; \<open>cm_loops\<close> holds the contexts with which the loops were started and that \<^verbatim>\<open>Stop\<close> has not ended.
  An operation reads the clock once.
\<close>

section \<open>The manager\<close>

record ConditionManager =
  cm_config :: KubernetesExporterConfig
  cm_conditions :: "(string, NodeCondition) gomap"
  cm_pendingUpdates :: "(string, NodeCondition) gomap"
  cm_pendingRemovals :: "string list"
  cm_lastRefreshed :: "(string, time) gomap"
  cm_updateInterval :: duration
  cm_resyncInterval :: duration
  cm_heartbeatInterval :: duration
  cm_staleTTL :: duration
  cm_startTime :: time
  cm_lastUpdate :: time
  cm_lastResync :: time
  cm_lastHeartbeat :: time
  cm_stopped :: bool
  cm_loops :: "nat list"

definition defaultConditionStaleTTL :: duration where
  "defaultConditionStaleTTL = 6 * minute"

definition NewConditionManager :: "time \<Rightarrow> KubernetesExporterConfig \<Rightarrow> ConditionManager" where
  "NewConditionManager now c =
     (let resync = (if ke_ResyncInterval c > 0 then ke_ResyncInterval c else 60 * second);
          ttl = (if ke_ConditionStaleTTL c > 0 then ke_ConditionStaleTTL c else defaultConditionStaleTTL);
          minTTL = wrap64 (3 * resync)
      in \<lparr>cm_config = c, cm_conditions = [], cm_pendingUpdates = [], cm_pendingRemovals = [], cm_lastRefreshed = [],
          cm_updateInterval = (if ke_UpdateInterval c > 0 then ke_UpdateInterval c else 10 * second),
          cm_resyncInterval = resync,
          cm_heartbeatInterval = (if ke_HeartbeatInterval c > 0 then ke_HeartbeatInterval c else 5 * minute),
          cm_staleTTL = (if ttl < minTTL then minTTL else ttl), cm_startTime = now,
          cm_lastUpdate = 0, cm_lastResync = 0, cm_lastHeartbeat = 0, cm_stopped = False, cm_loops = []\<rparr>)"

definition conditionsEqual :: "NodeCondition \<Rightarrow> NodeCondition \<Rightarrow> bool" where
  "conditionsEqual a b \<longleftrightarrow> nc_Type a = nc_Type b \<and> nc_Status a = nc_Status b \<and> nc_Reason a = nc_Reason b
     \<and> nc_Message a = nc_Message b"

text \<open>The new condition with the transition time of the existing one while the status is the same.\<close>

definition carry_transition :: "NodeCondition option \<Rightarrow> NodeCondition \<Rightarrow> NodeCondition" where
  "carry_transition existing n =
     (case existing of Some x \<Rightarrow>
        if nc_Status x = nc_Status n \<and> \<not> is_zero_time (nc_LastTransitionTime x)
        then n\<lparr>nc_LastTransitionTime := nc_LastTransitionTime x\<rparr> else n
      | None \<Rightarrow> n)"

definition queue_update :: "time \<Rightarrow> NodeCondition \<Rightarrow> ConditionManager \<Rightarrow> ConditionManager" where
  "queue_update now n cm = cm\<lparr>cm_pendingUpdates := AList.update (nc_Type n) n (cm_pendingUpdates cm),
     cm_lastRefreshed := AList.update (nc_Type n) now (cm_lastRefreshed cm)\<rparr>"

definition UpdateCondition :: "time \<Rightarrow> condition \<Rightarrow> ConditionManager \<Rightarrow> ConditionManager" where
  "UpdateCondition now c cm =
     (let n0 = convertConditionToNodeCondition now c; existing = map_of (cm_conditions cm) (nc_Type n0);
          n = carry_transition existing n0
      in case existing of
           Some x \<Rightarrow> if conditionsEqual x n then cm\<lparr>cm_lastRefreshed := AList.update (nc_Type n) now (cm_lastRefreshed cm)\<rparr>
             else queue_update now n cm
         | None \<Rightarrow> queue_update now n cm)"

definition UpdateConditionFromProblem :: "time \<Rightarrow> problem \<Rightarrow> ConditionManager \<Rightarrow> ConditionManager" where
  "UpdateConditionFromProblem now p cm = queue_update now (ConvertProblemToCondition p) cm"

definition custom_condition :: "time \<Rightarrow> ConditionConfig \<Rightarrow> NodeCondition" where
  "custom_condition now c =
     \<lparr>nc_Type = ccf_Type c,
      nc_Status = (if ccf_DefaultStatus c = ''False'' then ''False'' else if ccf_DefaultStatus c = ''Unknown'' then ''Unknown'' else ''True''),
      nc_LastHeartbeatTime = 0, nc_LastTransitionTime = now,
      nc_Reason = ccf_DefaultReason c, nc_Message = ccf_DefaultMessage c\<rparr>"

definition AddCustomConditions :: "time \<Rightarrow> ConditionManager \<Rightarrow> ConditionManager" where
  "AddCustomConditions now cm = fold (\<lambda>c. queue_update now (custom_condition now c)) (ke_Conditions (cm_config cm)) cm"

definition retiredDNSConditionTypes :: "string list" where
  "retiredDNSConditionTypes = [''NodeDoctorClusterDNSHealthy'', ''NodeDoctorNetworkReachable'',
     ''NodeDoctorDNSResolutionConsistent'', ''NodeDoctorCustomDNSHealthy'']"

definition mark_removed :: "string \<Rightarrow> ConditionManager \<Rightarrow> ConditionManager" where
  "mark_removed t cm = cm\<lparr>cm_pendingRemovals := List.insert t (cm_pendingRemovals cm),
     cm_conditions := AList.delete t (cm_conditions cm), cm_pendingUpdates := AList.delete t (cm_pendingUpdates cm)\<rparr>"

definition removeRetiredDNSConditions :: "ConditionManager \<Rightarrow> ConditionManager" where
  "removeRetiredDNSConditions cm =
     fold (\<lambda>t cm. if map_of (cm_conditions cm) t = None then cm else mark_removed t cm) retiredDNSConditionTypes cm"

definition load_conditions :: "NodeCondition list \<Rightarrow> (string, NodeCondition) gomap \<Rightarrow> (string, NodeCondition) gomap" where
  "load_conditions cs m = fold (\<lambda>c. AList.update (nc_Type c) c) cs m"

definition add_missing :: "time \<Rightarrow> ConditionConfig \<Rightarrow> ConditionManager \<Rightarrow> ConditionManager" where
  "add_missing now cc cm = (if map_of (cm_conditions cm) (ccf_Type cc) = None
     then cm\<lparr>cm_pendingUpdates := AList.update (ccf_Type cc) (custom_condition now cc) (cm_pendingUpdates cm)\<rparr> else cm)"

definition initialSync :: "k8s_env \<Rightarrow> K8sClient \<Rightarrow> time \<Rightarrow> ConditionManager \<Rightarrow> string option \<times> ConditionManager" where
  "initialSync v c now cm =
     (case GetNode v c of Inl e \<Rightarrow> (Some (''failed to get current node state: '' @ e), cm)
      | Inr cs \<Rightarrow>
          (let cm1 = cm\<lparr>cm_conditions := load_conditions cs (cm_conditions cm)\<rparr>;
               cm2 = fold (add_missing now) (ke_Conditions (cm_config cm)) cm1
           in (None, (removeRetiredDNSConditions cm2)\<lparr>cm_lastResync := now\<rparr>)))"

definition Conditions_Start :: "k8s_env \<Rightarrow> K8sClient \<Rightarrow> time \<Rightarrow> nat \<Rightarrow> ConditionManager \<Rightarrow> ConditionManager" where
  "Conditions_Start v c now ctx cm =
     (let cm1 = snd (initialSync v c now (cm\<lparr>cm_stopped := False\<rparr>)) in cm1\<lparr>cm_loops := cm_loops cm1 @ [ctx]\<rparr>)"

definition Conditions_Stop :: "ConditionManager \<Rightarrow> ConditionManager" where
  "Conditions_Stop cm = (if cm_stopped cm then cm else cm\<lparr>cm_stopped := True, cm_loops := []\<rparr>)"

definition stale :: "time \<Rightarrow> ConditionManager \<Rightarrow> string \<Rightarrow> bool" where
  "stale now cm t \<longleftrightarrow> t \<noteq> ''NodeDoctorHealthy'' \<and> owned t
     \<and> time_sub now (gomap_get (cm_startTime cm) (cm_lastRefreshed cm) t) > cm_staleTTL cm"

definition expireStaleConditions :: "time \<Rightarrow> ConditionManager \<Rightarrow> ConditionManager" where
  "expireStaleConditions now cm =
     (let expired = filter (stale now cm) (map fst (cm_conditions cm))
      in cm\<lparr>cm_pendingRemovals := fold List.insert expired (cm_pendingRemovals cm),
            cm_conditions := fold AList.delete expired (cm_conditions cm),
            cm_lastRefreshed := fold AList.delete expired (cm_lastRefreshed cm)\<rparr>)"

definition flush_removals :: "k8s_env \<Rightarrow> K8sClient \<Rightarrow> ConditionManager \<Rightarrow> string option \<times> k8s_request list \<times> ConditionManager" where
  "flush_removals v c cm =
     (if cm_pendingRemovals cm = [] then (None, [], cm)
      else case RemoveNodeConditions v c (cm_pendingRemovals cm) of
        (Some e, reqs) \<Rightarrow> (Some e, reqs, cm)
      | (None, reqs) \<Rightarrow> (None, reqs, cm\<lparr>cm_pendingRemovals := []\<rparr>))"

text \<open>The conditions of a patch: the known ones that node-doctor owns, overridden by the queued ones that it owns.\<close>

definition conditions_to_update :: "ConditionManager \<Rightarrow> (string, NodeCondition) gomap" where
  "conditions_to_update cm = fold (\<lambda>(t, n). AList.update t n) (gomap_filter (\<lambda>t _. owned t) (cm_pendingUpdates cm))
     (gomap_filter (\<lambda>t _. owned t) (cm_conditions cm))"

definition flush_updates :: "k8s_env \<Rightarrow> ConditionManager \<Rightarrow> string option \<times> k8s_request list \<times> ConditionManager" where
  "flush_updates v cm =
     (if cm_pendingUpdates cm = [] then (None, [], cm)
      else case PatchNodeConditions v (map snd (conditions_to_update cm)) of
        (Some e, reqs) \<Rightarrow> (Some e, reqs, cm)
      | (None, reqs) \<Rightarrow> (None, reqs, cm\<lparr>cm_conditions := fold (\<lambda>(t, n). AList.update t n) (cm_pendingUpdates cm) (cm_conditions cm),
            cm_pendingUpdates := []\<rparr>))"

definition flushPendingUpdates ::
  "k8s_env \<Rightarrow> K8sClient \<Rightarrow> time \<Rightarrow> ConditionManager \<Rightarrow> string option \<times> k8s_request list \<times> ConditionManager" where
  "flushPendingUpdates v c now cm =
     (let cm1 = expireStaleConditions now cm in
      if cm_pendingUpdates cm1 = [] \<and> cm_pendingRemovals cm1 = [] then (None, [], cm1)
      else case flush_removals v c cm1 of (e1, reqs1, cm2) \<Rightarrow>
        case flush_updates v cm2 of (e2, reqs2, cm3) \<Rightarrow>
          (map_option (\<lambda>e. ''failed to flush pending updates: '' @ e) (case e2 of Some e \<Rightarrow> Some e | None \<Rightarrow> e1),
           reqs1 @ reqs2, cm3\<lparr>cm_lastUpdate := now\<rparr>))"

text \<open>The node was read before the lock is taken; \<open>r\<close> is what the read gave.\<close>

definition performResync :: "string + NodeCondition list \<Rightarrow> time \<Rightarrow> ConditionManager \<Rightarrow> string option \<times> ConditionManager" where
  "performResync r now cm =
     (case r of Inl e \<Rightarrow> (Some (''failed to get current node state for resync: '' @ e), cm)
      | Inr cs \<Rightarrow> (None, cm\<lparr>cm_conditions := load_conditions cs [], cm_lastResync := now\<rparr>))"

text \<open>\<open>rfc\<close> is the text of a time in the format RFC 3339.\<close>

definition sendHeartbeat :: "(time \<Rightarrow> string) \<Rightarrow> time \<Rightarrow> ConditionManager \<Rightarrow> ConditionManager" where
  "sendHeartbeat rfc now cm = (queue_update now
     \<lparr>nc_Type = ''NodeDoctorHealthy'', nc_Status = ''True'', nc_LastHeartbeatTime = 0, nc_LastTransitionTime = now,
      nc_Reason = ''Heartbeat'', nc_Message = ''Node Doctor is running (last heartbeat: '' @ rfc now @ '')''\<rparr> cm)\<lparr>cm_lastHeartbeat := now\<rparr>"

definition Conditions_IsHealthy :: "time \<Rightarrow> ConditionManager \<Rightarrow> bool" where
  "Conditions_IsHealthy now cm =
     (if \<not> is_zero_time (cm_lastUpdate cm) \<and> time_sub now (cm_lastUpdate cm) > wrap64 (2 * cm_updateInterval cm) then False
      else if \<not> is_zero_time (cm_lastResync cm) \<and> time_sub now (cm_lastResync cm) > wrap64 (2 * cm_resyncInterval cm) then False
      else length (cm_pendingUpdates cm) \<le> 50)"

definition RemoveCondition :: "string \<Rightarrow> ConditionManager \<Rightarrow> ConditionManager" where
  "RemoveCondition t cm = mark_removed t cm"

definition managed_prefixes :: "string list" where
  "managed_prefixes = [''NodeDoctor'', ''CPUPressure'', ''NetworkUnreachable'', ''DNSResolutionFailed'', ''GatewayUnreachable'',
     ''CNI'', ''HighCPULoad'', ''HighMemory'', ''HighDiskUsage'', ''HighInodeUsage'', ''ReadOnlyFilesystem'', ''OOMKillsDetected'']"

definition ClearManagedConditions :: "ConditionManager \<Rightarrow> string list \<times> ConditionManager" where
  "ClearManagedConditions cm =
     (let cleared = filter (\<lambda>t. t \<noteq> ''NodeDoctorHealthy'' \<and> list_ex (has_prefix t) managed_prefixes) (map fst (cm_conditions cm))
      in (cleared, cm\<lparr>cm_conditions := fold AList.delete cleared (cm_conditions cm),
                      cm_pendingUpdates := fold AList.delete cleared (cm_pendingUpdates cm)\<rparr>))"

definition GetManagedConditionTypes :: "ConditionManager \<Rightarrow> string list" where
  "GetManagedConditionTypes cm = map fst (cm_conditions cm)"

section \<open>The invariant\<close>

text \<open>The maps are keyed by the type of the condition.\<close>

definition keyed :: "(string, NodeCondition) gomap \<Rightarrow> bool" where
  "keyed m \<longleftrightarrow> gomap_ok m \<and> (\<forall>(t, n)\<in>set m. nc_Type n = t)"

definition cm_ok :: "ConditionManager \<Rightarrow> bool" where
  "cm_ok cm \<longleftrightarrow> keyed (cm_conditions cm) \<and> keyed (cm_pendingUpdates cm) \<and> gomap_ok (cm_lastRefreshed cm)"

lemma keyed_Nil [simp]: "keyed []"
  by (simp add: keyed_def)

lemma keyed_update [simp]: "keyed m \<Longrightarrow> nc_Type n = t \<Longrightarrow> keyed (AList.update t n m)"
  by (auto simp: keyed_def dest!: set_mp [OF set_update_subset])

lemma set_delete_subset: "set (AList.delete k m) \<subseteq> set m"
  by (auto simp: AList.delete_eq)

lemma keyed_delete [simp]: "keyed m \<Longrightarrow> keyed (AList.delete t m)"
  using set_delete_subset [of t m] by (auto simp: keyed_def)

lemma keyed_fold_update: "keyed m \<Longrightarrow> \<forall>(t, n)\<in>set xs. nc_Type n = t \<Longrightarrow> keyed (fold (\<lambda>(t, n). AList.update t n) xs m)"
  by (induction xs arbitrary: m) auto

lemma keyed_load [simp]: "keyed m \<Longrightarrow> keyed (load_conditions cs m)"
  unfolding load_conditions_def by (induction cs arbitrary: m) auto

lemma keyed_fold_delete [simp]: "keyed m \<Longrightarrow> keyed (fold AList.delete ts m)"
  by (induction ts arbitrary: m) auto

lemma keyed_filter [simp]: "keyed m \<Longrightarrow> keyed (gomap_filter P m)"
  by (auto simp: keyed_def gomap_filter_def distinct_map_filter)

lemma gomap_ok_fold_delete [simp]: "gomap_ok m \<Longrightarrow> gomap_ok (fold AList.delete ts m)"
  by (induction ts arbitrary: m) auto

lemma cm_ok_new [simp]: "cm_ok (NewConditionManager now c)"
  by (simp add: cm_ok_def NewConditionManager_def Let_def)

lemma carry_transition_keeps [simp]:
  "nc_Type (carry_transition x n) = nc_Type n" "nc_Status (carry_transition x n) = nc_Status n"
  "nc_Reason (carry_transition x n) = nc_Reason n" "nc_Message (carry_transition x n) = nc_Message n"
  by (simp_all add: carry_transition_def split: option.split)

lemma cm_ok_queue [simp]: "cm_ok cm \<Longrightarrow> cm_ok (queue_update now n cm)"
  by (simp add: cm_ok_def queue_update_def)

lemma cm_ok_UpdateCondition [simp]: "cm_ok cm \<Longrightarrow> cm_ok (UpdateCondition now c cm)"
  by (simp add: UpdateCondition_def Let_def split: option.split) (simp add: cm_ok_def)

lemma cm_ok_problem [simp]: "cm_ok cm \<Longrightarrow> cm_ok (UpdateConditionFromProblem now p cm)"
  by (simp add: UpdateConditionFromProblem_def)

lemma cm_ok_custom [simp]: "cm_ok cm \<Longrightarrow> cm_ok (AddCustomConditions now cm)"
  unfolding AddCustomConditions_def
  by (rule fold_invariant [where Q = "\<lambda>_. True"]) simp_all

lemma cm_ok_mark_removed [simp]: "cm_ok cm \<Longrightarrow> cm_ok (mark_removed t cm)"
  by (simp add: cm_ok_def mark_removed_def)

lemma cm_ok_initialSync [simp]: "cm_ok cm \<Longrightarrow> cm_ok (snd (initialSync v c now cm))"
proof (cases "GetNode v c")
  case (Inr cs)
  assume "cm_ok cm"
  let ?cm1 = "cm\<lparr>cm_conditions := load_conditions cs (cm_conditions cm)\<rparr>"
  have "cm_ok ?cm1" using \<open>cm_ok cm\<close> by (simp add: cm_ok_def)
  then have "cm_ok (fold (add_missing now) (ke_Conditions (cm_config cm)) ?cm1)"
    by (rule fold_invariant [where Q = "\<lambda>_. True", rotated]) (simp_all add: cm_ok_def add_missing_def custom_condition_def)
  then have "cm_ok (removeRetiredDNSConditions (fold (add_missing now) (ke_Conditions (cm_config cm)) ?cm1))"
    unfolding removeRetiredDNSConditions_def
    by (rule fold_invariant [where Q = "\<lambda>_. True", rotated]) simp_all
  then show ?thesis using Inr by (simp add: initialSync_def Let_def cm_ok_def)
qed (simp add: initialSync_def)

lemma cm_ok_start_stop [simp]:
  "cm_ok cm \<Longrightarrow> cm_ok (Conditions_Start v c now ctx cm)" "cm_ok cm \<Longrightarrow> cm_ok (Conditions_Stop cm)"
proof -
  assume ok: "cm_ok cm"
  then have "cm_ok (cm\<lparr>cm_stopped := False\<rparr>)" by (simp add: cm_ok_def)
  from cm_ok_initialSync [OF this] show "cm_ok (Conditions_Start v c now ctx cm)"
    by (simp add: Conditions_Start_def Let_def cm_ok_def)
  from ok show "cm_ok (Conditions_Stop cm)" by (simp add: Conditions_Stop_def cm_ok_def)
qed

lemma cm_ok_expire [simp]: "cm_ok cm \<Longrightarrow> cm_ok (expireStaleConditions now cm)"
  by (simp add: cm_ok_def expireStaleConditions_def Let_def)

lemma flush_removals_frame:
  "flush_removals v c cm = (e, reqs, cm') \<Longrightarrow> cm_conditions cm' = cm_conditions cm \<and> cm_pendingUpdates cm' = cm_pendingUpdates cm
     \<and> cm_lastRefreshed cm' = cm_lastRefreshed cm \<and> (e = None \<longrightarrow> cm_pendingRemovals cm' = [])
     \<and> (e \<noteq> None \<longrightarrow> cm' = cm) \<and> list_all keeps_foreign reqs"
  using RemoveNodeConditions_keeps [of v c "cm_pendingRemovals cm"]
  by (auto simp: flush_removals_def split: if_splits prod.splits option.splits)

lemma conditions_to_update_keyed: "cm_ok cm \<Longrightarrow> keyed (conditions_to_update cm)"
  unfolding conditions_to_update_def cm_ok_def
  by (rule keyed_fold_update) (auto simp: keyed_def gomap_filter_def distinct_map_filter)

lemma map_of_fold_update_pairs: "gomap_ok xs \<Longrightarrow> map_of (fold (\<lambda>(t, n). AList.update t n) xs m) = map_of m ++ map_of xs"
proof -
  assume "gomap_ok xs"
  then have "map_of (fold (\<lambda>x. AList.update (fst x) (snd x)) xs m) = map_of m ++ map_of (map (\<lambda>x. (fst x, snd x)) xs)"
    by (rule map_of_fold_update)
  then show ?thesis by (simp add: case_prod_unfold)
qed

lemma map_of_conditions_to_update:
  assumes "cm_ok cm"
  shows "map_of (conditions_to_update cm) t =
    (if owned t then (case map_of (cm_pendingUpdates cm) t of Some n \<Rightarrow> Some n | None \<Rightarrow> map_of (cm_conditions cm) t) else None)"
proof -
  have ok: "gomap_ok (cm_pendingUpdates cm)" "gomap_ok (cm_conditions cm)" using assms by (simp_all add: cm_ok_def keyed_def)
  have "gomap_ok (gomap_filter (\<lambda>t _. owned t) (cm_pendingUpdates cm))" using ok(1) by simp
  from map_of_fold_update_pairs [OF this, of "gomap_filter (\<lambda>t _. owned t) (cm_conditions cm)"] show ?thesis
    by (simp add: conditions_to_update_def map_add_def map_of_gomap_filter ok split: option.split)
qed

lemma conditions_to_update_owned:
  assumes "cm_ok cm"
  shows "list_all (\<lambda>n. owned (nc_Type n)) (map snd (conditions_to_update cm))"
proof -
  note k = conditions_to_update_keyed [OF assms]
  have "owned (nc_Type n)" if "(t, n) \<in> set (conditions_to_update cm)" for t n
  proof -
    have "map_of (conditions_to_update cm) t = Some n" using k that by (simp add: keyed_def)
    then have "owned t" by (simp add: map_of_conditions_to_update [OF assms] split: if_splits)
    then show ?thesis using k that by (auto simp: keyed_def)
  qed
  then show ?thesis by (auto simp: list_all_iff)
qed

lemma flush_updates_ok:
  assumes "flush_updates v cm = (e, reqs, cm')" "cm_ok cm"
  shows "cm_ok cm' \<and> list_all keeps_foreign reqs"
proof (cases "cm_pendingUpdates cm = []")
  case True
  with assms show ?thesis by (simp add: flush_updates_def)
next
  case False
  obtain e0 reqs0 where p: "PatchNodeConditions v (map snd (conditions_to_update cm)) = (e0, reqs0)" by fastforce
  have "list_all keeps_foreign reqs0"
    using PatchNodeConditions_keeps [OF conditions_to_update_owned [OF assms(2)], of v] p by simp
  moreover have "keyed (fold (\<lambda>(t, n). AList.update t n) (cm_pendingUpdates cm) (cm_conditions cm))"
    using assms(2) by (intro keyed_fold_update) (auto simp: cm_ok_def keyed_def)
  moreover have "flush_updates v cm = (case e0 of Some e \<Rightarrow> (Some e, reqs0, cm)
      | None \<Rightarrow> (None, reqs0, cm\<lparr>cm_conditions := fold (\<lambda>(t, n). AList.update t n) (cm_pendingUpdates cm) (cm_conditions cm),
            cm_pendingUpdates := []\<rparr>))"
    unfolding flush_updates_def p if_not_P [OF False] prod.case ..
  ultimately show ?thesis
    using assms unfolding cm_ok_def by (cases e0) (elim conjE; simp)+
qed

lemma flush_cases [consumes 1, case_names idle work]:
  assumes "flushPendingUpdates v c now cm = (err, reqs, cm')"
  obtains "cm_pendingUpdates cm = []" "cm_pendingRemovals (expireStaleConditions now cm) = []" "err = None" "reqs = []"
      "cm' = expireStaleConditions now cm"
  | e1 reqs1 cm2 e2 reqs2 cm3 where
      "flush_removals v c (expireStaleConditions now cm) = (e1, reqs1, cm2)" "flush_updates v cm2 = (e2, reqs2, cm3)"
      "err = None \<longleftrightarrow> e1 = None \<and> e2 = None" "reqs = reqs1 @ reqs2" "cm' = cm3\<lparr>cm_lastUpdate := now\<rparr>"
proof -
  have p: "cm_pendingUpdates (expireStaleConditions now cm) = cm_pendingUpdates cm" by (simp add: expireStaleConditions_def Let_def)
  show thesis
  proof (cases "cm_pendingUpdates cm = [] \<and> cm_pendingRemovals (expireStaleConditions now cm) = []")
    case True
    with assms p have "err = None" "reqs = []" "cm' = expireStaleConditions now cm" by (simp_all add: flushPendingUpdates_def Let_def)
    with True show thesis by (intro that(1)) simp_all
  next
    case False
    obtain e1 reqs1 cm2 where f: "flush_removals v c (expireStaleConditions now cm) = (e1, reqs1, cm2)" by (metis prod_cases3)
    obtain e2 reqs2 cm3 where u: "flush_updates v cm2 = (e2, reqs2, cm3)" by (metis prod_cases3)
    from f u False assms p have "err = None \<longleftrightarrow> e1 = None \<and> e2 = None" "reqs = reqs1 @ reqs2" "cm' = cm3\<lparr>cm_lastUpdate := now\<rparr>"
      by (auto simp: flushPendingUpdates_def Let_def split: option.splits)
    with f u show thesis by (intro that(2)) simp_all
  qed
qed

lemma flush_ok:
  assumes "flushPendingUpdates v c now cm = (err, reqs, cm')" "cm_ok cm"
  shows "cm_ok cm' \<and> list_all keeps_foreign reqs"
  using assms(1)
proof (cases rule: flush_cases)
  case idle
  with assms(2) show ?thesis by simp
next
  case (work e1 reqs1 cm2 e2 reqs2 cm3)
  have "cm_ok cm2" using flush_removals_frame [OF work(1)] cm_ok_expire [OF assms(2), of now] by (simp add: cm_ok_def)
  with flush_updates_ok [OF work(2)] flush_removals_frame [OF work(1)] work(4,5) show ?thesis by (simp add: cm_ok_def)
qed

lemma cm_ok_resync: "cm_ok cm \<Longrightarrow> cm_ok (snd (performResync r now cm))"
  by (simp add: performResync_def cm_ok_def split: sum.split)

lemma cm_ok_heartbeat: "cm_ok cm \<Longrightarrow> cm_ok (sendHeartbeat rfc now cm)"
  using cm_ok_queue by (simp add: sendHeartbeat_def cm_ok_def)

lemma cm_ok_clear: "cm_ok cm \<Longrightarrow> cm_ok (snd (ClearManagedConditions cm))"
  by (simp add: ClearManagedConditions_def Let_def cm_ok_def)

section \<open>What a flush does\<close>

lemma map_of_fold_delete: "map_of (fold AList.delete ts m) t = (if t \<in> set ts then None else map_of m t)"
  by (induction ts arbitrary: m) auto

lemma set_fold_insert: "set (fold List.insert xs ys) = set ys \<union> set xs"
  by (induction xs arbitrary: ys) auto

lemma expire_exact:
  "map_of (cm_conditions (expireStaleConditions now cm)) t = (if stale now cm t then None else map_of (cm_conditions cm) t)"
  "set (cm_pendingRemovals (expireStaleConditions now cm)) =
     set (cm_pendingRemovals cm) \<union> {t. stale now cm t \<and> map_of (cm_conditions cm) t \<noteq> None}"
  "cm_pendingUpdates (expireStaleConditions now cm) = cm_pendingUpdates cm"
  by (auto simp: expireStaleConditions_def Let_def map_of_fold_delete set_fold_insert map_of_eq_None_iff)

lemma flush_updates_success:
  assumes "flush_updates v cm = (None, reqs, cm')" "cm_pendingUpdates cm \<noteq> []" "cm_ok cm"
  shows "map_of (cm_conditions cm') = map_of (cm_conditions cm) ++ map_of (cm_pendingUpdates cm)" "cm_pendingUpdates cm' = []"
    "cm_pendingRemovals cm' = cm_pendingRemovals cm"
    "conditions_to_update cm \<noteq> [] \<Longrightarrow> PatchStatus (map snd (conditions_to_update cm)) \<in> set reqs"
proof -
  obtain e0 reqs0 where p: "PatchNodeConditions v (map snd (conditions_to_update cm)) = (e0, reqs0)" by fastforce
  have "gomap_ok (cm_pendingUpdates cm)" using assms(3) by (simp add: cm_ok_def keyed_def)
  note m = map_of_fold_update_pairs [OF this, of "cm_conditions cm"]
  have f: "flush_updates v cm = (case e0 of Some e \<Rightarrow> (Some e, reqs0, cm)
      | None \<Rightarrow> (None, reqs0, cm\<lparr>cm_conditions := fold (\<lambda>(t, n). AList.update t n) (cm_pendingUpdates cm) (cm_conditions cm),
            cm_pendingUpdates := []\<rparr>))"
    unfolding flush_updates_def p if_not_P [OF assms(2)] prod.case ..
  with assms(1) have e: "e0 = None" "reqs = reqs0"
    "cm' = cm\<lparr>cm_conditions := fold (\<lambda>(t, n). AList.update t n) (cm_pendingUpdates cm) (cm_conditions cm), cm_pendingUpdates := []\<rparr>"
    by (cases e0; simp)+
  from e(3) m show "map_of (cm_conditions cm') = map_of (cm_conditions cm) ++ map_of (cm_pendingUpdates cm)"
    "cm_pendingUpdates cm' = []" "cm_pendingRemovals cm' = cm_pendingRemovals cm" by simp_all
  show "PatchStatus (map snd (conditions_to_update cm)) \<in> set reqs" if "conditions_to_update cm \<noteq> []"
    using p that e(1,2) by (auto simp: PatchNodeConditions_def OnError_def Let_def)
qed

text \<open>A successful flush sends what is queued for an owned type, and from then on the manager takes it for the state of the node.\<close>

lemma flush_publishes:
  assumes "flushPendingUpdates v c now cm = (None, reqs, cm')" "cm_ok cm" "map_of (cm_pendingUpdates cm) t = Some n" "owned t"
  shows "(\<exists>cs. PatchStatus cs \<in> set reqs \<and> n \<in> set cs \<and> (\<forall>n'\<in>set cs. nc_Type n' = t \<longrightarrow> n' = n))
    \<and> map_of (cm_conditions cm') t = Some n \<and> cm_pendingUpdates cm' = [] \<and> cm_pendingRemovals cm' = []"
  using assms(1)
proof (cases rule: flush_cases)
  case idle
  with assms(3) show ?thesis by simp
next
  case (work e1 reqs1 cm2 e2 reqs2 cm3)
  have e: "e1 = None" "e2 = None" using work(3) by simp_all
  note fr = flush_removals_frame [OF work(1)]
  have ok2: "cm_ok cm2" and q: "map_of (cm_pendingUpdates cm2) t = Some n"
    using fr cm_ok_expire [OF assms(2), of now] assms(3) by (simp_all add: cm_ok_def expire_exact del: map_of_eq_Some_iff)
  then have ne: "cm_pendingUpdates cm2 \<noteq> []" by auto
  note s = flush_updates_success [OF work(2) [unfolded e] ne ok2]
  let ?m = "conditions_to_update cm2"
  have n: "map_of ?m t = Some n" using map_of_conditions_to_update [OF ok2, of t] q assms(4) by simp
  have k: "keyed ?m" by (rule conditions_to_update_keyed [OF ok2])
  have "PatchStatus (map snd ?m) \<in> set reqs2" by (rule s(4)) (use n in auto)
  moreover have "n \<in> set (map snd ?m)" using map_of_SomeD [OF n] by force
  moreover have "\<forall>n'\<in>set (map snd ?m). nc_Type n' = t \<longrightarrow> n' = n"
  proof (intro ballI impI)
    fix n' assume a: "n' \<in> set (map snd ?m)" "nc_Type n' = t"
    then obtain t' where "(t', n') \<in> set ?m" by auto
    with k a(2) have "map_of ?m t = Some n'" by (auto simp: keyed_def)
    with n show "n' = n" by simp
  qed
  ultimately have "\<exists>cs. PatchStatus cs \<in> set reqs \<and> n \<in> set cs \<and> (\<forall>n'\<in>set cs. nc_Type n' = t \<longrightarrow> n' = n)"
    using work(4) by (intro exI [of _ "map snd ?m"]) simp
  moreover have "map_of (cm_conditions cm') t = Some n \<and> cm_pendingUpdates cm' = [] \<and> cm_pendingRemovals cm' = []"
    using work(5) s(1-3) q fr e by (simp del: map_of_eq_Some_iff)
  ultimately show ?thesis by blast
qed

lemma conditionsEqual_carry [simp]: "conditionsEqual x (carry_transition y n) = conditionsEqual x n"
  by (simp add: conditionsEqual_def)

lemma UpdateCondition_equal:
  assumes "map_of (cm_conditions cm) (nc_Type (convertConditionToNodeCondition now c)) = Some x"
    "conditionsEqual x (convertConditionToNodeCondition now c)"
  shows "UpdateCondition now c cm = cm\<lparr>cm_lastRefreshed := AList.update (nc_Type x) now (cm_lastRefreshed cm)\<rparr>"
  using assms by (simp add: UpdateCondition_def Let_def del: map_of_eq_Some_iff) (simp add: conditionsEqual_def)

lemma UpdateCondition_differs:
  assumes "map_of (cm_conditions cm) (nc_Type (convertConditionToNodeCondition now c)) = Some x"
    "\<not> conditionsEqual x (convertConditionToNodeCondition now c)"
  shows "UpdateCondition now c cm = queue_update now (carry_transition (Some x) (convertConditionToNodeCondition now c)) cm"
  using assms by (simp add: UpdateCondition_def Let_def del: map_of_eq_Some_iff)

section \<open>Properties\<close>

text \<open>
  A condition that changes and changes back between two writes is published with the value that is over. The manager
  compares a report with what it last wrote and forgets to look at the queue: when a monitor reports a new value and then again
  the one that is on the node, the second report is dropped as unchanged, the first one stays queued, and the
  next successful flush writes it to the node and takes it for the current value.\<close>

lemma condition_flip_back_publishes_old_value:
  assumes "cm_ok cm" "map_of (cm_conditions cm) t = Some x"
    "nodeDoctorConditionType (cond_Type c1) = t" "nodeDoctorConditionType (cond_Type c2) = t"
    "\<not> conditionsEqual x (convertConditionToNodeCondition now1 c1)" "conditionsEqual x (convertConditionToNodeCondition now2 c2)"
    "flushPendingUpdates v c now3 (UpdateCondition now2 c2 (UpdateCondition now1 c1 cm)) = (None, reqs, cm')"
  shows "\<exists>cs n. PatchStatus cs \<in> set reqs \<and> n \<in> set cs \<and> nc_Type n = t \<and> map_of (cm_conditions cm') t = Some n
    \<and> conditionsEqual n (convertConditionToNodeCondition now1 c1) \<and> \<not> conditionsEqual n (convertConditionToNodeCondition now2 c2)
    \<and> (\<forall>n'\<in>set cs. nc_Type n' = t \<longrightarrow> n' = n)"
proof -
  let ?n1 = "convertConditionToNodeCondition now1 c1" and ?n2 = "convertConditionToNodeCondition now2 c2"
  let ?n = "carry_transition (Some x) ?n1"
  have ty: "nc_Type ?n1 = t" "nc_Type ?n2 = t" "owned t"
    using assms(3,4) nodeDoctorConditionType_owned [of "cond_Type c1"] by (simp_all add: convertConditionToNodeCondition_def)
  have u1: "UpdateCondition now1 c1 cm = queue_update now1 ?n cm"
    by (rule UpdateCondition_differs) (use assms(2,5) ty in simp_all)
  let ?cm = "UpdateCondition now2 c2 (queue_update now1 ?n cm)"
  have "map_of (cm_conditions (queue_update now1 ?n cm)) (nc_Type ?n2) = Some x"
    using assms(2) ty by (simp add: queue_update_def del: map_of_eq_Some_iff)
  from UpdateCondition_equal [OF this assms(6)] have q: "map_of (cm_pendingUpdates ?cm) t = Some ?n"
    using ty by (simp add: queue_update_def del: map_of_eq_Some_iff)
  have flush: "flushPendingUpdates v c now3 ?cm = (None, reqs, cm')" using assms(7) unfolding u1 .
  have "cm_ok ?cm" using assms(1) by simp
  note f = flush_publishes [OF flush this q ty(3)]
  moreover have "conditionsEqual ?n ?n1 \<and> \<not> conditionsEqual ?n ?n2 \<and> nc_Type ?n = t"
    using assms(5,6) ty by (auto simp: conditionsEqual_def)
  ultimately show ?thesis by (auto simp del: map_of_eq_Some_iff)
qed

text \<open>
  What expires. A flush schedules exactly those conditions for removal that node-doctor owns, except its own heartbeat, and whose
  last report (for a condition that was never reported, the start of the manager) is more than the staleness time ago; every other
  condition stays known as it was. The staleness time is at least three times the interval of the resynchronisation
  unless that product overflows.\<close>

lemma conditions_expire_exactly_when_stale:
  fixes cm :: ConditionManager
  shows "set (cm_pendingRemovals (expireStaleConditions now cm)) = set (cm_pendingRemovals cm) \<union>
      {t. map_of (cm_conditions cm) t \<noteq> None \<and> has_prefix t ''NodeDoctor'' \<and> t \<noteq> ''NodeDoctorHealthy''
        \<and> cm_staleTTL cm < time_sub now (case map_of (cm_lastRefreshed cm) t of Some r \<Rightarrow> r | None \<Rightarrow> cm_startTime cm)}
    \<and> (\<forall>t. t \<notin> set (cm_pendingRemovals (expireStaleConditions now cm)) \<longrightarrow>
        map_of (cm_conditions (expireStaleConditions now cm)) t = map_of (cm_conditions cm) t)
    \<and> (ke_ResyncInterval cfg \<le> 3000000000000000000 \<longrightarrow>
        3 * cm_resyncInterval (NewConditionManager now cfg) \<le> cm_staleTTL (NewConditionManager now cfg))"
proof (intro conjI impI)
  show "set (cm_pendingRemovals (expireStaleConditions now cm)) = set (cm_pendingRemovals cm) \<union>
      {t. map_of (cm_conditions cm) t \<noteq> None \<and> has_prefix t ''NodeDoctor'' \<and> t \<noteq> ''NodeDoctorHealthy''
        \<and> cm_staleTTL cm < time_sub now (case map_of (cm_lastRefreshed cm) t of Some r \<Rightarrow> r | None \<Rightarrow> cm_startTime cm)}"
    unfolding expire_exact(2) by (auto simp: stale_def gomap_get_def nodeDoctorConditionPrefix_def)
  show "\<forall>t. t \<notin> set (cm_pendingRemovals (expireStaleConditions now cm)) \<longrightarrow>
      map_of (cm_conditions (expireStaleConditions now cm)) t = map_of (cm_conditions cm) t"
    unfolding expire_exact(1,2) by auto
next
  assume "ke_ResyncInterval cfg \<le> 3000000000000000000"
  then show "3 * cm_resyncInterval (NewConditionManager now cfg) \<le> cm_staleTTL (NewConditionManager now cfg)"
    by (auto simp: NewConditionManager_def Let_def)
qed

text \<open>
  A removal that failed once deletes a condition that has been reported since. When a condition was marked for removal, then
  reported again, and the next flush fails to remove it but writes it, the removal stays scheduled: the flush after that deletes the
  condition from the node, while the manager goes on to believe it is there and drops the same report as unchanged.\<close>

lemma failed_removal_deletes_reported_condition:
  assumes "cm_ok cm" "t = nodeDoctorConditionType (cond_Type c)"
    "flushPendingUpdates v cl now2 (UpdateCondition now1 c (RemoveCondition t cm)) = (err, reqs1, cm1)"
    "fst (RemoveNodeConditions v cl (cm_pendingRemovals (expireStaleConditions now2 (UpdateCondition now1 c (RemoveCondition t cm))))) \<noteq> None"
    "cm_pendingUpdates cm1 = []" "\<not> stale now3 cm1 t"
    "flushPendingUpdates v' cl now3 cm1 = (None, reqs2, cm2)"
  shows "(\<forall>fetched sent. UpdateStatus fetched sent \<in> set reqs2 \<longrightarrow> (\<forall>n\<in>set sent. nc_Type n \<noteq> t))
    \<and> (\<forall>cs. PatchStatus cs \<notin> set reqs2)
    \<and> (\<exists>n. map_of (cm_conditions cm2) t = Some n \<and> conditionsEqual n (convertConditionToNodeCondition now4 c))
    \<and> cm_pendingUpdates (UpdateCondition now4 c cm2) = []"
proof -
  let ?n = "convertConditionToNodeCondition now1 c" and ?r = "RemoveCondition t cm"
  have ty: "nc_Type (convertConditionToNodeCondition x c) = t" "owned t" for x
    using assms(2) by (simp_all add: convertConditionToNodeCondition_def)
  have u: "UpdateCondition now1 c ?r = queue_update now1 ?n ?r"
    using ty(1) by (simp add: UpdateCondition_def Let_def RemoveCondition_def mark_removed_def carry_transition_def)
  let ?cm = "queue_update now1 ?n ?r"
  have ok: "cm_ok ?cm" using assms(1) by (simp add: RemoveCondition_def)
  have q: "map_of (cm_pendingUpdates ?cm) t = Some ?n" "t \<in> set (cm_pendingRemovals ?cm)"
    using ty(1) [of now1] by (simp_all add: queue_update_def RemoveCondition_def mark_removed_def)
  have one: "map_of (cm_conditions cm1) t = Some ?n \<and> t \<in> set (cm_pendingRemovals cm1) \<and> cm_ok cm1"
    using assms(3)
  proof (cases rule: flush_cases)
    case idle
    with q(1) show ?thesis by (simp add: u)
  next
    case (work e1 r1 c2 e2 r2 c3)
    from work(1) assms(4) have c2: "c2 = expireStaleConditions now2 ?cm"
      by (auto simp: flush_removals_def RemoveNodeConditions_def u split: if_splits prod.splits option.splits)
    have ok2: "cm_ok c2" and q2: "map_of (cm_pendingUpdates c2) t = Some ?n" "t \<in> set (cm_pendingRemovals c2)"
      using q ok c2 by (simp_all add: expire_exact del: map_of_eq_Some_iff)
    then have ne: "cm_pendingUpdates c2 \<noteq> []" by auto
    have "e2 = None"
      using work(2,5) assms(5) ne by (auto simp: flush_updates_def split: if_splits prod.splits option.splits)
    from flush_updates_success(1,3) [OF work(2) [unfolded this] ne ok2] flush_updates_ok [OF work(2) ok2] q2 work(5) show ?thesis
      by (simp add: cm_ok_def del: map_of_eq_Some_iff)
  qed
  from assms(7) show ?thesis
  proof (cases rule: flush_cases)
    case idle
    have "t \<in> set (cm_pendingRemovals (expireStaleConditions now3 cm1))" using one by (simp add: expire_exact)
    with idle(2) show ?thesis by simp
  next
    case (work e1 r1 c2 e2 r2 c3)
    have e: "e1 = None" "e2 = None" using work(3) by simp_all
    have p: "cm_pendingUpdates (expireStaleConditions now3 cm1) = []" using assms(5) by (simp add: expire_exact)
    have c3: "c3 = c2" "r2 = []" using work(2) flush_removals_frame [OF work(1)] p by (simp_all add: flush_updates_def)
    have rem: "t \<in> set (cm_pendingRemovals (expireStaleConditions now3 cm1))" using one by (simp add: expire_exact)
    then have r1: "r1 = snd (RemoveNodeConditions v' cl (cm_pendingRemovals (expireStaleConditions now3 cm1)))"
      using work(1) by (auto simp: flush_removals_def split: if_splits prod.splits option.splits)
    have "map_of (cm_conditions cm2) t = Some ?n"
      using one assms(6) flush_removals_frame [OF work(1)] work(5) c3 by (simp add: expire_exact del: map_of_eq_Some_iff)
    moreover have "conditionsEqual ?n (convertConditionToNodeCondition now4 c)"
      by (simp add: conditionsEqual_def convertConditionToNodeCondition_def)
    moreover have "cm_pendingUpdates cm2 = []" using p flush_removals_frame [OF work(1)] work(5) c3 by simp
    ultimately have "cm_pendingUpdates (UpdateCondition now4 c cm2) = []"
      using UpdateCondition_equal [of cm2 now4 c ?n] ty(1) by simp
    moreover have "\<exists>fetched. r = UpdateStatus fetched (filter (\<lambda>n. nc_Type n \<notin> set (filter owned (cm_pendingRemovals (expireStaleConditions now3 cm1)))) fetched)"
      if "r \<in> set r1" for r
      using RemoveNodeConditions_requests [OF that [unfolded r1]] by blast
    with rem ty(2) have "\<forall>fetched sent. UpdateStatus fetched sent \<in> set r1 \<longrightarrow> (\<forall>n\<in>set sent. nc_Type n \<noteq> t)"
      "\<forall>cs. PatchStatus cs \<notin> set r1" by fastforce+
    ultimately show ?thesis
      using \<open>map_of (cm_conditions cm2) t = Some ?n\<close> \<open>conditionsEqual ?n _\<close> work(4) c3(2) by auto
  qed
qed

section \<open>Witnesses\<close>

text \<open>A manager that knows one condition, which is not set.\<close>

definition demo_known :: NodeCondition where
  "demo_known = \<lparr>nc_Type = ''NodeDoctorDown'', nc_Status = ''False'', nc_LastHeartbeatTime = 1, nc_LastTransitionTime = 1,
     nc_Reason = ''Ok'', nc_Message = ''m''\<rparr>"

definition demo_cm :: ConditionManager where
  "demo_cm = (NewConditionManager 1 (demo_k8s_valid (10 * second)))\<lparr>cm_conditions := [(''NodeDoctorDown'', demo_known)]\<rparr>"

definition demo_down :: "time \<Rightarrow> condition" where
  "demo_down t = NewCondition t ''Down'' ConditionTrue ''Bad'' ''b''"

definition demo_up :: "time \<Rightarrow> condition" where
  "demo_up t = NewCondition t ''Down'' ConditionFalse ''Ok'' ''m''"

lemma demo_converted:
  "convertConditionToNodeCondition t (demo_down t) = \<lparr>nc_Type = ''NodeDoctorDown'', nc_Status = ''True'', nc_LastHeartbeatTime = t,
     nc_LastTransitionTime = t, nc_Reason = ''Bad'', nc_Message = ''b''\<rparr>"
  "convertConditionToNodeCondition t (demo_up t) = \<lparr>nc_Type = ''NodeDoctorDown'', nc_Status = ''False'', nc_LastHeartbeatTime = t,
     nc_LastTransitionTime = t, nc_Reason = ''Ok'', nc_Message = ''m''\<rparr>"
  by (simp_all add: convertConditionToNodeCondition_def demo_down_def demo_up_def NewCondition_def nodeDoctorConditionType_def
      nodeDoctorConditionPrefix_def has_prefix_def sanitizeConditionType_def is_lower_def is_upper_or_digit_def
      sanitizeConditionReason_def sanitizeEventReason_def ConditionTrue_def ConditionFalse_def)

lemma demo_cm_ok: "cm_ok demo_cm"
  by (simp add: cm_ok_def demo_cm_def keyed_def demo_known_def NewConditionManager_def Let_def)

lemma demo_types: "nodeDoctorConditionType (cond_Type (demo_down t)) = ''NodeDoctorDown''"
  "nodeDoctorConditionType (cond_Type (demo_up t)) = ''NodeDoctorDown''"
  using demo_converted [of t] by (simp_all add: convertConditionToNodeCondition_def)

lemma demo_patch_ok: "PatchNodeConditions demo_k8s cs = (None, if cs = [] then [] else [PatchStatus cs])"
  by (simp add: PatchNodeConditions_def OnError_def demo_k8s_def)

lemmas demo_flush_defs = flushPendingUpdates_def expireStaleConditions_def stale_def flush_removals_def flush_updates_def
  UpdateCondition_def queue_update_def carry_transition_def conditionsEqual_def demo_converted demo_patch_ok
  demo_cm_def demo_known_def NewConditionManager_def demo_k8s_valid_def is_zero_time_def time_sub_def gomap_get_def

definition demo_no_update :: k8s_env where
  "demo_no_update = demo_k8s\<lparr>kv_node := \<lambda>_. Inl \<lparr>kr_reason = OtherReason, kr_text = ''gone''\<rparr>\<rparr>"

end
