(* ===== verification/K8s_Events.thy ===== *)
theory K8s_Events
  imports K8s_Client "HOL-Library.Multiset"
begin

text \<open>
  \<^verbatim>\<open>pkg/exporters/kubernetes/event_manager.go\<close>: events with deduplication and a limit per minute. \<open>ck\<close> is the clock,
  by the number of the reading within the call, \<open>sha\<close> the digest of the standard library. The contexts with which the
  cleanup loop was started are in \<open>em_loops\<close>; \<^verbatim>\<open>Stop\<close> waits until they have ended.
\<close>

section \<open>The manager\<close>

record EventManager =
  em_namespace :: string
  em_eventCache :: "(string, time) gomap"
  em_rateLimiter :: "(time, int) gomap"
  em_maxEventsPerMin :: int
  em_deduplicationTTL :: duration
  em_stopped :: bool
  em_loops :: "nat list"
  em_droppedByReason :: "(string, int) gomap"
  em_totalDropped :: int

definition NewEventManager :: "KubernetesExporterConfig \<Rightarrow> EventManager" where
  "NewEventManager c =
     \<lparr>em_namespace = ke_Namespace c, em_eventCache = [], em_rateLimiter = [],
      em_maxEventsPerMin = (if ec_MaxEventsPerMinute (ke_Events c) > 0 then ec_MaxEventsPerMinute (ke_Events c) else 10),
      em_deduplicationTTL = (if ec_DeduplicationWindow (ke_Events c) > 0 then ec_DeduplicationWindow (ke_Events c) else 10 * minute),
      em_stopped = False, em_loops = [], em_droppedByReason = [], em_totalDropped = 0\<rparr>"

definition Events_Start :: "nat \<Rightarrow> EventManager \<Rightarrow> EventManager" where
  "Events_Start ctx em = em\<lparr>em_stopped := False, em_loops := em_loops em @ [ctx]\<rparr>"

definition isDuplicate :: "(string \<Rightarrow> string) \<Rightarrow> time \<Rightarrow> EventSignature \<Rightarrow> EventManager \<Rightarrow> bool" where
  "isDuplicate sha now s em =
     (case map_of (em_eventCache em) (Signature_Hash sha s) of None \<Rightarrow> False
      | Some lastSeen \<Rightarrow> time_sub now lastSeen < em_deduplicationTTL em)"

definition recent_minutes :: "time \<Rightarrow> (time, int) gomap \<Rightarrow> (time, int) gomap" where
  "recent_minutes now m = gomap_filter (\<lambda>timestamp _. \<not> time_sub now timestamp > 2 * minute) m"

definition Events_checkRateLimit :: "time \<Rightarrow> EventManager \<Rightarrow> bool \<times> EventManager" where
  "Events_checkRateLimit now em =
     (let m = recent_minutes now (em_rateLimiter em); currentMinute = truncate_time now minute;
          currentCount = gomap_get 0 m currentMinute
      in if currentCount \<ge> em_maxEventsPerMin em then (False, em\<lparr>em_rateLimiter := m\<rparr>)
         else (True, em\<lparr>em_rateLimiter := AList.update currentMinute (currentCount + 1) m\<rparr>))"

definition recordEvent :: "(string \<Rightarrow> string) \<Rightarrow> time \<Rightarrow> EventSignature \<Rightarrow> EventManager \<Rightarrow> EventManager" where
  "recordEvent sha now s em = em\<lparr>em_eventCache := AList.update (Signature_Hash sha s)
     (if is_zero_time (es_Timestamp s) then now else es_Timestamp s) (em_eventCache em)\<rparr>"

definition trackDroppedEvent :: "string \<Rightarrow> EventManager \<Rightarrow> EventManager" where
  "trackDroppedEvent reason em = em\<lparr>em_droppedByReason := AList.update reason
     (gomap_get 0 (em_droppedByReason em) reason + 1) (em_droppedByReason em), em_totalDropped := em_totalDropped em + 1\<rparr>"

definition Events_CreateEvent ::
  "(string \<Rightarrow> string) \<Rightarrow> k8s_env \<Rightarrow> (nat \<Rightarrow> time) \<Rightarrow> K8sClient \<Rightarrow> k8s_event \<Rightarrow> EventManager \<Rightarrow>
   string option \<times> k8s_request list \<times> EventManager" where
  "Events_CreateEvent sha v ck c e em =
     (let namespace = (if em_namespace em = [] then ''default'' else em_namespace em); s = CreateEventSignature e in
      if isDuplicate sha (ck 0) s em then (None, [], em)
      else case Events_checkRateLimit (ck 1) em of (ok, em1) \<Rightarrow>
        if \<not> ok then (Some ''event rate limit exceeded'', [], trackDroppedEvent (kev_Reason e) em1)
        else case Client_CreateEvent v c e namespace of
          (Some err, reqs) \<Rightarrow> (Some (''failed to create event: '' @ err), reqs, em1)
        | (None, reqs) \<Rightarrow> (None, reqs, recordEvent sha (ck 2) s em1))"

text \<open>The loop of \<^verbatim>\<open>CreateEventsFromStatus\<close>; every event has its own clock and environment, and the last error is kept.\<close>

fun create_events ::
  "(string \<Rightarrow> string) \<Rightarrow> (nat \<Rightarrow> k8s_env) \<Rightarrow> (nat \<Rightarrow> nat \<Rightarrow> time) \<Rightarrow> K8sClient \<Rightarrow> nat \<Rightarrow> k8s_event list \<Rightarrow>
   string option \<Rightarrow> EventManager \<Rightarrow> string option \<times> k8s_request list \<times> EventManager" where
  "create_events sha v ck c i [] lastErr em = (lastErr, [], em)"
| "create_events sha v ck c i (e # es) lastErr em =
     (case Events_CreateEvent sha (v i) (ck i) c e em of (err, reqs, em1) \<Rightarrow>
        case create_events sha v ck c (Suc i) es (case err of None \<Rightarrow> lastErr | Some x \<Rightarrow> Some x) em1 of
          (err', reqs', em2) \<Rightarrow> (err', reqs @ reqs', em2))"

definition CreateEventsFromStatus ::
  "(string \<Rightarrow> string) \<Rightarrow> (nat \<Rightarrow> k8s_env) \<Rightarrow> (nat \<Rightarrow> nat \<Rightarrow> time) \<Rightarrow> K8sClient \<Rightarrow> status \<Rightarrow> EventManager \<Rightarrow>
   string option \<times> k8s_request list \<times> EventManager" where
  "CreateEventsFromStatus sha v ck c s em =
     create_events sha v ck c 0 (ConvertStatusToEvents s (kc_nodeName c)) None em"

definition CreateEventFromProblem ::
  "(string \<Rightarrow> string) \<Rightarrow> k8s_env \<Rightarrow> time \<Rightarrow> (nat \<Rightarrow> time) \<Rightarrow> K8sClient \<Rightarrow> problem \<Rightarrow> EventManager \<Rightarrow>
   string option \<times> k8s_request list \<times> EventManager" where
  "CreateEventFromProblem sha v now ck c p em =
     Events_CreateEvent sha v ck c (ConvertProblemToEvent now p (kc_nodeName c)) em"

section \<open>The summary of dropped events\<close>

text \<open>The nested loops that bring the largest count to the front: one run of the inner loop, and the outer loop.\<close>

fun swap_pass :: "string \<times> int \<Rightarrow> (string \<times> int) list \<Rightarrow> (string \<times> int) \<times> (string \<times> int) list" where
  "swap_pass x [] = (x, [])"
| "swap_pass x (y # ys) =
     (if snd y > snd x then (case swap_pass y ys of (m, r) \<Rightarrow> (m, x # r))
      else (case swap_pass x ys of (m, r) \<Rightarrow> (m, y # r)))"

lemma swap_pass_length: "length (snd (swap_pass x ys)) = length ys"
  by (induction x ys rule: swap_pass.induct) (auto split: prod.splits)

function by_count :: "(string \<times> int) list \<Rightarrow> (string \<times> int) list" where
  "by_count [] = []"
| "by_count (x # xs) = fst (swap_pass x xs) # by_count (snd (swap_pass x xs))"
  by pat_completeness auto
termination
  by (relation "measure length") (simp_all add: swap_pass_length)

definition dropped_summary :: "EventManager \<Rightarrow> (string \<times> int) list \<Rightarrow> string" where
  "dropped_summary em reasons =
     ''Dropped '' @ show_int (em_totalDropped em) @ '' events due to rate limiting ('' @ show_int (em_maxEventsPerMin em)
     @ ''/min limit). Breakdown: '' @ join '', '' (map (\<lambda>(r, n). r @ ''='' @ show_int n) (take 5 reasons))
     @ (if length reasons > 5 then '', and '' @ show_nat (length reasons - 5) @ '' more reason types'' else [])"

text \<open>\<open>iter\<close> is the order in which the map is walked.\<close>

definition logDroppedEventsSummaryLocked ::
  "((string, int) gomap \<Rightarrow> (string \<times> int) list) \<Rightarrow> EventManager \<Rightarrow> string option \<times> EventManager" where
  "logDroppedEventsSummaryLocked iter em =
     (if em_totalDropped em = 0 then (None, em)
      else (Some (dropped_summary em (by_count (iter (em_droppedByReason em)))),
            em\<lparr>em_droppedByReason := [], em_totalDropped := 0\<rparr>))"

definition cleanup ::
  "((string, int) gomap \<Rightarrow> (string \<times> int) list) \<Rightarrow> time \<Rightarrow> EventManager \<Rightarrow> string option \<times> EventManager" where
  "cleanup iter now em = logDroppedEventsSummaryLocked iter
     (em\<lparr>em_eventCache := gomap_filter (\<lambda>_ timestamp. \<not> time_sub now timestamp > em_deduplicationTTL em) (em_eventCache em),
         em_rateLimiter := recent_minutes now (em_rateLimiter em)\<rparr>)"

definition Events_Stop ::
  "((string, int) gomap \<Rightarrow> (string \<times> int) list) \<Rightarrow> EventManager \<Rightarrow> string option \<times> EventManager" where
  "Events_Stop iter em =
     (if em_stopped em then (None, em)
      else logDroppedEventsSummaryLocked iter (em\<lparr>em_stopped := True, em_loops := []\<rparr>))"

definition ResetRateLimit :: "EventManager \<Rightarrow> EventManager" where
  "ResetRateLimit em = em\<lparr>em_rateLimiter := []\<rparr>"

definition ClearCache :: "EventManager \<Rightarrow> EventManager" where
  "ClearCache em = em\<lparr>em_eventCache := []\<rparr>"

definition Events_IsHealthy :: "EventManager \<Rightarrow> bool" where
  "Events_IsHealthy em \<longleftrightarrow> length (em_eventCache em) \<le> 10000 \<and> length (em_rateLimiter em) \<le> 60"

section \<open>Runs\<close>

text \<open>What happens to a manager while it runs: calls that create an event, and ticks of the cleanup loop.\<close>

datatype event_op = Create k8s_env "nat \<Rightarrow> time" K8sClient k8s_event | CleanupTick time

fun event_ops ::
  "(string \<Rightarrow> string) \<Rightarrow> ((string, int) gomap \<Rightarrow> (string \<times> int) list) \<Rightarrow> event_op list \<Rightarrow> EventManager \<Rightarrow>
   (string option \<times> k8s_request list) list \<times> EventManager" where
  "event_ops sha iter [] em = ([], em)"
| "event_ops sha iter (Create v ck c e # ops) em =
     (case Events_CreateEvent sha v ck c e em of (err, reqs, em1) \<Rightarrow>
        case event_ops sha iter ops em1 of (outs, em2) \<Rightarrow> ((err, reqs) # outs, em2))"
| "event_ops sha iter (CleanupTick now # ops) em =
     (case event_ops sha iter ops (snd (cleanup iter now em)) of (outs, em2) \<Rightarrow> ((None, []) # outs, em2))"

fun op_time :: "event_op \<Rightarrow> time" where
  "op_time (Create v ck c e) = ck 1"
| "op_time (CleanupTick now) = now"

text \<open>The clock of the run does not go back, within a call or from one to the next.\<close>

fun clock_ok :: "event_op list \<Rightarrow> bool" where
  "clock_ok [] = True"
| "clock_ok (x # xs) = ((case x of Create v ck c e \<Rightarrow> ck 0 \<le> ck 1 | _ \<Rightarrow> True)
     \<and> list_all (\<lambda>y. op_time x \<le> (case y of Create v ck c e \<Rightarrow> ck 0 | CleanupTick now \<Rightarrow> now)) xs \<and> clock_ok xs)"

text \<open>The events that were sent and accepted, and how many calls sent something in a given minute.\<close>

fun created :: "event_op list \<Rightarrow> (string option \<times> k8s_request list) list \<Rightarrow> k8s_event list" where
  "created (Create v ck c e # ops) ((err, reqs) # outs) = (if err = None \<and> reqs \<noteq> [] then [e] else []) @ created ops outs"
| "created (CleanupTick now # ops) (out # outs) = created ops outs"
| "created _ _ = []"

definition sent_in :: "time \<Rightarrow> event_op list \<Rightarrow> (string option \<times> k8s_request list) list \<Rightarrow> nat" where
  "sent_in m ops outs = length (filter (\<lambda>(x, err, reqs). reqs \<noteq> [] \<and> truncate_time (op_time x) minute = m) (zip ops outs))"

section \<open>Lemmas\<close>

lemma truncate_time_mono: "0 < d \<Longrightarrow> t \<le> t' \<Longrightarrow> truncate_time t d \<le> truncate_time t' d"
proof -
  assume d: "0 < d" "t \<le> t'"
  have "truncate_time x d = d * (x div d)" for x
    using d(1) by (simp add: truncate_time_def minus_mod_eq_mult_div)
  then show ?thesis using d zdiv_mono1 [of t t' d] by (simp add: mult_left_mono)
qed

lemma swap_pass_perm: "swap_pass x ys = (m, r) \<Longrightarrow> mset (m # r) = mset (x # ys)"
  by (induction x ys arbitrary: m r rule: swap_pass.induct) (auto split: prod.splits if_splits)

lemma swap_pass_max: "swap_pass x ys = (m, r) \<Longrightarrow> snd x \<le> snd m \<and> (\<forall>y\<in>set r. snd y \<le> snd m)"
  by (induction x ys arbitrary: m r rule: swap_pass.induct) (fastforce split: prod.splits if_splits)+

lemma by_count_perm: "mset (by_count xs) = mset xs"
proof (induction xs rule: by_count.induct)
  case (2 x xs)
  then show ?case using swap_pass_perm [of x xs "fst (swap_pass x xs)" "snd (swap_pass x xs)"] by simp
qed simp

lemma by_count_descending: "sorted_wrt (\<lambda>x y. snd x \<ge> snd y) (by_count xs)"
proof (induction xs rule: by_count.induct)
  case (2 x xs)
  have "set (by_count (snd (swap_pass x xs))) = set (snd (swap_pass x xs))"
    by (rule mset_eq_setD) (rule by_count_perm)
  then show ?case using 2 swap_pass_max [of x xs "fst (swap_pass x xs)" "snd (swap_pass x xs)"] by simp
qed simp

lemma recent_minutes_get:
  assumes "gomap_ok m" "truncate_time now minute \<le> t"
  shows "gomap_get 0 (recent_minutes now m) t = gomap_get 0 m t"
  using assms(2) truncate_time_gt [of minute now]
  by (simp add: recent_minutes_def gomap_get_def map_of_gomap_filter [OF assms(1)] time_sub_gt_iff split: option.split)

lemma recent_minutes_ok [simp]: "gomap_ok m \<Longrightarrow> gomap_ok (recent_minutes now m)"
  by (simp add: recent_minutes_def)

lemma Client_CreateEvent_sends: "Client_CreateEvent v c e ns = (err, reqs) \<Longrightarrow> reqs \<noteq> []"
  by (auto simp: Client_CreateEvent_def OnError_def Let_def)

lemma Events_CreateEvent_cases [consumes 1, case_names duplicate limited failed_call recorded]:
  assumes "Events_CreateEvent sha v ck c e em = (err, reqs, em')"
  obtains "isDuplicate sha (ck 0) (CreateEventSignature e) em" "err = None" "reqs = []" "em' = em"
  | em1 where "\<not> isDuplicate sha (ck 0) (CreateEventSignature e) em" "Events_checkRateLimit (ck 1) em = (False, em1)"
      "err \<noteq> None" "reqs = []" "em' = trackDroppedEvent (kev_Reason e) em1"
  | em1 where "\<not> isDuplicate sha (ck 0) (CreateEventSignature e) em" "Events_checkRateLimit (ck 1) em = (True, em1)"
      "err \<noteq> None" "reqs \<noteq> []" "em' = em1"
  | em1 where "\<not> isDuplicate sha (ck 0) (CreateEventSignature e) em" "Events_checkRateLimit (ck 1) em = (True, em1)"
      "err = None" "reqs \<noteq> []" "em' = recordEvent sha (ck 2) (CreateEventSignature e) em1"
  using assms Client_CreateEvent_sends
  by (fastforce simp: Events_CreateEvent_def Let_def split: if_splits prod.splits option.splits)

lemma checkRateLimit_frame:
  "Events_checkRateLimit now em = (ok, em') \<Longrightarrow> em_eventCache em' = em_eventCache em
     \<and> em_deduplicationTTL em' = em_deduplicationTTL em \<and> em_maxEventsPerMin em' = em_maxEventsPerMin em"
  by (auto simp: Events_checkRateLimit_def Let_def split: if_splits)

lemma event_manager_frames [simp]:
  "em_eventCache (trackDroppedEvent r em) = em_eventCache em"
  "em_deduplicationTTL (trackDroppedEvent r em) = em_deduplicationTTL em"
  "em_maxEventsPerMin (trackDroppedEvent r em) = em_maxEventsPerMin em"
  "em_rateLimiter (trackDroppedEvent r em) = em_rateLimiter em"
  "em_deduplicationTTL (recordEvent sha t s em) = em_deduplicationTTL em"
  "em_maxEventsPerMin (recordEvent sha t s em) = em_maxEventsPerMin em"
  "em_rateLimiter (recordEvent sha t s em) = em_rateLimiter em"
  "em_deduplicationTTL (snd (cleanup iter t em)) = em_deduplicationTTL em"
  "em_maxEventsPerMin (snd (cleanup iter t em)) = em_maxEventsPerMin em"
  "em_rateLimiter (snd (cleanup iter t em)) = recent_minutes t (em_rateLimiter em)"
  "em_eventCache (snd (cleanup iter t em)) =
     gomap_filter (\<lambda>_ timestamp. \<not> time_sub t timestamp > em_deduplicationTTL em) (em_eventCache em)"
  by (simp_all add: trackDroppedEvent_def recordEvent_def cleanup_def logDroppedEventsSummaryLocked_def)

lemma event_ops_length: "event_ops sha iter ops em = (outs, em') \<Longrightarrow> length outs = length ops"
  by (induction sha iter ops em arbitrary: outs rule: event_ops.induct) (auto split: prod.splits)

lemma event_ops_frame:
  assumes "event_ops sha iter ops em = (outs, em')"
  shows "em_deduplicationTTL em' = em_deduplicationTTL em \<and> em_maxEventsPerMin em' = em_maxEventsPerMin em"
  using assms
proof (induction ops arbitrary: em outs)
  case (Cons x ops)
  show ?case
  proof (cases x)
    case (Create v ck c e)
    with Cons.prems obtain err reqs em1 outs' where
      one: "Events_CreateEvent sha v ck c e em = (err, reqs, em1)" "event_ops sha iter ops em1 = (outs', em')"
      by (auto split: prod.splits)
    from one(1) have "em_deduplicationTTL em1 = em_deduplicationTTL em \<and> em_maxEventsPerMin em1 = em_maxEventsPerMin em"
      by (cases rule: Events_CreateEvent_cases) (simp_all add: checkRateLimit_frame)
    with Cons.IH [OF one(2)] show ?thesis by simp
  next
    case (CleanupTick t)
    with Cons.prems Cons.IH show ?thesis by (fastforce split: prod.splits)
  qed
qed simp

lemma limit_counts:
  assumes "Events_checkRateLimit now em = (ok, em')" "gomap_ok (em_rateLimiter em)" "truncate_time now minute \<le> m"
  shows "gomap_ok (em_rateLimiter em')"
    "gomap_get 0 (em_rateLimiter em') m = gomap_get 0 (em_rateLimiter em) m + (if ok \<and> truncate_time now minute = m then 1 else 0)"
    "ok \<longrightarrow> gomap_get 0 (em_rateLimiter em) (truncate_time now minute) < em_maxEventsPerMin em"
  using assms(1,2) recent_minutes_get [OF assms(2,3)] recent_minutes_get [OF assms(2) order_refl, of now]
  by (auto simp: Events_checkRateLimit_def Let_def split: if_splits)

lemma sent_in_Cons [simp]:
  "sent_in m (x # ops) ((err, reqs) # outs) =
     (if reqs \<noteq> [] \<and> truncate_time (op_time x) minute = m then 1 else 0) + sent_in m ops outs"
  by (simp add: sent_in_def)

lemma sent_in_past: "list_all (\<lambda>x. t \<le> op_time x) ops \<Longrightarrow> m < truncate_time t minute \<Longrightarrow> sent_in m ops outs = 0"
  using truncate_time_mono [of minute t] by (fastforce simp: sent_in_def list_all_iff filter_empty_conv dest: set_zip_leftD)

lemma clock_ok_later: "clock_ok (x # ops) \<Longrightarrow> list_all (\<lambda>y. op_time x \<le> op_time y) ops"
proof -
  assume a: "clock_ok (x # ops)"
  have within: "(case y of Create v ck c e \<Rightarrow> ck 0 | CleanupTick now \<Rightarrow> now) \<le> op_time y" if "y \<in> set ops" for y
  proof -
    from a have "clock_ok ops" by simp
    with that have "case y of Create v ck c e \<Rightarrow> ck 0 \<le> ck 1 | _ \<Rightarrow> True" by (induction ops) auto
    then show ?thesis by (cases y) auto
  qed
  from a show ?thesis using within by (fastforce simp: list_all_iff)
qed

lemma sent_bounded:
  assumes "event_ops sha iter ops em = (outs, em')" "clock_ok ops" "list_all (\<lambda>x. t \<le> op_time x) ops"
    "gomap_ok (em_rateLimiter em)" "truncate_time t minute \<le> m"
  shows "int (sent_in m ops outs) \<le> max 0 (em_maxEventsPerMin em - gomap_get 0 (em_rateLimiter em) m)"
  using assms
proof (induction ops arbitrary: em outs t)
  case Nil
  then show ?case by (simp add: sent_in_def)
next
  case (Cons x ops)
  let ?t = "op_time x"
  note later = clock_ok_later [OF Cons.prems(2)]
  have ok: "clock_ok ops" and t: "t \<le> ?t" using Cons.prems(2,3) by simp_all
  obtain out outs' em1 where rest: "event_ops sha iter ops em1 = (outs', em')" "outs = out # outs'"
    and step: "gomap_ok (em_rateLimiter em1)" "em_maxEventsPerMin em1 = em_maxEventsPerMin em"
      "truncate_time ?t minute \<le> m \<Longrightarrow> gomap_get 0 (em_rateLimiter em) m + (if snd out \<noteq> [] \<and> truncate_time ?t minute = m then 1 else 0)
         \<le> gomap_get 0 (em_rateLimiter em1) m"
      "snd out \<noteq> [] \<Longrightarrow> gomap_get 0 (em_rateLimiter em) (truncate_time ?t minute) < em_maxEventsPerMin em"
  proof (cases x)
    case (Create v ck c e)
    with Cons.prems(1) obtain err reqs em1 outs' where
      one: "Events_CreateEvent sha v ck c e em = (err, reqs, em1)" "event_ops sha iter ops em1 = (outs', em')"
      "outs = (err, reqs) # outs'"
      by (auto split: prod.splits)
    have "gomap_ok (em_rateLimiter em1) \<and> em_maxEventsPerMin em1 = em_maxEventsPerMin em
      \<and> (truncate_time (ck 1) minute \<le> m \<longrightarrow> gomap_get 0 (em_rateLimiter em) m + (if reqs \<noteq> [] \<and> truncate_time (ck 1) minute = m then 1 else 0)
         \<le> gomap_get 0 (em_rateLimiter em1) m)
      \<and> (reqs \<noteq> [] \<longrightarrow> gomap_get 0 (em_rateLimiter em) (truncate_time (ck 1) minute) < em_maxEventsPerMin em)"
      using one(1) Cons.prems(4) limit_counts [where now = "ck 1" and em = em, OF _ Cons.prems(4)]
      by (cases rule: Events_CreateEvent_cases) (use checkRateLimit_frame in \<open>fastforce+\<close>)
    with that [of em1 outs' "(err, reqs)"] one Create show ?thesis by simp
  next
    case (CleanupTick now)
    with Cons.prems(1) obtain outs' where "event_ops sha iter ops (snd (cleanup iter now em)) = (outs', em')" "outs = (None, []) # outs'"
      by (auto split: prod.splits)
    with that [of "snd (cleanup iter now em)" outs' "(None, [])"] CleanupTick Cons.prems(4) show ?thesis
      by (simp add: recent_minutes_get)
  qed
  show ?case
  proof (cases "m < truncate_time ?t minute")
    case True
    then show ?thesis using rest(2) sent_in_past [OF later True, of outs'] by (cases out) simp
  next
    case False
    with Cons.IH [OF rest(1) ok later step(1)] step(2-4) rest(2) show ?thesis by (cases out) (auto split: if_splits)
  qed
qed

section \<open>Signatures\<close>

lemma show_nat_no_colon: "CHR '':'' \<notin> set (show_nat n)"
proof (induction n rule: show_nat.induct)
  case (1 n)
  have d: "char_of (48 + m) \<noteq> CHR '':''" if "m < 10" for m :: nat
  proof
    assume "char_of (48 + m) = CHR '':''"
    from arg_cong [OF this, of "of_char :: char \<Rightarrow> nat"] that show False by (simp add: of_char_digit del: of_char_of)
  qed
  from 1 show ?case using d [of n] d [of "n mod 10"] by (subst show_nat.simps) auto
qed

lemma show_int_no_colon: "CHR '':'' \<notin> set (show_int i)"
  using show_nat_no_colon by (simp add: show_int_def)

lemma show_int_inject: "show_int i = show_int j \<Longrightarrow> i = j"
proof -
  assume a: "show_int i = show_int j"
  have no: "CHR ''-'' # xs \<noteq> show_nat n" for xs n using show_nat_no_minus [of n] by (metis list.set_intros(1))
  show ?thesis
    using a no show_nat_inject [of "nat (- i)" "nat (- j)"] show_nat_inject [of "nat i" "nat j"]
    by (auto simp: show_int_def split: if_splits) (metis no)+
qed

lemma unix_sec_minute: "unix_sec (truncate_time t minute) = unix_sec (truncate_time u minute) \<longleftrightarrow> truncate_time t minute = truncate_time u minute"
proof -
  have "unix_sec (truncate_time x minute) = 60 * (x div minute) - 62135596800" for x
  proof -
    have "truncate_time x minute = second * (60 * (x div minute))"
      by (simp add: truncate_time_def minus_mod_eq_mult_div)
    then show ?thesis by (simp add: unix_sec_def flip: right_diff_distrib)
  qed
  then show ?thesis by (auto simp: truncate_time_def minus_mod_eq_mult_div)
qed

text \<open>The events that the exporter sends: reason without colons, one of two types, one component, and a time after the first minute.\<close>

definition exporter_event :: "k8s_event \<Rightarrow> bool" where
  "exporter_event e \<longleftrightarrow> CHR '':'' \<notin> set (kev_Reason e) \<and> kev_Type e \<in> {EventTypeNormal, EventTypeWarning}
     \<and> kev_Component e = ''node-doctor'' \<and> minute \<le> kev_FirstTimestamp e"

lemma sanitizeEventReason_no_colon: "CHR '':'' \<notin> set (sanitizeEventReason r)"
  by (auto simp: sanitizeEventReason_def Let_def is_lower_def is_upper_or_digit_def)

lemma converted_event_ok: "minute \<le> ev_Timestamp e \<Longrightarrow> exporter_event (convertEventToK8sEvent s e n)"
  by (simp add: exporter_event_def convertEventToK8sEvent_def sanitizeEventReason_no_colon)

lemma problem_event_ok: "minute \<le> now \<Longrightarrow> exporter_event (ConvertProblemToEvent now p n)"
  by (simp add: exporter_event_def ConvertProblemToEvent_def sanitizeEventReason_no_colon)

definition same_signature :: "k8s_event \<Rightarrow> k8s_event \<Rightarrow> bool" where
  "same_signature e e' \<longleftrightarrow> kev_Reason e = kev_Reason e' \<and> kev_Message e = kev_Message e' \<and> kev_Type e = kev_Type e'
     \<and> truncate_time (kev_FirstTimestamp e) minute = truncate_time (kev_FirstTimestamp e') minute"

lemma Signature_String_eq:
  assumes "exporter_event e" "exporter_event e'"
  shows "Signature_String (CreateEventSignature e) = Signature_String (CreateEventSignature e') \<longleftrightarrow> same_signature e e'"
proof -
  let ?n = "\<lambda>e. show_int (unix_sec (truncate_time (kev_FirstTimestamp e) minute))"
  have eq: "Signature_String (CreateEventSignature x) =
      kev_Reason x @ CHR '':'' # ((kev_Message x @ CHR '':'' # kev_Type x) @ CHR '':'' # ''node-doctor'') @ CHR '':'' # ?n x"
    if "exporter_event x" for x
    using that by (simp add: Signature_String_def CreateEventSignature_def exporter_event_def)
  have ty: "CHR '':'' \<notin> set (kev_Type x)" if "exporter_event x" for x
    using that by (auto simp: exporter_event_def EventTypeNormal_def EventTypeWarning_def)
  have "Signature_String (CreateEventSignature e) = Signature_String (CreateEventSignature e') \<longleftrightarrow>
      kev_Reason e = kev_Reason e' \<and> kev_Message e = kev_Message e' \<and> kev_Type e = kev_Type e' \<and> ?n e = ?n e'"
    unfolding eq [OF assms(1)] eq [OF assms(2)]
    using assms ty [OF assms(1)] ty [OF assms(2)] show_int_no_colon
    by (auto simp: append_sep_inject append_sep_inject_last exporter_event_def simp del: append_assoc)
  also have "?n e = ?n e' \<longleftrightarrow> truncate_time (kev_FirstTimestamp e) minute = truncate_time (kev_FirstTimestamp e') minute"
    using show_int_inject unix_sec_minute by metis
  finally show ?thesis by (simp add: same_signature_def)
qed

section \<open>The cache\<close>

abbreviation event_minute :: "k8s_event \<Rightarrow> time" where
  "event_minute e \<equiv> truncate_time (kev_FirstTimestamp e) minute"

abbreviation event_hash :: "(string \<Rightarrow> string) \<Rightarrow> k8s_event \<Rightarrow> string" where
  "event_hash sha e \<equiv> Signature_Hash sha (CreateEventSignature e)"

text \<open>The digests of these events are as different as their signatures.\<close>

definition no_collision :: "(string \<Rightarrow> string) \<Rightarrow> k8s_event set \<Rightarrow> bool" where
  "no_collision sha E \<longleftrightarrow> (\<forall>e\<in>E. exporter_event e) \<and> (\<forall>e\<in>E. \<forall>e'\<in>E. event_hash sha e = event_hash sha e' \<longrightarrow>
     Signature_String (CreateEventSignature e) = Signature_String (CreateEventSignature e'))"

lemma no_collision_same:
  assumes "no_collision sha E" "e \<in> E" "e' \<in> E"
  shows "event_hash sha e = event_hash sha e' \<longleftrightarrow> same_signature e e'"
  using assms Signature_String_eq [of e e'] by (auto simp: no_collision_def Signature_Hash_def)

text \<open>What the cache knows at a time: the events of \<open>R\<close>, unless they are older than the window.\<close>

definition cache_ok :: "(string \<Rightarrow> string) \<Rightarrow> k8s_event set \<Rightarrow> time \<Rightarrow> EventManager \<Rightarrow> bool" where
  "cache_ok sha R now em \<longleftrightarrow> gomap_ok (em_eventCache em)
     \<and> (\<forall>h t. map_of (em_eventCache em) h = Some t \<longrightarrow> (\<exists>e\<in>R. h = event_hash sha e \<and> t = event_minute e))
     \<and> (\<forall>e\<in>R. time_sub now (event_minute e) \<le> em_deduplicationTTL em \<longrightarrow>
          map_of (em_eventCache em) (event_hash sha e) = Some (event_minute e))"

lemma cache_ok_later: "cache_ok sha R now em \<Longrightarrow> now \<le> now' \<Longrightarrow> cache_ok sha R now' em"
  unfolding cache_ok_def by (meson order_trans time_sub_mono)

lemma cache_ok_cong:
  "em_eventCache em' = em_eventCache em \<Longrightarrow> em_deduplicationTTL em' = em_deduplicationTTL em \<Longrightarrow>
   cache_ok sha R now em' = cache_ok sha R now em"
  by (simp add: cache_ok_def)

lemma recordEvent_cache:
  "minute \<le> kev_FirstTimestamp e \<Longrightarrow>
   em_eventCache (recordEvent sha now (CreateEventSignature e) em) = AList.update (event_hash sha e) (event_minute e) (em_eventCache em)"
  using truncate_time_gt [of minute "kev_FirstTimestamp e"]
  by (simp add: recordEvent_def CreateEventSignature_def is_zero_time_def)

lemma cache_ok_record:
  assumes "cache_ok sha R now em" "no_collision sha E" "insert e R \<subseteq> E"
  shows "cache_ok sha (insert e R) now (recordEvent sha t (CreateEventSignature e) em)"
proof -
  have m: "event_hash sha e' = event_hash sha e \<longrightarrow> event_minute e' = event_minute e" if "e' \<in> R" for e'
    using no_collision_same [OF assms(2), of e' e] assms(3) that by (auto simp: same_signature_def)
  have "minute \<le> kev_FirstTimestamp e" using assms(2,3) by (simp add: no_collision_def exporter_event_def)
  then show ?thesis
    using assms(1) m unfolding cache_ok_def recordEvent_cache [OF \<open>minute \<le> kev_FirstTimestamp e\<close>]
    by auto
qed

lemma cache_ok_cleanup:
  assumes "cache_ok sha R now em" "now \<le> t"
  shows "cache_ok sha R t (snd (cleanup iter t em))"
proof -
  from cache_ok_later [OF assms] have c: "gomap_ok (em_eventCache em)"
    "\<And>h t. map_of (em_eventCache em) h = Some t \<Longrightarrow> \<exists>e\<in>R. h = event_hash sha e \<and> t = event_minute e"
    "\<And>e. e \<in> R \<Longrightarrow> time_sub t (event_minute e) \<le> em_deduplicationTTL em \<Longrightarrow>
       map_of (em_eventCache em) (event_hash sha e) = Some (event_minute e)"
    unfolding cache_ok_def by blast+
  show ?thesis
    unfolding cache_ok_def event_manager_frames map_of_gomap_filter [OF c(1)]
    using c by (auto simp: not_less simp del: map_of_eq_Some_iff split: option.splits if_splits)
qed

lemma isDuplicate_exact:
  assumes "cache_ok sha R now em" "no_collision sha E" "insert e R \<subseteq> E"
  shows "isDuplicate sha now (CreateEventSignature e) em \<longleftrightarrow>
    (\<exists>e'\<in>R. same_signature e' e) \<and> time_sub now (event_minute e) < em_deduplicationTTL em"
proof
  assume "isDuplicate sha now (CreateEventSignature e) em"
  then obtain t where t: "map_of (em_eventCache em) (event_hash sha e) = Some t" "time_sub now t < em_deduplicationTTL em"
    by (auto simp: isDuplicate_def split: option.splits)
  with assms(1) obtain e' where e': "e' \<in> R" "event_hash sha e = event_hash sha e'" "t = event_minute e'"
    unfolding cache_ok_def by blast
  then have "same_signature e' e" using no_collision_same [OF assms(2), of e' e] assms(3) by auto
  with e' t show "(\<exists>e'\<in>R. same_signature e' e) \<and> time_sub now (event_minute e) < em_deduplicationTTL em"
    by (auto simp: same_signature_def)
next
  assume a: "(\<exists>e'\<in>R. same_signature e' e) \<and> time_sub now (event_minute e) < em_deduplicationTTL em"
  then obtain e' where e': "e' \<in> R" "same_signature e' e" by blast
  then have "event_hash sha e' = event_hash sha e" "event_minute e' = event_minute e"
    using no_collision_same [OF assms(2), of e' e] assms(3) by (auto simp: same_signature_def)
  moreover have "map_of (em_eventCache em) (event_hash sha e') = Some (event_minute e')"
    using assms(1) e'(1) a calculation(2) unfolding cache_ok_def by auto
  ultimately show "isDuplicate sha now (CreateEventSignature e) em"
    using a by (simp add: isDuplicate_def)
qed

fun op_events :: "event_op list \<Rightarrow> k8s_event set" where
  "op_events [] = {}"
| "op_events (Create v ck c e # ops) = insert e (op_events ops)"
| "op_events (CleanupTick t # ops) = op_events ops"

lemma created_subset: "set (created ops outs) \<subseteq> op_events ops"
  by (induction ops outs rule: created.induct) auto

lemma event_ops_cache:
  assumes "event_ops sha iter ops em = (outs, em')" "clock_ok ops" "cache_ok sha R t em"
    "list_all (\<lambda>x. t \<le> (case x of Create v ck c e \<Rightarrow> ck 0 | CleanupTick now \<Rightarrow> now)) ops"
    "no_collision sha E" "R \<union> op_events ops \<subseteq> E" "\<forall>x\<in>set ops. op_time x \<le> now" "t \<le> now"
  shows "cache_ok sha (R \<union> set (created ops outs)) now em'"
  using assms
proof (induction ops arbitrary: em outs t R)
  case Nil
  then show ?case using cache_ok_later by simp
next
  case (Cons x ops)
  let ?t = "op_time x"
  have ok: "clock_ok ops" "list_all (\<lambda>y. ?t \<le> (case y of Create v ck c e \<Rightarrow> ck 0 | CleanupTick now \<Rightarrow> now)) ops"
    "?t \<le> now" "\<forall>y\<in>set ops. op_time y \<le> now"
    using Cons.prems(2,7) by auto
  show ?case
  proof (cases x)
    case (Create v ck c e)
    with Cons.prems(1) obtain err reqs em1 outs' where
      one: "Events_CreateEvent sha v ck c e em = (err, reqs, em1)" "event_ops sha iter ops em1 = (outs', em')"
      "outs = (err, reqs) # outs'"
      by (auto split: prod.splits)
    let ?R = "R \<union> (if err = None \<and> reqs \<noteq> [] then {e} else {})"
    have now: "cache_ok sha R ?t em" using cache_ok_later [OF Cons.prems(3)] Cons.prems(2,4) Create by auto
    have E: "insert e R \<subseteq> E" "?R \<union> op_events ops \<subseteq> E" using Cons.prems(6) Create by auto
    from one(1) have "cache_ok sha ?R ?t em1"
    proof (cases rule: Events_CreateEvent_cases)
      case (recorded em1)
      then have "cache_ok sha R ?t em1" using now checkRateLimit_frame [OF recorded(2)] by (simp add: cache_ok_def del: map_of_eq_Some_iff)
      with recorded show ?thesis using cache_ok_record [OF _ Cons.prems(5) E(1)] by simp
    next
      case (limited em1)
      with now checkRateLimit_frame [OF limited(2)] show ?thesis by (simp add: cache_ok_def del: map_of_eq_Some_iff)
    next
      case (failed_call em1)
      with now checkRateLimit_frame [OF failed_call(2)] show ?thesis by (auto simp: cache_ok_def simp del: map_of_eq_Some_iff)
    next
      case duplicate
      with now show ?thesis by simp
    qed
    from Cons.IH [OF one(2) ok(1) this ok(2) Cons.prems(5) E(2) ok(4) ok(3)] show ?thesis
      using one(3) Create by (cases "err = None \<and> reqs \<noteq> []") auto
  next
    case (CleanupTick t')
    with Cons.prems(1) obtain outs' where rest: "event_ops sha iter ops (snd (cleanup iter t' em)) = (outs', em')" "outs = (None, []) # outs'"
      by (auto split: prod.splits)
    have "cache_ok sha R ?t (snd (cleanup iter t' em))"
      using cache_ok_cleanup [OF Cons.prems(3)] Cons.prems(4) CleanupTick by simp
    from Cons.IH [OF rest(1) ok(1) this ok(2) Cons.prems(5) _ ok(4) ok(3)] Cons.prems(6) CleanupTick rest(2)
    show ?thesis by simp
  qed
qed

section \<open>Properties\<close>

text \<open>
  C23. No minute sees more events than configured. Over any run of a new event manager, with cleanups in between and a clock that does
  not go back, the number of calls that reach the API server within one minute of the clock is at most the configured
  maximum (ten without one), whether the calls succeed or fail.\<close>

theorem event_rate_is_bounded:
  assumes "event_ops sha iter ops (NewEventManager cfg) = (outs, em')" "clock_ok ops"
  shows "int (sent_in m ops outs) \<le>
    (if ec_MaxEventsPerMinute (ke_Events cfg) > 0 then ec_MaxEventsPerMinute (ke_Events cfg) else 10)"
proof (cases ops)
  case Nil
  then show ?thesis by (simp add: sent_in_def)
next
  case (Cons x rest)
  let ?t = "op_time x"
  have later: "list_all (\<lambda>y. ?t \<le> op_time y) ops" using clock_ok_later assms(2) Cons by simp
  show ?thesis
  proof (cases "m < truncate_time ?t minute")
    case True
    then show ?thesis using sent_in_past [OF later True, of outs] by simp
  next
    case False
    with sent_bounded [OF assms(1,2) later, of m] show ?thesis by (simp add: NewEventManager_def)
  qed
qed

text \<open>
  What is suppressed as a duplicate. After any run of a new event manager with a clock that does not go back, an
  event is suppressed exactly when an event with the same reason, message and type \<^emph>\<open>of the same minute\<close> was
  sent and accepted, and that minute began less than the deduplication window ago. A repetition in a later minute is
  therefore never suppressed, however long the window is: the minute is part of the signature.\<close>

lemma event_suppressed_exactly_within_its_minute:
  assumes "event_ops sha iter ops (NewEventManager cfg) = (outs, em)" "clock_ok (ops @ [Create v ck c e])"
    "no_collision sha (insert e (op_events ops))"
  shows "(\<exists>em'. Events_CreateEvent sha v ck c e em = (None, [], em')) \<longleftrightarrow>
    (\<exists>e'\<in>set (created ops outs). same_signature e' e)
    \<and> time_sub (ck 0) (event_minute e) < em_deduplicationTTL (NewEventManager cfg)"
proof -
  have clock: "clock_ok ops" "\<forall>x\<in>set ops. op_time x \<le> ck 0"
    using assms(2) by (induction ops) auto
  let ?t = "Min (insert (ck 0) ((\<lambda>x. case x of Create v ck c e \<Rightarrow> ck 0 | CleanupTick now \<Rightarrow> now) ` set ops))"
  have "cache_ok sha {} ?t (NewEventManager cfg)" by (simp add: cache_ok_def NewEventManager_def)
  with event_ops_cache [OF assms(1) clock(1) this _ assms(3) _ clock(2)]
  have "cache_ok sha (set (created ops outs)) (ck 0) em" by (auto simp: list_all_iff)
  from isDuplicate_exact [OF this assms(3)] created_subset [of ops outs] event_ops_frame [OF assms(1)]
  have "isDuplicate sha (ck 0) (CreateEventSignature e) em \<longleftrightarrow> (\<exists>e'\<in>set (created ops outs). same_signature e' e)
      \<and> time_sub (ck 0) (event_minute e) < em_deduplicationTTL (NewEventManager cfg)" by auto
  moreover have "(\<exists>em'. Events_CreateEvent sha v ck c e em = (None, [], em')) \<longleftrightarrow> isDuplicate sha (ck 0) (CreateEventSignature e) em"
  proof
    assume "\<exists>em'. Events_CreateEvent sha v ck c e em = (None, [], em')"
    then obtain em' where "Events_CreateEvent sha v ck c e em = (None, [], em')" ..
    then show "isDuplicate sha (ck 0) (CreateEventSignature e) em" by (cases rule: Events_CreateEvent_cases) auto
  qed (simp add: Events_CreateEvent_def)
  ultimately show ?thesis by simp
qed

section \<open>Witnesses\<close>

text \<open>The same report, made at a given second.\<close>

definition demo_report :: "int \<Rightarrow> k8s_event" where
  "demo_report s = convertEventToK8sEvent (NewStatus (s * second) ''m'')
     (NewEvent (s * second) EventError ''Down'' ''gone'') ''n1''"

definition demo_create :: "int \<Rightarrow> event_op" where
  "demo_create s = Create demo_k8s (\<lambda>_. s * second) demo_k8s_client (demo_report s)"

theorem event_rate_is_bounded_witness:
  "\<exists>outs em'. event_ops (\<lambda>s. s) (\<lambda>m. m) [demo_create 70, demo_create 130] (NewEventManager (demo_k8s_config 1)) = (outs, em')
     \<and> int (sent_in (120 * second) [demo_create 70, demo_create 130] outs) \<le> 1"
proof -
  obtain outs em' where run: "event_ops (\<lambda>s. s) (\<lambda>m. m) [demo_create 70, demo_create 130] (NewEventManager (demo_k8s_config 1)) = (outs, em')"
    by fastforce
  moreover have "clock_ok [demo_create 70, demo_create 130]" by (simp add: demo_create_def)
  ultimately show ?thesis
    using event_rate_is_bounded [OF run, of "120 * second"] by (auto simp: demo_k8s_config_def)
qed

lemma demo_report_signature:
  "Signature_Hash (\<lambda>s. if s = Signature_String (CreateEventSignature (demo_report 70)) then ''a'' else ''b'')
     (CreateEventSignature (demo_report 70)) = ''a''"
  "Signature_String (CreateEventSignature (demo_report 70)) \<noteq> Signature_String (CreateEventSignature (demo_report 130))"
proof -
  have "exporter_event (demo_report 70)" "exporter_event (demo_report 130)"
    unfolding demo_report_def by (rule converted_event_ok; simp add: NewEvent_def)+
  from Signature_String_eq [OF this]
  show "Signature_String (CreateEventSignature (demo_report 70)) \<noteq> Signature_String (CreateEventSignature (demo_report 130))"
    by (simp add: same_signature_def demo_report_def convertEventToK8sEvent_def NewEvent_def truncate_time_def)
qed (simp add: Signature_Hash_def)

end
