(* ===== verification/K8s_Exporter.thy ===== *)
theory K8s_Exporter
  imports K8s_Conditions K8s_Events
begin

text \<open>
  \<^verbatim>\<open>pkg/exporters/kubernetes/exporter.go\<close>: the exporter that owns the event manager and the condition manager, its start, stop and
  reload, and its runs. A context is a number; \<open>kx_cancelled\<close> are those that were cancelled, \<open>kx_fresh\<close> the next one that a
  reload creates. A background loop takes a step only while its context is not cancelled: a loop that waits in its
  \<^verbatim>\<open>select\<close> returns as soon as the context is. The texts of the logged statistics are left out.
\<close>

section \<open>The exporter\<close>

record ExporterStats =
  xs_StartTime :: time
  xs_StatusExportsTotal :: int
  xs_StatusExportsSuccess :: int
  xs_StatusExportsFailed :: int
  xs_ProblemExportsTotal :: int
  xs_ProblemExportsSuccess :: int
  xs_ProblemExportsFailed :: int
  xs_EventsCreated :: int
  xs_ConditionsUpdated :: int
  xs_LastExportTime :: time
  xs_LastError :: "string option"
  xs_LastErrorTime :: time

record KubernetesExporter =
  kx_client :: K8sClient
  kx_config :: KubernetesExporterConfig
  kx_settings :: GlobalSettings
  kx_events :: EventManager
  kx_conditions :: ConditionManager
  kx_started :: bool
  kx_stopClosed :: bool
  kx_loops :: "nat list"
  kx_stats :: ExporterStats
  kx_cancelled :: "nat list"
  kx_fresh :: nat

datatype exporter_error =
    ExporterDisabled | ExporterConfigInvalid config_error | ExporterClientFailed string | AlreadyStarted
  | NotReady | ExportErrors string | WrongConfigType string | NilConfig | StopPanic

datatype reload_arg = KubeConfig "KubernetesExporterConfig option" | OtherConfig string

definition new_stats :: "time \<Rightarrow> ExporterStats" where
  "new_stats now = \<lparr>xs_StartTime = now, xs_StatusExportsTotal = 0, xs_StatusExportsSuccess = 0, xs_StatusExportsFailed = 0,
     xs_ProblemExportsTotal = 0, xs_ProblemExportsSuccess = 0, xs_ProblemExportsFailed = 0, xs_EventsCreated = 0,
     xs_ConditionsUpdated = 0, xs_LastExportTime = 0, xs_LastError = None, xs_LastErrorTime = 0\<rparr>"

definition NewKubernetesExporter ::
  "k8s_env \<Rightarrow> (string \<Rightarrow> string option) \<Rightarrow> time \<Rightarrow> nat \<Rightarrow> KubernetesExporterConfig \<Rightarrow> GlobalSettings \<Rightarrow> exporter_error + KubernetesExporter" where
  "NewKubernetesExporter v connect now contexts cfg settings =
     (if \<not> ke_Enabled cfg then Inl ExporterDisabled
      else case KubernetesExporterConfig_Validate cfg of Some e \<Rightarrow> Inl (ExporterConfigInvalid e)
      | None \<Rightarrow> (case NewClient v connect settings of Inl e \<Rightarrow> Inl (ExporterClientFailed e)
          | Inr c \<Rightarrow> Inr \<lparr>kx_client = c, kx_config = cfg, kx_settings = settings, kx_events = NewEventManager cfg,
              kx_conditions = NewConditionManager now cfg, kx_started = False, kx_stopClosed = False, kx_loops = [],
              kx_stats = new_stats now, kx_cancelled = [], kx_fresh = contexts\<rparr>))"

text \<open>Starting the two managers, as start and reload do it.\<close>

definition start_managers :: "k8s_env \<Rightarrow> time \<Rightarrow> nat \<Rightarrow> KubernetesExporter \<Rightarrow> KubernetesExporter" where
  "start_managers v now ctx x = x\<lparr>kx_events := Events_Start ctx (kx_events x),
     kx_conditions := AddCustomConditions now (Conditions_Start v (kx_client x) now ctx (kx_conditions x))\<rparr>"

definition Exporter_Start :: "k8s_env \<Rightarrow> time \<Rightarrow> nat \<Rightarrow> KubernetesExporter \<Rightarrow> exporter_error option \<times> KubernetesExporter" where
  "Exporter_Start v now ctx x =
     (if kx_started x then (Some AlreadyStarted, x)
      else (None, (start_managers v now ctx x)\<lparr>kx_loops := kx_loops x @ [ctx], kx_started := True,
        kx_stats := (kx_stats x)\<lparr>xs_StartTime := now\<rparr>\<rparr>))"

text \<open>A second stop after a restart closes a closed channel, which panics: the channel is made only once.\<close>

definition Exporter_Stop ::
  "((string, int) gomap \<Rightarrow> (string \<times> int) list) \<Rightarrow> KubernetesExporter \<Rightarrow> exporter_error option \<times> KubernetesExporter" where
  "Exporter_Stop iter x =
     (if \<not> kx_started x then (None, x)
      else if kx_stopClosed x then (Some StopPanic, x)
      else (None, x\<lparr>kx_stopClosed := True, kx_events := snd (Events_Stop iter (kx_events x)),
        kx_conditions := Conditions_Stop (kx_conditions x), kx_loops := [], kx_started := False\<rparr>))"

definition update_stats :: "(ExporterStats \<Rightarrow> ExporterStats) \<Rightarrow> KubernetesExporter \<Rightarrow> KubernetesExporter" where
  "update_stats f x = x\<lparr>kx_stats := f (kx_stats x)\<rparr>"

definition failed_export :: "time \<Rightarrow> string \<Rightarrow> ExporterStats \<Rightarrow> ExporterStats" where
  "failed_export now e s = s\<lparr>xs_LastError := Some e, xs_LastErrorTime := now\<rparr>"

definition ExportStatus ::
  "(string \<Rightarrow> string) \<Rightarrow> (nat \<Rightarrow> k8s_env) \<Rightarrow> (nat \<Rightarrow> nat \<Rightarrow> time) \<Rightarrow> time \<Rightarrow> status \<Rightarrow> KubernetesExporter \<Rightarrow>
   exporter_error option \<times> k8s_request list \<times> KubernetesExporter" where
  "ExportStatus sha v ck now s x =
     (if \<not> kx_started x then (Some NotReady, [], x)
      else
        let x1 = update_stats (\<lambda>t. t\<lparr>xs_StatusExportsTotal := xs_StatusExportsTotal t + 1, xs_LastExportTime := now\<rparr>) x;
            (lastErr, reqs, x2) =
              (if st_Events s = [] then (None, [], x1)
               else case CreateEventsFromStatus sha v ck (kx_client x1) s (kx_events x1) of (err, reqs, em) \<Rightarrow>
                 (err, reqs, (if err \<noteq> None then id
                    else update_stats (\<lambda>t. t\<lparr>xs_EventsCreated := xs_EventsCreated t + int (length (st_Events s))\<rparr>)) (x1\<lparr>kx_events := em\<rparr>)));
            x3 = (if st_Conditions s = [] then x2
               else update_stats (\<lambda>t. t\<lparr>xs_ConditionsUpdated := xs_ConditionsUpdated t + int (length (st_Conditions s))\<rparr>)
                 (x2\<lparr>kx_conditions := fold (UpdateCondition now) (st_Conditions s) (kx_conditions x2)\<rparr>))
        in case lastErr of
             Some e \<Rightarrow> (Some (ExportErrors (''status export completed with errors: '' @ e)), reqs,
               update_stats (failed_export now e \<circ> (\<lambda>t. t\<lparr>xs_StatusExportsFailed := xs_StatusExportsFailed t + 1\<rparr>)) x3)
           | None \<Rightarrow> (None, reqs, update_stats (\<lambda>t. t\<lparr>xs_StatusExportsSuccess := xs_StatusExportsSuccess t + 1\<rparr>) x3))"

definition ExportProblem ::
  "(string \<Rightarrow> string) \<Rightarrow> k8s_env \<Rightarrow> (nat \<Rightarrow> time) \<Rightarrow> time \<Rightarrow> problem \<Rightarrow> KubernetesExporter \<Rightarrow>
   exporter_error option \<times> k8s_request list \<times> KubernetesExporter" where
  "ExportProblem sha v ck now p x =
     (if \<not> kx_started x then (Some NotReady, [], x)
      else
        let x1 = update_stats (\<lambda>t. t\<lparr>xs_ProblemExportsTotal := xs_ProblemExportsTotal t + 1, xs_LastExportTime := now,
              xs_ConditionsUpdated := xs_ConditionsUpdated t + 1\<rparr>)
              (x\<lparr>kx_conditions := UpdateConditionFromProblem now p (kx_conditions x)\<rparr>)
        in case CreateEventFromProblem sha v now ck (kx_client x1) p (kx_events x1) of
             (Some e, reqs, em) \<Rightarrow> (Some (ExportErrors (''problem export completed with errors: '' @ e)), reqs,
               update_stats (failed_export now e \<circ> (\<lambda>t. t\<lparr>xs_ProblemExportsFailed := xs_ProblemExportsFailed t + 1\<rparr>)) (x1\<lparr>kx_events := em\<rparr>))
           | (None, reqs, em) \<Rightarrow> (None, reqs,
               update_stats (\<lambda>t. t\<lparr>xs_EventsCreated := xs_EventsCreated t + 1, xs_ProblemExportsSuccess := xs_ProblemExportsSuccess t + 1\<rparr>)
                 (x1\<lparr>kx_events := em\<rparr>)))"

definition needsClientRecreation :: "KubernetesExporterConfig \<Rightarrow> KubernetesExporterConfig \<Rightarrow> bool" where
  "needsClientRecreation old new \<longleftrightarrow> ke_Namespace old \<noteq> ke_Namespace new
     \<or> ke_UpdateInterval old \<noteq> ke_UpdateInterval new \<or> ke_ResyncInterval old \<noteq> ke_ResyncInterval new
     \<or> ke_HeartbeatInterval old \<noteq> ke_HeartbeatInterval new
     \<or> ec_MaxEventsPerMinute (ke_Events old) \<noteq> ec_MaxEventsPerMinute (ke_Events new)
     \<or> ec_EventTTL (ke_Events old) \<noteq> ec_EventTTL (ke_Events new)
     \<or> ec_DeduplicationWindow (ke_Events old) \<noteq> ec_DeduplicationWindow (ke_Events new)"

definition annotationsEqual :: "AnnotationConfig list \<Rightarrow> AnnotationConfig list \<Rightarrow> bool" where
  "annotationsEqual old new \<longleftrightarrow> length old = length new
     \<and> (let m = fold (\<lambda>a. AList.update (an_Key a) (an_Value a)) old [] in \<forall>a\<in>set new. gomap_get [] m (an_Key a) = an_Value a)"

definition initializeAnnotations :: "k8s_env \<Rightarrow> (time \<Rightarrow> string) \<Rightarrow> time \<Rightarrow> KubernetesExporter \<Rightarrow> k8s_request list" where
  "initializeAnnotations v rfc now x =
     (if ke_Annotations (kx_config x) = [] then []
      else snd (UpdateNodeAnnotations v (AList.update ''node-doctor.io/last-update'' (rfc now)
        (fold (\<lambda>a. AList.update (an_Key a) (an_Value a)) (ke_Annotations (kx_config x)) []))))"

text \<open>
  The managers of a reload are started with a context that the reload itself creates, and whose cancellation
  it defers to its own end; the old managers are stopped and dropped.\<close>

definition recreate_managers ::
  "k8s_env \<Rightarrow> time \<Rightarrow> K8sClient \<Rightarrow> KubernetesExporterConfig \<Rightarrow> KubernetesExporter \<Rightarrow> KubernetesExporter" where
  "recreate_managers v now c cfg x =
     (let x1 = x\<lparr>kx_client := c, kx_events := NewEventManager cfg, kx_conditions := NewConditionManager now cfg\<rparr> in
      if kx_started x then (start_managers v now (kx_fresh x) x1)\<lparr>kx_cancelled := kx_fresh x # kx_cancelled x, kx_fresh := Suc (kx_fresh x)\<rparr>
      else x1)"

definition Exporter_Reload ::
  "k8s_env \<Rightarrow> (string \<Rightarrow> string option) \<Rightarrow> time \<Rightarrow> reload_arg \<Rightarrow> KubernetesExporter \<Rightarrow>
   exporter_error option \<times> KubernetesExporter" where
  "Exporter_Reload v connect now arg x =
     (case arg of OtherConfig ty \<Rightarrow> (Some (WrongConfigType ty), x)
      | KubeConfig None \<Rightarrow> (Some NilConfig, x)
      | KubeConfig (Some cfg) \<Rightarrow>
          (case KubernetesExporterConfig_Validate cfg of Some e \<Rightarrow> (Some (ExporterConfigInvalid e), x)
           | None \<Rightarrow>
               if needsClientRecreation (kx_config x) cfg
               then (case NewClient v connect (kx_settings x) of Inl e \<Rightarrow> (Some (ExporterClientFailed e), x)
                 | Inr c \<Rightarrow> (None, (recreate_managers v now c cfg x)\<lparr>kx_config := cfg\<rparr>))
               else (None, x\<lparr>kx_config := cfg\<rparr>)))"

definition Exporter_IsHealthy :: "k8s_env \<Rightarrow> time \<Rightarrow> KubernetesExporter \<Rightarrow> bool" where
  "Exporter_IsHealthy v now x \<longleftrightarrow> kx_started x \<and> Client_IsHealthy v (kx_client x) \<and> Events_IsHealthy (kx_events x)
     \<and> Conditions_IsHealthy now (kx_conditions x)"

definition health_condition :: "time \<Rightarrow> bool \<Rightarrow> condition" where
  "health_condition now healthy =
     (let c = NewCondition now ''NodeDoctorExporterHealthy'' ConditionTrue ''HealthCheck'' ''Kubernetes exporter is healthy'' in
      if healthy then c
      else c\<lparr>cond_Status := ConditionFalse, cond_Reason := ''HealthCheckFailed'', cond_Message := ''Kubernetes exporter health check failed''\<rparr>)"

definition performHealthCheck :: "k8s_env \<Rightarrow> time \<Rightarrow> KubernetesExporter \<Rightarrow> KubernetesExporter" where
  "performHealthCheck v now x =
     x\<lparr>kx_conditions := UpdateCondition now (health_condition now (Exporter_IsHealthy v now x)) (kx_conditions x)\<rparr>"

definition Exporter_RemoveCondition :: "string \<Rightarrow> KubernetesExporter \<Rightarrow> KubernetesExporter" where
  "Exporter_RemoveCondition t x = (if \<not> kx_started x then x else x\<lparr>kx_conditions := RemoveCondition t (kx_conditions x)\<rparr>)"

definition Exporter_ClearManagedConditions :: "KubernetesExporter \<Rightarrow> KubernetesExporter" where
  "Exporter_ClearManagedConditions x =
     (if \<not> kx_started x then x else x\<lparr>kx_conditions := snd (ClearManagedConditions (kx_conditions x))\<rparr>)"

definition Exporter_flush :: "k8s_env \<Rightarrow> time \<Rightarrow> KubernetesExporter \<Rightarrow> k8s_request list \<times> KubernetesExporter" where
  "Exporter_flush v now x = (case flushPendingUpdates v (kx_client x) now (kx_conditions x) of (_, reqs, cm) \<Rightarrow> (reqs, x\<lparr>kx_conditions := cm\<rparr>))"

section \<open>Runs\<close>

datatype exporter_action =
    StatusAction "string \<Rightarrow> string" "nat \<Rightarrow> k8s_env" "nat \<Rightarrow> nat \<Rightarrow> time" time status
  | ProblemAction "string \<Rightarrow> string" k8s_env "nat \<Rightarrow> time" time problem
  | FlushAction k8s_env time
  | ResyncAction "string + NodeCondition list" time
  | HeartbeatAction "time \<Rightarrow> string" time
  | CleanupAction "(string, int) gomap \<Rightarrow> (string \<times> int) list" time
  | HealthAction k8s_env time
  | AnnotateAction k8s_env "time \<Rightarrow> string" time
  | RemoveAction string
  | ClearAction
  | ReloadAction k8s_env "string \<Rightarrow> string option" time reload_arg
  | StartAction k8s_env time nat
  | StopAction "(string, int) gomap \<Rightarrow> (string \<times> int) list"
  | CancelAction nat

definition alive :: "nat list \<Rightarrow> KubernetesExporter \<Rightarrow> bool" where
  "alive ctxs x \<longleftrightarrow> (\<exists>ctx\<in>set ctxs. ctx \<notin> set (kx_cancelled x))"

text \<open>The steps of the exporter, with the requests that each of them sends.\<close>

inductive exporter_step :: "KubernetesExporter \<Rightarrow> exporter_action \<Rightarrow> k8s_request list \<Rightarrow> KubernetesExporter \<Rightarrow> bool" where
  status: "ExportStatus sha v ck now s x = (err, reqs, x') \<Longrightarrow> exporter_step x (StatusAction sha v ck now s) reqs x'"
| problem: "ExportProblem sha w ckp now p x = (err, reqs, x') \<Longrightarrow> exporter_step x (ProblemAction sha w ckp now p) reqs x'"
| flush: "alive (cm_loops (kx_conditions x)) x \<Longrightarrow> Exporter_flush w now x = (reqs, x') \<Longrightarrow> exporter_step x (FlushAction w now) reqs x'"
| resync: "alive (cm_loops (kx_conditions x)) x \<Longrightarrow>
    exporter_step x (ResyncAction r now) [] (x\<lparr>kx_conditions := snd (performResync r now (kx_conditions x))\<rparr>)"
| heartbeat: "alive (cm_loops (kx_conditions x)) x \<Longrightarrow>
    exporter_step x (HeartbeatAction rfc now) [] (x\<lparr>kx_conditions := sendHeartbeat rfc now (kx_conditions x)\<rparr>)"
| tidy: "alive (em_loops (kx_events x)) x \<Longrightarrow>
    exporter_step x (CleanupAction iter now) [] (x\<lparr>kx_events := snd (cleanup iter now (kx_events x))\<rparr>)"
| health: "alive (kx_loops x) x \<Longrightarrow> exporter_step x (HealthAction w now) [] (performHealthCheck w now x)"
| annotate: "exporter_step x (AnnotateAction w rfc now) (initializeAnnotations w rfc now x) x"
| remove: "exporter_step x (RemoveAction t) [] (Exporter_RemoveCondition t x)"
| clear: "exporter_step x ClearAction [] (Exporter_ClearManagedConditions x)"
| reload: "Exporter_Reload w connect now arg x = (err, x') \<Longrightarrow> exporter_step x (ReloadAction w connect now arg) [] x'"
| start: "Exporter_Start w now ctx x = (err, x') \<Longrightarrow> exporter_step x (StartAction w now ctx) [] x'"
| stop: "Exporter_Stop iter x = (err, x') \<Longrightarrow> exporter_step x (StopAction iter) [] x'"
| cancel: "exporter_step x (CancelAction ctx) [] (x\<lparr>kx_cancelled := ctx # kx_cancelled x\<rparr>)"

inductive exporter_run :: "KubernetesExporter \<Rightarrow> exporter_action list \<Rightarrow> k8s_request list \<Rightarrow> KubernetesExporter \<Rightarrow> bool" where
  finished: "exporter_run x [] [] x"
| more: "exporter_step x a reqs x1 \<Longrightarrow> exporter_run x1 as reqs' x2 \<Longrightarrow> exporter_run x (a # as) (reqs @ reqs') x2"

section \<open>The invariant of a run\<close>

lemma stats_frame [simp]:
  "kx_conditions (update_stats f x) = kx_conditions x" "kx_events (update_stats f x) = kx_events x"
  "kx_cancelled (update_stats f x) = kx_cancelled x" "kx_client (update_stats f x) = kx_client x"
  "kx_started (update_stats f x) = kx_started x" "kx_loops (update_stats f x) = kx_loops x"
  by (simp_all add: update_stats_def)

lemma loops_frame [simp]:
  "cm_loops (queue_update now n cm) = cm_loops cm" "cm_loops (UpdateCondition now c cm) = cm_loops cm"
  "cm_loops (UpdateConditionFromProblem now p cm) = cm_loops cm" "cm_loops (mark_removed t cm) = cm_loops cm"
  "cm_loops (sendHeartbeat rfc now cm) = cm_loops cm" "cm_loops (snd (ClearManagedConditions cm)) = cm_loops cm"
  "cm_loops (snd (performResync r now cm)) = cm_loops cm" "cm_loops (expireStaleConditions now cm) = cm_loops cm"
  by (simp_all add: queue_update_def UpdateCondition_def UpdateConditionFromProblem_def mark_removed_def sendHeartbeat_def
      ClearManagedConditions_def performResync_def expireStaleConditions_def Let_def split: option.split sum.split)

lemma fold_UpdateCondition [simp]:
  "cm_loops (fold (UpdateCondition now) cs cm) = cm_loops cm" "cm_ok cm \<Longrightarrow> cm_ok (fold (UpdateCondition now) cs cm)"
  by (induction cs arbitrary: cm) simp_all

lemma AddCustomConditions_loops [simp]: "cm_loops (AddCustomConditions now cm) = cm_loops cm"
proof -
  have "cm_loops (fold (\<lambda>c. queue_update now (custom_condition now c)) cs cm) = cm_loops cm" for cs
    by (induction cs arbitrary: cm) simp_all
  then show ?thesis by (simp add: AddCustomConditions_def)
qed

lemma flush_loops: "flushPendingUpdates v c now cm = (err, reqs, cm') \<Longrightarrow> cm_loops cm' = cm_loops cm"
proof (induction rule: flush_cases)
  case (work e1 reqs1 cm2 e2 reqs2 cm3)
  from work(1) have "cm_loops cm2 = cm_loops cm"
    by (auto simp: flush_removals_def split: if_splits prod.splits option.splits)
  moreover from work(2) have "cm_loops cm3 = cm_loops cm2"
    by (auto simp: flush_updates_def split: if_splits prod.splits option.splits)
  ultimately show ?case using work(5) by simp
qed simp

text \<open>What the exports change of the conditions, and that they write only events.\<close>

definition only_events :: "k8s_request list \<Rightarrow> bool" where
  "only_events reqs \<longleftrightarrow> list_all (\<lambda>r. case r of CreateRequest _ _ \<Rightarrow> True | _ \<Rightarrow> False) reqs"

lemma Events_CreateEvent_only: "Events_CreateEvent sha v ck c e em = (err, reqs, em') \<Longrightarrow> only_events reqs"
  by (auto simp: Events_CreateEvent_def Client_CreateEvent_def Let_def only_events_def list_all_iff
      split: if_splits prod.splits option.splits)

lemma create_events_only: "create_events sha v ck c i es l em = (err, reqs, em') \<Longrightarrow> only_events reqs"
proof (induction es arbitrary: i l em reqs)
  case (Cons e es)
  then show ?case using Events_CreateEvent_only [of sha "v i" "ck i" c e em]
    by (fastforce simp: only_events_def split: prod.splits)
qed (simp add: only_events_def)

lemma ExportStatus_conditions:
  assumes "ExportStatus sha v ck now s x = (err, reqs, x')"
  shows "only_events reqs" "kx_cancelled x' = kx_cancelled x"
    "kx_conditions x' = (if kx_started x then fold (UpdateCondition now) (st_Conditions s) (kx_conditions x) else kx_conditions x)"
proof -
  obtain e0 reqs0 em where ev: "CreateEventsFromStatus sha v ck (kx_client x) s (kx_events x) = (e0, reqs0, em)" by (metis prod_cases3)
  then have "only_events reqs0" using create_events_only by (auto simp: CreateEventsFromStatus_def)
  with assms ev show "only_events reqs" "kx_cancelled x' = kx_cancelled x"
    "kx_conditions x' = (if kx_started x then fold (UpdateCondition now) (st_Conditions s) (kx_conditions x) else kx_conditions x)"
    by (auto simp: ExportStatus_def Let_def only_events_def split: if_splits option.splits)
qed

lemma ExportProblem_conditions:
  assumes "ExportProblem sha v ck now p x = (err, reqs, x')"
  shows "only_events reqs" "kx_cancelled x' = kx_cancelled x"
    "kx_conditions x' = (if kx_started x then UpdateConditionFromProblem now p (kx_conditions x) else kx_conditions x)"
  using assms Events_CreateEvent_only
  by (auto simp: ExportProblem_def CreateEventFromProblem_def Let_def only_events_def [of "[]"] split: if_splits prod.splits option.splits)

lemma only_events_keeps: "only_events reqs \<Longrightarrow> list_all keeps_foreign reqs"
  unfolding only_events_def by (erule list.pred_mono_strong) (simp split: k8s_request.splits)

lemma start_managers_ok: "cm_ok (kx_conditions x) \<Longrightarrow> cm_ok (kx_conditions (start_managers v now ctx x))"
  by (simp add: start_managers_def)

lemma exporter_step_ok:
  assumes "exporter_step x a reqs x'" "cm_ok (kx_conditions x)"
  shows "cm_ok (kx_conditions x') \<and> list_all keeps_foreign reqs"
  using assms
proof (induction rule: exporter_step.induct)
  case (status sha v ck now s x err reqs x')
  then show ?case using ExportStatus_conditions [OF status(1)] only_events_keeps by simp
next
  case (problem sha w ckp now p x err reqs x')
  then show ?case using ExportProblem_conditions [OF problem(1)] only_events_keeps by simp
next
  case (flush x w now reqs x')
  then show ?case using flush_ok by (fastforce simp: Exporter_flush_def split: prod.splits)
next
  case (annotate x w rfc now)
  then show ?case by (auto simp: initializeAnnotations_def UpdateNodeAnnotations_def list_all_iff split: prod.splits)
next
  case (reload w connect now arg x err x')
  have "cm_ok (kx_conditions (recreate_managers w now c cfg x))" for c cfg
    using start_managers_ok by (simp add: recreate_managers_def Let_def)
  with reload show ?case
    by (auto simp: Exporter_Reload_def split: reload_arg.splits option.splits if_splits sum.splits)
next
  case (start w now ctx x err x')
  then show ?case using start_managers_ok by (auto simp: Exporter_Start_def split: if_splits)
next
  case (stop iter x err x')
  then show ?case by (auto simp: Exporter_Stop_def split: if_splits)
qed (simp_all add: cm_ok_resync cm_ok_heartbeat cm_ok_clear performHealthCheck_def Exporter_RemoveCondition_def RemoveCondition_def
    Exporter_ClearManagedConditions_def)

text \<open>All loops of the condition manager have lost their context.\<close>

definition silent :: "KubernetesExporter \<Rightarrow> bool" where
  "silent x \<longleftrightarrow> set (cm_loops (kx_conditions x)) \<subseteq> set (kx_cancelled x)"

lemma silent_config [simp]: "silent (x\<lparr>kx_config := c\<rparr>) = silent x"
  by (simp add: silent_def)

lemma new_manager_loops: "cm_loops (kx_conditions (start_managers v now ctx x)) = cm_loops (kx_conditions x) @ [ctx]"
proof -
  have init: "cm_loops (snd (initialSync v c now cm)) = cm_loops cm" for c cm
  proof (cases "GetNode v c")
    case (Inr cs)
    have f: "cm_loops (fold (add_missing now) ccs m) = cm_loops m" for ccs m
      by (induction ccs arbitrary: m) (simp_all add: add_missing_def)
    have r: "cm_loops (fold (\<lambda>t cm. if map_of (cm_conditions cm) t = None then cm else mark_removed t cm) ts m) = cm_loops m" for ts m
      by (induction ts arbitrary: m) simp_all
    show ?thesis using Inr f r by (simp add: initialSync_def Let_def removeRetiredDNSConditions_def)
  qed (simp add: initialSync_def)
  show ?thesis by (simp add: start_managers_def Conditions_Start_def Let_def init)
qed

lemma recreate_silent: "kx_started x \<Longrightarrow> silent (recreate_managers v now c cfg x)"
  by (simp add: recreate_managers_def Let_def silent_def new_manager_loops) (simp add: NewConditionManager_def Let_def)

lemma exporter_step_silent:
  assumes "exporter_step x a reqs x'" "silent x" "\<forall>v now ctx. a \<noteq> StartAction v now ctx"
  shows "silent x' \<and> (\<forall>r\<in>set reqs. \<nexists>cs. r = PatchStatus cs) \<and> (\<forall>r\<in>set reqs. \<nexists>f s. r = UpdateStatus f s)"
  using assms
proof (induction rule: exporter_step.induct)
  case (status sha v ck now s x err reqs x')
  then show ?case using ExportStatus_conditions [OF status(1)] by (auto simp: silent_def only_events_def list_all_iff)
next
  case (problem sha w ckp now p x err reqs x')
  then show ?case using ExportProblem_conditions [OF problem(1)] by (auto simp: silent_def only_events_def list_all_iff)
next
  case (flush x w now reqs x')
  then show ?case by (auto simp: silent_def alive_def)
next
  case (annotate x w rfc now)
  then show ?case by (auto simp: initializeAnnotations_def UpdateNodeAnnotations_def list_all_iff split: prod.splits)
next
  case (reload w connect now arg x err x')
  have "silent (recreate_managers w now c cfg x)" for c cfg
    using recreate_silent [of x w now c cfg] by (cases "kx_started x") (simp_all add: silent_def recreate_managers_def Let_def NewConditionManager_def)
  with reload show ?case
    by (auto simp: Exporter_Reload_def split: reload_arg.splits option.splits if_splits sum.splits)
next
  case (stop iter x err x')
  then show ?case by (auto simp: Exporter_Stop_def silent_def Conditions_Stop_def split: if_splits)
qed (auto simp: silent_def alive_def performHealthCheck_def Exporter_RemoveCondition_def RemoveCondition_def
    Exporter_ClearManagedConditions_def)

lemma run_ok:
  assumes "exporter_run x as reqs x'" "cm_ok (kx_conditions x)"
  shows "cm_ok (kx_conditions x') \<and> list_all keeps_foreign reqs"
  using assms by (induction rule: exporter_run.induct) (auto dest: exporter_step_ok)

lemma run_silent:
  assumes "exporter_run x as reqs x'" "silent x" "\<forall>v now ctx. StartAction v now ctx \<notin> set as"
  shows "silent x' \<and> (\<forall>cs. PatchStatus cs \<notin> set reqs) \<and> (\<forall>f s. UpdateStatus f s \<notin> set reqs)"
  using assms
proof (induction rule: exporter_run.induct)
  case (more x a reqs x1 as reqs' x2)
  have "\<forall>v now ctx. a \<noteq> StartAction v now ctx" using more.prems(2) by auto
  from exporter_step_silent [OF more.hyps(1) more.prems(1) this] more.IH more.prems(2) show ?case by auto
qed simp

lemma flush_quiet:
  assumes "cm_pendingUpdates cm = []" "cm_pendingRemovals cm = []" "\<forall>t. \<not> stale now cm t"
  shows "flushPendingUpdates v c now cm = (None, [], cm)"
proof -
  have "filter (stale now cm) (map fst (cm_conditions cm)) = []" using assms(3) by (simp add: filter_empty_conv)
  then have "expireStaleConditions now cm = cm" by (simp add: expireStaleConditions_def Let_def)
  with assms(1,2) show ?thesis by (simp add: flushPendingUpdates_def Let_def)
qed

lemma quiet_run:
  assumes "exporter_run x as reqs x'" "cm_pendingUpdates (kx_conditions x) = []" "cm_pendingRemovals (kx_conditions x) = []"
    "\<forall>a\<in>set as. \<exists>v now. a = FlushAction v now \<and> (\<forall>t. \<not> stale now (kx_conditions x) t)"
  shows "x' = x \<and> reqs = []"
  using assms
proof (induction rule: exporter_run.induct)
  case (more x a reqs x1 as reqs' x2)
  then obtain v now where a: "a = FlushAction v now" "\<forall>t. \<not> stale now (kx_conditions x) t" by auto
  from more.hyps(1) flush_quiet [OF more.prems(1,2) a(2)] have "x1 = x \<and> reqs = []"
    unfolding a(1) by (cases rule: exporter_step.cases) (simp add: Exporter_flush_def)
  with more show ?case by auto
qed simp

section \<open>Properties\<close>

text \<open>
  C21. The exporter never touches a condition that is not node-doctor's. In every run of a new exporter, with any statuses,
  problems, configured conditions, removals, reloads and API errors: a patch of the node's status contains only
  conditions whose type has the prefix \<^verbatim>\<open>NodeDoctor\<close>, and an update that removes conditions sends back all the other ones exactly
  as they were read and leaves out only conditions with the prefix.\<close>

theorem exporter_writes_only_owned_conditions:
  assumes "NewKubernetesExporter v connect now n cfg settings = Inr x" "exporter_run x as reqs x'"
  shows "(\<forall>cs c. PatchStatus cs \<in> set reqs \<longrightarrow> c \<in> set cs \<longrightarrow> has_prefix (nc_Type c) ''NodeDoctor'')
    \<and> (\<forall>fetched sent. UpdateStatus fetched sent \<in> set reqs \<longrightarrow>
        filter (\<lambda>c. \<not> has_prefix (nc_Type c) ''NodeDoctor'') sent = filter (\<lambda>c. \<not> has_prefix (nc_Type c) ''NodeDoctor'') fetched
        \<and> (\<exists>P. sent = filter P fetched))"
proof -
  have "cm_ok (kx_conditions x)"
    using assms(1) by (auto simp: NewKubernetesExporter_def split: if_splits option.splits sum.splits)
  from run_ok [OF assms(2) this] have "\<forall>r\<in>set reqs. keeps_foreign r" by (simp add: list_all_iff)
  then show ?thesis by (fastforce simp: list_all_iff nodeDoctorConditionPrefix_def)
qed

text \<open>
  C22. A reload of the exporter that replaces its managers silences it. When the new configuration changes the
  namespace, an interval or a limit of the events, the running exporter starts new managers with a context that is cancelled when
  the reload returns. From then on, unless the exporter is started again, no run writes a condition to the node any more,
  whatever statuses are exported, and later reloads do not change that.\<close>

theorem reload_silences_condition_exporter:
  assumes "Exporter_Reload v connect now (KubeConfig (Some cfg)) x = (None, x1)" "kx_started x" "needsClientRecreation (kx_config x) cfg"
    "exporter_run x1 as reqs x2" "\<forall>v now ctx. StartAction v now ctx \<notin> set as"
  shows "(\<forall>cs. PatchStatus cs \<notin> set reqs) \<and> (\<forall>f s. UpdateStatus f s \<notin> set reqs)"
proof -
  have "silent x1"
    using assms(1-3) recreate_silent [OF assms(2)] by (auto simp: Exporter_Reload_def split: option.splits sum.splits if_splits)
  from run_silent [OF assms(4) this assms(5)] show ?thesis by simp
qed

text \<open>
  An exporter that works and has nothing to write reports itself unhealthy. The time of the last update is recorded only by a
  flush that has something to write; when the managers have been in step with the node for more than two update intervals since then,
  however many flushes ran in between, the next health check fails and queues the condition
  \<^verbatim>\<open>NodeDoctorExporterHealthy\<close> with status \<^verbatim>\<open>False\<close>, unless that is what the node shows already.\<close>

lemma quiet_exporter_reports_unhealthy:
  assumes "exporter_run x as reqs x'" "cm_pendingUpdates (kx_conditions x) = []" "cm_pendingRemovals (kx_conditions x) = []"
    "\<forall>a\<in>set as. \<exists>v now. a = FlushAction v now \<and> (\<forall>t. \<not> stale now (kx_conditions x) t)"
    "cm_lastUpdate (kx_conditions x) \<noteq> 0"
    "wrap64 (2 * cm_updateInterval (kx_conditions x)) < time_sub now (cm_lastUpdate (kx_conditions x))"
    "map_of (cm_conditions (kx_conditions x)) ''NodeDoctorExporterHealthy'' = Some old" "nc_Status old = ''True''"
  shows "\<not> Exporter_IsHealthy v now x'
    \<and> (\<exists>n. map_of (cm_pendingUpdates (kx_conditions (performHealthCheck v now x'))) ''NodeDoctorExporterHealthy'' = Some n
         \<and> nc_Status n = ''False'' \<and> nc_Reason n = ''HealthCheckFailed'')"
proof -
  have x': "x' = x" using quiet_run [OF assms(1-4)] by simp
  have sick: "\<not> Exporter_IsHealthy v now x"
    using assms(5,6) by (simp add: Exporter_IsHealthy_def Conditions_IsHealthy_def is_zero_time_def)
  let ?n = "convertConditionToNodeCondition now (health_condition now False)"
  have n: "nc_Type ?n = ''NodeDoctorExporterHealthy''" "nc_Status ?n = ''False''" "nc_Reason ?n = ''HealthCheckFailed''"
    by (simp_all add: convertConditionToNodeCondition_def health_condition_def NewCondition_def nodeDoctorConditionType_def
        nodeDoctorConditionPrefix_def has_prefix_def ConditionTrue_def ConditionFalse_def sanitizeConditionReason_def
        sanitizeEventReason_def is_lower_def is_upper_or_digit_def)
  have "UpdateCondition now (health_condition now False) (kx_conditions x) = queue_update now (carry_transition (Some old) ?n) (kx_conditions x)"
    by (rule UpdateCondition_differs) (use assms(7,8) n in \<open>simp_all add: conditionsEqual_def\<close>)
  then show ?thesis using sick n by (simp add: x' performHealthCheck_def queue_update_def)
qed

section \<open>Witnesses\<close>

definition demo_exporter :: KubernetesExporter where
  "demo_exporter = \<lparr>kx_client = demo_k8s_client, kx_config = demo_k8s_valid (10 * second),
     kx_settings = zero_GlobalSettings\<lparr>gs_NodeName := ''n1''\<rparr>, kx_events = NewEventManager (demo_k8s_valid (10 * second)),
     kx_conditions = NewConditionManager 1 (demo_k8s_valid (10 * second)), kx_started = False, kx_stopClosed = False, kx_loops = [],
     kx_stats = new_stats 1, kx_cancelled = [], kx_fresh = 1\<rparr>"

lemma demo_client_new: "NewClient demo_k8s (\<lambda>_. None) (zero_GlobalSettings\<lparr>gs_NodeName := ''n1''\<rparr>) = Inr demo_k8s_client"
  by (simp add: NewClient_def initializeNodeUID_def demo_k8s_def demo_k8s_client_def failed_def Let_def)

lemma demo_exporter_new:
  "NewKubernetesExporter demo_k8s (\<lambda>_. None) 1 1 (demo_k8s_valid (10 * second)) (zero_GlobalSettings\<lparr>gs_NodeName := ''n1''\<rparr>) = Inr demo_exporter"
  using demo_client_new demo_k8s_valid_ok(1)
  by (simp add: NewKubernetesExporter_def demo_exporter_def) (simp add: demo_k8s_valid_def demo_k8s_config_def)

lemma one_step: "exporter_step x a reqs x' \<Longrightarrow> exporter_run x [a] reqs x'"
  using exporter_run.more [OF _ exporter_run.finished] by fastforce

theorem exporter_writes_only_owned_conditions_witness:
  "\<exists>reqs x'. exporter_run demo_exporter [StartAction demo_k8s 2 0, HeartbeatAction (\<lambda>_. ''t'') 3, FlushAction demo_k8s 4] reqs x'
     \<and> (\<exists>cs. PatchStatus cs \<in> set reqs \<and> (\<forall>c\<in>set cs. has_prefix (nc_Type c) ''NodeDoctor''))"
proof -
  let ?x1 = "snd (Exporter_Start demo_k8s 2 0 demo_exporter)"
  let ?x2 = "?x1\<lparr>kx_conditions := sendHeartbeat (\<lambda>_. ''t'') 3 (kx_conditions ?x1)\<rparr>"
  obtain reqs x' where f: "Exporter_flush demo_k8s 4 ?x2 = (reqs, x')" by fastforce
  have c: "kx_cancelled ?x1 = []" "cm_loops (kx_conditions ?x1) = [0]"
    by (simp_all add: Exporter_Start_def demo_exporter_def new_manager_loops) (simp_all add: start_managers_def NewConditionManager_def Let_def)
  have "exporter_step demo_exporter (StartAction demo_k8s 2 0) [] ?x1" by (rule exporter_step.start [of _ _ _ _ "fst (Exporter_Start demo_k8s 2 0 demo_exporter)"]) simp
  moreover have "exporter_step ?x1 (HeartbeatAction (\<lambda>_. ''t'') 3) [] ?x2" by (rule exporter_step.heartbeat) (simp add: alive_def c)
  moreover have "exporter_step ?x2 (FlushAction demo_k8s 4) reqs x'" by (rule exporter_step.flush) (simp_all add: alive_def c f)
  ultimately have run: "exporter_run demo_exporter [StartAction demo_k8s 2 0, HeartbeatAction (\<lambda>_. ''t'') 3, FlushAction demo_k8s 4] reqs x'"
    using exporter_run.more [OF _ exporter_run.more [OF _ one_step]] by fastforce
  have "map_of (cm_pendingUpdates (kx_conditions ?x2)) ''NodeDoctorHealthy'' \<noteq> None"
    by (simp add: sendHeartbeat_def queue_update_def)
  then obtain n where n: "map_of (cm_pendingUpdates (kx_conditions ?x2)) ''NodeDoctorHealthy'' = Some n" by blast
  have ok: "cm_ok (kx_conditions ?x2)"
    by (simp add: Exporter_Start_def demo_exporter_def start_managers_def cm_ok_heartbeat)
  obtain err rq cm' where g: "flushPendingUpdates demo_k8s (kx_client ?x2) 4 (kx_conditions ?x2) = (err, rq, cm')" by (metis prod_cases3)
  have "err = None" using g
  proof (cases rule: flush_cases)
    case (work e1 reqs1 cm2 e2 reqs2 cm3)
    have "fst (RemoveNodeConditions demo_k8s cl ts) = None" for cl ts
      by (simp add: RemoveNodeConditions_def OnError_def demo_k8s_def remove_attempt_def Let_def)
    with work(1) have "e1 = None" by (auto simp: flush_removals_def split: if_splits prod.splits option.splits) (metis fst_conv option.distinct(1))
    moreover have "e2 = None" using work(2) by (auto simp: flush_updates_def demo_patch_ok split: if_splits)
    ultimately show ?thesis using work(3) by simp
  qed
  with flush_publishes [OF g [unfolded \<open>err = None\<close>] ok n] g f obtain cs where "PatchStatus cs \<in> set reqs"
    by (auto simp: Exporter_flush_def nodeDoctorConditionPrefix_def has_prefix_def)
  moreover from this exporter_writes_only_owned_conditions [OF demo_exporter_new run] have "\<forall>c\<in>set cs. has_prefix (nc_Type c) ''NodeDoctor''" by blast
  ultimately show ?thesis using run by blast
qed

theorem reload_silences_condition_exporter_witness:
  "\<exists>x1 reqs x2. Exporter_Reload demo_k8s (\<lambda>_. None) 5 (KubeConfig (Some (demo_k8s_valid (20 * second))))
        (snd (Exporter_Start demo_k8s 2 0 demo_exporter)) = (None, x1)
     \<and> exporter_run x1 [StatusAction (\<lambda>s. s) (\<lambda>_. demo_k8s) (\<lambda>_ _. 6) 6 (AddCondition (demo_down 6) (NewStatus 6 ''m''))] reqs x2
     \<and> cm_pendingUpdates (kx_conditions x2) \<noteq> [] \<and> (\<forall>cs. PatchStatus cs \<notin> set reqs)"
proof -
  let ?x = "snd (Exporter_Start demo_k8s 2 0 demo_exporter)"
  let ?s = "AddCondition (demo_down 6) (NewStatus 6 ''m'')"
  have st: "kx_started ?x" "kx_config ?x = demo_k8s_valid (10 * second)" "kx_settings ?x = zero_GlobalSettings\<lparr>gs_NodeName := ''n1''\<rparr>"
    by (simp_all add: Exporter_Start_def demo_exporter_def start_managers_def)
  have need: "needsClientRecreation (kx_config ?x) (demo_k8s_valid (20 * second))"
    by (simp add: st needsClientRecreation_def demo_k8s_valid_def)
  let ?x1 = "(recreate_managers demo_k8s 5 demo_k8s_client (demo_k8s_valid (20 * second)) ?x)\<lparr>kx_config := demo_k8s_valid (20 * second)\<rparr>"
  have r: "Exporter_Reload demo_k8s (\<lambda>_. None) 5 (KubeConfig (Some (demo_k8s_valid (20 * second)))) ?x = (None, ?x1)"
    using need demo_client_new demo_k8s_valid_ok(2) by (simp add: Exporter_Reload_def st)
  obtain err reqs x2 where e: "ExportStatus (\<lambda>s. s) (\<lambda>_. demo_k8s) (\<lambda>_ _. 6) 6 ?s ?x1 = (err, reqs, x2)" by (metis prod_cases3)
  have run: "exporter_run ?x1 [StatusAction (\<lambda>s. s) (\<lambda>_. demo_k8s) (\<lambda>_ _. 6) 6 ?s] reqs x2"
    by (rule one_step, rule exporter_step.status [OF e])
  have "kx_started ?x1" using st(1) by (simp add: recreate_managers_def Let_def start_managers_def)
  with ExportStatus_conditions(3) [OF e] have "kx_conditions x2 = UpdateCondition 6 (demo_down 6) (kx_conditions ?x1)"
    by (simp add: AddCondition_def NewStatus_def)
  moreover have "map_of (cm_conditions (kx_conditions ?x1)) (nc_Type (convertConditionToNodeCondition 6 (demo_down 6))) = None"
    using st(1)
    by (simp add: recreate_managers_def Let_def start_managers_def Conditions_Start_def initialSync_def GetNode_def demo_k8s_def
        NewConditionManager_def load_conditions_def removeRetiredDNSConditions_def retiredDNSConditionTypes_def AddCustomConditions_def
        demo_k8s_valid_def demo_k8s_config_def)
  ultimately have "map_of (cm_pendingUpdates (kx_conditions x2)) (nc_Type (convertConditionToNodeCondition 6 (demo_down 6))) \<noteq> None"
    by (simp add: UpdateCondition_def Let_def queue_update_def)
  then have "cm_pendingUpdates (kx_conditions x2) \<noteq> []" by auto
  with reload_silences_condition_exporter [OF r st(1) need run] r run show ?thesis by auto
qed

end
