(* ===== verification/Base_Monitor.thy ===== *)
theory Base_Monitor
  imports Types
begin

text \<open>
  \<^verbatim>\<open>pkg/monitors/base.go\<close>: the frame of every monitor: parameters, the check with panic recovery, the status channel and
  the life cycle. The check function is the environment: a call ends with a value of \<open>check_outcome\<close>.

  The goroutines of a monitor read its channels from its fields each time they use them; only one that already waits when the monitor is
  restarted still has the old stop channel, which is closed (\<open>Orphaned\<close>). So the state has the current channels: \<open>bm_buffer\<close> and \<open>bm_closed\<close> are the status channel, \<open>bm_signalled\<close> says whether the stop channel is closed,
  \<open>bm_loops\<close> are the goroutines of \<^verbatim>\<open>run\<close> that have not ended, \<open>bm_stopping\<close> counts the calls of \<^verbatim>\<open>Stop\<close> that wait. Closing a closed channel and
  sending to one panic, which is \<open>bm_panicked\<close>.
\<close>

section \<open>Construction and the check\<close>

datatype base_error =
    MonitorNameEmpty | IntervalNotPositive duration | TimeoutNotPositive duration | TimeoutTooLong duration duration
  | MonitorRunning string | NoCheckFunc string

datatype check_outcome = CheckStatus "status option" | CheckError string | CheckPanic string

datatype loop_phase = Checking | Waiting | Orphaned

record BaseMonitor =
  bm_name :: string
  bm_interval :: duration
  bm_timeout :: duration
  bm_hasCheck :: bool
  bm_running :: bool
  bm_stopped :: bool
  bm_buffer :: "status list"
  bm_closed :: bool
  bm_signalled :: bool
  bm_loops :: "loop_phase list"
  bm_stopping :: nat
  bm_panicked :: bool

definition NewBaseMonitor :: "string \<Rightarrow> duration \<Rightarrow> duration \<Rightarrow> base_error + BaseMonitor" where
  "NewBaseMonitor name interval timeout =
     (if name = [] then Inl MonitorNameEmpty
      else if interval \<le> 0 then Inl (IntervalNotPositive interval)
      else if timeout \<le> 0 then Inl (TimeoutNotPositive timeout)
      else if timeout \<ge> interval then Inl (TimeoutTooLong timeout interval)
      else Inr \<lparr>bm_name = name, bm_interval = interval, bm_timeout = timeout, bm_hasCheck = False, bm_running = False, bm_stopped = False,
        bm_buffer = [], bm_closed = False, bm_signalled = False, bm_loops = [], bm_stopping = 0, bm_panicked = False\<rparr>)"

definition SetCheckFunc :: "bool \<Rightarrow> BaseMonitor \<Rightarrow> base_error option \<times> BaseMonitor" where
  "SetCheckFunc given b = (if bm_running b then (Some (MonitorRunning (bm_name b)), b) else (None, b\<lparr>bm_hasCheck := given\<rparr>))"

definition createErrorStatus :: "time \<Rightarrow> string \<Rightarrow> string \<Rightarrow> status" where
  "createErrorStatus now name err =
     AddCondition (NewCondition now ''MonitorHealthy'' ConditionFalse ''CheckFailed''
       (''Monitor '' @ go_quote name @ '' check failed: '' @ err))
     (AddEvent (NewEvent now EventError ''CheckFailed'' (''Monitor check failed: '' @ err)) (NewStatus now name))"

definition createHealthyStatus :: "time \<Rightarrow> string \<Rightarrow> status" where
  "createHealthyStatus now name =
     AddCondition (NewCondition now ''MonitorHealthy'' ConditionTrue ''CheckSucceeded''
       (''Monitor '' @ go_quote name @ '' check completed successfully'')) (NewStatus now name)"

text \<open>The status that one check produces; every outcome produces one.\<close>

definition check_status :: "time \<Rightarrow> BaseMonitor \<Rightarrow> check_outcome \<Rightarrow> status" where
  "check_status now b out =
     (if \<not> bm_hasCheck b then createErrorStatus now (bm_name b) ''check function is nil''
      else case out of
        CheckPanic r \<Rightarrow> createErrorStatus now (bm_name b) (''check function panicked: '' @ r)
      | CheckError e \<Rightarrow> createErrorStatus now (bm_name b) e
      | CheckStatus None \<Rightarrow> createHealthyStatus now (bm_name b)
      | CheckStatus (Some s) \<Rightarrow> s)"

definition sendStatus :: "status \<Rightarrow> BaseMonitor \<Rightarrow> BaseMonitor" where
  "sendStatus s b =
     (if bm_closed b then b\<lparr>bm_panicked := True\<rparr>
      else if length (bm_buffer b) < 10 then b\<lparr>bm_buffer := bm_buffer b @ [s]\<rparr>
      else b)"

definition executeCheck :: "time \<Rightarrow> check_outcome \<Rightarrow> BaseMonitor \<Rightarrow> BaseMonitor" where
  "executeCheck now out b = sendStatus (check_status now b out) b"

section \<open>The life cycle\<close>

definition Monitor_Start :: "BaseMonitor \<Rightarrow> base_error option \<times> BaseMonitor" where
  "Monitor_Start b =
     (if bm_running b then (Some (MonitorRunning (bm_name b)), b)
      else if \<not> bm_hasCheck b then (Some (NoCheckFunc (bm_name b)), b)
      else let b1 = (if bm_stopped b then b\<lparr>bm_buffer := [], bm_closed := False, bm_signalled := False, bm_stopped := False,
             bm_loops := map (\<lambda>p. if p = Waiting then Orphaned else p) (bm_loops b)\<rparr> else b)
           in (None, b1\<lparr>bm_running := True, bm_loops := bm_loops b1 @ [Checking]\<rparr>))"

text \<open>The two halves of \<^verbatim>\<open>Stop\<close>: the signal, and what happens when the goroutines are done or the time is over.\<close>

definition stop_signal :: "BaseMonitor \<Rightarrow> BaseMonitor" where
  "stop_signal b =
     (if \<not> bm_running b then b
      else if bm_signalled b then b\<lparr>bm_panicked := True\<rparr>
      else b\<lparr>bm_signalled := True, bm_stopping := bm_stopping b + 1\<rparr>)"

definition stop_return :: "BaseMonitor \<Rightarrow> BaseMonitor" where
  "stop_return b = b\<lparr>bm_running := False, bm_stopped := True, bm_stopping := bm_stopping b - 1\<rparr>"

text \<open>A goroutine that leaves \<^verbatim>\<open>run\<close> closes the status channel.\<close>

definition leave_run :: "nat \<Rightarrow> BaseMonitor \<Rightarrow> BaseMonitor" where
  "leave_run i b = (if bm_closed b then b\<lparr>bm_panicked := True\<rparr>
     else b\<lparr>bm_closed := True, bm_loops := take i (bm_loops b) @ drop (Suc i) (bm_loops b)\<rparr>)"

datatype monitor_action =
  StartCall | StopCall | StopDone | StopTimeout | CheckDone nat time check_outcome | Tick nat | StopSeen nat | Receive

inductive monitor_step :: "BaseMonitor \<Rightarrow> monitor_action \<Rightarrow> BaseMonitor \<Rightarrow> bool" where
  start: "monitor_step b StartCall (snd (Monitor_Start b))"
| signal: "monitor_step b StopCall (stop_signal b)"
| return: "0 < bm_stopping b \<Longrightarrow> bm_loops b = [] \<Longrightarrow> monitor_step b StopDone (stop_return b)"
| give_up: "0 < bm_stopping b \<Longrightarrow> monitor_step b StopTimeout (stop_return b)"
| check: "i < length (bm_loops b) \<Longrightarrow> bm_loops b ! i = Checking \<Longrightarrow>
    monitor_step b (CheckDone i now out) ((executeCheck now out b)\<lparr>bm_loops := (bm_loops b)[i := Waiting]\<rparr>)"
| tick: "i < length (bm_loops b) \<Longrightarrow> bm_loops b ! i \<noteq> Checking \<Longrightarrow> monitor_step b (Tick i) (b\<lparr>bm_loops := (bm_loops b)[i := Checking]\<rparr>)"
| seen: "i < length (bm_loops b) \<Longrightarrow> bm_loops b ! i = Waiting \<and> bm_signalled b \<or> bm_loops b ! i = Orphaned \<Longrightarrow> monitor_step b (StopSeen i) (leave_run i b)"
| receive: "bm_buffer b = s # rest \<Longrightarrow> monitor_step b Receive (b\<lparr>bm_buffer := rest\<rparr>)"

inductive monitor_run :: "BaseMonitor \<Rightarrow> monitor_action list \<Rightarrow> BaseMonitor \<Rightarrow> bool" where
  finished: "monitor_run b [] b"
| more: "\<not> bm_panicked b \<Longrightarrow> monitor_step b a b1 \<Longrightarrow> monitor_run b1 as b2 \<Longrightarrow> monitor_run b (a # as) b2"

text \<open>A run in which the calls of \<^verbatim>\<open>Stop\<close> that wait are one after the other and none gives up. A call that returns at once,
  because the monitor does not run, is no restriction.\<close>

inductive orderly_run :: "BaseMonitor \<Rightarrow> monitor_action list \<Rightarrow> BaseMonitor \<Rightarrow> bool" where
  ended: "orderly_run b [] b"
| step: "\<not> bm_panicked b \<Longrightarrow> monitor_step b a b1 \<Longrightarrow> a = StopCall \<longrightarrow> bm_stopping b = 0 \<Longrightarrow> a \<noteq> StopTimeout
    \<Longrightarrow> orderly_run b1 as b2 \<Longrightarrow> orderly_run b (a # as) b2"

section \<open>Lemmas\<close>

lemma orderly_is_run: "orderly_run b as b' \<Longrightarrow> monitor_run b as b'"
  by (induction rule: orderly_run.induct) (auto intro: monitor_run.intros)

definition monitor_ok :: "BaseMonitor \<Rightarrow> bool" where
  "monitor_ok b \<longleftrightarrow> \<not> bm_panicked b \<and> length (bm_buffer b) \<le> 10 \<and> length (bm_loops b) \<le> 1
     \<and> (bm_loops b \<noteq> [] \<longrightarrow> bm_running b \<and> \<not> bm_closed b \<and> Orphaned \<notin> set (bm_loops b))
     \<and> (bm_signalled b \<longrightarrow> bm_stopping b > 0 \<or> bm_stopped b)
     \<and> (bm_stopping b > 0 \<longrightarrow> bm_running b)
     \<and> (bm_stopped b \<longrightarrow> \<not> bm_running b \<and> bm_closed b) \<and> (bm_running b \<and> \<not> bm_signalled b \<longrightarrow> bm_loops b \<noteq> [])
     \<and> (\<not> bm_stopped b \<and> \<not> bm_running b \<longrightarrow> \<not> bm_closed b)
     \<and> (bm_running b \<and> bm_loops b = [] \<longrightarrow> bm_closed b)
     \<and> bm_stopping b \<le> 1"

lemma executeCheck_simps:
  "bm_closed b = False \<Longrightarrow> executeCheck now out b = (if length (bm_buffer b) < 10 then b\<lparr>bm_buffer := bm_buffer b @ [check_status now b out]\<rparr> else b)"
  by (simp add: executeCheck_def sendStatus_def)

lemma phase_update [simp]: "p \<noteq> Orphaned \<Longrightarrow> Orphaned \<notin> set ps \<Longrightarrow> Orphaned \<notin> set (ps[i := p])"
  using set_update_subset_insert [of ps i p] by auto

lemma one_loop: "length xs \<le> 1 \<Longrightarrow> i < length xs \<Longrightarrow> i = 0 \<and> xs = [xs ! 0]"
  by (cases xs) auto

lemma monitor_step_ok:
  assumes "monitor_step b a b'" "monitor_ok b" "a = StopCall \<longrightarrow> bm_stopping b = 0" "a \<noteq> StopTimeout"
  shows "monitor_ok b'"
  using assms
proof (induction rule: monitor_step.induct)
  case (start b)
  then show ?case by (auto simp: monitor_ok_def Monitor_Start_def Let_def)
next
  case (signal b)
  then show ?case by (auto simp: monitor_ok_def stop_signal_def)
next
  case (return b)
  then show ?case by (auto simp: monitor_ok_def stop_return_def)
next
  case (check i b now out)
  then have o: "bm_closed b = False" by (auto simp: monitor_ok_def)
  show ?case using check by (auto simp: monitor_ok_def executeCheck_simps [OF o] split: if_splits)
next
  case (tick i b)
  then show ?case by (auto simp: monitor_ok_def)
next
  case (seen i b)
  then have "i = 0 \<and> bm_loops b = [bm_loops b ! 0]" using one_loop [of "bm_loops b" i] by (simp add: monitor_ok_def)
  then show ?case using seen by (auto simp: monitor_ok_def leave_run_def)
next
  case (receive b s rest)
  then show ?case by (auto simp: monitor_ok_def)
qed simp

lemma orderly_run_ok: "orderly_run b as b' \<Longrightarrow> monitor_ok b \<Longrightarrow> monitor_ok b'"
  by (induction rule: orderly_run.induct) (auto intro: monitor_step_ok)

section \<open>Properties\<close>

text \<open>
  C34. The frame of the monitors does not panic under orderly calls. In every run of a new monitor, however often and in whatever order
  \<^verbatim>\<open>Start\<close> and \<^verbatim>\<open>Stop\<close> are called, as long as no call of \<^verbatim>\<open>Stop\<close> begins while another one still waits for the goroutine
  and none gives up after its thirty seconds (calls that find the monitor not running return at once and are free): no channel is
  closed twice and nothing is sent to a closed channel, at most one monitoring goroutine exists, a running monitor that
  was not told to stop has one, the status buffer never exceeds ten, and when a stop has returned the goroutine is gone and the
  status channel closed.\<close>

theorem orderly_monitor_does_not_panic:
  assumes "NewBaseMonitor name interval timeout = Inr b0" "orderly_run (b0\<lparr>bm_hasCheck := True\<rparr>) as b"
  shows "\<not> bm_panicked b \<and> length (bm_loops b) \<le> 1 \<and> length (bm_buffer b) \<le> 10
    \<and> (bm_running b \<and> \<not> bm_signalled b \<longrightarrow> bm_loops b \<noteq> []) \<and> (\<not> bm_running b \<longrightarrow> bm_loops b = [])
    \<and> (bm_stopped b \<longrightarrow> \<not> bm_running b \<and> bm_closed b)"
proof -
  have "monitor_ok (b0\<lparr>bm_hasCheck := True\<rparr>)"
    using assms(1) by (auto simp: NewBaseMonitor_def monitor_ok_def split: if_splits)
  from orderly_run_ok [OF assms(2) this] show ?thesis by (auto simp: monitor_ok_def)
qed

text \<open>
  Two ways to panic. A monitor that is told to stop twice at the same time closes its stop channel twice, although \<^verbatim>\<open>Stop\<close> is
  documented as safe to call multiple times. And when a check hangs for longer than the stop waits, the monitor may be restarted while
  the old goroutine is still alive; it takes over the new channels, and at the next stop the status channel is closed twice.\<close>

lemma monitor_panics_are_reachable:
  assumes "NewBaseMonitor name interval timeout = Inr b0"
  shows "(\<exists>b. monitor_run (b0\<lparr>bm_hasCheck := True\<rparr>) [StartCall, StopCall, StopCall] b \<and> bm_panicked b)
    \<and> (\<exists>b. monitor_run (b0\<lparr>bm_hasCheck := True\<rparr>)
        [StartCall, StopCall, StopTimeout, StartCall, CheckDone 0 now1 out1, CheckDone 1 now2 out2, StopCall, StopSeen 0, StopSeen 0] b
        \<and> bm_panicked b)"
proof -
  let ?m = "\<lambda>run st buf cl sig lp sp pn. \<lparr>bm_name = name, bm_interval = interval, bm_timeout = timeout, bm_hasCheck = True, bm_running = run,
    bm_stopped = st, bm_buffer = buf, bm_closed = cl, bm_signalled = sig, bm_loops = lp, bm_stopping = sp, bm_panicked = pn\<rparr>"
  have b0: "b0\<lparr>bm_hasCheck := True\<rparr> = ?m False False [] False False [] 0 False"
    using assms by (auto simp: NewBaseMonitor_def split: if_splits)
  have start: "monitor_step (?m False False [] False False [] 0 False) StartCall (?m True False [] False False [Checking] 0 False)"
    using monitor_step.start [of "?m False False [] False False [] 0 False"] by (simp add: Monitor_Start_def)
  have sig: "monitor_step (?m True False [] False False [Checking] 0 False) StopCall (?m True False [] False True [Checking] 1 False)"
    using monitor_step.signal [of "?m True False [] False False [Checking] 0 False"] by (simp add: stop_signal_def)
  have again: "monitor_step (?m True False [] False True [Checking] 1 False) StopCall (?m True False [] False True [Checking] 1 True)"
    using monitor_step.signal [of "?m True False [] False True [Checking] 1 False"] by (simp add: stop_signal_def)
  have "monitor_run (b0\<lparr>bm_hasCheck := True\<rparr>) [StartCall, StopCall, StopCall] (?m True False [] False True [Checking] 1 True)"
    unfolding b0 by (rule monitor_run.more [OF _ start monitor_run.more [OF _ sig monitor_run.more [OF _ again monitor_run.finished]]]) simp_all
  moreover
  have give: "monitor_step (?m True False [] False True [Checking] 1 False) StopTimeout (?m False True [] False True [Checking] 0 False)"
    using monitor_step.give_up [of "?m True False [] False True [Checking] 1 False"] by (simp add: stop_return_def)
  have restart: "monitor_step (?m False True [] False True [Checking] 0 False) StartCall (?m True False [] False False [Checking, Checking] 0 False)"
    using monitor_step.start [of "?m False True [] False True [Checking] 0 False"] by (simp add: Monitor_Start_def)
  obtain s1 where c1: "monitor_step (?m True False [] False False [Checking, Checking] 0 False) (CheckDone 0 now1 out1)
      (?m True False [s1] False False [Waiting, Checking] 0 False)"
    using monitor_step.check [of 0 "?m True False [] False False [Checking, Checking] 0 False" now1 out1] by (simp add: executeCheck_simps)
  obtain s2 where c2: "monitor_step (?m True False [s1] False False [Waiting, Checking] 0 False) (CheckDone 1 now2 out2)
      (?m True False [s1, s2] False False [Waiting, Waiting] 0 False)"
    using monitor_step.check [of 1 "?m True False [s1] False False [Waiting, Checking] 0 False" now2 out2] by (simp add: executeCheck_simps)
  have sig2: "monitor_step (?m True False [s1, s2] False False [Waiting, Waiting] 0 False) StopCall (?m True False [s1, s2] False True [Waiting, Waiting] 1 False)"
    using monitor_step.signal [of "?m True False [s1, s2] False False [Waiting, Waiting] 0 False"] by (simp add: stop_signal_def)
  have l1: "monitor_step (?m True False [s1, s2] False True [Waiting, Waiting] 1 False) (StopSeen 0) (?m True False [s1, s2] True True [Waiting] 1 False)"
    using monitor_step.seen [of 0 "?m True False [s1, s2] False True [Waiting, Waiting] 1 False"] by (simp add: leave_run_def)
  have l2: "monitor_step (?m True False [s1, s2] True True [Waiting] 1 False) (StopSeen 0) (?m True False [s1, s2] True True [Waiting] 1 True)"
    using monitor_step.seen [of 0 "?m True False [s1, s2] True True [Waiting] 1 False"] by (simp add: leave_run_def)
  have "monitor_run (b0\<lparr>bm_hasCheck := True\<rparr>)
        [StartCall, StopCall, StopTimeout, StartCall, CheckDone 0 now1 out1, CheckDone 1 now2 out2, StopCall, StopSeen 0, StopSeen 0]
        (?m True False [s1, s2] True True [Waiting] 1 True)"
    unfolding b0
    by (rule monitor_run.more [OF _ start monitor_run.more [OF _ sig monitor_run.more [OF _ give monitor_run.more [OF _ restart
      monitor_run.more [OF _ c1 monitor_run.more [OF _ c2 monitor_run.more [OF _ sig2 monitor_run.more [OF _ l1
      monitor_run.more [OF _ l2 monitor_run.finished]]]]]]]]]) simp_all
  ultimately show ?thesis by fastforce
qed

section \<open>Witnesses\<close>

definition demo_base :: BaseMonitor where
  "demo_base = \<lparr>bm_name = ''m'', bm_interval = 30, bm_timeout = 10, bm_hasCheck = False, bm_running = False, bm_stopped = False,
        bm_buffer = [], bm_closed = False, bm_signalled = False, bm_loops = [], bm_stopping = 0, bm_panicked = False\<rparr>"

lemma demo_base_new: "NewBaseMonitor ''m'' 30 10 = Inr demo_base"
  by (simp add: NewBaseMonitor_def demo_base_def)

text \<open>Stopped before it starts, started, stopped, and stopped twice more.\<close>

definition demo_calls :: "monitor_action list" where
  "demo_calls = [StopCall, StartCall, CheckDone 0 5 (CheckStatus None), StopCall, StopSeen 0, StopDone, StopCall, StopCall]"

lemma demo_calls_run:
  obtains b where "orderly_run (demo_base\<lparr>bm_hasCheck := True\<rparr>) demo_calls b" "bm_stopped b"
proof -
  let ?m = "\<lambda>run st buf cl sig lp sp. \<lparr>bm_name = ''m'', bm_interval = 30, bm_timeout = 10, bm_hasCheck = True, bm_running = run,
    bm_stopped = st, bm_buffer = buf, bm_closed = cl, bm_signalled = sig, bm_loops = lp, bm_stopping = sp, bm_panicked = False\<rparr>"
  let ?s = "createHealthyStatus 5 ''m''"
  have eqs: "demo_base\<lparr>bm_hasCheck := True\<rparr> = ?m False False [] False False [] 0"
    "stop_signal (?m False False [] False False [] 0) = ?m False False [] False False [] 0"
    "snd (Monitor_Start (?m False False [] False False [] 0)) = ?m True False [] False False [Checking] 0"
    "(executeCheck 5 (CheckStatus None) (?m True False [] False False [Checking] 0))\<lparr>bm_loops := [Waiting]\<rparr>
       = ?m True False [?s] False False [Waiting] 0"
    "stop_signal (?m True False [?s] False False [Waiting] 0) = ?m True False [?s] False True [Waiting] 1"
    "leave_run 0 (?m True False [?s] False True [Waiting] 1) = ?m True False [?s] True True [] 1"
    "stop_return (?m True False [?s] True True [] 1) = ?m False True [?s] True True [] 0"
    "stop_signal (?m False True [?s] True True [] 0) = ?m False True [?s] True True [] 0"
    by (simp_all add: demo_base_def stop_signal_def Monitor_Start_def executeCheck_def check_status_def sendStatus_def leave_run_def
        stop_return_def)
  have steps: "monitor_step (?m False False [] False False [] 0) StopCall (?m False False [] False False [] 0)"
    "monitor_step (?m False False [] False False [] 0) StartCall (?m True False [] False False [Checking] 0)"
    "monitor_step (?m True False [] False False [Checking] 0) (CheckDone 0 5 (CheckStatus None)) (?m True False [?s] False False [Waiting] 0)"
    "monitor_step (?m True False [?s] False False [Waiting] 0) StopCall (?m True False [?s] False True [Waiting] 1)"
    "monitor_step (?m True False [?s] False True [Waiting] 1) (StopSeen 0) (?m True False [?s] True True [] 1)"
    "monitor_step (?m True False [?s] True True [] 1) StopDone (?m False True [?s] True True [] 0)"
    "monitor_step (?m False True [?s] True True [] 0) StopCall (?m False True [?s] True True [] 0)"
    using monitor_step.signal [of "?m False False [] False False [] 0"] monitor_step.start [of "?m False False [] False False [] 0"]
      monitor_step.check [of 0 "?m True False [] False False [Checking] 0" 5 "CheckStatus None"]
      monitor_step.signal [of "?m True False [?s] False False [Waiting] 0"] monitor_step.seen [of 0 "?m True False [?s] False True [Waiting] 1"]
      monitor_step.return [of "?m True False [?s] True True [] 1"] monitor_step.signal [of "?m False True [?s] True True [] 0"]
    by (simp_all add: eqs del: One_nat_def)
  have "orderly_run (?m False False [] False False [] 0) demo_calls (?m False True [?s] True True [] 0)"
    unfolding demo_calls_def
    by (rule orderly_run.step [OF _ steps(1) _ _ orderly_run.step [OF _ steps(2) _ _ orderly_run.step [OF _ steps(3) _ _
      orderly_run.step [OF _ steps(4) _ _ orderly_run.step [OF _ steps(5) _ _ orderly_run.step [OF _ steps(6) _ _
      orderly_run.step [OF _ steps(7) _ _ orderly_run.step [OF _ steps(7) _ _ orderly_run.ended]]]]]]]]) simp_all
  then show ?thesis using that eqs(1) by simp
qed

theorem orderly_monitor_does_not_panic_witness:
  "\<exists>b. monitor_run (demo_base\<lparr>bm_hasCheck := True\<rparr>) demo_calls b \<and> \<not> bm_panicked b \<and> bm_stopped b \<and> bm_closed b"
proof -
  obtain b where b: "orderly_run (demo_base\<lparr>bm_hasCheck := True\<rparr>) demo_calls b" "bm_stopped b" by (rule demo_calls_run)
  from orderly_monitor_does_not_panic [OF demo_base_new b(1)] orderly_is_run [OF b(1)] b(2) show ?thesis by blast
qed

end
