(* ===== verification/Health_Server.thy ===== *)
theory Health_Server
  imports Types Reload_Validator "HOL-Library.List_Lexorder" "HOL-Library.Char_ord"
begin

text \<open>
  \<^verbatim>\<open>pkg/health/server.go\<close>: the server of the probes. Listeners are the environment: \<open>listen\<close> gives the error of a bind. A check is a function
  of the time at which it is called. A handler writes to a response writer, \<open>http_writer\<close>, as \<^verbatim>\<open>net/http\<close> has it: the first status sticks, and
  headers set after it are not sent. The text of a rounded duration is the parameter \<open>durText\<close>.
\<close>

section \<open>The server\<close>

record HealthConfig =
  hc_Enabled :: bool
  hc_BindAddress :: string
  hc_Port :: int
  hc_SocketPath :: string
  hc_ReadTimeout :: duration
  hc_WriteTimeout :: duration

record HealthCheck =
  hk_Name :: string
  hk_Check :: "time \<Rightarrow> string option"

record 'h HealthServer =
  hs_config :: HealthConfig
  hs_tcp :: bool
  hs_unix :: bool
  hs_started :: bool
  hs_healthy :: bool
  hs_ready :: bool
  hs_lastStatus :: "status option"
  hs_lastUpdate :: time
  hs_startTime :: time
  hs_healthChecks :: "HealthCheck list"
  hs_readinessChecks :: "HealthCheck list"
  hs_dependencies :: "(string, string) gomap"
  hs_dependencyFailures :: "(string, int) gomap"
  hs_history :: "(int \<Rightarrow> 'h list option) option"

record http_writer =
  hw_status :: "int option"
  hw_headers :: "(string, string) gomap"
  hw_sent :: "(string, string) gomap"

definition new_writer :: http_writer where
  "new_writer = \<lparr>hw_status = None, hw_headers = [], hw_sent = []\<rparr>"

definition WriteHeader :: "int \<Rightarrow> http_writer \<Rightarrow> http_writer" where
  "WriteHeader c w = (if hw_status w = None then w\<lparr>hw_status := Some c, hw_sent := hw_headers w\<rparr> else w)"

definition SetHeader :: "string \<Rightarrow> string \<Rightarrow> http_writer \<Rightarrow> http_writer" where
  "SetHeader k v w = w\<lparr>hw_headers := AList.update k v (hw_headers w)\<rparr>"

abbreviation set_json :: "http_writer \<Rightarrow> http_writer" where
  "set_json \<equiv> SetHeader ''Content-Type'' ''application/json''"

text \<open>\<open>parseIP\<close> is \<^verbatim>\<open>net.ParseIP\<close>: whether a literal is an IPv4 address, or \<open>None\<close> when it is no address.\<close>

definition isDualStackHost :: "(string \<Rightarrow> bool option) \<Rightarrow> string \<Rightarrow> bool" where
  "isDualStackHost parseIP host \<longleftrightarrow> host = [] \<or> host = ''::'' \<or> parseIP host = Some False"

definition JoinHostPort :: "string \<Rightarrow> string \<Rightarrow> string" where
  "JoinHostPort host port = (if CHR '':'' \<in> set host then ''['' @ host @ '']:'' @ port else host @ '':'' @ port)"

definition listenWithFallback :: "(string \<Rightarrow> bool option) \<Rightarrow> (string \<Rightarrow> string option) \<Rightarrow> string \<Rightarrow> int \<Rightarrow> string + string" where
  "listenWithFallback parseIP listen host port =
     (let addr = JoinHostPort host (show_int port); fallbackAddr = JoinHostPort ''0.0.0.0'' (show_int port) in
      case listen addr of None \<Rightarrow> Inr addr
      | Some err \<Rightarrow>
          if isDualStackHost parseIP host
          then (case listen fallbackAddr of None \<Rightarrow> Inr fallbackAddr
            | Some ferr \<Rightarrow> Inl (''bind failed on '' @ addr @ '' ('' @ err @ '') and IPv4 fallback '' @ fallbackAddr @ '' ('' @ ferr @ '')''))
          else Inl (''failed to bind '' @ addr @ '': '' @ err))"

definition Health_NewServer :: "time \<Rightarrow> HealthConfig option \<Rightarrow> string + 'h HealthServer" where
  "Health_NewServer now config =
     (case config of None \<Rightarrow> Inl ''config cannot be nil''
      | Some c \<Rightarrow> Inr \<lparr>hs_config = c\<lparr>hc_BindAddress := (if hc_BindAddress c = [] then ''::'' else hc_BindAddress c),
            hc_ReadTimeout := (if hc_ReadTimeout c = 0 then 5 * second else hc_ReadTimeout c),
            hc_WriteTimeout := (if hc_WriteTimeout c = 0 then 10 * second else hc_WriteTimeout c)\<rparr>,
          hs_tcp = False, hs_unix = False, hs_started = False, hs_healthy = True, hs_ready = False, hs_lastStatus = None, hs_lastUpdate = 0,
          hs_startTime = now, hs_healthChecks = [], hs_readinessChecks = [], hs_dependencies = [], hs_dependencyFailures = [], hs_history = None\<rparr>)"

text \<open>\<open>listenUnix\<close> gives the error of the socket: directory, stale file or bind.\<close>

definition Health_Start ::
  "(string \<Rightarrow> bool option) \<Rightarrow> (string \<Rightarrow> string option) \<Rightarrow> (string \<Rightarrow> string option) \<Rightarrow> 'h HealthServer \<Rightarrow> string option \<times> 'h HealthServer" where
  "Health_Start parseIP listen listenUnix s =
     (if hs_started s then (Some ''health server already started'', s)
      else
        let c = hs_config s;
            tcp = \<not> isl (listenWithFallback parseIP listen (hc_BindAddress c) (hc_Port c));
            unix = (hc_SocketPath c \<noteq> [] \<and> listenUnix (hc_SocketPath c) = None);
            s1 = s\<lparr>hs_tcp := hs_tcp s \<or> tcp, hs_unix := hs_unix s \<or> unix\<rparr>
        in if \<not> tcp \<and> \<not> unix
           then (Some (''health server failed to bind any listener (tcp port '' @ show_int (hc_Port c) @ '' and unix socket ''
                  @ go_quote (hc_SocketPath c) @ '' both failed)''), s1)
           else (None, s1\<lparr>hs_started := True\<rparr>))"

definition Health_Stop :: "string option \<Rightarrow> 'h HealthServer \<Rightarrow> string option \<times> 'h HealthServer" where
  "Health_Stop shutdown s =
     (if \<not> hs_started s then (None, s)
      else (map_option (\<lambda>e. ''failed to shutdown health server: '' @ e) shutdown, s\<lparr>hs_started := False\<rparr>))"

definition UpdateStatus_health :: "time \<Rightarrow> status option \<Rightarrow> 'h HealthServer \<Rightarrow> 'h HealthServer" where
  "UpdateStatus_health now st s = s\<lparr>hs_lastStatus := st, hs_lastUpdate := now, hs_ready := (st \<noteq> None)\<rparr>"

definition SetHealthy :: "bool \<Rightarrow> 'h HealthServer \<Rightarrow> 'h HealthServer" where
  "SetHealthy b s = s\<lparr>hs_healthy := b\<rparr>"

definition Health_SetReady :: "bool \<Rightarrow> 'h HealthServer \<Rightarrow> 'h HealthServer" where
  "Health_SetReady b s = s\<lparr>hs_ready := b\<rparr>"

definition AddHealthCheck :: "HealthCheck \<Rightarrow> 'h HealthServer \<Rightarrow> 'h HealthServer" where
  "AddHealthCheck h s = s\<lparr>hs_healthChecks := hs_healthChecks s @ [h]\<rparr>"

definition AddReadinessCheck :: "HealthCheck \<Rightarrow> 'h HealthServer \<Rightarrow> 'h HealthServer" where
  "AddReadinessCheck h s = s\<lparr>hs_readinessChecks := hs_readinessChecks s @ [h]\<rparr>"

definition dependencyFailureThreshold :: int where
  "dependencyFailureThreshold = 3"

definition SetDependencyStatus :: "string \<Rightarrow> string option \<Rightarrow> 'h HealthServer \<Rightarrow> 'h HealthServer" where
  "SetDependencyStatus name err s =
     (case err of None \<Rightarrow> s\<lparr>hs_dependencies := AList.delete name (hs_dependencies s),
          hs_dependencyFailures := AList.delete name (hs_dependencyFailures s)\<rparr>
      | Some e \<Rightarrow> (let n = gomap_get 0 (hs_dependencyFailures s) name + 1;
            s1 = s\<lparr>hs_dependencyFailures := AList.update name n (hs_dependencyFailures s)\<rparr>
          in if n \<ge> dependencyFailureThreshold then s1\<lparr>hs_dependencies := AList.update name e (hs_dependencies s1)\<rparr> else s1))"

definition failingDependencies :: "'h HealthServer \<Rightarrow> string list" where
  "failingDependencies s = sort (map fst (hs_dependencies s))"

definition SetRemediationHistory :: "(int \<Rightarrow> 'h list option) option \<Rightarrow> 'h HealthServer \<Rightarrow> 'h HealthServer" where
  "SetRemediationHistory p s = s\<lparr>hs_history := p\<rparr>"

section \<open>The handlers\<close>

record check_result =
  ck_Name :: string
  ck_Status :: string
  ck_Error :: string

record HealthResponse =
  hr_Status :: string
  hr_Timestamp :: time
  hr_Uptime :: string
  hr_Checks :: "check_result list"

record ReadinessResponse =
  rr_Ready :: bool
  rr_Timestamp :: time
  rr_Message :: string

record StatusResponse =
  sr_Healthy :: bool
  sr_Ready :: bool
  sr_Uptime :: string
  sr_LastUpdate :: time
  sr_MonitorStatus :: "status option"
  sr_Metadata :: "(string, string) gomap"

definition run_check :: "time \<Rightarrow> HealthCheck \<Rightarrow> check_result" where
  "run_check now h = (case hk_Check h now of None \<Rightarrow> \<lparr>ck_Name = hk_Name h, ck_Status = ''ok'', ck_Error = []\<rparr>
     | Some e \<Rightarrow> \<lparr>ck_Name = hk_Name h, ck_Status = ''failed'', ck_Error = e\<rparr>)"

definition handleHealthz :: "(duration \<Rightarrow> string) \<Rightarrow> time \<Rightarrow> 'h HealthServer \<Rightarrow> http_writer \<times> HealthResponse" where
  "handleHealthz durText now s =
     (let checks = map (run_check now) (hs_healthChecks s);
          allHealthy = (hs_healthy s \<and> list_all (\<lambda>h. hk_Check h now = None) (hs_healthChecks s));
          response = \<lparr>hr_Status = (if allHealthy then ''ok'' else ''unhealthy''), hr_Timestamp = now,
            hr_Uptime = durText (time_sub now (hs_startTime s)), hr_Checks = checks\<rparr>
      in (set_json (WriteHeader (if allHealthy then 200 else 503) new_writer), response))"

definition failed_checks :: "time \<Rightarrow> HealthCheck list \<Rightarrow> string list" where
  "failed_checks now hs = concat (map (\<lambda>h. case hk_Check h now of None \<Rightarrow> [] | Some e \<Rightarrow> [hk_Name h @ '': '' @ e]) hs)"

definition handleReady :: "time \<Rightarrow> 'h HealthServer \<Rightarrow> http_writer \<times> ReadinessResponse" where
  "handleReady now s =
     (let response =
        (if \<not> hs_ready s then \<lparr>rr_Ready = False, rr_Timestamp = now, rr_Message = ''Not ready: monitors not yet initialized''\<rparr>
         else if failingDependencies s \<noteq> [] then \<lparr>rr_Ready = False, rr_Timestamp = now,
           rr_Message = ''Not ready: downstream dependency failure: '' @ join '', '' (failingDependencies s)\<rparr>
         else if failed_checks now (hs_readinessChecks s) \<noteq> [] then \<lparr>rr_Ready = False, rr_Timestamp = now,
           rr_Message = ''Not ready: '' @ join ''; '' (failed_checks now (hs_readinessChecks s))\<rparr>
         else \<lparr>rr_Ready = True, rr_Timestamp = now, rr_Message = ''Ready''\<rparr>)
      in (set_json (WriteHeader (if rr_Ready response then 200 else 503) new_writer), response))"

text \<open>\<open>rfc3339\<close> is the format of a time in the metadata.\<close>

definition handleStatus :: "(duration \<Rightarrow> string) \<Rightarrow> (time \<Rightarrow> string) \<Rightarrow> time \<Rightarrow> 'h HealthServer \<Rightarrow> http_writer \<times> StatusResponse" where
  "handleStatus durText rfc3339 now s = (WriteHeader 200 (set_json new_writer),
     \<lparr>sr_Healthy = hs_healthy s, sr_Ready = hs_ready s, sr_Uptime = durText (time_sub now (hs_startTime s)),
      sr_LastUpdate = hs_lastUpdate s, sr_MonitorStatus = hs_lastStatus s,
      sr_Metadata = [(''version'', ''v0.1.0''), (''started_at'', rfc3339 (hs_startTime s))]\<rparr>)"

text \<open>The limit parameter of the history; the body is the count, the limit and the records.\<close>

definition history_limit :: "string \<Rightarrow> int" where
  "history_limit limitStr =
     (if limitStr = [] then 100
      else case Atoi limitStr of None \<Rightarrow> 100
      | Some l \<Rightarrow> if l > 1000 then 1000 else if l < 0 then 0 else l)"

definition handleRemediationHistory :: "string \<Rightarrow> 'h HealthServer \<Rightarrow> http_writer \<times> (int \<times> int \<times> 'h list option) option" where
  "handleRemediationHistory limitStr s =
     (case hs_history s of None \<Rightarrow> (WriteHeader 503 (set_json new_writer), None)
      | Some getHistory \<Rightarrow>
          (let limit = history_limit limitStr; history = getHistory limit
           in (WriteHeader 200 (set_json new_writer), Some (case history of None \<Rightarrow> 0 | Some h \<Rightarrow> int (length h), limit, history))))"

text \<open>The pointer to the status may be nil.\<close>

definition Health_ExportStatus :: "time \<Rightarrow> status option \<Rightarrow> 'h HealthServer \<Rightarrow> 'h HealthServer" where
  "Health_ExportStatus now st s = UpdateStatus_health now st s"

section \<open>Histories of calls\<close>

text \<open>What happens to a server apart from the explicit health flag and the liveness checks.\<close>

datatype downstream =
  Exported time "status option" | Dependency string "string option" | ReadyFlag bool | NewReadinessCheck HealthCheck

fun downstream_step :: "downstream \<Rightarrow> 'h HealthServer \<Rightarrow> 'h HealthServer" where
  "downstream_step (Exported now st) s = Health_ExportStatus now st s"
| "downstream_step (Dependency name err) s = SetDependencyStatus name err s"
| "downstream_step (ReadyFlag b) s = Health_SetReady b s"
| "downstream_step (NewReadinessCheck h) s = AddReadinessCheck h s"

text \<open>The reports on one dependency, and the errors at the end of them.\<close>

definition reports_on :: "string \<Rightarrow> downstream list \<Rightarrow> string option list" where
  "reports_on name ds = concat (map (\<lambda>d. case d of Dependency n err \<Rightarrow> if n = name then [err] else [] | _ \<Rightarrow> []) ds)"

definition last_failures :: "string option list \<Rightarrow> nat" where
  "last_failures rs = length (takeWhile (\<lambda>r. r \<noteq> None) (rev rs))"

section \<open>Lemmas\<close>

lemma reports_on_snoc: "reports_on name (ds @ [d]) = reports_on name ds @ reports_on name [d]"
  by (simp add: reports_on_def)

lemma reports_on_single [simp]:
  "reports_on name [Dependency n err] = (if n = name then [err] else [])" "reports_on name [Exported now st] = []"
  "reports_on name [ReadyFlag b] = []" "reports_on name [NewReadinessCheck h] = []"
  by (simp_all add: reports_on_def)

lemma last_failures_snoc: "last_failures (rs @ [r]) = (if r = None then 0 else Suc (last_failures rs))"
  by (simp add: last_failures_def)

lemma dependency_failures_count:
  assumes "hs_dependencies s = []" "hs_dependencyFailures s = []" "s' = fold downstream_step ds s"
  shows "gomap_get 0 (hs_dependencyFailures s') name = int (last_failures (reports_on name ds))
    \<and> (map_of (hs_dependencies s') name \<noteq> None \<longleftrightarrow> 3 \<le> last_failures (reports_on name ds))"
  using assms(3)
proof (induction ds arbitrary: s' rule: rev_induct)
  case Nil
  with assms(1,2) show ?case by (simp add: reports_on_def last_failures_def)
next
  case (snoc d ds)
  let ?s = "fold downstream_step ds s"
  have s': "s' = downstream_step d ?s" using snoc.prems by simp
  note IH = snoc.IH [OF refl]
  show ?case
  proof (cases d)
    case (Dependency n err)
    show ?thesis
    proof (cases err)
      case None
      with IH Dependency s' show ?thesis
        by (auto simp: SetDependencyStatus_def reports_on_snoc last_failures_snoc)
    next
      case (Some e)
      with IH Dependency s' show ?thesis
        by (auto simp: SetDependencyStatus_def reports_on_snoc last_failures_snoc dependencyFailureThreshold_def Let_def)
    qed
  qed (use IH s' in \<open>auto simp: reports_on_snoc Health_ExportStatus_def UpdateStatus_health_def Health_SetReady_def AddReadinessCheck_def\<close>)
qed

lemma downstream_liveness_frame:
  "hs_healthy (fold downstream_step ds s) = hs_healthy s \<and> hs_healthChecks (fold downstream_step ds s) = hs_healthChecks s
   \<and> hs_startTime (fold downstream_step ds s) = hs_startTime s"
proof (induction ds arbitrary: s)
  case (Cons d ds)
  have "hs_healthy (downstream_step d s) = hs_healthy s \<and> hs_healthChecks (downstream_step d s) = hs_healthChecks s
    \<and> hs_startTime (downstream_step d s) = hs_startTime s"
    by (cases d) (simp_all add: Health_ExportStatus_def UpdateStatus_health_def SetDependencyStatus_def Health_SetReady_def AddReadinessCheck_def
        Let_def split: option.split)
  with Cons show ?case by simp
qed simp

text \<open>The ready flag after the calls: the last export or explicit setting decides; the export of a nil status clears it.\<close>

definition ready_after :: "bool \<Rightarrow> downstream list \<Rightarrow> bool" where
  "ready_after b ds = fold (\<lambda>d b. case d of Exported _ st \<Rightarrow> st \<noteq> None | ReadyFlag x \<Rightarrow> x | _ \<Rightarrow> b) ds b"

definition readiness_checks_of :: "downstream list \<Rightarrow> HealthCheck list" where
  "readiness_checks_of ds = concat (map (\<lambda>d. case d of NewReadinessCheck h \<Rightarrow> [h] | _ \<Rightarrow> []) ds)"

lemma downstream_ready:
  "hs_ready (fold downstream_step ds s) = ready_after (hs_ready s) ds
   \<and> hs_readinessChecks (fold downstream_step ds s) = hs_readinessChecks s @ readiness_checks_of ds"
proof (induction ds arbitrary: s)
  case Nil
  then show ?case by (simp add: ready_after_def readiness_checks_of_def)
next
  case (Cons d ds)
  have "hs_ready (downstream_step d s) = ready_after (hs_ready s) [d]
    \<and> hs_readinessChecks (downstream_step d s) = hs_readinessChecks s @ readiness_checks_of [d]"
    by (cases d) (simp_all add: Health_ExportStatus_def UpdateStatus_health_def SetDependencyStatus_def Health_SetReady_def AddReadinessCheck_def
        ready_after_def readiness_checks_of_def Let_def split: option.split)
  with Cons [of "downstream_step d s"] show ?case by (simp add: ready_after_def readiness_checks_of_def)
qed

lemma failed_checks_Nil: "failed_checks now hs = [] \<longleftrightarrow> (\<forall>h\<in>set hs. hk_Check h now = None)"
  by (auto simp: failed_checks_def split: option.splits)

section \<open>Properties\<close>

text \<open>
  C33. Downstream failures never fail the liveness probe and decide readiness exactly. After any sequence of exports, reports on
  dependencies, settings of the ready flag and registrations of readiness checks, the answer of \<^verbatim>\<open>/healthz\<close> is what it was before; and
  \<^verbatim>\<open>/ready\<close> answers 200 exactly when the last export or setting left the ready flag set, which an export does unless its status is nil, for no dependency the last
  three reports or more were all errors, and every readiness check passes; otherwise it answers 503.\<close>

theorem probes_split_liveness_and_readiness:
  assumes "Health_NewServer t config = Inr s" "s' = fold downstream_step ds s"
  shows "handleHealthz durText now s' = handleHealthz durText now s
    \<and> hw_status (fst (handleReady now s')) = Some (if ready_after False ds
       \<and> (\<forall>name. last_failures (reports_on name ds) < 3) \<and> (\<forall>h\<in>set (readiness_checks_of ds). hk_Check h now = None) then 200 else 503)"
proof -
  have s: "hs_dependencies s = []" "hs_dependencyFailures s = []" "hs_ready s = False" "hs_readinessChecks s = []"
    using assms(1) by (auto simp: Health_NewServer_def split: option.splits)
  have live: "handleHealthz durText now s' = handleHealthz durText now s"
    using downstream_liveness_frame [of ds s] assms(2) by (simp add: handleHealthz_def Let_def)
  have "failingDependencies s' = [] \<longleftrightarrow> (\<forall>name. map_of (hs_dependencies s') name = None)"
    by (cases "hs_dependencies s'") (auto simp: failingDependencies_def)
  also have "\<dots> \<longleftrightarrow> (\<forall>name. last_failures (reports_on name ds) < 3)"
    using dependency_failures_count [OF s(1,2) assms(2)] by (metis not_le)
  finally show ?thesis
    using downstream_ready [of ds s] assms(2) s(3,4) live
    by (auto simp: handleReady_def Let_def WriteHeader_def SetHeader_def new_writer_def failed_checks_Nil)
qed

section \<open>Witnesses\<close>

definition demo_health :: HealthConfig where
  "demo_health = \<lparr>hc_Enabled = True, hc_BindAddress = [], hc_Port = 8080, hc_SocketPath = [], hc_ReadTimeout = 0, hc_WriteTimeout = 0\<rparr>"

theorem probes_split_liveness_and_readiness_witness:
  "\<exists>s :: unit HealthServer. Health_NewServer 1 (Some demo_health) = Inr s
     \<and> hw_status (fst (handleReady 9 (fold downstream_step (Exported 2 (Some (NewStatus 2 ''m''))
          # replicate 3 (Dependency ''http'' (Some ''refused''))) s))) = Some 503"
proof -
  obtain s :: "unit HealthServer" where s: "Health_NewServer 1 (Some demo_health) = Inr s" by (simp add: Health_NewServer_def)
  let ?ds = "Exported 2 (Some (NewStatus 2 ''m'')) # replicate 3 (Dependency ''http'' (Some ''refused''))"
  have "last_failures (reports_on ''http'' ?ds) = 3" by (simp add: reports_on_def last_failures_def numeral_3_eq_3)
  then have "\<not> (\<forall>name. last_failures (reports_on name ?ds) < 3)" by (metis less_irrefl)
  with probes_split_liveness_and_readiness [OF s refl, of _ 9 ?ds] s show ?thesis by auto
qed

end
