(* ===== verification/Remediators_Host.thy ===== *)
theory Remediators_Host
  imports Base_Remediator Paths
begin

text \<open>
  \<^verbatim>\<open>pkg/remediators/systemd.go\<close>, \<^verbatim>\<open>network.go\<close> and \<^verbatim>\<open>custom.go\<close>: the remediators that act on the host. What they do to it
  is a list of \<open>host_call\<close>s, commands and scripts, in the order they are made; the answers of the host are functions of the calls made
  so far (\<open>host_env\<close>). A loop that polls until its context is done takes \<open>he_ticks\<close> ticks; a context whose timeout is not positive is done
  before the first one. Log lines are left out. Texts are ASCII.
\<close>

section \<open>The host\<close>

datatype host_call = Command "string list" | Script string "string list" "(string, string) gomap" string

datatype stat_answer = NotExist | StatError string | StatFile bool bool string

datatype script_answer = ScriptOk | ScriptExit int string | ScriptNotRun string

record host_env =
  he_run :: "host_call list \<Rightarrow> string list \<Rightarrow> string \<times> string option"
  he_comm :: "host_call list \<Rightarrow> string option"
  he_selfNS :: "host_call list \<Rightarrow> string option"
  he_hostNS :: "host_call list \<Rightarrow> string option"
  he_nsenter :: "host_call list \<Rightarrow> bool"
  he_ticks :: "host_call list \<Rightarrow> nat"
  he_stat :: "host_call list \<Rightarrow> string \<Rightarrow> stat_answer"
  he_script :: "host_call list \<Rightarrow> host_call \<Rightarrow> bool \<times> script_answer"
  he_durText :: "duration \<Rightarrow> string"
  he_timeText :: "time \<Rightarrow> string"

definition is_space :: "char \<Rightarrow> bool" where
  "is_space c \<longleftrightarrow> (of_char c :: nat) \<in> {9, 10, 11, 12, 13, 32}"

definition TrimSpace :: "string \<Rightarrow> string" where
  "TrimSpace s = rev (dropWhile is_space (rev (dropWhile is_space s)))"

definition ToUpper :: "string \<Rightarrow> string" where
  "ToUpper s = map (\<lambda>c. if 97 \<le> (of_char c :: nat) \<and> (of_char c :: nat) \<le> 122 then char_of ((of_char c :: nat) - 32) else c) s"

definition metadata :: "problem \<Rightarrow> string \<Rightarrow> string" where
  "metadata p k = (case pr_Metadata p of None \<Rightarrow> [] | Some m \<Rightarrow> gomap_get [] m k)"

text \<open>One command: its trimmed output and error, and the calls including it.\<close>

definition run_command :: "host_env \<Rightarrow> string list \<Rightarrow> host_call list \<Rightarrow> (string \<times> string option) \<times> host_call list" where
  "run_command v argv h = (case he_run v h argv of (out, err) \<Rightarrow> ((TrimSpace out, err), h @ [Command argv]))"

section \<open>systemd.go\<close>

record SystemdConfig =
  sdc_Operation :: string
  sdc_ServiceName :: string
  sdc_VerifyStatus :: bool
  sdc_VerifyTimeout :: duration
  sdc_DryRun :: bool

definition isChrootNoop :: "string \<Rightarrow> bool" where
  "isChrootNoop out = contains_str out ''Running in chroot, ignoring''"

definition hostNamespaceProbe :: "host_env \<Rightarrow> host_call list \<Rightarrow> bool" where
  "hostNamespaceProbe v h =
     (case he_comm v h of None \<Rightarrow> False
      | Some comm \<Rightarrow>
          if TrimSpace comm \<noteq> ''systemd'' then False
          else (case (he_selfNS v h, he_hostNS v h) of
                  (Some selfNS, Some hostNS) \<Rightarrow> selfNS \<noteq> hostNS \<and> he_nsenter v h
                | _ \<Rightarrow> False))"

definition nsenterSystemctlArgs :: "string list \<Rightarrow> string list" where
  "nsenterSystemctlArgs args =
     [''--target'', ''1'', ''--mount'', ''--uts'', ''--ipc'', ''--net'', ''--pid'', ''--'', ''systemctl''] @ args"

definition systemctl_argv :: "host_env \<Rightarrow> string list \<Rightarrow> host_call list \<Rightarrow> string list" where
  "systemctl_argv v args h = (if hostNamespaceProbe v h then ''nsenter'' # nsenterSystemctlArgs args else ''systemctl'' # args)"

definition ExecuteSystemctl :: "host_env \<Rightarrow> string list \<Rightarrow> host_call list \<Rightarrow> (string \<times> string option) \<times> host_call list" where
  "ExecuteSystemctl v args h =
     (case run_command v (systemctl_argv v args h) h of ((out, err), h1) \<Rightarrow>
        ((out, if isChrootNoop out
               then Some (''systemctl cannot reach the host systemd (chroot), command ignored: '' @ out) else err), h1))"

definition IsActive :: "host_env \<Rightarrow> string \<Rightarrow> host_call list \<Rightarrow> (string + bool) \<times> host_call list" where
  "IsActive v serviceName h =
     (case ExecuteSystemctl v [''is-active'', serviceName] h of ((out, err), h1) \<Rightarrow>
        ((case err of
            None \<Rightarrow> Inr (out = ''active'')
          | Some e \<Rightarrow>
              if out = ''inactive'' \<or> out = ''failed'' then Inr False
              else if out = ''activating'' \<or> out = ''deactivating'' \<or> out = ''reloading''
              then Inl (''service in transitional state: '' @ out)
              else Inl (''systemctl is-active failed: '' @ e @ '' (status: '' @ out @ '')'')), h1))"

text \<open>The default of the timeout is set on a copy of the configuration, which is dropped.\<close>

definition validateSystemdConfig :: "SystemdConfig \<Rightarrow> string option \<times> SystemdConfig" where
  "validateSystemdConfig config =
     (if sdc_Operation config \<notin> {''restart'', ''stop'', ''start'', ''reload''}
      then (Some (''invalid operation: '' @ sdc_Operation config @ '' (must be restart, stop, start, or reload)''), config)
      else (None, if sdc_VerifyStatus config \<and> sdc_VerifyTimeout config = 0
                  then config\<lparr>sdc_VerifyTimeout := 30 * second\<rparr> else config))"

text \<open>The base remediator holds the configuration of the function it calls.\<close>

definition with_func :: "'f \<Rightarrow> rem_error + 'f BaseRemediator \<Rightarrow> string + 'f BaseRemediator" where
  "with_func f base =
     (case base of Inl _ \<Rightarrow> Inl ''failed to create base remediator''
      | Inr b \<Rightarrow> (case SetRemediateFunc (Some f) b of Inl _ \<Rightarrow> Inl ''failed to set remediate function'' | Inr b1 \<Rightarrow> Inr b1))"

definition NewSystemdRemediator :: "SystemdConfig \<Rightarrow> string + SystemdConfig BaseRemediator" where
  "NewSystemdRemediator config =
     (case validateSystemdConfig config of
        (Some err, _) \<Rightarrow> Inl (''invalid systemd config: '' @ err)
      | (None, _) \<Rightarrow>
          let serviceLabel = (if sdc_ServiceName config = [] then ''dynamic'' else sdc_ServiceName config)
          in with_func config (NewBaseRemediator (''systemd-'' @ sdc_Operation config @ ''-'' @ serviceLabel) CooldownMedium))"

definition requireEnabled :: "problem \<Rightarrow> bool" where
  "requireEnabled p \<longleftrightarrow> metadata p ''requireEnabled'' = ''true''"

definition checkEnabled :: "host_env \<Rightarrow> SystemdConfig \<Rightarrow> string \<Rightarrow> host_call list \<Rightarrow> string option \<times> host_call list" where
  "checkEnabled v config serviceName h =
     (case ExecuteSystemctl v [''is-enabled'', serviceName] h of ((out, err), h1) \<Rightarrow>
        ((if TrimSpace out = ''enabled'' \<and> err = None then None
          else case err of
            Some e \<Rightarrow> if out = [] then Some (''refusing to '' @ sdc_Operation config @ '' '' @ serviceName
                  @ '': cannot determine whether it is enabled: '' @ e)
                else Some (''refusing to '' @ sdc_Operation config @ '' '' @ serviceName @ '': systemctl is-enabled reports '' @ go_quote out
                  @ '', not '' @ go_quote ''enabled'')
          | None \<Rightarrow> Some (''refusing to '' @ sdc_Operation config @ '' '' @ serviceName @ '': systemctl is-enabled reports '' @ go_quote out
                  @ '', not '' @ go_quote ''enabled'')), h1))"

definition resolveServiceName :: "SystemdConfig \<Rightarrow> problem \<Rightarrow> string" where
  "resolveServiceName config p = (if metadata p ''service'' \<noteq> [] then metadata p ''service'' else sdc_ServiceName config)"

text \<open>Restart, stop, start and reload differ in their verb only.\<close>

definition systemctl_verb :: "host_env \<Rightarrow> string \<Rightarrow> string \<Rightarrow> host_call list \<Rightarrow> string option \<times> host_call list" where
  "systemctl_verb v verb serviceName h =
     (case ExecuteSystemctl v [verb, serviceName] h of ((out, err), h1) \<Rightarrow>
        (map_option (\<lambda>e. ''systemctl '' @ verb @ '' failed: '' @ e @ '' (output: '' @ out @ '')'') err, h1))"

definition Systemd_executeOperation :: "host_env \<Rightarrow> SystemdConfig \<Rightarrow> string \<Rightarrow> host_call list \<Rightarrow> string option \<times> host_call list" where
  "Systemd_executeOperation v config serviceName h =
     (if sdc_Operation config \<in> {''restart'', ''stop'', ''start'', ''reload''} then systemctl_verb v (sdc_Operation config) serviceName h
      else (Some (''unknown operation: '' @ sdc_Operation config), h))"

text \<open>A polling loop of \<open>n\<close> ticks; an error of the poll counts as not yet.\<close>

fun poll :: "(host_call list \<Rightarrow> (string + bool) \<times> host_call list) \<Rightarrow> nat \<Rightarrow> host_call list \<Rightarrow> bool \<times> host_call list" where
  "poll probe 0 h = (False, h)"
| "poll probe (Suc n) h = (case probe h of (r, h1) \<Rightarrow> if r = Inr True then (True, h1) else poll probe n h1)"

definition poll_until :: "host_env \<Rightarrow> duration \<Rightarrow> (host_call list \<Rightarrow> (string + bool) \<times> host_call list) \<Rightarrow> host_call list \<Rightarrow> bool \<times> host_call list" where
  "poll_until v timeout probe h = poll probe (if timeout \<le> 0 then 0 else he_ticks v h) h"

definition verifyServiceStatus :: "host_env \<Rightarrow> SystemdConfig \<Rightarrow> string \<Rightarrow> host_call list \<Rightarrow> string option \<times> host_call list" where
  "verifyServiceStatus v config serviceName h =
     (case poll_until v (sdc_VerifyTimeout config) (IsActive v serviceName) h of
        (True, h1) \<Rightarrow> (None, h1)
      | (False, h1) \<Rightarrow> (Some (''timeout waiting for service to become active after '' @ he_durText v (sdc_VerifyTimeout config)), h1))"

definition systemd_act :: "host_env \<Rightarrow> SystemdConfig \<Rightarrow> string \<Rightarrow> host_call list \<Rightarrow> string option \<times> host_call list" where
  "systemd_act v config serviceName h =
     (case IsActive v serviceName h of (_, h1) \<Rightarrow>
        (case Systemd_executeOperation v config serviceName h1 of
           (Some err, h2) \<Rightarrow> (Some (''failed to execute '' @ sdc_Operation config @ '' on '' @ serviceName @ '': '' @ err), h2)
         | (None, h2) \<Rightarrow>
             if sdc_VerifyStatus config then
               (case verifyServiceStatus v config serviceName h2 of
                  (Some err, h3) \<Rightarrow> (Some (''service verification failed after '' @ sdc_Operation config @ '': '' @ err), h3)
                | (None, h3) \<Rightarrow> (None, h3))
             else (None, h2)))"

definition systemd_remediate :: "host_env \<Rightarrow> SystemdConfig \<Rightarrow> problem \<Rightarrow> host_call list \<Rightarrow> string option \<times> host_call list" where
  "systemd_remediate v config p h =
     (let serviceName = resolveServiceName config p in
      if serviceName = [] then (Some (''no systemd service specified (neither problem metadata '' @ go_quote ''service''
          @ '' nor config.ServiceName set)''), h)
      else case (if requireEnabled p then checkEnabled v config serviceName h else (None, h)) of
          (Some err, h1) \<Rightarrow> (Some err, h1)
        | (None, h1) \<Rightarrow> if sdc_DryRun config then (None, h1) else systemd_act v config serviceName h1)"

section \<open>network.go\<close>

record NetworkConfig =
  nwc_Operation :: string
  nwc_InterfaceName :: string
  nwc_BackupRouting :: bool
  nwc_AllowMetadataInterface :: bool
  nwc_VerifyAfter :: bool
  nwc_VerifyTimeout :: duration
  nwc_DryRun :: bool

definition InterfaceExists :: "host_env \<Rightarrow> string \<Rightarrow> host_call list \<Rightarrow> (string + bool) \<times> host_call list" where
  "InterfaceExists v iface h =
     (case run_command v [''ip'', ''link'', ''show'', iface] h of ((out, err), h1) \<Rightarrow>
        ((case err of None \<Rightarrow> Inr True
          | Some e \<Rightarrow> if contains_str out ''does not exist'' \<or> contains_str out ''Device not found'' then Inr False
              else Inl (''failed to check interface: '' @ e @ '' (output: '' @ out @ '')'')), h1))"

definition GetRoutingTable :: "host_env \<Rightarrow> host_call list \<Rightarrow> (string \<times> string option) \<times> host_call list" where
  "GetRoutingTable v h = run_command v [''ip'', ''route'', ''show''] h"

definition IsInterfaceUp :: "host_env \<Rightarrow> string \<Rightarrow> host_call list \<Rightarrow> (string + bool) \<times> host_call list" where
  "IsInterfaceUp v iface h =
     (case run_command v [''ip'', ''link'', ''show'', iface] h of ((out, err), h1) \<Rightarrow>
        ((case err of None \<Rightarrow> Inr (contains_str out ''state UP'') | Some e \<Rightarrow> Inl (''failed to check interface status: '' @ e)), h1))"

definition network_operations :: "string list" where
  "network_operations = [''flush-dns'', ''restart-interface'', ''reset-routing'', ''flush-ipv6-route'']"

definition validateNetworkConfig :: "NetworkConfig \<Rightarrow> string option \<times> NetworkConfig" where
  "validateNetworkConfig config =
     (if nwc_Operation config \<notin> set network_operations
      then (Some (''invalid operation: '' @ nwc_Operation config
             @ '' (must be flush-dns, restart-interface, reset-routing, or flush-ipv6-route)''), config)
      else if nwc_Operation config = ''restart-interface'' \<and> nwc_InterfaceName config = [] \<and> \<not> nwc_AllowMetadataInterface config
      then (Some ''interface name is required for restart-interface operation'', config)
      else (None, if nwc_VerifyAfter config \<and> nwc_VerifyTimeout config = 0
                  then config\<lparr>nwc_VerifyTimeout := 10 * second\<rparr> else config))"

definition NewNetworkRemediator :: "NetworkConfig \<Rightarrow> string + NetworkConfig BaseRemediator" where
  "NewNetworkRemediator config =
     (case validateNetworkConfig config of
        (Some err, _) \<Rightarrow> Inl (''invalid network config: '' @ err)
      | (None, _) \<Rightarrow> with_func config (NewBaseRemediator (''network-'' @ nwc_Operation config)
          (if nwc_Operation config = ''reset-routing'' then CooldownMedium else CooldownFast)))"

definition resolveInterfaceName :: "NetworkConfig \<Rightarrow> problem \<Rightarrow> string" where
  "resolveInterfaceName config p = (if metadata p ''interface'' \<noteq> [] then metadata p ''interface'' else nwc_InterfaceName config)"

definition flushDNS :: "host_env \<Rightarrow> host_call list \<Rightarrow> string option \<times> host_call list" where
  "flushDNS v h =
     (case run_command v [''resolvectl'', ''flush-caches''] h of
        ((_, None), h1) \<Rightarrow> (None, h1)
      | ((_, Some _), h1) \<Rightarrow>
          (case run_command v [''systemd-resolve'', ''--flush-caches''] h1 of
             ((_, None), h2) \<Rightarrow> (None, h2)
           | ((out, Some e), h2) \<Rightarrow>
               (Some (''failed to flush DNS cache (tried resolvectl and systemd-resolve): '' @ e @ '' (output: '' @ out @ '')''), h2)))"

definition restartInterface :: "host_env \<Rightarrow> string \<Rightarrow> host_call list \<Rightarrow> string option \<times> host_call list" where
  "restartInterface v iface h =
     (case InterfaceExists v iface h of
        (Inl e, h1) \<Rightarrow> (Some (''failed to verify interface exists: '' @ e), h1)
      | (Inr False, h1) \<Rightarrow> (Some (''interface '' @ iface @ '' does not exist''), h1)
      | (Inr True, h1) \<Rightarrow>
          (case run_command v [''ip'', ''link'', ''set'', iface, ''down''] h1 of
             ((out, Some e), h2) \<Rightarrow> (Some (''failed to bring interface down: '' @ e @ '' (output: '' @ out @ '')''), h2)
           | ((_, None), h2) \<Rightarrow>
               (case run_command v [''ip'', ''link'', ''set'', iface, ''up''] h2 of
                  ((out, Some e), h3) \<Rightarrow> (Some (''failed to bring interface up: '' @ e @ '' (output: '' @ out @ '')''), h3)
                | ((_, None), h3) \<Rightarrow> (None, h3))))"

definition resetRouting :: "host_env \<Rightarrow> NetworkConfig \<Rightarrow> host_call list \<Rightarrow> string option \<times> host_call list" where
  "resetRouting v config h =
     (let h1 = (if nwc_BackupRouting config then snd (GetRoutingTable v h) else h)
      in (None, snd (run_command v [''ip'', ''route'', ''flush'', ''cache''] h1)))"

definition flushIPv6RouteCache :: "host_env \<Rightarrow> NetworkConfig \<Rightarrow> host_call list \<Rightarrow> string option \<times> host_call list" where
  "flushIPv6RouteCache v config h =
     (let h1 = (if nwc_BackupRouting config then snd (run_command v [''ip'', ''-6'', ''route'', ''show''] h) else h)
      in case run_command v [''ip'', ''-6'', ''route'', ''flush'', ''cache''] h1 of
           ((out, Some e), h2) \<Rightarrow> (Some (''failed to flush IPv6 route cache: '' @ e @ '' (output: '' @ out @ '')''), h2)
         | ((_, None), h2) \<Rightarrow> (None, h2))"

definition Network_executeOperation :: "host_env \<Rightarrow> NetworkConfig \<Rightarrow> string \<Rightarrow> host_call list \<Rightarrow> string option \<times> host_call list" where
  "Network_executeOperation v config iface h =
     (if nwc_Operation config = ''flush-dns'' then flushDNS v h
      else if nwc_Operation config = ''restart-interface'' then restartInterface v iface h
      else if nwc_Operation config = ''reset-routing'' then resetRouting v config h
      else if nwc_Operation config = ''flush-ipv6-route'' then flushIPv6RouteCache v config h
      else (Some (''unknown operation: '' @ nwc_Operation config), h))"

definition verifyInterfaceUp :: "host_env \<Rightarrow> NetworkConfig \<Rightarrow> string \<Rightarrow> host_call list \<Rightarrow> string option \<times> host_call list" where
  "verifyInterfaceUp v config iface h =
     (case poll_until v (nwc_VerifyTimeout config) (IsInterfaceUp v iface) h of
        (True, h1) \<Rightarrow> (None, h1)
      | (False, h1) \<Rightarrow> (Some (''timeout waiting for interface '' @ iface @ '' to come up after '' @ he_durText v (nwc_VerifyTimeout config)), h1))"

text \<open>A command under a context that is done is not started.\<close>

definition verifyRoutingTable :: "host_env \<Rightarrow> NetworkConfig \<Rightarrow> host_call list \<Rightarrow> string option \<times> host_call list" where
  "verifyRoutingTable v config h =
     (if nwc_VerifyTimeout config \<le> 0 then (Some ''routing table verification failed: context deadline exceeded'', h)
      else case GetRoutingTable v h of ((_, err), h1) \<Rightarrow> (map_option (\<lambda>e. ''routing table verification failed: '' @ e) err, h1))"

definition verifyOperation :: "host_env \<Rightarrow> NetworkConfig \<Rightarrow> string \<Rightarrow> host_call list \<Rightarrow> string option \<times> host_call list" where
  "verifyOperation v config iface h =
     (if nwc_Operation config = ''flush-dns'' then (None, h)
      else if nwc_Operation config = ''restart-interface'' then verifyInterfaceUp v config iface h
      else if nwc_Operation config = ''reset-routing'' then verifyRoutingTable v config h
      else if nwc_Operation config = ''flush-ipv6-route'' then (None, h)
      else (Some (''unknown operation for verification: '' @ nwc_Operation config), h))"

definition network_remediate :: "host_env \<Rightarrow> NetworkConfig \<Rightarrow> problem \<Rightarrow> host_call list \<Rightarrow> string option \<times> host_call list" where
  "network_remediate v config p h =
     (let iface = resolveInterfaceName config p in
      if nwc_DryRun config then (None, h)
      else if nwc_Operation config = ''restart-interface'' \<and> iface = []
      then (Some (''no network interface specified for restart-interface (neither problem metadata '' @ go_quote ''interface''
          @ '' nor config.InterfaceName set)''), h)
      else case Network_executeOperation v config iface h of
          (Some err, h1) \<Rightarrow> (Some (''failed to execute '' @ nwc_Operation config @ '': '' @ err), h1)
        | (None, h1) \<Rightarrow>
            if nwc_VerifyAfter config then
              (case verifyOperation v config iface h1 of
                 (Some err, h2) \<Rightarrow> (Some (''operation verification failed: '' @ err), h2)
               | (None, h2) \<Rightarrow> (None, h2))
            else (None, h1))"

section \<open>Lemmas\<close>

text \<open>Every call only extends the list of calls.\<close>

lemma run_command_calls: "run_command v argv h = (r, h1) \<Longrightarrow> h1 = h @ [Command argv] \<and> r = (TrimSpace (fst (he_run v h argv)), snd (he_run v h argv))"
  by (auto simp: run_command_def split: prod.splits)

lemma ExecuteSystemctl_calls: "ExecuteSystemctl v args h = (r, h1) \<Longrightarrow> h1 = h @ [Command (systemctl_argv v args h)]"
  by (auto simp: ExecuteSystemctl_def dest: run_command_calls split: prod.splits)

lemma IsActive_calls: "IsActive v svc h = (r, h1) \<Longrightarrow> h1 = h @ [Command (systemctl_argv v [''is-active'', svc] h)]"
  by (auto simp: IsActive_def dest: ExecuteSystemctl_calls split: prod.splits)

text \<open>A command of systemctl that the host's systemd carried out: no error, and not the notice of a chroot.\<close>

definition carried_out :: "host_env \<Rightarrow> string list \<Rightarrow> host_call list \<Rightarrow> bool" where
  "carried_out v args h \<longleftrightarrow> snd (he_run v h (systemctl_argv v args h)) = None
     \<and> \<not> isChrootNoop (TrimSpace (fst (he_run v h (systemctl_argv v args h))))"

lemma ExecuteSystemctl_ok: "ExecuteSystemctl v args h = ((out, None), h1) \<Longrightarrow>
    carried_out v args h \<and> out = TrimSpace (fst (he_run v h (systemctl_argv v args h)))"
  by (auto simp: ExecuteSystemctl_def carried_out_def dest!: run_command_calls split: prod.splits if_splits)

lemma systemctl_verb_ok: "systemctl_verb v verb svc h = (None, h1) \<Longrightarrow>
    carried_out v [verb, svc] h \<and> h1 = h @ [Command (systemctl_argv v [verb, svc] h)]"
  by (auto simp: systemctl_verb_def dest: ExecuteSystemctl_ok ExecuteSystemctl_calls split: prod.splits)

lemma IsActive_true: "IsActive v svc h = (Inr True, h1) \<Longrightarrow>
    carried_out v [''is-active'', svc] h \<and> TrimSpace (fst (he_run v h (systemctl_argv v [''is-active'', svc] h))) = ''active''"
  by (auto simp: IsActive_def dest!: ExecuteSystemctl_ok split: prod.splits option.splits if_splits)

text \<open>\<open>makes P h h1\<close>: the calls made between \<open>h\<close> and \<open>h1\<close> all satisfy \<open>P\<close>.\<close>

definition makes :: "('c \<Rightarrow> bool) \<Rightarrow> 'c list \<Rightarrow> 'c list \<Rightarrow> bool" where
  "makes P h h1 \<longleftrightarrow> (\<exists>cs. h1 = h @ cs \<and> (\<forall>c\<in>set cs. P c))"

lemma makes_refl [simp]: "makes P h h"
  by (simp add: makes_def)

lemma makes_one [simp]: "makes P h (h @ [c]) \<longleftrightarrow> P c"
  by (auto simp: makes_def)

lemma makes_trans [trans]: "makes P h h1 \<Longrightarrow> makes P h1 h2 \<Longrightarrow> makes P h h2"
  by (fastforce simp: makes_def)

lemma makes_mono: "makes P h h1 \<Longrightarrow> (\<And>c. P c \<Longrightarrow> Q c) \<Longrightarrow> makes Q h h1"
  by (auto simp: makes_def)

lemma makes_poll:
  assumes "poll probe n h = (r, h1)" "\<And>h r h'. probe h = (r, h') \<Longrightarrow> makes P h h'"
  shows "makes P h h1 \<and> (r \<longrightarrow> (\<exists>h2. makes P h h2 \<and> probe h2 = (Inr True, h1)))"
  using assms(1)
proof (induction n arbitrary: h)
  case (Suc n)
  obtain x h' where p: "probe h = (x, h')" by fastforce
  note m = assms(2) [OF p]
  show ?case
  proof (cases "x = Inr True")
    case True
    with Suc.prems p m show ?thesis by (auto intro: makes_refl)
  next
    case False
    with Suc.prems p have "poll probe n h' = (r, h1)" by simp
    from Suc.IH [OF this] m show ?thesis by (blast intro: makes_trans)
  qed
qed simp

subsection \<open>systemd\<close>

text \<open>The two ways to call systemctl, and the calls that only ask.\<close>

definition systemctl_call :: "string list \<Rightarrow> host_call \<Rightarrow> bool" where
  "systemctl_call args c \<longleftrightarrow> c = Command (''systemctl'' # args) \<or> c = Command (''nsenter'' # nsenterSystemctlArgs args)"

definition systemd_query :: "string \<Rightarrow> host_call \<Rightarrow> bool" where
  "systemd_query svc c \<longleftrightarrow> systemctl_call [''is-active'', svc] c \<or> systemctl_call [''is-enabled'', svc] c"

lemma systemctl_argv_call: "systemctl_call args (Command (systemctl_argv v args h))"
  by (simp add: systemctl_call_def systemctl_argv_def)

lemma IsActive_makes: "IsActive v svc h = (r, h1) \<Longrightarrow> makes (systemd_query svc) h h1"
  by (drule IsActive_calls) (simp add: systemd_query_def systemctl_argv_call)

lemma checkEnabled_makes: "checkEnabled v config svc h = (r, h1) \<Longrightarrow> makes (systemd_query svc) h h1"
  by (auto simp: checkEnabled_def systemd_query_def systemctl_argv_call dest!: ExecuteSystemctl_calls split: prod.splits)

lemma checkEnabled_ok: "checkEnabled v config svc h = (None, h1) \<Longrightarrow>
    carried_out v [''is-enabled'', svc] h \<and> TrimSpace (TrimSpace (fst (he_run v h (systemctl_argv v [''is-enabled'', svc] h)))) = ''enabled''"
  by (auto simp: checkEnabled_def dest!: ExecuteSystemctl_ok split: prod.splits option.splits if_splits)

lemma verifyServiceStatus_makes:
  assumes "verifyServiceStatus v config svc h = (r, h1)"
  shows "makes (systemd_query svc) h h1 \<and> (r = None \<longrightarrow> 0 < sdc_VerifyTimeout config
    \<and> (\<exists>h2. makes (systemd_query svc) h h2 \<and> IsActive v svc h2 = (Inr True, h1)))"
proof -
  obtain b where "poll_until v (sdc_VerifyTimeout config) (IsActive v svc) h = (b, h1)" "r = None \<longleftrightarrow> b"
    using assms by (auto simp: verifyServiceStatus_def split: prod.splits bool.splits)
  then show ?thesis
    using makes_poll [of "IsActive v svc" _ h b h1 "systemd_query svc"] IsActive_makes [of v svc]
    by (fastforce simp: poll_until_def split: if_splits)
qed

lemma NewSystemdRemediator_operation: "NewSystemdRemediator config = Inr b \<Longrightarrow> sdc_Operation config \<in> {''restart'', ''stop'', ''start'', ''reload''}"
  by (auto simp: NewSystemdRemediator_def validateSystemdConfig_def split: if_splits)

text \<open>What a call that acts and returns no error has done.\<close>

lemma systemd_act_ok:
  assumes "systemd_act v config svc h = (None, h')" "sdc_Operation config \<in> {''restart'', ''stop'', ''start'', ''reload''}"
  shows "\<exists>h1 h2. makes (systemd_query svc) h h1 \<and> carried_out v [sdc_Operation config, svc] h1
     \<and> h2 = h1 @ [Command (systemctl_argv v [sdc_Operation config, svc] h1)] \<and> makes (systemd_query svc) h2 h'
     \<and> (sdc_VerifyStatus config \<longrightarrow> (\<exists>h3. makes (systemd_query svc) h2 h3 \<and> IsActive v svc h3 = (Inr True, h')))"
proof -
  obtain x h1 where x: "IsActive v svc h = (x, h1)" by fastforce
  obtain h2 where op: "systemctl_verb v (sdc_Operation config) svc h1 = (None, h2)"
    and rest: "if sdc_VerifyStatus config then verifyServiceStatus v config svc h2 = (None, h') else h' = h2"
    using assms x by (auto simp: systemd_act_def Systemd_executeOperation_def split: prod.splits option.splits if_splits)
  from rest have "makes (systemd_query svc) h2 h' \<and> (sdc_VerifyStatus config \<longrightarrow>
      (\<exists>h3. makes (systemd_query svc) h2 h3 \<and> IsActive v svc h3 = (Inr True, h')))"
    using verifyServiceStatus_makes [of v config svc h2 None h'] by (auto split: if_splits)
  with systemctl_verb_ok [OF op] IsActive_makes [OF x] show ?thesis by blast
qed

subsection \<open>network\<close>

lemma run_command_makes: "run_command v argv h = (r, h1) \<Longrightarrow> P (Command argv) \<Longrightarrow> makes P h h1"
  by (drule run_command_calls) simp

lemma verifyInterfaceUp_makes:
  assumes "verifyInterfaceUp v config iface h = (r, h1)"
  shows "(r = None \<longrightarrow> 0 < nwc_VerifyTimeout config
    \<and> (\<exists>h2. makes (\<lambda>c. c = Command [''ip'', ''link'', ''show'', iface]) h h2 \<and> IsInterfaceUp v iface h2 = (Inr True, h1)))"
proof -
  have m: "makes (\<lambda>c. c = Command [''ip'', ''link'', ''show'', iface]) h h'" if "IsInterfaceUp v iface h = (r, h')" for h r h'
    using that by (auto simp: IsInterfaceUp_def intro: run_command_makes split: prod.splits)
  obtain b where "poll_until v (nwc_VerifyTimeout config) (IsInterfaceUp v iface) h = (b, h1)" "r = None \<longleftrightarrow> b"
    using assms by (auto simp: verifyInterfaceUp_def split: prod.splits bool.splits)
  then show ?thesis
    using makes_poll [of "IsInterfaceUp v iface" _ h b h1, OF _ m] by (fastforce simp: poll_until_def split: if_splits)
qed

section \<open>Properties\<close>

text \<open>
  C11. A systemd remediation that reports success was carried out. When a call that is not a dry run returns no error, the service
  is the one of the problem's metadata, or else the configured one, and is not empty; the configured operation was
  run on it exactly once, without an error and without systemctl's notice that it ignored the command; every other
  call only asked for the state; when the problem requires an enabled service, systemctl had said that it is; and when the
  status is to be verified, the last call said that the service is active.\<close>

theorem systemd_success_is_real:
  assumes "NewSystemdRemediator config = Inr b" "\<not> sdc_DryRun config" "systemd_remediate v config p h = (None, h')"
    "svc = resolveServiceName config p" "op = sdc_Operation config"
  shows "svc \<noteq> [] \<and> (\<exists>h1 h2. makes (systemd_query svc) h h1 \<and> carried_out v [op, svc] h1
     \<and> h2 = h1 @ [Command (systemctl_argv v [op, svc] h1)] \<and> makes (systemd_query svc) h2 h'
     \<and> (sdc_VerifyStatus config \<longrightarrow> (\<exists>h3. makes (systemd_query svc) h2 h3 \<and> IsActive v svc h3 = (Inr True, h'))))
     \<and> (requireEnabled p \<longrightarrow> carried_out v [''is-enabled'', svc] h
        \<and> TrimSpace (TrimSpace (fst (he_run v h (systemctl_argv v [''is-enabled'', svc] h)))) = ''enabled'')"
proof -
  obtain h0 where h0: "(if requireEnabled p then checkEnabled v config svc h else (None, h)) = (None, h0)"
    and act: "systemd_act v config svc h0 = (None, h')" and svc: "svc \<noteq> []"
    using assms(2-4) by (auto simp: systemd_remediate_def Let_def split: prod.splits option.splits if_splits)
  have m: "makes (systemd_query svc) h h0" using h0 checkEnabled_makes by (auto split: if_splits)
  have "requireEnabled p \<longrightarrow> carried_out v [''is-enabled'', svc] h
      \<and> TrimSpace (TrimSpace (fst (he_run v h (systemctl_argv v [''is-enabled'', svc] h)))) = ''enabled''"
    using h0 checkEnabled_ok by (auto split: if_splits)
  with systemd_act_ok [OF act NewSystemdRemediator_operation [OF assms(1)]] m svc assms(5)
  show ?thesis by (blast intro: makes_trans)
qed

text \<open>
  Without a verification timeout no verification ever succeeds. The documented defaults of thirty and ten seconds are set on a copy
  of the configuration, so a remediator that is to verify its work and has no timeout reports a
  failure on every call that is not a dry run: the service is restarted, the interface is bounced, and the
  remediation counts as failed.\<close>

lemma unset_verify_timeout_always_fails:
  assumes "NewSystemdRemediator config = Inr b" "sdc_VerifyStatus config" "sdc_VerifyTimeout config = 0" "\<not> sdc_DryRun config"
    "NewNetworkRemediator nconfig = Inr nb" "nwc_VerifyAfter nconfig" "nwc_VerifyTimeout nconfig = 0" "\<not> nwc_DryRun nconfig"
    "nwc_Operation nconfig \<in> {''restart-interface'', ''reset-routing''}"
  shows "fst (systemd_remediate v config p h) \<noteq> None \<and> fst (network_remediate v nconfig p h) \<noteq> None"
proof
  show "fst (systemd_remediate v config p h) \<noteq> None"
  proof
    assume "fst (systemd_remediate v config p h) = None"
    then obtain h' where "systemd_remediate v config p h = (None, h')" by (metis prod.collapse)
    then obtain h0 where act: "systemd_act v config (resolveServiceName config p) h0 = (None, h')"
      using assms(4) by (auto simp: systemd_remediate_def Let_def split: prod.splits option.splits if_splits)
    then obtain h2 where "verifyServiceStatus v config (resolveServiceName config p) h2 = (None, h')"
      using assms(2) by (auto simp: systemd_act_def split: prod.splits option.splits)
    with verifyServiceStatus_makes assms(3) show False by fastforce
  qed
  have "verifyOperation v nconfig iface h1 = (r, h2) \<Longrightarrow> r \<noteq> None" for iface h1 r h2
    using assms(7,9) verifyInterfaceUp_makes [of v nconfig iface h1 r h2]
    by (auto simp: verifyOperation_def verifyRoutingTable_def)
  then show "fst (network_remediate v nconfig p h) \<noteq> None"
    using assms(6,8) by (force simp: network_remediate_def Let_def split: prod.splits option.splits if_splits)
qed

section \<open>Witnesses\<close>

definition demo_host :: host_env where
  "demo_host = \<lparr>he_run = (\<lambda>h argv. (if ''is-enabled'' \<in> set argv then ''enabled'' else ''active'', None)),
     he_comm = (\<lambda>_. Some ''systemd''), he_selfNS = (\<lambda>_. Some ''mnt:[1]''), he_hostNS = (\<lambda>_. Some ''mnt:[2]''), he_nsenter = (\<lambda>_. True),
     he_ticks = (\<lambda>_. 3), he_stat = (\<lambda>_ _. StatFile True True ''-rwxr-xr-x''), he_script = (\<lambda>_ _. (False, ScriptOk)),
     he_durText = (\<lambda>_. ''0s''), he_timeText = (\<lambda>_. ''2024-01-01T00:00:00Z'')\<rparr>"

definition demo_systemd :: SystemdConfig where
  "demo_systemd = \<lparr>sdc_Operation = ''restart'', sdc_ServiceName = [], sdc_VerifyStatus = True, sdc_VerifyTimeout = second, sdc_DryRun = False\<rparr>"

definition demo_kubelet_problem :: problem where
  "demo_kubelet_problem = \<lparr>pr_Type = ''systemd-restart'', pr_Resource = ''KubeletReady'', pr_Severity = ProblemWarning, pr_Message = [],
     pr_DetectedAt = 0, pr_Metadata = Some [(''service'', ''kubelet''), (''requireEnabled'', ''true'')]\<rparr>"

lemma demo_systemd_new: "\<exists>b. NewSystemdRemediator demo_systemd = Inr b"
  by (simp add: NewSystemdRemediator_def validateSystemdConfig_def demo_systemd_def with_func_def NewBaseRemediator_def SetRemediateFunc_def CooldownMedium_def)

theorem systemd_success_is_real_witness:
  "\<exists>h' h1. systemd_remediate demo_host demo_systemd demo_kubelet_problem [] = (None, h')
     \<and> carried_out demo_host [''restart'', ''kubelet''] h1 \<and> set h1 \<subseteq> set h'"
proof -
  obtain b where b: "NewSystemdRemediator demo_systemd = Inr b" using demo_systemd_new by blast
  have run: "\<exists>h'. systemd_remediate demo_host demo_systemd demo_kubelet_problem [] = (None, h')"
    by (simp add: systemd_remediate_def resolveServiceName_def metadata_def demo_kubelet_problem_def gomap_get_def requireEnabled_def
        checkEnabled_def ExecuteSystemctl_def run_command_def systemctl_argv_def hostNamespaceProbe_def nsenterSystemctlArgs_def demo_host_def
        demo_systemd_def TrimSpace_def is_space_def isChrootNoop_def has_prefix_def systemd_act_def IsActive_def Systemd_executeOperation_def
        systemctl_verb_def verifyServiceStatus_def poll_until_def numeral_3_eq_3 Let_def)
  then obtain h' where run: "systemd_remediate demo_host demo_systemd demo_kubelet_problem [] = (None, h')" by blast
  have svc: "resolveServiceName demo_systemd demo_kubelet_problem = ''kubelet''" "sdc_Operation demo_systemd = ''restart''" "\<not> sdc_DryRun demo_systemd"
    by (simp_all add: resolveServiceName_def metadata_def demo_kubelet_problem_def gomap_get_def demo_systemd_def)
  from systemd_success_is_real [OF b svc(3) run svc(1) [symmetric] svc(2) [symmetric]] run show ?thesis
    by (fastforce simp: makes_def)
qed

definition demo_bounce :: NetworkConfig where
  "demo_bounce = \<lparr>nwc_Operation = ''restart-interface'', nwc_InterfaceName = ''eth0'', nwc_BackupRouting = False, nwc_AllowMetadataInterface = False,
     nwc_VerifyAfter = True, nwc_VerifyTimeout = 0, nwc_DryRun = False\<rparr>"

lemma unset_verify_timeout_always_fails_example:
  "fst (systemd_remediate demo_host (demo_systemd\<lparr>sdc_VerifyTimeout := 0\<rparr>) demo_kubelet_problem []) \<noteq> None
   \<and> fst (network_remediate demo_host demo_bounce demo_kubelet_problem []) \<noteq> None"
proof -
  have s: "\<exists>b. NewSystemdRemediator (demo_systemd\<lparr>sdc_VerifyTimeout := 0\<rparr>) = Inr b"
    by (simp add: NewSystemdRemediator_def validateSystemdConfig_def demo_systemd_def with_func_def NewBaseRemediator_def SetRemediateFunc_def CooldownMedium_def)
  have n: "\<exists>b. NewNetworkRemediator demo_bounce = Inr b"
    by (simp add: NewNetworkRemediator_def validateNetworkConfig_def demo_bounce_def with_func_def NewBaseRemediator_def SetRemediateFunc_def
        CooldownFast_def network_operations_def)
  from s n show ?thesis
    by (elim exE, intro unset_verify_timeout_always_fails) (simp_all add: demo_systemd_def demo_bounce_def)
qed

end
