(* ===== verification/Remediator_Custom.thy ===== *)
theory Remediator_Custom
  imports Remediators_Host Detector
begin

text \<open>
  \<^verbatim>\<open>pkg/remediators/custom.go\<close>: the remediator that runs a script of the operator, with the decoding of its arguments from the problem's
  metadata (\<^verbatim>\<open>json.Unmarshal\<close> into a list of strings), and its composition with the detector, which encodes them.
\<close>

section \<open>Lists of strings from JSON\<close>

definition json_space :: "string \<Rightarrow> string" where
  "json_space s = dropWhile (\<lambda>c. (of_char c :: nat) \<in> {9, 10, 13, 32}) s"

definition hex_val :: "char \<Rightarrow> nat option" where
  "hex_val c = (let n = (of_char c :: nat) in
     if 48 \<le> n \<and> n \<le> 57 then Some (n - 48) else if 97 \<le> n \<and> n \<le> 102 then Some (n - 87)
     else if 65 \<le> n \<and> n \<le> 70 then Some (n - 55) else None)"

definition hex4 :: "string \<Rightarrow> nat option" where
  "hex4 s = (case s of
     a # b # c # d # _ \<Rightarrow> if None \<in> {hex_val a, hex_val b, hex_val c, hex_val d} then None
       else Some (the (hex_val a) * 4096 + the (hex_val b) * 256 + the (hex_val c) * 16 + the (hex_val d))
   | _ \<Rightarrow> None)"

definition utf8 :: "nat \<Rightarrow> string" where
  "utf8 n = (if n < 128 then [char_of n]
     else if n < 2048 then [char_of (192 + n div 64), char_of (128 + n mod 64)]
     else if n < 65536 then [char_of (224 + n div 4096), char_of (128 + n div 64 mod 64), char_of (128 + n mod 64)]
     else [char_of (240 + n div 262144), char_of (128 + n div 4096 mod 64), char_of (128 + n div 64 mod 64), char_of (128 + n mod 64)])"

text \<open>A code unit after \<^verbatim>\<open>\u\<close>: two surrogates make one character, a single one becomes the replacement character.\<close>

definition json_unit :: "string \<Rightarrow> (string \<times> string) option" where
  "json_unit s =
     (case hex4 s of None \<Rightarrow> None
      | Some u \<Rightarrow>
          let rest = drop 4 s in
          if u < 55296 \<or> 57343 < u then Some (utf8 u, rest)
          else case rest of
              b # c # rest2 \<Rightarrow>
                (case (if b = CHR 0x5C \<and> c = CHR ''u'' then hex4 rest2 else None) of
                   Some w \<Rightarrow> if u < 56320 \<and> 56320 \<le> w \<and> w \<le> 57343
                     then Some (utf8 (65536 + (u - 55296) * 1024 + (w - 56320)), drop 4 rest2) else Some (utf8 65533, rest)
                 | None \<Rightarrow> Some (utf8 65533, rest))
            | _ \<Rightarrow> Some (utf8 65533, rest))"

definition json_escape :: "string \<Rightarrow> (string \<times> string) option" where
  "json_escape s =
     (case s of [] \<Rightarrow> None
      | e # rest \<Rightarrow>
          if e = CHR 0x22 \<or> e = CHR 0x5C \<or> e = CHR ''/'' then Some ([e], rest)
          else if e = CHR ''b'' then Some ([CHR 0x08], rest) else if e = CHR ''f'' then Some ([CHR 0x0C], rest)
          else if e = CHR ''n'' then Some ([CHR 0x0A], rest) else if e = CHR ''r'' then Some ([CHR 0x0D], rest)
          else if e = CHR ''t'' then Some ([CHR 0x09], rest)
          else if e = CHR ''u'' then json_unit rest
          else None)"

lemma drop_shorter: "drop n s = t \<Longrightarrow> length t \<le> length s"
  by auto

lemma json_unit_shorter: "json_unit s = Some (t, r) \<Longrightarrow> length r \<le> length s"
  by (auto simp: json_unit_def Let_def dest!: drop_shorter split: option.splits if_splits list.splits)

lemma json_escape_shorter: "json_escape s = Some (t, r) \<Longrightarrow> length r \<le> length s"
  by (auto simp: json_escape_def dest: json_unit_shorter split: list.splits if_splits)

text \<open>The rest of a string literal after its opening quote: what it denotes and what follows it.\<close>

function json_body :: "string \<Rightarrow> (string \<times> string) option" where
  "json_body [] = None"
| "json_body (c # s) =
     (if c = CHR 0x22 then Some ([], s)
      else if (of_char c :: nat) < 32 then None
      else if c \<noteq> CHR 0x5C then map_option (\<lambda>(t, r). (c # t, r)) (json_body s)
      else case json_escape s of None \<Rightarrow> None
        | Some (x, r) \<Rightarrow> map_option (\<lambda>(t, r1). (x @ t, r1)) (json_body r))"
  by pat_completeness auto

termination
  by (relation "measure length") (auto dest: json_escape_shorter)

lemma json_body_shorter: "json_body s = Some (t, r) \<Longrightarrow> length r < length s"
proof (induction s arbitrary: t r rule: json_body.induct)
  case (2 c s)
  show ?case
  proof (cases "c = CHR 0x22 \<or> (of_char c :: nat) < 32")
    case True
    then show ?thesis using "2.prems" by (auto split: if_splits)
  next
    case False
    show ?thesis
    proof (cases "c = CHR 0x5C")
      case True
      then obtain x r0 t0 where "json_escape s = Some (x, r0)" "json_body r0 = Some (t0, r)"
        using False "2.prems" by (auto split: option.splits)
      with "2.IH"(2) [of "(x, r0)" x r0 t0 r] False True show ?thesis by (auto dest: json_escape_shorter)
    next
      case no: False
      with False "2.prems" obtain t0 where "json_body s = Some (t0, r)" by auto
      with "2.IH"(1) False no show ?thesis by fastforce
    qed
  qed
qed simp

text \<open>One element: a string, or \<^verbatim>\<open>null\<close>, which leaves the empty string.\<close>

definition json_elem :: "string \<Rightarrow> (string \<times> string) option" where
  "json_elem s = (if has_prefix s ''null'' then Some ([], drop 4 s)
     else case s of c # r \<Rightarrow> if c = CHR 0x22 then json_body r else None | [] \<Rightarrow> None)"

lemma json_elem_shorter: "json_elem s = Some (t, r) \<Longrightarrow> length r < length s"
  by (cases s) (auto simp: json_elem_def has_prefix_def dest: json_body_shorter split: if_splits)

lemma json_space_shorter: "length (json_space s) \<le> length s"
  by (simp add: json_space_def length_dropWhile_le)

text \<open>The elements from the first one to the closing bracket.\<close>

function json_elems :: "string \<Rightarrow> (string list \<times> string) option" where
  "json_elems s =
     (case json_elem (json_space s) of None \<Rightarrow> None
      | Some (t, r) \<Rightarrow>
          (case json_space r of [] \<Rightarrow> None
           | c # r1 \<Rightarrow> if c = CHR '']'' then Some ([t], r1)
               else if c = CHR '','' then map_option (\<lambda>(ts, r2). (t # ts, r2)) (json_elems r1)
               else None))"
  by pat_completeness auto

termination
proof (relation "measure length")
  fix s and p :: "string \<times> string" and t r c r1
  assume a: "json_elem (json_space s) = Some p" "(t, r) = p" "json_space r = c # r1"
  then have "length r < length s" using json_elem_shorter [of "json_space s" t r] json_space_shorter [of s] by simp
  moreover have "length (c # r1) \<le> length r" using json_space_shorter [of r] a(3) by simp
  ultimately show "(r1, s) \<in> measure length" by simp
qed simp

definition unmarshal_strings :: "string \<Rightarrow> string list option" where
  "unmarshal_strings s =
     (let s1 = json_space s in
      if has_prefix s1 ''null'' then (if json_space (drop 4 s1) = [] then Some [] else None)
      else case s1 of
          c # r \<Rightarrow>
            if c \<noteq> CHR ''['' then None
            else (case json_space r of
                d # r1 \<Rightarrow>
                  if d = CHR '']'' then (if json_space r1 = [] then Some [] else None)
                  else (case json_elems r of None \<Rightarrow> None | Some (ts, r2) \<Rightarrow> if json_space r2 = [] then Some ts else None)
              | [] \<Rightarrow> None)
        | [] \<Rightarrow> None)"

section \<open>custom.go\<close>

record CustomConfig =
  cuc_ScriptPath :: string
  cuc_ScriptArgs :: "string list"
  cuc_Timeout :: duration
  cuc_Environment :: "(string, string) gomap"
  cuc_CaptureOutput :: bool
  cuc_AllowNonZeroExit :: bool
  cuc_WorkingDir :: string
  cuc_DryRun :: bool

definition CheckScriptSafety :: "host_env \<Rightarrow> string \<Rightarrow> host_call list \<Rightarrow> string option" where
  "CheckScriptSafety v scriptPath h =
     (case he_stat v h scriptPath of
        NotExist \<Rightarrow> Some (''script does not exist: '' @ scriptPath)
      | StatError e \<Rightarrow> Some (''failed to stat script: '' @ e)
      | StatFile regular executable mode \<Rightarrow>
          if \<not> regular then Some (''script is not a regular file: '' @ scriptPath)
          else if \<not> executable then Some (''script is not executable: '' @ scriptPath @ '' (mode: '' @ mode @ '')'')
          else None)"

definition Custom_validateScriptPath :: "string \<Rightarrow> string option" where
  "Custom_validateScriptPath scriptPath =
     (if scriptPath = [] then Some ''script path is required''
      else if \<not> IsAbs scriptPath then Some (''script path must be absolute: '' @ go_quote scriptPath)
      else if ''..'' \<in> set (elements scriptPath) then Some (''script path must not contain '' @ [CHR 0x27] @ ''..'' @ [CHR 0x27] @ '': '' @ go_quote scriptPath)
      else None)"

definition validateCustomConfig :: "CustomConfig \<Rightarrow> string + CustomConfig" where
  "validateCustomConfig config =
     (case (if cuc_ScriptPath config \<noteq> [] then Custom_validateScriptPath (cuc_ScriptPath config) else None) of
        Some err \<Rightarrow> Inl err
      | None \<Rightarrow>
          let c1 = (if cuc_Timeout config = 0 then config\<lparr>cuc_Timeout := 5 * minute\<rparr> else config)
          in if cuc_Timeout c1 < second then Inl ''timeout must be at least 1 second''
             else if cuc_Timeout c1 > 30 * minute then Inl ''timeout must not exceed 30 minutes''
             else Inr (if cuc_WorkingDir c1 = [] \<and> cuc_ScriptPath c1 \<noteq> []
                       then c1\<lparr>cuc_WorkingDir := Dir (cuc_ScriptPath c1)\<rparr> else c1))"

definition NewCustomRemediator :: "CustomConfig \<Rightarrow> string + CustomConfig BaseRemediator" where
  "NewCustomRemediator config =
     (case validateCustomConfig config of
        Inl err \<Rightarrow> Inl (''invalid custom config: '' @ err)
      | Inr c \<Rightarrow> with_func c (NewBaseRemediator
          (''custom-'' @ (if cuc_ScriptPath c \<noteq> [] then Base (cuc_ScriptPath c) else ''dynamic'')) CooldownMedium))"

definition resolveScript :: "CustomConfig \<Rightarrow> problem \<Rightarrow> string + string \<times> string list \<times> string" where
  "resolveScript config p =
     (let metaPath = metadata p ''scriptPath'' in
      if metaPath \<noteq> [] then
        (case Custom_validateScriptPath metaPath of
           Some verr \<Rightarrow> Inl (''invalid script path from problem metadata: '' @ verr)
         | None \<Rightarrow>
             let scriptPath = Clean metaPath;
                 workingDir = (if cuc_WorkingDir config = [] then Dir scriptPath else cuc_WorkingDir config);
                 raw = metadata p ''args''
             in if raw \<noteq> [] then
                  (case unmarshal_strings raw of
                     None \<Rightarrow> Inl ''invalid args from problem metadata (expected JSON array)''
                   | Some parsed \<Rightarrow> Inr (scriptPath, parsed, workingDir))
                else Inr (scriptPath, cuc_ScriptArgs config, workingDir))
      else if cuc_ScriptPath config = []
      then Inl (''no script path specified (neither problem metadata '' @ go_quote ''scriptPath'' @ '' nor config.ScriptPath set)'')
      else Inr (cuc_ScriptPath config, cuc_ScriptArgs config, cuc_WorkingDir config))"

definition prepareProblemEnvironment :: "host_env \<Rightarrow> problem \<Rightarrow> (string, string) gomap" where
  "prepareProblemEnvironment v p =
     fold (\<lambda>(k, x) env. AList.update (''PROBLEM_META_'' @ ToUpper (map (\<lambda>c. if c = CHR ''-'' then CHR ''_'' else c) k)) x env)
       (case pr_Metadata p of None \<Rightarrow> [] | Some m \<Rightarrow> m)
       [(''PROBLEM_TYPE'', pr_Type p), (''PROBLEM_RESOURCE'', pr_Resource p), (''PROBLEM_MESSAGE'', pr_Message p),
        (''PROBLEM_SEVERITY'', pr_Severity p), (''PROBLEM_DETECTED_AT'', he_timeText v (pr_DetectedAt p))]"

definition custom_remediate :: "host_env \<Rightarrow> CustomConfig \<Rightarrow> problem \<Rightarrow> host_call list \<Rightarrow> string option \<times> host_call list" where
  "custom_remediate v config p h =
     (case resolveScript config p of
        Inl err \<Rightarrow> (Some err, h)
      | Inr (scriptPath, scriptArgs, workingDir) \<Rightarrow>
          (case CheckScriptSafety v scriptPath h of
             Some err \<Rightarrow> (Some (''script safety check failed: '' @ err), h)
           | None \<Rightarrow>
               if cuc_DryRun config then (None, h)
               else
                 let env = fold (\<lambda>(k, x) e. AList.update k x e) (cuc_Environment config) (prepareProblemEnvironment v p);
                     call = Script scriptPath scriptArgs env workingDir
                 in case he_script v h call of
                      (timedOut, answer) \<Rightarrow>
                        (if timedOut then Some (''script execution timed out after '' @ he_durText v (cuc_Timeout config))
                         else case answer of
                             ScriptOk \<Rightarrow> None
                           | ScriptExit code e \<Rightarrow>
                               if cuc_AllowNonZeroExit config \<and> code > 0 then None
                               else Some (''script execution failed (exit code '' @ show_int code @ ''): '' @ e)
                           | ScriptNotRun e \<Rightarrow> Some (''script execution failed (exit code -1): '' @ e), h @ [call])))"

section \<open>Lemmas\<close>

lemma hex_val_digit: "n < 16 \<Longrightarrow> hex_val (hex_digit n) = Some n"
  by (cases "n < 10") (simp_all add: hex_val_def hex_digit_def)

lemma hex4_byte: "hex4 (CHR ''0'' # CHR ''0'' # hex_byte c @ r) = Some (of_char c)"
proof -
  have d: "(of_char c :: nat) div 16 < 16" "(of_char c :: nat) mod 16 < 16"
    by (simp_all add: less_mult_imp_div_less)
  have z: "hex_val (CHR ''0'') = Some 0" by (simp add: hex_val_def)
  show ?thesis unfolding hex4_def hex_byte_def by (simp add: hex_val_digit [OF d(1)] hex_val_digit [OF d(2)] z)
qed

lemma json_unit_byte: "(of_char c :: nat) < 128 \<Longrightarrow> json_unit (CHR ''0'' # CHR ''0'' # hex_byte c @ r) = Some ([c], r)"
proof -
  assume "(of_char c :: nat) < 128"
  then have "utf8 (of_char c) = [c]" by (simp add: utf8_def)
  moreover have "drop 4 (CHR ''0'' # CHR ''0'' # hex_byte c @ r) = r" by (simp add: hex_byte_def)
  ultimately show ?thesis using \<open>(of_char c :: nat) < 128\<close> unfolding json_unit_def hex4_byte by simp
qed

lemma escaped_chars:
  "char_of (34 :: nat) = CHR 0x22" "char_of (92 :: nat) = CHR 0x5C" "char_of (8 :: nat) = CHR 0x08" "char_of (9 :: nat) = CHR 0x09"
  "char_of (10 :: nat) = CHR 0x0A" "char_of (12 :: nat) = CHR 0x0C" "char_of (13 :: nat) = CHR 0x0D"
  by code_simp+

lemma json_body_char:
  assumes "(of_char c :: nat) < 128"
  shows "json_body (json_char c @ r) = map_option (\<lambda>(t, r). (c # t, r)) (json_body r)"
proof -
  let ?n = "of_char c :: nat"
  show ?thesis
  proof (cases "?n \<in> {34, 92, 8, 9, 10, 12, 13}")
    case True
    then have "char_of ?n \<in> char_of ` {34, 92, 8, 9, 10, 12, 13 :: nat}" by blast
    then have "c \<in> {CHR 0x22, CHR 0x5C, CHR 0x08, CHR 0x09, CHR 0x0A, CHR 0x0C, CHR 0x0D}"
      by (simp add: escaped_chars)
    then show ?thesis by (auto simp: json_char_def json_escape_def)
  next
    case plain: False
    show ?thesis
    proof (cases "?n < 32 \<or> ?n \<in> {60, 62, 38}")
      case True
      with plain have "json_char c = CHR 0x5C # CHR ''u'' # CHR ''0'' # CHR ''0'' # hex_byte c" by (auto simp: json_char_def Let_def)
      then show ?thesis using assms by (simp add: json_escape_def json_unit_byte)
    next
      case False
      with plain have "json_char c = [c]" "c \<noteq> CHR 0x22" "c \<noteq> CHR 0x5C" by (auto simp: json_char_def Let_def)
      with False show ?thesis by simp
    qed
  qed
qed

definition ascii :: "string \<Rightarrow> bool" where
  "ascii s \<longleftrightarrow> (\<forall>c\<in>set s. (of_char c :: nat) < 128)"

lemma json_body_string: "ascii s \<Longrightarrow> json_body (concat (map json_char s) @ CHR 0x22 # r) = Some (s, r)"
  by (induction s) (simp_all add: ascii_def json_body_char)

lemma json_elem_string: "ascii s \<Longrightarrow> json_elem (json_space (json_string s @ r)) = Some (s, r)"
  by (simp add: json_elem_def json_string_def json_space_def has_prefix_def json_body_string)

lemma json_elems_join:
  "xs \<noteq> [] \<Longrightarrow> \<forall>x\<in>set xs. ascii x \<Longrightarrow> json_elems (join '','' (map json_string xs) @ CHR '']'' # r) = Some (xs, r)"
proof (induction xs)
  case (Cons x xs)
  show ?case
  proof (cases xs)
    case Nil
    with Cons.prems show ?thesis
      by (subst json_elems.simps) (simp add: json_elem_string, simp add: json_space_def)
  next
    case (Cons y ys)
    have "json_elem (json_space (json_string x @ CHR '','' # join '','' (map json_string xs) @ CHR '']'' # r))
        = Some (x, CHR '','' # join '','' (map json_string xs) @ CHR '']'' # r)"
      using Cons.prems by (simp add: json_elem_string)
    moreover have "join '','' (map json_string (x # xs)) @ CHR '']'' # r
        = json_string x @ CHR '','' # join '','' (map json_string xs) @ CHR '']'' # r"
      using Cons by simp
    ultimately show ?thesis
      using Cons Cons.IH Cons.prems by (subst json_elems.simps) (simp add: json_space_def)
  qed
qed simp

text \<open>What the detector encodes is what the remediator decodes.\<close>

lemma unmarshal_json_strings:
  assumes "\<forall>x\<in>set xs. ascii x"
  shows "unmarshal_strings (json_strings xs) = Some xs"
proof (cases xs)
  case Nil
  then show ?thesis by (simp add: unmarshal_strings_def json_strings_def json_space_def has_prefix_def)
next
  case (Cons x ys)
  have e: "json_elems (join '','' (map json_string xs) @ '']'') = Some (xs, [])" using json_elems_join [of xs "[]"] assms Cons by simp
  obtain t where t: "join '','' (map json_string xs) = CHR 0x22 # t"
    using Cons by (cases ys) (simp_all add: json_string_def)
  from e show ?thesis
    unfolding unmarshal_strings_def json_strings_def Let_def t
    by (simp add: json_space_def has_prefix_def del: json_elems.simps)
qed

lemma Clean_abs: "IsAbs p \<Longrightarrow> IsAbs (Clean p)"
  by (simp add: Clean_def IsAbs_def has_prefix_def)

lemma validated_path: "Custom_validateScriptPath p = None \<Longrightarrow> p \<noteq> [] \<and> IsAbs p \<and> ''..'' \<notin> set (elements p)"
  by (auto simp: Custom_validateScriptPath_def split: if_splits)

lemma NewCustomRemediator_config:
  assumes "NewCustomRemediator config = Inr b" "br_remediateFunc b = Some c"
  shows "validateCustomConfig config = Inr c"
  using assms by (auto simp: NewCustomRemediator_def with_func_def SetRemediateFunc_def NewBaseRemediator_def split: sum.splits if_splits)

lemma validated_config_path:
  assumes "validateCustomConfig config = Inr c" "cuc_ScriptPath c \<noteq> []"
  shows "IsAbs (cuc_ScriptPath c) \<and> ''..'' \<notin> set (elements (cuc_ScriptPath c))"
  using assms by (auto simp: validateCustomConfig_def Let_def dest: validated_path split: if_splits option.splits)

lemma resolveScript_path:
  assumes "validateCustomConfig config = Inr c" "resolveScript c p = Inr (path, args, dir)"
  shows "IsAbs path \<and> ''..'' \<notin> set (elements path)"
  using assms validated_config_path [OF assms(1)] elements_Clean [of "metadata p ''scriptPath''"] Clean_abs [of "metadata p ''scriptPath''"]
  by (auto simp: resolveScript_def Let_def dest: validated_path split: if_splits option.splits)

text \<open>One call: nothing, or one script.\<close>

lemma custom_remediate_cases:
  assumes "custom_remediate v c p h = (r, h')"
  obtains (refused) "h' = h" "r \<noteq> None \<or> cuc_DryRun c"
    | (ran) path args env dir where "resolveScript c p = Inr (path, args, dir)" "CheckScriptSafety v path h = None" "\<not> cuc_DryRun c"
        "h' = h @ [Script path args env dir]" "r = None \<longrightarrow> \<not> fst (he_script v h (Script path args env dir))"
  using assms
  by (auto simp: custom_remediate_def Let_def split: sum.splits option.splits if_splits prod.splits)

section \<open>Properties\<close>

text \<open>
  C12. Only a vetted script is run. A call of the custom remediator runs nothing, or, when it is not a dry run, exactly one script:
  its path is absolute and free of \<^verbatim>\<open>..\<close> elements, whether it comes from the configuration or from the
  problem's metadata, and at that moment it names a regular executable file. In a dry run nothing is executed.\<close>

theorem custom_script_is_vetted:
  assumes "NewCustomRemediator config = Inr b" "br_remediateFunc b = Some c" "custom_remediate v c p h = (r, h')" "h' \<noteq> h"
  shows "\<not> cuc_DryRun c \<and> (\<exists>path args env dir mode. h' = h @ [Script path args env dir] \<and> IsAbs path
    \<and> ''..'' \<notin> set (elements path) \<and> he_stat v h path = StatFile True True mode)"
  using assms(3)
proof (cases rule: custom_remediate_cases)
  case refused
  with assms(4) show ?thesis by simp
next
  case (ran path args env dir)
  from ran(2) obtain mode where "he_stat v h path = StatFile True True mode"
    by (auto simp: CheckScriptSafety_def split: stat_answer.splits if_splits)
  with ran(3,4) resolveScript_path [OF NewCustomRemediator_config [OF assms(1,2)] ran(1)] show ?thesis by blast
qed

text \<open>
  C13. The arguments of a strategy reach its script. The detector writes the script path and the arguments of a strategy into the metadata of
  the problem, the arguments as JSON; when the custom remediator runs a script for that problem, it is the configured one,
  cleaned, and its arguments are exactly those of the strategy, whatever quotes, commas, backslashes or control characters
  they have; a strategy without arguments leaves those of the remediator.\<close>

theorem script_arguments_roundtrip:
  assumes "mr_ScriptPath strat \<noteq> []" "\<forall>a\<in>set (mr_Args strat). ascii a"
    "custom_remediate v c (strategy_problem source cnd strat) h = (r, h')" "h' \<noteq> h"
  shows "\<exists>env dir. h' = h @ [Script (Clean (mr_ScriptPath strat))
    (if mr_Args strat = [] then cuc_ScriptArgs c else mr_Args strat) env dir]"
proof -
  let ?p = "strategy_problem source cnd strat"
  have path: "metadata ?p ''scriptPath'' = mr_ScriptPath strat"
    using assms(1) by (simp add: metadata_def strategy_problem_def buildProblemMetadata_def gomap_get_def Let_def)
  have args: "metadata ?p ''args'' = (if mr_Args strat = [] then [] else json_strings (mr_Args strat))"
    by (simp add: metadata_def strategy_problem_def buildProblemMetadata_def gomap_get_def Let_def)
  have json: "json_strings xs \<noteq> []" for xs by (simp add: json_strings_def)
  from assms(3) show ?thesis
  proof (cases rule: custom_remediate_cases)
    case refused
    with assms(4) show ?thesis by simp
  next
    case (ran p as env dir)
    then show ?thesis
      using assms(1) unmarshal_json_strings [OF assms(2)] json
      by (auto simp: resolveScript_def path args Let_def split: option.splits if_splits)
  qed
qed

section \<open>Witnesses\<close>

definition demo_custom :: CustomConfig where
  "demo_custom = \<lparr>cuc_ScriptPath = [], cuc_ScriptArgs = [], cuc_Timeout = 5 * minute, cuc_Environment = [], cuc_CaptureOutput = True,
     cuc_AllowNonZeroExit = False, cuc_WorkingDir = [], cuc_DryRun = False\<rparr>"

definition demo_script :: MonitorRemediationConfig where
  "demo_script = MonitorRemediationConfig True ''custom-script'' [] [] ''/opt/fix.sh'' [] [''a,b'', ''<c>''] [] False [] 0 [] 0 []"

definition demo_script_problem :: problem where
  "demo_script_problem = strategy_problem ''m'' (NewCondition 1 ''C'' ConditionTrue ''R'' ''M'') demo_script"

lemma demo_script_runs: "\<exists>h'. custom_remediate demo_host demo_custom demo_script_problem [] = (None, h') \<and> h' \<noteq> []"
proof -
  have m: "metadata demo_script_problem ''scriptPath'' = ''/opt/fix.sh''" "metadata demo_script_problem ''args'' = json_strings [''a,b'', ''<c>'']"
    by (simp_all add: metadata_def demo_script_problem_def demo_script_def strategy_problem_def buildProblemMetadata_def gomap_get_def Let_def)
  have u: "unmarshal_strings (json_strings [''a,b'', ''<c>'']) = Some [''a,b'', ''<c>'']"
    by (rule unmarshal_json_strings) (simp add: ascii_def)
  have n: "json_strings [''a,b'', ''<c>''] \<noteq> []" by (simp add: json_strings_def)
  have "Custom_validateScriptPath ''/opt/fix.sh'' = None" by (simp add: Custom_validateScriptPath_def IsAbs_def has_prefix_def)
  then show ?thesis
    using n by (simp add: custom_remediate_def resolveScript_def m u Let_def CheckScriptSafety_def demo_custom_def demo_host_def)
qed

theorem custom_script_is_vetted_witness:
  "\<exists>h' path args env dir. custom_remediate demo_host demo_custom demo_script_problem [] = (None, h')
     \<and> h' = [Script path args env dir] \<and> IsAbs path"
proof -
  obtain h' where run: "custom_remediate demo_host demo_custom demo_script_problem [] = (None, h')" "h' \<noteq> []"
    using demo_script_runs by blast
  have "\<exists>b. NewCustomRemediator demo_custom = Inr b \<and> br_remediateFunc b = Some demo_custom"
    by (simp add: NewCustomRemediator_def validateCustomConfig_def demo_custom_def with_func_def NewBaseRemediator_def SetRemediateFunc_def CooldownMedium_def)
  with custom_script_is_vetted [OF _ _ run] run(1) show ?thesis by fastforce
qed

theorem script_arguments_roundtrip_witness:
  "\<exists>path env dir. snd (custom_remediate demo_host demo_custom demo_script_problem []) = [Script path [''a,b'', ''<c>''] env dir]"
proof -
  obtain h' where run: "custom_remediate demo_host demo_custom demo_script_problem [] = (None, h')" "h' \<noteq> []"
    using demo_script_runs by blast
  from script_arguments_roundtrip [OF _ _ run(1) [unfolded demo_script_problem_def] run(2)] run(1) show ?thesis
    by (auto simp: demo_script_def ascii_def)
qed

end
