(* ===== verification/Remediators_Cluster.thy ===== *)
theory Remediators_Cluster
  imports Remediators_Host
begin

text \<open>
  \<^verbatim>\<open>pkg/remediators/node_reboot.go\<close> and \<^verbatim>\<open>pod_delete.go\<close>: the destructive remediators. What they ask of the Kubernetes API and of the node
  is a list of \<open>cluster_call\<close>s in order; the answers are functions of the calls made so far (\<open>cluster_env\<close>). The
  timeouts of the phases are part of the answers: a call under a context that is done answers with an error.
\<close>

section \<open>The cluster\<close>

datatype api_error = NotFoundError string | ApiError string

record pod =
  pod_Namespace :: string
  pod_Name :: string
  pod_Annotations :: "(string, string) gomap"
  pod_OwnerKinds :: "string list"

datatype cluster_call =
    GetNode string | PatchUnschedulable string | ListPods string | EvictPod string string int
  | GetPod string string | DeletePod string string int | RunReboot "string list"

record cluster_env =
  ce_getNode :: "cluster_call list \<Rightarrow> string \<Rightarrow> string + bool"
  ce_patchNode :: "cluster_call list \<Rightarrow> string \<Rightarrow> string option"
  ce_listPods :: "cluster_call list \<Rightarrow> string \<Rightarrow> string + pod list"
  ce_evict :: "cluster_call list \<Rightarrow> string \<Rightarrow> string \<Rightarrow> api_error option"
  ce_getPod :: "cluster_call list \<Rightarrow> string \<Rightarrow> string \<Rightarrow> api_error + pod"
  ce_deletePod :: "cluster_call list \<Rightarrow> string \<Rightarrow> string \<Rightarrow> api_error option"
  ce_reboot :: "cluster_call list \<Rightarrow> string list \<Rightarrow> string \<times> string option"

fun api_text :: "api_error \<Rightarrow> string" where
  "api_text (NotFoundError e) = e"
| "api_text (ApiError e) = e"

fun is_not_found :: "api_error \<Rightarrow> bool" where
  "is_not_found (NotFoundError _) = True"
| "is_not_found (ApiError _) = False"

definition isMirrorPod :: "pod \<Rightarrow> bool" where
  "isMirrorPod p \<longleftrightarrow> map_of (pod_Annotations p) ''kubernetes.io/config.mirror'' \<noteq> None"

definition isDaemonSetPod :: "pod \<Rightarrow> bool" where
  "isDaemonSetPod p \<longleftrightarrow> ''DaemonSet'' \<in> set (pod_OwnerKinds p)"

section \<open>node\_reboot.go\<close>

record NodeRebootConfig =
  nrc_NodeName :: string
  nrc_DryRun :: bool
  nrc_RebootCommand :: "string list"
  nrc_SelfPodName :: string
  nrc_SelfPodNamespace :: string
  nrc_CordonTimeout :: duration
  nrc_DrainTimeout :: duration
  nrc_RebootTimeout :: duration
  nrc_PodEvictionGracePeriod :: int

definition defaultRebootCommand :: "string list" where
  "defaultRebootCommand = [''systemctl'', ''reboot'']"

definition NewNodeRebootRemediator :: "bool \<Rightarrow> NodeRebootConfig \<Rightarrow> string + NodeRebootConfig BaseRemediator" where
  "NewNodeRebootRemediator client config =
     (if \<not> client then Inl ''node-reboot remediator requires a non-nil Kubernetes client''
      else if nrc_NodeName config = [] then Inl ''node-reboot remediator requires a non-empty node name''
      else
        let c = config\<lparr>nrc_RebootCommand := (if nrc_RebootCommand config = [] then defaultRebootCommand else nrc_RebootCommand config),
              nrc_CordonTimeout := (if nrc_CordonTimeout config \<le> 0 then 30 * second else nrc_CordonTimeout config),
              nrc_DrainTimeout := (if nrc_DrainTimeout config \<le> 0 then 2 * minute else nrc_DrainTimeout config),
              nrc_RebootTimeout := (if nrc_RebootTimeout config \<le> 0 then 30 * second else nrc_RebootTimeout config),
              nrc_PodEvictionGracePeriod := (if nrc_PodEvictionGracePeriod config \<le> 0 then 30 else nrc_PodEvictionGracePeriod config)\<rparr>
        in with_func c (NewBaseRemediator (''node-reboot-'' @ nrc_NodeName c) CooldownDestructive))"

definition Reboot_isSelfPod :: "NodeRebootConfig \<Rightarrow> pod \<Rightarrow> bool" where
  "Reboot_isSelfPod config p \<longleftrightarrow> nrc_SelfPodName config \<noteq> []
     \<and> pod_Name p = nrc_SelfPodName config \<and> pod_Namespace p = nrc_SelfPodNamespace config"

definition shouldSkipPod :: "NodeRebootConfig \<Rightarrow> pod \<Rightarrow> bool" where
  "shouldSkipPod config p \<longleftrightarrow> isMirrorPod p \<or> isDaemonSetPod p \<or> Reboot_isSelfPod config p"

definition cordon :: "cluster_env \<Rightarrow> NodeRebootConfig \<Rightarrow> cluster_call list \<Rightarrow> string option \<times> cluster_call list" where
  "cordon v config h =
     (let n = nrc_NodeName config; h1 = h @ [GetNode n] in
      case ce_getNode v h n of
        Inl err \<Rightarrow> (Some (''failed to get node '' @ go_quote n @ '': '' @ err), h1)
      | Inr True \<Rightarrow> (None, h1)
      | Inr False \<Rightarrow>
          (map_option (\<lambda>err. ''failed to patch node '' @ go_quote n @ '' unschedulable: '' @ err) (ce_patchNode v h1 n),
           h1 @ [PatchUnschedulable n]))"

definition logCordonPlan :: "NodeRebootConfig \<Rightarrow> cluster_call list \<Rightarrow> cluster_call list" where
  "logCordonPlan config h = h @ [GetNode (nrc_NodeName config)]"

definition evictPod :: "cluster_env \<Rightarrow> NodeRebootConfig \<Rightarrow> pod \<Rightarrow> cluster_call list \<Rightarrow> cluster_call list" where
  "evictPod v config p h =
     (let grace = nrc_PodEvictionGracePeriod config; ns = pod_Namespace p; nm = pod_Name p; h1 = h @ [EvictPod ns nm grace] in
      case ce_evict v h ns nm of
        None \<Rightarrow> h1
      | Some err \<Rightarrow> if is_not_found err then h1 else h1 @ [DeletePod ns nm grace])"

definition drain :: "cluster_env \<Rightarrow> NodeRebootConfig \<Rightarrow> cluster_call list \<Rightarrow> cluster_call list" where
  "drain v config h =
     (let h1 = h @ [ListPods (nrc_NodeName config)] in
      case ce_listPods v h (nrc_NodeName config) of
        Inl err \<Rightarrow> h1
      | Inr pods \<Rightarrow> fold (\<lambda>p h. if shouldSkipPod config p then h else evictPod v config p h) pods h1)"

definition logDrainPlan :: "NodeRebootConfig \<Rightarrow> cluster_call list \<Rightarrow> cluster_call list" where
  "logDrainPlan config h = h @ [ListPods (nrc_NodeName config)]"

definition reboot :: "cluster_env \<Rightarrow> NodeRebootConfig \<Rightarrow> cluster_call list \<Rightarrow> string option \<times> cluster_call list" where
  "reboot v config h =
     (case ce_reboot v h (nrc_RebootCommand config) of (out, err) \<Rightarrow>
        (map_option (\<lambda>e. ''reboot command ['' @ join '' '' (nrc_RebootCommand config) @ ''] failed: '' @ e @ '' (output: '' @ TrimSpace out @ '')'') err, h @ [RunReboot (nrc_RebootCommand config)]))"

definition reboot_remediate :: "cluster_env \<Rightarrow> NodeRebootConfig \<Rightarrow> problem \<Rightarrow> cluster_call list \<Rightarrow> string option \<times> cluster_call list" where
  "reboot_remediate v config p h =
     (if nrc_DryRun config then (None, logDrainPlan config (logCordonPlan config h))
      else case cordon v config h of
          (Some err, h1) \<Rightarrow> (Some (''cordon failed, aborting reboot (node not rebooted): '' @ err), h1)
        | (None, h1) \<Rightarrow>
            (case reboot v config (drain v config h1) of
               (Some err, h2) \<Rightarrow> (Some (''reboot command failed on node '' @ go_quote (nrc_NodeName config) @ '': '' @ err), h2)
             | (None, h2) \<Rightarrow> (None, h2)))"

section \<open>pod\_delete.go\<close>

record PodDeleteConfig =
  pdc_DryRun :: bool
  pdc_SelfPodName :: string
  pdc_SelfPodNamespace :: string
  pdc_GracePeriodSeconds :: int
  pdc_Timeout :: duration

definition NewPodDeleteRemediator :: "bool \<Rightarrow> PodDeleteConfig \<Rightarrow> string + PodDeleteConfig BaseRemediator" where
  "NewPodDeleteRemediator client config =
     (if \<not> client then Inl ''pod-delete remediator requires a non-nil Kubernetes client''
      else
        let c = config\<lparr>pdc_GracePeriodSeconds := (if pdc_GracePeriodSeconds config \<le> 0 then 30 else pdc_GracePeriodSeconds config),
              pdc_Timeout := (if pdc_Timeout config \<le> 0 then 30 * second else pdc_Timeout config)\<rparr>
        in with_func c (NewBaseRemediator ''pod-delete'' CooldownMedium))"

definition resolveTarget :: "problem \<Rightarrow> string + string \<times> string" where
  "resolveTarget p =
     (case pr_Metadata p of
        None \<Rightarrow> Inl (''pod-delete requires problem metadata '' @ go_quote ''namespace'' @ '' and '' @ go_quote ''pod'' @ '' but none was provided'')
      | Some m \<Rightarrow>
          let namespace = gomap_get [] m ''namespace''; podName = gomap_get [] m ''pod'' in
          if namespace = [] \<or> podName = []
          then Inl (''pod-delete requires non-empty problem metadata '' @ go_quote ''namespace'' @ '' and '' @ go_quote ''pod''
                 @ '' (got namespace='' @ go_quote namespace @ '' pod='' @ go_quote podName @ '')'')
          else Inr (namespace, podName))"

definition Delete_isSelfPod :: "PodDeleteConfig \<Rightarrow> string \<Rightarrow> string \<Rightarrow> bool" where
  "Delete_isSelfPod config namespace podName \<longleftrightarrow> pdc_SelfPodName config \<noteq> []
     \<and> podName = pdc_SelfPodName config \<and> namespace = pdc_SelfPodNamespace config"

definition pod_delete_remediate :: "cluster_env \<Rightarrow> PodDeleteConfig \<Rightarrow> problem \<Rightarrow> cluster_call list \<Rightarrow> string option \<times> cluster_call list" where
  "pod_delete_remediate v config p h =
     (case resolveTarget p of
        Inl err \<Rightarrow> (Some err, h)
      | Inr (namespace, podName) \<Rightarrow>
          let target = namespace @ ''/'' @ podName; h1 = h @ [GetPod namespace podName] in
          if Delete_isSelfPod config namespace podName then (Some (''refusing to delete node-doctor'' @ [CHR 0x27] @ ''s own pod '' @ target), h)
          else case ce_getPod v h namespace podName of
              Inl err \<Rightarrow> (if is_not_found err then None else Some (''failed to get target pod '' @ target @ '': '' @ api_text err), h1)
            | Inr po \<Rightarrow>
                if isMirrorPod po then (Some (''refusing to delete mirror/static pod '' @ target), h1)
                else if pdc_DryRun config then (None, h1)
                else (case ce_deletePod v h1 namespace podName of
                        None \<Rightarrow> None
                      | Some err \<Rightarrow> if is_not_found err then None else Some (''failed to delete pod '' @ target @ '': '' @ api_text err),
                      h1 @ [DeletePod namespace podName (pdc_GracePeriodSeconds config)]))"

section \<open>Lemmas\<close>

fun cluster_query :: "cluster_call \<Rightarrow> bool" where
  "cluster_query (GetNode _) = True"
| "cluster_query (ListPods _) = True"
| "cluster_query (GetPod _ _) = True"
| "cluster_query _ = False"

text \<open>The calls that the drain makes for one pod: the eviction, and after a failure other than not found the deletion.\<close>

definition drain_call :: "NodeRebootConfig \<Rightarrow> pod list \<Rightarrow> cluster_call \<Rightarrow> bool" where
  "drain_call config pods c \<longleftrightarrow> c = ListPods (nrc_NodeName config) \<or> (\<exists>p\<in>set pods. \<not> shouldSkipPod config p
     \<and> (c = EvictPod (pod_Namespace p) (pod_Name p) (nrc_PodEvictionGracePeriod config)
        \<or> c = DeletePod (pod_Namespace p) (pod_Name p) (nrc_PodEvictionGracePeriod config)))"

lemma evictPod_makes:
  assumes "p \<in> set pods" "\<not> shouldSkipPod config p"
  shows "makes (drain_call config pods) h (evictPod v config p h)"
proof -
  have "drain_call config pods (EvictPod (pod_Namespace p) (pod_Name p) (nrc_PodEvictionGracePeriod config))"
    "drain_call config pods (DeletePod (pod_Namespace p) (pod_Name p) (nrc_PodEvictionGracePeriod config))"
    using assms by (auto simp: drain_call_def)
  then show ?thesis
    by (auto simp: evictPod_def Let_def makes_def split: option.splits)
qed

lemma fold_makes:
  assumes "\<And>x h. x \<in> set xs \<Longrightarrow> makes P h (f x h)"
  shows "makes P h (fold f xs h)"
  using assms by (induction xs arbitrary: h) (auto intro: makes_trans)

text \<open>The pods that the drain saw.\<close>

definition listed :: "cluster_env \<Rightarrow> NodeRebootConfig \<Rightarrow> cluster_call list \<Rightarrow> pod list" where
  "listed v config h = (case ce_listPods v h (nrc_NodeName config) of Inl _ \<Rightarrow> [] | Inr pods \<Rightarrow> pods)"

lemma drain_makes: "makes (drain_call config (listed v config h)) h (drain v config h)"
proof (cases "ce_listPods v h (nrc_NodeName config)")
  case (Inl e)
  then show ?thesis by (simp add: drain_def drain_call_def Let_def)
next
  case (Inr pods)
  have "makes (drain_call config pods) (h @ [ListPods (nrc_NodeName config)])
      (fold (\<lambda>p h. if shouldSkipPod config p then h else evictPod v config p h) pods (h @ [ListPods (nrc_NodeName config)]))"
    by (rule fold_makes) (simp add: evictPod_makes)
  moreover have "makes (drain_call config pods) h (h @ [ListPods (nrc_NodeName config)])" by (simp add: drain_call_def)
  ultimately show ?thesis using Inr makes_trans by (fastforce simp: drain_def listed_def Let_def)
qed

text \<open>The cordon succeeds: the node is unschedulable already, or the patch is accepted.\<close>

definition cordoned :: "cluster_env \<Rightarrow> NodeRebootConfig \<Rightarrow> cluster_call list \<Rightarrow> bool" where
  "cordoned v config h \<longleftrightarrow> (let n = nrc_NodeName config in
     ce_getNode v h n = Inr True \<or> ce_getNode v h n = Inr False \<and> ce_patchNode v (h @ [GetNode n]) n = None)"

definition cordon_call :: "NodeRebootConfig \<Rightarrow> cluster_call \<Rightarrow> bool" where
  "cordon_call config c \<longleftrightarrow> c = GetNode (nrc_NodeName config) \<or> c = PatchUnschedulable (nrc_NodeName config)"

lemma cordon_calls: "cordon v config h = (r, h1) \<Longrightarrow> (r = None \<longleftrightarrow> cordoned v config h) \<and> makes (cordon_call config) h h1"
  by (auto simp: cordon_def cordoned_def cordon_call_def makes_def Let_def split: sum.splits bool.splits)

lemma makes_subset: "makes P h h1 \<Longrightarrow> set h \<subseteq> set h1"
  by (auto simp: makes_def)

lemma evicting_makes: "makes (\<lambda>_. True) h (if shouldSkipPod config p then h else evictPod v config p h)"
  by (auto simp: evictPod_def Let_def makes_def split: option.splits)

lemma fold_evicts:
  assumes "p \<in> set pods" "\<not> shouldSkipPod config p" "\<forall>h. \<exists>e. ce_evict v h (pod_Namespace p) (pod_Name p) = Some (ApiError e)"
  shows "DeletePod (pod_Namespace p) (pod_Name p) (nrc_PodEvictionGracePeriod config)
    \<in> set (fold (\<lambda>p h. if shouldSkipPod config p then h else evictPod v config p h) pods h)"
  using assms(1)
proof (induction pods arbitrary: h)
  case (Cons q pods)
  let ?f = "\<lambda>p h. if shouldSkipPod config p then h else evictPod v config p h"
  show ?case
  proof (cases "q = p")
    case True
    obtain e where "ce_evict v h (pod_Namespace p) (pod_Name p) = Some (ApiError e)" using assms(3) by blast
    then have "DeletePod (pod_Namespace p) (pod_Name p) (nrc_PodEvictionGracePeriod config) \<in> set (evictPod v config p h)"
      by (simp add: evictPod_def Let_def)
    moreover have "set (evictPod v config p h) \<subseteq> set (fold ?f pods (evictPod v config p h))"
      by (rule makes_subset [OF fold_makes [of pods "\<lambda>_. True"]]) (rule evicting_makes)
    ultimately show ?thesis using True assms(2) by auto
  next
    case False
    with Cons show ?thesis by simp
  qed
qed simp

section \<open>Properties\<close>

text \<open>
  C9. A node is rebooted only after a successful cordon and a drain that spares protected pods. A call of the node-reboot remediator: in a
  dry run only reads. When the cordon fails nothing but the cordon is tried and the call fails. Otherwise the cordon comes
  first, then the drain, in which every eviction or deletion concerns a pod listed on the node that is neither a mirror
  pod nor owned by a DaemonSet nor the agent's own pod, and then, once and as the last call, the reboot command, whose error is
  the result.\<close>

theorem reboot_follows_cordon_and_drain:
  assumes "reboot_remediate v config p h = (r, h')"
  shows "if nrc_DryRun config then r = None \<and> makes cluster_query h h'
    else if \<not> cordoned v config h then r \<noteq> None \<and> makes (cordon_call config) h h'
    else \<exists>h1 h2. makes (cordon_call config) h h1 \<and> makes (drain_call config (listed v config h1)) h1 h2
      \<and> h' = h2 @ [RunReboot (nrc_RebootCommand config)] \<and> (r = None \<longleftrightarrow> snd (ce_reboot v h2 (nrc_RebootCommand config)) = None)"
proof (cases "nrc_DryRun config")
  case True
  with assms have "h' = h @ [GetNode (nrc_NodeName config), ListPods (nrc_NodeName config)]" "r = None"
    by (auto simp: reboot_remediate_def logDrainPlan_def logCordonPlan_def)
  with True show ?thesis by (simp add: makes_def)
next
  case live: False
  obtain r1 h1 where c: "cordon v config h = (r1, h1)" by fastforce
  note cc = cordon_calls [OF c]
  show ?thesis
  proof (cases r1)
    case None
    have "h' = drain v config h1 @ [RunReboot (nrc_RebootCommand config)]
        \<and> (r = None \<longleftrightarrow> snd (ce_reboot v (drain v config h1) (nrc_RebootCommand config)) = None)"
      using assms live c None by (auto simp: reboot_remediate_def reboot_def split: prod.splits option.splits)
    with live None cc drain_makes [of config v h1] show ?thesis by auto
  next
    case (Some e)
    with assms live c cc show ?thesis by (auto simp: reboot_remediate_def)
  qed
qed

text \<open>
  The drain overrides a refused eviction. When the API refuses the eviction of a pod, as it does while a disruption budget would be
  violated, the pod is deleted directly, and the node is rebooted all the same; the deletion is documented as a fallback for
  clusters without the eviction API.\<close>

lemma refused_eviction_becomes_deletion:
  assumes "\<not> nrc_DryRun config" "cordon v config h = (None, h1)" "ce_listPods v h1 (nrc_NodeName config) = Inr pods"
    "po \<in> set pods" "\<not> shouldSkipPod config po" "\<forall>h. \<exists>e. ce_evict v h (pod_Namespace po) (pod_Name po) = Some (ApiError e)"
  shows "DeletePod (pod_Namespace po) (pod_Name po) (nrc_PodEvictionGracePeriod config) \<in> set (snd (reboot_remediate v config p h))
    \<and> last (snd (reboot_remediate v config p h)) = RunReboot (nrc_RebootCommand config)"
proof -
  have "snd (reboot_remediate v config p h) = drain v config h1 @ [RunReboot (nrc_RebootCommand config)]"
    using assms(1,2) by (auto simp: reboot_remediate_def reboot_def split: prod.splits option.splits)
  moreover have "DeletePod (pod_Namespace po) (pod_Name po) (nrc_PodEvictionGracePeriod config) \<in> set (drain v config h1)"
    using fold_evicts [OF assms(4-6)] assms(3) by (simp add: drain_def Let_def)
  ultimately show ?thesis by simp
qed

text \<open>
  C10. The pod-delete remediator deletes at most its target. A call changes nothing, or, when it is not a dry run, makes exactly one change: it deletes the pod
  named by the namespace and name of the problem's metadata, both not empty, which is not the agent's own pod, and which the
  call before found to exist and not to be a mirror pod.\<close>

theorem pod_delete_only_its_target:
  assumes "pod_delete_remediate v config p h = (r, h')"
  shows "makes cluster_query h h' \<or> (\<exists>ns nm po. resolveTarget p = Inr (ns, nm) \<and> ns \<noteq> [] \<and> nm \<noteq> [] \<and> \<not> pdc_DryRun config
    \<and> \<not> Delete_isSelfPod config ns nm \<and> ce_getPod v h ns nm = Inr po \<and> \<not> isMirrorPod po
    \<and> h' = h @ [GetPod ns nm, DeletePod ns nm (pdc_GracePeriodSeconds config)])"
proof (cases "resolveTarget p")
  case (Inl e)
  with assms show ?thesis by (simp add: pod_delete_remediate_def)
next
  case (Inr t)
  obtain ns nm where t: "t = (ns, nm)" by fastforce
  from Inr t have ne: "ns \<noteq> []" "nm \<noteq> []" by (auto simp: resolveTarget_def Let_def split: option.splits if_splits)
  show ?thesis
  proof (cases "Delete_isSelfPod config ns nm")
    case True
    with assms Inr t show ?thesis by (simp add: pod_delete_remediate_def)
  next
    case self: False
    show ?thesis
    proof (cases "ce_getPod v h ns nm")
      case Inl
      with assms \<open>resolveTarget p = Inr t\<close> t self have "h' = h @ [GetPod ns nm]" by (simp add: pod_delete_remediate_def Let_def)
      then show ?thesis by simp
    next
      case (Inr po)
      with assms \<open>resolveTarget p = Inr t\<close> t self have "h' = (if isMirrorPod po \<or> pdc_DryRun config then h @ [GetPod ns nm]
          else h @ [GetPod ns nm, DeletePod ns nm (pdc_GracePeriodSeconds config)])"
        by (auto simp: pod_delete_remediate_def Let_def split: if_splits)
      then show ?thesis using self ne Inr \<open>resolveTarget p = Inr t\<close> t by (cases "isMirrorPod po \<or> pdc_DryRun config") auto
    qed
  qed
qed

section \<open>Witnesses\<close>

definition demo_pod :: pod where
  "demo_pod = \<lparr>pod_Namespace = ''prod'', pod_Name = ''db-0'', pod_Annotations = [], pod_OwnerKinds = [''StatefulSet'']\<rparr>"

definition demo_cluster :: cluster_env where
  "demo_cluster = \<lparr>ce_getNode = (\<lambda>_ _. Inr False), ce_patchNode = (\<lambda>_ _. None), ce_listPods = (\<lambda>_ _. Inr [demo_pod]),
     ce_evict = (\<lambda>_ _ _. Some (ApiError ''disruption budget'')), ce_getPod = (\<lambda>_ _ _. Inr demo_pod), ce_deletePod = (\<lambda>_ _ _. None),
     ce_reboot = (\<lambda>_ _. ([], None))\<rparr>"

definition demo_reboot :: NodeRebootConfig where
  "demo_reboot = \<lparr>nrc_NodeName = ''n1'', nrc_DryRun = False, nrc_RebootCommand = defaultRebootCommand, nrc_SelfPodName = ''agent'',
     nrc_SelfPodNamespace = ''kube-system'', nrc_CordonTimeout = 30 * second, nrc_DrainTimeout = 2 * minute, nrc_RebootTimeout = 30 * second,
     nrc_PodEvictionGracePeriod = 30\<rparr>"

theorem reboot_follows_cordon_and_drain_witness:
  "\<exists>h1 h2. snd (reboot_remediate demo_cluster demo_reboot demo_kubelet_problem []) = h2 @ [RunReboot [''systemctl'', ''reboot'']]
     \<and> makes (drain_call demo_reboot [demo_pod]) h1 h2"
proof -
  obtain r h' where run: "reboot_remediate demo_cluster demo_reboot demo_kubelet_problem [] = (r, h')" by fastforce
  have "cordoned demo_cluster demo_reboot []" "listed demo_cluster demo_reboot h = [demo_pod]" for h
    by (simp_all add: cordoned_def listed_def demo_cluster_def)
  with reboot_follows_cordon_and_drain [OF run] run show ?thesis
    by (auto simp: demo_reboot_def defaultRebootCommand_def)
qed

lemma refused_eviction_becomes_deletion_example:
  "DeletePod ''prod'' ''db-0'' 30 \<in> set (snd (reboot_remediate demo_cluster demo_reboot demo_kubelet_problem []))"
proof -
  have c: "cordon demo_cluster demo_reboot [] = (None, [GetNode ''n1'', PatchUnschedulable ''n1''])"
    by (simp add: cordon_def demo_cluster_def demo_reboot_def Let_def)
  have l: "ce_listPods demo_cluster [GetNode ''n1'', PatchUnschedulable ''n1''] (nrc_NodeName demo_reboot) = Inr [demo_pod]"
    by (simp add: demo_cluster_def)
  have s: "\<not> nrc_DryRun demo_reboot" "demo_pod \<in> set [demo_pod]" "\<not> shouldSkipPod demo_reboot demo_pod"
    by (simp_all add: shouldSkipPod_def isMirrorPod_def isDaemonSetPod_def Reboot_isSelfPod_def demo_pod_def demo_reboot_def)
  have e: "\<forall>h. \<exists>e. ce_evict demo_cluster h (pod_Namespace demo_pod) (pod_Name demo_pod) = Some (ApiError e)"
    by (simp add: demo_cluster_def)
  from refused_eviction_becomes_deletion [OF s(1) c l s(2,3) e, of demo_kubelet_problem] show ?thesis
    by (simp add: demo_pod_def demo_reboot_def)
qed

definition demo_delete :: PodDeleteConfig where
  "demo_delete = \<lparr>pdc_DryRun = False, pdc_SelfPodName = ''agent'', pdc_SelfPodNamespace = ''kube-system'', pdc_GracePeriodSeconds = 30,
     pdc_Timeout = 30 * second\<rparr>"

theorem pod_delete_only_its_target_witness:
  "\<exists>h'. pod_delete_remediate demo_cluster demo_delete
       (demo_kubelet_problem\<lparr>pr_Metadata := Some [(''namespace'', ''prod''), (''pod'', ''db-0'')]\<rparr>) [] = (None, h')
     \<and> h' = [GetPod ''prod'' ''db-0'', DeletePod ''prod'' ''db-0'' 30]"
proof -
  let ?p = "demo_kubelet_problem\<lparr>pr_Metadata := Some [(''namespace'', ''prod''), (''pod'', ''db-0'')]\<rparr>"
  have t: "resolveTarget ?p = Inr (''prod'', ''db-0'')" by (simp add: resolveTarget_def gomap_get_def)
  obtain h' where run: "pod_delete_remediate demo_cluster demo_delete ?p [] = (None, h')" "\<not> makes cluster_query [] h'"
    by (simp add: pod_delete_remediate_def t Delete_isSelfPod_def demo_delete_def demo_cluster_def isMirrorPod_def demo_pod_def makes_def)
  from pod_delete_only_its_target [OF run(1)] run t show ?thesis by (auto simp: demo_delete_def)
qed

end
