(* ===== verification/Builtin_Remediators.thy ===== *)
theory Builtin_Remediators
  imports Remediator_Registry Remediator_Custom Remediators_Cluster
begin

text \<open>
  \<^verbatim>\<open>pkg/remediators/builtin.go\<close>: the registration of the remediators, and what follows when the detector, the registry and the remediators are
  put together. An instance in the registry is a value of \<open>builtin\<close>: the remediator and the calls it has made to the host and to the
  cluster; the answers to them (\<open>host_env\<close>, \<open>cluster_env\<close>) may be different in every call.
\<close>

section \<open>Instances\<close>

datatype builtin_remediator =
    SystemdInst "SystemdConfig BaseRemediator" | CustomInst "CustomConfig BaseRemediator" | NetworkInst "NetworkConfig BaseRemediator"
  | RebootInst "NodeRebootConfig BaseRemediator" | PodDeleteInst "PodDeleteConfig BaseRemediator"

record builtin =
  bi_remediator :: builtin_remediator
  bi_host :: "host_call list"
  bi_cluster :: "cluster_call list"

fun rem_error_text :: "rem_error \<Rightarrow> string" where
  "rem_error_text (FuncNotSet name) = ''remediateFunc not set for remediator '' @ name"
| "rem_error_text (RemediationFailed key (PanicDuring k m)) = ''remediation failed for '' @ key @ '': panic during remediation of '' @ k @ '': '' @ m"
| "rem_error_text (RemediationFailed key (ContextCancelled e)) = ''remediation failed for '' @ key @ '': context cancelled before remediation: '' @ e"
| "rem_error_text (RemediationFailed key (FuncError e)) = ''remediation failed for '' @ key @ '': '' @ e"
| "rem_error_text _ = []"

text \<open>\<^verbatim>\<open>BaseRemediator.Remediate\<close> with the function of the remediator and the calls that it makes.\<close>

definition remediate_base ::
  "('f \<Rightarrow> problem \<Rightarrow> 'c list \<Rightarrow> string option \<times> 'c list) \<Rightarrow> string option \<Rightarrow> time \<Rightarrow> problem \<Rightarrow> 'f BaseRemediator \<Rightarrow> 'c list \<Rightarrow>
   call_result \<times> 'f BaseRemediator \<times> 'c list" where
  "remediate_base act ctxErr now p base h =
     (let call = (\<lambda>f p. case fst (act f p h) of None \<Rightarrow> CallOk | Some e \<Rightarrow> CallErr e) in
      case Base_Remediate call ctxErr now p base of (err, base1) \<Rightarrow>
        (case err of None \<Rightarrow> CallOk | Some e \<Rightarrow> CallErr (rem_error_text e), base1,
         case br_remediateFunc base of None \<Rightarrow> h | Some f \<Rightarrow> if ctxErr = None then snd (act f p h) else h))"

definition builtin_Remediate ::
  "host_env \<Rightarrow> cluster_env \<Rightarrow> string option \<Rightarrow> time \<Rightarrow> problem \<Rightarrow> builtin \<Rightarrow> call_result \<times> builtin" where
  "builtin_Remediate hv cv ctxErr now p b =
     (case bi_remediator b of
        SystemdInst x \<Rightarrow> (case remediate_base (systemd_remediate hv) ctxErr now p x (bi_host b) of
            (res, y, h) \<Rightarrow> (res, b\<lparr>bi_remediator := SystemdInst y, bi_host := h\<rparr>))
      | CustomInst x \<Rightarrow> (case remediate_base (custom_remediate hv) ctxErr now p x (bi_host b) of
            (res, y, h) \<Rightarrow> (res, b\<lparr>bi_remediator := CustomInst y, bi_host := h\<rparr>))
      | NetworkInst x \<Rightarrow> (case remediate_base (network_remediate hv) ctxErr now p x (bi_host b) of
            (res, y, h) \<Rightarrow> (res, b\<lparr>bi_remediator := NetworkInst y, bi_host := h\<rparr>))
      | RebootInst x \<Rightarrow> (case remediate_base (reboot_remediate cv) ctxErr now p x (bi_cluster b) of
            (res, y, h) \<Rightarrow> (res, b\<lparr>bi_remediator := RebootInst y, bi_cluster := h\<rparr>))
      | PodDeleteInst x \<Rightarrow> (case remediate_base (pod_delete_remediate cv) ctxErr now p x (bi_cluster b) of
            (res, y, h) \<Rightarrow> (res, b\<lparr>bi_remediator := PodDeleteInst y, bi_cluster := h\<rparr>)))"

definition builtin_CanRemediate :: "time \<Rightarrow> problem \<Rightarrow> builtin \<Rightarrow> bool" where
  "builtin_CanRemediate now p b =
     (case bi_remediator b of SystemdInst x \<Rightarrow> CanRemediate now p x | CustomInst x \<Rightarrow> CanRemediate now p x
      | NetworkInst x \<Rightarrow> CanRemediate now p x | RebootInst x \<Rightarrow> CanRemediate now p x | PodDeleteInst x \<Rightarrow> CanRemediate now p x)"

definition builtin_ops :: "host_env \<Rightarrow> cluster_env \<Rightarrow> string option \<Rightarrow> builtin remediator_ops" where
  "builtin_ops hv cv ctxErr = \<lparr>ro_CanRemediate = builtin_CanRemediate, ro_Remediate = builtin_Remediate hv cv ctxErr\<rparr>"

section \<open>Registration\<close>

definition factory_of :: "('f BaseRemediator \<Rightarrow> builtin_remediator) \<Rightarrow> string + 'f BaseRemediator \<Rightarrow> (time \<Rightarrow> builtin factory_result) option" where
  "factory_of wrap made = Some (\<lambda>now. case made of Inl e \<Rightarrow> FactoryError e
     | Inr x \<Rightarrow> Created \<lparr>bi_remediator = wrap x, bi_host = [], bi_cluster = []\<rparr>)"

definition systemd_info :: "bool \<Rightarrow> builtin RemediatorInfo" where
  "systemd_info dryRun = \<lparr>ri_Type = ''systemd-restart'',
     ri_Factory = factory_of SystemdInst (NewSystemdRemediator \<lparr>sdc_Operation = ''restart'', sdc_ServiceName = [], sdc_VerifyStatus = False,
       sdc_VerifyTimeout = 0, sdc_DryRun = dryRun\<rparr>), ri_Validator = None,
     ri_Description = ''Restarts the systemd service named in the triggering monitor's remediation config (Problem.Metadata[\"service\"]).''\<rparr>"

definition custom_info :: "bool \<Rightarrow> builtin RemediatorInfo" where
  "custom_info dryRun = \<lparr>ri_Type = ''custom-script'',
     ri_Factory = factory_of CustomInst (NewCustomRemediator \<lparr>cuc_ScriptPath = [], cuc_ScriptArgs = [], cuc_Timeout = 5 * minute,
       cuc_Environment = [], cuc_CaptureOutput = True, cuc_AllowNonZeroExit = False, cuc_WorkingDir = [], cuc_DryRun = dryRun\<rparr>),
     ri_Validator = None,
     ri_Description = ''Runs the remediation script named in the triggering monitor's remediation config (Problem.Metadata[\"scriptPath\"]/[\"args\"]).''\<rparr>"

definition network_descriptions :: "(string \<times> string) list" where
  "network_descriptions =
     [(''flush-dns'', ''Flushes the resolver DNS cache (resolvectl/systemd-resolve; clears A and AAAA).''),
      (''restart-interface'', ''Bounces the network interface named in Problem.Metadata[\"interface\"] (down then up).''),
      (''reset-routing'', ''Flushes the IPv4 routing cache (ip route flush cache).''),
      (''flush-ipv6-route'', ''Flushes the IPv6 route cache (ip -6 route flush cache).'')]"

definition network_info :: "bool \<Rightarrow> string \<times> string \<Rightarrow> builtin RemediatorInfo" where
  "network_info dryRun op = \<lparr>ri_Type = fst op,
     ri_Factory = factory_of NetworkInst (NewNetworkRemediator \<lparr>nwc_Operation = fst op, nwc_InterfaceName = [], nwc_BackupRouting = False,
       nwc_AllowMetadataInterface = (fst op = ''restart-interface''), nwc_VerifyAfter = False, nwc_VerifyTimeout = 0, nwc_DryRun = dryRun\<rparr>),
     ri_Validator = None, ri_Description = snd op\<rparr>"

text \<open>A registration that panics ends the sequence.\<close>

fun register_all :: "'i RemediatorInfo list \<Rightarrow> ('i, 'b) RemediatorRegistry \<Rightarrow> string + ('i, 'b) RemediatorRegistry" where
  "register_all [] r = Inr r"
| "register_all (i # is) r = bindE (Register i r) (register_all is)"

definition RegisterBuiltinRemediators :: "(builtin, 'b) RemediatorRegistry \<Rightarrow> string + (builtin, 'b) RemediatorRegistry" where
  "RegisterBuiltinRemediators r =
     (let dryRun = IsDryRun r in register_all ([systemd_info dryRun, custom_info dryRun] @ map (network_info dryRun) network_descriptions) r)"

definition reboot_info :: "bool \<Rightarrow> string \<Rightarrow> string \<Rightarrow> string \<Rightarrow> builtin RemediatorInfo" where
  "reboot_info dryRun nodeName selfPodName selfPodNamespace = \<lparr>ri_Type = ''node-reboot'',
     ri_Factory = factory_of RebootInst (NewNodeRebootRemediator True \<lparr>nrc_NodeName = nodeName, nrc_DryRun = dryRun, nrc_RebootCommand = [],
       nrc_SelfPodName = selfPodName, nrc_SelfPodNamespace = selfPodNamespace, nrc_CordonTimeout = 0, nrc_DrainTimeout = 0,
       nrc_RebootTimeout = 0, nrc_PodEvictionGracePeriod = 0\<rparr>), ri_Validator = None,
     ri_Description = ''DESTRUCTIVE (dry-run-aware): cordons, drains (skipping DaemonSet/mirror/self pods), and reboots this node.''\<rparr>"

definition pod_delete_info :: "bool \<Rightarrow> string \<Rightarrow> string \<Rightarrow> builtin RemediatorInfo" where
  "pod_delete_info dryRun selfPodName selfPodNamespace = \<lparr>ri_Type = ''pod-delete'',
     ri_Factory = factory_of PodDeleteInst (NewPodDeleteRemediator True \<lparr>pdc_DryRun = dryRun, pdc_SelfPodName = selfPodName,
       pdc_SelfPodNamespace = selfPodNamespace, pdc_GracePeriodSeconds = 0, pdc_Timeout = 0\<rparr>), ri_Validator = None,
     ri_Description = ''DESTRUCTIVE (dry-run-aware): deletes the pod named in Problem.Metadata[\"namespace\"]/[\"pod\"]; refuses mirror/self pods.''\<rparr>"

definition RegisterClusterRemediators ::
  "bool \<Rightarrow> string \<Rightarrow> string \<Rightarrow> string \<Rightarrow> (builtin, 'b) RemediatorRegistry \<Rightarrow> string + (builtin, 'b) RemediatorRegistry" where
  "RegisterClusterRemediators client nodeName selfPodName selfPodNamespace r =
     (if \<not> client \<or> nodeName = [] then Inr r
      else let dryRun = IsDryRun r in
        register_all [reboot_info dryRun nodeName selfPodName selfPodNamespace, pod_delete_info dryRun selfPodName selfPodNamespace] r)"

section \<open>Histories of a registry\<close>

text \<open>Calls and reloads of the configuration, with the result of each.\<close>

datatype 'b reg_op =
  CallOp "(builtin, 'b) reg_env" string problem | ApplyOp "duration \<Rightarrow> int \<Rightarrow> 'b" time "RemediationConfig option" bool

fun reg_op_step :: "'b reg_op \<Rightarrow> (builtin, 'b) RemediatorRegistry \<Rightarrow> (builtin, 'b) RemediatorRegistry" where
  "reg_op_step (CallOp v ty p) r = snd (snd (Remediate v ty p r))"
| "reg_op_step (ApplyOp newLimiter now cfg mode) r = snd (ApplyConfig newLimiter now cfg mode r)"

definition uses_builtins :: "'b reg_op \<Rightarrow> bool" where
  "uses_builtins opn \<longleftrightarrow> (case opn of CallOp v ty p \<Rightarrow> \<exists>hv cv ctxErr. rv_ops v = builtin_ops hv cv ctxErr | ApplyOp _ _ _ _ \<Rightarrow> True)"

section \<open>Lemmas\<close>

subsection \<open>What a registry keeps of its instances\<close>

definition stock :: "('i, 'b) RemediatorRegistry \<Rightarrow> (string, 'i RemediatorInfo) gomap \<times> (string, 'i) gomap" where
  "stock r = (rg_remediators r, rg_instances r)"

lemma stock_frame [simp]:
  "stock (snd (checkCircuitBreaker ck r)) = stock r"
  "stock (snd (checkRateLimit now r)) = stock r"
  "stock (snd (checkPerMinuteRate allow now r)) = stock r"
  "stock (recordCircuitBreakerSuccess t r) = stock r"
  "stock (recordCircuitBreakerFailure t1 t2 r) = stock r"
  "stock (recordRateLimitEntry t r) = stock r"
  "stock (recordRemediation rec r) = stock r"
  "stock (r\<lparr>rg_leaseClient := lc\<rparr>) = stock r"
  "stock (snd (ApplyConfig newLimiter now cfg mode r)) = stock r"
  by (auto simp: stock_def checkCircuitBreaker_def notifyCircuitStateObserver_def checkRateLimit_def checkPerMinuteRate_def
      recordCircuitBreakerSuccess_def recordCircuitBreakerFailure_def recordRateLimitEntry_def recordRemediation_def ApplyConfig_def
      SetDryRun_def SetMaxRemediationsPerHour_def SetMaxRemediationsPerMinute_def SetCircuitBreakerConfig_def Let_def
      split: CircuitBreakerState.splits option.splits prod.splits)

text \<open>All instances, those that exist and those that the factories make, satisfy \<open>Q\<close>.\<close>

definition stocked :: "('i \<Rightarrow> bool) \<Rightarrow> (string, 'i RemediatorInfo) gomap \<times> (string, 'i) gomap \<Rightarrow> bool" where
  "stocked Q s \<longleftrightarrow> (\<forall>k i. map_of (snd s) k = Some i \<longrightarrow> Q i)
     \<and> (\<forall>k info f now i. map_of (fst s) k = Some info \<longrightarrow> ri_Factory info = Some f \<longrightarrow> f now = Created i \<longrightarrow> Q i)"

definition keeps :: "('i \<Rightarrow> bool) \<Rightarrow> 'i remediator_ops \<Rightarrow> bool" where
  "keeps Q ops \<longleftrightarrow> (\<forall>now p i. Q i \<longrightarrow> Q (snd (ro_Remediate ops now p i)))"

lemma stocked_getOrCreate:
  assumes "stocked Q (stock r)" "getOrCreateRemediator now ty r = (g, r1)"
  shows "stocked Q (stock r1) \<and> (\<forall>i. g = Inr i \<longrightarrow> Q i)"
proof (cases "map_of (rg_instances r) ty")
  case (Some i)
  with assms show ?thesis by (auto simp: getOrCreateRemediator_def stocked_def stock_def)
next
  case none: None
  show ?thesis
  proof (cases "\<exists>i. g = Inr i")
    case True
    then obtain i info f where "g = Inr i" "map_of (rg_remediators r) ty = Some info" "ri_Factory info = Some f" "f now = Created i"
      and r1: "r1 = r\<lparr>rg_instances := AList.update ty i (rg_instances r)\<rparr>"
      using assms(2) none by (auto simp: getOrCreateRemediator_def split: option.splits factory_result.splits)
    then have "Q i" using assms(1) by (auto simp: stocked_def stock_def)
    with assms(1) r1 \<open>g = Inr i\<close> show ?thesis by (auto simp: stocked_def stock_def update_conv')
  next
    case False
    then have "r1 = r" using assms(2) none by (auto simp: getOrCreateRemediator_def split: option.splits factory_result.splits)
    with assms(1) False show ?thesis by blast
  qed
qed

lemma stocked_execute:
  assumes "stocked Q (stock r)" "keeps Q (rv_ops v)"
    "reg_execute v ty p r = (ret, recorded, did, r')"
  shows "stocked Q (stock r')"
proof -
  obtain g r1 where g: "getOrCreateRemediator (rv_ck v RFactory) ty r = (g, r1)" by fastforce
  note r1 = stocked_getOrCreate [OF assms(1) g]
  have upd: "stocked Q (stock (r1\<lparr>rg_instances := AList.update ty i (rg_instances r1)\<rparr>))" if "Q i" for i
    using r1 that by (auto simp: stocked_def stock_def update_conv')
  show ?thesis
  proof (cases g)
    case (Inl e)
    with assms(3) g r1 show ?thesis by (auto simp: reg_execute_def Let_def)
  next
    case (Inr i)
    obtain res i' where run: "ro_Remediate (rv_ops v) (rv_ck v RRun) p i = (res, i')" by fastforce
    have "Q i'" using assms(2) r1 Inr run unfolding keeps_def by (metis snd_conv)
    from assms(3) g r1 Inr run upd [OF this] show ?thesis
      by (auto simp: reg_execute_def Let_def split: if_splits call_result.splits)
  qed
qed

lemma stocked_with_lease:
  assumes "stocked Q (stock r)" "keeps Q (rv_ops v)"
    "reg_with_lease v ty p r = (ret, recorded, did, r')"
  shows "stocked Q (stock r')"
  using assms(3) stocked_execute [OF assms(1,2)] stocked_execute [OF _ assms(2), of "r\<lparr>rg_leaseClient := _\<rparr>" ty p] assms(1)
  by (auto simp: reg_with_lease_def split: option.splits prod.splits sum.splits if_splits)

lemma stocked_Remediate:
  assumes "stocked Q (stock r)" "keeps Q (rv_ops v)"
  shows "stocked Q (stock (snd (snd (Remediate v ty p r))))"
proof -
  obtain e1 r1 where c: "checkCircuitBreaker (rv_ck v) r = (e1, r1)" by fastforce
  obtain e2 r2 where h: "checkRateLimit (rv_ck v RHour) r1 = (e2, r2)" by fastforce
  obtain e3 r3 where m: "checkPerMinuteRate (rv_allow v) (rv_ck v RMinute) r2 = (e3, r3)" by fastforce
  have same: "stock r1 = stock r" "stock r2 = stock r" "stock r3 = stock r"
    using stock_frame(1) [of "rv_ck v" r] stock_frame(2) [of "rv_ck v RHour" r1]
      stock_frame(3) [of "rv_allow v" "rv_ck v RMinute" r2] by (simp_all add: c h m)
  obtain ret recorded did r4 where w: "reg_with_lease v ty p r3 = (ret, recorded, did, r4)" by (cases "reg_with_lease v ty p r3")
  from stocked_with_lease [OF _ assms(2) w] same assms(1) have "stocked Q (stock r4)" by simp
  with same assms(1) c h m w show ?thesis
    by (auto simp: Remediate_def reg_phases_def split: option.splits)
qed

subsection \<open>Dry runs\<close>

definition only_asks :: "host_call \<Rightarrow> bool" where
  "only_asks c \<longleftrightarrow> (\<exists>svc. systemd_query svc c)"

lemma systemd_dry_makes:
  assumes "sdc_DryRun f"
  shows "makes only_asks h (snd (systemd_remediate v f p h))"
proof -
  obtain r h1 where c: "checkEnabled v f (resolveServiceName f p) h = (r, h1)" by fastforce
  have "makes only_asks h h1"
    by (rule makes_mono [OF checkEnabled_makes [OF c]]) (auto simp: only_asks_def)
  with c assms show ?thesis by (auto simp: systemd_remediate_def Let_def split: option.splits)
qed

lemma custom_dry_makes: "cuc_DryRun f \<Longrightarrow> makes only_asks h (snd (custom_remediate v f p h))"
  by (auto simp: custom_remediate_def split: sum.splits option.splits prod.splits)

lemma network_dry_makes: "nwc_DryRun f \<Longrightarrow> makes only_asks h (snd (network_remediate v f p h))"
  by (simp add: network_remediate_def Let_def)

lemma reboot_dry_makes: "nrc_DryRun f \<Longrightarrow> makes cluster_query h (snd (reboot_remediate v f p h))"
  by (simp add: reboot_remediate_def logDrainPlan_def logCordonPlan_def makes_def)

lemma pod_delete_dry_makes: "pdc_DryRun f \<Longrightarrow> makes cluster_query h (snd (pod_delete_remediate v f p h))"
  by (auto simp: pod_delete_remediate_def Let_def split: sum.splits prod.splits)

text \<open>An instance in dry run that has only asked so far.\<close>

definition inert :: "builtin \<Rightarrow> bool" where
  "inert b \<longleftrightarrow> makes only_asks [] (bi_host b) \<and> makes cluster_query [] (bi_cluster b)
     \<and> (case bi_remediator b of
          SystemdInst x \<Rightarrow> (\<forall>f. br_remediateFunc x = Some f \<longrightarrow> sdc_DryRun f)
        | CustomInst x \<Rightarrow> (\<forall>f. br_remediateFunc x = Some f \<longrightarrow> cuc_DryRun f)
        | NetworkInst x \<Rightarrow> (\<forall>f. br_remediateFunc x = Some f \<longrightarrow> nwc_DryRun f)
        | RebootInst x \<Rightarrow> (\<forall>f. br_remediateFunc x = Some f \<longrightarrow> nrc_DryRun f)
        | PodDeleteInst x \<Rightarrow> (\<forall>f. br_remediateFunc x = Some f \<longrightarrow> pdc_DryRun f))"

lemma remediate_base_func:
  assumes "remediate_base act ctxErr now p x h = (res, y, h1)"
  shows "br_remediateFunc y = br_remediateFunc x" and "h1 = h \<or> (\<exists>f. br_remediateFunc x = Some f \<and> h1 = snd (act f p h))"
proof -
  let ?call = "\<lambda>f p. case fst (act f p h) of None \<Rightarrow> CallOk | Some e \<Rightarrow> CallErr e"
  have y: "y = snd (Base_Remediate ?call ctxErr now p x)"
    using assms by (auto simp: remediate_base_def Let_def split: prod.splits)
  show "br_remediateFunc y = br_remediateFunc x" unfolding y Base_Remediate_state by simp
  show "h1 = h \<or> (\<exists>f. br_remediateFunc x = Some f \<and> h1 = snd (act f p h))"
    using assms by (auto simp: remediate_base_def Let_def split: prod.splits option.splits)
qed

lemma remediate_base_makes:
  assumes "remediate_base act ctxErr now p x h = (res, y, h1)" "\<forall>f. br_remediateFunc x = Some f \<longrightarrow> makes P h (snd (act f p h))" "makes P [] h"
  shows "makes P [] h1"
  using remediate_base_func(2) [OF assms(1)] assms(2,3) makes_trans by metis

lemma inert_Remediate:
  assumes "inert b"
  shows "inert (snd (builtin_Remediate hv cv ctxErr now p b))"
proof (cases "bi_remediator b")
  case (SystemdInst x)
  obtain res y h where r: "remediate_base (systemd_remediate hv) ctxErr now p x (bi_host b) = (res, y, h)" by (metis prod_cases3)
  have "makes only_asks [] h"
    by (rule remediate_base_makes [OF r]) (use assms SystemdInst in \<open>auto simp: inert_def systemd_dry_makes\<close>)
  with assms SystemdInst r remediate_base_func(1) [OF r] show ?thesis by (simp add: builtin_Remediate_def inert_def)
next
  case (CustomInst x)
  obtain res y h where r: "remediate_base (custom_remediate hv) ctxErr now p x (bi_host b) = (res, y, h)" by (metis prod_cases3)
  have "makes only_asks [] h"
    by (rule remediate_base_makes [OF r]) (use assms CustomInst in \<open>auto simp: inert_def custom_dry_makes\<close>)
  with assms CustomInst r remediate_base_func(1) [OF r] show ?thesis by (simp add: builtin_Remediate_def inert_def)
next
  case (NetworkInst x)
  obtain res y h where r: "remediate_base (network_remediate hv) ctxErr now p x (bi_host b) = (res, y, h)" by (metis prod_cases3)
  have "makes only_asks [] h"
    by (rule remediate_base_makes [OF r]) (use assms NetworkInst in \<open>auto simp: inert_def network_dry_makes\<close>)
  with assms NetworkInst r remediate_base_func(1) [OF r] show ?thesis by (simp add: builtin_Remediate_def inert_def)
next
  case (RebootInst x)
  obtain res y h where r: "remediate_base (reboot_remediate cv) ctxErr now p x (bi_cluster b) = (res, y, h)" by (metis prod_cases3)
  have "makes cluster_query [] h"
    by (rule remediate_base_makes [OF r]) (use assms RebootInst in \<open>auto simp: inert_def reboot_dry_makes\<close>)
  with assms RebootInst r remediate_base_func(1) [OF r] show ?thesis by (simp add: builtin_Remediate_def inert_def)
next
  case (PodDeleteInst x)
  obtain res y h where r: "remediate_base (pod_delete_remediate cv) ctxErr now p x (bi_cluster b) = (res, y, h)" by (metis prod_cases3)
  have "makes cluster_query [] h"
    by (rule remediate_base_makes [OF r]) (use assms PodDeleteInst in \<open>auto simp: inert_def pod_delete_dry_makes\<close>)
  with assms PodDeleteInst r remediate_base_func(1) [OF r] show ?thesis by (simp add: builtin_Remediate_def inert_def)
qed

lemma with_func_func: "with_func f base = Inr x \<Longrightarrow> br_remediateFunc x = Some f"
  by (auto simp: with_func_def SetRemediateFunc_def split: sum.splits)

lemma made_func:
  "NewSystemdRemediator sc = Inr x1 \<Longrightarrow> br_remediateFunc x1 = Some sc"
  "NewNetworkRemediator nc = Inr x2 \<Longrightarrow> br_remediateFunc x2 = Some nc"
  "NewCustomRemediator cc = Inr x3 \<Longrightarrow> \<exists>f. br_remediateFunc x3 = Some f \<and> cuc_DryRun f = cuc_DryRun cc"
  "NewNodeRebootRemediator b rc = Inr x4 \<Longrightarrow> \<exists>f. br_remediateFunc x4 = Some f \<and> nrc_DryRun f = nrc_DryRun rc"
  "NewPodDeleteRemediator b pc = Inr x5 \<Longrightarrow> \<exists>f. br_remediateFunc x5 = Some f \<and> pdc_DryRun f = pdc_DryRun pc"
  by (auto simp: NewSystemdRemediator_def NewNetworkRemediator_def NewCustomRemediator_def validateCustomConfig_def
      NewNodeRebootRemediator_def NewPodDeleteRemediator_def Let_def dest!: with_func_func split: prod.splits option.splits sum.splits if_splits)

definition makes_inert :: "builtin RemediatorInfo \<Rightarrow> bool" where
  "makes_inert info \<longleftrightarrow> (\<forall>f now i. ri_Factory info = Some f \<longrightarrow> f now = Created i \<longrightarrow> inert i)"

lemma dry_infos:
  "makes_inert (systemd_info True)" "makes_inert (custom_info True)" "makes_inert (network_info True opn)"
  "makes_inert (reboot_info True n s ns)" "makes_inert (pod_delete_info True s ns)"
  by (auto simp: makes_inert_def systemd_info_def custom_info_def network_info_def reboot_info_def pod_delete_info_def factory_of_def inert_def
      dest!: made_func split: sum.splits)

lemma stocked_register_all:
  assumes "register_all infos r = Inr r1" "stocked inert (stock r)" "\<forall>i\<in>set infos. makes_inert i"
  shows "stocked inert (stock r1) \<and> rg_instances r1 = rg_instances r \<and> rg_dryRun r1 = rg_dryRun r"
  using assms
proof (induction infos arbitrary: r)
  case (Cons i infos)
  then obtain r2 where r2: "Register i r = Inr r2" "register_all infos r2 = Inr r1"
    by (auto simp: bindE_eq_Inr)
  then have "r2 = r\<lparr>rg_remediators := AList.update (ri_Type i) i (rg_remediators r)\<rparr>"
    by (auto simp: Register_def split: if_splits option.splits)
  moreover from this have "stocked inert (stock r2)"
    using Cons.prems(2,3) by (auto simp: stocked_def stock_def update_conv' makes_inert_def)
  ultimately show ?case using Cons.IH [OF r2(2)] Cons.prems(3) by simp
qed simp

lemma stocked_ops:
  assumes "stocked inert (stock r)" "\<forall>opn\<in>set ops. uses_builtins opn"
  shows "stocked inert (stock (fold reg_op_step ops r))"
  using assms
proof (induction ops arbitrary: r)
  case (Cons opn ops)
  have "stocked inert (stock (reg_op_step opn r))"
  proof (cases opn)
    case (CallOp v ty p)
    with Cons.prems(2) obtain hv cv ctxErr where "rv_ops v = builtin_ops hv cv ctxErr" by (auto simp: uses_builtins_def)
    then have "keeps inert (rv_ops v)" by (simp add: keeps_def builtin_ops_def inert_Remediate)
    from stocked_Remediate [OF Cons.prems(1) this] CallOp show ?thesis by simp
  next
    case (ApplyOp newLimiter now cfg mode)
    with Cons.prems(1) show ?thesis by simp
  qed
  with Cons show ?case by simp
qed simp

subsection \<open>Refused calls\<close>

definition exhausted :: "problem \<Rightarrow> builtin \<Rightarrow> bool" where
  "exhausted p b \<longleftrightarrow> (case bi_remediator b of
     SystemdInst x \<Rightarrow> br_maxAttempts x \<le> GetAttemptCount p x | CustomInst x \<Rightarrow> br_maxAttempts x \<le> GetAttemptCount p x
   | NetworkInst x \<Rightarrow> br_maxAttempts x \<le> GetAttemptCount p x | RebootInst x \<Rightarrow> br_maxAttempts x \<le> GetAttemptCount p x
   | PodDeleteInst x \<Rightarrow> br_maxAttempts x \<le> GetAttemptCount p x)"

lemma exhausted_refuses: "exhausted p b \<Longrightarrow> \<not> builtin_CanRemediate now p b"
  by (auto simp: exhausted_def builtin_CanRemediate_def CanRemediate_def split: builtin_remediator.splits)

text \<open>
  The two refusals that the registry counts as failures, and the three answers it gives before the remediator is asked and does not
  count: the hourly limit, the limit per minute and a denied lease.\<close>

definition counted :: "reg_error option \<Rightarrow> bool" where
  "counted ret \<longleftrightarrow> (case ret of Some (CannotRemediate _ _) \<Rightarrow> True | Some (LeaseRequestFailed _) \<Rightarrow> True | _ \<Rightarrow> False)"

definition held_back :: "reg_error option \<Rightarrow> bool" where
  "held_back ret \<longleftrightarrow> (case ret of Some (HourLimitExceeded _ _) \<Rightarrow> True | Some (MinuteLimitExceeded _) \<Rightarrow> True
     | Some (LeaseDeniedBy _) \<Rightarrow> True | _ \<Rightarrow> False)"

lemma counted_simps [simp]:
  "counted (Some (CannotRemediate s k))" "counted (Some (LeaseRequestFailed e))" "\<not> counted (Some (HourLimitExceeded i j))"
  "\<not> counted (Some (MinuteLimitExceeded i))" "\<not> counted (Some (LeaseDeniedBy m))"
  "held_back (Some (HourLimitExceeded i j))" "held_back (Some (MinuteLimitExceeded i))" "held_back (Some (LeaseDeniedBy m))"
  by (simp_all add: counted_def held_back_def)

lemma instances_of_stock: "stock r = stock r' \<Longrightarrow> rg_instances r = rg_instances r'"
  by (simp add: stock_def)

lemma failure_instances: "rg_instances (recordCircuitBreakerFailure t1 t2 r) = rg_instances r"
  by (rule instances_of_stock) simp

text \<open>Phase 3 for an exhausted instance: the refusal is counted.\<close>

lemma exhausted_execute:
  assumes "map_of (rg_instances r) ty = Some b" "exhausted p b" "rv_ops v = builtin_ops hv cv ctxErr"
  shows "reg_execute v ty p r = (Some (CannotRemediate ty (GenerateProblemKey p)), Some (CannotRemediate ty (GenerateProblemKey p)), False,
    recordCircuitBreakerFailure (rv_ck v RCb1) (rv_ck v RCb2) r)"
proof -
  have "\<not> ro_CanRemediate (rv_ops v) (rv_ck v RCan) p b" using exhausted_refuses [OF assms(2)] assms(3) by (simp add: builtin_ops_def)
  with assms(1) show ?thesis by (simp add: reg_execute_def Let_def getOrCreateRemediator_def)
qed

lemma exhausted_with_lease:
  assumes "map_of (rg_instances r) ty = Some b" "exhausted p b" "rv_ops v = builtin_ops hv cv ctxErr"
  shows "\<exists>ret r'. reg_with_lease v ty p r = (ret, ret, False, r') \<and> rg_instances r' = rg_instances r \<and> (counted ret \<or> held_back ret)
    \<and> circuit r' = (if counted ret then circuit (recordCircuitBreakerFailure (rv_ck v RCb1) (rv_ck v RCb2) r) else circuit r)"
proof -
  have cong: "circuit (recordCircuitBreakerFailure t1 t2 (r\<lparr>rg_leaseClient := lc\<rparr>)) = circuit (recordCircuitBreakerFailure t1 t2 r)" for t1 t2 lc
    by (rule circuit_cong(1)) simp
  show ?thesis
  proof (cases "rg_leaseClient r")
    case None
    then show ?thesis using exhausted_execute [OF assms] failure_instances by (simp add: reg_with_lease_def)
  next
    case (Some lc)
    obtain x lc' where q: "RequestLease (rv_lease v) ty (pr_Message p) lc = (x, lc')" by fastforce
    have "map_of (rg_instances (r\<lparr>rg_leaseClient := Some lc'\<rparr>)) ty = Some b" using assms(1) by simp
    note run = exhausted_execute [OF this assms(2,3)]
    show ?thesis by (cases x) (use Some q run cong in \<open>auto simp: reg_with_lease_def failure_instances\<close>)
  qed
qed

text \<open>One call, whatever the limits and the controller answer.\<close>

lemma exhausted_call:
  assumes "rg_circuitState r = CircuitClosed" "map_of (rg_instances r) ty = Some b" "exhausted p b" "rv_ops v = builtin_ops hv cv ctxErr"
  shows "\<exists>ret r'. Remediate v ty p r = (ret, False, r') \<and> rg_instances r' = rg_instances r \<and> (counted ret \<or> held_back ret)
    \<and> circuit r' = (if counted ret then circuit (recordCircuitBreakerFailure (rv_ck v RCb1) (rv_ck v RCb2) r) else circuit r)"
proof -
  obtain e2 r2 where h: "checkRateLimit (rv_ck v RHour) r = (e2, r2)" by fastforce
  obtain e3 r3 where m: "checkPerMinuteRate (rv_allow v) (rv_ck v RMinute) r2 = (e3, r3)" by fastforce
  have c: "circuit r2 = circuit r" "circuit r3 = circuit r"
    using circuit_frame(1) [of "rv_ck v RHour" r] circuit_frame(2) [of "rv_allow v" "rv_ck v RMinute" r2] by (simp_all add: h m)
  have i: "rg_instances r2 = rg_instances r" "rg_instances r3 = rg_instances r"
    using stock_frame(2) [of "rv_ck v RHour" r] stock_frame(3) [of "rv_allow v" "rv_ck v RMinute" r2]
    by (simp_all add: h m stock_def)
  have e2: "held_back e2 \<and> \<not> counted e2" if "e2 \<noteq> None"
    using that h by (auto simp: checkRateLimit_def Let_def split: if_splits)
  have e3: "held_back e3 \<and> \<not> counted e3" if "e3 \<noteq> None"
    using that m by (auto simp: checkPerMinuteRate_def split: option.splits prod.splits if_splits)
  have fail: "circuit (recordCircuitBreakerFailure t1 t2 r3) = circuit (recordCircuitBreakerFailure t1 t2 r)" for t1 t2
    by (rule circuit_cong(1) [OF c(2)])
  have inst: "map_of (rg_instances r3) ty = Some b" using i(2) assms(2) by simp
  obtain ret r4 where w: "reg_with_lease v ty p r3 = (ret, ret, False, r4)" "rg_instances r4 = rg_instances r3" "counted ret \<or> held_back ret"
    "circuit r4 = (if counted ret then circuit (recordCircuitBreakerFailure (rv_ck v RCb1) (rv_ck v RCb2) r3) else circuit r3)"
    using exhausted_with_lease [OF inst assms(3,4)] by blast
  have closed: "checkCircuitBreaker (rv_ck v) r = (None, r)" using assms(1) by (simp add: checkCircuitBreaker_def)
  have "\<exists>ret r'. reg_phases v ty p r = (ret, ret, False, r') \<and> rg_instances r' = rg_instances r \<and> (counted ret \<or> held_back ret)
    \<and> circuit r' = (if counted ret then circuit (recordCircuitBreakerFailure (rv_ck v RCb1) (rv_ck v RCb2) r) else circuit r)"
    using e2 e3 c i w fail by (cases e2; cases e3) (simp_all add: reg_phases_def closed h m)
  then obtain ret r' where ph: "reg_phases v ty p r = (ret, ret, False, r')" "rg_instances r' = rg_instances r" "counted ret \<or> held_back ret"
    "circuit r' = (if counted ret then circuit (recordCircuitBreakerFailure (rv_ck v RCb1) (rv_ck v RCb2) r) else circuit r)" by blast
  have "rg_instances (recordRemediation h r') = rg_instances r'" for h by (rule instances_of_stock) simp
  with ph show ?thesis by (simp add: Remediate_def)
qed

text \<open>A sequence of calls for one problem, one remediator and many environments: what each returned and whether it ran the remediator.\<close>

fun retry_calls :: "string \<Rightarrow> problem \<Rightarrow> (builtin, 'b) reg_env list \<Rightarrow> (builtin, 'b) RemediatorRegistry \<Rightarrow>
    (reg_error option \<times> bool) list \<times> (builtin, 'b) RemediatorRegistry" where
  "retry_calls ty p [] r = ([], r)"
| "retry_calls ty p (v # vs) r = (case Remediate v ty p r of (ret, did, r1) \<Rightarrow>
     (case retry_calls ty p vs r1 of (outs, r2) \<Rightarrow> ((ret, did) # outs, r2)))"

definition refusals :: "(reg_error option \<times> bool) list \<Rightarrow> int" where
  "refusals outs = int (length (filter (\<lambda>out. counted (fst out)) outs))"

definition answered :: "(reg_error option \<times> bool) \<Rightarrow> bool" where
  "answered out \<longleftrightarrow> \<not> snd out \<and> (counted (fst out) \<or> held_back (fst out))"

lemma refusals_simps [simp]:
  "refusals [] = 0" "refusals (out # outs) = (if counted (fst out) then 1 else 0) + refusals outs"
  "refusals (outs @ outs') = refusals outs + refusals outs'" "0 \<le> refusals outs"
  by (simp_all add: refusals_def)

lemma retry_calls_append:
  "retry_calls ty p (vs @ ws) r = (case retry_calls ty p vs r of (outs, r1) \<Rightarrow>
     (case retry_calls ty p ws r1 of (outs', r2) \<Rightarrow> (outs @ outs', r2)))"
  by (induction vs arbitrary: r) (auto split: prod.splits)

lemma retry_calls_length: "retry_calls ty p vs r = (outs, r') \<Longrightarrow> length outs = length vs"
  by (induction vs arbitrary: r outs) (auto split: prod.splits)

definition builtin_env :: "(builtin, 'b) reg_env \<Rightarrow> bool" where
  "builtin_env v \<longleftrightarrow> (\<exists>hv cv ctxErr. rv_ops v = builtin_ops hv cv ctxErr)"

text \<open>Below the threshold the circuit stays closed and its failures are the counted refusals.\<close>

lemma exhausted_calls:
  assumes "retry_calls ty p vs r = (outs, r')" "rg_circuitState r = CircuitClosed" "\<not> rgc_Disabled (rg_circuitConfig r)"
    "rg_consecutiveFailures r + refusals outs < rgc_Threshold (rg_circuitConfig r)"
    "map_of (rg_instances r) ty = Some b" "exhausted p b" "\<forall>v\<in>set vs. builtin_env v"
  shows "(\<forall>out\<in>set outs. answered out) \<and> rg_instances r' = rg_instances r \<and> rg_circuitState r' = CircuitClosed
    \<and> rg_circuitConfig r' = rg_circuitConfig r \<and> rg_consecutiveFailures r' = rg_consecutiveFailures r + refusals outs"
  using assms
proof (induction vs arbitrary: r outs)
  case (Cons v vs)
  obtain hv cv ctxErr where ops: "rv_ops v = builtin_ops hv cv ctxErr" using Cons.prems(7) by (auto simp: builtin_env_def)
  from exhausted_call [OF Cons.prems(2,5,6) ops] obtain ret r1 where
    run: "Remediate v ty p r = (ret, False, r1)" and r1: "rg_instances r1 = rg_instances r" "counted ret \<or> held_back ret"
    and step: "circuit r1 = (if counted ret then circuit (recordCircuitBreakerFailure (rv_ck v RCb1) (rv_ck v RCb2) r) else circuit r)" by blast
  obtain outs2 where rest: "retry_calls ty p vs r1 = (outs2, r')" and outs: "outs = (ret, False) # outs2"
    using Cons.prems(1) run by (auto split: prod.splits)
  have r1c: "rg_circuitState r1 = CircuitClosed \<and> rg_circuitConfig r1 = rg_circuitConfig r
      \<and> rg_consecutiveFailures r1 = rg_consecutiveFailures r + (if counted ret then 1 else 0)"
  proof (cases "counted ret")
    case True
    have "rg_consecutiveFailures r + (1 + refusals outs2) < rgc_Threshold (rg_circuitConfig r)" using Cons.prems(4) True outs by simp
    moreover have "0 \<le> refusals outs2" by simp
    ultimately have below: "rg_consecutiveFailures r + 1 < rgc_Threshold (rg_circuitConfig r)" by linarith
    show ?thesis
      using step True registry_breaker.fail_below [OF Cons.prems(3,2) below, of "(rv_ck v RCb1, rv_ck v RCb2)"]
        settings_fields(5) [OF settings_failure, of "rv_ck v RCb1" "rv_ck v RCb2" r] by (simp add: circuit_def)
  qed (use step Cons.prems(2) in \<open>simp add: circuit_def\<close>)
  have "(\<forall>out\<in>set outs2. answered out) \<and> rg_instances r' = rg_instances r1 \<and> rg_circuitState r' = CircuitClosed
    \<and> rg_circuitConfig r' = rg_circuitConfig r1 \<and> rg_consecutiveFailures r' = rg_consecutiveFailures r1 + refusals outs2"
    by (rule Cons.IH [OF rest]) (use Cons.prems r1 r1c outs in auto)
  with r1 r1c outs show ?case by (simp add: answered_def)
qed simp

text \<open>The counted refusal that reaches the threshold opens the circuit.\<close>

lemma last_refusal_opens:
  assumes "rg_circuitState r = CircuitClosed" "\<not> rgc_Disabled (rg_circuitConfig r)" "rg_consecutiveFailures r = 0"
    "0 < rgc_Threshold (rg_circuitConfig r)" "map_of (rg_instances r) ty = Some b" "exhausted p b" "\<forall>v\<in>set vs. builtin_env v"
    "retry_calls ty p vs r = (outs, r')" "refusals outs = rgc_Threshold (rg_circuitConfig r) \<and> counted (fst (last outs))"
  shows "(\<forall>out\<in>set outs. answered out) \<and> rg_instances r' = rg_instances r \<and> rg_circuitState r' = CircuitOpen
    \<and> rg_circuitConfig r' = rg_circuitConfig r"
proof -
  have "outs \<noteq> []" using assms(4,9) by auto
  then obtain vs1 v where vs: "vs = vs1 @ [v]" using retry_calls_length [OF assms(8)] by (cases vs rule: rev_cases) auto
  obtain outs1 r1 where one: "retry_calls ty p vs1 r = (outs1, r1)" by fastforce
  obtain ret did r2 where run: "Remediate v ty p r1 = (ret, did, r2)" by (metis prod_cases3)
  have outs: "outs = outs1 @ [(ret, did)]" "r' = r2" using assms(8) by (simp_all add: vs retry_calls_append one run)
  have c: "counted ret" "refusals outs1 + 1 = rgc_Threshold (rg_circuitConfig r)" using assms(9) by (auto simp: outs(1))
  have r1: "\<forall>out\<in>set outs1. answered out" "rg_instances r1 = rg_instances r" "rg_circuitState r1 = CircuitClosed"
    "rg_circuitConfig r1 = rg_circuitConfig r" "rg_consecutiveFailures r1 + 1 = rgc_Threshold (rg_circuitConfig r)"
    using exhausted_calls [OF one assms(1,2) _ assms(5,6)] assms(3,7) c(2) by (auto simp: vs)
  obtain hv cv ctxErr where ops: "rv_ops v = builtin_ops hv cv ctxErr" using assms(7) by (auto simp: builtin_env_def vs)
  have inst: "map_of (rg_instances r1) ty = Some b" using r1(2) assms(5) by simp
  have r2: "\<not> did" "rg_instances r2 = rg_instances r1" "circuit r2 = circuit (recordCircuitBreakerFailure (rv_ck v RCb1) (rv_ck v RCb2) r1)"
    using exhausted_call [OF r1(3) inst assms(6) ops] run c(1) by auto
  have "\<not> rgc_Disabled (rg_circuitConfig r1)" using assms(2) r1(4) by simp
  from registry_breaker.fail_reaches [OF this r1(3), of "(rv_ck v RCb1, rv_ck v RCb2)"] r1(4,5) have
    "rg_circuitState (recordCircuitBreakerFailure (rv_ck v RCb1) (rv_ck v RCb2) r1) = CircuitOpen" by simp
  with r1 r2 c(1) settings_fields(5) [OF settings_failure, of "rv_ck v RCb1" "rv_ck v RCb2" r1] show ?thesis
    by (simp add: circuit_def outs answered_def)
qed

section \<open>Properties\<close>

text \<open>
  The dry-run mode of the remediators is frozen at registration. When the remediators are registered while the registry is in dry run, then
  after any sequence of calls and configuration reloads, also reloads that end the dry run, no instance has done anything but
  ask: nothing is restarted, run, cordoned, drained, rebooted or deleted, although the registry then counts and records the calls as real, successful
  remediations.\<close>

lemma dry_run_is_frozen_at_registration:
  assumes "IsDryRun r0" "rg_instances r0 = []" "rg_remediators r0 = []" "RegisterBuiltinRemediators r0 = Inr r1"
    "RegisterClusterRemediators client node selfPod selfNs r1 = Inr r2" "\<forall>opn\<in>set ops. uses_builtins opn"
    "map_of (rg_instances (fold reg_op_step ops r2)) ty = Some b"
  shows "makes only_asks [] (bi_host b) \<and> makes cluster_query [] (bi_cluster b)"
proof -
  have "stocked inert (stock r0)" using assms(2,3) by (simp add: stocked_def stock_def)
  with assms(1,4) have r1: "stocked inert (stock r1) \<and> rg_dryRun r1 = rg_dryRun r0"
    unfolding RegisterBuiltinRemediators_def Let_def IsDryRun_def
    using stocked_register_all [of _ r0 r1] dry_infos(1-3) by fastforce
  have "stocked inert (stock r2)"
  proof (cases "\<not> client \<or> node = []")
    case True
    with assms(5) r1 show ?thesis by (auto simp: RegisterClusterRemediators_def)
  next
    case False
    then have "register_all [reboot_info True node selfPod selfNs, pod_delete_info True selfPod selfNs] r1 = Inr r2"
      using assms(1,5) r1 by (simp add: RegisterClusterRemediators_def IsDryRun_def Let_def)
    from stocked_register_all [OF this] r1 dry_infos(4,5) show ?thesis by simp
  qed
  from stocked_ops [OF this assms(6)] assms(7) have "inert b" by (auto simp: stocked_def stock_def)
  then show ?thesis by (simp add: inert_def)
qed

text \<open>
  The detector never dispatches a usable pod deletion. The metadata that the detector builds for a strategy has no namespace and no pod, so the
  pod-delete remediator refuses every problem that the detector hands to it, without a single call to the cluster.\<close>

lemma pod_delete_refuses_every_dispatch:
  "\<exists>e. pod_delete_remediate v config (strategy_problem source cnd strat) h = (Some e, h)"
proof -
  have "gomap_get [] (buildProblemMetadata source cnd strat) ''namespace'' = []"
    by (simp add: buildProblemMetadata_def gomap_get_def Let_def)
  then obtain e where "resolveTarget (strategy_problem source cnd strat) = Inl e"
    by (auto simp: resolveTarget_def strategy_problem_def Let_def)
  then show ?thesis by (simp add: pod_delete_remediate_def)
qed

text \<open>
  C14. A remediator that has used up its attempts opens the circuit for all. Nothing in the program resets the attempts of a problem, so the
  remediator refuses it for good after its limit. For any sequence of calls for that problem, with any hourly limit, any bucket per minute, any lease
  client and any clock, no call runs the remediator or changes its instance, and each call is either held back by a limit or a denied lease,
  which counts for nothing, or answered by the refusal or by a failed lease request, which the registry counts as a failure of the
  circuit breaker: as long as fewer calls than the threshold are counted, the circuit stays closed with as many failures, and the counted call that reaches the
  threshold opens it: calls for every other remediator and problem are then rejected until the timeout.\<close>

theorem exhausted_remediator_opens_circuit:
  assumes "rg_circuitState r = CircuitClosed" "\<not> rgc_Disabled (rg_circuitConfig r)" "rg_consecutiveFailures r = 0"
    "0 < rgc_Threshold (rg_circuitConfig r)" "map_of (rg_instances r) ty = Some b" "exhausted p b" "\<forall>v\<in>set vs. builtin_env v"
    "retry_calls ty p vs r = (outs, r')"
  shows "(refusals outs < rgc_Threshold (rg_circuitConfig r) \<longrightarrow> (\<forall>out\<in>set outs. answered out) \<and> rg_instances r' = rg_instances r
      \<and> rg_circuitState r' = CircuitClosed \<and> rg_consecutiveFailures r' = refusals outs)
    \<and> (refusals outs = rgc_Threshold (rg_circuitConfig r) \<and> counted (fst (last outs)) \<longrightarrow>
        (\<forall>out\<in>set outs. answered out) \<and> rg_instances r' = rg_instances r \<and> rg_circuitState r' = CircuitOpen
        \<and> (\<forall>v ty2 q. time_sub (rv_ck v RSince) (rg_circuitOpenedAt r') < rgc_Timeout (rg_circuitConfig r) \<longrightarrow>
             (\<exists>e r''. Remediate v ty2 q r' = (Some e, False, r''))))"
proof (rule conjI; rule impI)
  assume "refusals outs < rgc_Threshold (rg_circuitConfig r)"
  then show "(\<forall>out\<in>set outs. answered out) \<and> rg_instances r' = rg_instances r
      \<and> rg_circuitState r' = CircuitClosed \<and> rg_consecutiveFailures r' = refusals outs"
    using exhausted_calls [OF assms(8,1,2) _ assms(5-7)] assms(3) by simp
next
  assume "refusals outs = rgc_Threshold (rg_circuitConfig r) \<and> counted (fst (last outs))"
  from last_refusal_opens [OF assms this] show "(\<forall>out\<in>set outs. answered out) \<and> rg_instances r' = rg_instances r \<and> rg_circuitState r' = CircuitOpen
        \<and> (\<forall>v ty2 q. time_sub (rv_ck v RSince) (rg_circuitOpenedAt r') < rgc_Timeout (rg_circuitConfig r) \<longrightarrow>
             (\<exists>e r''. Remediate v ty2 q r' = (Some e, False, r'')))"
    using open_circuit_rejects [of r'] by simp blast
qed

section \<open>Witnesses\<close>

definition demo_dry :: "(builtin, unit) RemediatorRegistry" where
  "demo_dry = SetDryRun True (NewRegistry 0 10)"

definition demo_live_config :: RemediationConfig where
  "demo_live_config = \<lparr>rmc_Enabled = True, rmc_DryRun = False, rmc_MaxRemediationsPerHour = 0, rmc_MaxRemediationsPerMinute = 0,
     rmc_CircuitBreaker = \<lparr>cbc_Enabled = None, cbc_Threshold = 0, cbc_TimeoutString = [], cbc_Timeout = 0, cbc_SuccessThreshold = 0\<rparr>,
     rmc_HistorySize = 0, rmc_Coordination = None\<rparr>"

definition demo_builtin_call :: "(builtin, unit) reg_env" where
  "demo_builtin_call = \<lparr>rv_ck = (\<lambda>_. 1), rv_allow = (\<lambda>_ b. (True, b)), rv_ops = builtin_ops demo_host demo_cluster None,
     rv_lease = demo_lease_env, rv_release = None\<rparr>"

definition demo_reload :: "unit reg_op list" where
  "demo_reload = [ApplyOp (\<lambda>_ _. ()) 1 (Some demo_live_config) False, CallOp demo_builtin_call ''flush-dns'' demo_kubelet_problem]"

lemma demo_registered:
  "\<exists>r1. RegisterBuiltinRemediators demo_dry = Inr r1 \<and> rg_instances r1 = [] \<and> rg_circuitState r1 = CircuitClosed
     \<and> rg_perMinuteBucket r1 = None \<and> rg_leaseClient r1 = None
     \<and> map_of (rg_remediators r1) ''flush-dns'' = Some (network_info True (network_descriptions ! 0))"
  by (simp add: RegisterBuiltinRemediators_def Let_def demo_dry_def SetDryRun_def IsDryRun_def NewRegistry_def network_descriptions_def
      Register_def bindE_def systemd_info_def custom_info_def network_info_def factory_of_def)

text \<open>After a reload that ends the dry run, a flush of the DNS cache succeeds, and no command is run.\<close>

definition demo_exhausted :: builtin where
  "demo_exhausted = \<lparr>bi_remediator = NetworkInst \<lparr>br_name = ''network-flush-dns'', br_cooldown = CooldownFast, br_lastAttemptTime = [],
     br_attemptCount = [(GenerateProblemKey demo_kubelet_problem, 3)], br_remediateFunc = None, br_maxAttempts = 3\<rparr>, bi_host = [], bi_cluster = []\<rparr>"

text \<open>A registry as a loaded configuration makes it: ten remediations per hour, two per minute, and a circuit of five failures.\<close>

definition demo_stuck :: "(builtin, nat) RemediatorRegistry" where
  "demo_stuck = (NewRegistry 10 10)\<lparr>rg_instances := [(''flush-dns'', demo_exhausted)], rg_maxPerMinute := 2, rg_perMinuteBucket := Some 0\<rparr>"

definition demo_metered_call :: "(builtin, nat) reg_env" where
  "demo_metered_call = \<lparr>rv_ck = (\<lambda>_. 1), rv_allow = (\<lambda>_ b. (even b, Suc b)), rv_ops = builtin_ops demo_host demo_cluster None,
     rv_lease = demo_lease_env, rv_release = None\<rparr>"

lemma demo_stuck_calls:
  "map (\<lambda>out. counted (fst out)) (fst (retry_calls ''flush-dns'' demo_kubelet_problem (replicate 9 demo_metered_call) demo_stuck))
     = [True, False, True, False, True, False, True, False, True]"
  by code_simp

theorem exhausted_remediator_opens_circuit_witness:
  "rg_circuitState (snd (retry_calls ''flush-dns'' demo_kubelet_problem (replicate 9 demo_metered_call) demo_stuck)) = CircuitOpen"
proof -
  obtain outs r' where run: "retry_calls ''flush-dns'' demo_kubelet_problem (replicate 9 demo_metered_call) demo_stuck = (outs, r')" by fastforce
  have marks: "map (\<lambda>out. counted (fst out)) outs = [True, False, True, False, True, False, True, False, True]"
    using demo_stuck_calls run by simp
  have "refusals outs = int (length (filter (\<lambda>x. x) (map (\<lambda>out. counted (fst out)) outs)))" by (simp add: refusals_def filter_map o_def)
  moreover have "counted (fst (last outs)) = last (map (\<lambda>out. counted (fst out)) outs)" using marks by (intro last_map [symmetric]) auto
  ultimately have "refusals outs = 5 \<and> counted (fst (last outs))" by (simp add: marks)
  moreover have "map_of (rg_instances demo_stuck) ''flush-dns'' = Some demo_exhausted" "exhausted demo_kubelet_problem demo_exhausted"
    "rg_circuitState demo_stuck = CircuitClosed" "\<not> rgc_Disabled (rg_circuitConfig demo_stuck)"
    "rg_consecutiveFailures demo_stuck = 0" "rgc_Threshold (rg_circuitConfig demo_stuck) = 5"
    by (simp_all add: demo_stuck_def NewRegistry_def exhausted_def demo_exhausted_def GetAttemptCount_def gomap_get_def
        DefaultCircuitBreakerConfig_def)
  moreover have "\<forall>v\<in>set (replicate 9 demo_metered_call). builtin_env v" by (force simp: demo_metered_call_def builtin_env_def)
  ultimately show ?thesis
    using exhausted_remediator_opens_circuit [OF _ _ _ _ _ _ _ run] run by simp
qed

end
