(* ===== verification/HTTP_Client.thy ===== *)
theory HTTP_Client
  imports Types Config_Types Controller_Types
begin

text \<open>
  \<^verbatim>\<open>pkg/exporters/http\<close>, files \<^verbatim>\<open>auth.go\<close>, \<^verbatim>\<open>config.go\<close> and \<^verbatim>\<open>client.go\<close>: how a webhook is authenticated,
  the request that is sent to it with its validation, and the client that sends it with retries.

  What lies outside the repository is an argument (\<open>http_env\<close>): \<^verbatim>\<open>json.Marshal\<close>, the check of the URL
  in \<^verbatim>\<open>http.NewRequest\<close>, the transport (\<open>hv_do v n rq\<close> answers the request of attempt \<open>n\<close>), the pause before
  attempt \<open>n\<close> (\<open>hv_waited v n d\<close> is the context's error when it ends during a pause of \<open>d\<close>), the clock's
  nanoseconds, \<^verbatim>\<open>time.ParseDuration\<close>, rounding to \<^verbatim>\<open>float64\<close> (\<open>hv_fl\<close>) and the conversion from it to a
  duration (\<open>hv_dur\<close>). The requests handed to the
  transport are returned in order, each with the number of its attempt. Lines of the
  log are left out.
\<close>

section \<open>Authentication\<close>

type_synonym header = "(string, string) gomap"

text \<open>\<^verbatim>\<open>http.CanonicalHeaderKey\<close> and \<^verbatim>\<open>Header.Set\<close>; a header has one value here, nothing adds a second.\<close>

definition char_in :: "nat \<Rightarrow> nat \<Rightarrow> char \<Rightarrow> bool" where
  "char_in lo hi c \<longleftrightarrow> lo \<le> (of_char c :: nat) \<and> (of_char c :: nat) \<le> hi"

definition token_char :: "char \<Rightarrow> bool" where
  "token_char c \<longleftrightarrow> char_in 48 57 c \<or> char_in 65 90 c \<or> char_in 94 122 c
     \<or> c \<in> set ''!#$%&*+-.|~'' \<or> c = CHR 0x27"

fun canonical_from :: "bool \<Rightarrow> string \<Rightarrow> string" where
  "canonical_from up [] = []"
| "canonical_from up (c # s) =
     (if up \<and> char_in 97 122 c then char_of ((of_char c :: nat) - 32)
      else if \<not> up \<and> char_in 65 90 c then char_of ((of_char c :: nat) + 32)
      else c) # canonical_from (c = CHR ''-'') s"

definition CanonicalHeaderKey :: "string \<Rightarrow> string" where
  "CanonicalHeaderKey k = (if list_all token_char k then canonical_from True k else k)"

definition Header_Set :: "string \<Rightarrow> string \<Rightarrow> header \<Rightarrow> header" where
  "Header_Set k v h = AList.update (CanonicalHeaderKey k) v h"

text \<open>\<^verbatim>\<open>base64.StdEncoding.EncodeToString\<close>.\<close>

definition b64_char :: "nat \<Rightarrow> char" where
  "b64_char n = (if n < 26 then char_of (65 + n) else if n < 52 then char_of (71 + n)
     else if n < 62 then char_of (n - 4) else if n = 62 then CHR ''+'' else CHR ''/'')"

fun base64 :: "string \<Rightarrow> string" where
  "base64 [] = []"
| "base64 [a] = (let x = of_char a :: nat in
     [b64_char (x div 4), b64_char (x mod 4 * 16), CHR ''='', CHR ''=''])"
| "base64 [a, b] = (let x = of_char a :: nat; y = of_char b :: nat in
     [b64_char (x div 4), b64_char (x mod 4 * 16 + y div 16), b64_char (y mod 16 * 4), CHR ''=''])"
| "base64 (a # b # c # s) = (let x = of_char a :: nat; y = of_char b :: nat; z = of_char c :: nat in
     [b64_char (x div 4), b64_char (x mod 4 * 16 + y div 16), b64_char (y mod 16 * 4 + z div 64),
      b64_char (z mod 64)] @ base64 s)"

datatype AuthProvider =
    NoAuthProvider | BearerAuthProvider string | BasicAuthProvider string string

definition ContainsAny :: "string \<Rightarrow> string \<Rightarrow> bool" where
  "ContainsAny s chars \<longleftrightarrow> list_ex (\<lambda>c. c \<in> set chars) s"

abbreviation crlf :: string where "crlf \<equiv> [CHR 0x0D, CHR 0x0A]"

fun AddAuth :: "AuthProvider \<Rightarrow> header \<Rightarrow> string + header" where
  "AddAuth NoAuthProvider h = Inr h"
| "AddAuth (BearerAuthProvider token) h =
     (if token = [] then Inl ''bearer token is empty''
      else Inr (Header_Set ''Authorization'' (''Bearer '' @ token) h))"
| "AddAuth (BasicAuthProvider user pass) h =
     (if user = [] then Inl ''basic auth username is empty''
      else if pass = [] then Inl ''basic auth password is empty''
      else Inr (Header_Set ''Authorization'' (''Basic '' @ base64 (user @ '':'' @ pass)) h))"

fun AuthProvider_Validate :: "AuthProvider \<Rightarrow> string option" where
  "AuthProvider_Validate NoAuthProvider = None"
| "AuthProvider_Validate (BearerAuthProvider token) =
     (if token = [] then Some ''bearer token cannot be empty''
      else if ContainsAny token crlf then Some ''bearer token contains invalid characters''
      else None)"
| "AuthProvider_Validate (BasicAuthProvider user pass) =
     (if user = [] then Some ''basic auth username cannot be empty''
      else if pass = [] then Some ''basic auth password cannot be empty''
      else if ContainsAny user (CHR '':'' # crlf) then Some ''username contains invalid characters''
      else if ContainsAny pass crlf then Some ''password contains invalid characters''
      else None)"

fun AuthProvider_Type :: "AuthProvider \<Rightarrow> string" where
  "AuthProvider_Type NoAuthProvider = ''none''"
| "AuthProvider_Type (BearerAuthProvider _) = ''bearer''"
| "AuthProvider_Type (BasicAuthProvider _ _) = ''basic''"

text \<open>A provider that passes its own validation, or that validation's error in its context.\<close>

definition validated :: "string \<Rightarrow> AuthProvider \<Rightarrow> string + AuthProvider" where
  "validated kind p = (case AuthProvider_Validate p of None \<Rightarrow> Inr p
     | Some e \<Rightarrow> Inl (kind @ '' auth validation failed: '' @ e))"

definition NewAuthProvider :: "AuthConfig \<Rightarrow> string + AuthProvider" where
  "NewAuthProvider c =
     (if au_Type c = ''none'' \<or> au_Type c = [] then Inr NoAuthProvider
      else if au_Type c = ''bearer'' then
        if au_Token c = [] then Inl ''bearer token is required for bearer auth''
        else validated ''bearer'' (BearerAuthProvider (au_Token c))
      else if au_Type c = ''basic'' then
        if au_Username c = [] then Inl ''username is required for basic auth''
        else if au_Password c = [] then Inl ''password is required for basic auth''
        else validated ''basic'' (BasicAuthProvider (au_Username c) (au_Password c))
      else Inl (''unsupported auth type: '' @ au_Type c))"

definition ValidateAuthConfig :: "AuthConfig \<Rightarrow> string option" where
  "ValidateAuthConfig c = (case NewAuthProvider c of Inl e \<Rightarrow> Some e | Inr _ \<Rightarrow> None)"

text \<open>\<^verbatim>\<open>AuthBuilder\<close>: the builder holds the fields of an \<^verbatim>\<open>AuthConfig\<close>.\<close>

definition NewAuthBuilder :: AuthConfig where
  "NewAuthBuilder = \<lparr>au_Type = [], au_Token = [], au_Username = [], au_Password = []\<rparr>"

definition WithType :: "string \<Rightarrow> AuthConfig \<Rightarrow> AuthConfig" where
  "WithType t b = b\<lparr>au_Type := t\<rparr>"

definition WithToken :: "string \<Rightarrow> AuthConfig \<Rightarrow> AuthConfig" where
  "WithToken t b = b\<lparr>au_Token := t\<rparr>"

definition WithCredentials :: "string \<Rightarrow> string \<Rightarrow> AuthConfig \<Rightarrow> AuthConfig" where
  "WithCredentials u p b = b\<lparr>au_Username := u, au_Password := p\<rparr>"

definition AuthBuilder_Build :: "AuthConfig \<Rightarrow> string + AuthProvider" where
  "AuthBuilder_Build b = NewAuthProvider \<lparr>au_Type = au_Type b, au_Token = au_Token b,
     au_Username = au_Username b, au_Password = au_Password b\<rparr>"

section \<open>Requests\<close>

datatype request_meta = RM_String string | RM_Int int

record RequestMetadata =
  rm_ExporterVersion :: string
  rm_RequestID :: string
  rm_RetryAttempt :: int
  rm_WebhookName :: string

record WebhookRequest =
  wr_Type :: string
  wr_Timestamp :: time
  wr_NodeName :: string
  wr_Status :: "status option"
  wr_Problem :: "problem option"
  wr_Metadata :: "(string, request_meta) gomap option"

record WebhookResponse =
  wresp_Success :: bool
  wresp_Message :: string
  wresp_Error :: string

text \<open>The metadata a new request carries.\<close>

definition request_metadata :: "RequestMetadata \<Rightarrow> (string, request_meta) gomap" where
  "request_metadata m =
     [(''exporterVersion'', RM_String (rm_ExporterVersion m)),
      (''requestId'', RM_String (rm_RequestID m)),
      (''retryAttempt'', RM_Int (rm_RetryAttempt m)),
      (''webhookName'', RM_String (rm_WebhookName m))]"

definition NewStatusRequest :: "time \<Rightarrow> status option \<Rightarrow> string \<Rightarrow> RequestMetadata \<Rightarrow> WebhookRequest" where
  "NewStatusRequest now st node m = \<lparr>wr_Type = ''status'', wr_Timestamp = now, wr_NodeName = node,
     wr_Status = st, wr_Problem = None, wr_Metadata = Some (request_metadata m)\<rparr>"

definition NewProblemRequest :: "time \<Rightarrow> problem option \<Rightarrow> string \<Rightarrow> RequestMetadata \<Rightarrow> WebhookRequest" where
  "NewProblemRequest now p node m = \<lparr>wr_Type = ''problem'', wr_Timestamp = now, wr_NodeName = node,
     wr_Status = None, wr_Problem = p, wr_Metadata = Some (request_metadata m)\<rparr>"

definition squote :: "string \<Rightarrow> string" where
  "squote s = CHR 0x27 # s @ [CHR 0x27]"

text \<open>A \<^verbatim>\<open>ValidationError\<close>: the field with a message, or with the error of the nested value.\<close>

datatype request_error =
    InvalidRequest string string | InvalidStatusData validation_error | InvalidProblemData validation_error

definition WebhookRequest_Validate :: "WebhookRequest \<Rightarrow> request_error option" where
  "WebhookRequest_Validate w =
     (if wr_Type w = [] then Some (InvalidRequest ''type'' ''type is required'')
      else if wr_Type w \<noteq> ''status'' \<and> wr_Type w \<noteq> ''problem'' then
        Some (InvalidRequest ''type'' (''type must be '' @ squote ''status'' @ '' or '' @ squote ''problem''))
      else if wr_NodeName w = [] then Some (InvalidRequest ''nodeName'' ''nodeName is required'')
      else if is_zero_time (wr_Timestamp w) then Some (InvalidRequest ''timestamp'' ''timestamp is required'')
      else if wr_Type w = ''status'' then
        (case wr_Status w of
           None \<Rightarrow> Some (InvalidRequest ''status'' (''status is required when type is '' @ squote ''status''))
         | Some s \<Rightarrow> map_option InvalidStatusData (Status_Validate s))
      else
        (case wr_Problem w of
           None \<Rightarrow> Some (InvalidRequest ''problem'' (''problem is required when type is '' @ squote ''problem''))
         | Some p \<Rightarrow> map_option InvalidProblemData (Problem_Validate p)))"

text \<open>The errors of one attempt; \<open>OtherError\<close> is an error of no type of the package.\<close>

datatype client_error =
    HTTPError int string duration
  | NetworkError string string
  | TimeoutError string duration
  | OtherError string

fun client_error_text :: "client_error \<Rightarrow> string" where
  "client_error_text (HTTPError _ m _) = m"
| "client_error_text (NetworkError m cause) = m @ '': '' @ cause"
| "client_error_text (TimeoutError m _) = m"
| "client_error_text (OtherError m) = m"

definition HTTPError_IsRetryable :: "int \<Rightarrow> bool" where
  "HTTPError_IsRetryable code \<longleftrightarrow> 500 \<le> code \<or> code = 408 \<or> code = 429"

section \<open>The client\<close>

record HttpRequest =
  rq_Method :: string
  rq_URL :: string
  rq_Header :: header
  rq_Body :: string

text \<open>What the transport answers: a timeout, another failure, a body that cannot be read, or a status code
  with its body and the \<^verbatim>\<open>Retry-After\<close> header.\<close>

datatype http_answer = DoTimeout | DoFailed string | BodyFailed string | Answered int string string

record http_env =
  hv_marshal :: "WebhookRequest \<Rightarrow> string + string"
  hv_urlErr :: "string \<Rightarrow> string option"
  hv_do :: "nat \<Rightarrow> HttpRequest \<Rightarrow> http_answer"
  hv_waited :: "nat \<Rightarrow> duration \<Rightarrow> string option"
  hv_nano :: "nat \<Rightarrow> int"
  hv_parse :: "string \<Rightarrow> duration option"
  hv_fl :: "rat \<Rightarrow> float64"
  hv_dur :: "float64 \<Rightarrow> duration"

record HTTPClient =
  hc_timeout :: duration
  hc_endpoint :: WebhookEndpoint
  hc_auth :: AuthProvider

definition NewHTTPClient :: "WebhookEndpoint \<Rightarrow> string + HTTPClient" where
  "NewHTTPClient e =
     (case NewAuthProvider (wh_Auth e) of
        Inl err \<Rightarrow> Inl (''failed to create auth provider: '' @ err)
      | Inr a \<Rightarrow> Inr \<lparr>hc_timeout = wh_Timeout e, hc_endpoint = e, hc_auth = a\<rparr>)"

text \<open>The headers before authentication: the two fixed ones, then the configured ones in the order of
  the walk over the map.\<close>

definition client_headers :: "header \<Rightarrow> header" where
  "client_headers custom = fold (\<lambda>(k, v). Header_Set k v) custom
     (Header_Set ''User-Agent'' ''node-doctor-http-exporter/1.0''
       (Header_Set ''Content-Type'' ''application/json'' []))"

definition read_retry_after :: "http_env \<Rightarrow> int \<Rightarrow> string \<Rightarrow> duration" where
  "read_retry_after v code text =
     (if code = 429 \<and> text \<noteq> [] then case hv_parse v (text @ ''s'') of None \<Rightarrow> 0 | Some d \<Rightarrow> d else 0)"

definition read_answer :: "http_env \<Rightarrow> HTTPClient \<Rightarrow> http_answer \<Rightarrow> client_error option" where
  "read_answer v c a =
     (case a of
        DoTimeout \<Rightarrow> Some (TimeoutError ''request timeout'' (wh_Timeout (hc_endpoint c)))
      | DoFailed e \<Rightarrow> Some (NetworkError ''network error'' e)
      | BodyFailed e \<Rightarrow> Some (NetworkError ''failed to read response body'' e)
      | Answered code body retryAfter \<Rightarrow>
          if code < 200 \<or> 300 \<le> code then
            Some (HTTPError code (''HTTP '' @ show_int code @ '': '' @ body) (read_retry_after v code retryAfter))
          else None)"

definition doRequest ::
  "http_env \<Rightarrow> HTTPClient \<Rightarrow> nat \<Rightarrow> WebhookRequest \<Rightarrow> client_error option \<times> (nat \<times> HttpRequest) list" where
  "doRequest v c n req =
     (case hv_marshal v req of
        Inl e \<Rightarrow> (Some (OtherError (''failed to marshal request: '' @ e)), [])
      | Inr body \<Rightarrow>
          (case hv_urlErr v (wh_URL (hc_endpoint c)) of
             Some e \<Rightarrow> (Some (OtherError (''failed to create HTTP request: '' @ e)), [])
           | None \<Rightarrow>
               (case AddAuth (hc_auth c) (client_headers (wh_Headers (hc_endpoint c))) of
                  Inl e \<Rightarrow> (Some (OtherError (''failed to add authentication: '' @ e)), [])
                | Inr h \<Rightarrow>
                    let rq = \<lparr>rq_Method = ''POST'', rq_URL = wh_URL (hc_endpoint c), rq_Header = h, rq_Body = body\<rparr>
                    in (read_answer v c (hv_do v n rq), [(n, rq)]))))"

text \<open>The pause before attempt \<open>n\<close>; \<open>n\<close> is at least 1.\<close>

definition calculateDelay :: "http_env \<Rightarrow> RetryConfig \<Rightarrow> nat \<Rightarrow> duration" where
  "calculateDelay v r n =
     (let fl = hv_fl v;
          d0 = hv_dur v (fl (fl (of_int (rc_BaseDelay r)) * 2 ^ (n - 1)));
          d1 = (if rc_MaxDelay r < d0 then rc_MaxDelay r else d0);
          u = fl (fl (2 * of_int (hv_nano v n mod 1000) / 1000) - 1);
          variation = hv_dur v (fl (fl (fl (of_int d1) * fl (1 / 10)) * u));
          d2 = wrap64 (d1 + variation);
          d3 = (if d2 < 100000000 then 100000000 else d2)
      in if rc_MaxDelay r < d3 then rc_MaxDelay r else d3)"

definition retryable_patterns :: "string list" where
  "retryable_patterns = [''connection refused'', ''connection reset'', ''connection timeout'',
     ''temporary failure'', ''network is unreachable'', ''no such host'', ''timeout'']"

fun isRetryableError :: "client_error \<Rightarrow> bool" where
  "isRetryableError (HTTPError code _ _) = HTTPError_IsRetryable code"
| "isRetryableError (NetworkError _ _) = True"
| "isRetryableError (TimeoutError _ _) = True"
| "isRetryableError (OtherError m) = list_ex (contains_str (to_lower m)) retryable_patterns"

datatype send_result =
    SendOk | SendNil | SendInvalid request_error | SendCancelled string
  | SendFailed int "client_error option" | SendPanics

definition set_retry_attempt :: "nat \<Rightarrow> WebhookRequest \<Rightarrow> WebhookRequest" where
  "set_retry_attempt n req = req\<lparr>wr_Metadata :=
     Some (AList.update ''retryAttempt'' (RM_Int (int n)) (case wr_Metadata req of None \<Rightarrow> [] | Some m \<Rightarrow> m))\<rparr>"

text \<open>The attempts: \<open>k\<close> are left and the next one is number \<open>n\<close>, of \<open>limit\<close> in all.\<close>

fun send_attempts ::
  "http_env \<Rightarrow> HTTPClient \<Rightarrow> RetryConfig \<Rightarrow> int \<Rightarrow> nat \<Rightarrow> nat \<Rightarrow> WebhookRequest \<Rightarrow>
     send_result \<times> WebhookRequest \<times> (nat \<times> HttpRequest) list" where
  "send_attempts v c r limit 0 n req = (SendFailed limit None, req, [])"
| "send_attempts v c r limit (Suc k) n req =
     (case (if n = 0 then None else hv_waited v n (calculateDelay v r n)) of
        Some e \<Rightarrow> (SendCancelled e, req, [])
      | None \<Rightarrow>
          let req1 = set_retry_attempt n req
          in (case doRequest v c n req1 of
                (None, t) \<Rightarrow> (SendOk, req1, t)
              | (Some err, t) \<Rightarrow>
                  if \<not> isRetryableError err \<or> k = 0 then (SendFailed limit (Some err), req1, t)
                  else (case send_attempts v c r limit k (Suc n) req1 of
                          (res, req2, t2) \<Rightarrow> (res, req2, t @ t2))))"

text \<open>\<^verbatim>\<open>SendRequest\<close>. The endpoint's retry settings are a pointer that is read without a check.\<close>

definition SendRequest ::
  "http_env \<Rightarrow> HTTPClient \<Rightarrow> WebhookRequest option \<Rightarrow> send_result \<times> WebhookRequest option \<times> (nat \<times> HttpRequest) list" where
  "SendRequest v c ro =
     (case ro of None \<Rightarrow> (SendNil, None, [])
      | Some req \<Rightarrow>
          (case WebhookRequest_Validate req of
             Some e \<Rightarrow> (SendInvalid e, ro, [])
           | None \<Rightarrow>
               (case wh_Retry (hc_endpoint c) of
                  None \<Rightarrow> (SendPanics, ro, [])
                | Some r \<Rightarrow>
                    let limit = (if rc_MaxAttempts r \<le> 0 then 1 else rc_MaxAttempts r)
                    in (case send_attempts v c r limit (nat limit) 0 req of
                          (res, req', t) \<Rightarrow> (res, Some req', t)))))"

text \<open>What \<^verbatim>\<open>GetEndpointInfo\<close> shows; \<open>None\<close> is the panic on missing retry settings.\<close>

datatype info_value = InfoString string | InfoInt int | InfoBool bool

definition GetEndpointInfo :: "(duration \<Rightarrow> string) \<Rightarrow> HTTPClient \<Rightarrow> (string \<times> info_value) list option" where
  "GetEndpointInfo durStr c =
     (let e = hc_endpoint c in
      case wh_Retry e of None \<Rightarrow> None
      | Some r \<Rightarrow> Some
         [(''name'', InfoString (wh_Name e)), (''url'', InfoString (wh_URL e)),
          (''authType'', InfoString (AuthProvider_Type (hc_auth c))),
          (''timeout'', InfoString (durStr (wh_Timeout e))),
          (''maxAttempts'', InfoInt (rc_MaxAttempts r)),
          (''baseDelay'', InfoString (durStr (rc_BaseDelay r))),
          (''maxDelay'', InfoString (durStr (rc_MaxDelay r))),
          (''sendStatus'', InfoBool (wh_SendStatus e)), (''sendProblems'', InfoBool (wh_SendProblems e)),
          (''customHeaders'', InfoInt (int (length (wh_Headers e))))])"

section \<open>Lemmas\<close>

lemma key_Authorization [simp]: "CanonicalHeaderKey ''Authorization'' = ''Authorization''"
  by code_simp

text \<open>What the client relies on: a provider that passes its validation adds its header, and only that one.\<close>

locale auth_provider =
  fixes add_auth :: "'p \<Rightarrow> header \<Rightarrow> string + header"
    and validate :: "'p \<Rightarrow> string option"
  assumes adds: "validate p = None \<Longrightarrow> \<exists>h'. add_auth p h = Inr h'"
    and frame: "add_auth p h = Inr h' \<Longrightarrow> k \<noteq> ''Authorization'' \<Longrightarrow> map_of h' k = map_of h k"
begin

lemma other_headers_survive:
  assumes "validate p = None"
  shows "\<exists>h'. add_auth p (client_headers custom) = Inr h'
    \<and> (\<forall>k. k \<noteq> ''Authorization'' \<longrightarrow> map_of h' k = map_of (client_headers custom) k)"
proof -
  from adds [OF assms] obtain h' where "add_auth p (client_headers custom) = Inr h'" by blast
  then show ?thesis using frame by blast
qed

end

interpretation ap: auth_provider AddAuth AuthProvider_Validate
proof
  fix p h
  show "AuthProvider_Validate p = None \<Longrightarrow> \<exists>h'. AddAuth p h = Inr h'"
    by (cases p) (auto split: if_splits)
next
  fix p h h' k
  show "AddAuth p h = Inr h' \<Longrightarrow> k \<noteq> ''Authorization'' \<Longrightarrow> map_of h' k = map_of h k"
    by (cases p) (auto simp: Header_Set_def split: if_splits)
qed

text \<open>A client exists only with a provider that passed its validation, of the configured kind.\<close>

lemma NewAuthProvider_validated: "NewAuthProvider c = Inr p \<Longrightarrow> AuthProvider_Validate p = None"
  by (auto simp: NewAuthProvider_def validated_def split: if_splits option.splits)

lemma NewAuthProvider_kind:
  "NewAuthProvider c = Inr p \<Longrightarrow>
     (au_Type c = ''bearer'' \<longrightarrow> p = BearerAuthProvider (au_Token c))
   \<and> (au_Type c = ''basic'' \<longrightarrow> p = BasicAuthProvider (au_Username c) (au_Password c))"
  by (auto simp: NewAuthProvider_def validated_def split: if_splits option.splits)

lemma AuthBuilder_builds: "AuthBuilder_Build b = NewAuthProvider b"
  by (cases b) (simp add: AuthBuilder_Build_def)

lemma NewHTTPClient_Inr: "NewHTTPClient e = Inr c \<Longrightarrow>
    hc_endpoint c = e \<and> hc_timeout c = wh_Timeout e \<and> NewAuthProvider (wh_Auth e) = Inr (hc_auth c)"
  by (auto simp: NewHTTPClient_def split: sum.splits)

subsection \<open>Base64\<close>

definition b64_val :: "char \<Rightarrow> nat" where
  "b64_val c = (let n = of_char c in
     if char_in 65 90 c then n - 65 else if char_in 97 122 c then n - 71
     else if char_in 48 57 c then n + 4 else if c = CHR ''+'' then 62 else 63)"

fun unbase64 :: "string \<Rightarrow> string" where
  "unbase64 (a # b # c # d # s) =
     (let p = b64_val a; q = b64_val b; r = b64_val c; t = b64_val d;
          x = char_of (p * 4 + q div 16); y = char_of (q mod 16 * 16 + r div 4); z = char_of (r mod 4 * 64 + t)
      in if c = CHR ''='' then [x] else if d = CHR ''='' then [x, y] else x # y # z # unbase64 s)"
| "unbase64 s = []"

lemma byte_less: "(of_char c :: nat) < 256"
  by (rule nat_of_char_less_256)

lemma of_b64_char: "n < 64 \<Longrightarrow> of_char (b64_char n) =
   (if n < 26 then 65 + n else if n < 52 then 71 + n else if n < 62 then n - 4 else if n = 62 then 43 else (47::nat))"
  by (simp add: b64_char_def of_char_of)

lemma b64_digit: "n < 64 \<Longrightarrow> b64_val (b64_char n) = n \<and> b64_char n \<noteq> CHR ''=''"
proof -
  assume n: "n < 64"
  have eq: "b64_char n = c \<longleftrightarrow> of_char (b64_char n) = (of_char c :: nat)" for c
    by simp
  have plus: "b64_char 62 = CHR ''+''"
    by (simp add: b64_char_def)
  show ?thesis
    using n by (auto simp: plus b64_val_def Let_def char_in_def eq of_b64_char)
qed

lemma sextet1: "(x::nat) < 256 \<Longrightarrow> x div 4 < 64" by simp

lemma sextet2: "(y::nat) < 256 \<Longrightarrow> x mod 4 * 16 + y div 16 < 64
   \<and> (x mod 4 * 16 + y div 16) div 16 = x mod 4 \<and> (x mod 4 * 16 + y div 16) mod 16 = y div 16"
  using mod_less_divisor [of 4 x] by (auto simp: div_mult_self3 mod_mult_self3)

lemma sextet3: "(z::nat) < 256 \<Longrightarrow> y mod 16 * 4 + z div 64 < 64
   \<and> (y mod 16 * 4 + z div 64) div 4 = y mod 16 \<and> (y mod 16 * 4 + z div 64) mod 4 = z div 64"
  using mod_less_divisor [of 16 y] by (auto simp: div_mult_self3 mod_mult_self3)

lemma base64_roundtrip: "unbase64 (base64 s) = s"
proof (induction s rule: base64.induct)
  case 1
  show ?case by simp
next
  case (2 a)
  show ?case
    using b64_digit [OF sextet1 [OF byte_less [of a]]] sextet2 [of 0 "of_char a"] b64_digit [of "of_char a mod 4 * 16"]
    by (simp add: Let_def)
next
  case (3 a b)
  show ?case
    using b64_digit [OF sextet1 [OF byte_less [of a]]]
      sextet2 [OF byte_less, of "of_char a" b] b64_digit [of "of_char a mod 4 * 16 + of_char b div 16"]
      sextet3 [of 0 "of_char b"] b64_digit [of "of_char b mod 16 * 4"]
    by (simp add: Let_def)
next
  case (4 a b c s)
  show ?case
    using 4 b64_digit [OF sextet1 [OF byte_less [of a]]]
      sextet2 [OF byte_less, of "of_char a" b] b64_digit [of "of_char a mod 4 * 16 + of_char b div 16"]
      sextet3 [OF byte_less, of "of_char b" c] b64_digit [of "of_char b mod 16 * 4 + of_char c div 64"]
      b64_digit [of "of_char c mod 64"]
    by (simp add: Let_def)
qed

subsection \<open>Sending\<close>

text \<open>One attempt hands at most one request to the transport, its error is that of the answer, and every
  request is a POST to the endpoint with the provider's headers.\<close>

lemma doRequest_cases:
  assumes "doRequest v c n req = (r, t)"
  shows "(t = [] \<and> (\<exists>e. r = Some (OtherError e)))
    \<or> (\<exists>rq. t = [(n, rq)] \<and> r = read_answer v c (hv_do v n rq) \<and> rq_URL rq = wh_URL (hc_endpoint c)
         \<and> rq_Method rq = ''POST'' \<and> hv_marshal v req = Inr (rq_Body rq)
         \<and> AddAuth (hc_auth c) (client_headers (wh_Headers (hc_endpoint c))) = Inr (rq_Header rq))"
  using assms by (auto simp: doRequest_def Let_def split: sum.splits option.splits)

definition sent_by :: "HTTPClient \<Rightarrow> HttpRequest \<Rightarrow> bool" where
  "sent_by c rq \<longleftrightarrow> rq_Method rq = ''POST'' \<and> rq_URL rq = wh_URL (hc_endpoint c)
     \<and> AddAuth (hc_auth c) (client_headers (wh_Headers (hc_endpoint c))) = Inr (rq_Header rq)"

definition answer_to :: "http_env \<Rightarrow> HTTPClient \<Rightarrow> nat \<times> HttpRequest \<Rightarrow> client_error option" where
  "answer_to v c x = read_answer v c (hv_do v (fst x) (snd x))"

lemma doRequest_trace:
  assumes "doRequest v c n req = (r, t)"
  shows "length t \<le> 1" "\<forall>x\<in>set t. fst x = n \<and> sent_by c (snd x) \<and> answer_to v c x = r"
    "r = None \<Longrightarrow> t \<noteq> []"
  using doRequest_cases [OF assms] by (auto simp: sent_by_def answer_to_def)

lemma send_attempts_trace:
  assumes "send_attempts v c r limit k n req = (res, req', t)"
  shows "length t \<le> k \<and> (\<forall>x\<in>set t. n \<le> fst x \<and> fst x < n + k \<and> sent_by c (snd x))
    \<and> sorted_wrt (<) (map fst t)
    \<and> (\<forall>x\<in>set (butlast t). \<exists>e. answer_to v c x = Some e \<and> isRetryableError e)
    \<and> (res = SendOk \<longrightarrow> t \<noteq> [] \<and> answer_to v c (last t) = None)
    \<and> (res \<noteq> SendOk \<longrightarrow> (\<forall>x\<in>set t. answer_to v c x \<noteq> None))"
  using assms
proof (induction k arbitrary: n req res req' t)
  case 0
  then show ?case by auto
next
  case (Suc k)
  show ?case
  proof (cases "if n = 0 then None else hv_waited v n (calculateDelay v r n)")
    case (Some e)
    with Suc.prems show ?thesis by auto
  next
    case None
    obtain ro t1 where d: "doRequest v c n (set_retry_attempt n req) = (ro, t1)"
      by (cases "doRequest v c n (set_retry_attempt n req)")
    note tr = doRequest_trace [OF d]
    show ?thesis
    proof (cases "ro = None \<or> (\<exists>e. ro = Some e \<and> (\<not> isRetryableError e \<or> k = 0))")
      case True
      have "res = (case ro of None \<Rightarrow> SendOk | Some e \<Rightarrow> SendFailed limit (Some e))" "t = t1"
        using Suc.prems None d True by (auto split: option.splits)
      moreover have "butlast t1 = []" "sorted_wrt (<) (map fst t1)"
        using tr(1) by (cases t1; simp)+
      ultimately show ?thesis
        using tr by (auto split: option.splits dest: last_in_set)
    next
      case False
      then obtain e where e: "ro = Some e" "isRetryableError e" "k \<noteq> 0" by auto
      obtain res2 req2 t2 where rec: "send_attempts v c r limit k (Suc n) (set_retry_attempt n req) = (res2, req2, t2)"
        by (cases "send_attempts v c r limit k (Suc n) (set_retry_attempt n req)")
      have eq: "res = res2" "t = t1 @ t2"
        using Suc.prems None d e rec by simp_all
      note ih = Suc.IH [OF rec]
      have one: "answer_to v c x = Some e" if "x \<in> set t1" for x
        using tr(2) that e(1) by simp
      have "sorted_wrt (<) (map fst t1)"
        using tr(1) by (cases t1; simp)
      moreover have "\<forall>x\<in>set t1. \<forall>y\<in>set t2. fst x < fst y"
        using tr(2) ih by (auto simp: Suc_le_eq)
      ultimately have "sorted_wrt (<) (map fst t)"
        using ih by (auto simp: eq sorted_wrt_append)
      moreover have "length t \<le> Suc k"
        using tr(1) ih by (simp add: eq)
      moreover have "\<forall>x\<in>set t. n \<le> fst x \<and> fst x < n + Suc k \<and> sent_by c (snd x)"
        using tr(2) ih by (auto simp: eq)
      moreover have "\<forall>x\<in>set (butlast t). \<exists>e. answer_to v c x = Some e \<and> isRetryableError e"
        using one e(2) ih by (auto simp: eq butlast_append dest: in_set_butlastD)
      moreover have "res = SendOk \<longrightarrow> t \<noteq> [] \<and> answer_to v c (last t) = None"
        using ih by (auto simp: eq)
      moreover have "res \<noteq> SendOk \<longrightarrow> (\<forall>x\<in>set t. answer_to v c x \<noteq> None)"
        using ih one by (auto simp: eq)
      ultimately show ?thesis by blast
    qed
  qed
qed

lemma read_answer_None: "read_answer v c a = None \<longleftrightarrow>
    (\<exists>code body ra. a = Answered code body ra \<and> 200 \<le> code \<and> code < 300)"
  by (auto simp: read_answer_def split: http_answer.splits)

lemma SendRequest_attempts:
  assumes "SendRequest v c (Some req) = (res, req', t)" "t \<noteq> [] \<or> res = SendOk"
  obtains r limit req1 where "wh_Retry (hc_endpoint c) = Some r" "WebhookRequest_Validate req = None"
    "limit = max 1 (rc_MaxAttempts r)" "send_attempts v c r limit (nat limit) 0 req = (res, req1, t)"
  using assms
  by (auto simp: SendRequest_def Let_def max_def split: option.splits prod.splits if_splits)

lemma SendRequest_sent:
  assumes "SendRequest v c req = (res, req', t)" "x \<in> set t"
  shows "\<exists>q r limit req1. req = Some q \<and> send_attempts v c r limit (nat limit) 0 q = (res, req1, t)"
proof (cases req)
  case None
  with assms show ?thesis by (simp add: SendRequest_def)
next
  case (Some q)
  have "t \<noteq> [] \<or> res = SendOk" using assms(2) by auto
  from SendRequest_attempts [OF assms(1) [unfolded Some] this] Some show ?thesis by metis
qed

text \<open>What a provider writes into the header.\<close>

lemma AddAuth_bearer: "AddAuth (BearerAuthProvider t) h = Inr h' \<Longrightarrow>
    map_of h' ''Authorization'' = Some (''Bearer '' @ t)"
  by (auto simp: Header_Set_def split: if_splits)

lemma AddAuth_basic: "AddAuth (BasicAuthProvider u p) h = Inr h' \<Longrightarrow>
    map_of h' ''Authorization'' = Some (''Basic '' @ base64 (u @ '':'' @ p))"
  by (auto simp: Header_Set_def split: if_splits)

text \<open>The pauses stay within the configured bounds, whatever the clock and the rounding do.\<close>

lemma calculateDelay_bounds:
  "calculateDelay v r n \<le> rc_MaxDelay r \<and> min 100000000 (rc_MaxDelay r) \<le> calculateDelay v r n"
  by (simp add: calculateDelay_def Let_def)

text \<open>A context with a deadline after \<open>d\<close>, created with the request, over a client with the same timeout
  \<open>d\<close>: attempt \<open>n\<close> ends at \<open>fin n\<close>; it times out only when \<open>d\<close> has passed since it began, or since the
  context was made, and a pause that begins after the deadline ends with the context's error.\<close>

definition deadline_context :: "(nat \<Rightarrow> duration) \<Rightarrow> duration \<Rightarrow> http_env \<Rightarrow> bool" where
  "deadline_context fin d v \<longleftrightarrow>
     (\<forall>n rq. hv_do v n rq = DoTimeout \<longrightarrow> d \<le> fin n)
   \<and> (\<forall>n p. d \<le> fin n \<longrightarrow> hv_waited v (Suc n) p = Some ''context deadline exceeded'')"

lemma send_attempts_after_timeout:
  assumes "send_attempts v c r limit k n req = (res, req', t)" "deadline_context fin d v"
    "(j, rq) \<in> set t" "hv_do v j rq = DoTimeout"
  shows "t \<noteq> [] \<and> last t = (j, rq) \<and> res \<noteq> SendOk
    \<and> (Suc j < n + k \<longrightarrow> res = SendCancelled ''context deadline exceeded'')"
  using assms(1,3)
proof (induction k arbitrary: n req res req' t)
  case 0
  then show ?case by simp
next
  case (Suc k)
  let ?req1 = "set_retry_attempt n req"
  show ?case
  proof (cases "if n = 0 then None else hv_waited v n (calculateDelay v r n)")
    case (Some e)
    with Suc.prems show ?thesis by auto
  next
    case None
    obtain ro t1 where d: "doRequest v c n ?req1 = (ro, t1)" by (cases "doRequest v c n ?req1")
    note tr = doRequest_trace [OF d]
    show ?thesis
    proof (cases "(j, rq) \<in> set t1")
      case True
      then have j: "j = n" "t1 = [(j, rq)]" using tr(1,2) by (cases t1; auto)+
      have ro: "ro = Some (TimeoutError ''request timeout'' (wh_Timeout (hc_endpoint c)))"
        using tr(2) True assms(4) by (auto simp: answer_to_def read_answer_def)
      have "hv_waited v (Suc n) p = Some ''context deadline exceeded''" for p
        using assms(2,4) j(1) by (auto simp: deadline_context_def)
      then show ?thesis
        using Suc.prems None d ro j by (cases k) auto
    next
      case False
      obtain res2 req2 t2 where rec: "send_attempts v c r limit k (Suc n) ?req1 = (res2, req2, t2)"
        by (cases "send_attempts v c r limit k (Suc n) ?req1")
      have eq: "res = res2" "t = t1 @ t2" "(j, rq) \<in> set t2"
        using Suc.prems None d rec False by (auto simp: Let_def split: option.splits if_splits)
      show ?thesis using Suc.IH [OF rec eq(3)] by (simp add: eq)
    qed
  qed
qed

section \<open>Examples\<close>

definition demo_retry :: RetryConfig where
  "demo_retry = \<lparr>rc_MaxAttempts = 3, rc_BaseDelayString = ''1s'', rc_BaseDelay = second,
     rc_MaxDelayString = ''30s'', rc_MaxDelay = 30 * second\<rparr>"

definition demo_webhook :: WebhookEndpoint where
  "demo_webhook = \<lparr>wh_Name = ''ops'', wh_URL = ''https://ops/hook'',
     wh_Auth = \<lparr>au_Type = ''basic'', au_Token = [], au_Username = ''nd'', au_Password = ''pw''\<rparr>,
     wh_TimeoutString = ''30s'', wh_Timeout = 30 * second, wh_Retry = Some demo_retry,
     wh_Headers = [(''authorization'', ''Bearer stolen'')], wh_SendStatus = True, wh_SendProblems = True\<rparr>"

definition demo_http_client :: HTTPClient where
  "demo_http_client = \<lparr>hc_timeout = 30 * second, hc_endpoint = demo_webhook, hc_auth = BasicAuthProvider ''nd'' ''pw''\<rparr>"

definition demo_webhook_problem :: problem where
  "demo_webhook_problem = \<lparr>pr_Type = ''DiskFull'', pr_Resource = ''/var'', pr_Severity = ProblemCritical,
     pr_Message = ''full'', pr_DetectedAt = 1, pr_Metadata = None\<rparr>"

definition demo_webhook_request :: WebhookRequest where
  "demo_webhook_request = NewProblemRequest 1 (Some demo_webhook_problem) ''n1''
     \<lparr>rm_ExporterVersion = ''1.0.0'', rm_RequestID = ''r1'', rm_RetryAttempt = 0, rm_WebhookName = ''ops''\<rparr>"

text \<open>A server that is overloaded once and then answers, and one that does not answer at all.\<close>

definition demo_http_env :: "(nat \<Rightarrow> http_answer) \<Rightarrow> (nat \<Rightarrow> duration \<Rightarrow> string option) \<Rightarrow> http_env" where
  "demo_http_env answer waited = \<lparr>hv_marshal = (\<lambda>_. Inr ''{}''), hv_urlErr = (\<lambda>_. None),
     hv_do = (\<lambda>n _. answer n), hv_waited = waited, hv_nano = (\<lambda>_. 500), hv_parse = (\<lambda>_. None),
     hv_fl = (\<lambda>x. x), hv_dur = (\<lambda>x. \<lfloor>x\<rfloor>)\<rparr>"

definition demo_overload :: http_env where
  "demo_overload = demo_http_env (\<lambda>n. if n = 0 then Answered 503 [] [] else Answered 200 [] []) (\<lambda>_ _. None)"

definition demo_dead_server :: http_env where
  "demo_dead_server = demo_http_env (\<lambda>_. DoTimeout) (\<lambda>_ _. Some ''context deadline exceeded'')"

lemmas demo_http_defs = demo_retry_def demo_webhook_def demo_http_client_def demo_webhook_problem_def
  demo_webhook_request_def demo_http_env_def demo_overload_def demo_dead_server_def NewProblemRequest_def
  WebhookRequest_Validate_def Problem_Validate_def is_zero_time_def severity_defs request_metadata_def

definition demo_sent :: HttpRequest where
  "demo_sent = \<lparr>rq_Method = ''POST'', rq_URL = ''https://ops/hook'',
     rq_Header = [(''Content-Type'', ''application/json''), (''User-Agent'', ''node-doctor-http-exporter/1.0''),
       (''Authorization'', ''Basic bmQ6cHc='')], rq_Body = ''{}''\<rparr>"

lemma demo_client_made: "NewHTTPClient demo_webhook = Inr demo_http_client"
  by (simp add: NewHTTPClient_def NewAuthProvider_def validated_def ContainsAny_def demo_webhook_def demo_http_client_def)

lemma demo_headers: "AddAuth (BasicAuthProvider ''nd'' ''pw'') (client_headers [(''authorization'', ''Bearer stolen'')])
    = Inr (rq_Header demo_sent)"
  by code_simp

lemma demo_attempt: "doRequest demo_overload demo_http_client n req =
    (if n = 0 then Some (HTTPError 503 (''HTTP 503: '') 0) else None, [(n, demo_sent)])"
proof -
  have "char_of (53 :: nat) = CHR ''5''" "char_of (48 :: nat) = CHR ''0''" "char_of (51 :: nat) = CHR ''3''"
    by code_simp+
  with demo_headers show ?thesis
  by (simp add: doRequest_def Let_def read_answer_def read_retry_after_def demo_overload_def demo_http_env_def
      demo_http_client_def demo_webhook_def demo_sent_def show_int_def show_nat.simps del: AddAuth.simps)
qed

lemma demo_run: "SendRequest demo_overload demo_http_client (Some demo_webhook_request)
    = (SendOk, Some (set_retry_attempt 1 (set_retry_attempt 0 demo_webhook_request)), [(0, demo_sent), (1, demo_sent)])"
proof -
  have v: "WebhookRequest_Validate demo_webhook_request = None" by code_simp
  have w: "hv_waited demo_overload n d = None" for n d
    by (simp add: demo_overload_def demo_http_env_def)
  have k: "nat 3 = Suc (Suc (Suc 0))" by simp
  have r: "wh_Retry (hc_endpoint demo_http_client) = Some demo_retry" "rc_MaxAttempts demo_retry = 3"
    by (simp_all add: demo_http_client_def demo_webhook_def demo_retry_def)
  have "send_attempts demo_overload demo_http_client demo_retry 3 (nat 3) 0 demo_webhook_request
    = (SendOk, set_retry_attempt 1 (set_retry_attempt 0 demo_webhook_request), [(0, demo_sent), (1, demo_sent)])"
    unfolding k by (simp add: demo_attempt w HTTPError_IsRetryable_def Let_def)
  then show ?thesis
    by (simp add: SendRequest_def v r Let_def)
qed

section \<open>Properties\<close>

text \<open>
  Delivery with retries is bounded and stops at the first answer that settles it: a webhook request is
  attempted at most \<^verbatim>\<open>maxAttempts\<close> times (once when that is not positive), with increasing attempt numbers,
  always as a POST to the configured URL; every attempt but the last was answered by an error worth retrying
  (a timeout, a network error, 408, 429 or 5xx), so nothing is sent again after an answer in 200-299 or after
  any other 4xx or 3xx; the call succeeds exactly when an attempt was answered in 200-299, and that was the last.
\<close>

lemma webhook_attempts_bounded:
  assumes "SendRequest v c (Some req) = (res, req', t)" "wh_Retry (hc_endpoint c) = Some r"
  shows "length t \<le> nat (max 1 (rc_MaxAttempts r)) \<and> sorted_wrt (<) (map fst t)
    \<and> (\<forall>(n, rq)\<in>set t. rq_Method rq = ''POST'' \<and> rq_URL rq = wh_URL (hc_endpoint c))
    \<and> (\<forall>(n, rq)\<in>set (butlast t). \<exists>e. read_answer v c (hv_do v n rq) = Some e \<and> isRetryableError e)
    \<and> (res = SendOk \<longleftrightarrow> (\<exists>(n, rq)\<in>set t. \<exists>code body ra. hv_do v n rq = Answered code body ra \<and> 200 \<le> code \<and> code < 300))"
proof (cases "t \<noteq> [] \<or> res = SendOk")
  case True
  obtain limit req1 where limit: "limit = max 1 (rc_MaxAttempts r)"
    and sa: "send_attempts v c r limit (nat limit) 0 req = (res, req1, t)"
    using SendRequest_attempts [OF assms(1) True] assms(2) by (metis option.inject)
  note tr = send_attempts_trace [OF sa]
  have "res = SendOk \<longleftrightarrow> (\<exists>x\<in>set t. answer_to v c x = None)"
    using tr by (cases "res = SendOk") auto
  then have ok: "res = SendOk \<longleftrightarrow> (\<exists>x\<in>set t. \<exists>code body ra. hv_do v (fst x) (snd x) = Answered code body ra
      \<and> 200 \<le> code \<and> code < 300)"
    by (simp only: answer_to_def read_answer_None)
  show ?thesis
    unfolding case_prod_unfold ok using tr limit by (simp add: answer_to_def sent_by_def)
next
  case False
  then show ?thesis by simp
qed

text \<open>
  The configured credentials are what travels: every request a client sends carries, whatever headers the
  configuration adds, the \<^verbatim>\<open>Authorization\<close> header of its endpoint's settings, which is the bearer token or a
  Basic header that decodes to user name, colon and password; no user name contains a colon, so the receiver
  splits it into the two configured values, and neither value can end the header line.
\<close>

lemma webhook_credentials_travel:
  assumes "NewHTTPClient e = Inr c" "SendRequest v c req = (res, req', t)" "(n, rq) \<in> set t"
  shows "(au_Type (wh_Auth e) = ''bearer'' \<longrightarrow>
       map_of (rq_Header rq) ''Authorization'' = Some (''Bearer '' @ au_Token (wh_Auth e))
       \<and> set (au_Token (wh_Auth e)) \<inter> set crlf = {})
    \<and> (au_Type (wh_Auth e) = ''basic'' \<longrightarrow>
       (\<exists>code. map_of (rq_Header rq) ''Authorization'' = Some (''Basic '' @ code)
          \<and> unbase64 code = au_Username (wh_Auth e) @ '':'' @ au_Password (wh_Auth e))
       \<and> CHR '':'' \<notin> set (au_Username (wh_Auth e))
       \<and> set (au_Username (wh_Auth e) @ au_Password (wh_Auth e)) \<inter> set crlf = {})"
proof -
  obtain q r limit req1 where "send_attempts v c r limit (nat limit) 0 q = (res, req1, t)"
    using SendRequest_sent [OF assms(2,3)] by blast
  from send_attempts_trace [OF this] assms(3) have "sent_by c rq" by auto
  then have add: "AddAuth (hc_auth c) (client_headers (wh_Headers (hc_endpoint c))) = Inr (rq_Header rq)"
    by (simp add: sent_by_def)
  note made = NewHTTPClient_Inr [OF assms(1)]
  have valid: "AuthProvider_Validate (hc_auth c) = None"
    using made NewAuthProvider_validated by blast
  have kind: "(au_Type (wh_Auth e) = ''bearer'' \<longrightarrow> hc_auth c = BearerAuthProvider (au_Token (wh_Auth e)))
    \<and> (au_Type (wh_Auth e) = ''basic'' \<longrightarrow> hc_auth c = BasicAuthProvider (au_Username (wh_Auth e)) (au_Password (wh_Auth e)))"
    using made NewAuthProvider_kind by blast
  show ?thesis
  proof (intro conjI impI)
    assume "au_Type (wh_Auth e) = ''bearer''"
    then have p: "hc_auth c = BearerAuthProvider (au_Token (wh_Auth e))" using kind by blast
    show "map_of (rq_Header rq) ''Authorization'' = Some (''Bearer '' @ au_Token (wh_Auth e))"
      using add p AddAuth_bearer by metis
    show "set (au_Token (wh_Auth e)) \<inter> set crlf = {}"
      using valid p by (auto simp: ContainsAny_def list_ex_iff split: if_splits)
  next
    assume "au_Type (wh_Auth e) = ''basic''"
    then have p: "hc_auth c = BasicAuthProvider (au_Username (wh_Auth e)) (au_Password (wh_Auth e))"
      using kind by blast
    show "\<exists>code. map_of (rq_Header rq) ''Authorization'' = Some (''Basic '' @ code)
        \<and> unbase64 code = au_Username (wh_Auth e) @ '':'' @ au_Password (wh_Auth e)"
      using add p AddAuth_basic base64_roundtrip by metis
    show "CHR '':'' \<notin> set (au_Username (wh_Auth e))"
      "set (au_Username (wh_Auth e) @ au_Password (wh_Auth e)) \<inter> set crlf = {}"
      using valid p by (auto simp: ContainsAny_def list_ex_iff split: if_splits)
  qed
qed

text \<open>A timeout under the deadline of the request is the last attempt: what is called retryable is not retried.\<close>

lemma webhook_timeout_is_final:
  assumes "deadline_context fin d v" "SendRequest v c req = (res, req', t)"
    "(j, rq) \<in> set t" "hv_do v j rq = DoTimeout"
  shows "last t = (j, rq) \<and> res \<noteq> SendOk"
proof -
  obtain q r limit req1 where "send_attempts v c r limit (nat limit) 0 q = (res, req1, t)"
    using SendRequest_sent [OF assms(2,3)] by blast
  from send_attempts_after_timeout [OF this assms(1,3,4)] show ?thesis by simp
qed

end
