(* ===== verification/HTTP_Pool.thy ===== *)
theory HTTP_Pool
  imports HTTP_Client
begin

text \<open>
  \<^verbatim>\<open>pkg/exporters/http\<close>, files \<^verbatim>\<open>stats.go\<close> and \<^verbatim>\<open>worker.go\<close>: the statistics and the worker pool.

  The operations are functions; \<open>pool_step\<close> interleaves them: submitters, workers and the goroutine in
  \<^verbatim>\<open>Stop\<close>. A submission is two steps, since \<^verbatim>\<open>submitRequest\<close> gives the lock back between the test of
  \<^verbatim>\<open>started\<close> and the send on the channel. \<^verbatim>\<open>Stop\<close> holds the pool's lock from its first step to its
  last, so a step that takes the lock needs \<open>px_stop = NotStopping\<close>. A worker's state is the request it has
  taken with the endpoints that are left. \<open>px_taken\<close> is a history of the requests taken from the channel.
  The counters are unbounded here. Several pools share one \<open>Stats\<close>, which is passed beside the pool.
\<close>

section \<open>Statistics\<close>

record WebhookStats =
  hw_name :: string
  hw_requestsTotal :: int
  hw_requestsSuccess :: int
  hw_requestsFailed :: int
  hw_lastRequestTime :: time
  hw_lastSuccessTime :: time
  hw_lastError :: "string option"
  hw_lastErrorTime :: time
  hw_totalResponseTime :: duration
  hw_avgResponseTime :: duration
  hw_retryAttempts :: int

record Stats =
  hs_startTime :: time
  hs_statusExportsTotal :: int
  hs_statusExportsSuccess :: int
  hs_statusExportsFailed :: int
  hs_problemExportsTotal :: int
  hs_problemExportsSuccess :: int
  hs_problemExportsFailed :: int
  hs_requestsQueued :: int
  hs_requestsDropped :: int
  hs_lastExportTime :: time
  hs_lastError :: "string option"
  hs_lastErrorTime :: time
  hs_webhookStats :: "(string, WebhookStats) gomap"

definition NewStats :: "time \<Rightarrow> Stats" where
  "NewStats now = \<lparr>hs_startTime = now, hs_statusExportsTotal = 0, hs_statusExportsSuccess = 0,
     hs_statusExportsFailed = 0, hs_problemExportsTotal = 0, hs_problemExportsSuccess = 0,
     hs_problemExportsFailed = 0, hs_requestsQueued = 0, hs_requestsDropped = 0, hs_lastExportTime = 0,
     hs_lastError = None, hs_lastErrorTime = 0, hs_webhookStats = []\<rparr>"

definition NewWebhookStats :: "string \<Rightarrow> WebhookStats" where
  "NewWebhookStats name = \<lparr>hw_name = name, hw_requestsTotal = 0, hw_requestsSuccess = 0, hw_requestsFailed = 0,
     hw_lastRequestTime = 0, hw_lastSuccessTime = 0, hw_lastError = None, hw_lastErrorTime = 0,
     hw_totalResponseTime = 0, hw_avgResponseTime = 0, hw_retryAttempts = 0\<rparr>"

text \<open>\<^verbatim>\<open>GetWebhookStats\<close> for its effect: an entry is made when there is none.\<close>

definition GetWebhookStats :: "string \<Rightarrow> Stats \<Rightarrow> Stats" where
  "GetWebhookStats name s =
     (case map_of (hs_webhookStats s) name of Some _ \<Rightarrow> s
      | None \<Rightarrow> s\<lparr>hs_webhookStats := AList.update name (NewWebhookStats name) (hs_webhookStats s)\<rparr>)"

text \<open>\<open>err\<close> is \<open>None\<close> on success.\<close>

definition recordRequest :: "time \<Rightarrow> duration \<Rightarrow> string option \<Rightarrow> WebhookStats \<Rightarrow> WebhookStats" where
  "recordRequest now took err w =
     (let w1 = w\<lparr>hw_requestsTotal := hw_requestsTotal w + 1, hw_lastRequestTime := now\<rparr>;
          w2 = (case err of
             None \<Rightarrow> w1\<lparr>hw_requestsSuccess := hw_requestsSuccess w1 + 1, hw_lastSuccessTime := now\<rparr>
           | Some e \<Rightarrow> w1\<lparr>hw_requestsFailed := hw_requestsFailed w1 + 1, hw_lastError := Some e, hw_lastErrorTime := now\<rparr>)
      in if 0 < took then
           let time1 = hw_totalResponseTime w2 + took
           in if 0 < hw_requestsTotal w2
              then w2\<lparr>hw_totalResponseTime := time1, hw_avgResponseTime := time1 div hw_requestsTotal w2\<rparr>
              else w2\<lparr>hw_totalResponseTime := time1\<rparr>
         else w2)"

definition update_webhook :: "string \<Rightarrow> (WebhookStats \<Rightarrow> WebhookStats) \<Rightarrow> Stats \<Rightarrow> Stats" where
  "update_webhook name f s =
     (case map_of (hs_webhookStats s) name of None \<Rightarrow> s
      | Some w \<Rightarrow> s\<lparr>hs_webhookStats := AList.update name (f w) (hs_webhookStats s)\<rparr>)"

definition RecordStatusExport :: "time \<Rightarrow> string \<Rightarrow> duration \<Rightarrow> string option \<Rightarrow> Stats \<Rightarrow> Stats" where
  "RecordStatusExport now name took err s =
     (let s1 = s\<lparr>hs_statusExportsTotal := hs_statusExportsTotal s + 1, hs_lastExportTime := now\<rparr>;
          s2 = (case err of
             None \<Rightarrow> s1\<lparr>hs_statusExportsSuccess := hs_statusExportsSuccess s1 + 1\<rparr>
           | Some e \<Rightarrow> s1\<lparr>hs_statusExportsFailed := hs_statusExportsFailed s1 + 1, hs_lastError := Some e,
                          hs_lastErrorTime := now\<rparr>)
      in update_webhook name (recordRequest now took err) s2)"

definition RecordProblemExport :: "time \<Rightarrow> string \<Rightarrow> duration \<Rightarrow> string option \<Rightarrow> Stats \<Rightarrow> Stats" where
  "RecordProblemExport now name took err s =
     (let s1 = s\<lparr>hs_problemExportsTotal := hs_problemExportsTotal s + 1, hs_lastExportTime := now\<rparr>;
          s2 = (case err of
             None \<Rightarrow> s1\<lparr>hs_problemExportsSuccess := hs_problemExportsSuccess s1 + 1\<rparr>
           | Some e \<Rightarrow> s1\<lparr>hs_problemExportsFailed := hs_problemExportsFailed s1 + 1, hs_lastError := Some e,
                          hs_lastErrorTime := now\<rparr>)
      in update_webhook name (recordRequest now took err) s2)"

definition RecordQueuedRequest :: "Stats \<Rightarrow> Stats" where
  "RecordQueuedRequest s = s\<lparr>hs_requestsQueued := hs_requestsQueued s + 1\<rparr>"

definition RecordDroppedRequest :: "Stats \<Rightarrow> Stats" where
  "RecordDroppedRequest s = s\<lparr>hs_requestsDropped := hs_requestsDropped s + 1\<rparr>"

definition RecordRetryAttempt :: "string \<Rightarrow> Stats \<Rightarrow> Stats" where
  "RecordRetryAttempt name = update_webhook name (\<lambda>w. w\<lparr>hw_retryAttempts := hw_retryAttempts w + 1\<rparr>)"

text \<open>The readings of a snapshot; a snapshot has the fields of the statistics it copies.\<close>

definition HTTP_TotalExports :: "Stats \<Rightarrow> int" where
  "HTTP_TotalExports s = hs_statusExportsTotal s + hs_problemExportsTotal s"

definition HTTP_TotalSuccesses :: "Stats \<Rightarrow> int" where
  "HTTP_TotalSuccesses s = hs_statusExportsSuccess s + hs_problemExportsSuccess s"

definition HTTP_TotalFailures :: "Stats \<Rightarrow> int" where
  "HTTP_TotalFailures s = hs_statusExportsFailed s + hs_problemExportsFailed s"

definition HTTP_Uptime :: "time \<Rightarrow> Stats \<Rightarrow> duration" where
  "HTTP_Uptime now s = time_sub now (hs_startTime s)"

definition success_rate :: "(rat \<Rightarrow> float64) \<Rightarrow> int \<Rightarrow> int \<Rightarrow> float64" where
  "success_rate fl n good = (if n = 0 then 0 else fl (fl (of_int good / of_int n) * 100))"

definition GetSuccessRate :: "(rat \<Rightarrow> float64) \<Rightarrow> Stats \<Rightarrow> float64" where
  "GetSuccessRate fl s = success_rate fl (HTTP_TotalExports s) (HTTP_TotalSuccesses s)"

definition GetStatusSuccessRate :: "(rat \<Rightarrow> float64) \<Rightarrow> Stats \<Rightarrow> float64" where
  "GetStatusSuccessRate fl s = success_rate fl (hs_statusExportsTotal s) (hs_statusExportsSuccess s)"

definition GetProblemSuccessRate :: "(rat \<Rightarrow> float64) \<Rightarrow> Stats \<Rightarrow> float64" where
  "GetProblemSuccessRate fl s = success_rate fl (hs_problemExportsTotal s) (hs_problemExportsSuccess s)"

definition Webhook_GetSuccessRate :: "(rat \<Rightarrow> float64) \<Rightarrow> WebhookStats \<Rightarrow> float64" where
  "Webhook_GetSuccessRate fl w = success_rate fl (hw_requestsTotal w) (hw_requestsSuccess w)"

definition Webhook_IsHealthy :: "(rat \<Rightarrow> float64) \<Rightarrow> time \<Rightarrow> WebhookStats \<Rightarrow> bool" where
  "Webhook_IsHealthy fl now w \<longleftrightarrow>
     (if hw_requestsTotal w = 0 then True
      else 90 \<le> Webhook_GetSuccessRate fl w \<and> time_sub now (hw_lastSuccessTime w) \<le> 5 * minute)"

section \<open>The pool's operations\<close>

record WorkerRequest =
  wq_Type :: string
  wq_Status :: "status option"
  wq_Problem :: "problem option"
  wq_Endpoints :: "WebhookEndpoint list"
  wq_RequestID :: string
  wq_SubmitTime :: time

record WorkerPool =
  wp_workers :: int
  wp_queueSize :: int
  wp_requestCh :: "WorkerRequest list"
  wp_closed :: bool
  wp_cancelled :: bool
  wp_clients :: "(string, HTTPClient) gomap"
  wp_nodeName :: string
  wp_started :: bool

definition NewWorkerPool :: "int \<Rightarrow> int \<Rightarrow> string \<Rightarrow> string + WorkerPool" where
  "NewWorkerPool workers queueSize node =
     (if workers \<le> 0 then Inl (''workers must be positive, got '' @ show_int workers)
      else if queueSize \<le> 0 then Inl (''queueSize must be positive, got '' @ show_int queueSize)
      else if node = [] then Inl ''nodeName cannot be empty''
      else Inr \<lparr>wp_workers = workers, wp_queueSize = queueSize, wp_requestCh = [], wp_closed = False,
                wp_cancelled = False, wp_clients = [], wp_nodeName = node, wp_started = False\<rparr>)"

definition WorkerPool_Start :: "WorkerPool \<Rightarrow> string + WorkerPool" where
  "WorkerPool_Start p = (if wp_started p then Inl ''worker pool already started'' else Inr (p\<lparr>wp_started := True\<rparr>))"

datatype submit_result = Queued | Dropped | NotStarted | NilData | SendOnClosed

text \<open>The send of \<^verbatim>\<open>submitRequest\<close>, once the pool was seen started.\<close>

definition submit_send :: "WorkerRequest \<Rightarrow> WorkerPool \<Rightarrow> Stats \<Rightarrow> submit_result \<times> WorkerPool \<times> Stats" where
  "submit_send q p s =
     (if wp_closed p then (SendOnClosed, p, s)
      else if int (length (wp_requestCh p)) < wp_queueSize p
        then (Queued, p\<lparr>wp_requestCh := wp_requestCh p @ [q]\<rparr>, RecordQueuedRequest s)
        else (Dropped, p, RecordDroppedRequest s))"

definition submitRequest :: "WorkerRequest \<Rightarrow> WorkerPool \<Rightarrow> Stats \<Rightarrow> submit_result \<times> WorkerPool \<times> Stats" where
  "submitRequest q p s = (if \<not> wp_started p then (NotStarted, p, s) else submit_send q p s)"

definition status_request :: "time \<Rightarrow> status \<Rightarrow> WebhookEndpoint list \<Rightarrow> string \<Rightarrow> WorkerRequest" where
  "status_request now st es rid = \<lparr>wq_Type = ''status'', wq_Status = Some st, wq_Problem = None,
     wq_Endpoints = es, wq_RequestID = rid, wq_SubmitTime = now\<rparr>"

definition problem_request :: "time \<Rightarrow> problem \<Rightarrow> WebhookEndpoint list \<Rightarrow> string \<Rightarrow> WorkerRequest" where
  "problem_request now pr es rid = \<lparr>wq_Type = ''problem'', wq_Status = None, wq_Problem = Some pr,
     wq_Endpoints = es, wq_RequestID = rid, wq_SubmitTime = now\<rparr>"

definition SubmitStatusRequest ::
  "time \<Rightarrow> status option \<Rightarrow> WebhookEndpoint list \<Rightarrow> string \<Rightarrow> WorkerPool \<Rightarrow> Stats \<Rightarrow> submit_result \<times> WorkerPool \<times> Stats" where
  "SubmitStatusRequest now st es rid p s =
     (case st of None \<Rightarrow> (NilData, p, s) | Some x \<Rightarrow> submitRequest (status_request now x es rid) p s)"

definition SubmitProblemRequest ::
  "time \<Rightarrow> problem option \<Rightarrow> WebhookEndpoint list \<Rightarrow> string \<Rightarrow> WorkerPool \<Rightarrow> Stats \<Rightarrow> submit_result \<times> WorkerPool \<times> Stats" where
  "SubmitProblemRequest now pr es rid p s =
     (case pr of None \<Rightarrow> (NilData, p, s) | Some x \<Rightarrow> submitRequest (problem_request now x es rid) p s)"

text \<open>The endpoints of \<^verbatim>\<open>processRequest\<close>: those that want this kind of data.\<close>

definition targetEndpoints :: "WorkerRequest \<Rightarrow> WebhookEndpoint list" where
  "targetEndpoints q = filter (\<lambda>e. if wq_Type q = ''status'' then wh_SendStatus e
     else if wq_Type q = ''problem'' then wh_SendProblems e else False) (wq_Endpoints q)"

definition client_key :: "WebhookEndpoint \<Rightarrow> string" where
  "client_key e = wh_Name e @ ''|'' @ wh_URL e"

definition getHTTPClient :: "WebhookEndpoint \<Rightarrow> WorkerPool \<Rightarrow> (string + HTTPClient) \<times> WorkerPool" where
  "getHTTPClient e p =
     (case map_of (wp_clients p) (client_key e) of
        Some c \<Rightarrow> (Inr c, p)
      | None \<Rightarrow>
          (case NewHTTPClient e of
             Inl err \<Rightarrow> (Inl err, p)
           | Inr c \<Rightarrow> (Inr c, p\<lparr>wp_clients := AList.update (client_key e) c (wp_clients p)\<rparr>)))"

text \<open>The request \<^verbatim>\<open>processEndpoint\<close> sends; \<open>None\<close> for an unknown type.\<close>

definition webhook_request :: "time \<Rightarrow> string \<Rightarrow> WorkerRequest \<Rightarrow> WebhookEndpoint \<Rightarrow> WebhookRequest option" where
  "webhook_request now node q e =
     (let m = \<lparr>rm_ExporterVersion = ''1.0.0'', rm_RequestID = wq_RequestID q, rm_RetryAttempt = 0,
               rm_WebhookName = wh_Name e\<rparr>
      in if wq_Type q = ''status'' then Some (NewStatusRequest now (wq_Status q) node m)
         else if wq_Type q = ''problem'' then Some (NewProblemRequest now (wq_Problem q) node m)
         else None)"

text \<open>\<^verbatim>\<open>recordSuccess\<close> and \<^verbatim>\<open>recordFailure\<close>.\<close>

definition record_export :: "time \<Rightarrow> duration \<Rightarrow> WorkerRequest \<Rightarrow> WebhookEndpoint \<Rightarrow> string option \<Rightarrow> Stats \<Rightarrow> Stats" where
  "record_export now took q e err s =
     (if wq_Type q = ''status'' then RecordStatusExport now (wh_Name e) took err s
      else if wq_Type q = ''problem'' then RecordProblemExport now (wh_Name e) took err s
      else s)"

fun send_error_text :: "send_result \<Rightarrow> string option" where
  "send_error_text SendOk = None"
| "send_error_text SendNil = Some ''request cannot be nil''"
| "send_error_text (SendInvalid _) = Some ''request validation failed''"
| "send_error_text (SendCancelled e) = Some e"
| "send_error_text (SendFailed n e) = Some (''request failed after '' @ show_int n @ '' attempts: '' @
     (case e of None \<Rightarrow> ''%!w(<nil>)'' | Some x \<Rightarrow> client_error_text x))"
| "send_error_text SendPanics = None"

text \<open>The part of \<^verbatim>\<open>processEndpoint\<close> after the client is at hand: \<open>None\<close> when it panics. The requests on
  the wire come with it.\<close>

definition send_to_endpoint ::
  "http_env \<Rightarrow> time \<Rightarrow> duration \<Rightarrow> string \<Rightarrow> WorkerRequest \<Rightarrow> WebhookEndpoint \<Rightarrow> HTTPClient \<Rightarrow> Stats \<Rightarrow>
     Stats option \<times> (nat \<times> HttpRequest) list" where
  "send_to_endpoint v now took node q e c s =
     (case webhook_request now node q e of
        None \<Rightarrow> (Some s, [])
      | Some req \<Rightarrow>
          (case SendRequest v c (Some req) of (res, _, t) \<Rightarrow>
             (if res = SendPanics then None
              else Some (record_export (now + took) took q e (send_error_text res) s), t)))"

section \<open>Interleavings\<close>

datatype worker =
    Idle
  | Busy WorkerRequest "WebhookEndpoint list"
  | Sending WorkerRequest WebhookEndpoint HTTPClient "WebhookEndpoint list"
  | Gone

datatype stop_phase = NotStopping | Draining | Forcing

record pool_sys =
  px_pool :: WorkerPool
  px_stats :: Stats
  px_workers :: "worker list"
  px_submitting :: "WorkerRequest list"
  px_stop :: stop_phase
  px_panicked :: bool
  px_taken :: "WorkerRequest list"

definition upd_pool :: "(WorkerPool \<Rightarrow> WorkerPool) \<Rightarrow> pool_sys \<Rightarrow> pool_sys" where
  "upd_pool f s = s\<lparr>px_pool := f (px_pool s)\<rparr>"

definition set_worker :: "nat \<Rightarrow> worker \<Rightarrow> pool_sys \<Rightarrow> pool_sys" where
  "set_worker i w s = s\<lparr>px_workers := (px_workers s)[i := w]\<rparr>"

definition worker_at :: "nat \<Rightarrow> worker \<Rightarrow> pool_sys \<Rightarrow> bool" where
  "worker_at i w s \<longleftrightarrow> i < length (px_workers s) \<and> px_workers s ! i = w"

text \<open>The states after the send of a submission, after a request is taken, after the client was looked up
  and after a delivery.\<close>

definition after_submit :: "WorkerRequest \<Rightarrow> pool_sys \<Rightarrow> pool_sys" where
  "after_submit q s =
     (case submit_send q (px_pool s) (px_stats s) of (r, p, st) \<Rightarrow>
        s\<lparr>px_pool := p, px_stats := st, px_submitting := remove1 q (px_submitting s),
          px_panicked := (px_panicked s \<or> r = SendOnClosed)\<rparr>)"

definition after_take :: "nat \<Rightarrow> pool_sys \<Rightarrow> pool_sys" where
  "after_take i s =
     (case wp_requestCh (px_pool s) of [] \<Rightarrow> s
      | q # rest \<Rightarrow> set_worker i (Busy q (targetEndpoints q))
          (upd_pool (\<lambda>p. p\<lparr>wp_requestCh := rest\<rparr>) (s\<lparr>px_taken := px_taken s @ [q]\<rparr>)))"

definition after_client ::
  "nat \<Rightarrow> WorkerRequest \<Rightarrow> WebhookEndpoint \<Rightarrow> WebhookEndpoint list \<Rightarrow> time \<Rightarrow> duration \<Rightarrow> pool_sys \<Rightarrow> pool_sys" where
  "after_client i q e es now took s =
     (case getHTTPClient e (px_pool s) of
        (Inl err, p) \<Rightarrow> set_worker i (Busy q es) (s\<lparr>px_stats := record_export now took q e (Some err) (px_stats s)\<rparr>)
      | (Inr c, p) \<Rightarrow> set_worker i (Sending q e c es) (s\<lparr>px_pool := p\<rparr>))"

definition after_send ::
  "nat \<Rightarrow> WorkerRequest \<Rightarrow> WebhookEndpoint \<Rightarrow> HTTPClient \<Rightarrow> WebhookEndpoint list \<Rightarrow> http_env \<Rightarrow> time \<Rightarrow> duration \<Rightarrow>
     pool_sys \<Rightarrow> pool_sys" where
  "after_send i q e c es v now took s =
     (case send_to_endpoint v now took (wp_nodeName (px_pool s)) q e c (px_stats s) of
        (None, _) \<Rightarrow> s\<lparr>px_panicked := True\<rparr>
      | (Some st, _) \<Rightarrow> set_worker i (Busy q es) (s\<lparr>px_stats := st\<rparr>))"

inductive pool_step :: "pool_sys \<Rightarrow> pool_sys \<Rightarrow> bool" where
  Start: "px_stop s = NotStopping \<Longrightarrow> WorkerPool_Start (px_pool s) = Inr p \<Longrightarrow>
    pool_step s (s\<lparr>px_pool := p, px_workers := px_workers s @ replicate (nat (wp_workers p)) Idle\<rparr>)"
| Admit: "px_stop s = NotStopping \<Longrightarrow> wp_started (px_pool s) \<Longrightarrow>
    pool_step s (s\<lparr>px_submitting := q # px_submitting s\<rparr>)"
| Submit: "q \<in> set (px_submitting s) \<Longrightarrow> pool_step s (after_submit q s)"
| Take: "worker_at i Idle s \<Longrightarrow> wp_requestCh (px_pool s) \<noteq> [] \<Longrightarrow> pool_step s (after_take i s)"
| Done: "worker_at i (Busy q []) s \<Longrightarrow> pool_step s (set_worker i Idle s)"
| Client: "worker_at i (Busy q (e # es)) s \<Longrightarrow> px_stop s = NotStopping \<Longrightarrow>
    pool_step s (after_client i q e es now took s)"
| Send: "worker_at i (Sending q e c es) s \<Longrightarrow> pool_step s (after_send i q e c es v now took s)"
| Leave: "worker_at i Idle s \<Longrightarrow> wp_closed (px_pool s) \<Longrightarrow> wp_requestCh (px_pool s) = [] \<Longrightarrow>
    pool_step s (set_worker i Gone s)"
| LeaveCancelled: "worker_at i Idle s \<Longrightarrow> wp_cancelled (px_pool s) \<Longrightarrow> pool_step s (set_worker i Gone s)"
| Stop: "px_stop s = NotStopping \<Longrightarrow> wp_started (px_pool s) \<Longrightarrow>
    pool_step s (upd_pool (\<lambda>p. p\<lparr>wp_closed := True\<rparr>)
      (s\<lparr>px_stop := Draining, px_panicked := (px_panicked s \<or> wp_closed (px_pool s))\<rparr>))"
| Timeout: "px_stop s = Draining \<Longrightarrow>
    pool_step s (upd_pool (\<lambda>p. p\<lparr>wp_cancelled := True\<rparr>) (s\<lparr>px_stop := Forcing\<rparr>))"
| Stopped: "px_stop s \<noteq> NotStopping \<Longrightarrow> \<forall>w\<in>set (px_workers s). w = Gone \<Longrightarrow>
    pool_step s (upd_pool (\<lambda>p. p\<lparr>wp_started := False\<rparr>) (s\<lparr>px_stop := NotStopping\<rparr>))"
| GiveUp: "px_stop s = Forcing \<Longrightarrow>
    pool_step s (upd_pool (\<lambda>p. p\<lparr>wp_started := False\<rparr>) (s\<lparr>px_stop := NotStopping\<rparr>))"

text \<open>A panic in any goroutine ends the program.\<close>

inductive pool_run :: "pool_sys \<Rightarrow> pool_sys \<Rightarrow> bool" where
  refl: "pool_run s s"
| step: "pool_run s s1 \<Longrightarrow> \<not> px_panicked s1 \<Longrightarrow> pool_step s1 s2 \<Longrightarrow> pool_run s s2"

definition new_pool_sys :: "WorkerPool \<Rightarrow> Stats \<Rightarrow> pool_sys" where
  "new_pool_sys p st = \<lparr>px_pool = p, px_stats = st, px_workers = [], px_submitting = [], px_stop = NotStopping,
     px_panicked = False, px_taken = []\<rparr>"

section \<open>Accounting\<close>

fun still_to_send :: "worker \<Rightarrow> nat" where
  "still_to_send (Busy q es) = length es"
| "still_to_send (Sending q e c es) = Suc (length es)"
| "still_to_send _ = 0"

fun known_type :: "worker \<Rightarrow> bool" where
  "known_type (Busy q es) = (es \<noteq> [] \<longrightarrow> wq_Type q \<in> {''status'', ''problem''})"
| "known_type (Sending q e c es) = (wq_Type q \<in> {''status'', ''problem''})"
| "known_type _ = True"

definition webhooks_balanced :: "(string, WebhookStats) gomap \<Rightarrow> bool" where
  "webhooks_balanced m \<longleftrightarrow>
     (\<forall>w\<in>snd ` set m. hw_requestsTotal w = hw_requestsSuccess w + hw_requestsFailed w)"

definition stats_balanced :: "Stats \<Rightarrow> bool" where
  "stats_balanced st \<longleftrightarrow>
     hs_statusExportsTotal st = hs_statusExportsSuccess st + hs_statusExportsFailed st
   \<and> hs_problemExportsTotal st = hs_problemExportsSuccess st + hs_problemExportsFailed st
   \<and> webhooks_balanced (hs_webhookStats st)"

definition pool_inv :: "int \<Rightarrow> int \<Rightarrow> int \<Rightarrow> pool_sys \<Rightarrow> bool" where
  "pool_inv n queued0 exports0 s \<longleftrightarrow>
     wp_queueSize (px_pool s) = n \<and> int (length (wp_requestCh (px_pool s))) \<le> n
   \<and> stats_balanced (px_stats s)
   \<and> hs_requestsQueued (px_stats s) = queued0 + int (length (px_taken s)) + int (length (wp_requestCh (px_pool s)))
   \<and> HTTP_TotalExports (px_stats s) + int (sum_list (map still_to_send (px_workers s)))
       = exports0 + int (sum_list (map (\<lambda>q. length (targetEndpoints q)) (px_taken s)))
   \<and> list_all known_type (px_workers s)"

lemmas pool_step_defs = after_submit_def after_take_def after_client_def after_send_def upd_pool_def set_worker_def
  worker_at_def

lemma targetEndpoints_type: "targetEndpoints q \<noteq> [] \<Longrightarrow> wq_Type q \<in> {''status'', ''problem''}"
  by (auto simp: targetEndpoints_def filter_empty_conv split: if_splits)

lemma balanced_update:
  assumes "webhooks_balanced m" "hw_requestsTotal x = hw_requestsSuccess x + hw_requestsFailed x"
  shows "webhooks_balanced (AList.update n x m)"
  using assms set_update_subset [of n x m] by (fastforce simp: webhooks_balanced_def)

lemma recordRequest_balanced:
  "hw_requestsTotal w = hw_requestsSuccess w + hw_requestsFailed w \<Longrightarrow>
   hw_requestsTotal (recordRequest now took err w) =
     hw_requestsSuccess (recordRequest now took err w) + hw_requestsFailed (recordRequest now took err w)"
  by (auto simp: recordRequest_def Let_def split: option.splits)

lemma update_webhook_fields [simp]:
  "hs_statusExportsTotal (update_webhook n f s) = hs_statusExportsTotal s"
  "hs_statusExportsSuccess (update_webhook n f s) = hs_statusExportsSuccess s"
  "hs_statusExportsFailed (update_webhook n f s) = hs_statusExportsFailed s"
  "hs_problemExportsTotal (update_webhook n f s) = hs_problemExportsTotal s"
  "hs_problemExportsSuccess (update_webhook n f s) = hs_problemExportsSuccess s"
  "hs_problemExportsFailed (update_webhook n f s) = hs_problemExportsFailed s"
  "hs_requestsQueued (update_webhook n f s) = hs_requestsQueued s"
  by (simp_all add: update_webhook_def split: option.split)

lemma update_webhook_balanced:
  assumes "webhooks_balanced (hs_webhookStats s)"
  shows "webhooks_balanced (hs_webhookStats (update_webhook n (recordRequest now took err) s))"
proof (cases "map_of (hs_webhookStats s) n")
  case None
  with assms show ?thesis by (simp add: update_webhook_def)
next
  case (Some w)
  then have "w \<in> snd ` set (hs_webhookStats s)" by (force dest: map_of_SomeD)
  then have "hw_requestsTotal w = hw_requestsSuccess w + hw_requestsFailed w"
    using assms unfolding webhooks_balanced_def by blast
  then have "hw_requestsTotal (recordRequest now took err w) =
      hw_requestsSuccess (recordRequest now took err w) + hw_requestsFailed (recordRequest now took err w)"
    by (rule recordRequest_balanced)
  from balanced_update [OF assms this] show ?thesis using Some by (simp add: update_webhook_def)
qed

lemma record_export_accounts:
  assumes "wq_Type q \<in> {''status'', ''problem''}"
  shows "HTTP_TotalExports (record_export now took q e err st) = HTTP_TotalExports st + 1"
    "hs_requestsQueued (record_export now took q e err st) = hs_requestsQueued st"
    "stats_balanced st \<Longrightarrow> stats_balanced (record_export now took q e err st)"
proof -
  show "HTTP_TotalExports (record_export now took q e err st) = HTTP_TotalExports st + 1"
    "hs_requestsQueued (record_export now took q e err st) = hs_requestsQueued st"
    using assms by (auto simp: record_export_def RecordStatusExport_def RecordProblemExport_def Let_def
        HTTP_TotalExports_def split: option.splits)
  assume "stats_balanced st"
  then show "stats_balanced (record_export now took q e err st)"
    using assms
    by (auto simp: record_export_def RecordStatusExport_def RecordProblemExport_def Let_def stats_balanced_def
        split: option.splits intro: update_webhook_balanced)
qed

lemma send_to_endpoint_accounts:
  assumes "send_to_endpoint v now took node q e c st = (Some st', t)" "wq_Type q \<in> {''status'', ''problem''}"
  shows "HTTP_TotalExports st' = HTTP_TotalExports st + 1" "hs_requestsQueued st' = hs_requestsQueued st"
    "stats_balanced st \<Longrightarrow> stats_balanced st'"
  using assms record_export_accounts [OF assms(2)]
  by (auto simp: send_to_endpoint_def webhook_request_def Let_def split: option.splits prod.splits if_splits)

lemma known_at: "list_all known_type ws \<Longrightarrow> i < length ws \<Longrightarrow> known_type (ws ! i)"
  by (simp add: list_all_length)

lemma known_update: "list_all known_type ws \<Longrightarrow> known_type w \<Longrightarrow> list_all known_type (ws[i := w])"
  by (auto simp: list_all_iff dest!: set_update_subset_insert [THEN subsetD])

lemma outstanding_update: "i < length ws \<Longrightarrow>
    int (sum_list (map still_to_send (ws[i := w]))) = int (sum_list (map still_to_send ws)) - int (still_to_send (ws ! i)) + int (still_to_send w)"
proof (induction ws arbitrary: i)
  case Nil
  then show ?case by simp
next
  case (Cons x ws)
  then show ?case by (cases i) auto
qed

lemma getHTTPClient_frame: "getHTTPClient e p = (r, p') \<Longrightarrow>
    wp_requestCh p' = wp_requestCh p \<and> wp_queueSize p' = wp_queueSize p \<and> wp_closed p' = wp_closed p
    \<and> wp_cancelled p' = wp_cancelled p \<and> wp_started p' = wp_started p"
  by (auto simp: getHTTPClient_def split: option.splits sum.splits)

lemma pool_inv_step:
  assumes "pool_step s s'" "pool_inv n a b s"
  shows "pool_inv n a b s'"
  using assms
proof (cases rule: pool_step.cases)
  case (Start p)
  with assms(2) show ?thesis
    by (auto simp: pool_inv_def WorkerPool_Start_def list_all_iff sum_list_replicate split: if_splits)
next
  case (Admit q)
  with assms(2) show ?thesis by (simp add: pool_inv_def)
next
  case (Submit q)
  with assms(2) show ?thesis
    by (auto simp: pool_inv_def after_submit_def submit_send_def RecordQueuedRequest_def RecordDroppedRequest_def
        stats_balanced_def HTTP_TotalExports_def)
next
  case (Take i)
  then obtain q rest where ch: "wp_requestCh (px_pool s) = q # rest" by (cases "wp_requestCh (px_pool s)") auto
  have "known_type (Busy q (targetEndpoints q))" using targetEndpoints_type by simp
  with Take ch assms(2) show ?thesis
    by (simp add: pool_inv_def pool_step_defs outstanding_update known_update)
next
  case (Done i q)
  with assms(2) show ?thesis
    by (simp add: pool_inv_def pool_step_defs outstanding_update known_update)
next
  case (Client i q e es now took)
  have k: "wq_Type q \<in> {''status'', ''problem''}"
    using Client assms(2) known_at [of "px_workers s" i] by (simp add: pool_inv_def worker_at_def)
  obtain r p where g: "getHTTPClient e (px_pool s) = (r, p)" by (cases "getHTTPClient e (px_pool s)")
  show ?thesis
  proof (cases r)
    case (Inl err)
    with Client g k assms(2) show ?thesis
      by (simp add: pool_inv_def pool_step_defs outstanding_update known_update record_export_accounts del: insert_iff)
  next
    case (Inr c)
    with Client g k assms(2) getHTTPClient_frame [OF g] show ?thesis
      by (simp add: pool_inv_def pool_step_defs outstanding_update known_update)
  qed
next
  case (Send i q e c es v now took)
  have k: "wq_Type q \<in> {''status'', ''problem''}"
    using Send assms(2) known_at [of "px_workers s" i] by (simp add: pool_inv_def worker_at_def)
  obtain r t where g: "send_to_endpoint v now took (wp_nodeName (px_pool s)) q e c (px_stats s) = (r, t)"
    by (cases "send_to_endpoint v now took (wp_nodeName (px_pool s)) q e c (px_stats s)")
  show ?thesis
  proof (cases r)
    case None
    with Send g assms(2) show ?thesis by (simp add: pool_inv_def after_send_def)
  next
    case (Some st)
    with Send g k assms(2) send_to_endpoint_accounts [OF g [unfolded Some] k] show ?thesis
      by (simp add: pool_inv_def pool_step_defs outstanding_update known_update)
  qed
qed (simp_all add: pool_inv_def pool_step_defs outstanding_update known_update)

lemma pool_inv_run: "pool_run s s' \<Longrightarrow> pool_inv n a b s \<Longrightarrow> pool_inv n a b s'"
  by (induction rule: pool_run.induct) (auto intro: pool_inv_step)

section \<open>Shutdown\<close>

text \<open>A worker with an endpoint left cannot go on while \<^verbatim>\<open>Stop\<close> holds the lock: it has to look up the client.\<close>

fun stuck :: "worker \<Rightarrow> bool" where
  "stuck (Busy q es) = (es \<noteq> [])"
| "stuck _ = False"

fun on_the_wire :: "worker \<Rightarrow> nat" where
  "on_the_wire (Sending q e c es) = 1"
| "on_the_wire _ = 0"

definition blocked :: "pool_sys \<Rightarrow> bool" where
  "blocked s \<longleftrightarrow> (\<exists>w\<in>set (px_workers s). stuck w)
     \<or> (\<exists>q\<in>set (wp_requestCh (px_pool s)). targetEndpoints q \<noteq> []) \<and> (\<exists>w\<in>set (px_workers s). w \<noteq> Gone)"

definition wire_exports :: "pool_sys \<Rightarrow> int" where
  "wire_exports s = HTTP_TotalExports (px_stats s) + int (sum_list (map on_the_wire (px_workers s)))"

definition hung :: "int \<Rightarrow> pool_sys \<Rightarrow> bool" where
  "hung k s \<longleftrightarrow> px_stop s = Draining \<and> blocked s \<and> wp_closed (px_pool s) \<and> wire_exports s = k
     \<and> list_all known_type (px_workers s)"

lemma on_the_wire_update: "i < length ws \<Longrightarrow>
    int (sum_list (map on_the_wire (ws[i := w]))) = int (sum_list (map on_the_wire ws)) - int (on_the_wire (ws ! i)) + int (on_the_wire w)"
proof (induction ws arbitrary: i)
  case Nil
  then show ?case by simp
next
  case (Cons x ws)
  then show ?case by (cases i) auto
qed

lemma blocked_update:
  assumes "blocked s" "i < length (px_workers s)" "\<not> stuck (px_workers s ! i)" "w \<noteq> Gone"
    "px_workers s' = (px_workers s)[i := w]" "wp_requestCh (px_pool s') = wp_requestCh (px_pool s)"
  shows "blocked s'"
proof -
  have mem: "w \<in> set (px_workers s')" using assms(2,5) by (simp add: set_update_memI)
  have keep: "x \<in> set (px_workers s')" if x: "x \<in> set (px_workers s)" "stuck x" for x
  proof -
    obtain j where j: "j < length (px_workers s)" "px_workers s ! j = x" using x by (auto simp: in_set_conv_nth)
    then have "j \<noteq> i" using assms(3) x(2) by auto
    then have "px_workers s' ! j = x" "j < length (px_workers s')" using assms(5) j by simp_all
    then show ?thesis by (auto simp: in_set_conv_nth)
  qed
  show ?thesis
    using assms(1,4,6) mem keep unfolding blocked_def by metis
qed

lemma hung_step:
  assumes "pool_step s s'" "hung k s"
  shows "hung k s' \<or> wp_cancelled (px_pool s')"
  using assms
proof (cases rule: pool_step.cases)
  case (Submit q)
  with assms(2) show ?thesis
    by (simp add: hung_def after_submit_def submit_send_def blocked_def wire_exports_def)
next
  case (Take i)
  then obtain q rest where ch: "wp_requestCh (px_pool s) = q # rest" by (cases "wp_requestCh (px_pool s)") auto
  have i: "i < length (px_workers s)" "px_workers s ! i = Idle" using Take by (simp_all add: worker_at_def)
  have "blocked (after_take i s)"
  proof (cases "targetEndpoints q = []")
    case False
    then have "stuck (Busy q (targetEndpoints q))" by simp
    then show ?thesis
      using ch i by (auto simp: blocked_def after_take_def set_worker_def upd_pool_def intro!: set_update_memI bexI)
  next
    case True
    let ?s = "s\<lparr>px_pool := (px_pool s)\<lparr>wp_requestCh := rest\<rparr>\<rparr>"
    have "blocked ?s" using assms(2) ch True by (auto simp: hung_def blocked_def)
    then show ?thesis
      by (rule blocked_update [where w = "Busy q []" and i = i])
        (use ch i True in \<open>simp_all add: after_take_def set_worker_def upd_pool_def\<close>)
  qed
  with Take ch i assms(2) show ?thesis
    using targetEndpoints_type [of q]
    by (simp add: hung_def wire_exports_def after_take_def set_worker_def upd_pool_def on_the_wire_update known_update)
next
  case (Done i q)
  have "blocked s'"
    by (rule blocked_update [of s i Idle]) (use Done assms(2) in \<open>simp_all add: hung_def worker_at_def set_worker_def\<close>)
  with Done assms(2) show ?thesis
    by (simp add: hung_def wire_exports_def worker_at_def set_worker_def on_the_wire_update known_update)
next
  case (Send i q e c es v now took)
  have k: "wq_Type q \<in> {''status'', ''problem''}"
    using Send assms(2) known_at [of "px_workers s" i] by (simp add: hung_def worker_at_def)
  obtain r t where g: "send_to_endpoint v now took (wp_nodeName (px_pool s)) q e c (px_stats s) = (r, t)"
    by (cases "send_to_endpoint v now took (wp_nodeName (px_pool s)) q e c (px_stats s)")
  show ?thesis
  proof (cases r)
    case None
    with Send g assms(2) show ?thesis by (simp add: hung_def after_send_def blocked_def wire_exports_def)
  next
    case (Some st)
    have "blocked s'"
      by (rule blocked_update [of s i "Busy q es"])
        (use Send g Some assms(2) in \<open>simp_all add: hung_def after_send_def worker_at_def set_worker_def\<close>)
    with Send g Some k assms(2) send_to_endpoint_accounts [OF g [unfolded Some] k] show ?thesis
      by (simp add: hung_def wire_exports_def pool_step_defs on_the_wire_update known_update)
  qed
next
  case (Leave i)
  have "\<exists>j. j < length (px_workers s) \<and> stuck (px_workers s ! j)"
    using Leave assms(2) by (auto simp: hung_def blocked_def in_set_conv_nth)
  then obtain j where j: "j < length (px_workers s)" "stuck (px_workers s ! j)" by blast
  then have "j \<noteq> i" using Leave by (auto simp: worker_at_def)
  then have "px_workers s' ! j = px_workers s ! j" "j < length (px_workers s')"
    using Leave j by (simp_all add: set_worker_def)
  then have "px_workers s' ! j \<in> set (px_workers s')" "stuck (px_workers s' ! j)"
    using j nth_mem [of j "px_workers s'"] by simp_all
  then have "blocked s'" unfolding blocked_def by blast
  with Leave assms(2) show ?thesis
    by (simp add: hung_def wire_exports_def worker_at_def set_worker_def on_the_wire_update known_update)
next
  case (LeaveCancelled i)
  then show ?thesis by (simp add: set_worker_def)
next
  case Stopped
  with assms(2) show ?thesis by (fastforce simp: hung_def blocked_def)
qed (simp_all add: hung_def upd_pool_def)

lemma cancelled_step: "pool_step s s' \<Longrightarrow> wp_cancelled (px_pool s) \<Longrightarrow> wp_cancelled (px_pool s')"
proof (cases rule: pool_step.cases, assumption)
  fix i q e es now took
  assume "s' = after_client i q e es now took s" "wp_cancelled (px_pool s)"
  then show ?thesis
    using getHTTPClient_frame [of e "px_pool s"]
    by (auto simp: after_client_def set_worker_def split: prod.splits sum.splits)
qed (auto simp: after_submit_def after_take_def after_send_def upd_pool_def set_worker_def submit_send_def
      WorkerPool_Start_def split: option.splits prod.splits if_splits list.splits)

lemma hung_run: "pool_run s s' \<Longrightarrow> hung k s \<Longrightarrow> hung k s' \<or> wp_cancelled (px_pool s')"
proof (induction rule: pool_run.induct)
  case (refl s)
  then show ?case by simp
next
  case (step s s1 s2)
  then show ?case using hung_step cancelled_step by blast
qed

section \<open>Examples\<close>

definition demo_worker_request :: WorkerRequest where
  "demo_worker_request = problem_request 1 demo_webhook_problem [demo_webhook] ''r1''"

definition demo_pool :: WorkerPool where
  "demo_pool = \<lparr>wp_workers = 1, wp_queueSize = 2, wp_requestCh = [], wp_closed = False, wp_cancelled = False,
     wp_clients = [], wp_nodeName = ''n1'', wp_started = False\<rparr>"

definition demo_pool_started :: pool_sys where
  "demo_pool_started = (new_pool_sys demo_pool (NewStats 0))
     \<lparr>px_pool := demo_pool\<lparr>wp_started := True\<rparr>, px_workers := [Idle]\<rparr>"

text \<open>One submission is admitted, sent and taken.\<close>

definition demo_admitted :: pool_sys where
  "demo_admitted = demo_pool_started\<lparr>px_submitting := [demo_worker_request]\<rparr>"

definition demo_queued :: pool_sys where
  "demo_queued = after_submit demo_worker_request demo_admitted"

definition stop_begun :: "pool_sys \<Rightarrow> pool_sys" where
  "stop_begun s = upd_pool (\<lambda>p. p\<lparr>wp_closed := True\<rparr>)
     (s\<lparr>px_stop := Draining, px_panicked := (px_panicked s \<or> wp_closed (px_pool s))\<rparr>)"

lemma demo_started_run: "pool_run (new_pool_sys demo_pool (NewStats 0)) demo_pool_started"
proof -
  have "pool_step (new_pool_sys demo_pool (NewStats 0)) demo_pool_started"
    using pool_step.Start [of "new_pool_sys demo_pool (NewStats 0)" "demo_pool\<lparr>wp_started := True\<rparr>"]
    by (simp add: demo_pool_started_def new_pool_sys_def WorkerPool_Start_def demo_pool_def)
  then show ?thesis
    by (rule pool_run.step [OF pool_run.refl, rotated]) (simp add: new_pool_sys_def)
qed

lemma demo_queued_run: "pool_run (new_pool_sys demo_pool (NewStats 0)) demo_queued"
proof -
  have "pool_step demo_pool_started demo_admitted"
    using pool_step.Admit [of demo_pool_started demo_worker_request]
    by (simp add: demo_admitted_def demo_pool_started_def new_pool_sys_def)
  moreover have "pool_step demo_admitted demo_queued"
    unfolding demo_queued_def by (rule pool_step.Submit) (simp add: demo_admitted_def)
  moreover have "\<not> px_panicked demo_pool_started" "\<not> px_panicked demo_admitted"
    by (simp_all add: demo_admitted_def demo_pool_started_def new_pool_sys_def)
  ultimately show ?thesis
    using pool_run.step demo_started_run by meson
qed

lemma demo_queued_eq: "demo_queued = demo_pool_started\<lparr>px_stats := RecordQueuedRequest (NewStats 0),
    px_pool := demo_pool\<lparr>wp_started := True, wp_requestCh := [demo_worker_request]\<rparr>\<rparr>"
  by (simp add: demo_queued_def after_submit_def submit_send_def demo_admitted_def demo_pool_started_def
      new_pool_sys_def demo_pool_def)

lemma demo_targets: "targetEndpoints demo_worker_request = [demo_webhook]"
  by (simp add: targetEndpoints_def demo_worker_request_def problem_request_def demo_webhook_def)

section \<open>Properties\<close>

text \<open>
  C26. Nothing handed to a webhook worker pool is lost or sent twice by its bookkeeping: from a new pool on,
  under every interleaving of submitters, workers, starts and stops, the queue never exceeds its capacity;
  the requests counted as queued are exactly those taken by a worker and those still waiting; the exports
  counted, together with the deliveries workers still have before them, are exactly one for each endpoint
  that wants the kind of data of each request taken; and every export is counted once as a success or once as a
  failure, in the totals and for each webhook.
\<close>

theorem exports_are_accounted:
  assumes "NewWorkerPool workers queueSize node = Inr p" "pool_run (new_pool_sys p (NewStats t)) s"
  shows "int (length (wp_requestCh (px_pool s))) \<le> queueSize
    \<and> hs_requestsQueued (px_stats s) = int (length (px_taken s)) + int (length (wp_requestCh (px_pool s)))
    \<and> HTTP_TotalExports (px_stats s) + int (sum_list (map still_to_send (px_workers s)))
        = int (sum_list (map (\<lambda>q. length (targetEndpoints q)) (px_taken s)))
    \<and> HTTP_TotalExports (px_stats s) = HTTP_TotalSuccesses (px_stats s) + HTTP_TotalFailures (px_stats s)
    \<and> webhooks_balanced (hs_webhookStats (px_stats s))"
proof -
  have "pool_inv queueSize 0 0 (new_pool_sys p (NewStats t))"
    using assms(1) by (auto simp: NewWorkerPool_def pool_inv_def new_pool_sys_def NewStats_def stats_balanced_def
        webhooks_balanced_def HTTP_TotalExports_def split: if_splits)
  from pool_inv_run [OF assms(2) this] show ?thesis
    by (simp add: pool_inv_def stats_balanced_def HTTP_TotalExports_def HTTP_TotalSuccesses_def HTTP_TotalFailures_def)
qed

theorem exports_are_accounted_witness:
  "hs_requestsQueued (px_stats demo_queued) = 1 \<and> int (length (wp_requestCh (px_pool demo_queued))) \<le> 2"
proof -
  have "NewWorkerPool 1 2 ''n1'' = Inr demo_pool"
    by (simp add: NewWorkerPool_def demo_pool_def)
  from exports_are_accounted [OF this demo_queued_run] show ?thesis
    by (simp add: demo_queued_eq demo_pool_started_def new_pool_sys_def)
qed

text \<open>
  C25. A graceful stop of the worker pool cannot drain what is queued: \<^verbatim>\<open>Stop\<close> keeps the pool's lock while it
  waits for the workers, and a worker needs that lock to look up the client of its next endpoint. Once \<^verbatim>\<open>Stop\<close>
  waits with a queued request that some endpoint wants and a worker that runs, then whatever the workers do,
  either the 30 seconds have run out and the context was cancelled, or \<^verbatim>\<open>Stop\<close> still waits and the only
  exports since then are those already on the wire: it never returns in its graceful phase, and no queued request is
  delivered in it.
\<close>

theorem graceful_stop_never_drains:
  assumes "px_stop s = Draining" "wp_closed (px_pool s)" "q \<in> set (wp_requestCh (px_pool s))"
    "targetEndpoints q \<noteq> []" "w \<in> set (px_workers s)" "w \<noteq> Gone" "list_all known_type (px_workers s)"
    "pool_run s s'"
  shows "wp_cancelled (px_pool s')
    \<or> (px_stop s' = Draining
       \<and> HTTP_TotalExports (px_stats s') + int (sum_list (map on_the_wire (px_workers s')))
         = HTTP_TotalExports (px_stats s) + int (sum_list (map on_the_wire (px_workers s))))"
proof -
  have "hung (wire_exports s) s"
    using assms by (auto simp: hung_def blocked_def)
  from hung_run [OF assms(8) this] show ?thesis
    by (auto simp: hung_def wire_exports_def)
qed

theorem graceful_stop_never_drains_witness:
  "px_stop (after_take 0 (stop_begun demo_queued)) = Draining"
proof -
  let ?s = "stop_begun demo_queued"
  have step: "pool_step ?s (after_take 0 ?s)"
    by (rule pool_step.Take)
      (simp_all add: worker_at_def stop_begun_def upd_pool_def demo_queued_eq demo_pool_started_def)
  have run: "pool_run ?s (after_take 0 ?s)"
    by (rule pool_run.step [OF pool_run.refl _ step])
      (simp add: stop_begun_def upd_pool_def demo_queued_eq demo_pool_started_def new_pool_sys_def demo_pool_def)
  have nc: "\<not> wp_cancelled (px_pool (after_take 0 ?s))"
    by (simp add: after_take_def set_worker_def stop_begun_def upd_pool_def demo_queued_eq
        demo_pool_started_def new_pool_sys_def demo_pool_def)
  show ?thesis
    using graceful_stop_never_drains [OF _ _ _ _ _ _ _ run, of demo_worker_request Idle] nc demo_targets
    by (simp add: stop_begun_def upd_pool_def demo_queued_eq demo_pool_started_def demo_pool_def)
qed

text \<open>A submission that passed the test of \<^verbatim>\<open>started\<close> before \<^verbatim>\<open>Stop\<close> and sends after it ends the program.\<close>

lemma late_submission_panics:
  assumes "px_stop s = NotStopping" "wp_started (px_pool s)" "\<not> wp_closed (px_pool s)" "\<not> px_panicked s"
    "q \<in> set (px_submitting s)"
  shows "\<exists>s'. pool_run s s' \<and> px_panicked s'"
proof -
  let ?s = "stop_begun s"
  have "pool_step s ?s"
    unfolding stop_begun_def using assms(1,2) by (rule pool_step.Stop)
  then have r: "pool_run s ?s" using pool_run.step [OF pool_run.refl] assms(4) by blast
  have "\<not> px_panicked ?s" "q \<in> set (px_submitting ?s)"
    using assms by (simp_all add: stop_begun_def upd_pool_def)
  from pool_run.step [OF r this(1) pool_step.Submit [OF this(2)]]
  show ?thesis
    by (auto simp: after_submit_def submit_send_def stop_begun_def upd_pool_def)
qed

text \<open>A pool that was stopped cannot be used again: its channel is closed, so the first submission to a
  pool that is started anew ends the program.\<close>

lemma restarted_pool_panics:
  "wp_closed p \<Longrightarrow> WorkerPool_Start p = Inr p' \<Longrightarrow> fst (submitRequest q p' s) = SendOnClosed"
  by (auto simp: WorkerPool_Start_def submitRequest_def submit_send_def split: if_splits)

end
