(* ===== verification/HTTP_Exporter.thy ===== *)
theory HTTP_Exporter
  imports HTTP_Pool Config_Validate
begin

text \<open>
  \<^verbatim>\<open>pkg/exporters/http/exporter.go\<close>: the exporter that hands statuses and problems to the worker pool, and its
  reload. The calls are taken one at a time; what happens inside the pool meanwhile is \<open>HTTP_Pool\<close>. Whether a
  stop of the pool had to be forced, and the requests it left in the channel, are arguments. \<open>durStr\<close> is
  \<^verbatim>\<open>Duration.String\<close>, \<open>pct\<close> the format \<^verbatim>\<open>%.1f%%\<close>.
\<close>

section \<open>Definitions\<close>

record HTTPExporter =
  hx_config :: HTTPExporterConfig
  hx_nodeName :: string
  hx_workerPool :: WorkerPool
  hx_stats :: Stats
  hx_started :: bool
  hx_stopClosed :: bool

datatype http_exporter_error =
    HXConfigNil | HXSettingsNil | HXDisabled | HXConfig config_error | HXNoWebhooks | HXNoNode
  | HXPool string | HXStarted | HXWebhook nat config_error | HXConfigType string

definition NewHTTPExporter ::
  "time \<Rightarrow> HTTPExporterConfig option \<Rightarrow> GlobalSettings option \<Rightarrow> http_exporter_error + HTTPExporter" where
  "NewHTTPExporter now co so =
     (case co of None \<Rightarrow> Inl HXConfigNil
      | Some c \<Rightarrow>
          (case so of None \<Rightarrow> Inl HXSettingsNil
           | Some g \<Rightarrow>
               if \<not> he_Enabled c then Inl HXDisabled
               else (case HTTPExporterConfig_Validate c of
                  Some e \<Rightarrow> Inl (HXConfig e)
                | None \<Rightarrow>
                    if he_Webhooks c = [] then Inl HXNoWebhooks
                    else if gs_NodeName g = [] then Inl HXNoNode
                    else (case NewWorkerPool (he_Workers c) (he_QueueSize c) (gs_NodeName g) of
                       Inl e \<Rightarrow> Inl (HXPool e)
                     | Inr p \<Rightarrow> Inr \<lparr>hx_config = c, hx_nodeName = gs_NodeName g, hx_workerPool = p,
                         hx_stats = NewStats now, hx_started = False, hx_stopClosed = False\<rparr>))))"

text \<open>The loop of \<^verbatim>\<open>Start\<close>: the statistics of the webhooks before an invalid one are made.\<close>

fun start_webhooks :: "nat \<Rightarrow> WebhookEndpoint list \<Rightarrow> Stats \<Rightarrow> http_exporter_error option \<times> Stats" where
  "start_webhooks i [] s = (None, s)"
| "start_webhooks i (w # ws) s =
     (case WebhookEndpoint_Validate w of Some e \<Rightarrow> (Some (HXWebhook i e), s)
      | None \<Rightarrow> start_webhooks (Suc i) ws (GetWebhookStats (wh_Name w) s))"

definition HTTPExporter_Start :: "HTTPExporter \<Rightarrow> http_exporter_error option \<times> HTTPExporter" where
  "HTTPExporter_Start e =
     (if hx_started e then (Some HXStarted, e)
      else (case start_webhooks 0 (he_Webhooks (hx_config e)) (hx_stats e) of
         (Some err, s) \<Rightarrow> (Some err, e\<lparr>hx_stats := s\<rparr>)
       | (None, s) \<Rightarrow>
           (case WorkerPool_Start (hx_workerPool e) of
              Inl err \<Rightarrow> (Some (HXPool err), e\<lparr>hx_stats := s\<rparr>)
            | Inr p \<Rightarrow> (None, e\<lparr>hx_stats := s, hx_workerPool := p, hx_started := True\<rparr>))))"

text \<open>\<^verbatim>\<open>WorkerPool.Stop\<close> as a whole; \<open>None\<close> is the panic of a second close.\<close>

definition WorkerPool_Stop :: "bool \<Rightarrow> WorkerRequest list \<Rightarrow> WorkerPool \<Rightarrow> WorkerPool option" where
  "WorkerPool_Stop forced left p =
     (if \<not> wp_started p then Some p
      else if wp_closed p then None
      else Some (p\<lparr>wp_closed := True, wp_cancelled := (wp_cancelled p \<or> forced), wp_requestCh := left,
                  wp_started := False\<rparr>))"

definition HTTPExporter_Stop :: "bool \<Rightarrow> WorkerRequest list \<Rightarrow> HTTPExporter \<Rightarrow> HTTPExporter option" where
  "HTTPExporter_Stop forced left e =
     (if \<not> hx_started e then Some e
      else if hx_stopClosed e then None
      else (case WorkerPool_Stop forced left (hx_workerPool e) of None \<Rightarrow> None
         | Some p \<Rightarrow> Some (e\<lparr>hx_stopClosed := True, hx_workerPool := p, hx_started := False\<rparr>)))"

definition generateRequestID :: "int \<Rightarrow> string \<Rightarrow> HTTPExporter \<Rightarrow> string" where
  "generateRequestID nano kind e = kind @ ''-'' @ show_int nano @ ''-'' @ take 8 (hx_nodeName e)"

datatype export_result = ExNil | ExNotStarted | ExInvalid validation_error | ExSubmitted submit_result

definition HTTP_ExportStatus :: "time \<Rightarrow> status option \<Rightarrow> HTTPExporter \<Rightarrow> export_result \<times> HTTPExporter" where
  "HTTP_ExportStatus now so e =
     (case so of None \<Rightarrow> (ExNil, e)
      | Some st \<Rightarrow>
          if \<not> hx_started e then (ExNotStarted, e)
          else (case Status_Validate st of Some err \<Rightarrow> (ExInvalid err, e)
             | None \<Rightarrow>
                 (case SubmitStatusRequest now so (he_Webhooks (hx_config e))
                     (generateRequestID (unix_nano now) ''status'' e) (hx_workerPool e) (hx_stats e) of
                    (r, p, s) \<Rightarrow> (ExSubmitted r, e\<lparr>hx_workerPool := p, hx_stats := s\<rparr>))))"

definition HTTP_ExportProblem :: "time \<Rightarrow> problem option \<Rightarrow> HTTPExporter \<Rightarrow> export_result \<times> HTTPExporter" where
  "HTTP_ExportProblem now po e =
     (case po of None \<Rightarrow> (ExNil, e)
      | Some pr \<Rightarrow>
          if \<not> hx_started e then (ExNotStarted, e)
          else (case Problem_Validate pr of Some err \<Rightarrow> (ExInvalid err, e)
             | None \<Rightarrow>
                 (case SubmitProblemRequest now po (he_Webhooks (hx_config e))
                     (generateRequestID (unix_nano now) ''problem'' e) (hx_workerPool e) (hx_stats e) of
                    (r, p, s) \<Rightarrow> (ExSubmitted r, e\<lparr>hx_workerPool := p, hx_stats := s\<rparr>))))"

definition needsWorkerPoolRecreation :: "HTTPExporterConfig option \<Rightarrow> HTTPExporterConfig \<Rightarrow> bool" where
  "needsWorkerPoolRecreation oldo new =
     (case oldo of None \<Rightarrow> True
      | Some old \<Rightarrow>
          if he_Workers old \<noteq> he_Workers new then True
          else if he_QueueSize old \<noteq> he_QueueSize new then True
          else if he_Timeout old \<noteq> he_Timeout new then True
          else False)"

text \<open>The statistics of the webhooks of a new configuration; invalid ones are passed over.\<close>

definition reload_webhooks :: "WebhookEndpoint list \<Rightarrow> Stats \<Rightarrow> Stats" where
  "reload_webhooks ws = fold (\<lambda>w. if WebhookEndpoint_Validate w = None then GetWebhookStats (wh_Name w) else id) ws"

datatype http_reload_arg = HTTPConfigArg "HTTPExporterConfig option" | OtherConfigArg string

datatype http_reload_result = ReloadOk | ReloadRefused http_exporter_error | ReloadPanics

text \<open>The pool a reload leaves: stopped and replaced when needed, with the stopped old one on an error.\<close>

definition reload_pool ::
  "bool \<Rightarrow> WorkerRequest list \<Rightarrow> HTTPExporterConfig \<Rightarrow> HTTPExporter \<Rightarrow> http_reload_result \<times> WorkerPool" where
  "reload_pool forced left new e =
     (if \<not> needsWorkerPoolRecreation (Some (hx_config e)) new then (ReloadOk, hx_workerPool e)
      else (case (if hx_started e then WorkerPool_Stop forced left (hx_workerPool e) else Some (hx_workerPool e)) of
         None \<Rightarrow> (ReloadPanics, hx_workerPool e)
       | Some old \<Rightarrow>
           (case NewWorkerPool (he_Workers new) (he_QueueSize new) (hx_nodeName e) of
              Inl err \<Rightarrow> (ReloadRefused (HXPool err), old)
            | Inr p \<Rightarrow>
                if \<not> hx_started e then (ReloadOk, p)
                else (case WorkerPool_Start p of Inl err \<Rightarrow> (ReloadRefused (HXPool err), p)
                   | Inr p' \<Rightarrow> (ReloadOk, p')))))"

definition HTTPExporter_Reload ::
  "bool \<Rightarrow> WorkerRequest list \<Rightarrow> http_reload_arg \<Rightarrow> HTTPExporter \<Rightarrow> http_reload_result \<times> HTTPExporter" where
  "HTTPExporter_Reload forced left arg e =
     (case arg of
        OtherConfigArg t \<Rightarrow> (ReloadRefused (HXConfigType t), e)
      | HTTPConfigArg None \<Rightarrow> (ReloadRefused HXConfigNil, e)
      | HTTPConfigArg (Some new) \<Rightarrow>
          (case HTTPExporterConfig_Validate new of
             Some err \<Rightarrow> (ReloadRefused (HXConfig err), e)
           | None \<Rightarrow>
               if he_Webhooks new = [] then (ReloadRefused HXNoWebhooks, e)
               else (case reload_pool forced left new e of
                  (r, p) \<Rightarrow>
                    if r \<noteq> ReloadOk then (r, e\<lparr>hx_workerPool := p\<rparr>)
                    else (ReloadOk, e\<lparr>hx_workerPool := p, hx_config := new,
                       hx_stats := (if hx_started e then reload_webhooks (he_Webhooks new) (hx_stats e)
                                    else hx_stats e)\<rparr>))))"

subsection \<open>What the exporter shows\<close>

datatype health_value =
    HVBool bool | HVString string | HVInt int | HVTime time | HVErr "string option"
  | HVWebhooks "(string \<times> (string \<times> health_value) list) list"

definition webhook_health ::
  "(rat \<Rightarrow> float64) \<Rightarrow> (float64 \<Rightarrow> string) \<Rightarrow> (duration \<Rightarrow> string) \<Rightarrow> time \<Rightarrow> WebhookStats \<Rightarrow> (string \<times> health_value) list" where
  "webhook_health fl pct durStr now w =
     [(''healthy'', HVBool (Webhook_IsHealthy fl now w)),
      (''successRate'', HVString (pct (Webhook_GetSuccessRate fl w))),
      (''totalRequests'', HVInt (hw_requestsTotal w)), (''lastSuccess'', HVTime (hw_lastSuccessTime w)),
      (''lastError'', HVErr (hw_lastError w)), (''avgResponseTime'', HVString (durStr (hw_avgResponseTime w))),
      (''retryAttempts'', HVInt (hw_retryAttempts w))]"

definition GetHealthStatus ::
  "(rat \<Rightarrow> float64) \<Rightarrow> (float64 \<Rightarrow> string) \<Rightarrow> (duration \<Rightarrow> string) \<Rightarrow> time \<Rightarrow> HTTPExporter \<Rightarrow> (string \<times> health_value) list" where
  "GetHealthStatus fl pct durStr now e =
     (let s = hx_stats e; p = hx_workerPool e in
      [(''started'', HVBool (hx_started e)), (''uptime'', HVString (durStr (HTTP_Uptime now s))),
       (''workerCount'', HVInt (wp_workers p)), (''queueLength'', HVInt (int (length (wp_requestCh p)))),
       (''queueCapacity'', HVInt (wp_queueSize p)), (''totalExports'', HVInt (HTTP_TotalExports s)),
       (''successRate'', HVString (pct (GetSuccessRate fl s))), (''lastExportTime'', HVTime (hs_lastExportTime s)),
       (''lastError'', HVErr (hs_lastError s)), (''lastErrorTime'', HVTime (hs_lastErrorTime s)),
       (''webhookCount'', HVInt (int (length (he_Webhooks (hx_config e))))),
       (''webhookHealth'', HVWebhooks (map (\<lambda>(n, w). (n, webhook_health fl pct durStr now w)) (hs_webhookStats s)))])"

text \<open>\<^verbatim>\<open>GetConfiguration\<close>, in \<open>None\<close> when a webhook has no retry settings.\<close>

definition webhook_view :: "(duration \<Rightarrow> string) \<Rightarrow> WebhookEndpoint \<Rightarrow> (string \<times> info_value) list option" where
  "webhook_view durStr w =
     (case wh_Retry w of None \<Rightarrow> None
      | Some r \<Rightarrow> Some
         [(''name'', InfoString (wh_Name w)), (''url'', InfoString (wh_URL w)),
          (''authType'', InfoString (au_Type (wh_Auth w))), (''timeout'', InfoString (durStr (wh_Timeout w))),
          (''sendStatus'', InfoBool (wh_SendStatus w)), (''sendProblems'', InfoBool (wh_SendProblems w)),
          (''maxAttempts'', InfoInt (rc_MaxAttempts r)), (''baseDelay'', InfoString (durStr (rc_BaseDelay r))),
          (''maxDelay'', InfoString (durStr (rc_MaxDelay r))),
          (''customHeaders'', InfoInt (int (length (wh_Headers w))))])"

definition GetConfiguration ::
  "(duration \<Rightarrow> string) \<Rightarrow> HTTPExporter \<Rightarrow> ((string \<times> info_value) list \<times> (string \<times> info_value) list list) option" where
  "GetConfiguration durStr e =
     (let c = hx_config e; views = map (webhook_view durStr) (he_Webhooks c) in
      if None \<in> set views then None
      else Some ([(''enabled'', InfoBool (he_Enabled c)), (''workers'', InfoInt (he_Workers c)),
                  (''queueSize'', InfoInt (he_QueueSize c)), (''timeout'', InfoString (durStr (he_Timeout c))),
                  (''globalHeaders'', InfoInt (int (length (he_Headers c))))], map the views))"

text \<open>\<^verbatim>\<open>performHealthCheck\<close>: the healthy and all webhooks, and whether the critical warning is logged.\<close>

definition HTTP_performHealthCheck :: "(rat \<Rightarrow> float64) \<Rightarrow> time \<Rightarrow> HTTPExporter \<Rightarrow> int \<times> int \<times> bool" where
  "HTTP_performHealthCheck fl now e =
     (let ws = map snd (hs_webhookStats (hx_stats e)); total' = int (length ws);
          healthy = int (length (filter (Webhook_IsHealthy fl now) ws))
      in (healthy, total', 0 < total' \<and> fl (fl (of_int healthy / of_int total') * 100) < 50))"

section \<open>Lemmas\<close>

lemma reload_pool_kept:
  assumes "\<not> needsWorkerPoolRecreation (Some (hx_config e)) new"
  shows "reload_pool forced left new e = (ReloadOk, hx_workerPool e)"
  using assms by (simp add: reload_pool_def)

text \<open>The configuration of an exporter is replaced exactly when the reload succeeds.\<close>

lemma reload_config:
  "HTTPExporter_Reload forced left arg e = (r, e') \<Longrightarrow>
     (case r of ReloadOk \<Rightarrow> (\<exists>new. arg = HTTPConfigArg (Some new) \<and> hx_config e' = new)
      | _ \<Rightarrow> hx_config e' = hx_config e \<and> hx_started e' = hx_started e)"
  by (auto simp: HTTPExporter_Reload_def split: http_reload_arg.splits option.splits prod.splits if_splits
      http_reload_result.splits)

text \<open>A disabled configuration is not validated; when its pool cannot be made, the running one is stopped
  already, and the exporter goes on without a pool that accepts anything.\<close>

lemma disabled_reload_stops_the_pool:
  assumes "\<not> he_Enabled new" "he_Workers new \<le> 0" "he_Workers (hx_config e) \<noteq> he_Workers new"
    "he_Webhooks new \<noteq> []" "hx_started e" "wp_started (hx_workerPool e)" "\<not> wp_closed (hx_workerPool e)"
    "Status_Validate st = None"
  shows "\<exists>err e'. HTTPExporter_Reload forced left (HTTPConfigArg (Some new)) e = (ReloadRefused err, e')
    \<and> fst (HTTP_ExportStatus now (Some st) e') = ExSubmitted NotStarted"
proof -
  have v: "HTTPExporterConfig_Validate new = None"
    using assms(1) by (simp add: HTTPExporterConfig_Validate_def)
  have n: "NewWorkerPool (he_Workers new) (he_QueueSize new) node = Inl (''workers must be positive, got '' @ show_int (he_Workers new))" for node
    using assms(2) by (simp add: NewWorkerPool_def)
  show ?thesis
    using assms v n
    by (simp add: HTTPExporter_Reload_def reload_pool_def needsWorkerPoolRecreation_def WorkerPool_Stop_def
        HTTP_ExportStatus_def SubmitStatusRequest_def submitRequest_def)
qed

text \<open>The shown configuration does not depend on the secrets: tokens, user names, passwords and the values
  of headers.\<close>

definition redact_webhook :: "WebhookEndpoint \<Rightarrow> WebhookEndpoint" where
  "redact_webhook w = w\<lparr>wh_Auth := (wh_Auth w)\<lparr>au_Token := [], au_Username := [], au_Password := []\<rparr>,
     wh_Headers := map (\<lambda>_. ([], [])) (wh_Headers w)\<rparr>"

definition redacted :: "HTTPExporterConfig \<Rightarrow> HTTPExporterConfig" where
  "redacted c = c\<lparr>he_Headers := map (\<lambda>_. ([], [])) (he_Headers c),
     he_Webhooks := map redact_webhook (he_Webhooks c)\<rparr>"

lemma shown_configuration_has_no_secrets:
  "GetConfiguration durStr (e\<lparr>hx_config := redacted (hx_config e)\<rparr>) = GetConfiguration durStr e"
proof -
  have "webhook_view durStr (redact_webhook w) = webhook_view durStr w" for w
    by (simp add: webhook_view_def redact_webhook_def split: option.split)
  then have views: "map (webhook_view durStr) (map redact_webhook ws) = map (webhook_view durStr) ws" for ws
    by simp
  show ?thesis
    by (simp only: GetConfiguration_def Let_def) (simp add: redacted_def views del: map_map set_map)
qed

text \<open>What a started and stopped exporter does when it is started again: the first status ends the program.\<close>

lemma restarted_exporter_panics:
  assumes "hx_started e" "\<not> hx_stopClosed e" "wp_started (hx_workerPool e)" "\<not> wp_closed (hx_workerPool e)"
    "HTTPExporter_Stop forced left e = Some e1" "HTTPExporter_Start e1 = (None, e2)" "Status_Validate st = None"
  shows "fst (HTTP_ExportStatus now (Some st) e2) = ExSubmitted SendOnClosed"
  using assms
  by (auto simp: HTTPExporter_Stop_def HTTPExporter_Start_def WorkerPool_Stop_def WorkerPool_Start_def
      HTTP_ExportStatus_def SubmitStatusRequest_def submitRequest_def submit_send_def
      split: prod.splits option.splits sum.splits if_splits)

text \<open>The statuses are all an exporter is given (no caller of \<^verbatim>\<open>ExportProblem\<close> remains), so an endpoint that only wants
  problems is no target of any request.\<close>

definition only_statuses :: "HTTPExporter \<Rightarrow> bool" where
  "only_statuses e \<longleftrightarrow> (\<forall>q\<in>set (wp_requestCh (hx_workerPool e)). wq_Type q = ''status'')"

lemma only_statuses_export: "only_statuses e \<Longrightarrow> only_statuses (snd (HTTP_ExportStatus now so e))"
  by (auto simp: only_statuses_def HTTP_ExportStatus_def SubmitStatusRequest_def submitRequest_def submit_send_def
      status_request_def split: option.splits prod.splits if_splits)

lemma problems_only_webhook_starves:
  "only_statuses e \<Longrightarrow> q \<in> set (wp_requestCh (hx_workerPool e)) \<Longrightarrow> \<not> wh_SendStatus w \<Longrightarrow> w \<notin> set (targetEndpoints q)"
  by (auto simp: only_statuses_def targetEndpoints_def)

section \<open>Properties\<close>

text \<open>
  C24. Rotating the credentials of a webhook by a reload has no effect: when a reload is accepted that keeps the
  number of workers, the queue size and the timeout, then for a webhook of the same name and URL the pool goes
  on using the client it has made for the old settings; whatever the new settings say, every request sent for the
  webhook carries the bearer token the client was made with.
\<close>

theorem reload_keeps_stale_credentials:
  assumes "NewHTTPClient w = Inr c" "map_of (wp_clients (hx_workerPool e)) (client_key w) = Some c"
    "au_Type (wh_Auth w) = ''bearer''"
    "HTTPExporter_Reload forced left (HTTPConfigArg (Some new)) e = (ReloadOk, e')"
    "he_Workers new = he_Workers (hx_config e)" "he_QueueSize new = he_QueueSize (hx_config e)"
    "he_Timeout new = he_Timeout (hx_config e)"
    "w' \<in> set (he_Webhooks new)" "client_key w' = client_key w"
    "getHTTPClient w' (hx_workerPool e') = (Inr c', p)"
    "send_to_endpoint v now took (wp_nodeName p) q w' c' st = (st', t)" "(n, rq) \<in> set t"
  shows "hx_config e' = new \<and> rq_URL rq = wh_URL w
    \<and> map_of (rq_Header rq) ''Authorization'' = Some (''Bearer '' @ au_Token (wh_Auth w))"
proof -
  have pool: "hx_workerPool e' = hx_workerPool e" "hx_config e' = new"
    using assms(4-7) reload_pool_kept [of e new forced left]
    by (auto simp: HTTPExporter_Reload_def needsWorkerPoolRecreation_def split: option.splits if_splits)
  then have "c' = c" using assms(2,9,10) by (simp add: getHTTPClient_def)
  have "\<exists>req res req'. SendRequest v c' req = (res, req', t)"
    using assms(11,12) by (auto simp: send_to_endpoint_def split: option.splits prod.splits)
  then obtain req res req' where "SendRequest v c' req = (res, req', t)" by blast
  from SendRequest_sent [OF this assms(12)] obtain q2 r2 limit req1 where
    "send_attempts v c' r2 limit (nat limit) 0 q2 = (res, req1, t)" by blast
  from send_attempts_trace [OF this] assms(12) have "sent_by c rq" using \<open>c' = c\<close> by auto
  moreover note NewHTTPClient_Inr [OF assms(1)]
  moreover have "hc_auth c = BearerAuthProvider (au_Token (wh_Auth w))"
    using NewAuthProvider_kind [of "wh_Auth w" "hc_auth c"] calculation(2) assms(3) by blast
  ultimately show ?thesis
    using AddAuth_bearer pool unfolding sent_by_def by metis
qed

text \<open>The example: the token of a webhook is changed from \<open>old\<close> to \<open>new\<close>.\<close>

definition demo_bearer :: "string \<Rightarrow> WebhookEndpoint" where
  "demo_bearer token = demo_webhook\<lparr>wh_Auth := \<lparr>au_Type = ''bearer'', au_Token = token, au_Username = [], au_Password = []\<rparr>,
     wh_Headers := []\<rparr>"

definition demo_bearer_client :: HTTPClient where
  "demo_bearer_client = \<lparr>hc_timeout = 30 * second, hc_endpoint = demo_bearer ''old'', hc_auth = BearerAuthProvider ''old''\<rparr>"

definition demo_http_config :: "string \<Rightarrow> HTTPExporterConfig" where
  "demo_http_config token = \<lparr>he_Enabled = True, he_Webhooks = [demo_bearer token], he_Workers = 1, he_QueueSize = 2,
     he_TimeoutString = ''30s'', he_Timeout = 30 * second, he_Retry = demo_retry, he_Headers = [], he_Controller = None\<rparr>"

definition demo_http_exporter :: HTTPExporter where
  "demo_http_exporter = \<lparr>hx_config = demo_http_config ''old'', hx_nodeName = ''n1'',
     hx_workerPool = demo_pool\<lparr>wp_started := True, wp_clients := [(client_key (demo_bearer ''old''), demo_bearer_client)]\<rparr>,
     hx_stats = NewStats 0, hx_started = True, hx_stopClosed = False\<rparr>"

definition demo_answering :: http_env where
  "demo_answering = demo_http_env (\<lambda>_. Answered 200 [] []) (\<lambda>_ _. None)"

lemma demo_bearer_send: "\<exists>st' rq. send_to_endpoint demo_answering 1 0 ''n1'' demo_worker_request (demo_bearer ''new'') demo_bearer_client st
    = (st', [(0, rq)])"
proof -
  let ?req = "NewProblemRequest 1 (Some demo_webhook_problem) ''n1''
    \<lparr>rm_ExporterVersion = ''1.0.0'', rm_RequestID = ''r1'', rm_RetryAttempt = 0, rm_WebhookName = ''ops''\<rparr>"
  have req: "webhook_request 1 ''n1'' demo_worker_request (demo_bearer ''new'') = Some ?req"
    by (simp add: webhook_request_def demo_worker_request_def problem_request_def demo_bearer_def demo_webhook_def)
  have valid: "WebhookRequest_Validate ?req = None" by code_simp
  obtain rq where d: "doRequest demo_answering demo_bearer_client 0 x = (None, [(0, rq)])" for x
    by (auto simp: doRequest_def demo_answering_def demo_http_env_def demo_bearer_client_def demo_bearer_def
        demo_webhook_def Let_def read_answer_def)
  have r: "wh_Retry (hc_endpoint demo_bearer_client) = Some demo_retry" "rc_MaxAttempts demo_retry = 3"
    by (simp_all add: demo_bearer_client_def demo_bearer_def demo_webhook_def demo_retry_def)
  have k: "nat 3 = Suc (Suc (Suc 0))" by simp
  have "send_attempts demo_answering demo_bearer_client demo_retry 3 (nat 3) 0 ?req
      = (SendOk, set_retry_attempt 0 ?req, [(0, rq)])"
    unfolding k by (simp add: d Let_def)
  then have "\<exists>req'. SendRequest demo_answering demo_bearer_client (Some ?req) = (SendOk, req', [(0, rq)])"
    by (simp add: SendRequest_def valid r Let_def)
  then show ?thesis by (auto simp: send_to_endpoint_def req)
qed

lemma demo_http_reload: "\<exists>e'. HTTPExporter_Reload False [] (HTTPConfigArg (Some (demo_http_config ''new''))) demo_http_exporter = (ReloadOk, e')
    \<and> hx_workerPool e' = hx_workerPool demo_http_exporter"
proof -
  have "HTTPExporterConfig_Validate (demo_http_config ''new'') = None" by code_simp
  then show ?thesis
    by (simp add: HTTPExporter_Reload_def reload_pool_def needsWorkerPoolRecreation_def demo_http_exporter_def demo_http_config_def)
qed

theorem reload_keeps_stale_credentials_witness:
  "\<exists>rq st. send_to_endpoint demo_answering 1 0 ''n1'' demo_worker_request (demo_bearer ''new'') demo_bearer_client (NewStats 0)
       = (st, [(0, rq)])
     \<and> map_of (rq_Header rq) ''Authorization'' = Some ''Bearer old''"
proof -
  obtain e' where e': "HTTPExporter_Reload False [] (HTTPConfigArg (Some (demo_http_config ''new''))) demo_http_exporter = (ReloadOk, e')"
    "hx_workerPool e' = hx_workerPool demo_http_exporter" using demo_http_reload by blast
  obtain st rq where s: "send_to_endpoint demo_answering 1 0 ''n1'' demo_worker_request (demo_bearer ''new'') demo_bearer_client (NewStats 0)
      = (st, [(0, rq)])" using demo_bearer_send by blast
  have c: "NewHTTPClient (demo_bearer ''old'') = Inr demo_bearer_client"
    by (simp add: NewHTTPClient_def NewAuthProvider_def validated_def ContainsAny_def demo_bearer_def
        demo_bearer_client_def demo_webhook_def)
  have m: "map_of (wp_clients (hx_workerPool demo_http_exporter)) (client_key (demo_bearer ''old'')) = Some demo_bearer_client"
    by (simp add: demo_http_exporter_def)
  have k: "client_key (demo_bearer ''new'') = client_key (demo_bearer ''old'')"
    by (simp add: client_key_def demo_bearer_def)
  have g: "getHTTPClient (demo_bearer ''new'') (hx_workerPool e') = (Inr demo_bearer_client, hx_workerPool demo_http_exporter)"
    using m by (simp add: e'(2) getHTTPClient_def k)
  have n: "wp_nodeName (hx_workerPool demo_http_exporter) = ''n1''"
    by (simp add: demo_http_exporter_def demo_pool_def)
  have "map_of (rq_Header rq) ''Authorization'' = Some (''Bearer '' @ au_Token (wh_Auth (demo_bearer ''old'')))"
    using reload_keeps_stale_credentials [OF c m _ e'(1) _ _ _ _ k g s [folded n], of 0 rq]
    by (simp add: demo_bearer_def demo_http_exporter_def demo_http_config_def)
  with s show ?thesis by (auto simp: demo_bearer_def)
qed

end
