(* ===== verification/HTTP_Report.thy ===== *)
theory HTTP_Report
  imports HTTP_Client
begin

text \<open>
  \<^verbatim>\<open>pkg/exporters/http\<close>, files \<^verbatim>\<open>report.go\<close> and \<^verbatim>\<open>controller_webhook.go\<close>: the report of a node, built from the
  statuses and problems it was given, and the sender that posts it to the controller.

  Clocks, the process's numbers, \<^verbatim>\<open>json.Marshal\<close>, the check of the URL, the transport and the pauses are
  arguments (\<open>build_env\<close>, \<open>report_env\<close>, the latter by the number of the attempt). \<open>asString\<close> is the type
  assertion to a string on a metadata value.
\<close>

section \<open>The report\<close>

record ReportBuilder =
  rb_nodeName :: string
  rb_nodeUID :: string
  rb_version :: string
  rb_startTime :: time
  rb_monitorStatuses :: "(string, MonitorStatus) gomap"
  rb_activeProblems :: "(string, ProblemSummary) gomap"
  rb_conditions :: "(string, NodeCondition) gomap"
  rb_statusesProcessed :: int
  rb_problemsDetected :: int
  rb_remediationsRun :: int

definition NewReportBuilder :: "time \<Rightarrow> string \<Rightarrow> string \<Rightarrow> string \<Rightarrow> ReportBuilder" where
  "NewReportBuilder now node uid ver = \<lparr>rb_nodeName = node, rb_nodeUID = uid, rb_version = ver, rb_startTime = now,
     rb_monitorStatuses = [], rb_activeProblems = [], rb_conditions = [], rb_statusesProcessed = 0,
     rb_problemsDetected = 0, rb_remediationsRun = 0\<rparr>"

text \<open>The two loops of \<^verbatim>\<open>convertMonitorStatus\<close>, on the health, the message and the count of errors.\<close>

definition condition_health :: "condition \<Rightarrow> HealthStatus \<times> string \<Rightarrow> HealthStatus \<times> string" where
  "condition_health c hm =
     (if cond_Status c = ConditionFalse \<or> cond_Status c = ConditionUnknown then
        ((if cond_Status c = ConditionFalse then HealthStatusCritical
          else if fst hm \<noteq> HealthStatusCritical then HealthStatusDegraded else fst hm), cond_Message c)
      else hm)"

definition event_health :: "event \<Rightarrow> (HealthStatus \<times> string) \<times> int \<Rightarrow> (HealthStatus \<times> string) \<times> int" where
  "event_health e s =
     (case s of ((h, m), n) \<Rightarrow>
        if ev_Severity e = EventError then
          ((if h \<noteq> HealthStatusCritical then HealthStatusDegraded else h, if m = [] then ev_Message e else m), n + 1)
        else if ev_Severity e = EventWarning \<and> h = HealthStatusHealthy then
          ((HealthStatusDegraded, if m = [] then ev_Message e else m), n)
        else s)"

definition convertMonitorStatus :: "(meta_value \<Rightarrow> string option) \<Rightarrow> status \<Rightarrow> MonitorStatus" where
  "convertMonitorStatus asString st =
     (case fold event_health (st_Events st) (fold condition_health (st_Conditions st) (HealthStatusHealthy, []), 0) of
        ((h, m), n) \<Rightarrow>
          \<lparr>ms_Name = st_Source st,
           ms_Type = (case Option.bind (Option.bind (st_Metadata st) (\<lambda>md. map_of md ''monitorType'')) asString of
                        Some t \<Rightarrow> t | None \<Rightarrow> st_Source st),
           ms_Status = h, ms_LastRun = st_Timestamp st, ms_Message = m, ms_ErrorCount = n\<rparr>)"

definition convertCondition :: "time \<Rightarrow> condition \<Rightarrow> NodeCondition" where
  "convertCondition now c = \<lparr>nc_Type = cond_Type c, nc_Status = cond_Status c, nc_Reason = cond_Reason c,
     nc_Message = cond_Message c, nc_LastTransitionTime = cond_Transition c, nc_LastHeartbeatTime = now\<rparr>"

definition UpdateFromStatus ::
  "(meta_value \<Rightarrow> string option) \<Rightarrow> time \<Rightarrow> status option \<Rightarrow> ReportBuilder \<Rightarrow> ReportBuilder" where
  "UpdateFromStatus asString now so rb =
     (case so of None \<Rightarrow> rb
      | Some st \<Rightarrow> rb\<lparr>rb_statusesProcessed := rb_statusesProcessed rb + 1,
          rb_monitorStatuses := AList.update (st_Source st) (convertMonitorStatus asString st) (rb_monitorStatuses rb),
          rb_conditions := fold (\<lambda>c. AList.update (cond_Type c) (convertCondition now c)) (st_Conditions st)
             (rb_conditions rb)\<rparr>)"

definition report_problem_key :: "string \<Rightarrow> string \<Rightarrow> string" where
  "report_problem_key ty res = ty @ '':'' @ res"

definition Report_AddProblem :: "time \<Rightarrow> problem option \<Rightarrow> ReportBuilder \<Rightarrow> ReportBuilder" where
  "Report_AddProblem now po rb =
     (case po of None \<Rightarrow> rb
      | Some p \<Rightarrow>
          let key = report_problem_key (pr_Type p) (pr_Resource p) in
          (case map_of (rb_activeProblems rb) key of
             Some x \<Rightarrow> rb\<lparr>rb_activeProblems := AList.update key
                 (x\<lparr>ps_LastSeenAt := now, ps_Occurrences := ps_Occurrences x + 1, ps_Message := pr_Message p\<rparr>)
                 (rb_activeProblems rb)\<rparr>
           | None \<Rightarrow> rb\<lparr>rb_problemsDetected := rb_problemsDetected rb + 1,
               rb_activeProblems := AList.update key
                 \<lparr>ps_Type = pr_Type p, ps_Severity = pr_Severity p, ps_Message = pr_Message p, ps_Source = pr_Resource p,
                  ps_DetectedAt = pr_DetectedAt p, ps_LastSeenAt = now, ps_Occurrences = 1\<rparr>
                 (rb_activeProblems rb)\<rparr>))"

definition Report_RemoveProblem :: "string \<Rightarrow> string \<Rightarrow> ReportBuilder \<Rightarrow> ReportBuilder" where
  "Report_RemoveProblem ty res rb =
     rb\<lparr>rb_activeProblems := AList.delete (report_problem_key ty res) (rb_activeProblems rb)\<rparr>"

definition ClearProblemsForSource :: "string \<Rightarrow> ReportBuilder \<Rightarrow> ReportBuilder" where
  "ClearProblemsForSource src rb =
     rb\<lparr>rb_activeProblems := gomap_filter (\<lambda>_ p. ps_Source p \<noteq> src) (rb_activeProblems rb)\<rparr>"

definition Report_IncrementRemediations :: "ReportBuilder \<Rightarrow> ReportBuilder" where
  "Report_IncrementRemediations rb = rb\<lparr>rb_remediationsRun := rb_remediationsRun rb + 1\<rparr>"

text \<open>\<^verbatim>\<open>calculateOverallHealth\<close>; \<open>None\<close> in a loop is its early return of the critical state.\<close>

fun scan_problems :: "HealthStatus \<Rightarrow> ProblemSummary list \<Rightarrow> HealthStatus option" where
  "scan_problems h [] = Some h"
| "scan_problems h (p # ps) =
     (if ps_Severity p = ''critical'' \<or> ps_Severity p = ''Critical'' then None
      else scan_problems (if (ps_Severity p = ''warning'' \<or> ps_Severity p = ''Warning'') \<and> h = HealthStatusHealthy
                          then HealthStatusDegraded else h) ps)"

fun scan_monitors :: "HealthStatus \<Rightarrow> MonitorStatus list \<Rightarrow> HealthStatus option" where
  "scan_monitors h [] = Some h"
| "scan_monitors h (m # ms) =
     (if ms_Status m = HealthStatusCritical then None
      else scan_monitors (if (ms_Status m = HealthStatusDegraded \<or> ms_Status m = HealthStatusUnknown)
                            \<and> h = HealthStatusHealthy then HealthStatusDegraded else h) ms)"

definition calculateOverallHealth :: "MonitorStatus list \<Rightarrow> ProblemSummary list \<Rightarrow> HealthStatus" where
  "calculateOverallHealth ms ps =
     (case scan_problems HealthStatusHealthy ps of
        None \<Rightarrow> HealthStatusCritical
      | Some h \<Rightarrow>
          (case scan_monitors h ms of
             None \<Rightarrow> HealthStatusCritical
           | Some h' \<Rightarrow> if ms = [] then HealthStatusUnknown else h'))"

record build_env =
  be_now :: time
  be_showUptime :: "duration \<Rightarrow> string"
  be_memory :: int
  be_goroutines :: int

definition BuildReport :: "build_env \<Rightarrow> string \<Rightarrow> ReportBuilder \<Rightarrow> NodeReport" where
  "BuildReport b kind rb =
     (let ms = map snd (rb_monitorStatuses rb); ps = map snd (rb_activeProblems rb) in
      \<lparr>nr_NodeName = rb_nodeName rb, nr_NodeUID = rb_nodeUID rb, nr_Timestamp = be_now b,
       nr_ReportID = rb_nodeName rb @ ''-'' @ show_int (unix_nano (be_now b)),
       nr_Version = rb_version rb, nr_Uptime = be_showUptime b (time_sub (be_now b) (rb_startTime rb)),
       nr_ReportType = kind, nr_OverallHealth = calculateOverallHealth ms ps, nr_MonitorStatuses = ms,
       nr_ActiveProblems = ps, nr_Conditions = map snd (rb_conditions rb),
       nr_Stats = Some \<lparr>ns_StatusesProcessed = rb_statusesProcessed rb, ns_ProblemsDetected = rb_problemsDetected rb,
          ns_RemediationsRun = rb_remediationsRun rb, ns_MemoryUsageBytes = be_memory b,
          ns_GoroutineCount = be_goroutines b, ns_CPUUsagePercent = []\<rparr>\<rparr>)"

definition Report_GetStats :: "ReportBuilder \<Rightarrow> int \<times> int \<times> int" where
  "Report_GetStats rb = (rb_statusesProcessed rb, rb_problemsDetected rb, rb_remediationsRun rb)"

definition GetActiveProblemsCount :: "ReportBuilder \<Rightarrow> int" where
  "GetActiveProblemsCount rb = int (length (rb_activeProblems rb))"

definition GetMonitorStatusCount :: "ReportBuilder \<Rightarrow> int" where
  "GetMonitorStatusCount rb = int (length (rb_monitorStatuses rb))"

section \<open>The sender\<close>

record ControllerWebhookStats =
  ct_ReportsSent :: int
  ct_ReportsSucceeded :: int
  ct_ReportsFailed :: int
  ct_LastReportTime :: time
  ct_LastSuccessTime :: time
  ct_LastError :: string
  ct_LastErrorTime :: time
  ct_AvgResponseTimeMs :: int
  ct_totalResponseTime :: int

record ControllerWebhook =
  ch_config :: ControllerWebhookConfig
  ch_reportBuilder :: ReportBuilder
  ch_timeout :: duration
  ch_started :: bool
  ch_stopClosed :: bool
  ch_stats :: ControllerWebhookStats

definition NewControllerWebhook ::
  "time \<Rightarrow> ControllerWebhookConfig option \<Rightarrow> string \<Rightarrow> string \<Rightarrow> string \<Rightarrow> string + ControllerWebhook" where
  "NewControllerWebhook now co node uid ver =
     (case co of None \<Rightarrow> Inl ''config cannot be nil''
      | Some c \<Rightarrow>
          if \<not> cw_Enabled c then Inl ''controller webhook is disabled''
          else if cw_URL c = [] then Inl ''controller URL is required''
          else Inr \<lparr>ch_config = c, ch_reportBuilder = NewReportBuilder now node uid ver, ch_timeout = cw_Timeout c,
             ch_started = False, ch_stopClosed = False,
             ch_stats = \<lparr>ct_ReportsSent = 0, ct_ReportsSucceeded = 0, ct_ReportsFailed = 0, ct_LastReportTime = 0,
               ct_LastSuccessTime = 0, ct_LastError = [], ct_LastErrorTime = 0, ct_AvgResponseTimeMs = 0,
               ct_totalResponseTime = 0\<rparr>\<rparr>)"

text \<open>\<^verbatim>\<open>Start\<close> and \<^verbatim>\<open>Stop\<close> for the webhook's own state; a second stop after a restart closes the channel
  again, which is a panic (\<open>None\<close>).\<close>

definition ControllerWebhook_Start :: "ControllerWebhook \<Rightarrow> string + ControllerWebhook" where
  "ControllerWebhook_Start w =
     (if ch_started w then Inl ''controller webhook already started'' else Inr (w\<lparr>ch_started := True\<rparr>))"

definition ControllerWebhook_Stop :: "ControllerWebhook \<Rightarrow> ControllerWebhook option" where
  "ControllerWebhook_Stop w =
     (if \<not> ch_started w then Some w
      else if ch_stopClosed w then None
      else Some (w\<lparr>ch_stopClosed := True, ch_started := False\<rparr>))"

definition upd_report_stats ::
  "(ControllerWebhookStats \<Rightarrow> ControllerWebhookStats) \<Rightarrow> ControllerWebhook \<Rightarrow> ControllerWebhook" where
  "upd_report_stats f w = w\<lparr>ch_stats := f (ch_stats w)\<rparr>"

definition Report_recordAttempt :: "time \<Rightarrow> duration \<Rightarrow> ControllerWebhook \<Rightarrow> ControllerWebhook" where
  "Report_recordAttempt now took = upd_report_stats (\<lambda>s.
     let sent = ct_ReportsSent s + 1; ms = ct_totalResponseTime s + took div 1000000
     in s\<lparr>ct_ReportsSent := sent, ct_LastReportTime := now, ct_totalResponseTime := ms,
          ct_AvgResponseTimeMs := ms div sent\<rparr>)"

definition Report_recordSuccess :: "time \<Rightarrow> ControllerWebhook \<Rightarrow> ControllerWebhook" where
  "Report_recordSuccess now = upd_report_stats (\<lambda>s.
     s\<lparr>ct_ReportsSucceeded := ct_ReportsSucceeded s + 1, ct_LastSuccessTime := now\<rparr>)"

definition Report_recordError :: "time \<Rightarrow> string \<Rightarrow> ControllerWebhook \<Rightarrow> ControllerWebhook" where
  "Report_recordError now err = upd_report_stats (\<lambda>s.
     s\<lparr>ct_ReportsFailed := ct_ReportsFailed s + 1, ct_LastError := err, ct_LastErrorTime := now\<rparr>)"

definition addAuth :: "AuthConfig \<Rightarrow> header \<Rightarrow> string + header" where
  "addAuth a h =
     (if au_Type a = ''none'' \<or> au_Type a = [] then Inr h
      else if au_Type a = ''bearer'' then
        if au_Token a = [] then Inl ''bearer token is required''
        else Inr (Header_Set ''Authorization'' (''Bearer '' @ au_Token a) h)
      else if au_Type a = ''basic'' then
        if au_Username a = [] \<or> au_Password a = [] then Inl ''username and password are required for basic auth''
        else Inr (Header_Set ''Authorization'' (''Basic '' @ base64 (au_Username a @ '':'' @ au_Password a)) h)
      else Inl (''unsupported auth type: '' @ au_Type a))"

datatype report_answer = ReportNotSent string | ReportAnswered int string

record report_env =
  re_build :: "nat \<Rightarrow> build_env"
  re_marshal :: "NodeReport \<Rightarrow> string + string"
  re_urlErr :: "string \<Rightarrow> string option"
  re_do :: "nat \<Rightarrow> HttpRequest \<Rightarrow> report_answer"
  re_took :: "nat \<Rightarrow> duration"
  re_now :: "nat \<Rightarrow> time"
  re_ended :: "nat \<Rightarrow> bool"
  re_waitEnded :: "nat \<Rightarrow> duration \<Rightarrow> bool"

definition sendReport ::
  "report_env \<Rightarrow> nat \<Rightarrow> string \<Rightarrow> ControllerWebhook \<Rightarrow> string option \<times> ControllerWebhook \<times> HttpRequest list" where
  "sendReport v n kind w =
     (let report = BuildReport (re_build v n) kind (ch_reportBuilder w); c = ch_config w in
      case re_marshal v report of
        Inl e \<Rightarrow> (Some (''failed to marshal report: '' @ e), w, [])
      | Inr body \<Rightarrow>
          (case re_urlErr v (cw_URL c) of
             Some e \<Rightarrow> (Some (''failed to create request: '' @ e), w, [])
           | None \<Rightarrow>
               (case addAuth (cw_Auth c) (fold (\<lambda>(k, x). Header_Set k x) (cw_Headers c)
                       (Header_Set ''User-Agent'' (''node-doctor/'' @ nr_Version report)
                         (Header_Set ''Content-Type'' ''application/json'' []))) of
                  Inl e \<Rightarrow> (Some (''failed to add authentication: '' @ e), w, [])
                | Inr h \<Rightarrow>
                    let rq = \<lparr>rq_Method = ''POST'', rq_URL = cw_URL c, rq_Header = h, rq_Body = body\<rparr>;
                        w1 = Report_recordAttempt (re_now v n) (re_took v n) w
                    in (case re_do v n rq of
                          ReportNotSent e \<Rightarrow> (Some (''failed to send report: '' @ e), w1, [rq])
                        | ReportAnswered code text \<Rightarrow>
                            if 200 \<le> code \<and> code < 300 then (None, Report_recordSuccess (re_now v n) w1, [rq])
                            else (Some (''controller returned status '' @ show_int code @ '': '' @ text), w1, [rq])))))"

definition Report_calculateBackoff :: "ControllerWebhook \<Rightarrow> nat \<Rightarrow> duration" where
  "Report_calculateBackoff w n =
     (case cw_Retry (ch_config w) of None \<Rightarrow> second
      | Some r \<Rightarrow>
          let d = wrap64 (rc_BaseDelay r * wrap64 (2 ^ (n - 1)))
          in if rc_MaxDelay r < d then rc_MaxDelay r else d)"

text \<open>The attempts from number \<open>n\<close> on, \<open>k\<close> of them left.\<close>

fun report_attempts ::
  "report_env \<Rightarrow> string \<Rightarrow> nat \<Rightarrow> nat \<Rightarrow> ControllerWebhook \<Rightarrow> ControllerWebhook \<times> HttpRequest list" where
  "report_attempts v kind 0 n w = (w, [])"
| "report_attempts v kind (Suc k) n w =
     (case sendReport v n kind w of
        (None, w1, t) \<Rightarrow> (w1, t)
      | (Some err, w1, t) \<Rightarrow>
          if k = 0 then (Report_recordError (re_now v n) err w1, t)
          else if re_ended v n then (w1, t)
          else if re_waitEnded v n (Report_calculateBackoff w1 n) then (w1, t)
          else (case report_attempts v kind k (Suc n) w1 of (w2, t2) \<Rightarrow> (w2, t @ t2)))"

definition sendReportWithRetry ::
  "report_env \<Rightarrow> string \<Rightarrow> ControllerWebhook \<Rightarrow> ControllerWebhook \<times> HttpRequest list" where
  "sendReportWithRetry v kind w =
     (let k = (case cw_Retry (ch_config w) of None \<Rightarrow> 1 | Some r \<Rightarrow> nat (rc_MaxAttempts r))
      in report_attempts v kind k 1 w)"

definition SendOnDemandReport :: "report_env \<Rightarrow> ControllerWebhook \<Rightarrow> ControllerWebhook \<times> HttpRequest list" where
  "SendOnDemandReport v = sendReportWithRetry v ''on-demand''"

definition ControllerWebhook_IsHealthy :: "(rat \<Rightarrow> float64) \<Rightarrow> time \<Rightarrow> ControllerWebhook \<Rightarrow> bool" where
  "ControllerWebhook_IsHealthy fl now w =
     (let s = ch_stats w; threshold = wrap64 (3 * cw_Interval (ch_config w)) in
      if threshold < time_sub now (ct_LastSuccessTime s) \<and> 0 < ct_ReportsSent s then False
      else if 10 < ct_ReportsSent s \<and> 1 / 2 < fl (of_int (ct_ReportsFailed s) / of_int (ct_ReportsSent s)) then False
      else True)"

text \<open>The operations of the webhook on its builder.\<close>

definition on_builder :: "(ReportBuilder \<Rightarrow> ReportBuilder) \<Rightarrow> ControllerWebhook \<Rightarrow> ControllerWebhook" where
  "on_builder f w = w\<lparr>ch_reportBuilder := f (ch_reportBuilder w)\<rparr>"

section \<open>Lemmas\<close>

lemmas health_defs = HealthStatusHealthy_def HealthStatusDegraded_def HealthStatusCritical_def HealthStatusUnknown_def

lemma health_distinct [simp]:
  "HealthStatusHealthy \<noteq> HealthStatusCritical" "HealthStatusCritical \<noteq> HealthStatusHealthy"
  "HealthStatusHealthy \<noteq> HealthStatusDegraded" "HealthStatusDegraded \<noteq> HealthStatusHealthy"
  "HealthStatusDegraded \<noteq> HealthStatusCritical" "HealthStatusCritical \<noteq> HealthStatusDegraded"
  by (simp_all add: health_defs)

lemma severity_distinct [simp]: "EventError \<noteq> EventWarning" "EventWarning \<noteq> EventError"
  "ConditionFalse \<noteq> ConditionUnknown" "ConditionUnknown \<noteq> ConditionFalse"
  by (simp_all add: severity_defs)

definition critical_problem :: "ProblemSummary \<Rightarrow> bool" where
  "critical_problem p \<longleftrightarrow> ps_Severity p \<in> {''critical'', ''Critical''}"

definition warning_problem :: "ProblemSummary \<Rightarrow> bool" where
  "warning_problem p \<longleftrightarrow> ps_Severity p \<in> {''warning'', ''Warning''}"

lemma scan_problems_None: "scan_problems h ps = None \<longleftrightarrow> (\<exists>p\<in>set ps. critical_problem p)"
  by (induction ps arbitrary: h) (auto simp: critical_problem_def)

lemma scan_problems_degraded: "scan_problems HealthStatusDegraded ps = Some h \<Longrightarrow> h = HealthStatusDegraded"
  by (induction ps) (auto split: if_splits)

lemma scan_problems_healthy: "scan_problems HealthStatusHealthy ps = Some h \<Longrightarrow>
    h = (if \<exists>p\<in>set ps. warning_problem p then HealthStatusDegraded else HealthStatusHealthy)"
proof (induction ps)
  case Nil
  then show ?case by simp
next
  case (Cons p ps)
  then show ?case using scan_problems_degraded [of ps h] by (auto simp: warning_problem_def split: if_splits)
qed

lemma scan_monitors_None: "scan_monitors h ms = None \<longleftrightarrow> (\<exists>m\<in>set ms. ms_Status m = HealthStatusCritical)"
  by (induction ms arbitrary: h) auto

lemma scan_monitors_degraded: "scan_monitors HealthStatusDegraded ms = Some h \<Longrightarrow> h = HealthStatusDegraded"
  by (induction ms) (auto split: if_splits)

lemma scan_monitors_healthy: "scan_monitors HealthStatusHealthy ms = Some h \<Longrightarrow>
    h = (if \<exists>m\<in>set ms. ms_Status m \<in> {HealthStatusDegraded, HealthStatusUnknown}
         then HealthStatusDegraded else HealthStatusHealthy)"
proof (induction ms)
  case Nil
  then show ?case by simp
next
  case (Cons m ms)
  then show ?case using scan_monitors_degraded [of ms h] by (auto split: if_splits)
qed

text \<open>The overall health, free of the order of the lists, which come from maps.\<close>

lemma calculateOverallHealth_exact:
  "calculateOverallHealth ms ps =
     (if (\<exists>p\<in>set ps. critical_problem p) \<or> (\<exists>m\<in>set ms. ms_Status m = HealthStatusCritical) then HealthStatusCritical
      else if ms = [] then HealthStatusUnknown
      else if (\<exists>p\<in>set ps. warning_problem p) \<or> (\<exists>m\<in>set ms. ms_Status m \<in> {HealthStatusDegraded, HealthStatusUnknown})
        then HealthStatusDegraded
      else HealthStatusHealthy)"
proof (cases "scan_problems HealthStatusHealthy ps")
  case None
  then show ?thesis using scan_problems_None [of HealthStatusHealthy ps] by (simp add: calculateOverallHealth_def)
next
  case (Some h)
  then have nc: "\<not> (\<exists>p\<in>set ps. critical_problem p)"
    using scan_problems_None [of HealthStatusHealthy ps] by simp
  note h = scan_problems_healthy [OF Some]
  show ?thesis
  proof (cases "scan_monitors h ms")
    case None
    then show ?thesis using Some scan_monitors_None [of h ms] by (simp add: calculateOverallHealth_def)
  next
    case (Some h2)
    then have "\<not> (\<exists>m\<in>set ms. ms_Status m = HealthStatusCritical)"
      using scan_monitors_None [of h ms] by simp
    moreover have "h2 = (if (\<exists>p\<in>set ps. warning_problem p) \<or> (\<exists>m\<in>set ms. ms_Status m \<in> {HealthStatusDegraded, HealthStatusUnknown})
        then HealthStatusDegraded else HealthStatusHealthy)"
      using Some h scan_monitors_degraded [of ms h2] scan_monitors_healthy [of ms h2] by (auto split: if_splits)
    ultimately show ?thesis
      using Some nc \<open>scan_problems HealthStatusHealthy ps = Some h\<close> by (simp add: calculateOverallHealth_def)
  qed
qed

lemma fold_condition_health_critical:
  "fst hm = HealthStatusCritical \<Longrightarrow> fst (fold condition_health cs hm) = HealthStatusCritical"
  by (induction cs arbitrary: hm) (auto simp: condition_health_def)

lemma fold_condition_health:
  "fst (fold condition_health cs hm) =
     (if fst hm = HealthStatusCritical \<or> (\<exists>c\<in>set cs. cond_Status c = ConditionFalse) then HealthStatusCritical
      else if \<exists>c\<in>set cs. cond_Status c = ConditionUnknown then HealthStatusDegraded else fst hm)"
proof (induction cs arbitrary: hm)
  case Nil
  then show ?case by simp
next
  case (Cons c cs)
  show ?case unfolding fold_simps o_apply Cons.IH
    by (cases "cond_Status c = ConditionFalse"; cases "cond_Status c = ConditionUnknown";
        cases "fst hm = HealthStatusCritical") (simp_all add: condition_health_def)
qed

lemma fold_event_health:
  "fst (fst (fold event_health es s)) =
     (if fst (fst s) = HealthStatusCritical then HealthStatusCritical
      else if (\<exists>e\<in>set es. ev_Severity e = EventError)
          \<or> fst (fst s) = HealthStatusHealthy \<and> (\<exists>e\<in>set es. ev_Severity e = EventWarning) then HealthStatusDegraded
      else fst (fst s))"
proof (induction es arbitrary: s)
  case Nil
  then show ?case by simp
next
  case (Cons e es)
  obtain h m n where s: "s = ((h, m), n)" by (metis surj_pair)
  show ?case unfolding fold_simps o_apply Cons.IH s
    by (cases "ev_Severity e = EventError"; cases "ev_Severity e = EventWarning"; cases "h = HealthStatusHealthy";
        cases "h = HealthStatusCritical") (simp_all add: event_health_def)
qed

text \<open>The health a monitor is reported with, from the status it sent last.\<close>

lemma convertMonitorStatus_health:
  "ms_Status (convertMonitorStatus asString st) =
     (if \<exists>c\<in>set (st_Conditions st). cond_Status c = ConditionFalse then HealthStatusCritical
      else if (\<exists>c\<in>set (st_Conditions st). cond_Status c = ConditionUnknown)
        \<or> (\<exists>e\<in>set (st_Events st). ev_Severity e \<in> {EventError, EventWarning}) then HealthStatusDegraded
      else HealthStatusHealthy)"
proof -
  obtain h m n where f: "fold event_health (st_Events st) (fold condition_health (st_Conditions st) (HealthStatusHealthy, []), 0)
      = ((h, m), n)" by (metis surj_pair)
  have "ms_Status (convertMonitorStatus asString st) = h"
    by (simp add: convertMonitorStatus_def f)
  also have "h = fst (fst (fold event_health (st_Events st)
      (fold condition_health (st_Conditions st) (HealthStatusHealthy, []), 0)))"
    by (simp add: f)
  finally show ?thesis
    unfolding fold_event_health fst_conv fold_condition_health
    by (cases "\<exists>c\<in>set (st_Conditions st). cond_Status c = ConditionFalse";
        cases "\<exists>c\<in>set (st_Conditions st). cond_Status c = ConditionUnknown")
      (simp_all add: bex_disj_distrib)
qed

lemma UpdateFromStatus_latest:
  "map_of (rb_monitorStatuses (UpdateFromStatus asString now (Some st) rb)) k =
     (if k = st_Source st then Some (convertMonitorStatus asString st) else map_of (rb_monitorStatuses rb) k)"
  by (simp add: UpdateFromStatus_def)

subsection \<open>The failure rate\<close>

definition reaches_wire :: "report_env \<Rightarrow> ControllerWebhookConfig \<Rightarrow> bool" where
  "reaches_wire v c \<longleftrightarrow> (\<forall>r. \<exists>b. re_marshal v r = Inr b) \<and> re_urlErr v (cw_URL c) = None
     \<and> (\<forall>h. \<exists>h'. addAuth (cw_Auth c) h = Inr h')"

lemmas report_stats_defs = Report_recordAttempt_def Report_recordSuccess_def Report_recordError_def upd_report_stats_def

lemma sendReport_counts:
  assumes "sendReport v n kind w = (r, w1, t)" "reaches_wire v (ch_config w)"
  shows "ch_config w1 = ch_config w \<and> ct_ReportsSent (ch_stats w1) = ct_ReportsSent (ch_stats w) + 1
    \<and> ct_ReportsFailed (ch_stats w1) = ct_ReportsFailed (ch_stats w) \<and> length t = 1"
proof -
  let ?report = "BuildReport (re_build v n) kind (ch_reportBuilder w)"
  obtain body where "re_marshal v ?report = Inr body" using assms(2) unfolding reaches_wire_def by blast
  moreover obtain h where "addAuth (cw_Auth (ch_config w)) (fold (\<lambda>(k, x). Header_Set k x) (cw_Headers (ch_config w))
      (Header_Set ''User-Agent'' (''node-doctor/'' @ nr_Version ?report)
        (Header_Set ''Content-Type'' ''application/json'' []))) = Inr h"
    using assms(2) unfolding reaches_wire_def by blast
  ultimately show ?thesis
    using assms unfolding sendReport_def Let_def
    by (auto simp: reaches_wire_def report_stats_defs Let_def split: report_answer.splits if_splits)
qed

lemma report_attempts_counts:
  assumes "report_attempts v kind k n w = (w', t)" "reaches_wire v (ch_config w)"
  shows "ch_config w' = ch_config w \<and> ct_ReportsSent (ch_stats w) \<le> ct_ReportsSent (ch_stats w')
    \<and> (ct_ReportsFailed (ch_stats w') = ct_ReportsFailed (ch_stats w)
       \<or> ct_ReportsFailed (ch_stats w') = ct_ReportsFailed (ch_stats w) + 1
         \<and> ct_ReportsSent (ch_stats w') = ct_ReportsSent (ch_stats w) + int k)"
  using assms
proof (induction k arbitrary: n w w' t)
  case 0
  then show ?case by simp
next
  case (Suc k)
  obtain r w1 t1 where s: "sendReport v n kind w = (r, w1, t1)" by (metis surj_pair)
  note c = sendReport_counts [OF s Suc.prems(2)]
  have wire: "reaches_wire v (ch_config w1)" using Suc.prems(2) c by simp
  show ?case
  proof (cases "r = None \<or> k = 0 \<or> re_ended v n \<or> re_waitEnded v n (Report_calculateBackoff w1 n)")
    case True
    then show ?thesis
      using Suc.prems(1) s c by (cases r) (auto simp: report_stats_defs split: if_splits)
  next
    case False
    then obtain t2 where "report_attempts v kind k (Suc n) w1 = (w', t2)"
      using Suc.prems(1) s by (auto split: prod.splits option.splits)
    from Suc.IH [OF this wire] c show ?thesis by auto
  qed
qed

definition report_rate_ok :: "ControllerWebhook \<Rightarrow> bool" where
  "report_rate_ok w \<longleftrightarrow> 0 \<le> ct_ReportsSent (ch_stats w) \<and> 2 * ct_ReportsFailed (ch_stats w) \<le> ct_ReportsSent (ch_stats w)"

lemma report_rate_step:
  assumes "reaches_wire v (ch_config w)" "cw_Retry (ch_config w) = Some r" "2 \<le> rc_MaxAttempts r" "report_rate_ok w"
  shows "report_rate_ok (fst (sendReportWithRetry v kind w)) \<and> ch_config (fst (sendReportWithRetry v kind w)) = ch_config w"
proof -
  obtain w' t where e: "report_attempts v kind (nat (rc_MaxAttempts r)) 1 w = (w', t)" by (metis surj_pair)
  from report_attempts_counts [OF e assms(1)] assms e show ?thesis
    by (auto simp: sendReportWithRetry_def report_rate_ok_def)
qed

text \<open>With two attempts or more for a report, at least two are counted as sent for each report counted as
  failed, and the test of the failure rate never finds the webhook unhealthy, though no report arrives.\<close>

lemma failure_rate_check_never_trips:
  assumes "\<forall>(v, kind)\<in>set runs. reaches_wire v (ch_config w)" "cw_Retry (ch_config w) = Some r" "2 \<le> rc_MaxAttempts r"
    "report_rate_ok w" "\<forall>x. x \<le> 1 / 2 \<longrightarrow> (fl :: rat \<Rightarrow> float64) x \<le> 1 / 2"
  defines "w' \<equiv> fold (\<lambda>(v, kind) x. fst (sendReportWithRetry v kind x)) runs w"
  shows "\<not> (10 < ct_ReportsSent (ch_stats w') \<and> 1 / 2 < fl (of_int (ct_ReportsFailed (ch_stats w')) / of_int (ct_ReportsSent (ch_stats w'))))"
proof -
  have "report_rate_ok w' \<and> ch_config w' = ch_config w"
    using assms(1-4) unfolding w'_def
  proof (induction runs arbitrary: w)
    case Nil
    then show ?case by simp
  next
    case (Cons x runs)
    obtain v kind where x: "x = (v, kind)" by (metis surj_pair)
    have st: "report_rate_ok (fst (sendReportWithRetry v kind w))
        \<and> ch_config (fst (sendReportWithRetry v kind w)) = ch_config w"
      using report_rate_step [of v w r kind] Cons.prems x by auto
    show ?case
      using Cons.IH [of "fst (sendReportWithRetry v kind w)"] Cons.prems st
      by (simp add: x)
  qed
  then have f: "2 * ct_ReportsFailed (ch_stats w') \<le> ct_ReportsSent (ch_stats w')"
    by (simp add: report_rate_ok_def)
  show ?thesis
  proof
    assume a: "10 < ct_ReportsSent (ch_stats w') \<and> 1 / 2 < fl (of_int (ct_ReportsFailed (ch_stats w')) / of_int (ct_ReportsSent (ch_stats w')))"
    have "2 * (of_int (ct_ReportsFailed (ch_stats w')) :: rat) \<le> of_int (ct_ReportsSent (ch_stats w'))"
      using f by (metis of_int_le_iff of_int_mult of_int_numeral)
    then have "of_int (ct_ReportsFailed (ch_stats w')) / of_int (ct_ReportsSent (ch_stats w')) \<le> (1 / 2 :: rat)"
      using a by (simp add: divide_le_eq)
    with assms(5) a show False by (meson not_le)
  qed
qed

end
