(* ===== verification/System_Common.thy ===== *)
theory System_Common
  imports Controller_Types Base_Monitor Reload_Validator Remediators_Host "HOL-Library.Word"
begin

text \<open>
  What the monitors of \<^verbatim>\<open>pkg/monitors/system\<close> share: the files of the host, texts of numbers, the
  decoding of a monitor's configuration map, and the outcome of a part of a check.

  The host is an argument (\<open>sys_env\<close>): files and directories, \<^verbatim>\<open>strconv.ParseFloat\<close>, rounding to \<^verbatim>\<open>float64\<close>, the
  formats \<^verbatim>\<open>%.1f\<close> and \<^verbatim>\<open>%.2f\<close> and one reading of the clock for all time stamps of a check. Kernel counters
  are \<open>64 word\<close>s, as in the source. Floats that are not numbers are left out.
\<close>

section \<open>Texts\<close>

fun split_on :: "(char \<Rightarrow> bool) \<Rightarrow> string \<Rightarrow> string list" where
  "split_on P [] = [[]]"
| "split_on P (c # s) =
     (if P c then [] # split_on P s
      else (case split_on P s of [] \<Rightarrow> [[c]] | w # ws \<Rightarrow> (c # w) # ws))"

text \<open>\<^verbatim>\<open>strings.Fields\<close> and \<^verbatim>\<open>strings.Split\<close> at line ends.\<close>

definition Fields :: "string \<Rightarrow> string list" where
  "Fields s = filter (\<lambda>w. w \<noteq> []) (split_on Remediators_Host.is_space s)"

definition split_lines :: "string \<Rightarrow> string list" where
  "split_lines s = split_on (\<lambda>c. c = CHR 0x0A) s"

definition TrimSuffix :: "string \<Rightarrow> string \<Rightarrow> string" where
  "TrimSuffix s x = (if x \<noteq> [] \<and> length x \<le> length s \<and> drop (length s - length x) s = x
     then take (length s - length x) s else s)"

text \<open>\<^verbatim>\<open>strconv.ParseUint(s, 10, 64)\<close>.\<close>

definition ParseUint :: "string \<Rightarrow> 64 word option" where
  "ParseUint s = (if s \<noteq> [] \<and> list_all is_digit s \<and> digits_value s < 18446744073709551616
     then Some (word_of_int (digits_value s)) else None)"

section \<open>The host\<close>

record sys_env =
  se_readFile :: "string \<Rightarrow> string + string"
  se_readDir :: "string \<Rightarrow> string + (string \<times> bool) list"
  se_parseFloat :: "string \<Rightarrow> string + float64"
  se_numCPU :: int
  se_fl :: "rat \<Rightarrow> float64"
  se_f1 :: "float64 \<Rightarrow> string"
  se_f2 :: "float64 \<Rightarrow> string"
  se_now :: time

definition float_of :: "sys_env \<Rightarrow> 64 word \<Rightarrow> float64" where
  "float_of v w = se_fl v (of_nat (unat w))"

text \<open>\<open>100 * a / b\<close> as the source computes it.\<close>

definition percent_of :: "sys_env \<Rightarrow> 64 word \<Rightarrow> 64 word \<Rightarrow> float64" where
  "percent_of v a b = se_fl v (se_fl v (float_of v a / float_of v b) * 100)"

definition gb_of_kb :: "sys_env \<Rightarrow> 64 word \<Rightarrow> string" where
  "gb_of_kb v w = se_f2 v (float_of v w / 1024 / 1024)"

text \<open>A part of a check adds to the status and may fail; a failure becomes an event of the monitor.\<close>

definition add_event :: "sys_env \<Rightarrow> string \<Rightarrow> string \<Rightarrow> string \<Rightarrow> status \<Rightarrow> status" where
  "add_event v sev reason msg = AddEvent (NewEvent (se_now v) sev reason msg)"

definition add_condition :: "sys_env \<Rightarrow> string \<Rightarrow> string \<Rightarrow> string \<Rightarrow> string \<Rightarrow> status \<Rightarrow> status" where
  "add_condition v ty st reason msg = AddCondition (NewCondition (se_now v) ty st reason msg)"

definition run_part ::
  "sys_env \<Rightarrow> bool \<Rightarrow> string \<Rightarrow> string \<Rightarrow> ('m \<times> status \<Rightarrow> string option \<times> 'm \<times> status) \<Rightarrow> 'm \<times> status \<Rightarrow> 'm \<times> status" where
  "run_part v enabled reason text part ms =
     (if \<not> enabled then ms
      else (case part ms of
         (None, m, s) \<Rightarrow> (m, s)
       | (Some e, m, s) \<Rightarrow> (m, add_event v EventError reason (text @ e) s)))"

section \<open>Configuration maps\<close>

text \<open>A field of the wrong kind: its name and what it must be; a value out of its range; other refusals.\<close>

datatype sys_config_error =
    FieldKind string string cfg_value
  | OutOfPercent string float64
  | NotBelow string float64 string float64
  | NotPositive string int
  | NotPositiveFloat string float64
  | AtMountPoint int sys_config_error
  | PathMissing
  | BadProbePath nat cfg_value
  | BadProbeTimeout string
  | NameMissing
  | WrongType string
  | BaseRefused base_error

fun toFloat64 :: "cfg_value \<Rightarrow> float64 option" where
  "toFloat64 (CVFloat x) = Some x"
| "toFloat64 (CVInt n) = Some (of_int n)"
| "toFloat64 _ = None"

text \<open>An integer field takes an integer or the integral part of a float.\<close>

fun int_value :: "cfg_value \<Rightarrow> int option" where
  "int_value (CVInt n) = Some n"
| "int_value (CVFloat x) = Some (if 0 \<le> x then \<lfloor>x\<rfloor> else \<lceil>x\<rceil>)"
| "int_value _ = None"

fun bool_value :: "cfg_value \<Rightarrow> bool option" where
  "bool_value (CVBool b) = Some b"
| "bool_value _ = None"

fun string_value :: "cfg_value \<Rightarrow> string option" where
  "string_value (CVString s) = Some s"
| "string_value _ = None"

definition read_field ::
  "(cfg_value \<Rightarrow> 'a option) \<Rightarrow> string \<Rightarrow> 'a \<Rightarrow> (string, cfg_value) gomap \<Rightarrow> string \<Rightarrow> sys_config_error + 'a" where
  "read_field decode what zero m name =
     (case map_of m name of None \<Rightarrow> Inr zero
      | Some x \<Rightarrow> (case decode x of Some y \<Rightarrow> Inr y | None \<Rightarrow> Inl (FieldKind name what x)))"

abbreviation "read_float \<equiv> read_field toFloat64 ''number'' 0"
abbreviation "read_int \<equiv> read_field int_value ''number'' 0"
abbreviation "read_bool \<equiv> read_field bool_value ''boolean'' False"
abbreviation "read_string \<equiv> read_field string_value ''string'' []"

definition or_default :: "'a \<Rightarrow> 'a \<Rightarrow> 'a \<Rightarrow> 'a" where
  "or_default zero d x = (if x = zero then d else x)"

definition check_percent :: "string \<Rightarrow> float64 \<Rightarrow> sys_config_error option" where
  "check_percent name x = (if x \<le> 0 \<or> 100 < x then Some (OutOfPercent name x) else None)"

definition check_below :: "string \<Rightarrow> float64 \<Rightarrow> string \<Rightarrow> float64 \<Rightarrow> sys_config_error option" where
  "check_below a x b y = (if y \<le> x then Some (NotBelow a x b y) else None)"

text \<open>The first check that fails decides; \<open>checked\<close> returns the value when none does.\<close>

fun first_error :: "'e option list \<Rightarrow> 'e option" where
  "first_error [] = None"
| "first_error (Some e # es) = Some e"
| "first_error (None # es) = first_error es"

definition checked :: "'e option list \<Rightarrow> 'a \<Rightarrow> 'e + 'a" where
  "checked es x = (case first_error es of Some e \<Rightarrow> Inl e | None \<Rightarrow> Inr x)"

definition with_base :: "MonitorConfig \<Rightarrow> (BaseMonitor \<Rightarrow> 'm) \<Rightarrow> sys_config_error + 'm" where
  "with_base mc mk =
     (case NewBaseMonitor (mc_Name mc) (mc_Interval mc) (mc_Timeout mc) of
        Inl e \<Rightarrow> Inl (BaseRefused e)
      | Inr b \<Rightarrow> (case SetCheckFunc True b of (Some e, _) \<Rightarrow> Inl (BaseRefused e) | (None, b') \<Rightarrow> Inr (mk b')))"

section \<open>Lemmas\<close>

lemma first_error_None: "first_error es = None \<longleftrightarrow> (\<forall>e\<in>set es. e = None)"
  by (induction es rule: first_error.induct) auto

lemma checked_Inr: "checked es x = Inr y \<longleftrightarrow> y = x \<and> (\<forall>e\<in>set es. e = None)"
  by (cases "first_error es") (use first_error_None [of es] in \<open>auto simp: checked_def\<close>)

lemma run_part_disabled [simp]: "run_part v False reason text part ms = ms"
  by (simp add: run_part_def)

lemma add_simps [simp]:
  "st_Conditions (add_event v a b c s) = st_Conditions s"
  "st_Events (add_event v a b c s) = st_Events s @ [NewEvent (se_now v) a b c]"
  "st_Conditions (add_condition v t a b c s) = st_Conditions s @ [NewCondition (se_now v) t a b c]"
  "st_Events (add_condition v t a b c s) = st_Events s"
  by (simp_all add: add_event_def add_condition_def AddEvent_def AddCondition_def)

lemma NewCondition_simps [simp]:
  "cond_Type (NewCondition now t a b c) = t" "cond_Status (NewCondition now t a b c) = a"
  "cond_Reason (NewCondition now t a b c) = b"
  by (simp_all add: NewCondition_def)

lemma NewEvent_simps [simp]:
  "ev_Severity (NewEvent now a b c) = a" "ev_Reason (NewEvent now a b c) = b" "ev_Message (NewEvent now a b c) = c"
  by (simp_all add: NewEvent_def)

lemma NewStatus_simps [simp]: "st_Events (NewStatus now n) = []" "st_Conditions (NewStatus now n) = []"
  "st_Source (NewStatus now n) = n"
  by (simp_all add: NewStatus_def)

lemma with_base_Inr: "with_base mc mk = Inr m \<Longrightarrow> \<exists>b. m = mk b"
  unfolding with_base_def by (auto split: sum.split_asm prod.split_asm option.split_asm)

text \<open>A status without an event of some reason, and the parts of a check that add none.\<close>

definition lacks_event :: "string \<Rightarrow> status \<Rightarrow> bool" where
  "lacks_event r s \<longleftrightarrow> (\<forall>e\<in>set (st_Events s). ev_Reason e \<noteq> r)"

lemma lacks_event_simps [simp]:
  "lacks_event r (NewStatus now n)"
  "lacks_event r (add_event v sev reason msg s) \<longleftrightarrow> reason \<noteq> r \<and> lacks_event r s"
  "lacks_event r (add_condition v t st reason msg s) \<longleftrightarrow> lacks_event r s"
  by (auto simp: lacks_event_def)

lemma run_part_lacks:
  assumes "lacks_event r (snd ms)" "reason \<noteq> r"
    "\<And>m0 s0 e1 m1 s1. lacks_event r s0 \<Longrightarrow> part (m0, s0) = (e1, m1, s1) \<Longrightarrow> lacks_event r s1"
  shows "lacks_event r (snd (run_part v b reason text part ms))"
proof -
  obtain m0 s0 where ms: "ms = (m0, s0)" by (metis surj_pair)
  obtain e1 m1 s1 where p: "part ms = (e1, m1, s1)" by (metis surj_pair)
  have "lacks_event r s1" using assms(1,3) p ms by simp
  then show ?thesis using assms(1,2) p by (cases e1) (simp_all add: run_part_def)
qed

section \<open>Sustained readings\<close>

text \<open>The monitors count how often in a row a reading was too high. The law: a check that could not read leaves the
  count, a high reading adds one, any other starts over. Then the count is the length of the last stretch of high
  readings among those that could be read.\<close>

definition stretch :: "('e \<Rightarrow> bool) \<Rightarrow> ('e \<Rightarrow> bool) \<Rightarrow> 'e list \<Rightarrow> nat" where
  "stretch readable high es = length (takeWhile high (rev (filter readable es)))"

lemma stretch_snoc: "stretch readable high (es @ [e]) =
    (if \<not> readable e then stretch readable high es else if high e then Suc (stretch readable high es) else 0)"
  by (simp add: stretch_def)

locale sustained =
  fixes count :: "'m \<Rightarrow> int"
    and step :: "'e \<Rightarrow> 'm \<Rightarrow> 'm"
    and readable :: "'e \<Rightarrow> bool"
    and high :: "'e \<Rightarrow> bool"
    and good :: "'m \<Rightarrow> bool"
  assumes keeps: "good m \<Longrightarrow> good (step e m)"
    and counts: "good m \<Longrightarrow> count (step e m) = (if \<not> readable e then count m else if high e then count m + 1 else 0)"
begin

lemma count_run:
  assumes "good m" "count m = 0"
  shows "good (fold step es m) \<and> count (fold step es m) = int (stretch readable high es)"
proof (induction es rule: rev_induct)
  case Nil
  then show ?case using assms by (simp add: stretch_def)
next
  case (snoc e es)
  then show ?case using keeps counts by (auto simp: stretch_snoc)
qed

end

end
