(* ===== verification/System_CPU.thy ===== *)
theory System_CPU
  imports System_Common
begin

text \<open>
  \<^verbatim>\<open>pkg/monitors/system/cpu.go\<close>: load average and thermal throttling. The counts of throttling are a map from
  the number of the CPU, kept from check to check; they are signed 64-bit counters.
\<close>

section \<open>Configuration\<close>

record CPUMonitorConfig =
  cmc_WarningLoadFactor :: float64
  cmc_CriticalLoadFactor :: float64
  cmc_SustainedHighLoadChecks :: int
  cmc_CheckThermalThrottle :: bool
  cmc_CheckLoadAverage :: bool
  cmc_LoadAvgPath :: string
  cmc_CPUInfoPath :: string
  cmc_ThermalBasePath :: string

definition parseCPUConfig :: "(string, cfg_value) gomap \<Rightarrow> sys_config_error + CPUMonitorConfig" where
  "parseCPUConfig m =
     bindE (read_float m ''warningLoadFactor'') (\<lambda>w.
     bindE (read_float m ''criticalLoadFactor'') (\<lambda>c.
     bindE (read_int m ''sustainedHighLoadChecks'') (\<lambda>n.
     bindE (read_bool m ''checkThermalThrottle'') (\<lambda>th.
     bindE (read_bool m ''checkLoadAverage'') (\<lambda>ld.
     bindE (read_string m ''loadAvgPath'') (\<lambda>lp.
     bindE (read_string m ''cpuInfoPath'') (\<lambda>cp.
     bindE (read_string m ''thermalBasePath'') (\<lambda>tp.
       Inr \<lparr>cmc_WarningLoadFactor = w, cmc_CriticalLoadFactor = c, cmc_SustainedHighLoadChecks = n,
            cmc_CheckThermalThrottle = th, cmc_CheckLoadAverage = ld, cmc_LoadAvgPath = lp, cmc_CPUInfoPath = cp,
            cmc_ThermalBasePath = tp\<rparr>))))))))"

text \<open>The defaults never fail: the factors are checked in the validator only.\<close>

definition cpu_applyDefaults :: "CPUMonitorConfig \<Rightarrow> CPUMonitorConfig" where
  "cpu_applyDefaults c =
     (let both = \<not> cmc_CheckLoadAverage c \<and> \<not> cmc_CheckThermalThrottle c in
      \<lparr>cmc_WarningLoadFactor = or_default 0 (4 / 5) (cmc_WarningLoadFactor c),
       cmc_CriticalLoadFactor = or_default 0 (3 / 2) (cmc_CriticalLoadFactor c),
       cmc_SustainedHighLoadChecks = or_default 0 3 (cmc_SustainedHighLoadChecks c),
       cmc_CheckThermalThrottle = (both \<or> cmc_CheckThermalThrottle c),
       cmc_CheckLoadAverage = (both \<or> cmc_CheckLoadAverage c),
       cmc_LoadAvgPath = or_default [] ''/proc/loadavg'' (cmc_LoadAvgPath c),
       cmc_CPUInfoPath = or_default [] ''/proc/cpuinfo'' (cmc_CPUInfoPath c),
       cmc_ThermalBasePath = or_default [] ''/sys/devices/system/cpu'' (cmc_ThermalBasePath c)\<rparr>)"

record CPUMonitor =
  cm_name :: string
  cm_baseMonitor :: BaseMonitor
  cm_config :: CPUMonitorConfig
  cm_highLoadCount :: int
  cm_lastThrottleState :: "(int, int) gomap"

definition NewCPUMonitor :: "MonitorConfig \<Rightarrow> sys_config_error + CPUMonitor" where
  "NewCPUMonitor mc =
     bindE (parseCPUConfig (mc_Config mc)) (\<lambda>c.
       with_base mc (\<lambda>b. \<lparr>cm_name = mc_Name mc, cm_baseMonitor = b, cm_config = cpu_applyDefaults c,
         cm_highLoadCount = 0, cm_lastThrottleState = []\<rparr>))"

definition positive_factor :: "string \<Rightarrow> float64 \<Rightarrow> sys_config_error option" where
  "positive_factor name x = (if x \<le> 0 then Some (NotPositiveFloat name x) else None)"

definition ValidateCPUConfig :: "MonitorConfig \<Rightarrow> sys_config_error option" where
  "ValidateCPUConfig mc =
     (if mc_Name mc = [] then Some NameMissing
      else if mc_Type mc \<noteq> ''system-cpu'' then Some (WrongType (mc_Type mc))
      else (case parseCPUConfig (mc_Config mc) of Inl e \<Rightarrow> Some e
        | Inr c0 \<Rightarrow> let c = cpu_applyDefaults c0 in first_error
            [positive_factor ''warningLoadFactor'' (cmc_WarningLoadFactor c),
             positive_factor ''criticalLoadFactor'' (cmc_CriticalLoadFactor c),
             check_below ''warningLoadFactor'' (cmc_WarningLoadFactor c)
               ''criticalLoadFactor'' (cmc_CriticalLoadFactor c),
             if cmc_SustainedHighLoadChecks c \<le> 0
               then Some (NotPositive ''sustainedHighLoadChecks'' (cmc_SustainedHighLoadChecks c)) else None]))"

section \<open>Load\<close>

record LoadAverage =
  la_Load1 :: float64
  la_Load5 :: float64
  la_Load15 :: float64

definition parse_load :: "sys_env \<Rightarrow> string \<Rightarrow> string \<Rightarrow> string + float64" where
  "parse_load v which f = (case se_parseFloat v f of Inr x \<Rightarrow> Inr x
     | Inl e \<Rightarrow> Inl (''failed to parse '' @ which @ ''-minute load average '' @ go_quote f @ '': '' @ e))"

definition parseLoadAvg :: "sys_env \<Rightarrow> string \<Rightarrow> string + LoadAverage" where
  "parseLoadAvg v path =
     (case se_readFile v path of
        Inl e \<Rightarrow> Inl (''failed to read '' @ path @ '': '' @ e)
      | Inr text \<Rightarrow>
          (case Fields text of
             f0 # f1 # f2 # _ \<Rightarrow>
               bindE (parse_load v ''1'' f0) (\<lambda>a. bindE (parse_load v ''5'' f1) (\<lambda>b. bindE (parse_load v ''15'' f2) (\<lambda>c.
                 Inr \<lparr>la_Load1 = a, la_Load5 = b, la_Load15 = c\<rparr>)))
           | _ \<Rightarrow> Inl (''invalid load average format: '' @ text)))"

text \<open>The pattern \<^verbatim>\<open>^processor\s*:\<close>.\<close>

definition re_space :: "char \<Rightarrow> bool" where
  "re_space c \<longleftrightarrow> (of_char c :: nat) \<in> {9, 10, 12, 13, 32}"

definition processor_line :: "string \<Rightarrow> bool" where
  "processor_line line \<longleftrightarrow> has_prefix line ''processor'' \<and> has_prefix (dropWhile re_space (drop 9 line)) '':''"

definition getCPUCount :: "sys_env \<Rightarrow> string \<Rightarrow> string + int" where
  "getCPUCount v path =
     (let n = (case se_readFile v path of Inl _ \<Rightarrow> 0 | Inr text \<Rightarrow> int (length (filter processor_line (split_lines text))))
      in if 0 < n then Inr n
         else if se_numCPU v \<le> 0 then Inl ''unable to determine CPU count'' else Inr (se_numCPU v))"

definition load_figures :: "sys_env \<Rightarrow> LoadAverage \<Rightarrow> float64 \<Rightarrow> int \<Rightarrow> string" where
  "load_figures v la f n = ''1m='' @ se_f2 v (la_Load1 la) @ '' ('' @ se_f1 v (se_fl v (f * 100)) @ ''% of '' @ show_int n
     @ '' cores), 5m='' @ se_f2 v (la_Load5 la) @ '', 15m='' @ se_f2 v (la_Load15 la)"

definition checkLoadAverage ::
  "sys_env \<Rightarrow> CPUMonitor \<times> status \<Rightarrow> string option \<times> CPUMonitor \<times> status" where
  "checkLoadAverage v ms =
     (case ms of (m, s) \<Rightarrow> let c = cm_config m in
       (case parseLoadAvg v (cmc_LoadAvgPath c) of
          Inl e \<Rightarrow> (Some (''failed to parse load average: '' @ e), m, s)
        | Inr la \<Rightarrow>
            (case getCPUCount v (cmc_CPUInfoPath c) of
               Inl e \<Rightarrow> (Some (''failed to get CPU count: '' @ e), m, s)
             | Inr cores \<Rightarrow>
                 let f = se_fl v (la_Load1 la / se_fl v (of_int cores)) in
                 if cmc_CriticalLoadFactor c \<le> f then
                   let n = cm_highLoadCount m + 1;
                       s1 = add_event v EventWarning ''HighCPULoad''
                              (''High CPU load detected: '' @ load_figures v la f cores) s
                   in (None, m\<lparr>cm_highLoadCount := n\<rparr>,
                       if cmc_SustainedHighLoadChecks c \<le> n then
                         add_condition v ''CPUPressure'' ConditionTrue ''SustainedHighLoad''
                           (''CPU has been under sustained high load for '' @ show_int n
                            @ '' consecutive checks (load factor '' @ se_f2 v f @ '' >= ''
                            @ se_f2 v (cmc_CriticalLoadFactor c) @ '')'') s1
                       else s1)
                 else if cmc_WarningLoadFactor c \<le> f then
                   (None, m\<lparr>cm_highLoadCount := 0\<rparr>,
                    add_condition v ''CPUPressure'' ConditionFalse ''ElevatedLoad''
                      (''CPU load is elevated but not critical (load factor '' @ se_f2 v f @ '')'')
                      (add_event v EventWarning ''ElevatedCPULoad''
                        (''Elevated CPU load detected: '' @ load_figures v la f cores) s))
                 else
                   (None, m\<lparr>cm_highLoadCount := 0\<rparr>,
                    add_condition v ''CPUPressure'' ConditionFalse ''NormalLoad''
                      (''CPU load is normal (load factor '' @ se_f2 v f @ '')'') s))))"

section \<open>Throttling\<close>

text \<open>One directory entry: the number of its CPU and the count in its file, when it has both.\<close>

definition throttle_reading :: "sys_env \<Rightarrow> string \<Rightarrow> string \<times> bool \<Rightarrow> (int \<times> int) option" where
  "throttle_reading v base d =
     (case d of (name, isDir) \<Rightarrow>
        if \<not> isDir \<or> \<not> has_prefix name ''cpu'' \<or> drop 3 name = [] then None
        else (case Atoi (drop 3 name) of None \<Rightarrow> None
          | Some cpu \<Rightarrow>
              (case se_readFile v (base @ ''/'' @ name @ ''/thermal_throttle/core_throttle_count'') of
                 Inl _ \<Rightarrow> None
               | Inr text \<Rightarrow> map_option (\<lambda>n. (cpu, n)) (Atoi (TrimSpace text)))))"

definition throttle_step ::
  "sys_env \<Rightarrow> string \<Rightarrow> string \<times> bool \<Rightarrow> string list \<times> (int, int) gomap \<Rightarrow> string list \<times> (int, int) gomap" where
  "throttle_step v base d es =
     (case throttle_reading v base d of None \<Rightarrow> es
      | Some (cpu, n) \<Rightarrow>
          (case map_of (snd es) cpu of
             Some prev \<Rightarrow>
               if prev < n then fst es @ [''CPU'' @ show_int cpu @ '': '' @ show_int (wrap64 (n - prev))
                   @ '' new throttle events (total: '' @ show_int n @ '')'']
               else fst es
           | None \<Rightarrow> fst es, AList.update cpu n (snd es)))"

definition checkThermalThrottle ::
  "sys_env \<Rightarrow> CPUMonitor \<times> status \<Rightarrow> string option \<times> CPUMonitor \<times> status" where
  "checkThermalThrottle v ms =
     (case ms of (m, s) \<Rightarrow> let base = cmc_ThermalBasePath (cm_config m) in
       (case se_readDir v base of
          Inl _ \<Rightarrow> (None, m, s)
        | Inr dirs \<Rightarrow>
            (case fold (throttle_step v base) dirs ([], cm_lastThrottleState m) of
               (es, last') \<Rightarrow>
                 (None, m\<lparr>cm_lastThrottleState := last'\<rparr>,
                  if es \<noteq> [] then
                    add_condition v ''CPUThermalHealthy'' ConditionFalse ''ThermalThrottle''
                      ''CPU thermal throttling has been detected''
                      (add_event v EventWarning ''CPUThermalThrottle''
                        (''CPU thermal throttling detected: '' @ join '', '' es) s)
                  else if last' \<noteq> [] then
                    add_condition v ''CPUThermalHealthy'' ConditionTrue ''NoThermalThrottle''
                      ''No CPU thermal throttling detected'' s
                  else s))))"

definition checkCPU :: "sys_env \<Rightarrow> CPUMonitor \<Rightarrow> CPUMonitor \<times> status" where
  "checkCPU v m =
     (let c = cm_config m;
          (m1, s1) = run_part v (cmc_CheckLoadAverage c) ''LoadAverageCheckFailed'' ''Failed to check load average: ''
                       (checkLoadAverage v) (m, NewStatus (se_now v) (cm_name m));
          (m2, s2) = run_part v (cmc_CheckThermalThrottle c) ''ThermalThrottleCheckFailed''
                       ''Failed to check thermal throttling: '' (checkThermalThrottle v) (m1, s1)
      in (m2, if st_Events s2 = [] \<and> (cmc_CheckLoadAverage c \<or> cmc_CheckThermalThrottle c)
              then add_condition v ''CPUHealthy'' ConditionTrue ''CPUHealthy'' ''CPU is operating normally'' s2
              else s2))"

section \<open>Lemmas\<close>

text \<open>The count of high loads obeys the law of sustained readings.\<close>

definition cpu_load :: "CPUMonitorConfig \<Rightarrow> sys_env \<Rightarrow> float64 option" where
  "cpu_load c v = (case parseLoadAvg v (cmc_LoadAvgPath c) of Inl _ \<Rightarrow> None
     | Inr la \<Rightarrow> (case getCPUCount v (cmc_CPUInfoPath c) of Inl _ \<Rightarrow> None
         | Inr cores \<Rightarrow> Some (se_fl v (la_Load1 la / se_fl v (of_int cores)))))"

definition high_load :: "CPUMonitorConfig \<Rightarrow> sys_env \<Rightarrow> bool" where
  "high_load c v \<longleftrightarrow> (\<exists>f. cpu_load c v = Some f \<and> cmc_CriticalLoadFactor c \<le> f)"

lemma load_part:
  assumes "checkLoadAverage v (m, s) = (e, m', s')" "c = cm_config m"
  shows "cm_config m' = c \<and> cm_highLoadCount m' = (if cpu_load c v = None then cm_highLoadCount m
        else if high_load c v then cm_highLoadCount m + 1 else 0)"
  using assms
  by (auto simp: checkLoadAverage_def cpu_load_def high_load_def Let_def split: sum.splits if_splits)

lemma throttle_part:
  assumes "checkThermalThrottle v (m, s) = (e, m', s')"
  shows "cm_config m' = cm_config m \<and> cm_highLoadCount m' = cm_highLoadCount m"
  using assms
  by (auto simp: checkThermalThrottle_def Let_def split: sum.splits prod.splits)

definition cpu_step :: "sys_env \<Rightarrow> CPUMonitor \<Rightarrow> CPUMonitor" where
  "cpu_step v m = fst (checkCPU v m)"

lemma run_part_state: "part (m, s) = (e, m', s') \<Longrightarrow> fst (run_part v b r t part (m, s)) = (if b then m' else m)"
  by (cases e) (simp_all add: run_part_def)

lemma cpu_step_counts:
  assumes "cm_config m = c" "cmc_CheckLoadAverage c"
  shows "cm_config (cpu_step v m) = c
    \<and> cm_highLoadCount (cpu_step v m) = (if cpu_load c v = None then cm_highLoadCount m
        else if high_load c v then cm_highLoadCount m + 1 else 0)"
proof -
  let ?a = "run_part v (cmc_CheckLoadAverage c) ''LoadAverageCheckFailed'' ''Failed to check load average: ''
      (checkLoadAverage v) (m, NewStatus (se_now v) (cm_name m))"
  obtain e m1 s1 where l: "checkLoadAverage v (m, NewStatus (se_now v) (cm_name m)) = (e, m1, s1)" by (metis surj_pair)
  obtain s1' where a: "?a = (m1, s1')" using run_part_state [of "checkLoadAverage v", OF l] assms(2) by (metis prod.collapse)
  obtain e2 m2 s2 where t: "checkThermalThrottle v (m1, s1') = (e2, m2, s2)" by (metis surj_pair)
  have "fst (run_part v (cmc_CheckThermalThrottle c) ''ThermalThrottleCheckFailed'' ''Failed to check thermal throttling: ''
      (checkThermalThrottle v) ?a) = (if cmc_CheckThermalThrottle c then m2 else m1)"
    unfolding a by (rule run_part_state [of "checkThermalThrottle v", OF t])
  then have "cpu_step v m = (if cmc_CheckThermalThrottle c then m2 else m1)"
    using assms(1) by (simp add: cpu_step_def checkCPU_def Let_def case_prod_unfold)
  then show ?thesis
    using load_part [OF l] throttle_part [OF t] assms(1) by simp
qed

interpretation load: sustained cm_highLoadCount cpu_step "\<lambda>v. cpu_load c v \<noteq> None" "high_load c"
    "\<lambda>m. cm_config m = c \<and> cmc_CheckLoadAverage c" for c
  by unfold_locales (simp_all add: cpu_step_counts)

text \<open>So the count of the CPU monitor is the length of the last stretch of high loads.\<close>

lemma cpu_load_count:
  "cm_config m = c \<Longrightarrow> cmc_CheckLoadAverage c \<Longrightarrow> cm_highLoadCount m = 0 \<Longrightarrow>
     cm_highLoadCount (fold cpu_step vs m) = int (stretch (\<lambda>v. cpu_load c v \<noteq> None) (high_load c) vs)"
  using load.count_run [of m c vs] by simp

text \<open>The throttle map after a walk holds the last reading of every CPU that had one, and throttling is found
  exactly when a reading is above the one before it.\<close>

definition throttle_after :: "sys_env \<Rightarrow> string \<Rightarrow> (string \<times> bool) list \<Rightarrow> (int, int) gomap \<Rightarrow> (int, int) gomap" where
  "throttle_after v base dirs m = fold (\<lambda>(cpu, n). AList.update cpu n) (List.map_filter (throttle_reading v base) dirs) m"

lemma throttle_walk:
  "snd (fold (throttle_step v base) dirs es) = throttle_after v base dirs (snd es)"
  by (induction dirs arbitrary: es)
    (auto simp: throttle_after_def throttle_step_def List.map_filter_simps split: option.splits)

lemma throttle_first_reading_is_quiet:
  assumes "distinct (map fst (List.map_filter (throttle_reading v base) dirs))"
    "\<forall>(cpu, n)\<in>set (List.map_filter (throttle_reading v base) dirs). case map_of m cpu of None \<Rightarrow> True | Some p \<Rightarrow> n \<le> p"
  shows "fst (fold (throttle_step v base) dirs (es, m)) = es"
  using assms
proof (induction dirs arbitrary: m)
  case Nil
  then show ?case by simp
next
  case (Cons d dirs)
  show ?case
  proof (cases "throttle_reading v base d")
    case None
    with Cons show ?thesis by (simp add: throttle_step_def List.map_filter_simps)
  next
    case (Some cn)
    obtain cpu n where cn: "cn = (cpu, n)" by (metis surj_pair)
    have one: "throttle_step v base d (es, m) = (es, AList.update cpu n m)"
      using Some cn Cons.prems(2) by (auto simp: throttle_step_def List.map_filter_simps split: option.splits)
    have ne: "a \<noteq> cpu" if "(a, b) \<in> set (List.map_filter (throttle_reading v base) dirs)" for a b
      using Cons.prems(1) Some cn that by (force simp: List.map_filter_simps)
    have "fst (fold (throttle_step v base) dirs (es, AList.update cpu n m)) = es"
      by (rule Cons.IH) (use Cons.prems Some cn ne in \<open>auto simp: List.map_filter_simps split: option.splits if_splits\<close>)
    then show ?thesis by (simp add: one)
  qed
qed

text \<open>A monitor is made from factors that its validator refuses.\<close>

lemma cpu_constructor_does_not_validate:
  "\<exists>m. NewCPUMonitor \<lparr>mc_Name = ''cpu'', mc_Type = ''system-cpu'', mc_Enabled = True, mc_IntervalString = [],
     mc_TimeoutString = [], mc_Interval = 30, mc_Timeout = 10, mc_Config = [(''warningLoadFactor'', CVFloat 2)],
     mc_Remediation = None, mc_DependsOn = []\<rparr> = Inr m
   \<and> cmc_CriticalLoadFactor (cm_config m) < cmc_WarningLoadFactor (cm_config m)"
  by (simp add: NewCPUMonitor_def parseCPUConfig_def read_field_def with_base_def NewBaseMonitor_def SetCheckFunc_def
      cpu_applyDefaults_def or_default_def Let_def)

end
