(* ===== verification/System_Memory.thy ===== *)
theory System_Memory
  imports System_Common
begin

text \<open>
  \<^verbatim>\<open>pkg/monitors/system/memory.go\<close>: memory and swap usage from \<^verbatim>\<open>/proc/meminfo\<close> and kills by the kernel from
  \<^verbatim>\<open>/dev/kmsg\<close>.

  The kernel log is a list of records (\<open>km_log\<close>) when the device is opened; \<open>km_later\<close> lists what the reads give
  after those records: a record logged since, an interruption or an error; at its end there is nothing more to
  read. The code seeks to the end of the log and ignores an error of the seek: \<open>km_seeks\<close> says whether the seek works, and when it
  does not, the reads give the old records first. \<open>km_cancelled n\<close> is the state of the context before read \<open>n\<close>.
\<close>

section \<open>Configuration\<close>

record MemoryMonitorConfig =
  mmc_WarningThreshold :: float64
  mmc_CriticalThreshold :: float64
  mmc_SwapWarningThreshold :: float64
  mmc_SwapCriticalThreshold :: float64
  mmc_SustainedHighMemoryChecks :: int
  mmc_CheckOOMKills :: bool
  mmc_CheckMemoryUsage :: bool
  mmc_CheckSwapUsage :: bool
  mmc_MemInfoPath :: string
  mmc_KmsgPath :: string

definition parseMemoryConfig :: "(string, cfg_value) gomap \<Rightarrow> sys_config_error + MemoryMonitorConfig" where
  "parseMemoryConfig m =
     bindE (read_float m ''warningThreshold'') (\<lambda>w.
     bindE (read_float m ''criticalThreshold'') (\<lambda>c.
     bindE (read_float m ''swapWarningThreshold'') (\<lambda>sw.
     bindE (read_float m ''swapCriticalThreshold'') (\<lambda>sc.
     bindE (read_int m ''sustainedHighMemoryChecks'') (\<lambda>n.
     bindE (read_bool m ''checkOOMKills'') (\<lambda>oom.
     bindE (read_bool m ''checkMemoryUsage'') (\<lambda>mem.
     bindE (read_bool m ''checkSwapUsage'') (\<lambda>swap.
     bindE (read_string m ''memInfoPath'') (\<lambda>mp.
     bindE (read_string m ''kmsgPath'') (\<lambda>kp.
       Inr \<lparr>mmc_WarningThreshold = w, mmc_CriticalThreshold = c, mmc_SwapWarningThreshold = sw,
            mmc_SwapCriticalThreshold = sc, mmc_SustainedHighMemoryChecks = n, mmc_CheckOOMKills = oom,
            mmc_CheckMemoryUsage = mem, mmc_CheckSwapUsage = swap, mmc_MemInfoPath = mp, mmc_KmsgPath = kp\<rparr>))))))))))"

definition memory_applyDefaults :: "MemoryMonitorConfig \<Rightarrow> sys_config_error + MemoryMonitorConfig" where
  "memory_applyDefaults c0 =
     (let all = \<not> mmc_CheckMemoryUsage c0 \<and> \<not> mmc_CheckSwapUsage c0 \<and> \<not> mmc_CheckOOMKills c0;
          c = \<lparr>mmc_WarningThreshold = or_default 0 85 (mmc_WarningThreshold c0),
               mmc_CriticalThreshold = or_default 0 95 (mmc_CriticalThreshold c0),
               mmc_SwapWarningThreshold = or_default 0 50 (mmc_SwapWarningThreshold c0),
               mmc_SwapCriticalThreshold = or_default 0 80 (mmc_SwapCriticalThreshold c0),
               mmc_SustainedHighMemoryChecks = or_default 0 3 (mmc_SustainedHighMemoryChecks c0),
               mmc_CheckOOMKills = (all \<or> mmc_CheckOOMKills c0),
               mmc_CheckMemoryUsage = (all \<or> mmc_CheckMemoryUsage c0),
               mmc_CheckSwapUsage = (all \<or> mmc_CheckSwapUsage c0),
               mmc_MemInfoPath = or_default [] ''/proc/meminfo'' (mmc_MemInfoPath c0),
               mmc_KmsgPath = or_default [] ''/dev/kmsg'' (mmc_KmsgPath c0)\<rparr>
      in checked
        [check_percent ''warningThreshold'' (mmc_WarningThreshold c),
         check_percent ''criticalThreshold'' (mmc_CriticalThreshold c),
         check_below ''warningThreshold'' (mmc_WarningThreshold c) ''criticalThreshold'' (mmc_CriticalThreshold c),
         check_percent ''swapWarningThreshold'' (mmc_SwapWarningThreshold c),
         check_percent ''swapCriticalThreshold'' (mmc_SwapCriticalThreshold c),
         check_below ''swapWarningThreshold'' (mmc_SwapWarningThreshold c)
           ''swapCriticalThreshold'' (mmc_SwapCriticalThreshold c),
         if mmc_SustainedHighMemoryChecks c \<le> 0
           then Some (NotPositive ''sustainedHighMemoryChecks'' (mmc_SustainedHighMemoryChecks c)) else None] c)"

record MemoryMonitor =
  mm_name :: string
  mm_baseMonitor :: BaseMonitor
  mm_config :: MemoryMonitorConfig
  mm_highMemoryCount :: int
  mm_lastOOMKillTime :: time
  mm_oomPermissionWarned :: bool
  mm_oomReadErrorWarned :: bool

definition NewMemoryMonitor :: "MonitorConfig \<Rightarrow> sys_config_error + MemoryMonitor" where
  "NewMemoryMonitor mc =
     bindE (parseMemoryConfig (mc_Config mc)) (\<lambda>c0.
     bindE (memory_applyDefaults c0) (\<lambda>c.
       with_base mc (\<lambda>b. \<lparr>mm_name = mc_Name mc, mm_baseMonitor = b, mm_config = c, mm_highMemoryCount = 0,
         mm_lastOOMKillTime = 0, mm_oomPermissionWarned = False, mm_oomReadErrorWarned = False\<rparr>)))"

definition ValidateMemoryConfig :: "MonitorConfig \<Rightarrow> sys_config_error option" where
  "ValidateMemoryConfig mc =
     (if mc_Name mc = [] then Some NameMissing
      else if mc_Type mc \<noteq> ''system-memory'' then Some (WrongType (mc_Type mc))
      else (case bindE (parseMemoryConfig (mc_Config mc)) memory_applyDefaults of Inl e \<Rightarrow> Some e | Inr _ \<Rightarrow> None))"

section \<open>Usage\<close>

record MemoryInfo =
  mi_MemTotal :: "64 word"
  mi_MemFree :: "64 word"
  mi_MemAvailable :: "64 word"
  mi_Buffers :: "64 word"
  mi_Cached :: "64 word"
  mi_SwapTotal :: "64 word"
  mi_SwapFree :: "64 word"

definition meminfo_line :: "string \<Rightarrow> MemoryInfo \<Rightarrow> MemoryInfo" where
  "meminfo_line line mi =
     (case Fields (TrimSpace line) of
        f0 # f1 # _ \<Rightarrow>
          (case ParseUint f1 of None \<Rightarrow> mi
           | Some x \<Rightarrow>
               let key = TrimSuffix f0 '':'' in
               if key = ''MemTotal'' then mi\<lparr>mi_MemTotal := x\<rparr>
               else if key = ''MemFree'' then mi\<lparr>mi_MemFree := x\<rparr>
               else if key = ''MemAvailable'' then mi\<lparr>mi_MemAvailable := x\<rparr>
               else if key = ''Buffers'' then mi\<lparr>mi_Buffers := x\<rparr>
               else if key = ''Cached'' then mi\<lparr>mi_Cached := x\<rparr>
               else if key = ''SwapTotal'' then mi\<lparr>mi_SwapTotal := x\<rparr>
               else if key = ''SwapFree'' then mi\<lparr>mi_SwapFree := x\<rparr>
               else mi)
      | _ \<Rightarrow> mi)"

definition parseMemInfo :: "sys_env \<Rightarrow> string \<Rightarrow> string + MemoryInfo" where
  "parseMemInfo v path =
     (case se_readFile v path of
        Inl e \<Rightarrow> Inl (''failed to read '' @ path @ '': '' @ e)
      | Inr text \<Rightarrow>
          let mi = fold meminfo_line (split_lines text) \<lparr>mi_MemTotal = 0, mi_MemFree = 0, mi_MemAvailable = 0,
                     mi_Buffers = 0, mi_Cached = 0, mi_SwapTotal = 0, mi_SwapFree = 0\<rparr>
          in if mi_MemTotal mi = 0 then Inl (''MemTotal not found or zero in '' @ path) else Inr mi)"

definition available_memory :: "MemoryInfo \<Rightarrow> 64 word" where
  "available_memory mi = (if 0 < mi_MemAvailable mi then mi_MemAvailable mi else mi_MemFree mi)"

definition memory_percent :: "sys_env \<Rightarrow> MemoryInfo \<Rightarrow> float64" where
  "memory_percent v mi = se_fl v (se_fl v (1 - se_fl v (float_of v (available_memory mi) / float_of v (mi_MemTotal mi))) * 100)"

definition memory_figures :: "sys_env \<Rightarrow> MemoryInfo \<Rightarrow> string" where
  "memory_figures v mi = se_f1 v (memory_percent v mi) @ ''% ('' @ gb_of_kb v (mi_MemTotal mi - available_memory mi)
     @ '' GB used of '' @ gb_of_kb v (mi_MemTotal mi) @ '' GB total, '' @ gb_of_kb v (available_memory mi) @ '' GB available)''"

definition checkMemoryUsage ::
  "sys_env \<Rightarrow> MemoryMonitor \<times> status \<Rightarrow> string option \<times> MemoryMonitor \<times> status" where
  "checkMemoryUsage v ms =
     (case ms of (m, s) \<Rightarrow>
       (case parseMemInfo v (mmc_MemInfoPath (mm_config m)) of
          Inl e \<Rightarrow> (Some (''failed to parse memory info: '' @ e), m, s)
        | Inr mi \<Rightarrow>
            if mi_MemTotal mi = 0 then (Some ''invalid MemTotal: 0'', m, s)
            else let p = memory_percent v mi; c = mm_config m in
            if mmc_CriticalThreshold c \<le> p then
              let n = mm_highMemoryCount m + 1;
                  s1 = add_event v EventWarning ''HighMemoryUsage'' (''High memory usage detected: '' @ memory_figures v mi) s
              in (None, m\<lparr>mm_highMemoryCount := n\<rparr>,
                  if mmc_SustainedHighMemoryChecks c \<le> n then
                    add_condition v ''MemoryPressure'' ConditionTrue ''SustainedHighMemory''
                      (''Memory has been under sustained high usage for '' @ show_int n @ '' consecutive checks (''
                       @ se_f1 v p @ ''% >= '' @ se_f1 v (mmc_CriticalThreshold c) @ ''%)'') s1
                  else s1)
            else if mmc_WarningThreshold c \<le> p then
              (None, m\<lparr>mm_highMemoryCount := 0\<rparr>,
               add_condition v ''MemoryPressure'' ConditionFalse ''ElevatedMemory''
                 (''Memory usage is elevated but not critical ('' @ se_f1 v p @ ''%)'')
                 (add_event v EventWarning ''ElevatedMemoryUsage''
                   (''Elevated memory usage detected: '' @ memory_figures v mi) s))
            else
              (None, m\<lparr>mm_highMemoryCount := 0\<rparr>,
               add_condition v ''MemoryPressure'' ConditionFalse ''NormalMemory''
                 (''Memory usage is normal ('' @ se_f1 v p @ ''%)'') s)))"

definition swap_figures :: "sys_env \<Rightarrow> 64 word \<Rightarrow> 64 word \<Rightarrow> string" where
  "swap_figures v used all = se_f1 v (percent_of v used all) @ ''% ('' @ gb_of_kb v used @ '' GB used of ''
     @ gb_of_kb v all @ '' GB total)''"

definition checkSwapUsage ::
  "sys_env \<Rightarrow> MemoryMonitor \<times> status \<Rightarrow> string option \<times> MemoryMonitor \<times> status" where
  "checkSwapUsage v ms =
     (case ms of (m, s) \<Rightarrow>
       (case parseMemInfo v (mmc_MemInfoPath (mm_config m)) of
          Inl e \<Rightarrow> (Some (''failed to parse memory info: '' @ e), m, s)
        | Inr mi \<Rightarrow>
            if mi_SwapTotal mi = 0 then (None, m, s)
            else let used = mi_SwapTotal mi - mi_SwapFree mi; p = percent_of v used (mi_SwapTotal mi) in
              (None, m,
               if mmc_SwapCriticalThreshold (mm_config m) \<le> p then
                 add_event v EventWarning ''HighSwapUsage''
                   (''High swap usage detected: '' @ swap_figures v used (mi_SwapTotal mi)) s
               else if mmc_SwapWarningThreshold (mm_config m) \<le> p then
                 add_event v EventWarning ''ElevatedSwapUsage''
                   (''Elevated swap usage detected: '' @ swap_figures v used (mi_SwapTotal mi)) s
               else s)))"

section \<open>Kills by the kernel\<close>

datatype kmsg_error = KCancelled | KPermission string | KInvalid string | KNotFound string | KOther string

datatype sys_read = Got string | Interrupted | Again | BrokenPipe | ReadFailed kmsg_error

record kmsg =
  km_open :: "kmsg_error option"
  km_seeks :: bool
  km_log :: "string list"
  km_later :: "sys_read list"
  km_cancelled :: "nat \<Rightarrow> bool"

text \<open>What the reads give after the seek: from the end of the log if it works, else from its beginning.\<close>

definition kmsg_reads :: "kmsg \<Rightarrow> sys_read list" where
  "kmsg_reads k = (let all = map Got (km_log k) @ km_later k in if km_seeks k then drop (length (km_log k)) all else all)"

fun kmsg_loop :: "(nat \<Rightarrow> bool) \<Rightarrow> nat \<Rightarrow> string \<Rightarrow> nat \<Rightarrow> sys_read list \<Rightarrow> kmsg_error option \<times> string" where
  "kmsg_loop cancelled n acc got [] = (if cancelled n then Some KCancelled else None, acc)"
| "kmsg_loop cancelled n acc got (x # xs) =
     (if cancelled n then (Some KCancelled, acc)
      else (case x of
         Interrupted \<Rightarrow> kmsg_loop cancelled (Suc n) acc got xs
       | Again \<Rightarrow> (None, acc)
       | BrokenPipe \<Rightarrow> (None, acc)
       | ReadFailed e \<Rightarrow> (Some e, acc)
       | Got d \<Rightarrow>
           if d = [] then (None, acc)
           else if 1048576 < got + length d then (None, acc)
           else kmsg_loop cancelled (Suc n) (acc @ d) (got + length d) xs))"

definition ReadKmsg :: "kmsg \<Rightarrow> kmsg_error option \<times> string" where
  "ReadKmsg k =
     (case km_open k of Some e \<Rightarrow> (Some e, [])
      | None \<Rightarrow> kmsg_loop (km_cancelled k) 0 [] 0 (kmsg_reads k))"

text \<open>The pattern \<^verbatim>\<open>Killed process \d+|Out of memory\<close>.\<close>

fun killed_process :: "string \<Rightarrow> bool" where
  "killed_process [] = False"
| "killed_process (c # s) =
     (has_prefix (c # s) ''Killed process '' \<and> (case drop 15 (c # s) of [] \<Rightarrow> False | d # _ \<Rightarrow> is_digit d)
      \<or> killed_process s)"

definition oom_line :: "string \<Rightarrow> bool" where
  "oom_line line \<longleftrightarrow> killed_process line \<or> contains_str line ''Out of memory''"

definition warn_once :: "sys_env \<Rightarrow> bool \<Rightarrow> string \<Rightarrow> string \<Rightarrow> status \<Rightarrow> status" where
  "warn_once v warned reason msg s = (if warned then s else add_event v EventWarning reason msg s)"

definition checkOOMKills ::
  "sys_env \<Rightarrow> kmsg \<Rightarrow> MemoryMonitor \<times> status \<Rightarrow> string option \<times> MemoryMonitor \<times> status" where
  "checkOOMKills v k ms =
     (case ms of (m, s) \<Rightarrow>
       let path = mmc_KmsgPath (mm_config m) in
       (case ReadKmsg k of
          (Some KCancelled, _) \<Rightarrow> (None, m, s)
        | (Some (KPermission e), _) \<Rightarrow>
            (None, m\<lparr>mm_oomPermissionWarned := True\<rparr>,
             warn_once v (mm_oomPermissionWarned m) ''OOMCheckPermissionDenied''
               (''Cannot access '' @ path @ '' for OOM detection: '' @ e) s)
        | (Some (KInvalid e), _) \<Rightarrow>
            (None, m\<lparr>mm_oomReadErrorWarned := True\<rparr>,
             warn_once v (mm_oomReadErrorWarned m) ''OOMCheckNotSupported''
               (''OOM detection via '' @ path @ '' not supported on this platform (ARM64): '' @ e
                @ ''. Memory monitoring will continue without OOM detection.'') s)
        | (Some (KNotFound e), _) \<Rightarrow>
            (None, m\<lparr>mm_oomReadErrorWarned := True\<rparr>,
             warn_once v (mm_oomReadErrorWarned m) ''OOMCheckNotAvailable''
               (''Kernel message file '' @ path @ '' not available: '' @ e
                @ ''. Memory monitoring will continue without OOM detection.'') s)
        | (Some (KOther e), _) \<Rightarrow> (Some (''failed to read '' @ path @ '': '' @ e), m, s)
        | (None, text) \<Rightarrow>
            (case filter oom_line (split_lines text) of
               [] \<Rightarrow> (None, m, s)
             | line # _ \<Rightarrow>
                 if minute < time_sub (se_now v) (mm_lastOOMKillTime m) then
                   (None, m\<lparr>mm_lastOOMKillTime := se_now v\<rparr>,
                    add_event v EventError ''OOMKillDetected'' (''Out-of-memory kill detected: '' @ TrimSpace line) s)
                 else (None, m, s))))"

definition checkMemory :: "sys_env \<Rightarrow> kmsg \<Rightarrow> MemoryMonitor \<Rightarrow> MemoryMonitor \<times> status" where
  "checkMemory v k m =
     (let c = mm_config m;
          (m1, s1) = run_part v (mmc_CheckMemoryUsage c) ''MemoryCheckFailed'' ''Failed to check memory usage: ''
                       (checkMemoryUsage v) (m, NewStatus (se_now v) (mm_name m));
          (m2, s2) = run_part v (mmc_CheckSwapUsage c) ''SwapCheckFailed'' ''Failed to check swap usage: ''
                       (checkSwapUsage v) (m1, s1);
          (m3, s3) = run_part v (mmc_CheckOOMKills c) ''OOMCheckFailed'' ''Failed to check OOM kills: ''
                       (checkOOMKills v k) (m2, s2)
      in (m3, if st_Events s3 = [] \<and> (mmc_CheckMemoryUsage c \<or> mmc_CheckSwapUsage c \<or> mmc_CheckOOMKills c)
              then add_condition v ''MemoryHealthy'' ConditionTrue ''MemoryHealthy'' ''Memory is operating normally'' s3
              else s3))"

section \<open>Lemmas\<close>

definition readable :: "MemoryMonitorConfig \<Rightarrow> sys_env \<Rightarrow> bool" where
  "readable c v \<longleftrightarrow> (\<exists>mi. parseMemInfo v (mmc_MemInfoPath c) = Inr mi)"

definition critical_reading :: "MemoryMonitorConfig \<Rightarrow> sys_env \<Rightarrow> bool" where
  "critical_reading c v \<longleftrightarrow>
     (\<exists>mi. parseMemInfo v (mmc_MemInfoPath c) = Inr mi \<and> mmc_CriticalThreshold c \<le> memory_percent v mi)"

definition under_pressure :: "status \<Rightarrow> bool" where
  "under_pressure s \<longleftrightarrow> (\<exists>x\<in>set (st_Conditions s). cond_Type x = ''MemoryPressure'' \<and> cond_Status x = ConditionTrue)"

lemma parseMemInfo_total: "parseMemInfo v p = Inr mi \<Longrightarrow> mi_MemTotal mi \<noteq> 0"
  by (auto simp: parseMemInfo_def Let_def split: sum.splits if_splits)

lemma True_False_condition [simp]: "ConditionTrue \<noteq> ConditionFalse" "ConditionFalse \<noteq> ConditionTrue"
  by (simp_all add: severity_defs)

text \<open>What each part of the check does to the count and to the conditions.\<close>

lemma usage_part:
  assumes "checkMemoryUsage v (m, s) = (e, m', s')" "c = mm_config m"
  shows "mm_config m' = c \<and> mm_name m' = mm_name m
    \<and> mm_highMemoryCount m' = (if \<not> readable c v then mm_highMemoryCount m
        else if critical_reading c v then mm_highMemoryCount m + 1 else 0)
    \<and> (under_pressure s' \<longleftrightarrow> under_pressure s
        \<or> critical_reading c v \<and> mmc_SustainedHighMemoryChecks c \<le> mm_highMemoryCount m + 1)"
proof (cases "parseMemInfo v (mmc_MemInfoPath c)")
  case (Inl e)
  with assms show ?thesis by (auto simp: checkMemoryUsage_def readable_def critical_reading_def)
next
  case (Inr mi)
  note total = parseMemInfo_total [OF Inr]
  have r: "readable c v" "critical_reading c v \<longleftrightarrow> mmc_CriticalThreshold c \<le> memory_percent v mi"
    using Inr by (auto simp: readable_def critical_reading_def)
  show ?thesis
    using assms Inr total r
    by (auto simp: checkMemoryUsage_def Let_def under_pressure_def split: if_splits)
qed

lemma swap_part:
  assumes "checkSwapUsage v (m, s) = (e, m', s')"
  shows "m' = m" "st_Conditions s' = st_Conditions s"
  using assms by (auto simp: checkSwapUsage_def Let_def split: sum.splits if_splits)

lemma oom_part:
  assumes "checkOOMKills v k (m, s) = (e, m', s')"
  shows "mm_config m' = mm_config m" "mm_name m' = mm_name m" "mm_highMemoryCount m' = mm_highMemoryCount m"
    "st_Conditions s' = st_Conditions s"
  using assms
  by (auto simp: checkOOMKills_def Let_def warn_once_def split: prod.splits option.splits kmsg_error.splits
      list.splits if_splits)

lemma checkMemory_effect:
  assumes "checkMemory v k m = (m', s')" "mmc_CheckMemoryUsage (mm_config m)" "c = mm_config m"
  shows "mm_config m' = c
    \<and> mm_highMemoryCount m' = (if \<not> readable c v then mm_highMemoryCount m
        else if critical_reading c v then mm_highMemoryCount m + 1 else 0)
    \<and> (under_pressure s' \<longleftrightarrow> critical_reading c v \<and> mmc_SustainedHighMemoryChecks c \<le> mm_highMemoryCount m + 1)"
proof -
  let ?s0 = "NewStatus (se_now v) (mm_name m)"
  obtain e1 m1 s1 where u: "checkMemoryUsage v (m, ?s0) = (e1, m1, s1)" by (metis surj_pair)
  note up = usage_part [OF u assms(3)]
  obtain s1' where p1: "run_part v True ''MemoryCheckFailed'' ''Failed to check memory usage: '' (checkMemoryUsage v) (m, ?s0) = (m1, s1')"
    "st_Conditions s1' = st_Conditions s1"
    using u by (cases e1) (simp_all add: run_part_def)
  obtain s2 where p2: "run_part v (mmc_CheckSwapUsage c) ''SwapCheckFailed'' ''Failed to check swap usage: '' (checkSwapUsage v) (m1, s1') = (m1, s2)"
    "st_Conditions s2 = st_Conditions s1'"
  proof (cases "mmc_CheckSwapUsage c")
    case True
    obtain e w t where w: "checkSwapUsage v (m1, s1') = (e, w, t)" by (metis surj_pair)
    then show ?thesis using that swap_part [OF w] True by (cases e) (simp_all add: run_part_def)
  qed (use that in simp)
  obtain m3 s3 where p3: "run_part v (mmc_CheckOOMKills c) ''OOMCheckFailed'' ''Failed to check OOM kills: '' (checkOOMKills v k) (m1, s2) = (m3, s3)"
    "st_Conditions s3 = st_Conditions s2" "mm_config m3 = mm_config m1" "mm_highMemoryCount m3 = mm_highMemoryCount m1"
  proof (cases "mmc_CheckOOMKills c")
    case True
    obtain e w t where w: "checkOOMKills v k (m1, s2) = (e, w, t)" by (metis surj_pair)
    then show ?thesis using that oom_part [OF w] True by (cases e) (simp_all add: run_part_def)
  qed (use that in simp)
  have m': "m' = m3" "st_Conditions s' = st_Conditions s3 \<or> (\<exists>msg. st_Conditions s' = st_Conditions s3
      @ [NewCondition (se_now v) ''MemoryHealthy'' ConditionTrue ''MemoryHealthy'' msg])"
    using assms p1(1) p2(1) p3(1) by (auto simp: checkMemory_def Let_def split: if_splits)
  have "under_pressure s' = under_pressure s1"
    using m'(2) p1(2) p2(2) p3(2) by (auto simp: under_pressure_def)
  then show ?thesis
    using up p3 m'(1) by (simp add: under_pressure_def)
qed

text \<open>A run of checks, and the count it leaves.\<close>

definition memory_step :: "sys_env \<times> kmsg \<Rightarrow> MemoryMonitor \<Rightarrow> MemoryMonitor" where
  "memory_step x m = fst (checkMemory (fst x) (snd x) m)"

definition memory_checks :: "(sys_env \<times> kmsg) list \<Rightarrow> MemoryMonitor \<Rightarrow> MemoryMonitor" where
  "memory_checks xs m = fold memory_step xs m"

interpretation usage: sustained mm_highMemoryCount memory_step "readable c \<circ> fst" "critical_reading c \<circ> fst"
    "\<lambda>m. mm_config m = c \<and> mmc_CheckMemoryUsage c" for c
proof
  fix m :: MemoryMonitor and x :: "sys_env \<times> kmsg"
  assume g: "mm_config m = c \<and> mmc_CheckMemoryUsage c"
  obtain m' s' where e: "checkMemory (fst x) (snd x) m = (m', s')" by (metis surj_pair)
  have "memory_step x m = m'" using e by (simp add: memory_step_def)
  then show "mm_config (memory_step x m) = c \<and> mmc_CheckMemoryUsage c"
    "mm_highMemoryCount (memory_step x m) = (if \<not> (readable c \<circ> fst) x then mm_highMemoryCount m
       else if (critical_reading c \<circ> fst) x then mm_highMemoryCount m + 1 else 0)"
    using checkMemory_effect [OF e] g by simp_all
qed

definition critical_stretch :: "MemoryMonitorConfig \<Rightarrow> (sys_env \<times> kmsg) list \<Rightarrow> nat" where
  "critical_stretch c = stretch (readable c \<circ> fst) (critical_reading c \<circ> fst)"

lemma critical_stretch_snoc:
  "critical_reading c (fst x) \<Longrightarrow> critical_stretch c (xs @ [x]) = Suc (critical_stretch c xs)"
  by (auto simp: critical_stretch_def stretch_snoc critical_reading_def readable_def)

text \<open>The log of the kernel before the check does not matter.\<close>

lemma kmsg_reads_later: "km_seeks k \<Longrightarrow> kmsg_reads k = km_later k"
  by (simp add: kmsg_reads_def Let_def)

lemma ReadKmsg_log: "km_seeks k \<Longrightarrow> ReadKmsg (k\<lparr>km_log := l\<rparr>) = ReadKmsg k"
  by (simp add: ReadKmsg_def kmsg_reads_later split: option.split)

lemma kmsg_loop_quiet: "\<forall>d. Got d \<notin> set xs \<Longrightarrow> snd (kmsg_loop cancelled n acc got xs) = acc"
  by (induction xs arbitrary: n) (auto split: sys_read.split)

lemma ReadKmsg_quiet:
  assumes "km_seeks k" "\<forall>d. Got d \<notin> set (km_later k)" "ReadKmsg k = (None, t)"
  shows "t = []"
  using assms(3) kmsg_loop_quiet [OF assms(2), of "km_cancelled k" 0 "[]" 0]
  by (simp add: ReadKmsg_def kmsg_reads_later [OF assms(1)] split: option.splits)

section \<open>Examples\<close>

text \<open>A host with 100 kB of memory, of which so much is available; numbers are shown as nothing.\<close>

definition demo_meminfo :: "string \<Rightarrow> string" where
  "demo_meminfo available = ''MemTotal: 100 kB'' @ [CHR 0x0A] @ ''MemAvailable: '' @ available @ '' kB''"

definition demo_memory_env :: "string \<Rightarrow> sys_env" where
  "demo_memory_env available = \<lparr>se_readFile = (\<lambda>_. Inr (demo_meminfo available)), se_readDir = (\<lambda>_. Inl ''none''),
     se_parseFloat = (\<lambda>_. Inl ''none''), se_numCPU = 1, se_fl = (\<lambda>x. x), se_f1 = (\<lambda>_. []), se_f2 = (\<lambda>_. []),
     se_now = 1\<rparr>"

definition demo_kmsg :: "string list \<Rightarrow> kmsg" where
  "demo_kmsg records = \<lparr>km_open = None, km_seeks = True, km_log = records, km_later = [], km_cancelled = (\<lambda>_. False)\<rparr>"

definition demo_memory_config :: MonitorConfig where
  "demo_memory_config = \<lparr>mc_Name = ''mem'', mc_Type = ''system-memory'', mc_Enabled = True, mc_IntervalString = ''30s'',
     mc_TimeoutString = ''10s'', mc_Interval = 30 * second, mc_Timeout = 10 * second, mc_Config = [],
     mc_Remediation = None, mc_DependsOn = []\<rparr>"

definition demo_memory_monitor :: MemoryMonitor where
  "demo_memory_monitor =
     \<lparr>mm_name = ''mem'',
      mm_baseMonitor = \<lparr>bm_name = ''mem'', bm_interval = 30 * second, bm_timeout = 10 * second, bm_hasCheck = True,
        bm_running = False, bm_stopped = False, bm_buffer = [], bm_closed = False, bm_signalled = False, bm_loops = [],
        bm_stopping = 0, bm_panicked = False\<rparr>,
      mm_config = \<lparr>mmc_WarningThreshold = 85, mmc_CriticalThreshold = 95, mmc_SwapWarningThreshold = 50,
        mmc_SwapCriticalThreshold = 80, mmc_SustainedHighMemoryChecks = 3, mmc_CheckOOMKills = True,
        mmc_CheckMemoryUsage = True, mmc_CheckSwapUsage = True, mmc_MemInfoPath = ''/proc/meminfo'',
        mmc_KmsgPath = ''/dev/kmsg''\<rparr>,
      mm_highMemoryCount = 0, mm_lastOOMKillTime = 0, mm_oomPermissionWarned = False, mm_oomReadErrorWarned = False\<rparr>"

lemma demo_memory_made: "NewMemoryMonitor demo_memory_config = Inr demo_memory_monitor"
  by code_simp

lemma demo_meminfo_read: "parseMemInfo (demo_memory_env ''4'') ''/proc/meminfo'' =
    Inr \<lparr>mi_MemTotal = 100, mi_MemFree = 0, mi_MemAvailable = 4, mi_Buffers = 0, mi_Cached = 0, mi_SwapTotal = 0, mi_SwapFree = 0\<rparr>"
  by code_simp

lemma demo_critical: "critical_reading (mm_config demo_memory_monitor) (demo_memory_env ''4'')"
proof -
  have "mmc_MemInfoPath (mm_config demo_memory_monitor) = ''/proc/meminfo''" "mmc_CriticalThreshold (mm_config demo_memory_monitor) = 95"
    by (simp_all add: demo_memory_monitor_def)
  moreover have "memory_percent (demo_memory_env x) \<lparr>mi_MemTotal = 100, mi_MemFree = 0, mi_MemAvailable = 4, mi_Buffers = 0,
      mi_Cached = 0, mi_SwapTotal = 0, mi_SwapFree = 0\<rparr> = 96" for x
    by (simp add: memory_percent_def available_memory_def float_of_def demo_memory_env_def)
  ultimately show ?thesis
    unfolding critical_reading_def using demo_meminfo_read by simp
qed

section \<open>Properties\<close>

lemma NewMemoryMonitor_count: "NewMemoryMonitor mc = Inr m \<Longrightarrow> mm_highMemoryCount m = 0"
  by (auto simp: NewMemoryMonitor_def bindE_eq_Inr dest!: with_base_Inr)

text \<open>
  C28. Memory pressure is reported exactly after sustained high usage: for a monitor made from its
  configuration that checks memory usage, after any history of checks, a check reports the condition
  \<^verbatim>\<open>MemoryPressure\<close> as true exactly when its own reading is at or above the critical threshold and is at least the
  \<^verbatim>\<open>sustainedHighMemoryChecks\<close>-th such reading in a row; checks whose \<^verbatim>\<open>/proc/meminfo\<close> could not be read neither
  count nor interrupt the row, and swap and kernel log have no influence.
\<close>

theorem memory_pressure_exactly_sustained:
  assumes "NewMemoryMonitor mc = Inr m" "mmc_CheckMemoryUsage (mm_config m)"
    "checkMemory v k (memory_checks xs m) = (m', s)"
  shows "under_pressure s \<longleftrightarrow> critical_reading (mm_config m) v
    \<and> mmc_SustainedHighMemoryChecks (mm_config m) \<le> int (critical_stretch (mm_config m) (xs @ [(v, k)]))"
proof -
  have "mm_config (memory_checks xs m) = mm_config m"
    "mm_highMemoryCount (memory_checks xs m) = int (critical_stretch (mm_config m) xs)"
    using usage.count_run [of m "mm_config m" xs] assms(2) NewMemoryMonitor_count [OF assms(1)]
    by (simp_all add: memory_checks_def critical_stretch_def)
  with checkMemory_effect [OF assms(3) _ refl] assms(2) show ?thesis
    using critical_stretch_snoc [of "mm_config m" "(v, k)" xs] by auto
qed

theorem memory_pressure_exactly_sustained_witness:
  "\<exists>m' s. checkMemory (demo_memory_env ''4'') (demo_kmsg [])
       (memory_checks (replicate 2 (demo_memory_env ''4'', demo_kmsg [])) demo_memory_monitor) = (m', s) \<and> under_pressure s"
proof -
  let ?v = "demo_memory_env ''4''" and ?c = "mm_config demo_memory_monitor"
  obtain m' s where c: "checkMemory ?v (demo_kmsg []) (memory_checks (replicate 2 (?v, demo_kmsg [])) demo_memory_monitor) = (m', s)"
    by (metis surj_pair)
  have "critical_reading ?c ?v" by (rule demo_critical)
  moreover then have "critical_stretch ?c (replicate 2 (?v, demo_kmsg []) @ [(?v, demo_kmsg [])]) = 3"
    by (auto simp: critical_stretch_def stretch_def critical_reading_def readable_def numeral_2_eq_2)
  ultimately show ?thesis
    using memory_pressure_exactly_sustained [OF demo_memory_made _ c] c by (auto simp: demo_memory_monitor_def)
qed

lemma checkMemory_log:
  assumes "km_seeks k"
  shows "checkMemory v (k\<lparr>km_log := records\<rparr>) m = checkMemory v k m"
proof -
  have "checkOOMKills v (k\<lparr>km_log := records\<rparr>) = checkOOMKills v k"
    by (rule ext) (simp add: checkOOMKills_def ReadKmsg_log [OF assms])
  then show ?thesis by (simp add: checkMemory_def)
qed

lemma quiet_checkMemory:
  assumes "km_seeks k" "\<forall>d. Got d \<notin> set (km_later k)"
  shows "lacks_event ''OOMKillDetected'' (snd (checkMemory v k m))"
proof -
  define c where "c = mm_config m"
  let ?r = "''OOMKillDetected''"
  have kmsg: "ReadKmsg k = (None, t) \<Longrightarrow> filter oom_line (split_lines t) = []" for t
    using ReadKmsg_quiet [OF assms, of t] by (auto simp: split_lines_def oom_line_def)
  have u: "lacks_event ?r s0 \<Longrightarrow> checkMemoryUsage v (m0, s0) = (e1, m1, s1) \<Longrightarrow> lacks_event ?r s1" for m0 s0 e1 m1 s1
    by (auto simp: checkMemoryUsage_def Let_def split: sum.splits if_splits)
  have w: "lacks_event ?r s0 \<Longrightarrow> checkSwapUsage v (m0, s0) = (e1, m1, s1) \<Longrightarrow> lacks_event ?r s1" for m0 s0 e1 m1 s1
    by (auto simp: checkSwapUsage_def Let_def split: sum.splits if_splits)
  have o: "lacks_event ?r s0 \<Longrightarrow> checkOOMKills v k (m0, s0) = (e1, m1, s1) \<Longrightarrow> lacks_event ?r s1" for m0 s0 e1 m1 s1
    using kmsg
    by (auto simp: checkOOMKills_def Let_def warn_once_def split: prod.splits option.splits kmsg_error.splits if_splits)
  let ?a = "run_part v (mmc_CheckMemoryUsage c) ''MemoryCheckFailed'' ''Failed to check memory usage: ''
      (checkMemoryUsage v) (m, NewStatus (se_now v) (mm_name m))"
  let ?b = "run_part v (mmc_CheckSwapUsage c) ''SwapCheckFailed'' ''Failed to check swap usage: '' (checkSwapUsage v) ?a"
  let ?d = "run_part v (mmc_CheckOOMKills c) ''OOMCheckFailed'' ''Failed to check OOM kills: '' (checkOOMKills v k) ?b"
  have "lacks_event ?r (snd ?a)" by (rule run_part_lacks) (simp_all add: u)
  then have "lacks_event ?r (snd ?b)" by (rule run_part_lacks) (simp_all add: w)
  then have "lacks_event ?r (snd ?d)" by (rule run_part_lacks) (simp_all add: o)
  then show ?thesis by (simp add: c_def checkMemory_def Let_def case_prod_unfold)
qed

text \<open>A monitor that looks for kills only; an hour into the run.\<close>

definition demo_oom_monitor :: MemoryMonitor where
  "demo_oom_monitor = demo_memory_monitor\<lparr>mm_config := (mm_config demo_memory_monitor)\<lparr>mmc_CheckMemoryUsage := False, mmc_CheckSwapUsage := False\<rparr>\<rparr>"

definition demo_hour_env :: sys_env where
  "demo_hour_env = (demo_memory_env ''50'')\<lparr>se_now := hour\<rparr>"

lemma old_kill_without_seek:
  "list_ex (\<lambda>e. ev_Reason e = ''OOMKillDetected'') (st_Events (snd (checkMemory demo_hour_env
     ((demo_kmsg [''Out of memory: Killed process 7 (db)''])\<lparr>km_seeks := False\<rparr>) demo_oom_monitor)))"
proof -
  have "ReadKmsg ((demo_kmsg [''Out of memory: Killed process 7 (db)''])\<lparr>km_seeks := False\<rparr>) = (None, ''Out of memory: Killed process 7 (db)'')"
    by (simp add: ReadKmsg_def demo_kmsg_def kmsg_reads_def Let_def)
  moreover have "filter oom_line (split_lines ''Out of memory: Killed process 7 (db)'') = [''Out of memory: Killed process 7 (db)'']"
    by code_simp
  ultimately show ?thesis
    by (simp add: checkMemory_def run_part_def demo_oom_monitor_def demo_memory_monitor_def checkOOMKills_def Let_def
        demo_hour_env_def demo_memory_env_def time_sub_def NewStatus_def)
qed

text \<open>
  C32. Kills by the kernel that happen between two checks are never reported where \<^verbatim>\<open>/dev/kmsg\<close> can seek: each check opens the device
  anew and seeks to its end before it reads, so its outcome is the same whatever was logged until then, whatever the reads give, and
  a check whose reads give no new record, only interruptions, an end or errors, reports no kill. (Where the seek is not supported the
  code ignores its error and reads the old records.)
\<close>

theorem oom_kills_between_checks_are_missed:
  assumes "km_seeks k"
  shows "checkMemory v (k\<lparr>km_log := records\<rparr>) m = checkMemory v k m
    \<and> ((\<forall>d. Got d \<notin> set (km_later k)) \<longrightarrow> (\<forall>e\<in>set (st_Events (snd (checkMemory v k m))). ev_Reason e \<noteq> ''OOMKillDetected''))"
proof (rule conjI; (rule impI)?)
  show "checkMemory v (k\<lparr>km_log := records\<rparr>) m = checkMemory v k m"
    by (rule checkMemory_log [OF assms])
next
  assume "\<forall>d. Got d \<notin> set (km_later k)"
  from quiet_checkMemory [OF assms this] show "\<forall>e\<in>set (st_Events (snd (checkMemory v k m))). ev_Reason e \<noteq> ''OOMKillDetected''"
    by (simp add: lacks_event_def)
qed

text \<open>The same old kill, unseen where the device seeks, reported where it does not.\<close>

theorem oom_kills_between_checks_are_missed_witness:
  "list_ex (\<lambda>e. ev_Reason e = ''OOMKillDetected'')
     (st_Events (snd (checkMemory demo_hour_env (demo_kmsg [''Out of memory: Killed process 7 (db)'']) demo_oom_monitor))) = False
   \<and> list_ex (\<lambda>e. ev_Reason e = ''OOMKillDetected'')
     (st_Events (snd (checkMemory demo_hour_env ((demo_kmsg [''Out of memory: Killed process 7 (db)''])\<lparr>km_seeks := False\<rparr>) demo_oom_monitor)))"
proof -
  have "km_seeks (demo_kmsg r)" "km_later (demo_kmsg r) = []" for r by (simp_all add: demo_kmsg_def)
  with oom_kills_between_checks_are_missed [of "demo_kmsg [''Out of memory: Killed process 7 (db)'']" demo_hour_env _ demo_oom_monitor]
  have "list_ex (\<lambda>e. ev_Reason e = ''OOMKillDetected'')
     (st_Events (snd (checkMemory demo_hour_env (demo_kmsg [''Out of memory: Killed process 7 (db)'']) demo_oom_monitor))) = False"
    by (auto simp: list_ex_iff)
  with old_kill_without_seek show ?thesis by simp
qed

end
