(* ===== verification/System_Disk.thy ===== *)
theory System_Disk
  imports System_Common
begin

text \<open>
  \<^verbatim>\<open>pkg/monitors/system/disk.go\<close> and \<^verbatim>\<open>disk_write_probe.go\<close>: space, inodes, read-only file systems, write probes and
  the utilisation of devices.

  \<open>de_statfs\<close> answers for a mount point. \<open>de_timestamp\<close> is the value the context has for the key
  \<^verbatim>\<open>timestamp\<close>, if any: nothing in the repository sets it. A write probe runs in a goroutine of its own:
  \<open>de_probe dir\<close> says how it goes within the time allowed; a probe that is still running stays in
  \<open>dm_probeInFlight\<close> until \<open>probe_returns\<close>. Probes of one check are taken in their order.
\<close>

section \<open>Configuration\<close>

record MountPointConfig =
  mp_Path :: string
  mp_WarningThreshold :: float64
  mp_CriticalThreshold :: float64
  mp_InodeWarningThreshold :: float64
  mp_InodeCriticalThreshold :: float64

record DiskMonitorConfig =
  dmc_MountPoints :: "MountPointConfig list"
  dmc_SustainedHighDiskChecks :: int
  dmc_CheckDiskSpace :: bool
  dmc_CheckInodes :: bool
  dmc_CheckReadonly :: bool
  dmc_CheckIOHealth :: bool
  dmc_DiskStatsPath :: string
  dmc_WriteProbePaths :: "string list"
  dmc_WriteProbeTimeout :: duration

definition parseMountPointConfig :: "(string, cfg_value) gomap \<Rightarrow> sys_config_error + MountPointConfig" where
  "parseMountPointConfig m =
     (case map_of m ''path'' of None \<Rightarrow> Inl PathMissing
      | Some _ \<Rightarrow>
          bindE (read_string m ''path'') (\<lambda>p.
          bindE (read_float m ''warningThreshold'') (\<lambda>w.
          bindE (read_float m ''criticalThreshold'') (\<lambda>c.
          bindE (read_float m ''inodeWarningThreshold'') (\<lambda>iw.
          bindE (read_float m ''inodeCriticalThreshold'') (\<lambda>ic.
            Inr \<lparr>mp_Path = p, mp_WarningThreshold = w, mp_CriticalThreshold = c,
                 mp_InodeWarningThreshold = iw, mp_InodeCriticalThreshold = ic\<rparr>))))))"

fun parse_mounts :: "int \<Rightarrow> cfg_value list \<Rightarrow> sys_config_error + MountPointConfig list" where
  "parse_mounts i [] = Inr []"
| "parse_mounts i (x # xs) =
     (case x of
        CVMap m \<Rightarrow>
          (case parseMountPointConfig m of
             Inl e \<Rightarrow> Inl (AtMountPoint i e)
           | Inr mp \<Rightarrow> bindE (parse_mounts (i + 1) xs) (\<lambda>mps. Inr (mp # mps)))
      | _ \<Rightarrow> Inl (AtMountPoint i (FieldKind ''mount point'' ''object'' x)))"

fun parse_probe_paths :: "nat \<Rightarrow> cfg_value list \<Rightarrow> sys_config_error + string list" where
  "parse_probe_paths i [] = Inr []"
| "parse_probe_paths i (x # xs) =
     (case string_value x of
        None \<Rightarrow> Inl (BadProbePath i x)
      | Some s \<Rightarrow> if s = [] then Inl (BadProbePath i x)
          else bindE (parse_probe_paths (Suc i) xs) (\<lambda>ps. Inr (s # ps)))"

fun list_value :: "cfg_value \<Rightarrow> cfg_value list option" where
  "list_value (CVList xs) = Some xs"
| "list_value _ = None"

definition read_probe_timeout :: "(string \<Rightarrow> duration option) \<Rightarrow> (string, cfg_value) gomap \<Rightarrow> sys_config_error + duration" where
  "read_probe_timeout parse m =
     (case map_of m ''writeProbeTimeout'' of None \<Rightarrow> Inr 0
      | Some x \<Rightarrow> (case string_value x of
           None \<Rightarrow> Inl (FieldKind ''writeProbeTimeout'' ''duration string'' x)
         | Some s \<Rightarrow> (case parse s of None \<Rightarrow> Inl (BadProbeTimeout s)
             | Some d \<Rightarrow> if d \<le> 0 then Inl (BadProbeTimeout s) else Inr d)))"

definition parseDiskConfig :: "(string \<Rightarrow> duration option) \<Rightarrow> (string, cfg_value) gomap \<Rightarrow> sys_config_error + DiskMonitorConfig" where
  "parseDiskConfig parse m =
     bindE (read_field list_value ''array'' [] m ''mountPoints'') (\<lambda>ms.
     bindE (parse_mounts 0 ms) (\<lambda>mps.
     bindE (read_int m ''sustainedHighDiskChecks'') (\<lambda>n.
     bindE (read_bool m ''checkDiskSpace'') (\<lambda>sp.
     bindE (read_bool m ''checkInodes'') (\<lambda>ino.
     bindE (read_bool m ''checkReadonly'') (\<lambda>ro.
     bindE (read_bool m ''checkIOHealth'') (\<lambda>io'.
     bindE (read_field list_value ''array of strings'' [] m ''writeProbePaths'') (\<lambda>ps.
     bindE (parse_probe_paths 0 ps) (\<lambda>paths.
     bindE (read_probe_timeout parse m) (\<lambda>t.
     bindE (read_string m ''diskStatsPath'') (\<lambda>dp.
       Inr \<lparr>dmc_MountPoints = mps, dmc_SustainedHighDiskChecks = n, dmc_CheckDiskSpace = sp, dmc_CheckInodes = ino,
            dmc_CheckReadonly = ro, dmc_CheckIOHealth = io', dmc_DiskStatsPath = dp, dmc_WriteProbePaths = paths,
            dmc_WriteProbeTimeout = t\<rparr>)))))))))))"

definition default_mount :: "string \<Rightarrow> MountPointConfig" where
  "default_mount p = \<lparr>mp_Path = p, mp_WarningThreshold = 85, mp_CriticalThreshold = 95, mp_InodeWarningThreshold = 85,
     mp_InodeCriticalThreshold = 95\<rparr>"

definition mount_defaults :: "MountPointConfig \<Rightarrow> MountPointConfig" where
  "mount_defaults p = \<lparr>mp_Path = mp_Path p, mp_WarningThreshold = or_default 0 85 (mp_WarningThreshold p),
     mp_CriticalThreshold = or_default 0 95 (mp_CriticalThreshold p),
     mp_InodeWarningThreshold = or_default 0 85 (mp_InodeWarningThreshold p),
     mp_InodeCriticalThreshold = or_default 0 95 (mp_InodeCriticalThreshold p)\<rparr>"

definition mount_error :: "MountPointConfig \<Rightarrow> sys_config_error option" where
  "mount_error p = first_error
     [check_percent ''warningThreshold'' (mp_WarningThreshold p),
      check_percent ''criticalThreshold'' (mp_CriticalThreshold p),
      check_below ''warningThreshold'' (mp_WarningThreshold p) ''criticalThreshold'' (mp_CriticalThreshold p),
      check_percent ''inodeWarningThreshold'' (mp_InodeWarningThreshold p),
      check_percent ''inodeCriticalThreshold'' (mp_InodeCriticalThreshold p),
      check_below ''inodeWarningThreshold'' (mp_InodeWarningThreshold p)
        ''inodeCriticalThreshold'' (mp_InodeCriticalThreshold p),
      if mp_Path p = [] then Some PathMissing else None]"

fun mounts_error :: "int \<Rightarrow> MountPointConfig list \<Rightarrow> sys_config_error option" where
  "mounts_error i [] = None"
| "mounts_error i (p # ps) = (case mount_error p of Some e \<Rightarrow> Some (AtMountPoint i e) | None \<Rightarrow> mounts_error (i + 1) ps)"

definition disk_applyDefaults :: "DiskMonitorConfig \<Rightarrow> sys_config_error + DiskMonitorConfig" where
  "disk_applyDefaults c0 =
     (let all = \<not> dmc_CheckDiskSpace c0 \<and> \<not> dmc_CheckInodes c0 \<and> \<not> dmc_CheckReadonly c0 \<and> \<not> dmc_CheckIOHealth c0;
          mounts = map mount_defaults
            (if dmc_MountPoints c0 = [] then map default_mount [''/'', ''/var/lib/docker'', ''/var/lib/containerd'']
             else dmc_MountPoints c0);
          c = \<lparr>dmc_MountPoints = mounts,
               dmc_SustainedHighDiskChecks = or_default 0 3 (dmc_SustainedHighDiskChecks c0),
               dmc_CheckDiskSpace = (all \<or> dmc_CheckDiskSpace c0), dmc_CheckInodes = (all \<or> dmc_CheckInodes c0),
               dmc_CheckReadonly = (all \<or> dmc_CheckReadonly c0), dmc_CheckIOHealth = (all \<or> dmc_CheckIOHealth c0),
               dmc_DiskStatsPath = or_default [] ''/proc/diskstats'' (dmc_DiskStatsPath c0),
               dmc_WriteProbePaths = dmc_WriteProbePaths c0,
               dmc_WriteProbeTimeout = or_default 0 (10 * second) (dmc_WriteProbeTimeout c0)\<rparr>
      in checked
        [mounts_error 0 mounts,
         if dmc_SustainedHighDiskChecks c \<le> 0
           then Some (NotPositive ''sustainedHighDiskChecks'' (dmc_SustainedHighDiskChecks c)) else None] c)"

record IOStats =
  io_Device :: string
  io_ReadsCompleted :: "64 word"
  io_ReadsMerged :: "64 word"
  io_SectorsRead :: "64 word"
  io_TimeReading :: "64 word"
  io_WritesCompleted :: "64 word"
  io_WritesMerged :: "64 word"
  io_SectorsWritten :: "64 word"
  io_TimeWriting :: "64 word"
  io_IOsInProgress :: "64 word"
  io_TimeDoingIO :: "64 word"
  io_WeightedTimeIO :: "64 word"

record DiskMonitor =
  dm_name :: string
  dm_baseMonitor :: BaseMonitor
  dm_config :: DiskMonitorConfig
  dm_highDiskCount :: "(string, int) gomap"
  dm_lastIOStats :: "(string, IOStats) gomap"
  dm_lastIOCheckTime :: int
  dm_probeInFlight :: "(string, bool) gomap"

definition NewDiskMonitor :: "(string \<Rightarrow> duration option) \<Rightarrow> MonitorConfig \<Rightarrow> sys_config_error + DiskMonitor" where
  "NewDiskMonitor parse mc =
     bindE (parseDiskConfig parse (mc_Config mc)) (\<lambda>c0.
     bindE (disk_applyDefaults c0) (\<lambda>c.
       with_base mc (\<lambda>b. \<lparr>dm_name = mc_Name mc, dm_baseMonitor = b, dm_config = c, dm_highDiskCount = [],
         dm_lastIOStats = [], dm_lastIOCheckTime = 0, dm_probeInFlight = []\<rparr>)))"

definition ValidateDiskConfig :: "(string \<Rightarrow> duration option) \<Rightarrow> MonitorConfig \<Rightarrow> sys_config_error option" where
  "ValidateDiskConfig parse mc =
     (if mc_Name mc = [] then Some NameMissing
      else if mc_Type mc \<noteq> ''system-disk'' then Some (WrongType (mc_Type mc))
      else (case bindE (parseDiskConfig parse (mc_Config mc)) disk_applyDefaults of Inl e \<Rightarrow> Some e | Inr _ \<Rightarrow> None))"

section \<open>Mount points\<close>

record FilesystemStats =
  fs_Blocks :: "64 word"
  fs_BlocksFree :: "64 word"
  fs_BlocksAvail :: "64 word"
  fs_Files :: "64 word"
  fs_FilesFree :: "64 word"
  fs_BlockSize :: "64 word"
  fs_Flags :: "64 word"

datatype statfs_answer = NoSuchMount | StatfsFailed string | StatfsOk FilesystemStats

datatype probe_outcome = ProbeDone "string option" | ProbeTimedOut | ProbeCancelled

record disk_env =
  de_sys :: sys_env
  de_statfs :: "string \<Rightarrow> statfs_answer"
  de_timestamp :: "int option"
  de_probe :: "string \<Rightarrow> probe_outcome"
  de_durText :: "duration \<Rightarrow> string"

record DiskInfo =
  di_Path :: string
  di_TotalSpace :: "64 word"
  di_FreeSpace :: "64 word"
  di_AvailableSpace :: "64 word"
  di_UsedSpace :: "64 word"
  di_UsagePercent :: float64
  di_TotalInodes :: "64 word"
  di_FreeInodes :: "64 word"
  di_UsedInodes :: "64 word"
  di_InodePercent :: float64
  di_IsReadonly :: bool

definition parseDiskInfo :: "sys_env \<Rightarrow> string \<Rightarrow> FilesystemStats \<Rightarrow> DiskInfo" where
  "parseDiskInfo v path fs =
     (let all = fs_Blocks fs * fs_BlockSize fs; avail = fs_BlocksAvail fs * fs_BlockSize fs;
          free = fs_BlocksFree fs * fs_BlockSize fs; used = all - avail; inodes = fs_Files fs - fs_FilesFree fs
      in \<lparr>di_Path = path, di_TotalSpace = all, di_FreeSpace = free, di_AvailableSpace = avail, di_UsedSpace = used,
          di_UsagePercent = (if 0 < all then percent_of v used all else 0),
          di_TotalInodes = fs_Files fs, di_FreeInodes = fs_FilesFree fs, di_UsedInodes = inodes,
          di_InodePercent = (if 0 < fs_Files fs then percent_of v inodes (fs_Files fs) else 0),
          di_IsReadonly = (and (fs_Flags fs) 1 \<noteq> 0)\<rparr>)"

definition gb_of_bytes :: "sys_env \<Rightarrow> 64 word \<Rightarrow> string" where
  "gb_of_bytes v w = se_f2 v (float_of v w / 1024 / 1024 / 1024)"

definition space_figures :: "sys_env \<Rightarrow> string \<Rightarrow> DiskInfo \<Rightarrow> string" where
  "space_figures v path di = path @ '': '' @ se_f1 v (di_UsagePercent di) @ ''% ('' @ gb_of_bytes v (di_UsedSpace di)
     @ '' GB used of '' @ gb_of_bytes v (di_TotalSpace di) @ '' GB total, '' @ gb_of_bytes v (di_AvailableSpace di)
     @ '' GB available)''"

definition checkDiskSpaceUsage ::
  "sys_env \<Rightarrow> MountPointConfig \<Rightarrow> DiskInfo \<Rightarrow> DiskMonitor \<times> status \<Rightarrow> DiskMonitor \<times> status" where
  "checkDiskSpaceUsage v mp di ms =
     (case ms of (m, s) \<Rightarrow>
       let p = mp_Path mp; u = di_UsagePercent di; n = gomap_get 0 (dm_highDiskCount m) p + 1 in
       if mp_CriticalThreshold mp \<le> u then
         (m\<lparr>dm_highDiskCount := AList.update p n (dm_highDiskCount m)\<rparr>,
          (if dmc_SustainedHighDiskChecks (dm_config m) \<le> n then
             add_condition v ''DiskPressure'' ConditionTrue ''SustainedHighDisk''
               (''Disk '' @ p @ '' has been under sustained high usage for '' @ show_int n @ '' consecutive checks (''
                @ se_f1 v u @ ''% >= '' @ se_f1 v (mp_CriticalThreshold mp) @ ''%)'')
           else
             add_condition v ''DiskPressure'' ConditionFalse ''HighDisk''
               (''Disk usage on '' @ p @ '' is critical but not yet sustained ('' @ se_f1 v u @ ''% >= ''
                @ se_f1 v (mp_CriticalThreshold mp) @ ''%)''))
            (add_event v EventError ''HighDiskUsage'' (''High disk usage detected on '' @ space_figures v p di) s))
       else if mp_WarningThreshold mp \<le> u then
         (m\<lparr>dm_highDiskCount := AList.update p n (dm_highDiskCount m)\<rparr>,
          add_condition v ''DiskPressure'' ConditionFalse ''ElevatedDisk''
            (''Disk usage on '' @ p @ '' is elevated but not critical ('' @ se_f1 v u @ ''%)'')
            (add_event v EventWarning ''ElevatedDiskUsage'' (''Elevated disk usage detected on '' @ space_figures v p di) s))
       else
         (m\<lparr>dm_highDiskCount := AList.update p 0 (dm_highDiskCount m)\<rparr>,
          add_condition v ''DiskPressure'' ConditionFalse ''NormalDisk''
            (''Disk usage on '' @ p @ '' is normal ('' @ se_f1 v u @ ''%)'') s))"

definition inode_figures :: "sys_env \<Rightarrow> string \<Rightarrow> DiskInfo \<Rightarrow> string" where
  "inode_figures v path di = path @ '': '' @ se_f1 v (di_InodePercent di) @ ''% ('' @ show_nat (unat (di_UsedInodes di))
     @ '' used of '' @ show_nat (unat (di_TotalInodes di)) @ '' total)''"

definition checkInodeUsage :: "sys_env \<Rightarrow> MountPointConfig \<Rightarrow> DiskInfo \<Rightarrow> status \<Rightarrow> status" where
  "checkInodeUsage v mp di s =
     (let p = mp_Path mp; u = di_InodePercent di in
      if di_TotalInodes di = 0 then s
      else if mp_InodeCriticalThreshold mp \<le> u then
        add_condition v ''InodePressure'' ConditionTrue ''CriticalInode''
          (''Inode usage on '' @ p @ '' is critical ('' @ se_f1 v u @ ''% >= '' @ se_f1 v (mp_InodeCriticalThreshold mp) @ ''%)'')
          (add_event v EventError ''HighInodeUsage'' (''High inode usage detected on '' @ inode_figures v p di) s)
      else if mp_InodeWarningThreshold mp \<le> u then
        add_condition v ''InodePressure'' ConditionFalse ''ElevatedInode''
          (''Inode usage on '' @ p @ '' is elevated but not critical ('' @ se_f1 v u @ ''%)'')
          (add_event v EventWarning ''ElevatedInodeUsage'' (''Elevated inode usage detected on '' @ inode_figures v p di) s)
      else
        add_condition v ''InodePressure'' ConditionFalse ''NormalInode''
          (''Inode usage on '' @ p @ '' is normal ('' @ se_f1 v u @ ''%)'') s)"

definition checkMountPoint ::
  "disk_env \<Rightarrow> MountPointConfig \<Rightarrow> DiskMonitor \<times> status \<Rightarrow> string option \<times> DiskMonitor \<times> status" where
  "checkMountPoint d mp ms =
     (case ms of (m, s) \<Rightarrow> let v = de_sys d; c = dm_config m in
       (case de_statfs d (mp_Path mp) of
          NoSuchMount \<Rightarrow> (None, m, s)
        | StatfsFailed e \<Rightarrow> (Some (''failed to get filesystem stats for '' @ mp_Path mp @ '': '' @ e), m, s)
        | StatfsOk fs \<Rightarrow>
            let di = parseDiskInfo v (mp_Path mp) fs in
            if dmc_CheckReadonly c \<and> di_IsReadonly di then
              (None, m, add_condition v ''ReadonlyFilesystem'' ConditionTrue ''ReadonlyFilesystem''
                 (''Filesystem '' @ mp_Path mp @ '' is mounted readonly'')
                 (add_event v EventError ''ReadonlyFilesystem'' (''Readonly filesystem detected on '' @ mp_Path mp) s))
            else
              (case (if dmc_CheckDiskSpace c then checkDiskSpaceUsage v mp di (m, s) else (m, s)) of
                 (m1, s1) \<Rightarrow> (None, m1, if dmc_CheckInodes c then checkInodeUsage v mp di s1 else s1))))"

section \<open>Write probes\<close>

text \<open>\<^verbatim>\<open>writeProbe\<close>: whether there is a verdict, and its error.\<close>

definition writeProbe :: "disk_env \<Rightarrow> string \<Rightarrow> DiskMonitor \<Rightarrow> (bool \<times> string option) \<times> DiskMonitor" where
  "writeProbe d dir m =
     (if gomap_get False (dm_probeInFlight m) dir then ((True, Some ''previous write probe still blocked''), m)
      else (case de_probe d dir of
         ProbeDone r \<Rightarrow> ((True, r), m\<lparr>dm_probeInFlight := AList.update dir False (dm_probeInFlight m)\<rparr>)
       | ProbeTimedOut \<Rightarrow>
           ((True, Some (''timed out after '' @ de_durText d (dmc_WriteProbeTimeout (dm_config m)))),
            m\<lparr>dm_probeInFlight := AList.update dir True (dm_probeInFlight m)\<rparr>)
       | ProbeCancelled \<Rightarrow> ((False, None), m\<lparr>dm_probeInFlight := AList.update dir True (dm_probeInFlight m)\<rparr>)))"

text \<open>A probe that was left running comes back.\<close>

definition probe_returns :: "string \<Rightarrow> DiskMonitor \<Rightarrow> DiskMonitor" where
  "probe_returns dir m = m\<lparr>dm_probeInFlight := AList.update dir False (dm_probeInFlight m)\<rparr>"

definition probe_step ::
  "disk_env \<Rightarrow> string \<Rightarrow> (string list \<times> nat) \<times> DiskMonitor \<times> status \<Rightarrow> (string list \<times> nat) \<times> DiskMonitor \<times> status" where
  "probe_step d dir x =
     (case x of ((failed, verdicts), m, s) \<Rightarrow>
       (case writeProbe d dir m of
          ((False, _), m1) \<Rightarrow> ((failed, verdicts), m1, s)
        | ((True, None), m1) \<Rightarrow> ((failed, Suc verdicts), m1, s)
        | ((True, Some e), m1) \<Rightarrow>
            let msg = ''Write probe on '' @ dir @ '' failed: '' @ e in
            ((failed @ [msg], Suc verdicts), m1,
             add_event (de_sys d) EventError ''WriteProbeFailed''
               (msg @ ''. The filesystem is not taking writes (read-only, shut down after errors, or its device is gone)'') s)))"

definition readonly_true :: "condition \<Rightarrow> bool" where
  "readonly_true c \<longleftrightarrow> cond_Type c = ''ReadonlyFilesystem'' \<and> cond_Status c = ConditionTrue"

definition runWriteProbes :: "disk_env \<Rightarrow> DiskMonitor \<times> status \<Rightarrow> DiskMonitor \<times> status" where
  "runWriteProbes d ms =
     (case ms of (m, s) \<Rightarrow> let paths = dmc_WriteProbePaths (dm_config m); v = de_sys d in
       if paths = [] then (m, s)
       else (case fold (probe_step d) paths (([], 0), m, s) of
          ((failed, verdicts), m1, s1) \<Rightarrow>
            (m1, if failed \<noteq> [] then
                   add_condition v ''ReadonlyFilesystem'' ConditionTrue ''WriteProbeFailed'' (join ''; '' failed) s1
                 else if verdicts = 0 then s1
                 else if list_ex readonly_true (st_Conditions s1) then s1
                 else add_condition v ''ReadonlyFilesystem'' ConditionFalse ''WriteProbeOK''
                   (''Write probes succeeded on '' @ join '', '' paths @ '' (create, write, fsync, unlink)'') s1)))"

section \<open>Devices\<close>

definition diskstats_line :: "string \<Rightarrow> (string, IOStats) gomap \<Rightarrow> (string, IOStats) gomap" where
  "diskstats_line line st =
     (let fs = Fields (TrimSpace line) in
      if length fs < 14 then st
      else (case those (map ParseUint (take 11 (drop 3 fs))) of
         Some [a, b, c, d, e, f, g, h, i, j, k] \<Rightarrow>
           AList.update (fs ! 2)
             \<lparr>io_Device = fs ! 2, io_ReadsCompleted = a, io_ReadsMerged = b, io_SectorsRead = c, io_TimeReading = d,
              io_WritesCompleted = e, io_WritesMerged = f, io_SectorsWritten = g, io_TimeWriting = h,
              io_IOsInProgress = i, io_TimeDoingIO = j, io_WeightedTimeIO = k\<rparr> st
       | _ \<Rightarrow> st))"

definition parseDiskStats :: "string \<Rightarrow> (string, IOStats) gomap" where
  "parseDiskStats text = fold diskstats_line (split_lines text) []"

text \<open>One device: the time it spent on I/O since the last check, as a share of the time that went by. The counter is
  subtracted in 64 bits.\<close>

definition io_step :: "sys_env \<Rightarrow> int \<Rightarrow> (string, IOStats) gomap \<Rightarrow> string \<times> IOStats \<Rightarrow> status \<Rightarrow> status" where
  "io_step v elapsedMs last' x s =
     (case map_of last' (fst x) of None \<Rightarrow> s
      | Some l \<Rightarrow>
          if elapsedMs \<le> 0 then s
          else let u = se_fl v (se_fl v (float_of v (io_TimeDoingIO (snd x) - io_TimeDoingIO l) / se_fl v (of_int elapsedMs)) * 100)
            in if 80 < u then add_event v EventWarning ''HighIOWait''
                 (''High I/O utilization detected on device '' @ fst x @ '': '' @ se_f1 v u @ ''%'') s
               else s)"

definition checkIOHealth :: "disk_env \<Rightarrow> DiskMonitor \<times> status \<Rightarrow> string option \<times> DiskMonitor \<times> status" where
  "checkIOHealth d ms =
     (case ms of (m, s) \<Rightarrow> let v = de_sys d; path = dmc_DiskStatsPath (dm_config m) in
       (case se_readFile v path of
          Inl e \<Rightarrow> (Some (''failed to read '' @ path @ '': '' @ e), m, s)
        | Inr text \<Rightarrow>
            (case de_timestamp d of
               None \<Rightarrow> (None, m, s)
             | Some now \<Rightarrow>
                 let cur = parseDiskStats text in
                 (None, m\<lparr>dm_lastIOStats := cur, dm_lastIOCheckTime := now\<rparr>,
                  if 0 < dm_lastIOCheckTime m
                  then fold (io_step v (wrap64 (now - dm_lastIOCheckTime m) div 1000000) (dm_lastIOStats m)) cur s
                  else s))))"

section \<open>The check\<close>

definition mount_part :: "disk_env \<Rightarrow> MountPointConfig \<Rightarrow> DiskMonitor \<times> status \<Rightarrow> DiskMonitor \<times> status" where
  "mount_part d mp ms =
     (let c = dm_config (fst ms) in
      run_part (de_sys d) (dmc_CheckDiskSpace c \<or> dmc_CheckInodes c \<or> dmc_CheckReadonly c) ''DiskCheckFailed''
        (''Failed to check mount point '' @ mp_Path mp @ '': '') (checkMountPoint d mp) ms)"

definition checkDisk :: "disk_env \<Rightarrow> DiskMonitor \<Rightarrow> DiskMonitor \<times> status" where
  "checkDisk d m =
     (let c = dm_config m; v = de_sys d;
          (m1, s1) = fold (mount_part d) (dmc_MountPoints c) (m, NewStatus (se_now v) (dm_name m));
          (m2, s2) = runWriteProbes d (m1, s1);
          (m3, s3) = run_part v (dmc_CheckIOHealth c) ''IOHealthCheckFailed'' ''Failed to check I/O health: ''
                       (checkIOHealth d) (m2, s2)
      in (m3, if st_Events s3 = [] \<and> (dmc_CheckDiskSpace c \<or> dmc_CheckInodes c \<or> dmc_CheckReadonly c \<or> dmc_CheckIOHealth c)
              then add_condition v ''DiskHealthy'' ConditionTrue ''DiskHealthy'' ''All disk checks are operating normally'' s3
              else s3))"

section \<open>Space on the mount points\<close>

text \<open>What a check reads of a mount point, whether it is high (from the warning threshold on) and whether it is
  critical.\<close>

definition mount_usage :: "DiskMonitorConfig \<Rightarrow> MountPointConfig \<Rightarrow> disk_env \<Rightarrow> float64 option" where
  "mount_usage c mp d =
     (case de_statfs d (mp_Path mp) of
        StatfsOk fs \<Rightarrow> let di = parseDiskInfo (de_sys d) (mp_Path mp) fs in
          if dmc_CheckReadonly c \<and> di_IsReadonly di then None else Some (di_UsagePercent di)
      | _ \<Rightarrow> None)"

definition mount_readable :: "DiskMonitorConfig \<Rightarrow> MountPointConfig \<Rightarrow> disk_env \<Rightarrow> bool" where
  "mount_readable c mp d \<longleftrightarrow> mount_usage c mp d \<noteq> None"

definition mount_critical :: "DiskMonitorConfig \<Rightarrow> MountPointConfig \<Rightarrow> disk_env \<Rightarrow> bool" where
  "mount_critical c mp d \<longleftrightarrow> (case mount_usage c mp d of None \<Rightarrow> False | Some u \<Rightarrow> mp_CriticalThreshold mp \<le> u)"

definition mount_high :: "DiskMonitorConfig \<Rightarrow> MountPointConfig \<Rightarrow> disk_env \<Rightarrow> bool" where
  "mount_high c mp d \<longleftrightarrow> mount_critical c mp d
     \<or> (case mount_usage c mp d of None \<Rightarrow> False | Some u \<Rightarrow> mp_WarningThreshold mp \<le> u)"

definition high_count :: "string \<Rightarrow> DiskMonitor \<Rightarrow> int" where
  "high_count p m = gomap_get 0 (dm_highDiskCount m) p"

definition disk_pressure :: "status \<Rightarrow> bool" where
  "disk_pressure s \<longleftrightarrow> (\<exists>c\<in>set (st_Conditions s). cond_Type c = ''DiskPressure'' \<and> cond_Status c = ConditionTrue)"

definition next_count :: "DiskMonitorConfig \<Rightarrow> MountPointConfig \<Rightarrow> disk_env \<Rightarrow> int \<Rightarrow> int" where
  "next_count c mp d n = (if \<not> mount_readable c mp d then n else if mount_high c mp d then n + 1 else 0)"

definition mount_fires :: "DiskMonitorConfig \<Rightarrow> MountPointConfig \<Rightarrow> disk_env \<Rightarrow> int \<Rightarrow> bool" where
  "mount_fires c mp d n \<longleftrightarrow> mount_critical c mp d \<and> dmc_SustainedHighDiskChecks c \<le> n + 1"

lemma True_False_condition_disk [simp]: "ConditionTrue \<noteq> ConditionFalse" "ConditionFalse \<noteq> ConditionTrue"
  by (simp_all add: severity_defs)

lemma disk_pressure_simps [simp]:
  "\<not> disk_pressure (NewStatus now n)"
  "disk_pressure (add_event v sev reason msg s) \<longleftrightarrow> disk_pressure s"
  "disk_pressure (add_condition v t a b msg s) \<longleftrightarrow> disk_pressure s \<or> t = ''DiskPressure'' \<and> a = ConditionTrue"
  by (auto simp: disk_pressure_def)

lemma high_count_update [simp]:
  "high_count p (m\<lparr>dm_highDiskCount := AList.update q n l\<rparr>) =
     (if p = q then n else high_count p (m\<lparr>dm_highDiskCount := l\<rparr>))"
  by (simp add: high_count_def gomap_get_def update_conv')

lemma high_count_same [simp]: "high_count p (m\<lparr>dm_highDiskCount := dm_highDiskCount m\<rparr>) = high_count p m"
  "high_count p (m\<lparr>dm_probeInFlight := x\<rparr>) = high_count p m"
  "high_count p (m\<lparr>dm_lastIOStats := y, dm_lastIOCheckTime := t\<rparr>) = high_count p m"
  by (simp_all add: high_count_def)

lemma checkInodeUsage_pressure [simp]: "disk_pressure (checkInodeUsage v mp di s) = disk_pressure s"
  by (simp add: checkInodeUsage_def Let_def)

lemma checkDiskSpaceUsage_effect:
  assumes "checkDiskSpaceUsage v mp di (m, s) = (m', s')"
  shows "dm_config m' = dm_config m \<and> dm_name m' = dm_name m
    \<and> high_count p m' = (if p \<noteq> mp_Path mp then high_count p m
        else if mp_CriticalThreshold mp \<le> di_UsagePercent di \<or> mp_WarningThreshold mp \<le> di_UsagePercent di
          then high_count p m + 1 else 0)
    \<and> (disk_pressure s' \<longleftrightarrow> disk_pressure s \<or> mp_CriticalThreshold mp \<le> di_UsagePercent di
        \<and> dmc_SustainedHighDiskChecks (dm_config m) \<le> high_count (mp_Path mp) m + 1)"
  using assms by (auto simp: checkDiskSpaceUsage_def Let_def high_count_def [symmetric] split: if_splits)

lemma checkMountPoint_effect:
  assumes "checkMountPoint d mp (m, s) = (e, m', s')" "dm_config m = c" "dmc_CheckDiskSpace c"
  shows "dm_config m' = c \<and> dm_name m' = dm_name m
    \<and> high_count p m' = (if p = mp_Path mp then next_count c mp d (high_count p m) else high_count p m)
    \<and> (disk_pressure s' \<longleftrightarrow> disk_pressure s \<or> mount_fires c mp d (high_count (mp_Path mp) m))"
proof (cases "mount_usage c mp d")
  case None
  then show ?thesis using assms
    by (auto simp: checkMountPoint_def Let_def next_count_def mount_fires_def mount_readable_def mount_critical_def
        mount_usage_def split: statfs_answer.split_asm if_splits)
next
  case (Some u)
  then obtain fs where fs: "de_statfs d (mp_Path mp) = StatfsOk fs"
    by (auto simp: mount_usage_def split: statfs_answer.split_asm)
  let ?di = "parseDiskInfo (de_sys d) (mp_Path mp) fs"
  obtain m1 s1 where sp: "checkDiskSpaceUsage (de_sys d) mp ?di (m, s) = (m1, s1)" by (metis surj_pair)
  have u: "\<not> (dmc_CheckReadonly c \<and> di_IsReadonly ?di)" "u = di_UsagePercent ?di"
    using Some fs by (auto simp: mount_usage_def Let_def split: if_splits)
  have r: "m' = m1" "disk_pressure s' = disk_pressure s1"
    using assms fs sp u(1) by (auto simp: checkMountPoint_def Let_def split: if_splits)
  show ?thesis
    using checkDiskSpaceUsage_effect [OF sp, of p] u(2) Some assms(2) r
    by (simp add: next_count_def mount_fires_def mount_readable_def mount_high_def mount_critical_def)
qed

lemma mount_part_effect:
  assumes "mount_part d mp (m, s) = (m', s')" "dm_config m = c" "dmc_CheckDiskSpace c"
  shows "dm_config m' = c \<and> dm_name m' = dm_name m
    \<and> high_count p m' = (if p = mp_Path mp then next_count c mp d (high_count p m) else high_count p m)
    \<and> (disk_pressure s' \<longleftrightarrow> disk_pressure s \<or> mount_fires c mp d (high_count (mp_Path mp) m))"
proof -
  obtain e m1 s1 where k: "checkMountPoint d mp (m, s) = (e, m1, s1)" by (metis surj_pair)
  have "m' = m1 \<and> disk_pressure s' = disk_pressure s1"
    using assms k by (cases e) (auto simp: mount_part_def run_part_def)
  then show ?thesis using checkMountPoint_effect [OF k assms(2,3), of p] by simp
qed

lemma mounts_effect:
  assumes "fold (mount_part d) mps (m, s) = (m', s')" "dm_config m = c" "dmc_CheckDiskSpace c"
    "distinct (map mp_Path mps)"
  shows "dm_config m' = c \<and> dm_name m' = dm_name m
    \<and> (\<forall>p. p \<notin> mp_Path ` set mps \<longrightarrow> high_count p m' = high_count p m)
    \<and> (\<forall>mp\<in>set mps. high_count (mp_Path mp) m' = next_count c mp d (high_count (mp_Path mp) m))
    \<and> (disk_pressure s' \<longleftrightarrow> disk_pressure s \<or> (\<exists>mp\<in>set mps. mount_fires c mp d (high_count (mp_Path mp) m)))"
  using assms
proof (induction mps arbitrary: m s)
  case Nil
  then show ?case by simp
next
  case (Cons mp mps)
  obtain m1 s1 where k: "mount_part d mp (m, s) = (m1, s1)" by (metis surj_pair)
  note e = mount_part_effect [OF k Cons.prems(2,3)]
  have fresh: "mp_Path mp \<notin> mp_Path ` set mps" and dist: "distinct (map mp_Path mps)" using Cons.prems(4) by auto
  have "fold (mount_part d) mps (m1, s1) = (m', s')" using Cons.prems(1) k by simp
  note ih = Cons.IH [OF this _ Cons.prems(3) dist]
  have other: "high_count p m1 = high_count p m" if "p \<noteq> mp_Path mp" for p
    using e [of p] that by simp
  have others: "high_count (mp_Path q) m1 = high_count (mp_Path q) m" if "q \<in> set mps" for q
    using other [of "mp_Path q"] fresh that by (metis imageI)
  have own: "high_count (mp_Path mp) m1 = next_count c mp d (high_count (mp_Path mp) m)"
    using e [of "mp_Path mp"] by simp
  show ?case
    using ih e [of "mp_Path mp"] others own other fresh by auto
qed

text \<open>Probes and the check of devices leave counts and space conditions alone.\<close>

lemma writeProbe_keeps: "dm_config (snd (writeProbe d dir m)) = dm_config m" "dm_name (snd (writeProbe d dir m)) = dm_name m"
  "high_count p (snd (writeProbe d dir m)) = high_count p m"
  by (simp_all add: writeProbe_def split: probe_outcome.split)

lemma probe_step_keeps:
  assumes "probe_step d dir (a, m, s) = (a', m', s')"
  shows "dm_config m' = dm_config m" "dm_name m' = dm_name m" "high_count p m' = high_count p m"
    "st_Conditions s' = st_Conditions s"
proof -
  obtain r m1 where w: "writeProbe d dir m = (r, m1)" by (metis surj_pair)
  have k: "dm_config m1 = dm_config m" "dm_name m1 = dm_name m" "high_count p m1 = high_count p m"
    using writeProbe_keeps(1,2) [of d dir m] writeProbe_keeps(3) [of p d dir m] w by simp_all
  have "m' = m1" "st_Conditions s' = st_Conditions s"
    using assms w by (auto simp: probe_step_def Let_def split: prod.splits bool.splits option.splits)
  with k show "dm_config m' = dm_config m" "dm_name m' = dm_name m" "high_count p m' = high_count p m"
    "st_Conditions s' = st_Conditions s" by simp_all
qed

lemma probes_keep:
  assumes "fold (probe_step d) dirs (a, m, s) = (a', m', s')"
  shows "dm_config m' = dm_config m \<and> dm_name m' = dm_name m \<and> high_count p m' = high_count p m
    \<and> st_Conditions s' = st_Conditions s"
  using assms
proof (induction dirs arbitrary: a m s)
  case Nil
  then show ?case by simp
next
  case (Cons dir dirs)
  obtain a1 m1 s1 where k: "probe_step d dir (a, m, s) = (a1, m1, s1)" by (metis surj_pair)
  show ?case using Cons.IH [of a1 m1 s1] Cons.prems k probe_step_keeps [OF k] by simp
qed

lemma runWriteProbes_keeps:
  assumes "runWriteProbes d (m, s) = (m', s')"
  shows "dm_config m' = dm_config m" "dm_name m' = dm_name m" "high_count p m' = high_count p m"
    "disk_pressure s' = disk_pressure s"
proof -
  obtain f n m1 s1 where k: "fold (probe_step d) (dmc_WriteProbePaths (dm_config m)) (([], 0), m, s) = ((f, n), m1, s1)"
    by (metis surj_pair)
  note e = probes_keep [OF k, of p]
  have p: "disk_pressure s1 = disk_pressure s" using e by (simp add: disk_pressure_def)
  have "(m', disk_pressure s') = (m, disk_pressure s) \<or> (m', disk_pressure s') = (m1, disk_pressure s1)"
  proof (cases "dmc_WriteProbePaths (dm_config m) = []")
    case True
    then show ?thesis using assms by (simp add: runWriteProbes_def)
  next
    case False
    define t where "t = (if f \<noteq> [] then add_condition (de_sys d) ''ReadonlyFilesystem'' ConditionTrue ''WriteProbeFailed'' (join ''; '' f) s1
      else if n = 0 then s1 else if list_ex readonly_true (st_Conditions s1) then s1
      else add_condition (de_sys d) ''ReadonlyFilesystem'' ConditionFalse ''WriteProbeOK''
        (''Write probes succeeded on '' @ join '', '' (dmc_WriteProbePaths (dm_config m)) @ '' (create, write, fsync, unlink)'') s1)"
    have "(m', s') = (m1, t)"
      using assms k False by (simp add: runWriteProbes_def Let_def t_def)
    moreover have "disk_pressure t = disk_pressure s1" by (simp add: t_def)
    ultimately have "m' = m1" "disk_pressure s' = disk_pressure s1" by simp_all
    then show ?thesis by simp
  qed
  then show "dm_config m' = dm_config m" "dm_name m' = dm_name m" "high_count p m' = high_count p m"
    "disk_pressure s' = disk_pressure s"
    using e p by auto
qed

lemma io_fold_conditions: "st_Conditions (fold (io_step v t l) xs s) = st_Conditions s"
  by (induction xs arbitrary: s) (simp_all add: io_step_def Let_def split: option.split)

lemma checkIOHealth_keeps:
  assumes "checkIOHealth d (m, s) = (e, m', s')"
  shows "dm_config m' = dm_config m" "dm_name m' = dm_name m" "high_count p m' = high_count p m"
    "st_Conditions s' = st_Conditions s"
  using assms by (auto simp: checkIOHealth_def Let_def io_fold_conditions split: sum.split_asm option.split_asm if_splits)

lemma io_part:
  assumes "run_part v b r t (checkIOHealth d) (m, s) = (m', s')"
  shows "dm_config m' = dm_config m" "high_count p m' = high_count p m" "st_Conditions s' = st_Conditions s"
proof -
  obtain e w u where k: "checkIOHealth d (m, s) = (e, w, u)" by (metis surj_pair)
  note q = checkIOHealth_keeps [OF k]
  show "dm_config m' = dm_config m" "high_count p m' = high_count p m" "st_Conditions s' = st_Conditions s"
    using assms k q(1,2,4) q(3) [of p] by (cases b; cases e; auto simp: run_part_def)+
qed

text \<open>The three parts of a check: mount points, probes, devices.\<close>

lemma checkDisk_parts:
  assumes "checkDisk d m = (m', s')" "c = dm_config m"
  obtains m1 s1 m2 s2 s3 msg where
    "fold (mount_part d) (dmc_MountPoints c) (m, NewStatus (se_now (de_sys d)) (dm_name m)) = (m1, s1)"
    "runWriteProbes d (m1, s1) = (m2, s2)"
    "run_part (de_sys d) (dmc_CheckIOHealth c) ''IOHealthCheckFailed'' ''Failed to check I/O health: '' (checkIOHealth d) (m2, s2) = (m', s3)"
    "s' = s3 \<or> s' = add_condition (de_sys d) ''DiskHealthy'' ConditionTrue ''DiskHealthy'' msg s3"
proof -
  obtain m1 s1 where a: "fold (mount_part d) (dmc_MountPoints c) (m, NewStatus (se_now (de_sys d)) (dm_name m)) = (m1, s1)"
    by (metis surj_pair)
  obtain m2 s2 where b: "runWriteProbes d (m1, s1) = (m2, s2)" by (metis surj_pair)
  obtain m3 s3 where e: "run_part (de_sys d) (dmc_CheckIOHealth c) ''IOHealthCheckFailed'' ''Failed to check I/O health: ''
      (checkIOHealth d) (m2, s2) = (m3, s3)" by (metis surj_pair)
  have r: "m3 = m'" "s' = s3 \<or> s' = add_condition (de_sys d) ''DiskHealthy'' ConditionTrue ''DiskHealthy'' ''All disk checks are operating normally'' s3"
    using assms a b e by (auto simp: checkDisk_def Let_def split: if_splits)
  show ?thesis by (rule that [OF a b _ r(2)]) (use e r(1) in simp)
qed

lemma checkDisk_effect:
  assumes "checkDisk d m = (m', s')" "c = dm_config m" "dmc_CheckDiskSpace c" "distinct (map mp_Path (dmc_MountPoints c))"
  shows "dm_config m' = c
    \<and> (\<forall>mp\<in>set (dmc_MountPoints c). high_count (mp_Path mp) m' = next_count c mp d (high_count (mp_Path mp) m))
    \<and> (disk_pressure s' \<longleftrightarrow> (\<exists>mp\<in>set (dmc_MountPoints c). mount_fires c mp d (high_count (mp_Path mp) m)))"
proof -
  obtain m1 s1 m2 s2 s3 msg where p:
    "fold (mount_part d) (dmc_MountPoints c) (m, NewStatus (se_now (de_sys d)) (dm_name m)) = (m1, s1)"
    "runWriteProbes d (m1, s1) = (m2, s2)"
    "run_part (de_sys d) (dmc_CheckIOHealth c) ''IOHealthCheckFailed'' ''Failed to check I/O health: '' (checkIOHealth d) (m2, s2) = (m', s3)"
    "s' = s3 \<or> s' = add_condition (de_sys d) ''DiskHealthy'' ConditionTrue ''DiskHealthy'' msg s3"
    by (rule checkDisk_parts [OF assms(1,2)])
  note a = mounts_effect [OF p(1) assms(2) [symmetric] assms(3,4)]
  note b = runWriteProbes_keeps [OF p(2)]
  note e = io_part [OF p(3)]
  have "disk_pressure s' = disk_pressure s3" using p(4) by auto
  also have "\<dots> = disk_pressure s1" using b(4) e(3) by (simp add: disk_pressure_def)
  finally have "disk_pressure s' = disk_pressure s1" .
  then show ?thesis using a b e by simp
qed

text \<open>A run of checks.\<close>

definition disk_step :: "disk_env \<Rightarrow> DiskMonitor \<Rightarrow> DiskMonitor" where
  "disk_step d m = fst (checkDisk d m)"

definition disk_checks :: "disk_env list \<Rightarrow> DiskMonitor \<Rightarrow> DiskMonitor" where
  "disk_checks ds m = fold disk_step ds m"

definition counts_mount :: "DiskMonitorConfig \<Rightarrow> MountPointConfig \<Rightarrow> bool" where
  "counts_mount c mp \<longleftrightarrow> dmc_CheckDiskSpace c \<and> distinct (map mp_Path (dmc_MountPoints c)) \<and> mp \<in> set (dmc_MountPoints c)"

interpretation space: sustained "high_count (mp_Path mp)" disk_step "mount_readable c mp" "mount_high c mp"
    "\<lambda>m. dm_config m = c \<and> counts_mount c mp" for c mp
proof
  fix m :: DiskMonitor and d :: disk_env
  assume g: "dm_config m = c \<and> counts_mount c mp"
  obtain m' s' where e: "checkDisk d m = (m', s')" by (metis surj_pair)
  have "disk_step d m = m'" using e by (simp add: disk_step_def)
  then show "dm_config (disk_step d m) = c \<and> counts_mount c mp"
    "high_count (mp_Path mp) (disk_step d m) = (if \<not> mount_readable c mp d then high_count (mp_Path mp) m
       else if mount_high c mp d then high_count (mp_Path mp) m + 1 else 0)"
    using checkDisk_effect [OF e refl] g by (simp_all add: counts_mount_def next_count_def)
qed

definition high_stretch :: "DiskMonitorConfig \<Rightarrow> MountPointConfig \<Rightarrow> disk_env list \<Rightarrow> nat" where
  "high_stretch c mp = stretch (mount_readable c mp) (mount_high c mp)"

lemma high_stretch_snoc: "mount_critical c mp d \<Longrightarrow> high_stretch c mp (ds @ [d]) = Suc (high_stretch c mp ds)"
  by (auto simp: high_stretch_def stretch_snoc mount_high_def mount_critical_def mount_readable_def split: option.split_asm)

lemma NewDiskMonitor_fresh: "NewDiskMonitor parse mc = Inr m \<Longrightarrow> high_count p m = 0 \<and> dm_probeInFlight m = []"
  by (auto simp: NewDiskMonitor_def bindE_eq_Inr high_count_def gomap_get_def dest!: with_base_Inr)

section \<open>Examples\<close>

text \<open>One file system of 100 blocks, so many of them available, with its only mount point at the root.\<close>

definition demo_disk_env :: "64 word \<Rightarrow> disk_env" where
  "demo_disk_env available =
     \<lparr>de_sys = \<lparr>se_readFile = (\<lambda>_. Inr []), se_readDir = (\<lambda>_. Inl ''none''), se_parseFloat = (\<lambda>_. Inl ''none''),
        se_numCPU = 1, se_fl = (\<lambda>x. x), se_f1 = (\<lambda>_. []), se_f2 = (\<lambda>_. []), se_now = 1\<rparr>,
      de_statfs = (\<lambda>p. if p = ''/'' then StatfsOk \<lparr>fs_Blocks = 100, fs_BlocksFree = available, fs_BlocksAvail = available,
        fs_Files = 0, fs_FilesFree = 0, fs_BlockSize = 1, fs_Flags = 0\<rparr> else NoSuchMount),
      de_timestamp = None, de_probe = (\<lambda>_. ProbeDone None), de_durText = (\<lambda>_. [])\<rparr>"

definition demo_disk_config :: "string list \<Rightarrow> MonitorConfig" where
  "demo_disk_config probes = \<lparr>mc_Name = ''disk'', mc_Type = ''system-disk'', mc_Enabled = True, mc_IntervalString = ''30s'',
     mc_TimeoutString = ''10s'', mc_Interval = 30 * second, mc_Timeout = 10 * second,
     mc_Config = [(''mountPoints'', CVList [CVMap [(''path'', CVString ''/'')]]),
       (''writeProbePaths'', CVList (map CVString probes))],
     mc_Remediation = None, mc_DependsOn = []\<rparr>"

definition demo_disk_monitor :: "string list \<Rightarrow> DiskMonitor" where
  "demo_disk_monitor probes =
     \<lparr>dm_name = ''disk'',
      dm_baseMonitor = \<lparr>bm_name = ''disk'', bm_interval = 30 * second, bm_timeout = 10 * second, bm_hasCheck = True,
        bm_running = False, bm_stopped = False, bm_buffer = [], bm_closed = False, bm_signalled = False, bm_loops = [],
        bm_stopping = 0, bm_panicked = False\<rparr>,
      dm_config = \<lparr>dmc_MountPoints = [default_mount ''/''], dmc_SustainedHighDiskChecks = 3, dmc_CheckDiskSpace = True,
        dmc_CheckInodes = True, dmc_CheckReadonly = True, dmc_CheckIOHealth = True,
        dmc_DiskStatsPath = ''/proc/diskstats'', dmc_WriteProbePaths = probes, dmc_WriteProbeTimeout = 10 * second\<rparr>,
      dm_highDiskCount = [], dm_lastIOStats = [], dm_lastIOCheckTime = 0, dm_probeInFlight = []\<rparr>"

lemma demo_disk_made: "NewDiskMonitor (\<lambda>_. None) (demo_disk_config []) = Inr (demo_disk_monitor [])"
  by code_simp

lemma demo_disk_made_probe: "NewDiskMonitor (\<lambda>_. None) (demo_disk_config [''/data'']) = Inr (demo_disk_monitor [''/data''])"
  by code_simp

lemma demo_disk_usage:
  "mount_usage (dm_config (demo_disk_monitor ps)) (default_mount ''/'') (demo_disk_env a) =
     Some (of_nat (unat (100 - a)))"
  by (simp add: mount_usage_def demo_disk_env_def demo_disk_monitor_def default_mount_def parseDiskInfo_def Let_def
      percent_of_def float_of_def)

section \<open>Read-only file systems\<close>

definition mount_readonly :: "DiskMonitorConfig \<Rightarrow> disk_env \<Rightarrow> MountPointConfig \<Rightarrow> bool" where
  "mount_readonly c d mp \<longleftrightarrow> dmc_CheckReadonly c
     \<and> (case de_statfs d (mp_Path mp) of StatfsOk fs \<Rightarrow> and (fs_Flags fs) 1 \<noteq> 0 | _ \<Rightarrow> False)"

definition probe_fails :: "disk_env \<Rightarrow> DiskMonitor \<Rightarrow> string \<Rightarrow> bool" where
  "probe_fails d m dir \<longleftrightarrow> (\<exists>e. fst (writeProbe d dir m) = (True, Some e))"

definition probe_answers :: "disk_env \<Rightarrow> DiskMonitor \<Rightarrow> string \<Rightarrow> bool" where
  "probe_answers d m dir \<longleftrightarrow> fst (fst (writeProbe d dir m))"

definition readonly_says :: "string \<Rightarrow> status \<Rightarrow> bool" where
  "readonly_says v s \<longleftrightarrow> (\<exists>c\<in>set (st_Conditions s). cond_Type c = ''ReadonlyFilesystem'' \<and> cond_Status c = v)"

lemma readonly_says_simps [simp]:
  "\<not> readonly_says v (NewStatus now n)"
  "readonly_says v (add_event e sev reason msg s) \<longleftrightarrow> readonly_says v s"
  "readonly_says v (add_condition e t a b msg s) \<longleftrightarrow> readonly_says v s \<or> t = ''ReadonlyFilesystem'' \<and> a = v"
  by (auto simp: readonly_says_def)

lemma readonly_true_ex: "list_ex readonly_true (st_Conditions s) = readonly_says ConditionTrue s"
  by (auto simp: readonly_says_def readonly_true_def list_ex_iff)

lemma space_readonly [simp]:
  "checkDiskSpaceUsage e mp di (m, s) = (m', s') \<Longrightarrow> readonly_says v s' = readonly_says v s"
  by (auto simp: checkDiskSpaceUsage_def Let_def split: if_splits)

lemma inode_readonly [simp]: "readonly_says v (checkInodeUsage e mp di s) = readonly_says v s"
  by (simp add: checkInodeUsage_def Let_def)

lemma mount_part_readonly:
  assumes "mount_part d mp (m, s) = (m', s')" "dm_config m = c"
  shows "dm_config m' = c \<and> dm_probeInFlight m' = dm_probeInFlight m
    \<and> (readonly_says v s' \<longleftrightarrow> readonly_says v s \<or> v = ConditionTrue \<and> mount_readonly c d mp)"
proof -
  obtain e m1 s1 where k: "checkMountPoint d mp (m, s) = (e, m1, s1)" by (metis surj_pair)
  have sp: "dm_config w = dm_config m \<and> dm_probeInFlight w = dm_probeInFlight m"
    if "checkDiskSpaceUsage (de_sys d) mp di (m, s) = (w, t)" for di w t
    using that by (auto simp: checkDiskSpaceUsage_def Let_def split: if_splits)
  have "dm_config m1 = c \<and> dm_probeInFlight m1 = dm_probeInFlight m
    \<and> (readonly_says v s1 \<longleftrightarrow> readonly_says v s \<or> v = ConditionTrue \<and> mount_readonly c d mp)"
    using k assms(2) sp
    by (auto simp: checkMountPoint_def Let_def mount_readonly_def parseDiskInfo_def split: statfs_answer.split_asm
        if_splits prod.split_asm)
  moreover have "mount_readonly c d mp \<longrightarrow> dmc_CheckReadonly c" by (simp add: mount_readonly_def)
  ultimately show ?thesis
    using assms k by (cases e) (auto simp: mount_part_def run_part_def split: if_splits)
qed

lemma mounts_readonly:
  assumes "fold (mount_part d) mps (m, s) = (m', s')" "dm_config m = c"
  shows "dm_config m' = c \<and> dm_probeInFlight m' = dm_probeInFlight m
    \<and> (readonly_says v s' \<longleftrightarrow> readonly_says v s \<or> v = ConditionTrue \<and> (\<exists>mp\<in>set mps. mount_readonly c d mp))"
  using assms
proof (induction mps arbitrary: m s)
  case Nil
  then show ?case by simp
next
  case (Cons mp mps)
  obtain m1 s1 where k: "mount_part d mp (m, s) = (m1, s1)" by (metis surj_pair)
  note e = mount_part_readonly [OF k Cons.prems(2), of v]
  have "fold (mount_part d) mps (m1, s1) = (m', s')" using Cons.prems(1) k by simp
  from Cons.IH [OF this] e show ?case by auto
qed

text \<open>Probes of different directories do not disturb each other.\<close>

lemma writeProbe_cong:
  assumes "gomap_get False (dm_probeInFlight m1) dir = gomap_get False (dm_probeInFlight m) dir" "dm_config m1 = dm_config m"
  shows "probe_fails d m1 dir = probe_fails d m dir" "probe_answers d m1 dir = probe_answers d m dir"
  using assms by (auto simp: probe_fails_def probe_answers_def writeProbe_def split: probe_outcome.splits)

lemma probe_step_verdict:
  assumes "probe_step d dir ((f, n), m, s) = ((f', n'), m', s')"
  shows "(f' = [] \<longleftrightarrow> f = [] \<and> \<not> probe_fails d m dir) \<and> (n' = 0 \<longleftrightarrow> n = 0 \<and> \<not> probe_answers d m dir)
    \<and> (q \<noteq> dir \<longrightarrow> gomap_get False (dm_probeInFlight m') q = gomap_get False (dm_probeInFlight m) q)"
proof -
  obtain b r m1 where w: "writeProbe d dir m = ((b, r), m1)" by (metis surj_pair)
  have "q \<noteq> dir \<longrightarrow> gomap_get False (dm_probeInFlight m1) q = gomap_get False (dm_probeInFlight m) q"
    using w by (auto simp: writeProbe_def gomap_get_def update_conv' split: probe_outcome.split_asm if_splits)
  then show ?thesis
    using assms w by (cases b; cases r) (auto simp: probe_step_def probe_fails_def probe_answers_def Let_def)
qed

lemma probes_verdict:
  assumes "fold (probe_step d) dirs ((f, n), m, s) = ((f', n'), m', s')" "distinct dirs"
  shows "(f' = [] \<longleftrightarrow> f = [] \<and> (\<forall>dir\<in>set dirs. \<not> probe_fails d m dir))
    \<and> (n' = 0 \<longleftrightarrow> n = 0 \<and> (\<forall>dir\<in>set dirs. \<not> probe_answers d m dir))"
  using assms
proof (induction dirs arbitrary: f n m s)
  case Nil
  then show ?case by auto
next
  case (Cons dir dirs)
  obtain f1 n1 m1 s1 where k: "probe_step d dir ((f, n), m, s) = ((f1, n1), m1, s1)" by (metis surj_pair)
  note e = probe_step_verdict [OF k]
  have r: "fold (probe_step d) dirs ((f1, n1), m1, s1) = ((f', n'), m', s')" and dist: "distinct dirs" and fresh: "dir \<notin> set dirs"
    using Cons.prems k by simp_all
  have same: "probe_fails d m1 q = probe_fails d m q" "probe_answers d m1 q = probe_answers d m q" if "q \<in> set dirs" for q
    using writeProbe_cong [of m1 q m d] e [of q] probe_step_keeps(1) [OF k] fresh that by blast+
  show ?case using Cons.IH [OF r dist] same e [of dir] by auto
qed

lemma runWriteProbes_verdict:
  assumes "runWriteProbes d (m, s) = (m', s')" "paths = dmc_WriteProbePaths (dm_config m)" "distinct paths"
  shows "(readonly_says ConditionTrue s' \<longleftrightarrow> readonly_says ConditionTrue s \<or> (\<exists>dir\<in>set paths. probe_fails d m dir))
    \<and> (readonly_says ConditionFalse s' \<longleftrightarrow> readonly_says ConditionFalse s
        \<or> \<not> readonly_says ConditionTrue s' \<and> (\<exists>dir\<in>set paths. probe_answers d m dir))"
proof (cases "paths = []")
  case True
  then show ?thesis using assms(1,2) by (auto simp: runWriteProbes_def)
next
  case False
  obtain f n m1 s1 where k: "fold (probe_step d) paths (([], 0), m, s) = ((f, n), m1, s1)" by (metis surj_pair)
  note v = probes_verdict [OF k assms(3)]
  have same: "readonly_says w s1 = readonly_says w s" for w
    using probes_keep [OF k] by (simp add: readonly_says_def)
  have r: "(m', s') = (m1, if f \<noteq> [] then
        add_condition (de_sys d) ''ReadonlyFilesystem'' ConditionTrue ''WriteProbeFailed'' (join ''; '' f) s1
      else if n = 0 then s1 else if list_ex readonly_true (st_Conditions s1) then s1
      else add_condition (de_sys d) ''ReadonlyFilesystem'' ConditionFalse ''WriteProbeOK''
        (''Write probes succeeded on '' @ join '', '' (dmc_WriteProbePaths (dm_config m)) @ '' (create, write, fsync, unlink)'') s1)"
    using assms(1) k False by (simp add: runWriteProbes_def Let_def assms(2) [symmetric])
  have fails: "f \<noteq> [] \<longleftrightarrow> (\<exists>dir\<in>set paths. probe_fails d m dir)"
    and answers: "n \<noteq> 0 \<longleftrightarrow> (\<exists>dir\<in>set paths. probe_answers d m dir)"
    using v by auto
  have s': "readonly_says w s' \<longleftrightarrow> readonly_says w s \<or> w = ConditionTrue \<and> f \<noteq> []
      \<or> w = ConditionFalse \<and> f = [] \<and> n \<noteq> 0 \<and> \<not> readonly_says ConditionTrue s" for w
    using r by (auto simp: same readonly_true_ex)
  show ?thesis unfolding s' fails [symmetric] answers [symmetric] by auto
qed

text \<open>Mount points and probes report nothing about devices.\<close>

definition disk_reasons :: "string list" where
  "disk_reasons = [''DiskCheckFailed'', ''HighDiskUsage'', ''ElevatedDiskUsage'', ''HighInodeUsage'', ''ElevatedInodeUsage'',
     ''ReadonlyFilesystem'', ''WriteProbeFailed'']"

lemma checkMountPoint_quiet:
  assumes "checkMountPoint d mp (m, s) = (e, m', s')" "r \<notin> set disk_reasons"
  shows "lacks_event r s' = lacks_event r s \<and> dm_lastIOStats m' = dm_lastIOStats m"
proof -
  have sp: "lacks_event r t = lacks_event r s \<and> dm_lastIOStats w = dm_lastIOStats m"
    if "checkDiskSpaceUsage (de_sys d) mp di (m, s) = (w, t)" for di w t
    using that assms(2) by (auto simp: checkDiskSpaceUsage_def Let_def disk_reasons_def split: if_splits)
  have ino: "lacks_event r (checkInodeUsage (de_sys d) mp di t) = lacks_event r t" for di t
    using assms(2) by (auto simp: checkInodeUsage_def Let_def disk_reasons_def)
  show ?thesis
    using assms sp by (auto simp: checkMountPoint_def Let_def ino disk_reasons_def split: statfs_answer.split_asm
        if_splits prod.split_asm)
qed

lemma fold_keeps_quiet_mounts:
  assumes "fold (mount_part d) mps (m, s) = (m', s')" "r \<notin> set disk_reasons"
  shows "lacks_event r s' = lacks_event r s \<and> dm_lastIOStats m' = dm_lastIOStats m"
  using assms(1)
proof (induction mps arbitrary: m s)
  case Nil
  then show ?case by simp
next
  case (Cons mp mps)
  obtain m1 s1 where k: "mount_part d mp (m, s) = (m1, s1)" by (metis surj_pair)
  obtain e m2 s2 where c: "checkMountPoint d mp (m, s) = (e, m2, s2)" by (metis surj_pair)
  have "lacks_event r s1 = lacks_event r s \<and> dm_lastIOStats m1 = dm_lastIOStats m"
    using checkMountPoint_quiet [OF c assms(2)] k c assms(2)
    by (cases e) (auto simp: mount_part_def run_part_def Let_def disk_reasons_def split: if_splits)
  then show ?case using Cons.IH [of m1 s1] Cons.prems k by simp
qed

lemma probe_step_quiet:
  assumes "r \<notin> set disk_reasons" "probe_step d dir (a, m, s) = (a', m', s')"
  shows "lacks_event r s' = lacks_event r s \<and> dm_lastIOStats m' = dm_lastIOStats m"
proof -
  obtain b e m1 where w: "writeProbe d dir m = ((b, e), m1)" by (metis surj_pair)
  have "dm_lastIOStats m1 = dm_lastIOStats m"
    using w by (auto simp: writeProbe_def split: probe_outcome.split_asm if_splits)
  then show ?thesis
    using assms w by (cases a; cases b; cases e) (auto simp: probe_step_def Let_def disk_reasons_def)
qed

lemma runWriteProbes_quiet:
  assumes "runWriteProbes d (m, s) = (m', s')" "r \<notin> set disk_reasons"
  shows "lacks_event r s' = lacks_event r s \<and> dm_lastIOStats m' = dm_lastIOStats m"
proof -
  let ?ok = "\<lambda>x. lacks_event r (snd (snd x)) = lacks_event r s \<and> dm_lastIOStats (fst (snd x)) = dm_lastIOStats m"
  have step: "?ok (probe_step d dir x)" if "?ok x" for dir x
    using probe_step_quiet [OF assms(2), of d dir "fst x" "fst (snd x)" "snd (snd x)"] that by (cases "probe_step d dir x") auto
  have "?ok (fold (probe_step d) dirs x)" if "?ok x" for dirs x
    using that by (induction dirs arbitrary: x) (simp_all add: step)
  then have f: "?ok (fold (probe_step d) dirs (([], 0), m, s))" for dirs by simp
  show ?thesis
  proof (cases "dmc_WriteProbePaths (dm_config m) = []")
    case True
    then show ?thesis using assms(1) by (simp add: runWriteProbes_def)
  next
    case False
    obtain g n m1 s1 where k: "fold (probe_step d) (dmc_WriteProbePaths (dm_config m)) (([], 0), m, s) = ((g, n), m1, s1)"
      by (metis surj_pair)
    have "m' = m1 \<and> lacks_event r s' = lacks_event r s1"
      using assms(1) k False by (cases "g = []"; cases "n = 0"; cases "list_ex readonly_true (st_Conditions s1)")
        (auto simp: runWriteProbes_def Let_def)
    then show ?thesis using f [of "dmc_WriteProbePaths (dm_config m)"] k by simp
  qed
qed

section \<open>Properties\<close>

text \<open>
  C27. Disk pressure after sustained usage: for a monitor made from its configuration, with space checks on
  and mount points of different paths, after any history of checks, a check reports \<^verbatim>\<open>DiskPressure\<close> as true exactly
  when some mount point is at or above its critical threshold in this check and this ends a row of at least
  \<^verbatim>\<open>sustainedHighDiskChecks\<close> readings of it at or above its \<^emph>\<open>warning\<close> threshold: one critical reading is
  enough after elevated ones. Checks in which the mount point could not be read, or was read-only, neither
  count nor interrupt the row, and mount points do not influence each other.
\<close>

theorem disk_pressure_exactly_sustained:
  assumes "NewDiskMonitor parse mc = Inr m" "c = dm_config m" "dmc_CheckDiskSpace c"
    "distinct (map mp_Path (dmc_MountPoints c))" "checkDisk d (disk_checks ds m) = (m', s)"
  shows "disk_pressure s \<longleftrightarrow> (\<exists>mp\<in>set (dmc_MountPoints c). mount_critical c mp d
    \<and> dmc_SustainedHighDiskChecks c \<le> int (high_stretch c mp (ds @ [d])))"
proof -
  have run: "dm_config (disk_checks ds m) = c \<and> high_count (mp_Path mp) (disk_checks ds m) = int (high_stretch c mp ds)"
    if "mp \<in> set (dmc_MountPoints c)" for mp
    using space.count_run [of m c mp ds] NewDiskMonitor_fresh [OF assms(1)] assms(2,3,4) that
    by (simp add: disk_checks_def high_stretch_def counts_mount_def)
  have config: "dm_config (fold disk_step es m) = c" for es
  proof (induction es rule: rev_induct)
    case Nil
    then show ?case by (simp add: assms(2))
  next
    case (snoc e es)
    obtain w t where k: "checkDisk e (fold disk_step es m) = (w, t)" by (metis surj_pair)
    then have "fold disk_step (es @ [e]) m = w" by (simp add: disk_step_def [of e])
    then show ?case using checkDisk_effect [OF k snoc [symmetric] assms(3,4)] by simp
  qed
  have "disk_pressure s \<longleftrightarrow> (\<exists>mp\<in>set (dmc_MountPoints c). mount_fires c mp d (high_count (mp_Path mp) (disk_checks ds m)))"
    using checkDisk_effect [OF assms(5) _ assms(3,4)] config [of ds] by (simp add: disk_checks_def)
  then show ?thesis
    using run high_stretch_snoc by (force simp: mount_fires_def)
qed

theorem disk_pressure_exactly_sustained_witness:
  "\<exists>m' s. checkDisk (demo_disk_env 4) (disk_checks [demo_disk_env 10, demo_disk_env 10] (demo_disk_monitor [])) = (m', s)
     \<and> disk_pressure s"
proof -
  let ?c = "dm_config (demo_disk_monitor [])" and ?p = "default_mount ''/''"
  obtain m' s where k: "checkDisk (demo_disk_env 4) (disk_checks [demo_disk_env 10, demo_disk_env 10] (demo_disk_monitor [])) = (m', s)"
    by (metis surj_pair)
  have c: "dmc_MountPoints ?c = [?p]" "dmc_CheckDiskSpace ?c" "dmc_SustainedHighDiskChecks ?c = 3"
    by (simp_all add: demo_disk_monitor_def)
  have "mount_critical ?c ?p (demo_disk_env 4)"
    unfolding mount_critical_def demo_disk_usage by (simp add: default_mount_def)
  moreover have "mount_high ?c ?p (demo_disk_env 10)" "mount_readable ?c ?p (demo_disk_env a)" for a
    unfolding mount_high_def mount_readable_def demo_disk_usage by (simp_all add: default_mount_def)
  ultimately have "high_stretch ?c ?p ([demo_disk_env 10, demo_disk_env 10] @ [demo_disk_env 4]) = 3"
    "mount_critical ?c ?p (demo_disk_env 4)"
    by (simp_all add: high_stretch_def stretch_def mount_high_def)
  then show ?thesis
    using disk_pressure_exactly_sustained [OF demo_disk_made refl c(2) _ k] c k by auto
qed

text \<open>
  C31. The verdict on read-only file systems: a check reports \<^verbatim>\<open>ReadonlyFilesystem\<close> as true exactly when a
  mount point is read-only (and that is checked) or a write probe fails, by an error, by running out of time or because
  the probe of an earlier check is still blocked; it reports it as false exactly when nothing says it is true
  and some probe came to a verdict. So the probes never mask a file system mounted read-only, and a
  cancelled probe says nothing.
\<close>

theorem readonly_verdict:
  assumes "checkDisk d m = (m', s)" "c = dm_config m" "distinct (dmc_WriteProbePaths c)"
  shows "(readonly_says ConditionTrue s \<longleftrightarrow> (\<exists>mp\<in>set (dmc_MountPoints c). mount_readonly c d mp)
      \<or> (\<exists>dir\<in>set (dmc_WriteProbePaths c). probe_fails d m dir))
    \<and> (readonly_says ConditionFalse s \<longleftrightarrow> \<not> readonly_says ConditionTrue s
      \<and> (\<exists>dir\<in>set (dmc_WriteProbePaths c). probe_answers d m dir))"
proof -
  obtain m1 s1 m2 s2 s3 msg where p:
    "fold (mount_part d) (dmc_MountPoints c) (m, NewStatus (se_now (de_sys d)) (dm_name m)) = (m1, s1)"
    "runWriteProbes d (m1, s1) = (m2, s2)"
    "run_part (de_sys d) (dmc_CheckIOHealth c) ''IOHealthCheckFailed'' ''Failed to check I/O health: '' (checkIOHealth d) (m2, s2) = (m', s3)"
    "s = s3 \<or> s = add_condition (de_sys d) ''DiskHealthy'' ConditionTrue ''DiskHealthy'' msg s3"
    by (rule checkDisk_parts [OF assms(1,2)])
  note a = mounts_readonly [OF p(1) assms(2) [symmetric]]
  have paths: "dmc_WriteProbePaths c = dmc_WriteProbePaths (dm_config m1)" using a by simp
  have same: "probe_fails d m1 q = probe_fails d m q" "probe_answers d m1 q = probe_answers d m q" for q
    using writeProbe_cong [of m1 q m d] a assms(2) by simp_all
  have r: "readonly_says v s = readonly_says v s2" for v
    using io_part(3) [OF p(3)] p(4) by (auto simp: readonly_says_def)
  show ?thesis
    using runWriteProbes_verdict [OF p(2) paths assms(3)] a unfolding r same by auto
qed

theorem readonly_verdict_witness:
  "readonly_says ConditionTrue (snd (checkDisk ((demo_disk_env 50)\<lparr>de_probe := (\<lambda>_. ProbeTimedOut)\<rparr>) (demo_disk_monitor [''/data''])))"
proof -
  let ?d = "(demo_disk_env 50)\<lparr>de_probe := (\<lambda>_. ProbeTimedOut)\<rparr>" and ?m = "demo_disk_monitor [''/data'']"
  have p: "dmc_WriteProbePaths (dm_config ?m) = [''/data'']" by (simp add: demo_disk_monitor_def)
  have f: "probe_fails ?d ?m ''/data''"
    by (simp add: probe_fails_def writeProbe_def gomap_get_def demo_disk_monitor_def)
  show ?thesis
    using readonly_verdict [OF prod.collapse [symmetric, of "checkDisk ?d ?m"] refl] p f by simp
qed

text \<open>
  The utilisation of devices is never reported: as nothing puts a time stamp under the key \<^verbatim>\<open>timestamp\<close>
  into the context, the check of devices returns before it compares counters, so whatever the counters say, no
  check reports \<^verbatim>\<open>HighIOWait\<close> and the counters of the last check are never stored.
\<close>

lemma io_health_never_alerts:
  assumes "de_timestamp d = None" "checkDisk d m = (m', s)"
  shows "(\<forall>e\<in>set (st_Events s). ev_Reason e \<noteq> ''HighIOWait'') \<and> dm_lastIOStats m' = dm_lastIOStats m"
proof -
  let ?r = "''HighIOWait''"
  let ?ok = "\<lambda>ms. lacks_event ?r (snd ms) \<and> dm_lastIOStats (fst ms) = dm_lastIOStats m"
  obtain m1 s1 m2 s2 s3 msg where p:
    "fold (mount_part d) (dmc_MountPoints (dm_config m)) (m, NewStatus (se_now (de_sys d)) (dm_name m)) = (m1, s1)"
    "runWriteProbes d (m1, s1) = (m2, s2)"
    "run_part (de_sys d) (dmc_CheckIOHealth (dm_config m)) ''IOHealthCheckFailed'' ''Failed to check I/O health: '' (checkIOHealth d) (m2, s2) = (m', s3)"
    "s = s3 \<or> s = add_condition (de_sys d) ''DiskHealthy'' ConditionTrue ''DiskHealthy'' msg s3"
    by (rule checkDisk_parts [OF assms(2) refl])
  have a: "?ok (m1, s1)" using fold_keeps_quiet_mounts [OF p(1), of ?r] by (simp add: disk_reasons_def)
  have b: "?ok (m2, s2)" using runWriteProbes_quiet [OF p(2), of ?r] a by (simp add: disk_reasons_def)
  have "?ok (m', s3)"
    using p(3) b assms(1)
    by (auto simp: run_part_def checkIOHealth_def Let_def split: if_splits sum.split_asm)
  then show ?thesis using p(4) by (auto simp: lacks_event_def)
qed

end
