(* ===== verification/System_Alarm.thy ===== *)
theory System_Alarm
  imports System_Memory System_Disk HTTP_Report
begin

text \<open>
  What the reports to the controller say of the monitors of the host: a monitor's status becomes a health
  (\<^verbatim>\<open>convertMonitorStatus\<close>, which takes a condition that is false for a failure) and the conditions of all monitors go into one
  map by type (\<^verbatim>\<open>UpdateFromStatus\<close>).
\<close>

section \<open>Memory\<close>

lemma condition_status_distinct [simp]: "ConditionTrue \<noteq> ConditionUnknown" "ConditionFalse \<noteq> ConditionUnknown"
  by (simp_all add: severity_defs)

definition all_true :: "status \<Rightarrow> bool" where
  "all_true s \<longleftrightarrow> (\<forall>c\<in>set (st_Conditions s). cond_Status c = ConditionTrue)"

definition some_false :: "status \<Rightarrow> bool" where
  "some_false s \<longleftrightarrow> (\<exists>c\<in>set (st_Conditions s). cond_Status c = ConditionFalse)"

definition warns :: "status \<Rightarrow> bool" where
  "warns s \<longleftrightarrow> (\<exists>e\<in>set (st_Events s). ev_Severity e \<in> {EventError, EventWarning})"

lemma health_of_status:
  "some_false s \<Longrightarrow> ms_Status (convertMonitorStatus a s) = HealthStatusCritical"
  "all_true s \<Longrightarrow> warns s \<Longrightarrow> ms_Status (convertMonitorStatus a s) = HealthStatusDegraded"
  by (auto simp: convertMonitorStatus_health some_false_def all_true_def warns_def)

lemma usage_verdict:
  assumes "checkMemoryUsage v (m, s) = (e, m', s')" "readable (mm_config m) v"
  shows "(critical_reading (mm_config m) v \<longrightarrow> warns s' \<and> (all_true s \<longrightarrow> all_true s'))
    \<and> (\<not> critical_reading (mm_config m) v \<longrightarrow> some_false s')"
proof -
  obtain mi where mi: "parseMemInfo v (mmc_MemInfoPath (mm_config m)) = Inr mi"
    using assms(2) by (auto simp: readable_def)
  have r: "critical_reading (mm_config m) v \<longleftrightarrow> mmc_CriticalThreshold (mm_config m) \<le> memory_percent v mi"
    using mi by (auto simp: critical_reading_def)
  show ?thesis
    using assms(1) mi parseMemInfo_total [OF mi] r
    by (auto simp: checkMemoryUsage_def Let_def warns_def all_true_def some_false_def split: if_splits)
qed

lemma swap_warns: "checkSwapUsage v (m, s) = (e, m', s') \<Longrightarrow> warns s \<Longrightarrow> warns s'"
  by (auto simp: checkSwapUsage_def Let_def warns_def split: sum.splits if_splits)

lemma oom_warns: "checkOOMKills v k (m, s) = (e, m', s') \<Longrightarrow> warns s \<Longrightarrow> warns s'"
  by (auto simp: checkOOMKills_def Let_def warn_once_def warns_def split: prod.splits option.splits kmsg_error.splits
      list.splits if_splits)

lemma part_keeps_verdict:
  assumes "run_part v b r t part (m, s) = (m', s')"
    "\<And>e m1 s1. part (m, s) = (e, m1, s1) \<Longrightarrow> st_Conditions s1 = st_Conditions s \<and> (warns s \<longrightarrow> warns s1)"
  shows "st_Conditions s' = st_Conditions s \<and> (warns s \<longrightarrow> warns s')"
proof -
  obtain e m1 s1 where k: "part (m, s) = (e, m1, s1)" by (metis surj_pair)
  show ?thesis
    using assms(1) assms(2) [OF k] k by (cases b; cases e) (auto simp: run_part_def warns_def)
qed

text \<open>
  C29. The health reported to the controller for the memory monitor is the wrong way round: whenever memory
  usage is checked and could be read, the report says \<^verbatim>\<open>critical\<close> exactly when usage is below the critical threshold, and
  \<^verbatim>\<open>degraded\<close> when it is at or above it, whether or not that has become memory pressure.
\<close>

theorem memory_health_is_inverted:
  assumes "mmc_CheckMemoryUsage (mm_config m)" "readable (mm_config m) v" "checkMemory v k m = (m', s)"
  shows "ms_Status (convertMonitorStatus asString s) =
    (if critical_reading (mm_config m) v then HealthStatusDegraded else HealthStatusCritical)"
proof -
  let ?c = "mm_config m" and ?s0 = "NewStatus (se_now v) (mm_name m)"
  obtain e1 m1 s1 where u: "checkMemoryUsage v (m, ?s0) = (e1, m1, s1)" by (metis surj_pair)
  obtain m1' s1' where p1: "run_part v True ''MemoryCheckFailed'' ''Failed to check memory usage: '' (checkMemoryUsage v) (m, ?s0) = (m1', s1')"
    by (metis surj_pair)
  obtain m2 s2 where p2: "run_part v (mmc_CheckSwapUsage ?c) ''SwapCheckFailed'' ''Failed to check swap usage: '' (checkSwapUsage v) (m1', s1') = (m2, s2)"
    by (metis surj_pair)
  obtain m3 s3 where p3: "run_part v (mmc_CheckOOMKills ?c) ''OOMCheckFailed'' ''Failed to check OOM kills: '' (checkOOMKills v k) (m2, s2) = (m3, s3)"
    by (metis surj_pair)
  have v1: "(critical_reading ?c v \<longrightarrow> warns s1' \<and> all_true s1') \<and> (\<not> critical_reading ?c v \<longrightarrow> some_false s1')"
    using usage_verdict [OF u assms(2)] p1 u
    by (cases e1) (auto simp: run_part_def warns_def all_true_def some_false_def)
  have v2: "st_Conditions s2 = st_Conditions s1' \<and> (warns s1' \<longrightarrow> warns s2)"
    by (rule part_keeps_verdict [OF p2]) (simp add: swap_part(2) swap_warns)
  have v3: "st_Conditions s3 = st_Conditions s2 \<and> (warns s2 \<longrightarrow> warns s3)"
    by (rule part_keeps_verdict [OF p3]) (simp add: oom_part(4) oom_warns)
  have "s = (if st_Events s3 = [] then add_condition v ''MemoryHealthy'' ConditionTrue ''MemoryHealthy'' ''Memory is operating normally'' s3 else s3)"
    using assms(1,3) p1 p2 p3 by (simp add: checkMemory_def Let_def)
  then have "(some_false s3 \<longrightarrow> some_false s) \<and> (warns s3 \<and> all_true s3 \<longrightarrow> warns s \<and> all_true s)"
    by (auto simp: some_false_def warns_def all_true_def)
  then show ?thesis
    using v1 v2 v3 health_of_status [of s asString] by (auto simp: some_false_def all_true_def)
qed

theorem memory_health_is_inverted_witness:
  "ms_Status (convertMonitorStatus (\<lambda>_. None) (snd (checkMemory (demo_memory_env ''4'') (demo_kmsg []) demo_memory_monitor)))
     = HealthStatusDegraded"
proof -
  have "readable (mm_config demo_memory_monitor) (demo_memory_env ''4'')"
    using demo_critical by (auto simp: critical_reading_def readable_def)
  then show ?thesis
    using memory_health_is_inverted [OF _ _ prod.collapse [symmetric], of demo_memory_monitor "demo_memory_env ''4''" "\<lambda>_. None" "demo_kmsg []"]
      demo_critical
    by (simp add: demo_memory_monitor_def)
qed

section \<open>Disk pressure\<close>

text \<open>The condition a report shows under a type is the last one of that type in the status it was given last.\<close>

fun last_of_type :: "string \<Rightarrow> condition list \<Rightarrow> condition option" where
  "last_of_type t [] = None"
| "last_of_type t (c # cs) =
     (case last_of_type t cs of Some x \<Rightarrow> Some x | None \<Rightarrow> if cond_Type c = t then Some c else None)"

lemma last_of_type_append: "last_of_type t (xs @ ys) =
    (case last_of_type t ys of Some x \<Rightarrow> Some x | None \<Rightarrow> last_of_type t xs)"
  by (induction xs) (simp_all split: option.split)

lemma last_of_type_other: "\<forall>c\<in>set xs. cond_Type c \<noteq> t \<Longrightarrow> last_of_type t xs = None"
  by (induction xs) simp_all

lemma reported_fold:
  "map_of (fold (\<lambda>c. AList.update (cond_Type c) (convertCondition now c)) cs l) t =
     (case last_of_type t cs of Some c \<Rightarrow> Some (convertCondition now c) | None \<Rightarrow> map_of l t)"
  by (induction cs arbitrary: l) (simp_all add: update_conv' split: option.split)

lemma reported_condition:
  "map_of (rb_conditions (UpdateFromStatus a now (Some st) rb)) t =
     (case last_of_type t (st_Conditions st) of Some c \<Rightarrow> Some (convertCondition now c)
      | None \<Rightarrow> map_of (rb_conditions rb) t)"
  by (simp add: UpdateFromStatus_def reported_fold)

abbreviation last_pressure :: "status \<Rightarrow> condition option" where
  "last_pressure s \<equiv> last_of_type ''DiskPressure'' (st_Conditions s)"

text \<open>A mount point that can be read adds exactly one such condition; the other parts add none.\<close>

lemma space_condition:
  assumes "checkDiskSpaceUsage v mp di (m, s) = (m', s')"
  shows "map_option cond_Status (last_pressure s') = Some (if mp_CriticalThreshold mp \<le> di_UsagePercent di
     \<and> dmc_SustainedHighDiskChecks (dm_config m) \<le> high_count (mp_Path mp) m + 1 then ConditionTrue else ConditionFalse)"
  using assms
  by (auto simp: checkDiskSpaceUsage_def Let_def high_count_def last_of_type_append split: if_splits)

lemma inode_last [simp]: "last_pressure (checkInodeUsage v mp di s) = last_pressure s"
  by (simp add: checkInodeUsage_def Let_def last_of_type_append)

lemma mount_last:
  assumes "mount_part d mp (m, s) = (m', s')" "dm_config m = c" "dmc_CheckDiskSpace c" "mount_readable c mp d"
  obtains x where "last_pressure s' = Some x"
    "cond_Status x = (if mount_fires c mp d (high_count (mp_Path mp) m) then ConditionTrue else ConditionFalse)"
proof -
  obtain u where u: "mount_usage c mp d = Some u" using assms(4) by (auto simp: mount_readable_def)
  then obtain fs where fs: "de_statfs d (mp_Path mp) = StatfsOk fs"
    by (auto simp: mount_usage_def split: statfs_answer.split_asm)
  let ?di = "parseDiskInfo (de_sys d) (mp_Path mp) fs"
  obtain m1 s1 where sp: "checkDiskSpaceUsage (de_sys d) mp ?di (m, s) = (m1, s1)" by (metis surj_pair)
  have ro: "\<not> (dmc_CheckReadonly c \<and> di_IsReadonly ?di)" and pc: "di_UsagePercent ?di = u"
    using u fs by (auto simp: mount_usage_def Let_def split: if_splits)
  obtain x where x: "last_pressure s1 = Some x"
    "cond_Status x = (if mp_CriticalThreshold mp \<le> u \<and> dmc_SustainedHighDiskChecks (dm_config m) \<le> high_count (mp_Path mp) m + 1
       then ConditionTrue else ConditionFalse)"
    using space_condition [OF sp] pc by auto
  have k: "checkMountPoint d mp (m, s) = (None, m1, if dmc_CheckInodes c then checkInodeUsage (de_sys d) mp ?di s1 else s1)"
    using fs ro sp assms(2,3) by (cases "dmc_CheckReadonly c"; cases "dmc_CheckInodes c") (simp_all add: checkMountPoint_def Let_def)
  have "last_pressure s' = last_pressure s1"
    using assms(1,2,3) k by (cases "dmc_CheckInodes c") (auto simp: mount_part_def run_part_def)
  then show ?thesis
    using that [of x] x u assms(2) by (simp add: mount_fires_def mount_critical_def)
qed

lemma probes_last:
  assumes "runWriteProbes d (m, s) = (m', s')"
  shows "last_pressure s' = last_pressure s"
proof (cases "dmc_WriteProbePaths (dm_config m) = []")
  case True
  then show ?thesis using assms by (simp add: runWriteProbes_def)
next
  case False
  obtain f n m1 s1 where k: "fold (probe_step d) (dmc_WriteProbePaths (dm_config m)) (([], 0), m, s) = ((f, n), m1, s1)"
    by (metis surj_pair)
  have "st_Conditions s1 = st_Conditions s" using probes_keep [OF k] by simp
  then show ?thesis
    using assms k False by (cases "f = []"; cases "n = 0"; cases "list_ex readonly_true (st_Conditions s1)")
      (auto simp: runWriteProbes_def Let_def last_of_type_append)
qed

text \<open>A mount point that cannot be read adds no such condition.\<close>

lemma unreadable_mount:
  assumes "mount_part d mp (m, s) = (m', s')" "\<not> mount_readable (dm_config m) mp d"
  shows "last_pressure s' = last_pressure s"
proof (cases "de_statfs d (mp_Path mp)")
  case (StatfsOk fs)
  with assms(2) have "dmc_CheckReadonly (dm_config m) \<and> di_IsReadonly (parseDiskInfo (de_sys d) (mp_Path mp) fs)"
    by (simp add: mount_readable_def mount_usage_def Let_def split: if_splits)
  with assms(1) StatfsOk show ?thesis
    by (auto simp: mount_part_def run_part_def checkMountPoint_def Let_def last_of_type_append)
qed (use assms(1) in \<open>auto simp: mount_part_def run_part_def checkMountPoint_def Let_def last_of_type_append split: if_splits\<close>)

lemma unreadable_mounts:
  assumes "fold (mount_part d) mps (m, s) = (m', s')" "dm_config m = c" "dmc_CheckDiskSpace c"
    "\<forall>mp\<in>set mps. \<not> mount_readable c mp d"
  shows "last_pressure s' = last_pressure s"
  using assms
proof (induction mps arbitrary: m s)
  case (Cons mp mps)
  obtain m1 s1 where one: "mount_part d mp (m, s) = (m1, s1)" by (metis surj_pair)
  then have rest: "fold (mount_part d) mps (m1, s1) = (m', s')" using Cons.prems(1) by simp
  have "dm_config m1 = c" using mount_part_effect [OF one Cons.prems(2,3)] by simp
  from Cons.IH [OF rest this Cons.prems(3)] Cons.prems(2,4) unreadable_mount [OF one] show ?case by simp
qed simp

text \<open>
  C30. Only the last mount point that can be read counts in a report. A mount point can be read when its file system answers
  and it is not reported as read-only instead. After a check of mount points of different paths, the condition \<^verbatim>\<open>DiskPressure\<close> that
  the report to the controller shows is true exactly when the last of those that can be read
  is under sustained pressure, whatever the earlier ones reported: the conditions of all mount
  points have the same type and overwrite each other, so a full disk is hidden by a healthy one after it. When none can be read, the
  report keeps the verdict it had, however old.
\<close>

theorem last_mount_hides_pressure:
  assumes "c = dm_config m" "distinct (map mp_Path (dmc_MountPoints c))" "dmc_CheckDiskSpace c" "checkDisk d m = (m', s)"
  shows "let readable = filter (\<lambda>mp. mount_readable c mp d) (dmc_MountPoints c);
             reported = map_of (rb_conditions (UpdateFromStatus asString now (Some s) rb)) ''DiskPressure''
         in if readable = [] then reported = map_of (rb_conditions rb) ''DiskPressure''
            else map_option nc_Status reported = Some (if mount_fires c (last readable) d (high_count (mp_Path (last readable)) m)
              then ConditionTrue else ConditionFalse)"
proof -
  let ?ok = "\<lambda>mp. mount_readable c mp d" and ?s0 = "NewStatus (se_now (de_sys d)) (dm_name m)"
  obtain m1 s1 m2 s2 s3 msg where p:
    "fold (mount_part d) (dmc_MountPoints c) (m, ?s0) = (m1, s1)"
    "runWriteProbes d (m1, s1) = (m2, s2)"
    "run_part (de_sys d) (dmc_CheckIOHealth c) ''IOHealthCheckFailed'' ''Failed to check I/O health: '' (checkIOHealth d) (m2, s2) = (m', s3)"
    "s = s3 \<or> s = add_condition (de_sys d) ''DiskHealthy'' ConditionTrue ''DiskHealthy'' msg s3"
    by (rule checkDisk_parts [OF assms(4,1)])
  have same: "last_pressure s = last_pressure s1"
    using p(4) io_part(3) [OF p(3)] probes_last [OF p(2)] by (auto simp: last_of_type_append)
  show ?thesis
  proof (cases "filter ?ok (dmc_MountPoints c) = []")
    case True
    then have "\<forall>mp\<in>set (dmc_MountPoints c). \<not> ?ok mp" by (simp add: filter_empty_conv)
    from unreadable_mounts [OF p(1) assms(1) [symmetric] assms(3) this] True same show ?thesis
      by (simp add: reported_condition NewStatus_def)
  next
    case False
    then obtain mps mp rest where split: "dmc_MountPoints c = mps @ mp # rest" "?ok mp" "\<forall>x\<in>set rest. \<not> ?ok x"
      using split_list_last_prop [of "dmc_MountPoints c" ?ok] by (auto simp: filter_empty_conv)
    have "filter ?ok rest = []" using split(3) by (simp add: filter_empty_conv)
    then have last: "last (filter ?ok (dmc_MountPoints c)) = mp" using split(1,2) by simp
    obtain m0 s0 where a: "fold (mount_part d) mps (m, ?s0) = (m0, s0)" by (metis surj_pair)
    obtain m5 s5 where b: "mount_part d mp (m0, s0) = (m5, s5)" by (metis surj_pair)
    have r: "fold (mount_part d) rest (m5, s5) = (m1, s1)" using p(1) split(1) a b by simp
    have "distinct (map mp_Path mps)" and fresh: "mp_Path mp \<notin> mp_Path ` set mps" using assms(2) split(1) by auto
    note e = mounts_effect [OF a assms(1) [symmetric] assms(3) this(1)]
    obtain x where x: "last_pressure s5 = Some x"
      "cond_Status x = (if mount_fires c mp d (high_count (mp_Path mp) m0) then ConditionTrue else ConditionFalse)"
      using mount_last [OF b _ assms(3) split(2)] e by metis
    have "dm_config m5 = c" using mount_part_effect [OF b _ assms(3)] e by simp
    from unreadable_mounts [OF r this assms(3) split(3)] same x(1) have "last_pressure s = Some x" by simp
    then show ?thesis
      using x(2) e fresh False last by (simp add: reported_condition convertCondition_def)
  qed
qed

text \<open>Three mount points: the first is full, the second nearly empty and the third does not exist.\<close>

definition demo_two_mounts :: DiskMonitor where
  "demo_two_mounts = (demo_disk_monitor [])\<lparr>dm_config := (dm_config (demo_disk_monitor []))
     \<lparr>dmc_MountPoints := [default_mount ''/'', default_mount ''/data'', default_mount ''/missing''], dmc_SustainedHighDiskChecks := 1\<rparr>\<rparr>"

definition demo_two_disks :: disk_env where
  "demo_two_disks = (demo_disk_env 2)\<lparr>de_statfs := (\<lambda>p. if p = ''/missing'' then NoSuchMount else
     StatfsOk \<lparr>fs_Blocks = 100, fs_BlocksFree = if p = ''/'' then 2 else 90, fs_BlocksAvail = if p = ''/'' then 2 else 90,
       fs_Files = 0, fs_FilesFree = 0, fs_BlockSize = 1, fs_Flags = 0\<rparr>)\<rparr>"

lemma demo_two_usage:
  "mount_usage (dm_config demo_two_mounts) (default_mount ''/'') demo_two_disks = Some 98"
  "mount_usage (dm_config demo_two_mounts) (default_mount ''/data'') demo_two_disks = Some 10"
  "mount_usage (dm_config demo_two_mounts) (default_mount ''/missing'') demo_two_disks = None"
  by (simp_all add: mount_usage_def demo_two_disks_def demo_disk_env_def demo_two_mounts_def demo_disk_monitor_def default_mount_def parseDiskInfo_def Let_def
      percent_of_def float_of_def)

theorem last_mount_hides_pressure_witness:
  "\<exists>m' s. checkDisk demo_two_disks demo_two_mounts = (m', s) \<and> disk_pressure s
     \<and> map_option nc_Status (map_of (rb_conditions (UpdateFromStatus (\<lambda>_. None) 1 (Some s)
         (NewReportBuilder 0 ''n1'' ''u'' ''v''))) ''DiskPressure'') = Some ConditionFalse"
proof -
  let ?c = "dm_config demo_two_mounts"
  obtain m' s where k: "checkDisk demo_two_disks demo_two_mounts = (m', s)" by (metis surj_pair)
  have c: "dmc_MountPoints ?c = [default_mount ''/'', default_mount ''/data'', default_mount ''/missing'']" "dmc_CheckDiskSpace ?c"
    "dmc_SustainedHighDiskChecks ?c = 1" "high_count p demo_two_mounts = 0" for p
    by (simp_all add: demo_two_mounts_def demo_disk_monitor_def high_count_def gomap_get_def)
  have dist: "distinct (map mp_Path (dmc_MountPoints ?c))" unfolding c by (simp add: default_mount_def)
  have th: "mp_CriticalThreshold (default_mount p) = 95" for p by (simp add: default_mount_def)
  have "disk_pressure s"
    using checkDisk_effect [OF k refl c(2) dist] c by (simp add: mount_fires_def mount_critical_def demo_two_usage th)
  moreover have "\<not> mount_fires ?c (default_mount ''/data'') demo_two_disks n" for n
    by (simp add: mount_fires_def mount_critical_def demo_two_usage th)
  moreover have "filter (\<lambda>mp. mount_readable ?c mp demo_two_disks) (dmc_MountPoints ?c) = [default_mount ''/'', default_mount ''/data'']"
    by (simp add: c mount_readable_def demo_two_usage)
  ultimately show ?thesis
    using last_mount_hides_pressure [OF refl dist c(2) k, of "\<lambda>_. None" 1 "NewReportBuilder 0 ''n1'' ''u'' ''v''"] k by auto
qed

end
