(* ===== verification/Host_System.thy ===== *)
theory Host_System
  imports System_Common
begin

text \<open>
  \<^verbatim>\<open>pkg/util/system.go\<close>: what the monitors find out about the host: containers, systemd units, processes,
  container runtimes, versions and the distribution.

  The host is an argument (\<open>sysinfo\<close>): which paths exist, the contents of files, the directory \<^verbatim>\<open>/proc\<close>, environment
  variables, whether \<^verbatim>\<open>systemctl\<close> is in the path and what \<^verbatim>\<open>systemctl is-active\<close> prints and how it ends. The
  result of \<^verbatim>\<open>IsRunningInContainer\<close> is cached by the source; the cache is not modelled.
\<close>

section \<open>The host\<close>

text \<open>How a command ends: well, with a code other than zero, or without having run.\<close>

datatype run_end = RanOk | ExitCode | NotRun string

record sysinfo =
  si_exists :: "string \<Rightarrow> bool"
  si_readFile :: "string \<Rightarrow> string option"
  si_proc :: "string + (string \<times> bool) list"
  si_getenv :: "string \<Rightarrow> string"
  si_systemctl :: bool
  si_isActive :: "string \<Rightarrow> string \<times> run_end"

definition file_contains :: "sysinfo \<Rightarrow> string \<Rightarrow> string list \<Rightarrow> bool" where
  "file_contains v path words =
     (case si_readFile v path of None \<Rightarrow> False | Some text \<Rightarrow> list_ex (contains_str text) words)"

definition detectContainer :: "sysinfo \<Rightarrow> bool" where
  "detectContainer v \<longleftrightarrow>
     si_exists v ''/.dockerenv'' \<or> si_exists v ''/run/.containerenv''
     \<or> file_contains v ''/proc/1/cgroup'' [''docker'', ''containerd'', ''kubepods'', ''lxc'']
     \<or> file_contains v ''/proc/self/mountinfo'' [''/docker/'', ''/containerd/'', ''/kubepods/'']
     \<or> si_getenv v ''KUBERNETES_SERVICE_HOST'' \<noteq> []"

definition IsRunningInContainer :: "sysinfo \<Rightarrow> bool" where
  "IsRunningInContainer v = detectContainer v"

definition IsSystemctlAvailable :: "sysinfo \<Rightarrow> bool" where
  "IsSystemctlAvailable v = si_systemctl v"

section \<open>Units and processes\<close>

datatype service_error = SystemctlNotAvailable | ServiceNotFound | CommandFailed string

definition CheckSystemdServiceStatus :: "sysinfo \<Rightarrow> string \<Rightarrow> service_error + bool" where
  "CheckSystemdServiceStatus v name =
     (if \<not> IsSystemctlAvailable v then Inl SystemctlNotAvailable
      else case si_isActive v name of (output, ending) \<Rightarrow>
        let status = TrimSpace output in
        if ending = RanOk then Inr (status = ''active'')
        else if status \<in> {''inactive'', ''failed'', ''activating'', ''deactivating'', ''reloading''} then Inr False
        else if status = ''unknown'' then Inl ServiceNotFound
        else (case ending of NotRun e \<Rightarrow> Inl (CommandFailed e) | _ \<Rightarrow> Inr False))"

definition isNumeric :: "string \<Rightarrow> bool" where
  "isNumeric s \<longleftrightarrow> list_all is_digit s \<and> s \<noteq> []"

definition process_named :: "sysinfo \<Rightarrow> string \<Rightarrow> string \<Rightarrow> bool" where
  "process_named v name pid =
     (case si_readFile v (''/proc/'' @ pid @ ''/comm'') of None \<Rightarrow> False
      | Some comm \<Rightarrow>
          TrimSpace comm = name
          \<or> (case si_readFile v (''/proc/'' @ pid @ ''/cmdline'') of None \<Rightarrow> False | Some cmdline \<Rightarrow> contains_str cmdline name))"

definition process_matching :: "sysinfo \<Rightarrow> string \<Rightarrow> string \<Rightarrow> bool" where
  "process_matching v pat pid =
     (case si_readFile v (''/proc/'' @ pid @ ''/cmdline'') of None \<Rightarrow> False
      | Some cmdline \<Rightarrow> contains_str (map (\<lambda>c. if c = CHR 0x00 then CHR '' '' else c) cmdline) pat)"

definition any_process :: "sysinfo \<Rightarrow> (string \<Rightarrow> bool) \<Rightarrow> string + bool" where
  "any_process v P =
     (case si_proc v of Inl e \<Rightarrow> Inl e
      | Inr entries \<Rightarrow> Inr (list_ex (\<lambda>(pid, isDir). isDir \<and> isNumeric pid \<and> P pid) entries))"

definition CheckProcessRunning :: "sysinfo \<Rightarrow> string \<Rightarrow> string + bool" where
  "CheckProcessRunning v name = any_process v (process_named v name)"

definition CheckProcessRunningByPattern :: "sysinfo \<Rightarrow> string \<Rightarrow> string + bool" where
  "CheckProcessRunningByPattern v pat = any_process v (process_matching v pat)"

definition process_fallback :: "sysinfo \<Rightarrow> string list \<Rightarrow> bool \<times> string" where
  "process_fallback v names =
     (if list_ex (\<lambda>n. CheckProcessRunning v n = Inr True) names then (True, ''process'')
      else if list_ex (\<lambda>n. CheckProcessRunningByPattern v n = Inr True) names then (True, ''process-pattern'')
      else (False, ''process''))"

definition GetServiceStatus :: "sysinfo \<Rightarrow> string \<Rightarrow> string list \<Rightarrow> (bool \<times> string) \<times> service_error option" where
  "GetServiceStatus v name processes =
     (if IsSystemctlAvailable v then
        (case CheckSystemdServiceStatus v name of
           Inr active \<Rightarrow> ((active, ''systemd''), None)
         | Inl SystemctlNotAvailable \<Rightarrow> (process_fallback v processes, None)
         | Inl e \<Rightarrow> ((False, ''systemd''), Some e))
      else (process_fallback v processes, None))"

section \<open>Files and runtimes\<close>

definition ReadHostFile :: "sysinfo \<Rightarrow> (string \<Rightarrow> string \<Rightarrow> string) \<Rightarrow> string \<Rightarrow> string \<Rightarrow> string option" where
  "ReadHostFile v joinPath path hostMountPath =
     (case (if hostMountPath \<noteq> [] then si_readFile v (joinPath hostMountPath path) else None) of
        Some text \<Rightarrow> Some text
      | None \<Rightarrow> si_readFile v path)"

definition runtime_sockets :: "(string \<times> string) list" where
  "runtime_sockets =
     [(''containerd'', ''/run/containerd/containerd.sock''),
      (''containerd'', ''/var/run/containerd/containerd.sock''),
      (''cri-dockerd'', ''/var/run/cri-dockerd.sock''),
      (''cri-dockerd'', ''/run/cri-dockerd.sock''),
      (''docker'', ''/var/run/docker.sock''),
      (''docker'', ''/run/docker.sock''),
      (''crio'', ''/var/run/crio/crio.sock''),
      (''crio'', ''/run/crio/crio.sock''),
      (''k3s-containerd'', ''/run/k3s/containerd/containerd.sock'')]"

definition GetContainerRuntime :: "sysinfo \<Rightarrow> string \<times> string" where
  "GetContainerRuntime v =
     (case find (\<lambda>(_, socket). si_exists v socket) runtime_sockets of None \<Rightarrow> ([], []) | Some rt \<Rightarrow> rt)"

section \<open>Versions\<close>

text \<open>\<^verbatim>\<open>parseIntFromString\<close>: no text is the number 0; overflow wraps around.\<close>

fun parse_int_from :: "int \<Rightarrow> string \<Rightarrow> int option" where
  "parse_int_from n [] = Some n"
| "parse_int_from n (c # s) =
     (if is_digit c then parse_int_from (wrap64 (n * 10 + (int (of_char c) - 48))) s else None)"

definition parseIntFromString :: "string \<Rightarrow> int option" where
  "parseIntFromString s = parse_int_from 0 s"

definition TrimRightPlus :: "string \<Rightarrow> string" where
  "TrimRightPlus s = rev (dropWhile (\<lambda>c. c = CHR ''+'') (rev s))"

text \<open>Major, minor and patch, or nothing.\<close>

definition ParseKubernetesVersion :: "string \<Rightarrow> (int \<times> int \<times> int) option" where
  "ParseKubernetesVersion version =
     (let parts = split_on (\<lambda>c. c = CHR ''.'') (if has_prefix version ''v'' then drop 1 version else version) in
      case parts of
        maj # min' # rest \<Rightarrow>
          (case (parseIntFromString maj, parseIntFromString (TrimRightPlus min')) of
             (Some a, Some b) \<Rightarrow>
               let c = (case rest of [] \<Rightarrow> 0
                  | p # _ \<Rightarrow> let s = takeWhile is_digit p in
                      if s \<noteq> [] then (case parseIntFromString s of Some n \<Rightarrow> n | None \<Rightarrow> 0) else 0)
               in Some (a, b, c)
           | _ \<Rightarrow> None)
      | _ \<Rightarrow> None)"

section \<open>The distribution\<close>

definition DetectKubernetesDistribution :: "sysinfo \<Rightarrow> string" where
  "DetectKubernetesDistribution v =
     (let k3s = si_exists v ''/run/k3s/containerd/containerd.sock'' in
      if k3s \<and> si_exists v ''/var/lib/rancher/rke2'' then ''rke2''
      else if k3s \<and> si_exists v ''/var/lib/rancher/k3s'' then ''k3s''
      else if si_exists v ''/var/run/cri-dockerd.sock'' \<and> si_exists v ''/var/run/docker.sock''
        \<and> CheckProcessRunningByPattern v ''kubelet'' \<noteq> Inr True then ''rke1''
      else if IsSystemctlAvailable v \<and> CheckSystemdServiceStatus v ''kubelet'' = Inr True then ''standard''
      else if CheckProcessRunning v ''kubelet'' = Inr True then ''standard''
      else ''unknown'')"

text \<open>\<^verbatim>\<open>bufio.Scanner\<close> over lines: a line of 64 KiB or more ends the scan with an error; a carriage return at the end of a
  line is dropped.\<close>

definition raw_lines :: "string \<Rightarrow> string list" where
  "raw_lines s = (let ls = split_lines s in if last ls = [] then butlast ls else ls)"

definition drop_cr :: "string \<Rightarrow> string" where
  "drop_cr l = (if l \<noteq> [] \<and> last l = CHR 0x0D then butlast l else l)"

definition scan_lines :: "string \<Rightarrow> string list \<times> bool" where
  "scan_lines s = (map drop_cr (takeWhile (\<lambda>l. length l < 65536) (raw_lines s)), list_ex (\<lambda>l. 65536 \<le> length l) (raw_lines s))"

definition TrimQuotes :: "string \<Rightarrow> string" where
  "TrimQuotes s = rev (dropWhile (\<lambda>c. c = CHR 0x22) (rev (dropWhile (\<lambda>c. c = CHR 0x22) s)))"

definition os_release_line :: "string \<Rightarrow> (string, string) gomap \<Rightarrow> (string, string) gomap" where
  "os_release_line line m =
     (if line = [] \<or> has_prefix line ''#'' \<or> CHR ''='' \<notin> set line then m
      else AList.update (takeWhile (\<lambda>c. c \<noteq> CHR ''='') line) (TrimQuotes (tl (dropWhile (\<lambda>c. c \<noteq> CHR ''='') line))) m)"

definition GetOSRelease :: "sysinfo \<Rightarrow> ((string, string) gomap \<times> bool) option" where
  "GetOSRelease v =
     (case si_readFile v ''/etc/os-release'' of None \<Rightarrow> None
      | Some text \<Rightarrow> (case scan_lines text of (ls, failed) \<Rightarrow> Some (fold os_release_line ls [], failed)))"

section \<open>Lemmas\<close>

text \<open>Without \<^verbatim>\<open>systemctl\<close> the status is that of the processes, never an error.\<close>

lemma GetServiceStatus_without_systemctl:
  "\<not> IsSystemctlAvailable v \<Longrightarrow> GetServiceStatus v name ps = (process_fallback v ps, None)"
  by (simp add: GetServiceStatus_def)

lemma GetServiceStatus_never_unavailable: "snd (GetServiceStatus v name ps) \<noteq> Some SystemctlNotAvailable"
  by (auto simp: GetServiceStatus_def split: sum.split service_error.split)

end
