(* ===== verification/Kube_Common.thy ===== *)
theory Kube_Common
  imports Host_System Circuit_Breaker
begin

text \<open>
  What the monitors of \<^verbatim>\<open>pkg/monitors/kubernetes\<close> share: durations, integers and errors of their configuration maps.
  \<open>fl\<close> rounds to \<^verbatim>\<open>float64\<close>, \<open>parse\<close> is \<^verbatim>\<open>time.ParseDuration\<close>.
\<close>

datatype kube_config_error =
    BadField sys_config_error
  | BadDuration string string
  | InSection string kube_config_error
  | BadURL string url_fault
  | BadAuth auth_fault
  | BadBreaker cb_error
  | BadThreshold string int
  | BadTimeout string duration
  | BadChoice string string
  | Refused string
  and url_fault = NotURL string | NoScheme | OtherScheme string | NoHost
  and auth_fault = UnknownAuth string | MissingFile string string | MissingSetting string

definition in_field :: "sys_config_error + 'a \<Rightarrow> kube_config_error + 'a" where
  "in_field r = (case r of Inl e \<Rightarrow> Inl (BadField e) | Inr x \<Rightarrow> Inr x)"

definition in_section :: "string \<Rightarrow> kube_config_error + 'a \<Rightarrow> kube_config_error + 'a" where
  "in_section name r = (case r of Inl e \<Rightarrow> Inl (InSection name e) | Inr x \<Rightarrow> Inr x)"

text \<open>Go's conversion of a float to a 64-bit integer: truncation, and the smallest integer when it does not fit (amd64).\<close>

definition int64_of_float :: "float64 \<Rightarrow> int" where
  "int64_of_float x = (let n = (if 0 \<le> x then \<lfloor>x\<rfloor> else \<lceil>x\<rceil>) in if min_int64 \<le> n \<and> n \<le> max_int64 then n else min_int64)"

definition float_seconds :: "(rat \<Rightarrow> float64) \<Rightarrow> float64 \<Rightarrow> duration" where
  "float_seconds fl x = int64_of_float (fl (x * of_int second))"

definition parseDuration ::
  "(rat \<Rightarrow> float64) \<Rightarrow> (string \<Rightarrow> duration option) \<Rightarrow> string \<Rightarrow> cfg_value \<Rightarrow> kube_config_error + duration" where
  "parseDuration fl parse name x =
     (case x of
        CVString s \<Rightarrow> (case parse s of None \<Rightarrow> Inl (BadDuration name s) | Some d \<Rightarrow> Inr d)
      | CVFloat q \<Rightarrow> Inr (float_seconds fl q)
      | CVInt n \<Rightarrow> Inr (wrap64 (n * second))
      | _ \<Rightarrow> Inl (BadField (FieldKind name ''duration string or number'' x)))"

text \<open>A field with its default, when it is missing.\<close>

definition read_duration ::
  "(rat \<Rightarrow> float64) \<Rightarrow> (string \<Rightarrow> duration option) \<Rightarrow> duration \<Rightarrow> (string, cfg_value) gomap \<Rightarrow> string \<Rightarrow> kube_config_error + duration" where
  "read_duration fl parse zero m name =
     (case map_of m name of None \<Rightarrow> Inr zero | Some x \<Rightarrow> parseDuration fl parse name x)"

definition kube_int :: "int \<Rightarrow> (string, cfg_value) gomap \<Rightarrow> string \<Rightarrow> kube_config_error + int" where
  "kube_int zero m name = in_field (read_field int_value ''integer'' zero m name)"

definition kube_bool :: "bool \<Rightarrow> (string, cfg_value) gomap \<Rightarrow> string \<Rightarrow> kube_config_error + bool" where
  "kube_bool zero m name = in_field (read_field bool_value ''boolean'' zero m name)"

definition kube_string :: "string \<Rightarrow> (string, cfg_value) gomap \<Rightarrow> string \<Rightarrow> kube_config_error + string" where
  "kube_string zero m name = in_field (read_field string_value ''string'' zero m name)"

fun map_value :: "cfg_value \<Rightarrow> (string, cfg_value) gomap option" where
  "map_value (CVMap m) = Some m"
| "map_value _ = None"

text \<open>An optional object with a parser of its own.\<close>

definition read_section ::
  "((string, cfg_value) gomap \<Rightarrow> kube_config_error + 'a) \<Rightarrow> (string, cfg_value) gomap \<Rightarrow> string \<Rightarrow> kube_config_error + 'a option" where
  "read_section parser m name =
     (case map_of m name of None \<Rightarrow> Inr None
      | Some x \<Rightarrow> (case map_value x of
           None \<Rightarrow> Inl (BadField (FieldKind name ''object'' x))
         | Some sub \<Rightarrow> bindE (in_section name (parser sub)) (\<lambda>y. Inr (Some y))))"

definition kube_base :: "MonitorConfig \<Rightarrow> (BaseMonitor \<Rightarrow> 'm) \<Rightarrow> kube_config_error + 'm" where
  "kube_base mc mk = in_field (with_base mc mk)"

definition kube_head :: "string \<Rightarrow> MonitorConfig \<Rightarrow> kube_config_error option" where
  "kube_head ty mc =
     (if mc_Name mc = [] then Some (BadField NameMissing)
      else if mc_Type mc \<noteq> ty then Some (BadField (WrongType (mc_Type mc))) else None)"

text \<open>A status from the clock.\<close>

abbreviation add_event_at :: "time \<Rightarrow> string \<Rightarrow> string \<Rightarrow> string \<Rightarrow> status \<Rightarrow> status" where
  "add_event_at now sev reason msg \<equiv> AddEvent (NewEvent now sev reason msg)"

abbreviation add_condition_at :: "time \<Rightarrow> string \<Rightarrow> string \<Rightarrow> string \<Rightarrow> string \<Rightarrow> status \<Rightarrow> status" where
  "add_condition_at now ty st reason msg \<equiv> AddCondition (NewCondition now ty st reason msg)"

definition says :: "string \<Rightarrow> string \<Rightarrow> status \<Rightarrow> bool" where
  "says ty v s \<longleftrightarrow> (\<exists>c\<in>set (st_Conditions s). cond_Type c = ty \<and> cond_Status c = v)"

lemma says_simps [simp]:
  "\<not> says ty v (NewStatus now n)"
  "says ty v (AddEvent e s) \<longleftrightarrow> says ty v s"
  "says ty v (AddCondition c s) \<longleftrightarrow> says ty v s \<or> cond_Type c = ty \<and> cond_Status c = v"
  by (auto simp: says_def AddEvent_def AddCondition_def)

lemma says_same_conditions: "st_Conditions s = st_Conditions s' \<Longrightarrow> says ty v s = says ty v s'"
  by (simp add: says_def)

lemma True_not_False: "ConditionTrue \<noteq> ConditionFalse" "ConditionFalse \<noteq> ConditionTrue"
  by (simp_all add: severity_defs)

lemma kube_base_Inr: "kube_base mc mk = Inr m \<Longrightarrow> \<exists>b. m = mk b"
  unfolding kube_base_def in_field_def by (auto split: sum.split_asm dest: with_base_Inr)

end
