(* ===== verification/Kubelet_Monitor.thy ===== *)
theory Kubelet_Monitor
  imports Kube_Common
begin

text \<open>
  \<^verbatim>\<open>pkg/monitors/kubernetes/kubelet.go\<close>: the kubelet's health endpoint, its unit or process and the latency of its
  PLEG, with the circuit breaker of \<open>Circuit_Breaker\<close> in front.

  The world is an argument (\<open>kubelet_env\<close>): \<open>kv_parse\<close> is \<^verbatim>\<open>url.Parse\<close>, \<open>kv_print\<close> the text of a URL, \<open>kv_ip\<close>
  \<^verbatim>\<open>net.ParseIP\<close>, \<open>kv_send\<close> what the HTTP client answers to a request. A float that is not a number is a text
  that \<open>kv_parseFloat\<close> does not read: both are skipped by the source. An address is an IPv4 address when \<^verbatim>\<open>To4\<close> of it is not nil. The clock is
  read once for the events and conditions of a check, and a body is read whole or not at all. Lines of the log and the TLS settings are
  left out. The Prometheus metrics of the monitor are left out: the
  factory that is registered passes no registry, so the field is nil.
\<close>

section \<open>Configuration\<close>

record KubeletAuthConfig =
  ac_Type :: string
  ac_TokenFile :: string
  ac_BearerToken :: string
  ac_CertFile :: string
  ac_KeyFile :: string
  ac_InsecureSkipVerify :: bool

record KubeletMonitorConfig =
  kmc_HealthzURL :: string
  kmc_MetricsURL :: string
  kmc_CheckSystemdStatus :: bool
  kmc_CheckPLEG :: bool
  kmc_PLEGThreshold :: duration
  kmc_FailureThreshold :: int
  kmc_HTTPTimeout :: duration
  kmc_Auth :: "KubeletAuthConfig option"
  kmc_CircuitBreaker :: "CircuitBreakerConfig option"

text \<open>A parsed URL: scheme, host as written, host name and port, and the rest; what an address is.\<close>

record URL =
  url_Scheme :: string
  url_Host :: string
  url_Hostname :: string
  url_Port :: string
  url_Rest :: string

datatype ip_address = IPv4 "nat list" | IPv6 "nat list"

datatype kubelet_answer = Response int string | DialError string | Expired string | OtherError string

record http_request =
  hq_URL :: string
  hq_Authorization :: "string option"

record kubelet_env =
  kv_sys :: sysinfo
  kv_stat :: "string \<Rightarrow> string option"
  kv_readFile :: "string \<Rightarrow> string + string"
  kv_parse :: "string \<Rightarrow> string + URL"
  kv_print :: "URL \<Rightarrow> string"
  kv_ip :: "string \<Rightarrow> ip_address option"
  kv_send :: "http_request \<Rightarrow> kubelet_answer"
  kv_parseFloat :: "string \<Rightarrow> float64 option"
  kv_fl :: "rat \<Rightarrow> float64"
  kv_durText :: "duration \<Rightarrow> string"
  kv_now :: time
  kv_breaker :: "nat \<Rightarrow> time"

definition AuthConfig_validate :: "(string \<Rightarrow> string option) \<Rightarrow> KubeletAuthConfig \<Rightarrow> auth_fault option" where
  "AuthConfig_validate stat a =
     (if ac_Type a \<notin> {'''', ''none'', ''serviceaccount'', ''bearer'', ''certificate''} then Some (UnknownAuth (ac_Type a))
      else if ac_Type a = ''serviceaccount'' then
        (if ac_TokenFile a = [] then None
         else map_option (MissingFile (ac_TokenFile a)) (stat (ac_TokenFile a)))
      else if ac_Type a = ''bearer'' then
        (if ac_BearerToken a = [] then Some (MissingSetting ''bearerToken'') else None)
      else if ac_Type a = ''certificate'' then
        (if ac_CertFile a = [] then Some (MissingSetting ''certFile'')
         else if ac_KeyFile a = [] then Some (MissingSetting ''keyFile'')
         else case stat (ac_CertFile a) of Some e \<Rightarrow> Some (MissingFile (ac_CertFile a) e)
           | None \<Rightarrow> map_option (MissingFile (ac_KeyFile a)) (stat (ac_KeyFile a)))
      else None)"

definition parseAuthConfig :: "(string, cfg_value) gomap \<Rightarrow> kube_config_error + KubeletAuthConfig" where
  "parseAuthConfig m =
     bindE (kube_string [] m ''type'') (\<lambda>ty.
     bindE (kube_string [] m ''tokenFile'') (\<lambda>tf.
     bindE (kube_string [] m ''bearerToken'') (\<lambda>bt.
     bindE (kube_string [] m ''certFile'') (\<lambda>cf.
     bindE (kube_string [] m ''keyFile'') (\<lambda>kf.
     bindE (kube_bool False m ''insecureSkipVerify'') (\<lambda>sk.
       Inr \<lparr>ac_Type = ty, ac_TokenFile = tf, ac_BearerToken = bt, ac_CertFile = cf, ac_KeyFile = kf,
            ac_InsecureSkipVerify = sk\<rparr>))))))"

definition parseCircuitBreakerConfig ::
  "(rat \<Rightarrow> float64) \<Rightarrow> (string \<Rightarrow> duration option) \<Rightarrow> (string, cfg_value) gomap \<Rightarrow> kube_config_error + CircuitBreakerConfig" where
  "parseCircuitBreakerConfig fl parse m =
     bindE (kube_bool False m ''enabled'') (\<lambda>en.
     bindE (kube_int 0 m ''failureThreshold'') (\<lambda>ft.
     bindE (read_duration fl parse 0 m ''openTimeout'') (\<lambda>ot.
     bindE (kube_int 0 m ''halfOpenMaxRequests'') (\<lambda>ho.
     bindE (kube_bool False m ''useExponentialBackoff'') (\<lambda>eb.
     bindE (read_duration fl parse 0 m ''maxBackoffTimeout'') (\<lambda>mb.
       Inr \<lparr>cfg_Enabled = en, cfg_FailureThreshold = ft, cfg_OpenTimeout = ot, cfg_HalfOpenMaxRequests = ho,
            cfg_UseExponentialBackoff = eb, cfg_MaxBackoffTimeout = mb\<rparr>))))))"

definition parseKubeletConfig ::
  "(rat \<Rightarrow> float64) \<Rightarrow> (string \<Rightarrow> duration option) \<Rightarrow> (string, cfg_value) gomap \<Rightarrow> kube_config_error + KubeletMonitorConfig" where
  "parseKubeletConfig fl parse m =
     bindE (kube_string [] m ''healthzURL'') (\<lambda>hu.
     bindE (kube_string [] m ''metricsURL'') (\<lambda>mu.
     bindE (kube_bool False m ''checkSystemdStatus'') (\<lambda>sd.
     bindE (kube_bool False m ''checkPLEG'') (\<lambda>pl.
     bindE (read_duration fl parse 0 m ''plegThreshold'') (\<lambda>pt.
     bindE (kube_int 0 m ''failureThreshold'') (\<lambda>ft.
     bindE (read_duration fl parse 0 m ''httpTimeout'') (\<lambda>ht.
     bindE (read_section parseAuthConfig m ''auth'') (\<lambda>au.
     bindE (read_section (parseCircuitBreakerConfig fl parse) m ''circuitBreaker'') (\<lambda>cb.
       Inr \<lparr>kmc_HealthzURL = hu, kmc_MetricsURL = mu, kmc_CheckSystemdStatus = sd, kmc_CheckPLEG = pl,
            kmc_PLEGThreshold = pt, kmc_FailureThreshold = ft, kmc_HTTPTimeout = ht, kmc_Auth = au,
            kmc_CircuitBreaker = cb\<rparr>)))))))))"

definition validateKubeletURL :: "(string \<Rightarrow> string + URL) \<Rightarrow> string \<Rightarrow> string \<Rightarrow> kube_config_error option" where
  "validateKubeletURL parseURL u field =
     (case parseURL u of
        Inl e \<Rightarrow> Some (BadURL field (NotURL e))
      | Inr p \<Rightarrow>
          if url_Scheme p = [] then Some (BadURL field NoScheme)
          else if url_Scheme p \<noteq> ''http'' \<and> url_Scheme p \<noteq> ''https'' then Some (BadURL field (OtherScheme (url_Scheme p)))
          else if url_Host p = [] then Some (BadURL field NoHost)
          else None)"

definition kubelet_applyDefaults :: "kubelet_env \<Rightarrow> KubeletMonitorConfig \<Rightarrow> kube_config_error + KubeletMonitorConfig" where
  "kubelet_applyDefaults v c0 =
     (let c = c0\<lparr>kmc_HealthzURL := or_default [] ''http://127.0.0.1:10248/healthz'' (kmc_HealthzURL c0),
                kmc_MetricsURL := or_default [] ''http://127.0.0.1:10250/metrics'' (kmc_MetricsURL c0),
                kmc_PLEGThreshold := or_default 0 (5 * second) (kmc_PLEGThreshold c0),
                kmc_FailureThreshold := or_default 0 3 (kmc_FailureThreshold c0),
                kmc_HTTPTimeout := or_default 0 (5 * second) (kmc_HTTPTimeout c0)\<rparr>
      in checked
        [validateKubeletURL (kv_parse v) (kmc_HealthzURL c) ''healthzURL'',
         validateKubeletURL (kv_parse v) (kmc_MetricsURL c) ''metricsURL'',
         case kmc_Auth c of None \<Rightarrow> None | Some a \<Rightarrow> map_option BadAuth (AuthConfig_validate (kv_stat v) a)] c)"

section \<open>Requests\<close>

text \<open>\<^verbatim>\<open>addAuthHeader\<close>: the header to set, if any.\<close>

definition addAuthHeader :: "kubelet_env \<Rightarrow> KubeletAuthConfig option \<Rightarrow> string + string option" where
  "addAuthHeader v ao =
     (case ao of None \<Rightarrow> Inr None
      | Some a \<Rightarrow>
          if ac_Type a = ''none'' \<or> ac_Type a = [] then Inr None
          else if ac_Type a = ''serviceaccount'' then
            let file = or_default [] ''/var/run/secrets/kubernetes.io/serviceaccount/token'' (ac_TokenFile a) in
            (case kv_readFile v file of
               Inl e \<Rightarrow> Inl (''failed to read ServiceAccount token from '' @ file @ '': '' @ e)
             | Inr token \<Rightarrow> Inr (Some (''Bearer '' @ TrimSpace token)))
          else if ac_Type a = ''bearer'' then
            (if ac_BearerToken a = [] then Inl (''bearerToken is required for auth type '' @ [CHR 0x27] @ ''bearer'' @ [CHR 0x27])
             else Inr (Some (''Bearer '' @ ac_BearerToken a)))
          else if ac_Type a = ''certificate'' then Inr None
          else Inl (''unsupported authentication type: '' @ ac_Type a))"

definition is_loopback :: "ip_address \<Rightarrow> bool" where
  "is_loopback a = (case a of IPv4 bs \<Rightarrow> take 1 bs = [127] | IPv6 gs \<Rightarrow> gs = [0, 0, 0, 0, 0, 0, 0, 1])"

text \<open>The host name of a parsed URL has no port and no brackets.\<close>

definition isLoopbackHost :: "kubelet_env \<Rightarrow> string \<Rightarrow> bool" where
  "isLoopbackHost v h \<longleftrightarrow> h \<noteq> [] \<and> (to_lower h = ''localhost''
     \<or> (case kv_ip v h of None \<Rightarrow> False | Some a \<Rightarrow> is_loopback a))"

definition loopback_target :: "kubelet_env \<Rightarrow> string \<Rightarrow> string" where
  "loopback_target v h = (case kv_ip v h of Some (IPv6 _) \<Rightarrow> ''127.0.0.1'' | _ \<Rightarrow> ''::1'')"

definition loopbackFallbackURL :: "kubelet_env \<Rightarrow> string \<Rightarrow> string option" where
  "loopbackFallbackURL v raw =
     (case kv_parse v raw of
        Inl _ \<Rightarrow> None
      | Inr u \<Rightarrow>
          if \<not> isLoopbackHost v (url_Hostname u) then None
          else let t = loopback_target v (url_Hostname u);
                   h = (if t = ''::1'' then ''[::1]'' else t)
            in Some (kv_print v (u\<lparr>url_Host := (if url_Port u \<noteq> [] then h @ '':'' @ url_Port u else h),
                 url_Hostname := t\<rparr>)))"

definition isConnectionLevelError :: "kubelet_answer \<Rightarrow> bool" where
  "isConnectionLevelError r = (case r of DialError _ \<Rightarrow> True | _ \<Rightarrow> False)"

text \<open>The answer and the requests that were sent.\<close>

definition doRequestWithLoopbackFallback :: "kubelet_env \<Rightarrow> http_request \<Rightarrow> kubelet_answer \<times> http_request list" where
  "doRequestWithLoopbackFallback v q =
     (let r = kv_send v q in
      if \<not> isConnectionLevelError r then (r, [q])
      else case loopbackFallbackURL v (hq_URL q) of
        None \<Rightarrow> (r, [q])
      | Some u \<Rightarrow>
          (case kv_parse v u of Inl _ \<Rightarrow> (r, [q])
           | Inr _ \<Rightarrow> let q' = q\<lparr>hq_URL := u\<rparr> in (kv_send v q', [q, q'])))"

fun answer_error :: "kubelet_answer \<Rightarrow> string" where
  "answer_error (Response _ _) = []"
| "answer_error (DialError e) = e"
| "answer_error (Expired e) = e"
| "answer_error (OtherError e) = e"

definition kubelet_request ::
  "kubelet_env \<Rightarrow> KubeletMonitorConfig \<Rightarrow> string \<Rightarrow> string \<Rightarrow> (string + int \<times> string) \<times> http_request list" where
  "kubelet_request v c url what =
     (case kv_parse v url of
        Inl e \<Rightarrow> (Inl (''failed to create '' @ what @ '' request: '' @ e), [])
      | Inr _ \<Rightarrow>
          (case addAuthHeader v (kmc_Auth c) of
             Inl e \<Rightarrow> (Inl (''failed to add authentication header: '' @ e), [])
           | Inr h \<Rightarrow>
               (case doRequestWithLoopbackFallback v \<lparr>hq_URL = url, hq_Authorization = h\<rparr> of
                  (Response code body, t) \<Rightarrow> (Inr (code, body), t)
                | (r, t) \<Rightarrow> (Inl (what @ '' request failed: '' @ answer_error r), t))))"

definition CheckHealth :: "kubelet_env \<Rightarrow> KubeletMonitorConfig \<Rightarrow> string option \<times> http_request list" where
  "CheckHealth v c =
     (case kubelet_request v c (kmc_HealthzURL c) ''health check'' of
        (Inl e, t) \<Rightarrow> (Some e, t)
      | (Inr (code, _), t) \<Rightarrow>
          (if code \<noteq> 200 then Some (''health check returned status '' @ show_int code @ '', expected 200'') else None, t))"

section \<open>Metrics and the unit\<close>

definition pleg_line :: "kubelet_env \<Rightarrow> string \<Rightarrow> float64 \<Rightarrow> float64" where
  "pleg_line v line d =
     (if line = [] \<or> has_prefix line ''#'' then d
      else if has_prefix line ''kubelet_pleg_relist_duration_seconds{'' \<and> contains_str line ''quantile=''
      then (let fs = Fields line in
        if length fs < 2 then d
        else case kv_parseFloat v (last fs) of None \<Rightarrow> d
          | Some x \<Rightarrow> if x < 0 \<or> 3600 < x then d else if d < x then x else d)
      else d)"

definition parsePrometheusMetrics :: "kubelet_env \<Rightarrow> string \<Rightarrow> string + float64" where
  "parsePrometheusMetrics v text =
     (case scan_lines text of (ls, failed) \<Rightarrow>
        if failed then Inl ''error reading metrics: bufio.Scanner: token too long'' else Inr (fold (pleg_line v) ls 0))"

definition GetMetrics :: "kubelet_env \<Rightarrow> KubeletMonitorConfig \<Rightarrow> (string + float64) \<times> http_request list" where
  "GetMetrics v c =
     (case kubelet_request v c (kmc_MetricsURL c) ''metrics'' of
        (Inl e, t) \<Rightarrow> (Inl e, t)
      | (Inr (code, body), t) \<Rightarrow>
          (if code \<noteq> 200 then Inl (''metrics endpoint returned status '' @ show_int code @ '', expected 200'')
           else (case parsePrometheusMetrics v body of Inl e \<Rightarrow> Inl (''failed to parse metrics: '' @ e) | Inr d \<Rightarrow> Inr d), t))"

definition service_error_text :: "service_error \<Rightarrow> string" where
  "service_error_text e = (case e of SystemctlNotAvailable \<Rightarrow> ''systemctl is not available''
     | ServiceNotFound \<Rightarrow> ''service not found'' | CommandFailed t \<Rightarrow> t)"

definition kubelet_processes :: "string list" where
  "kubelet_processes = [''kubelet'', ''hyperkube'']"

definition CheckSystemdStatus :: "sysinfo \<Rightarrow> string + bool" where
  "CheckSystemdStatus v =
     (case GetServiceStatus v ''kubelet'' kubelet_processes of
        ((active, _), None) \<Rightarrow> Inr active
      | (_, Some SystemctlNotAvailable) \<Rightarrow>
          if list_ex (\<lambda>p. CheckProcessRunning v p = Inr True) kubelet_processes
            \<or> CheckProcessRunningByPattern v ''kubelet'' = Inr True then Inr True
          else Inl ''systemctl not available and no kubelet process found''
      | (_, Some e) \<Rightarrow> Inl (service_error_text e))"

section \<open>The monitor\<close>

record KubeletMonitor =
  km_name :: string
  km_config :: KubeletMonitorConfig
  km_circuitBreaker :: "CircuitBreaker option"
  km_consecutiveFailures :: int
  km_baseMonitor :: BaseMonitor

definition NewKubeletMonitor ::
  "kubelet_env \<Rightarrow> (string \<Rightarrow> duration option) \<Rightarrow> MonitorConfig \<Rightarrow> kube_config_error + KubeletMonitor" where
  "NewKubeletMonitor v parse mc =
     bindE (parseKubeletConfig (kv_fl v) parse (mc_Config mc)) (\<lambda>c0.
     bindE (kubelet_applyDefaults v c0) (\<lambda>c.
     bindE (case NewBaseMonitor (mc_Name mc) (mc_Interval mc) (mc_Timeout mc) of
              Inl e \<Rightarrow> Inl (BadField (BaseRefused e)) | Inr b \<Rightarrow> Inr b) (\<lambda>b.
     bindE (case kmc_CircuitBreaker c of
              Some cb \<Rightarrow> if cfg_Enabled cb then (case NewCircuitBreaker (Some cb) of Inl e \<Rightarrow> Inl (BadBreaker e) | Inr x \<Rightarrow> Inr (Some x))
                else Inr None
            | None \<Rightarrow> Inr None) (\<lambda>br.
       (case SetCheckFunc True b of
          (Some e, _) \<Rightarrow> Inl (BadField (BaseRefused e))
        | (None, b') \<Rightarrow> Inr \<lparr>km_name = mc_Name mc, km_config = c, km_circuitBreaker = br, km_consecutiveFailures = 0,
             km_baseMonitor = b'\<rparr>)))))"

definition ValidateKubeletConfig ::
  "kubelet_env \<Rightarrow> (string \<Rightarrow> duration option) \<Rightarrow> MonitorConfig \<Rightarrow> kube_config_error option" where
  "ValidateKubeletConfig v parse mc =
     (case kube_head ''kubernetes-kubelet-check'' mc of Some e \<Rightarrow> Some e
      | None \<Rightarrow>
          (case bindE (parseKubeletConfig (kv_fl v) parse (mc_Config mc)) (kubelet_applyDefaults v) of
             Inl e \<Rightarrow> Some e
           | Inr c \<Rightarrow> first_error
               [if kmc_FailureThreshold c < 1 then Some (BadThreshold ''failureThreshold'' (kmc_FailureThreshold c)) else None,
                if kmc_CheckPLEG c \<and> kmc_PLEGThreshold c \<le> 0 then Some (BadTimeout ''plegThreshold'' (kmc_PLEGThreshold c)) else None,
                if kmc_HTTPTimeout c \<le> 0 then Some (BadTimeout ''httpTimeout'' (kmc_HTTPTimeout c)) else None,
                case kmc_CircuitBreaker c of None \<Rightarrow> None
                | Some cb \<Rightarrow> if cfg_Enabled cb then map_option BadBreaker (cb_validate cb) else None]))"

section \<open>The check\<close>

definition kubelet_event :: "kubelet_env \<Rightarrow> string \<Rightarrow> string \<Rightarrow> string \<Rightarrow> status \<Rightarrow> status" where
  "kubelet_event v sev reason msg = add_event_at (kv_now v) sev reason msg"

definition kubelet_condition :: "kubelet_env \<Rightarrow> string \<Rightarrow> string \<Rightarrow> string \<Rightarrow> string \<Rightarrow> status \<Rightarrow> status" where
  "kubelet_condition v ty st reason msg = add_condition_at (kv_now v) ty st reason msg"

definition addCircuitBreakerMetrics :: "kubelet_env \<Rightarrow> CircuitBreaker \<Rightarrow> status \<Rightarrow> status" where
  "addCircuitBreakerMetrics v cb s =
     (let x = cb_Metrics cb; st = cb_State cb;
          s1 = kubelet_event v EventInfo ''CircuitBreakerMetrics''
                 (''Circuit breaker state: '' @ CircuitState_String st @ '' | Transitions: '' @ show_int (StateTransitions x)
                  @ '' | Openings: '' @ show_int (TotalOpenings x) @ '' | Recoveries: '' @ show_int (TotalRecoveries x)
                  @ '' | Backoff: '' @ show_int (CurrentBackoffMultiplier x) @ ''x'') s
      in if st = StateOpen then
           kubelet_event v EventWarning ''CircuitBreakerOpen''
             (''Circuit breaker is open due to repeated failures (openings: '' @ show_int (TotalOpenings x) @ '')'') s1
         else if st = StateHalfOpen then
           kubelet_event v EventInfo ''CircuitBreakerHalfOpen'' ''Circuit breaker is testing recovery'' s1
         else if st = StateClosed \<and> 0 < TotalRecoveries x then
           kubelet_event v EventInfo ''CircuitBreakerRecovered''
             (''Circuit breaker recovered successfully (total recoveries: '' @ show_int (TotalRecoveries x) @ '')'') s1
         else s1)"

definition checkHealth :: "kubelet_env \<Rightarrow> KubeletMonitorConfig \<Rightarrow> status \<Rightarrow> bool \<times> status" where
  "checkHealth v c s =
     (case fst (CheckHealth v c) of
        Some e \<Rightarrow> (False, kubelet_event v EventError ''KubeletHealthCheckFailed'' (''Kubelet health check failed: '' @ e) s)
      | None \<Rightarrow> (True, kubelet_event v EventInfo ''KubeletHealthy'' ''Kubelet health endpoint is responding'' s))"

definition checkSystemd :: "kubelet_env \<Rightarrow> status \<Rightarrow> bool \<times> status" where
  "checkSystemd v s =
     (case CheckSystemdStatus (kv_sys v) of
        Inl e \<Rightarrow> (True, kubelet_event v EventWarning ''SystemdCheckFailed'' (''Failed to check kubelet systemd status: '' @ e) s)
      | Inr active \<Rightarrow>
          if \<not> active then
            (False, kubelet_condition v ''KubeletDown'' ConditionTrue ''SystemdServiceInactive'' ''Kubelet systemd service is not active''
               (kubelet_event v EventError ''KubeletSystemdInactive'' ''Kubelet systemd service is not active'' s))
          else (True, kubelet_event v EventInfo ''KubeletSystemdActive'' ''Kubelet systemd service is active'' s))"

definition checkPLEG :: "kubelet_env \<Rightarrow> KubeletMonitorConfig \<Rightarrow> status \<Rightarrow> bool \<times> status" where
  "checkPLEG v c s =
     (case fst (GetMetrics v c) of
        Inl e \<Rightarrow> (True, kubelet_event v EventWarning ''PLEGMetricsFailed'' (''Failed to retrieve PLEG metrics: '' @ e) s)
      | Inr x \<Rightarrow>
          let d = float_seconds (kv_fl v) x in
          if kmc_PLEGThreshold c < d then
            (True, kubelet_event v EventWarning ''PLEGSlow'' (''PLEG relist duration ('' @ kv_durText v d @ '') exceeds threshold (''
               @ kv_durText v (kmc_PLEGThreshold c) @ '')'') s)
          else (True, kubelet_event v EventInfo ''PLEGHealthy'' (''PLEG relist duration is healthy ('' @ kv_durText v d @ '')'') s))"

definition kubelet_updateFailureTracking :: "kubelet_env \<Rightarrow> bool \<Rightarrow> KubeletMonitor \<times> status \<Rightarrow> KubeletMonitor \<times> status" where
  "kubelet_updateFailureTracking v healthy ms =
     (case ms of (m, s) \<Rightarrow>
       if \<not> healthy then
         let n = km_consecutiveFailures m + 1; t = kmc_FailureThreshold (km_config m) in
         (m\<lparr>km_consecutiveFailures := n\<rparr>,
          if t \<le> n then kubelet_condition v ''KubeletUnhealthy'' ConditionTrue ''RepeatedHealthCheckFailures''
             (''Kubelet has failed '' @ show_int n @ '' consecutive health checks (threshold: '' @ show_int t @ '')'') s
          else s)
       else
         let n = km_consecutiveFailures m;
             s1 = (if 0 < n then kubelet_event v EventInfo ''KubeletRecovered''
                     (''Kubelet health restored after '' @ show_int n @ '' consecutive failures'') s else s)
         in (if 0 < n then m\<lparr>km_consecutiveFailures := 0\<rparr> else m,
             kubelet_condition v ''KubeletUnhealthy'' ConditionFalse ''HealthCheckPassed'' ''Kubelet health checks are passing''
               (kubelet_condition v ''KubeletDown'' ConditionFalse ''KubeletUp'' ''Kubelet systemd service is active''
                 (kubelet_condition v ''KubeletHealthy'' ConditionTrue ''HealthCheckPassed'' ''Kubelet health checks are passing'' s1))))"

text \<open>The breaker reads the clock up to twice before the check and up to twice after it.\<close>

definition kubelet_probe :: "kubelet_env \<Rightarrow> KubeletMonitorConfig \<Rightarrow> status \<Rightarrow> bool \<times> status" where
  "kubelet_probe v c s0 =
     (let (a, s1) = checkHealth v c s0;
          (b, s2) = (if kmc_CheckSystemdStatus c then checkSystemd v s1 else (True, s1));
          (d, s3) = (if kmc_CheckPLEG c then checkPLEG v c s2 else (True, s2))
      in (a \<and> b \<and> d, s3))"

definition breaker_attempt :: "kubelet_env \<Rightarrow> KubeletMonitor \<Rightarrow> bool \<times> KubeletMonitor" where
  "breaker_attempt v m =
     (case km_circuitBreaker m of None \<Rightarrow> (True, m)
      | Some cb \<Rightarrow> (case CanAttempt (kv_breaker v 0) (kv_breaker v 1) cb of
           (ok, cb') \<Rightarrow> (ok, m\<lparr>km_circuitBreaker := Some cb'\<rparr>)))"

definition breaker_record :: "kubelet_env \<Rightarrow> bool \<Rightarrow> KubeletMonitor \<times> status \<Rightarrow> KubeletMonitor \<times> status" where
  "breaker_record v healthy ms =
     (case ms of (m, s) \<Rightarrow>
       (case km_circuitBreaker m of None \<Rightarrow> (m, s)
        | Some cb \<Rightarrow>
            let cb' = (if healthy then RecordSuccess (kv_breaker v 2) cb else RecordFailure (kv_breaker v 2) (kv_breaker v 3) cb)
            in (m\<lparr>km_circuitBreaker := Some cb'\<rparr>, addCircuitBreakerMetrics v cb' s)))"

definition checkKubelet :: "kubelet_env \<Rightarrow> KubeletMonitor \<Rightarrow> KubeletMonitor \<times> status" where
  "checkKubelet v m0 =
     (let s0 = NewStatus (kv_now v) (km_name m0) in
      case breaker_attempt v m0 of (ok, m) \<Rightarrow>
        if \<not> ok then
          let cb = the (km_circuitBreaker m);
              s1 = kubelet_event v EventWarning ''CircuitBreakerOpen''
                     (''Circuit breaker is open, skipping health check (state: '' @ CircuitState_String (cb_State cb) @ '')'') s0;
              s2 = kubelet_condition v ''KubeletUnhealthy'' ConditionTrue ''CircuitBreakerOpen''
                     ''Circuit breaker is open due to repeated failures'' s1
          in (m, addCircuitBreakerMetrics v cb s2)
        else
          (case kubelet_probe v (km_config m) s0 of (healthy, s1) \<Rightarrow>
             kubelet_updateFailureTracking v healthy (breaker_record v healthy (m, s1))))"

section \<open>Lemmas\<close>

lemma kubelet_says [simp]:
  "says ty v (kubelet_event e a b c s) = says ty v s"
  "says ty v (kubelet_condition e t a b c s) \<longleftrightarrow> says ty v s \<or> t = ty \<and> a = v"
  by (simp_all add: kubelet_event_def kubelet_condition_def)

lemma breaker_metrics_says [simp]: "says ty v (addCircuitBreakerMetrics e cb s) = says ty v s"
  by (simp add: addCircuitBreakerMetrics_def Let_def)

text \<open>What a check attempts: the verdict over its parts.\<close>

definition kubelet_passes :: "kubelet_env \<Rightarrow> KubeletMonitorConfig \<Rightarrow> bool" where
  "kubelet_passes v c \<longleftrightarrow> fst (CheckHealth v c) = None
     \<and> (kmc_CheckSystemdStatus c \<longrightarrow> CheckSystemdStatus (kv_sys v) \<noteq> Inr False)"

lemma kubelet_probe_effect:
  assumes "kubelet_probe v c s = (ok, s')"
  shows "ok = kubelet_passes v c"
    "says ''KubeletUnhealthy'' x s' = says ''KubeletUnhealthy'' x s"
    "says ''KubeletDown'' x s' \<longleftrightarrow> says ''KubeletDown'' x s
       \<or> x = ConditionTrue \<and> kmc_CheckSystemdStatus c \<and> CheckSystemdStatus (kv_sys v) = Inr False"
proof -
  obtain a s1 where a: "checkHealth v c s = (a, s1)" by (metis surj_pair)
  obtain b s2 where b: "(if kmc_CheckSystemdStatus c then checkSystemd v s1 else (True, s1)) = (b, s2)" by (metis surj_pair)
  obtain d s3 where d: "(if kmc_CheckPLEG c then checkPLEG v c s2 else (True, s2)) = (d, s3)" by (metis surj_pair)
  have r: "ok = (a \<and> b \<and> d)" "s' = s3" using assms a b d by (simp_all add: kubelet_probe_def)
  have 1: "a \<longleftrightarrow> fst (CheckHealth v c) = None" "says ty x s1 = says ty x s" for ty
    using a by (auto simp: checkHealth_def split: option.split_asm)
  have 2: "b \<longleftrightarrow> (kmc_CheckSystemdStatus c \<longrightarrow> CheckSystemdStatus (kv_sys v) \<noteq> Inr False)"
    "says ''KubeletUnhealthy'' x s2 = says ''KubeletUnhealthy'' x s1"
    "says ''KubeletDown'' x s2 \<longleftrightarrow> says ''KubeletDown'' x s1
       \<or> x = ConditionTrue \<and> kmc_CheckSystemdStatus c \<and> CheckSystemdStatus (kv_sys v) = Inr False"
    using b by (auto simp: checkSystemd_def split: if_splits sum.split_asm)
  have 3: "d" "says ty x s3 = says ty x s2" for ty
    using d by (auto simp: checkPLEG_def Let_def split: if_splits sum.split_asm)
  show "ok = kubelet_passes v c"
    "says ''KubeletUnhealthy'' x s' = says ''KubeletUnhealthy'' x s"
    "says ''KubeletDown'' x s' \<longleftrightarrow> says ''KubeletDown'' x s
       \<or> x = ConditionTrue \<and> kmc_CheckSystemdStatus c \<and> CheckSystemdStatus (kv_sys v) = Inr False"
    using r 1 2 3 by (auto simp: kubelet_passes_def)
qed

text \<open>A run of checks. The outcome of one: refused by the breaker, or passed or failed.\<close>

definition kubelet_step :: "kubelet_env \<Rightarrow> KubeletMonitor \<Rightarrow> KubeletMonitor" where
  "kubelet_step v m = fst (checkKubelet v m)"

definition kubelet_checks :: "kubelet_env list \<Rightarrow> KubeletMonitor \<Rightarrow> KubeletMonitor" where
  "kubelet_checks vs m = fold kubelet_step vs m"

definition kubelet_refused :: "kubelet_env \<Rightarrow> KubeletMonitor \<Rightarrow> bool" where
  "kubelet_refused v m \<longleftrightarrow> \<not> fst (breaker_attempt v m)"

definition kubelet_outcome :: "kubelet_env \<Rightarrow> KubeletMonitor \<Rightarrow> bool option" where
  "kubelet_outcome v m = (if kubelet_refused v m then None else Some (kubelet_passes v (km_config m)))"

fun kubelet_history :: "kubelet_env list \<Rightarrow> KubeletMonitor \<Rightarrow> bool option list" where
  "kubelet_history [] m = []"
| "kubelet_history (v # vs) m = kubelet_outcome v m # kubelet_history vs (kubelet_step v m)"

lemma kubelet_history_snoc: "kubelet_history (vs @ [v]) m = kubelet_history vs m @ [kubelet_outcome v (kubelet_checks vs m)]"
  by (induction vs arbitrary: m) (simp_all add: kubelet_checks_def)

definition failing_stretch :: "bool option list \<Rightarrow> nat" where
  "failing_stretch = stretch (\<lambda>x. x \<noteq> None) (\<lambda>x. x = Some False)"

lemma breaker_attempt_keeps:
  assumes "breaker_attempt v m = (ok, m')"
  shows "km_config m' = km_config m" "km_name m' = km_name m" "km_consecutiveFailures m' = km_consecutiveFailures m"
  using assms by (auto simp: breaker_attempt_def split: option.split_asm prod.split_asm)

lemma breaker_record_keeps:
  assumes "breaker_record v ok (m, s) = (m', s')"
  shows "km_config m' = km_config m" "km_consecutiveFailures m' = km_consecutiveFailures m" "says ty x s' = says ty x s"
  using assms by (auto simp: breaker_record_def Let_def split: option.split_asm)

lemma tracking_effect:
  assumes "kubelet_updateFailureTracking v ok (m, s) = (m', s')" "0 \<le> km_consecutiveFailures m"
  shows "km_config m' = km_config m"
    "km_consecutiveFailures m' = (if ok then 0 else km_consecutiveFailures m + 1)"
    "says ''KubeletUnhealthy'' x s' \<longleftrightarrow> says ''KubeletUnhealthy'' x s \<or> ok \<and> x = ConditionFalse
       \<or> \<not> ok \<and> x = ConditionTrue \<and> kmc_FailureThreshold (km_config m) \<le> km_consecutiveFailures m + 1"
    "says ''KubeletDown'' x s' \<longleftrightarrow> says ''KubeletDown'' x s \<or> ok \<and> x = ConditionFalse"
  using assms by (auto simp: kubelet_updateFailureTracking_def Let_def split: if_splits)

lemma checkKubelet_effect:
  assumes "checkKubelet v m = (m', s)" "0 \<le> km_consecutiveFailures m" "c = km_config m"
  shows "km_config m' = c"
    "km_consecutiveFailures m' = (case kubelet_outcome v m of None \<Rightarrow> km_consecutiveFailures m
       | Some ok \<Rightarrow> if ok then 0 else km_consecutiveFailures m + 1)"
    "says ''KubeletUnhealthy'' x s \<longleftrightarrow> (case kubelet_outcome v m of None \<Rightarrow> x = ConditionTrue
       | Some ok \<Rightarrow> if ok then x = ConditionFalse
           else x = ConditionTrue \<and> kmc_FailureThreshold c \<le> km_consecutiveFailures m + 1)"
    "says ''KubeletDown'' x s \<longleftrightarrow> kubelet_outcome v m \<noteq> None
       \<and> (x = ConditionTrue \<and> kmc_CheckSystemdStatus c \<and> CheckSystemdStatus (kv_sys v) = Inr False
          \<or> x = ConditionFalse \<and> kubelet_outcome v m = Some True)"
proof -
  obtain ok m1 where a: "breaker_attempt v m = (ok, m1)" by (metis surj_pair)
  note k = breaker_attempt_keeps [OF a]
  have "km_config m' = c \<and> km_consecutiveFailures m' = (case kubelet_outcome v m of None \<Rightarrow> km_consecutiveFailures m
       | Some ok \<Rightarrow> if ok then 0 else km_consecutiveFailures m + 1)
    \<and> (says ''KubeletUnhealthy'' x s \<longleftrightarrow> (case kubelet_outcome v m of None \<Rightarrow> x = ConditionTrue
       | Some ok \<Rightarrow> if ok then x = ConditionFalse
           else x = ConditionTrue \<and> kmc_FailureThreshold c \<le> km_consecutiveFailures m + 1))
    \<and> (says ''KubeletDown'' x s \<longleftrightarrow> kubelet_outcome v m \<noteq> None
       \<and> (x = ConditionTrue \<and> kmc_CheckSystemdStatus c \<and> CheckSystemdStatus (kv_sys v) = Inr False
          \<or> x = ConditionFalse \<and> kubelet_outcome v m = Some True))"
  proof (cases ok)
    case False
    then have "kubelet_outcome v m = None" using a by (simp add: kubelet_outcome_def kubelet_refused_def)
    then show ?thesis using assms a k False by (auto simp: checkKubelet_def Let_def)
  next
    case True
    obtain h s1 where p: "kubelet_probe v c (NewStatus (kv_now v) (km_name m)) = (h, s1)" by (metis surj_pair)
    obtain m2 s2 where r: "breaker_record v h (m1, s1) = (m2, s2)" by (metis surj_pair)
    have t: "kubelet_updateFailureTracking v h (m2, s2) = (m', s)"
      using assms(1,3) a True p r k by (simp add: checkKubelet_def Let_def)
    note pe = kubelet_probe_effect [OF p] and re = breaker_record_keeps [OF r]
    have o: "kubelet_outcome v m = Some h"
      using a True pe(1) assms(3) by (simp add: kubelet_outcome_def kubelet_refused_def)
    have "0 \<le> km_consecutiveFailures m2" using re k assms(2) by simp
    note te = tracking_effect [OF t this]
    have c: "km_config m1 = c" "km_config m2 = c" "km_consecutiveFailures m2 = km_consecutiveFailures m"
      using re(1,2) k assms(3) by simp_all
    have u: "says ''KubeletUnhealthy'' x s2 = False" "says ''KubeletDown'' x s2 \<longleftrightarrow> x = ConditionTrue
        \<and> kmc_CheckSystemdStatus c \<and> CheckSystemdStatus (kv_sys v) = Inr False"
      using re(3) pe(2,3) by simp_all
    have w: "h \<Longrightarrow> \<not> (kmc_CheckSystemdStatus c \<and> CheckSystemdStatus (kv_sys v) = Inr False)"
      using pe(1) by (simp add: kubelet_passes_def)
    show ?thesis
      unfolding te o c u option.case using w by (cases h) auto
  qed
  then show "km_config m' = c"
    "km_consecutiveFailures m' = (case kubelet_outcome v m of None \<Rightarrow> km_consecutiveFailures m
       | Some ok \<Rightarrow> if ok then 0 else km_consecutiveFailures m + 1)"
    "says ''KubeletUnhealthy'' x s \<longleftrightarrow> (case kubelet_outcome v m of None \<Rightarrow> x = ConditionTrue
       | Some ok \<Rightarrow> if ok then x = ConditionFalse
           else x = ConditionTrue \<and> kmc_FailureThreshold c \<le> km_consecutiveFailures m + 1)"
    "says ''KubeletDown'' x s \<longleftrightarrow> kubelet_outcome v m \<noteq> None
       \<and> (x = ConditionTrue \<and> kmc_CheckSystemdStatus c \<and> CheckSystemdStatus (kv_sys v) = Inr False
          \<or> x = ConditionFalse \<and> kubelet_outcome v m = Some True)"
    by blast+
qed

lemma kubelet_run:
  assumes "km_consecutiveFailures m = 0" "km_config m = c"
  shows "km_config (kubelet_checks vs m) = c
    \<and> km_consecutiveFailures (kubelet_checks vs m) = int (failing_stretch (kubelet_history vs m))"
proof (induction vs rule: rev_induct)
  case Nil
  then show ?case using assms by (simp add: kubelet_checks_def failing_stretch_def stretch_def)
next
  case (snoc v vs)
  obtain m' s where k: "checkKubelet v (kubelet_checks vs m) = (m', s)" by (metis surj_pair)
  have step: "kubelet_checks (vs @ [v]) m = m'"
    using k by (simp add: kubelet_checks_def kubelet_step_def [of v])
  have "0 \<le> km_consecutiveFailures (kubelet_checks vs m)" using snoc by simp
  note e = checkKubelet_effect [OF k this refl]
  show ?case
    using e(1,2) snoc step
    by (auto simp: kubelet_history_snoc failing_stretch_def stretch_snoc split: option.split if_splits)
qed

lemma NewKubeletMonitor_fresh: "NewKubeletMonitor v parse mc = Inr m \<Longrightarrow> km_consecutiveFailures m = 0"
  unfolding NewKubeletMonitor_def bindE_eq_Inr by (elim exE conjE) (auto simp: SetCheckFunc_def split: if_splits)

text \<open>Without \<^verbatim>\<open>systemctl\<close> the branch of \<^verbatim>\<open>CheckSystemdStatus\<close> for that case is never taken.\<close>

lemma CheckSystemdStatus_without_systemctl:
  "\<not> si_systemctl v \<Longrightarrow> CheckSystemdStatus v = Inr (fst (process_fallback v kubelet_processes))"
  by (simp add: CheckSystemdStatus_def GetServiceStatus_def IsSystemctlAvailable_def split: prod.split)

text \<open>Where a request may go: to the configured address, or, when that is a loopback, to the other loopback.\<close>

definition other_loopback :: "kubelet_env \<Rightarrow> string \<Rightarrow> string \<Rightarrow> bool" where
  "other_loopback v url url' \<longleftrightarrow> (case kv_parse v url of Inl _ \<Rightarrow> False
     | Inr u \<Rightarrow> isLoopbackHost v (url_Hostname u)
         \<and> list_ex (\<lambda>(h, t). url' = kv_print v (u\<lparr>url_Host := (if url_Port u \<noteq> [] then h @ '':'' @ url_Port u else h), url_Hostname := t\<rparr>))
               [(''[::1]'', ''::1''), (''127.0.0.1'', ''127.0.0.1'')])"

lemma fallback_is_loopback: "loopbackFallbackURL v url = Some url' \<Longrightarrow> other_loopback v url url'"
  by (auto simp: loopbackFallbackURL_def other_loopback_def loopback_target_def Let_def
      split: sum.split_asm if_splits option.split_asm ip_address.split_asm)

lemma kubelet_request_trace:
  assumes "kubelet_request v c url what = (r, t)"
  shows "length t \<le> 2 \<and> (\<forall>q\<in>set t. (hq_URL q = url \<or> other_loopback v url (hq_URL q))
    \<and> addAuthHeader v (kmc_Auth c) = Inr (hq_Authorization q))"
proof (cases "kv_parse v url")
  case (Inl e)
  then show ?thesis using assms by (simp add: kubelet_request_def)
next
  case (Inr u)
  show ?thesis
  proof (cases "addAuthHeader v (kmc_Auth c)")
    case (Inl e)
    then show ?thesis using assms Inr by (simp add: kubelet_request_def)
  next
    case h: (Inr h)
    obtain a t' where d: "doRequestWithLoopbackFallback v \<lparr>hq_URL = url, hq_Authorization = h\<rparr> = (a, t')" by (metis surj_pair)
    have "t = t'" using assms Inr h d by (auto simp: kubelet_request_def split: kubelet_answer.split_asm)
    moreover have "length t' \<le> 2 \<and> (\<forall>q\<in>set t'. (hq_URL q = url \<or> other_loopback v url (hq_URL q)) \<and> hq_Authorization q = h)"
      using d fallback_is_loopback [of v url]
      by (auto simp: doRequestWithLoopbackFallback_def Let_def split: if_splits option.split_asm sum.split_asm)
    ultimately show ?thesis using h by simp
  qed
qed

section \<open>Examples\<close>

text \<open>A node without \<^verbatim>\<open>systemctl\<close> and with no kubelet among the visible processes; the answers to the probe are given.\<close>

definition demo_kubelet_env :: "kubelet_answer \<Rightarrow> kubelet_env" where
  "demo_kubelet_env answer =
     \<lparr>kv_sys = \<lparr>si_exists = (\<lambda>_. False), si_readFile = (\<lambda>_. None), si_proc = Inr [], si_getenv = (\<lambda>_. []),
        si_systemctl = False, si_isActive = (\<lambda>_. ([], NotRun ''none''))\<rparr>,
      kv_stat = (\<lambda>_. None), kv_readFile = (\<lambda>_. Inl ''none''),
      kv_parse = (\<lambda>_. Inr \<lparr>url_Scheme = ''http'', url_Host = ''127.0.0.1:10248'', url_Hostname = ''127.0.0.1'', url_Port = ''10248'', url_Rest = ''/healthz''\<rparr>),
      kv_print = (\<lambda>u. url_Scheme u @ ''://'' @ url_Host u @ url_Rest u),
      kv_ip = (\<lambda>h. if h = ''127.0.0.1'' then Some (IPv4 [127, 0, 0, 1]) else None), kv_send = (\<lambda>_. answer),
      kv_parseFloat = (\<lambda>_. None), kv_fl = (\<lambda>x. x), kv_durText = (\<lambda>_. []), kv_now = 1, kv_breaker = (\<lambda>_. 1)\<rparr>"

definition demo_kubelet_config :: "bool \<Rightarrow> MonitorConfig" where
  "demo_kubelet_config systemd = \<lparr>mc_Name = ''kubelet'', mc_Type = ''kubernetes-kubelet-check'', mc_Enabled = True,
     mc_IntervalString = ''30s'', mc_TimeoutString = ''10s'', mc_Interval = 30 * second, mc_Timeout = 10 * second,
     mc_Config = [(''checkSystemdStatus'', CVBool systemd)], mc_Remediation = None, mc_DependsOn = []\<rparr>"

definition demo_kubelet_monitor :: "bool \<Rightarrow> KubeletMonitor" where
  "demo_kubelet_monitor systemd =
     \<lparr>km_name = ''kubelet'',
      km_config = \<lparr>kmc_HealthzURL = ''http://127.0.0.1:10248/healthz'', kmc_MetricsURL = ''http://127.0.0.1:10250/metrics'',
        kmc_CheckSystemdStatus = systemd, kmc_CheckPLEG = False, kmc_PLEGThreshold = 5 * second, kmc_FailureThreshold = 3,
        kmc_HTTPTimeout = 5 * second, kmc_Auth = None, kmc_CircuitBreaker = None\<rparr>,
      km_circuitBreaker = None, km_consecutiveFailures = 0,
      km_baseMonitor = \<lparr>bm_name = ''kubelet'', bm_interval = 30 * second, bm_timeout = 10 * second, bm_hasCheck = True,
        bm_running = False, bm_stopped = False, bm_buffer = [], bm_closed = False, bm_signalled = False, bm_loops = [],
        bm_stopping = 0, bm_panicked = False\<rparr>\<rparr>"

lemma demo_kubelet_made:
  "NewKubeletMonitor (demo_kubelet_env (Response 200 [])) (\<lambda>_. None) (demo_kubelet_config False) = Inr (demo_kubelet_monitor False)"
  by code_simp

lemma demo_kubelet_passes:
  "kubelet_passes (demo_kubelet_env (Response n [])) (km_config (demo_kubelet_monitor False)) \<longleftrightarrow> n = 200"
  by (simp add: kubelet_passes_def CheckHealth_def kubelet_request_def demo_kubelet_env_def demo_kubelet_monitor_def
      addAuthHeader_def doRequestWithLoopbackFallback_def isConnectionLevelError_def)

section \<open>Properties\<close>

text \<open>
  When the kubelet is called unhealthy: for a monitor made from its configuration, with or without circuit
  breaker, after any history of checks, a check reports \<^verbatim>\<open>KubeletUnhealthy\<close> as true exactly when the breaker
  refuses it, or when it fails and is at least the \<^verbatim>\<open>failureThreshold\<close>-th failure in a row, where checks the breaker
  refused neither count nor interrupt the row; it reports it as false exactly when the check was made and passed.
\<close>

lemma kubelet_unhealthy_exact:
  assumes "NewKubeletMonitor v0 parse mc = Inr m" "m1 = kubelet_checks vs m" "checkKubelet v m1 = (m2, s)"
  shows "(says ''KubeletUnhealthy'' ConditionTrue s \<longleftrightarrow> kubelet_refused v m1
      \<or> \<not> kubelet_passes v (km_config m)
        \<and> kmc_FailureThreshold (km_config m) \<le> int (failing_stretch (kubelet_history (vs @ [v]) m)))
    \<and> (says ''KubeletUnhealthy'' ConditionFalse s \<longleftrightarrow> \<not> kubelet_refused v m1 \<and> kubelet_passes v (km_config m))"
proof -
  have run: "km_config m1 = km_config m" "km_consecutiveFailures m1 = int (failing_stretch (kubelet_history vs m))"
    using kubelet_run [OF NewKubeletMonitor_fresh [OF assms(1)] refl, of vs] assms(2) by simp_all
  then have nonneg: "0 \<le> km_consecutiveFailures m1" by simp
  note e = checkKubelet_effect(3) [OF assms(3) nonneg refl]
  have stretch: "kubelet_outcome v m1 = Some False \<Longrightarrow>
      failing_stretch (kubelet_history (vs @ [v]) m) = Suc (failing_stretch (kubelet_history vs m))"
    using assms(2) by (auto simp: kubelet_history_snoc failing_stretch_def stretch_snoc)
  show ?thesis
    using e [of ConditionTrue] e [of ConditionFalse] run stretch True_not_False
    by (auto simp: kubelet_outcome_def)
qed

lemma kubelet_unhealthy_exact_example:
  "\<exists>m2 s. checkKubelet (demo_kubelet_env (Response 500 []))
       (kubelet_checks (replicate 2 (demo_kubelet_env (Response 500 []))) (demo_kubelet_monitor False)) = (m2, s)
     \<and> says ''KubeletUnhealthy'' ConditionTrue s"
proof -
  let ?v = "demo_kubelet_env (Response 500 [])" and ?m = "demo_kubelet_monitor False"
  obtain m2 s where k: "checkKubelet ?v (kubelet_checks (replicate 2 ?v) ?m) = (m2, s)" by (metis surj_pair)
  have f: "\<not> kubelet_passes ?v (km_config ?m)" by (simp add: demo_kubelet_passes)
  have nb: "breaker_attempt w x = (True, x)" if "km_circuitBreaker x = None" for w x
    using that by (simp add: breaker_attempt_def)
  have keep: "km_circuitBreaker (kubelet_step w x) = None \<and> km_config (kubelet_step w x) = km_config x"
    if "km_circuitBreaker x = None" for w x
    using that
    by (auto simp: kubelet_step_def checkKubelet_def nb Let_def breaker_record_def kubelet_updateFailureTracking_def split: prod.split)
  have o: "kubelet_outcome ?v x = Some False" if "km_circuitBreaker x = None" "km_config x = km_config ?m" for x
    using that f by (simp add: kubelet_outcome_def kubelet_refused_def nb)
  have b: "km_circuitBreaker ?m = None" by (simp add: demo_kubelet_monitor_def)
  have "kubelet_history (replicate 2 ?v @ [?v]) ?m = [Some False, Some False, Some False]"
    by (simp add: numeral_2_eq_2 o b keep)
  then have "int (failing_stretch (kubelet_history (replicate 2 ?v @ [?v]) ?m)) = 3"
    by (auto simp: failing_stretch_def stretch_def)
  moreover have "kmc_FailureThreshold (km_config ?m) = 3" by (simp add: demo_kubelet_monitor_def)
  ultimately show ?thesis
    using kubelet_unhealthy_exact [OF demo_kubelet_made refl k] f k by auto
qed

text \<open>
  Without \<^verbatim>\<open>systemctl\<close>, as in a container, a kubelet that answers is called down: when systemd status is
  checked, \<^verbatim>\<open>systemctl\<close> is not in the path and no visible process looks like a kubelet, every check the breaker admits reports
  \<^verbatim>\<open>KubeletDown\<close> as true and counts as a failure, whatever the health endpoint answers; the branch that means to treat
  this case as an error of the check, which would not count, is never reached.
\<close>

lemma kubelet_down_without_systemctl:
  assumes "\<not> si_systemctl (kv_sys v)" "\<not> fst (process_fallback (kv_sys v) kubelet_processes)"
    "kmc_CheckSystemdStatus (km_config m)" "0 \<le> km_consecutiveFailures m" "\<not> kubelet_refused v m"
    "checkKubelet v m = (m', s)"
  shows "CheckSystemdStatus (kv_sys v) = Inr False \<and> says ''KubeletDown'' ConditionTrue s
    \<and> km_consecutiveFailures m' = km_consecutiveFailures m + 1"
proof -
  have inactive: "CheckSystemdStatus (kv_sys v) = Inr False"
    using CheckSystemdStatus_without_systemctl [OF assms(1)] assms(2) by simp
  then have "kubelet_outcome v m = Some False"
    using assms(3,5) by (simp add: kubelet_outcome_def kubelet_passes_def)
  then show ?thesis
    using checkKubelet_effect(2,4) [OF assms(6,4) refl] inactive assms(3) by auto
qed

lemma kubelet_down_without_systemctl_example:
  "says ''KubeletDown'' ConditionTrue (snd (checkKubelet (demo_kubelet_env (Response 200 [])) (demo_kubelet_monitor True)))"
proof -
  let ?v = "demo_kubelet_env (Response 200 [])" and ?m = "demo_kubelet_monitor True"
  have "\<not> si_systemctl (kv_sys ?v)" by (simp add: demo_kubelet_env_def)
  moreover have "\<not> fst (process_fallback (kv_sys ?v) kubelet_processes)"
    by (simp add: process_fallback_def CheckProcessRunning_def CheckProcessRunningByPattern_def any_process_def demo_kubelet_env_def
        list_ex_iff)
  moreover have "kmc_CheckSystemdStatus (km_config ?m)" "0 \<le> km_consecutiveFailures ?m"
    by (simp_all add: demo_kubelet_monitor_def)
  moreover have "\<not> kubelet_refused ?v ?m" by (simp add: kubelet_refused_def breaker_attempt_def demo_kubelet_monitor_def)
  ultimately show ?thesis
    using kubelet_down_without_systemctl [OF _ _ _ _ _ prod.collapse [symmetric]] by blast
qed

text \<open>
  Probes stay where they are meant to go: each probe of the kubelet sends at most two requests, every one of
  them to the configured address or, when the host of that address is a loopback, to the same address on the other
  loopback; the credential each carries is the one the configuration says. A credential never goes to another host.
\<close>

lemma kubelet_probes_stay_local:
  "(case CheckHealth v c of (_, t) \<Rightarrow> length t \<le> 2
      \<and> list_all (\<lambda>q. (hq_URL q = kmc_HealthzURL c \<or> other_loopback v (kmc_HealthzURL c) (hq_URL q))
          \<and> addAuthHeader v (kmc_Auth c) = Inr (hq_Authorization q)) t)
   \<and> (case GetMetrics v c of (_, t) \<Rightarrow> length t \<le> 2
      \<and> list_all (\<lambda>q. (hq_URL q = kmc_MetricsURL c \<or> other_loopback v (kmc_MetricsURL c) (hq_URL q))
          \<and> addAuthHeader v (kmc_Auth c) = Inr (hq_Authorization q)) t)"
proof -
  obtain r t where h: "kubelet_request v c (kmc_HealthzURL c) ''health check'' = (r, t)" by (metis surj_pair)
  obtain r' t' where g: "kubelet_request v c (kmc_MetricsURL c) ''metrics'' = (r', t')" by (metis surj_pair)
  have "snd (CheckHealth v c) = t" using h by (simp add: CheckHealth_def split: sum.split prod.split)
  moreover have "snd (GetMetrics v c) = t'" using g by (simp add: GetMetrics_def split: sum.split prod.split)
  ultimately show ?thesis
    using kubelet_request_trace [OF h] kubelet_request_trace [OF g]
    by (simp add: split_beta list_all_iff)
qed

text \<open>The defaults of the circuit breaker are never used: an accepted configuration sets all of it.\<close>

lemma accepted_breaker_needs_no_defaults:
  assumes "ValidateKubeletConfig v parse mc = None" "NewKubeletMonitor v parse mc = Inr m"
    "kmc_CircuitBreaker (km_config m) = Some cb" "cfg_Enabled cb"
  shows "cb_applyDefaults cb = cb"
proof -
  obtain c where c: "bindE (parseKubeletConfig (kv_fl v) parse (mc_Config mc)) (kubelet_applyDefaults v) = Inr c" "km_config m = c"
    using assms(2) unfolding NewKubeletMonitor_def bindE_eq_Inr
    by (elim exE conjE) (auto simp: SetCheckFunc_def split: if_splits)
  have "cb_validate cb = None"
    using assms(1,3,4) c by (auto simp: ValidateKubeletConfig_def first_error_None split: option.split_asm)
  then show ?thesis by (auto simp: cb_validate_def cb_applyDefaults_def Let_def split: if_splits)
qed

end
