(* ===== verification/Spec2Isabelle.thy ===== *)
theory Spec2Isabelle
  imports Types Circuit_Breaker Base_Remediator Controller_Server Remediator_Registry Reload_Watcher Reload_Coordinator K8s_Exporter
    Base_Monitor Health_Server Builtin_Remediators HTTP_Exporter HTTP_Report System_CPU System_Alarm Kubelet_Monitor
begin

text \<open>
  Verification development of node-doctor, an agent that watches the health of Kubernetes nodes and can
  repair some problems, with an optional controller for the cluster.

  \<^bold>\<open>The program.\<close> One agent runs per node. It loads a configuration (\<^verbatim>\<open>pkg/util/config.go\<close>,
  \<^verbatim>\<open>pkg/types/config.go\<close>), adds the default monitors of the registry (\<^verbatim>\<open>pkg/monitors/registry.go\<close>) and hands
  it to the problem detector (\<^verbatim>\<open>pkg/detector\<close>), which starts the monitors in the order of their dependencies,
  receives their statuses, holds back the status of a monitor whose dependency is unhealthy, gives statuses to
  the exporters and dispatches remediations. A remediation passes the dispatch policy of the detector, then
  the remediator registry (\<^verbatim>\<open>pkg/remediators/registry.go\<close>) with its circuit breaker and rate limits, then, when
  the node is coordinated, the lease client, which asks the controller, and then the remediator with its own cooldown
  (\<^verbatim>\<open>pkg/remediators/base.go\<close>). A changed configuration file is seen by the watcher, loaded, normalised, validated and
  compared by the reload coordinator (\<^verbatim>\<open>pkg/reload\<close>) and applied by the detector. The controller
  (\<^verbatim>\<open>pkg/controller\<close>) collects reports, correlates problems over nodes and grants leases. The exporters pass statuses on: as conditions and
  events of the node to Kubernetes (\<^verbatim>\<open>pkg/exporters/kubernetes\<close>), and to webhooks and the controller (\<^verbatim>\<open>pkg/exporters/http\<close>);
  the health server (\<^verbatim>\<open>pkg/health\<close>) answers the probes of the kubelet.

  \<^bold>\<open>Theories.\<close>
  \<^item> \<^verbatim>\<open>Prelude\<close>: time and durations (64-bit, with the wrap-around written out), Go's maps as association lists,
    strings, and the shared lemmas.
  \<^item> \<^verbatim>\<open>Types\<close>: events, conditions, statuses and problems of \<^verbatim>\<open>pkg/types/types.go\<close>.
  \<^item> \<^verbatim>\<open>Config_Types\<close>, \<^verbatim>\<open>Config_Defaults\<close>, \<^verbatim>\<open>Config_Validate\<close>, \<^verbatim>\<open>Config_Env\<close>, \<^verbatim>\<open>Config_Load\<close>: the
    configuration, its defaults, its validation with the search for dependency cycles, the environment substitution and loading.
  \<^item> \<^verbatim>\<open>Monitor_Registry\<close>: monitor types and their factories, default monitors, and the normalisation of \<^verbatim>\<open>main\<close>.
  \<^item> \<^verbatim>\<open>Monitor_Order\<close>, \<^verbatim>\<open>Detector\<close>, \<^verbatim>\<open>Detector_Lifecycle\<close>: the detector; start order, status processing and
    remediation dispatch, and start, stop and the application of a reload.
  \<^item> \<^verbatim>\<open>Reload_Diff\<close>, \<^verbatim>\<open>Reload_Validator\<close>, \<^verbatim>\<open>Paths\<close>, \<^verbatim>\<open>Reload_Watcher\<close>, \<^verbatim>\<open>Reload_Coordinator\<close>: hot reload; the last composes the
    coordinator with the detector and its loop over change notifications.
  \<^item> \<^verbatim>\<open>Base_Remediator\<close>, \<^verbatim>\<open>Remediator_Registry\<close>, \<^verbatim>\<open>Lease_Client\<close>: the path of a remediation.
  \<^item> \<^verbatim>\<open>Remediators_Host\<close> (\<^verbatim>\<open>systemd.go\<close>, \<^verbatim>\<open>network.go\<close>), \<^verbatim>\<open>Remediator_Custom\<close> (\<^verbatim>\<open>custom.go\<close>), \<^verbatim>\<open>Remediators_Cluster\<close> (\<^verbatim>\<open>node_reboot.go\<close>,
    \<^verbatim>\<open>pod_delete.go\<close>), \<^verbatim>\<open>Builtin_Remediators\<close>: the remediators, as traces of the calls they make on the host and the cluster, and the registry filled
    with them, which \<^verbatim>\<open>main\<close> registers.
  \<^item> \<^verbatim>\<open>Base_Monitor\<close>: the frame of the monitors with its goroutine and channels. \<^verbatim>\<open>System_Common\<close>, \<^verbatim>\<open>System_Memory\<close>, \<^verbatim>\<open>System_CPU\<close>,
    \<^verbatim>\<open>System_Disk\<close>: the system monitors (\<^verbatim>\<open>pkg/monitors/system\<close>); \<^verbatim>\<open>System_Alarm\<close>: what a report to the controller makes of
    their statuses.
  \<^item> \<^verbatim>\<open>Circuit_Breaker\<close>: the circuit breaker of the kubelet monitor; \<^verbatim>\<open>Host_System\<close> (\<^verbatim>\<open>pkg/util/system.go\<close>), \<^verbatim>\<open>Kube_Common\<close> and
    \<^verbatim>\<open>Kubelet_Monitor\<close> (\<^verbatim>\<open>kubelet.go\<close>): the monitor itself, when it calls the kubelet unhealthy or down and where its probes go.
  \<^item> \<^verbatim>\<open>K8s_Client\<close>, \<^verbatim>\<open>K8s_Events\<close>, \<^verbatim>\<open>K8s_Conditions\<close>, \<^verbatim>\<open>K8s_Exporter\<close>: the Kubernetes exporter; the client with its retries, the event and
    condition managers, and the exporter that composes them. The API server is an argument.
  \<^item> \<^verbatim>\<open>HTTP_Client\<close>, \<^verbatim>\<open>HTTP_Pool\<close>, \<^verbatim>\<open>HTTP_Exporter\<close>, \<^verbatim>\<open>HTTP_Report\<close>: the HTTP exporter; one webhook with its authentication and retries, the pool
    of workers as a step relation, the exporter, and the reports to the controller. \<^verbatim>\<open>Health_Server\<close>: the health server.
  \<^item> \<^verbatim>\<open>Controller_Types\<close>, \<^verbatim>\<open>Controller_Storage\<close>, \<^verbatim>\<open>Correlator\<close>, \<^verbatim>\<open>Controller_Server\<close>: the controller.
  \<^item> this theory: a coordinated node together with its controller.
\<close>

text \<open>
  \<^bold>\<open>How state and effects are modelled.\<close> A struct is a record, with the lock left out: an operation that
  holds the lock from beginning to end is one function from state to state, and interleavings are sequences of such
  steps. What an operation takes from outside (the clock, a storage, a factory, a remediator, an HTTP round trip, the order
  in which a map is walked) is an argument or a record of functions; a clock is a function of the position of the call.
  Atomicity: three operations give their lock up on the way and are nevertheless one step here. \<open>Remediate\<close> takes the registry's lock for each phase;
  the detector dispatches one remediation after the other, so in the agent its calls do not overlap. \<open>releaseLease\<close> and \<open>handleReports\<close> of
  the controller write to the storage after the lock is given up; the model makes that write part of the step, so that what another handler could see
  in between is not represented. Where interleavings inside an operation matter to a property they are modelled as steps of their own: the pool of
  the HTTP exporter, the frame of the monitors, the watcher.
  Errors are values of option or sum types with the texts of the code where they are observable. Integers that
  can overflow (durations, the backoff of the circuit breaker, counters of the environment) keep their width.

  \<^bold>\<open>Interfaces.\<close> \<open>tripping_breaker\<close> (\<^verbatim>\<open>Circuit_Breaker\<close>) is what a circuit breaker promises, interpreted by the kubelet's
  breaker and the registry's; \<open>limited_dispatch\<close> (\<^verbatim>\<open>Base_Remediator\<close>) is a cooldown with an attempt limit,
  interpreted by the base remediator and the detector's incident policy; \<open>lease_storage\<close> (\<^verbatim>\<open>Controller_Storage\<close>) is the storage
  that the lease bound relies on over restarts, interpreted by the tables of SQLite; \<open>auth_provider\<close> (\<^verbatim>\<open>HTTP_Client\<close>) is what the HTTP client
  expects of an authentication, interpreted by the providers of the code; \<open>sustained\<close> (\<^verbatim>\<open>System_Common\<close>) counts readings in a row, interpreted
  by the memory, the CPU load and the disk monitor.

  \<^bold>\<open>What is shown.\<close> Leases: never more active ones than configured, over restarts too, cooldown after release, and no
  remediation of a coordinated node without one. Remediation: every gate is passed before a remediator runs,
  limits per hour, breaker, first success among strategies, attempts limited and spaced, dispatch only under the policy.
  Detector: blocking follows dependencies transitively, start order, every startable monitor starts.
  Reload: the running monitors stay in agreement with the current configuration, a rejected file changes nothing, an edit is not lost
  by the watcher, reloading an unchanged file does nothing, and the two searches for cycles agree. Configuration: defaults are idempotent, what is loaded can
  be scheduled. Correlation and cluster status are exact.
  Remediators: cordon, drain and reboot in that order, at most one pod deleted and only the target, a reported success is real, scripts are vetted and
  their arguments arrive, and a remediator without attempts left opens the circuit for all. Exporters: only owned conditions are written, events are
  limited per minute, exports are neither lost nor counted twice. Health: liveness does not depend on what is downstream, readiness is exact. System
  monitors: pressure is reported exactly when it is sustained, a read-only verdict is exact. Frame: no panic in runs without overlapping stops, and
  the kubelet's circuit breaker refines its three-state specification. The kubelet is called unhealthy exactly after so many failures in a row,
  and its probes go only where they are meant to. Where the code does not do what its comments
  say, the theorem states what it does.

  \<^bold>\<open>Bounds.\<close> The two depth-first searches take fuel: the number of monitors plus one at start, the number of monitors and dependencies
  plus one at reload; both are proved to be enough (\<open>circular_dependency_check_exact\<close>,
  \<open>reload_dependency_check_exact\<close>). Every other loop is structural recursion or ends by a proved measure.

  \<^bold>\<open>Not modelled.\<close> The Prometheus exporter, the network, custom and example monitors, the Kubernetes monitors other than the kubelet's, the bodies of the metrics and events of the controller (their calls are recorded in its state), the logger and the wiring of the controller's
  binary: they mostly call libraries (Prometheus, client-go, netlink, regular expressions) or probe the machine. Goroutines and channels appear as
  the sequences of steps they allow.
\<close>

section \<open>A coordinated node and its controller\<close>

text \<open>The controller's answer as it reaches the client: the status code and the decoded \<^verbatim>\<open>data\<close> field.\<close>

definition over_http :: "LeaseResponse APIResponse \<Rightarrow> transport" where
  "over_http r = HttpReply (ar_status r) (Some (case ar_data r of Some x \<Rightarrow> x | None \<Rightarrow> zero_LeaseResponse)) []"

lemma over_http_approved:
  assumes "sendLeaseRequest (over_http r) = Inr resp" "lr_Approved resp"
  shows "approved r \<and> ar_data r = Some resp"
  using assms
  by (auto simp: sendLeaseRequest_def over_http_def approved_def zero_LeaseResponse_def split: if_splits option.splits)

text \<open>
  C5. A node whose lease client has no fallback runs a remediator only under a lease of its
  controller: with a transport that loses requests or answers but does not forge them, a call that
  runs the remediator was preceded by an attempt that the controller, in the state it then had,
  answered by registering an active lease for this node and this remediation type, while fewer
  leases than the cluster-wide maximum were active and the node had no other one.\<close>

theorem remediation_runs_under_controller_lease:
  assumes "Remediate v ty p r = (ret, True, r')" "rg_leaseClient r = Some lc"
    "\<not> rcc_FallbackOnUnreachable (lc_config lc)"
    "\<forall>n req. (\<exists>e. lv_send (rv_lease v) n req = RoundTripFailed e)
       \<or> lv_send (rv_lease v) n req = over_http (fst (requestLease ops (env n) parseDur (ck n) (Some req) (srv n)))"
  shows "\<exists>n req l. lq_NodeName req = lc_nodeName lc \<and> lq_RemediationType req = ty
    \<and> map_of (sv_leases (snd (requestLease ops (env n) parseDur (ck n) (Some req) (srv n)))) (le_ID l) = Some l
    \<and> le_NodeName l = lc_nodeName lc \<and> le_RemediationType l = ty \<and> le_Status l = ''active''
    \<and> active_count (ck n) (sv_leases (srv n)) < cd_MaxConcurrentRemediations (cf_Coordination (sv_config (srv n)))
    \<and> node_holder (ck n) (lc_nodeName lc) (sv_leases (srv n)) = None"
proof -
  let ?v = "rv_lease v" and ?req = "lease_request (rv_lease v) ty (pr_Message p) lc"
  obtain recorded r1 where "reg_phases v ty p r = (ret, recorded, True, r1)"
    using assms(1) by (auto simp: Remediate_def split: prod.splits)
  from reg_phases_passed [OF this] obtain r3 where "gate_view r3 = gate_view r"
    and "reg_with_lease v ty p r3 = (ret, recorded, True, r1)" by blast
  with assms(2) obtain resp lc' where
    req: "RequestLease ?v ty (pr_Message p) lc = (Inr resp, lc')" and ok: "lr_Approved resp"
    using reg_with_lease_did [of v ty p r3] by (auto simp: gate_view_def)
  obtain n where send: "sendLeaseRequest (lv_send ?v n ?req) = Inr resp"
  proof -
    obtain x lc1 where x: "lease_attempts ?v ?req (nat (rcc_MaxRetries (lc_config lc))) 1 None
        (recordRequestAttempt (lv_now ?v 0) lc) = (x, lc1)" by fastforce
    have "x = GotResponse resp"
      using req assms(3) unfolding RequestLease_alt x by (auto split: attempts_result.splits)
    with lease_attempts_response [of ?v ?req _ 1 None _ resp lc1] x that show ?thesis by blast
  qed
  then have "lv_send ?v n ?req = over_http (fst (requestLease ops (env n) parseDur (ck n) (Some ?req) (srv n)))"
  proof -
    have "\<nexists>e. lv_send ?v n ?req = RoundTripFailed e"
      using send by (auto simp: sendLeaseRequest_def)
    then show ?thesis using assms(4) by blast
  qed
  with send ok have granted: "approved (fst (requestLease ops (env n) parseDur (ck n) (Some ?req) (srv n)))"
    using over_http_approved by metis
  obtain a s' where call: "requestLease ops (env n) parseDur (ck n) (Some ?req) (srv n) = (a, s')" by fastforce
  from call show ?thesis
  proof (cases rule: requestLease_cases)
    case denied
    with granted call show ?thesis by simp
  next
    case (granted q l)
    then have "q = ?req" by simp
    with granted call show ?thesis
      by (intro exI [of _ n] exI [of _ q] exI [of _ l])
        (simp add: new_lease_def lease_request_def update_conv')
  qed
qed


definition demo_controlled :: "(unit, unit) reg_env" where
  "demo_controlled = (fst (demo_call 7 CallOk))\<lparr>rv_lease := demo_lease_env\<lparr>lv_send := \<lambda>n req.
     if n = 1 then RoundTripFailed ''timeout''
     else over_http (fst (requestLease sqlite_ops (\<lambda>_. demo_env) (\<lambda>_. None) (\<lambda>_. 100) (Some req)
       (demo_server\<lparr>sv_leases := [], sv_storage := None\<rparr>)))\<rparr>\<rparr>"

theorem remediation_runs_under_controller_lease_witness:
  "\<exists>l req. map_of (sv_leases (snd (requestLease sqlite_ops (\<lambda>_. demo_env) (\<lambda>_. None) (\<lambda>_. 100) (Some req)
       (demo_server\<lparr>sv_leases := [], sv_storage := None\<rparr>)))) (le_ID l) = Some l \<and> le_NodeName l = ''n1''"
proof -
  let ?r = "demo_registry\<lparr>rg_leaseClient := Some demo_client\<rparr>"
  have "\<exists>r'. Remediate demo_controlled ''svc'' demo_problem ?r = (None, True, r')"
    by (simp add: demo_controlled_def demo_registry_defs demo_lease_env_def demo_client_def demo_coordination_def
        RequestLease_def sendLeaseRequest_def over_http_def requestLease_def writeSuccess_def demo_server_def
        SetStorage_def NewServer_def DefaultControllerConfig_def active_count_def node_holder_def cooldown_denial_def
        zero_LeaseResponse_def numeral_3_eq_3)
  then obtain r' where run: "Remediate demo_controlled ''svc'' demo_problem ?r = (None, True, r')" by blast
  have send: "\<forall>n req. (\<exists>e. lv_send (rv_lease demo_controlled) n req = RoundTripFailed e)
      \<or> lv_send (rv_lease demo_controlled) n req
        = over_http (fst (requestLease sqlite_ops (\<lambda>_. demo_env) (\<lambda>_. None) (\<lambda>_. 100) (Some req)
            (demo_server\<lparr>sv_leases := [], sv_storage := None\<rparr>)))"
    by (simp add: demo_controlled_def)
  have "rg_leaseClient ?r = Some demo_client" "\<not> rcc_FallbackOnUnreachable (lc_config demo_client)"
    "lc_nodeName demo_client = ''n1''"
    by (simp_all add: demo_client_def demo_coordination_def)
  with remediation_runs_under_controller_lease [OF run, of demo_client sqlite_ops "\<lambda>_ _. demo_env" "\<lambda>_. None"
      "\<lambda>_ _. 100" "\<lambda>_. demo_server\<lparr>sv_leases := [], sv_storage := None\<rparr>"] send
  show ?thesis by metis
qed

end
